(* ===== verification/Bonfire_Prelude.thy ===== *)
theory Bonfire_Prelude
  imports Main "HOL-Library.Word"
begin

text \<open>
  Shared vocabulary of the development: the types of the hardware description (MyHDL
  \<open>modbv\<close>/\<open>intbv\<close> values of a fixed width are words of that width, \<open>bool\<close> signals are
  booleans), the bit-vector operations the sources use on them (slicing, concatenation,
  assignment to one bit or to a slice), and generic lemmas about iterating a clocked step.

  Conventions. A block of the sources is a group of processes. A combinational process
  (\<open>always_comb\<close>) is a function of the current signals. A clocked process (\<open>always\<close>,
  \<open>always_seq\<close>) is a function from the current signals to the next register values; all
  clocked processes of a block read the same old values, so they compose as one function.
  A slice \<open>w[hi:lo]\<close> of the sources, bits \<open>lo\<close> to \<open>hi - 1\<close>, is \<open>bv_slice hi lo w\<close>.
\<close>

unbundle bit_operations_syntax

type_synonym xword = "32 word"  \<comment> \<open>\<open>xlen = 32\<close>, the only width the sources configure\<close>
type_synonym ip_word = "30 word" \<comment> \<open>a program counter without its \<open>ip_low = 2\<close> low bits\<close>
type_synonym regno = "5 word"

named_theorems bv_simps \<open>bit-level characterisations of the bit-vector operations\<close>
named_theorems step_defs \<open>definitions of clocked steps and of the combinational functions in them\<close>

subsection \<open>Bit vectors\<close>

definition bv_slice :: "nat \<Rightarrow> nat \<Rightarrow> 'a::len word \<Rightarrow> 'b::len word" where
  "bv_slice hi lo w = ucast (take_bit (hi - lo) (drop_bit lo w))"

definition bv_cat :: "'a::len word \<Rightarrow> 'b::len word \<Rightarrow> 'c::len word" where
  "bv_cat a b = push_bit LENGTH('b) (ucast a) OR ucast b"

definition bv_put :: "nat \<Rightarrow> bool \<Rightarrow> 'a::len word \<Rightarrow> 'a word" where
  "bv_put n b w = (if b then Bit_Operations.set_bit n w else Bit_Operations.unset_bit n w)"

definition bv_put_slice :: "nat \<Rightarrow> nat \<Rightarrow> 'b::len word \<Rightarrow> 'a::len word \<Rightarrow> 'a word" where
  "bv_put_slice hi lo v w =
     (w AND NOT (push_bit lo (mask (hi - lo)))) OR push_bit lo (take_bit (hi - lo) (ucast v))"

definition bv_sext :: "'a::len word \<Rightarrow> 'b::len word" where
  "bv_sext v = scast v"

text \<open>The bit of a boolean signal as a one-bit vector, for concatenations.\<close>

definition bv_bool :: "bool \<Rightarrow> 1 word" where
  "bv_bool b = of_bool b"

lemma bit_bv_slice [bv_simps]:
  "bit (bv_slice hi lo (w :: 'a::len word) :: 'b::len word) n \<longleftrightarrow>
     n < LENGTH('b) \<and> n < hi - lo \<and> bit w (lo + n)"
  by (auto simp: bv_slice_def bit_simps dest: bit_imp_le_length)

lemma bit_bv_cat [bv_simps]:
  "bit (bv_cat (a :: 'a::len word) (b :: 'b::len word) :: 'c::len word) n \<longleftrightarrow>
     n < LENGTH('c) \<and> (if n < LENGTH('b) then bit b n else bit a (n - LENGTH('b)))"
  by (auto simp: bv_cat_def bit_simps dest: bit_imp_le_length)

lemma bit_bv_put [bv_simps]:
  "bit (bv_put m b (w :: 'a::len word)) n \<longleftrightarrow>
     (if n = m then n < LENGTH('a) \<and> b else bit w n)"
  by (auto simp: bv_put_def bit_simps possible_bit_def dest: bit_imp_le_length)

lemma bit_bv_put_slice [bv_simps]:
  "bit (bv_put_slice hi lo (v :: 'b::len word) (w :: 'a::len word)) n \<longleftrightarrow>
     n < LENGTH('a) \<and> (if lo \<le> n \<and> n < hi then bit v (n - lo) else bit w n)"
  by (auto simp: bv_put_slice_def bit_simps not_le not_less dest: bit_imp_le_length)

lemma bit_bv_sext [bv_simps]:
  "bit (bv_sext (v :: 'a::len word) :: 'b::len word) n \<longleftrightarrow>
     n < LENGTH('b) \<and> bit v (min n (LENGTH('a) - 1))"
proof (cases "n < LENGTH('a)")
  case True
  then have "min n (LENGTH('a) - 1) = n" by arith
  with True show ?thesis by (auto simp: bv_sext_def bit_simps)
next
  case False
  then show ?thesis by (auto simp: bv_sext_def bit_simps min_def)
qed

lemma bit_bv_bool [bv_simps]: "bit (bv_bool b) n \<longleftrightarrow> n = 0 \<and> b"
  by (auto simp: bv_bool_def bit_simps)

text \<open>Equality of words from their bits, as an introduction rule on a bounded index.\<close>

lemma bv_eqI: "(\<And>n. n < LENGTH('a) \<Longrightarrow> bit v n \<longleftrightarrow> bit w n) \<Longrightarrow> v = (w :: 'a::len word)"
  by (rule bit_word_eqI)

lemma xword_eqI: "(\<And>n. n < 32 \<Longrightarrow> bit v n \<longleftrightarrow> bit w n) \<Longrightarrow> v = (w :: xword)"
  by (rule bit_word_eqI) simp

lemma bit_signed_drop_bit_xword [bv_simps]:
  "bit (signed_drop_bit m (w :: xword)) n \<longleftrightarrow>
     n < 32 \<and> bit w (if n + m < 32 then n + m else 31)"
proof -
  have "bit (signed_drop_bit m w) n \<longleftrightarrow>
      bit w (if 32 - m \<le> n \<and> n < 32 then 31 else m + n)"
    by (simp add: bit_signed_drop_bit_iff)
  moreover have "\<not> bit w k" if "32 \<le> k" for k
    using that bit_imp_le_length[of w k] by auto
  ultimately show ?thesis by (auto simp: add.commute)
qed

lemma bv_slice_id [simp]: "bv_slice LENGTH('a) 0 (w :: 'a::len word) = w"
  by (rule bv_eqI) (simp add: bv_simps)

lemma bv_slice_32_id [simp]: "bv_slice 32 0 (w :: xword) = w"
  by (rule bv_eqI) (simp add: bv_simps)

text \<open>The top bit of a word against its unsigned value, and two's complement.\<close>

lemma bit_top_uint:
  fixes w :: "'a::len word"
  assumes "LENGTH('a) = Suc n"
  shows "bit w n \<longleftrightarrow> 2 ^ n \<le> uint w"
proof -
  have "bit w n \<longleftrightarrow> odd (uint w div 2 ^ n)"
    using bit_iff_odd[of "uint w" n] bit_uint_iff[of w n] assms by simp
  moreover have "0 \<le> uint w" "uint w < 2 * 2 ^ n"
    using uint_bounded[of w] assms by simp_all
  then have "uint w div 2 ^ n = (if 2 ^ n \<le> uint w then 1 else 0)"
    by (auto simp: div_pos_pos_trivial div_pos_geq)
  ultimately show ?thesis by simp
qed

lemma sint_top_uint:
  fixes w :: "'a::len word"
  assumes "LENGTH('a) = Suc n"
  shows "sint w = uint w - (if bit w n then 2 ^ Suc n else 0)"
proof -
  have "sint w = signed_take_bit n (uint w)"
    by (simp add: sint_uint assms)
  also have "\<dots> = take_bit (Suc n) (uint w) - 2 ^ Suc n * of_bool (bit (uint w) n)"
    by (rule signed_take_bit_eq_take_bit_minus)
  also have "take_bit (Suc n) (uint w) = uint w"
    using uint_bounded[of w] assms by (simp add: take_bit_int_eq_self)
  finally show ?thesis using assms by (simp add: bit_uint_iff)
qed

lemmas bit_31_uint = bit_top_uint[where 'a = 32 and n = 31, simplified]
lemmas bit_32_uint = bit_top_uint[where 'a = 33 and n = 32, simplified]
lemmas sint_xword = sint_top_uint[where 'a = 32 and n = 31, simplified]
lemmas sint_33 = sint_top_uint[where 'a = 33 and n = 32, simplified]

lemma uint_NOT:
  fixes w :: "'a::len word"
  shows "uint (NOT w) = 2 ^ LENGTH('a) - 1 - uint w"
proof -
  have "uint (NOT w) = take_bit LENGTH('a) (NOT (uint w))"
    by (simp add: unsigned_not_eq)
  also have "\<dots> = mask LENGTH('a) - uint w"
    by (simp add: take_bit_not_eq_mask_diff take_bit_int_eq_self)
  finally show ?thesis by (simp add: mask_eq_exp_minus_1)
qed

lemma uint_ucast_33 [simp]: "uint (ucast (w :: xword) :: 33 word) = uint w"
  by (rule uint_up_ucast) (simp add: is_up)

lemma bv_slice_33_32: "bv_slice 32 0 (w :: 33 word) = (word_of_int (uint w) :: xword)"
  by (rule xword_eqI) (auto simp: bv_simps bit_simps bit_word_of_int_iff)

lemma bv_bool_eq_1 [simp]: "bv_bool b = 1 \<longleftrightarrow> b" "bv_bool b = 0 \<longleftrightarrow> \<not> b"
  by (simp_all add: bv_bool_def)

lemma uint_bv_cat:
  fixes a :: "'a::len word" and b :: "'b::len word"
  assumes "LENGTH('a) + LENGTH('b) \<le> LENGTH('c::len)"
  shows "uint (bv_cat a b :: 'c word) = uint a * 2 ^ LENGTH('b) + uint b"
proof -
  have "uint (bv_cat a b :: 'c word) = push_bit LENGTH('b) (uint a) OR uint b"
    using assms
    by (intro bit_eqI) (auto simp: bv_simps bit_simps dest: bit_imp_le_length)
  also have "\<dots> = push_bit LENGTH('b) (uint a) + uint b"
    by (rule disjunctive_add [symmetric]) (auto simp: bit_simps dest: bit_imp_le_length)
  finally show ?thesis by (simp add: push_bit_eq_mult)
qed

lemma uint_bv_slice:
  fixes w :: "'a::len word"
  assumes "hi - lo \<le> LENGTH('b::len)"
  shows "uint (bv_slice hi lo w :: 'b word) = uint w div 2 ^ lo mod 2 ^ (hi - lo)"
proof -
  have "uint (bv_slice hi lo w :: 'b word) = take_bit (hi - lo) (drop_bit lo (uint w))"
    using assms by (intro bit_eqI) (auto simp: bv_simps bit_simps dest: bit_imp_le_length)
  then show ?thesis by (simp add: take_bit_eq_mod drop_bit_eq_div)
qed

lemma uint_of_bool [simp]: "uint (of_bool b :: 'a::len word) = of_bool b"
  by (cases b) simp_all

lemma word2_cases: "(w :: 2 word) = 0 \<or> w = 1 \<or> w = 2 \<or> w = 3"
proof (cases w rule: word_nat_cases)
  case (1 n)
  then have "n \<in> {0, 1, 2, 3}" by auto
  with 1 show ?thesis by auto
qed

lemma word3_cases:
  "(w :: 3 word) = 0 \<or> w = 1 \<or> w = 2 \<or> w = 3 \<or> w = 4 \<or> w = 5 \<or> w = 6 \<or> w = 7"
proof (cases w rule: word_nat_cases)
  case (1 n)
  then have "n \<in> {0, 1, 2, 3, 4, 5, 6, 7}" by auto
  with 1 show ?thesis by auto
qed

lemma less_nat_cases_5:
  "n < (5::nat) \<longleftrightarrow> n = 0 \<or> n = 1 \<or> n = 2 \<or> n = 3 \<or> n = 4"
  by arith

subsection \<open>Iterating a clocked step\<close>

text \<open>The states of a clocked block driven by a list of inputs, one per clock edge.\<close>

fun clocked_run :: "('i \<Rightarrow> 's \<Rightarrow> 's) \<Rightarrow> 'i list \<Rightarrow> 's \<Rightarrow> 's" where
  "clocked_run f [] s = s"
| "clocked_run f (i # is) s = clocked_run f is (f i s)"

lemma clocked_run_append [simp]:
  "clocked_run f (xs @ ys) s = clocked_run f ys (clocked_run f xs s)"
  by (induction xs arbitrary: s) auto

lemma clocked_run_invariant:
  assumes "\<And>i s. i \<in> set is \<Longrightarrow> I s \<Longrightarrow> I (f i s)" and "I s"
  shows "I (clocked_run f is s)"
  using assms by (induction "is" arbitrary: s) auto

lemma clocked_run_replicate: "clocked_run f (replicate n i) s = (f i ^^ n) s"
  by (induction n arbitrary: s) (simp_all add: funpow_swap1)

end
