(* ===== verification/Config.thy ===== *)
theory Config
  imports Bonfire_Prelude
begin

text \<open>
  The build-time configuration of the core (\<open>rtl/config.py\<close>) and the instruction-set
  constants (\<open>rtl/instructions.py\<close>). The fields the generators branch on are kept;
  \<open>xlen\<close> is 32, \<open>RVC\<close> is off (it is asserted off by the execute stage), hence
  \<open>ip_low\<close> is 2, and \<open>mcause_max\<close> is 64.
\<close>

datatype shifter_mode = Shift_None | Shift_Comb | Shift_Pipelined | Shift_Behavioral

record bonfire_config =
  shifter_mode :: shifter_mode
  jump_predictor :: bool
  jump_bypass :: bool
  mem_write_early_term :: bool
  loadstore_outstanding :: nat
  registered_read_stage :: bool
  pipeline_length :: nat
  writeback_bypass :: bool
  reset_address :: xword
  enableDebugModule :: bool
  numdata :: nat
  dmi_adr_width :: nat
  progbuf_size :: nat

definition default_config :: bonfire_config where
  "default_config =
     \<lparr>shifter_mode = Shift_Pipelined,
      jump_predictor = False,
      jump_bypass = True,
      mem_write_early_term = False,
      loadstore_outstanding = 1,
      registered_read_stage = True,
      pipeline_length = 3,
      writeback_bypass = False,
      reset_address = 0,
      enableDebugModule = False,
      numdata = 1,
      dmi_adr_width = 7,
      progbuf_size = 2\<rparr>"

lemma default_config_fields [simp]:
  "shifter_mode default_config = Shift_Pipelined" "jump_predictor default_config = False"
  "jump_bypass default_config = True" "mem_write_early_term default_config = False"
  "loadstore_outstanding default_config = 1" "registered_read_stage default_config = True"
  "pipeline_length default_config = 3" "writeback_bypass default_config = False"
  "reset_address default_config = 0" "enableDebugModule default_config = False"
  "numdata default_config = 1" "dmi_adr_width default_config = 7"
  "progbuf_size default_config = 2"
  by (simp_all add: default_config_def)

text \<open>The assertions made when a core is created (\<open>BonfireCoreTop.__init__\<close>).\<close>

definition core_config_ok :: "bonfire_config \<Rightarrow> bool" where
  "core_config_ok c \<longleftrightarrow>
     (pipeline_length c = 3 \<or> pipeline_length c = 4) \<and>
     (\<not> writeback_bypass c \<or> pipeline_length c = 4)"

lemma core_config_ok_default: "core_config_ok default_config"
  by (simp add: core_config_ok_def default_config_def)

subsection \<open>Instruction-set constants\<close>

text \<open>Major opcodes: bits 6 to 2 of an instruction.\<close>

abbreviation (input) RV32_LUI :: "5 word" where "RV32_LUI \<equiv> 13"
abbreviation (input) RV32_AUIPC :: "5 word" where "RV32_AUIPC \<equiv> 5"
abbreviation (input) RV32_JAL :: "5 word" where "RV32_JAL \<equiv> 27"
abbreviation (input) RV32_JALR :: "5 word" where "RV32_JALR \<equiv> 25"
abbreviation (input) RV32_BRANCH :: "5 word" where "RV32_BRANCH \<equiv> 24"
abbreviation (input) RV32_LOAD :: "5 word" where "RV32_LOAD \<equiv> 0"
abbreviation (input) RV32_STORE :: "5 word" where "RV32_STORE \<equiv> 8"
abbreviation (input) RV32_IMM :: "5 word" where "RV32_IMM \<equiv> 4"
abbreviation (input) RV32_OP :: "5 word" where "RV32_OP \<equiv> 12"
abbreviation (input) RV32_FENCE :: "5 word" where "RV32_FENCE \<equiv> 3"
abbreviation (input) RV32_SYSTEM :: "5 word" where "RV32_SYSTEM \<equiv> 28"

abbreviation (input) RV32_F3_BEQ :: "3 word" where "RV32_F3_BEQ \<equiv> 0"
abbreviation (input) RV32_F3_BNE :: "3 word" where "RV32_F3_BNE \<equiv> 1"
abbreviation (input) RV32_F3_BLT :: "3 word" where "RV32_F3_BLT \<equiv> 4"
abbreviation (input) RV32_F3_BGE :: "3 word" where "RV32_F3_BGE \<equiv> 5"
abbreviation (input) RV32_F3_BLTU :: "3 word" where "RV32_F3_BLTU \<equiv> 6"
abbreviation (input) RV32_F3_BGEU :: "3 word" where "RV32_F3_BGEU \<equiv> 7"

abbreviation (input) RV32_F3_LB :: "3 word" where "RV32_F3_LB \<equiv> 0"
abbreviation (input) RV32_F3_LH :: "3 word" where "RV32_F3_LH \<equiv> 1"
abbreviation (input) RV32_F3_LW :: "3 word" where "RV32_F3_LW \<equiv> 2"
abbreviation (input) RV32_F3_LBU :: "3 word" where "RV32_F3_LBU \<equiv> 4"
abbreviation (input) RV32_F3_LHU :: "3 word" where "RV32_F3_LHU \<equiv> 5"

abbreviation (input) RV32_F3_SB :: "3 word" where "RV32_F3_SB \<equiv> 0"
abbreviation (input) RV32_F3_SH :: "3 word" where "RV32_F3_SH \<equiv> 1"
abbreviation (input) RV32_F3_SW :: "3 word" where "RV32_F3_SW \<equiv> 2"

abbreviation (input) RV32_F3_ADD_SUB :: "3 word" where "RV32_F3_ADD_SUB \<equiv> 0"
abbreviation (input) RV32_F3_SLL :: "3 word" where "RV32_F3_SLL \<equiv> 1"
abbreviation (input) RV32_F3_SLT :: "3 word" where "RV32_F3_SLT \<equiv> 2"
abbreviation (input) RV32_F3_SLTU :: "3 word" where "RV32_F3_SLTU \<equiv> 3"
abbreviation (input) RV32_F3_XOR :: "3 word" where "RV32_F3_XOR \<equiv> 4"
abbreviation (input) RV32_F3_SRL_SRA :: "3 word" where "RV32_F3_SRL_SRA \<equiv> 5"
abbreviation (input) RV32_F3_OR :: "3 word" where "RV32_F3_OR \<equiv> 6"
abbreviation (input) RV32_F3_AND :: "3 word" where "RV32_F3_AND \<equiv> 7"

abbreviation (input) RV32_F3_FENCE :: "3 word" where "RV32_F3_FENCE \<equiv> 0"
abbreviation (input) RV32_F3_FENCE_I :: "3 word" where "RV32_F3_FENCE_I \<equiv> 1"

abbreviation (input) RV32_F3_PRIV :: "3 word" where "RV32_F3_PRIV \<equiv> 0"
abbreviation (input) RV32_F3_CSRRW :: "3 word" where "RV32_F3_CSRRW \<equiv> 1"
abbreviation (input) RV32_F3_CSRRS :: "3 word" where "RV32_F3_CSRRS \<equiv> 2"
abbreviation (input) RV32_F3_CSRRC :: "3 word" where "RV32_F3_CSRRC \<equiv> 3"
abbreviation (input) RV32_F3_CSRRWI :: "3 word" where "RV32_F3_CSRRWI \<equiv> 5"
abbreviation (input) RV32_F3_CSRRSI :: "3 word" where "RV32_F3_CSRRSI \<equiv> 6"
abbreviation (input) RV32_F3_CSRRCI :: "3 word" where "RV32_F3_CSRRCI \<equiv> 7"

abbreviation (input) RV32_F12_ECALL :: "12 word" where "RV32_F12_ECALL \<equiv> 0"
abbreviation (input) RV32_F12_EBREAK :: "12 word" where "RV32_F12_EBREAK \<equiv> 1"
abbreviation (input) RV32_F12_ERET :: "12 word" where "RV32_F12_ERET \<equiv> 0x302"

abbreviation (input) RV32_F7_MUL_DIV :: "7 word" where "RV32_F7_MUL_DIV \<equiv> 1"

text \<open>CSR numbers within the eight low address bits (\<open>class CSRAdr\<close>).\<close>

abbreviation (input) CSR_status :: "8 word" where "CSR_status \<equiv> 0"
abbreviation (input) CSR_mcycle :: "8 word" where "CSR_mcycle \<equiv> 0x00"
abbreviation (input) CSR_isa :: "8 word" where "CSR_isa \<equiv> 1"
abbreviation (input) CSR_tvec :: "8 word" where "CSR_tvec \<equiv> 5"
abbreviation (input) CSR_vendorid :: "8 word" where "CSR_vendorid \<equiv> 0x11"
abbreviation (input) CSR_archid :: "8 word" where "CSR_archid \<equiv> 0x12"
abbreviation (input) CSR_impid :: "8 word" where "CSR_impid \<equiv> 0x13"
abbreviation (input) CSR_hartid :: "8 word" where "CSR_hartid \<equiv> 0x14"
abbreviation (input) CSR_scratch :: "8 word" where "CSR_scratch \<equiv> 0x40"
abbreviation (input) CSR_epc :: "8 word" where "CSR_epc \<equiv> 0x41"
abbreviation (input) CSR_cause :: "8 word" where "CSR_cause \<equiv> 0x42"
abbreviation (input) CSR_tval :: "8 word" where "CSR_tval \<equiv> 0x43"
abbreviation (input) CSR_dcsr :: "8 word" where "CSR_dcsr \<equiv> 0xb0"
abbreviation (input) CSR_dpc :: "8 word" where "CSR_dpc \<equiv> 0xb1"
abbreviation (input) CSR_mcycleh :: "8 word" where "CSR_mcycleh \<equiv> 0x80"
abbreviation (input) CSR_mbonfirecfg :: "8 word" where "CSR_mbonfirecfg \<equiv> 0xc0"

end
