(* ===== verification/Divider.thy ===== *)
theory Divider
  imports Config
begin

text \<open>
  The non-restoring divider (\<open>rtl/divider.py\<close>): the pipelined two's complementor, the
  control registers, the shift-and-subtract engine and the remainder restoration. The
  specification is the RV32M division; the main theorems say that a request is answered with
  the architectural quotient 35 clock edges later and with the remainder 36 edges later.
\<close>

record divider_in =
  dv_op1_i :: xword
  dv_op2_i :: xword
  dv_signed_i :: bool
  dv_rem_i :: bool
  dv_ce_i :: bool

record divider_state =
  dv_sum_low :: "17 word"
  dv_d_high :: "16 word"
  dv_inv_res :: bool
  dv_fsm_ce :: bool
  dv_dividend :: xword
  dv_divisor :: "33 word"
  dv_want_remainder :: bool
  dv_partial_remainder :: "33 word"
  dv_sum_subtract :: bool
  dv_cnt :: nat
  dv_ceo :: bool
  dv_remainder_corrector :: xword
  dv_remainder_corrector_1 :: bool
  dv_remainder_pos :: xword

definition divider_init :: divider_state where
  "divider_init = \<lparr>dv_sum_low = 0, dv_d_high = 0, dv_inv_res = False, dv_fsm_ce = False,
     dv_dividend = 0, dv_divisor = 0, dv_want_remainder = False, dv_partial_remainder = 0,
     dv_sum_subtract = False, dv_cnt = 0, dv_ceo = False, dv_remainder_corrector = 0,
     dv_remainder_corrector_1 = False, dv_remainder_pos = 0\<rparr>"

subsection \<open>The complementor\<close>

text \<open>\<open>prepare\<close>: every bit XORed with the control bit.\<close>

definition compl_prepared :: "bool \<Rightarrow> xword \<Rightarrow> xword" where
  "compl_prepared compl_i d_i = (if compl_i then NOT d_i else d_i)"

definition compl_sum_low :: "bool \<Rightarrow> xword \<Rightarrow> 17 word" where
  "compl_sum_low compl_i d_i =
     ucast (bv_slice 16 0 (compl_prepared compl_i d_i) :: 16 word) + of_bool compl_i"

definition compl_d_high :: "bool \<Rightarrow> xword \<Rightarrow> 16 word" where
  "compl_d_high compl_i d_i = bv_slice 32 16 (compl_prepared compl_i d_i)"

text \<open>\<open>output\<close>: the carry of the low half is added to the high half.\<close>

definition compl_join :: "17 word \<Rightarrow> 16 word \<Rightarrow> xword" where
  "compl_join sum_low d_high =
     bv_cat (d_high + of_bool (bit sum_low 16)) (bv_slice 16 0 sum_low :: 16 word)"

definition compl_out :: "divider_state \<Rightarrow> xword" where
  "compl_out s = compl_join (dv_sum_low s) (dv_d_high s)"

subsection \<open>The divider\<close>

definition div_result_pos :: "divider_state \<Rightarrow> xword" where
  "div_result_pos s = (if dv_want_remainder s then dv_remainder_pos s else dv_dividend s)"

definition div_compl_inv :: "divider_in \<Rightarrow> divider_state \<Rightarrow> bool" where
  "div_compl_inv i s = (if dv_ce_i i then bit (dv_op1_i i) 31 \<and> dv_signed_i i else dv_inv_res s)"

definition div_compl_mux :: "divider_in \<Rightarrow> divider_state \<Rightarrow> xword" where
  "div_compl_mux i s = (if dv_ce_i i then dv_op1_i i else div_result_pos s)"

definition div_addend :: "divider_state \<Rightarrow> 33 word" where
  "div_addend s = (if dv_sum_subtract s then NOT (dv_divisor s) else dv_divisor s)"

definition div_sum_val :: "divider_state \<Rightarrow> 33 word" where
  "div_sum_val s = dv_partial_remainder s + div_addend s + of_bool (dv_sum_subtract s)"

definition div_sum_positive :: "divider_state \<Rightarrow> bool" where
  "div_sum_positive s = (\<not> bit (div_sum_val s) 32)"

definition div_complementor_step :: "divider_in \<Rightarrow> divider_state \<Rightarrow> divider_state \<Rightarrow> divider_state" where
  "div_complementor_step i s n =
     n\<lparr>dv_sum_low := compl_sum_low (div_compl_inv i s) (div_compl_mux i s),
       dv_d_high := compl_d_high (div_compl_inv i s) (div_compl_mux i s)\<rparr>"

definition div_fsm_control :: "bool \<Rightarrow> divider_in \<Rightarrow> divider_state \<Rightarrow> divider_state \<Rightarrow> divider_state" where
  "div_fsm_control reset i s n =
     (if reset then n\<lparr>dv_fsm_ce := False, dv_want_remainder := False, dv_inv_res := False\<rparr>
      else if dv_ce_i i
      then n\<lparr>dv_fsm_ce := True,
             dv_want_remainder := dv_rem_i i,
             dv_inv_res :=
               (if dv_rem_i i then bit (dv_op1_i i) 31 \<and> dv_signed_i i
                else bit (dv_op1_i i) 31 \<noteq> bit (dv_op2_i i) 31 \<and> dv_signed_i i \<and>
                     dv_op2_i i \<noteq> 0)\<rparr>
      else n\<lparr>dv_fsm_ce := False\<rparr>)"

definition div_load_divisor :: "divider_in \<Rightarrow> 33 word" where
  "div_load_divisor i =
     bv_put 32 (bit (dv_op2_i i) 31 \<and> dv_signed_i i) (bv_put_slice 32 0 (dv_op2_i i) 0)"

definition div_fsm :: "bool \<Rightarrow> divider_in \<Rightarrow> divider_state \<Rightarrow> divider_state \<Rightarrow> divider_state" where
  "div_fsm reset i s n =
     (if reset then n\<lparr>dv_ceo := False, dv_divisor := 0, dv_dividend := 0,
                      dv_partial_remainder := 0, dv_sum_subtract := False, dv_cnt := 0\<rparr>
      else
        let n1 = n\<lparr>dv_ceo := (dv_cnt s = 1)\<rparr>;
            n2 = (if dv_ce_i i then n1\<lparr>dv_divisor := div_load_divisor i\<rparr> else n1)
        in if dv_fsm_ce s
           then n2\<lparr>dv_dividend := bv_cat (bv_slice 31 0 (compl_out s) :: 31 word) (bv_bool False),
                   dv_partial_remainder := bv_cat (0 :: xword) (bv_bool (bit (compl_out s) 31)),
                   dv_sum_subtract := (\<not> bit (dv_divisor s) 32),
                   dv_cnt := (if dv_want_remainder s then 34 else 33)\<rparr>
           else n2\<lparr>dv_partial_remainder :=
                     bv_cat (bv_slice 32 0 (div_sum_val s) :: xword)
                            (bv_bool (bit (dv_dividend s) 31)),
                   dv_sum_subtract := (div_sum_positive s \<noteq> bit (dv_divisor s) 32),
                   dv_dividend := bv_cat (bv_slice 31 0 (dv_dividend s) :: 31 word)
                                         (bv_bool (div_sum_positive s)),
                   dv_cnt := (if dv_cnt s > 0 then dv_cnt s - 1 else dv_cnt s)\<rparr>)"

definition div_output_restoration :: "divider_state \<Rightarrow> divider_state \<Rightarrow> divider_state" where
  "div_output_restoration s n =
     n\<lparr>dv_remainder_corrector :=
         (if div_sum_positive s then 0
          else bv_slice 32 0 (if bit (dv_divisor s) 32 then NOT (dv_divisor s) else dv_divisor s)),
       dv_remainder_corrector_1 := (bit (dv_divisor s) 32 \<and> \<not> div_sum_positive s),
       dv_remainder_pos :=
         bv_slice 33 1 (dv_partial_remainder s) + dv_remainder_corrector s +
         of_bool (dv_remainder_corrector_1 s)\<rparr>"

text \<open>One clock edge: all four clocked processes read the state before the edge.\<close>

definition divider_step :: "bool \<Rightarrow> divider_in \<Rightarrow> divider_state \<Rightarrow> divider_state" where
  "divider_step reset i s =
     div_output_restoration s (div_fsm reset i s (div_fsm_control reset i s
       (div_complementor_step i s s)))"

definition div_result_o :: "divider_state \<Rightarrow> xword" where
  "div_result_o s = compl_out s"

definition div_ce_o :: "divider_state \<Rightarrow> bool" where
  "div_ce_o s = dv_ceo s"

subsection \<open>The complementor complements\<close>

lemma compl_join_plus:
  "compl_join (ucast (bv_slice 16 0 p :: 16 word) + of_bool c) (bv_slice 32 16 p) =
     p + of_bool c"
proof -
  define x :: int where "x = uint p"
  have x: "0 \<le> x" "x < 2 ^ 32" using uint_bounded[of p] by (simp_all add: x_def)
  define l where "l = x mod 2 ^ 16 + of_bool c"
  have l: "0 \<le> l" "l \<le> 2 ^ 16"
    using pos_mod_bound[of "2 ^ 16" x] by (auto simp: l_def)
  have ucast16: "uint (ucast (v :: 16 word) :: 17 word) = uint v" for v
    by (rule uint_up_ucast) (simp add: is_up)
  define sw :: "17 word" where "sw = ucast (bv_slice 16 0 p :: 16 word) + of_bool c"
  have sl: "uint sw = l"
    using l by (simp add: sw_def uint_word_ariths ucast16 uint_bv_slice l_def x_def)
  have carry: "bit sw 16 \<longleftrightarrow> 2 ^ 16 \<le> l"
    using bit_top_uint[where 'a = 17 and n = 16, of sw] by (simp add: sl)
  have "uint (compl_join sw (bv_slice 32 16 p)) =
      ((x div 2 ^ 16 + of_bool (2 ^ 16 \<le> l)) mod 2 ^ 16) * 2 ^ 16 + l mod 2 ^ 16"
    using x by (simp add: compl_join_def carry uint_bv_cat uint_bv_slice sl uint_word_ariths
        mod_simps flip: x_def)
  also have "\<dots> = (x + of_bool c) mod 2 ^ 32"
  proof (cases "2 ^ 16 \<le> l")
    case True
    with l have "l = 2 ^ 16" by simp
    then have "c" "x mod 2 ^ 16 = 2 ^ 16 - 1"
      using pos_mod_bound[of "2 ^ 16" x] by (cases c; simp add: l_def)+
    then have x1: "x + 1 = 2 ^ 16 * (x div 2 ^ 16 + 1)" by (simp add: algebra_simps) presburger
    have "2 ^ 16 * ((x div 2 ^ 16 + 1) mod 2 ^ 16) = (x + 1) mod (2 ^ 16 * 2 ^ 16)"
      unfolding x1 by (rule mult_mod_right)
    then show ?thesis using \<open>l = 2 ^ 16\<close> \<open>c\<close> by (simp add: mult.commute)
  next
    case False
    then have lm: "l mod 2 ^ 16 = l" using l by simp
    have xm: "x div 2 ^ 16 mod 2 ^ 16 = x div 2 ^ 16" using x by simp
    have split: "2 ^ 16 * (x div 2 ^ 16) + l = x + of_bool c"
      using mult_div_mod_eq[of "2 ^ 16" x] unfolding l_def by linarith
    have "x div 2 ^ 16 \<le> 2 ^ 16 - 1" using x by simp
    then have "x + of_bool c < 2 ^ 32" using False split by simp
    then have "(x + of_bool c) mod 2 ^ 32 = x + of_bool c" using x by simp
    then show ?thesis using False xm lm split by (simp add: mult.commute)
  qed
  finally show ?thesis unfolding sw_def
    by (simp add: word_uint_eq_iff uint_word_ariths x_def)
qed

lemma compl_join_correct:
  "compl_join (compl_sum_low c d) (compl_d_high c d) = (if c then - d else d)"
  unfolding compl_sum_low_def compl_d_high_def compl_join_plus
  by (simp add: compl_prepared_def minus_eq_not_plus_1)

subsection \<open>The engine as integer arithmetic\<close>

text \<open>
  \<open>N\<close> is the magnitude of the dividend and \<open>D\<close> the signed divisor. After \<open>k\<close> turns the
  engine has consumed the \<open>k\<close> top bits of \<open>N\<close>, the number \<open>top_bits N k\<close>; its signed partial
  remainder is the true remainder of that number by \<open>\<bar>D\<bar>\<close>, or the remainder minus
  \<open>\<bar>D\<bar>\<close> when the last quotient bit was 0; the dividend register holds the bits of \<open>N\<close> still
  to come above the quotient bits found so far.
\<close>

definition top_bits :: "int \<Rightarrow> nat \<Rightarrow> int" where
  "top_bits N k = N div 2 ^ (32 - k)"

definition next_bit :: "int \<Rightarrow> nat \<Rightarrow> bool" where
  "next_bit N k = odd (N div 2 ^ (31 - k))"

definition div_quot :: "int \<Rightarrow> int \<Rightarrow> nat \<Rightarrow> int" where
  "div_quot N d k = (if d = 0 then 2 ^ k - 1 else top_bits N k div d)"

definition div_sum :: "int \<Rightarrow> int \<Rightarrow> nat \<Rightarrow> int" where
  "div_sum N d k = 2 * (top_bits N k mod d) + of_bool (next_bit N k) - d"

definition div_inv :: "int \<Rightarrow> int \<Rightarrow> nat \<Rightarrow> divider_state \<Rightarrow> bool" where
  "div_inv N D k s \<longleftrightarrow>
     dv_divisor s = word_of_int D \<and>
     dv_dividend s = word_of_int (N * 2 ^ (k + 1) + div_quot N \<bar>D\<bar> k) \<and>
     (\<exists>p b. (p = top_bits N k mod \<bar>D\<bar> \<or> p = top_bits N k mod \<bar>D\<bar> - \<bar>D\<bar> \<and> p < 0) \<and>
        (k < 32 \<longrightarrow> b = next_bit N k) \<and>
        dv_partial_remainder s = word_of_int (2 * p + of_bool b) \<and>
        dv_sum_subtract s = ((0 \<le> p) \<noteq> (D < 0)) \<and>
        (0 < k \<longrightarrow>
          dv_remainder_corrector s + of_bool (dv_remainder_corrector_1 s) =
            word_of_int (if p < 0 then \<bar>D\<bar> else 0)))"

lemma top_bits_Suc:
  "k < 32 \<Longrightarrow> top_bits N (Suc k) = 2 * top_bits N k + of_bool (next_bit N k)"
proof -
  assume k: "k < 32"
  then have "32 - k = Suc (31 - k)" by arith
  then have "top_bits N k = N div 2 ^ (31 - k) div 2"
    by (simp add: top_bits_def zdiv_zmult2_eq[symmetric] mult.commute)
  moreover have "top_bits N (Suc k) = N div 2 ^ (31 - k)"
    by (simp add: top_bits_def)
  ultimately show ?thesis
    by (simp add: next_bit_def)
qed

lemma top_bits_bounds:
  assumes "0 \<le> N" "N < 2 ^ 32"
  shows "0 \<le> top_bits N k" "top_bits N k \<le> N" "top_bits N 0 = 0" "top_bits N 32 = N"
    and "k \<le> 32 \<Longrightarrow> top_bits N k < 2 ^ k"
proof -
  show "top_bits N k \<le> N"
    using zdiv_mono2[of N 1 "2 ^ (32 - k)"] assms by (simp add: top_bits_def)
  show "top_bits N k < 2 ^ k" if "k \<le> 32"
  proof -
    have "N < 2 ^ (32 - k) * 2 ^ k" using assms that by (simp flip: power_add)
    moreover have "2 ^ (32 - k) * (N div 2 ^ (32 - k)) \<le> N"
    proof -
      have "0 \<le> N mod 2 ^ (32 - k)" by simp
      then show ?thesis using mult_div_mod_eq[of "2 ^ (32 - k)" N] by linarith
    qed
    ultimately have "2 ^ (32 - k) * (N div 2 ^ (32 - k)) < 2 ^ (32 - k) * 2 ^ k"
      by linarith
    then have "N div 2 ^ (32 - k) < 2 ^ k"
      by (rule mult_left_less_imp_less) simp
    then show ?thesis by (simp add: top_bits_def)
  qed
qed (use assms in \<open>simp_all add: top_bits_def pos_imp_zdiv_nonneg_iff\<close>)

text \<open>The sum of a turn decides the next quotient bit.\<close>

lemma div_sum_next:
  assumes "k < 32" "0 \<le> d" "0 \<le> N" "N < 2 ^ 32"
  shows "div_quot N d (Suc k) = 2 * div_quot N d k + of_bool (0 \<le> div_sum N d k)"
    and "div_sum N d k = top_bits N (Suc k) mod d \<or>
         div_sum N d k = top_bits N (Suc k) mod d - d \<and> div_sum N d k < 0"
proof -
  define t r where "t = top_bits N k" and "r = t mod d"
  define u where "u = 2 * r + of_bool (next_bit N k)"
  have t': "top_bits N (Suc k) = 2 * t + of_bool (next_bit N k)"
    using assms(1) by (simp add: top_bits_Suc t_def)
  have sum: "div_sum N d k = u - d" by (simp add: div_sum_def u_def r_def t_def)
  have t0: "0 \<le> t" using assms by (simp add: t_def top_bits_bounds)
  show "div_quot N d (Suc k) = 2 * div_quot N d k + of_bool (0 \<le> div_sum N d k)"
    and "div_sum N d k = top_bits N (Suc k) mod d \<or>
         div_sum N d k = top_bits N (Suc k) mod d - d \<and> div_sum N d k < 0"
  proof (atomize (full), cases "d = 0")
    case True
    then show "div_quot N d (Suc k) = 2 * div_quot N d k + of_bool (0 \<le> div_sum N d k) \<and>
      (div_sum N d k = top_bits N (Suc k) mod d \<or>
       div_sum N d k = top_bits N (Suc k) mod d - d \<and> div_sum N d k < 0)"
      using t0 sum[unfolded True] by (simp add: div_quot_def u_def r_def t')
  next
    case False
    with assms have d: "0 < d" by simp
    have r: "0 \<le> r" "r < d" using d by (simp_all add: r_def)
    have "t = d * (t div d) + r" by (simp add: r_def)
    then have "2 * t + of_bool (next_bit N k) = 2 * (d * (t div d)) + u"
      unfolding u_def by linarith
    then have *: "top_bits N (Suc k) = u + (2 * (t div d)) * d" by (simp add: t' algebra_simps)
    have dq: "top_bits N (Suc k) div d = 2 * (t div d) + u div d"
      "top_bits N (Suc k) mod d = u mod d"
      unfolding * using d by simp_all
    have u: "u div d = of_bool (d \<le> u)" "u mod d = u - of_bool (d \<le> u) * d"
    proof -
      have "0 \<le> u" "u < 2 * d" using r by (auto simp: u_def of_bool_def)
      then show "u div d = of_bool (d \<le> u)" using d by (auto simp: div_pos_geq)
      then show "u mod d = u - of_bool (d \<le> u) * d"
        using mult_div_mod_eq[of d u] by (simp add: algebra_simps)
    qed
    show "div_quot N d (Suc k) = 2 * div_quot N d k + of_bool (0 \<le> div_sum N d k) \<and>
      (div_sum N d k = top_bits N (Suc k) mod d \<or>
       div_sum N d k = top_bits N (Suc k) mod d - d \<and> div_sum N d k < 0)"
      using False by (auto simp: div_quot_def dq u sum t_def)
  qed
qed

subsection \<open>Words of the engine\<close>

lemma bit_32_word_of_int:
  assumes "- (2 ^ 32) \<le> z" "z < 2 ^ 32"
  shows "bit (word_of_int z :: 33 word) 32 \<longleftrightarrow> z < 0"
proof -
  have "bit (word_of_int z :: 33 word) 32 \<longleftrightarrow> odd (z div 2 ^ 32)"
    by (subst bit_word_of_int_iff) (simp add: bit_iff_odd)
  moreover have "z div 2 ^ 32 = (if z < 0 then - 1 else 0)"
  proof (cases "z < 0")
    case True
    have "(z + 2 ^ 32) div 2 ^ 32 = 0" using assms True by simp
    then show ?thesis using True by simp
  qed (use assms in simp)
  ultimately show ?thesis by simp
qed

lemma bit_double_int:
  "bit (2 * z :: int) n \<longleftrightarrow> n \<noteq> 0 \<and> bit z (n - 1)"
  "bit (2 * z + 1 :: int) n \<longleftrightarrow> n = 0 \<or> bit z (n - 1)"
  by (cases n; simp add: bit_0 bit_Suc)+

lemma bv_cat_bool_33:
  "bv_cat (bv_slice 32 0 (word_of_int z :: 33 word) :: xword) (bv_bool b) =
     (word_of_int (2 * z + of_bool b) :: 33 word)"
  by (rule bv_eqI) (auto simp: bv_simps bit_word_of_int_iff bit_double_int
      simp del: of_int_add of_int_mult)

lemma bv_cat_bool_32:
  "bv_cat (bv_slice 31 0 (word_of_int z :: xword) :: 31 word) (bv_bool b) =
     (word_of_int (2 * z + of_bool b) :: xword)"
  by (rule bv_eqI) (auto simp: bv_simps bit_word_of_int_iff bit_double_int
      simp del: of_int_add of_int_mult)

lemma bv_slice_33_1:
  "bv_slice 33 1 (word_of_int (2 * z + of_bool b) :: 33 word) = (word_of_int z :: xword)"
  by (rule bv_eqI) (auto simp: bv_simps bit_word_of_int_iff bit_double_int
      simp del: of_int_add of_int_mult)

lemma div_load_divisor_eq:
  "div_load_divisor i =
     word_of_int (if dv_signed_i i then sint (dv_op2_i i) else uint (dv_op2_i i))"
proof (rule bv_eqI)
  fix n assume "n < LENGTH(33)"
  then have "n < 32 \<or> n = 32" by auto
  then show "bit (div_load_divisor i) n =
      bit (word_of_int (if dv_signed_i i then sint (dv_op2_i i) else uint (dv_op2_i i)) :: 33 word) n"
    by (auto simp: div_load_divisor_def bv_simps bit_word_of_int_iff bit_simps
        dest: bit_imp_le_length)
qed

subsection \<open>The engine computes the quotient and the remainder\<close>

lemma next_bit_dividend:
  assumes N: "0 \<le> N" "N < 2 ^ 32" and k: "Suc k < 32" and d: "0 \<le> d"
  shows "bit (word_of_int (N * 2 ^ (k + 1) + div_quot N d k) :: xword) 31 \<longleftrightarrow>
     next_bit N (Suc k)"
proof -
  have q: "0 \<le> div_quot N d k" "div_quot N d k < 2 ^ (k + 1)"
  proof -
    have t: "0 \<le> top_bits N k" "top_bits N k < 2 ^ k" using top_bits_bounds[OF N] k by simp_all
    have le: "top_bits N k div d \<le> top_bits N k" if "0 < d"
      using zdiv_mono2[of "top_bits N k" 1 d] that t by simp
    show "0 \<le> div_quot N d k" "div_quot N d k < 2 ^ (k + 1)"
      using d t le by (auto simp: div_quot_def pos_imp_zdiv_nonneg_iff)
  qed
  have "(N * 2 ^ (k + 1) + div_quot N d k) div 2 ^ (k + 1) = N"
    using q by simp
  moreover have "(2::int) ^ 31 = 2 ^ (k + 1) * 2 ^ (31 - Suc k)"
    using k unfolding power_add[symmetric] by simp
  ultimately have "(N * 2 ^ (k + 1) + div_quot N d k) div 2 ^ 31 = N div 2 ^ (31 - Suc k)"
    by (simp only: zdiv_zmult2_eq zero_le_power zero_le_numeral)
  then show ?thesis
    by (subst bit_word_of_int_iff) (simp add: bit_iff_odd next_bit_def)
qed

text \<open>The combinational sum of a turn, as an integer.\<close>

lemma div_sum_val_eq:
  assumes "dv_divisor s = word_of_int D"
    and "p = r \<or> p = r - \<bar>D\<bar> \<and> p < 0" and "0 \<le> r"
    and "dv_partial_remainder s = word_of_int (2 * p + of_bool b)"
    and "dv_sum_subtract s = ((0 \<le> p) \<noteq> (D < 0))"
  shows "div_sum_val s = word_of_int (2 * r + of_bool b - \<bar>D\<bar>)"
proof -
  have "div_sum_val s = word_of_int (2 * p + of_bool b + (if dv_sum_subtract s then - D else D))"
  proof (cases "dv_sum_subtract s")
    case True
    have "NOT (word_of_int D :: 33 word) + 1 = - word_of_int D"
      by (simp add: minus_eq_not_plus_1)
    with True show ?thesis
      by (simp add: div_sum_val_def div_addend_def assms(1,4) add.assoc)
  qed (simp add: div_sum_val_def div_addend_def assms(1,4))
  moreover have "2 * p + of_bool b + (if dv_sum_subtract s then - D else D) =
      2 * r + of_bool b - \<bar>D\<bar>"
    using assms(2,3,5) by auto
  ultimately show ?thesis by simp
qed

lemma div_sum_range:
  assumes "0 \<le> N" "N < 2 ^ 32" "k < 32" "0 \<le> d" "d < 2 ^ 32"
  shows "- (2 ^ 32) \<le> div_sum N d k" "div_sum N d k < 2 ^ 32"
proof -
  have t: "0 \<le> top_bits N (Suc k)" "top_bits N (Suc k) < 2 ^ 32"
    using top_bits_bounds(1,2)[OF assms(1,2), of "Suc k"] assms(2) by simp_all
  have "0 \<le> top_bits N (Suc k) mod d \<and> top_bits N (Suc k) mod d < 2 ^ 32"
  proof (cases "d = 0")
    case False
    then have "0 < d" using assms(4) by simp
    then show ?thesis
      using pos_mod_sign[of d "top_bits N (Suc k)"] pos_mod_bound[of d "top_bits N (Suc k)"]
        assms(5) by linarith
  qed (use t in simp)
  then show "- (2 ^ 32) \<le> div_sum N d k" "div_sum N d k < 2 ^ 32"
    using div_sum_next(2)[OF assms(3,4,1,2)] assms(4,5) by linarith+
qed

text \<open>One idle clock edge is one turn of the engine.\<close>

lemma div_inv_step:
  assumes inv: "div_inv N D k s" and k: "k < 32"
    and N: "0 \<le> N" "N < 2 ^ 32" and D: "- (2 ^ 32) < D" "D < 2 ^ 32"
    and idle: "\<not> dv_ce_i i" "\<not> dv_fsm_ce s"
  shows "div_inv N D (Suc k) (divider_step False i s)"
proof -
  define d where "d = \<bar>D\<bar>"
  have d: "0 \<le> d" "d < 2 ^ 32" using D by (auto simp: d_def)
  define z where "z = div_sum N d k"
  obtain p where
      divisor: "dv_divisor s = word_of_int D"
    and dividend: "dv_dividend s = word_of_int (N * 2 ^ (k + 1) + div_quot N d k)"
    and p: "p = top_bits N k mod d \<or> p = top_bits N k mod d - d \<and> p < 0"
    and partial: "dv_partial_remainder s = word_of_int (2 * p + of_bool (next_bit N k))"
    and subtract: "dv_sum_subtract s = ((0 \<le> p) \<noteq> (D < 0))"
    using inv k by (auto simp: div_inv_def d_def)
  have "0 \<le> top_bits N k mod d"
    using top_bits_bounds(1)[OF N] d by (cases "d = 0") simp_all
  then have sum: "div_sum_val s = word_of_int z"
    using div_sum_val_eq[OF divisor p[unfolded d_def] _ partial subtract]
    by (simp add: z_def div_sum_def d_def)
  have neg: "bit (dv_divisor s) 32 \<longleftrightarrow> D < 0"
    using bit_32_word_of_int[of D] D by (simp add: divisor)
  have pos: "div_sum_positive s \<longleftrightarrow> 0 \<le> z"
    using bit_32_word_of_int[OF div_sum_range[OF N k d]]
    by (simp add: div_sum_positive_def sum z_def not_less)
  have quot: "div_quot N d (Suc k) = 2 * div_quot N d k + of_bool (0 \<le> z)"
    and rem: "z = top_bits N (Suc k) mod d \<or> z = top_bits N (Suc k) mod d - d \<and> z < 0"
    using div_sum_next[OF k d(1) N] by (simp_all add: z_def)
  let ?b = "bit (dv_dividend s) 31"
  have b: "Suc k < 32 \<longrightarrow> ?b = next_bit N (Suc k)"
    using next_bit_dividend[OF N _ d(1), of k] by (auto simp: dividend)
  have cor: "(if div_sum_positive s then 0
       else bv_slice 32 0 (if D < 0 then NOT (dv_divisor s) else dv_divisor s)) +
      of_bool (D < 0 \<and> \<not> div_sum_positive s) = (word_of_int (if z < 0 then d else 0) :: xword)"
  proof -
    have "bv_slice 32 0 (word_of_int v :: 33 word) = (word_of_int v :: xword)" for v
      by (rule bv_eqI) (auto simp: bv_simps bit_word_of_int_iff)
    moreover have "bv_slice 32 0 (NOT (word_of_int D) :: 33 word) = NOT (word_of_int D :: xword)"
      by (rule bv_eqI) (auto simp: bv_simps bit_word_of_int_iff bit_simps)
    moreover have "NOT (word_of_int D :: xword) + 1 = - word_of_int D"
      by (simp add: minus_eq_not_plus_1)
    ultimately show ?thesis
      by (auto simp: pos divisor d_def)
  qed
  let ?s = "divider_step False i s"
  have fields: "dv_divisor ?s = dv_divisor s"
    "dv_dividend ?s = word_of_int (2 * (N * 2 ^ (k + 1) + div_quot N d k) + of_bool (0 \<le> z))"
    "dv_partial_remainder ?s = word_of_int (2 * z + of_bool ?b)"
    "dv_sum_subtract ?s = ((0 \<le> z) \<noteq> (D < 0))"
    "dv_remainder_corrector ?s + of_bool (dv_remainder_corrector_1 ?s) =
       word_of_int (if z < 0 then d else 0)"
    using idle cor
    by (simp_all add: divider_step_def div_output_restoration_def div_fsm_def div_fsm_control_def
        div_complementor_step_def Let_def sum pos neg bv_cat_bool_33 bv_cat_bool_32 dividend
        del: of_int_add of_int_mult) (auto split: if_splits)
  show ?thesis
    unfolding div_inv_def d_def[symmetric] fields
    using b rem quot divisor
    by (auto intro!: exI[of _ z] exI[of _ ?b] simp: algebra_simps simp del: of_int_add of_int_mult)
qed

lemma div_inv_run:
  assumes "div_inv N D k s" "k + length is \<le> 32" "0 \<le> N" "N < 2 ^ 32"
    "- (2 ^ 32) < D" "D < 2 ^ 32" "\<forall>i \<in> set is. \<not> dv_ce_i i" "\<not> dv_fsm_ce s"
  shows "div_inv N D (k + length is) (clocked_run (divider_step False) is s)"
  using assms
proof (induction "is" arbitrary: k s)
  case (Cons i "is")
  have "\<not> dv_fsm_ce (divider_step False i s)"
    using Cons.prems by (simp add: divider_step_def div_output_restoration_def div_fsm_def
        div_fsm_control_def div_complementor_step_def Let_def)
  moreover have "div_inv N D (Suc k) (divider_step False i s)"
    using Cons.prems by (intro div_inv_step) auto
  ultimately show ?case
    using Cons.IH[of "Suc k" "divider_step False i s"] Cons.prems by simp
qed simp

text \<open>The control registers during the turns: the counter runs down.\<close>

lemma div_idle_control:
  assumes "\<forall>i \<in> set is. \<not> dv_ce_i i" "\<not> dv_fsm_ce s"
  shows "\<not> dv_fsm_ce (clocked_run (divider_step False) is s)"
    and "dv_want_remainder (clocked_run (divider_step False) is s) = dv_want_remainder s"
    and "dv_inv_res (clocked_run (divider_step False) is s) = dv_inv_res s"
    and "dv_cnt (clocked_run (divider_step False) is s) = dv_cnt s - length is"
  using assms
  by (induction "is" arbitrary: s)
    (simp_all add: divider_step_def div_output_restoration_def div_fsm_def
        div_fsm_control_def div_complementor_step_def Let_def)

subsection \<open>RV32M division\<close>

definition div_operand :: "bool \<Rightarrow> xword \<Rightarrow> int" where
  "div_operand sg w = (if sg then sint w else uint w)"

definition isa_quotient :: "bool \<Rightarrow> xword \<Rightarrow> xword \<Rightarrow> xword" where
  "isa_quotient sg a b =
     (let x = div_operand sg a; y = div_operand sg b
      in if b = 0 then - 1 else word_of_int (sgn x * sgn y * (\<bar>x\<bar> div \<bar>y\<bar>)))"

definition isa_remainder :: "bool \<Rightarrow> xword \<Rightarrow> xword \<Rightarrow> xword" where
  "isa_remainder sg a b =
     (let x = div_operand sg a; y = div_operand sg b
      in if b = 0 then a else word_of_int (sgn x * (\<bar>x\<bar> mod \<bar>y\<bar>)))"

definition div_request :: "bool \<Rightarrow> bool \<Rightarrow> xword \<Rightarrow> xword \<Rightarrow> divider_in" where
  "div_request sg rm a b =
     \<lparr>dv_op1_i = a, dv_op2_i = b, dv_signed_i = sg, dv_rem_i = rm, dv_ce_i = True\<rparr>"

lemma div_operand_neg: "div_operand sg w < 0 \<longleftrightarrow> bit w 31 \<and> sg"
  using uint_bounded[of w] by (auto simp: div_operand_def sint_xword bit_31_uint)

lemma div_operand_word [simp]: "word_of_int (div_operand sg w) = w"
  by (simp add: div_operand_def)

lemma div_operand_bounds:
  "- (2 ^ 32) < div_operand sg w" "div_operand sg w < 2 ^ 32" "\<bar>div_operand sg w\<bar> < 2 ^ 32"
  "div_operand sg w = 0 \<longleftrightarrow> w = 0"
proof -
  show b: "- (2 ^ 32) < div_operand sg w" "div_operand sg w < 2 ^ 32"
    "\<bar>div_operand sg w\<bar> < 2 ^ 32"
  proof -
    define u where "u = uint w"
    have "0 \<le> u" "u < 2 ^ 32" using uint_bounded[of w] by (simp_all add: u_def)
    then show "- (2 ^ 32) < div_operand sg w" "div_operand sg w < 2 ^ 32"
      "\<bar>div_operand sg w\<bar> < 2 ^ 32"
      by (auto simp: div_operand_def sint_xword bit_31_uint simp flip: u_def)
  qed
  show "div_operand sg w = 0 \<longleftrightarrow> w = 0"
  proof
    assume "div_operand sg w = 0"
    then show "w = 0" using div_operand_word[of sg w] by simp
  qed (simp add: div_operand_def)
qed

text \<open>After the request edge and one idle edge the engine is at its start.\<close>

lemma div_start:
  fixes s :: divider_state and sg rm :: bool and a b :: xword
  assumes "\<not> dv_ce_i i"
  defines "s2 \<equiv> divider_step False i (divider_step False (div_request sg rm a b) s)"
  shows "div_inv \<bar>div_operand sg a\<bar> (div_operand sg b) 0 s2"
    and "\<not> dv_fsm_ce s2" "dv_want_remainder s2 = rm" "dv_cnt s2 = (if rm then 34 else 33)"
    and "dv_inv_res s2 = (if rm then bit a 31 \<and> sg else bit a 31 \<noteq> bit b 31 \<and> sg \<and> b \<noteq> 0)"
    and "dv_ceo s2 = (dv_cnt s = 2 \<and> \<not> dv_fsm_ce s)"
proof -
  let ?s1 = "divider_step False (div_request sg rm a b) s"
  have out: "compl_out ?s1 = word_of_int \<bar>div_operand sg a\<bar>"
  proof -
    have "compl_out ?s1 = (if bit a 31 \<and> sg then - a else a)"
      by (simp add: compl_out_def divider_step_def div_output_restoration_def div_fsm_def
          div_fsm_control_def div_complementor_step_def Let_def div_request_def compl_join_correct
          div_compl_inv_def div_compl_mux_def)
    also have "\<dots> = word_of_int \<bar>div_operand sg a\<bar>"
      using div_operand_neg[of sg a] by (simp add: abs_if)
    finally show ?thesis .
  qed
  have divisor: "dv_divisor ?s1 = word_of_int (div_operand sg b)"
    by (simp add: divider_step_def div_output_restoration_def div_fsm_def
          div_fsm_control_def div_complementor_step_def Let_def div_request_def
          div_load_divisor_eq div_operand_def)
  have neg: "bit (dv_divisor ?s1) 32 \<longleftrightarrow> div_operand sg b < 0"
    using bit_32_word_of_int[of "div_operand sg b"] div_operand_bounds(1,2)[of sg b]
    by (simp add: divisor)
  have ctrl: "dv_fsm_ce ?s1" "dv_want_remainder ?s1 = rm" "dv_cnt ?s1 = 1 \<longleftrightarrow> dv_cnt s = 2 \<and> \<not> dv_fsm_ce s"
    "dv_inv_res ?s1 = (if rm then bit a 31 \<and> sg else bit a 31 \<noteq> bit b 31 \<and> sg \<and> b \<noteq> 0)"
    by (simp_all add: divider_step_def div_output_restoration_def div_fsm_def
          div_fsm_control_def div_complementor_step_def Let_def div_request_def) arith
  note step = divider_step_def div_output_restoration_def div_fsm_def
          div_fsm_control_def div_complementor_step_def Let_def
  show "\<not> dv_fsm_ce s2" "dv_want_remainder s2 = rm" "dv_cnt s2 = (if rm then 34 else 33)"
    "dv_inv_res s2 = (if rm then bit a 31 \<and> sg else bit a 31 \<noteq> bit b 31 \<and> sg \<and> b \<noteq> 0)"
    using assms ctrl by (simp_all add: step)
  show "dv_ceo s2 = (dv_cnt s = 2 \<and> \<not> dv_fsm_ce s)"
    using assms ctrl(3) by (simp add: step)
  have f: "dv_divisor s2 = dv_divisor ?s1"
    "dv_dividend s2 = bv_cat (bv_slice 31 0 (compl_out ?s1) :: 31 word) (bv_bool False)"
    "dv_partial_remainder s2 = bv_cat (0 :: xword) (bv_bool (bit (compl_out ?s1) 31))"
    "dv_sum_subtract s2 = (\<not> bit (dv_divisor ?s1) 32)"
    using assms ctrl(1) by (simp_all add: step)
  show "div_inv \<bar>div_operand sg a\<bar> (div_operand sg b) 0 s2"
  proof -
    let ?N = "\<bar>div_operand sg a\<bar>"
    have N: "0 \<le> ?N" "?N < 2 ^ 32" using div_operand_bounds(3) by simp_all
    have nb: "bit (compl_out ?s1) 31 = next_bit ?N 0"
      unfolding out by (subst bit_word_of_int_iff) (simp add: next_bit_def bit_iff_odd)
    have q0: "div_quot ?N d 0 = 0" "top_bits ?N 0 mod d = 0" for d
      using top_bits_bounds(3)[OF N] by (simp_all add: div_quot_def)
    have dividend: "dv_dividend s2 = word_of_int (?N * 2 ^ (0 + 1) + div_quot ?N d 0)" for d
      unfolding f out bv_cat_bool_32 q0 by (simp add: mult.commute)
    have partial: "dv_partial_remainder s2 = word_of_int (2 * 0 + of_bool (next_bit ?N 0))"
      unfolding f(3) nb using bv_cat_bool_33[of 0 "next_bit ?N 0"] by (simp add: bv_slice_def)
    show ?thesis
      unfolding div_inv_def
      using dividend partial f(1,4) divisor neg q0(2)
      by (auto intro!: exI[of _ "0::int"] exI[of _ "next_bit ?N 0"]
          simp del: of_int_add of_int_mult)
  qed
qed

text \<open>
  The whole run after the request: the state after the request edge, one idle edge and
  \<open>n\<close> turns.
\<close>

lemma div_turns:
  fixes s :: divider_state and sg rm :: bool and a b :: xword
  assumes idle: "\<forall>i \<in> set is. \<not> dv_ce_i i" and n: "length is = Suc n" "n \<le> 32"
  defines "t \<equiv> clocked_run (divider_step False) (div_request sg rm a b # is) s"
  shows "div_inv \<bar>div_operand sg a\<bar> (div_operand sg b) n t"
    and "\<not> dv_fsm_ce t" "dv_want_remainder t = rm" "dv_cnt t = (if rm then 34 else 33) - n"
    and "dv_inv_res t = (if rm then bit a 31 \<and> sg else bit a 31 \<noteq> bit b 31 \<and> sg \<and> b \<noteq> 0)"
proof -
  obtain i js where js: "is = i # js" "length js = n" using n(1) by (cases "is") auto
  have i: "\<not> dv_ce_i i" and idle': "\<forall>i \<in> set js. \<not> dv_ce_i i" using idle js by auto
  note start = div_start[OF i, where sg = sg and rm = rm and a = a and b = b and s = s]
  show "div_inv \<bar>div_operand sg a\<bar> (div_operand sg b) n t"
    using div_inv_run[OF start(1) _ _ _ _ _ idle' start(2)] div_operand_bounds[of sg]
    by (simp add: t_def js n(2))
  show "\<not> dv_fsm_ce t" "dv_want_remainder t = rm" "dv_cnt t = (if rm then 34 else 33) - n"
    "dv_inv_res t = (if rm then bit a 31 \<and> sg else bit a 31 \<noteq> bit b 31 \<and> sg \<and> b \<noteq> 0)"
    using div_idle_control[OF idle' start(2)] start(3,4,5) js by (simp_all add: t_def)
qed

lemma div_quot_final:
  assumes "0 \<le> N" "N < 2 ^ 32"
  shows "word_of_int (N * 2 ^ 33 + div_quot N d 32) =
    (if d = 0 then - 1 else word_of_int (N div d) :: xword)"
proof -
  have "(word_of_int (N * 2 ^ 33) :: xword) = 0"
  proof -
    have "(2 ^ 33 :: xword) = 0" by (simp add: word_uint_eq_iff)
    then show ?thesis by (simp only: of_int_mult of_int_power of_int_numeral) simp
  qed
  then show ?thesis
    using top_bits_bounds(4)[OF assms] by (simp add: div_quot_def)
qed

text \<open>The sign of the results, as the hardware decides it from the sign bits.\<close>

lemma isa_quotient_sign:
  "isa_quotient sg a b =
     (let q = (if b = 0 then - 1
               else word_of_int (\<bar>div_operand sg a\<bar> div \<bar>div_operand sg b\<bar>))
      in if bit a 31 \<noteq> bit b 31 \<and> sg \<and> b \<noteq> 0 then - q else q)"
proof (cases "b = 0")
  case False
  then have B: "div_operand sg b \<noteq> 0" by (simp add: div_operand_bounds)
  have "word_of_int (sgn (div_operand sg a) * sgn (div_operand sg b) * q) =
      (if bit a 31 \<noteq> bit b 31 \<and> sg then - word_of_int q else word_of_int q :: xword)"
    if "div_operand sg a = 0 \<longrightarrow> q = 0" for q
  proof -
    have "sgn (div_operand sg a) * sgn (div_operand sg b) * q =
        (if (div_operand sg a < 0) \<noteq> (div_operand sg b < 0) then - q else q)"
      using B that by (auto simp: sgn_if)
    then show ?thesis by (auto simp: div_operand_neg simp del: of_int_mult)
  qed
  from this[of "\<bar>div_operand sg a\<bar> div \<bar>div_operand sg b\<bar>"] False show ?thesis
    by (simp add: isa_quotient_def Let_def del: of_int_mult)
qed (simp add: isa_quotient_def)

lemma isa_remainder_sign:
  "isa_remainder sg a b =
     (let r = word_of_int (\<bar>div_operand sg a\<bar> mod \<bar>div_operand sg b\<bar>)
      in if bit a 31 \<and> sg then - r else r)"
proof -
  have "sgn (div_operand sg a) * (\<bar>div_operand sg a\<bar> mod \<bar>div_operand sg b\<bar>) =
      (if div_operand sg a < 0 then - (\<bar>div_operand sg a\<bar> mod \<bar>div_operand sg b\<bar>)
       else \<bar>div_operand sg a\<bar> mod \<bar>div_operand sg b\<bar>)"
    by (auto simp: sgn_if)
  moreover have "div_operand sg b = 0 \<longleftrightarrow> b = 0" by (rule div_operand_bounds)
  moreover have "(if bit a 31 \<and> sg then - word_of_int \<bar>div_operand sg a\<bar>
      else word_of_int \<bar>div_operand sg a\<bar>) = a"
    by (auto simp flip: div_operand_neg)
  ultimately show ?thesis
    by (auto simp: isa_remainder_def Let_def div_operand_neg simp del: of_int_mult)
qed

lemma div_inv_remainder:
  assumes inv: "div_inv N D 32 s" and N: "0 \<le> N" "N < 2 ^ 32"
  shows "bv_slice 33 1 (dv_partial_remainder s) + dv_remainder_corrector s +
     of_bool (dv_remainder_corrector_1 s) = (word_of_int (N mod \<bar>D\<bar>) :: xword)"
proof -
  obtain p b where p: "p = N mod \<bar>D\<bar> \<or> p = N mod \<bar>D\<bar> - \<bar>D\<bar> \<and> p < 0"
    and partial: "dv_partial_remainder s = word_of_int (2 * p + of_bool b)"
    and cor: "dv_remainder_corrector s + of_bool (dv_remainder_corrector_1 s) =
      word_of_int (if p < 0 then \<bar>D\<bar> else 0)"
    using inv top_bits_bounds(4)[OF N] by (auto simp: div_inv_def)
  have "0 \<le> N mod \<bar>D\<bar>" using N by (cases "D = 0") simp_all
  then have "p + (if p < 0 then \<bar>D\<bar> else 0) = N mod \<bar>D\<bar>" using p by auto
  then show ?thesis
    unfolding partial bv_slice_33_1 add.assoc cor of_int_add[symmetric] by simp
qed

text \<open>An idle edge after the engine has stopped: the strobe and the complementor.\<close>

lemma div_idle_edge:
  assumes "\<not> dv_ce_i i" "\<not> dv_fsm_ce s"
  shows "div_ce_o (divider_step False i s) \<longleftrightarrow> dv_cnt s = 1"
    and "div_result_o (divider_step False i s) =
      (if dv_inv_res s then - div_result_pos s else div_result_pos s)"
    and "dv_remainder_pos (divider_step False i s) =
      bv_slice 33 1 (dv_partial_remainder s) + dv_remainder_corrector s +
      of_bool (dv_remainder_corrector_1 s)"
  using assms
  by (simp_all add: div_ce_o_def div_result_o_def compl_out_def divider_step_def
      div_output_restoration_def div_fsm_def div_fsm_control_def div_complementor_step_def Let_def
      compl_join_correct div_compl_inv_def div_compl_mux_def)

subsection \<open>The answers\<close>

text \<open>
  C5: The divider computes the architectural quotient. Whatever state the divider is in, after
  the edge that accepts a quotient request and any 34 edges without a new request, the output
  strobe is high and the result is the RV32M quotient of the operands, division by zero and
  signed overflow included.
\<close>

theorem divider_quotient:
  assumes idle: "\<forall>i \<in> set is. \<not> dv_ce_i i" and n: "length is = 34"
  shows "div_ce_o (clocked_run (divider_step False) (div_request sg False a b # is) s) \<and>
     div_result_o (clocked_run (divider_step False) (div_request sg False a b # is) s) =
       isa_quotient sg a b"
proof

  obtain js i where js: "is = js @ [i]" "length js = 33" using n by (cases "is" rule: rev_cases) auto
  define t where "t = clocked_run (divider_step False) (div_request sg False a b # js) s"
  have idle': "\<forall>i \<in> set js. \<not> dv_ce_i i" "\<not> dv_ce_i i" using idle js by auto
  have turns: "div_inv \<bar>div_operand sg a\<bar> (div_operand sg b) 32 t"
    "\<not> dv_fsm_ce t" "\<not> dv_want_remainder t" "dv_cnt t = 1"
    "dv_inv_res t = (bit a 31 \<noteq> bit b 31 \<and> sg \<and> b \<noteq> 0)"
    using div_turns[OF idle'(1), of 32] js(2) by (simp_all add: t_def)
  have run: "clocked_run (divider_step False) (div_request sg False a b # is) s =
      divider_step False i t" by (simp add: js t_def)
  show "div_ce_o (clocked_run (divider_step False) (div_request sg False a b # is) s)"
    unfolding run using turns idle' by (simp add: div_idle_edge)
  have "div_result_pos t = (if b = 0 then - 1
      else word_of_int (\<bar>div_operand sg a\<bar> div \<bar>div_operand sg b\<bar>))"
    using turns(1,3) div_operand_bounds(3)[of sg a] div_operand_bounds(4)[of sg b]
    by (simp add: div_result_pos_def div_inv_def div_quot_final[simplified])
  then show "div_result_o (clocked_run (divider_step False) (div_request sg False a b # is) s) =
      isa_quotient sg a b"
    unfolding run isa_quotient_sign Let_def div_idle_edge(2)[OF idle'(2) turns(2)] turns(5)
    by (simp only:)
qed

lemma divider_quotient_witness:
  "let s = clocked_run (divider_step False)
      (div_request True False (- 7) 2 #
       replicate 34 \<lparr>dv_op1_i = 0, dv_op2_i = 0, dv_signed_i = False, dv_rem_i = False,
                     dv_ce_i = False\<rparr>) divider_init
   in div_ce_o s \<and> div_result_o s = - 3"
  unfolding Let_def
  by (subst divider_quotient[THEN conjunct1], simp, simp, subst divider_quotient[THEN conjunct2])
    (simp_all add: isa_quotient_def div_operand_def)

text \<open>
  The divider computes the architectural remainder: after the edge that accepts a remainder
  request and any 35 edges without a new request the output strobe is high and the result is
  the RV32M remainder, division by zero included, whatever the state before.
\<close>

theorem divider_remainder:
  assumes idle: "\<forall>i \<in> set is. \<not> dv_ce_i i" and n: "length is = 35"
  shows "div_ce_o (clocked_run (divider_step False) (div_request sg True a b # is) s) \<and>
     div_result_o (clocked_run (divider_step False) (div_request sg True a b # is) s) =
       isa_remainder sg a b"
proof

  obtain js i j where js: "is = (js @ [i]) @ [j]" "length js = 33"
    using n by (cases "is" rule: rev_cases; cases "butlast is" rule: rev_cases) auto
  define t where "t = clocked_run (divider_step False) (div_request sg True a b # js) s"
  define u where "u = divider_step False i t"
  have idle': "\<forall>i \<in> set js. \<not> dv_ce_i i" "\<not> dv_ce_i i" "\<not> dv_ce_i j"
    using idle js by auto
  have turns: "div_inv \<bar>div_operand sg a\<bar> (div_operand sg b) 32 t"
    "\<not> dv_fsm_ce t" "dv_want_remainder t" "dv_cnt t = 2"
    "dv_inv_res t = (bit a 31 \<and> sg)"
    using div_turns[OF idle'(1), of 32] js(2) by (simp_all add: t_def)
  have u: "\<not> dv_fsm_ce u" "dv_want_remainder u" "dv_cnt u = 1"
    "dv_inv_res u = (bit a 31 \<and> sg)"
    using div_idle_control[of "[i]" t] turns idle'(2) by (simp_all add: u_def)
  have run: "clocked_run (divider_step False) (div_request sg True a b # is) s =
      divider_step False j u" by (simp add: js t_def u_def)
  show "div_ce_o (clocked_run (divider_step False) (div_request sg True a b # is) s)"
    unfolding run using u idle' by (simp add: div_idle_edge)
  have "div_result_pos u = word_of_int (\<bar>div_operand sg a\<bar> mod \<bar>div_operand sg b\<bar>)"
    using div_inv_remainder[OF turns(1)] div_operand_bounds(3)[of sg a] u(2)
      div_idle_edge(3)[OF idle'(2) turns(2)]
    by (simp add: div_result_pos_def u_def)
  then show "div_result_o (clocked_run (divider_step False) (div_request sg True a b # is) s) =
      isa_remainder sg a b"
    unfolding run isa_remainder_sign Let_def div_idle_edge(2)[OF idle'(3) u(1)] u(4)
    by (simp only:)
qed

lemma divider_remainder_witness:
  "let s = clocked_run (divider_step False)
      (div_request True True (- 7) 2 #
       replicate 35 \<lparr>dv_op1_i = 0, dv_op2_i = 0, dv_signed_i = False, dv_rem_i = False,
                     dv_ce_i = False\<rparr>) divider_init
   in div_ce_o s \<and> div_result_o s = - 1"
  unfolding Let_def
  by (subst divider_remainder[THEN conjunct1], simp, simp, subst divider_remainder[THEN conjunct2])
    (simp_all add: isa_remainder_def div_operand_def)

end
