(* ===== verification/Barrel_Shifter.thy ===== *)
theory Barrel_Shifter
  imports Config
begin

text \<open>
  The barrel shifter library (\<open>rtl/barrel_shifter.py\<close>): a combinational left shifter that
  handles a range of powers of two, the same shifter cut by a pipeline register, and the
  bidirectional shifter that reverses its input and output for right shifts. The
  reference is \<open>shift_spec\<close>; the laws a shifter promises are the locale
  \<open>shift_unit\<close>, interpreted for both implementations.
\<close>

subsection \<open>The combinational left shifter\<close>

definition shift_fill :: "bool \<Rightarrow> xword" where
  "shift_fill fill_i = (if fill_i then mask 32 else 0)"

text \<open>One turn of the loop: \<open>concat(temp[l-shift:0], fill[2**p:])\<close> when the bit is set.\<close>

definition shift_turn :: "nat \<Rightarrow> bool \<Rightarrow> xword \<Rightarrow> xword \<Rightarrow> xword" where
  "shift_turn p sel fill temp =
     (let shift = 2 ^ p in
      if sel then push_bit shift (take_bit (32 - shift) temp) OR take_bit shift fill
      else temp)"

fun shift_loop :: "nat \<Rightarrow> nat \<Rightarrow> nat \<Rightarrow> 'a::len word \<Rightarrow> xword \<Rightarrow> xword \<Rightarrow> xword" where
  "shift_loop 0 i p shift_i fill temp = temp"
| "shift_loop (Suc n) i p shift_i fill temp =
     shift_loop n (i + 1) (p + 1) shift_i fill (shift_turn p (bit shift_i i) fill temp)"

definition left_shift_comb ::
  "xword \<Rightarrow> 'a::len word \<Rightarrow> bool \<Rightarrow> nat \<Rightarrow> nat \<Rightarrow> xword" where
  "left_shift_comb d_i shift_i fill_i high low =
     shift_loop (high - low) 0 low shift_i (shift_fill fill_i) d_i"

text \<open>A shift by \<open>n\<close> that fills from the right.\<close>

definition fill_shl :: "nat \<Rightarrow> bool \<Rightarrow> xword \<Rightarrow> xword" where
  "fill_shl n f d = push_bit n d OR (if f then mask n else 0)"

lemma bit_fill_shl [bv_simps]:
  "bit (fill_shl n f d) k \<longleftrightarrow> k < 32 \<and> (if k < n then f else bit d (k - n))"
  by (auto simp: fill_shl_def bit_simps)

lemma fill_shl_0 [simp]: "fill_shl 0 f d = d"
  by (simp add: fill_shl_def)

lemma fill_shl_fill_shl: "fill_shl m f (fill_shl n f d) = fill_shl (n + m) f d"
  by (rule bv_eqI) (auto simp: bv_simps add.commute)

lemma shift_turn_eq:
  assumes "p \<le> 5"
  shows "shift_turn p sel (shift_fill f) t = fill_shl (if sel then 2 ^ p else 0) f t"
proof -
  have "(2::nat) ^ p \<le> 2 ^ 5" using assms by (rule power_increasing) simp
  then have "(2::nat) ^ p \<le> 32" by simp
  then show ?thesis
    by (intro bv_eqI) (auto simp: shift_turn_def shift_fill_def Let_def bv_simps bit_simps)
qed

lemma shift_loop_eq:
  "p + n \<le> 6 \<Longrightarrow>
   shift_loop n i p s (shift_fill f) t =
     fill_shl (\<Sum>k<n. if bit s (i + k) then 2 ^ (p + k) else 0) f t"
proof (induction n arbitrary: i p t)
  case 0
  then show ?case by simp
next
  case (Suc n)
  have "shift_loop (Suc n) i p s (shift_fill f) t =
        fill_shl (\<Sum>k<n. if bit s (i + 1 + k) then 2 ^ (p + 1 + k) else 0) f
          (fill_shl (if bit s i then 2 ^ p else 0) f t)"
    using Suc.IH[of "p + 1" "i + 1"] Suc.prems by (simp add: shift_turn_eq)
  also have "(\<Sum>k<n. if bit s (i + 1 + k) then 2 ^ (p + 1 + k) else 0) =
        (\<Sum>k<n. if bit s (i + Suc k) then 2 ^ (p + Suc k) else (0::nat))"
    by (rule sum.cong) simp_all
  also have "fill_shl (\<Sum>k<n. if bit s (i + Suc k) then 2 ^ (p + Suc k) else 0) f
          (fill_shl (if bit s i then 2 ^ p else 0) f t) = fill_shl (\<Sum>k<Suc n. if bit s (i + k) then 2 ^ (p + k) else 0) f t"
    by (subst sum.lessThan_Suc_shift) (simp add: fill_shl_fill_shl)
  finally show ?case .
qed

lemma sum_bits_take_bit:
  "(\<Sum>k<n. if bit s k then 2 ^ (p + k) else 0) = 2 ^ p * unat (take_bit n (s :: 'a::len word))"
proof (induction n)
  case 0
  then show ?case by simp
next
  case (Suc n)
  have "unat (take_bit (Suc n) s) = unat (take_bit n s) + (if bit s n then 2 ^ n else 0)"
    by (simp add: unsigned_take_bit_eq take_bit_Suc_from_most bit_unsigned_iff bit_imp_le_length)
  with Suc show ?case by (simp add: algebra_simps power_add)
qed

lemma left_shift_comb_eq:
  assumes "low \<le> high" "high \<le> 6"
  shows "left_shift_comb d s f high low = fill_shl (2 ^ low * unat (take_bit (high - low) s)) f d"
  using assms by (simp add: left_shift_comb_def shift_loop_eq sum_bits_take_bit)

subsection \<open>The pipelined and the bidirectional shifter\<close>

text \<open>
  The registers of \<open>left_shift_pipelined\<close> and \<open>shift_pipelined\<close> with a pipeline stage at
  level \<open>c\<close>; \<open>sh_shift_1\<close> holds the shift-amount bits above the stage.
\<close>

record shifter_state =
  sh_stage_reg :: xword
  sh_shift_1 :: "5 word"
  sh_fill_r :: bool
  sh_right_r :: bool
  sh_ready :: bool

definition shifter_init :: shifter_state where
  "shifter_init = \<lparr>sh_stage_reg = 0, sh_shift_1 = 0, sh_fill_r = False,
     sh_right_r = False, sh_ready = False\<rparr>"

record shifter_in =
  sh_d_i :: xword
  sh_shift_i :: "5 word"
  sh_right_i :: bool
  sh_fill_i :: bool
  sh_en_i :: bool

text \<open>The local function \<open>reverse\<close>: \<open>r[len(d)-i-1] = d[i]\<close> for every \<open>i\<close>.\<close>

definition reverse_word :: "xword \<Rightarrow> xword" where
  "reverse_word d = fold (\<lambda>i r. bv_put (32 - i - 1) (bit d i) r) [0..<32] 0"

definition shift_temp_in :: "shifter_in \<Rightarrow> xword" where
  "shift_temp_in i = (if sh_right_i i then reverse_word (sh_d_i i) else sh_d_i i)"

definition left_shift_pipelined_step ::
  "nat \<Rightarrow> shifter_in \<Rightarrow> xword \<Rightarrow> shifter_state \<Rightarrow> shifter_state" where
  "left_shift_pipelined_step c i temp_in s =
     (if sh_en_i i
      then s\<lparr>sh_shift_1 := bv_slice 5 c (sh_shift_i i),
             sh_fill_r := sh_fill_i i,
             sh_stage_reg :=
               left_shift_comb temp_in (bv_slice c 0 (sh_shift_i i) :: 5 word) (sh_fill_i i) c 0,
             sh_ready := True\<rparr>
      else s\<lparr>sh_ready := False\<rparr>)"

definition shift_pipelined_step ::
  "nat \<Rightarrow> bool \<Rightarrow> shifter_in \<Rightarrow> shifter_state \<Rightarrow> shifter_state" where
  "shift_pipelined_step c reset i s =
     (if reset then shifter_init
      else (left_shift_pipelined_step c i (shift_temp_in i) s)\<lparr>sh_right_r := sh_right_i i\<rparr>)"

text \<open>The outputs \<open>d_o\<close> and \<open>ready_o\<close>; with \<open>c = 0\<close> the shifter is combinational.\<close>

definition shift_pipelined_d_o :: "nat \<Rightarrow> shifter_in \<Rightarrow> shifter_state \<Rightarrow> xword" where
  "shift_pipelined_d_o c i s =
     (let temp_out = (if c = 0
                      then left_shift_comb (shift_temp_in i) (sh_shift_i i) (sh_fill_i i) 5 0
                      else left_shift_comb (sh_stage_reg s) (sh_shift_1 s) (sh_fill_r s) 5 c);
          right_r = (if c = 0 then sh_right_i i else sh_right_r s)
      in if right_r then reverse_word temp_out else temp_out)"

definition shift_pipelined_ready_o :: "nat \<Rightarrow> shifter_in \<Rightarrow> shifter_state \<Rightarrow> bool" where
  "shift_pipelined_ready_o c i s = (if c = 0 then sh_en_i i else sh_ready s)"

subsection \<open>Correctness\<close>

text \<open>The reference: a shift by \<open>n\<close> to either side that shifts in \<open>f\<close>.\<close>

definition shift_spec :: "bool \<Rightarrow> bool \<Rightarrow> nat \<Rightarrow> xword \<Rightarrow> xword" where
  "shift_spec right f n d =
     (if right then drop_bit n d OR (if f then NOT (mask (32 - n)) else 0)
      else push_bit n d OR (if f then mask n else 0))"

lemma bit_shift_spec_right [bv_simps]:
  "n \<le> 32 \<Longrightarrow> bit (shift_spec True f n d) k \<longleftrightarrow>
     k < 32 \<and> (if k + n < 32 then bit d (k + n) else f)"
  by (auto simp: shift_spec_def bit_simps add.commute dest: bit_imp_le_length)

lemma shift_spec_left: "shift_spec False f n d = fill_shl n f d"
  by (simp add: shift_spec_def fill_shl_def)

lemma bit_fold_bv_put:
  "bit (fold (\<lambda>i r. bv_put (32 - i - 1) (bit d i) r) [0..<m] (0 :: xword)) k \<longleftrightarrow>
     k < 32 \<and> 32 - k - 1 < m \<and> bit (d :: xword) (32 - k - 1)" if "m \<le> 32"
  using that
proof (induction m)
  case 0
  then show ?case by simp
next
  case (Suc m)
  then have IH: "bit (fold (\<lambda>i r. bv_put (32 - i - 1) (bit d i) r) [0..<m] (0 :: xword)) k \<longleftrightarrow>
     k < 32 \<and> 32 - k - 1 < m \<and> bit d (32 - k - 1)" by simp
  show ?case
  proof (cases "k = 32 - m - 1")
    case True
    with Suc.prems show ?thesis by (auto simp: bv_simps)
  next
    case False
    then have "32 - k - 1 < Suc m \<longleftrightarrow> 32 - k - 1 < m" if "k < 32"
      using that Suc.prems by arith
    with False IH show ?thesis by (auto simp: bv_simps)
  qed
qed

lemma bit_reverse_word [bv_simps]: "bit (reverse_word d) k \<longleftrightarrow> k < 32 \<and> bit d (31 - k)"
  unfolding reverse_word_def by (subst bit_fold_bv_put) auto

lemma reverse_reverse [simp]: "reverse_word (reverse_word d) = d"
  by (rule bv_eqI) (auto simp: bv_simps)

lemma reverse_fill_shl_reverse:
  "n \<le> 31 \<Longrightarrow> reverse_word (fill_shl n f (reverse_word d)) = shift_spec True f n d"
  by (rule bv_eqI) (auto simp: bv_simps)

lemma unat_5_le: "unat (n :: 5 word) \<le> 31"
  using unsigned_less[of n, where ?'a = nat] by simp

text \<open>The split shift of the pipelined version adds up to the whole shift amount.\<close>

lemma split_shift_amount:
  assumes "c \<le> 5"
  shows "unat (take_bit c (bv_slice c 0 (n :: 5 word) :: 5 word)) +
         2 ^ c * unat (take_bit (5 - c) (bv_slice 5 c n :: 5 word)) = unat n"
proof -
  have *: "take_bit c (bv_slice c 0 n :: 5 word) = take_bit c n"
    by (rule bv_eqI) (auto simp: bv_simps bit_simps)
  have **: "take_bit (5 - c) (bv_slice 5 c n :: 5 word) = drop_bit c n"
    by (rule bv_eqI) (auto simp: bv_simps bit_simps dest: bit_imp_le_length)
  have "unat (take_bit c n) = unat n mod 2 ^ c"
    by (simp add: unsigned_take_bit_eq) (simp add: take_bit_eq_mod)
  moreover have "unat (drop_bit c n) = unat n div 2 ^ c"
    using unat_5_le[of n]
    by (simp add: unsigned_drop_bit_eq take_bit_nat_eq_self) (simp add: drop_bit_eq_div)
  ultimately have "unat (take_bit c n) + 2 ^ c * unat (drop_bit c n) = unat n"
    by simp
  with * ** show ?thesis by simp
qed

definition shifter_request :: "xword \<Rightarrow> 5 word \<Rightarrow> bool \<Rightarrow> bool \<Rightarrow> shifter_in" where
  "shifter_request d n right f =
     \<lparr>sh_d_i = d, sh_shift_i = n, sh_right_i = right, sh_fill_i = f, sh_en_i = True\<rparr>"

lemma shift_comb_correct:
  "shift_pipelined_d_o 0 (shifter_request d n right f) s = shift_spec right f (unat n) d"
  using unat_5_le[of n]
  by (simp add: shift_pipelined_d_o_def shift_temp_in_def shifter_request_def left_shift_comb_eq
      shift_spec_left reverse_fill_shl_reverse take_bit_word_eq_self)

lemma shift_pipe_correct:
  assumes "0 < c" "c \<le> 5"
  shows "shift_pipelined_d_o c i' (shift_pipelined_step c False (shifter_request d n right f) s) =
         shift_spec right f (unat n) d"
  using unat_5_le[of n] split_shift_amount[OF assms(2), of n] assms
  by (simp add: shift_pipelined_d_o_def shift_pipelined_step_def left_shift_pipelined_step_def
      shift_temp_in_def shifter_request_def left_shift_comb_eq shift_spec_left
      reverse_fill_shl_reverse fill_shl_fill_shl Let_def)

subsection \<open>The contract of a shifter\<close>

text \<open>
  What the ALU relies on: a function from operand, amount, direction and fill bit to the
  result that agrees with the reference. The three RV32I shifts follow.
\<close>

locale shift_unit =
  fixes result :: "xword \<Rightarrow> 5 word \<Rightarrow> bool \<Rightarrow> bool \<Rightarrow> xword"
  assumes result_spec: "result d n right f = shift_spec right f (unat n) d"
begin

lemma sll: "result d n False False = push_bit (unat n) d"
  by (simp add: result_spec shift_spec_def)

lemma srl: "result d n True False = drop_bit (unat n) d"
  by (simp add: result_spec shift_spec_def)

lemma sra: "result d n True (bit d 31) = signed_drop_bit (unat n) d"
  by (rule xword_eqI) (use unat_5_le[of n] in \<open>auto simp: result_spec bv_simps\<close>)

end

interpretation shift_comb: shift_unit
  "\<lambda>d n right f. shift_pipelined_d_o 0 (shifter_request d n right f) s" for s
  by unfold_locales (rule shift_comb_correct)

interpretation shift_pipe: shift_unit
  "\<lambda>d n right f. shift_pipelined_d_o 3 i'
     (shift_pipelined_step 3 False (shifter_request d n right f) s)" for i' s
  by unfold_locales (rule shift_pipe_correct; simp)

end
