(* ===== verification/Alu.thy ===== *)
theory Alu
  imports Barrel_Shifter
begin

text \<open>
  The arithmetic-logic unit (\<open>rtl/alu.py\<close>): the 33-bit adder with its comparison flags,
  the four ways to build the shifter, the result multiplexer and the busy register of the
  pipelined shifter. The specification is \<open>isa_alu\<close>, the RV32I register operations.
\<close>

record alu_in =
  al_funct3_i :: "3 word"
  al_funct7_6_i :: bool
  al_op1_i :: xword
  al_op2_i :: xword
  al_en_i :: bool

record alu_state =
  al_shifter :: shifter_state
  al_busy_o :: bool

record alu_out =
  al_res_o :: xword
  al_flag_ge :: bool
  al_flag_uge :: bool
  al_flag_equal :: bool
  al_valid_o :: bool

definition alu_init :: alu_state where
  "alu_init = \<lparr>al_shifter = shifter_init, al_busy_o = False\<rparr>"

subsection \<open>The adder\<close>

definition adder_sum :: "bool \<Rightarrow> xword \<Rightarrow> xword \<Rightarrow> 33 word" where
  "adder_sum subtract_i op1 op2 =
     (let op_b = (if subtract_i then NOT op2 else op2)
      in ucast op1 + ucast op_b + of_bool subtract_i)"

definition adder_result_o :: "bool \<Rightarrow> xword \<Rightarrow> xword \<Rightarrow> xword" where
  "adder_result_o subtract_i op1 op2 = bv_slice 32 0 (adder_sum subtract_i op1 op2)"

definition adder_uge_o :: "bool \<Rightarrow> xword \<Rightarrow> xword \<Rightarrow> bool" where
  "adder_uge_o subtract_i op1 op2 = bit (adder_sum subtract_i op1 op2) 32"

definition adder_ge_o :: "bool \<Rightarrow> xword \<Rightarrow> xword \<Rightarrow> bool" where
  "adder_ge_o subtract_i op1 op2 =
     (let carry = bit (adder_sum subtract_i op1 op2) 32;
          s1 = bit op1 31;
          s2 = bit op2 31
      in (s1 \<and> s2 \<and> carry) \<or> (\<not> s1 \<and> \<not> s2 \<and> carry) \<or> (\<not> s1 \<and> s2))"

lemma uint_adder_add: "uint (adder_sum False a b) = uint a + uint b"
proof -
  have "uint (adder_sum False a b) = (uint a + uint b) mod 2 ^ 33"
    by (simp add: adder_sum_def uint_word_ariths)
  also have "\<dots> = uint a + uint b"
    using uint_bounded[of a] uint_bounded[of b] by (intro mod_pos_pos_trivial) auto
  finally show ?thesis .
qed

lemma uint_adder_sub: "uint (adder_sum True a b) = 2 ^ 32 + uint a - uint b"
proof -
  have "uint (adder_sum True a b) = (uint a + uint (NOT b) + 1) mod 2 ^ 33"
    by (simp add: adder_sum_def uint_word_ariths mod_simps)
  also have "\<dots> = uint a + uint (NOT b) + 1"
    using uint_bounded[of a] uint_bounded[of "NOT b"] by (intro mod_pos_pos_trivial) auto
  finally show ?thesis by (simp add: uint_NOT)
qed

lemma adder_result_add: "adder_result_o False a b = a + b"
  by (simp add: adder_result_o_def bv_slice_33_32 uint_adder_add)

lemma adder_result_sub: "adder_result_o True a b = a - b"
proof -
  have "adder_result_o True a b = word_of_int (2 ^ 32) + a - b"
    unfolding adder_result_o_def bv_slice_33_32 uint_adder_sub
    by (simp only: wi_hom_syms word_of_int_uint)
  then show ?thesis by simp
qed

lemma adder_uge: "adder_uge_o True a b \<longleftrightarrow> b \<le> a"
  by (auto simp: adder_uge_o_def bit_32_uint uint_adder_sub word_le_def)

lemma adder_ge: "adder_ge_o True a b \<longleftrightarrow> b \<le>s a"
proof -
  define x y where "x = uint a" and "y = uint b"
  then have "0 \<le> x" "x < 2 ^ 32" "0 \<le> y" "y < 2 ^ 32"
    using uint_bounded[of a] uint_bounded[of b] by simp_all
  then show ?thesis
    unfolding adder_ge_o_def Let_def bit_32_uint uint_adder_sub word_sle_eq sint_xword bit_31_uint
      x_def[symmetric] y_def[symmetric]
    by auto
qed

subsection \<open>The whole unit\<close>

definition is_shift_funct3 :: "3 word \<Rightarrow> bool" where
  "is_shift_funct3 f \<longleftrightarrow> f = RV32_F3_SLL \<or> f = RV32_F3_SRL_SRA"

text \<open>\<open>shift_comb\<close>: the inputs of the shared shifter; it is enabled for shifts only.\<close>

definition alu_shifter_in :: "alu_in \<Rightarrow> shifter_in" where
  "alu_shifter_in i =
     \<lparr>sh_d_i = al_op1_i i,
      sh_shift_i = bv_slice 5 0 (al_op2_i i),
      sh_right_i = (al_funct3_i i = RV32_F3_SRL_SRA),
      sh_fill_i = (al_funct3_i i = RV32_F3_SRL_SRA \<and> al_funct7_6_i i \<and> bit (al_op1_i i) 31),
      sh_en_i = (is_shift_funct3 (al_funct3_i i) \<and> al_en_i i)\<rparr>"

text \<open>The \<open>behavioral\<close> variant: Python shift operators, valid whenever \<open>funct3\<close> is a shift.\<close>

definition behavioral_shift_out :: "alu_in \<Rightarrow> xword" where
  "behavioral_shift_out i =
     (let n = unat (bv_slice 5 0 (al_op2_i i) :: 5 word) in
      if al_funct3_i i = RV32_F3_SLL then push_bit n (al_op1_i i)
      else if al_funct3_i i = RV32_F3_SRL_SRA
      then (if al_funct7_6_i i then word_of_int (drop_bit n (sint (al_op1_i i)))
            else drop_bit n (al_op1_i i))
      else 0)"

definition shift_stage_of :: "shifter_mode \<Rightarrow> nat" where
  "shift_stage_of m = (if m = Shift_Pipelined then 3 else 0)"

definition alu_shifter_out :: "shifter_mode \<Rightarrow> alu_in \<Rightarrow> alu_state \<Rightarrow> xword" where
  "alu_shifter_out m i s =
     (case m of Shift_None \<Rightarrow> 0
      | Shift_Behavioral \<Rightarrow> behavioral_shift_out i
      | _ \<Rightarrow> shift_pipelined_d_o (shift_stage_of m) (alu_shifter_in i) (al_shifter s))"

definition alu_shift_valid :: "shifter_mode \<Rightarrow> alu_in \<Rightarrow> alu_state \<Rightarrow> bool" where
  "alu_shift_valid m i s =
     (case m of Shift_None \<Rightarrow> False
      | Shift_Behavioral \<Rightarrow> is_shift_funct3 (al_funct3_i i)
      | _ \<Rightarrow> shift_pipelined_ready_o (shift_stage_of m) (alu_shifter_in i) (al_shifter s))"

definition alu_subtract :: "alu_in \<Rightarrow> bool" where
  "alu_subtract i = (\<not> (al_en_i i \<and> al_funct3_i i = RV32_F3_ADD_SUB \<and> \<not> al_funct7_6_i i))"

text \<open>The process \<open>comb\<close>: the result, the valid signal and the comparator outputs.\<close>

definition alu_comb :: "shifter_mode \<Rightarrow> alu_in \<Rightarrow> alu_state \<Rightarrow> alu_out" where
  "alu_comb m i s =
     (let f3 = al_funct3_i i; a = al_op1_i i; b = al_op2_i i; en = al_en_i i;
          sub = alu_subtract i;
          ge = adder_ge_o sub a b;
          uge = adder_uge_o sub a b;
          rv = (if alu_shift_valid m i s then (alu_shifter_out m i s, True)
                else if f3 = RV32_F3_ADD_SUB then (adder_result_o sub a b, en)
                else if f3 = RV32_F3_OR then (a OR b, en)
                else if f3 = RV32_F3_AND then (a AND b, en)
                else if f3 = RV32_F3_XOR then (a XOR b, en)
                else if f3 = RV32_F3_SLT then (of_bool (\<not> ge), en)
                else if f3 = RV32_F3_SLTU then (of_bool (\<not> uge), en)
                else (0, False))
      in \<lparr>al_res_o = fst rv, al_flag_ge = ge, al_flag_uge = uge,
          al_flag_equal = (a = b), al_valid_o = snd rv\<rparr>)"

text \<open>\<open>shift_pipelined_comb\<close>: only the pipelined shifter is ever busy.\<close>

definition alu_shift_busy :: "shifter_mode \<Rightarrow> alu_in \<Rightarrow> alu_state \<Rightarrow> bool" where
  "alu_shift_busy m i s =
     (m = Shift_Pipelined \<and> sh_en_i (alu_shifter_in i) \<and>
      \<not> shift_pipelined_ready_o 3 (alu_shifter_in i) (al_shifter s))"

definition alu_step :: "shifter_mode \<Rightarrow> bool \<Rightarrow> alu_in \<Rightarrow> alu_state \<Rightarrow> alu_state" where
  "alu_step m reset i s =
     (if reset then alu_init
      else \<lparr>al_shifter =
              (if m = Shift_Pipelined
               then shift_pipelined_step (shift_stage_of m) False (alu_shifter_in i) (al_shifter s)
               else al_shifter s),
            al_busy_o = alu_shift_busy m i s\<rparr>)"

subsection \<open>The register operations of RV32I\<close>

datatype alu_op = Op_Add | Op_Sub | Op_Sll | Op_Slt | Op_Sltu | Op_Xor | Op_Srl | Op_Sra
  | Op_Or | Op_And

fun isa_alu :: "alu_op \<Rightarrow> xword \<Rightarrow> xword \<Rightarrow> xword" where
  "isa_alu Op_Add a b = a + b"
| "isa_alu Op_Sub a b = a - b"
| "isa_alu Op_Sll a b = push_bit (unat b mod 32) a"
| "isa_alu Op_Slt a b = (if sint a < sint b then 1 else 0)"
| "isa_alu Op_Sltu a b = (if uint a < uint b then 1 else 0)"
| "isa_alu Op_Xor a b = a XOR b"
| "isa_alu Op_Srl a b = drop_bit (unat b mod 32) a"
| "isa_alu Op_Sra a b = word_of_int (sint a div 2 ^ (unat b mod 32))"
| "isa_alu Op_Or a b = a OR b"
| "isa_alu Op_And a b = a AND b"

fun alu_funct3 :: "alu_op \<Rightarrow> 3 word" where
  "alu_funct3 Op_Add = RV32_F3_ADD_SUB"
| "alu_funct3 Op_Sub = RV32_F3_ADD_SUB"
| "alu_funct3 Op_Sll = RV32_F3_SLL"
| "alu_funct3 Op_Slt = RV32_F3_SLT"
| "alu_funct3 Op_Sltu = RV32_F3_SLTU"
| "alu_funct3 Op_Xor = RV32_F3_XOR"
| "alu_funct3 Op_Srl = RV32_F3_SRL_SRA"
| "alu_funct3 Op_Sra = RV32_F3_SRL_SRA"
| "alu_funct3 Op_Or = RV32_F3_OR"
| "alu_funct3 Op_And = RV32_F3_AND"

definition alu_funct7_6 :: "alu_op \<Rightarrow> bool" where
  "alu_funct7_6 op \<longleftrightarrow> op = Op_Sub \<or> op = Op_Sra"

definition alu_request :: "alu_op \<Rightarrow> xword \<Rightarrow> xword \<Rightarrow> alu_in" where
  "alu_request op a b = \<lparr>al_funct3_i = alu_funct3 op, al_funct7_6_i = alu_funct7_6 op,
     al_op1_i = a, al_op2_i = b, al_en_i = True\<rparr>"

definition is_shift_op :: "alu_op \<Rightarrow> bool" where
  "is_shift_op op \<longleftrightarrow> op = Op_Sll \<or> op = Op_Srl \<or> op = Op_Sra"

lemma unat_shift_amount: "unat (bv_slice 5 0 (b :: xword) :: 5 word) = unat b mod 32"
proof -
  have "(bv_slice 5 0 b :: 5 word) = ucast b"
    by (rule bv_eqI) (auto simp: bv_simps bit_simps)
  then show ?thesis by (simp add: unsigned_ucast_eq take_bit_eq_mod)
qed

lemma signed_drop_bit_sint:
  "signed_drop_bit n (a :: xword) = word_of_int (sint a div 2 ^ n)"
proof -
  have "signed_drop_bit n a = word_of_int (sint (signed_drop_bit n a))" by simp
  also have "sint (signed_drop_bit n a) = drop_bit n (sint a)"
    by (simp add: sint_signed_drop_bit_eq)
  finally show ?thesis by (simp add: drop_bit_eq_div)
qed

subsection \<open>Correctness\<close>

lemmas alu_defs = alu_comb_def alu_request_def alu_shift_valid_def alu_shifter_out_def
  alu_subtract_def shift_stage_of_def alu_shifter_in_def is_shift_op_def alu_funct7_6_def
  shift_pipelined_ready_o_def is_shift_funct3_def Let_def

lemma slt_of_bool:
  "of_bool (\<not> b \<le>s a) = (if sint a < sint b then 1 else (0 :: xword))"
  "of_bool (\<not> b \<le> a) = (if uint a < uint b then 1 else (0 :: xword))"
  by (auto simp: word_sle_eq word_le_def)

text \<open>The shifter request the ALU issues for a shift, as the contract of the shifter sees it.\<close>

lemma alu_shifter_in_request:
  "is_shift_op op \<Longrightarrow>
   alu_shifter_in (alu_request op a b) =
     shifter_request a (bv_slice 5 0 b) (op \<noteq> Op_Sll) (op = Op_Sra \<and> bit a 31)"
  by (auto simp: alu_defs shifter_request_def)

lemma shift_spec_isa:
  "is_shift_op op \<Longrightarrow>
   shift_spec (op \<noteq> Op_Sll) (op = Op_Sra \<and> bit a 31) (unat (bv_slice 5 0 b :: 5 word)) a =
     isa_alu op a b"
  using shift_comb.sll[where d = a and n = "bv_slice 5 0 b"]
    shift_comb.srl[where d = a and n = "bv_slice 5 0 b"]
    shift_comb.sra[where d = a and n = "bv_slice 5 0 b"]
  by (auto simp: is_shift_op_def shift_comb.result_spec unat_shift_amount signed_drop_bit_sint)

lemma behavioral_shift_isa:
  "is_shift_op op \<Longrightarrow> behavioral_shift_out (alu_request op a b) = isa_alu op a b"
  by (auto simp: behavioral_shift_out_def alu_defs unat_shift_amount drop_bit_eq_div)

lemma alu_comb_nonshift:
  "\<not> is_shift_op op \<Longrightarrow> \<not> (m = Shift_Pipelined \<and> sh_ready (al_shifter s)) \<Longrightarrow>
   al_res_o (alu_comb m (alu_request op a b) s) = isa_alu op a b \<and>
   al_valid_o (alu_comb m (alu_request op a b) s)"
  by (cases op; cases m)
     (auto simp: alu_defs adder_result_add adder_result_sub adder_ge adder_uge slt_of_bool)

lemma alu_comb_shift:
  assumes "is_shift_op op" "m = Shift_Comb \<or> m = Shift_Behavioral"
  shows "al_res_o (alu_comb m (alu_request op a b) s) = isa_alu op a b \<and>
         al_valid_o (alu_comb m (alu_request op a b) s)"
proof -
  have en: "sh_en_i (alu_shifter_in (alu_request op a b))"
    "is_shift_funct3 (al_funct3_i (alu_request op a b))"
    using assms(1) by (auto simp: alu_defs)
  then have "alu_shift_valid m (alu_request op a b) s"
    using assms(2)
    by (auto simp: alu_shift_valid_def shift_pipelined_ready_o_def shift_stage_of_def)
  moreover have "alu_shifter_out m (alu_request op a b) s = isa_alu op a b"
    using assms(2)
    by (auto simp: alu_shifter_out_def shift_stage_of_def behavioral_shift_isa[OF assms(1)]
        alu_shifter_in_request[OF assms(1)] shift_comb_correct shift_spec_isa[OF assms(1)])
  ultimately show ?thesis by (simp add: alu_comb_def Let_def)
qed

text \<open>the ALU computes every RV32I register operation in the cycle it is enabled: with a
  combinational or behavioral shifter for all ten operations, with the pipelined shifter for
  the seven that are not shifts (when no shift result is being delivered).\<close>

theorem alu_single_cycle_correct:
  assumes "(m = Shift_Comb \<or> m = Shift_Behavioral) \<or>
           \<not> is_shift_op op \<and> \<not> (m = Shift_Pipelined \<and> sh_ready (al_shifter s))"
  shows "al_valid_o (alu_comb m (alu_request op a b) s) \<and>
         al_res_o (alu_comb m (alu_request op a b) s) = isa_alu op a b"
  using assms alu_comb_nonshift[of op m s a b] alu_comb_shift[of op m a b s]
  by (cases "is_shift_op op") auto

theorem alu_single_cycle_correct_witness:
  "al_res_o (alu_comb Shift_Comb (alu_request Op_Sra (- 16) 2) alu_init) = - 4"
proof -
  have "al_res_o (alu_comb Shift_Comb (alu_request Op_Sra (- 16) 2) alu_init) =
        isa_alu Op_Sra (- 16) 2"
    using alu_single_cycle_correct[of Shift_Comb Op_Sra alu_init "- 16" 2] by simp
  then show ?thesis by simp
qed

text \<open>a shift on the pipelined shifter takes two cycles: the unit is not valid in the
  issue cycle, is busy for exactly the following cycle, and in that cycle delivers the RV32I
  result whatever its inputs are by then.\<close>

theorem alu_pipelined_shift_correct:
  assumes "is_shift_op op" "\<not> sh_ready (al_shifter s)"
  shows "\<not> al_valid_o (alu_comb Shift_Pipelined (alu_request op a b) s) \<and>
         (let s1 = alu_step Shift_Pipelined False (alu_request op a b) s in
          al_busy_o s1 \<and>
          al_valid_o (alu_comb Shift_Pipelined i s1) \<and>
          al_res_o (alu_comb Shift_Pipelined i s1) = isa_alu op a b \<and>
          \<not> al_busy_o (alu_step Shift_Pipelined False i s1))"
proof -
  define s1 where "s1 = alu_step Shift_Pipelined False (alu_request op a b) s"
  note req = alu_shifter_in_request[OF assms(1), of a b]
  have sh: "al_shifter s1 = shift_pipelined_step 3 False
      (shifter_request a (bv_slice 5 0 b) (op \<noteq> Op_Sll) (op = Op_Sra \<and> bit a 31)) (al_shifter s)"
    by (simp add: s1_def alu_step_def shift_stage_of_def req)
  then have ready: "sh_ready (al_shifter s1)"
    by (simp add: shift_pipelined_step_def left_shift_pipelined_step_def shifter_request_def)
  have "alu_shifter_out Shift_Pipelined i s1 = isa_alu op a b"
    by (simp add: alu_shifter_out_def shift_stage_of_def sh shift_pipe.result_spec
        shift_spec_isa[OF assms(1)])
  moreover have "\<not> al_valid_o (alu_comb Shift_Pipelined (alu_request op a b) s)"
    using assms(1,2) by (auto simp: alu_defs)
  moreover have "al_busy_o s1"
    using assms(1,2)
    by (auto simp: s1_def alu_step_def alu_shift_busy_def req shifter_request_def
        shift_pipelined_ready_o_def)
  ultimately show ?thesis
    using ready unfolding s1_def[symmetric]
    by (simp add: alu_comb_def alu_shift_valid_def shift_pipelined_ready_o_def Let_def
        shift_stage_of_def alu_step_def alu_shift_busy_def)
qed

theorem alu_pipelined_shift_correct_witness:
  "al_res_o (alu_comb Shift_Pipelined (alu_request Op_Add 0 0)
     (alu_step Shift_Pipelined False (alu_request Op_Sll 3 37) alu_init)) = 96"
proof -
  have "al_res_o (alu_comb Shift_Pipelined (alu_request Op_Add 0 0)
     (alu_step Shift_Pipelined False (alu_request Op_Sll 3 37) alu_init)) = isa_alu Op_Sll 3 37"
    using alu_pipelined_shift_correct[of Op_Sll alu_init 3 37 "alu_request Op_Add 0 0"]
    by (simp add: is_shift_op_def alu_init_def shifter_init_def Let_def)
  then show ?thesis by simp
qed

text \<open>whenever the unit is not adding, which is the case for every branch, its flags
  are the signed and unsigned comparisons and equality of the operands.\<close>

theorem alu_compare_flags:
  assumes "\<not> (al_en_i i \<and> al_funct3_i i = RV32_F3_ADD_SUB \<and> \<not> al_funct7_6_i i)"
  shows "al_flag_ge (alu_comb m i s) = (sint (al_op2_i i) \<le> sint (al_op1_i i)) \<and>
         al_flag_uge (alu_comb m i s) = (uint (al_op2_i i) \<le> uint (al_op1_i i)) \<and>
         al_flag_equal (alu_comb m i s) = (al_op1_i i = al_op2_i i)"
  using assms
  by (simp add: alu_comb_def Let_def alu_subtract_def adder_ge adder_uge word_sle_eq word_le_def)

theorem alu_compare_flags_witness:
  "al_flag_ge (alu_comb Shift_Comb
     \<lparr>al_funct3_i = 4, al_funct7_6_i = False, al_op1_i = - 1, al_op2_i = 1, al_en_i = False\<rparr>
     alu_init) = False"
  using alu_compare_flags[of
     "\<lparr>al_funct3_i = 4, al_funct7_6_i = False, al_op1_i = - 1, al_op2_i = 1, al_en_i = False\<rparr>"
     Shift_Comb alu_init] by simp

text \<open>the behavioral shifter is not gated by the enable: a disabled ALU (a taken BNE or
  BGE, whose \<open>funct3\<close> is that of a shift) reports a valid result. The other variants never
  report one while disabled and idle.\<close>

theorem alu_behavioral_spurious_valid:
  "al_valid_o (alu_comb Shift_Behavioral i s) =
     (is_shift_funct3 (al_funct3_i i) \<or> al_en_i i) \<and>
   al_valid_o (alu_comb Shift_Comb i s) = al_en_i i"
  using word3_cases[of "al_funct3_i i"]
  by (auto simp: alu_comb_def alu_shift_valid_def Let_def is_shift_funct3_def
      shift_pipelined_ready_o_def shift_stage_of_def alu_shifter_in_def)

end
