(* ===== verification/Isa_Spec.thy ===== *)
theory Isa_Spec
  imports Alu
begin

text \<open>
  The specification side of the core: the RV32I instructions as a datatype, their encoding
  as the ISA manual defines it, the registers each instruction reads, and what an instruction
  does to the destination register and to the program counter. Nothing here is code of the
  repository; the decoder and the execute stage are proved against it.
\<close>

datatype branch_op = Beq | Bne | Blt | Bge | Bltu | Bgeu
datatype load_op = Lb | Lh | Lw | Lbu | Lhu
datatype store_op = Sb | Sh | Sw
datatype imm_op = Addi | Slti | Sltiu | Xori | Ori | Andi
datatype shift_op = Slli | Srli | Srai
datatype csr_op = Csr_RW | Csr_RS | Csr_RC

datatype rv_instr =
    Lui regno "20 word"
  | Auipc regno "20 word"
  | Jal regno "20 word"  \<comment> \<open>bits 20 to 1 of the offset\<close>
  | Jalr regno regno "12 word"
  | Branch branch_op regno regno "12 word"  \<comment> \<open>bits 12 to 1 of the offset\<close>
  | Load load_op regno regno "12 word"
  | Store store_op regno regno "12 word"  \<comment> \<open>base, source\<close>
  | OpImm imm_op regno regno "12 word"
  | ShiftImm shift_op regno regno "5 word"
  | OpReg alu_op regno regno regno
  | Fence
  | Csr csr_op regno regno "12 word"
  | CsrImm csr_op regno "5 word" "12 word"
  | Ecall | Ebreak | Mret

subsection \<open>Encoding\<close>

text \<open>Every format splits the word at the same places; the formats differ in what the
  fields carry.\<close>

definition rv_word ::
  "7 word \<Rightarrow> regno \<Rightarrow> regno \<Rightarrow> 3 word \<Rightarrow> regno \<Rightarrow> 5 word \<Rightarrow> xword" where
  "rv_word f7 rs2 rs1 f3 rd opc =
     bv_cat f7 (bv_cat rs2 (bv_cat rs1 (bv_cat f3 (bv_cat rd (bv_cat opc (3 :: 2 word)
       :: 7 word) :: 12 word) :: 15 word) :: 20 word) :: 25 word)"

lemma rv_word_fields [simp]:
  "bv_slice 32 25 (rv_word f7 rs2 rs1 f3 rd opc) = f7"
  "bv_slice 25 20 (rv_word f7 rs2 rs1 f3 rd opc) = rs2"
  "bv_slice 20 15 (rv_word f7 rs2 rs1 f3 rd opc) = rs1"
  "bv_slice 15 12 (rv_word f7 rs2 rs1 f3 rd opc) = f3"
  "bv_slice 12 7 (rv_word f7 rs2 rs1 f3 rd opc) = rd"
  "bv_slice 7 2 (rv_word f7 rs2 rs1 f3 rd opc) = opc"
  "bv_slice 2 0 (rv_word f7 rs2 rs1 f3 rd opc) = (3 :: 2 word)"
  by (rule bv_eqI; force simp: bv_simps rv_word_def)+

fun branch_funct3 :: "branch_op \<Rightarrow> 3 word" where
  "branch_funct3 Beq = 0" | "branch_funct3 Bne = 1" | "branch_funct3 Blt = 4"
| "branch_funct3 Bge = 5" | "branch_funct3 Bltu = 6" | "branch_funct3 Bgeu = 7"

fun load_funct3 :: "load_op \<Rightarrow> 3 word" where
  "load_funct3 Lb = 0" | "load_funct3 Lh = 1" | "load_funct3 Lw = 2"
| "load_funct3 Lbu = 4" | "load_funct3 Lhu = 5"

fun store_funct3 :: "store_op \<Rightarrow> 3 word" where
  "store_funct3 Sb = 0" | "store_funct3 Sh = 1" | "store_funct3 Sw = 2"

fun imm_alu_op :: "imm_op \<Rightarrow> alu_op" where
  "imm_alu_op Addi = Op_Add" | "imm_alu_op Slti = Op_Slt" | "imm_alu_op Sltiu = Op_Sltu"
| "imm_alu_op Xori = Op_Xor" | "imm_alu_op Ori = Op_Or" | "imm_alu_op Andi = Op_And"

fun shift_alu_op :: "shift_op \<Rightarrow> alu_op" where
  "shift_alu_op Slli = Op_Sll" | "shift_alu_op Srli = Op_Srl" | "shift_alu_op Srai = Op_Sra"

fun csr_funct2 :: "csr_op \<Rightarrow> 2 word" where
  "csr_funct2 Csr_RW = 1" | "csr_funct2 Csr_RS = 2" | "csr_funct2 Csr_RC = 3"

definition op_funct7 :: "alu_op \<Rightarrow> 7 word" where
  "op_funct7 op = (if op = Op_Sub \<or> op = Op_Sra then 0x20 else 0)"

text \<open>Immediate splits: the I immediate fills \<open>funct7\<close> and \<open>rs2\<close>; the S immediate
  \<open>funct7\<close> and \<open>rd\<close>; the branch and jump offsets are scattered.\<close>

definition rv_i_word :: "12 word \<Rightarrow> regno \<Rightarrow> 3 word \<Rightarrow> regno \<Rightarrow> 5 word \<Rightarrow> xword" where
  "rv_i_word imm rs1 f3 rd opc = rv_word (bv_slice 12 5 imm) (bv_slice 5 0 imm) rs1 f3 rd opc"

definition rv_u_word :: "20 word \<Rightarrow> regno \<Rightarrow> 5 word \<Rightarrow> xword" where
  "rv_u_word imm rd opc =
     rv_word (bv_slice 20 13 imm) (bv_slice 13 8 imm) (bv_slice 8 3 imm) (bv_slice 3 0 imm) rd opc"

definition rv_s_word :: "12 word \<Rightarrow> regno \<Rightarrow> regno \<Rightarrow> 3 word \<Rightarrow> xword" where
  "rv_s_word imm rs2 rs1 f3 =
     rv_word (bv_slice 12 5 imm) rs2 rs1 f3 (bv_slice 5 0 imm) RV32_STORE"

definition rv_b_word :: "12 word \<Rightarrow> regno \<Rightarrow> regno \<Rightarrow> 3 word \<Rightarrow> xword" where
  "rv_b_word ofs rs2 rs1 f3 =
     rv_word (bv_cat (bv_bool (bit ofs 11)) (bv_slice 10 4 ofs :: 6 word)) rs2 rs1 f3
       (bv_cat (bv_slice 4 0 ofs :: 4 word) (bv_bool (bit ofs 10))) RV32_BRANCH"

definition rv_j_word :: "20 word \<Rightarrow> regno \<Rightarrow> xword" where
  "rv_j_word ofs rd =
     rv_word (bv_cat (bv_bool (bit ofs 19)) (bv_slice 10 4 ofs :: 6 word))
       (bv_cat (bv_slice 4 0 ofs :: 4 word) (bv_bool (bit ofs 10)))
       (bv_slice 19 14 ofs) (bv_slice 14 11 ofs) rd RV32_JAL"

fun rv_encode :: "rv_instr \<Rightarrow> xword" where
  "rv_encode (Lui rd imm) = rv_u_word imm rd RV32_LUI"
| "rv_encode (Auipc rd imm) = rv_u_word imm rd RV32_AUIPC"
| "rv_encode (Jal rd ofs) = rv_j_word ofs rd"
| "rv_encode (Jalr rd rs1 imm) = rv_i_word imm rs1 0 rd RV32_JALR"
| "rv_encode (Branch op rs1 rs2 ofs) = rv_b_word ofs rs2 rs1 (branch_funct3 op)"
| "rv_encode (Load op rd rs1 imm) = rv_i_word imm rs1 (load_funct3 op) rd RV32_LOAD"
| "rv_encode (Store op rs1 rs2 imm) = rv_s_word imm rs2 rs1 (store_funct3 op)"
| "rv_encode (OpImm op rd rs1 imm) = rv_i_word imm rs1 (alu_funct3 (imm_alu_op op)) rd RV32_IMM"
| "rv_encode (ShiftImm op rd rs1 shamt) =
     rv_word (op_funct7 (shift_alu_op op)) shamt rs1 (alu_funct3 (shift_alu_op op)) rd RV32_IMM"
| "rv_encode (OpReg op rd rs1 rs2) = rv_word (op_funct7 op) rs2 rs1 (alu_funct3 op) rd RV32_OP"
| "rv_encode Fence = rv_i_word 0x0ff 0 0 0 RV32_FENCE"
| "rv_encode (Csr op rd rs1 csr) =
     rv_i_word csr rs1 (bv_cat (bv_bool False) (csr_funct2 op)) rd RV32_SYSTEM"
| "rv_encode (CsrImm op rd zimm csr) =
     rv_i_word csr zimm (bv_cat (bv_bool True) (csr_funct2 op)) rd RV32_SYSTEM"
| "rv_encode Ecall = rv_i_word RV32_F12_ECALL 0 0 0 RV32_SYSTEM"
| "rv_encode Ebreak = rv_i_word RV32_F12_EBREAK 0 0 0 RV32_SYSTEM"
| "rv_encode Mret = rv_i_word RV32_F12_ERET 0 0 0 RV32_SYSTEM"

lemma rv_encode_examples:
  "rv_encode (OpImm Addi 1 2 0xfff) = 0xfff10093"
  "rv_encode (Branch Bne 5 6 0xffe) = 0xfe629ee3"
  "rv_encode (Jal 1 0x400) = 0x001000ef"
  "rv_encode Mret = 0x30200073"
  by code_simp+

subsection \<open>Operands\<close>

fun rv_reads_rs1 :: "rv_instr \<Rightarrow> regno option" where
  "rv_reads_rs1 (Jalr rd rs1 imm) = Some rs1"
| "rv_reads_rs1 (Branch op rs1 rs2 ofs) = Some rs1"
| "rv_reads_rs1 (Load op rd rs1 imm) = Some rs1"
| "rv_reads_rs1 (Store op rs1 rs2 imm) = Some rs1"
| "rv_reads_rs1 (OpImm op rd rs1 imm) = Some rs1"
| "rv_reads_rs1 (ShiftImm op rd rs1 shamt) = Some rs1"
| "rv_reads_rs1 (OpReg op rd rs1 rs2) = Some rs1"
| "rv_reads_rs1 (Csr op rd rs1 csr) = Some rs1"
| "rv_reads_rs1 _ = None"

fun rv_reads_rs2 :: "rv_instr \<Rightarrow> regno option" where
  "rv_reads_rs2 (Branch op rs1 rs2 ofs) = Some rs2"
| "rv_reads_rs2 (Store op rs1 rs2 imm) = Some rs2"
| "rv_reads_rs2 (OpReg op rd rs1 rs2) = Some rs2"
| "rv_reads_rs2 _ = None"

fun rv_dest :: "rv_instr \<Rightarrow> regno option" where
  "rv_dest (Lui rd imm) = Some rd"
| "rv_dest (Auipc rd imm) = Some rd"
| "rv_dest (Jal rd ofs) = Some rd"
| "rv_dest (Jalr rd rs1 imm) = Some rd"
| "rv_dest (Load op rd rs1 imm) = Some rd"
| "rv_dest (OpImm op rd rs1 imm) = Some rd"
| "rv_dest (ShiftImm op rd rs1 shamt) = Some rd"
| "rv_dest (OpReg op rd rs1 rs2) = Some rd"
| "rv_dest (Csr op rd rs1 csr) = Some rd"
| "rv_dest (CsrImm op rd zimm csr) = Some rd"
| "rv_dest _ = None"

subsection \<open>What the register-to-register instructions do\<close>

definition imm_i :: "12 word \<Rightarrow> xword" where
  "imm_i imm = scast imm"

definition imm_u :: "20 word \<Rightarrow> xword" where
  "imm_u imm = push_bit 12 (ucast imm)"

definition ofs_b :: "12 word \<Rightarrow> xword" where
  "ofs_b ofs = push_bit 1 (scast ofs)"

definition ofs_j :: "20 word \<Rightarrow> xword" where
  "ofs_j ofs = push_bit 1 (scast ofs)"

text \<open>The value an integer computational instruction writes.\<close>

fun isa_compute :: "rv_instr \<Rightarrow> xword \<Rightarrow> xword \<Rightarrow> xword \<Rightarrow> xword option" where
  "isa_compute (Lui rd imm) pc a b = Some (imm_u imm)"
| "isa_compute (Auipc rd imm) pc a b = Some (pc + imm_u imm)"
| "isa_compute (OpImm op rd rs1 imm) pc a b = Some (isa_alu (imm_alu_op op) a (imm_i imm))"
| "isa_compute (ShiftImm op rd rs1 shamt) pc a b =
     Some (isa_alu (shift_alu_op op) a (ucast shamt))"
| "isa_compute (OpReg op rd rs1 rs2) pc a b = Some (isa_alu op a b)"
| "isa_compute _ pc a b = None"

fun isa_branch_taken :: "branch_op \<Rightarrow> xword \<Rightarrow> xword \<Rightarrow> bool" where
  "isa_branch_taken Beq a b = (a = b)"
| "isa_branch_taken Bne a b = (a \<noteq> b)"
| "isa_branch_taken Blt a b = (sint a < sint b)"
| "isa_branch_taken Bge a b = (sint b \<le> sint a)"
| "isa_branch_taken Bltu a b = (uint a < uint b)"
| "isa_branch_taken Bgeu a b = (uint b \<le> uint a)"

text \<open>Where a taken control transfer goes; \<open>None\<close> when the next instruction follows.\<close>

fun isa_target :: "rv_instr \<Rightarrow> xword \<Rightarrow> xword \<Rightarrow> xword \<Rightarrow> xword option" where
  "isa_target (Jal rd ofs) pc a b = Some (pc + ofs_j ofs)"
| "isa_target (Jalr rd rs1 imm) pc a b = Some ((a + imm_i imm) AND NOT 1)"
| "isa_target (Branch op rs1 rs2 ofs) pc a b =
     (if isa_branch_taken op a b then Some (pc + ofs_b ofs) else None)"
| "isa_target _ pc a b = None"

end
