(* ===== verification/Decode.thy ===== *)
theory Decode
  imports Isa_Spec
begin

text \<open>
  The instruction decoder (\<open>rtl/decode.py\<close>): the immediate extractors, the combinational
  operand and register-address outputs, and the registered decode stage with its kill, stall
  and debug-register-transfer paths. The lemmas show that the decode stage recovers every
  RV32I instruction from its encoding: command lines, operands, immediates and addresses.
\<close>

subsection \<open>Immediates\<close>

definition get_I_immediate :: "xword \<Rightarrow> 12 word" where
  "get_I_immediate instr = bv_slice 32 20 instr"

definition get_U_immediate :: "xword \<Rightarrow> xword" where
  "get_U_immediate instr = bv_cat (bv_slice 32 12 instr :: 20 word) (0 :: 12 word)"

definition get_UJ_immediate :: "xword \<Rightarrow> 21 word" where
  "get_UJ_immediate instr =
     bv_cat (bv_bool (bit instr 31))
       (bv_cat (bv_slice 20 12 instr :: 8 word)
         (bv_cat (bv_bool (bit instr 20))
           (bv_cat (bv_slice 31 21 instr :: 10 word) (0 :: 1 word) :: 11 word) :: 12 word) :: 20 word)"

definition get_S_immediate :: "xword \<Rightarrow> 12 word" where
  "get_S_immediate instr = bv_cat (bv_slice 32 25 instr :: 7 word) (bv_slice 12 7 instr :: 5 word)"

definition get_SB_immediate :: "xword \<Rightarrow> 13 word" where
  "get_SB_immediate instr =
     bv_cat (bv_bool (bit instr 31))
       (bv_cat (bv_bool (bit instr 7))
         (bv_cat (bv_slice 31 25 instr :: 6 word)
           (bv_cat (bv_slice 12 8 instr :: 4 word) (0 :: 1 word) :: 5 word) :: 11 word) :: 12 word)"

text \<open>\<open>signed_resize\<close> of \<open>rtl/util.py\<close>: copy the bits, then fill with the sign.\<close>

definition signed_resize :: "'a::len word \<Rightarrow> xword" where
  "signed_resize v =
     (if bit v (LENGTH('a) - 1) then NOT (mask LENGTH('a)) OR ucast v else ucast v)"

lemma signed_resize_sext: "signed_resize v = bv_sext v"
  by (rule bv_eqI) (auto simp: signed_resize_def bv_simps bit_simps min_def
      dest: bit_imp_le_length)

subsection \<open>Ports and registers\<close>

record decode_in =
  de_en_i :: bool
  de_stall_i :: bool
  de_kill_i :: bool
  de_word_i :: xword
  de_current_ip_i :: xword
  de_next_ip_i :: xword
  de_rs1_data_i :: xword
  de_rs2_data_i :: xword

text \<open>\<open>AbstractRegisterTransferBundle\<close>: the debug module's access to a register. Without the
  debug module its signals are the constants of \<open>no_transfer\<close>.\<close>

record register_transfer =
  rt_valid :: bool
  rt_write :: bool
  rt_regno :: regno
  rt_write_data :: xword

definition no_transfer :: register_transfer where
  "no_transfer = \<lparr>rt_valid = False, rt_write = False, rt_regno = 0, rt_write_data = 0\<rparr>"

record decode_state =
  de_valid_o :: bool
  de_rs1_immediate :: bool
  de_rs1_imm_value :: xword
  de_rs2_immediate :: bool
  de_rs2_imm_value :: xword
  de_rs1_adr_reg :: regno
  de_rs2_adr_reg :: regno
  de_source_rs1_o :: regno
  de_source_rs2_o :: regno
  de_rd_adr_o :: regno
  de_funct3_onehot_o :: "8 word"
  de_funct3_o :: "3 word"
  de_funct7_o :: "7 word"
  de_displacement_o :: "12 word"
  de_jump_dest_o :: xword
  de_next_ip_o :: xword
  de_priv_funct_12 :: "12 word"
  de_mepc_o :: xword
  de_alu_cmd :: bool
  de_load_cmd :: bool
  de_store_cmd :: bool
  de_branch_cmd :: bool
  de_jump_cmd :: bool
  de_jumpr_cmd :: bool
  de_csr_cmd :: bool
  de_sys_cmd :: bool
  de_fence_cmd :: bool
  de_invalid_opcode :: bool
  de_debug_word_o :: xword
  de_debug_current_ip_o :: xword

definition decode_init :: decode_state where
  "decode_init = \<lparr>
     de_valid_o = False, de_rs1_immediate = False, de_rs1_imm_value = 0,
     de_rs2_immediate = False, de_rs2_imm_value = 0, de_rs1_adr_reg = 0, de_rs2_adr_reg = 0,
     de_source_rs1_o = 0, de_source_rs2_o = 0, de_rd_adr_o = 0, de_funct3_onehot_o = 1,
     de_funct3_o = 0, de_funct7_o = 0, de_displacement_o = 0, de_jump_dest_o = 0,
     de_next_ip_o = 0, de_priv_funct_12 = 0, de_mepc_o = 0, de_alu_cmd = False,
     de_load_cmd = False, de_store_cmd = False, de_branch_cmd = False, de_jump_cmd = False,
     de_jumpr_cmd = False, de_csr_cmd = False, de_sys_cmd = False, de_fence_cmd = False,
     de_invalid_opcode = False, de_debug_word_o = 0, de_debug_current_ip_o = 0\<rparr>"

subsection \<open>Combinational outputs\<close>

definition decode_downstream_busy :: "decode_in \<Rightarrow> decode_state \<Rightarrow> bool" where
  "decode_downstream_busy i s = (de_valid_o s \<and> de_stall_i i)"

definition decode_busy_o :: "decode_in \<Rightarrow> decode_state \<Rightarrow> bool" where
  "decode_busy_o i s = decode_downstream_busy i s"

definition decode_rs1_adr_o ::
  "register_transfer \<Rightarrow> decode_in \<Rightarrow> decode_state \<Rightarrow> regno" where
  "decode_rs1_adr_o t i s =
     (if rt_valid t then rt_regno t
      else if \<not> decode_downstream_busy i s then bv_slice 20 15 (de_word_i i)
      else de_rs1_adr_reg s)"

definition decode_rs2_adr_o :: "decode_in \<Rightarrow> decode_state \<Rightarrow> regno" where
  "decode_rs2_adr_o i s =
     (if \<not> decode_downstream_busy i s then bv_slice 25 20 (de_word_i i) else de_rs2_adr_reg s)"

definition decode_uses_rs1_o :: "decode_state \<Rightarrow> bool" where
  "decode_uses_rs1_o s \<longleftrightarrow> de_valid_o s \<and>
     (de_branch_cmd s \<or> de_load_cmd s \<or> de_store_cmd s \<or> de_jumpr_cmd s \<or>
      (de_alu_cmd s \<and> \<not> de_rs1_immediate s) \<or> (de_csr_cmd s \<and> \<not> de_rs1_immediate s))"

definition decode_uses_rs2_o :: "decode_state \<Rightarrow> bool" where
  "decode_uses_rs2_o s \<longleftrightarrow> de_valid_o s \<and>
     (de_branch_cmd s \<or> de_store_cmd s \<or> (de_alu_cmd s \<and> \<not> de_rs2_immediate s))"

definition decode_op1_o :: "decode_in \<Rightarrow> decode_state \<Rightarrow> xword" where
  "decode_op1_o i s = (if de_rs1_immediate s then de_rs1_imm_value s else de_rs1_data_i i)"

definition decode_op2_o :: "decode_in \<Rightarrow> decode_state \<Rightarrow> xword" where
  "decode_op2_o i s = (if de_rs2_immediate s then de_rs2_imm_value s else de_rs2_data_i i)"

definition decode_read_data :: "decode_in \<Rightarrow> xword" where
  "decode_read_data i = de_rs1_data_i i"

subsection \<open>The registered stage\<close>

text \<open>A debug register write is injected as \<open>rd := data OR 0\<close>.\<close>

definition decode_transfer :: "register_transfer \<Rightarrow> decode_state \<Rightarrow> decode_state" where
  "decode_transfer t s = s\<lparr>
     de_valid_o := True,
     de_rs1_immediate := True,
     de_rs2_immediate := True,
     de_rs1_imm_value := rt_write_data t,
     de_rs2_imm_value := 0,
     de_alu_cmd := True,
     de_funct3_o := RV32_F3_OR,
     de_rd_adr_o := rt_regno t,
     de_debug_word_o := 0,
     de_branch_cmd := False,
     de_jump_cmd := False,
     de_jumpr_cmd := False,
     de_load_cmd := False,
     de_store_cmd := False,
     de_csr_cmd := False,
     de_invalid_opcode := False,
     de_sys_cmd := False,
     de_fence_cmd := False\<rparr>"

text \<open>The assignments every accepted instruction makes before the opcode is looked at.\<close>

definition decode_common :: "decode_in \<Rightarrow> decode_state \<Rightarrow> decode_state" where
  "decode_common i s = s\<lparr>
     de_debug_word_o := de_word_i i,
     de_debug_current_ip_o := de_current_ip_i i,
     de_funct3_o := bv_slice 15 12 (de_word_i i),
     de_funct3_onehot_o := bv_put (unat (bv_slice 15 12 (de_word_i i) :: 3 word)) True 0,
     de_funct7_o := bv_slice 32 25 (de_word_i i),
     de_rd_adr_o := bv_slice 12 7 (de_word_i i),
     de_rs1_adr_reg := bv_slice 20 15 (de_word_i i),
     de_rs2_adr_reg := bv_slice 25 20 (de_word_i i),
     de_source_rs1_o := bv_slice 20 15 (de_word_i i),
     de_source_rs2_o := bv_slice 25 20 (de_word_i i),
     de_next_ip_o := de_next_ip_i i,
     de_rs1_immediate := False,
     de_rs2_immediate := False,
     de_alu_cmd := False,
     de_branch_cmd := False,
     de_jump_cmd := False,
     de_jumpr_cmd := False,
     de_load_cmd := False,
     de_store_cmd := False,
     de_csr_cmd := False,
     de_invalid_opcode := False,
     de_sys_cmd := False,
     de_fence_cmd := False,
     de_mepc_o := de_current_ip_i i\<rparr>"

text \<open>The opcode dispatch: \<open>inv\<close>, \<open>cmd_seen\<close> and the registers.\<close>

definition decode_dispatch ::
  "decode_in \<Rightarrow> decode_state \<Rightarrow> bool \<times> bool \<times> decode_state" where
  "decode_dispatch i n =
    (let word = de_word_i i; opcode = bv_slice 7 2 word :: 5 word;
         f3 = bv_slice 15 12 word :: 3 word
     in
     if bv_slice 2 0 word \<noteq> (3 :: 2 word) then (True, False, n)
     else if opcode = RV32_OP then (False, True, n\<lparr>de_alu_cmd := True\<rparr>)
     else if opcode = RV32_IMM then
       (False, True, n\<lparr>
          de_alu_cmd := True,
          de_funct7_o := (if f3 = RV32_F3_ADD_SUB then bv_put 5 False (de_funct7_o n)
                          else de_funct7_o n),
          de_rs2_imm_value := signed_resize (get_I_immediate word),
          de_rs2_immediate := True\<rparr>)
     else if opcode = RV32_BRANCH then
       (False, True, n\<lparr>
          de_branch_cmd := True,
          de_jump_dest_o := de_current_ip_i i + scast (get_SB_immediate word)\<rparr>)
     else if opcode = RV32_JAL then
       (False, True, n\<lparr>
          de_jump_cmd := True,
          de_jump_dest_o := de_current_ip_i i + scast (get_UJ_immediate word)\<rparr>)
     else if opcode = RV32_JALR then
       (False, True, n\<lparr>
          de_jumpr_cmd := True,
          de_alu_cmd := True,
          de_funct3_onehot_o := 1,
          de_funct3_o := RV32_F3_ADD_SUB,
          de_funct7_o := bv_put 5 False (de_funct7_o n),
          de_rs2_imm_value := signed_resize (get_I_immediate word),
          de_rs2_immediate := True\<rparr>)
     else if opcode = RV32_LUI \<or> opcode = RV32_AUIPC then
       (False, True, n\<lparr>
          de_alu_cmd := True,
          de_rs1_immediate := True,
          de_rs1_imm_value := get_U_immediate word,
          de_rs2_immediate := True,
          de_rs2_imm_value := (if opcode = RV32_AUIPC then de_current_ip_i i else 0),
          de_funct3_onehot_o := 1,
          de_funct3_o := RV32_F3_ADD_SUB,
          de_funct7_o := 0\<rparr>)
     else if opcode = RV32_STORE then
       (False, True, n\<lparr>de_store_cmd := True, de_displacement_o := get_S_immediate word\<rparr>)
     else if opcode = RV32_LOAD then
       (False, True, n\<lparr>de_load_cmd := True, de_displacement_o := get_I_immediate word\<rparr>)
     else if opcode = RV32_FENCE then (False, True, n\<lparr>de_fence_cmd := True\<rparr>)
     else if opcode = RV32_SYSTEM then
       (let n1 = n\<lparr>de_priv_funct_12 := bv_slice 32 20 word\<rparr> in
        if f3 = RV32_F3_PRIV then (False, True, n1\<lparr>de_sys_cmd := True\<rparr>)
        else if bit word 14 then
          (False, True, n1\<lparr>de_csr_cmd := True, de_rs1_immediate := True,
             de_rs1_imm_value := ucast (bv_slice 20 15 word :: 5 word)\<rparr>)
        else (False, True, n1\<lparr>de_csr_cmd := True\<rparr>))
     else (True, False, n))"

definition decode_accept :: "decode_in \<Rightarrow> decode_state \<Rightarrow> decode_state" where
  "decode_accept i s =
     (let (inv, cmd_seen, n) = decode_dispatch i (decode_common i s)
      in n\<lparr>de_valid_o := (\<not> inv \<and> cmd_seen), de_invalid_opcode := inv\<rparr>)"

definition decode_op :: "register_transfer \<Rightarrow> decode_in \<Rightarrow> decode_state \<Rightarrow> decode_state" where
  "decode_op t i s =
     (if rt_valid t \<and> rt_write t then decode_transfer t s
      else if de_kill_i i
      then s\<lparr>de_valid_o := False, de_invalid_opcode := False, de_fence_cmd := False\<rparr>
      else if \<not> decode_downstream_busy i s then
        (if de_en_i i then decode_accept i s
         else s\<lparr>de_valid_o := False, de_fence_cmd := False\<rparr>)
      else s)"

definition decode_step ::
  "bool \<Rightarrow> register_transfer \<Rightarrow> decode_in \<Rightarrow> decode_state \<Rightarrow> decode_state" where
  "decode_step reset t i s = (if reset then decode_init else decode_op t i s)"

subsection \<open>The immediates of encoded instructions\<close>

lemma rv_word_bits:
  "bit (rv_word f7 rs2 rs1 f3 rd opc) n \<longleftrightarrow>
     (if n < 2 then True
      else if n < 7 then bit opc (n - 2)
      else if n < 12 then bit rd (n - 7)
      else if n < 15 then bit f3 (n - 12)
      else if n < 20 then bit rs1 (n - 15)
      else if n < 25 then bit rs2 (n - 20)
      else n < 32 \<and> bit f7 (n - 25))"
  by (cases "n < 2") (auto simp: rv_word_def bv_simps bit_simps less_2_cases_iff)

lemma get_I_immediate_encode [simp]: "get_I_immediate (rv_i_word imm rs1 f3 rd opc) = imm"
  by (rule bv_eqI) (auto simp: get_I_immediate_def rv_i_word_def bv_simps rv_word_bits)

lemma get_I_immediate_rv_word:
  "get_I_immediate (rv_word f7 rs2 rs1 f3 rd opc) = bv_cat f7 rs2"
  by (rule bv_eqI) (auto simp: get_I_immediate_def bv_simps rv_word_bits)

lemma get_U_immediate_encode [simp]: "get_U_immediate (rv_u_word imm rd opc) = imm_u imm"
  by (rule bv_eqI) (auto simp: get_U_immediate_def rv_u_word_def imm_u_def bv_simps bit_simps
      rv_word_bits)

lemma get_S_immediate_encode [simp]: "get_S_immediate (rv_s_word imm rs2 rs1 f3) = imm"
  by (rule bv_eqI) (auto simp: get_S_immediate_def rv_s_word_def bv_simps rv_word_bits)

lemma signed_resize_imm_i: "signed_resize imm = imm_i imm"
  by (simp add: signed_resize_sext imm_i_def bv_sext_def)

lemma less_13_cases:
  "n < (13::nat) \<Longrightarrow> n = 12 \<or> n = 11 \<or> n = 10 \<or> n = 9 \<or> n = 8 \<or> n = 7 \<or> n = 6 \<or>
     n = 5 \<or> n = 4 \<or> n = 3 \<or> n = 2 \<or> n = 1 \<or> n = 0"
  by arith

lemma less_21_cases:
  "n < (21::nat) \<Longrightarrow> n < 13 \<or> n = 13 \<or> n = 14 \<or> n = 15 \<or> n = 16 \<or> n = 17 \<or> n = 18 \<or> n = 19 \<or> n = 20"
  by arith

lemma bit_get_SB_immediate:
  assumes "n < 13"
  shows "bit (get_SB_immediate (rv_b_word ofs rs2 rs1 f3)) n \<longleftrightarrow> 0 < n \<and> bit ofs (n - 1)"
  using less_13_cases[OF assms]
  by (elim disjE; simp add: get_SB_immediate_def rv_b_word_def bv_simps rv_word_bits;
      simp add: numeral_2_eq_2)

lemma get_SB_immediate_encode [simp]:
  "scast (get_SB_immediate (rv_b_word ofs rs2 rs1 f3)) = ofs_b ofs"
proof (rule bv_eqI)
  fix n assume n: "n < LENGTH(32)"
  have "bit (ofs_b ofs) n \<longleftrightarrow> 0 < n \<and> bit ofs (min (n - 1) 11)"
    using n unfolding ofs_b_def bit_push_bit_iff by (auto simp: bit_signed_iff min_def)
  then show "bit (scast (get_SB_immediate (rv_b_word ofs rs2 rs1 f3)) :: xword) n \<longleftrightarrow>
      bit (ofs_b ofs) n"
    using n by (cases "n = 12") (auto simp: bit_signed_iff bit_get_SB_immediate min_def)
qed

lemma bit_get_UJ_immediate:
  assumes "n < 21"
  shows "bit (get_UJ_immediate (rv_j_word ofs rd)) n \<longleftrightarrow> 0 < n \<and> bit ofs (n - 1)"
  using less_21_cases[OF assms]
  by (elim disjE less_13_cases[elim_format];
      simp add: get_UJ_immediate_def rv_j_word_def bv_simps rv_word_bits;
      simp add: numeral_2_eq_2)

lemma get_UJ_immediate_encode [simp]:
  "scast (get_UJ_immediate (rv_j_word ofs rd)) = ofs_j ofs"
proof (rule bv_eqI)
  fix n assume n: "n < LENGTH(32)"
  have "bit (ofs_j ofs) n \<longleftrightarrow> 0 < n \<and> bit ofs (min (n - 1) 19)"
    using n unfolding ofs_j_def bit_push_bit_iff by (auto simp: bit_signed_iff min_def)
  then show "bit (scast (get_UJ_immediate (rv_j_word ofs rd)) :: xword) n \<longleftrightarrow>
      bit (ofs_j ofs) n"
    using n by (cases "n = 20") (auto simp: bit_signed_iff bit_get_UJ_immediate min_def)
qed

lemmas rv_formats = rv_i_word_def rv_u_word_def rv_s_word_def rv_b_word_def rv_j_word_def

lemma rv_format_opcode [simp]:
  "bv_slice 7 2 (rv_i_word imm rs1 f3 rd opc) = opc"
  "bv_slice 7 2 (rv_u_word uimm rd opc) = opc"
  "bv_slice 7 2 (rv_s_word imm rs2 rs1 f3) = RV32_STORE"
  "bv_slice 7 2 (rv_b_word imm rs2 rs1 f3) = RV32_BRANCH"
  "bv_slice 7 2 (rv_j_word uimm rd) = RV32_JAL"
  by (simp_all add: rv_formats)

lemma rv_format_low [simp]:
  "bv_slice 2 0 (rv_i_word imm rs1 f3 rd opc) = (3 :: 2 word)"
  "bv_slice 2 0 (rv_u_word uimm rd opc) = (3 :: 2 word)"
  "bv_slice 2 0 (rv_s_word imm rs2 rs1 f3) = (3 :: 2 word)"
  "bv_slice 2 0 (rv_b_word imm rs2 rs1 f3) = (3 :: 2 word)"
  "bv_slice 2 0 (rv_j_word uimm rd) = (3 :: 2 word)"
  by (simp_all add: rv_formats)

lemma rv_format_funct3 [simp]:
  "bv_slice 15 12 (rv_i_word imm rs1 f3 rd opc) = f3"
  "bv_slice 15 12 (rv_s_word imm rs2 rs1 f3) = f3"
  "bv_slice 15 12 (rv_b_word imm rs2 rs1 f3) = f3"
  by (simp_all add: rv_formats)

lemma rv_format_regs [simp]:
  "bv_slice 20 15 (rv_i_word imm rs1 f3 rd opc) = rs1"
  "bv_slice 20 15 (rv_s_word imm rs2 rs1 f3) = rs1"
  "bv_slice 20 15 (rv_b_word imm rs2 rs1 f3) = rs1"
  "bv_slice 25 20 (rv_s_word imm rs2 rs1 f3) = rs2"
  "bv_slice 25 20 (rv_b_word imm rs2 rs1 f3) = rs2"
  "bv_slice 12 7 (rv_i_word imm rs1 f3 rd opc) = rd"
  "bv_slice 12 7 (rv_u_word uimm rd opc) = rd"
  "bv_slice 12 7 (rv_j_word uimm rd) = rd"
  by (simp_all add: rv_formats)

lemma rv_i_word_funct12 [simp]: "bv_slice 32 20 (rv_i_word imm rs1 f3 rd opc) = imm"
  using get_I_immediate_encode[of imm rs1 f3 rd opc] by (simp add: get_I_immediate_def)

lemma rv_i_word_bit14 [simp]: "bit (rv_i_word imm rs1 f3 rd opc) 14 \<longleftrightarrow> bit f3 2"
  by (simp add: rv_i_word_def rv_word_bits)

lemma csr_funct3 [simp]:
  "bv_cat (bv_bool b) (csr_funct2 op) \<noteq> (RV32_F3_PRIV :: 3 word)"
  "bit (bv_cat (bv_bool b) (csr_funct2 op) :: 3 word) 2 \<longleftrightarrow> b"
proof -
  show "bit (bv_cat (bv_bool b) (csr_funct2 op) :: 3 word) 2 \<longleftrightarrow> b" by (simp add: bv_simps)
  have "bv_slice 2 0 (bv_cat (bv_bool b) (csr_funct2 op) :: 3 word) = csr_funct2 op"
    by (rule bv_eqI) (auto simp: bv_simps)
  moreover have "csr_funct2 op \<noteq> 0" by (cases op) simp_all
  moreover have "bv_slice 2 0 (0 :: 3 word) = (0 :: 2 word)" by (rule bv_eqI) (simp add: bv_simps)
  ultimately show "bv_cat (bv_bool b) (csr_funct2 op) \<noteq> (0 :: 3 word)" by metis
qed

subsection \<open>What the decoder must deliver\<close>

datatype exec_class = Class_Alu | Class_Load | Class_Store | Class_Branch | Class_Jal
  | Class_Jalr | Class_Csr | Class_Sys | Class_Fence

fun class_of :: "rv_instr \<Rightarrow> exec_class" where
  "class_of (Lui rd imm) = Class_Alu"
| "class_of (Auipc rd imm) = Class_Alu"
| "class_of (Jal rd ofs) = Class_Jal"
| "class_of (Jalr rd rs1 imm) = Class_Jalr"
| "class_of (Branch op rs1 rs2 ofs) = Class_Branch"
| "class_of (Load op rd rs1 imm) = Class_Load"
| "class_of (Store op rs1 rs2 imm) = Class_Store"
| "class_of (OpImm op rd rs1 imm) = Class_Alu"
| "class_of (ShiftImm op rd rs1 shamt) = Class_Alu"
| "class_of (OpReg op rd rs1 rs2) = Class_Alu"
| "class_of Fence = Class_Fence"
| "class_of (Csr op rd rs1 csr) = Class_Csr"
| "class_of (CsrImm op rd zimm csr) = Class_Csr"
| "class_of Ecall = Class_Sys"
| "class_of Ebreak = Class_Sys"
| "class_of Mret = Class_Sys"

text \<open>The command lines: one class, with the ALU command also up for the JALR target.\<close>

definition decode_class :: "exec_class \<Rightarrow> decode_state \<Rightarrow> bool" where
  "decode_class c s \<longleftrightarrow>
     de_alu_cmd s = (c = Class_Alu \<or> c = Class_Jalr) \<and> de_load_cmd s = (c = Class_Load) \<and>
     de_store_cmd s = (c = Class_Store) \<and> de_branch_cmd s = (c = Class_Branch) \<and>
     de_jump_cmd s = (c = Class_Jal) \<and> de_jumpr_cmd s = (c = Class_Jalr) \<and>
     de_csr_cmd s = (c = Class_Csr) \<and> de_sys_cmd s = (c = Class_Sys) \<and>
     de_fence_cmd s = (c = Class_Fence)"

text \<open>The operands, immediates and function codes of each instruction.\<close>

definition alu_function :: "alu_op \<Rightarrow> decode_state \<Rightarrow> bool" where
  "alu_function op s \<longleftrightarrow>
     de_funct3_o s = alu_funct3 op \<and>
     (op \<in> {Op_Add, Op_Sub, Op_Srl, Op_Sra} \<longrightarrow> bit (de_funct7_o s) 5 = (op = Op_Sub \<or> op = Op_Sra))"

definition imm_operands :: "xword option \<Rightarrow> xword option \<Rightarrow> decode_state \<Rightarrow> bool" where
  "imm_operands o1 o2 s \<longleftrightarrow>
     de_rs1_immediate s = (o1 \<noteq> None) \<and> (\<forall>v. o1 = Some v \<longrightarrow> de_rs1_imm_value s = v) \<and>
     de_rs2_immediate s = (o2 \<noteq> None) \<and> (\<forall>v. o2 = Some v \<longrightarrow> de_rs2_imm_value s = v)"

fun decoded_operands :: "rv_instr \<Rightarrow> xword \<Rightarrow> decode_state \<Rightarrow> bool" where
  "decoded_operands (Lui rd imm) pc s =
     (alu_function Op_Add s \<and> imm_operands (Some (imm_u imm)) (Some 0) s)"
| "decoded_operands (Auipc rd imm) pc s =
     (alu_function Op_Add s \<and> imm_operands (Some (imm_u imm)) (Some pc) s)"
| "decoded_operands (Jal rd ofs) pc s = (de_jump_dest_o s = pc + ofs_j ofs)"
| "decoded_operands (Jalr rd rs1 imm) pc s =
     (alu_function Op_Add s \<and> imm_operands None (Some (imm_i imm)) s)"
| "decoded_operands (Branch op rs1 rs2 ofs) pc s =
     (de_funct3_o s = branch_funct3 op \<and> imm_operands None None s \<and>
      de_jump_dest_o s = pc + ofs_b ofs)"
| "decoded_operands (Load op rd rs1 imm) pc s =
     (de_funct3_o s = load_funct3 op \<and> imm_operands None None s \<and> de_displacement_o s = imm)"
| "decoded_operands (Store op rs1 rs2 imm) pc s =
     (de_funct3_o s = store_funct3 op \<and> imm_operands None None s \<and> de_displacement_o s = imm)"
| "decoded_operands (OpImm op rd rs1 imm) pc s =
     (alu_function (imm_alu_op op) s \<and> imm_operands None (Some (imm_i imm)) s)"
| "decoded_operands (ShiftImm op rd rs1 shamt) pc s =
     (alu_function (shift_alu_op op) s \<and> bv_slice 5 0 (de_rs2_imm_value s) = shamt \<and>
      imm_operands None (Some (de_rs2_imm_value s)) s)"
| "decoded_operands (OpReg op rd rs1 rs2) pc s = (alu_function op s \<and> imm_operands None None s)"
| "decoded_operands Fence pc s = True"
| "decoded_operands (Csr op rd rs1 csr) pc s =
     (bv_slice 2 0 (de_funct3_o s) = csr_funct2 op \<and> imm_operands None None s \<and>
      de_priv_funct_12 s = csr)"
| "decoded_operands (CsrImm op rd zimm csr) pc s =
     (bv_slice 2 0 (de_funct3_o s) = csr_funct2 op \<and>
      imm_operands (Some (ucast zimm)) None s \<and> de_priv_funct_12 s = csr)"
| "decoded_operands Ecall pc s = (de_priv_funct_12 s = RV32_F12_ECALL)"
| "decoded_operands Ebreak pc s = (de_priv_funct_12 s = RV32_F12_EBREAK)"
| "decoded_operands Mret pc s = (de_priv_funct_12 s = RV32_F12_ERET)"

text \<open>The register addresses: the destination, and for CSR immediates the field that carries
  the immediate, which the CSR unit tests for zero.\<close>

fun rv_source_field :: "rv_instr \<Rightarrow> regno option" where
  "rv_source_field (CsrImm op rd zimm csr) = Some zimm"
| "rv_source_field i = rv_reads_rs1 i"

definition decoded :: "rv_instr \<Rightarrow> xword \<Rightarrow> xword \<Rightarrow> decode_state \<Rightarrow> bool" where
  "decoded i pc npc s \<longleftrightarrow>
     de_valid_o s \<and> \<not> de_invalid_opcode s \<and> decode_class (class_of i) s \<and>
     decoded_operands i pc s \<and> de_mepc_o s = pc \<and> de_next_ip_o s = npc \<and>
     (\<forall>r. rv_dest i = Some r \<longrightarrow> de_rd_adr_o s = r) \<and>
     (\<forall>r. rv_source_field i = Some r \<longrightarrow> de_source_rs1_o s = r) \<and>
     (\<forall>r. rv_reads_rs2 i = Some r \<longrightarrow> de_source_rs2_o s = r)"

lemma op_funct7_bit5: "bit (op_funct7 op) 5 \<longleftrightarrow> op = Op_Sub \<or> op = Op_Sra"
  by (simp add: op_funct7_def bit_numeral_rec)

lemma csr_funct3_low: "bv_slice 2 0 (bv_cat (bv_bool b) (csr_funct2 op) :: 3 word) = csr_funct2 op"
  by (rule bv_eqI) (auto simp: bv_simps)

lemma shift_imm_shamt: "bv_slice 5 0 (imm_i (bv_cat (f7 :: 7 word) shamt)) = (shamt :: 5 word)"
  by (rule bv_eqI) (auto simp: imm_i_def bit_signed_iff bv_simps min_def)

lemma bv_put_self [simp]: "bit (bv_put n False w) n = False"
  by (simp add: bv_simps)

lemmas decode_accept_defs = decode_accept_def decode_dispatch_def decode_common_def Let_def

lemma decode_accept_decoded:
  assumes "de_word_i i = rv_encode ins"
  shows "decoded ins (de_current_ip_i i) (de_next_ip_i i) (decode_accept i s)"
proof (cases ins)
  case (OpImm op rd rs1 imm)
  then show ?thesis using assms
    by (cases op) (simp_all add: decoded_def decode_class_def alu_function_def imm_operands_def
        decode_accept_defs signed_resize_imm_i)
next
  case (ShiftImm op rd rs1 shamt)
  then show ?thesis using assms
    by (cases op) (simp_all add: decoded_def decode_class_def alu_function_def imm_operands_def
        decode_accept_defs signed_resize_imm_i get_I_immediate_rv_word shift_imm_shamt
        op_funct7_bit5)
qed (use assms in \<open>simp_all add: decoded_def decode_class_def alu_function_def imm_operands_def
        decode_accept_defs signed_resize_imm_i op_funct7_bit5 csr_funct3_low\<close>)

lemma decoded_uses:
  assumes "decoded ins pc npc s"
  shows "decode_uses_rs1_o s = (rv_reads_rs1 ins \<noteq> None)"
    and "decode_uses_rs2_o s = (rv_reads_rs2 ins \<noteq> None)"
    and "\<forall>r. rv_reads_rs1 ins = Some r \<longrightarrow> de_source_rs1_o s = r"
  using assms
  by (cases ins; simp add: decoded_def decode_class_def imm_operands_def decode_uses_rs1_o_def
      decode_uses_rs2_o_def)+

text \<open>
  C4: The decode stage recovers every RV32I instruction from its encoding. When it accepts
  \<open>rv_encode ins\<close> (enabled, not killed, not stalled, no debug write), the next cycle shows the
  command lines, function codes, immediates, jump destination and register numbers of
  \<open>ins\<close>; the operand-use flags are exactly the registers the ISA says \<open>ins\<close> reads; and
  the register file was addressed with those registers in the cycle before.
\<close>

theorem decode_correct:
  assumes accept: "de_en_i i" "\<not> de_kill_i i" "\<not> decode_downstream_busy i s" "\<not> rt_valid t"
    and word: "de_word_i i = rv_encode ins"
  shows "let s' = decode_step False t i s in
     decoded ins (de_current_ip_i i) (de_next_ip_i i) s' \<and>
     decode_uses_rs1_o s' = (rv_reads_rs1 ins \<noteq> None) \<and>
     decode_uses_rs2_o s' = (rv_reads_rs2 ins \<noteq> None) \<and>
     (\<forall>r. rv_reads_rs1 ins = Some r \<longrightarrow> decode_rs1_adr_o t i s = r) \<and>
     (\<forall>r. rv_reads_rs2 ins = Some r \<longrightarrow> decode_rs2_adr_o i s = r)"
proof -
  have step: "decode_step False t i s = decode_accept i s"
    using accept by (simp add: decode_step_def decode_op_def)
  note dec = decode_accept_decoded[OF word, of s]
  have "de_source_rs1_o (decode_accept i s) = bv_slice 20 15 (de_word_i i)"
    "de_source_rs2_o (decode_accept i s) = bv_slice 25 20 (de_word_i i)"
    by (simp_all add: decode_accept_defs)
  moreover have "\<forall>r. rv_reads_rs2 ins = Some r \<longrightarrow> de_source_rs2_o (decode_accept i s) = r"
    using dec by (simp add: decoded_def)
  ultimately show ?thesis
    using dec decoded_uses[OF dec] accept unfolding step Let_def
    by (simp add: decode_rs1_adr_o_def decode_rs2_adr_o_def)
qed

lemma decode_correct_witness:
  "let i = \<lparr>de_en_i = True, de_stall_i = True, de_kill_i = False, de_word_i = 0xfe629ee3,
            de_current_ip_i = 0x100, de_next_ip_i = 0x104, de_rs1_data_i = 0,
            de_rs2_data_i = 0\<rparr>
   in decode_uses_rs2_o (decode_step False no_transfer i decode_init) \<and>
      decode_rs2_adr_o i decode_init = 6"
  using decode_correct[where ins = "Branch Bne 5 6 0xffe" and t = no_transfer and s = decode_init
      and i = "\<lparr>de_en_i = True, de_stall_i = True, de_kill_i = False,
        de_word_i = rv_encode (Branch Bne 5 6 0xffe), de_current_ip_i = 0x100,
        de_next_ip_i = 0x104, de_rs1_data_i = 0, de_rs2_data_i = 0\<rparr>"]
  unfolding rv_encode_examples
  by (simp add: decode_downstream_busy_def decode_init_def no_transfer_def Let_def)

text \<open>The major opcodes the decoder accepts.\<close>

definition known_opcode :: "5 word \<Rightarrow> bool" where
  "known_opcode opc \<longleftrightarrow> opc \<in> {RV32_LUI, RV32_AUIPC, RV32_JAL, RV32_JALR, RV32_BRANCH, RV32_LOAD,
     RV32_STORE, RV32_IMM, RV32_OP, RV32_FENCE, RV32_SYSTEM}"

text \<open>
  Control of the decode stage. A held output is kept unchanged while the execute stage
  stalls, and only then; a kill or an idle input leaves the stage empty; an accepted word is
  valid or flagged invalid, never both, and is invalid exactly when it is a compressed encoding
  or its major opcode is not one of RV32I. A debug register write always replaces the stage's
  contents by an OR of the write data into the register.
\<close>

theorem decode_control:
  "let s' = decode_step False t i s in
   (rt_valid t \<and> rt_write t \<longrightarrow>
      de_valid_o s' \<and> decode_class Class_Alu s' \<and> alu_function Op_Or s' \<and>
      imm_operands (Some (rt_write_data t)) (Some 0) s' \<and> de_rd_adr_o s' = rt_regno t) \<and>
   (\<not> (rt_valid t \<and> rt_write t) \<longrightarrow>
      (de_kill_i i \<longrightarrow> \<not> de_valid_o s' \<and> \<not> de_invalid_opcode s') \<and>
      (\<not> de_kill_i i \<and> decode_busy_o i s \<longrightarrow> s' = s) \<and>
      (\<not> de_kill_i i \<and> \<not> decode_busy_o i s \<and> \<not> de_en_i i \<longrightarrow> \<not> de_valid_o s') \<and>
      (\<not> de_kill_i i \<and> \<not> decode_busy_o i s \<and> de_en_i i \<longrightarrow>
         de_valid_o s' = (\<not> de_invalid_opcode s') \<and>
         de_invalid_opcode s' = (bv_slice 2 0 (de_word_i i) \<noteq> (3 :: 2 word) \<or>
           \<not> known_opcode (bv_slice 7 2 (de_word_i i)))))"
  by (auto simp: decode_step_def decode_op_def decode_busy_o_def decode_transfer_def
      decode_class_def alu_function_def imm_operands_def decode_accept_defs known_opcode_def)

lemma decode_control_witness:
  "let s' = decode_step False no_transfer
      \<lparr>de_en_i = True, de_stall_i = False, de_kill_i = False, de_word_i = 0, de_current_ip_i = 0,
       de_next_ip_i = 0, de_rs1_data_i = 0, de_rs2_data_i = 0\<rparr> decode_init
   in de_invalid_opcode s' \<and> \<not> de_valid_o s'"
proof -
  have "bv_slice 2 0 (0 :: xword) = (0 :: 2 word)" by (simp add: bv_slice_def)
  then show ?thesis
    using decode_control[of no_transfer "\<lparr>de_en_i = True, de_stall_i = False, de_kill_i = False,
        de_word_i = 0, de_current_ip_i = 0, de_next_ip_i = 0, de_rs1_data_i = 0,
        de_rs2_data_i = 0\<rparr>" decode_init]
    by (simp add: no_transfer_def decode_busy_o_def decode_downstream_busy_def decode_init_def Let_def)
qed

end
