(* ===== verification/Bus.thy ===== *)
theory Bus
  imports Config
begin

text \<open>
  The data bus of the core (\<open>DbusBundle\<close> of \<open>rtl/bonfire_interfaces.py\<close>): the signals the
  master drives, the signals it reads, and the meaning of the byte-lane write enables.
\<close>

record dbus_req =
  db_en_o :: bool
  db_adr_o :: xword
  db_we_o :: "4 word"
  db_wr :: xword

record dbus_rsp =
  db_stall_i :: bool
  db_ack_i :: bool
  db_error_i :: bool
  db_rd :: xword

definition dbus_idle :: dbus_req where
  "dbus_idle = \<lparr>db_en_o = False, db_adr_o = 0, db_we_o = 0, db_wr = 0\<rparr>"

text \<open>A memory word after a write with byte enables: the enabled lanes are replaced.\<close>

definition lane_mask :: "4 word \<Rightarrow> xword" where
  "lane_mask we =
     (if bit we 0 then 0x000000ff else 0) OR (if bit we 1 then 0x0000ff00 else 0) OR
     (if bit we 2 then 0x00ff0000 else 0) OR (if bit we 3 then 0xff000000 else 0)"

definition merge_lanes :: "4 word \<Rightarrow> xword \<Rightarrow> xword \<Rightarrow> xword" where
  "merge_lanes we v old = (v AND lane_mask we) OR (old AND NOT (lane_mask we))"

lemma bit_xword_mask:
  "bit (0x000000ff :: xword) n \<longleftrightarrow> n < 8"
  "bit (0x0000ff00 :: xword) n \<longleftrightarrow> 8 \<le> n \<and> n < 16"
  "bit (0x00ff0000 :: xword) n \<longleftrightarrow> 16 \<le> n \<and> n < 24"
  "bit (0xff000000 :: xword) n \<longleftrightarrow> 24 \<le> n \<and> n < 32"
proof -
  have "(0x000000ff :: xword) = mask 8" "(0x0000ff00 :: xword) = push_bit 8 (mask 8)"
    "(0x00ff0000 :: xword) = push_bit 16 (mask 8)" "(0xff000000 :: xword) = push_bit 24 (mask 8)"
    by (simp_all add: mask_eq_exp_minus_1 push_bit_eq_mult)
  then show "bit (0x000000ff :: xword) n \<longleftrightarrow> n < 8"
    "bit (0x0000ff00 :: xword) n \<longleftrightarrow> 8 \<le> n \<and> n < 16"
    "bit (0x00ff0000 :: xword) n \<longleftrightarrow> 16 \<le> n \<and> n < 24"
    "bit (0xff000000 :: xword) n \<longleftrightarrow> 24 \<le> n \<and> n < 32"
    by (simp_all only: bit_mask_iff bit_push_bit_iff possible_bit_word) auto
qed

lemma bit_lane_mask: "bit (lane_mask we) n \<longleftrightarrow> n < 32 \<and> bit we (n div 8)"
proof -
  have "n < 32 \<Longrightarrow> (n < 8 \<and> n div 8 = 0) \<or> (8 \<le> n \<and> n < 16 \<and> n div 8 = 1) \<or>
      (16 \<le> n \<and> n < 24 \<and> n div 8 = 2) \<or> (24 \<le> n \<and> n div 8 = 3)"
    by presburger
  then show ?thesis
    unfolding lane_mask_def bit_or_iff if_distrib[of "\<lambda>w. bit w n"] bit_xword_mask bit_0_eq
    by auto
qed

lemma bit_merge_lanes [bv_simps]:
  "bit (merge_lanes we v old) n \<longleftrightarrow>
     n < 32 \<and> (if bit we (n div 8) then bit v n else bit old n)"
  by (auto simp: merge_lanes_def bit_simps bit_lane_mask)

lemma merge_lanes_all [simp]: "merge_lanes 15 v old = v"
proof (rule xword_eqI)
  fix n :: nat assume n: "n < 32"
  then have "n div 8 = 0 \<or> n div 8 = 1 \<or> n div 8 = 2 \<or> n div 8 = 3" by presburger
  then have "bit (15 :: 4 word) (n div 8)" by (auto simp: bit_numeral_rec bit_1_iff)
  with n show "bit (merge_lanes 15 v old) n \<longleftrightarrow> bit v n" by (simp add: bv_simps)
qed

lemma merge_lanes_none [simp]: "merge_lanes 0 v old = old"
  by (rule xword_eqI) (simp add: bv_simps)

lemma merge_lanes_idem [simp]: "merge_lanes we v (merge_lanes we u old) = merge_lanes we v old"
  by (rule xword_eqI) (simp add: bv_simps)

end
