(* ===== verification/Loadstore.thy ===== *)
theory Loadstore
  imports Isa_Spec Bus
begin

text \<open>
  The load/store unit (\<open>rtl/loadstore.py\<close>): address generation, the registered bus request,
  the pipeline of pending operations, the outstanding counter, and the read-data multiplexer
  with its sign extension. The configuration enters through \<open>loadstore_outstanding\<close>,
  \<open>registered_read_stage\<close> and \<open>mem_write_early_term\<close>.
\<close>

record ls_in =
  ls_en_i :: bool
  ls_store_i :: bool
  ls_funct3_i :: "3 word"
  ls_op1_i :: xword
  ls_op2_i :: xword
  ls_displacement_i :: "12 word"
  ls_rd_i :: regno

text \<open>One stage of the pipeline of accepted operations.\<close>

record ls_pipe_entry =
  lp_rd :: regno
  lp_adr_lo :: "2 word"
  lp_byte_mode :: bool
  lp_hword_mode :: bool
  lp_unsigned :: bool
  lp_store :: bool
  lp_misalign :: bool
  lp_invalid_op :: bool

definition ls_pipe_empty :: ls_pipe_entry where
  "ls_pipe_empty = \<lparr>lp_rd = 0, lp_adr_lo = 0, lp_byte_mode = False, lp_hword_mode = False,
     lp_unsigned = False, lp_store = False, lp_misalign = False, lp_invalid_op = False\<rparr>"

record ls_state =
  ls_req :: dbus_req
  ls_pipe :: "ls_pipe_entry list"
  ls_outstanding :: nat
  ls_en_r :: bool
  ls_result_r :: xword
  ls_valid_reg :: bool
  ls_bus_error_o :: bool
  ls_invalid_op_o :: bool
  ls_misalign_load_o :: bool
  ls_misalign_store_o :: bool

definition ls_init :: "bonfire_config \<Rightarrow> ls_state" where
  "ls_init c = \<lparr>ls_req = dbus_idle, ls_pipe = replicate (loadstore_outstanding c) ls_pipe_empty,
     ls_outstanding = 0, ls_en_r = False, ls_result_r = 0, ls_valid_reg = False,
     ls_bus_error_o = False, ls_invalid_op_o = False, ls_misalign_load_o = False,
     ls_misalign_store_o = False\<rparr>"

text \<open>The design-time assertions and pipe indices.\<close>

definition ls_config_ok :: "bonfire_config \<Rightarrow> bool" where
  "ls_config_ok c \<longleftrightarrow> 0 < loadstore_outstanding c \<and>
     loadstore_outstanding c \<le> (if registered_read_stage c then 3 else 2)"

definition max_pipe_index :: "bonfire_config \<Rightarrow> nat" where
  "max_pipe_index c = loadstore_outstanding c - 1"

definition write_pipe_index :: "bonfire_config \<Rightarrow> nat" where
  "write_pipe_index c =
     (if loadstore_outstanding c = 3 then 1 else loadstore_outstanding c - 1)"

definition ls_mux_index :: "bonfire_config \<Rightarrow> nat" where
  "ls_mux_index c = (if loadstore_outstanding c = 3 then 1 else max_pipe_index c)"

text \<open>The exclusive upper bound of the \<open>intbv\<close> outstanding counter.\<close>

definition ls_counter_limit :: "bonfire_config \<Rightarrow> nat" where
  "ls_counter_limit c = (if loadstore_outstanding c > 1 then 4 else 2)"

subsection \<open>Combinational signals\<close>

definition ls_adr :: "ls_in \<Rightarrow> xword" where
  "ls_adr i = ls_op1_i i + scast (ls_displacement_i i)"

text \<open>The store operand, moved to its byte lane by two levels of the barrel shifter.\<close>

definition ls_op2_shifted :: "ls_in \<Rightarrow> xword" where
  "ls_op2_shifted i = left_shift_comb (ls_op2_i i) (ls_adr i) False 5 3"

definition ls_confirm :: "dbus_rsp \<Rightarrow> ls_state \<Rightarrow> bool" where
  "ls_confirm b s \<longleftrightarrow> (db_ack_i b \<or> db_error_i b) \<and> ls_outstanding s > 0"

definition ls_capacity_busy :: "bonfire_config \<Rightarrow> dbus_rsp \<Rightarrow> ls_state \<Rightarrow> bool" where
  "ls_capacity_busy c b s \<longleftrightarrow>
     ls_outstanding s = loadstore_outstanding c \<and> \<not> (\<not> registered_read_stage c \<and> db_ack_i b)"

definition ls_busy :: "bonfire_config \<Rightarrow> dbus_rsp \<Rightarrow> ls_state \<Rightarrow> bool" where
  "ls_busy c b s =
     (if loadstore_outstanding c = 1 then ls_capacity_busy c b s
      else db_stall_i b \<or> ls_capacity_busy c b s)"

definition ls_valid_comb :: "bonfire_config \<Rightarrow> dbus_rsp \<Rightarrow> ls_state \<Rightarrow> bool" where
  "ls_valid_comb c b s \<longleftrightarrow> ls_confirm b s \<and>
     \<not> (lp_misalign (ls_pipe s ! max_pipe_index c) \<or> lp_invalid_op (ls_pipe s ! max_pipe_index c))"

definition ls_rdmux_out :: "bonfire_config \<Rightarrow> dbus_rsp \<Rightarrow> ls_state \<Rightarrow> xword" where
  "ls_rdmux_out c b s =
     (let e = ls_pipe s ! ls_mux_index c; a = lp_adr_lo e; d = db_rd b in
      if lp_byte_mode e then
        (let (byte, sign) =
           (if a = 0 then (bv_slice 8 0 d :: 8 word, bit d 7)
            else if a = 1 then (bv_slice 16 8 d, bit d 15)
            else if a = 2 then (bv_slice 24 16 d, bit d 23)
            else (bv_slice 32 24 d, bit d 31))
         in bv_cat (if sign \<and> \<not> lp_unsigned e then - 1 else 0 :: 24 word) byte)
      else if lp_hword_mode e then
        (let (half, sign) =
           (if bit a 1 then (bv_slice 32 16 d :: 16 word, bit d 31 \<and> \<not> lp_unsigned e)
            else (bv_slice 16 0 d, bit d 15 \<and> \<not> lp_unsigned e))
         in bv_cat (if sign then - 1 else 0 :: 16 word) half)
      else d)"

text \<open>The outputs of the unit: \<open>valid_o\<close>, \<open>busy_o\<close>, \<open>we_o\<close>, \<open>result_o\<close>, \<open>rd_o\<close>.\<close>

definition ls_valid_o :: "bonfire_config \<Rightarrow> dbus_rsp \<Rightarrow> ls_state \<Rightarrow> bool" where
  "ls_valid_o c b s =
     (if \<not> registered_read_stage c then ls_valid_comb c b s
      else if lp_store (ls_pipe s ! write_pipe_index c) \<and> mem_write_early_term c
      then ls_valid_comb c b s else ls_valid_reg s)"

definition ls_busy_o :: "bonfire_config \<Rightarrow> dbus_rsp \<Rightarrow> ls_state \<Rightarrow> bool" where
  "ls_busy_o c b s =
     (if \<not> registered_read_stage c then ls_busy c b s
      else if lp_store (ls_pipe s ! write_pipe_index c) \<and> mem_write_early_term c
      then ls_busy c b s else ls_busy c b s \<or> ls_valid_reg s)"

definition ls_we_o :: "bonfire_config \<Rightarrow> ls_state \<Rightarrow> bool" where
  "ls_we_o c s =
     (if \<not> registered_read_stage c then \<not> lp_store (ls_pipe s ! write_pipe_index c)
      else \<not> lp_store (ls_pipe s ! write_pipe_index c) \<and> ls_valid_reg s)"

definition ls_result_o :: "bonfire_config \<Rightarrow> dbus_rsp \<Rightarrow> ls_state \<Rightarrow> xword" where
  "ls_result_o c b s = (if registered_read_stage c then ls_result_r s else ls_rdmux_out c b s)"

definition ls_rd_o :: "bonfire_config \<Rightarrow> ls_state \<Rightarrow> regno" where
  "ls_rd_o c s = lp_rd (ls_pipe s ! max_pipe_index c)"

definition ls_debug_empty :: "ls_state \<Rightarrow> bool" where
  "ls_debug_empty s = (ls_outstanding s = 0)"

definition ls_taken :: "bonfire_config \<Rightarrow> ls_in \<Rightarrow> dbus_rsp \<Rightarrow> ls_state \<Rightarrow> bool" where
  "ls_taken c i b s = (ls_en_i i \<and> \<not> ls_busy_o c b s)"

subsection \<open>The clocked processes\<close>

definition ls_byte_mode :: "ls_in \<Rightarrow> bool" where
  "ls_byte_mode i = (bv_slice 2 0 (ls_funct3_i i) = (0 :: 2 word))"
definition ls_word_mode :: "ls_in \<Rightarrow> bool" where
  "ls_word_mode i = (bv_slice 2 0 (ls_funct3_i i) = (2 :: 2 word))"
definition ls_hword_mode :: "ls_in \<Rightarrow> bool" where
  "ls_hword_mode i = (bv_slice 2 0 (ls_funct3_i i) = (1 :: 2 word))"

definition ls_adr_lo :: "ls_in \<Rightarrow> 2 word" where
  "ls_adr_lo i = bv_slice 2 0 (ls_adr i)"

definition ls_misalign :: "ls_in \<Rightarrow> bool" where
  "ls_misalign i \<longleftrightarrow>
     ls_hword_mode i \<and> bit (ls_adr i) 0 \<or> ls_word_mode i \<and> ls_adr_lo i \<noteq> 0"

definition ls_invalid_op :: "ls_in \<Rightarrow> bool" where
  "ls_invalid_op i \<longleftrightarrow> bit (ls_funct3_i i) 2 \<and> ls_store_i i \<or>
     \<not> (ls_byte_mode i \<or> ls_word_mode i \<or> ls_hword_mode i)"

definition ls_write_enable :: "ls_in \<Rightarrow> 4 word" where
  "ls_write_enable i =
     (if ls_word_mode i then 0b1111
      else if ls_hword_mode i then (if \<not> bit (ls_adr i) 1 then 0b0011 else 0b1100)
      else if ls_byte_mode i then
        (if ls_adr_lo i = 0 then 0b0001
         else if ls_adr_lo i = 1 then 0b0010
         else if ls_adr_lo i = 2 then 0b0100
         else 0b1000)
      else 0)"

definition ls_new_entry :: "ls_in \<Rightarrow> ls_pipe_entry" where
  "ls_new_entry i = \<lparr>lp_rd = ls_rd_i i, lp_adr_lo = ls_adr_lo i, lp_byte_mode = ls_byte_mode i,
     lp_hword_mode = ls_hword_mode i, lp_unsigned = bit (ls_funct3_i i) 2,
     lp_store = ls_store_i i, lp_misalign = ls_misalign i, lp_invalid_op = ls_invalid_op i\<rparr>"

definition ls_next_req :: "bonfire_config \<Rightarrow> ls_in \<Rightarrow> dbus_rsp \<Rightarrow> ls_state \<Rightarrow> dbus_req" where
  "ls_next_req c i b s =
     (let r0 = (if \<not> db_stall_i b then (ls_req s)\<lparr>db_en_o := False\<rparr> else ls_req s) in
      if ls_taken c i b s \<and> \<not> ls_misalign i
      then (if ls_store_i i
            then r0\<lparr>db_adr_o := ls_adr i, db_en_o := True, db_we_o := ls_write_enable i,
                    db_wr := ls_op2_shifted i\<rparr>
            else r0\<lparr>db_adr_o := ls_adr i, db_en_o := True, db_we_o := 0\<rparr>)
      else r0)"

definition ls_next_pipe ::
  "bonfire_config \<Rightarrow> ls_in \<Rightarrow> dbus_rsp \<Rightarrow> ls_state \<Rightarrow> ls_pipe_entry list" where
  "ls_next_pipe c i b s =
     (let p = (if loadstore_outstanding c > 1 \<and> (ls_en_i i \<or> ls_en_r s) \<and> \<not> ls_busy c b s
               then hd (ls_pipe s) # butlast (ls_pipe s) else ls_pipe s)
      in if ls_taken c i b s then p[0 := ls_new_entry i] else p)"

definition ls_drive_bus ::
  "bonfire_config \<Rightarrow> ls_in \<Rightarrow> dbus_rsp \<Rightarrow> ls_state \<Rightarrow> ls_state \<Rightarrow> ls_state" where
  "ls_drive_bus c i b s n =
     (let n1 = n\<lparr>ls_req := ls_next_req c i b s, ls_pipe := ls_next_pipe c i b s\<rparr>;
          e = ls_pipe s ! max_pipe_index c
      in if (db_ack_i b \<or> db_error_i b) \<and> ls_outstanding s > 0
         then n1\<lparr>ls_bus_error_o := db_error_i b,
                 ls_invalid_op_o := lp_invalid_op e,
                 ls_misalign_load_o := (lp_misalign e \<and> \<not> lp_store e),
                 ls_misalign_store_o := (lp_misalign e \<and> lp_store e)\<rparr>
         else n1)"

definition ls_calc_outstanding ::
  "bonfire_config \<Rightarrow> ls_in \<Rightarrow> dbus_rsp \<Rightarrow> ls_state \<Rightarrow> ls_state \<Rightarrow> ls_state" where
  "ls_calc_outstanding c i b s n =
     (let request = ls_taken c i b s; confirm = ls_confirm b s;
          n1 = (if request then n\<lparr>ls_en_r := True\<rparr> else n)
      in if request \<and> \<not> confirm then n1\<lparr>ls_outstanding := ls_outstanding s + 1\<rparr>
         else if \<not> request \<and> confirm then
           (if ls_outstanding s > 0
            then (let o_next = ls_outstanding s - 1; n2 = n1\<lparr>ls_outstanding := o_next\<rparr>
                  in if o_next = 0 then n2\<lparr>ls_en_r := False\<rparr> else n2)
            else n1)
         else n1)"

definition ls_out_regs :: "bonfire_config \<Rightarrow> dbus_rsp \<Rightarrow> ls_state \<Rightarrow> ls_state \<Rightarrow> ls_state" where
  "ls_out_regs c b s n =
     (if registered_read_stage c
      then n\<lparr>ls_result_r := ls_rdmux_out c b s, ls_valid_reg := ls_valid_comb c b s\<rparr>
      else n)"

definition ls_step :: "bonfire_config \<Rightarrow> bool \<Rightarrow> ls_in \<Rightarrow> dbus_rsp \<Rightarrow> ls_state \<Rightarrow> ls_state" where
  "ls_step c reset i b s =
     (if reset then ls_init c
      else ls_out_regs c b s (ls_calc_outstanding c i b s (ls_drive_bus c i b s s)))"

subsection \<open>Loads and stores of the ISA on a memory word\<close>

definition byte_offset :: "xword \<Rightarrow> nat" where
  "byte_offset adr = unat (take_bit 2 adr)"

fun isa_load :: "load_op \<Rightarrow> xword \<Rightarrow> xword \<Rightarrow> xword" where
  "isa_load Lb adr d = scast (ucast (drop_bit (8 * byte_offset adr) d) :: 8 word)"
| "isa_load Lh adr d = scast (ucast (drop_bit (8 * byte_offset adr) d) :: 16 word)"
| "isa_load Lw adr d = d"
| "isa_load Lbu adr d = ucast (ucast (drop_bit (8 * byte_offset adr) d) :: 8 word)"
| "isa_load Lhu adr d = ucast (ucast (drop_bit (8 * byte_offset adr) d) :: 16 word)"

fun store_width :: "store_op \<Rightarrow> nat" where
  "store_width Sb = 8" | "store_width Sh = 16" | "store_width Sw = 32"

text \<open>The memory word after a store: the addressed byte, half word or word is replaced.\<close>

definition isa_store :: "store_op \<Rightarrow> xword \<Rightarrow> xword \<Rightarrow> xword \<Rightarrow> xword" where
  "isa_store op adr v old =
     (old AND NOT (push_bit (8 * byte_offset adr) (mask (store_width op)))) OR
     push_bit (8 * byte_offset adr) (take_bit (store_width op) v)"

fun load_aligned :: "load_op \<Rightarrow> xword \<Rightarrow> bool" where
  "load_aligned Lh adr = even (byte_offset adr)"
| "load_aligned Lhu adr = even (byte_offset adr)"
| "load_aligned Lw adr = (byte_offset adr = 0)"
| "load_aligned _ adr = True"

fun store_aligned :: "store_op \<Rightarrow> xword \<Rightarrow> bool" where
  "store_aligned Sh adr = even (byte_offset adr)"
| "store_aligned Sw adr = (byte_offset adr = 0)"
| "store_aligned Sb adr = True"

lemma byte_offset_bits: "byte_offset adr = of_bool (bit adr 0) + 2 * of_bool (bit adr 1)"
proof -
  have "take_bit 2 adr = of_bool (bit adr 0) + 2 * of_bool (bit adr 1)"
    by (simp add: numeral_2_eq_2 take_bit_Suc bit_0 bit_Suc mod2_eq_if)
  then show ?thesis by (simp add: byte_offset_def)
qed

lemma adr_lo_cases:
  "(bv_slice 2 0 (adr :: xword) :: 2 word) = 0 \<longleftrightarrow> \<not> bit adr 0 \<and> \<not> bit adr 1"
  "(bv_slice 2 0 (adr :: xword) :: 2 word) = 1 \<longleftrightarrow> bit adr 0 \<and> \<not> bit adr 1"
  "(bv_slice 2 0 (adr :: xword) :: 2 word) = 2 \<longleftrightarrow> \<not> bit adr 0 \<and> bit adr 1"
proof -
  have eq: "v = w \<longleftrightarrow> bit v 0 = bit w 0 \<and> bit v 1 = bit w 1" for v w :: "2 word"
    by (metis One_nat_def bit_word_eqI len_num1 len_bit0 less_2_cases mult_2 one_add_one)
  show "(bv_slice 2 0 adr :: 2 word) = 0 \<longleftrightarrow> \<not> bit adr 0 \<and> \<not> bit adr 1"
    "(bv_slice 2 0 adr :: 2 word) = 1 \<longleftrightarrow> bit adr 0 \<and> \<not> bit adr 1"
    "(bv_slice 2 0 adr :: 2 word) = 2 \<longleftrightarrow> \<not> bit adr 0 \<and> bit adr 1"
    by (auto simp: eq bv_simps bit_1_iff bit_numeral_rec)
qed

lemma load_funct3_modes:
  assumes "ls_funct3_i i = load_funct3 op"
  shows "ls_byte_mode i = (op = Lb \<or> op = Lbu)" "ls_hword_mode i = (op = Lh \<or> op = Lhu)"
    "ls_word_mode i = (op = Lw)" "bit (ls_funct3_i i) 2 = (op = Lbu \<or> op = Lhu)"
  using assms
  by (cases op; simp add: ls_byte_mode_def ls_hword_mode_def ls_word_mode_def;
      simp add: bv_slice_def)+

lemma store_funct3_modes:
  assumes "ls_funct3_i i = store_funct3 op"
  shows "ls_byte_mode i = (op = Sb)" "ls_hword_mode i = (op = Sh)" "ls_word_mode i = (op = Sw)"
    "\<not> bit (ls_funct3_i i) 2"
  using assms
  by (cases op; simp add: ls_byte_mode_def ls_hword_mode_def ls_word_mode_def;
      simp add: bv_slice_def)+

lemma load_misalign:
  assumes "ls_funct3_i i = load_funct3 op"
  shows "ls_misalign i = (\<not> load_aligned op (ls_adr i))"
  by (cases op) (auto simp: ls_misalign_def load_funct3_modes[OF assms] ls_adr_lo_def adr_lo_cases
      byte_offset_bits)

lemma store_misalign:
  assumes "ls_funct3_i i = store_funct3 op"
  shows "ls_misalign i = (\<not> store_aligned op (ls_adr i))"
  by (cases op) (auto simp: ls_misalign_def store_funct3_modes[OF assms] ls_adr_lo_def adr_lo_cases
      byte_offset_bits)

text \<open>The read multiplexer delivers the loaded value, and the store path writes the lanes of
  the stored value.\<close>

lemma byte_offset_le: "byte_offset adr \<le> 3"
  by (auto simp: byte_offset_bits)

lemma bit_isa_load:
  assumes "load_aligned op adr"
  shows "bit (isa_load op adr d) n \<longleftrightarrow> n < 32 \<and>
    (case op of
       Lb \<Rightarrow> bit d (8 * byte_offset adr + (if n < 8 then n else 7))
     | Lbu \<Rightarrow> n < 8 \<and> bit d (8 * byte_offset adr + n)
     | Lh \<Rightarrow> bit d (8 * byte_offset adr + (if n < 16 then n else 15))
     | Lhu \<Rightarrow> n < 16 \<and> bit d (8 * byte_offset adr + n)
     | Lw \<Rightarrow> bit d n)"
proof -
  have "min n 7 = (if n < 8 then n else 7)" "min n 15 = (if n < 16 then n else 15)" by auto
  then show ?thesis
    using assms byte_offset_le[of adr]
    by (cases op) (auto simp: bit_signed_iff bit_ucast_iff bit_drop_bit_eq
        dest: bit_imp_le_length)
qed

lemma bit_isa_store:
  assumes "store_aligned op adr"
  shows "bit (isa_store op adr v old) n \<longleftrightarrow> n < 32 \<and>
    (if 8 * byte_offset adr \<le> n \<and> n < 8 * byte_offset adr + store_width op
     then bit v (n - 8 * byte_offset adr) else bit old n)"
proof -
  have "8 * byte_offset adr + store_width op \<le> 32"
    using assms byte_offset_le[of adr] by (cases op) (auto elim!: evenE)
  then show ?thesis
    by (auto simp: isa_store_def bit_simps dest: bit_imp_le_length)
qed

lemma ls_rdmux_isa:
  assumes f3: "ls_funct3_i i = load_funct3 op" and al: "load_aligned op (ls_adr i)"
    and e: "ls_pipe s ! ls_mux_index c = ls_new_entry i"
  shows "ls_rdmux_out c b s = isa_load op (ls_adr i) (db_rd b)"
proof (rule xword_eqI)
  fix n :: nat assume n: "n < 32"
  note modes = load_funct3_modes[OF f3]
  let ?a = "ls_adr i"
  show "bit (ls_rdmux_out c b s) n = bit (isa_load op ?a (db_rd b)) n"
    unfolding bit_isa_load[OF al]
    using n al
    by (cases op; cases "bit ?a 0"; cases "bit ?a 1")
      (auto simp: ls_rdmux_out_def e ls_new_entry_def modes ls_adr_lo_def adr_lo_cases
        byte_offset_bits bv_simps Let_def)
qed

lemma lane_constants:
  "(15 :: 4 word) = mask 4" "(3 :: 4 word) = mask 2" "(12 :: 4 word) = push_bit 2 (mask 2)"
  "(1 :: 4 word) = mask 1" "(2 :: 4 word) = push_bit 1 (mask 1)"
  "(4 :: 4 word) = push_bit 2 (mask 1)" "(8 :: 4 word) = push_bit 3 (mask 1)"
  by (simp_all add: mask_eq_exp_minus_1 push_bit_eq_mult)

lemma bit_lanes:
  "bit (push_bit a (mask b) :: 4 word) k \<longleftrightarrow> a \<le> k \<and> k < 4 \<and> k - a < b"
  "bit (mask b :: 4 word) k \<longleftrightarrow> k < 4 \<and> k < b"
  unfolding bit_push_bit_iff bit_mask_iff by auto

lemma bit_ls_write_enable:
  assumes f3: "ls_funct3_i i = store_funct3 op" and al: "store_aligned op (ls_adr i)" and k: "k < 4"
  shows "bit (ls_write_enable i) k \<longleftrightarrow>
    byte_offset (ls_adr i) \<le> k \<and> k < byte_offset (ls_adr i) + store_width op div 8"
  using al k
  unfolding ls_write_enable_def lane_constants if_distrib[of "\<lambda>w. bit w k"] bit_lanes
  by (cases op; cases "bit (ls_adr i) 0"; cases "bit (ls_adr i) 1")
    (auto simp: store_funct3_modes[OF f3] ls_adr_lo_def adr_lo_cases byte_offset_bits)

lemma ls_store_isa:
  assumes f3: "ls_funct3_i i = store_funct3 op" and al: "store_aligned op (ls_adr i)"
  shows "merge_lanes (ls_write_enable i) (ls_op2_shifted i) old =
    isa_store op (ls_adr i) (ls_op2_i i) old"
proof (rule xword_eqI)
  fix n :: nat assume n: "n < 32"
  let ?o = "byte_offset (ls_adr i)"
  have sh: "ls_op2_shifted i = push_bit (8 * ?o) (ls_op2_i i)"
    by (simp add: ls_op2_shifted_def left_shift_comb_eq byte_offset_def fill_shl_def)
  have w: "store_width op = 8 * (store_width op div 8)" by (cases op) simp_all
  have div8: "8 * m \<le> n \<longleftrightarrow> m \<le> n div 8" for m by (simp add: less_eq_div_iff_mult_less_eq mult.commute)
  have lane: "8 * ?o \<le> n \<and> n < 8 * ?o + store_width op \<longleftrightarrow>
      ?o \<le> n div 8 \<and> n div 8 < ?o + store_width op div 8"
    using div8[of ?o] div8[of "?o + store_width op div 8"] w
    unfolding not_le[symmetric] by (metis distrib_left)
  have "n div 8 < 4" using n by simp
  then show "bit (merge_lanes (ls_write_enable i) (ls_op2_shifted i) old) n =
      bit (isa_store op (ls_adr i) (ls_op2_i i) old) n"
    unfolding bit_isa_store[OF al] bit_merge_lanes sh bit_push_bit_iff lane
      bit_ls_write_enable[OF f3 al \<open>n div 8 < 4\<close>]
    using n lane by auto
qed

subsection \<open>Transactions of the unit with one outstanding operation\<close>

text \<open>The unit while one accepted operation \<open>e\<close> waits for its acknowledge.\<close>

definition ls_waiting :: "ls_pipe_entry \<Rightarrow> dbus_req \<Rightarrow> ls_state \<Rightarrow> bool" where
  "ls_waiting e r s \<longleftrightarrow> ls_outstanding s = 1 \<and> \<not> ls_valid_reg s \<and> ls_pipe s = [e] \<and>
     (ls_req s)\<lparr>db_en_o := True\<rparr> = r"

definition ls_idle :: "ls_state \<Rightarrow> bool" where
  "ls_idle s \<longleftrightarrow> ls_outstanding s = 0 \<and> \<not> ls_valid_reg s \<and> length (ls_pipe s) = 1"

lemma ls_idle_init: "loadstore_outstanding c = 1 \<Longrightarrow> ls_idle (ls_init c)"
  by (simp add: ls_idle_def ls_init_def)

definition ls_cycle :: "bonfire_config \<Rightarrow> ls_in \<times> dbus_rsp \<Rightarrow> ls_state \<Rightarrow> ls_state" where
  "ls_cycle c ib s = ls_step c False (fst ib) (snd ib) s"

definition no_answer :: "dbus_rsp \<Rightarrow> bool" where
  "no_answer b \<longleftrightarrow> \<not> db_ack_i b \<and> \<not> db_error_i b"

text \<open>The request a unit issues for an aligned operation.\<close>

definition ls_request :: "ls_in \<Rightarrow> xword \<Rightarrow> dbus_req" where
  "ls_request i old_wr = \<lparr>db_en_o = True, db_adr_o = ls_adr i,
     db_we_o = (if ls_store_i i then ls_write_enable i else 0),
     db_wr = (if ls_store_i i then ls_op2_shifted i else old_wr)\<rparr>"

text \<open>Whether the completion is reported one cycle after the acknowledge.\<close>

definition ls_late :: "bonfire_config \<Rightarrow> bool \<Rightarrow> bool" where
  "ls_late c store \<longleftrightarrow> registered_read_stage c \<and> \<not> (store \<and> mem_write_early_term c)"

lemma dbus_req_en:
  "(r :: dbus_req)\<lparr>db_en_o := True\<rparr> = q\<lparr>db_en_o := True\<rparr> \<Longrightarrow> r = q\<lparr>db_en_o := db_en_o r\<rparr>"
  by (cases r; cases q) simp

lemmas ls_step_defs = ls_step_def ls_out_regs_def ls_calc_outstanding_def ls_drive_bus_def
  ls_next_pipe_def ls_next_req_def ls_confirm_def ls_valid_comb_def Let_def

lemmas ls_out_defs = ls_busy_o_def ls_valid_o_def ls_we_o_def ls_busy_def ls_capacity_busy_def
  ls_taken_def ls_confirm_def ls_valid_comb_def max_pipe_index_def write_pipe_index_def

lemma ls_issue:
  assumes "loadstore_outstanding c = 1" "ls_idle s" "ls_en_i i"
  shows "ls_taken c i b s"
    and "\<not> ls_misalign i \<Longrightarrow> ls_req (ls_step c False i b s) = ls_request i (db_wr (ls_req s))"
    and "ls_waiting (ls_new_entry i) ((ls_req (ls_step c False i b s))\<lparr>db_en_o := True\<rparr>)
           (ls_step c False i b s)"
proof -
  obtain e where e: "ls_pipe s = [e]"
    using assms(2) by (auto simp: ls_idle_def length_Suc_conv numeral_eq_Suc)
  show taken: "ls_taken c i b s"
    using assms e by (simp add: ls_idle_def ls_out_defs)
  show "ls_req (ls_step c False i b s) = ls_request i (db_wr (ls_req s))" if "\<not> ls_misalign i"
    using assms taken that by (simp add: ls_step_defs ls_idle_def ls_request_def)
  show "ls_waiting (ls_new_entry i) ((ls_req (ls_step c False i b s))\<lparr>db_en_o := True\<rparr>)
           (ls_step c False i b s)"
    using assms taken e by (simp add: ls_waiting_def ls_step_defs ls_idle_def)
qed

lemma ls_wait_outputs:
  assumes "loadstore_outstanding c = 1" "ls_waiting e r s" "no_answer b"
  shows "ls_busy_o c b s" "\<not> ls_valid_o c b s"
  using assms by (auto simp: ls_waiting_def no_answer_def ls_out_defs)

lemma ls_wait_step:
  assumes "loadstore_outstanding c = 1" "ls_waiting e r s" "no_answer (snd ib)"
  shows "ls_waiting e r (ls_cycle c ib s)"
    and "db_en_o (ls_req (ls_cycle c ib s)) = (db_en_o (ls_req s) \<and> db_stall_i (snd ib))"
proof -
  have nt: "\<not> ls_taken c (fst ib) (snd ib) s"
    using ls_wait_outputs(1)[OF assms] by (simp add: ls_taken_def)
  show "ls_waiting e r (ls_cycle c ib s)"
    using assms nt by (simp add: ls_waiting_def ls_cycle_def ls_step_defs no_answer_def)
  show "db_en_o (ls_req (ls_cycle c ib s)) = (db_en_o (ls_req s) \<and> db_stall_i (snd ib))"
    using assms nt by (simp add: ls_waiting_def ls_cycle_def ls_step_defs no_answer_def)
qed

lemma ls_wait_run:
  assumes "loadstore_outstanding c = 1" "ls_waiting e r s" "\<forall>ib \<in> set ws. no_answer (snd ib)"
  shows "ls_waiting e r (clocked_run (ls_cycle c) ws s)"
    and "db_en_o (ls_req (clocked_run (ls_cycle c) ws s)) =
      (db_en_o (ls_req s) \<and> (\<forall>ib \<in> set ws. db_stall_i (snd ib)))"
proof (atomize (full), use assms in \<open>induction ws arbitrary: s\<close>)
  case (Cons ib ws)
  then show ?case
    using ls_wait_step[OF Cons.prems(1,2), of ib] Cons.IH[of "ls_cycle c ib s"] by auto
qed simp

lemma ls_answer:
  assumes c: "loadstore_outstanding c = 1" and w: "ls_waiting e r s" and a: "db_ack_i b"
    and e: "\<not> lp_misalign e" "\<not> lp_invalid_op e"
  shows "\<not> ls_late c (lp_store e) \<Longrightarrow> ls_valid_o c b s"
    and "ls_late c (lp_store e) \<Longrightarrow>
      \<not> ls_valid_o c b s \<and> ls_busy_o c b s \<and> ls_valid_o c b' (ls_step c False j b s) \<and>
      ls_we_o c (ls_step c False j b s) = (\<not> lp_store e) \<and>
      ls_result_o c b' (ls_step c False j b s) = ls_rdmux_out c b s \<and>
      ls_outstanding (ls_step c False j b s) = 0"
proof -
  show "ls_valid_o c b s" if "\<not> ls_late c (lp_store e)"
    using assms that by (auto simp: ls_waiting_def ls_late_def ls_out_defs)
  assume late: "ls_late c (lp_store e)"
  then have "ls_busy_o c b s" using c w by (auto simp: ls_waiting_def ls_late_def ls_out_defs)
  then have "\<not> ls_taken c j b s" by (simp add: ls_taken_def)
  then show "\<not> ls_valid_o c b s \<and> ls_busy_o c b s \<and> ls_valid_o c b' (ls_step c False j b s) \<and>
      ls_we_o c (ls_step c False j b s) = (\<not> lp_store e) \<and>
      ls_result_o c b' (ls_step c False j b s) = ls_rdmux_out c b s \<and>
      ls_outstanding (ls_step c False j b s) = 0"
    using assms late \<open>ls_busy_o c b s\<close>
    by (simp add: ls_waiting_def ls_late_def ls_valid_o_def ls_we_o_def ls_result_o_def
        ls_step_defs max_pipe_index_def write_pipe_index_def)
qed

text \<open>
  C6: A load. An idle unit takes an aligned load at once and issues a read of the effective
  address; through any number of cycles without an answer it stays busy, is not valid, and
  keeps the request up, unchanged, as long as the bus stalls; with the acknowledge (one cycle
  later when the read stage is registered) it is valid, asks for a register write and delivers
  the RV32I load value of the answered memory word.
\<close>

theorem ls_load_transaction:
  assumes c: "loadstore_outstanding c = 1" and idle: "ls_idle s"
    and op: "ls_en_i i" "\<not> ls_store_i i" "ls_funct3_i i = load_funct3 op"
    and al: "load_aligned op (ls_adr i)"
    and ws: "\<forall>ib \<in> set ws. no_answer (snd ib)" and a: "db_ack_i b"
  shows "let s1 = ls_step c False i b0 s; t = clocked_run (ls_cycle c) ws s1 in
     ls_taken c i b0 s \<and> ls_req s1 = ls_request i (db_wr (ls_req s)) \<and>
     (no_answer b' \<longrightarrow> ls_busy_o c b' t \<and> \<not> ls_valid_o c b' t) \<and>
     ((\<forall>ib \<in> set ws. db_stall_i (snd ib)) \<longrightarrow> ls_req t = ls_req s1) \<and>
     ((\<exists>ib \<in> set ws. \<not> db_stall_i (snd ib)) \<longrightarrow> \<not> db_en_o (ls_req t)) \<and>
     (if registered_read_stage c
      then (let u = ls_step c False j b t in
              ls_valid_o c b' u \<and> ls_we_o c u \<and>
              ls_result_o c b' u = isa_load op (ls_adr i) (db_rd b))
      else ls_valid_o c b t \<and> ls_we_o c t \<and>
           ls_result_o c b t = isa_load op (ls_adr i) (db_rd b))"
proof -
  define s1 where "s1 = ls_step c False i b0 s"
  define t where "t = clocked_run (ls_cycle c) ws s1"
  let ?e = "ls_new_entry i"
  have mis: "\<not> ls_misalign i" using al by (simp add: load_misalign[OF op(3)])
  have "op = Lb \<or> op = Lbu \<or> op = Lw \<or> op = Lh \<or> op = Lhu" by (cases op) simp_all
  then have inv: "\<not> lp_invalid_op ?e" "\<not> lp_misalign ?e" "\<not> lp_store ?e"
    using op mis by (auto simp: ls_new_entry_def ls_invalid_op_def load_funct3_modes[OF op(3)])
  note issue = ls_issue[OF c idle op(1), where b = b0]
  note run = ls_wait_run[OF c issue(3) ws, folded s1_def t_def]
  have req: "ls_req s1 = ls_request i (db_wr (ls_req s))" using issue(2)[OF mis] by (simp add: s1_def)
  have t: "ls_req t = (ls_req s1)\<lparr>db_en_o := (\<forall>ib \<in> set ws. db_stall_i (snd ib))\<rparr>"
    using run dbus_req_en[where r = "ls_req t" and q = "ls_req s1"] by (simp add: ls_waiting_def req ls_request_def)
  have pipe: "ls_pipe t ! ls_mux_index c = ?e"
    using run(1) c by (simp add: ls_waiting_def ls_mux_index_def max_pipe_index_def)
  have data: "ls_rdmux_out c b t = isa_load op (ls_adr i) (db_rd b)"
    by (rule ls_rdmux_isa[OF op(3) al pipe])
  have fin: "if registered_read_stage c
      then (let u = ls_step c False j b t in
              ls_valid_o c b' u \<and> ls_we_o c u \<and>
              ls_result_o c b' u = isa_load op (ls_adr i) (db_rd b))
      else ls_valid_o c b t \<and> ls_we_o c t \<and>
           ls_result_o c b t = isa_load op (ls_adr i) (db_rd b)"
    using ls_answer(1)[OF c run(1) a inv(2,1)] ls_answer(2)[OF c run(1) a inv(2,1), of b' j] inv(3) data pipe c
    by (simp add: ls_late_def Let_def ls_we_o_def ls_result_o_def ls_mux_index_def
        write_pipe_index_def max_pipe_index_def)
  have wait: "no_answer b' \<longrightarrow> ls_busy_o c b' t \<and> \<not> ls_valid_o c b' t"
    using ls_wait_outputs[OF c run(1)] by blast
  have stall: "(\<forall>ib \<in> set ws. db_stall_i (snd ib)) \<longrightarrow> ls_req t = ls_req s1"
    "(\<exists>ib \<in> set ws. \<not> db_stall_i (snd ib)) \<longrightarrow> \<not> db_en_o (ls_req t)"
    using t by (auto simp: req ls_request_def)
  show ?thesis
    unfolding Let_def s1_def[symmetric] t_def[symmetric]
    using issue(1) req wait stall fin[unfolded Let_def] by blast
qed

lemma ls_load_transaction_witness:
  "let i = \<lparr>ls_en_i = True, ls_store_i = False, ls_funct3_i = 0, ls_op1_i = 0x102,
            ls_op2_i = 0, ls_displacement_i = 0xfff, ls_rd_i = 7\<rparr>;
       quiet = \<lparr>db_stall_i = True, db_ack_i = False, db_error_i = False, db_rd = 0\<rparr>;
       answer = \<lparr>db_stall_i = False, db_ack_i = True, db_error_i = False, db_rd = 0x11f23344\<rparr>;
       t = clocked_run (ls_cycle default_config) [(i, quiet)]
             (ls_step default_config False i quiet (ls_init default_config));
       u = ls_step default_config False i answer t
   in ls_busy_o default_config quiet t \<and> ls_result_o default_config quiet u = 0x33"
proof -
  define i where "i = \<lparr>ls_en_i = True, ls_store_i = False, ls_funct3_i = 0, ls_op1_i = 0x102,
            ls_op2_i = 0, ls_displacement_i = 0xfff, ls_rd_i = 7\<rparr>"
  define q where "q = \<lparr>db_stall_i = True, db_ack_i = False, db_error_i = False, db_rd = 0\<rparr>"
  define a where
    "a = \<lparr>db_stall_i = False, db_ack_i = True, db_error_i = False, db_rd = 0x11f23344\<rparr>"
  have adr: "ls_adr i = 0x101" by (simp add: ls_adr_def i_def)
  have "isa_load Lb 0x101 (db_rd a) = 0x33" unfolding a_def by code_simp
  then show ?thesis
    using ls_load_transaction[where c = default_config and s = "ls_init default_config" and i = i
        and op = Lb and ws = "[(i, q)]" and b = a and ?b0.0 = q and b' = q and j = i]
    unfolding i_def[symmetric] q_def[symmetric] a_def[symmetric] Let_def
    by (simp add: ls_idle_init no_answer_def adr) (simp add: i_def q_def a_def)
qed

text \<open>
  C7: A store. An idle unit with one outstanding access takes an aligned store at once. The request
  it issues carries the full byte address of the store, its low two bits included (the comment on
  the bus interface has them always zero; the code does not clear them), and lane enables and data
  shifted into the addressed lane that turn any old memory word into the RV32I result of the
  store. Until the acknowledge the unit is busy and reports no completion; while the bus stalls,
  the request stays as it is. The completion is reported with the acknowledge, or one cycle later
  when the read stage is registered and writes do not terminate early, and it never asks for a
  register write.
\<close>

theorem ls_store_transaction:
  assumes c: "loadstore_outstanding c = 1" and idle: "ls_idle s"
    and op: "ls_en_i i" "ls_store_i i" "ls_funct3_i i = store_funct3 op"
    and al: "store_aligned op (ls_adr i)"
    and ws: "\<forall>ib \<in> set ws. no_answer (snd ib)" and a: "db_ack_i b"
  shows "let s1 = ls_step c False i b0 s; t = clocked_run (ls_cycle c) ws s1 in
     ls_taken c i b0 s \<and> db_en_o (ls_req s1) \<and> db_adr_o (ls_req s1) = ls_adr i \<and>
     merge_lanes (db_we_o (ls_req s1)) (db_wr (ls_req s1)) old =
       isa_store op (ls_adr i) (ls_op2_i i) old \<and>
     (no_answer b' \<longrightarrow> ls_busy_o c b' t \<and> \<not> ls_valid_o c b' t) \<and>
     ((\<forall>ib \<in> set ws. db_stall_i (snd ib)) \<longrightarrow> ls_req t = ls_req s1) \<and>
     \<not> ls_we_o c t \<and>
     (if registered_read_stage c \<and> \<not> mem_write_early_term c
      then ls_valid_o c b' (ls_step c False j b t) \<and> \<not> ls_we_o c (ls_step c False j b t)
      else ls_valid_o c b t)"
proof -
  define s1 where "s1 = ls_step c False i b0 s"
  define t where "t = clocked_run (ls_cycle c) ws s1"
  let ?e = "ls_new_entry i"
  have mis: "\<not> ls_misalign i" using al by (simp add: store_misalign[OF op(3)])
  have "op = Sb \<or> op = Sh \<or> op = Sw" by (cases op) simp_all
  then have inv: "\<not> lp_invalid_op ?e" "\<not> lp_misalign ?e" "lp_store ?e"
    using op mis by (auto simp: ls_new_entry_def ls_invalid_op_def store_funct3_modes[OF op(3)])
  note issue = ls_issue[OF c idle op(1), where b = b0]
  note run = ls_wait_run[OF c issue(3) ws, folded s1_def t_def]
  have req: "ls_req s1 = ls_request i (db_wr (ls_req s))" using issue(2)[OF mis] by (simp add: s1_def)
  have t: "ls_req t = (ls_req s1)\<lparr>db_en_o := (\<forall>ib \<in> set ws. db_stall_i (snd ib))\<rparr>"
    using run dbus_req_en[where r = "ls_req t" and q = "ls_req s1"] by (simp add: ls_waiting_def req ls_request_def)
  have fin: "if registered_read_stage c \<and> \<not> mem_write_early_term c
      then ls_valid_o c b' (ls_step c False j b t) \<and> \<not> ls_we_o c (ls_step c False j b t)
      else ls_valid_o c b t"
    using ls_answer(1)[OF c run(1) a inv(2,1)] ls_answer(2)[OF c run(1) a inv(2,1), of b' j] inv(3) by (simp add: ls_late_def)
  have we: "\<not> ls_we_o c t"
    using run(1) inv(3) c by (simp add: ls_waiting_def ls_we_o_def write_pipe_index_def)
  have wait: "no_answer b' \<longrightarrow> ls_busy_o c b' t \<and> \<not> ls_valid_o c b' t"
    using ls_wait_outputs[OF c run(1)] by blast
  have stall: "(\<forall>ib \<in> set ws. db_stall_i (snd ib)) \<longrightarrow> ls_req t = ls_req s1"
    using t by (auto simp: req ls_request_def)
  have r: "db_en_o (ls_req s1)" "db_adr_o (ls_req s1) = ls_adr i"
    "merge_lanes (db_we_o (ls_req s1)) (db_wr (ls_req s1)) old =
       isa_store op (ls_adr i) (ls_op2_i i) old"
    using op(2) ls_store_isa[OF op(3) al] by (simp_all add: req ls_request_def)
  show ?thesis
    unfolding Let_def s1_def[symmetric] t_def[symmetric]
    using issue(1) r wait stall we fin by blast
qed

lemma ls_store_transaction_witness:
  "let i = \<lparr>ls_en_i = True, ls_store_i = True, ls_funct3_i = 1, ls_op1_i = 0x100,
            ls_op2_i = 0xaabb, ls_displacement_i = 2, ls_rd_i = 0\<rparr>;
       quiet = \<lparr>db_stall_i = False, db_ack_i = False, db_error_i = False, db_rd = 0\<rparr>;
       s1 = ls_step default_config False i quiet (ls_init default_config)
   in merge_lanes (db_we_o (ls_req s1)) (db_wr (ls_req s1)) 0x11223344 = 0xaabb3344"
proof -
  define i where "i = \<lparr>ls_en_i = True, ls_store_i = True, ls_funct3_i = 1, ls_op1_i = 0x100,
            ls_op2_i = 0xaabb, ls_displacement_i = 2, ls_rd_i = 0\<rparr>"
  define q where "q = \<lparr>db_stall_i = False, db_ack_i = False, db_error_i = False, db_rd = 0\<rparr>"
  define a where "a = \<lparr>db_stall_i = False, db_ack_i = True, db_error_i = False, db_rd = 0\<rparr>"
  have adr: "ls_adr i = 0x102" by (simp add: ls_adr_def i_def)
  have "byte_offset 0x102 = 2" by code_simp
  moreover have "isa_store Sh 0x102 0xaabb 0x11223344 = 0xaabb3344" by code_simp
  ultimately show ?thesis
    using ls_store_transaction[where c = default_config and s = "ls_init default_config" and i = i
        and op = Sh and ws = "[]" and b = a and ?b0.0 = q and b' = q and j = i
        and old = "0x11223344"]
    unfolding i_def[symmetric] q_def[symmetric] a_def[symmetric] Let_def
    by (simp add: ls_idle_init no_answer_def adr) (simp add: i_def q_def a_def)
qed

subsection \<open>Bounds and faults\<close>

definition ls_inv :: "bonfire_config \<Rightarrow> ls_state \<Rightarrow> bool" where
  "ls_inv c s \<longleftrightarrow> ls_outstanding s \<le> loadstore_outstanding c \<and>
     length (ls_pipe s) = loadstore_outstanding c"

lemma ls_inv_init: "ls_inv c (ls_init c)"
  by (simp add: ls_inv_def ls_init_def)

lemma ls_inv_step:
  assumes "ls_config_ok c" "ls_inv c s"
  shows "ls_inv c (ls_step c r i b s)"
proof (cases r)
  case False
  have "ls_taken c i b s \<Longrightarrow> ls_outstanding s < loadstore_outstanding c \<or> ls_confirm b s"
    using assms
    by (auto simp: ls_inv_def ls_config_ok_def ls_taken_def ls_busy_o_def ls_busy_def
        ls_capacity_busy_def ls_confirm_def split: if_splits)
  moreover have "length (ls_next_pipe c i b s) = loadstore_outstanding c"
    using assms by (auto simp: ls_inv_def ls_next_pipe_def Let_def)
  ultimately show ?thesis
    using assms False
    by (auto simp: ls_inv_def ls_step_def ls_out_regs_def ls_calc_outstanding_def
        ls_drive_bus_def Let_def)
qed (simp add: ls_step_def ls_inv_init)

text \<open>
  Capacity. In every supported configuration and under any sequence of requests, bus
  answers and resets, the unit never has more operations outstanding than configured, so its
  bit-limited outstanding counter never overflows (which would raise an error), and the
  pipeline keeps its length.
\<close>

theorem ls_capacity:
  assumes "ls_config_ok c"
  shows "let s = clocked_run (\<lambda>(r, i, b). ls_step c r i b) is (ls_init c) in
     ls_outstanding s \<le> loadstore_outstanding c \<and> ls_outstanding s < ls_counter_limit c \<and>
     length (ls_pipe s) = loadstore_outstanding c"
proof -
  have "ls_inv c (clocked_run (\<lambda>(r, i, b). ls_step c r i b) is (ls_init c))"
    by (rule clocked_run_invariant[where I = "ls_inv c"])
      (auto simp: ls_inv_init intro: ls_inv_step[OF assms])
  then show ?thesis
    using assms
    by (auto simp: ls_inv_def ls_config_ok_def ls_counter_limit_def Let_def split: if_splits)
qed

lemma ls_capacity_witness:
  "ls_outstanding (clocked_run (\<lambda>(r, i, b). ls_step default_config r i b) [] (ls_init default_config))
     \<le> 1"
  using ls_capacity[of default_config "[]"] by (simp add: ls_config_ok_def Let_def)

text \<open>
  A misaligned access blocks the unit. It is counted as outstanding although no bus
  request is made: as long as the bus answers only requests (here: does not answer), the unit
  stays busy, never valid, raises no misaligned-access output, and never touches the bus again.
\<close>

theorem ls_misaligned_blocks:
  assumes c: "loadstore_outstanding c = 1" and idle: "ls_idle s" "\<not> db_en_o (ls_req s)"
    and op: "ls_en_i i" "ls_misalign i"
    and ws: "\<forall>ib \<in> set ws. no_answer (snd ib)"
  shows "let t = clocked_run (ls_cycle c) ws (ls_step c False i b0 s) in
     ls_busy_o c b' t = (\<not> db_ack_i b' \<or> registered_read_stage c) \<and>
     (no_answer b' \<longrightarrow> \<not> ls_valid_o c b' t) \<and> \<not> db_en_o (ls_req t) \<and>
     ls_misalign_load_o t = ls_misalign_load_o s \<and> ls_misalign_store_o t = ls_misalign_store_o s"
proof -
  define s1 where "s1 = ls_step c False i b0 s"
  define t where "t = clocked_run (ls_cycle c) ws s1"
  have taken: "ls_taken c i b0 s" by (rule ls_issue(1)[OF c idle(1) op(1)])
  then have s1: "\<not> db_en_o (ls_req s1)" "ls_misalign_load_o s1 = ls_misalign_load_o s"
    "ls_misalign_store_o s1 = ls_misalign_store_o s"
    using idle op by (auto simp: s1_def ls_step_defs ls_idle_def)
  note run = ls_wait_run[OF c ls_issue(3)[OF c idle(1) op(1), of b0] ws, folded s1_def t_def]
  have "ls_misalign_load_o (clocked_run (ls_cycle c) ws u) = ls_misalign_load_o u \<and>
      ls_misalign_store_o (clocked_run (ls_cycle c) ws u) = ls_misalign_store_o u" for u
    using ws by (induction ws arbitrary: u) (auto simp: ls_cycle_def ls_step_defs no_answer_def)
  then have mis: "ls_misalign_load_o t = ls_misalign_load_o s" "ls_misalign_store_o t = ls_misalign_store_o s"
    using s1 by (simp_all add: t_def)
  have busy: "ls_busy_o c b' t = (\<not> db_ack_i b' \<or> registered_read_stage c)"
    using run(1) c by (auto simp: ls_waiting_def ls_out_defs)
  show ?thesis
    unfolding Let_def s1_def[symmetric] t_def[symmetric]
    using busy mis run(2) s1(1) ls_wait_outputs(2)[OF c run(1)] by blast
qed

lemma ls_misaligned_blocks_witness:
  "let i = \<lparr>ls_en_i = True, ls_store_i = False, ls_funct3_i = 2, ls_op1_i = 0x101,
            ls_op2_i = 0, ls_displacement_i = 0, ls_rd_i = 7\<rparr>;
       quiet = \<lparr>db_stall_i = False, db_ack_i = False, db_error_i = False, db_rd = 0\<rparr>
   in ls_busy_o default_config quiet (clocked_run (ls_cycle default_config)
        (replicate 100 (i, quiet)) (ls_step default_config False i quiet (ls_init default_config)))"
proof -
  define i where "i = \<lparr>ls_en_i = True, ls_store_i = False, ls_funct3_i = 2, ls_op1_i = 0x101,
            ls_op2_i = 0, ls_displacement_i = 0, ls_rd_i = 7\<rparr>"
  define q where "q = \<lparr>db_stall_i = False, db_ack_i = False, db_error_i = False, db_rd = 0\<rparr>"
  have f: "ls_funct3_i i = load_funct3 Lw" by (simp add: i_def)
  have "ls_misalign i"
    unfolding load_misalign[OF f] by (simp add: i_def ls_adr_def byte_offset_def)
  moreover have "ls_en_i i" "\<not> db_en_o (ls_req (ls_init default_config))" "no_answer q"
    by (simp_all add: i_def q_def ls_init_def dbus_idle_def no_answer_def)
  ultimately show ?thesis
    unfolding Let_def i_def[symmetric] q_def[symmetric]
    using ls_misaligned_blocks[where c = default_config and s = "ls_init default_config" and i = i
        and ws = "replicate 100 (i, q)" and ?b0.0 = q and b' = q]
    by (simp add: ls_idle_init no_answer_def Let_def)
qed

text \<open>
  Without the registered read stage the register-write request of the unit is not
  qualified by its valid output: a unit that has never been used, and is not valid, asks for a
  register write in every cycle. With the registered read stage it never does.
\<close>

theorem ls_unregistered_we:
  assumes "ls_config_ok c" "no_answer b"
  shows "\<not> ls_valid_o c b (ls_init c) \<and>
     ls_we_o c (ls_init c) = (\<not> registered_read_stage c)"
  using assms
  by (auto simp: ls_config_ok_def ls_init_def ls_we_o_def ls_valid_o_def ls_valid_comb_def
      ls_confirm_def no_answer_def write_pipe_index_def ls_pipe_empty_def)

lemma ls_unregistered_we_witness:
  "ls_we_o (default_config\<lparr>registered_read_stage := False\<rparr>)
     (ls_init (default_config\<lparr>registered_read_stage := False\<rparr>))"
  using ls_unregistered_we[of "default_config\<lparr>registered_read_stage := False\<rparr>"
      "\<lparr>db_stall_i = False, db_ack_i = False, db_error_i = False, db_rd = 0\<rparr>"]
  by (simp add: ls_config_ok_def no_answer_def)

end
