(* ===== verification/Trap.thy ===== *)
theory Trap
  imports Config
begin

text \<open>
  The trap CSRs (\<open>rtl/trap.py\<close>): their registers, the clocked process that writes them from
  a CSR instruction or from a trap, and the read view. Program counters are stored without
  their two low bits.
\<close>

record trap_csrs =
  tc_mepc :: ip_word
  tc_mcause :: "6 word"
  tc_mcause_irq :: bool
  tc_mtvec :: ip_word
  tc_mscratch :: xword
  tc_mie :: bool
  tc_mpie :: bool
  tc_mtval :: xword

record trap_update =
  tu_mepc :: ip_word
  tu_mcause :: "6 word"
  tu_mcause_irq :: bool
  tu_mtval :: xword
  tu_we_mepc :: bool
  tu_we_mcause :: bool
  tu_mstatus_trap_enter :: bool
  tu_mstatus_trap_exit :: bool
  tu_we_mtval :: bool

definition trap_csrs_init :: trap_csrs where
  "trap_csrs_init = \<lparr>tc_mepc = 0, tc_mcause = 0, tc_mcause_irq = False, tc_mtvec = 0,
     tc_mscratch = 0, tc_mie = False, tc_mpie = False, tc_mtval = 0\<rparr>"

definition trap_csr_write ::
  "8 word \<Rightarrow> xword \<Rightarrow> trap_csrs \<Rightarrow> trap_csrs" where
  "trap_csr_write adr data s =
     (if adr = CSR_tvec then s\<lparr>tc_mtvec := bv_slice 32 2 data\<rparr>
      else if adr = CSR_scratch then s\<lparr>tc_mscratch := data\<rparr>
      else if adr = CSR_cause then s\<lparr>tc_mcause := ucast data\<rparr>
      else if adr = CSR_epc then s\<lparr>tc_mepc := bv_slice 32 2 data\<rparr>
      else if adr = CSR_tval then s\<lparr>tc_mtval := data\<rparr>
      else if adr = CSR_status then s\<lparr>tc_mie := bit data 3, tc_mpie := bit data 7\<rparr>
      else if adr = CSR_cause then s\<lparr>tc_mcause := ucast data, tc_mcause_irq := bit data 31\<rparr>
      else s)"

text \<open>The updates of a trap, in the order of the source; all read the old registers.\<close>

definition trap_csr_update :: "trap_update \<Rightarrow> trap_csrs \<Rightarrow> trap_csrs" where
  "trap_csr_update u s =
     (let n1 = (if tu_we_mcause u
                then s\<lparr>tc_mcause := tu_mcause u, tc_mcause_irq := tu_mcause_irq u\<rparr> else s);
          n2 = (if tu_we_mepc u then n1\<lparr>tc_mepc := tu_mepc u\<rparr> else n1);
          n3 = (if tu_mstatus_trap_enter u then n2\<lparr>tc_mpie := tc_mie s, tc_mie := False\<rparr> else n2);
          n4 = (if tu_mstatus_trap_exit u then n3\<lparr>tc_mie := tc_mpie s\<rparr> else n3)
      in if tu_mtval u \<noteq> 0 then n4\<lparr>tc_mtval := tu_mtval u\<rparr> else n4)"

definition trap_csr_step ::
  "bool \<Rightarrow> bool \<Rightarrow> 8 word \<Rightarrow> xword \<Rightarrow> trap_update \<Rightarrow> trap_csrs \<Rightarrow> trap_csrs" where
  "trap_csr_step reset we adr data u s =
     (if reset then s\<lparr>tc_mtvec := 0, tc_mie := False, tc_mpie := False\<rparr>
      else if we then trap_csr_write adr data s
      else trap_csr_update u s)"

text \<open>The read view: \<open>None\<close> when \<open>valid\<close> is low.\<close>

definition trap_csr_read :: "8 word \<Rightarrow> trap_csrs \<Rightarrow> xword option" where
  "trap_csr_read reg s =
     (if reg = CSR_tvec then Some (bv_put_slice 32 2 (tc_mtvec s) 0)
      else if reg = CSR_scratch then Some (tc_mscratch s)
      else if reg = CSR_epc then Some (bv_put_slice 32 2 (tc_mepc s) 0)
      else if reg = CSR_cause then Some (ucast (tc_mcause s))
      else if reg = CSR_tval then Some (tc_mtval s)
      else if reg = CSR_status then
        Some (bv_put 3 (tc_mie s) (bv_put 7 (tc_mpie s) (bv_put_slice 13 11 (3 :: 2 word) 0)))
      else if reg = CSR_cause then Some (bv_put 31 (tc_mcause_irq s) (ucast (tc_mcause s)))
      else None)"

definition no_trap_update :: trap_update where
  "no_trap_update = \<lparr>tu_mepc = 0, tu_mcause = 0, tu_mcause_irq = False, tu_mtval = 0,
     tu_we_mepc = False, tu_we_mcause = False, tu_mstatus_trap_enter = False,
     tu_mstatus_trap_exit = False, tu_we_mtval = False\<rparr>"

lemma trap_csr_update_none [simp]: "tu_we_mcause u = False \<Longrightarrow> tu_we_mepc u = False \<Longrightarrow>
    tu_mstatus_trap_enter u = False \<Longrightarrow> tu_mstatus_trap_exit u = False \<Longrightarrow> tu_mtval u = 0 \<Longrightarrow>
    trap_csr_update u s = s"
  by (simp add: trap_csr_update_def)

subsection \<open>Trap entry and return\<close>

text \<open>
  The cause register that is there but cannot be reached. A CSR write never changes the
  interrupt flag of the cause register and a CSR read never shows it, whatever the address:
  the second branch on the cause address, in the write and in the read process, is dead.
\<close>

theorem trap_mcause_irq_unreachable:
  "tc_mcause_irq (trap_csr_step False True adr data u s) = tc_mcause_irq s \<and>
   trap_csr_read reg (s\<lparr>tc_mcause_irq := b\<rparr>) = trap_csr_read reg s"
  by (simp add: trap_csr_step_def trap_csr_write_def trap_csr_read_def)

text \<open>
  Trap entry and return. Entering a trap records the cause and the program counter, saves
  the interrupt enable and clears it; a later return restores it, and in between only CSR
  writes can change what was recorded. The trap value is written when it is not zero,
  whatever its write enable says.
\<close>

theorem trap_enter_exit:
  assumes enter: "tu_we_mcause e" "tu_we_mepc e" "tu_mstatus_trap_enter e"
      "\<not> tu_mstatus_trap_exit e"
    and quiet: "\<forall>u \<in> set us. trap_csr_update u = id"
    and exit: "tu_mstatus_trap_exit x" "\<not> tu_mstatus_trap_enter x"
  shows "let s1 = trap_csr_step False False a1 d1 e s;
             s2 = clocked_run (trap_csr_step False False a2 d2) us s1;
             s3 = trap_csr_step False False a3 d3 x s2
         in s2 = s1 \<and> \<not> tc_mie s1 \<and> tc_mpie s1 = tc_mie s \<and> tc_mepc s1 = tu_mepc e \<and>
            tc_mcause s1 = tu_mcause e \<and> tc_mcause_irq s1 = tu_mcause_irq e \<and>
            tc_mtval s1 = (if tu_mtval e = 0 then tc_mtval s else tu_mtval e) \<and>
            tc_mie s3 = tc_mie s"
proof -
  have "clocked_run (trap_csr_step False False a2 d2) us t = t" for t
    using quiet by (induction us arbitrary: t) (simp_all add: trap_csr_step_def)
  then show ?thesis
    using enter exit by (simp add: trap_csr_step_def trap_csr_update_def Let_def)
qed

lemma trap_enter_exit_witness:
  "let e = no_trap_update\<lparr>tu_we_mcause := True, tu_mcause := 0xb, tu_we_mepc := True,
             tu_mepc := 0x40, tu_mstatus_trap_enter := True\<rparr>;
       x = no_trap_update\<lparr>tu_mstatus_trap_exit := True\<rparr>;
       s = trap_csrs_init\<lparr>tc_mie := True\<rparr>
   in tc_mie (trap_csr_step False False 0 0 x
        (clocked_run (trap_csr_step False False 0 0) [no_trap_update]
          (trap_csr_step False False 0 0 e s)))"
proof -
  have q: "trap_csr_update no_trap_update = id"
    by (rule ext) (simp add: no_trap_update_def)
  have "tc_mie (trap_csr_step False False 0 0 x
        (clocked_run (trap_csr_step False False 0 0) [no_trap_update]
          (trap_csr_step False False 0 0 e s))) = tc_mie s"
    if "e = no_trap_update\<lparr>tu_we_mcause := True, tu_mcause := 0xb, tu_we_mepc := True,
             tu_mepc := 0x40, tu_mstatus_trap_enter := True\<rparr>"
      and "x = no_trap_update\<lparr>tu_mstatus_trap_exit := True\<rparr>" for e x s
    unfolding that
    by (rule trap_enter_exit[unfolded Let_def, THEN conjunct2, THEN conjunct2, THEN conjunct2,
          THEN conjunct2, THEN conjunct2, THEN conjunct2, THEN conjunct2])
      (simp_all add: q, simp_all add: no_trap_update_def)
  then show ?thesis by (simp add: Let_def)
qed

end
