(* ===== verification/Debug_Csrs.thy ===== *)
theory Debug_Csrs
  imports Config
begin

text \<open>
  The debug CSRs \<open>dcsr\<close> and \<open>dpc\<close> (\<open>rtl/debug/debug_csrs.py\<close>): the implemented bits of
  \<open>dcsr\<close>, the debug program counter, and their write and read processes.
\<close>

record debug_csrs =
  dc_ebreakm :: bool
  dc_cause :: "3 word"
  dc_step :: bool
  dc_dpc :: ip_word

record debug_csr_update =
  du_dpc :: ip_word
  du_cause :: "3 word"
  du_we_dpc :: bool
  du_we_cause :: bool

definition debug_csrs_init :: debug_csrs where
  "debug_csrs_init = \<lparr>dc_ebreakm = False, dc_cause = 0, dc_step = False, dc_dpc = 0\<rparr>"

definition no_debug_update :: debug_csr_update where
  "no_debug_update = \<lparr>du_dpc = 0, du_cause = 0, du_we_dpc = False, du_we_cause = False\<rparr>"

definition debug_csr_step ::
  "bonfire_config \<Rightarrow> bool \<Rightarrow> bool \<Rightarrow> 8 word \<Rightarrow> xword \<Rightarrow> debug_csr_update \<Rightarrow> debug_csrs \<Rightarrow> debug_csrs"
where
  "debug_csr_step c reset we adr data u s =
     (if reset then \<lparr>dc_ebreakm = False, dc_cause = 0, dc_step = False,
                     dc_dpc = ucast (drop_bit 2 (reset_address c))\<rparr>
      else if we then
        (if adr = CSR_dcsr then s\<lparr>dc_ebreakm := bit data 15, dc_step := bit data 2\<rparr>
         else if adr = CSR_dpc then s\<lparr>dc_dpc := bv_slice 32 2 data\<rparr>
         else s)
      else
        (let n1 = (if du_we_cause u then s\<lparr>dc_cause := du_cause u\<rparr> else s)
         in if du_we_dpc u then n1\<lparr>dc_dpc := du_dpc u\<rparr> else n1))"

definition XDEBUGVER :: "4 word" where
  "XDEBUGVER = 4"

definition debug_csr_read :: "8 word \<Rightarrow> debug_csrs \<Rightarrow> xword option" where
  "debug_csr_read reg s =
     (if reg = CSR_dcsr then
        Some (bv_put_slice 2 0 (3 :: 2 word)
          (bv_put 2 (dc_step s)
            (bv_put_slice 9 6 (dc_cause s)
              (bv_put 15 (dc_ebreakm s) (bv_put_slice 32 28 XDEBUGVER 0)))))
      else if reg = CSR_dpc then Some (bv_put_slice 32 2 (dc_dpc s) 0)
      else None)"

end
