(* ===== verification/Csr.thy ===== *)
theory Csr
  imports Trap Debug_Csrs Isa_Spec
begin

text \<open>
  The CSR unit (\<open>rtl/csr.py\<close>): the read-modify-write operations, the decoding of the CSR
  address into its access, privilege and register parts, the cycle counter, and the write
  strobes into the trap and debug CSRs. The lemmas state the unit as a CSR file with
  architectural addresses.
\<close>

record csr_in =
  cs_en_i :: bool
  cs_funct3_i :: "3 word"
  cs_op1_i :: xword
  cs_adr :: "12 word"
  cs_source_i :: regno

record csr_state =
  cs_mcycle :: "64 word"
  cs_trap :: trap_csrs
  cs_debug :: debug_csrs

definition csr_init :: "csr_state" where
  "csr_init = \<lparr>cs_mcycle = 0, cs_trap = trap_csrs_init, cs_debug = debug_csrs_init\<rparr>"

subsection \<open>Combinational part\<close>

definition csr_busy_o :: bool where
  "csr_busy_o = False"

definition csr_taken :: "csr_in \<Rightarrow> bool" where
  "csr_taken i = (cs_en_i i \<and> \<not> csr_busy_o)"

definition csr_op :: "csr_in \<Rightarrow> 2 word" where
  "csr_op i = bv_slice 2 0 (cs_funct3_i i)"

text \<open>\<open>csr_op_proc\<close>: the new value, and whether the operation is invalid.\<close>

definition csr_out :: "csr_in \<Rightarrow> xword \<Rightarrow> xword" where
  "csr_out i csr_old =
     (if csr_op i = 1 then cs_op1_i i
      else if csr_op i = 2 then csr_old OR cs_op1_i i
      else if csr_op i = 3 then csr_old AND NOT (cs_op1_i i)
      else csr_old)"

definition csr_inv_op :: "csr_in \<Rightarrow> bool" where
  "csr_inv_op i \<longleftrightarrow> \<not> (csr_op i = 1 \<or> csr_op i = 2 \<or> csr_op i = 3)"

definition csr_write_requested :: "csr_in \<Rightarrow> bool" where
  "csr_write_requested i \<longleftrightarrow> csr_op i = 1 \<or> (csr_op i = 2 \<or> csr_op i = 3) \<and> cs_source_i i \<noteq> 0"

definition csr_rw :: "csr_in \<Rightarrow> 2 word" where "csr_rw i = bv_slice 12 10 (cs_adr i)"
definition csr_priv :: "csr_in \<Rightarrow> 2 word" where "csr_priv i = bv_slice 10 8 (cs_adr i)"
definition csr_reg :: "csr_in \<Rightarrow> 8 word" where "csr_reg i = bv_slice 8 0 (cs_adr i)"

text \<open>The configuration word of \<open>mbonfirecfg\<close>.\<close>

definition bonfirecfg :: "bonfire_config \<Rightarrow> xword" where
  "bonfirecfg c =
     push_bit 0 (of_bool (pipeline_length c = 4)) OR push_bit 1 (of_bool (writeback_bypass c)) OR
     push_bit 2 (of_bool (enableDebugModule c)) OR push_bit 3 (of_bool (jump_predictor c)) OR
     push_bit 4 (of_bool (mem_write_early_term c))"

text \<open>\<open>csr_select_proc\<close>: what is read, whether the register is invalid, and the strobes.\<close>

record csr_select =
  sel_csr_in :: xword
  sel_inv_reg :: bool
  sel_csr_we :: bool
  sel_mcycle_low_we :: bool
  sel_mcycle_high_we :: bool

definition csr_selected :: "bonfire_config \<Rightarrow> csr_in \<Rightarrow> csr_state \<Rightarrow> csr_select" where
  "csr_selected c i s =
     (let d = \<lparr>sel_csr_in = 0, sel_inv_reg = False, sel_csr_we = False,
               sel_mcycle_low_we = False, sel_mcycle_high_we = False\<rparr>;
          inv = d\<lparr>sel_inv_reg := True\<rparr>;
          reg = csr_reg i; rw = csr_rw i;
          wr = csr_taken i \<and> csr_write_requested i;
          trap_view = trap_csr_read reg (cs_trap s);
          debug_view = (if enableDebugModule c then debug_csr_read reg (cs_debug s) else None)
      in
      if csr_priv i = 3 then
        (if rw = 3 then
           (if csr_write_requested i then inv
            else if reg = CSR_vendorid \<or> reg = CSR_archid \<or> reg = CSR_hartid then d
            else if reg = CSR_impid then d\<lparr>sel_csr_in := 0x8000\<rparr>
            else if reg = CSR_mbonfirecfg then d\<lparr>sel_csr_in := bonfirecfg c\<rparr>
            else inv)
         else if rw = 0 then
           (if reg = CSR_isa then d\<lparr>sel_csr_in := bv_put_slice 32 30 (1 :: 2 word) 0\<rparr>
            else case trap_view of
              Some v \<Rightarrow> d\<lparr>sel_csr_we := wr, sel_csr_in := v\<rparr>
            | None \<Rightarrow> (case debug_view of
                Some v \<Rightarrow> d\<lparr>sel_csr_we := wr, sel_csr_in := v\<rparr>
              | None \<Rightarrow> inv))
         else if rw = 2 then
           (if reg = CSR_mcycle
            then d\<lparr>sel_csr_in := bv_slice 32 0 (cs_mcycle s), sel_mcycle_low_we := wr\<rparr>
            else if reg = CSR_mcycleh
            then d\<lparr>sel_csr_in := bv_slice 64 32 (cs_mcycle s), sel_mcycle_high_we := wr\<rparr>
            else inv)
         else case debug_view of
             Some v \<Rightarrow> d\<lparr>sel_csr_we := wr, sel_csr_in := v\<rparr>
           | None \<Rightarrow> inv)
      else inv)"

text \<open>\<open>csr_result_proc\<close>.\<close>

definition csr_invalid :: "bonfire_config \<Rightarrow> csr_in \<Rightarrow> csr_state \<Rightarrow> bool" where
  "csr_invalid c i s \<longleftrightarrow> csr_inv_op i \<or> sel_inv_reg (csr_selected c i s)"

definition csr_invalid_op_o :: "bonfire_config \<Rightarrow> csr_in \<Rightarrow> csr_state \<Rightarrow> bool" where
  "csr_invalid_op_o c i s \<longleftrightarrow> csr_invalid c i s \<and> csr_taken i"

definition csr_valid_o :: "bonfire_config \<Rightarrow> csr_in \<Rightarrow> csr_state \<Rightarrow> bool" where
  "csr_valid_o c i s \<longleftrightarrow> \<not> csr_invalid c i s \<and> csr_taken i"

definition csr_result_o :: "bonfire_config \<Rightarrow> csr_in \<Rightarrow> csr_state \<Rightarrow> xword" where
  "csr_result_o c i s = sel_csr_in (csr_selected c i s)"

subsection \<open>Clocked part\<close>

definition mcycle_step ::
  "bool \<Rightarrow> csr_select \<Rightarrow> xword \<Rightarrow> 64 word \<Rightarrow> 64 word" where
  "mcycle_step reset sel out mcycle =
     (if reset then 0
      else if sel_mcycle_low_we sel then bv_cat (bv_slice 64 32 mcycle :: xword) out
      else if sel_mcycle_high_we sel then bv_cat out (bv_slice 32 0 mcycle :: xword)
      else mcycle + 1)"

definition csr_step ::
  "bonfire_config \<Rightarrow> bool \<Rightarrow> csr_in \<Rightarrow> trap_update \<Rightarrow> debug_csr_update \<Rightarrow> csr_state \<Rightarrow> csr_state" where
  "csr_step c reset i tu du s =
     (let sel = csr_selected c i s; out = csr_out i (sel_csr_in sel) in
      s\<lparr>cs_mcycle := mcycle_step reset sel out (cs_mcycle s),
        cs_trap := trap_csr_step reset (sel_csr_we sel) (csr_reg i) out tu (cs_trap s),
        cs_debug := (if enableDebugModule c
                     then debug_csr_step c reset (sel_csr_we sel) (csr_reg i) out du (cs_debug s)
                     else cs_debug s)\<rparr>)"

subsection \<open>The unit as a CSR file\<close>

datatype csr_name = Mstatus | Misa | Mtvec | Mscratch | Mepc | Mcause | Mtval | Mcycle | Mcycleh | Mvendorid | Marchid | Mimpid | Mhartid | Mbonfirecfg | Dcsr | Dpc

fun csr_number :: "csr_name \<Rightarrow> 12 word" where
  "csr_number Mstatus = 0x300"
| "csr_number Misa = 0x301"
| "csr_number Mtvec = 0x305"
| "csr_number Mscratch = 0x340"
| "csr_number Mepc = 0x341"
| "csr_number Mcause = 0x342"
| "csr_number Mtval = 0x343"
| "csr_number Mcycle = 0xb00"
| "csr_number Mcycleh = 0xb80"
| "csr_number Mvendorid = 0xf11"
| "csr_number Marchid = 0xf12"
| "csr_number Mimpid = 0xf13"
| "csr_number Mhartid = 0xf14"
| "csr_number Mbonfirecfg = 0xfc0"
| "csr_number Dcsr = 0x7b0"
| "csr_number Dpc = 0x7b1"

definition csr_implemented :: "bonfire_config \<Rightarrow> csr_name \<Rightarrow> bool" where
  "csr_implemented c n \<longleftrightarrow> (n = Dcsr \<or> n = Dpc \<longrightarrow> enableDebugModule c)"

definition csr_read_only :: "csr_name \<Rightarrow> bool" where
  "csr_read_only n \<longleftrightarrow> n \<in> {Mvendorid, Marchid, Mimpid, Mhartid, Mbonfirecfg}"

text \<open>The value each register shows.\<close>

fun csr_value :: "bonfire_config \<Rightarrow> csr_state \<Rightarrow> csr_name \<Rightarrow> xword" where
  "csr_value c s Mstatus =
     bv_put 3 (tc_mie (cs_trap s)) (bv_put 7 (tc_mpie (cs_trap s)) 0x1800)"
| "csr_value c s Misa = 0x40000000"
| "csr_value c s Mtvec = push_bit 2 (ucast (tc_mtvec (cs_trap s)))"
| "csr_value c s Mscratch = tc_mscratch (cs_trap s)"
| "csr_value c s Mepc = push_bit 2 (ucast (tc_mepc (cs_trap s)))"
| "csr_value c s Mcause = ucast (tc_mcause (cs_trap s))"
| "csr_value c s Mtval = tc_mtval (cs_trap s)"
| "csr_value c s Mcycle = ucast (cs_mcycle s)"
| "csr_value c s Mcycleh = ucast (drop_bit 32 (cs_mcycle s))"
| "csr_value c s Mvendorid = 0"
| "csr_value c s Marchid = 0"
| "csr_value c s Mimpid = 0x8000"
| "csr_value c s Mhartid = 0"
| "csr_value c s Mbonfirecfg = bonfirecfg c"
| "csr_value c s Dcsr =
     bv_put 15 (dc_ebreakm (cs_debug s)) (bv_put 2 (dc_step (cs_debug s))
       (bv_put_slice 9 6 (dc_cause (cs_debug s)) 0x40000003))"
| "csr_value c s Dpc = push_bit 2 (ucast (dc_dpc (cs_debug s)))"

text \<open>What a register keeps of a written value.\<close>

fun csr_legal :: "csr_name \<Rightarrow> xword \<Rightarrow> xword \<Rightarrow> xword" where
  "csr_legal Mstatus old v = 0x1800 OR (v AND 0x88)"
| "csr_legal Misa old v = old"
| "csr_legal Mtvec old v = v AND NOT 3"
| "csr_legal Mepc old v = v AND NOT 3"
| "csr_legal Mcause old v = take_bit 6 v"
| "csr_legal Dcsr old v = (old AND NOT 0x8004) OR (v AND 0x8004)"
| "csr_legal Dpc old v = v AND NOT 3"
| "csr_legal _ old v = v"

lemma csr_adr_iff:
  "cs_adr i = a \<longleftrightarrow> csr_rw i = bv_slice 12 10 a \<and> csr_priv i = bv_slice 10 8 a \<and>
     csr_reg i = bv_slice 8 0 a"
proof
  assume r: "csr_rw i = bv_slice 12 10 a \<and> csr_priv i = bv_slice 10 8 a \<and> csr_reg i = bv_slice 8 0 a"
  have "bit (cs_adr i) n = bit a n" if n: "n < 12" for n
  proof -
    consider "n < 8" | "8 \<le> n" "n < 10" | "10 \<le> n" using n by linarith
    then show ?thesis
    proof cases
      case 1
      then have "bit (cs_adr i) n = bit (csr_reg i) n" "bit a n = bit (bv_slice 8 0 a :: 8 word) n"
        by (simp_all add: csr_reg_def bv_simps)
      with r show ?thesis by simp
    next
      case 2
      then have "bit (cs_adr i) n = bit (csr_priv i) (n - 8)"
        "bit a n = bit (bv_slice 10 8 a :: 2 word) (n - 8)"
        by (auto simp: csr_priv_def bv_simps)
      with r show ?thesis by simp
    next
      case 3
      then have "bit (cs_adr i) n = bit (csr_rw i) (n - 10)"
        "bit a n = bit (bv_slice 12 10 a :: 2 word) (n - 10)"
        using n by (auto simp: csr_rw_def bv_simps)
      with r show ?thesis by simp
    qed
  qed
  then show "cs_adr i = a" by (intro bv_eqI) simp
qed (simp add: csr_rw_def csr_priv_def csr_reg_def)

lemma csr_number_parts:
  assumes "cs_adr i = csr_number n"
  shows "csr_priv i = 3"
    and "csr_rw i = (if csr_read_only n then 3 else if n = Mcycle \<or> n = Mcycleh then 2
           else if n = Dcsr \<or> n = Dpc then 1 else 0)"
    and "csr_reg i = (case n of Mstatus \<Rightarrow> 0 | Misa \<Rightarrow> 1 | Mtvec \<Rightarrow> 5 | Mscratch \<Rightarrow> 0x40 |
           Mepc \<Rightarrow> 0x41 | Mcause \<Rightarrow> 0x42 | Mtval \<Rightarrow> 0x43 | Mcycle \<Rightarrow> 0 | Mcycleh \<Rightarrow> 0x80 |
           Mvendorid \<Rightarrow> 0x11 | Marchid \<Rightarrow> 0x12 | Mimpid \<Rightarrow> 0x13 | Mhartid \<Rightarrow> 0x14 |
           Mbonfirecfg \<Rightarrow> 0xc0 | Dcsr \<Rightarrow> 0xb0 | Dpc \<Rightarrow> 0xb1)"
  using assms unfolding csr_priv_def csr_rw_def csr_reg_def
  by (cases n; simp add: csr_read_only_def bv_slice_def)+

lemma csr_views:
  "bv_put_slice 32 2 (w :: ip_word) (0 :: xword) = push_bit 2 (ucast w)"
  "bv_put_slice 32 30 (1 :: 2 word) (0 :: xword) = 0x40000000"
  "bv_put_slice 13 11 (3 :: 2 word) (0 :: xword) = 0x1800"
  "bv_slice 32 0 (m :: 64 word) = (ucast m :: xword)"
  "bv_slice 64 32 m = (ucast (drop_bit 32 m) :: xword)"
proof -
  show "bv_put_slice 32 2 (w :: ip_word) (0 :: xword) = push_bit 2 (ucast w)"
    by (rule bv_eqI) (auto simp: bv_simps bit_push_bit_iff bit_ucast_iff)
  show "bv_put_slice 32 30 (1 :: 2 word) (0 :: xword) = 0x40000000"
    "bv_put_slice 13 11 (3 :: 2 word) (0 :: xword) = 0x1800" by code_simp+
  show "bv_slice 32 0 (m :: 64 word) = (ucast m :: xword)"
    "bv_slice 64 32 m = (ucast (drop_bit 32 m) :: xword)"
    by (rule bv_eqI; simp add: bv_simps bit_ucast_iff bit_drop_bit_eq)+
qed

lemma csr_constants:
  "(3 :: xword) = bv_put 0 True (bv_put 1 True 0)"
  "(0x88 :: xword) = bv_put 3 True (bv_put 7 True 0)"
  "(0x1800 :: xword) = bv_put 11 True (bv_put 12 True 0)"
  "(0x8004 :: xword) = bv_put 2 True (bv_put 15 True 0)"
  "(0x40000003 :: xword) = bv_put 0 True (bv_put 1 True (bv_put 30 True 0))"
  "(3 :: 2 word) = bv_put 0 True (bv_put 1 True 0)"
  "XDEBUGVER = bv_put 2 True 0"
  by code_simp+

lemma dcsr_view:
  "bv_put_slice 2 0 (3 :: 2 word) (bv_put 2 st (bv_put_slice 9 6 (ca :: 3 word)
      (bv_put 15 eb (bv_put_slice 32 28 XDEBUGVER 0)))) =
   (bv_put 15 eb (bv_put 2 st (bv_put_slice 9 6 ca 0x40000003)) :: xword)"
  unfolding csr_constants by (rule bv_eqI) (auto simp: bv_simps)

lemma csr_selected_value:
  assumes "cs_adr i = csr_number n" "csr_implemented c n"
  shows "sel_inv_reg (csr_selected c i s) = (csr_read_only n \<and> csr_write_requested i)"
    and "\<not> (csr_read_only n \<and> csr_write_requested i) \<Longrightarrow>
           sel_csr_in (csr_selected c i s) = csr_value c s n"
    and "sel_csr_we (csr_selected c i s) =
           (csr_taken i \<and> csr_write_requested i \<and> n \<notin> {Misa, Mcycle, Mcycleh} \<and> \<not> csr_read_only n)"
    and "sel_mcycle_low_we (csr_selected c i s) =
           (csr_taken i \<and> csr_write_requested i \<and> n = Mcycle)"
    and "sel_mcycle_high_we (csr_selected c i s) =
           (csr_taken i \<and> csr_write_requested i \<and> n = Mcycleh)"
  using csr_number_parts[OF assms(1)] assms(2)
  by (cases n; simp add: csr_selected_def Let_def csr_read_only_def csr_implemented_def
      trap_csr_read_def debug_csr_read_def csr_views dcsr_view)+

text \<open>What the clocked write does to the trap and debug registers, as values.\<close>

lemma nat_le_2E: "2 \<le> (n::nat) \<Longrightarrow> (\<And>m. n = m + 2 \<Longrightarrow> P) \<Longrightarrow> P"
  using le_Suc_ex[of 2 n] by (auto simp: add.commute)

lemma csr_put_mask:
  "push_bit 2 (ucast (bv_slice 32 2 v :: ip_word)) = (v AND NOT 3 :: xword)"
proof (rule bv_eqI)
  fix n assume "n < LENGTH(32)"
  then show "bit (push_bit 2 (ucast (bv_slice 32 2 v :: ip_word)) :: xword) n =
      bit (v AND NOT 3) n"
    unfolding csr_constants bit_push_bit_iff bit_and_iff bit_not_iff bit_bv_put bit_ucast_iff
      bit_bv_slice
    by (cases "2 \<le> n") (auto dest: less_2_cases elim!: nat_le_2E)
qed

lemma csr_status_mask:
  "bv_put 3 (bit v 3) (bv_put 7 (bit v 7) 0x1800) = (0x1800 OR (v AND 0x88) :: xword)"
  unfolding csr_constants by (rule bv_eqI) (auto simp: bv_simps bit_or_iff bit_and_iff)

lemma csr_dcsr_mask:
  "bv_put 15 (bit v 15) (bv_put 2 (bit v 2) (bv_put_slice 9 6 (ca :: 3 word) 0x40000003)) =
   ((bv_put 15 eb (bv_put 2 st (bv_put_slice 9 6 ca 0x40000003)) AND NOT 0x8004) OR
    (v AND 0x8004) :: xword)"
  unfolding csr_constants
  by (rule bv_eqI) (auto simp: bv_simps bit_or_iff bit_and_iff bit_not_iff)

lemma csr_cause_mask: "ucast (ucast v :: 6 word) = (take_bit 6 v :: xword)"
  by (rule bv_eqI) (auto simp: bit_ucast_iff bit_take_bit_iff)

lemma csr_cycle_halves:
  "ucast (bv_cat (h :: xword) (l :: xword) :: 64 word) = l"
  "ucast (drop_bit 32 (bv_cat (h :: xword) (l :: xword) :: 64 word)) = h"
  by (rule bv_eqI; simp add: bit_ucast_iff bit_drop_bit_eq bv_simps)+

lemmas csr_masks = csr_put_mask csr_status_mask csr_dcsr_mask csr_cause_mask csr_cycle_halves

text \<open>The registers after an edge on which no trap and no debug event happens.\<close>

lemma csr_step_value:
  assumes n: "cs_adr i = csr_number n" "csr_implemented c n"
    and w: "csr_taken i" "csr_write_requested i" "\<not> csr_read_only n"
  shows "csr_value c (csr_step c False i tu du s) n =
     csr_legal n (csr_value c s n) (csr_out i (csr_value c s n))"
proof (cases "n = Dcsr")
  case True
  show ?thesis
    using csr_selected_value[OF n, of s] csr_number_parts(3)[OF n(1)] w n(2)
      csr_dcsr_mask[of "csr_out i (csr_value c s Dcsr)" "dc_cause (cs_debug s)"
        "dc_ebreakm (cs_debug s)" "dc_step (cs_debug s)"]
    by (simp add: True csr_step_def Let_def debug_csr_step_def csr_implemented_def csr_read_only_def)
next
  case False
  then show ?thesis
    using csr_selected_value[OF n, of s] csr_number_parts(3)[OF n(1)] w n(2)
    by (cases n) (auto simp: csr_step_def Let_def csr_masks trap_csr_step_def trap_csr_write_def
        debug_csr_step_def csr_implemented_def mcycle_step_def csr_read_only_def)
qed

text \<open>The registers that an instruction does not address keep their value, the cycle counter
  apart.\<close>

definition trap_quiet :: "trap_update \<Rightarrow> bool" where
  "trap_quiet tu \<longleftrightarrow> \<not> tu_we_mcause tu \<and> \<not> tu_we_mepc tu \<and> \<not> tu_mstatus_trap_enter tu \<and>
     \<not> tu_mstatus_trap_exit tu \<and> tu_mtval tu = 0"

definition debug_quiet :: "debug_csr_update \<Rightarrow> bool" where
  "debug_quiet du \<longleftrightarrow> \<not> du_we_cause du \<and> \<not> du_we_dpc du"

definition csr_stored :: "csr_name set" where
  "csr_stored = {Mstatus, Mtvec, Mscratch, Mepc, Mcause, Mtval, Dcsr, Dpc}"

lemma csr_stored_reg:
  assumes "cs_adr i = csr_number n" "cs_adr j = csr_number m" "n \<in> csr_stored" "m \<in> csr_stored"
    "n \<noteq> m"
  shows "csr_reg i \<noteq> csr_reg j"
  using csr_number_parts(3)[OF assms(1)] csr_number_parts(3)[OF assms(2)] assms(3-5)
  by (auto simp: csr_stored_def)

lemma csr_value_write:
  assumes "cs_adr j = csr_number m" "reg \<noteq> csr_reg j"
  shows "m \<notin> {Mcycle, Mcycleh} \<Longrightarrow> csr_value c (s\<lparr>cs_mcycle := x,
      cs_trap := trap_csr_write reg out (cs_trap s),
      cs_debug := (if enableDebugModule c
                   then debug_csr_step c False True reg out du (cs_debug s) else cs_debug s)\<rparr>) m =
    csr_value c s m"
  using csr_number_parts(3)[OF assms(1)] assms(2)
  by (cases m; simp add: trap_csr_write_def debug_csr_step_def)

lemma csr_step_frame:
  assumes n: "cs_adr i = csr_number n" "csr_implemented c n"
    and q: "trap_quiet tu" "debug_quiet du"
    and m: "m \<notin> {Mcycle, Mcycleh}" "m = n \<longrightarrow> \<not> (csr_taken i \<and> csr_write_requested i)"
  shows "csr_value c (csr_step c False i tu du s) m = csr_value c s m"
proof (cases "sel_csr_we (csr_selected c i s)")
  case True
  then have n': "n \<in> csr_stored" "csr_taken i" "csr_write_requested i"
    using csr_selected_value(3)[OF n, of s] by (cases n; simp add: csr_stored_def csr_read_only_def)+
  have step: "csr_step c False i tu du s = s\<lparr>cs_mcycle := cs_mcycle (csr_step c False i tu du s),
      cs_trap := trap_csr_write (csr_reg i) (csr_out i (sel_csr_in (csr_selected c i s))) (cs_trap s),
      cs_debug := (if enableDebugModule c
        then debug_csr_step c False True (csr_reg i) (csr_out i (sel_csr_in (csr_selected c i s))) du
               (cs_debug s) else cs_debug s)\<rparr>"
    using True by (simp add: csr_step_def Let_def trap_csr_step_def trap_csr_write_def)
  show ?thesis
  proof (cases "m \<in> csr_stored")
    case True
    define j where "j = i\<lparr>cs_adr := csr_number m\<rparr>"
    have j: "cs_adr j = csr_number m" by (simp add: j_def)
    have "n \<noteq> m" using m n' by auto
    then show ?thesis
      by (subst step) (rule csr_value_write[OF j csr_stored_reg[OF n(1) j n'(1) True] m(1)])
  next
    case False
    then show ?thesis using m by (cases m) (auto simp: csr_stored_def)
  qed
next
  case False
  have "cs_trap (csr_step c False i tu du s) = cs_trap s"
    "cs_debug (csr_step c False i tu du s) = cs_debug s"
    using False q by (simp_all add: csr_step_def Let_def trap_csr_step_def debug_csr_step_def
        trap_quiet_def debug_quiet_def)
  then show ?thesis using m by (cases m) simp_all
qed

lemma csr_instruction_effect:
  assumes n: "cs_adr i = csr_number n" "csr_implemented c n"
    and op: "cs_en_i i" "csr_op i \<noteq> 0" and q: "trap_quiet tu" "debug_quiet du"
  shows "let s' = csr_step c False i tu du s;
             valid = (\<not> (csr_read_only n \<and> csr_write_requested i))
     in csr_valid_o c i s = valid \<and> csr_invalid_op_o c i s = (\<not> valid) \<and>
        (valid \<longrightarrow> csr_result_o c i s = csr_value c s n) \<and>
        (valid \<and> csr_write_requested i \<longrightarrow>
           csr_value c s' n = csr_legal n (csr_value c s n) (csr_out i (csr_value c s n))) \<and>
        (csr_write_requested i \<longrightarrow> csr_op i = 1 \<or> cs_source_i i \<noteq> 0) \<and>
        (\<forall>m. m \<notin> {Mcycle, Mcycleh} \<and> (m \<noteq> n \<or> \<not> csr_write_requested i) \<longrightarrow>
           csr_value c s' m = csr_value c s m) \<and>
        (n \<notin> {Mcycle, Mcycleh} \<or> \<not> csr_write_requested i \<longrightarrow>
           cs_mcycle s' = cs_mcycle s + 1)"
proof -
  have taken: "csr_taken i" using op(1) by (simp add: csr_taken_def csr_busy_o_def)
  have "\<not> csr_inv_op i"
    using op(2) word2_cases[of "csr_op i"] by (auto simp: csr_inv_op_def)
  note sel = csr_selected_value[OF n, of s]
  have v: "csr_valid_o c i s = (\<not> (csr_read_only n \<and> csr_write_requested i))"
    "csr_invalid_op_o c i s = (csr_read_only n \<and> csr_write_requested i)"
    using sel(1) taken \<open>\<not> csr_inv_op i\<close>
    by (simp_all add: csr_valid_o_def csr_invalid_op_o_def csr_invalid_def)
  have r: "\<not> (csr_read_only n \<and> csr_write_requested i) \<longrightarrow> csr_result_o c i s = csr_value c s n"
    using sel(2) by (simp add: csr_result_o_def)
  have w: "csr_write_requested i \<and> \<not> csr_read_only n \<longrightarrow>
      csr_value c (csr_step c False i tu du s) n =
      csr_legal n (csr_value c s n) (csr_out i (csr_value c s n))"
    using csr_step_value[OF n taken] by blast
  have "csr_write_requested i \<longrightarrow> csr_op i = 1 \<or> cs_source_i i \<noteq> 0"
    by (auto simp: csr_write_requested_def)
  moreover have "\<forall>m. m \<notin> {Mcycle, Mcycleh} \<and> (m \<noteq> n \<or> \<not> csr_write_requested i) \<longrightarrow>
      csr_value c (csr_step c False i tu du s) m = csr_value c s m"
    using csr_step_frame[OF n q] by blast
  moreover have "n \<notin> {Mcycle, Mcycleh} \<or> \<not> csr_write_requested i \<longrightarrow>
      cs_mcycle (csr_step c False i tu du s) = cs_mcycle s + 1"
    using sel(4,5) by (auto simp: csr_step_def Let_def mcycle_step_def)
  ultimately show ?thesis unfolding Let_def using v r w by blast
qed

text \<open>The new value as the ISA manual defines it.\<close>

fun isa_csr_update :: "csr_op \<Rightarrow> xword \<Rightarrow> xword \<Rightarrow> xword" where
  "isa_csr_update Csr_RW old operand = operand"
| "isa_csr_update Csr_RS old operand = old OR operand"
| "isa_csr_update Csr_RC old operand = old AND NOT operand"

lemma csr_out_isa: "csr_op i = csr_funct2 f \<Longrightarrow> csr_out i old = isa_csr_update f old (cs_op1_i i)"
  by (cases f) (simp_all add: csr_out_def)

text \<open>
  C12: A CSR instruction. For every implemented register, an enabled CSR operation is valid
  unless it asks to write a read-only register; a valid one returns the register's value; after
  the clock edge a requested write has stored the legal part of the new value, a CSRRS or
  CSRRC without a source (register x0 or a zero immediate) has written nothing, and no other
  register but the cycle counter has changed. The cycle counter counts every edge on which it
  is not written.
\<close>

theorem csr_instruction:
  assumes n: "cs_adr i = csr_number n" "csr_implemented c n"
    and op: "cs_en_i i" "csr_op i = csr_funct2 f" and q: "trap_quiet tu" "debug_quiet du"
  shows "let s' = csr_step c False i tu du s;
             valid = (\<not> (csr_read_only n \<and> csr_write_requested i))
     in csr_valid_o c i s = valid \<and> csr_invalid_op_o c i s = (\<not> valid) \<and>
        (valid \<longrightarrow> csr_result_o c i s = csr_value c s n) \<and>
        (valid \<and> csr_write_requested i \<longrightarrow>
           csr_value c s' n = csr_legal n (csr_value c s n) (isa_csr_update f (csr_value c s n) (cs_op1_i i))) \<and>
        (csr_write_requested i \<longleftrightarrow> f = Csr_RW \<or> cs_source_i i \<noteq> 0) \<and>
        (\<forall>m. m \<notin> {Mcycle, Mcycleh} \<and> (m \<noteq> n \<or> \<not> csr_write_requested i) \<longrightarrow>
           csr_value c s' m = csr_value c s m) \<and>
        (n \<notin> {Mcycle, Mcycleh} \<or> \<not> csr_write_requested i \<longrightarrow>
           cs_mcycle s' = cs_mcycle s + 1)"
proof -
  have "csr_op i \<noteq> 0" using op(2) by (cases f) simp_all
  moreover have "csr_write_requested i \<longleftrightarrow> f = Csr_RW \<or> cs_source_i i \<noteq> 0"
    using op(2) by (cases f) (simp_all add: csr_write_requested_def)
  ultimately show ?thesis
    using csr_instruction_effect[OF n op(1) _ q, of s] unfolding csr_out_isa[OF op(2)] Let_def by blast
qed

lemma csr_instruction_witness:
  "let i = \<lparr>cs_en_i = True, cs_funct3_i = 1, cs_op1_i = 0x1003, cs_adr = 0x305, cs_source_i = 3\<rparr>
   in csr_valid_o default_config i csr_init \<and>
      csr_value default_config (csr_step default_config False i no_trap_update no_debug_update
        csr_init) Mtvec = 0x1000"
proof -
  define i where "i = \<lparr>cs_en_i = True, cs_funct3_i = 1, cs_op1_i = 0x1003, cs_adr = 0x305,
    cs_source_i = (3 :: regno)\<rparr>"
  have op: "csr_op i = 1" by (simp add: i_def csr_op_def bv_slice_def)
  have "trap_quiet no_trap_update" "debug_quiet no_debug_update"
    by (simp_all add: trap_quiet_def no_trap_update_def debug_quiet_def no_debug_update_def)
  from csr_instruction[OF _ _ _ _ this, of i Mtvec default_config Csr_RW csr_init]
  show ?thesis
    unfolding i_def[symmetric] Let_def
    by (simp add: op csr_implemented_def csr_read_only_def csr_write_requested_def csr_out_def)
      (simp add: i_def)
qed

lemma csr_name_ex:
  "(\<exists>n. P n) \<longleftrightarrow> P Mstatus \<or> P Misa \<or> P Mtvec \<or> P Mscratch \<or> P Mepc \<or> P Mcause \<or> P Mtval \<or> P Mcycle \<or>
     P Mcycleh \<or> P Mvendorid \<or> P Marchid \<or> P Mimpid \<or> P Mhartid \<or> P Mbonfirecfg \<or> P Dcsr \<or> P Dpc"
proof
  assume "\<exists>n. P n"
  then obtain n where "P n" ..
  then show "P Mstatus \<or> P Misa \<or> P Mtvec \<or> P Mscratch \<or> P Mepc \<or> P Mcause \<or> P Mtval \<or> P Mcycle \<or>
     P Mcycleh \<or> P Mvendorid \<or> P Marchid \<or> P Mimpid \<or> P Mhartid \<or> P Mbonfirecfg \<or> P Dcsr \<or> P Dpc"
    by (cases n) simp_all
qed blast

lemma csr_adr_parts:
  "cs_adr i = csr_number Mstatus \<longleftrightarrow> csr_rw i = 0 \<and> csr_priv i = 3 \<and> csr_reg i = 0x0"
  "cs_adr i = csr_number Misa \<longleftrightarrow> csr_rw i = 0 \<and> csr_priv i = 3 \<and> csr_reg i = 0x1"
  "cs_adr i = csr_number Mtvec \<longleftrightarrow> csr_rw i = 0 \<and> csr_priv i = 3 \<and> csr_reg i = 0x5"
  "cs_adr i = csr_number Mscratch \<longleftrightarrow> csr_rw i = 0 \<and> csr_priv i = 3 \<and> csr_reg i = 0x40"
  "cs_adr i = csr_number Mepc \<longleftrightarrow> csr_rw i = 0 \<and> csr_priv i = 3 \<and> csr_reg i = 0x41"
  "cs_adr i = csr_number Mcause \<longleftrightarrow> csr_rw i = 0 \<and> csr_priv i = 3 \<and> csr_reg i = 0x42"
  "cs_adr i = csr_number Mtval \<longleftrightarrow> csr_rw i = 0 \<and> csr_priv i = 3 \<and> csr_reg i = 0x43"
  "cs_adr i = csr_number Mcycle \<longleftrightarrow> csr_rw i = 2 \<and> csr_priv i = 3 \<and> csr_reg i = 0x0"
  "cs_adr i = csr_number Mcycleh \<longleftrightarrow> csr_rw i = 2 \<and> csr_priv i = 3 \<and> csr_reg i = 0x80"
  "cs_adr i = csr_number Mvendorid \<longleftrightarrow> csr_rw i = 3 \<and> csr_priv i = 3 \<and> csr_reg i = 0x11"
  "cs_adr i = csr_number Marchid \<longleftrightarrow> csr_rw i = 3 \<and> csr_priv i = 3 \<and> csr_reg i = 0x12"
  "cs_adr i = csr_number Mimpid \<longleftrightarrow> csr_rw i = 3 \<and> csr_priv i = 3 \<and> csr_reg i = 0x13"
  "cs_adr i = csr_number Mhartid \<longleftrightarrow> csr_rw i = 3 \<and> csr_priv i = 3 \<and> csr_reg i = 0x14"
  "cs_adr i = csr_number Mbonfirecfg \<longleftrightarrow> csr_rw i = 3 \<and> csr_priv i = 3 \<and> csr_reg i = 0xc0"
  "cs_adr i = csr_number Dcsr \<longleftrightarrow> csr_rw i = 1 \<and> csr_priv i = 3 \<and> csr_reg i = 0xb0"
  "cs_adr i = csr_number Dpc \<longleftrightarrow> csr_rw i = 1 \<and> csr_priv i = 3 \<and> csr_reg i = 0xb1"
  "cs_adr i = 0x3b0 \<longleftrightarrow> csr_rw i = 0 \<and> csr_priv i = 3 \<and> csr_reg i = 0xb0"
  "cs_adr i = 0x3b1 \<longleftrightarrow> csr_rw i = 0 \<and> csr_priv i = 3 \<and> csr_reg i = 0xb1"
  by (simp_all add: csr_adr_iff) (simp_all add: bv_slice_def)

text \<open>The invalid flag alone.\<close>

lemma csr_selected_parts:
  "sel_inv_reg (csr_selected c i s) =
     (let reg = csr_reg i; rw = csr_rw i;
          dbg = (enableDebugModule c \<and> (reg = 0xb0 \<or> reg = 0xb1))
      in \<not> (csr_priv i = 3 \<and>
       (if rw = 3 then \<not> csr_write_requested i \<and> reg \<in> {0x11, 0x12, 0x13, 0x14, 0xc0}
        else if rw = 0 then reg \<in> {0, 1, 5, 0x40, 0x41, 0x42, 0x43} \<or> dbg
        else if rw = 2 then reg = 0 \<or> reg = 0x80 else dbg)))"
  by (simp add: csr_selected_def Let_def trap_csr_read_def debug_csr_read_def)

text \<open>
  The addresses the unit accepts. Without the debug module an enabled CSR operation with a
  valid function code is accepted exactly for the implemented register numbers (and reads of
  the read-only ones). With it, the numbers 0x3b0 and 0x3b1 (the standard's \<open>pmpaddr0\<close> and
  \<open>pmpaddr1\<close>) are accepted too and show the debug registers \<open>dcsr\<close> and \<open>dpc\<close>.
\<close>

theorem csr_address_map:
  "csr_invalid c i s = (csr_op i = 0 \<or>
     \<not> ((\<exists>n. cs_adr i = csr_number n \<and> csr_implemented c n \<and>
             \<not> (csr_read_only n \<and> csr_write_requested i)) \<or>
        enableDebugModule c \<and> cs_adr i \<in> {0x3b0, 0x3b1})) \<and>
   (enableDebugModule c \<and> cs_adr i = 0x3b0 \<longrightarrow> csr_result_o c i s = csr_value c s Dcsr) \<and>
   (enableDebugModule c \<and> cs_adr i = 0x3b1 \<longrightarrow> csr_result_o c i s = csr_value c s Dpc)"
proof -
  have inv: "csr_inv_op i = (csr_op i = 0)"
    using word2_cases[of "csr_op i"] by (auto simp: csr_inv_op_def)
  have "sel_inv_reg (csr_selected c i s) =
     (\<not> ((\<exists>n. cs_adr i = csr_number n \<and> csr_implemented c n \<and>
             \<not> (csr_read_only n \<and> csr_write_requested i)) \<or>
        enableDebugModule c \<and> cs_adr i \<in> {0x3b0, 0x3b1}))"
  proof (cases "csr_priv i = 3")
    case True
    show ?thesis
      unfolding csr_name_ex csr_selected_parts csr_adr_parts
      using True word2_cases[of "csr_rw i"]
      by (elim disjE; simp only: csr_implemented_def csr_read_only_def Let_def;
          simp add: csr_adr_parts; argo?)
  next
    case False
    then show ?thesis
      unfolding csr_name_ex csr_selected_parts csr_adr_parts by (simp add: csr_adr_parts Let_def)
  qed
  moreover have "csr_result_o c i s = csr_value c s Dcsr"
    if "enableDebugModule c" "cs_adr i = 0x3b0"
    using that by (simp add: csr_result_o_def csr_selected_def Let_def csr_adr_parts
        trap_csr_read_def debug_csr_read_def dcsr_view)
  moreover have "csr_result_o c i s = csr_value c s Dpc"
    if "enableDebugModule c" "cs_adr i = 0x3b1"
    using that by (simp add: csr_result_o_def csr_selected_def Let_def csr_adr_parts
        trap_csr_read_def debug_csr_read_def csr_views)
  ultimately show ?thesis by (auto simp: csr_invalid_def inv)
qed

lemma csr_address_map_witness:
  "csr_result_o (default_config\<lparr>enableDebugModule := True\<rparr>)
     \<lparr>cs_en_i = True, cs_funct3_i = 2, cs_op1_i = 0, cs_adr = 0x3b1, cs_source_i = 0\<rparr>
     (csr_init\<lparr>cs_debug := debug_csrs_init\<lparr>dc_dpc := 1\<rparr>\<rparr>) = 4"
  using csr_address_map[of "default_config\<lparr>enableDebugModule := True\<rparr>"
      "\<lparr>cs_en_i = True, cs_funct3_i = 2, cs_op1_i = 0, cs_adr = 0x3b1, cs_source_i = 0\<rparr>"
      "csr_init\<lparr>cs_debug := debug_csrs_init\<lparr>dc_dpc := 1\<rparr>\<rparr>"] by simp

end
