(* ===== verification/Execute.thy ===== *)
theory Execute
  imports Decode Loadstore Csr
begin

text \<open>
  The execute stage (\<open>rtl/execute.py\<close>): the ALU, load/store unit and CSR unit wired to the
  decode registers, the branch and trap logic, the result multiplexer of the three-stage
  pipeline and the result selectors of the four-stage pipeline, the operand forwarding, and the
  registers that remember an operation which takes more than one cycle.
\<close>

subsection \<open>Signals and registers\<close>

record exec_in =
  ex_dec :: decode_state
  ex_op1_i :: xword
  ex_op2_i :: xword
  ex_forward_we_i :: bool
  ex_forward_rd_i :: regno
  ex_forward_data_i :: xword
  ex_hazard_i :: bool
  ex_debug_flush_i :: bool
  ex_progbuf_active_i :: bool
  ex_bus_i :: dbus_rsp
  ex_debug_update_i :: debug_csr_update

record exec_state =
  ex_alu :: alu_state
  ex_ls :: ls_state
  ex_csr :: csr_state
  ex_rd_adr_reg :: regno
  ex_jump_r :: bool
  ex_jump_dest_r :: xword
  ex_jump_busy :: bool
  ex_load_pending :: bool
  ex_shift_pending :: bool

definition exec_init :: "bonfire_config \<Rightarrow> exec_state" where
  "exec_init c = \<lparr>ex_alu = alu_init, ex_ls = ls_init c, ex_csr = csr_init, ex_rd_adr_reg = 0,
     ex_jump_r = False, ex_jump_dest_r = 0, ex_jump_busy = False, ex_load_pending = False,
     ex_shift_pending = False\<rparr>"

definition exec_wb_stage :: "bonfire_config \<Rightarrow> bool" where
  "exec_wb_stage c = (pipeline_length c = 4)"

definition exec_config_ok :: "bonfire_config \<Rightarrow> bool" where
  "exec_config_ok c = (loadstore_outstanding c = 1)"

subsection \<open>Operands, busy and taken\<close>

text \<open>\<open>frwd_comb\<close> and \<open>op_comb\<close>.\<close>

definition exec_forward1 :: "bonfire_config \<Rightarrow> exec_in \<Rightarrow> bool" where
  "exec_forward1 c i \<longleftrightarrow> writeback_bypass c \<and> ex_forward_we_i i \<and> ex_forward_rd_i i \<noteq> 0 \<and>
     decode_uses_rs1_o (ex_dec i) \<and> de_source_rs1_o (ex_dec i) = ex_forward_rd_i i"

definition exec_forward2 :: "bonfire_config \<Rightarrow> exec_in \<Rightarrow> bool" where
  "exec_forward2 c i \<longleftrightarrow> writeback_bypass c \<and> ex_forward_we_i i \<and> ex_forward_rd_i i \<noteq> 0 \<and>
     decode_uses_rs2_o (ex_dec i) \<and> de_source_rs2_o (ex_dec i) = ex_forward_rd_i i"

definition exec_op1 :: "bonfire_config \<Rightarrow> exec_in \<Rightarrow> xword" where
  "exec_op1 c i = (if exec_forward1 c i then ex_forward_data_i i else ex_op1_i i)"

definition exec_op2 :: "bonfire_config \<Rightarrow> exec_in \<Rightarrow> xword" where
  "exec_op2 c i = (if exec_forward2 c i then ex_forward_data_i i else ex_op2_i i)"

definition exec_busy :: "bonfire_config \<Rightarrow> exec_in \<Rightarrow> exec_state \<Rightarrow> bool" where
  "exec_busy c i s \<longleftrightarrow> al_busy_o (ex_alu s) \<or> ls_busy_o c (ex_bus_i i) (ex_ls s) \<or> csr_busy_o \<or>
     ex_jump_busy s \<or> ex_hazard_i i"

definition exec_taken :: "bonfire_config \<Rightarrow> exec_in \<Rightarrow> exec_state \<Rightarrow> bool" where
  "exec_taken c i s \<longleftrightarrow> de_valid_o (ex_dec i) \<and> \<not> exec_busy c i s"

subsection \<open>The functional units\<close>

definition exec_alu_in :: "bonfire_config \<Rightarrow> exec_in \<Rightarrow> exec_state \<Rightarrow> alu_in" where
  "exec_alu_in c i s =
     \<lparr>al_funct3_i = de_funct3_o (ex_dec i), al_funct7_6_i = bit (de_funct7_o (ex_dec i)) 5,
      al_op1_i = exec_op1 c i, al_op2_i = exec_op2 c i,
      al_en_i = (de_alu_cmd (ex_dec i) \<and> exec_taken c i s)\<rparr>"

definition exec_ls_in :: "bonfire_config \<Rightarrow> exec_in \<Rightarrow> exec_state \<Rightarrow> ls_in" where
  "exec_ls_in c i s =
     \<lparr>ls_en_i = ((de_store_cmd (ex_dec i) \<or> de_load_cmd (ex_dec i)) \<and> exec_taken c i s),
      ls_store_i = de_store_cmd (ex_dec i), ls_funct3_i = de_funct3_o (ex_dec i),
      ls_op1_i = exec_op1 c i, ls_op2_i = exec_op2 c i,
      ls_displacement_i = de_displacement_o (ex_dec i), ls_rd_i = 0\<rparr>"

definition exec_csr_in :: "bonfire_config \<Rightarrow> exec_in \<Rightarrow> exec_state \<Rightarrow> csr_in" where
  "exec_csr_in c i s =
     \<lparr>cs_en_i = (de_csr_cmd (ex_dec i) \<and> exec_taken c i s), cs_funct3_i = de_funct3_o (ex_dec i),
      cs_op1_i = exec_op1 c i, cs_adr = de_priv_funct_12 (ex_dec i),
      cs_source_i = de_source_rs1_o (ex_dec i)\<rparr>"

definition exec_alu_out :: "bonfire_config \<Rightarrow> exec_in \<Rightarrow> exec_state \<Rightarrow> alu_out" where
  "exec_alu_out c i s = alu_comb (shifter_mode c) (exec_alu_in c i s) (ex_alu s)"

definition exec_ls_valid :: "bonfire_config \<Rightarrow> exec_in \<Rightarrow> exec_state \<Rightarrow> bool" where
  "exec_ls_valid c i s = ls_valid_o c (ex_bus_i i) (ex_ls s)"

definition exec_ls_result :: "bonfire_config \<Rightarrow> exec_in \<Rightarrow> exec_state \<Rightarrow> xword" where
  "exec_ls_result c i s = ls_result_o c (ex_bus_i i) (ex_ls s)"

definition exec_csr_valid :: "bonfire_config \<Rightarrow> exec_in \<Rightarrow> exec_state \<Rightarrow> bool" where
  "exec_csr_valid c i s = csr_valid_o c (exec_csr_in c i s) (ex_csr s)"

definition exec_csr_result :: "bonfire_config \<Rightarrow> exec_in \<Rightarrow> exec_state \<Rightarrow> xword" where
  "exec_csr_result c i s = csr_result_o c (exec_csr_in c i s) (ex_csr s)"

subsection \<open>Jumps, branches and traps\<close>

record exec_jump =
  ej_jump :: bool
  ej_jump_dest :: xword
  ej_jump_we :: bool
  ej_invalid_opcode_fault :: bool
  ej_trap_enter :: bool
  ej_trap_exit :: bool
  ej_we_mcause :: bool
  ej_we_mepc :: bool
  ej_debug_ebreak :: bool

definition no_jump :: exec_jump where
  "no_jump = \<lparr>ej_jump = False, ej_jump_dest = 0, ej_jump_we = False,
     ej_invalid_opcode_fault = False, ej_trap_enter = False, ej_trap_exit = False,
     ej_we_mcause = False, ej_we_mepc = False, ej_debug_ebreak = False\<rparr>"

definition exec_branch :: "decode_state \<Rightarrow> alu_out \<Rightarrow> exec_jump" where
  "exec_branch d a =
     (let f3 = de_funct3_o d; j = no_jump\<lparr>ej_jump_dest := de_jump_dest_o d\<rparr> in
      if f3 = RV32_F3_BEQ then j\<lparr>ej_jump := al_flag_equal a\<rparr>
      else if f3 = RV32_F3_BGE then j\<lparr>ej_jump := al_flag_ge a\<rparr>
      else if f3 = RV32_F3_BGEU then j\<lparr>ej_jump := al_flag_uge a\<rparr>
      else if f3 = RV32_F3_BLT then j\<lparr>ej_jump := (\<not> al_flag_ge a)\<rparr>
      else if f3 = RV32_F3_BLTU then j\<lparr>ej_jump := (\<not> al_flag_uge a)\<rparr>
      else if f3 = RV32_F3_BNE then j\<lparr>ej_jump := (\<not> al_flag_equal a)\<rparr>
      else j\<lparr>ej_invalid_opcode_fault := True\<rparr>)"

definition exec_system :: "bool \<Rightarrow> bool \<Rightarrow> decode_state \<Rightarrow> trap_csrs \<Rightarrow> exec_jump" where
  "exec_system debug_progbuf_active debug_ebreak_enable d t =
     (let f12 = de_priv_funct_12 d in
      if debug_progbuf_active \<and> f12 = RV32_F12_ECALL then no_jump
      else if debug_ebreak_enable \<and> f12 = RV32_F12_EBREAK then no_jump\<lparr>ej_debug_ebreak := True\<rparr>
      else if f12 = RV32_F12_EBREAK \<or> f12 = RV32_F12_ECALL then
        no_jump\<lparr>ej_jump_dest := bv_put_slice 32 2 (tc_mtvec t) 0, ej_jump := True,
                ej_trap_enter := True, ej_we_mcause := True, ej_we_mepc := True\<rparr>
      else if f12 = RV32_F12_ERET then
        no_jump\<lparr>ej_jump_dest := bv_put_slice 32 2 (tc_mepc t) 0, ej_jump := True,
                ej_trap_exit := True\<rparr>
      else no_jump\<lparr>ej_invalid_opcode_fault := True\<rparr>)"

definition exec_jump_comb :: "bonfire_config \<Rightarrow> exec_in \<Rightarrow> exec_state \<Rightarrow> exec_jump" where
  "exec_jump_comb c i s =
     (let d = ex_dec i; a = exec_alu_out c i s in
      if exec_taken c i s then
        (if de_branch_cmd d then exec_branch d a
         else if de_jump_cmd d
         then no_jump\<lparr>ej_jump_dest := de_jump_dest_o d, ej_jump := True, ej_jump_we := True\<rparr>
         else if de_jumpr_cmd d
         then no_jump\<lparr>ej_jump_dest := al_res_o a, ej_jump := True, ej_jump_we := True\<rparr>
         else if de_sys_cmd d
         then exec_system (enableDebugModule c \<and> ex_progbuf_active_i i)
                (enableDebugModule c \<and> dc_ebreakm (cs_debug (ex_csr s))) d (cs_trap (ex_csr s))
         else no_jump)
      else no_jump)"

text \<open>The trap update port: cause and program counter are wired, the strobes come from above;
  the trap value is never set.\<close>

definition exec_trap_update :: "bonfire_config \<Rightarrow> exec_in \<Rightarrow> exec_state \<Rightarrow> trap_update" where
  "exec_trap_update c i s =
     (let j = exec_jump_comb c i s in
      \<lparr>tu_mepc = bv_slice 32 2 (de_mepc_o (ex_dec i)),
       tu_mcause = (if bit (de_priv_funct_12 (ex_dec i)) 0 then 0x3 else 0xb),
       tu_mcause_irq = False, tu_mtval = 0, tu_we_mepc = ej_we_mepc j,
       tu_we_mcause = ej_we_mcause j, tu_mstatus_trap_enter = ej_trap_enter j,
       tu_mstatus_trap_exit = ej_trap_exit j, tu_we_mtval = False\<rparr>)"

subsection \<open>Outputs\<close>

definition exec_valid_o :: "bonfire_config \<Rightarrow> exec_in \<Rightarrow> exec_state \<Rightarrow> bool" where
  "exec_valid_o c i s \<longleftrightarrow> al_valid_o (exec_alu_out c i s) \<or> exec_ls_valid c i s \<or>
     exec_csr_valid c i s \<or> ej_jump_we (exec_jump_comb c i s)"

definition exec_reg_we_o :: "bonfire_config \<Rightarrow> exec_in \<Rightarrow> exec_state \<Rightarrow> bool" where
  "exec_reg_we_o c i s \<longleftrightarrow> al_valid_o (exec_alu_out c i s) \<or> ls_we_o c (ex_ls s) \<or>
     exec_csr_valid c i s \<or> ej_jump_we (exec_jump_comb c i s)"

definition exec_rd_adr_o :: "bonfire_config \<Rightarrow> exec_in \<Rightarrow> exec_state \<Rightarrow> regno" where
  "exec_rd_adr_o c i s = (if exec_taken c i s then de_rd_adr_o (ex_dec i) else ex_rd_adr_reg s)"

text \<open>\<open>result_mux\<close> of the three-stage pipeline.\<close>

definition exec_result_o :: "bonfire_config \<Rightarrow> exec_in \<Rightarrow> exec_state \<Rightarrow> xword" where
  "exec_result_o c i s =
     (if ej_jump_we (exec_jump_comb c i s) then de_next_ip_o (ex_dec i)
      else if ex_load_pending s then exec_ls_result c i s
      else if ex_shift_pending s \<or> de_alu_cmd (ex_dec i) then al_res_o (exec_alu_out c i s)
      else if de_csr_cmd (ex_dec i) then exec_csr_result c i s
      else 0)"

text \<open>\<open>wb_prepare\<close> of the four-stage pipeline: the selected source.\<close>

datatype result_source = Src_None | Src_Alu | Src_Load | Src_Csr | Src_Jump

definition exec_wb_source :: "bonfire_config \<Rightarrow> exec_in \<Rightarrow> exec_state \<Rightarrow> result_source" where
  "exec_wb_source c i s =
     (if ej_jump_we (exec_jump_comb c i s) then Src_Jump
      else if ls_we_o c (ex_ls s) then Src_Load
      else if al_valid_o (exec_alu_out c i s) then Src_Alu
      else if exec_csr_valid c i s then Src_Csr
      else Src_None)"

definition exec_jump_o :: "bonfire_config \<Rightarrow> exec_in \<Rightarrow> exec_state \<Rightarrow> bool" where
  "exec_jump_o c i s =
     (if exec_taken c i s \<and> jump_bypass c then ej_jump (exec_jump_comb c i s)
      else ex_jump_r s \<and> \<not> exec_taken c i s)"

definition exec_jump_dest_o :: "bonfire_config \<Rightarrow> exec_in \<Rightarrow> exec_state \<Rightarrow> xword" where
  "exec_jump_dest_o c i s =
     (if exec_taken c i s \<and> jump_bypass c then ej_jump_dest (exec_jump_comb c i s)
      else ex_jump_dest_r s)"

text \<open>The kill signal of the decode stage.\<close>

definition exec_kill :: "bonfire_config \<Rightarrow> exec_in \<Rightarrow> exec_state \<Rightarrow> bool" where
  "exec_kill c i s =
     ((if jump_bypass c then exec_taken c i s \<and> ej_jump (exec_jump_comb c i s)
       else ex_jump_busy s) \<or> enableDebugModule c \<and> ex_debug_flush_i i)"

definition exec_debug_ebreak_o :: "bonfire_config \<Rightarrow> exec_in \<Rightarrow> exec_state \<Rightarrow> bool" where
  "exec_debug_ebreak_o c i s = ej_debug_ebreak (exec_jump_comb c i s)"

definition exec_debug_ebreak_pc_o :: "exec_in \<Rightarrow> xword" where
  "exec_debug_ebreak_pc_o i = de_mepc_o (ex_dec i)"

definition exec_progbuf_exception :: "bonfire_config \<Rightarrow> exec_in \<Rightarrow> exec_state \<Rightarrow> bool" where
  "exec_progbuf_exception c i s \<longleftrightarrow> ex_progbuf_active_i i \<and>
     ((exec_taken c i s \<and> de_invalid_opcode (ex_dec i)) \<or>
      ej_invalid_opcode_fault (exec_jump_comb c i s) \<or>
      csr_invalid_op_o c (exec_csr_in c i s) (ex_csr s) \<or>
      ls_invalid_op_o (ex_ls s) \<or> ls_misalign_load_o (ex_ls s) \<or> ls_misalign_store_o (ex_ls s) \<or>
      ls_bus_error_o (ex_ls s) \<or>
      (exec_taken c i s \<and> de_sys_cmd (ex_dec i) \<and>
       de_priv_funct_12 (ex_dec i) = RV32_F12_ECALL))"

subsection \<open>The clock edge\<close>

definition exec_seq :: "bonfire_config \<Rightarrow> exec_in \<Rightarrow> exec_state \<Rightarrow> exec_state \<Rightarrow> exec_state" where
  "exec_seq c i s n =
     (let n1 = n\<lparr>ex_jump_busy := False\<rparr> in
      if exec_taken c i s then
        n1\<lparr>ex_rd_adr_reg := de_rd_adr_o (ex_dec i),
           ex_jump_dest_r := ej_jump_dest (exec_jump_comb c i s),
           ex_jump_r := ej_jump (exec_jump_comb c i s),
           ex_jump_busy := (ej_jump (exec_jump_comb c i s) \<and> \<not> jump_bypass c)\<rparr>
      else n1)"

definition exec_pending_seq ::
  "bonfire_config \<Rightarrow> exec_in \<Rightarrow> exec_state \<Rightarrow> exec_state \<Rightarrow> exec_state" where
  "exec_pending_seq c i s n =
     (if exec_wb_stage c then n
      else if exec_taken c i s then
        n\<lparr>ex_load_pending := de_load_cmd (ex_dec i),
          ex_shift_pending := (shifter_mode c = Shift_Pipelined \<and> de_alu_cmd (ex_dec i) \<and>
            (de_funct3_o (ex_dec i) = RV32_F3_SLL \<or> de_funct3_o (ex_dec i) = RV32_F3_SRL_SRA))\<rparr>
      else
        (let n1 = (if exec_ls_valid c i s then n\<lparr>ex_load_pending := False\<rparr> else n)
         in if al_valid_o (exec_alu_out c i s) then n1\<lparr>ex_shift_pending := False\<rparr> else n1))"

definition exec_units_step ::
  "bonfire_config \<Rightarrow> bool \<Rightarrow> exec_in \<Rightarrow> exec_state \<Rightarrow> exec_state \<Rightarrow> exec_state" where
  "exec_units_step c reset i s n =
     n\<lparr>ex_alu := alu_step (shifter_mode c) reset (exec_alu_in c i s) (ex_alu s),
       ex_ls := ls_step c reset (exec_ls_in c i s) (ex_bus_i i) (ex_ls s),
       ex_csr := csr_step c reset (exec_csr_in c i s) (exec_trap_update c i s)
                   (ex_debug_update_i i) (ex_csr s)\<rparr>"

definition exec_step :: "bonfire_config \<Rightarrow> bool \<Rightarrow> exec_in \<Rightarrow> exec_state \<Rightarrow> exec_state" where
  "exec_step c reset i s =
     (let n = exec_units_step c reset i s s in
      if reset then n\<lparr>ex_rd_adr_reg := 0, ex_jump_r := False, ex_jump_dest_r := 0,
                      ex_jump_busy := False, ex_load_pending := False,
                      ex_shift_pending := False\<rparr>
      else exec_pending_seq c i s (exec_seq c i s n))"

subsection \<open>One instruction at a time\<close>

text \<open>
  The invariant of the stage with the registered read stage: the LSU holds at most one
  operation, a pending load is one the LSU is still working on, and a pending shift is one the
  pipelined shifter is about to deliver.
\<close>

definition exec_inv :: "bonfire_config \<Rightarrow> exec_state \<Rightarrow> bool" where
  "exec_inv c s \<longleftrightarrow>
     length (ls_pipe (ex_ls s)) = 1 \<and> ls_outstanding (ex_ls s) \<le> 1 \<and>
     (ls_valid_reg (ex_ls s) \<longrightarrow> ls_outstanding (ex_ls s) = 0) \<and>
     ex_load_pending s = (\<not> exec_wb_stage c \<and>
        (ls_outstanding (ex_ls s) = 1 \<or> ls_valid_reg (ex_ls s)) \<and>
        \<not> lp_store (ls_pipe (ex_ls s) ! 0)) \<and>
     ((ls_outstanding (ex_ls s) = 1 \<or> ls_valid_reg (ex_ls s)) \<and>
        \<not> lp_store (ls_pipe (ex_ls s) ! 0) \<longrightarrow>
        \<not> lp_misalign (ls_pipe (ex_ls s) ! 0) \<and> \<not> lp_invalid_op (ls_pipe (ex_ls s) ! 0) \<and>
        \<not> al_busy_o (ex_alu s)) \<and>
     ex_shift_pending s = (\<not> exec_wb_stage c \<and> al_busy_o (ex_alu s)) \<and>
     (if shifter_mode c = Shift_Pipelined
      then sh_ready (al_shifter (ex_alu s)) = al_busy_o (ex_alu s)
      else \<not> al_busy_o (ex_alu s))"

text \<open>What the invariant needs of the instruction that is taken, if one is: a load is legal and
  aligned, and the command lines exclude each other as the decoder makes them.\<close>

definition exec_legal :: "bonfire_config \<Rightarrow> exec_in \<Rightarrow> exec_state \<Rightarrow> bool" where
  "exec_legal c i s \<longleftrightarrow> (exec_taken c i s \<longrightarrow>
     (\<exists>k. decode_class k (ex_dec i)) \<and>
     (de_load_cmd (ex_dec i) \<longrightarrow>
       \<not> ls_misalign (exec_ls_in c i s) \<and> \<not> ls_invalid_op (exec_ls_in c i s)))"

lemma exec_legal_excl:
  assumes "exec_legal c i s" "exec_taken c i s"
  shows "de_load_cmd (ex_dec i) \<Longrightarrow> \<not> de_store_cmd (ex_dec i)"
    "de_load_cmd (ex_dec i) \<or> de_store_cmd (ex_dec i) \<Longrightarrow> \<not> de_alu_cmd (ex_dec i)"
    "de_csr_cmd (ex_dec i) \<Longrightarrow> \<not> de_alu_cmd (ex_dec i)"
    "de_load_cmd (ex_dec i) \<Longrightarrow> \<not> ls_misalign (exec_ls_in c i s) \<and> \<not> ls_invalid_op (exec_ls_in c i s)"
  using assms by (auto simp: exec_legal_def decode_class_def)

lemma exec_inv_init: "loadstore_outstanding c = 1 \<Longrightarrow> exec_inv c (exec_init c)"
  by (simp add: exec_inv_def exec_init_def ls_init_def alu_init_def shifter_init_def)

lemma exec_taken_idle:
  assumes "loadstore_outstanding c = 1" "registered_read_stage c" "exec_inv c s" "exec_taken c i s"
  shows "\<not> al_busy_o (ex_alu s)" "\<not> ex_load_pending s" "\<not> ex_shift_pending s"
    "shifter_mode c = Shift_Pipelined \<Longrightarrow> \<not> sh_ready (al_shifter (ex_alu s))"
    "ls_outstanding (ex_ls s) = 0" "\<not> exec_ls_valid c i s" "\<not> ls_we_o c (ex_ls s)"
    "\<not> ls_busy_o c (ex_bus_i i) (ex_ls s)"
    "ls_valid_reg (ex_ls s) \<longrightarrow> lp_store (ls_pipe (ex_ls s) ! 0)"
  using assms
  by (auto simp: exec_inv_def exec_taken_def exec_busy_def ls_busy_o_def ls_busy_def
      ls_capacity_busy_def exec_ls_valid_def ls_valid_o_def ls_we_o_def ls_valid_comb_def
      ls_confirm_def write_pipe_index_def split: if_splits)

lemma exec_ls_taken:
  "exec_taken c i s \<Longrightarrow> ls_taken c (exec_ls_in c i s) (ex_bus_i i) (ex_ls s) =
     (de_store_cmd (ex_dec i) \<or> de_load_cmd (ex_dec i))"
  by (simp add: ls_taken_def exec_ls_in_def exec_taken_def exec_busy_def)

lemma exec_ls_not_taken:
  "\<not> exec_taken c i s \<Longrightarrow> \<not> ls_taken c (exec_ls_in c i s) (ex_bus_i i) (ex_ls s)"
  by (simp add: ls_taken_def exec_ls_in_def)

lemma exec_step_fields:
  "ex_alu (exec_step c False i s) = alu_step (shifter_mode c) False (exec_alu_in c i s) (ex_alu s)"
  "ex_ls (exec_step c False i s) = ls_step c False (exec_ls_in c i s) (ex_bus_i i) (ex_ls s)"
  "ex_csr (exec_step c False i s) = csr_step c False (exec_csr_in c i s) (exec_trap_update c i s)
     (ex_debug_update_i i) (ex_csr s)"
  "ex_load_pending (exec_step c False i s) =
     (if exec_wb_stage c then ex_load_pending s
      else if exec_taken c i s then de_load_cmd (ex_dec i)
      else ex_load_pending s \<and> \<not> exec_ls_valid c i s)"
  "ex_shift_pending (exec_step c False i s) =
     (if exec_wb_stage c then ex_shift_pending s
      else if exec_taken c i s then shifter_mode c = Shift_Pipelined \<and> de_alu_cmd (ex_dec i) \<and>
        is_shift_funct3 (de_funct3_o (ex_dec i))
      else ex_shift_pending s \<and> \<not> al_valid_o (exec_alu_out c i s))"
  by (simp_all add: exec_step_def exec_pending_seq_def exec_seq_def exec_units_step_def Let_def
      is_shift_funct3_def)

lemma exec_ls_inv_step:
  assumes c: "loadstore_outstanding c = 1" and r: "registered_read_stage c"
    and p: "length (ls_pipe l) = 1" "ls_outstanding l \<le> 1" "ls_valid_reg l \<longrightarrow> ls_outstanding l = 0"
  shows "length (ls_pipe (ls_step c False i b l)) = 1"
    and "ls_outstanding (ls_step c False i b l) \<le> 1"
    and "ls_valid_reg (ls_step c False i b l) \<longrightarrow> ls_outstanding (ls_step c False i b l) = 0"
    and "ls_taken c i b l \<Longrightarrow> ls_outstanding (ls_step c False i b l) = 1 \<and>
           ls_pipe (ls_step c False i b l) = [ls_new_entry i] \<and>
           \<not> ls_valid_reg (ls_step c False i b l)"
    and "\<not> ls_taken c i b l \<Longrightarrow> ls_pipe (ls_step c False i b l) = ls_pipe l \<and>
           (ls_outstanding (ls_step c False i b l) = 1 \<or> ls_valid_reg (ls_step c False i b l) \<longrightarrow>
              ls_outstanding l = 1) \<and>
           (ls_outstanding l = 1 \<and> \<not> lp_misalign (ls_pipe l ! 0) \<and> \<not> lp_invalid_op (ls_pipe l ! 0) \<longrightarrow>
              ls_outstanding (ls_step c False i b l) = 1 \<or> ls_valid_reg (ls_step c False i b l))"
proof -
  obtain e where e: "ls_pipe l = [e]" using p(1) by (auto simp: length_Suc_conv)
  have t: "ls_taken c i b l \<Longrightarrow> ls_outstanding l = 0"
    using c r p(2) by (auto simp: ls_taken_def ls_busy_o_def ls_busy_def ls_capacity_busy_def
        split: if_splits)
  show "length (ls_pipe (ls_step c False i b l)) = 1"
    using c e by (simp add: ls_step_defs)
  show "ls_outstanding (ls_step c False i b l) \<le> 1"
    "ls_valid_reg (ls_step c False i b l) \<longrightarrow> ls_outstanding (ls_step c False i b l) = 0"
    using c r p t by (auto simp: ls_step_defs max_pipe_index_def)
  show "ls_taken c i b l \<Longrightarrow> ls_outstanding (ls_step c False i b l) = 1 \<and>
           ls_pipe (ls_step c False i b l) = [ls_new_entry i] \<and>
           \<not> ls_valid_reg (ls_step c False i b l)"
    using c r p e t by (auto simp: ls_step_defs max_pipe_index_def)
  show "\<not> ls_taken c i b l \<Longrightarrow> ls_pipe (ls_step c False i b l) = ls_pipe l \<and>
           (ls_outstanding (ls_step c False i b l) = 1 \<or> ls_valid_reg (ls_step c False i b l) \<longrightarrow>
              ls_outstanding l = 1) \<and>
           (ls_outstanding l = 1 \<and> \<not> lp_misalign (ls_pipe l ! 0) \<and> \<not> lp_invalid_op (ls_pipe l ! 0) \<longrightarrow>
              ls_outstanding (ls_step c False i b l) = 1 \<or> ls_valid_reg (ls_step c False i b l))"
    using c r p e by (auto simp: ls_step_defs max_pipe_index_def)
qed

text \<open>The shifter after an edge: it is about to deliver exactly when a shift was issued.\<close>

lemma exec_alu_inv_step:
  "al_busy_o (alu_step m False a u) = (m = Shift_Pipelined \<and> is_shift_funct3 (al_funct3_i a) \<and>
     al_en_i a \<and> \<not> sh_ready (al_shifter u))"
  "m = Shift_Pipelined \<Longrightarrow> sh_ready (al_shifter (alu_step m False a u)) =
     (is_shift_funct3 (al_funct3_i a) \<and> al_en_i a)"
  by (auto simp: alu_step_def alu_shift_busy_def alu_shifter_in_def shift_pipelined_ready_o_def
      shift_pipelined_step_def left_shift_pipelined_step_def)

lemma exec_inv_step:
  assumes c: "loadstore_outstanding c = 1" "registered_read_stage c"
    and inv: "exec_inv c s" and legal: "exec_legal c i s"
  shows "exec_inv c (exec_step c False i s)"
proof -
  let ?l = "ex_ls s" and ?s = "exec_step c False i s" and ?li = "exec_ls_in c i s"
  have p: "length (ls_pipe ?l) = 1" "ls_outstanding ?l \<le> 1" "ls_valid_reg ?l \<longrightarrow> ls_outstanding ?l = 0"
    using inv by (simp_all add: exec_inv_def)
  note ls = exec_ls_inv_step[OF c p, of ?li "ex_bus_i i", folded exec_step_fields(2)]
  show ?thesis
  proof (cases "exec_taken c i s")
    case True
    note excl = exec_legal_excl[OF legal True]
    note idle = exec_taken_idle[OF c inv True]
    note taken = exec_ls_taken[OF True]
    have alu: "al_busy_o (ex_alu ?s) = (shifter_mode c = Shift_Pipelined \<and> de_alu_cmd (ex_dec i) \<and>
        is_shift_funct3 (de_funct3_o (ex_dec i)))"
      "shifter_mode c = Shift_Pipelined \<Longrightarrow> sh_ready (al_shifter (ex_alu ?s)) = al_busy_o (ex_alu ?s)"
      using idle True by (auto simp: exec_step_fields exec_alu_inv_step exec_alu_in_def)
    have pend: "ex_load_pending ?s = (\<not> exec_wb_stage c \<and> de_load_cmd (ex_dec i))"
      "ex_shift_pending ?s = (\<not> exec_wb_stage c \<and> al_busy_o (ex_alu ?s))"
      unfolding alu using True idle by (auto simp: exec_step_fields)
    show ?thesis
    proof (cases "ls_taken c ?li (ex_bus_i i) ?l")
      case lt: True
      show ?thesis
        using ls(1-3) ls(4)[OF lt] lt taken pend alu excl
        by (auto simp: exec_inv_def ls_new_entry_def exec_ls_in_def)
    next
      case lt: False
      show ?thesis
        using ls(1-3) ls(5)[OF lt] lt taken pend alu idle(5)
        by (auto simp: exec_inv_def)
    qed
  next
    case False
    note nt = exec_ls_not_taken[OF False]
    have alu: "\<not> al_busy_o (ex_alu ?s)"
      "shifter_mode c = Shift_Pipelined \<Longrightarrow> \<not> sh_ready (al_shifter (ex_alu ?s))"
      using False by (auto simp: exec_step_fields exec_alu_inv_step exec_alu_in_def)
    have "shifter_mode c = Shift_Pipelined \<Longrightarrow> al_busy_o (ex_alu s) \<Longrightarrow> al_valid_o (exec_alu_out c i s)"
      using inv by (simp add: exec_inv_def exec_alu_out_def alu_comb_def alu_shift_valid_def Let_def
          shift_pipelined_ready_o_def shift_stage_of_def)
    then have "\<not> ex_shift_pending ?s"
      using False inv by (auto simp: exec_step_fields exec_inv_def split: if_splits)
    moreover have "ex_load_pending ?s = (ex_load_pending s \<and> ls_outstanding ?l = 1)"
      using False inv c by (auto simp: exec_step_fields exec_inv_def exec_ls_valid_def
          ls_valid_o_def write_pipe_index_def)
    ultimately show ?thesis
      using ls(1-3) ls(5)[OF nt] alu inv unfolding exec_inv_def by auto
  qed
qed

text \<open>The reachable states: resets and legal instruction streams.\<close>

inductive exec_reachable :: "bonfire_config \<Rightarrow> exec_state \<Rightarrow> bool" for c where
  reach_init: "exec_reachable c (exec_init c)"
| reach_reset: "exec_reachable c s \<Longrightarrow> exec_reachable c (exec_step c True i s)"
| reach_step: "exec_reachable c s \<Longrightarrow> exec_legal c i s \<Longrightarrow> exec_reachable c (exec_step c False i s)"

lemma exec_inv_reset:
  "loadstore_outstanding c = 1 \<Longrightarrow> exec_inv c (exec_step c True i s)"
  by (simp add: exec_inv_def exec_step_def exec_units_step_def ls_step_def ls_init_def
      alu_step_def alu_init_def shifter_init_def)

lemma exec_reachable_inv:
  assumes "exec_reachable c s" "loadstore_outstanding c = 1" "registered_read_stage c"
  shows "exec_inv c s"
  using assms
  by (induction rule: exec_reachable.induct)
    (auto intro: exec_inv_init exec_inv_reset exec_inv_step)

text \<open>The value of the source the four-stage pipeline would select.\<close>

definition exec_source_value :: "bonfire_config \<Rightarrow> exec_in \<Rightarrow> exec_state \<Rightarrow> xword" where
  "exec_source_value c i s =
     (case exec_wb_source c i s of
        Src_Jump \<Rightarrow> de_next_ip_o (ex_dec i)
      | Src_Load \<Rightarrow> exec_ls_result c i s
      | Src_Alu \<Rightarrow> al_res_o (exec_alu_out c i s)
      | Src_Csr \<Rightarrow> exec_csr_result c i s
      | Src_None \<Rightarrow> 0)"

lemma exec_alu_valid_cases:
  assumes "shifter_mode c \<noteq> Shift_Behavioral"
    and "al_valid_o (exec_alu_out c i s)"
  shows "de_alu_cmd (ex_dec i) \<and> exec_taken c i s \<or>
     shifter_mode c = Shift_Pipelined \<and> sh_ready (al_shifter (ex_alu s))"
  using assms
  by (cases "shifter_mode c")
    (auto simp: exec_alu_out_def alu_comb_def alu_shift_valid_def exec_alu_in_def Let_def
      shift_pipelined_ready_o_def shift_stage_of_def alu_shifter_in_def split: if_splits)

text \<open>
  One instruction at a time, and its own result. In every reachable state (one LSU slot,
  registered read stage, no behavioral shifter): an instruction is taken only when no shift and
  no load is under way; and whenever the three-stage pipeline asks for a register write, the
  value on its result bus, which is selected by the class of the current or the pending
  instruction, is the value of the unit that reports completion, as the four-stage pipeline
  selects it.
\<close>

theorem exec_result_routing:
  assumes reach: "exec_reachable c s" and c: "exec_config_ok c" "registered_read_stage c"
      "shifter_mode c \<noteq> Shift_Behavioral" "\<not> exec_wb_stage c"
    and legal: "exec_legal c i s"
  shows "(exec_taken c i s \<longrightarrow> \<not> ex_load_pending s \<and> \<not> ex_shift_pending s \<and>
            ls_outstanding (ex_ls s) = 0 \<and> \<not> exec_ls_valid c i s) \<and>
         (exec_reg_we_o c i s \<longrightarrow> exec_result_o c i s = exec_source_value c i s \<and>
            exec_valid_o c i s)"
proof -
  have m: "loadstore_outstanding c = 1" using c by (simp add: exec_config_ok_def)
  note inv = exec_reachable_inv[OF reach m c(2)]
  show ?thesis
  proof (cases "exec_taken c i s")
    case True
    note excl = exec_legal_excl[OF legal True]
    note idle = exec_taken_idle[OF m c(2) inv True]
    have "al_valid_o (exec_alu_out c i s) \<longrightarrow> de_alu_cmd (ex_dec i)"
      using exec_alu_valid_cases[OF c(3), of i s] idle(4) by blast
    moreover have "exec_csr_valid c i s \<longrightarrow> de_csr_cmd (ex_dec i)"
      by (simp add: exec_csr_valid_def csr_valid_o_def csr_taken_def exec_csr_in_def)
    ultimately show ?thesis
      using idle excl(3)
      by (auto simp: exec_result_o_def exec_source_value_def exec_wb_source_def exec_reg_we_o_def
          exec_valid_o_def)
  next
    case False
    have jump: "\<not> ej_jump_we (exec_jump_comb c i s)"
      using False by (simp add: exec_jump_comb_def no_jump_def Let_def)
    have csr: "\<not> exec_csr_valid c i s"
      using False by (simp add: exec_csr_valid_def csr_valid_o_def csr_taken_def exec_csr_in_def)
    have alu: "al_valid_o (exec_alu_out c i s) \<longrightarrow> ex_shift_pending s \<and> \<not> ex_load_pending s"
      using exec_alu_valid_cases[OF c(3), of i s] False inv c(4)
      by (auto simp: exec_inv_def split: if_splits)
    have ls: "ls_we_o c (ex_ls s) \<longrightarrow> ex_load_pending s \<and> exec_ls_valid c i s"
      using inv c m by (auto simp: exec_inv_def ls_we_o_def write_pipe_index_def
          exec_ls_valid_def ls_valid_o_def)
    have "exec_reg_we_o c i s \<longrightarrow> exec_result_o c i s = exec_source_value c i s \<and>
        exec_valid_o c i s"
      using jump csr alu ls
      by (simp add: exec_result_o_def exec_source_value_def exec_wb_source_def exec_reg_we_o_def
          exec_valid_o_def) blast
    then show ?thesis using False by blast
  qed
qed

lemma exec_result_routing_witness:
  "let d = decode_init\<lparr>de_valid_o := True, de_alu_cmd := True, de_rs1_immediate := True,
             de_rs2_immediate := True\<rparr>;
       i = \<lparr>ex_dec = d, ex_op1_i = 5, ex_op2_i = 7, ex_forward_we_i = False, ex_forward_rd_i = 0,
            ex_forward_data_i = 0, ex_hazard_i = False, ex_debug_flush_i = False,
            ex_progbuf_active_i = False,
            ex_bus_i = \<lparr>db_stall_i = False, db_ack_i = False, db_error_i = False, db_rd = 0\<rparr>,
            ex_debug_update_i = no_debug_update\<rparr>
   in \<not> ex_load_pending (exec_init default_config) \<and>
      exec_result_o default_config i (exec_init default_config) =
      exec_source_value default_config i (exec_init default_config)"
proof -
  define d where "d = decode_init\<lparr>de_valid_o := True, de_alu_cmd := True, de_rs1_immediate := True,
             de_rs2_immediate := True\<rparr>"
  define i where "i = \<lparr>ex_dec = d, ex_op1_i = 5, ex_op2_i = 7, ex_forward_we_i = False,
            ex_forward_rd_i = 0,
            ex_forward_data_i = 0, ex_hazard_i = False, ex_debug_flush_i = False,
            ex_progbuf_active_i = False,
            ex_bus_i = \<lparr>db_stall_i = False, db_ack_i = False, db_error_i = False, db_rd = 0\<rparr>,
            ex_debug_update_i = no_debug_update\<rparr>"
  have "decode_class Class_Alu d" by (simp add: d_def decode_init_def decode_class_def)
  then have "exec_legal default_config i (exec_init default_config)"
    by (auto simp: exec_legal_def i_def) (simp_all add: d_def decode_init_def)
  moreover have "exec_taken default_config i (exec_init default_config)"
    "exec_reg_we_o default_config i (exec_init default_config)"
    unfolding i_def d_def by code_simp+
  ultimately show ?thesis
    unfolding Let_def d_def[symmetric] i_def[symmetric]
    using exec_result_routing[OF reach_init, of default_config i]
    by (simp add: exec_config_ok_def exec_wb_stage_def)
qed

subsection \<open>The instructions of RV32I\<close>

text \<open>The ALU looks at \<open>funct7\<close> only for additions and right shifts.\<close>

lemma alu_comb_request:
  assumes "al_funct3_i x = alu_funct3 op" "al_op1_i x = a" "al_op2_i x = b" "al_en_i x"
    and "op \<in> {Op_Add, Op_Sub, Op_Srl, Op_Sra} \<longrightarrow> al_funct7_6_i x = (op = Op_Sub \<or> op = Op_Sra)"
  shows "alu_comb m x s = alu_comb m (alu_request op a b) s"
proof (cases "op \<in> {Op_Add, Op_Sub, Op_Srl, Op_Sra}")
  case True
  then have "x = alu_request op a b"
    using assms by (auto simp: alu_request_def alu_funct7_6_def)
  then show ?thesis by simp
next
  case False
  then have f3: "alu_funct3 op \<noteq> RV32_F3_ADD_SUB" "alu_funct3 op \<noteq> RV32_F3_SRL_SRA"
    by (cases op; simp)+
  have "alu_subtract x = alu_subtract (alu_request op a b)"
    using assms f3 by (simp add: alu_subtract_def alu_request_def)
  moreover have "alu_shifter_in x = alu_shifter_in (alu_request op a b)"
    using assms f3 by (simp add: alu_shifter_in_def alu_request_def)
  moreover have "behavioral_shift_out x = behavioral_shift_out (alu_request op a b)"
    using assms f3 by (simp add: behavioral_shift_out_def alu_request_def Let_def)
  ultimately show ?thesis
    using assms unfolding alu_comb_def alu_shift_valid_def alu_shifter_out_def
    by (cases m) (simp_all add: Let_def, simp_all add: alu_request_def)
qed

lemma exec_alu_result:
  assumes taken: "exec_taken c i s" and cmd: "de_alu_cmd (ex_dec i)"
    and f: "alu_function op (ex_dec i)"
    and m: "is_shift_op op \<longrightarrow> shifter_mode c = Shift_Comb"
      "\<not> (shifter_mode c = Shift_Pipelined \<and> sh_ready (al_shifter (ex_alu s)))"
  shows "al_res_o (exec_alu_out c i s) = isa_alu op (exec_op1 c i) (exec_op2 c i)"
    and "al_valid_o (exec_alu_out c i s)"
proof -
  have "exec_alu_out c i s =
      alu_comb (shifter_mode c) (alu_request op (exec_op1 c i) (exec_op2 c i)) (ex_alu s)"
    unfolding exec_alu_out_def
    using taken cmd f by (intro alu_comb_request) (auto simp: exec_alu_in_def alu_function_def)
  then show "al_res_o (exec_alu_out c i s) = isa_alu op (exec_op1 c i) (exec_op2 c i)"
    "al_valid_o (exec_alu_out c i s)"
    using alu_comb_nonshift[OF _ m(2)] alu_comb_shift[of op] m(1)
    by (cases "is_shift_op op"; simp)+
qed

text \<open>A branch leaves the ALU disabled, so it compares, and taking the branch is the ISA's
  decision.\<close>

lemma exec_branch_taken:
  assumes "exec_taken c i s" "\<not> de_alu_cmd (ex_dec i)" "de_funct3_o (ex_dec i) = branch_funct3 op"
  shows "exec_branch (ex_dec i) (exec_alu_out c i s) =
     no_jump\<lparr>ej_jump_dest := de_jump_dest_o (ex_dec i),
             ej_jump := isa_branch_taken op (exec_op1 c i) (exec_op2 c i)\<rparr>"
proof -
  have "\<not> al_en_i (exec_alu_in c i s)" using assms(2) by (simp add: exec_alu_in_def)
  then have "al_flag_ge (exec_alu_out c i s) = (sint (exec_op2 c i) \<le> sint (exec_op1 c i))"
    "al_flag_uge (exec_alu_out c i s) = (uint (exec_op2 c i) \<le> uint (exec_op1 c i))"
    "al_flag_equal (exec_alu_out c i s) = (exec_op1 c i = exec_op2 c i)"
    by (simp_all add: exec_alu_out_def alu_comb_def Let_def alu_subtract_def adder_ge adder_uge
        word_sle_eq word_le_def) (simp_all add: exec_alu_in_def)
  then show ?thesis
    using assms(3) by (cases op) (auto simp: exec_branch_def Let_def no_jump_def not_le)
qed

definition rv_is_shift :: "rv_instr \<Rightarrow> bool" where
  "rv_is_shift ins \<longleftrightarrow> (case ins of
     ShiftImm op rd rs1 sh \<Rightarrow> True | OpReg op rd rs1 rs2 \<Rightarrow> is_shift_op op | _ \<Rightarrow> False)"

text \<open>The operands the stage uses, given the register values \<open>a\<close> and \<open>b\<close>.\<close>

definition exec_operands :: "bonfire_config \<Rightarrow> exec_in \<Rightarrow> xword \<Rightarrow> xword \<Rightarrow> bool" where
  "exec_operands c i a b \<longleftrightarrow>
     exec_op1 c i = (if de_rs1_immediate (ex_dec i) then de_rs1_imm_value (ex_dec i) else a) \<and>
     exec_op2 c i = (if de_rs2_immediate (ex_dec i) then de_rs2_imm_value (ex_dec i) else b)"

lemma isa_alu_shift_imm:
  assumes "bv_slice 5 0 v = (shamt :: 5 word)"
  shows "isa_alu (shift_alu_op op) a v = isa_alu (shift_alu_op op) a (ucast shamt)"
proof -
  have "unat v mod 32 = unat shamt" using unat_shift_amount[of v] assms by simp
  moreover have "unat (ucast shamt :: xword) mod 32 = unat shamt"
    using unat_5_le[of shamt] by (simp add: unsigned_ucast_eq take_bit_nat_eq_self)
  ultimately show ?thesis by (cases op) simp_all
qed

lemma exec_compute_value:
  assumes idle: "\<not> (shifter_mode c = Shift_Pipelined \<and> sh_ready (al_shifter (ex_alu s)))"
    and taken: "exec_taken c i s" and dec: "decoded ins pc npc (ex_dec i)"
    and cls: "class_of ins = Class_Alu" and sh: "rv_is_shift ins \<longrightarrow> shifter_mode c = Shift_Comb"
    and ops: "exec_operands c i a b"
  shows "isa_compute ins pc a b = Some (al_res_o (exec_alu_out c i s)) \<and>
     al_valid_o (exec_alu_out c i s)"
proof -
  have cmd: "de_alu_cmd (ex_dec i)" using dec cls by (simp add: decoded_def decode_class_def)
  have dops: "decoded_operands ins pc (ex_dec i)" using dec by (simp add: decoded_def)
  note res = exec_alu_result[OF taken cmd _ _ idle]
  show ?thesis
  proof (cases ins)
    case (Lui rd imm)
    then show ?thesis using dops ops res[of Op_Add]
      by (simp add: imm_operands_def exec_operands_def is_shift_op_def)
  next
    case (Auipc rd imm)
    then show ?thesis using dops ops res[of Op_Add]
      by (simp add: imm_operands_def exec_operands_def is_shift_op_def add.commute)
  next
    case (OpImm op rd rs1 imm)
    have "\<not> is_shift_op (imm_alu_op op)" by (cases op) (simp_all add: is_shift_op_def)
    with OpImm show ?thesis using dops ops res[of "imm_alu_op op"]
      by (simp add: imm_operands_def exec_operands_def)
  next
    case (ShiftImm op rd rs1 shamt)
    then show ?thesis using dops ops sh res[of "shift_alu_op op"]
        isa_alu_shift_imm[of "de_rs2_imm_value (ex_dec i)" shamt op a]
      by (simp add: imm_operands_def exec_operands_def rv_is_shift_def)
  next
    case (OpReg op rd rs1 rs2)
    then show ?thesis using dops ops sh res[of op]
      by (simp add: imm_operands_def exec_operands_def rv_is_shift_def)
  qed (use cls in simp_all)
qed

lemma exec_instruction_lemma:
  assumes reach: "exec_reachable c s" and c: "exec_config_ok c" "registered_read_stage c"
      "shifter_mode c \<in> {Shift_Comb, Shift_Pipelined}"
    and taken: "exec_taken c i s" and dec: "decoded ins pc npc (ex_dec i)"
    and ops: "exec_operands c i a b"
    and cls: "class_of ins \<in> {Class_Alu, Class_Jal, Class_Jalr, Class_Branch}"
    and sh: "rv_is_shift ins \<longrightarrow> shifter_mode c = Shift_Comb"
    and even: "\<forall>rd rs1 imm. ins = Jalr rd rs1 imm \<longrightarrow> \<not> bit (a + imm_i imm) 0"
  shows "exec_valid_o c i s = (rv_dest ins \<noteq> None) \<and>
     exec_reg_we_o c i s = (rv_dest ins \<noteq> None) \<and>
     (\<forall>rd. rv_dest ins = Some rd \<longrightarrow> exec_rd_adr_o c i s = rd \<and>
        exec_source_value c i s = (case isa_compute ins pc a b of Some v \<Rightarrow> v | None \<Rightarrow> npc)) \<and>
     (\<not> exec_wb_stage c \<longrightarrow> rv_dest ins \<noteq> None \<longrightarrow>
        exec_result_o c i s = exec_source_value c i s) \<and>
     ej_jump (exec_jump_comb c i s) = (isa_target ins pc a b \<noteq> None) \<and>
     (\<forall>t. isa_target ins pc a b = Some t \<longrightarrow> ej_jump_dest (exec_jump_comb c i s) = t)"
proof -
  have m: "loadstore_outstanding c = 1" using c by (simp add: exec_config_ok_def)
  note idle = exec_taken_idle[OF m c(2) exec_reachable_inv[OF reach m c(2)] taken]
  have idle': "\<not> (shifter_mode c = Shift_Pipelined \<and> sh_ready (al_shifter (ex_alu s)))"
    using idle(4) by blast
  have cmds: "decode_class (class_of ins) (ex_dec i)" using dec by (simp add: decoded_def)
  have csr: "\<not> exec_csr_valid c i s"
    using cmds cls by (auto simp: exec_csr_valid_def csr_valid_o_def csr_taken_def exec_csr_in_def
        decode_class_def)
  have rd: "rv_dest ins = Some r \<Longrightarrow> exec_rd_adr_o c i s = r" for r
    using dec taken by (simp add: decoded_def exec_rd_adr_o_def)
  have alu: "al_valid_o (exec_alu_out c i s) \<longrightarrow> de_alu_cmd (ex_dec i)"
    using exec_alu_valid_cases[of c i s] c(3) idle' by auto
  note outs = exec_valid_o_def exec_reg_we_o_def exec_source_value_def exec_wb_source_def
    exec_result_o_def
  consider "class_of ins = Class_Alu" | "class_of ins = Class_Jal" | "class_of ins = Class_Jalr"
    | "class_of ins = Class_Branch" using cls by blast
  then show ?thesis
  proof cases
    case 1
    note v = exec_compute_value[OF idle' taken dec 1 sh ops]
    have "exec_jump_comb c i s = no_jump"
      using cmds 1 by (simp add: exec_jump_comb_def decode_class_def Let_def)
    moreover have "rv_dest ins \<noteq> None" "isa_target ins pc a b = None" using 1 by (cases ins; simp)+
    ultimately show ?thesis
      using v idle csr rd cmds 1 by (auto simp: outs no_jump_def decode_class_def)
  next
    case 2
    then obtain r ofs where i: "ins = Jal r ofs" by (cases ins) auto
    have "exec_jump_comb c i s = no_jump\<lparr>ej_jump_dest := pc + ofs_j ofs, ej_jump := True,
        ej_jump_we := True\<rparr>"
      using dec taken by (simp add: i decoded_def exec_jump_comb_def decode_class_def Let_def)
    moreover have "de_next_ip_o (ex_dec i) = npc" using dec by (simp add: decoded_def)
    ultimately show ?thesis using rd by (simp add: i outs)
  next
    case 3
    then obtain r r1 imm where i: "ins = Jalr r r1 imm" by (cases ins) auto
    have d: "de_alu_cmd (ex_dec i)" "alu_function Op_Add (ex_dec i)"
      "imm_operands None (Some (imm_i imm)) (ex_dec i)"
      using dec by (simp_all add: i decoded_def decode_class_def)
    have "al_res_o (exec_alu_out c i s) = a + imm_i imm"
      using exec_alu_result[OF taken d(1,2)] idle' d(3) ops
      by (simp add: is_shift_op_def exec_operands_def imm_operands_def)
    moreover have "exec_jump_comb c i s = no_jump\<lparr>ej_jump_dest := al_res_o (exec_alu_out c i s),
        ej_jump := True, ej_jump_we := True\<rparr>"
      using dec taken by (simp add: i decoded_def exec_jump_comb_def decode_class_def Let_def)
    moreover have "de_next_ip_o (ex_dec i) = npc" using dec by (simp add: decoded_def)
    moreover have "(a + imm_i imm) AND NOT 1 = a + imm_i imm"
      using even i by (intro bv_eqI) (auto simp: bit_and_iff bit_not_iff bit_1_iff intro!: gr0I)
    ultimately show ?thesis using rd by (simp add: i outs)
  next
    case 4
    then obtain bop r1 r2 ofs where i: "ins = Branch bop r1 r2 ofs" by (cases ins) auto
    have d: "\<not> de_alu_cmd (ex_dec i)" "de_funct3_o (ex_dec i) = branch_funct3 bop"
      "imm_operands None None (ex_dec i)" "de_jump_dest_o (ex_dec i) = pc + ofs_b ofs"
      using dec by (simp_all add: i decoded_def decode_class_def)
    have "exec_jump_comb c i s = no_jump\<lparr>ej_jump_dest := pc + ofs_b ofs,
        ej_jump := isa_branch_taken bop a b\<rparr>"
      using dec taken exec_branch_taken[OF taken d(1,2)] d(3,4) ops
      by (simp add: i decoded_def exec_jump_comb_def decode_class_def Let_def exec_operands_def
          imm_operands_def)
    then show ?thesis using alu d(1) idle csr by (simp add: i outs no_jump_def)
  qed
qed

text \<open>
  C3: The execute stage implements the register computations (immediate and register forms, LUI
  and AUIPC), JAL, JALR and the branches of RV32I; nothing is said here of loads, stores, CSR
  accesses, fences and system instructions. The read stage is registered and the shifter is the
  combinational or the pipelined one, with the pipelined one the instruction is not a shift; a
  JALR target is even, since the stage does not clear its low bit. When the stage, in a reachable
  state, takes such an instruction from a correctly decoded register with its operands, then in
  this cycle the completion, the register write and its destination, the value written (the
  result of the computation, or the link address), whether the program counter is redirected and
  where to are those of the instruction.
\<close>

theorem exec_instruction:
  assumes reach: "exec_reachable c s" and c: "exec_config_ok c" "registered_read_stage c"
      "shifter_mode c \<in> {Shift_Comb, Shift_Pipelined}"
    and taken: "exec_taken c i s" and dec: "decoded ins pc npc (ex_dec i)"
    and ops: "exec_operands c i a b"
    and cls: "class_of ins \<in> {Class_Alu, Class_Jal, Class_Jalr, Class_Branch}"
    and sh: "rv_is_shift ins \<longrightarrow> shifter_mode c = Shift_Comb"
    and even: "\<forall>rd rs1 imm. ins = Jalr rd rs1 imm \<longrightarrow> \<not> bit (a + imm_i imm) 0"
  shows "exec_valid_o c i s = (rv_dest ins \<noteq> None) \<and>
     exec_reg_we_o c i s = (rv_dest ins \<noteq> None) \<and>
     (\<forall>rd. rv_dest ins = Some rd \<longrightarrow> exec_rd_adr_o c i s = rd \<and>
        exec_source_value c i s = (case isa_compute ins pc a b of Some v \<Rightarrow> v | None \<Rightarrow> npc)) \<and>
     (\<not> exec_wb_stage c \<longrightarrow> rv_dest ins \<noteq> None \<longrightarrow>
        exec_result_o c i s = exec_source_value c i s) \<and>
     ej_jump (exec_jump_comb c i s) = (isa_target ins pc a b \<noteq> None) \<and>
     (\<forall>t. isa_target ins pc a b = Some t \<longrightarrow> ej_jump_dest (exec_jump_comb c i s) = t)"
  using exec_instruction_lemma[OF assms] .

lemma exec_instruction_witness:
  "let di = \<lparr>de_en_i = True, de_stall_i = False, de_kill_i = False,
             de_word_i = rv_encode (Jal 1 0x400), de_current_ip_i = 0x100, de_next_ip_i = 0x104,
             de_rs1_data_i = 0, de_rs2_data_i = 0\<rparr>;
       i = \<lparr>ex_dec = decode_accept di decode_init, ex_op1_i = 0, ex_op2_i = 0,
            ex_forward_we_i = False, ex_forward_rd_i = 0, ex_forward_data_i = 0,
            ex_hazard_i = False, ex_debug_flush_i = False, ex_progbuf_active_i = False,
            ex_bus_i = \<lparr>db_stall_i = False, db_ack_i = False, db_error_i = False, db_rd = 0\<rparr>,
            ex_debug_update_i = no_debug_update\<rparr>;
       s = exec_init default_config
   in exec_reg_we_o default_config i s \<and> exec_rd_adr_o default_config i s = 1 \<and>
      exec_result_o default_config i s = 0x104 \<and>
      ej_jump_dest (exec_jump_comb default_config i s) = 0x100 + ofs_j 0x400"
proof -
  define di where "di = \<lparr>de_en_i = True, de_stall_i = False, de_kill_i = False,
             de_word_i = rv_encode (Jal 1 0x400), de_current_ip_i = 0x100, de_next_ip_i = 0x104,
             de_rs1_data_i = 0, de_rs2_data_i = 0\<rparr>"
  define i where "i = \<lparr>ex_dec = decode_accept di decode_init, ex_op1_i = 0, ex_op2_i = 0,
            ex_forward_we_i = False, ex_forward_rd_i = 0, ex_forward_data_i = 0,
            ex_hazard_i = False, ex_debug_flush_i = False, ex_progbuf_active_i = False,
            ex_bus_i = \<lparr>db_stall_i = False, db_ack_i = False, db_error_i = False, db_rd = 0\<rparr>,
            ex_debug_update_i = no_debug_update\<rparr>"
  have dec: "decoded (Jal 1 0x400) 0x100 0x104 (ex_dec i)"
    using decode_accept_decoded[of di "Jal 1 0x400" decode_init] by (simp add: i_def di_def)
  have taken: "exec_taken default_config i (exec_init default_config)"
    using dec by (simp add: exec_taken_def decoded_def exec_busy_def exec_init_def alu_init_def
        csr_busy_o_def ls_busy_o_def ls_busy_def ls_capacity_busy_def ls_init_def
        ls_pipe_empty_def write_pipe_index_def) (simp add: i_def)
  have ops: "exec_operands default_config i
      (exec_op1 default_config i) (exec_op2 default_config i)"
    if "\<not> de_rs1_immediate (ex_dec i)" "\<not> de_rs2_immediate (ex_dec i)"
    using that by (simp add: exec_operands_def)
  have imm: "\<not> de_rs1_immediate (ex_dec i)" "\<not> de_rs2_immediate (ex_dec i)"
    by (simp_all add: i_def di_def decode_accept_defs)
  show ?thesis
    unfolding Let_def di_def[symmetric] i_def[symmetric]
    using exec_instruction[OF reach_init _ _ _ taken dec ops[OF imm]]
    by (simp add: exec_config_ok_def exec_wb_stage_def rv_is_shift_def)
qed

subsection \<open>Traps\<close>

lemma csr_selected_disabled:
  "\<not> cs_en_i i \<Longrightarrow> \<not> sel_csr_we (csr_selected c i s)"
  by (simp add: csr_selected_def Let_def csr_taken_def if_distrib[of sel_csr_we]
      option.case_distrib[of sel_csr_we] cong: if_cong option.case_cong)
    (auto split: option.splits)

lemma exec_trap_csrs:
  assumes "\<not> de_csr_cmd (ex_dec i)"
  shows "cs_trap (ex_csr (exec_step c False i s)) =
     trap_csr_update (exec_trap_update c i s) (cs_trap (ex_csr s))"
proof -
  have "\<not> sel_csr_we (csr_selected c (exec_csr_in c i s) (ex_csr s))"
    by (rule csr_selected_disabled) (simp add: exec_csr_in_def assms)
  then show ?thesis
    unfolding exec_step_fields(3) csr_step_def trap_csr_step_def Let_def by simp
qed

text \<open>When neither the debug module nor a program buffer intercepts the instruction.\<close>

definition exec_no_debug :: "bonfire_config \<Rightarrow> exec_in \<Rightarrow> exec_state \<Rightarrow> bool" where
  "exec_no_debug c i s \<longleftrightarrow> \<not> enableDebugModule c \<or>
     \<not> dc_ebreakm (cs_debug (ex_csr s)) \<and> \<not> ex_progbuf_active_i i"

text \<open>
  C13: Traps. A taken ECALL or EBREAK redirects to the trap vector and on the next edge records
  its own address and cause, saves the interrupt enable and clears it, and leaves the trap
  value alone; MRET redirects to the saved address and restores the interrupt enable. With the
  debug module enabled and \<open>dcsr.ebreakm\<close> set, EBREAK instead reports a debug break at its
  address and neither redirects nor changes a trap register; inside a program buffer ECALL is
  reported as an exception and changes nothing.
\<close>

theorem exec_trap:
  assumes taken: "exec_taken c i s" and dec: "decoded ins pc npc (ex_dec i)"
  shows "let s' = exec_step c False i s; j = exec_jump_comb c i s;
             old = csr_value c (ex_csr s); new = csr_value c (ex_csr s')
     in (ins \<in> {Ecall, Ebreak} \<and> exec_no_debug c i s \<longrightarrow>
           ej_jump j \<and> ej_jump_dest j = old Mtvec \<and> \<not> ej_jump_we j \<and>
           new Mepc = pc AND NOT 3 \<and> new Mcause = (if ins = Ebreak then 3 else 0xb) \<and>
           new Mtval = old Mtval \<and> \<not> tc_mie (cs_trap (ex_csr s')) \<and>
           tc_mpie (cs_trap (ex_csr s')) = tc_mie (cs_trap (ex_csr s))) \<and>
        (ins = Mret \<longrightarrow>
           ej_jump j \<and> ej_jump_dest j = old Mepc \<and> \<not> ej_jump_we j \<and>
           tc_mie (cs_trap (ex_csr s')) = tc_mpie (cs_trap (ex_csr s))) \<and>
        (ins = Ebreak \<and> enableDebugModule c \<and> dc_ebreakm (cs_debug (ex_csr s)) \<longrightarrow>
           exec_debug_ebreak_o c i s \<and> exec_debug_ebreak_pc_o i = pc \<and> \<not> ej_jump j \<and>
           cs_trap (ex_csr s') = cs_trap (ex_csr s)) \<and>
        (ins = Ecall \<and> enableDebugModule c \<and> ex_progbuf_active_i i \<longrightarrow>
           exec_progbuf_exception c i s \<and> \<not> ej_jump j \<and>
           cs_trap (ex_csr s') = cs_trap (ex_csr s))"
proof (cases "class_of ins = Class_Sys")
  case True
  then have d: "\<not> de_csr_cmd (ex_dec i)" "\<not> de_branch_cmd (ex_dec i)" "\<not> de_jump_cmd (ex_dec i)"
      "\<not> de_jumpr_cmd (ex_dec i)" "de_sys_cmd (ex_dec i)" "de_mepc_o (ex_dec i) = pc"
    using dec by (simp_all add: decoded_def decode_class_def)
  have f: "ins = Ecall \<Longrightarrow> de_priv_funct_12 (ex_dec i) = 0"
    "ins = Ebreak \<Longrightarrow> de_priv_funct_12 (ex_dec i) = 1"
    "ins = Mret \<Longrightarrow> de_priv_funct_12 (ex_dec i) = 0x302"
    using dec by (auto simp: decoded_def)
  have j: "exec_jump_comb c i s = exec_system (enableDebugModule c \<and> ex_progbuf_active_i i)
      (enableDebugModule c \<and> dc_ebreakm (cs_debug (ex_csr s))) (ex_dec i) (cs_trap (ex_csr s))"
    using taken d by (simp add: exec_jump_comb_def Let_def)
  note t = exec_trap_csrs[OF d(1), of c s]
  let ?t = "cs_trap (ex_csr s)" and ?t' = "cs_trap (ex_csr (exec_step c False i s))"
  have A: "exec_jump_comb c i s = no_jump\<lparr>ej_jump_dest := push_bit 2 (ucast (tc_mtvec ?t)),
        ej_jump := True, ej_trap_enter := True, ej_we_mcause := True, ej_we_mepc := True\<rparr>"
    if "ins \<in> {Ecall, Ebreak}" "exec_no_debug c i s"
    unfolding j exec_system_def Let_def csr_views using that f by (auto simp: exec_no_debug_def)
  have A': "?t' = ?t\<lparr>tc_mcause := (if ins = Ebreak then 3 else 0xb), tc_mcause_irq := False,
        tc_mepc := bv_slice 32 2 pc, tc_mpie := tc_mie ?t, tc_mie := False\<rparr>"
    if "ins \<in> {Ecall, Ebreak}" "exec_no_debug c i s"
    using that f(1,2) unfolding t exec_trap_update_def A[OF that] Let_def d(6)
    by (auto simp: trap_csr_update_def no_jump_def)
  have B: "exec_jump_comb c i s = no_jump\<lparr>ej_jump_dest := push_bit 2 (ucast (tc_mepc ?t)),
        ej_jump := True, ej_trap_exit := True\<rparr>" if "ins = Mret"
    unfolding j exec_system_def Let_def csr_views f(3)[OF that] by simp
  have B': "?t' = ?t\<lparr>tc_mie := tc_mpie ?t\<rparr>" if "ins = Mret"
    unfolding t exec_trap_update_def B[OF that] Let_def
    by (simp add: trap_csr_update_def no_jump_def)
  have C: "exec_jump_comb c i s = no_jump\<lparr>ej_debug_ebreak := True\<rparr>"
    if "ins = Ebreak" "enableDebugModule c" "dc_ebreakm (cs_debug (ex_csr s))"
    unfolding j exec_system_def Let_def f(2)[OF that(1)] using that by simp
  have D: "exec_jump_comb c i s = no_jump"
    if "ins = Ecall" "enableDebugModule c" "ex_progbuf_active_i i"
    unfolding j exec_system_def Let_def f(1)[OF that(1)] using that by simp
  have CD: "?t' = ?t" if "exec_jump_comb c i s \<in> {no_jump, no_jump\<lparr>ej_debug_ebreak := True\<rparr>}"
    using that unfolding t exec_trap_update_def Let_def
    by (auto simp: trap_csr_update_def no_jump_def)
  have pc: "push_bit 2 (ucast (bv_slice 32 2 pc :: ip_word)) = pc AND NOT 3" by (rule csr_put_mask)
  show ?thesis
    unfolding Let_def csr_value.simps
  proof (intro conjI impI; (elim conjE)?)
    show "exec_progbuf_exception c i s"
      if "ins = Ecall" "enableDebugModule c" "ex_progbuf_active_i i"
      using that f(1) d(5) taken by (simp add: exec_progbuf_exception_def)
  qed (use A A' B B' C D CD pc d(6) in \<open>auto simp: no_jump_def exec_debug_ebreak_o_def
      exec_debug_ebreak_pc_o_def\<close>)
next
  case False
  then show ?thesis by (auto simp: Let_def)
qed

lemma exec_trap_witness:
  "let d = decode_init\<lparr>de_valid_o := True, de_sys_cmd := True, de_mepc_o := 0x204,
             de_next_ip_o := 0x208\<rparr>;
       i = \<lparr>ex_dec = d, ex_op1_i = 0, ex_op2_i = 0, ex_forward_we_i = False, ex_forward_rd_i = 0,
            ex_forward_data_i = 0, ex_hazard_i = False, ex_debug_flush_i = False,
            ex_progbuf_active_i = False,
            ex_bus_i = \<lparr>db_stall_i = False, db_ack_i = False, db_error_i = False, db_rd = 0\<rparr>,
            ex_debug_update_i = no_debug_update\<rparr>;
       s' = exec_step default_config False i (exec_init default_config)
   in csr_value default_config (ex_csr s') Mepc = 0x204 \<and>
      csr_value default_config (ex_csr s') Mcause = 0xb"
proof -
  define d where "d = decode_init\<lparr>de_valid_o := True, de_sys_cmd := True, de_mepc_o := 0x204,
             de_next_ip_o := 0x208\<rparr>"
  define i where "i = \<lparr>ex_dec = d, ex_op1_i = 0, ex_op2_i = 0, ex_forward_we_i = False,
            ex_forward_rd_i = 0, ex_forward_data_i = 0, ex_hazard_i = False,
            ex_debug_flush_i = False, ex_progbuf_active_i = False,
            ex_bus_i = \<lparr>db_stall_i = False, db_ack_i = False, db_error_i = False, db_rd = 0\<rparr>,
            ex_debug_update_i = no_debug_update\<rparr>"
  have "decoded Ecall 0x204 0x208 (ex_dec i)"
    by (simp add: i_def d_def decode_init_def decoded_def decode_class_def)
  moreover have "exec_taken default_config i (exec_init default_config)"
    unfolding i_def d_def by code_simp
  ultimately show ?thesis
    unfolding Let_def d_def[symmetric] i_def[symmetric]
    using exec_trap[where c = default_config and i = i and s = "exec_init default_config" and
        ins = Ecall and pc = "0x204" and npc = "0x208"]
    by (simp add: exec_no_debug_def Let_def)
qed

subsection \<open>A load with an illegal width\<close>

text \<open>A concrete run: a load with the unassigned function code 3, its acknowledge, an idle
  cycle, and then an addition of 5 and 7.\<close>

definition illegal_load_run :: "xword \<Rightarrow> exec_state" where
  "illegal_load_run data =
     (let mk = (\<lambda>d b. \<lparr>ex_dec = d, ex_op1_i = 5, ex_op2_i = 7, ex_forward_we_i = False,
            ex_forward_rd_i = 0, ex_forward_data_i = 0, ex_hazard_i = False,
            ex_debug_flush_i = False, ex_progbuf_active_i = False, ex_bus_i = b,
            ex_debug_update_i = no_debug_update\<rparr>);
          quiet = \<lparr>db_stall_i = False, db_ack_i = False, db_error_i = False, db_rd = 0\<rparr>;
          load = decode_init\<lparr>de_valid_o := True, de_load_cmd := True, de_funct3_o := 3\<rparr>
      in exec_step default_config False (mk decode_init (quiet\<lparr>db_ack_i := True, db_rd := data\<rparr>))
           (exec_step default_config False (mk load quiet) (exec_init default_config)))"

text \<open>
  After a load with an illegal width the next result is lost. The load is issued on the
  bus and its acknowledge frees the LSU without a completion, so the stage still remembers a
  pending load; the addition taken next asks for its register write with the LSU's value on
  the result bus instead of the sum.
\<close>

theorem exec_illegal_load_stale:
  "let s = illegal_load_run 0xdead;
       i = \<lparr>ex_dec = decode_init\<lparr>de_valid_o := True, de_alu_cmd := True, de_rd_adr_o := 3\<rparr>,
            ex_op1_i = 5, ex_op2_i = 7, ex_forward_we_i = False, ex_forward_rd_i = 0,
            ex_forward_data_i = 0, ex_hazard_i = False, ex_debug_flush_i = False,
            ex_progbuf_active_i = False,
            ex_bus_i = \<lparr>db_stall_i = False, db_ack_i = False, db_error_i = False, db_rd = 0\<rparr>,
            ex_debug_update_i = no_debug_update\<rparr>
   in exec_taken default_config i s \<and> exec_reg_we_o default_config i s \<and>
      exec_rd_adr_o default_config i s = 3 \<and>
      al_res_o (exec_alu_out default_config i s) = 12 \<and>
      exec_result_o default_config i s = 0xdead"
  by code_simp

end
