(* ===== verification/Regfile.thy ===== *)
theory Regfile
  imports Config
begin

text \<open>
  The register file (\<open>rtl/regfile.py\<close>): 32 registers with two synchronous read ports and one
  write port, register 0 reading as zero, and the collision registers that forward a value
  written at the very edge at which it is read. The contract the pipelines rely on is the
  locale \<open>sync_read_port\<close>: after every edge the port shows the architectural value of the
  register that was addressed, the write of that edge included. Both ports interpret it.
\<close>

subsection \<open>Signals and registers\<close>

record regfile_in =
  rf_ra_a :: regno
  rf_ra_b :: regno
  rf_wa :: regno
  rf_we :: bool
  rf_wd :: xword

record regfile_state =
  rf_registers :: "regno \<Rightarrow> xword"
  rf_read_a :: xword
  rf_read_b :: xword
  rf_wdata_reg :: xword
  rf_collision_a :: bool
  rf_collision_b :: bool

definition regfile_init :: regfile_state where
  "regfile_init = \<lparr>rf_registers = (\<lambda>_. 0), rf_read_a = 0, rf_read_b = 0, rf_wdata_reg = 0,
     rf_collision_a = False, rf_collision_b = False\<rparr>"

subsection \<open>The processes\<close>

definition regfile_read :: "regfile_in \<Rightarrow> regfile_state \<Rightarrow> regfile_state \<Rightarrow> regfile_state" where
  "regfile_read i s n = n\<lparr>
     rf_read_a := (if rf_ra_a i \<noteq> 0 then rf_registers s (rf_ra_a i) else 0),
     rf_read_b := (if rf_ra_b i \<noteq> 0 then rf_registers s (rf_ra_b i) else 0)\<rparr>"

definition regfile_write :: "regfile_in \<Rightarrow> regfile_state \<Rightarrow> regfile_state \<Rightarrow> regfile_state" where
  "regfile_write i s n =
     (if rf_wa i \<noteq> 0 \<and> rf_we i
      then n\<lparr>rf_registers := (rf_registers s)(rf_wa i := rf_wd i)\<rparr> else n)"

definition regfile_collision ::
  "regfile_in \<Rightarrow> regfile_state \<Rightarrow> regfile_state \<Rightarrow> regfile_state" where
  "regfile_collision i s n =
     (let n1 = (if rf_we i then n\<lparr>rf_wdata_reg := rf_wd i\<rparr> else n) in
      n1\<lparr>rf_collision_a := (rf_we i \<and> rf_wa i = rf_ra_a i \<and> rf_ra_a i \<noteq> 0),
         rf_collision_b := (rf_we i \<and> rf_wa i = rf_ra_b i \<and> rf_ra_b i \<noteq> 0)\<rparr>)"

definition regfile_step :: "regfile_in \<Rightarrow> regfile_state \<Rightarrow> regfile_state" where
  "regfile_step i s = regfile_collision i s (regfile_write i s (regfile_read i s s))"

definition regfile_rd_a :: "regfile_state \<Rightarrow> xword" where
  "regfile_rd_a s = (if rf_collision_a s then rf_wdata_reg s else rf_read_a s)"

definition regfile_rd_b :: "regfile_state \<Rightarrow> xword" where
  "regfile_rd_b s = (if rf_collision_b s then rf_wdata_reg s else rf_read_b s)"

subsection \<open>The contract of a read port\<close>

text \<open>The architectural registers, and the write an edge performs on them.\<close>

definition regfile_arch :: "regfile_state \<Rightarrow> regno \<Rightarrow> xword" where
  "regfile_arch s r = (if r = 0 then 0 else rf_registers s r)"

definition regfile_write_of :: "regfile_in \<Rightarrow> (regno \<times> xword) option" where
  "regfile_write_of i = (if rf_we i then Some (rf_wa i, rf_wd i) else None)"

text \<open>An architectural register write: register 0 swallows it.\<close>

definition write_reg :: "(regno \<times> xword) option \<Rightarrow> (regno \<Rightarrow> xword) \<Rightarrow> regno \<Rightarrow> xword" where
  "write_reg w R = (case w of None \<Rightarrow> R | Some (d, v) \<Rightarrow> if d = 0 then R else R(d := v))"

lemma write_reg_None [simp]: "write_reg None R = R"
  by (simp add: write_reg_def)

lemma write_reg_Some: "write_reg (Some (d, v)) R r = (if d \<noteq> 0 \<and> r = d then v else R r)"
  by (simp add: write_reg_def)

locale sync_read_port =
  fixes step :: "'i \<Rightarrow> 's \<Rightarrow> 's"
    and arch :: "'s \<Rightarrow> regno \<Rightarrow> xword"
    and addr :: "'i \<Rightarrow> regno"
    and wr :: "'i \<Rightarrow> (regno \<times> xword) option"
    and out :: "'s \<Rightarrow> xword"
  assumes arch_zero: "arch s 0 = 0"
    and arch_step: "arch (step i s) = write_reg (wr i) (arch s)"
    and out_step: "out (step i s) = arch (step i s) (addr i)"
begin

text \<open>The architectural registers after a run are the writes of the run in order.\<close>

lemma arch_run: "arch (clocked_run step is s) = fold (\<lambda>i. write_reg (wr i)) is (arch s)"
  by (induction "is" arbitrary: s) (simp_all add: arch_step)

text \<open>A read returns the last value written to the register, however long ago.\<close>

lemma read_after_run:
  "out (clocked_run step (is @ [i]) s) =
     fold (\<lambda>i. write_reg (wr i)) (is @ [i]) (arch s) (addr i)"
proof -
  have "out (clocked_run step (is @ [i]) s) = out (step i (clocked_run step is s))"
    by simp
  also have "\<dots> = arch (clocked_run step (is @ [i]) s) (addr i)"
    by (simp add: out_step)
  finally show ?thesis by (simp only: arch_run)
qed

text \<open>Writes to other registers in between do not matter.\<close>

lemma fold_other:
  assumes "\<forall>i\<in>set is. \<forall>v. wr i \<noteq> Some (d, v)"
  shows "fold (\<lambda>i. write_reg (wr i)) is R d = R d"
  using assms
proof (induction "is" arbitrary: R)
  case (Cons i "is")
  have "write_reg (wr i) R d = R d"
    using Cons.prems by (auto simp: write_reg_def split: option.splits)
  then show ?case using Cons by simp
qed simp

lemma write_then_read:
  assumes "wr i = Some (d, v)" "d \<noteq> 0" "addr j = d"
    and "\<forall>k\<in>set (is @ [j]). \<forall>u. wr k \<noteq> Some (d, u)"
  shows "out (clocked_run step (i # is @ [j]) s) = v"
proof -
  have "out (clocked_run step (i # is @ [j]) s) =
      fold (\<lambda>i. write_reg (wr i)) (is @ [j]) (write_reg (wr i) (arch s)) d"
    using read_after_run[of "i # is" j s] assms(3) by simp
  also have "\<dots> = write_reg (wr i) (arch s) d"
    using assms(4) by (rule fold_other)
  finally show ?thesis using assms(1,2) by (simp add: write_reg_Some)
qed

lemma zero_register: "addr i = 0 \<Longrightarrow> out (step i s) = 0"
  by (simp add: out_step arch_zero)

end

lemmas regfile_step_defs =
  regfile_step_def regfile_read_def regfile_write_def regfile_collision_def Let_def

lemma regfile_registers_step:
  "rf_registers (regfile_step i s) =
     (if rf_wa i \<noteq> 0 \<and> rf_we i then (rf_registers s)(rf_wa i := rf_wd i) else rf_registers s)"
  by (simp add: regfile_step_defs)

lemma regfile_arch_step:
  "regfile_arch (regfile_step i s) = write_reg (regfile_write_of i) (regfile_arch s)"
  by (rule ext) (simp add: regfile_arch_def regfile_registers_step regfile_write_of_def
      write_reg_def)

lemma regfile_rd_step:
  "regfile_rd_a (regfile_step i s) = regfile_arch (regfile_step i s) (rf_ra_a i)"
  "regfile_rd_b (regfile_step i s) = regfile_arch (regfile_step i s) (rf_ra_b i)"
  by (auto simp: regfile_rd_a_def regfile_rd_b_def regfile_arch_def regfile_step_defs)

interpretation port_a: sync_read_port regfile_step regfile_arch rf_ra_a regfile_write_of
  regfile_rd_a
  by unfold_locales (simp_all add: regfile_arch_step regfile_rd_step regfile_arch_def)

interpretation port_b: sync_read_port regfile_step regfile_arch rf_ra_b regfile_write_of
  regfile_rd_b
  by unfold_locales (simp_all add: regfile_arch_step regfile_rd_step regfile_arch_def)

subsection \<open>What the file promises\<close>

text \<open>
  From any state and over any sequence of clock edges, both read ports show after the last
  edge the value that the sequence of architectural register writes (in order, the write of the
  last edge included, writes to register 0 discarded) leaves in the register addressed at that
  edge: the collision logic makes the synchronous file read its own writes.
\<close>

theorem regfile_reads_architectural:
  "regfile_rd_a (clocked_run regfile_step (is @ [i]) s) =
     fold (\<lambda>i. write_reg (regfile_write_of i)) (is @ [i]) (regfile_arch s) (rf_ra_a i) \<and>
   regfile_rd_b (clocked_run regfile_step (is @ [i]) s) =
     fold (\<lambda>i. write_reg (regfile_write_of i)) (is @ [i]) (regfile_arch s) (rf_ra_b i)"
  by (intro conjI port_a.read_after_run port_b.read_after_run)

end
