(* ===== verification/Fetch.thy ===== *)
theory Fetch
  imports Config
begin

text \<open>
  The instruction fetch unit (\<open>rtl/fetch.py\<close>): the instruction pointer, the two-word buffer
  that absorbs a stall of the decode stage, and the redirection by a jump. The unit is proved
  against an abstract fetcher that only knows the next program counter: on every instruction
  bus with at most one request unanswered, whatever it stalls and however long its answers take,
  the words handed to the decode stage are those at the consecutive addresses from the last jump
  on, and the unit gets on, except where a jump meets a stalled request.

  The instruction pointer is an \<open>intbv\<close> of 32 bits in the sources, so counting past the last
  address raises; \<open>fetch_step\<close> is \<open>None\<close> there. The two-element and three-element buffers
  \<open>current_word\<close> and \<open>current_ip\<close> are only indexed by constants and become one field per
  element.
\<close>

subsection \<open>Signals and registers\<close>

record fetch_in =
  fe_stall_i :: bool
  fe_jump_i :: bool
  fe_jump_dest_i :: xword
  fe_ibus_stall_i :: bool
  fe_ibus_ack_i :: bool
  fe_ibus_db_rd :: xword

record fetch_state =
  fe_ip :: xword
  fe_busy :: bool
  fe_valid :: bool
  fe_jump_taken :: bool
  fe_run :: bool
  fe_word0 :: xword
  fe_word1 :: xword
  fe_ip0 :: xword
  fe_ip1 :: xword
  fe_ip2 :: xword
  fe_outstanding :: bool

definition fetch_init :: "bonfire_config \<Rightarrow> fetch_state" where
  "fetch_init c = \<lparr>fe_ip = reset_address c, fe_busy = False, fe_valid = False,
     fe_jump_taken = False, fe_run = False, fe_word0 = 0, fe_word1 = 0, fe_ip0 = 0, fe_ip1 = 0,
     fe_ip2 = 0, fe_outstanding = False\<rparr>"

subsection \<open>Combinational outputs\<close>

definition fetch_new_jump :: "fetch_in \<Rightarrow> fetch_state \<Rightarrow> bool" where
  "fetch_new_jump i s = (fe_jump_i i \<and> \<not> fe_jump_taken s)"

definition fetch_en :: "fetch_in \<Rightarrow> fetch_state \<Rightarrow> bool" where
  "fetch_en i s \<longleftrightarrow> \<not> fe_busy s \<and> fe_run s \<and> \<not> fe_stall_i i \<and> \<not> fetch_new_jump i s"

definition fetch_ibus_adr_o :: "fetch_state \<Rightarrow> xword" where
  "fetch_ibus_adr_o s = fe_ip s"

text \<open>\<open>FetchInputBundle\<close>: what the decode stage is given.\<close>

record fetch_bundle =
  fb_en_i :: bool
  fb_word_i :: xword
  fb_current_ip_i :: xword
  fb_next_ip_i :: xword
  fb_redirect_pending_i :: bool

definition fetch_out :: "fetch_state \<Rightarrow> fetch_bundle" where
  "fetch_out s = \<lparr>fb_en_i = fe_valid s, fb_word_i = fe_word0 s, fb_current_ip_i = fe_ip0 s,
     fb_next_ip_i = fe_ip0 s + 4, fb_redirect_pending_i = (fe_jump_taken s \<and> \<not> fe_valid s)\<rparr>"

subsection \<open>The clock edge\<close>

definition fetch_outstanding_next :: "fetch_in \<Rightarrow> fetch_state \<Rightarrow> bool" where
  "fetch_outstanding_next i s =
     (if fetch_en i s \<and> \<not> fe_ibus_ack_i i then True
      else if \<not> fetch_en i s \<and> fe_ibus_ack_i i then False
      else fe_outstanding s)"

definition fetch_take_jump :: "fetch_in \<Rightarrow> fetch_state \<Rightarrow> bool" where
  "fetch_take_jump i s \<longleftrightarrow> (\<not> fe_outstanding s \<or> fe_ibus_ack_i i) \<and> fetch_new_jump i s"

definition fetch_advance :: "fetch_in \<Rightarrow> fetch_state \<Rightarrow> bool" where
  "fetch_advance i s \<longleftrightarrow> \<not> (fe_ibus_stall_i i \<or> fe_busy s \<or> fe_stall_i i)"

text \<open>The branch without a jump: the pointer, then the word buffer.\<close>

definition fetch_word :: "fetch_in \<Rightarrow> fetch_state \<Rightarrow> fetch_state \<Rightarrow> fetch_state" where
  "fetch_word i s n =
     (let n1 = (if fetch_advance i s then n\<lparr>fe_ip2 := fe_ip s, fe_ip := fe_ip s + 4\<rparr> else n) in
      if fe_stall_i i then
        (if fe_ibus_ack_i i
         then n1\<lparr>fe_word1 := fe_ibus_db_rd i, fe_ip1 := fe_ip2 s, fe_busy := True\<rparr>
         else n1)
      else if fe_busy s then
        n1\<lparr>fe_word0 := fe_word1 s, fe_ip0 := fe_ip1 s, fe_valid := True, fe_busy := False\<rparr>
      else if fe_ibus_ack_i i \<and> \<not> fetch_new_jump i s then
        n1\<lparr>fe_word0 := fe_ibus_db_rd i, fe_ip0 := fe_ip2 s, fe_valid := True\<rparr>
      else n1\<lparr>fe_valid := False\<rparr>)"

definition fetch_next :: "fetch_in \<Rightarrow> fetch_state \<Rightarrow> fetch_state" where
  "fetch_next i s =
     (let n = s\<lparr>fe_outstanding := fetch_outstanding_next i s\<rparr> in
      if \<not> fe_run s then n\<lparr>fe_run := True\<rparr>
      else
        (let n1 = (if fe_valid s \<or> (fe_stall_i i \<and> \<not> fe_jump_i i)
                   then n\<lparr>fe_jump_taken := False\<rparr> else n) in
         if fetch_take_jump i s
         then n1\<lparr>fe_ip := fe_jump_dest_i i, fe_jump_taken := True, fe_valid := False,
                 fe_busy := False\<rparr>
         else fetch_word i s n1))"

definition fetch_raises :: "fetch_in \<Rightarrow> fetch_state \<Rightarrow> bool" where
  "fetch_raises i s \<longleftrightarrow> fe_run s \<and> \<not> fetch_take_jump i s \<and> fetch_advance i s \<and>
     2 ^ 32 \<le> uint (fe_ip s) + 4"

definition fetch_step ::
  "bonfire_config \<Rightarrow> bool \<Rightarrow> fetch_in \<Rightarrow> fetch_state \<Rightarrow> fetch_state option" where
  "fetch_step c reset i s =
     (if reset then Some (fetch_init c)
      else if fetch_raises i s then None
      else Some (fetch_next i s))"

subsection \<open>The unit on an instruction bus\<close>

text \<open>
  The partner of the unit. The bus may stall a request and may take any time to answer one it
  has accepted; it accepts no further request before it answers, for \<open>current_ip[2]\<close> remembers
  one address only. The execute stage holds a jump request and its target until the unit follows
  it, as \<open>jump_r\<close> and \<open>jump_dest_r\<close> do. In one cycle \<open>fetch_env\<close> says whether the decode stage
  stalls, whether a new jump is requested, whether the bus stalls and whether it is ready to
  answer.
\<close>

record fetch_env =
  ev_stall :: bool
  ev_jump :: "xword option"
  ev_bus_stall :: bool
  ev_answer :: bool

text \<open>The unit, the address of the request accepted and not yet answered, and the target of the
  jump requested and not yet followed.\<close>

record fetch_port =
  fp_unit :: fetch_state
  fp_accepted :: "xword option"
  fp_jump :: "xword option"

definition fetch_port_init :: "bonfire_config \<Rightarrow> fetch_port" where
  "fetch_port_init c = \<lparr>fp_unit = fetch_init c, fp_accepted = None, fp_jump = None\<rparr>"

definition fetch_port_in :: "(xword \<Rightarrow> xword) \<Rightarrow> fetch_env \<Rightarrow> fetch_port \<Rightarrow> fetch_in" where
  "fetch_port_in mem e y =
     (let jump = (case fp_jump y of None \<Rightarrow> ev_jump e | Some d \<Rightarrow> Some d);
          ack = (fp_accepted y \<noteq> None \<and> ev_answer e) in
      \<lparr>fe_stall_i = ev_stall e, fe_jump_i = (jump \<noteq> None),
       fe_jump_dest_i = (case jump of None \<Rightarrow> 0 | Some d \<Rightarrow> d),
       fe_ibus_stall_i = (ev_bus_stall e \<or> (fp_accepted y \<noteq> None \<and> \<not> ack)),
       fe_ibus_ack_i = ack,
       fe_ibus_db_rd = (case fp_accepted y of None \<Rightarrow> 0 | Some a \<Rightarrow> mem a)\<rparr>)"

text \<open>What the decode stage sees: a word handed over, or a redirection. While a jump request is
  up, the words offered are those behind the jump, and are discarded.\<close>

datatype fetch_event =
    Deliver (event_ip: xword) (event_next_ip: xword) (event_word: xword)
  | Redirect xword

definition fetch_events :: "fetch_in \<Rightarrow> fetch_state \<Rightarrow> fetch_event list" where
  "fetch_events i s =
     (let o' = fetch_out s in
      if fe_run s \<and> fetch_new_jump i s
      then (if fetch_take_jump i s then [Redirect (fe_jump_dest_i i)] else [])
      else if fb_en_i o' \<and> \<not> fe_stall_i i
      then [Deliver (fb_current_ip_i o') (fb_next_ip_i o') (fb_word_i o')] else [])"

definition fetch_port_next :: "fetch_in \<Rightarrow> fetch_port \<Rightarrow> fetch_port" where
  "fetch_port_next i y =
     (let s = fp_unit y in
      \<lparr>fp_unit = fetch_next i s,
       fp_accepted = (if fetch_en i s \<and> \<not> fe_ibus_stall_i i then Some (fetch_ibus_adr_o s)
                      else if fe_ibus_ack_i i then None else fp_accepted y),
       fp_jump = (if fe_run s \<and> fetch_new_jump i s \<and> \<not> fetch_take_jump i s
                  then Some (fe_jump_dest_i i) else None)\<rparr>)"

fun fetch_port_run ::
  "bonfire_config \<Rightarrow> (xword \<Rightarrow> xword) \<Rightarrow> fetch_env list \<Rightarrow> fetch_port \<Rightarrow>
     (fetch_event list \<times> fetch_port) option" where
  "fetch_port_run c mem [] y = Some ([], y)"
| "fetch_port_run c mem (e # es) y =
     (let i = fetch_port_in mem e y in
      case fetch_step c False i (fp_unit y) of
        None \<Rightarrow> None
      | Some s' \<Rightarrow> map_option (\<lambda>(evs, t). (fetch_events i (fp_unit y) @ evs, t))
                    (fetch_port_run c mem es (fetch_port_next i y)))"

subsection \<open>The abstract fetcher\<close>

text \<open>One program counter: a delivery must be of the word it points to and advances it, a
  redirection replaces it.\<close>

fun fetch_spec :: "(xword \<Rightarrow> xword) \<Rightarrow> xword \<Rightarrow> fetch_event list \<Rightarrow> bool" where
  "fetch_spec mem pc [] = True"
| "fetch_spec mem pc (Deliver ip nip w # evs) =
     (ip = pc \<and> nip = pc + 4 \<and> w = mem pc \<and> fetch_spec mem (pc + 4) evs)"
| "fetch_spec mem pc (Redirect d # evs) = fetch_spec mem d evs"

text \<open>The addresses of the words fetched and not yet delivered, oldest first; the abstraction
  function is the head of this queue followed by the pointer.\<close>

definition fetch_queue :: "fetch_state \<Rightarrow> xword option \<Rightarrow> xword list" where
  "fetch_queue s p = (if fe_valid s then [fe_ip0 s] else []) @
     (if fe_busy s then [fe_ip1 s] else []) @ (case p of None \<Rightarrow> [] | Some a \<Rightarrow> [a]) @ [fe_ip s]"

fun consecutive :: "xword list \<Rightarrow> bool" where
  "consecutive (a # b # as) = (b = a + 4 \<and> consecutive (b # as))"
| "consecutive as = True"

definition fetch_pc :: "fetch_state \<Rightarrow> xword option \<Rightarrow> xword" where
  "fetch_pc s p = hd (fetch_queue s p)"

text \<open>Without a pending jump the buffer holds consecutive words of the memory; with one, only the
  answer under way matters; a pending jump without an answer under way blocks the unit.\<close>

definition fetch_blocked :: "fetch_port \<Rightarrow> bool" where
  "fetch_blocked y \<longleftrightarrow> fp_jump y \<noteq> None \<and> fp_accepted y = None"

definition fetch_port_inv :: "(xword \<Rightarrow> xword) \<Rightarrow> fetch_port \<Rightarrow> bool" where
  "fetch_port_inv mem y \<longleftrightarrow>
     (let s = fp_unit y; p = fp_accepted y in
      (fp_jump y \<noteq> None \<longrightarrow> fe_run s \<and> \<not> fe_jump_taken s \<and> fe_outstanding s) \<and>
      (p \<noteq> None \<longrightarrow> fe_outstanding s) \<and>
      (\<not> fetch_blocked y \<longrightarrow>
         consecutive (fetch_queue s p) \<and>
         (fe_valid s \<longrightarrow> fe_word0 s = mem (fe_ip0 s)) \<and>
         (fe_busy s \<longrightarrow> fe_word1 s = mem (fe_ip1 s) \<and> p = None) \<and>
         (\<forall>a. p = Some a \<longrightarrow> fe_ip2 s = a) \<and>
         (\<not> fe_run s \<longrightarrow> \<not> fe_valid s \<and> \<not> fe_busy s \<and> p = None)))"

text \<open>The words that may still follow: from the abstract program counter, or, with a jump
  pending, from its target alone.\<close>

definition fetch_port_spec :: "(xword \<Rightarrow> xword) \<Rightarrow> fetch_port \<Rightarrow> fetch_event list \<Rightarrow> bool" where
  "fetch_port_spec mem y evs \<longleftrightarrow>
     (if fp_jump y = None then fetch_spec mem (fetch_pc (fp_unit y) (fp_accepted y)) evs
      else (\<forall>pc. fetch_spec mem pc evs))"

lemma fetch_port_init_inv:
  "fetch_port_inv mem (fetch_port_init c)"
  "fetch_port_spec mem (fetch_port_init c) evs = fetch_spec mem (reset_address c) evs"
  by (simp_all add: fetch_port_inv_def fetch_port_init_def fetch_init_def fetch_queue_def fetch_pc_def
      fetch_port_spec_def Let_def)

lemmas fetch_comb_defs = fetch_new_jump_def fetch_en_def fetch_take_jump_def fetch_advance_def
  fetch_outstanding_next_def fetch_ibus_adr_o_def

text \<open>What the environment guarantees of an input, in the form the case splits need.\<close>

definition fetch_port_input :: "(xword \<Rightarrow> xword) \<Rightarrow> fetch_port \<Rightarrow> fetch_in \<Rightarrow> bool" where
  "fetch_port_input mem y i \<longleftrightarrow>
     (fp_accepted y = None \<longrightarrow> \<not> fe_ibus_ack_i i) \<and>
     (fp_accepted y \<noteq> None \<longrightarrow> \<not> fe_ibus_ack_i i \<longrightarrow> fe_ibus_stall_i i) \<and>
     (\<forall>a. fp_accepted y = Some a \<longrightarrow> fe_ibus_db_rd i = mem a) \<and>
     (\<forall>d. fp_jump y = Some d \<longrightarrow> fe_jump_i i \<and> fe_jump_dest_i i = d)"

lemma fetch_port_in_input: "fetch_port_input mem y (fetch_port_in mem e y)"
  by (simp add: fetch_port_input_def fetch_port_in_def Let_def)

lemmas fetch_port_defs = fetch_port_next_def fetch_next_def fetch_word_def fetch_en_def
  fetch_advance_def fetch_outstanding_next_def fetch_ibus_adr_o_def fetch_port_input_def
  fetch_blocked_def fetch_port_inv_def Let_def

text \<open>One edge: the invariant is kept, and the events of the cycle move the abstract program
  counter as the abstract fetcher does. The cases are an edge before the unit runs, one without
  a new jump, one that follows a jump and one that waits with it.\<close>

lemma fetch_port_next_inv:
  assumes inv: "fetch_port_inv mem y" and i: "fetch_port_input mem y i"
  shows "fetch_port_inv mem (fetch_port_next i y)"
proof -
  obtain s p j where y: "y = \<lparr>fp_unit = s, fp_accepted = p, fp_jump = j\<rparr>" by (cases y)
  have taken: "fetch_take_jump i s \<Longrightarrow> fetch_new_jump i s" by (simp add: fetch_take_jump_def)
  have jump: "j \<noteq> None \<Longrightarrow> fetch_new_jump i s"
    using inv i by (auto simp: y fetch_port_inv_def fetch_port_input_def fetch_new_jump_def Let_def)
  have waits: "fetch_new_jump i s \<Longrightarrow> \<not> fetch_take_jump i s \<Longrightarrow>
      fe_outstanding s \<and> \<not> fe_ibus_ack_i i \<and> \<not> fe_jump_taken s"
    by (simp add: fetch_take_jump_def fetch_new_jump_def)
  consider "\<not> fe_run s" | "fe_run s" "\<not> fetch_new_jump i s" | "fe_run s" "fetch_take_jump i s"
    | "fe_run s" "fetch_new_jump i s" "\<not> fetch_take_jump i s" by blast
  then show ?thesis
  proof cases
    case 1
    then show ?thesis
      using inv i jump by (cases j) (auto simp: y fetch_port_defs fetch_queue_def)
  next
    case 2
    then have "j = None" "\<not> fetch_take_jump i s" using jump taken by blast+
    then show ?thesis
      using 2 inv i unfolding y
      by (cases p; cases "fe_ibus_ack_i i"; cases "fe_stall_i i"; cases "fe_busy s";
          cases "fe_valid s"; cases "fe_ibus_stall_i i")
        (simp_all add: fetch_port_defs fetch_queue_def)
  next
    case 3
    then show ?thesis
      using inv i taken unfolding y
      by (cases p) (auto simp: fetch_port_defs fetch_queue_def fetch_take_jump_def)
  next
    case 4
    then show ?thesis
      using inv i waits unfolding y
      by (cases p; cases j; cases "fe_stall_i i"; cases "fe_busy s"; cases "fe_valid s")
        (simp_all add: fetch_port_defs fetch_queue_def)
  qed
qed

lemma fetch_port_next_spec:
  assumes inv: "fetch_port_inv mem y" and i: "fetch_port_input mem y i"
    and rest: "fetch_port_spec mem (fetch_port_next i y) evs"
  shows "fetch_port_spec mem y (fetch_events i (fp_unit y) @ evs)"
proof -
  obtain s p j where y: "y = \<lparr>fp_unit = s, fp_accepted = p, fp_jump = j\<rparr>" by (cases y)
  note sdefs = fetch_port_spec_def fetch_events_def fetch_out_def fetch_pc_def fetch_queue_def
  have taken: "fetch_take_jump i s \<Longrightarrow> fetch_new_jump i s" by (simp add: fetch_take_jump_def)
  have jump: "j \<noteq> None \<Longrightarrow> fe_run s \<and> fetch_new_jump i s"
    using inv i by (auto simp: y fetch_port_inv_def fetch_port_input_def fetch_new_jump_def Let_def)
  consider "\<not> fe_run s" | "fe_run s" "\<not> fetch_new_jump i s" | "fe_run s" "fetch_take_jump i s"
    | "fe_run s" "fetch_new_jump i s" "\<not> fetch_take_jump i s" by blast
  then show ?thesis
  proof cases
    case 1
    then show ?thesis
      using inv i rest jump by (cases j) (auto simp: y fetch_port_defs sdefs)
  next
    case 2
    then have "j = None" "\<not> fetch_take_jump i s" using jump taken by blast+
    then show ?thesis
      using 2 inv i rest unfolding y
      by (cases p; cases "fe_ibus_ack_i i"; cases "fe_stall_i i"; cases "fe_busy s";
          cases "fe_valid s"; cases "fe_ibus_stall_i i"; cases "fe_jump_i i")
        (simp_all add: fetch_port_defs sdefs)
  next
    case 3
    then show ?thesis
      using inv i rest taken unfolding y
      by (auto simp: fetch_port_defs sdefs fetch_take_jump_def)
  next
    case 4
    then show ?thesis
      using rest unfolding y by (simp add: fetch_port_next_def Let_def fetch_port_spec_def fetch_events_def)
  qed
qed

lemma fetch_port_run_spec:
  "fetch_port_inv mem y \<Longrightarrow> fetch_port_run c mem es y = Some (evs, t) \<Longrightarrow>
     fetch_port_spec mem y evs \<and> fetch_port_inv mem t"
proof (induction es arbitrary: y evs)
  case Nil
  then show ?case by (simp add: fetch_port_spec_def)
next
  case (Cons e es)
  define i where "i = fetch_port_in mem e y"
  have i: "fetch_port_input mem y i" by (simp add: i_def fetch_port_in_input)
  obtain evs' where run: "fetch_port_run c mem es (fetch_port_next i y) = Some (evs', t)"
    and evs: "evs = fetch_events i (fp_unit y) @ evs'"
    using Cons.prems(2) by (auto simp: i_def[symmetric] Let_def split: option.splits)
  have "fetch_port_spec mem (fetch_port_next i y) evs' \<and> fetch_port_inv mem t"
    using fetch_port_next_inv[OF Cons.prems(1) i] run by (rule Cons.IH)
  then show ?case unfolding evs using fetch_port_next_spec[OF Cons.prems(1) i] by blast
qed

lemma fetch_port_run_append:
  "fetch_port_run c mem (es @ fs) y =
     (case fetch_port_run c mem es y of None \<Rightarrow> None
      | Some (evs, t) \<Rightarrow> map_option (\<lambda>(evs', r). (evs @ evs', r)) (fetch_port_run c mem fs t))"
  by (induction es arbitrary: y)
    (auto simp: Let_def option.map_comp comp_def case_prod_unfold option.map_ident
      split: option.splits)

subsection \<open>Progress\<close>

text \<open>A quiet cycle: the decode stage takes what it is offered and no new jump is requested. In a
  responsive cycle the bus accepts a request and answers the one it has accepted.\<close>

definition fetch_quiet :: "fetch_env \<Rightarrow> bool" where
  "fetch_quiet e \<longleftrightarrow> \<not> ev_stall e \<and> ev_jump e = None"

definition fetch_responsive :: "fetch_env \<Rightarrow> bool" where
  "fetch_responsive e \<longleftrightarrow> \<not> ev_bus_stall e \<and> ev_answer e"

text \<open>How many cycles on a responsive bus a delivery is away.\<close>

definition fetch_distance :: "fetch_state \<Rightarrow> xword option \<Rightarrow> nat" where
  "fetch_distance s p =
     (if \<not> fe_run s then 3 else if fe_valid s then 0 else if fe_busy s \<or> p \<noteq> None then 1 else 2)"

definition fetch_port_distance :: "fetch_port \<Rightarrow> nat" where
  "fetch_port_distance y =
     (if fp_jump y \<noteq> None then 3 else fetch_distance (fp_unit y) (fp_accepted y))"

lemma uint_plus_4: "uint (a :: xword) + 4 < 2 ^ 32 \<Longrightarrow> uint (a + 4) = uint a + 4"
  using uint_ge_0[of a] by (simp add: uint_word_ariths mod_pos_pos_trivial)

text \<open>The pointer and a pending target stay inside the address space for \<open>n\<close> cycles.\<close>

definition fetch_room :: "nat \<Rightarrow> fetch_port \<Rightarrow> bool" where
  "fetch_room n y \<longleftrightarrow> uint (fe_ip (fp_unit y)) + 4 * int n < 2 ^ 32 \<and>
     (\<forall>d. fp_jump y = Some d \<longrightarrow> uint d + 4 * int n < 2 ^ 32)"

lemma fetch_port_quiet_step:
  assumes inv: "fetch_port_inv mem y" and q: "fetch_quiet e" and room: "fetch_room (Suc n) y"
    and free: "\<not> fetch_blocked y" and i: "i = fetch_port_in mem e y"
  shows "fetch_step c False i (fp_unit y) = Some (fetch_next i (fp_unit y))"
    "fetch_room n (fetch_port_next i y)" "\<not> fetch_blocked (fetch_port_next i y)"
    "fetch_port_distance y = 0 \<Longrightarrow> \<exists>ip nip w. fetch_events i (fp_unit y) = [Deliver ip nip w]"
    "fetch_port_distance y \<noteq> 0 \<Longrightarrow> fetch_port_distance (fetch_port_next i y) \<le> fetch_port_distance y \<and>
       (fetch_responsive e \<longrightarrow> fetch_port_distance (fetch_port_next i y) < fetch_port_distance y)"
proof -
  obtain s p j where y: "y = \<lparr>fp_unit = s, fp_accepted = p, fp_jump = j\<rparr>" by (cases y)
  note defs = fetch_port_in_def fetch_port_defs fetch_new_jump_def fetch_take_jump_def fetch_quiet_def
  note qdefs = fetch_room_def fetch_port_distance_def fetch_distance_def fetch_responsive_def
  have ip4: "uint (fe_ip s) + 4 < 2 ^ 32" using room by (simp add: y fetch_room_def)
  show "fetch_step c False i (fp_unit y) = Some (fetch_next i (fp_unit y))"
    using ip4 by (simp add: y fetch_step_def fetch_raises_def)
  show "fetch_room n (fetch_port_next i y)"
    using inv q room free uint_plus_4[OF ip4] unfolding i y by (cases j; cases p) (auto simp: defs qdefs)
  show "\<not> fetch_blocked (fetch_port_next i y)"
    using inv q free unfolding i y by (cases j; cases p) (auto simp: defs)
  show "fetch_port_distance y = 0 \<Longrightarrow>
      \<exists>ip nip w. fetch_events i (fp_unit y) = [Deliver ip nip w]"
    using q unfolding i y
    by (auto simp: defs qdefs fetch_events_def fetch_out_def split: if_splits)
  show "fetch_port_distance y \<noteq> 0 \<Longrightarrow> fetch_port_distance (fetch_port_next i y) \<le> fetch_port_distance y \<and>
       (fetch_responsive e \<longrightarrow> fetch_port_distance (fetch_port_next i y) < fetch_port_distance y)"
    using inv q free unfolding i y
    by (cases j; cases p; cases "fe_run s"; cases "fe_busy s"; cases "fe_valid s"; cases "ev_answer e")
      (simp_all add: defs qdefs)
qed

lemma fetch_port_quiet_run:
  assumes "fetch_port_inv mem y" "\<not> fetch_blocked y" "fetch_room (length fs) y"
    and "\<forall>e \<in> set fs. fetch_quiet e"
  shows "\<exists>evs t. fetch_port_run c mem fs y = Some (evs, t) \<and>
     (fetch_port_distance y < length (filter fetch_responsive fs) \<longrightarrow>
        (\<exists>ip nip w. Deliver ip nip w \<in> set evs))"
  using assms
proof (induction fs arbitrary: y)
  case (Cons e fs)
  define i where "i = fetch_port_in mem e y"
  have q: "fetch_quiet e" and room: "fetch_room (Suc (length fs)) y"
    using Cons.prems by simp_all
  note st = fetch_port_quiet_step[OF Cons.prems(1) q room Cons.prems(2) i_def]
  have inv: "fetch_port_inv mem (fetch_port_next i y)"
    using Cons.prems(1) by (rule fetch_port_next_inv) (simp add: i_def fetch_port_in_input)
  have "\<forall>e \<in> set fs. fetch_quiet e" using Cons.prems(4) by simp
  from Cons.IH[OF inv st(3,2) this] obtain evs t where
    run: "fetch_port_run c mem fs (fetch_port_next i y) = Some (evs, t)" and
    del: "fetch_port_distance (fetch_port_next i y) < length (filter fetch_responsive fs) \<Longrightarrow>
      \<exists>ip nip w. Deliver ip nip w \<in> set evs"
    by blast
  have "fetch_port_run c mem (e # fs) y = Some (fetch_events i (fp_unit y) @ evs, t)"
    using st(1)[of c] run by (simp add: i_def[symmetric] Let_def)
  moreover have "\<exists>ip nip w. Deliver ip nip w \<in> set (fetch_events i (fp_unit y) @ evs)"
    if "fetch_port_distance y < length (filter fetch_responsive (e # fs))"
  proof (cases "fetch_port_distance y = 0")
    case True
    then obtain ip nip w where "fetch_events i (fp_unit y) = [Deliver ip nip w]" using st(4) by blast
    then have "Deliver ip nip w \<in> set (fetch_events i (fp_unit y) @ evs)" by simp
    then show ?thesis by blast
  next
    case False
    then have "fetch_port_distance (fetch_port_next i y) < length (filter fetch_responsive fs)"
      using st(5) that by (cases "fetch_responsive e") auto
    then show ?thesis using del by auto
  qed
  ultimately show ?case by blast
qed simp

subsection \<open>What the unit promises\<close>

text \<open>
  C8: On every instruction bus that accepts no request while another is unanswered, with any
  stalls of a request, any time to each answer, any stalls of the decode stage and any jump
  requests that are held until they are followed, the fetch unit, run from reset, hands the
  decode stage exactly the words at consecutive addresses from the reset address or the last
  redirection on, each with its own address and the address following it. And it gets on: unless
  a jump waits for a request that the bus never accepted, every continuation without decode stalls
  and new jumps in which the bus accepts and answers in at least four cycles, at whatever
  intervals, delivers a word, as long as the pointer stays inside the address space.
\<close>

theorem fetch_in_order:
  assumes run: "fetch_port_run c mem es (fetch_port_init c) = Some (evs, y)"
  shows "fetch_spec mem (reset_address c) evs \<and>
    (\<not> fetch_blocked y \<longrightarrow>
      (\<forall>fs. (\<forall>e \<in> set fs. fetch_quiet e) \<and> 4 \<le> length (filter fetch_responsive fs) \<and>
          fetch_room (length fs) y \<longrightarrow>
        (\<exists>evs' t. fetch_port_run c mem (es @ fs) (fetch_port_init c) = Some (evs @ evs', t) \<and>
           fetch_spec mem (reset_address c) (evs @ evs') \<and>
           (\<exists>ip nip w. Deliver ip nip w \<in> set evs'))))"
proof -
  note ini = fetch_port_init_inv(1)[of mem c]
  have spec: "fetch_spec mem (reset_address c) evs" and inv: "fetch_port_inv mem y"
    using fetch_port_run_spec[OF ini run] by (simp_all add: fetch_port_init_inv)
  have "\<exists>evs' t. fetch_port_run c mem (es @ fs) (fetch_port_init c) = Some (evs @ evs', t) \<and>
           fetch_spec mem (reset_address c) (evs @ evs') \<and> (\<exists>ip nip w. Deliver ip nip w \<in> set evs')"
    if free: "\<not> fetch_blocked y" and fs: "\<forall>e \<in> set fs. fetch_quiet e"
      "4 \<le> length (filter fetch_responsive fs)" "fetch_room (length fs) y" for fs
  proof -
    have "fetch_port_distance y < 4" by (simp add: fetch_port_distance_def fetch_distance_def)
    then have "fetch_port_distance y < length (filter fetch_responsive fs)" using fs(2) by simp
    then obtain evs' t where q: "fetch_port_run c mem fs y = Some (evs', t)"
      and d: "\<exists>ip nip w. Deliver ip nip w \<in> set evs'"
      using fetch_port_quiet_run[OF inv free fs(3,1), of c] by blast
    have all: "fetch_port_run c mem (es @ fs) (fetch_port_init c) = Some (evs @ evs', t)"
      using run q by (simp add: fetch_port_run_append)
    show ?thesis
      using all d fetch_port_run_spec[OF ini all] by (auto simp: fetch_port_init_inv)
  qed
  then show ?thesis using spec by blast
qed

text \<open>A bus that stalls requests and takes its time, a stall of the decode stage while a word is
  under way, and a jump that has to wait for an answer; then four responsive cycles among eight.\<close>

definition fetch_try :: "fetch_env list" where
  "fetch_try =
     (let go = \<lparr>ev_stall = False, ev_jump = None, ev_bus_stall = False, ev_answer = True\<rparr>;
          slow = go\<lparr>ev_bus_stall := True, ev_answer := False\<rparr> in
      [go, slow, go, go, slow, go\<lparr>ev_stall := True\<rparr>, go, go, slow,
       slow\<lparr>ev_jump := Some 0x80\<rparr>, slow, go])"

definition fetch_try_on :: "fetch_env list" where
  "fetch_try_on =
     (let go = \<lparr>ev_stall = False, ev_jump = None, ev_bus_stall = False, ev_answer = True\<rparr>;
          slow = go\<lparr>ev_bus_stall := True, ev_answer := False\<rparr> in
      [slow, go, slow, go, slow, go, slow, go])"

theorem fetch_in_order_witness:
  "\<exists>evs evs' y t. fetch_port_run default_config (\<lambda>a. a XOR 0x13) fetch_try
      (fetch_port_init default_config) = Some (evs, y) \<and>
    evs = [Deliver 0 4 0x13, Deliver 4 8 0x17, Redirect 0x80] \<and>
    fetch_port_run default_config (\<lambda>a. a XOR 0x13) (fetch_try @ fetch_try_on)
      (fetch_port_init default_config) = Some (evs @ evs', t) \<and>
    fetch_spec (\<lambda>a. a XOR 0x13) (reset_address default_config) (evs @ evs') \<and>
    (\<exists>ip nip w. Deliver ip nip w \<in> set evs')"
proof -
  let ?m = "\<lambda>a :: xword. a XOR 0x13"
  let ?r = "fetch_port_run default_config ?m fetch_try (fetch_port_init default_config)"
  have "map_option (\<lambda>(evs, y). (evs, fe_ip (fp_unit y), fp_jump y)) ?r =
      Some ([Deliver 0 4 0x13, Deliver 4 8 0x17, Redirect 0x80], 0x80, None)"
    by code_simp
  then obtain y where r: "?r = Some ([Deliver 0 4 0x13, Deliver 4 8 0x17, Redirect 0x80], y)"
    and y: "fe_ip (fp_unit y) = 0x80" "fp_jump y = None"
    by auto
  have free: "\<not> fetch_blocked y" and room: "fetch_room (length fetch_try_on) y"
    using y by (simp_all add: fetch_blocked_def fetch_room_def fetch_try_on_def Let_def)
  have on: "\<forall>e \<in> set fetch_try_on. fetch_quiet e" "4 \<le> length (filter fetch_responsive fetch_try_on)"
    by (simp_all add: fetch_try_on_def fetch_quiet_def fetch_responsive_def Let_def)
  show ?thesis using fetch_in_order[OF r] free room on r by blast
qed

text \<open>
  C16: On a bus that stalls a request the unit can lose the processor: when the first request is
  stalled and a jump arrives in the next cycle, the unit withdraws the unaccepted request but
  still counts it as outstanding, so it neither follows the jump nor requests anything again
  while the jump request lasts, whatever the target.
\<close>

definition stalled_jump_start :: "bonfire_config \<Rightarrow> fetch_state" where
  "stalled_jump_start c =
     fetch_next \<lparr>fe_stall_i = False, fe_jump_i = False, fe_jump_dest_i = 0,
         fe_ibus_stall_i = True, fe_ibus_ack_i = False, fe_ibus_db_rd = 0\<rparr>
       ((fetch_init c)\<lparr>fe_run := True\<rparr>)"

definition stalled_jump_in :: "bool \<Rightarrow> xword \<Rightarrow> fetch_in" where
  "stalled_jump_in stall dest =
     \<lparr>fe_stall_i = stall, fe_jump_i = True, fe_jump_dest_i = dest,
      fe_ibus_stall_i = False, fe_ibus_ack_i = False, fe_ibus_db_rd = 0\<rparr>"

lemma stalled_jump_stuck:
  assumes "fe_outstanding s" "\<not> fe_jump_taken s" "fe_run s"
  shows "\<not> fetch_en (stalled_jump_in stall dest) s"
    "fe_outstanding (fetch_next (stalled_jump_in stall dest) s)"
    "\<not> fe_jump_taken (fetch_next (stalled_jump_in stall dest) s)"
    "fe_run (fetch_next (stalled_jump_in stall dest) s)"
  using assms
  by (simp_all add: stalled_jump_in_def fetch_next_def fetch_word_def fetch_comb_defs Let_def)

theorem fetch_stalled_jump_deadlock:
  "\<not> fetch_en (stalled_jump_in stall dest)
      (clocked_run fetch_next (map (\<lambda>st. stalled_jump_in st dest) stalls) (stalled_jump_start c)) \<and>
   fe_outstanding
      (clocked_run fetch_next (map (\<lambda>st. stalled_jump_in st dest) stalls) (stalled_jump_start c))"
proof -
  let ?I = "\<lambda>s. fe_outstanding s \<and> \<not> fe_jump_taken s \<and> fe_run s"
  have start: "?I (stalled_jump_start c)"
    by (simp add: stalled_jump_start_def fetch_init_def fetch_next_def fetch_word_def
        fetch_comb_defs Let_def)
  have "?I (clocked_run fetch_next (map (\<lambda>st. stalled_jump_in st dest) stalls)
      (stalled_jump_start c))"
    by (rule clocked_run_invariant[where I = ?I, OF _ start]) (auto simp: stalled_jump_stuck)
  then show ?thesis by (simp add: stalled_jump_stuck)
qed

end
