(* ===== verification/Pipeline.thy ===== *)
theory Pipeline
  imports Execute Regfile Fetch
begin

text \<open>
  The backends of the core: the three-stage pipeline (\<open>rtl/simple_pipeline.py\<close>), which writes
  the register file from the execute stage, and the four-stage pipeline
  (\<open>rtl/pipelined_backend.py\<close>) with its writeback registers, its writeback multiplexer, and
  either the hazard interlock or the forwarding path. \<open>backend_step\<close> is one clock edge of the
  register file, the decode stage, the execute stage and the writeback registers wired as the
  sources wire them; the pipeline length of the configuration selects the variant. The debug
  blocks drive some of the inputs when they are built in; these inputs are fields of
  \<open>backend_in\<close>, and \<open>no_debug_in\<close> fixes them to what a core without debug module has.
\<close>

subsection \<open>The writeback registers of the four-stage pipeline\<close>

record wb_state =
  wb_valid :: bool
  wb_we :: bool
  wb_rd :: regno
  wb_alu_valid :: bool
  wb_load_valid :: bool
  wb_csr_valid :: bool
  wb_jump_valid :: bool
  wb_alu_data :: xword
  wb_load_data :: xword
  wb_csr_data :: xword
  wb_jump_data :: xword

definition wb_init :: wb_state where
  "wb_init = \<lparr>wb_valid = False, wb_we = False, wb_rd = 0, wb_alu_valid = False,
     wb_load_valid = False, wb_csr_valid = False, wb_jump_valid = False, wb_alu_data = 0,
     wb_load_data = 0, wb_csr_data = 0, wb_jump_data = 0\<rparr>"

definition writeback_seq ::
  "bonfire_config \<Rightarrow> bool \<Rightarrow> exec_in \<Rightarrow> exec_state \<Rightarrow> wb_state" where
  "writeback_seq c reset e s =
     (if reset then wb_init
      else \<lparr>wb_valid = exec_valid_o c e s, wb_we = exec_reg_we_o c e s,
            wb_rd = exec_rd_adr_o c e s,
            wb_alu_valid = (exec_wb_source c e s = Src_Alu),
            wb_load_valid = (exec_wb_source c e s = Src_Load),
            wb_csr_valid = (exec_wb_source c e s = Src_Csr),
            wb_jump_valid = (exec_wb_source c e s = Src_Jump),
            wb_alu_data = al_res_o (exec_alu_out c e s),
            wb_load_data = exec_ls_result c e s,
            wb_csr_data = exec_csr_result c e s,
            wb_jump_data = de_next_ip_o (ex_dec e)\<rparr>)"

definition wb_data :: "wb_state \<Rightarrow> xword" where
  "wb_data w =
     (if wb_alu_valid w then wb_alu_data w
      else if wb_load_valid w then wb_load_data w
      else if wb_jump_valid w then wb_jump_data w
      else if wb_csr_valid w then wb_csr_data w
      else 0)"

text \<open>\<open>four_stage_hazard\<close>, the interlock of the variant without forwarding.\<close>

definition four_stage_hazard :: "decode_state \<Rightarrow> wb_state \<Rightarrow> bool" where
  "four_stage_hazard d w \<longleftrightarrow>
     (wb_valid w \<and> wb_we w \<and> wb_rd w \<noteq> 0 \<and> de_valid_o d \<and> decode_uses_rs1_o d \<and>
        de_source_rs1_o d = wb_rd w) \<or>
     (wb_valid w \<and> wb_we w \<and> wb_rd w \<noteq> 0 \<and> de_valid_o d \<and> decode_uses_rs2_o d \<and>
        de_source_rs2_o d = wb_rd w)"

subsection \<open>Wiring\<close>

record backend_in =
  bk_fetch :: fetch_bundle
  bk_bus_i :: dbus_rsp
  bk_transfer :: register_transfer
  bk_debug_flush :: bool
  bk_progbuf_active :: bool
  bk_debug_update :: debug_csr_update
  bk_redirect_valid :: bool
  bk_redirect_pc :: xword

definition no_debug_in :: "fetch_bundle \<Rightarrow> dbus_rsp \<Rightarrow> backend_in" where
  "no_debug_in f b = \<lparr>bk_fetch = f, bk_bus_i = b, bk_transfer = no_transfer,
     bk_debug_flush = False, bk_progbuf_active = False, bk_debug_update = no_debug_update,
     bk_redirect_valid = False, bk_redirect_pc = 0\<rparr>"

record backend_state =
  bk_rf :: regfile_state
  bk_dec :: decode_state
  bk_exec :: exec_state
  bk_wb :: wb_state

definition backend_init :: "bonfire_config \<Rightarrow> backend_state" where
  "backend_init c = \<lparr>bk_rf = regfile_init, bk_dec = decode_init, bk_exec = exec_init c,
     bk_wb = wb_init\<rparr>"

text \<open>The decode stage's inputs from fetch and register file; its stall and kill inputs come
  from the execute stage and are filled in by \<open>backend_dec_in\<close>.\<close>

definition backend_dec_data :: "backend_in \<Rightarrow> backend_state \<Rightarrow> decode_in" where
  "backend_dec_data i s =
     \<lparr>de_en_i = fb_en_i (bk_fetch i), de_stall_i = False, de_kill_i = False,
      de_word_i = fb_word_i (bk_fetch i), de_current_ip_i = fb_current_ip_i (bk_fetch i),
      de_next_ip_i = fb_next_ip_i (bk_fetch i), de_rs1_data_i = regfile_rd_a (bk_rf s),
      de_rs2_data_i = regfile_rd_b (bk_rf s)\<rparr>"

definition backend_exec_in :: "bonfire_config \<Rightarrow> backend_in \<Rightarrow> backend_state \<Rightarrow> exec_in" where
  "backend_exec_in c i s =
     (let w = bk_wb s; fwd = exec_wb_stage c \<and> writeback_bypass c in
      \<lparr>ex_dec = bk_dec s, ex_op1_i = decode_op1_o (backend_dec_data i s) (bk_dec s),
       ex_op2_i = decode_op2_o (backend_dec_data i s) (bk_dec s),
       ex_forward_we_i = (fwd \<and> wb_valid w \<and> wb_we w),
       ex_forward_rd_i = (if fwd then wb_rd w else 0),
       ex_forward_data_i = (if fwd then wb_data w else 0),
       ex_hazard_i = (exec_wb_stage c \<and> \<not> writeback_bypass c \<and> four_stage_hazard (bk_dec s) w),
       ex_debug_flush_i = bk_debug_flush i, ex_progbuf_active_i = bk_progbuf_active i,
       ex_bus_i = bk_bus_i i, ex_debug_update_i = bk_debug_update i\<rparr>)"

definition backend_dec_in :: "bonfire_config \<Rightarrow> backend_in \<Rightarrow> backend_state \<Rightarrow> decode_in" where
  "backend_dec_in c i s = (backend_dec_data i s)\<lparr>
     de_stall_i := exec_busy c (backend_exec_in c i s) (bk_exec s),
     de_kill_i := exec_kill c (backend_exec_in c i s) (bk_exec s)\<rparr>"

definition backend_rf_in :: "bonfire_config \<Rightarrow> backend_in \<Rightarrow> backend_state \<Rightarrow> regfile_in" where
  "backend_rf_in c i s =
     (let e = backend_exec_in c i s; d = backend_dec_in c i s; w = bk_wb s in
      \<lparr>rf_ra_a = decode_rs1_adr_o (bk_transfer i) d (bk_dec s),
       rf_ra_b = decode_rs2_adr_o d (bk_dec s),
       rf_wa = (if exec_wb_stage c then wb_rd w else exec_rd_adr_o c e (bk_exec s)),
       rf_we = (if exec_wb_stage c then wb_valid w \<and> wb_we w else exec_reg_we_o c e (bk_exec s)),
       rf_wd = (if exec_wb_stage c then wb_data w else exec_result_o c e (bk_exec s))\<rparr>)"

subsection \<open>Outputs to the fetch unit and to the debug blocks\<close>

definition backend_busy_o :: "bonfire_config \<Rightarrow> backend_in \<Rightarrow> backend_state \<Rightarrow> bool" where
  "backend_busy_o c i s = decode_busy_o (backend_dec_in c i s) (bk_dec s)"

definition backend_jump_o :: "bonfire_config \<Rightarrow> backend_in \<Rightarrow> backend_state \<Rightarrow> bool" where
  "backend_jump_o c i s \<longleftrightarrow> exec_jump_o c (backend_exec_in c i s) (bk_exec s) \<or>
     enableDebugModule c \<and> bk_redirect_valid i"

definition backend_jump_dest_o :: "bonfire_config \<Rightarrow> backend_in \<Rightarrow> backend_state \<Rightarrow> xword" where
  "backend_jump_dest_o c i s =
     (if enableDebugModule c \<and> bk_redirect_valid i then bk_redirect_pc i
      else exec_jump_dest_o c (backend_exec_in c i s) (bk_exec s))"

definition backend_pipeline_empty :: "bonfire_config \<Rightarrow> backend_in \<Rightarrow> backend_state \<Rightarrow> bool" where
  "backend_pipeline_empty c i s \<longleftrightarrow>
     \<not> de_valid_o (bk_dec s) \<and> \<not> exec_busy c (backend_exec_in c i s) (bk_exec s) \<and>
     \<not> exec_valid_o c (backend_exec_in c i s) (bk_exec s) \<and>
     (exec_wb_stage c \<longrightarrow> \<not> wb_valid (bk_wb s))"

subsection \<open>The clock edge\<close>

definition backend_step ::
  "bonfire_config \<Rightarrow> bool \<Rightarrow> backend_in \<Rightarrow> backend_state \<Rightarrow> backend_state" where
  "backend_step c reset i s =
     \<lparr>bk_rf = regfile_step (backend_rf_in c i s) (bk_rf s),
      bk_dec = decode_step reset (bk_transfer i) (backend_dec_in c i s) (bk_dec s),
      bk_exec = exec_step c reset (backend_exec_in c i s) (bk_exec s),
      bk_wb = (if exec_wb_stage c then writeback_seq c reset (backend_exec_in c i s) (bk_exec s)
               else bk_wb s)\<rparr>"

text \<open>The core without debug module: fetch unit and backend wired back to back
  (\<open>BonfireCoreTop.createInstance\<close>).\<close>

record core_state =
  core_fetch :: fetch_state
  core_backend :: backend_state

definition core_init :: "bonfire_config \<Rightarrow> core_state" where
  "core_init c = \<lparr>core_fetch = fetch_init c, core_backend = backend_init c\<rparr>"

definition core_backend_in :: "dbus_rsp \<Rightarrow> core_state \<Rightarrow> backend_in" where
  "core_backend_in dbus s = no_debug_in (fetch_out (core_fetch s)) dbus"

definition core_fetch_in ::
  "bonfire_config \<Rightarrow> dbus_rsp \<Rightarrow> dbus_rsp \<Rightarrow> core_state \<Rightarrow> fetch_in" where
  "core_fetch_in c ibus dbus s =
     (let i = core_backend_in dbus s; b = core_backend s in
      \<lparr>fe_stall_i = backend_busy_o c i b, fe_jump_i = backend_jump_o c i b,
       fe_jump_dest_i = backend_jump_dest_o c i b, fe_ibus_stall_i = db_stall_i ibus,
       fe_ibus_ack_i = db_ack_i ibus, fe_ibus_db_rd = db_rd ibus\<rparr>)"

definition core_step ::
  "bonfire_config \<Rightarrow> bool \<Rightarrow> dbus_rsp \<Rightarrow> dbus_rsp \<Rightarrow> core_state \<Rightarrow> core_state option" where
  "core_step c reset ibus dbus s =
     map_option (\<lambda>f. \<lparr>core_fetch = f,
                      core_backend = backend_step c reset (core_backend_in dbus s) (core_backend s)\<rparr>)
       (fetch_step c reset (core_fetch_in c ibus dbus s) (core_fetch s))"

subsection \<open>The architectural registers\<close>

text \<open>The value the program sees in a register: the register file, or what the writeback
  registers are about to write into it.\<close>

definition wb_write :: "wb_state \<Rightarrow> (regno \<times> xword) option" where
  "wb_write w = (if wb_valid w \<and> wb_we w then Some (wb_rd w, wb_data w) else None)"

definition backend_regs :: "bonfire_config \<Rightarrow> backend_state \<Rightarrow> regno \<Rightarrow> xword" where
  "backend_regs c s =
     (if exec_wb_stage c then write_reg (wb_write (bk_wb s)) (regfile_arch (bk_rf s))
      else regfile_arch (bk_rf s))"

text \<open>The register write the execute stage retires in a cycle.\<close>

definition backend_retire :: "bonfire_config \<Rightarrow> exec_in \<Rightarrow> exec_state \<Rightarrow> (regno \<times> xword) option" where
  "backend_retire c e x =
     (if exec_reg_we_o c e x \<and> (exec_wb_stage c \<longrightarrow> exec_valid_o c e x)
      then Some (exec_rd_adr_o c e x,
             if exec_wb_stage c then exec_source_value c e x else exec_result_o c e x)
      else None)"

lemma wb_data_source: "wb_data (writeback_seq c False e x) = exec_source_value c e x"
  by (simp add: wb_data_def writeback_seq_def exec_source_value_def split: result_source.split)

lemma wb_write_source:
  "exec_wb_stage c \<Longrightarrow> wb_write (writeback_seq c False e x) = backend_retire c e x"
  unfolding wb_write_def backend_retire_def wb_data_source by (simp add: writeback_seq_def)

lemma backend_regs_step:
  "backend_regs c (backend_step c False i s) =
     write_reg (backend_retire c (backend_exec_in c i s) (bk_exec s)) (backend_regs c s)"
proof (cases "exec_wb_stage c")
  case True
  have "regfile_write_of (backend_rf_in c i s) = wb_write (bk_wb s)"
    using True by (simp add: regfile_write_of_def backend_rf_in_def wb_write_def Let_def)
  then show ?thesis
    using True by (simp add: backend_regs_def backend_step_def wb_write_source regfile_arch_step)
next
  case False
  have "regfile_write_of (backend_rf_in c i s) =
      backend_retire c (backend_exec_in c i s) (bk_exec s)"
    using False by (simp add: regfile_write_of_def backend_rf_in_def backend_retire_def Let_def)
  then show ?thesis
    using False by (simp add: backend_regs_def backend_step_def regfile_arch_step)
qed

lemma backend_regs_zero [simp]: "backend_regs c s 0 = 0"
  by (simp add: backend_regs_def write_reg_def regfile_arch_def split: option.splits)

subsection \<open>Reachable states\<close>

text \<open>The instruction stream is legal (loads are aligned and have a defined width), and a
  debug register transfer finds the decode stage empty and the fetch unit silent, as it is
  when the hart is halted.\<close>

definition backend_env_ok :: "bonfire_config \<Rightarrow> backend_in \<Rightarrow> backend_state \<Rightarrow> bool" where
  "backend_env_ok c i s \<longleftrightarrow>
     (rt_valid (bk_transfer i) \<longrightarrow> \<not> fb_en_i (bk_fetch i) \<and> \<not> de_valid_o (bk_dec s)) \<and>
     (let e = backend_exec_in c i s in
      exec_taken c e (bk_exec s) \<and> de_load_cmd (bk_dec s) \<longrightarrow>
        \<not> ls_misalign (exec_ls_in c e (bk_exec s)) \<and> \<not> ls_invalid_op (exec_ls_in c e (bk_exec s)))"

inductive backend_reachable :: "bonfire_config \<Rightarrow> backend_state \<Rightarrow> bool" for c where
  backend_start: "backend_reachable c (backend_init c)"
| backend_reset: "backend_reachable c s \<Longrightarrow> backend_reachable c (backend_step c True i s)"
| backend_edge: "backend_reachable c s \<Longrightarrow> backend_env_ok c i s \<Longrightarrow>
     backend_reachable c (backend_step c False i s)"

inductive_cases backend_reachable_cases: "backend_reachable c s"

definition backend_inv :: "bonfire_config \<Rightarrow> backend_state \<Rightarrow> bool" where
  "backend_inv c s \<longleftrightarrow>
     exec_reachable c (bk_exec s) \<and>
     (de_valid_o (bk_dec s) \<longrightarrow> (\<exists>k. decode_class k (bk_dec s))) \<and>
     de_rs1_adr_reg (bk_dec s) = de_source_rs1_o (bk_dec s) \<and>
     de_rs2_adr_reg (bk_dec s) = de_source_rs2_o (bk_dec s) \<and>
     (decode_uses_rs1_o (bk_dec s) \<longrightarrow>
        regfile_rd_a (bk_rf s) = regfile_arch (bk_rf s) (de_source_rs1_o (bk_dec s))) \<and>
     (decode_uses_rs2_o (bk_dec s) \<longrightarrow>
        regfile_rd_b (bk_rf s) = regfile_arch (bk_rf s) (de_source_rs2_o (bk_dec s)))"

text \<open>Every branch of the opcode dispatch that does not flag the word raises one class.\<close>

definition dispatch_classified :: "bool \<times> bool \<times> decode_state \<Rightarrow> bool" where
  "dispatch_classified r \<longleftrightarrow> fst r \<or> (\<exists>k. decode_class k (snd (snd r)))"

lemma dispatch_classified_if:
  "(b \<Longrightarrow> dispatch_classified x) \<Longrightarrow> (\<not> b \<Longrightarrow> dispatch_classified y) \<Longrightarrow>
     dispatch_classified (if b then x else y)"
  by simp

lemma dispatch_classified_leaf:
  "dispatch_classified (True, seen, n)" "decode_class k n \<Longrightarrow> dispatch_classified (v, seen, n)"
  by (auto simp: dispatch_classified_def)

definition no_command :: "decode_state \<Rightarrow> bool" where
  "no_command n \<longleftrightarrow> \<not> de_alu_cmd n \<and> \<not> de_load_cmd n \<and> \<not> de_store_cmd n \<and> \<not> de_branch_cmd n \<and>
     \<not> de_jump_cmd n \<and> \<not> de_jumpr_cmd n \<and> \<not> de_csr_cmd n \<and> \<not> de_sys_cmd n \<and> \<not> de_fence_cmd n"

lemma decode_dispatch_classified: "no_command n \<Longrightarrow> dispatch_classified (decode_dispatch i n)"
  unfolding decode_dispatch_def Let_def
  by (intro dispatch_classified_if;
      (rule dispatch_classified_leaf(1)
       | rule dispatch_classified_leaf(2)[where k = Class_Alu],
           simp add: decode_class_def no_command_def; fail
       | rule dispatch_classified_leaf(2)[where k = Class_Branch],
           simp add: decode_class_def no_command_def; fail
       | rule dispatch_classified_leaf(2)[where k = Class_Jal],
           simp add: decode_class_def no_command_def; fail
       | rule dispatch_classified_leaf(2)[where k = Class_Jalr],
           simp add: decode_class_def no_command_def; fail
       | rule dispatch_classified_leaf(2)[where k = Class_Store],
           simp add: decode_class_def no_command_def; fail
       | rule dispatch_classified_leaf(2)[where k = Class_Load],
           simp add: decode_class_def no_command_def; fail
       | rule dispatch_classified_leaf(2)[where k = Class_Fence],
           simp add: decode_class_def no_command_def; fail
       | rule dispatch_classified_leaf(2)[where k = Class_Sys],
           simp add: decode_class_def no_command_def; fail
       | rule dispatch_classified_leaf(2)[where k = Class_Csr],
           simp add: decode_class_def no_command_def; fail))

lemma decode_accept_class:
  assumes "de_valid_o (decode_accept i s)"
  shows "\<exists>k. decode_class k (decode_accept i s)"
proof -
  obtain v seen n where d: "decode_dispatch i (decode_common i s) = (v, seen, n)"
    by (metis prod_cases3)
  have "no_command (decode_common i s)" by (simp add: no_command_def decode_common_def)
  from decode_dispatch_classified[OF this, of i] have "v \<or> (\<exists>k. decode_class k n)"
    by (simp add: d dispatch_classified_def)
  then show ?thesis
    using assms by (auto simp: decode_accept_def d decode_class_def)
qed

text \<open>The decode stage keeps its stable source addresses, and addresses the register file
  with the sources of the instruction it will hold.\<close>

lemma decode_step_sources:
  assumes reg: "de_rs1_adr_reg s = de_source_rs1_o s" "de_rs2_adr_reg s = de_source_rs2_o s"
    and cls: "de_valid_o s \<longrightarrow> (\<exists>k. decode_class k s)"
    and t: "rt_valid t \<longrightarrow> \<not> de_en_i i \<and> \<not> de_valid_o s" and s': "s' = decode_step False t i s"
  shows "de_rs1_adr_reg s' = de_source_rs1_o s'" "de_rs2_adr_reg s' = de_source_rs2_o s'"
    "de_valid_o s' \<longrightarrow> (\<exists>k. decode_class k s')"
    "decode_uses_rs1_o s' \<longrightarrow> decode_rs1_adr_o t i s = de_source_rs1_o s'"
    "decode_uses_rs2_o s' \<longrightarrow> decode_rs2_adr_o i s = de_source_rs2_o s'"
proof -
  consider (transfer) "rt_valid t" "rt_write t" | (kill) "\<not> (rt_valid t \<and> rt_write t)" "de_kill_i i"
    | (hold) "\<not> rt_valid t" "\<not> de_kill_i i" "decode_downstream_busy i s"
    | (accept) "\<not> rt_valid t" "\<not> de_kill_i i" "\<not> decode_downstream_busy i s" "de_en_i i"
    | (idle) "\<not> (rt_valid t \<and> rt_write t)" "\<not> de_kill_i i" "\<not> decode_downstream_busy i s"
        "\<not> de_en_i i"
    using t by (auto simp: decode_downstream_busy_def)
  then have "de_rs1_adr_reg s' = de_source_rs1_o s' \<and> de_rs2_adr_reg s' = de_source_rs2_o s' \<and>
    (de_valid_o s' \<longrightarrow> (\<exists>k. decode_class k s')) \<and>
    (decode_uses_rs1_o s' \<longrightarrow> decode_rs1_adr_o t i s = de_source_rs1_o s') \<and>
    (decode_uses_rs2_o s' \<longrightarrow> decode_rs2_adr_o i s = de_source_rs2_o s')"
  proof cases
    case transfer
    then have "s' = decode_transfer t s" by (simp add: s' decode_step_def decode_op_def)
    moreover have "decode_class Class_Alu (decode_transfer t s)"
      by (simp add: decode_transfer_def decode_class_def)
    ultimately show ?thesis
      using reg by (auto simp: decode_transfer_def decode_uses_rs1_o_def decode_uses_rs2_o_def)
  next
    case kill
    then show ?thesis using reg
      by (auto simp: s' decode_step_def decode_op_def decode_uses_rs1_o_def decode_uses_rs2_o_def)
  next
    case hold
    then have "s' = s" by (simp add: s' decode_step_def decode_op_def)
    then show ?thesis using reg cls hold
      by (simp add: decode_rs1_adr_o_def decode_rs2_adr_o_def)
  next
    case accept
    then have "s' = decode_accept i s" by (simp add: s' decode_step_def decode_op_def)
    moreover have "de_rs1_adr_reg (decode_accept i s) = bv_slice 20 15 (de_word_i i)"
      "de_source_rs1_o (decode_accept i s) = bv_slice 20 15 (de_word_i i)"
      "de_rs2_adr_reg (decode_accept i s) = bv_slice 25 20 (de_word_i i)"
      "de_source_rs2_o (decode_accept i s) = bv_slice 25 20 (de_word_i i)"
      by (simp_all add: decode_accept_defs)
    ultimately show ?thesis using accept decode_accept_class[of i s]
      by (simp add: decode_rs1_adr_o_def decode_rs2_adr_o_def)
  next
    case idle
    then show ?thesis using reg
      by (auto simp: s' decode_step_def decode_op_def decode_uses_rs1_o_def decode_uses_rs2_o_def)
  qed
  then show "de_rs1_adr_reg s' = de_source_rs1_o s'" "de_rs2_adr_reg s' = de_source_rs2_o s'"
    "de_valid_o s' \<longrightarrow> (\<exists>k. decode_class k s')"
    "decode_uses_rs1_o s' \<longrightarrow> decode_rs1_adr_o t i s = de_source_rs1_o s'"
    "decode_uses_rs2_o s' \<longrightarrow> decode_rs2_adr_o i s = de_source_rs2_o s'"
    by blast+
qed

lemma backend_inv_init: "backend_inv c (backend_init c)"
  by (simp add: backend_inv_def backend_init_def reach_init decode_init_def decode_uses_rs1_o_def
      decode_uses_rs2_o_def)

lemma backend_inv_reset: "backend_inv c s \<Longrightarrow> backend_inv c (backend_step c True i s)"
  by (simp add: backend_inv_def backend_step_def reach_reset decode_step_def decode_init_def
      decode_uses_rs1_o_def decode_uses_rs2_o_def)

lemma backend_inv_step:
  assumes inv: "backend_inv c s" and env: "backend_env_ok c i s"
  shows "backend_inv c (backend_step c False i s)"
proof -
  let ?s = "backend_step c False i s" and ?d = "backend_dec_in c i s" and ?e = "backend_exec_in c i s"
  have dec: "ex_dec ?e = bk_dec s" by (simp add: backend_exec_in_def Let_def)
  have "exec_legal c ?e (bk_exec s)"
    using inv env unfolding exec_legal_def backend_inv_def backend_env_ok_def dec Let_def
    by (auto simp: exec_taken_def dec)
  then have reach: "exec_reachable c (bk_exec ?s)"
    using inv by (simp add: backend_inv_def backend_step_def reach_step)
  have t: "rt_valid (bk_transfer i) \<longrightarrow> \<not> de_en_i ?d \<and> \<not> de_valid_o (bk_dec s)"
    using env by (simp add: backend_env_ok_def backend_dec_in_def backend_dec_data_def)
  have s': "bk_dec ?s = decode_step False (bk_transfer i) ?d (bk_dec s)"
    by (simp add: backend_step_def)
  note src = decode_step_sources[OF _ _ _ t s']
  have rf: "regfile_rd_a (bk_rf ?s) = regfile_arch (bk_rf ?s) (decode_rs1_adr_o (bk_transfer i) ?d (bk_dec s))"
    "regfile_rd_b (bk_rf ?s) = regfile_arch (bk_rf ?s) (decode_rs2_adr_o ?d (bk_dec s))"
    unfolding backend_step_def by (simp_all add: regfile_rd_step) (simp_all add: backend_rf_in_def Let_def)
  show ?thesis
    using inv src reach unfolding backend_inv_def rf by simp
qed

lemma backend_reachable_inv: "backend_reachable c s \<Longrightarrow> backend_inv c s"
  by (induction rule: backend_reachable.induct)
    (auto intro: backend_inv_init backend_inv_reset backend_inv_step)

subsection \<open>Operands\<close>

text \<open>Whether the value comes from the register file, from the forwarding path, or after the
  interlock, an instruction is taken with the architectural values of its sources.\<close>

lemma backend_exec_fields [simp]:
  "ex_dec (backend_exec_in c i s) = bk_dec s"
  "ex_bus_i (backend_exec_in c i s) = bk_bus_i i"
  "ex_debug_flush_i (backend_exec_in c i s) = bk_debug_flush i"
  "ex_progbuf_active_i (backend_exec_in c i s) = bk_progbuf_active i"
  by (simp_all add: backend_exec_in_def Let_def)

lemma backend_operand1:
  assumes inv: "backend_inv c s" and c: "core_config_ok c"
    and taken: "exec_taken c (backend_exec_in c i s) (bk_exec s)"
    and uses: "decode_uses_rs1_o (bk_dec s)" "\<not> de_rs1_immediate (bk_dec s)"
  shows "exec_op1 c (backend_exec_in c i s) = backend_regs c s (de_source_rs1_o (bk_dec s))"
proof -
  have port: "regfile_rd_a (bk_rf s) = regfile_arch (bk_rf s) (de_source_rs1_o (bk_dec s))"
    using inv uses by (simp add: backend_inv_def)
  have "\<not> ex_hazard_i (backend_exec_in c i s)" "de_valid_o (bk_dec s)"
    using taken by (simp_all add: exec_taken_def exec_busy_def)
  then show ?thesis
    using port uses c
    by (auto simp: backend_regs_def wb_write_def write_reg_def exec_op1_def exec_forward1_def
        backend_exec_in_def decode_op1_o_def backend_dec_data_def four_stage_hazard_def
        core_config_ok_def exec_wb_stage_def Let_def)
qed

lemma backend_operand2:
  assumes inv: "backend_inv c s" and c: "core_config_ok c"
    and taken: "exec_taken c (backend_exec_in c i s) (bk_exec s)"
    and uses: "decode_uses_rs2_o (bk_dec s)" "\<not> de_rs2_immediate (bk_dec s)"
  shows "exec_op2 c (backend_exec_in c i s) = backend_regs c s (de_source_rs2_o (bk_dec s))"
proof -
  have port: "regfile_rd_b (bk_rf s) = regfile_arch (bk_rf s) (de_source_rs2_o (bk_dec s))"
    using inv uses by (simp add: backend_inv_def)
  have "\<not> ex_hazard_i (backend_exec_in c i s)" "de_valid_o (bk_dec s)"
    using taken by (simp_all add: exec_taken_def exec_busy_def)
  then show ?thesis
    using port uses c
    by (auto simp: backend_regs_def wb_write_def write_reg_def exec_op2_def exec_forward2_def
        backend_exec_in_def decode_op2_o_def backend_dec_data_def four_stage_hazard_def
        core_config_ok_def exec_wb_stage_def Let_def)
qed

lemma exec_op_immediate:
  assumes "core_config_ok c"
  shows "de_rs1_immediate (bk_dec s) \<Longrightarrow> \<not> decode_uses_rs1_o (bk_dec s) \<Longrightarrow>
      exec_op1 c (backend_exec_in c i s) = de_rs1_imm_value (bk_dec s)"
    "de_rs2_immediate (bk_dec s) \<Longrightarrow> \<not> decode_uses_rs2_o (bk_dec s) \<Longrightarrow>
      exec_op2 c (backend_exec_in c i s) = de_rs2_imm_value (bk_dec s)"
  by (simp_all add: exec_op1_def exec_forward1_def exec_op2_def exec_forward2_def
      backend_exec_in_def decode_op1_o_def decode_op2_o_def Let_def)

text \<open>The source values of an instruction in a register state, and what the ISA writes.\<close>

definition rs1_value :: "(regno \<Rightarrow> xword) \<Rightarrow> rv_instr \<Rightarrow> xword" where
  "rs1_value R ins = (case rv_reads_rs1 ins of None \<Rightarrow> 0 | Some r \<Rightarrow> R r)"

definition rs2_value :: "(regno \<Rightarrow> xword) \<Rightarrow> rv_instr \<Rightarrow> xword" where
  "rs2_value R ins = (case rv_reads_rs2 ins of None \<Rightarrow> 0 | Some r \<Rightarrow> R r)"

definition isa_write ::
  "(regno \<Rightarrow> xword) \<Rightarrow> rv_instr \<Rightarrow> xword \<Rightarrow> xword \<Rightarrow> (regno \<times> xword) option" where
  "isa_write R ins pc npc =
     map_option (\<lambda>rd. (rd, case isa_compute ins pc (rs1_value R ins) (rs2_value R ins) of
                             Some v \<Rightarrow> v | None \<Rightarrow> npc)) (rv_dest ins)"

lemma isa_operand_cong:
  assumes "rv_reads_rs1 ins \<noteq> None \<longrightarrow> a = a'" "rv_reads_rs2 ins \<noteq> None \<longrightarrow> b = b'"
  shows "isa_compute ins pc a b = isa_compute ins pc a' b'"
    "isa_target ins pc a b = isa_target ins pc a' b'"
  using assms by (cases ins; simp)+

lemma decoded_immediate:
  assumes "decoded ins pc npc d" "class_of ins \<in> {Class_Alu, Class_Jalr, Class_Branch}"
  shows "de_rs1_immediate d = (rv_reads_rs1 ins = None)" "de_rs2_immediate d = (rv_reads_rs2 ins = None)"
  using assms by (cases ins; simp add: decoded_def imm_operands_def)+

lemma backend_exec_operands:
  assumes inv: "backend_inv c s" and c: "core_config_ok c"
    and taken: "exec_taken c (backend_exec_in c i s) (bk_exec s)"
    and dec: "decoded ins pc npc (bk_dec s)"
    and cls: "class_of ins \<in> {Class_Alu, Class_Jal, Class_Jalr, Class_Branch}"
  shows "\<exists>a b. exec_operands c (backend_exec_in c i s) a b \<and>
     (rv_reads_rs1 ins \<noteq> None \<longrightarrow> a = rs1_value (backend_regs c s) ins) \<and>
     (rv_reads_rs2 ins \<noteq> None \<longrightarrow> b = rs2_value (backend_regs c s) ins)"
proof -
  let ?e = "backend_exec_in c i s" and ?R = "backend_regs c s"
  note uses = decoded_uses[OF dec]
  have src: "\<And>r. rv_reads_rs1 ins = Some r \<Longrightarrow> de_source_rs1_o (bk_dec s) = r"
    "\<And>r. rv_reads_rs2 ins = Some r \<Longrightarrow> de_source_rs2_o (bk_dec s) = r"
    using uses(3) dec by (simp_all add: decoded_def)
  have op1: "rv_reads_rs1 ins = Some r \<Longrightarrow> exec_op1 c ?e = ?R r" for r
    using backend_operand1[OF inv c taken] uses(1) src(1)
      decoded_immediate(1)[OF dec] cls by (cases ins) auto
  have op2: "rv_reads_rs2 ins = Some r \<Longrightarrow> exec_op2 c ?e = ?R r" for r
    using backend_operand2[OF inv c taken] uses(2) src(2)
      decoded_immediate(2)[OF dec] cls by (cases ins) auto
  have none1: "rv_reads_rs1 ins = None \<Longrightarrow> de_rs1_immediate (bk_dec s) \<Longrightarrow>
      exec_op1 c ?e = de_rs1_imm_value (bk_dec s)"
    and none2: "rv_reads_rs2 ins = None \<Longrightarrow> de_rs2_immediate (bk_dec s) \<Longrightarrow>
      exec_op2 c ?e = de_rs2_imm_value (bk_dec s)"
    using exec_op_immediate[OF c, of s i] uses by simp_all
  have imm: "rv_reads_rs1 ins \<noteq> None \<Longrightarrow> \<not> de_rs1_immediate (bk_dec s)"
    "rv_reads_rs2 ins \<noteq> None \<Longrightarrow> \<not> de_rs2_immediate (bk_dec s)"
    using decoded_immediate[OF dec] cls by (cases ins; simp)+
  have "exec_operands c ?e (exec_op1 c ?e) (exec_op2 c ?e)"
    unfolding exec_operands_def
    using none1 none2 imm by auto
  moreover have "rv_reads_rs1 ins \<noteq> None \<longrightarrow> exec_op1 c ?e = rs1_value ?R ins"
    "rv_reads_rs2 ins \<noteq> None \<longrightarrow> exec_op2 c ?e = rs2_value ?R ins"
    using op1 op2 by (auto simp: rs1_value_def rs2_value_def)
  ultimately show ?thesis by blast
qed

lemma backend_instruction_steps:
  assumes inv: "backend_inv c s"
    and c: "core_config_ok c" "exec_config_ok c" "registered_read_stage c"
      "shifter_mode c \<in> {Shift_Comb, Shift_Pipelined}"
    and taken: "exec_taken c (backend_exec_in c i s) (bk_exec s)"
    and dec: "decoded ins pc npc (bk_dec s)"
    and cls: "class_of ins \<in> {Class_Alu, Class_Jal, Class_Jalr, Class_Branch}"
    and sh: "rv_is_shift ins \<longrightarrow> shifter_mode c = Shift_Comb"
    and even: "\<forall>rd rs1 imm. ins = Jalr rd rs1 imm \<longrightarrow>
       \<not> bit (rs1_value (backend_regs c s) ins + imm_i imm) 0"
  shows "backend_retire c (backend_exec_in c i s) (bk_exec s) =
      isa_write (backend_regs c s) ins pc npc"
    and "isa_target ins pc (rs1_value (backend_regs c s) ins) (rs2_value (backend_regs c s) ins) =
      (let j = exec_jump_comb c (backend_exec_in c i s) (bk_exec s) in
       if ej_jump j then Some (ej_jump_dest j) else None)"
proof -
  let ?e = "backend_exec_in c i s" and ?R = "backend_regs c s"
  obtain a b where ops: "exec_operands c ?e a b"
    and a: "rv_reads_rs1 ins \<noteq> None \<longrightarrow> a = rs1_value ?R ins"
    and b: "rv_reads_rs2 ins \<noteq> None \<longrightarrow> b = rs2_value ?R ins"
    using backend_exec_operands[OF inv c(1) taken dec cls] by blast
  have xr: "exec_reachable c (bk_exec s)" using inv by (simp add: backend_inv_def)
  have ev: "\<forall>rd rs1 imm. ins = Jalr rd rs1 imm \<longrightarrow> \<not> bit (a + imm_i imm) 0"
    using even a by auto
  have decx: "decoded ins pc npc (ex_dec ?e)" using dec by simp
  note x = exec_instruction_lemma[OF xr c(2,3,4) taken decx ops cls sh ev]
  note cong = isa_operand_cong[OF a b, of pc]
  show "backend_retire c ?e (bk_exec s) = isa_write ?R ins pc npc"
    using x unfolding backend_retire_def isa_write_def cong[symmetric]
    by (cases "rv_dest ins") (auto split: option.splits)
  show "isa_target ins pc (rs1_value ?R ins) (rs2_value ?R ins) =
      (let j = exec_jump_comb c ?e (bk_exec s) in
       if ej_jump j then Some (ej_jump_dest j) else None)"
    using x unfolding cong[symmetric] Let_def by auto
qed

text \<open>What a cycle does to the stages when a jump is taken: with the bypass the word behind it
  is killed on its way into the decode stage; without, one cycle later.\<close>

lemma decode_step_kill:
  "de_kill_i i \<Longrightarrow> \<not> (rt_valid t \<and> rt_write t) \<Longrightarrow> \<not> de_valid_o (decode_step False t i s)"
  by (auto simp: decode_step_def decode_op_def)

lemma backend_step_stages:
  "bk_exec (backend_step c r i s) = exec_step c r (backend_exec_in c i s) (bk_exec s)"
  "bk_dec (backend_step c r i s) =
     decode_step r (bk_transfer i) (backend_dec_in c i s) (bk_dec s)"
  by (simp_all add: backend_step_def)

lemma exec_step_jump_regs:
  assumes "exec_taken c e x"
  shows "ex_jump_r (exec_step c False e x) = ej_jump (exec_jump_comb c e x)"
    "ex_jump_dest_r (exec_step c False e x) = ej_jump_dest (exec_jump_comb c e x)"
    "ex_jump_busy (exec_step c False e x) = (ej_jump (exec_jump_comb c e x) \<and> \<not> jump_bypass c)"
  using assms
  by (simp_all add: exec_step_def exec_units_step_def exec_seq_def exec_pending_seq_def Let_def)

subsection \<open>What the backends promise\<close>

text \<open>
  C2: Both backends execute the ISA one instruction at a time on the architectural registers.
  In every reachable state of the three-stage pipeline, and of the four-stage pipeline with the
  interlock or with forwarding: an instruction of the register, jump and branch classes that the
  execute stage takes (with the pipelined shifter, not a shift; a JALR target must be even)
  changes the registers the program sees by exactly the write of the ISA, computed from the
  registers the program sees, and asks for a jump exactly when and where the ISA goes. No value
  is read too early and none is written twice, whatever is in flight.
\<close>

theorem backend_instruction:
  assumes reach: "backend_reachable c s"
    and c: "core_config_ok c" "exec_config_ok c" "registered_read_stage c"
      "shifter_mode c \<in> {Shift_Comb, Shift_Pipelined}"
    and taken: "exec_taken c (backend_exec_in c i s) (bk_exec s)"
    and dec: "decoded ins pc npc (bk_dec s)"
    and cls: "class_of ins \<in> {Class_Alu, Class_Jal, Class_Jalr, Class_Branch}"
    and sh: "rv_is_shift ins \<longrightarrow> shifter_mode c = Shift_Comb"
    and even: "\<forall>rd rs1 imm. ins = Jalr rd rs1 imm \<longrightarrow>
       \<not> bit (rs1_value (backend_regs c s) ins + imm_i imm) 0"
  shows "let R = backend_regs c s; s' = backend_step c False i s;
             t = isa_target ins pc (rs1_value R ins) (rs2_value R ins)
         in backend_regs c s' = write_reg (isa_write R ins pc npc) R \<and>
            (jump_bypass c \<and> \<not> bk_redirect_valid i \<longrightarrow>
               (if backend_jump_o c i s then Some (backend_jump_dest_o c i s) else None) = t) \<and>
            (\<not> jump_bypass c \<longrightarrow>
               (if ex_jump_r (bk_exec s') then Some (ex_jump_dest_r (bk_exec s')) else None) = t)"
  using backend_instruction_steps[OF backend_reachable_inv[OF reach] assms(2-)] taken
  by (auto simp: Let_def backend_regs_step backend_jump_o_def backend_jump_dest_o_def
      exec_jump_o_def exec_jump_dest_o_def backend_step_stages exec_step_jump_regs)

text \<open>A first instruction, fetched into an idle pipeline.\<close>

definition first_fetch :: "xword \<Rightarrow> backend_in" where
  "first_fetch word = no_debug_in
     \<lparr>fb_en_i = True, fb_word_i = word, fb_current_ip_i = 0x100, fb_next_ip_i = 0x104,
      fb_redirect_pending_i = False\<rparr>
     \<lparr>db_stall_i = False, db_ack_i = False, db_error_i = False, db_rd = 0\<rparr>"

lemma first_fetch_decoded:
  "decoded ins 0x100 0x104 (bk_dec (backend_step c False (first_fetch (rv_encode ins))
      (backend_init c)))"
proof -
  let ?i = "first_fetch (rv_encode ins)" and ?d = "backend_dec_in c (first_fetch (rv_encode ins)) (backend_init c)"
  have nt: "\<not> exec_taken c (backend_exec_in c ?i (backend_init c)) (bk_exec (backend_init c))"
    by (simp add: exec_taken_def) (simp add: backend_init_def decode_init_def)
  then have "\<not> de_kill_i ?d"
    by (simp add: backend_dec_in_def exec_kill_def)
      (simp add: backend_init_def exec_init_def first_fetch_def no_debug_in_def)
  moreover have "\<not> decode_downstream_busy ?d (bk_dec (backend_init c))"
    by (simp add: decode_downstream_busy_def backend_init_def decode_init_def)
  moreover have "de_en_i ?d" "\<not> rt_valid (bk_transfer ?i)" "de_word_i ?d = rv_encode ins"
    "de_current_ip_i ?d = 0x100" "de_next_ip_i ?d = 0x104"
    by (simp_all add: backend_dec_in_def backend_dec_data_def first_fetch_def no_debug_in_def
        no_transfer_def)
  ultimately show ?thesis
    using decode_accept_decoded[of ?d ins]
    by (simp add: backend_step_stages decode_step_def decode_op_def)
qed

lemma first_fetch_reachable:
  "backend_reachable c (backend_step c False (first_fetch w) (backend_init c))"
  by (rule backend_edge[OF backend_start])
    (simp add: backend_env_ok_def first_fetch_def no_debug_in_def no_transfer_def
      exec_taken_def Let_def, simp add: backend_init_def decode_init_def)

lemma backend_instruction_witness:
  "backend_regs default_config
     (backend_step default_config False (first_fetch 0)
       (backend_step default_config False (first_fetch (rv_encode (OpImm Addi 1 0 5)))
         (backend_init default_config))) 1 = 5"
proof -
  let ?s = "backend_step default_config False (first_fetch (rv_encode (OpImm Addi 1 0 5)))
      (backend_init default_config)"
  have "exec_taken default_config (backend_exec_in default_config (first_fetch 0) ?s) (bk_exec ?s)"
    by code_simp
  from backend_instruction[OF first_fetch_reachable _ _ _ _ this first_fetch_decoded]
  have "backend_regs default_config (backend_step default_config False (first_fetch 0) ?s) =
      write_reg (isa_write (backend_regs default_config ?s) (OpImm Addi 1 0 5) 0x100 0x104)
        (backend_regs default_config ?s)"
    by (simp add: core_config_ok_default exec_config_ok_def rv_is_shift_def Let_def)
  then show ?thesis
    by (simp add: write_reg_Some isa_write_def rs1_value_def) (simp add: imm_i_def)
qed

text \<open>
  No instruction of the wrong path executes. When a taken instruction jumps (a branch, a
  jump, a trap or a trap return) and no debug write intervenes, the next cycle shows an empty
  decode stage with the bypass; without it the next cycle takes nothing, announces the jump to
  the fetch unit with its target, and the cycle after it finds the decode stage empty.
\<close>

theorem backend_no_wrong_path:
  assumes taken: "exec_taken c (backend_exec_in c i s) (bk_exec s)"
    and jump: "ej_jump (exec_jump_comb c (backend_exec_in c i s) (bk_exec s))"
    and t: "\<not> rt_valid (bk_transfer i)" "\<not> rt_valid (bk_transfer j)"
  shows "let s' = backend_step c False i s; s'' = backend_step c False j s' in
     (jump_bypass c \<longrightarrow> \<not> de_valid_o (bk_dec s')) \<and>
     (\<not> jump_bypass c \<longrightarrow>
        \<not> exec_taken c (backend_exec_in c j s') (bk_exec s') \<and> backend_jump_o c j s' \<and>
        (\<not> bk_redirect_valid j \<longrightarrow> backend_jump_dest_o c j s' =
           ej_jump_dest (exec_jump_comb c (backend_exec_in c i s) (bk_exec s))) \<and>
        \<not> de_valid_o (bk_dec s''))"
proof -
  let ?s = "backend_step c False i s"
  have x: "bk_exec ?s = exec_step c False (backend_exec_in c i s) (bk_exec s)"
    by (simp add: backend_step_def)
  note regs = exec_step_jump_regs[OF taken, folded x]
  have bypass: "\<not> de_valid_o (bk_dec ?s)" if "jump_bypass c"
    unfolding backend_step_def
    using that taken jump t(1) by (simp add: decode_step_kill backend_dec_in_def exec_kill_def)
  have busy: "exec_busy c (backend_exec_in c j ?s) (bk_exec ?s)" if "\<not> jump_bypass c"
    using that jump regs(3) by (simp add: exec_busy_def)
  have kill: "\<not> de_valid_o (bk_dec (backend_step c False j ?s))" if "\<not> jump_bypass c"
    unfolding backend_step_def[of c False j ?s]
    using that jump t(2) regs(3) by (simp add: decode_step_kill backend_dec_in_def exec_kill_def)
  show ?thesis
    unfolding Let_def
    using bypass busy kill regs jump
    by (auto simp: exec_taken_def backend_jump_o_def backend_jump_dest_o_def exec_jump_o_def
        exec_jump_dest_o_def)
qed

lemma backend_no_wrong_path_witness:
  "let s = backend_step default_config False (first_fetch (rv_encode (Jal 1 0x400)))
             (backend_init default_config)
   in \<not> de_valid_o (bk_dec (backend_step default_config False (first_fetch 0x13) s))"
proof -
  define s where "s = backend_step default_config False (first_fetch (rv_encode (Jal 1 0x400)))
      (backend_init default_config)"
  have taken: "exec_taken default_config (backend_exec_in default_config (first_fetch 0x13) s)
      (bk_exec s)"
    unfolding s_def by code_simp
  have jump: "ej_jump (exec_jump_comb default_config
      (backend_exec_in default_config (first_fetch 0x13) s) (bk_exec s))"
    unfolding s_def by code_simp
  show ?thesis
    unfolding s_def[symmetric] Let_def
    using backend_no_wrong_path[OF taken jump, of "first_fetch 0"]
    by (simp add: first_fetch_def no_debug_in_def no_transfer_def Let_def)
qed

end
