(* ===== verification/Core_Program.thy ===== *)
theory Core_Program
  imports Pipeline
begin

text \<open>
  The core runs programs. The core (fetch unit, decode, execute and write-back of either
  pipeline) is connected to an instruction memory that answers in the next cycle and to a data
  memory with arbitrary stalls and wait states, and is compared with the instruction set machine:
  a program counter, 32 registers and a memory of words, one instruction per step. The
  abstraction function reads the architectural state off the registers of the pipeline, whatever
  is in flight; every clock edge is a step of the machine or leaves the architectural state
  alone, and a bound on the cycles between two steps makes the core live.
\<close>

subsection \<open>The instruction set machine\<close>

record isa_state =
  is_pc :: xword
  is_regs :: "regno \<Rightarrow> xword"
  is_mem :: "30 word \<Rightarrow> xword"

definition data_word :: "xword \<Rightarrow> 30 word" where
  "data_word adr = bv_slice 32 2 adr"

definition isa_step :: "(xword \<Rightarrow> rv_instr) \<Rightarrow> isa_state \<Rightarrow> isa_state" where
  "isa_step prog s =
     (let ins = prog (is_pc s); R = is_regs s; M = is_mem s;
          a = rs1_value R ins; b = rs2_value R ins in
      case ins of
        Load op rd rs1 imm \<Rightarrow>
          (let adr = a + imm_i imm in
           \<lparr>is_pc = is_pc s + 4,
            is_regs = write_reg (Some (rd, isa_load op adr (M (data_word adr)))) R, is_mem = M\<rparr>)
      | Store op rs1 rs2 imm \<Rightarrow>
          (let adr = a + imm_i imm in
           \<lparr>is_pc = is_pc s + 4, is_regs = R,
            is_mem = M(data_word adr := isa_store op adr b (M (data_word adr)))\<rparr>)
      | _ \<Rightarrow>
          \<lparr>is_pc = (case isa_target ins (is_pc s) a b of Some t \<Rightarrow> t | None \<Rightarrow> is_pc s + 4),
           is_regs = write_reg (isa_write R ins (is_pc s) (is_pc s + 4)) R, is_mem = M\<rparr>)"

text \<open>What a program must keep to: no CSR or system instructions, aligned accesses, even
  \<open>JALR\<close> targets, and no instruction in the last words of the address space, where the fetch
  unit's pointer would leave its range.\<close>

definition isa_legal :: "(xword \<Rightarrow> rv_instr) \<Rightarrow> isa_state \<Rightarrow> bool" where
  "isa_legal prog s =
     (let ins = prog (is_pc s); a = rs1_value (is_regs s) ins in
      uint (is_pc s) + 16 < 2 ^ 32 \<and>
      (case ins of
         Load op rd rs1 imm \<Rightarrow> load_aligned op (a + imm_i imm)
       | Store op rs1 rs2 imm \<Rightarrow> store_aligned op (a + imm_i imm)
       | Jalr rd rs1 imm \<Rightarrow> \<not> bit (a + imm_i imm) 0
       | _ \<Rightarrow> class_of ins \<notin> {Class_Csr, Class_Sys}))"

subsection \<open>The core and its memories\<close>

text \<open>\<open>ps_fetching\<close> is the address of the instruction request being answered, \<open>ps_read\<close> the
  word read for the data request that was accepted and is not answered yet. The environment
  chooses, in every cycle, whether the data memory stalls, whether it answers if it has
  something to answer, and what the data lines carry otherwise.\<close>

record program_system =
  ps_core :: core_state
  ps_fetching :: "xword option"
  ps_read :: "xword option"
  ps_mem :: "30 word \<Rightarrow> xword"

record memory_choice =
  mc_stall :: bool
  mc_ack :: bool
  mc_junk :: xword

definition write_request :: "dbus_req \<Rightarrow> (30 word \<Rightarrow> xword) \<Rightarrow> 30 word \<Rightarrow> xword" where
  "write_request r M = M(data_word (db_adr_o r) :=
     merge_lanes (db_we_o r) (db_wr r) (M (data_word (db_adr_o r))))"

definition ps_request :: "program_system \<Rightarrow> dbus_req" where
  "ps_request s = ls_req (ex_ls (bk_exec (core_backend (ps_core s))))"

definition ps_accept :: "memory_choice \<Rightarrow> program_system \<Rightarrow> bool" where
  "ps_accept e s \<longleftrightarrow> db_en_o (ps_request s) \<and> \<not> mc_stall e"

text \<open>The word an answer carries: the one read when the request was accepted.\<close>

definition ps_word :: "program_system \<Rightarrow> xword" where
  "ps_word s = (case ps_read s of Some d \<Rightarrow> d
                | None \<Rightarrow> ps_mem s (data_word (db_adr_o (ps_request s))))"

definition ps_answer :: "memory_choice \<Rightarrow> program_system \<Rightarrow> bool" where
  "ps_answer e s \<longleftrightarrow> mc_ack e \<and> (ps_accept e s \<or> ps_read s \<noteq> None)"

definition ps_dbus :: "memory_choice \<Rightarrow> program_system \<Rightarrow> dbus_rsp" where
  "ps_dbus e s = \<lparr>db_stall_i = mc_stall e, db_ack_i = ps_answer e s, db_error_i = False,
     db_rd = (if ps_answer e s then ps_word s else mc_junk e)\<rparr>"

definition ps_ibus :: "(xword \<Rightarrow> xword) \<Rightarrow> program_system \<Rightarrow> dbus_rsp" where
  "ps_ibus imem s = \<lparr>db_stall_i = False, db_ack_i = (ps_fetching s \<noteq> None), db_error_i = False,
     db_rd = (case ps_fetching s of None \<Rightarrow> 0 | Some a \<Rightarrow> imem a)\<rparr>"

definition ps_step ::
  "bonfire_config \<Rightarrow> (xword \<Rightarrow> xword) \<Rightarrow> memory_choice \<Rightarrow> program_system \<Rightarrow> program_system option" where
  "ps_step c imem e s =
     (let f = core_fetch (ps_core s);
          fi = core_fetch_in c (ps_ibus imem s) (ps_dbus e s) (ps_core s) in
      map_option (\<lambda>k.
        \<lparr>ps_core = k,
         ps_fetching = (if fetch_en fi f then Some (fetch_ibus_adr_o f) else None),
         ps_read = (if ps_answer e s then None
                    else if ps_accept e s then Some (ps_word s) else ps_read s),
         ps_mem = (if ps_accept e s then write_request (ps_request s) (ps_mem s) else ps_mem s)\<rparr>)
        (core_step c False (ps_ibus imem s) (ps_dbus e s) (ps_core s)))"

fun ps_run ::
  "bonfire_config \<Rightarrow> (xword \<Rightarrow> xword) \<Rightarrow> memory_choice list \<Rightarrow> program_system \<Rightarrow> program_system option" where
  "ps_run c imem [] s = Some s"
| "ps_run c imem (e # es) s =
     (case ps_step c imem e s of None \<Rightarrow> None | Some t \<Rightarrow> ps_run c imem es t)"

definition ps_init :: "bonfire_config \<Rightarrow> (30 word \<Rightarrow> xword) \<Rightarrow> program_system" where
  "ps_init c M = \<lparr>ps_core = core_init c, ps_fetching = None, ps_read = None, ps_mem = M\<rparr>"

subsection \<open>The architectural state of the pipeline\<close>

abbreviation (input) ps_backend :: "program_system \<Rightarrow> backend_state" where
  "ps_backend s \<equiv> core_backend (ps_core s)"

abbreviation (input) ps_exec :: "program_system \<Rightarrow> exec_state" where
  "ps_exec s \<equiv> bk_exec (core_backend (ps_core s))"

abbreviation (input) ps_fetch :: "program_system \<Rightarrow> fetch_state" where
  "ps_fetch s \<equiv> core_fetch (ps_core s)"

text \<open>The result of an operation that has left the decode stage and is not retired: of the
  pipelined shifter, of a load that has been answered, or of a load whose word is known.\<close>

definition shift_result :: "exec_state \<Rightarrow> xword" where
  "shift_result x = alu_shifter_out Shift_Pipelined (alu_request Op_Add 0 0) (ex_alu x)"

definition exec_finished :: "exec_state \<Rightarrow> xword option" where
  "exec_finished x =
     (if al_busy_o (ex_alu x) then Some (shift_result x)
      else if ls_valid_reg (ex_ls x) \<and> \<not> lp_store (ls_pipe (ex_ls x) ! 0)
      then Some (ls_result_r (ex_ls x)) else None)"

definition answer_of :: "xword \<Rightarrow> dbus_rsp" where
  "answer_of d = \<lparr>db_stall_i = False, db_ack_i = True, db_error_i = False, db_rd = d\<rparr>"

definition exec_in_flight :: "bonfire_config \<Rightarrow> xword \<Rightarrow> exec_state \<Rightarrow> xword option" where
  "exec_in_flight c d x =
     (if exec_finished x \<noteq> None then exec_finished x
      else if ls_outstanding (ex_ls x) = 1 \<and> \<not> lp_store (ls_pipe (ex_ls x) ! 0)
      then Some (ls_rdmux_out c (answer_of d) (ex_ls x)) else None)"

definition arch_regs :: "bonfire_config \<Rightarrow> program_system \<Rightarrow> regno \<Rightarrow> xword" where
  "arch_regs c s = write_reg
     (map_option (Pair (ex_rd_adr_reg (ps_exec s))) (exec_in_flight c (ps_word s) (ps_exec s)))
     (backend_regs c (ps_backend s))"

definition arch_mem :: "program_system \<Rightarrow> 30 word \<Rightarrow> xword" where
  "arch_mem s = (if db_en_o (ps_request s) then write_request (ps_request s) (ps_mem s) else ps_mem s)"

definition arch_pc :: "program_system \<Rightarrow> xword" where
  "arch_pc s =
     (if ex_jump_busy (ps_exec s) then ex_jump_dest_r (ps_exec s)
      else if de_valid_o (bk_dec (ps_backend s)) then de_mepc_o (bk_dec (ps_backend s))
      else fetch_pc (ps_fetch s) (ps_fetching s))"

definition arch_state :: "bonfire_config \<Rightarrow> program_system \<Rightarrow> isa_state" where
  "arch_state c s = \<lparr>is_pc = arch_pc s, is_regs = arch_regs c s, is_mem = arch_mem s\<rparr>"

subsection \<open>The execute stage between two instructions\<close>

definition program_config_ok :: "bonfire_config \<Rightarrow> bool" where
  "program_config_ok c \<longleftrightarrow> core_config_ok c \<and> exec_config_ok c \<and> registered_read_stage c \<and>
     shifter_mode c \<in> {Shift_Comb, Shift_Pipelined}"

lemma program_config_facts:
  assumes "program_config_ok c"
  shows "core_config_ok c" "exec_config_ok c" "registered_read_stage c"
    "shifter_mode c \<in> {Shift_Comb, Shift_Pipelined}" "loadstore_outstanding c = 1"
    "shifter_mode c \<noteq> Shift_Behavioral"
  using assms by (auto simp: program_config_ok_def exec_config_ok_def)

text \<open>Nothing under way in a unit.\<close>

definition units_idle :: "exec_state \<Rightarrow> bool" where
  "units_idle x \<longleftrightarrow> \<not> al_busy_o (ex_alu x) \<and> ls_outstanding (ex_ls x) = 0 \<and> \<not> ls_valid_reg (ex_ls x)"

lemma shift_result_valid:
  assumes "sh_ready (al_shifter (ex_alu x))"
  shows "al_valid_o (alu_comb Shift_Pipelined a (ex_alu x))"
    "al_res_o (alu_comb Shift_Pipelined a (ex_alu x)) = shift_result x"
  using assms
  by (simp_all add: alu_comb_def alu_shift_valid_def shift_result_def alu_shifter_out_def
      shift_pipelined_ready_o_def shift_pipelined_d_o_def shift_stage_of_def Let_def)

lemma exec_alu_not_taken:
  assumes c: "program_config_ok c" and inv: "exec_inv c x" and nt: "\<not> exec_taken c e x"
  shows "al_valid_o (exec_alu_out c e x) = al_busy_o (ex_alu x)"
    "al_busy_o (ex_alu x) \<Longrightarrow> al_res_o (exec_alu_out c e x) = shift_result x"
proof -
  note cf = program_config_facts[OF c]
  have b: "al_busy_o (ex_alu x) \<Longrightarrow> shifter_mode c = Shift_Pipelined \<and> sh_ready (al_shifter (ex_alu x))"
    using inv by (auto simp: exec_inv_def split: if_splits)
  show "al_valid_o (exec_alu_out c e x) = al_busy_o (ex_alu x)"
  proof
    assume "al_valid_o (exec_alu_out c e x)"
    then have "shifter_mode c = Shift_Pipelined \<and> sh_ready (al_shifter (ex_alu x))"
      using exec_alu_valid_cases[OF cf(6), of e x] nt by blast
    then show "al_busy_o (ex_alu x)" using inv by (simp add: exec_inv_def)
  next
    assume "al_busy_o (ex_alu x)"
    then show "al_valid_o (exec_alu_out c e x)"
      using b shift_result_valid(1) by (simp add: exec_alu_out_def)
  qed
  show "al_busy_o (ex_alu x) \<Longrightarrow> al_res_o (exec_alu_out c e x) = shift_result x"
    using shift_result_valid(2) b by (simp add: exec_alu_out_def)
qed

lemma exec_ls_outputs:
  assumes c: "program_config_ok c"
  shows "ls_we_o c l = (ls_valid_reg l \<and> \<not> lp_store (ls_pipe l ! 0))"
    "ls_we_o c l \<Longrightarrow> ls_valid_o c b l" "ls_result_o c b l = ls_result_r l"
    "ls_outstanding l = 0 \<Longrightarrow> \<not> ls_valid_reg l \<Longrightarrow> \<not> ls_valid_o c b l \<and> \<not> ls_busy_o c b l"
  using program_config_facts[OF c]
  by (auto simp: ls_we_o_def ls_valid_o_def ls_result_o_def write_pipe_index_def ls_valid_comb_def
      ls_confirm_def ls_busy_o_def ls_busy_def ls_capacity_busy_def)

lemma exec_idle_outputs:
  assumes nt: "\<not> exec_taken c e x"
  shows "\<not> exec_csr_valid c e x" "exec_jump_comb c e x = no_jump"
  using nt by (simp_all add: exec_csr_valid_def csr_valid_o_def csr_taken_def exec_csr_in_def
      exec_jump_comb_def Let_def)

text \<open>While the stage takes nothing, it retires exactly what has finished.\<close>

lemma waiting_retire:
  assumes c: "program_config_ok c" and inv: "exec_inv c x" and nt: "\<not> exec_taken c e x"
  shows "backend_retire c e x = map_option (Pair (ex_rd_adr_reg x)) (exec_finished x)"
    "units_idle x \<Longrightarrow> \<not> exec_valid_o c e x"
proof -
  note cf = program_config_facts[OF c]
  note alu = exec_alu_not_taken[OF c inv nt] and quiet = exec_idle_outputs[OF nt]
  note ls = exec_ls_outputs[OF c]
  have load: "ls_we_o c (ex_ls x) \<Longrightarrow> exec_ls_valid c e x \<and> \<not> al_busy_o (ex_alu x) \<and>
      ls_outstanding (ex_ls x) = 0 \<and> (\<not> exec_wb_stage c \<longrightarrow> ex_load_pending x)"
    using inv ls(1,2)[of "ex_ls x"] by (auto simp: exec_inv_def exec_ls_valid_def)
  have shift: "al_busy_o (ex_alu x) \<Longrightarrow> \<not> exec_wb_stage c \<longrightarrow> ex_shift_pending x \<and> \<not> ex_load_pending x"
    using inv by (auto simp: exec_inv_def)
  note outs = exec_reg_we_o_def exec_valid_o_def exec_rd_adr_o_def exec_result_o_def
    exec_source_value_def exec_wb_source_def exec_ls_result_def
  show "backend_retire c e x = map_option (Pair (ex_rd_adr_reg x)) (exec_finished x)"
  proof (cases "al_busy_o (ex_alu x)")
    case True
    then have "\<not> ls_we_o c (ex_ls x)" using load by blast
    with True show ?thesis
      using shift alu quiet nt
      by (simp add: backend_retire_def exec_finished_def outs no_jump_def)
  next
    case busy: False
    show ?thesis
    proof (cases "ls_we_o c (ex_ls x)")
      case True
      with busy show ?thesis
        using load[OF True] alu(1) quiet nt ls(1)[of "ex_ls x"] ls(3)[of "ex_bus_i e" "ex_ls x"]
        by (simp add: backend_retire_def exec_finished_def outs no_jump_def)
    next
      case False
      with busy show ?thesis
        using alu(1) quiet ls(1)[of "ex_ls x"]
        by (auto simp: backend_retire_def exec_finished_def exec_reg_we_o_def no_jump_def)
    qed
  qed
  show "units_idle x \<Longrightarrow> \<not> exec_valid_o c e x"
    using alu quiet ls(4)[of "ex_ls x"]
    by (simp add: units_idle_def exec_valid_o_def exec_ls_valid_def no_jump_def)
qed

lemma exec_step_rd:
  "ex_rd_adr_reg (exec_step c False e x) =
     (if exec_taken c e x then de_rd_adr_o (ex_dec e) else ex_rd_adr_reg x)"
  "ex_jump_r (exec_step c False e x) =
     (if exec_taken c e x then ej_jump (exec_jump_comb c e x) else ex_jump_r x)"
  "ex_jump_dest_r (exec_step c False e x) =
     (if exec_taken c e x then ej_jump_dest (exec_jump_comb c e x) else ex_jump_dest_r x)"
  "ex_jump_busy (exec_step c False e x) =
     (exec_taken c e x \<and> ej_jump (exec_jump_comb c e x) \<and> \<not> jump_bypass c)"
  by (simp_all add: exec_step_def exec_units_step_def exec_seq_def exec_pending_seq_def Let_def)

text \<open>An instruction is taken with nothing under way, but for the flag of an early store.\<close>

lemma taken_nothing_in_flight:
  assumes c: "program_config_ok c" and inv: "exec_inv c x" and t: "exec_taken c e x"
  shows "exec_finished x = None" "exec_in_flight c d x = None" "ls_outstanding (ex_ls x) = 0"
    "\<not> al_busy_o (ex_alu x)"
proof -
  note cf = program_config_facts[OF c]
  note idle = exec_taken_idle[OF cf(5,3) inv t]
  show "exec_finished x = None" "exec_in_flight c d x = None" "ls_outstanding (ex_ls x) = 0"
    "\<not> al_busy_o (ex_alu x)"
    using idle by (simp_all add: exec_finished_def exec_in_flight_def)
qed

text \<open>The units after an instruction was taken.\<close>

lemma taken_units_step:
  assumes c: "program_config_ok c" and inv: "exec_inv c x" and t: "exec_taken c e x"
  defines "x' \<equiv> exec_step c False e x"
  shows "al_busy_o (ex_alu x') = (shifter_mode c = Shift_Pipelined \<and> de_alu_cmd (ex_dec e) \<and>
      is_shift_funct3 (de_funct3_o (ex_dec e)))"
    "\<not> (de_load_cmd (ex_dec e) \<or> de_store_cmd (ex_dec e)) \<Longrightarrow>
      ls_outstanding (ex_ls x') = 0 \<and> \<not> ls_valid_reg (ex_ls x')"
    "de_load_cmd (ex_dec e) \<or> de_store_cmd (ex_dec e) \<Longrightarrow>
      ls_outstanding (ex_ls x') = 1 \<and> ls_pipe (ex_ls x') = [ls_new_entry (exec_ls_in c e x)] \<and>
      \<not> ls_valid_reg (ex_ls x')"
proof -
  note cf = program_config_facts[OF c]
  note idle = exec_taken_idle[OF cf(5,3) inv t] and taken = exec_ls_taken[OF t]
  have p: "length (ls_pipe (ex_ls x)) = 1" "ls_outstanding (ex_ls x) \<le> 1"
    "ls_valid_reg (ex_ls x) \<longrightarrow> ls_outstanding (ex_ls x) = 0"
    using inv by (simp_all add: exec_inv_def)
  note ls = exec_ls_inv_step[OF cf(5,3) p, of "exec_ls_in c e x" "ex_bus_i e",
      folded exec_step_fields(2), folded x'_def]
  show "al_busy_o (ex_alu x') = (shifter_mode c = Shift_Pipelined \<and> de_alu_cmd (ex_dec e) \<and>
      is_shift_funct3 (de_funct3_o (ex_dec e)))"
    using idle t unfolding x'_def by (auto simp: exec_step_fields exec_alu_inv_step exec_alu_in_def)
  show "\<not> (de_load_cmd (ex_dec e) \<or> de_store_cmd (ex_dec e)) \<Longrightarrow>
      ls_outstanding (ex_ls x') = 0 \<and> \<not> ls_valid_reg (ex_ls x')"
    using ls(2,5) taken idle(5) by (auto simp: le_Suc_eq)
  show "de_load_cmd (ex_dec e) \<or> de_store_cmd (ex_dec e) \<Longrightarrow>
      ls_outstanding (ex_ls x') = 1 \<and> ls_pipe (ex_ls x') = [ls_new_entry (exec_ls_in c e x)] \<and>
      \<not> ls_valid_reg (ex_ls x')"
    using ls(4) taken by auto
qed

subsection \<open>What a taken instruction does\<close>

text \<open>Loads, stores and fences retire nothing when they are taken.\<close>

lemma taken_memory:
  assumes c: "program_config_ok c" and inv: "exec_inv c x" and t: "exec_taken c e x"
    and k: "decode_class k (ex_dec e)" "k \<in> {Class_Load, Class_Store, Class_Fence}"
  shows "backend_retire c e x = None" "exec_jump_comb c e x = no_jump"
proof -
  note cf = program_config_facts[OF c]
  note idle = exec_taken_idle[OF cf(5,3) inv t]
  have d: "\<not> de_alu_cmd (ex_dec e)" "\<not> de_csr_cmd (ex_dec e)"
    using k by (auto simp: decode_class_def)
  have "\<not> al_valid_o (exec_alu_out c e x)"
    using exec_alu_valid_cases[OF cf(6), of e x] d(1) idle(4) by blast
  moreover have "\<not> exec_csr_valid c e x"
    using d(2) by (simp add: exec_csr_valid_def csr_valid_o_def csr_taken_def exec_csr_in_def)
  moreover show j: "exec_jump_comb c e x = no_jump"
    using k by (auto simp: exec_jump_comb_def decode_class_def Let_def)
  ultimately show "backend_retire c e x = None"
    using idle(7) by (simp add: backend_retire_def exec_reg_we_o_def no_jump_def)
qed

text \<open>A shift on the pipelined shifter: nothing retires now, the result is there a cycle later.\<close>

definition shift_of :: "rv_instr \<Rightarrow> alu_op" where
  "shift_of ins = (case ins of ShiftImm op rd rs1 shamt \<Rightarrow> shift_alu_op op
     | OpReg op rd rs1 rs2 \<Rightarrow> op | _ \<Rightarrow> Op_Sll)"

lemma rv_is_shift_facts:
  assumes "rv_is_shift ins"
  shows "class_of ins = Class_Alu" "is_shift_op (shift_of ins)"
proof -
  have "is_shift_op (shift_alu_op op)" for op by (cases op) (simp_all add: is_shift_op_def)
  then show "class_of ins = Class_Alu" "is_shift_op (shift_of ins)"
    using assms by (auto simp: rv_is_shift_def shift_of_def split: rv_instr.splits)
qed

lemma shift_operand_value:
  assumes sh: "rv_is_shift ins" and dec: "decoded ins pc npc (ex_dec e)"
    and ops: "exec_operands c e a b"
  shows "isa_compute ins pc a b = Some (isa_alu (shift_of ins) (exec_op1 c e) (exec_op2 c e))"
    "alu_function (shift_of ins) (ex_dec e)"
proof -
  have d: "decoded_operands ins pc (ex_dec e)" using dec by (simp add: decoded_def)
  consider op rd rs1 n where "ins = ShiftImm op rd rs1 n" | op rd rs1 rs2 where "ins = OpReg op rd rs1 rs2"
    using sh by (auto simp: rv_is_shift_def split: rv_instr.splits)
  then show "isa_compute ins pc a b = Some (isa_alu (shift_of ins) (exec_op1 c e) (exec_op2 c e))"
    "alu_function (shift_of ins) (ex_dec e)"
  proof (atomize (full), cases)
    case (1 op rd rs1 n)
    then show "isa_compute ins pc a b = Some (isa_alu (shift_of ins) (exec_op1 c e) (exec_op2 c e)) \<and>
        alu_function (shift_of ins) (ex_dec e)"
      using d ops isa_alu_shift_imm[of "de_rs2_imm_value (ex_dec e)" n op a]
      by (simp add: shift_of_def exec_operands_def imm_operands_def)
  next
    case (2 op rd rs1 rs2)
    then show "isa_compute ins pc a b = Some (isa_alu (shift_of ins) (exec_op1 c e) (exec_op2 c e)) \<and>
        alu_function (shift_of ins) (ex_dec e)"
      using d ops by (simp add: shift_of_def exec_operands_def imm_operands_def)
  qed
qed

lemma alu_shifter_in_function:
  assumes "alu_function op d" "is_shift_op op" "al_funct3_i i = de_funct3_o d"
    "al_funct7_6_i i = bit (de_funct7_o d) 5" "al_en_i i"
  shows "alu_shifter_in i = alu_shifter_in (alu_request op (al_op1_i i) (al_op2_i i))"
  using assms
  by (auto simp: alu_function_def is_shift_op_def alu_shifter_in_def alu_request_def
      alu_funct7_6_def)

lemma taken_pipelined_shift:
  assumes c: "program_config_ok c" "shifter_mode c = Shift_Pipelined" and inv: "exec_inv c x"
    and t: "exec_taken c e x" and dec: "decoded ins pc npc (ex_dec e)" and sh: "rv_is_shift ins"
    and ops: "exec_operands c e a b"
  defines "x' \<equiv> exec_step c False e x"
  shows "backend_retire c e x = None" "exec_jump_comb c e x = no_jump"
    "exec_finished x' = isa_compute ins pc a b"
proof -
  note cf = program_config_facts[OF c(1)] and shf = rv_is_shift_facts[OF sh]
  note idle = exec_taken_idle[OF cf(5,3) inv t] and val = shift_operand_value[OF sh dec ops]
  have k: "decode_class Class_Alu (ex_dec e)" using dec shf(1) by (simp add: decoded_def)
  have ready: "\<not> sh_ready (al_shifter (ex_alu x))" using idle(4) c(2) by blast
  let ?i = "exec_alu_in c e x" and ?q = "alu_request (shift_of ins) (exec_op1 c e) (exec_op2 c e)"
  have f3: "is_shift_funct3 (al_funct3_i ?i)"
    using val(2) shf(2) by (auto simp: alu_function_def is_shift_op_def exec_alu_in_def
        is_shift_funct3_def)
  have en: "al_en_i ?i" using k t by (simp add: exec_alu_in_def decode_class_def)
  have eq: "alu_shifter_in ?i = alu_shifter_in ?q"
    using alu_shifter_in_function[OF val(2) shf(2), of ?i] en by (simp add: exec_alu_in_def)
  have "\<not> al_valid_o (exec_alu_out c e x)"
    using f3 ready c(2)
    by (auto simp: exec_alu_out_def alu_comb_def alu_shift_valid_def shift_pipelined_ready_o_def
        shift_stage_of_def is_shift_funct3_def Let_def)
  moreover have "\<not> exec_csr_valid c e x"
    using k by (simp add: exec_csr_valid_def csr_valid_o_def csr_taken_def exec_csr_in_def
        decode_class_def)
  moreover show "exec_jump_comb c e x = no_jump"
    using k by (simp add: exec_jump_comb_def decode_class_def Let_def)
  ultimately show "backend_retire c e x = None"
    using idle(7) by (simp add: backend_retire_def exec_reg_we_o_def no_jump_def)
  have alu: "ex_alu x' = alu_step Shift_Pipelined False ?q (ex_alu x)"
    using eq c(2) by (simp add: x'_def exec_step_fields alu_step_def alu_shift_busy_def)
  have s: "al_busy_o (ex_alu x')" "al_res_o (alu_comb Shift_Pipelined ?q (ex_alu x')) =
      isa_alu (shift_of ins) (exec_op1 c e) (exec_op2 c e)"
    using alu_pipelined_shift_correct[OF shf(2) ready] by (simp_all add: alu Let_def)
  have "exec_inv c x'"
    unfolding x'_def using k by (intro exec_inv_step[OF cf(5,3) inv])
      (auto simp: exec_legal_def decode_class_def)
  then have "sh_ready (al_shifter (ex_alu x'))" using s(1) c(2) by (simp add: exec_inv_def)
  then show "exec_finished x' = isa_compute ins pc a b"
    using s shift_result_valid(2) val(1) by (simp add: exec_finished_def)
qed

subsection \<open>One edge of the system\<close>

abbreviation (input) ps_bk_in :: "memory_choice \<Rightarrow> program_system \<Rightarrow> backend_in" where
  "ps_bk_in e s \<equiv> core_backend_in (ps_dbus e s) (ps_core s)"

abbreviation (input) ps_exec_in :: "bonfire_config \<Rightarrow> memory_choice \<Rightarrow> program_system \<Rightarrow> exec_in" where
  "ps_exec_in c e s \<equiv> backend_exec_in c (core_backend_in (ps_dbus e s) (ps_core s)) (core_backend (ps_core s))"

abbreviation (input) ps_fetch_in ::
  "bonfire_config \<Rightarrow> (xword \<Rightarrow> xword) \<Rightarrow> memory_choice \<Rightarrow> program_system \<Rightarrow> fetch_in" where
  "ps_fetch_in c imem e s \<equiv> core_fetch_in c (ps_ibus imem s) (ps_dbus e s) (ps_core s)"

text \<open>The next state, when the instruction pointer stays in its range.\<close>

definition ps_next ::
  "bonfire_config \<Rightarrow> (xword \<Rightarrow> xword) \<Rightarrow> memory_choice \<Rightarrow> program_system \<Rightarrow> program_system" where
  "ps_next c imem e s =
     \<lparr>ps_core = \<lparr>core_fetch = fetch_next (ps_fetch_in c imem e s) (ps_fetch s),
                 core_backend = backend_step c False (ps_bk_in e s) (ps_backend s)\<rparr>,
      ps_fetching = (if fetch_en (ps_fetch_in c imem e s) (ps_fetch s)
                     then Some (fetch_ibus_adr_o (ps_fetch s)) else None),
      ps_read = (if ps_answer e s then None
                 else if ps_accept e s then Some (ps_word s) else ps_read s),
      ps_mem = (if ps_accept e s then write_request (ps_request s) (ps_mem s) else ps_mem s)\<rparr>"

lemma ps_step_next:
  "ps_step c imem e s =
     (if fetch_raises (ps_fetch_in c imem e s) (ps_fetch s) then None else Some (ps_next c imem e s))"
  by (simp add: ps_step_def ps_next_def core_step_def fetch_step_def Let_def)

lemma ps_next_fields [simp]:
  "ps_backend (ps_next c imem e s) = backend_step c False (ps_bk_in e s) (ps_backend s)"
  "ps_fetch (ps_next c imem e s) = fetch_next (ps_fetch_in c imem e s) (ps_fetch s)"
  "ps_fetching (ps_next c imem e s) = (if fetch_en (ps_fetch_in c imem e s) (ps_fetch s)
     then Some (fetch_ibus_adr_o (ps_fetch s)) else None)"
  "ps_read (ps_next c imem e s) = (if ps_answer e s then None
     else if ps_accept e s then Some (ps_word s) else ps_read s)"
  "ps_mem (ps_next c imem e s) =
     (if ps_accept e s then write_request (ps_request s) (ps_mem s) else ps_mem s)"
  by (simp_all add: ps_next_def)

lemma core_backend_in_fields [simp]:
  "bk_bus_i (core_backend_in b k) = b" "bk_debug_flush (core_backend_in b k) = False"
  "bk_transfer (core_backend_in b k) = no_transfer" "\<not> bk_redirect_valid (core_backend_in b k)"
  "bk_fetch (core_backend_in b k) = fetch_out (core_fetch k)"
  "bk_progbuf_active (core_backend_in b k) = False"
  by (simp_all add: core_backend_in_def no_debug_in_def)

subsection \<open>The data bus\<close>

text \<open>A request is up or accepted exactly while the load/store unit waits.\<close>

definition data_inv :: "program_system \<Rightarrow> bool" where
  "data_inv s \<longleftrightarrow> (let l = ex_ls (ps_exec s) in
     (db_en_o (ls_req l) \<longrightarrow> ls_outstanding l = 1 \<and> ps_read s = None) \<and>
     (ls_outstanding l = 1 \<longrightarrow> (db_en_o (ls_req l) \<or> ps_read s \<noteq> None) \<and>
        \<not> lp_misalign (ls_pipe l ! 0) \<and> \<not> lp_invalid_op (ls_pipe l ! 0)) \<and>
     (ps_read s \<noteq> None \<longrightarrow> ls_outstanding l = 1))"

lemma ls_rdmux_word: "db_rd b = d \<Longrightarrow> ls_rdmux_out c b l = ls_rdmux_out c (answer_of d) l"
  by (simp add: ls_rdmux_out_def answer_of_def Let_def)

lemma ls_rdmux_pipe: "ls_pipe l = ls_pipe l' \<Longrightarrow> ls_rdmux_out c b l = ls_rdmux_out c b l'"
  by (simp add: ls_rdmux_out_def)

text \<open>The unit while nothing is taken.\<close>

lemma ls_waiting_step:
  fixes imem :: "xword \<Rightarrow> xword"
  assumes c: "program_config_ok c" and inv: "exec_inv c (ps_exec s)" and data: "data_inv s"
    and nt: "\<not> exec_taken c (ps_exec_in c e s) (ps_exec s)"
  defines "l \<equiv> ex_ls (ps_exec s)" and "l' \<equiv> ex_ls (ps_exec (ps_next c imem e s))"
  shows "ls_pipe l' = ls_pipe l"
    "ls_req l' = (ls_req l)\<lparr>db_en_o := db_en_o (ls_req l) \<and> mc_stall e\<rparr>"
    "ls_outstanding l' = (if ps_answer e s then 0 else ls_outstanding l)"
    "ls_valid_reg l' = (ls_outstanding l = 1 \<and> ps_answer e s)"
    "ps_answer e s \<Longrightarrow> ls_result_r l' = ls_rdmux_out c (answer_of (ps_word s)) l"
proof -
  note cf = program_config_facts[OF c]
  define i where "i = exec_ls_in c (ps_exec_in c e s) (ps_exec s)"
  define b where "b = ps_dbus e s"
  have l': "l' = ls_step c False i b l"
    by (simp add: l'_def l_def i_def b_def backend_step_stages exec_step_fields)
  have nt': "\<not> ls_taken c i b l"
    using exec_ls_not_taken[OF nt] by (simp add: l_def i_def b_def)
  have b: "db_stall_i b = mc_stall e" "db_ack_i b = ps_answer e s" "\<not> db_error_i b"
    "ps_answer e s \<Longrightarrow> db_rd b = ps_word s"
    by (simp_all add: b_def ps_dbus_def)
  have len: "length (ls_pipe l) = 1" "ls_outstanding l \<le> 1" using inv by (simp_all add: exec_inv_def l_def)
  have ans: "ps_answer e s \<Longrightarrow> ls_outstanding l = 1"
    using data by (auto simp: ps_answer_def ps_accept_def ps_request_def data_inv_def l_def Let_def)
  note defs = nt' cf(3,5) b ls_step_defs max_pipe_index_def
  show "ls_pipe l' = ls_pipe l" by (simp add: l' defs)
  show "ls_req l' = (ls_req l)\<lparr>db_en_o := db_en_o (ls_req l) \<and> mc_stall e\<rparr>"
    by (simp add: l' defs)
  show "ls_outstanding l' = (if ps_answer e s then 0 else ls_outstanding l)"
    using ans by (simp add: l' defs)
  show "ls_valid_reg l' = (ls_outstanding l = 1 \<and> ps_answer e s)"
    using ans data by (auto simp: l' defs data_inv_def l_def Let_def)
  show "ps_answer e s \<Longrightarrow> ls_result_r l' = ls_rdmux_out c (answer_of (ps_word s)) l"
    using ls_rdmux_word[OF b(4), of c l] by (simp add: l' defs)
qed

text \<open>Waiting changes nothing the program sees: what was in flight stays so, finishes, or retires
  into the register file; a request that is accepted moves from the port into the memory.\<close>

lemma exec_step_not_taken:
  assumes "\<not> exec_taken c e x"
  shows "\<not> al_busy_o (ex_alu (exec_step c False e x))"
  using assms by (simp add: exec_step_fields exec_alu_inv_step exec_alu_in_def)

lemma waiting_data:
  fixes imem :: "xword \<Rightarrow> xword"
  assumes c: "program_config_ok c" and inv: "exec_inv c (ps_exec s)" and data: "data_inv s"
    and nt: "\<not> exec_taken c (ps_exec_in c e s) (ps_exec s)"
  defines "s' \<equiv> ps_next c imem e s"
  shows "data_inv s'" "arch_mem s' = arch_mem s" "arch_regs c s' = arch_regs c s"
proof -
  note w = ls_waiting_step[OF c inv data nt, of imem, folded s'_def]
  have l: "ls_outstanding (ex_ls (ps_exec s)) \<le> 1"
    "ls_valid_reg (ex_ls (ps_exec s)) \<longrightarrow> ls_outstanding (ex_ls (ps_exec s)) = 0"
    using inv by (simp_all add: exec_inv_def)
  have req: "ps_request s' = (ps_request s)\<lparr>db_en_o := db_en_o (ps_request s) \<and> mc_stall e\<rparr>"
    using w(2) by (simp add: ps_request_def)
  have rd: "ps_read s' = (if ps_answer e s then None
      else if ps_accept e s then Some (ps_word s) else ps_read s)" by (simp add: s'_def)
  note ps = ps_answer_def ps_accept_def ps_request_def
  show "data_inv s'"
    using data w(1-3) rd unfolding data_inv_def Let_def by (auto simp: ps)
  have mem: "ps_mem s' = (if ps_accept e s then write_request (ps_request s) (ps_mem s) else ps_mem s)"
    by (simp add: s'_def)
  have wr: "write_request (r\<lparr>db_en_o := v\<rparr>) M = write_request r M" for r v M
    by (simp add: write_request_def)
  show "arch_mem s' = arch_mem s"
    by (simp add: arch_mem_def req mem wr ps_accept_def)
  have x': "ps_exec s' = exec_step c False (ps_exec_in c e s) (ps_exec s)"
    by (simp add: s'_def backend_step_stages)
  have rdr: "ex_rd_adr_reg (ps_exec s') = ex_rd_adr_reg (ps_exec s)"
    using nt by (simp add: x' exec_step_rd)
  have regs: "backend_regs c (ps_backend s') = write_reg (map_option
      (Pair (ex_rd_adr_reg (ps_exec s))) (exec_finished (ps_exec s))) (backend_regs c (ps_backend s))"
    using waiting_retire(1)[OF c inv nt] by (simp add: s'_def backend_regs_step)
  have nb: "\<not> al_busy_o (ex_alu (ps_exec s'))" using exec_step_not_taken[OF nt] by (simp add: x')
  show "arch_regs c s' = arch_regs c s"
  proof (cases "exec_finished (ps_exec s)")
    case None
    have word: "\<not> ps_answer e s \<Longrightarrow> ls_outstanding (ex_ls (ps_exec s)) = 1 \<Longrightarrow> ps_word s' = ps_word s"
      using data rd req mem by (auto simp: ps_word_def data_inv_def ps_accept_def ps_request_def Let_def
          split: option.splits)
    have "exec_in_flight c (ps_word s') (ps_exec s') = exec_in_flight c (ps_word s) (ps_exec s)"
      using None nb w l word ls_rdmux_pipe[OF w(1)]
      by (auto simp: exec_in_flight_def exec_finished_def split: if_splits)
    then show ?thesis using None by (simp add: arch_regs_def regs rdr)
  next
    case (Some v)
    have "ls_valid_reg (ex_ls (ps_exec s)) \<and> \<not> lp_store (ls_pipe (ex_ls (ps_exec s)) ! 0) \<or>
        al_busy_o (ex_alu (ps_exec s))"
      using Some by (auto simp: exec_finished_def split: if_splits)
    then have "ls_outstanding (ex_ls (ps_exec s)) = 1 \<Longrightarrow> lp_store (ls_pipe (ex_ls (ps_exec s)) ! 0)"
      using inv by (auto simp: exec_inv_def)
    then have "exec_in_flight c (ps_word s') (ps_exec s') = None"
      using nb w by (auto simp: exec_in_flight_def exec_finished_def split: if_splits)
    moreover have "exec_in_flight c (ps_word s) (ps_exec s) = Some v"
      using Some by (simp add: exec_in_flight_def)
    ultimately show ?thesis using Some by (simp add: arch_regs_def regs rdr)
  qed
qed

text \<open>A taken instruction finds the bus free; a load or store puts its request up.\<close>

lemma taken_free:
  assumes c: "program_config_ok c" and inv: "exec_inv c (ps_exec s)" and data: "data_inv s"
    and t: "exec_taken c (ps_exec_in c e s) (ps_exec s)"
  shows "\<not> db_en_o (ps_request s)" "ps_read s = None" "arch_mem s = ps_mem s"
    "arch_regs c s = backend_regs c (ps_backend s)"
proof -
  note free = taken_nothing_in_flight[OF c inv t]
  show en: "\<not> db_en_o (ps_request s)"
    using free(3) data by (auto simp: data_inv_def ps_request_def Let_def)
  show "ps_read s = None" using free(3) data by (auto simp: data_inv_def Let_def)
  show "arch_mem s = ps_mem s" using en by (simp add: arch_mem_def)
  show "arch_regs c s = backend_regs c (ps_backend s)" using free(2) by (simp add: arch_regs_def)
qed

lemma taken_bus:
  fixes imem :: "xword \<Rightarrow> xword"
  assumes c: "program_config_ok c" and inv: "exec_inv c (ps_exec s)" and data: "data_inv s"
    and t: "exec_taken c (ps_exec_in c e s) (ps_exec s)"
  defines "s' \<equiv> ps_next c imem e s" and "i \<equiv> exec_ls_in c (ps_exec_in c e s) (ps_exec s)"
    and "d \<equiv> bk_dec (ps_backend s)"
  shows "ps_read s' = None" "ps_mem s' = arch_mem s"
    "\<not> (de_load_cmd d \<or> de_store_cmd d) \<Longrightarrow> \<not> db_en_o (ps_request s')"
    "de_load_cmd d \<or> de_store_cmd d \<Longrightarrow> \<not> ls_misalign i \<Longrightarrow>
       ps_request s' = ls_request i (db_wr (ps_request s))"
    "backend_regs c (ps_backend s') =
       write_reg (backend_retire c (ps_exec_in c e s) (ps_exec s)) (arch_regs c s)"
    "ex_rd_adr_reg (ps_exec s') = de_rd_adr_o d"
proof -
  note free = taken_free[OF c inv data t]
  show "ps_read s' = None" "ps_mem s' = arch_mem s"
    using free by (simp_all add: s'_def ps_answer_def ps_accept_def)
  have l': "ex_ls (ps_exec s') = ls_step c False i (ps_dbus e s) (ex_ls (ps_exec s))"
    by (simp add: s'_def i_def backend_step_stages exec_step_fields)
  have lt: "ls_taken c i (ps_dbus e s) (ex_ls (ps_exec s)) = (de_store_cmd d \<or> de_load_cmd d)"
    using exec_ls_taken[OF t] by (simp add: i_def d_def)
  have req': "ps_request s' = ls_next_req c i (ps_dbus e s) (ex_ls (ps_exec s))"
    by (simp add: ps_request_def l' ls_step_def ls_out_regs_def ls_calc_outstanding_def ls_drive_bus_def
        Let_def)
  show "\<not> (de_load_cmd d \<or> de_store_cmd d) \<Longrightarrow> \<not> db_en_o (ps_request s')"
    unfolding req' using free(1) lt by (simp add: ls_next_req_def ps_request_def Let_def)
  show "de_load_cmd d \<or> de_store_cmd d \<Longrightarrow> \<not> ls_misalign i \<Longrightarrow>
       ps_request s' = ls_request i (db_wr (ps_request s))"
    unfolding req' using lt by (auto simp: ls_next_req_def ls_request_def ps_request_def Let_def)
  show "backend_regs c (ps_backend s') =
       write_reg (backend_retire c (ps_exec_in c e s) (ps_exec s)) (arch_regs c s)"
    by (simp add: s'_def backend_regs_step free(4))
  show "ex_rd_adr_reg (ps_exec s') = de_rd_adr_o d"
    using t by (simp add: s'_def backend_step_stages exec_step_rd d_def)
qed

lemma taken_register_data:
  fixes imem :: "xword \<Rightarrow> xword"
  assumes c: "program_config_ok c" and inv: "exec_inv c (ps_exec s)" and data: "data_inv s"
    and t: "exec_taken c (ps_exec_in c e s) (ps_exec s)"
    and nm: "\<not> (de_load_cmd (bk_dec (ps_backend s)) \<or> de_store_cmd (bk_dec (ps_backend s)))"
  defines "s' \<equiv> ps_next c imem e s"
  shows "data_inv s'" "arch_mem s' = arch_mem s"
    "arch_regs c s' = write_reg (map_option (Pair (de_rd_adr_o (bk_dec (ps_backend s))))
       (exec_finished (ps_exec s')))
       (write_reg (backend_retire c (ps_exec_in c e s) (ps_exec s)) (arch_regs c s))"
proof -
  note b = taken_bus[OF c inv data t, of imem, folded s'_def]
  have x': "ps_exec s' = exec_step c False (ps_exec_in c e s) (ps_exec s)"
    by (simp add: s'_def backend_step_stages)
  have out: "ls_outstanding (ex_ls (ps_exec s')) = 0"
    using taken_units_step(2)[OF c inv t] nm by (simp add: x')
  show "data_inv s'" using b(1,3) nm out by (simp add: data_inv_def ps_request_def Let_def)
  show "arch_mem s' = arch_mem s" using b(2,3) nm by (simp add: arch_mem_def)
  have "exec_in_flight c (ps_word s') (ps_exec s') = exec_finished (ps_exec s')"
    using out by (simp add: exec_in_flight_def)
  then show "arch_regs c s' = write_reg (map_option (Pair (de_rd_adr_o (bk_dec (ps_backend s))))
       (exec_finished (ps_exec s')))
       (write_reg (backend_retire c (ps_exec_in c e s) (ps_exec s)) (arch_regs c s))"
    using b(5,6) by (simp add: arch_regs_def[of c s'])
qed

text \<open>The operation of the unit, for a decoded load or store.\<close>

lemma load_not_invalid: "ls_funct3_i i = load_funct3 op \<Longrightarrow> \<not> ls_store_i i \<Longrightarrow> \<not> ls_invalid_op i"
  by (cases op) (auto simp: ls_invalid_op_def load_funct3_modes simp del: load_funct3.simps)

lemma store_not_invalid: "ls_funct3_i i = store_funct3 op \<Longrightarrow> \<not> ls_invalid_op i"
  using store_funct3_modes(4)[of i op]
  by (cases op) (auto simp: ls_invalid_op_def store_funct3_modes simp del: store_funct3.simps)

lemma taken_memory_data:
  fixes imem :: "xword \<Rightarrow> xword"
  assumes c: "program_config_ok c" and inv: "exec_inv c (ps_exec s)" and data: "data_inv s"
    and t: "exec_taken c (ps_exec_in c e s) (ps_exec s)"
    and m: "de_load_cmd (bk_dec (ps_backend s)) \<or> de_store_cmd (bk_dec (ps_backend s))"
    and retire: "backend_retire c (ps_exec_in c e s) (ps_exec s) = None"
    and alu: "\<not> de_alu_cmd (bk_dec (ps_backend s))"
  defines "s' \<equiv> ps_next c imem e s" and "i \<equiv> exec_ls_in c (ps_exec_in c e s) (ps_exec s)"
  assumes ok: "\<not> ls_misalign i" "\<not> ls_invalid_op i"
  shows "data_inv s'"
    "arch_mem s' = (if ls_store_i i then write_request (ls_request i 0) (arch_mem s) else arch_mem s)"
    "arch_regs c s' = (if ls_store_i i then arch_regs c s
       else write_reg (Some (de_rd_adr_o (bk_dec (ps_backend s)),
         ls_rdmux_out c (answer_of (arch_mem s (data_word (ls_adr i))))
           (ls_init c\<lparr>ls_pipe := [ls_new_entry i]\<rparr>))) (arch_regs c s))"
proof -
  note b = taken_bus[OF c inv data t, of imem, folded s'_def i_def]
  have x': "ps_exec s' = exec_step c False (ps_exec_in c e s) (ps_exec s)"
    by (simp add: s'_def backend_step_stages)
  note u = taken_units_step[OF c inv t, folded x', folded i_def]
  have out: "ls_outstanding (ex_ls (ps_exec s')) = 1" "ls_pipe (ex_ls (ps_exec s')) = [ls_new_entry i]"
    "\<not> ls_valid_reg (ex_ls (ps_exec s'))"
    using u(3) m by simp_all
  have nb: "\<not> al_busy_o (ex_alu (ps_exec s'))" using u(1) alu by simp
  note req = b(4)[OF m ok(1)]
  have e: "db_en_o (ps_request s')" "data_word (db_adr_o (ps_request s')) = data_word (ls_adr i)"
    by (simp_all add: req ls_request_def)
  show "data_inv s'"
    using b(1) out ok e(1) by (simp add: data_inv_def ps_request_def Let_def ls_new_entry_def)
  have fetch: "write_request (ls_request i v) M = M" if "\<not> ls_store_i i" for v M
    using that by (simp add: write_request_def ls_request_def)
  have store: "write_request (ls_request i v) M = write_request (ls_request i 0) M"
    if "ls_store_i i" for v M
    using that by (simp add: write_request_def ls_request_def)
  show "arch_mem s' = (if ls_store_i i then write_request (ls_request i 0) (arch_mem s) else arch_mem s)"
    using e(1) fetch store[of "db_wr (ps_request s)"] b(2) unfolding arch_mem_def[of s'] req by simp
  have word: "ps_word s' = arch_mem s (data_word (ls_adr i))"
    using b(1,2) e(2) by (simp add: ps_word_def)
  have "exec_in_flight c (ps_word s') (ps_exec s') = (if ls_store_i i then None else
      Some (ls_rdmux_out c (answer_of (ps_word s')) (ls_init c\<lparr>ls_pipe := [ls_new_entry i]\<rparr>)))"
    using out nb ls_rdmux_pipe[of "ex_ls (ps_exec s')" "ls_init c\<lparr>ls_pipe := [ls_new_entry i]\<rparr>"]
    by (simp add: exec_in_flight_def exec_finished_def ls_new_entry_def)
  then show "arch_regs c s' = (if ls_store_i i then arch_regs c s
       else write_reg (Some (de_rd_adr_o (bk_dec (ps_backend s)),
         ls_rdmux_out c (answer_of (arch_mem s (data_word (ls_adr i))))
           (ls_init c\<lparr>ls_pipe := [ls_new_entry i]\<rparr>))) (arch_regs c s))"
    using b(5,6) retire word by (simp add: arch_regs_def[of c s'])
qed

subsection \<open>A taken instruction is a step of the machine\<close>

lemma isa_step_register:
  assumes "class_of (prog (is_pc st)) \<notin> {Class_Load, Class_Store}"
  shows "isa_step prog st =
    (let ins = prog (is_pc st); R = is_regs st; a = rs1_value R ins; b = rs2_value R ins in
     \<lparr>is_pc = (case isa_target ins (is_pc st) a b of Some t \<Rightarrow> t | None \<Rightarrow> is_pc st + 4),
      is_regs = write_reg (isa_write R ins (is_pc st) (is_pc st + 4)) R, is_mem = is_mem st\<rparr>)"
  using assms by (cases "prog (is_pc st)") (simp_all add: isa_step_def Let_def)

lemma nonshift_funct3:
  assumes dec: "decoded ins pc npc d" and k: "class_of ins \<in> {Class_Alu, Class_Jalr}"
    and ns: "\<not> rv_is_shift ins"
  shows "\<not> is_shift_funct3 (de_funct3_o d)"
proof -
  have f: "alu_function op d \<Longrightarrow> \<not> is_shift_op op \<Longrightarrow> \<not> is_shift_funct3 (de_funct3_o d)" for op
    by (cases op) (auto simp: alu_function_def is_shift_op_def is_shift_funct3_def)
  have "\<not> is_shift_op (imm_alu_op op)" for op by (cases op) (simp_all add: is_shift_op_def)
  then show ?thesis
    using dec k ns f[of Op_Add] f
    by (cases ins) (auto simp: decoded_def rv_is_shift_def is_shift_op_def)
qed

lemma jump_is_idle:
  assumes c: "program_config_ok c" and inv: "exec_inv c x" and t: "exec_taken c e x"
    and k: "decode_class k (ex_dec e)" "k \<notin> {Class_Load, Class_Store}"
    and nb: "\<not> al_busy_o (ex_alu (exec_step c False e x))"
  shows "units_idle (exec_step c False e x)"
  using taken_units_step(2)[OF c inv t] k nb by (auto simp: units_idle_def decode_class_def)

lemma decode_class_memory:
  "decode_class k d \<Longrightarrow> (de_load_cmd d \<or> de_store_cmd d) = (k \<in> {Class_Load, Class_Store})"
  "decode_class k d \<Longrightarrow> de_alu_cmd d \<Longrightarrow> k \<in> {Class_Alu, Class_Jalr}"
  by (auto simp: decode_class_def)

text \<open>The instruction classes one by one. \<open>taken_effect\<close> is what the taking of \<open>prog pc\<close> must
  have done.\<close>

definition taken_effect ::
  "bonfire_config \<Rightarrow> (xword \<Rightarrow> rv_instr) \<Rightarrow> exec_jump \<Rightarrow> program_system \<Rightarrow> program_system \<Rightarrow> bool" where
  "taken_effect c prog j s s' \<longleftrightarrow>
     data_inv s' \<and>
     arch_regs c s' = is_regs (isa_step prog (arch_state c s)) \<and>
     arch_mem s' = is_mem (isa_step prog (arch_state c s)) \<and>
     (if ej_jump j then ej_jump_dest j else arch_pc s + 4) = is_pc (isa_step prog (arch_state c s)) \<and>
     (ej_jump j \<longrightarrow> units_idle (ps_exec s'))"

lemma arch_state_fields [simp]:
  "is_pc (arch_state c s) = arch_pc s" "is_regs (arch_state c s) = arch_regs c s"
  "is_mem (arch_state c s) = arch_mem s"
  by (simp_all add: arch_state_def)

lemma write_reg_option:
  "write_reg (map_option (Pair rd) None) R = R" "write_reg (map_option (Pair rd) (Some v)) R = write_reg (Some (rd, v)) R"
  by simp_all

lemma taken_register_effect:
  fixes imem :: "xword \<Rightarrow> xword"
  assumes c: "program_config_ok c" and binv: "backend_inv c (ps_backend s)" and data: "data_inv s"
    and t: "exec_taken c (ps_exec_in c e s) (ps_exec s)"
    and dec: "decoded (prog (arch_pc s)) (arch_pc s) (arch_pc s + 4) (bk_dec (ps_backend s))"
    and legal: "isa_legal prog (arch_state c s)"
    and k: "class_of (prog (arch_pc s)) \<in> {Class_Alu, Class_Jal, Class_Jalr, Class_Branch}"
    and ns: "rv_is_shift (prog (arch_pc s)) \<longrightarrow> shifter_mode c = Shift_Comb"
  shows "taken_effect c prog (exec_jump_comb c (ps_exec_in c e s) (ps_exec s)) s (ps_next c imem e s)"
proof -
  let ?ins = "prog (arch_pc s)" and ?e = "ps_exec_in c e s" and ?x = "ps_exec s"
  let ?s = "ps_next c imem e s" and ?R = "arch_regs c s"
  note cf = program_config_facts[OF c]
  have inv: "exec_inv c ?x"
    using binv exec_reachable_inv cf(3,5) by (simp add: backend_inv_def)
  note regs = taken_free(4)[OF c inv data t]
  have cls: "decode_class (class_of ?ins) (bk_dec (ps_backend s))" using dec by (simp add: decoded_def)
  have nm: "\<not> (de_load_cmd (bk_dec (ps_backend s)) \<or> de_store_cmd (bk_dec (ps_backend s)))"
    unfolding decode_class_memory(1)[OF cls] using k by auto
  have even: "\<forall>rd rs1 imm. ?ins = Jalr rd rs1 imm \<longrightarrow>
      \<not> bit (rs1_value (backend_regs c (ps_backend s)) ?ins + imm_i imm) 0"
    using legal by (auto simp: isa_legal_def Let_def regs)
  note steps = backend_instruction_steps[OF binv cf(1-4) t dec k ns even, folded regs]
  note d = taken_register_data[OF c inv data t nm, of imem]
  have x': "ps_exec ?s = exec_step c False ?e ?x" by (simp add: backend_step_stages)
  have nb: "\<not> al_busy_o (ex_alu (ps_exec ?s))"
    unfolding x' taken_units_step(1)[OF c inv t]
  proof
    assume m: "shifter_mode c = Shift_Pipelined \<and> de_alu_cmd (ex_dec ?e) \<and>
        is_shift_funct3 (de_funct3_o (ex_dec ?e))"
    then have "class_of ?ins \<in> {Class_Alu, Class_Jalr}" "\<not> rv_is_shift ?ins"
      using decode_class_memory(2)[OF cls] ns by simp_all
    then show False using nonshift_funct3[OF dec] m by simp
  qed
  have idle: "units_idle (ps_exec ?s)"
    unfolding x' by (rule jump_is_idle[OF c inv t _ _ nb[unfolded x'], of "class_of ?ins"]) (use k cls in \<open>simp, auto\<close>)
  then have fin: "exec_finished (ps_exec ?s) = None"
    by (simp add: units_idle_def exec_finished_def)
  have res: "arch_regs c ?s = write_reg (isa_write ?R ?ins (arch_pc s) (arch_pc s + 4)) ?R"
    using d(3) unfolding fin steps(1) by simp
  have jump: "(if ej_jump (exec_jump_comb c ?e ?x) then ej_jump_dest (exec_jump_comb c ?e ?x)
      else arch_pc s + 4) = (case isa_target ?ins (arch_pc s) (rs1_value ?R ?ins) (rs2_value ?R ?ins) of
        Some t \<Rightarrow> t | None \<Rightarrow> arch_pc s + 4)"
    unfolding steps(2) by (simp add: Let_def)
  have st: "class_of (prog (is_pc (arch_state c s))) \<notin> {Class_Load, Class_Store}" using k by auto
  show ?thesis
    unfolding taken_effect_def isa_step_register[of prog "arch_state c s", OF st] Let_def arch_state_fields
    using d(1,2) res jump idle by simp
qed

lemma taken_shift_effect:
  fixes imem :: "xword \<Rightarrow> xword"
  assumes c: "program_config_ok c" and binv: "backend_inv c (ps_backend s)" and data: "data_inv s"
    and t: "exec_taken c (ps_exec_in c e s) (ps_exec s)"
    and dec: "decoded (prog (arch_pc s)) (arch_pc s) (arch_pc s + 4) (bk_dec (ps_backend s))"
    and sh: "rv_is_shift (prog (arch_pc s))" and m: "shifter_mode c = Shift_Pipelined"
  shows "taken_effect c prog (exec_jump_comb c (ps_exec_in c e s) (ps_exec s)) s (ps_next c imem e s)"
proof -
  let ?ins = "prog (arch_pc s)" and ?e = "ps_exec_in c e s" and ?x = "ps_exec s"
  let ?s = "ps_next c imem e s" and ?R = "arch_regs c s"
  note cf = program_config_facts[OF c] and k = rv_is_shift_facts(1)[OF sh]
  have inv: "exec_inv c ?x"
    using binv exec_reachable_inv cf(3,5) by (simp add: backend_inv_def)
  note regs = taken_free(4)[OF c inv data t]
  have cls: "decode_class (class_of ?ins) (bk_dec (ps_backend s))" using dec by (simp add: decoded_def)
  have nm: "\<not> (de_load_cmd (bk_dec (ps_backend s)) \<or> de_store_cmd (bk_dec (ps_backend s)))"
    using cls k by (auto simp: decode_class_def)
  obtain a b where ops: "exec_operands c ?e a b"
    and a: "rv_reads_rs1 ?ins \<noteq> None \<longrightarrow> a = rs1_value ?R ?ins"
    and b: "rv_reads_rs2 ?ins \<noteq> None \<longrightarrow> b = rs2_value ?R ?ins"
    using backend_exec_operands[OF binv cf(1) t dec] k by (auto simp: regs)
  have dece: "decoded ?ins (arch_pc s) (arch_pc s + 4) (ex_dec ?e)" using dec by simp
  note p = taken_pipelined_shift[OF c m inv t dece sh ops]
  note d = taken_register_data[OF c inv data t nm, of imem]
  have x': "ps_exec ?s = exec_step c False ?e ?x" by (simp add: backend_step_stages)
  obtain rd where rd: "rv_dest ?ins = Some rd" "isa_target ?ins (arch_pc s) u v = None" for u v
    using sh by (auto simp: rv_is_shift_def split: rv_instr.splits)
  have "de_rd_adr_o (bk_dec (ps_backend s)) = rd" using dec rd(1) by (simp add: decoded_def)
  moreover obtain w where "isa_compute ?ins (arch_pc s) a b = Some w"
    using shift_operand_value(1)[OF sh dece ops] by blast
  moreover have "isa_compute ?ins (arch_pc s) (rs1_value ?R ?ins) (rs2_value ?R ?ins) =
      isa_compute ?ins (arch_pc s) a b"
    using isa_operand_cong(1)[of ?ins "rs1_value ?R ?ins" a "rs2_value ?R ?ins" b] a b by auto
  ultimately have res: "arch_regs c ?s = write_reg (isa_write ?R ?ins (arch_pc s) (arch_pc s + 4)) ?R"
    using d(3) p(1,3) rd(1) unfolding x' by (simp add: isa_write_def)
  have st: "class_of (prog (is_pc (arch_state c s))) \<notin> {Class_Load, Class_Store}" using k by auto
  show ?thesis
    unfolding taken_effect_def isa_step_register[of prog "arch_state c s", OF st] Let_def arch_state_fields
    using d(1,2) res p(2) rd(2) by (simp add: no_jump_def)
qed

lemma taken_fence_effect:
  fixes imem :: "xword \<Rightarrow> xword"
  assumes c: "program_config_ok c" and binv: "backend_inv c (ps_backend s)" and data: "data_inv s"
    and t: "exec_taken c (ps_exec_in c e s) (ps_exec s)"
    and dec: "decoded (prog (arch_pc s)) (arch_pc s) (arch_pc s + 4) (bk_dec (ps_backend s))"
    and f: "prog (arch_pc s) = Fence"
  shows "taken_effect c prog (exec_jump_comb c (ps_exec_in c e s) (ps_exec s)) s (ps_next c imem e s)"
proof -
  let ?e = "ps_exec_in c e s" and ?x = "ps_exec s" and ?s = "ps_next c imem e s"
  note cf = program_config_facts[OF c]
  have inv: "exec_inv c ?x"
    using binv exec_reachable_inv cf(3,5) by (simp add: backend_inv_def)
  have cls: "decode_class Class_Fence (ex_dec ?e)" using dec f by (simp add: decoded_def)
  have nm: "\<not> (de_load_cmd (bk_dec (ps_backend s)) \<or> de_store_cmd (bk_dec (ps_backend s)))"
    using cls by (simp add: decode_class_def)
  note p = taken_memory[OF c inv t cls] and d = taken_register_data[OF c inv data t nm, of imem]
  have x': "ps_exec ?s = exec_step c False ?e ?x" by (simp add: backend_step_stages)
  have "\<not> al_busy_o (ex_alu (ps_exec ?s)) \<and> \<not> ls_valid_reg (ex_ls (ps_exec ?s))"
    using taken_units_step[OF c inv t] cls unfolding x' by (simp add: decode_class_def)
  then have fin: "exec_finished (ps_exec ?s) = None" by (simp add: exec_finished_def)
  have st: "class_of (prog (is_pc (arch_state c s))) \<notin> {Class_Load, Class_Store}" using f by simp
  show ?thesis
    unfolding taken_effect_def isa_step_register[of prog "arch_state c s", OF st] Let_def arch_state_fields
    using d fin p f by (simp add: isa_write_def no_jump_def)
qed

text \<open>The operands of the unit for a decoded load or store.\<close>

lemma memory_operands:
  assumes c: "program_config_ok c" and binv: "backend_inv c (ps_backend s)" and data: "data_inv s"
    and t: "exec_taken c (ps_exec_in c e s) (ps_exec s)"
    and dec: "decoded ins pc npc (bk_dec (ps_backend s))"
    and k: "class_of ins \<in> {Class_Load, Class_Store}"
  defines "i \<equiv> exec_ls_in c (ps_exec_in c e s) (ps_exec s)"
  shows "\<And>op rd rs1 imm. ins = Load op rd rs1 imm \<Longrightarrow>
      ls_adr i = rs1_value (arch_regs c s) ins + imm_i imm \<and> ls_funct3_i i = load_funct3 op \<and>
      \<not> ls_store_i i"
    "\<And>op rs1 rs2 imm. ins = Store op rs1 rs2 imm \<Longrightarrow>
      ls_adr i = rs1_value (arch_regs c s) ins + imm_i imm \<and> ls_funct3_i i = store_funct3 op \<and>
      ls_op2_i i = rs2_value (arch_regs c s) ins \<and> ls_store_i i"
proof -
  note cf = program_config_facts[OF c]
  have inv: "exec_inv c (ps_exec s)"
    using binv exec_reachable_inv cf(3,5) by (simp add: backend_inv_def)
  note regs = taken_free(4)[OF c inv data t] and uses = decoded_uses[OF dec]
  note op1 = backend_operand1[OF binv cf(1) t] and op2 = backend_operand2[OF binv cf(1) t]
  have d: "decoded_operands ins pc (bk_dec (ps_backend s))" "decode_class (class_of ins) (bk_dec (ps_backend s))"
    using dec by (simp_all add: decoded_def)
  have r2: "\<forall>r. rv_reads_rs2 ins = Some r \<longrightarrow> de_source_rs2_o (bk_dec (ps_backend s)) = r"
    using dec by (simp add: decoded_def)
  show "\<And>op rd rs1 imm. ins = Load op rd rs1 imm \<Longrightarrow>
      ls_adr i = rs1_value (arch_regs c s) ins + imm_i imm \<and> ls_funct3_i i = load_funct3 op \<and>
      \<not> ls_store_i i"
    using d uses op1
    by (simp add: i_def exec_ls_in_def ls_adr_def imm_operands_def decode_class_def rs1_value_def regs
        imm_i_def)
  show "\<And>op rs1 rs2 imm. ins = Store op rs1 rs2 imm \<Longrightarrow>
      ls_adr i = rs1_value (arch_regs c s) ins + imm_i imm \<and> ls_funct3_i i = store_funct3 op \<and>
      ls_op2_i i = rs2_value (arch_regs c s) ins \<and> ls_store_i i"
    using d uses op1 op2 r2
    by (simp add: i_def exec_ls_in_def ls_adr_def imm_operands_def decode_class_def rs1_value_def
        rs2_value_def regs imm_i_def)
qed

lemma taken_memory_effect:
  fixes imem :: "xword \<Rightarrow> xword"
  assumes c: "program_config_ok c" and binv: "backend_inv c (ps_backend s)" and data: "data_inv s"
    and t: "exec_taken c (ps_exec_in c e s) (ps_exec s)"
    and dec: "decoded (prog (arch_pc s)) (arch_pc s) (arch_pc s + 4) (bk_dec (ps_backend s))"
    and legal: "isa_legal prog (arch_state c s)"
    and k: "class_of (prog (arch_pc s)) \<in> {Class_Load, Class_Store}"
  shows "taken_effect c prog (exec_jump_comb c (ps_exec_in c e s) (ps_exec s)) s (ps_next c imem e s)"
proof -
  let ?ins = "prog (arch_pc s)" and ?e = "ps_exec_in c e s" and ?x = "ps_exec s"
  let ?s = "ps_next c imem e s" and ?R = "arch_regs c s" and ?M = "arch_mem s"
  let ?i = "exec_ls_in c ?e ?x"
  note cf = program_config_facts[OF c]
  have inv: "exec_inv c ?x"
    using binv exec_reachable_inv cf(3,5) by (simp add: backend_inv_def)
  have cls: "decode_class (class_of ?ins) (bk_dec (ps_backend s))" using dec by (simp add: decoded_def)
  have m: "de_load_cmd (bk_dec (ps_backend s)) \<or> de_store_cmd (bk_dec (ps_backend s))"
    unfolding decode_class_memory(1)[OF cls] by (rule k)
  have alu: "\<not> de_alu_cmd (bk_dec (ps_backend s))" using decode_class_memory(2)[OF cls] k by auto
  have cls': "decode_class (class_of ?ins) (ex_dec ?e)" using cls by simp
  have k': "class_of ?ins \<in> {Class_Load, Class_Store, Class_Fence}" using k by auto
  note p = taken_memory[OF c inv t cls' k'] and ops = memory_operands[OF c binv data t dec k]
  note d = taken_memory_data[OF c inv data t m p(1) alu, of imem]
  show ?thesis
  proof (cases ?ins)
    case (Load op rd rs1 imm)
    note o = ops(1)[OF Load]
    let ?adr = "rs1_value ?R ?ins + imm_i imm"
    have al: "load_aligned op (ls_adr ?i)" using legal Load o by (simp add: isa_legal_def Let_def)
    then have ok: "\<not> ls_misalign ?i" "\<not> ls_invalid_op ?i"
      using o load_misalign[of ?i op] load_not_invalid[of ?i op] by simp_all
    have "ls_rdmux_out c (answer_of w) (ls_init c\<lparr>ls_pipe := [ls_new_entry ?i]\<rparr>) =
        isa_load op ?adr w" for w
      using ls_rdmux_isa[of ?i op "ls_init c\<lparr>ls_pipe := [ls_new_entry ?i]\<rparr>" c "answer_of w"] o al cf(5)
      by (simp add: ls_mux_index_def max_pipe_index_def answer_of_def)
    moreover have "de_rd_adr_o (bk_dec (ps_backend s)) = rd" using dec Load by (simp add: decoded_def)
    ultimately have "arch_regs c ?s = write_reg (Some (rd, isa_load op ?adr (?M (data_word ?adr)))) ?R"
      using d(3)[OF ok] o by simp
    then show ?thesis
      using d(1,2)[OF ok] o p(2) Load
      by (simp add: taken_effect_def isa_step_def Let_def no_jump_def)
  next
    case (Store op rs1 rs2 imm)
    note o = ops(2)[OF Store]
    let ?adr = "rs1_value ?R ?ins + imm_i imm"
    have al: "store_aligned op (ls_adr ?i)" using legal Store o by (simp add: isa_legal_def Let_def)
    then have ok: "\<not> ls_misalign ?i" "\<not> ls_invalid_op ?i"
      using o store_misalign[of ?i op] store_not_invalid[of ?i op] by simp_all
    have "write_request (ls_request ?i 0) ?M = ?M(data_word ?adr :=
        isa_store op ?adr (rs2_value ?R ?ins) (?M (data_word ?adr)))"
      using ls_store_isa[of ?i op] o al by (simp add: write_request_def ls_request_def)
    then have "arch_mem ?s = ?M(data_word ?adr :=
        isa_store op ?adr (rs2_value ?R ?ins) (?M (data_word ?adr)))"
      using d(2)[OF ok] o by simp
    then show ?thesis
      using d(1,3)[OF ok] o p(2) Store
      by (simp add: taken_effect_def isa_step_def Let_def no_jump_def)
  qed (use k in simp_all)
qed

lemma taken_isa_step:
  fixes imem :: "xword \<Rightarrow> xword"
  assumes c: "program_config_ok c" and binv: "backend_inv c (ps_backend s)" and data: "data_inv s"
    and t: "exec_taken c (ps_exec_in c e s) (ps_exec s)"
    and dec: "decoded (prog (arch_pc s)) (arch_pc s) (arch_pc s + 4) (bk_dec (ps_backend s))"
    and legal: "isa_legal prog (arch_state c s)"
  shows "taken_effect c prog (exec_jump_comb c (ps_exec_in c e s) (ps_exec s)) s (ps_next c imem e s)"
proof -
  let ?ins = "prog (arch_pc s)"
  have sm: "shifter_mode c = Shift_Comb \<or> shifter_mode c = Shift_Pipelined"
    using program_config_facts(4)[OF c] by auto
  consider "class_of ?ins \<in> {Class_Load, Class_Store}" | "?ins = Fence"
    | "class_of ?ins \<in> {Class_Alu, Class_Jal, Class_Jalr, Class_Branch}"
    using legal by (cases ?ins) (simp_all add: isa_legal_def Let_def)
  then show ?thesis
  proof cases
    case 3
    show ?thesis
    proof (cases "rv_is_shift ?ins \<and> shifter_mode c = Shift_Pipelined")
      case True
      then show ?thesis using taken_shift_effect[of c s e prog imem, OF c binv data t dec] by blast
    next
      case False
      then show ?thesis
        using sm by (intro taken_register_effect[of c s e prog imem, OF c binv data t dec legal 3]) blast
    qed
  qed (use taken_memory_effect[of c s e prog imem, OF c binv data t dec legal]
      taken_fence_effect[of c s e prog imem, OF c binv data t dec] in blast)+
qed

text \<open>Also the environment condition of the backend's invariant holds.\<close>

lemma program_env_ok:
  assumes c: "program_config_ok c" and binv: "backend_inv c (ps_backend s)" and data: "data_inv s"
    and run: "exec_taken c (ps_exec_in c e s) (ps_exec s) \<Longrightarrow>
      decoded (prog (arch_pc s)) (arch_pc s) (arch_pc s + 4) (bk_dec (ps_backend s)) \<and>
      isa_legal prog (arch_state c s)"
  shows "backend_env_ok c (ps_bk_in e s) (ps_backend s)"
proof -
  let ?i = "exec_ls_in c (ps_exec_in c e s) (ps_exec s)" and ?ins = "prog (arch_pc s)"
  have "\<not> ls_misalign ?i \<and> \<not> ls_invalid_op ?i"
    if t: "exec_taken c (ps_exec_in c e s) (ps_exec s)" and l: "de_load_cmd (bk_dec (ps_backend s))"
  proof -
    note dec = conjunct1[OF run[OF t]] and legal = conjunct2[OF run[OF t]]
    have "class_of ?ins = Class_Load" using dec l by (simp add: decoded_def decode_class_def)
    then obtain op rd rs1 imm where i: "?ins = Load op rd rs1 imm" by (cases ?ins) auto
    have o: "ls_adr ?i = rs1_value (arch_regs c s) ?ins + imm_i imm \<and>
        ls_funct3_i ?i = load_funct3 op \<and> \<not> ls_store_i ?i"
      using memory_operands(1)[OF c binv data t dec _ i] i by simp
    then have "load_aligned op (ls_adr ?i)" using legal i by (simp add: isa_legal_def Let_def)
    then show ?thesis using o load_misalign[of ?i op] load_not_invalid[of ?i op] by simp
  qed
  then show ?thesis by (auto simp: backend_env_ok_def Let_def no_transfer_def)
qed

end
