(* ===== verification/Core_Simulation.thy ===== *)
theory Core_Simulation
  imports Core_Program
begin

text \<open>
  The core against the instruction set machine: the fetch unit and the decode stage between two
  instructions, the invariant of the whole core, the four kinds of clock edge (an instruction is
  taken, the back end waits, the decode stage is empty, a registered jump is on its way), each a
  step of the machine or none, and the theorem that the core runs programs.
\<close>

subsection \<open>The front end\<close>

text \<open>
  The instruction memory of the system answers a request in the next cycle and never stalls, as
  the RAM port of the SoC does; \<open>p\<close> is the address of the request being answered. It is one of the
  buses of \<open>fetch_in_order\<close>, and on it a request counts as outstanding exactly when it is.
\<close>

definition fetch_env_in ::
  "(xword \<Rightarrow> xword) \<Rightarrow> (bool \<times> bool \<times> xword) \<Rightarrow> xword option \<Rightarrow> fetch_in" where
  "fetch_env_in mem e p = (case e of (stall, jump, dest) \<Rightarrow>
     \<lparr>fe_stall_i = stall, fe_jump_i = jump, fe_jump_dest_i = dest, fe_ibus_stall_i = False,
      fe_ibus_ack_i = (p \<noteq> None), fe_ibus_db_rd = (case p of None \<Rightarrow> 0 | Some a \<Rightarrow> mem a)\<rparr>)"

definition fetch_inv :: "(xword \<Rightarrow> xword) \<Rightarrow> fetch_state \<Rightarrow> xword option \<Rightarrow> bool" where
  "fetch_inv mem s p \<longleftrightarrow>
     consecutive (fetch_queue s p) \<and>
     (fe_valid s \<longrightarrow> fe_word0 s = mem (fe_ip0 s)) \<and>
     (fe_busy s \<longrightarrow> fe_word1 s = mem (fe_ip1 s) \<and> p = None) \<and>
     (\<forall>a. p = Some a \<longrightarrow> fe_ip2 s = a) \<and>
     fe_outstanding s = (p \<noteq> None) \<and>
     (\<not> fe_run s \<longrightarrow> \<not> fe_valid s \<and> \<not> fe_busy s \<and> p = None)"

lemma fetch_inv_init: "fetch_inv mem (fetch_init c) None" "fetch_pc (fetch_init c) None = reset_address c"
  by (simp_all add: fetch_inv_def fetch_init_def fetch_queue_def fetch_pc_def)

lemma fetch_next_inv:
  assumes inv: "fetch_inv mem s p" and i: "i = fetch_env_in mem e p"
  shows "fetch_inv mem (fetch_next i s) (if fetch_en i s then Some (fetch_ibus_adr_o s) else None)"
proof -
  obtain stall jump dest where e: "e = (stall, jump, dest)" by (cases e)
  show ?thesis
    using inv unfolding i e
    by (cases "fe_run s"; cases stall; cases "fe_busy s"; cases p;
        cases jump; cases "fe_jump_taken s"; cases "fe_valid s")
      (simp_all add: fetch_inv_def fetch_next_def fetch_word_def fetch_env_in_def fetch_comb_defs fetch_queue_def
        Let_def)
qed


lemma ps_fetch_in_env:
  "ps_fetch_in c imem e s = fetch_env_in imem
     (de_valid_o (bk_dec (ps_backend s)) \<and> exec_busy c (ps_exec_in c e s) (ps_exec s),
      exec_jump_o c (ps_exec_in c e s) (ps_exec s),
      exec_jump_dest_o c (ps_exec_in c e s) (ps_exec s)) (ps_fetching s)"
  by (simp add: core_fetch_in_def fetch_env_in_def ps_ibus_def backend_busy_o_def decode_busy_o_def
      decode_downstream_busy_def backend_dec_in_def backend_jump_o_def backend_jump_dest_o_def Let_def
      split: option.splits)

text \<open>Where the fetch unit stands after an edge: at the target of a jump it takes, behind a word
  it delivers, or where it was.\<close>

lemma fetch_next_pc:
  fixes imem :: "xword \<Rightarrow> xword"
  assumes inv: "fetch_inv imem f p" and i: "i = fetch_env_in imem (stall, jump, dest) p"
    and p': "p' = (if fetch_en i f then Some (fetch_ibus_adr_o f) else None)"
  shows "fetch_inv imem (fetch_next i f) p'"
    "fe_run f \<Longrightarrow> jump \<Longrightarrow> \<not> fe_jump_taken f \<Longrightarrow>
       fetch_pc (fetch_next i f) p' = dest \<and> fe_jump_taken (fetch_next i f) \<and> \<not> fetch_raises i f \<and>
       \<not> fe_valid (fetch_next i f) \<and> \<not> fe_busy (fetch_next i f) \<and> p' = None"
    "\<not> jump \<or> fe_jump_taken f \<Longrightarrow> fe_valid f \<Longrightarrow> \<not> stall \<Longrightarrow>
       fetch_pc (fetch_next i f) p' = fetch_pc f p + 4 \<and> \<not> fe_jump_taken (fetch_next i f)"
    "\<not> jump \<or> fe_jump_taken f \<Longrightarrow> \<not> fe_valid f \<or> stall \<Longrightarrow>
       fetch_pc (fetch_next i f) p' = fetch_pc f p \<and>
       (fe_jump_taken f \<longrightarrow> \<not> fe_valid f \<longrightarrow> \<not> stall \<longrightarrow> fe_run f \<longrightarrow> fe_jump_taken (fetch_next i f)) \<and>
       (\<not> fe_jump_taken f \<longrightarrow> \<not> fe_jump_taken (fetch_next i f))"
    "fe_run (fetch_next i f)"
proof -
  show "fetch_inv imem (fetch_next i f) p'"
    unfolding p' by (rule fetch_next_inv[OF inv i])
  note defs = fetch_inv_def fetch_env_in_def fetch_next_def fetch_word_def fetch_comb_defs fetch_queue_def fetch_pc_def
    fetch_raises_def Let_def
  show "fe_run f \<Longrightarrow> jump \<Longrightarrow> \<not> fe_jump_taken f \<Longrightarrow>
       fetch_pc (fetch_next i f) p' = dest \<and> fe_jump_taken (fetch_next i f) \<and> \<not> fetch_raises i f \<and>
       \<not> fe_valid (fetch_next i f) \<and> \<not> fe_busy (fetch_next i f) \<and> p' = None"
    using inv unfolding p' i by (cases p) (simp_all add: defs)
  show "\<not> jump \<or> fe_jump_taken f \<Longrightarrow> fe_valid f \<Longrightarrow> \<not> stall \<Longrightarrow>
       fetch_pc (fetch_next i f) p' = fetch_pc f p + 4 \<and> \<not> fe_jump_taken (fetch_next i f)"
    using inv unfolding p' i
    by (cases "fe_run f"; cases "fe_busy f"; cases p; cases jump; cases "fe_jump_taken f")
      (simp_all add: defs)
  show "\<not> jump \<or> fe_jump_taken f \<Longrightarrow> \<not> fe_valid f \<or> stall \<Longrightarrow>
       fetch_pc (fetch_next i f) p' = fetch_pc f p \<and>
       (fe_jump_taken f \<longrightarrow> \<not> fe_valid f \<longrightarrow> \<not> stall \<longrightarrow> fe_run f \<longrightarrow> fe_jump_taken (fetch_next i f)) \<and>
       (\<not> fe_jump_taken f \<longrightarrow> \<not> fe_jump_taken (fetch_next i f))"
    using inv unfolding p' i
    by (cases "fe_run f"; cases stall; cases "fe_busy f"; cases p; cases jump; cases "fe_jump_taken f";
        cases "fe_valid f")
      (simp_all add: defs)
  show "fe_run (fetch_next i f)" by (simp add: fetch_next_def fetch_word_def Let_def)
qed

text \<open>The pointer runs at most two words ahead of the oldest one not delivered.\<close>

lemma fetch_pointer_bound:
  assumes inv: "fetch_inv imem f p" and small: "uint (fetch_pc f p) + 12 < 2 ^ 32"
  shows "\<not> fetch_raises i f"
proof -
  have n: "uint (fetch_pc f p + 4) = uint (fetch_pc f p) + 4"
    "uint (fetch_pc f p + 8) = uint (fetch_pc f p) + 8"
    using small uint_plus_4[of "fetch_pc f p"] uint_plus_4[of "fetch_pc f p + 4"] by (simp_all add: add.assoc)
  have "fe_ip f \<in> {fetch_pc f p, fetch_pc f p + 4, fetch_pc f p + 8}"
    using inv by (cases "fe_valid f"; cases "fe_busy f"; cases p)
      (auto simp: fetch_inv_def fetch_queue_def fetch_pc_def)
  then have "uint (fe_ip f) + 4 < 2 ^ 32" using n small by auto
  then show ?thesis by (simp add: fetch_raises_def)
qed

text \<open>The decode stage after an edge.\<close>

lemma decode_next:
  fixes imem :: "xword \<Rightarrow> xword" and c :: bonfire_config and e :: memory_choice
  assumes finv: "fetch_inv imem (ps_fetch s) (ps_fetching s)"
  defines "d \<equiv> bk_dec (ps_backend s)" and "d' \<equiv> bk_dec (ps_backend (ps_next c imem e s))"
    and "kill \<equiv> exec_kill c (ps_exec_in c e s) (ps_exec s)"
    and "busy \<equiv> exec_busy c (ps_exec_in c e s) (ps_exec s)"
  shows "kill \<Longrightarrow> \<not> de_valid_o d'"
    "\<not> kill \<Longrightarrow> de_valid_o d \<Longrightarrow> busy \<Longrightarrow> d' = d"
    "\<not> kill \<Longrightarrow> \<not> (de_valid_o d \<and> busy) \<Longrightarrow> \<not> fe_valid (ps_fetch s) \<Longrightarrow> \<not> de_valid_o d'"
    "\<not> kill \<Longrightarrow> \<not> (de_valid_o d \<and> busy) \<Longrightarrow> fe_valid (ps_fetch s) \<Longrightarrow>
       imem (fetch_pc (ps_fetch s) (ps_fetching s)) = rv_encode ins \<Longrightarrow>
       decoded ins (fetch_pc (ps_fetch s) (ps_fetching s)) (fetch_pc (ps_fetch s) (ps_fetching s) + 4) d'"
proof -
  define i where "i = backend_dec_in c (ps_bk_in e s) (ps_backend s)"
  have d': "d' = decode_op no_transfer i d"
    by (simp add: d'_def i_def d_def backend_step_stages decode_step_def)
  have nt: "\<not> rt_valid no_transfer" by (simp add: no_transfer_def)
  have i: "de_kill_i i = kill" "decode_downstream_busy i d = (de_valid_o d \<and> busy)"
    "de_en_i i = fe_valid (ps_fetch s)" "de_word_i i = fe_word0 (ps_fetch s)"
    "de_current_ip_i i = fe_ip0 (ps_fetch s)" "de_next_ip_i i = fe_ip0 (ps_fetch s) + 4"
    by (simp_all add: i_def kill_def busy_def backend_dec_in_def backend_dec_data_def
        decode_downstream_busy_def fetch_out_def)
  show "kill \<Longrightarrow> \<not> de_valid_o d'" by (simp add: d' decode_op_def nt i)
  show "\<not> kill \<Longrightarrow> de_valid_o d \<Longrightarrow> busy \<Longrightarrow> d' = d" by (simp add: d' decode_op_def nt i)
  show "\<not> kill \<Longrightarrow> \<not> (de_valid_o d \<and> busy) \<Longrightarrow> \<not> fe_valid (ps_fetch s) \<Longrightarrow> \<not> de_valid_o d'"
    using i(2) by (simp add: d' decode_op_def nt i(1,3))
  show "decoded ins (fetch_pc (ps_fetch s) (ps_fetching s)) (fetch_pc (ps_fetch s) (ps_fetching s) + 4) d'"
    if "\<not> kill" "\<not> (de_valid_o d \<and> busy)" "fe_valid (ps_fetch s)"
      "imem (fetch_pc (ps_fetch s) (ps_fetching s)) = rv_encode ins"
  proof -
    have "fetch_pc (ps_fetch s) (ps_fetching s) = fe_ip0 (ps_fetch s)"
      "fe_word0 (ps_fetch s) = imem (fe_ip0 (ps_fetch s))"
      using finv that(3) by (simp_all add: fetch_inv_def fetch_pc_def fetch_queue_def)
    moreover have "d' = decode_accept i d"
      using that(1-3) i(2) by (simp add: d' decode_op_def nt i(1,3))
    ultimately show ?thesis using decode_accept_decoded[of i ins d] that(4) i by simp
  qed
qed

lemma fetch_next_distance:
  fixes imem :: "xword \<Rightarrow> xword"
  assumes inv: "fetch_inv imem f p" and i: "i = fetch_env_in imem (False, jump, dest) p"
    and p': "p' = (if fetch_en i f then Some (fetch_ibus_adr_o f) else None)"
    and j: "\<not> jump \<or> fe_jump_taken f" and nv: "\<not> fe_valid f"
  shows "fetch_distance (fetch_next i f) p' < fetch_distance f p"
  using inv j nv unfolding p' i
  by (cases "fe_run f"; cases "fe_busy f"; cases p; cases jump; cases "fe_jump_taken f")
    (simp_all add: fetch_inv_def fetch_env_in_def fetch_next_def fetch_word_def fetch_comb_defs fetch_distance_def Let_def)

subsection \<open>The invariant of the core\<close>

text \<open>The control state: after a jump the decode stage is empty until the fetch unit has followed,
  and nothing is under way then, so the jump request, which stays up, is not taken twice; an
  instruction in the decode stage is the one the program has at its address, and the fetch unit
  stands behind it.\<close>

definition front_inv :: "bonfire_config \<Rightarrow> (xword \<Rightarrow> rv_instr) \<Rightarrow> program_system \<Rightarrow> bool" where
  "front_inv c prog s \<longleftrightarrow>
     (let d = bk_dec (ps_backend s); x = ps_exec s; f = ps_fetch s; pc = de_mepc_o d in
      (ex_jump_busy x \<longrightarrow> \<not> jump_bypass c \<and> ex_jump_r x \<and> \<not> fe_jump_taken f) \<and>
      (de_valid_o d \<and> \<not> ex_jump_busy x \<longrightarrow>
         \<not> fe_jump_taken f \<and> fe_run f \<and> fetch_pc f (ps_fetching s) = pc + 4 \<and>
         decoded (prog pc) pc (pc + 4) d) \<and>
      (ex_jump_r x \<longrightarrow> units_idle x \<and> fe_run f \<and>
         (\<not> ex_jump_busy x \<longrightarrow>
            (if de_valid_o d then exec_wb_stage c \<longrightarrow> \<not> wb_valid (bk_wb (ps_backend s))
             else fe_jump_taken f))))"

definition program_inv ::
  "bonfire_config \<Rightarrow> (xword \<Rightarrow> xword) \<Rightarrow> (xword \<Rightarrow> rv_instr) \<Rightarrow> program_system \<Rightarrow> bool" where
  "program_inv c imem prog s \<longleftrightarrow>
     backend_inv c (ps_backend s) \<and> fetch_inv imem (ps_fetch s) (ps_fetching s) \<and> data_inv s \<and>
     front_inv c prog s"

text \<open>What the instruction memory holds where the program runs.\<close>

definition program_ok :: "(xword \<Rightarrow> xword) \<Rightarrow> (xword \<Rightarrow> rv_instr) \<Rightarrow> isa_state \<Rightarrow> bool" where
  "program_ok imem prog st \<longleftrightarrow> (\<forall>n. let t = (isa_step prog ^^ n) st in
     imem (is_pc t) = rv_encode (prog (is_pc t)) \<and> isa_legal prog t)"

lemma program_ok_now:
  assumes "program_ok imem prog st"
  shows "imem (is_pc st) = rv_encode (prog (is_pc st))" "isa_legal prog st"
    "imem (is_pc (isa_step prog st)) = rv_encode (prog (is_pc (isa_step prog st)))"
  using assms[unfolded program_ok_def, rule_format, of 0] assms[unfolded program_ok_def, rule_format, of 1]
  by (simp_all add: Let_def)

lemma program_ok_step: "program_ok imem prog st \<Longrightarrow> program_ok imem prog (isa_step prog st)"
  unfolding program_ok_def by (metis funpow_Suc_right comp_apply)

text \<open>The cycles to the next instruction, if the data memory answers at once.\<close>

definition exec_delay :: "bonfire_config \<Rightarrow> program_system \<Rightarrow> nat" where
  "exec_delay c s =
     (let x = ps_exec s in
      if ls_outstanding (ex_ls x) = 1 then 3
      else if ls_valid_reg (ex_ls x) \<or> al_busy_o (ex_alu x) then 2
      else if exec_wb_stage c \<and> wb_valid (bk_wb (ps_backend s)) then 1 else 0)"

definition program_rank :: "bonfire_config \<Rightarrow> program_system \<Rightarrow> nat" where
  "program_rank c s =
     (if ex_jump_busy (ps_exec s) then 8
      else if de_valid_o (bk_dec (ps_backend s)) then exec_delay c s
      else 4 + fetch_distance (ps_fetch s) (ps_fetching s))"

lemma program_rank_le: "program_rank c s \<le> 8"
  by (simp add: program_rank_def exec_delay_def fetch_distance_def Let_def)

definition memory_ready :: "memory_choice \<Rightarrow> bool" where
  "memory_ready e \<longleftrightarrow> \<not> mc_stall e \<and> mc_ack e"

definition ps_taken :: "bonfire_config \<Rightarrow> memory_choice \<Rightarrow> program_system \<Rightarrow> bool" where
  "ps_taken c e s = exec_taken c (ps_exec_in c e s) (ps_exec s)"

text \<open>The units while nothing is taken.\<close>

lemma waiting_units:
  fixes imem :: "xword \<Rightarrow> xword"
  assumes c: "program_config_ok c" and inv: "exec_inv c (ps_exec s)" and data: "data_inv s"
    and nt: "\<not> ps_taken c e s"
  defines "s' \<equiv> ps_next c imem e s"
  shows "units_idle (ps_exec s) \<Longrightarrow> units_idle (ps_exec s') \<and>
      (exec_wb_stage c \<longrightarrow> \<not> wb_valid (bk_wb (ps_backend s')))"
    "exec_delay c s' \<le> exec_delay c s"
    "exec_busy c (ps_exec_in c e s) (ps_exec s) \<Longrightarrow> \<not> ex_jump_busy (ps_exec s) \<Longrightarrow>
       memory_ready e \<Longrightarrow> exec_delay c s' < exec_delay c s"
proof -
  note cf = program_config_facts[OF c]
  note nt' = nt[unfolded ps_taken_def]
  note w = ls_waiting_step[OF c inv data nt', of imem, folded s'_def]
  have x': "ps_exec s' = exec_step c False (ps_exec_in c e s) (ps_exec s)"
    by (simp add: s'_def backend_step_stages)
  have nb: "\<not> al_busy_o (ex_alu (ps_exec s'))" unfolding x' by (rule exec_step_not_taken[OF nt'])
  have wb: "exec_wb_stage c \<Longrightarrow> wb_valid (bk_wb (ps_backend s')) =
      exec_valid_o c (ps_exec_in c e s) (ps_exec s)"
    by (simp add: s'_def backend_step_def writeback_seq_def)
  note quiet = waiting_retire(2)[OF c inv nt']
  have idle: "units_idle (ps_exec s')" if "units_idle (ps_exec s)"
    using that nb w by (simp add: units_idle_def)
  then show "units_idle (ps_exec s) \<Longrightarrow> units_idle (ps_exec s') \<and>
      (exec_wb_stage c \<longrightarrow> \<not> wb_valid (bk_wb (ps_backend s')))"
    using wb quiet by blast
  let ?l = "ex_ls (ps_exec s)"
  have out: "ls_outstanding ?l = 0 \<or> ls_outstanding ?l = 1"
    "ls_valid_reg ?l \<Longrightarrow> ls_outstanding ?l = 0"
    using inv by (auto simp: exec_inv_def le_Suc_eq)
  have delay': "exec_delay c s' \<le> (if ls_outstanding ?l = 1 then if ps_answer e s then 2 else 3
      else if units_idle (ps_exec s) then 0 else 1)"
    using w nb out wb quiet by (auto simp: exec_delay_def Let_def units_idle_def)
  have delay: "exec_delay c s = (if ls_outstanding ?l = 1 then 3
      else if \<not> units_idle (ps_exec s) then 2
      else if exec_wb_stage c \<and> wb_valid (bk_wb (ps_backend s)) then 1 else 0)"
    using out by (auto simp: exec_delay_def Let_def units_idle_def)
  show "exec_delay c s' \<le> exec_delay c s"
    using delay' delay by (auto split: if_splits)
  assume b: "exec_busy c (ps_exec_in c e s) (ps_exec s)" "\<not> ex_jump_busy (ps_exec s)"
    and r: "memory_ready e"
  have "ls_outstanding ?l = 1 \<Longrightarrow> ps_answer e s"
    using r data by (auto simp: memory_ready_def ps_answer_def ps_accept_def ps_request_def
        data_inv_def Let_def)
  moreover have "exec_wb_stage c \<and> wb_valid (bk_wb (ps_backend s))" if "units_idle (ps_exec s)"
    using b that exec_ls_outputs(4)[OF c, of ?l "ps_dbus e s"]
    by (auto simp: exec_busy_def units_idle_def csr_busy_o_def backend_exec_in_def four_stage_hazard_def
        Let_def)
  ultimately show "exec_delay c s' < exec_delay c s"
    using delay' delay by (auto split: if_splits)
qed

subsection \<open>Every edge is a step of the machine or none\<close>

text \<open>What an edge must do.\<close>

definition simulates ::
  "bonfire_config \<Rightarrow> (xword \<Rightarrow> xword) \<Rightarrow> (xword \<Rightarrow> rv_instr) \<Rightarrow> memory_choice \<Rightarrow> program_system \<Rightarrow> bool" where
  "simulates c imem prog e s \<longleftrightarrow>
     (let s' = ps_next c imem e s in
      \<not> fetch_raises (ps_fetch_in c imem e s) (ps_fetch s) \<and> program_inv c imem prog s' \<and>
      arch_state c s' = (if ps_taken c e s then isa_step prog (arch_state c s) else arch_state c s) \<and>
      (\<not> ps_taken c e s \<longrightarrow> program_rank c s' \<le> program_rank c s \<and>
         (memory_ready e \<longrightarrow> program_rank c s' < program_rank c s)))"

lemma program_inv_exec:
  assumes "program_config_ok c" "program_inv c imem prog s"
  shows "exec_inv c (ps_exec s)"
  using assms exec_reachable_inv program_config_facts(3,5)[OF assms(1)]
  by (simp add: program_inv_def backend_inv_def)

lemma program_step_facts:
  fixes e :: memory_choice
  assumes c: "program_config_ok c" and inv: "program_inv c imem prog s"
    and ok: "program_ok imem prog (arch_state c s)"
  defines "s' \<equiv> ps_next c imem e s" and "d \<equiv> bk_dec (ps_backend s)"
  shows "ps_taken c e s \<Longrightarrow> de_valid_o d \<and> \<not> ex_jump_busy (ps_exec s) \<and> arch_pc s = de_mepc_o d \<and>
      decoded (prog (arch_pc s)) (arch_pc s) (arch_pc s + 4) d"
    "ps_taken c e s \<Longrightarrow>
      taken_effect c prog (exec_jump_comb c (ps_exec_in c e s) (ps_exec s)) s s'"
    "\<not> ps_taken c e s \<Longrightarrow> data_inv s' \<and> arch_mem s' = arch_mem s \<and> arch_regs c s' = arch_regs c s"
    "backend_inv c (ps_backend s')"
    "data_inv s'"
proof -
  note cf = program_config_facts[OF c]
  have binv: "backend_inv c (ps_backend s)" and data: "data_inv s" and fr: "front_inv c prog s"
    using inv by (simp_all add: program_inv_def)
  note xi = program_inv_exec[OF c inv]
  show t: "de_valid_o d \<and> \<not> ex_jump_busy (ps_exec s) \<and> arch_pc s = de_mepc_o d \<and>
      decoded (prog (arch_pc s)) (arch_pc s) (arch_pc s + 4) d" if "ps_taken c e s"
    using that fr by (auto simp: ps_taken_def exec_taken_def exec_busy_def arch_pc_def d_def front_inv_def
        Let_def)
  show eff: "taken_effect c prog (exec_jump_comb c (ps_exec_in c e s) (ps_exec s)) s s'" if "ps_taken c e s"
    unfolding s'_def
    by (rule taken_isa_step[OF c binv data that[unfolded ps_taken_def] _ program_ok_now(2)[OF ok]])
      (use t[OF that, unfolded d_def] in blast)
  show wait: "data_inv s' \<and> arch_mem s' = arch_mem s \<and> arch_regs c s' = arch_regs c s"
    if "\<not> ps_taken c e s"
    unfolding s'_def using waiting_data[OF c xi data that[unfolded ps_taken_def]] by blast
  have "backend_env_ok c (ps_bk_in e s) (ps_backend s)"
    by (rule program_env_ok[of c s e prog, OF c binv data])
      (use t[unfolded ps_taken_def d_def] program_ok_now(2)[OF ok] in blast)
  then show "backend_inv c (ps_backend s')" using backend_inv_step[OF binv] by (simp add: s'_def)
  show "data_inv s'" using eff wait by (cases "ps_taken c e s") (simp_all add: taken_effect_def)
qed

text \<open>The fetch unit across the edge, by what the back end asks of it.\<close>

lemma ps_next_fetch:
  fixes imem :: "xword \<Rightarrow> xword" and c :: bonfire_config and e :: memory_choice
  assumes inv: "fetch_inv imem (ps_fetch s) (ps_fetching s)"
  defines "s' \<equiv> ps_next c imem e s" and "f \<equiv> ps_fetch s"
    and "jump \<equiv> exec_jump_o c (ps_exec_in c e s) (ps_exec s)"
    and "stall \<equiv> de_valid_o (bk_dec (ps_backend s)) \<and> exec_busy c (ps_exec_in c e s) (ps_exec s)"
  shows "fetch_inv imem (ps_fetch s') (ps_fetching s')" "fe_run (ps_fetch s')"
    "fe_run f \<Longrightarrow> jump \<Longrightarrow> \<not> fe_jump_taken f \<Longrightarrow>
       fetch_pc (ps_fetch s') (ps_fetching s') = exec_jump_dest_o c (ps_exec_in c e s) (ps_exec s) \<and>
       fe_jump_taken (ps_fetch s') \<and> \<not> fetch_raises (ps_fetch_in c imem e s) f \<and>
       fetch_distance (ps_fetch s') (ps_fetching s') = 2"
    "\<not> jump \<or> fe_jump_taken f \<Longrightarrow> fe_valid f \<Longrightarrow> \<not> stall \<Longrightarrow>
       fetch_pc (ps_fetch s') (ps_fetching s') = fetch_pc f (ps_fetching s) + 4 \<and>
       \<not> fe_jump_taken (ps_fetch s')"
    "\<not> jump \<or> fe_jump_taken f \<Longrightarrow> \<not> fe_valid f \<or> stall \<Longrightarrow>
       fetch_pc (ps_fetch s') (ps_fetching s') = fetch_pc f (ps_fetching s)"
    "\<not> jump \<Longrightarrow> \<not> fe_jump_taken f \<Longrightarrow> \<not> fe_jump_taken (ps_fetch s')"
    "fe_jump_taken f \<Longrightarrow> \<not> fe_valid f \<Longrightarrow> \<not> stall \<Longrightarrow> fe_run f \<Longrightarrow> fe_jump_taken (ps_fetch s')"
    "\<not> jump \<or> fe_jump_taken f \<Longrightarrow> \<not> fe_valid f \<Longrightarrow> \<not> stall \<Longrightarrow>
       fetch_distance (ps_fetch s') (ps_fetching s') < fetch_distance f (ps_fetching s)"
proof -
  have i: "ps_fetch_in c imem e s = fetch_env_in imem (stall, jump,
      exec_jump_dest_o c (ps_exec_in c e s) (ps_exec s)) (ps_fetching s)"
    by (simp only: ps_fetch_in_env jump_def stall_def)
  note n = fetch_next_pc[OF inv i refl]
  have s': "ps_fetch s' = fetch_next (ps_fetch_in c imem e s) (ps_fetch s)"
    "ps_fetching s' = (if fetch_en (ps_fetch_in c imem e s) (ps_fetch s)
       then Some (fetch_ibus_adr_o (ps_fetch s)) else None)"
    by (simp_all add: s'_def)
  note fetch = n[folded s' f_def]
  have dist: "fe_run g \<Longrightarrow> \<not> fe_valid g \<Longrightarrow> \<not> fe_busy g \<Longrightarrow> p = None \<Longrightarrow> fetch_distance g p = 2" for g p
    by (simp add: fetch_distance_def)
  show "fetch_inv imem (ps_fetch s') (ps_fetching s')" "fe_run (ps_fetch s')" by (rule fetch)+
  show "fe_run f \<Longrightarrow> jump \<Longrightarrow> \<not> fe_jump_taken f \<Longrightarrow>
       fetch_pc (ps_fetch s') (ps_fetching s') = exec_jump_dest_o c (ps_exec_in c e s) (ps_exec s) \<and>
       fe_jump_taken (ps_fetch s') \<and> \<not> fetch_raises (ps_fetch_in c imem e s) f \<and>
       fetch_distance (ps_fetch s') (ps_fetching s') = 2"
    using fetch(2,5) dist by blast
  show "\<not> jump \<or> fe_jump_taken f \<Longrightarrow> fe_valid f \<Longrightarrow> \<not> stall \<Longrightarrow>
       fetch_pc (ps_fetch s') (ps_fetching s') = fetch_pc f (ps_fetching s) + 4 \<and>
       \<not> fe_jump_taken (ps_fetch s')"
    by (rule fetch(3))
  show "\<not> jump \<or> fe_jump_taken f \<Longrightarrow> \<not> fe_valid f \<or> stall \<Longrightarrow>
       fetch_pc (ps_fetch s') (ps_fetching s') = fetch_pc f (ps_fetching s)"
    using fetch(4) by blast
  show "\<not> jump \<Longrightarrow> \<not> fe_jump_taken f \<Longrightarrow> \<not> fe_jump_taken (ps_fetch s')"
    using fetch(3,4) by blast
  show jt: "fe_jump_taken f \<Longrightarrow> \<not> fe_valid f \<Longrightarrow> \<not> stall \<Longrightarrow> fe_run f \<Longrightarrow> fe_jump_taken (ps_fetch s')"
    using fetch(4) by blast
  show "fetch_distance (ps_fetch s') (ps_fetching s') < fetch_distance f (ps_fetching s)"
    if "\<not> jump \<or> fe_jump_taken f" "\<not> fe_valid f" "\<not> stall"
  proof -
    have "stall = False" using that(3) by simp
    from fetch_next_distance[OF inv i[unfolded this] refl, folded s' f_def] that(1,2)
    show ?thesis by blast
  qed
qed

lemma simulates_jump_pending:
  assumes c: "program_config_ok c" and inv: "program_inv c imem prog s"
    and ok: "program_ok imem prog (arch_state c s)" and b: "ex_jump_busy (ps_exec s)"
  shows "simulates c imem prog e s"
proof -
  define s' where "s' = ps_next c imem e s"
  let ?x = "ps_exec s" and ?e = "ps_exec_in c e s"
  note facts = program_step_facts[OF c inv ok, where e = e, folded s'_def]
  have finv: "fetch_inv imem (ps_fetch s) (ps_fetching s)" and data: "data_inv s"
    using inv by (simp_all add: program_inv_def)
  have fr: "\<not> jump_bypass c" "ex_jump_r ?x" "\<not> fe_jump_taken (ps_fetch s)" "units_idle ?x"
    "fe_run (ps_fetch s)"
    using inv b by (simp_all add: program_inv_def front_inv_def Let_def)
  have nt: "\<not> ps_taken c e s" using b by (simp add: ps_taken_def exec_taken_def exec_busy_def)
  have jump: "exec_jump_o c ?e ?x" "exec_jump_dest_o c ?e ?x = ex_jump_dest_r ?x"
    using nt fr by (simp_all add: exec_jump_o_def exec_jump_dest_o_def ps_taken_def)
  note f = ps_next_fetch[OF finv, where c = c and e = e, folded s'_def]
  note f3 = f(3)[OF fr(5) jump(1) fr(3), unfolded jump(2)]
  have k: "exec_kill c ?e ?x" using b fr(1) by (simp add: exec_kill_def)
  note d = decode_next(1)[OF finv k, folded s'_def]
  note u = waiting_units(1)[OF c program_inv_exec[OF c inv] data nt fr(4), of imem, folded s'_def]
  have xs: "ex_jump_r (ps_exec s')" "\<not> ex_jump_busy (ps_exec s')"
    using exec_step_rd[of c ?e ?x] nt fr(2) by (simp_all add: s'_def backend_step_stages ps_taken_def)
  have pc: "arch_pc s' = arch_pc s" using d xs f3 b by (simp add: arch_pc_def)
  have "front_inv c prog s'" using d xs f3 u f(2) by (simp add: front_inv_def Let_def)
  moreover have "program_rank c s' < program_rank c s"
    using d xs f3 b by (simp add: program_rank_def)
  ultimately show ?thesis
    using facts nt f(1) f3 pc
    by (simp add: simulates_def program_inv_def arch_state_def s'_def[symmetric] Let_def)
qed

lemma simulates_taken:
  assumes c: "program_config_ok c" and inv: "program_inv c imem prog s"
    and ok: "program_ok imem prog (arch_state c s)" and t: "ps_taken c e s"
  shows "simulates c imem prog e s"
proof -
  define s' where "s' = ps_next c imem e s"
  let ?x = "ps_exec s" and ?e = "ps_exec_in c e s" and ?d = "bk_dec (ps_backend s)"
  let ?j = "exec_jump_comb c ?e ?x" and ?pc = "arch_pc s"
  note facts = program_step_facts[OF c inv ok, where e = e, folded s'_def]
  have finv: "fetch_inv imem (ps_fetch s) (ps_fetching s)" using inv by (simp add: program_inv_def)
  have v: "de_valid_o ?d" "\<not> ex_jump_busy ?x" "?pc = de_mepc_o ?d" using facts(1)[OF t] by simp_all
  have fr: "\<not> fe_jump_taken (ps_fetch s)" "fe_run (ps_fetch s)"
    "fetch_pc (ps_fetch s) (ps_fetching s) = ?pc + 4"
    using inv v by (simp_all add: program_inv_def front_inv_def Let_def)
  have eff: "is_pc (isa_step prog (arch_state c s)) = (if ej_jump ?j then ej_jump_dest ?j else ?pc + 4)"
    "ej_jump ?j \<longrightarrow> units_idle (ps_exec s')"
    using facts(2)[OF t] by (simp_all add: taken_effect_def)
  have tk: "exec_taken c ?e ?x" and nb: "\<not> exec_busy c ?e ?x"
    using t by (simp_all add: ps_taken_def exec_taken_def)
  have jump: "exec_jump_o c ?e ?x = (jump_bypass c \<and> ej_jump ?j)"
    "jump_bypass c \<Longrightarrow> exec_jump_dest_o c ?e ?x = ej_jump_dest ?j"
    using tk by (simp_all add: exec_jump_o_def exec_jump_dest_o_def)
  have kill: "exec_kill c ?e ?x = (jump_bypass c \<and> ej_jump ?j)"
    using tk v(2) by (simp add: exec_kill_def)
  have xs: "ex_jump_r (ps_exec s') = ej_jump ?j" "ex_jump_dest_r (ps_exec s') = ej_jump_dest ?j"
    "ex_jump_busy (ps_exec s') = (ej_jump ?j \<and> \<not> jump_bypass c)"
    using exec_step_rd[of c ?e ?x] tk by (simp_all add: s'_def backend_step_stages)
  note f = ps_next_fetch[OF finv, where c = c and e = e, folded s'_def]
  note d = decode_next[OF finv, where c = c and e = e, folded s'_def]
  have small: "uint (?pc + 4) + 12 < 2 ^ 32"
    using program_ok_now(2)[OF ok] uint_plus_4[of ?pc] by (simp add: isa_legal_def Let_def)
  have "front_inv c prog s' \<and> arch_pc s' = is_pc (isa_step prog (arch_state c s)) \<and>
      \<not> fetch_raises (ps_fetch_in c imem e s) (ps_fetch s)"
  proof (cases "jump_bypass c \<and> ej_jump ?j")
    case True
    have k: "exec_kill c ?e ?x" "exec_jump_o c ?e ?x" using True jump kill by simp_all
    show ?thesis
      using f(2) f(3)[OF fr(2) k(2) fr(1)] d(1)[OF k(1)] True jump(2) xs eff
      by (simp add: front_inv_def arch_pc_def[of s'] Let_def)
  next
    case False
    have nk: "\<not> exec_kill c ?e ?x" and nj: "\<not> exec_jump_o c ?e ?x \<or> fe_jump_taken (ps_fetch s)"
      using False jump kill by simp_all
    have nr: "\<not> fetch_raises (ps_fetch_in c imem e s) (ps_fetch s)"
      using fetch_pointer_bound[OF finv] small fr(3) by simp
    have jt: "\<not> fe_jump_taken (ps_fetch s')" using f(6) nj fr(1) by blast
    show ?thesis
    proof (cases "ej_jump ?j")
      case True
      then show ?thesis
        using False xs eff jt f(2) nr by (simp add: front_inv_def arch_pc_def[of s'] Let_def)
    next
      case False
      have im: "imem (fetch_pc (ps_fetch s) (ps_fetching s)) = rv_encode (prog (?pc + 4))"
        using program_ok_now(3)[OF ok] eff(1) False fr(3) by simp
      show ?thesis
      proof (cases "fe_valid (ps_fetch s)")
        case True
        from d(4)[OF nk _ True im] nb have "decoded (prog (?pc + 4)) (?pc + 4) (?pc + 4 + 4) (bk_dec (ps_backend s'))"
          by (simp only: fr(3) simp_thms)
        then have "de_valid_o (bk_dec (ps_backend s'))" "de_mepc_o (bk_dec (ps_backend s')) = ?pc + 4"
          "decoded (prog (?pc + 4)) (?pc + 4) (?pc + 4 + 4) (bk_dec (ps_backend s'))"
          by (simp_all add: decoded_def)
        then show ?thesis
          using f(2) f(4)[OF nj True] nb fr(3) xs False nr eff(1) jt
          by (simp add: front_inv_def arch_pc_def[of s'] Let_def)
      next
        case nv: False
        have "\<not> de_valid_o (bk_dec (ps_backend s'))" using d(3)[OF nk _ nv] nb by blast
        then show ?thesis
          using f(5)[OF nj] nv fr(3) xs False nr eff(1)
          by (simp add: front_inv_def arch_pc_def[of s'] Let_def)
      qed
    qed
  qed
  then show ?thesis
    using facts(2)[OF t] facts(4) f(1) t
    by (simp add: simulates_def program_inv_def arch_state_def taken_effect_def s'_def[symmetric] Let_def)
qed

lemma simulates_waiting:
  assumes c: "program_config_ok c" and inv: "program_inv c imem prog s"
    and ok: "program_ok imem prog (arch_state c s)" and nt: "\<not> ps_taken c e s"
    and front: "front_inv c prog (ps_next c imem e s)" "arch_pc (ps_next c imem e s) = arch_pc s"
    and nr: "\<not> fetch_raises (ps_fetch_in c imem e s) (ps_fetch s)"
    and rank: "program_rank c (ps_next c imem e s) \<le> program_rank c s"
      "memory_ready e \<Longrightarrow> program_rank c (ps_next c imem e s) < program_rank c s"
  shows "simulates c imem prog e s"
proof -
  have "fetch_inv imem (ps_fetch s) (ps_fetching s)" using inv by (simp add: program_inv_def)
  note f = ps_next_fetch(1)[OF this, where c = c and e = e]
  show ?thesis
    using program_step_facts(3-5)[OF c inv ok, where e = e] nt front nr rank f
    unfolding simulates_def program_inv_def arch_state_def Let_def by simp
qed

lemma simulates_stalled:
  assumes c: "program_config_ok c" and inv: "program_inv c imem prog s"
    and ok: "program_ok imem prog (arch_state c s)" and nt: "\<not> ps_taken c e s"
    and v: "de_valid_o (bk_dec (ps_backend s))" and b: "\<not> ex_jump_busy (ps_exec s)"
  shows "simulates c imem prog e s"
proof -
  define s' where "s' = ps_next c imem e s"
  let ?x = "ps_exec s" and ?e = "ps_exec_in c e s" and ?d = "bk_dec (ps_backend s)"
  have finv: "fetch_inv imem (ps_fetch s) (ps_fetching s)" and data: "data_inv s"
    using inv by (simp_all add: program_inv_def)
  note xi = program_inv_exec[OF c inv]
  have busy: "exec_busy c ?e ?x" and ntk: "\<not> exec_taken c ?e ?x"
    using nt v by (simp_all add: ps_taken_def exec_taken_def)
  have fr: "\<not> fe_jump_taken (ps_fetch s)" "fe_run (ps_fetch s)"
    "fetch_pc (ps_fetch s) (ps_fetching s) = de_mepc_o ?d + 4"
    "decoded (prog (de_mepc_o ?d)) (de_mepc_o ?d) (de_mepc_o ?d + 4) ?d"
    "ex_jump_r ?x \<longrightarrow> units_idle ?x \<and> (exec_wb_stage c \<longrightarrow> \<not> wb_valid (bk_wb (ps_backend s)))"
    using inv v b by (simp_all add: program_inv_def front_inv_def Let_def)
  have nj: "\<not> ex_jump_r ?x"
  proof
    assume "ex_jump_r ?x"
    then have "\<not> exec_busy c ?e ?x"
      using fr(5) b exec_ls_outputs(4)[OF c, of "ex_ls ?x" "ps_dbus e s"]
      by (auto simp: exec_busy_def units_idle_def csr_busy_o_def backend_exec_in_def
          four_stage_hazard_def Let_def)
    then show False using busy by blast
  qed
  have jump: "\<not> exec_jump_o c ?e ?x" "\<not> exec_kill c ?e ?x"
    using nj ntk b by (simp_all add: exec_jump_o_def exec_kill_def)
  have xs: "\<not> ex_jump_r (ps_exec s')" "\<not> ex_jump_busy (ps_exec s')"
    using exec_step_rd[of c ?e ?x] ntk nj by (simp_all add: s'_def backend_step_stages)
  note f = ps_next_fetch[OF finv, where c = c and e = e, folded s'_def]
  have d: "bk_dec (ps_backend s') = ?d"
    using decode_next(2)[OF finv jump(2) v busy] by (simp add: s'_def)
  have fpc: "fetch_pc (ps_fetch s') (ps_fetching s') = de_mepc_o ?d + 4"
    using f(5) jump(1) v busy fr(3) by simp
  have jt: "\<not> fe_jump_taken (ps_fetch s')" using f(6) jump(1) fr(1) by blast
  have pc: "arch_pc s = de_mepc_o ?d" using v b by (simp add: arch_pc_def)
  note w = waiting_units[OF c xi data nt, of imem, folded s'_def]
  show ?thesis
  proof (rule simulates_waiting[OF c inv ok nt])
    show "front_inv c prog (ps_next c imem e s)" "arch_pc (ps_next c imem e s) = arch_pc s"
      unfolding s'_def[symmetric]
      using d fpc jt xs f(2) fr(4) v b by (simp_all add: front_inv_def arch_pc_def Let_def)
    show "\<not> fetch_raises (ps_fetch_in c imem e s) (ps_fetch s)"
      using fetch_pointer_bound[OF finv] fr(3) pc program_ok_now(2)[OF ok] uint_plus_4[of "arch_pc s"]
      by (simp add: isa_legal_def Let_def)
    show "program_rank c (ps_next c imem e s) \<le> program_rank c s"
      "memory_ready e \<Longrightarrow> program_rank c (ps_next c imem e s) < program_rank c s"
      unfolding s'_def[symmetric] using w(2) w(3)[OF busy b] d xs v b
      by (simp_all add: program_rank_def)
  qed
qed

lemma simulates_empty:
  assumes c: "program_config_ok c" and inv: "program_inv c imem prog s"
    and ok: "program_ok imem prog (arch_state c s)"
    and v: "\<not> de_valid_o (bk_dec (ps_backend s))" and b: "\<not> ex_jump_busy (ps_exec s)"
  shows "simulates c imem prog e s"
proof -
  define s' where "s' = ps_next c imem e s"
  let ?x = "ps_exec s" and ?e = "ps_exec_in c e s" and ?f = "ps_fetch s" and ?pc = "arch_pc s"
  have finv: "fetch_inv imem ?f (ps_fetching s)" and data: "data_inv s"
    using inv by (simp_all add: program_inv_def)
  note xi = program_inv_exec[OF c inv]
  have ntk: "\<not> exec_taken c ?e ?x" using v by (simp add: exec_taken_def)
  then have nt: "\<not> ps_taken c e s" by (simp add: ps_taken_def)
  have fr: "ex_jump_r ?x \<longrightarrow> units_idle ?x \<and> fe_run ?f \<and> fe_jump_taken ?f"
    using inv v b by (simp add: program_inv_def front_inv_def Let_def)
  have pc: "?pc = fetch_pc ?f (ps_fetching s)" using v b by (simp add: arch_pc_def)
  have jump: "\<not> exec_jump_o c ?e ?x \<or> fe_jump_taken ?f" and nk: "\<not> exec_kill c ?e ?x"
    using fr ntk b by (auto simp: exec_jump_o_def exec_kill_def)
  have xs: "ex_jump_r (ps_exec s') = ex_jump_r ?x" "\<not> ex_jump_busy (ps_exec s')"
    using exec_step_rd[of c ?e ?x] ntk by (simp_all add: s'_def backend_step_stages)
  note f = ps_next_fetch[OF finv, where c = c and e = e, folded s'_def]
  note d = decode_next[OF finv, where c = c and e = e, folded s'_def]
  note w = waiting_units[OF c xi data nt, of imem, folded s'_def]
  have front: "front_inv c prog s' \<and> arch_pc s' = ?pc \<and> program_rank c s' < program_rank c s"
  proof (cases "fe_valid ?f")
    case True
    have "imem (fetch_pc ?f (ps_fetching s)) = rv_encode (prog ?pc)"
      using program_ok_now(1)[OF ok] pc by simp
    from d(4)[OF nk _ True this] v have "decoded (prog ?pc) ?pc (?pc + 4) (bk_dec (ps_backend s'))"
      by (simp only: pc simp_thms)
    moreover have "de_valid_o (bk_dec (ps_backend s'))" "de_mepc_o (bk_dec (ps_backend s')) = ?pc"
      using calculation by (simp_all add: decoded_def)
    moreover have "fetch_pc (ps_fetch s') (ps_fetching s') = ?pc + 4 \<and> \<not> fe_jump_taken (ps_fetch s')"
      using f(4)[OF jump True] v pc by simp
    moreover have "exec_delay c s' < program_rank c s"
      using v b by (simp add: program_rank_def) (simp add: exec_delay_def Let_def)
    ultimately show ?thesis
      using f(2) xs fr w(1)
      by (simp add: front_inv_def arch_pc_def[of s'] program_rank_def[of c s'] Let_def)
  next
    case False
    have "\<not> de_valid_o (bk_dec (ps_backend s'))" using d(3)[OF nk _ False] v by blast
    moreover have "fetch_pc (ps_fetch s') (ps_fetching s') = ?pc"
      using f(5)[OF jump] False pc by simp
    moreover have "ex_jump_r ?x \<longrightarrow> fe_jump_taken (ps_fetch s')" using f(7) False v fr by blast
    moreover have "fetch_distance (ps_fetch s') (ps_fetching s') < fetch_distance ?f (ps_fetching s)"
      using f(8)[OF jump False] v by blast
    ultimately show ?thesis
      using f(2) xs fr w(1) v b
      by (simp add: front_inv_def arch_pc_def[of s'] program_rank_def Let_def)
  qed
  show ?thesis
  proof (rule simulates_waiting[OF c inv ok nt])
    show "\<not> fetch_raises (ps_fetch_in c imem e s) (ps_fetch s)"
      using fetch_pointer_bound[OF finv] pc program_ok_now(2)[OF ok]
      by (simp add: isa_legal_def Let_def)
  qed (use front in \<open>simp_all add: s'_def\<close>)
qed

lemma program_edge:
  assumes "program_config_ok c" "program_inv c imem prog s" "program_ok imem prog (arch_state c s)"
  shows "simulates c imem prog e s"
  using simulates_jump_pending[OF assms, of e] simulates_stalled[OF assms, of e]
    simulates_empty[OF assms, of e] simulates_taken[OF assms, of e] by blast

subsection \<open>The core runs programs\<close>

lemma program_inv_init:
  assumes "program_config_ok c"
  shows "program_inv c imem prog (ps_init c M)"
    "arch_state c (ps_init c M) = \<lparr>is_pc = reset_address c, is_regs = (\<lambda>_. 0), is_mem = M\<rparr>"
    "program_rank c (ps_init c M) = 7"
proof -
  have i: "ps_backend (ps_init c M) = backend_init c" "ps_fetch (ps_init c M) = fetch_init c"
    "ps_fetching (ps_init c M) = None" "ps_read (ps_init c M) = None" "ps_mem (ps_init c M) = M"
    by (simp_all add: ps_init_def core_init_def)
  have x: "\<not> ex_jump_busy (exec_init c)" "\<not> ex_jump_r (exec_init c)"
    "\<not> db_en_o (ls_req (ex_ls (exec_init c)))" "ls_outstanding (ex_ls (exec_init c)) = 0"
    "\<not> de_valid_o decode_init" "\<not> al_busy_o (ex_alu (exec_init c))" "\<not> ls_valid_reg (ex_ls (exec_init c))"
    by (simp_all add: exec_init_def ls_init_def dbus_idle_def decode_init_def alu_init_def)
  have "backend_regs c (backend_init c) = (\<lambda>_. 0)"
    by (auto simp: backend_regs_def backend_init_def regfile_arch_def regfile_init_def wb_write_def
        wb_init_def)
  then show "arch_state c (ps_init c M) = \<lparr>is_pc = reset_address c, is_regs = (\<lambda>_. 0), is_mem = M\<rparr>"
    using fetch_inv_init(2)[of c] x
    by (simp add: arch_state_def arch_pc_def arch_regs_def arch_mem_def exec_in_flight_def
        exec_finished_def ps_request_def i) (simp add: backend_init_def)
  show "program_inv c imem prog (ps_init c M)"
    using fetch_inv_init(1)[of imem c] backend_inv_init[of c] x
    by (simp add: program_inv_def front_inv_def data_inv_def i Let_def) (simp add: backend_init_def)
  show "program_rank c (ps_init c M) = 7"
    using x by (simp add: program_rank_def i)
      (simp add: backend_init_def fetch_distance_def fetch_init_def)
qed

text \<open>How many of the cycles found the data memory ready.\<close>

definition ready_cycles :: "memory_choice list \<Rightarrow> nat" where
  "ready_cycles es = length (filter memory_ready es)"

lemma program_run:
  assumes c: "program_config_ok c" and inv: "program_inv c imem prog s"
    and ok: "program_ok imem prog (arch_state c s)"
  shows "\<exists>t k. ps_run c imem es s = Some t \<and>
     arch_state c t = (isa_step prog ^^ k) (arch_state c s) \<and> k \<le> length es \<and>
     ready_cycles es + program_rank c t \<le> program_rank c s + 9 * k"
  using inv ok
proof (induction es arbitrary: s)
  case (Cons e es)
  let ?s = "ps_next c imem e s"
  note sim = program_edge[OF c Cons.prems, of e, unfolded simulates_def Let_def]
  then have step: "ps_step c imem e s = Some ?s" and inv': "program_inv c imem prog ?s"
    by (simp_all add: ps_step_next)
  have "program_ok imem prog (arch_state c ?s)"
    using sim program_ok_step[OF Cons.prems(2)] Cons.prems(2) by (simp split: if_splits)
  from Cons.IH[OF inv' this] obtain t k where t: "ps_run c imem es ?s = Some t"
    "arch_state c t = (isa_step prog ^^ k) (arch_state c ?s)" "k \<le> length es"
    "ready_cycles es + program_rank c t \<le> program_rank c ?s + 9 * k" by blast
  define k' where "k' = (if ps_taken c e s then Suc k else k)"
  have "arch_state c t = (isa_step prog ^^ k') (arch_state c s)"
    using t(2) sim by (simp add: k'_def funpow_Suc_right del: funpow.simps split: if_splits)
  moreover have "ready_cycles (e # es) + program_rank c t \<le> program_rank c s + 9 * k'"
    using t(4) sim program_rank_le[of c ?s] by (auto simp: ready_cycles_def k'_def)
  ultimately show ?case
    using step t(1,3) by (intro exI[of _ t] exI[of _ k']) (simp add: k'_def)
next
  case Nil
  then show ?case by (intro exI[of _ s] exI[of _ 0]) (simp add: ready_cycles_def)
qed

text \<open>
  C1: The core executes RV32I programs. From reset, in the three-stage and the four-stage pipeline,
  with either jump unit, with the combinational or the pipelined shifter, for every legal program
  in the instruction memory, every initial data memory, and whatever stalls and wait states the
  data memory inserts: the run never raises, after every cycle the architectural state (program
  counter, registers, memory) is that of the instruction set machine after some number of
  instructions, and this number grows: at most nine cycles in which the memory is ready pass per
  instruction.
\<close>

theorem core_runs_program:
  assumes c: "program_config_ok c"
    and ok: "program_ok imem prog \<lparr>is_pc = reset_address c, is_regs = (\<lambda>_. 0), is_mem = M\<rparr>"
  shows "\<exists>t k. ps_run c imem es (ps_init c M) = Some t \<and>
     arch_state c t =
       (isa_step prog ^^ k) \<lparr>is_pc = reset_address c, is_regs = (\<lambda>_. 0), is_mem = M\<rparr> \<and>
     k \<le> length es \<and> ready_cycles es \<le> 7 + 9 * k"
proof -
  note init = program_inv_init[OF c, where M = M]
  from program_run[OF c init(1), of imem prog es, unfolded init(2,3), OF ok]
  obtain t k where "ps_run c imem es (ps_init c M) = Some t" "arch_state c t =
      (isa_step prog ^^ k) \<lparr>is_pc = reset_address c, is_regs = (\<lambda>_. 0), is_mem = M\<rparr>"
    "k \<le> length es" "ready_cycles es + program_rank c t \<le> 7 + 9 * k" by blast
  then show ?thesis by (intro exI[of _ t] exI[of _ k]) simp
qed

text \<open>A program with an immediate, a store, a load, a shift and an endless loop.\<close>

definition demo_program :: "xword \<Rightarrow> rv_instr" where
  "demo_program a =
     (if a = 0 then OpImm Addi 1 0 5 else if a = 4 then Store Sw 0 1 0
      else if a = 8 then Load Lw 2 0 0 else if a = 12 then ShiftImm Slli 3 2 2 else Jal 0 0)"

abbreviation (input) demo_start :: isa_state where
  "demo_start \<equiv> \<lparr>is_pc = reset_address default_config, is_regs = (\<lambda>_. 0), is_mem = (\<lambda>_. 0)\<rparr>"

lemma demo_immediates [simp]: "imm_i 0 = 0" "imm_i 5 = 5" "ofs_j 0 = 0" "byte_offset 0 = 0"
  by code_simp+

lemma write_reg_zero: "R 0 = 0 \<Longrightarrow> write_reg w R 0 = 0"
  by (auto simp: write_reg_def split: option.splits)

definition demo_inv :: "isa_state \<Rightarrow> bool" where
  "demo_inv st \<longleftrightarrow> is_pc st \<in> {0, 4, 8, 12, 16} \<and> is_regs st 0 = 0"

lemma demo_step: "demo_inv st \<Longrightarrow> demo_inv (isa_step demo_program st) \<and> isa_legal demo_program st"
  by (auto simp: demo_inv_def demo_program_def isa_step_def isa_legal_def rs1_value_def Let_def
      write_reg_zero)

lemma demo_ok: "program_ok (\<lambda>a. rv_encode (demo_program a)) demo_program demo_start"
proof -
  have "demo_inv ((isa_step demo_program ^^ n) demo_start)" for n
    by (induction n) (simp_all add: demo_step, simp add: demo_inv_def)
  then show ?thesis using demo_step by (simp add: program_ok_def Let_def)
qed

lemma demo_result:
  assumes "4 \<le> k"
  shows "let t = (isa_step demo_program ^^ k) demo_start in
     is_pc t = 16 \<and> is_regs t 3 = 20 \<and> is_mem t 0 = 5"
proof -
  let ?t = "(isa_step demo_program ^^ 4) demo_start"
  have w: "data_word 0 = 0" "isa_store Sw 0 5 0 = 5" "isa_alu (shift_alu_op Slli) 5 2 = 20"
    by code_simp+
  have "(f ^^ 4) x = f (f (f (f x)))" for f :: "isa_state \<Rightarrow> isa_state" and x
    by (simp add: numeral_eq_Suc)
  then have r: "is_pc ?t = 16 \<and> is_regs ?t 3 = 20 \<and> is_mem ?t 0 = 5"
    by (simp add: w isa_step_def demo_program_def rs1_value_def rs2_value_def isa_write_def write_reg_def
        Let_def del: shift_alu_op.simps isa_alu.simps(3))
  have "isa_step demo_program ?t = ?t"
    using r by (simp add: isa_step_def demo_program_def isa_write_def write_reg_def Let_def)
  then have "(isa_step demo_program ^^ n) ?t = ?t" for n by (induction n) simp_all
  moreover have "(isa_step demo_program ^^ k) demo_start = (isa_step demo_program ^^ (k - 4)) ?t"
    using assms by (metis comp_apply funpow_add le_add_diff_inverse2)
  ultimately show ?thesis using r by simp
qed

lemma core_runs_program_witness:
  "\<exists>t. ps_run default_config (\<lambda>a. rv_encode (demo_program a))
       (replicate 44 \<lparr>mc_stall = False, mc_ack = True, mc_junk = 0\<rparr>)
       (ps_init default_config (\<lambda>_. 0)) = Some t \<and>
     arch_pc t = 16 \<and> arch_regs default_config t 3 = 20 \<and> arch_mem t 0 = 5"
proof -
  let ?es = "replicate 44 \<lparr>mc_stall = False, mc_ack = True, mc_junk = 0\<rparr>"
  have c: "program_config_ok default_config"
    by (simp add: program_config_ok_def core_config_ok_default exec_config_ok_def)
  from core_runs_program[OF c demo_ok, of ?es] obtain t k where
    t: "ps_run default_config (\<lambda>a. rv_encode (demo_program a)) ?es (ps_init default_config (\<lambda>_. 0)) = Some t"
      "arch_state default_config t = (isa_step demo_program ^^ k) demo_start"
    and k: "ready_cycles ?es \<le> 7 + 9 * k" by blast
  have "ready_cycles ?es = 44" by (simp add: ready_cycles_def memory_ready_def)
  then have "4 \<le> k" using k by simp
  from demo_result[OF this] have "is_pc (arch_state default_config t) = 16"
    "is_regs (arch_state default_config t) 3 = 20" "is_mem (arch_state default_config t) 0 = 5"
    unfolding t(2)[symmetric] by (simp_all add: Let_def)
  then show ?thesis using t(1) by auto
qed

end
