(* ===== verification/Tap_Fsm.thy ===== *)
theory Tap_Fsm
  imports Bonfire_Prelude
begin

text \<open>
  The JTAG test access port: the sixteen-state controller (\<open>rtl/debug/tap_fsm.py\<close>) and the
  arithmetic of the scan registers that the debug transports shift through it. The lemmas give
  the paths of the controller a host uses (reset, a data scan, an instruction scan) and show
  that a scan of as many bits as the register is wide exchanges the register with the host's
  word, least significant bit first.
\<close>

datatype tap_state =
    test_logic_reset | run_test_idle | select_dr_scan | capture_dr | shift_dr | exit1_dr
  | pause_dr | exit2_dr | update_dr | select_ir_scan | capture_ir | shift_ir | exit1_ir
  | pause_ir | exit2_ir | update_ir

text \<open>\<open>TapStateController\<close>.\<close>

definition tap_transition :: "bool \<Rightarrow> tap_state \<Rightarrow> tap_state" where
  "tap_transition tms s = (case s of
       test_logic_reset \<Rightarrow> (if tms then test_logic_reset else run_test_idle)
     | run_test_idle \<Rightarrow> (if tms then select_dr_scan else run_test_idle)
     | select_dr_scan \<Rightarrow> (if tms then select_ir_scan else capture_dr)
     | capture_dr \<Rightarrow> (if tms then exit1_dr else shift_dr)
     | shift_dr \<Rightarrow> (if tms then exit1_dr else shift_dr)
     | exit1_dr \<Rightarrow> (if tms then update_dr else pause_dr)
     | pause_dr \<Rightarrow> (if tms then exit2_dr else pause_dr)
     | exit2_dr \<Rightarrow> (if tms then update_dr else shift_dr)
     | update_dr \<Rightarrow> (if tms then select_dr_scan else run_test_idle)
     | select_ir_scan \<Rightarrow> (if tms then test_logic_reset else capture_ir)
     | capture_ir \<Rightarrow> (if tms then exit1_ir else shift_ir)
     | shift_ir \<Rightarrow> (if tms then exit1_ir else shift_ir)
     | exit1_ir \<Rightarrow> (if tms then update_ir else pause_ir)
     | pause_ir \<Rightarrow> (if tms then exit2_ir else pause_ir)
     | exit2_ir \<Rightarrow> (if tms then update_ir else shift_ir)
     | update_ir \<Rightarrow> (if tms then select_dr_scan else run_test_idle))"

definition tap_step :: "bool \<Rightarrow> bool \<Rightarrow> bool \<Rightarrow> tap_state \<Rightarrow> tap_state" where
  "tap_step reset trstn tms s =
     (if reset \<or> \<not> trstn then test_logic_reset else tap_transition tms s)"

lemma tap_transition_simps [simp]:
  "tap_transition tms test_logic_reset = (if tms then test_logic_reset else run_test_idle)"
  "tap_transition tms run_test_idle = (if tms then select_dr_scan else run_test_idle)"
  "tap_transition tms select_dr_scan = (if tms then select_ir_scan else capture_dr)"
  "tap_transition tms capture_dr = (if tms then exit1_dr else shift_dr)"
  "tap_transition tms shift_dr = (if tms then exit1_dr else shift_dr)"
  "tap_transition tms exit1_dr = (if tms then update_dr else pause_dr)"
  "tap_transition tms pause_dr = (if tms then exit2_dr else pause_dr)"
  "tap_transition tms exit2_dr = (if tms then update_dr else shift_dr)"
  "tap_transition tms update_dr = (if tms then select_dr_scan else run_test_idle)"
  "tap_transition tms select_ir_scan = (if tms then test_logic_reset else capture_ir)"
  "tap_transition tms capture_ir = (if tms then exit1_ir else shift_ir)"
  "tap_transition tms shift_ir = (if tms then exit1_ir else shift_ir)"
  "tap_transition tms exit1_ir = (if tms then update_ir else pause_ir)"
  "tap_transition tms pause_ir = (if tms then exit2_ir else pause_ir)"
  "tap_transition tms exit2_ir = (if tms then update_ir else shift_ir)"
  "tap_transition tms update_ir = (if tms then select_dr_scan else run_test_idle)"
  by (simp_all add: tap_transition_def)

abbreviation tap_run :: "bool list \<Rightarrow> tap_state \<Rightarrow> tap_state" where
  "tap_run \<equiv> clocked_run tap_transition"

lemma tap_shift_stays:
  "tap_run (replicate n False) shift_dr = shift_dr" "tap_run (replicate n False) shift_ir = shift_ir"
  by (induction n) simp_all

text \<open>
  The controller's paths. From every state, five clocks with TMS high reset the port, and
  fewer do not suffice for every state; from idle, the host's data scan of \<open>n + 1\<close> bits passes
  through capture, stays in the shift state for its bits, and returns to idle through the update
  state; the instruction scan does the same on the instruction side; and every state can be
  reached from reset.
\<close>

theorem tap_paths:
  "tap_run [True, True, True, True, True] s = test_logic_reset \<and>
   tap_run [True, True, True, True] shift_ir \<noteq> test_logic_reset \<and>
   tap_run [True, False] run_test_idle = capture_dr \<and>
   tap_run ([True, False, False] @ replicate n False) run_test_idle = shift_dr \<and>
   tap_run ([True, False, False] @ replicate n False @ [True, True]) run_test_idle = update_dr \<and>
   tap_run ([True, False, False] @ replicate n False @ [True, True, False]) run_test_idle =
     run_test_idle \<and>
   tap_run ([True, True, False, False] @ replicate n False @ [True, True]) run_test_idle =
     update_ir \<and>
   tap_run ([True, True, False, False] @ replicate n False @ [True, True, False]) run_test_idle =
     run_test_idle \<and>
   (\<exists>tmss. tap_run tmss test_logic_reset = s)"
proof -
  have "\<exists>tmss. tap_run tmss test_logic_reset = s"
  proof (cases s)
    case test_logic_reset
    then show ?thesis by (intro exI[of _ "[]"]) simp
  next
    case run_test_idle
    then show ?thesis by (intro exI[of _ "[False]"]) simp
  next
    case select_dr_scan
    then show ?thesis by (intro exI[of _ "[False, True]"]) simp
  next
    case capture_dr
    then show ?thesis by (intro exI[of _ "[False, True, False]"]) simp
  next
    case shift_dr
    then show ?thesis by (intro exI[of _ "[False, True, False, False]"]) simp
  next
    case exit1_dr
    then show ?thesis by (intro exI[of _ "[False, True, False, True]"]) simp
  next
    case pause_dr
    then show ?thesis by (intro exI[of _ "[False, True, False, True, False]"]) simp
  next
    case exit2_dr
    then show ?thesis by (intro exI[of _ "[False, True, False, True, False, True]"]) simp
  next
    case update_dr
    then show ?thesis by (intro exI[of _ "[False, True, False, True, True]"]) simp
  next
    case select_ir_scan
    then show ?thesis by (intro exI[of _ "[False, True, True]"]) simp
  next
    case capture_ir
    then show ?thesis by (intro exI[of _ "[False, True, True, False]"]) simp
  next
    case shift_ir
    then show ?thesis by (intro exI[of _ "[False, True, True, False, False]"]) simp
  next
    case exit1_ir
    then show ?thesis by (intro exI[of _ "[False, True, True, False, True]"]) simp
  next
    case pause_ir
    then show ?thesis by (intro exI[of _ "[False, True, True, False, True, False]"]) simp
  next
    case exit2_ir
    then show ?thesis by (intro exI[of _ "[False, True, True, False, True, False, True]"]) simp
  next
    case update_ir
    then show ?thesis by (intro exI[of _ "[False, True, True, False, True, True]"]) simp
  qed
  moreover have "tap_run [True, True, True, True, True] s = test_logic_reset"
    by (cases s) simp_all
  ultimately show ?thesis by (simp add: tap_shift_stays)
qed

subsection \<open>Scan registers\<close>

text \<open>One shift of a scan register: the host's bit enters at the top, the rest moves down
  (\<open>reg[n - 1] = tdi; reg[n - 1:0] = reg[n:1]\<close>).\<close>

definition scan_shift :: "bool \<Rightarrow> 'a::len word \<Rightarrow> 'a word" where
  "scan_shift tdi w = bv_put (LENGTH('a) - 1) tdi (drop_bit 1 w)"

lemma bit_scan_shift [bv_simps]:
  "bit (scan_shift tdi (w :: 'a::len word)) n \<longleftrightarrow>
     n < LENGTH('a) \<and> (if n = LENGTH('a) - 1 then tdi else bit w (Suc n))"
  by (auto simp: scan_shift_def bit_bv_put bit_drop_bit_eq dest: bit_imp_le_length)

abbreviation scan_run :: "bool list \<Rightarrow> 'a::len word \<Rightarrow> 'a word" where
  "scan_run \<equiv> clocked_run scan_shift"

lemma bit_scan_run:
  assumes "length bs \<le> LENGTH('a)"
  shows "bit (scan_run bs (w :: 'a::len word)) n \<longleftrightarrow>
     n < LENGTH('a) \<and> (if n + length bs < LENGTH('a) then bit w (n + length bs)
                       else bs ! (n + length bs - LENGTH('a)))"
  using assms
proof (induction bs arbitrary: w)
  case Nil
  then show ?case by (auto dest: bit_imp_le_length)
next
  case (Cons b bs)
  show ?case
  proof (cases "n + length bs < LENGTH('a)")
    case True
    then show ?thesis
      using Cons by (auto simp: bit_scan_shift)
  next
    case False
    then have "Suc (n + length bs) - LENGTH('a) = Suc (n + length bs - LENGTH('a))" by simp
    with False show ?thesis
      using Cons by simp
  qed
qed

text \<open>The bits of a word, least significant first: what a host sends and receives.\<close>

definition word_bits :: "'a::len word \<Rightarrow> bool list" where
  "word_bits w = map (bit w) [0..<LENGTH('a)]"

lemma length_word_bits [simp]: "length (word_bits (w :: 'a::len word)) = LENGTH('a)"
  by (simp add: word_bits_def)

lemma word_bits_inject: "word_bits v = word_bits w \<Longrightarrow> v = (w :: 'a::len word)"
  by (rule bv_eqI) (simp add: word_bits_def)

lemma scan_run_word: "scan_run (word_bits v) (w :: 'a::len word) = v"
  by (rule bv_eqI) (simp add: bit_scan_run, simp add: word_bits_def)

text \<open>The bit at the output before each shift.\<close>

fun scan_out :: "bool list \<Rightarrow> 'a::len word \<Rightarrow> bool list" where
  "scan_out [] w = []"
| "scan_out (b # bs) w = bit w 0 # scan_out bs (scan_shift b w)"

lemma length_scan_out [simp]: "length (scan_out bs w) = length bs"
  by (induction bs arbitrary: w) simp_all

lemma scan_out_nth:
  assumes "length bs \<le> LENGTH('a)" "n < length bs"
  shows "scan_out bs (w :: 'a::len word) ! n \<longleftrightarrow> bit w n"
  using assms
proof (induction bs arbitrary: w n)
  case (Cons b bs)
  then show ?case by (cases n) (auto simp: bit_scan_shift)
qed simp

lemma scan_out_word: "length bs = LENGTH('a) \<Longrightarrow> scan_out bs (w :: 'a::len word) = word_bits w"
  by (rule nth_equalityI) (simp_all add: scan_out_nth, simp add: word_bits_def)

end
