(* ===== verification/Dtm_Transport.thy ===== *)
theory Dtm_Transport
  imports Config
begin

text \<open>
  The clock-domain crossing of the debug transports (\<open>rtl/debug/dtm_transport.py\<close>): the scan
  side announces a request by flipping a toggle, the core side sees it through two
  synchronizing registers, performs one access on the debug module interface and flips the
  response toggle, which travels back through two registers of the scan side. The two clocks
  are unrelated, so a run is an arbitrary sequence of scan edges and core edges.

  The address width is the configured \<open>dmi_adr_width\<close> of 7, so a DMI word has
  \<open>7 + 34 = 41\<close> bits: operation (2), data (32), address.
\<close>

type_synonym dmi_adr = "7 word"
type_synonym dmi_word = "41 word"
type_synonym dmi_op = "2 word"

abbreviation (input) DMI_OP_NOP :: dmi_op where "DMI_OP_NOP \<equiv> 0"
abbreviation (input) DMI_OP_READ :: dmi_op where "DMI_OP_READ \<equiv> 1"
abbreviation (input) DMI_OP_WRITE :: dmi_op where "DMI_OP_WRITE \<equiv> 2"
abbreviation (input) DMI_OP_SUCCESS :: dmi_op where "DMI_OP_SUCCESS \<equiv> 0"
abbreviation (input) DMI_OP_BUSY :: dmi_op where "DMI_OP_BUSY \<equiv> 3"

definition dmi_op_of :: "dmi_word \<Rightarrow> dmi_op" where "dmi_op_of p = bv_slice 2 0 p"
definition dmi_data_of :: "dmi_word \<Rightarrow> xword" where "dmi_data_of p = bv_slice 34 2 p"
definition dmi_adr_of :: "dmi_word \<Rightarrow> dmi_adr" where "dmi_adr_of p = bv_slice 41 34 p"

definition dmi_pack :: "dmi_adr \<Rightarrow> xword \<Rightarrow> dmi_op \<Rightarrow> dmi_word" where
  "dmi_pack a d op' = bv_cat a (bv_cat d op' :: 34 word)"

lemma dmi_pack_fields [simp]:
  "dmi_op_of (dmi_pack a d op') = op'" "dmi_data_of (dmi_pack a d op') = d"
  "dmi_adr_of (dmi_pack a d op') = a"
  by (rule bv_eqI; force simp: dmi_op_of_def dmi_data_of_def dmi_adr_of_def dmi_pack_def bv_simps)+

lemma dmi_pack_of: "dmi_pack (dmi_adr_of p) (dmi_data_of p) (dmi_op_of p) = p"
proof (rule bv_eqI)
  fix n :: nat assume "n < LENGTH(41)"
  moreover have "\<not> n < 2 \<Longrightarrow> Suc (Suc (n - 2)) = n" by arith
  ultimately show "bit (dmi_pack (dmi_adr_of p) (dmi_data_of p) (dmi_op_of p)) n \<longleftrightarrow> bit p n"
    by (auto simp: dmi_op_of_def dmi_data_of_def dmi_adr_of_def dmi_pack_def bv_simps)
qed

subsection \<open>Signals and registers\<close>

record cdc_in =
  ci_request_payload :: dmi_word
  ci_request_toggle :: bool
  ci_hardreset_toggle :: bool

record cdc_state =
  cdc_response_toggle :: bool
  cdc_response_toggle_meta :: bool
  cdc_response_toggle_sync :: bool
  cdc_request_toggle_meta :: bool
  cdc_request_toggle_sync :: bool
  cdc_request_toggle_seen :: bool
  cdc_hardreset_toggle_meta :: bool
  cdc_hardreset_toggle_sync :: bool
  cdc_hardreset_toggle_seen :: bool
  cdc_request_active :: bool
  cdc_read_pending :: bool
  cdc_read_capture :: bool
  cdc_response_payload :: dmi_word
  dtm_en :: bool
  dtm_we :: bool
  dtm_adr :: dmi_adr
  dtm_dbi :: xword

definition cdc_init :: cdc_state where
  "cdc_init = \<lparr>cdc_response_toggle = False, cdc_response_toggle_meta = False,
     cdc_response_toggle_sync = False, cdc_request_toggle_meta = False,
     cdc_request_toggle_sync = False, cdc_request_toggle_seen = False,
     cdc_hardreset_toggle_meta = False, cdc_hardreset_toggle_sync = False,
     cdc_hardreset_toggle_seen = False, cdc_request_active = False, cdc_read_pending = False,
     cdc_read_capture = False, cdc_response_payload = 0, dtm_en = False, dtm_we = False,
     dtm_adr = 0, dtm_dbi = 0\<rparr>"

definition cdc_pending_o :: "cdc_in \<Rightarrow> cdc_state \<Rightarrow> bool" where
  "cdc_pending_o i s \<longleftrightarrow> ci_request_toggle i \<noteq> cdc_response_toggle_sync s"

subsection \<open>The two clock domains\<close>

definition response_synchronizer :: "bool \<Rightarrow> bool \<Rightarrow> cdc_state \<Rightarrow> cdc_state" where
  "response_synchronizer reset scan_resetn s =
     (if reset \<or> \<not> scan_resetn
      then s\<lparr>cdc_response_toggle_meta := False, cdc_response_toggle_sync := False\<rparr>
      else s\<lparr>cdc_response_toggle_meta := cdc_response_toggle s,
             cdc_response_toggle_sync := cdc_response_toggle_meta s\<rparr>)"

text \<open>The branches of \<open>core_clock_domain\<close>; \<open>n\<close> carries the synchronizer registers.\<close>

definition cdc_core_reset :: "cdc_state \<Rightarrow> cdc_state" where
  "cdc_core_reset n = n\<lparr>
     cdc_request_toggle_meta := False, cdc_request_toggle_sync := False,
     cdc_request_toggle_seen := False, cdc_hardreset_toggle_meta := False,
     cdc_hardreset_toggle_sync := False, cdc_hardreset_toggle_seen := False,
     cdc_request_active := False, cdc_read_pending := False, cdc_read_capture := False,
     cdc_response_payload := 0, cdc_response_toggle := False, dtm_en := False, dtm_we := False,
     dtm_adr := 0, dtm_dbi := 0\<rparr>"

definition cdc_hardreset :: "cdc_state \<Rightarrow> cdc_state \<Rightarrow> cdc_state" where
  "cdc_hardreset s n = n\<lparr>
     cdc_hardreset_toggle_seen := cdc_hardreset_toggle_sync s,
     cdc_request_toggle_seen := cdc_request_toggle_sync s,
     cdc_request_active := False, cdc_read_pending := False, cdc_read_capture := False,
     cdc_response_payload := 0, cdc_response_toggle := cdc_request_toggle_sync s,
     dtm_en := False, dtm_we := False\<rparr>"

definition cdc_finish_access :: "cdc_state \<Rightarrow> cdc_state \<Rightarrow> cdc_state" where
  "cdc_finish_access s n =
     (let n1 = n\<lparr>dtm_en := False, dtm_we := False, cdc_request_active := False\<rparr> in
      if cdc_read_pending s then n1\<lparr>cdc_read_pending := False, cdc_read_capture := True\<rparr>
      else n1\<lparr>cdc_response_toggle := cdc_request_toggle_seen s\<rparr>)"

definition cdc_capture :: "xword \<Rightarrow> cdc_state \<Rightarrow> cdc_state \<Rightarrow> cdc_state" where
  "cdc_capture dbo s n = n\<lparr>
     cdc_response_payload := bv_put_slice 34 2 dbo
       (bv_put_slice 2 0 DMI_OP_SUCCESS (cdc_response_payload s)),
     cdc_response_toggle := cdc_request_toggle_seen s, cdc_read_capture := False\<rparr>"

definition cdc_accept :: "cdc_in \<Rightarrow> cdc_state \<Rightarrow> cdc_state \<Rightarrow> cdc_state" where
  "cdc_accept i s n =
     (let p = ci_request_payload i;
          n1 = n\<lparr>cdc_request_toggle_seen := cdc_request_toggle_sync s,
                 dtm_adr := bv_slice 41 34 p, dtm_dbi := bv_slice 34 2 p,
                 cdc_response_payload :=
                   bv_put_slice 41 34 (bv_slice 41 34 p :: dmi_adr)
                     (bv_put_slice 34 2 (0 :: xword)
                       (bv_put_slice 2 0 DMI_OP_SUCCESS (cdc_response_payload s)))\<rparr> in
      if bv_slice 2 0 p = DMI_OP_READ
      then n1\<lparr>dtm_we := False, dtm_en := True, cdc_request_active := True,
              cdc_read_pending := True\<rparr>
      else if bv_slice 2 0 p = DMI_OP_WRITE
      then n1\<lparr>dtm_we := True, dtm_en := True, cdc_request_active := True\<rparr>
      else n1\<lparr>dtm_en := False, dtm_we := False,
              cdc_response_toggle := cdc_request_toggle_sync s\<rparr>)"

definition core_clock_domain :: "bool \<Rightarrow> cdc_in \<Rightarrow> xword \<Rightarrow> cdc_state \<Rightarrow> cdc_state" where
  "core_clock_domain reset i dbo s =
     (let n = s\<lparr>cdc_request_toggle_meta := ci_request_toggle i,
                cdc_request_toggle_sync := cdc_request_toggle_meta s,
                cdc_hardreset_toggle_meta := ci_hardreset_toggle i,
                cdc_hardreset_toggle_sync := cdc_hardreset_toggle_meta s\<rparr> in
      if reset then cdc_core_reset n
      else if cdc_hardreset_toggle_sync s \<noteq> cdc_hardreset_toggle_seen s then cdc_hardreset s n
      else if cdc_request_active s then cdc_finish_access s n
      else if cdc_read_capture s then cdc_capture dbo s n
      else if cdc_request_toggle_sync s \<noteq> cdc_request_toggle_seen s then cdc_accept i s n
      else n)"

lemmas core_clock_domain_defs = core_clock_domain_def cdc_hardreset_def cdc_finish_access_def
  cdc_capture_def cdc_accept_def Let_def

subsection \<open>The crossing between a host and a debug module\<close>

text \<open>
  The debug module of the model: a register file it reads, \<open>rd\<close>, whose output is registered
  and zero in cycles without a read, and the log of the accesses it has seen.
\<close>

datatype cdc_event = Scan_Edge | Core_Edge

record cdc_system =
  sys_cdc :: cdc_state
  sys_dbo :: xword
  sys_log :: "(bool \<times> dmi_adr \<times> xword) list"

fun cdc_system_step ::
  "cdc_in \<Rightarrow> (dmi_adr \<Rightarrow> xword) \<Rightarrow> cdc_event \<Rightarrow> cdc_system \<Rightarrow> cdc_system" where
  "cdc_system_step i rd Scan_Edge y =
     y\<lparr>sys_cdc := response_synchronizer False True (sys_cdc y)\<rparr>"
| "cdc_system_step i rd Core_Edge y =
     \<lparr>sys_cdc = core_clock_domain False i (sys_dbo y) (sys_cdc y),
      sys_dbo = (if dtm_en (sys_cdc y) \<and> \<not> dtm_we (sys_cdc y) then rd (dtm_adr (sys_cdc y)) else 0),
      sys_log = sys_log y @ (if dtm_en (sys_cdc y)
        then [(dtm_we (sys_cdc y), dtm_adr (sys_cdc y), dtm_dbi (sys_cdc y))] else [])\<rparr>"

text \<open>What a request asks for: the accesses the debug module must see, and the response.\<close>

definition dmi_accesses :: "dmi_word \<Rightarrow> (bool \<times> dmi_adr \<times> xword) list" where
  "dmi_accesses p =
     (if dmi_op_of p = DMI_OP_READ then [(False, dmi_adr_of p, dmi_data_of p)]
      else if dmi_op_of p = DMI_OP_WRITE then [(True, dmi_adr_of p, dmi_data_of p)] else [])"

definition dmi_response :: "(dmi_adr \<Rightarrow> xword) \<Rightarrow> dmi_word \<Rightarrow> dmi_word" where
  "dmi_response rd p = dmi_pack (dmi_adr_of p)
     (if dmi_op_of p = DMI_OP_READ then rd (dmi_adr_of p) else 0) DMI_OP_SUCCESS"

text \<open>No transaction under way: every register that follows the request toggle has the value
  \<open>q\<close>, every one that follows the hard-reset toggle agrees with it.\<close>

definition cdc_quiescent :: "bool \<Rightarrow> bool \<Rightarrow> cdc_state \<Rightarrow> bool" where
  "cdc_quiescent q h s \<longleftrightarrow>
     cdc_request_toggle_meta s = q \<and> cdc_request_toggle_sync s = q \<and>
     cdc_request_toggle_seen s = q \<and> cdc_response_toggle s = q \<and>
     cdc_response_toggle_meta s = q \<and> cdc_response_toggle_sync s = q \<and>
     cdc_hardreset_toggle_meta s = h \<and> cdc_hardreset_toggle_sync s = h \<and>
     cdc_hardreset_toggle_seen s = h \<and> \<not> cdc_request_active s \<and> \<not> cdc_read_pending s \<and>
     \<not> cdc_read_capture s \<and> \<not> dtm_en s"

text \<open>The phases of a transaction on the core side.\<close>

datatype cdc_phase = Ph_Meta | Ph_Sync | Ph_Detect | Ph_Access | Ph_Capture | Ph_Done

fun cdc_phase_next :: "dmi_word \<Rightarrow> cdc_phase \<Rightarrow> cdc_phase" where
  "cdc_phase_next p Ph_Meta = Ph_Sync"
| "cdc_phase_next p Ph_Sync = Ph_Detect"
| "cdc_phase_next p Ph_Detect =
     (if dmi_op_of p = DMI_OP_READ \<or> dmi_op_of p = DMI_OP_WRITE then Ph_Access else Ph_Done)"
| "cdc_phase_next p Ph_Access = (if dmi_op_of p = DMI_OP_READ then Ph_Capture else Ph_Done)"
| "cdc_phase_next p Ph_Capture = Ph_Done"
| "cdc_phase_next p Ph_Done = Ph_Done"

definition cdc_started :: "cdc_phase \<Rightarrow> bool" where
  "cdc_started ph \<longleftrightarrow> ph = Ph_Access \<or> ph = Ph_Capture \<or> ph = Ph_Done"

definition cdc_in_phase ::
  "bool \<Rightarrow> bool \<Rightarrow> dmi_word \<Rightarrow> (dmi_adr \<Rightarrow> xword) \<Rightarrow> cdc_phase \<Rightarrow> cdc_system \<Rightarrow> bool" where
  "cdc_in_phase r h p rd ph y \<longleftrightarrow> (let s = sys_cdc y in
     cdc_hardreset_toggle_meta s = h \<and> cdc_hardreset_toggle_sync s = h \<and>
     cdc_hardreset_toggle_seen s = h \<and>
     cdc_request_toggle_meta s = (if ph = Ph_Meta then \<not> r else r) \<and>
     cdc_request_toggle_sync s = (if ph = Ph_Meta \<or> ph = Ph_Sync then \<not> r else r) \<and>
     cdc_request_toggle_seen s = (if cdc_started ph then r else \<not> r) \<and>
     cdc_request_active s = (ph = Ph_Access) \<and> dtm_en s = (ph = Ph_Access) \<and>
     cdc_read_pending s = (ph = Ph_Access \<and> dmi_op_of p = DMI_OP_READ) \<and>
     cdc_read_capture s = (ph = Ph_Capture) \<and>
     (ph = Ph_Access \<longrightarrow> dtm_we s = (dmi_op_of p = DMI_OP_WRITE) \<and>
        dtm_adr s = dmi_adr_of p \<and> dtm_dbi s = dmi_data_of p \<and>
        (dmi_op_of p = DMI_OP_READ \<or> dmi_op_of p = DMI_OP_WRITE)) \<and>
     (ph = Ph_Capture \<longrightarrow> dmi_op_of p = DMI_OP_READ \<and> sys_dbo y = rd (dmi_adr_of p)) \<and>
     (ph = Ph_Access \<or> ph = Ph_Capture \<longrightarrow>
        cdc_response_payload s = dmi_pack (dmi_adr_of p) 0 DMI_OP_SUCCESS) \<and>
     (ph = Ph_Done \<longrightarrow> cdc_response_payload s = dmi_response rd p) \<and>
     sys_log y = (if ph = Ph_Capture \<or> ph = Ph_Done then dmi_accesses p else []) \<and>
     cdc_response_toggle s = (if ph = Ph_Done then r else \<not> r) \<and>
     (cdc_response_toggle_meta s = r \<longrightarrow> ph = Ph_Done) \<and>
     (cdc_response_toggle_sync s = r \<longrightarrow> cdc_response_toggle_meta s = r))"

lemma dmi_slices:
  "bv_slice 2 0 p = dmi_op_of p" "bv_slice 34 2 p = dmi_data_of p" "bv_slice 41 34 p = dmi_adr_of p"
  by (simp_all add: dmi_op_of_def dmi_data_of_def dmi_adr_of_def)

lemma dmi_response_start:
  "bv_put_slice 41 34 a (bv_put_slice 34 2 (d :: xword) (bv_put_slice 2 0 op' (w :: dmi_word))) =
     dmi_pack a d op'"
  by (rule bv_eqI) (auto simp: dmi_pack_def bv_simps)

lemma dmi_response_capture:
  "bv_put_slice 34 2 (d :: xword) (bv_put_slice 2 0 op' (dmi_pack a d' op'')) = dmi_pack a d op'"
  by (rule bv_eqI) (auto simp: dmi_pack_def bv_simps)

definition cdc_request :: "dmi_word \<Rightarrow> bool \<Rightarrow> bool \<Rightarrow> cdc_in" where
  "cdc_request p r h = \<lparr>ci_request_payload = p, ci_request_toggle = r, ci_hardreset_toggle = h\<rparr>"

lemma cdc_core_edge_phase:
  assumes "cdc_in_phase r h p rd ph y"
  shows "cdc_in_phase r h p rd (cdc_phase_next p ph)
     (cdc_system_step (cdc_request p r h) rd Core_Edge y)"
proof (cases ph)
  case Ph_Detect
  consider "dmi_op_of p = DMI_OP_READ" | "dmi_op_of p = DMI_OP_WRITE"
    | "dmi_op_of p \<noteq> DMI_OP_READ" "dmi_op_of p \<noteq> DMI_OP_WRITE" by blast
  then show ?thesis
    using assms Ph_Detect
    by cases (auto simp: cdc_in_phase_def cdc_started_def cdc_request_def core_clock_domain_def
        cdc_accept_def Let_def dmi_slices dmi_response_start dmi_response_def dmi_accesses_def)
next
  case Ph_Access
  then show ?thesis
    using assms
    by (auto simp: cdc_in_phase_def cdc_started_def cdc_request_def core_clock_domain_def
        cdc_finish_access_def Let_def dmi_response_def dmi_accesses_def)
next
  case Ph_Capture
  then show ?thesis
    using assms
    by (auto simp: cdc_in_phase_def cdc_started_def cdc_request_def core_clock_domain_def
        cdc_capture_def Let_def dmi_response_capture dmi_response_def dmi_accesses_def)
qed (use assms in \<open>auto simp: cdc_in_phase_def cdc_started_def cdc_request_def
    core_clock_domain_def Let_def\<close>)

lemma cdc_scan_edge_phase:
  "cdc_in_phase r h p rd ph y \<Longrightarrow> cdc_in_phase r h p rd ph (cdc_system_step i rd Scan_Edge y)"
  by (auto simp: cdc_in_phase_def response_synchronizer_def Let_def split: if_splits)

text \<open>The phase after a run only depends on the number of core edges.\<close>

lemma cdc_run_phase:
  "cdc_in_phase r h p rd ph y \<Longrightarrow>
   cdc_in_phase r h p rd ((cdc_phase_next p ^^ length (filter ((=) Core_Edge) es)) ph)
     (clocked_run (cdc_system_step (cdc_request p r h) rd) es y)"
proof (induction es arbitrary: ph y)
  case (Cons e es)
  show ?case
  proof (cases e)
    case Scan_Edge
    then show ?thesis using Cons.IH[OF cdc_scan_edge_phase[OF Cons.prems]] by simp
  next
    case Core_Edge
    then show ?thesis
      using Cons.IH[OF cdc_core_edge_phase[OF Cons.prems]] by (simp add: funpow_swap1)
  qed
qed simp

lemma cdc_phase_done: "5 \<le> n \<Longrightarrow> (cdc_phase_next p ^^ n) Ph_Meta = Ph_Done"
proof -
  assume "5 \<le> n"
  then obtain k where n: "n = k + 5" by (metis add.commute le_Suc_ex)
  have "(cdc_phase_next p ^^ 5) Ph_Meta = Ph_Done"
    by (simp add: eval_nat_numeral)
  moreover have "(cdc_phase_next p ^^ k) Ph_Done = Ph_Done" by (induction k) simp_all
  ultimately show ?thesis by (simp add: n funpow_add del: funpow.simps)
qed

text \<open>Once the core side is done, the response is at most two scan edges away.\<close>

definition cdc_return_distance :: "bool \<Rightarrow> cdc_system \<Rightarrow> nat" where
  "cdc_return_distance r y =
     (if cdc_response_toggle_sync (sys_cdc y) = r then 0
      else if cdc_response_toggle_meta (sys_cdc y) = r then 1 else 2)"

lemma cdc_done_step:
  assumes "cdc_in_phase r h p rd Ph_Done y"
  shows "cdc_in_phase r h p rd Ph_Done (cdc_system_step (cdc_request p r h) rd e y)"
    "cdc_return_distance r (cdc_system_step (cdc_request p r h) rd e y) \<le>
       cdc_return_distance r y - (if e = Scan_Edge then 1 else 0)"
proof -
  show "cdc_in_phase r h p rd Ph_Done (cdc_system_step (cdc_request p r h) rd e y)"
    using cdc_core_edge_phase[OF assms] cdc_scan_edge_phase[OF assms] by (cases e) simp_all
  show "cdc_return_distance r (cdc_system_step (cdc_request p r h) rd e y) \<le>
       cdc_return_distance r y - (if e = Scan_Edge then 1 else 0)"
    using assms
    by (cases e) (auto simp: cdc_return_distance_def cdc_in_phase_def cdc_started_def
        response_synchronizer_def core_clock_domain_def cdc_request_def Let_def)
qed

lemma cdc_done_returns:
  "cdc_in_phase r h p rd Ph_Done y \<Longrightarrow>
   cdc_return_distance r (clocked_run (cdc_system_step (cdc_request p r h) rd) es y) \<le>
     cdc_return_distance r y - length (filter ((=) Scan_Edge) es)"
proof (induction es arbitrary: y)
  case (Cons e es)
  note step = cdc_done_step[OF Cons.prems, of e]
  from Cons.IH[OF step(1)] step(2) show ?case by (cases e) simp_all
qed simp

lemma cdc_transaction:
  assumes q: "cdc_quiescent (\<not> r) h (sys_cdc y)" and log: "sys_log y = []"
  shows "let i = cdc_request p r h; y' = clocked_run (cdc_system_step i rd) es y;
             y'' = clocked_run (cdc_system_step i rd) fs y' in
     sys_log y' \<in> {[], dmi_accesses p} \<and>
     (\<not> cdc_pending_o i (sys_cdc y') \<longrightarrow>
        sys_log y' = dmi_accesses p \<and>
        cdc_response_payload (sys_cdc y') = dmi_response rd p) \<and>
     (5 \<le> length (filter ((=) Core_Edge) es) \<and> 2 \<le> length (filter ((=) Scan_Edge) fs) \<longrightarrow>
        \<not> cdc_pending_o i (sys_cdc y''))"
proof -
  let ?i = "cdc_request p r h"
  have start: "cdc_in_phase r h p rd Ph_Meta y"
    using q log by (auto simp: cdc_quiescent_def cdc_in_phase_def cdc_started_def Let_def)
  let ?ph = "(cdc_phase_next p ^^ length (filter ((=) Core_Edge) es)) Ph_Meta"
  let ?y' = "clocked_run (cdc_system_step ?i rd) es y"
  have ph: "cdc_in_phase r h p rd ?ph ?y'" by (rule cdc_run_phase[OF start])
  have live: "\<not> cdc_pending_o ?i (sys_cdc (clocked_run (cdc_system_step ?i rd) fs ?y'))"
    if "5 \<le> length (filter ((=) Core_Edge) es)" "2 \<le> length (filter ((=) Scan_Edge) fs)"
  proof -
    have "cdc_in_phase r h p rd Ph_Done ?y'" using ph cdc_phase_done[OF that(1)] by simp
    from cdc_done_returns[OF this, of fs] that(2)
    have "cdc_return_distance r (clocked_run (cdc_system_step ?i rd) fs ?y') = 0"
      by (simp add: cdc_return_distance_def split: if_splits)
    then show ?thesis
      by (simp add: cdc_return_distance_def cdc_pending_o_def cdc_request_def split: if_splits)
  qed
  have safe: "sys_log ?y' \<in> {[], dmi_accesses p}"
    using ph by (auto simp: cdc_in_phase_def Let_def)
  have done': "sys_log ?y' = dmi_accesses p \<and> cdc_response_payload (sys_cdc ?y') = dmi_response rd p"
    if "\<not> cdc_pending_o ?i (sys_cdc ?y')"
    using ph that by (auto simp: cdc_in_phase_def cdc_pending_o_def cdc_request_def Let_def)
  show ?thesis unfolding Let_def using safe done' live by blast
qed

text \<open>
  C11: A request crosses the clock domains exactly once. From a quiescent bridge, after the
  scan side flips its toggle with a payload, and under every interleaving of scan and core
  edges: the debug module sees either nothing yet or exactly the one access the payload asks
  for (none for a no-operation), with its address and data; as soon as the scan side no longer
  sees the request pending, the access has happened and the response holds the success code,
  the address, and for a read the data the debug module delivered; and five core edges followed
  by two scan edges, however interleaved with others, always get it there.
\<close>

theorem cdc_exactly_once:
  assumes q: "cdc_quiescent (\<not> r) h (sys_cdc y)" and log: "sys_log y = []"
  shows "let i = cdc_request p r h; y' = clocked_run (cdc_system_step i rd) es y;
             y'' = clocked_run (cdc_system_step i rd) fs y' in
     sys_log y' \<in> {[], dmi_accesses p} \<and>
     (\<not> cdc_pending_o i (sys_cdc y') \<longrightarrow>
        sys_log y' = dmi_accesses p \<and>
        cdc_response_payload (sys_cdc y') = dmi_response rd p) \<and>
     (5 \<le> length (filter ((=) Core_Edge) es) \<and> 2 \<le> length (filter ((=) Scan_Edge) fs) \<longrightarrow>
        \<not> cdc_pending_o i (sys_cdc y''))"
  by (rule cdc_transaction[OF assms])

lemma cdc_exactly_once_witness:
  "let y = \<lparr>sys_cdc = cdc_init, sys_dbo = 0, sys_log = []\<rparr>;
       i = cdc_request (dmi_pack 4 0 DMI_OP_READ) True False;
       es = [Core_Edge, Core_Edge, Scan_Edge, Core_Edge, Core_Edge, Core_Edge];
       y' = clocked_run (cdc_system_step i (\<lambda>a. ucast a + 0x100)) es y
   in \<not> cdc_pending_o i (sys_cdc (clocked_run (cdc_system_step i (\<lambda>a. ucast a + 0x100))
          [Scan_Edge, Core_Edge, Scan_Edge] y')) \<and>
      sys_log y' \<in> {[], [(False, 4, 0)]}"
proof -
  have q: "cdc_quiescent (\<not> True) False cdc_init"
    by (simp add: cdc_quiescent_def cdc_init_def)
  show ?thesis
    using cdc_exactly_once[where r = True and h = False and p = "dmi_pack 4 0 DMI_OP_READ" and
        y = "\<lparr>sys_cdc = cdc_init, sys_dbo = 0, sys_log = []\<rparr>" and rd = "\<lambda>a. ucast a + 0x100" and
        es = "[Core_Edge, Core_Edge, Scan_Edge, Core_Edge, Core_Edge, Core_Edge]" and
        fs = "[Scan_Edge, Core_Edge, Scan_Edge]"] q
    by (simp add: dmi_accesses_def Let_def del: clocked_run.simps)
qed

text \<open>What every core edge does to the synchronizers, and what a hard reset does.\<close>

lemma core_edge_sync:
  "cdc_request_toggle_meta (core_clock_domain False i d s) = ci_request_toggle i"
  "cdc_request_toggle_sync (core_clock_domain False i d s) = cdc_request_toggle_meta s"
  "cdc_hardreset_toggle_meta (core_clock_domain False i d s) = ci_hardreset_toggle i"
  "cdc_hardreset_toggle_sync (core_clock_domain False i d s) = cdc_hardreset_toggle_meta s"
  "cdc_hardreset_toggle_seen (core_clock_domain False i d s) = cdc_hardreset_toggle_sync s"
  by (simp_all add: core_clock_domain_defs)

lemma core_edge_hardreset:
  assumes "cdc_hardreset_toggle_sync s \<noteq> cdc_hardreset_toggle_seen s"
  shows "cdc_response_toggle (core_clock_domain False i d s) = cdc_request_toggle_sync s"
    "cdc_request_toggle_seen (core_clock_domain False i d s) = cdc_request_toggle_sync s"
    "\<not> cdc_request_active (core_clock_domain False i d s)"
    "\<not> cdc_read_capture (core_clock_domain False i d s)"
    "\<not> dtm_en (core_clock_domain False i d s)"
    "cdc_response_payload (core_clock_domain False i d s) = 0"
  using assms by (simp_all add: core_clock_domain_def cdc_hardreset_def Let_def)

text \<open>
  A hard reset of the transport frees it. In every state of the bridge, whatever request is
  in flight, three core edges after the scan side has flipped the hard-reset toggle the bridge
  drives no access, has dropped the request, and acknowledges it with a zero response; two scan
  edges later the scan side no longer sees it pending.
\<close>

theorem cdc_hardreset_recovers:
  assumes "cdc_hardreset_toggle_meta s = (\<not> ci_hardreset_toggle i)"
    "cdc_hardreset_toggle_sync s = (\<not> ci_hardreset_toggle i)"
    "cdc_hardreset_toggle_seen s = (\<not> ci_hardreset_toggle i)"
  shows "let t = core_clock_domain False i d3 (core_clock_domain False i d2
                   (core_clock_domain False i d1 s));
             u = response_synchronizer False True (response_synchronizer False True t) in
     \<not> dtm_en t \<and> \<not> cdc_request_active t \<and> \<not> cdc_read_capture t \<and>
     cdc_request_toggle_seen t = ci_request_toggle i \<and> cdc_response_payload t = 0 \<and>
     \<not> cdc_pending_o i u"
  using assms
  by (simp add: Let_def core_edge_hardreset core_edge_sync cdc_pending_o_def
      response_synchronizer_def)

lemma cdc_hardreset_recovers_witness:
  "let i = \<lparr>ci_request_payload = dmi_pack 0x10 1 DMI_OP_READ, ci_request_toggle = True,
            ci_hardreset_toggle = True\<rparr>;
       s = cdc_init\<lparr>cdc_read_capture := True, cdc_request_toggle_seen := True\<rparr>;
       t = core_clock_domain False i 3 (core_clock_domain False i 2 (core_clock_domain False i 1 s))
   in \<not> cdc_read_capture t \<and> cdc_response_payload t = 0"
  unfolding Let_def
  using cdc_hardreset_recovers[where
      i = "\<lparr>ci_request_payload = dmi_pack 0x10 1 DMI_OP_READ, ci_request_toggle = True,
            ci_hardreset_toggle = True\<rparr>" and
      s = "cdc_init\<lparr>cdc_read_capture := True, cdc_request_toggle_seen := True\<rparr>" and
      ?d1.0 = 1 and ?d2.0 = 2 and ?d3.0 = 3]
  by (simp add: cdc_init_def Let_def)

end
