(* ===== verification/Jtag_Dtm.thy ===== *)
theory Jtag_Dtm
  imports Tap_Fsm Dtm_Transport
begin

text \<open>
  The JTAG debug transport module (\<open>rtl/debug/jtag_dtm.py\<close>): the instruction register, the
  data registers behind it (IDCODE, BYPASS, DTMCS, DMI), the output multiplexer, and the
  request toggles towards the clock-domain crossing. Shifting a register is the locale
  \<open>scan_path\<close>, interpreted on the instruction register and on every data register.
\<close>

abbreviation (input) JTAG_INSTR_IDCODE :: "5 word" where "JTAG_INSTR_IDCODE \<equiv> 0x01"
abbreviation (input) JTAG_INSTR_DTMCS :: "5 word" where "JTAG_INSTR_DTMCS \<equiv> 0x10"
abbreviation (input) JTAG_INSTR_DMI :: "5 word" where "JTAG_INSTR_DMI \<equiv> 0x11"
abbreviation (input) JTAG_INSTR_BYPASS :: "5 word" where "JTAG_INSTR_BYPASS \<equiv> 0x1f"
abbreviation (input) JTAG_IDCODE :: xword where "JTAG_IDCODE \<equiv> 0x10e31913"

subsection \<open>Signals and registers\<close>

record jtag_in =
  ji_reset :: bool
  ji_trstn_i :: bool
  ji_tms_i :: bool
  ji_tdi_i :: bool
  ji_request_pending :: bool
  ji_response_payload :: dmi_word

record jtag_state =
  jt_tap :: tap_state
  jt_instruction :: "5 word"
  jt_ir_shift :: "5 word"
  jt_idcode_shift :: xword
  jt_bypass :: bool
  jt_dmi_shift_reg :: dmi_word
  jt_dtmcs_shift_reg :: xword
  jt_request_payload :: dmi_word
  jt_request_toggle :: bool
  jt_hardreset_toggle :: bool
  jt_tdo_o :: bool

definition jtag_init :: jtag_state where
  "jtag_init = \<lparr>jt_tap = test_logic_reset, jt_instruction = JTAG_INSTR_IDCODE, jt_ir_shift = 0,
     jt_idcode_shift = 0, jt_bypass = False, jt_dmi_shift_reg = 0, jt_dtmcs_shift_reg = 0,
     jt_request_payload = 0, jt_request_toggle = False, jt_hardreset_toggle = False,
     jt_tdo_o = False\<rparr>"

subsection \<open>Falling edge: the output\<close>

definition tdo_select :: "jtag_in \<Rightarrow> jtag_state \<Rightarrow> jtag_state" where
  "tdo_select i s = s\<lparr>jt_tdo_o :=
     (if ji_reset i \<or> \<not> ji_trstn_i i then False
      else if jt_tap s = shift_ir then bit (jt_ir_shift s) 0
      else if jt_tap s = shift_dr then
        (if jt_instruction s = JTAG_INSTR_BYPASS then jt_bypass s
         else if jt_instruction s = JTAG_INSTR_IDCODE then bit (jt_idcode_shift s) 0
         else if jt_instruction s = JTAG_INSTR_DMI then bit (jt_dmi_shift_reg s) 0
         else if jt_instruction s = JTAG_INSTR_DTMCS then bit (jt_dtmcs_shift_reg s) 0
         else False)
      else False)\<rparr>"

subsection \<open>Rising edge: the registers\<close>

definition tap_reset :: "jtag_state \<Rightarrow> jtag_state" where
  "tap_reset n = n\<lparr>jt_instruction := JTAG_INSTR_IDCODE, jt_ir_shift := 0, jt_idcode_shift := 0,
     jt_bypass := False, jt_dmi_shift_reg := 0, jt_dtmcs_shift_reg := 0,
     jt_request_payload := 0, jt_request_toggle := False, jt_hardreset_toggle := False\<rparr>"

definition tap_ir_actions :: "jtag_in \<Rightarrow> jtag_state \<Rightarrow> jtag_state \<Rightarrow> jtag_state" where
  "tap_ir_actions i s n =
     (if jt_tap s = capture_ir then n\<lparr>jt_ir_shift := 0x01\<rparr>
      else if jt_tap s = shift_ir then n\<lparr>jt_ir_shift := scan_shift (ji_tdi_i i) (jt_ir_shift s)\<rparr>
      else if jt_tap s = update_ir then n\<lparr>jt_instruction := jt_ir_shift s\<rparr>
      else n)"

definition dtmcs_value :: "bool \<Rightarrow> xword" where
  "dtmcs_value pending =
     bv_put_slice 15 12 (1 :: 3 word)
       ((if pending then bv_put_slice 12 10 DMI_OP_BUSY else id)
         (bv_put_slice 9 4 (7 :: 5 word) (bv_put_slice 3 0 (1 :: 3 word) 0)))"

definition tap_capture_dr :: "jtag_in \<Rightarrow> jtag_state \<Rightarrow> jtag_state \<Rightarrow> jtag_state" where
  "tap_capture_dr i s n =
     (if jt_instruction s = JTAG_INSTR_IDCODE then n\<lparr>jt_idcode_shift := JTAG_IDCODE\<rparr>
      else if jt_instruction s = JTAG_INSTR_BYPASS then n\<lparr>jt_bypass := False\<rparr>
      else if jt_instruction s = JTAG_INSTR_DMI then
        n\<lparr>jt_dmi_shift_reg := (if ji_request_pending i then bv_put_slice 2 0 DMI_OP_BUSY 0
                               else ji_response_payload i)\<rparr>
      else if jt_instruction s = JTAG_INSTR_DTMCS then
        n\<lparr>jt_dtmcs_shift_reg := dtmcs_value (ji_request_pending i)\<rparr>
      else n)"

definition tap_shift_dr :: "jtag_in \<Rightarrow> jtag_state \<Rightarrow> jtag_state \<Rightarrow> jtag_state" where
  "tap_shift_dr i s n =
     (if jt_instruction s = JTAG_INSTR_BYPASS then n\<lparr>jt_bypass := ji_tdi_i i\<rparr>
      else if jt_instruction s = JTAG_INSTR_IDCODE
      then n\<lparr>jt_idcode_shift := scan_shift (ji_tdi_i i) (jt_idcode_shift s)\<rparr>
      else if jt_instruction s = JTAG_INSTR_DMI
      then n\<lparr>jt_dmi_shift_reg := scan_shift (ji_tdi_i i) (jt_dmi_shift_reg s)\<rparr>
      else if jt_instruction s = JTAG_INSTR_DTMCS
      then n\<lparr>jt_dtmcs_shift_reg := scan_shift (ji_tdi_i i) (jt_dtmcs_shift_reg s)\<rparr>
      else n)"

definition tap_update_dr :: "jtag_state \<Rightarrow> jtag_state \<Rightarrow> jtag_state" where
  "tap_update_dr s n =
     (if jt_instruction s = JTAG_INSTR_DMI
      then n\<lparr>jt_request_payload := jt_dmi_shift_reg s,
             jt_request_toggle := (\<not> jt_request_toggle s)\<rparr>
      else if jt_instruction s = JTAG_INSTR_DTMCS \<and> bit (jt_dtmcs_shift_reg s) 17
      then n\<lparr>jt_hardreset_toggle := (\<not> jt_hardreset_toggle s)\<rparr>
      else n)"

definition tap_dr_actions :: "jtag_in \<Rightarrow> jtag_state \<Rightarrow> jtag_state \<Rightarrow> jtag_state" where
  "tap_dr_actions i s n =
     (if jt_tap s = capture_dr then tap_capture_dr i s n
      else if jt_tap s = shift_dr then tap_shift_dr i s n
      else if jt_tap s = update_dr then tap_update_dr s n
      else n)"

definition tap_actions :: "jtag_in \<Rightarrow> jtag_state \<Rightarrow> jtag_state \<Rightarrow> jtag_state" where
  "tap_actions i s n =
     (if ji_reset i \<or> \<not> ji_trstn_i i then tap_reset n
      else
        (let n1 = (if jt_tap s = test_logic_reset \<and> ji_tms_i i
                   then n\<lparr>jt_instruction := JTAG_INSTR_IDCODE\<rparr> else n)
         in tap_dr_actions i s (tap_ir_actions i s n1)))"

definition jtag_posedge :: "jtag_in \<Rightarrow> jtag_state \<Rightarrow> jtag_state" where
  "jtag_posedge i s =
     (tap_actions i s s)\<lparr>jt_tap := tap_step (ji_reset i) (ji_trstn_i i) (ji_tms_i i) (jt_tap s)\<rparr>"

text \<open>A full period of the test clock: rising edge, then falling edge.\<close>

definition jtag_cycle :: "jtag_in \<Rightarrow> jtag_state \<Rightarrow> jtag_state" where
  "jtag_cycle i s = tdo_select i (jtag_posedge i s)"

lemmas jtag_cycle_defs = jtag_cycle_def jtag_posedge_def tdo_select_def tap_actions_def
  tap_ir_actions_def tap_dr_actions_def tap_shift_dr_def tap_capture_dr_def tap_update_dr_def
  tap_step_def Let_def

subsection \<open>Scanning\<close>

text \<open>The host's side: it drives TMS and TDI and samples TDO before every rising edge.\<close>

fun host_clock ::
  "('s \<Rightarrow> bool) \<Rightarrow> (bool \<Rightarrow> bool \<Rightarrow> 's \<Rightarrow> 's) \<Rightarrow> (bool \<times> bool) list \<Rightarrow> 's \<Rightarrow> bool list \<times> 's" where
  "host_clock tdo step [] s = ([], s)"
| "host_clock tdo step ((tms, tdi) # xs) s =
     (let (os, t) = host_clock tdo step xs (step tms tdi s) in (tdo s # os, t))"

lemma host_clock_append:
  "host_clock tdo step (xs @ ys) s =
     (let (os, t) = host_clock tdo step xs s; (ps, u) = host_clock tdo step ys t
      in (os @ ps, u))"
  by (induction tdo step xs s rule: host_clock.induct) (auto simp: Let_def split: prod.splits)

lemma host_clock_length: "length (fst (host_clock tdo step xs s)) = length xs"
  by (induction tdo step xs s rule: host_clock.induct) (auto simp: Let_def split: prod.splits)

text \<open>A register on a scan path: in the shift state every clock with TMS low shifts it, shows
  its lowest bit, and leaves everything else (\<open>frame\<close>) alone; the clock with TMS high that
  leaves the state shifts once more.\<close>

locale scan_path =
  fixes step :: "bool \<Rightarrow> bool \<Rightarrow> 's \<Rightarrow> 's" and tdo :: "'s \<Rightarrow> bool"
    and shifting :: "'s \<Rightarrow> bool" and reg :: "'s \<Rightarrow> 'a::len word" and frame :: "'s \<Rightarrow> 'f"
  assumes stay: "shifting s \<Longrightarrow> shifting (step False tdi s)"
    and shift: "shifting s \<Longrightarrow> reg (step tms tdi s) = scan_shift tdi (reg s)"
    and show_bit: "shifting s \<Longrightarrow> tdo (step False tdi s) = bit (reg (step False tdi s)) 0"
    and frame_step: "shifting s \<Longrightarrow> frame (step tms tdi s) = frame s"
begin

lemma scan_bits:
  assumes "shifting s" "tdo s = bit (reg s) 0"
  shows "\<exists>t. host_clock tdo step (map (Pair False) bs) s = (scan_out bs (reg s), t) \<and>
     shifting t \<and> reg t = scan_run bs (reg s) \<and> tdo t = bit (reg t) 0 \<and> frame t = frame s"
  using assms
proof (induction bs arbitrary: s)
  case (Cons b bs)
  note s' = stay[OF Cons.prems(1), of b] show_bit[OF Cons.prems(1), of b]
  from Cons.IH[OF s'] obtain t where
    "host_clock tdo step (map (Pair False) bs) (step False b s) =
       (scan_out bs (reg (step False b s)), t)" "shifting t"
    "reg t = scan_run bs (reg (step False b s))" "tdo t = bit (reg t) 0"
    "frame t = frame (step False b s)"
    by blast
  then show ?case
    using Cons.prems shift[OF Cons.prems(1), of False b] frame_step[OF Cons.prems(1), of False b]
    by simp
qed simp

text \<open>Shifting as many bits as the register has, the last one on the way out, exchanges the
  register with the host's word.\<close>

lemma scan_word:
  fixes w :: "'a word"
  assumes s: "shifting s" "tdo s = bit (reg s) 0"
  shows "\<exists>t. host_clock tdo step
       (map (Pair False) (butlast (word_bits w)) @ [(True, last (word_bits w))]) s =
         (word_bits (reg s), t) \<and> reg t = w \<and> frame t = frame s \<and>
       (\<exists>u. t = step True (last (word_bits w)) u \<and> shifting u)"
proof -
  let ?bs = "butlast (word_bits w)" and ?b = "last (word_bits w)"
  have ne: "word_bits w \<noteq> []" by (metis length_word_bits len_gt_0 length_greater_0_conv)
  obtain u where u: "host_clock tdo step (map (Pair False) ?bs) s = (scan_out ?bs (reg s), u)"
    "shifting u" "reg u = scan_run ?bs (reg s)" "tdo u = bit (reg u) 0" "frame u = frame s"
    using scan_bits[OF s] by blast
  have out: "scan_out (?bs @ [?b]) (reg s) = scan_out ?bs (reg s) @ [bit (scan_run ?bs (reg s)) 0]"
    for r
  proof -
    have "scan_out (xs @ [x]) v = scan_out xs v @ [bit (scan_run xs v) 0]" for xs x and v :: "'a word"
      by (induction xs arbitrary: v) simp_all
    then show ?thesis .
  qed
  have "scan_run (?bs @ [?b]) (reg s) = w"
    by (simp only: append_butlast_last_id[OF ne] scan_run_word)
  moreover have "scan_out (?bs @ [?b]) (reg s) = word_bits (reg s)"
    by (simp only: append_butlast_last_id[OF ne] scan_out_word length_word_bits)
  ultimately show ?thesis
    using u shift[OF u(2)] frame_step[OF u(2)] out
    by (auto simp: host_clock_append)
qed

end

subsection \<open>The scan paths of the module\<close>

definition jtag_step :: "bool \<Rightarrow> dmi_word \<Rightarrow> bool \<Rightarrow> bool \<Rightarrow> jtag_state \<Rightarrow> jtag_state" where
  "jtag_step pending resp tms tdi =
     jtag_cycle \<lparr>ji_reset = False, ji_trstn_i = True, ji_tms_i = tms, ji_tdi_i = tdi,
       ji_request_pending = pending, ji_response_payload = resp\<rparr>"

definition jtag_shifting :: "5 word \<Rightarrow> jtag_state \<Rightarrow> bool" where
  "jtag_shifting ins s \<longleftrightarrow> jt_tap s = shift_dr \<and> jt_instruction s = ins"

definition jtag_frame :: "jtag_state \<Rightarrow> 5 word \<times> dmi_word \<times> bool \<times> bool" where
  "jtag_frame s = (jt_instruction s, jt_request_payload s, jt_request_toggle s,
     jt_hardreset_toggle s)"

lemmas jtag_step_defs = jtag_step_def jtag_cycle_defs jtag_shifting_def jtag_frame_def

interpretation dmi_path: scan_path "jtag_step pending resp" jt_tdo_o
  "jtag_shifting JTAG_INSTR_DMI" jt_dmi_shift_reg jtag_frame for pending resp
  by unfold_locales (simp_all add: jtag_step_defs)

interpretation idcode_path: scan_path "jtag_step pending resp" jt_tdo_o
  "jtag_shifting JTAG_INSTR_IDCODE" jt_idcode_shift jtag_frame for pending resp
  by unfold_locales (simp_all add: jtag_step_defs)

interpretation dtmcs_path: scan_path "jtag_step pending resp" jt_tdo_o
  "jtag_shifting JTAG_INSTR_DTMCS" jt_dtmcs_shift_reg jtag_frame for pending resp
  by unfold_locales (simp_all add: jtag_step_defs)

interpretation ir_path: scan_path "jtag_step pending resp" jt_tdo_o
  "\<lambda>s. jt_tap s = shift_ir" jt_ir_shift jtag_frame for pending resp
  by unfold_locales (simp_all add: jtag_step_defs)

text \<open>A data scan and an instruction scan as the host drives them from the idle state: to the
  shift state, the word, and back through the update state.\<close>

definition scan_word_in :: "'a::len word \<Rightarrow> (bool \<times> bool) list" where
  "scan_word_in w = map (Pair False) (butlast (word_bits w)) @ [(True, last (word_bits w))]"

definition dr_enter :: "(bool \<times> bool) list" where
  "dr_enter = [(True, False), (False, False), (False, False)]"

definition ir_enter :: "(bool \<times> bool) list" where
  "ir_enter = [(True, False), (True, False), (False, False), (False, False)]"

definition scan_leave :: "(bool \<times> bool) list" where
  "scan_leave = [(True, False), (False, False)]"

definition scan_dr :: "'a::len word \<Rightarrow> (bool \<times> bool) list" where
  "scan_dr w = dr_enter @ scan_word_in w @ scan_leave"

definition scan_ir :: "5 word \<Rightarrow> (bool \<times> bool) list" where
  "scan_ir w = ir_enter @ scan_word_in w @ scan_leave"

text \<open>What the host reads: the samples of the shift state.\<close>

definition scanned :: "nat \<Rightarrow> nat \<Rightarrow> bool list \<Rightarrow> bool list" where
  "scanned from n os = take n (drop from os)"

lemma length_word_bits_butlast: "length (scan_word_in (w :: 'a::len word)) = LENGTH('a)"
  by (simp add: scan_word_in_def Suc_diff_le)

text \<open>The composition of the three phases of a scan.\<close>

lemma scan_phases:
  assumes "host_clock tdo step pre s = (os1, s1)"
    and "host_clock tdo step (scan_word_in w) s1 = (os2, s2)"
    and "host_clock tdo step post s2 = (os3, s3)"
  shows "host_clock tdo step (pre @ scan_word_in w @ post) s = (os1 @ os2 @ os3, s3)"
    and "length pre = k \<Longrightarrow> scanned k (length os2) (os1 @ os2 @ os3) = os2"
  using assms host_clock_length[of tdo step pre s]
  by (simp_all add: host_clock_append scanned_def)

lemma dr_enter_dmi:
  assumes "jt_tap s = run_test_idle" "jt_instruction s = JTAG_INSTR_DMI"
  shows "\<exists>os t. host_clock jt_tdo_o (jtag_step pending resp) dr_enter s = (os, t) \<and>
     jtag_shifting JTAG_INSTR_DMI t \<and> jt_tdo_o t = bit (jt_dmi_shift_reg t) 0 \<and>
     jt_dmi_shift_reg t = (if pending then dmi_pack 0 0 DMI_OP_BUSY else resp) \<and>
     jtag_frame t = jtag_frame s"
proof -
  have "bv_put_slice 2 0 DMI_OP_BUSY (0 :: dmi_word) = dmi_pack 0 0 DMI_OP_BUSY"
    by (rule bv_eqI) (auto simp: dmi_pack_def bv_simps)
  then show ?thesis
    using assms by (simp add: dr_enter_def jtag_step_defs)
qed

lemma scan_leave_dmi:
  assumes "jtag_shifting JTAG_INSTR_DMI u" "t = jtag_step pending resp True b u"
  shows "\<exists>os v. host_clock jt_tdo_o (jtag_step pending resp) scan_leave t = (os, v) \<and>
     jt_tap v = run_test_idle \<and> jt_instruction v = JTAG_INSTR_DMI \<and>
     jt_request_payload v = jt_dmi_shift_reg t \<and>
     jt_request_toggle v = (\<not> jt_request_toggle t) \<and>
     jt_hardreset_toggle v = jt_hardreset_toggle t"
  using assms by (simp add: scan_leave_def jtag_step_defs)

lemma jtag_dmi_exchange:
  assumes s: "jt_tap s = run_test_idle" "jt_instruction s = JTAG_INSTR_DMI"
  shows "\<exists>os t. host_clock jt_tdo_o (jtag_step pending resp) (scan_dr w) s = (os, t) \<and>
     scanned 3 41 os = word_bits (if pending then dmi_pack 0 0 DMI_OP_BUSY else resp) \<and>
     jt_request_payload t = w \<and> jt_request_toggle t = (\<not> jt_request_toggle s) \<and>
     jt_hardreset_toggle t = jt_hardreset_toggle s \<and>
     jt_tap t = run_test_idle \<and> jt_instruction t = JTAG_INSTR_DMI"
proof -
  obtain os1 s1 where p1: "host_clock jt_tdo_o (jtag_step pending resp) dr_enter s = (os1, s1)"
    "jtag_shifting JTAG_INSTR_DMI s1" "jt_tdo_o s1 = bit (jt_dmi_shift_reg s1) 0"
    "jt_dmi_shift_reg s1 = (if pending then dmi_pack 0 0 DMI_OP_BUSY else resp)"
    "jtag_frame s1 = jtag_frame s"
    using dr_enter_dmi[OF s] by blast
  obtain s2 u where p2: "host_clock jt_tdo_o (jtag_step pending resp) (scan_word_in w) s1 =
      (word_bits (jt_dmi_shift_reg s1), s2)" "jt_dmi_shift_reg s2 = w"
    "jtag_frame s2 = jtag_frame s1" "s2 = jtag_step pending resp True (last (word_bits w)) u"
    "jtag_shifting JTAG_INSTR_DMI u"
    using dmi_path.scan_word[OF p1(2,3), of pending resp w] unfolding scan_word_in_def by blast
  obtain os3 s3 where p3: "host_clock jt_tdo_o (jtag_step pending resp) scan_leave s2 = (os3, s3)"
    "jt_tap s3 = run_test_idle" "jt_instruction s3 = JTAG_INSTR_DMI"
    "jt_request_payload s3 = jt_dmi_shift_reg s2"
    "jt_request_toggle s3 = (\<not> jt_request_toggle s2)"
    "jt_hardreset_toggle s3 = jt_hardreset_toggle s2"
    using scan_leave_dmi[OF p2(5,4)] by blast
  note ph = scan_phases[OF p1(1) p2(1) p3(1)]
  have "length (word_bits (jt_dmi_shift_reg s1)) = 41" by simp
  then have "scanned 3 41 (os1 @ word_bits (jt_dmi_shift_reg s1) @ os3) =
      word_bits (jt_dmi_shift_reg s1)"
    using ph(2)[of 3] by (simp add: dr_enter_def)
  then show ?thesis
    using ph(1) p1(4,5) p2(2,3) p3(2-6) by (auto simp: scan_dr_def jtag_frame_def)
qed

text \<open>
  A DMI scan is one exchange. From the idle state with the DMI instruction, the host's
  46-clock scan of a word hands exactly that word to the clock-domain crossing and flips the
  request toggle once; it returns to the idle state with the instruction unchanged; and the 41
  bits the host samples are the response of the previous request, or the busy code when that
  request is still under way.
\<close>

theorem jtag_dmi_scan:
  assumes s: "jt_tap s = run_test_idle" "jt_instruction s = JTAG_INSTR_DMI"
  shows "\<exists>os t. host_clock jt_tdo_o (jtag_step pending resp) (scan_dr w) s = (os, t) \<and>
     scanned 3 41 os = word_bits (if pending then dmi_pack 0 0 DMI_OP_BUSY else resp) \<and>
     jt_request_payload t = w \<and> jt_request_toggle t = (\<not> jt_request_toggle s) \<and>
     jt_hardreset_toggle t = jt_hardreset_toggle s \<and>
     jt_tap t = run_test_idle \<and> jt_instruction t = JTAG_INSTR_DMI"
  by (rule jtag_dmi_exchange[OF assms])

lemma jtag_dmi_scan_witness:
  "\<exists>os t. host_clock jt_tdo_o (jtag_step False (dmi_pack 4 0xcafe DMI_OP_SUCCESS))
       (scan_dr (dmi_pack 0x10 1 DMI_OP_WRITE))
       (jtag_init\<lparr>jt_tap := run_test_idle, jt_instruction := JTAG_INSTR_DMI\<rparr>) = (os, t) \<and>
     scanned 3 41 os = word_bits (dmi_pack 4 0xcafe DMI_OP_SUCCESS) \<and>
     jt_request_payload t = dmi_pack 0x10 1 DMI_OP_WRITE \<and> jt_request_toggle t"
  using jtag_dmi_scan[where w = "dmi_pack 0x10 1 DMI_OP_WRITE" and pending = False and
      resp = "dmi_pack 4 0xcafe DMI_OP_SUCCESS" and
      s = "jtag_init\<lparr>jt_tap := run_test_idle, jt_instruction := JTAG_INSTR_DMI\<rparr>"]
  by (auto simp: jtag_init_def)

subsection \<open>Instruction scan, identification and hard reset\<close>

lemma ir_enter_phase:
  assumes "jt_tap s = run_test_idle"
  shows "\<exists>os t. host_clock jt_tdo_o (jtag_step pending resp) ir_enter s = (os, t) \<and>
     jt_tap t = shift_ir \<and> jt_tdo_o t = bit (jt_ir_shift t) 0 \<and> jt_ir_shift t = 1 \<and>
     jtag_frame t = jtag_frame s"
  using assms by (simp add: ir_enter_def jtag_step_defs)

lemma scan_leave_ir:
  assumes "jt_tap u = shift_ir" "t = jtag_step pending resp True b u"
  shows "\<exists>os v. host_clock jt_tdo_o (jtag_step pending resp) scan_leave t = (os, v) \<and>
     jt_tap v = run_test_idle \<and> jt_instruction v = jt_ir_shift t \<and>
     jt_request_payload v = jt_request_payload t \<and>
     jt_request_toggle v = jt_request_toggle t \<and> jt_hardreset_toggle v = jt_hardreset_toggle t"
  using assms by (simp add: scan_leave_def jtag_step_defs)

text \<open>
  An instruction scan from the idle state loads the host's instruction, shows the host the
  mandatory pattern 00001, returns to idle, and disturbs no request.
\<close>

theorem jtag_ir_scan:
  assumes s: "jt_tap s = run_test_idle"
  shows "\<exists>os t. host_clock jt_tdo_o (jtag_step pending resp) (scan_ir w) s = (os, t) \<and>
     scanned 4 5 os = word_bits (1 :: 5 word) \<and>
     jt_instruction t = w \<and> jt_tap t = run_test_idle \<and>
     jt_request_payload t = jt_request_payload s \<and>
     jt_request_toggle t = jt_request_toggle s \<and>
     jt_hardreset_toggle t = jt_hardreset_toggle s"
proof -
  obtain os1 s1 where p1: "host_clock jt_tdo_o (jtag_step pending resp) ir_enter s = (os1, s1)"
    "jt_tap s1 = shift_ir" "jt_tdo_o s1 = bit (jt_ir_shift s1) 0" "jt_ir_shift s1 = 1"
    "jtag_frame s1 = jtag_frame s"
    using ir_enter_phase[OF s] by blast
  obtain s2 u where p2: "host_clock jt_tdo_o (jtag_step pending resp) (scan_word_in w) s1 =
      (word_bits (jt_ir_shift s1), s2)" "jt_ir_shift s2 = w"
    "jtag_frame s2 = jtag_frame s1" "s2 = jtag_step pending resp True (last (word_bits w)) u"
    "jt_tap u = shift_ir"
    using ir_path.scan_word[OF p1(2,3), of pending resp w] unfolding scan_word_in_def by blast
  obtain os3 s3 where p3: "host_clock jt_tdo_o (jtag_step pending resp) scan_leave s2 = (os3, s3)"
    "jt_tap s3 = run_test_idle" "jt_instruction s3 = jt_ir_shift s2"
    "jt_request_payload s3 = jt_request_payload s2"
    "jt_request_toggle s3 = jt_request_toggle s2"
    "jt_hardreset_toggle s3 = jt_hardreset_toggle s2"
    using scan_leave_ir[OF p2(5,4)] by blast
  note ph = scan_phases[OF p1(1) p2(1) p3(1)]
  have "length (word_bits (jt_ir_shift s1)) = 5" by simp
  then have "scanned 4 5 (os1 @ word_bits (jt_ir_shift s1) @ os3) = word_bits (jt_ir_shift s1)"
    using ph(2)[of 4] by (simp add: ir_enter_def)
  then show ?thesis
    using ph(1) p1(4,5) p2(2,3) p3(2-6) by (auto simp: scan_ir_def jtag_frame_def)
qed

lemma jtag_ir_scan_witness:
  "\<exists>os t. host_clock jt_tdo_o (jtag_step False 0) (scan_ir JTAG_INSTR_DMI)
       (jtag_init\<lparr>jt_tap := run_test_idle\<rparr>) = (os, t) \<and> jt_instruction t = JTAG_INSTR_DMI"
  using jtag_ir_scan[where w = JTAG_INSTR_DMI and pending = False and resp = 0 and
      s = "jtag_init\<lparr>jt_tap := run_test_idle\<rparr>"]
  by auto

lemma dr_enter_idcode:
  assumes "jt_tap s = run_test_idle" "jt_instruction s = JTAG_INSTR_IDCODE"
  shows "\<exists>os t. host_clock jt_tdo_o (jtag_step pending resp) dr_enter s = (os, t) \<and>
     jtag_shifting JTAG_INSTR_IDCODE t \<and> jt_tdo_o t = bit (jt_idcode_shift t) 0 \<and>
     jt_idcode_shift t = JTAG_IDCODE \<and> jtag_frame t = jtag_frame s"
  using assms by (simp add: dr_enter_def jtag_step_defs)

lemma dr_enter_dtmcs:
  assumes "jt_tap s = run_test_idle" "jt_instruction s = JTAG_INSTR_DTMCS"
  shows "\<exists>os t. host_clock jt_tdo_o (jtag_step pending resp) dr_enter s = (os, t) \<and>
     jtag_shifting JTAG_INSTR_DTMCS t \<and> jt_tdo_o t = bit (jt_dtmcs_shift_reg t) 0 \<and>
     jt_dtmcs_shift_reg t = dtmcs_value pending \<and> jtag_frame t = jtag_frame s"
  using assms by (simp add: dr_enter_def jtag_step_defs)

lemma scan_leave_dtmcs:
  assumes "jtag_shifting JTAG_INSTR_DTMCS u" "t = jtag_step pending resp True b u"
  shows "\<exists>os v. host_clock jt_tdo_o (jtag_step pending resp) scan_leave t = (os, v) \<and>
     jt_tap v = run_test_idle \<and> jt_instruction v = JTAG_INSTR_DTMCS \<and>
     jt_request_payload v = jt_request_payload t \<and>
     jt_request_toggle v = jt_request_toggle t \<and>
     jt_hardreset_toggle v = (jt_hardreset_toggle t \<noteq> bit (jt_dtmcs_shift_reg t) 17)"
  using assms by (auto simp: scan_leave_def jtag_step_defs)

text \<open>
  A DTMCS scan from the idle state reads the version, the address width, the idle hint and
  the busy state of the transport, and requests a hard reset exactly when bit 17 of the written
  word is set; no other bit of the word has an effect, the sticky-error reset of bit 16
  included, and no request is disturbed.
\<close>

theorem jtag_dtmcs_scan:
  assumes s: "jt_tap s = run_test_idle" "jt_instruction s = JTAG_INSTR_DTMCS"
  shows "\<exists>os t. host_clock jt_tdo_o (jtag_step pending resp) (scan_dr w) s = (os, t) \<and>
     scanned 3 32 os = word_bits (if pending then 0x1c71 else 0x1071 :: xword) \<and>
     jt_hardreset_toggle t = (jt_hardreset_toggle s \<noteq> bit (w :: xword) 17) \<and>
     jt_request_toggle t = jt_request_toggle s \<and>
     jt_request_payload t = jt_request_payload s \<and> jt_tap t = run_test_idle \<and>
     jt_instruction t = JTAG_INSTR_DTMCS"
proof -
  obtain os1 s1 where p1: "host_clock jt_tdo_o (jtag_step pending resp) dr_enter s = (os1, s1)"
    "jtag_shifting JTAG_INSTR_DTMCS s1" "jt_tdo_o s1 = bit (jt_dtmcs_shift_reg s1) 0"
    "jt_dtmcs_shift_reg s1 = dtmcs_value pending" "jtag_frame s1 = jtag_frame s"
    using dr_enter_dtmcs[OF s] by blast
  obtain s2 u where p2: "host_clock jt_tdo_o (jtag_step pending resp) (scan_word_in w) s1 =
      (word_bits (jt_dtmcs_shift_reg s1), s2)" "jt_dtmcs_shift_reg s2 = w"
    "jtag_frame s2 = jtag_frame s1" "s2 = jtag_step pending resp True (last (word_bits w)) u"
    "jtag_shifting JTAG_INSTR_DTMCS u"
    using dtmcs_path.scan_word[OF p1(2,3), of pending resp w] unfolding scan_word_in_def by blast
  obtain os3 s3 where p3: "host_clock jt_tdo_o (jtag_step pending resp) scan_leave s2 = (os3, s3)"
    "jt_tap s3 = run_test_idle" "jt_instruction s3 = JTAG_INSTR_DTMCS"
    "jt_request_payload s3 = jt_request_payload s2"
    "jt_request_toggle s3 = jt_request_toggle s2"
    "jt_hardreset_toggle s3 = (jt_hardreset_toggle s2 \<noteq> bit (jt_dtmcs_shift_reg s2) 17)"
    using scan_leave_dtmcs[OF p2(5,4)] by blast
  note ph = scan_phases[OF p1(1) p2(1) p3(1)]
  have "dtmcs_value True = 0x1c71" "dtmcs_value False = 0x1071" by code_simp+
  then have "dtmcs_value pending = (if pending then 0x1c71 else 0x1071)" by (cases pending) simp_all
  moreover have "length (word_bits (jt_dtmcs_shift_reg s1)) = 32" by simp
  then have "scanned 3 32 (os1 @ word_bits (jt_dtmcs_shift_reg s1) @ os3) =
      word_bits (jt_dtmcs_shift_reg s1)"
    using ph(2)[of 3] by (simp add: dr_enter_def)
  ultimately show ?thesis
    using ph(1) p1(4,5) p2(2,3) p3(2-6) by (auto simp: scan_dr_def jtag_frame_def)
qed

lemma jtag_dtmcs_scan_witness:
  "\<exists>os t. host_clock jt_tdo_o (jtag_step False 0) (scan_dr (0x20000 :: xword))
       (jtag_init\<lparr>jt_tap := run_test_idle, jt_instruction := JTAG_INSTR_DTMCS\<rparr>) = (os, t) \<and>
     scanned 3 32 os = word_bits (0x1071 :: xword) \<and> jt_hardreset_toggle t"
proof -
  have "bit (0x20000 :: xword) 17" by (simp add: bit_numeral_rec)
  then show ?thesis
    using jtag_dtmcs_scan[where w = "0x20000" and pending = False and resp = 0 and
        s = "jtag_init\<lparr>jt_tap := run_test_idle, jt_instruction := JTAG_INSTR_DTMCS\<rparr>"]
    by (auto simp: jtag_init_def)
qed

subsection \<open>A transaction from scan to scan\<close>

text \<open>What the crossing sees of the module's registers.\<close>

definition jtag_cdc_in :: "jtag_state \<Rightarrow> cdc_in" where
  "jtag_cdc_in s = \<lparr>ci_request_payload = jt_request_payload s,
     ci_request_toggle = jt_request_toggle s, ci_hardreset_toggle = jt_hardreset_toggle s\<rparr>"

text \<open>
  C10: A transaction from scan to scan. When the bridge is quiescent, a DMI scan of a word, then
  any interleaving of clock edges that contains five core edges and after them two scan edges,
  and then a second DMI scan: the debug module has performed exactly the access the first word
  asked for, once, and the second scan reads success, the address, and for a read the data the
  debug module delivered.
\<close>

theorem jtag_transaction:
  assumes s: "jt_tap s = run_test_idle" "jt_instruction s = JTAG_INSTR_DMI"
    and q: "cdc_quiescent (jt_request_toggle s) (jt_hardreset_toggle s) (sys_cdc y)"
      "sys_log y = []"
    and first: "host_clock jt_tdo_o (jtag_step pending resp) (scan_dr w) s = (os, t)"
    and es: "5 \<le> length (filter ((=) Core_Edge) es)" "2 \<le> length (filter ((=) Scan_Edge) fs)"
    and y': "y' = clocked_run (cdc_system_step (jtag_cdc_in t) rd) (es @ fs) y"
    and second: "host_clock jt_tdo_o (jtag_step (cdc_pending_o (jtag_cdc_in t) (sys_cdc y'))
        (cdc_response_payload (sys_cdc y'))) (scan_dr v) t = (os', t')"
  shows "sys_log y' = dmi_accesses w \<and> scanned 3 41 os' = word_bits (dmi_response rd w) \<and>
     jt_request_payload t' = v"
proof -
  have t: "jt_request_payload t = w" "jt_request_toggle t = (\<not> jt_request_toggle s)"
    "jt_hardreset_toggle t = jt_hardreset_toggle s" "jt_tap t = run_test_idle"
    "jt_instruction t = JTAG_INSTR_DMI"
    using jtag_dmi_exchange[OF s, of pending resp w] first by auto
  have i: "jtag_cdc_in t = cdc_request w (jt_request_toggle t) (jt_hardreset_toggle s)"
    by (simp add: jtag_cdc_in_def cdc_request_def t)
  have q': "cdc_quiescent (\<not> jt_request_toggle t) (jt_hardreset_toggle s) (sys_cdc y)"
    using q by (simp add: t)
  have run: "y' = clocked_run (cdc_system_step (jtag_cdc_in t) rd) fs
      (clocked_run (cdc_system_step (jtag_cdc_in t) rd) es y)"
    by (simp add: y')
  have np: "\<not> cdc_pending_o (jtag_cdc_in t) (sys_cdc y')"
    using cdc_transaction[OF q' q(2), where p = w and rd = rd and es = es and fs = fs] es
    unfolding run i Let_def by blast
  have res: "sys_log y' = dmi_accesses w" "cdc_response_payload (sys_cdc y') = dmi_response rd w"
    using cdc_transaction[OF q' q(2), where p = w and rd = rd and es = "es @ fs" and fs = "[]"] np
    unfolding y' i Let_def by blast+
  show ?thesis
    using jtag_dmi_exchange[OF t(4,5), of False "dmi_response rd w" v] second np res by auto
qed

lemma jtag_transaction_witness:
  "\<exists>os t y' os' t'.
     host_clock jt_tdo_o (jtag_step False 0) (scan_dr (dmi_pack 0x11 0 DMI_OP_READ))
       (jtag_init\<lparr>jt_tap := run_test_idle, jt_instruction := JTAG_INSTR_DMI\<rparr>) = (os, t) \<and>
     y' = clocked_run (cdc_system_step (jtag_cdc_in t) (\<lambda>a. 0x382))
       (replicate 5 Core_Edge @ replicate 2 Scan_Edge)
       \<lparr>sys_cdc = cdc_init, sys_dbo = 0, sys_log = []\<rparr> \<and>
     host_clock jt_tdo_o (jtag_step (cdc_pending_o (jtag_cdc_in t) (sys_cdc y'))
       (cdc_response_payload (sys_cdc y'))) (scan_dr (0 :: dmi_word)) t = (os', t') \<and>
     scanned 3 41 os' = word_bits (dmi_pack 0x11 0x382 DMI_OP_SUCCESS)"
proof -
  let ?s = "jtag_init\<lparr>jt_tap := run_test_idle, jt_instruction := JTAG_INSTR_DMI\<rparr>"
  let ?w = "dmi_pack 0x11 0 DMI_OP_READ"
  obtain os t where f: "host_clock jt_tdo_o (jtag_step False 0) (scan_dr ?w) ?s = (os, t)"
    by fastforce
  define y' where "y' = clocked_run (cdc_system_step (jtag_cdc_in t) (\<lambda>a. 0x382))
      (replicate 5 Core_Edge @ replicate 2 Scan_Edge)
      \<lparr>sys_cdc = cdc_init, sys_dbo = 0, sys_log = []\<rparr>"
  obtain os' t' where g: "host_clock jt_tdo_o (jtag_step (cdc_pending_o (jtag_cdc_in t) (sys_cdc y'))
      (cdc_response_payload (sys_cdc y'))) (scan_dr (0 :: dmi_word)) t = (os', t')"
    by fastforce
  have "cdc_quiescent (jt_request_toggle ?s) (jt_hardreset_toggle ?s) cdc_init"
    by (simp add: jtag_init_def cdc_quiescent_def cdc_init_def)
  then have "scanned 3 41 os' = word_bits (dmi_response (\<lambda>a. 0x382) ?w)"
    using jtag_transaction[OF _ _ _ _ f _ _ y'_def g] by simp
  then show ?thesis
    using f g y'_def by (auto simp: dmi_response_def)
qed

end
