(* ===== verification/Ecp5_Jtagg.thy ===== *)
theory Ecp5_Jtagg
  imports Jtag_Dtm
begin

text \<open>
  The debug transport behind the ECP5's hard test access port: the client of the JTAGG primitive
  (\<open>rtl/debug/ecp5_jtagg_client.py\<close>) and the emulator of that primitive the repository
  simulates it with (\<open>rtl/debug/ecp5_jtagg_tap.py\<close>). The port owns the controller, the
  instruction register and the identification register; the client owns the two user registers
  ER1 (DMI) and ER2 (DTMCS), and works on the falling edge of the test clock, one half period
  behind the port. The lemmas show that a host cannot tell it from the native transport of
  \<open>Jtag_Dtm\<close>, as long as it does not scan another register while a user register is
  still selected.
\<close>

type_synonym ecp5_ir = "8 word"

abbreviation (input) ECP5_JTAGG_IR_ER1 :: ecp5_ir where "ECP5_JTAGG_IR_ER1 \<equiv> 0x32"
abbreviation (input) ECP5_JTAGG_IR_ER2 :: ecp5_ir where "ECP5_JTAGG_IR_ER2 \<equiv> 0x38"
abbreviation (input) ECP5_JTAG_INSTR_IDCODE :: ecp5_ir where "ECP5_JTAG_INSTR_IDCODE \<equiv> 0x01"
abbreviation (input) ECP5_JTAG_INSTR_BYPASS :: ecp5_ir where "ECP5_JTAG_INSTR_BYPASS \<equiv> 0xff"
abbreviation (input) ECP5_JTAG_IDCODE_DEFAULT :: xword where
  "ECP5_JTAG_IDCODE_DEFAULT \<equiv> 0x41111043"

subsection \<open>Signals and registers\<close>

text \<open>\<open>Ecp5JtaggInputBundle\<close> without the clock.\<close>

record jtagg_bundle =
  jg_jtdi :: bool
  jg_jshift :: bool
  jg_jupdate :: bool
  jg_jrstn :: bool
  jg_jce1 :: bool
  jg_jce2 :: bool
  jg_jrt1 :: bool
  jg_jrt2 :: bool

record ecp5_tap =
  et_tap_state :: tap_state
  et_instruction :: ecp5_ir
  et_ir_shift :: ecp5_ir
  et_idcode_shift :: xword
  et_bypass :: bool
  et_jtdi :: bool
  et_tdo_o :: bool

record ecp5_client =
  ec_dmi_shift_reg :: dmi_word
  ec_dtmcs_shift_reg :: xword
  ec_active_er1 :: bool
  ec_active_er2 :: bool
  ec_jshift_d :: bool
  ec_request_payload :: dmi_word
  ec_request_toggle :: bool
  ec_hardreset_toggle :: bool

record ecp5_state =
  e5_tap :: ecp5_tap
  e5_client :: ecp5_client

definition ecp5_init :: ecp5_state where
  "ecp5_init = \<lparr>e5_tap = \<lparr>et_tap_state = test_logic_reset,
       et_instruction = ECP5_JTAG_INSTR_IDCODE, et_ir_shift = 0, et_idcode_shift = 0,
       et_bypass = False, et_jtdi = False, et_tdo_o = False\<rparr>,
     e5_client = \<lparr>ec_dmi_shift_reg = 0, ec_dtmcs_shift_reg = 0, ec_active_er1 = False,
       ec_active_er2 = False, ec_jshift_d = False, ec_request_payload = 0,
       ec_request_toggle = False, ec_hardreset_toggle = False\<rparr>\<rparr>"

subsection \<open>The port: combinational outputs\<close>

definition jtagg_drive :: "bool \<Rightarrow> ecp5_tap \<Rightarrow> jtagg_bundle" where
  "jtagg_drive trstn t = (let st = et_tap_state t; ins = et_instruction t in
     \<lparr>jg_jtdi = et_jtdi t,
      jg_jshift = (st = shift_dr),
      jg_jupdate = (st = update_dr),
      jg_jrstn = (trstn \<and> st \<noteq> test_logic_reset),
      jg_jce1 = (ins = ECP5_JTAGG_IR_ER1 \<and> (st = capture_dr \<or> st = shift_dr)),
      jg_jce2 = (ins = ECP5_JTAGG_IR_ER2 \<and> (st = capture_dr \<or> st = shift_dr)),
      jg_jrt1 = (ins = ECP5_JTAGG_IR_ER1 \<and> st = run_test_idle),
      jg_jrt2 = (ins = ECP5_JTAGG_IR_ER2 \<and> st = run_test_idle)\<rparr>)"

text \<open>The client's outputs \<open>jtdo1\<close> and \<open>jtdo2\<close>.\<close>

definition ecp5_jtdo1 :: "ecp5_client \<Rightarrow> bool" where
  "ecp5_jtdo1 c \<longleftrightarrow> bit (ec_dmi_shift_reg c) 0"

definition ecp5_jtdo2 :: "ecp5_client \<Rightarrow> bool" where
  "ecp5_jtdo2 c \<longleftrightarrow> bit (ec_dtmcs_shift_reg c) 0"

subsection \<open>The port: rising edge\<close>

definition ecp5_ir_actions :: "jtag_in \<Rightarrow> ecp5_tap \<Rightarrow> ecp5_tap \<Rightarrow> ecp5_tap" where
  "ecp5_ir_actions i s n =
     (if et_tap_state s = capture_ir then n\<lparr>et_ir_shift := 0x01\<rparr>
      else if et_tap_state s = shift_ir
      then n\<lparr>et_ir_shift := scan_shift (ji_tdi_i i) (et_ir_shift s)\<rparr>
      else if et_tap_state s = update_ir then n\<lparr>et_instruction := et_ir_shift s\<rparr>
      else n)"

definition ecp5_dr_actions :: "xword \<Rightarrow> jtag_in \<Rightarrow> ecp5_tap \<Rightarrow> ecp5_tap \<Rightarrow> ecp5_tap" where
  "ecp5_dr_actions idcode i s n =
     (if et_tap_state s = capture_dr then
        (if et_instruction s = ECP5_JTAG_INSTR_IDCODE then n\<lparr>et_idcode_shift := idcode\<rparr>
         else n\<lparr>et_bypass := False\<rparr>)
      else if et_tap_state s = shift_dr then
        (if et_instruction s = ECP5_JTAG_INSTR_IDCODE
         then n\<lparr>et_idcode_shift := scan_shift (ji_tdi_i i) (et_idcode_shift s)\<rparr>
         else if et_instruction s \<noteq> ECP5_JTAGG_IR_ER1 \<and> et_instruction s \<noteq> ECP5_JTAGG_IR_ER2
         then n\<lparr>et_bypass := ji_tdi_i i\<rparr>
         else n)
      else n)"

definition ecp5_actions :: "xword \<Rightarrow> jtag_in \<Rightarrow> ecp5_tap \<Rightarrow> ecp5_tap" where
  "ecp5_actions idcode i s =
     (if ji_reset i \<or> \<not> ji_trstn_i i
      then s\<lparr>et_instruction := ECP5_JTAG_INSTR_IDCODE, et_ir_shift := 0, et_idcode_shift := 0,
             et_bypass := False\<rparr>
      else
        (let n = (if et_tap_state s = test_logic_reset \<and> ji_tms_i i
                  then s\<lparr>et_instruction := ECP5_JTAG_INSTR_IDCODE\<rparr> else s)
         in ecp5_dr_actions idcode i s (ecp5_ir_actions i s n)))"

text \<open>The rising edge also registers the external TDI for the client
  (\<open>jtagg_clock_and_data\<close>).\<close>

definition ecp5_posedge :: "xword \<Rightarrow> jtag_in \<Rightarrow> ecp5_tap \<Rightarrow> ecp5_tap" where
  "ecp5_posedge idcode i s = (ecp5_actions idcode i s)
     \<lparr>et_tap_state := tap_step (ji_reset i) (ji_trstn_i i) (ji_tms_i i) (et_tap_state s),
      et_jtdi := ji_tdi_i i\<rparr>"

subsection \<open>The port: falling edge\<close>

definition ecp5_tdo_select :: "jtag_in \<Rightarrow> ecp5_client \<Rightarrow> ecp5_tap \<Rightarrow> ecp5_tap" where
  "ecp5_tdo_select i c s = s\<lparr>et_tdo_o :=
     (if ji_reset i \<or> \<not> ji_trstn_i i then False
      else if et_tap_state s = shift_ir then bit (et_ir_shift s) 0
      else if et_tap_state s = shift_dr then
        (if et_instruction s = ECP5_JTAG_INSTR_IDCODE then bit (et_idcode_shift s) 0
         else if et_instruction s = ECP5_JTAGG_IR_ER1 then ecp5_jtdo1 c
         else if et_instruction s = ECP5_JTAGG_IR_ER2 then ecp5_jtdo2 c
         else et_bypass s)
      else False)\<rparr>"

subsection \<open>The client: falling edge\<close>

definition ecp5_client_reset :: "ecp5_client \<Rightarrow> ecp5_client" where
  "ecp5_client_reset c = c\<lparr>ec_dmi_shift_reg := 0, ec_dtmcs_shift_reg := 0,
     ec_active_er1 := False, ec_active_er2 := False, ec_jshift_d := False,
     ec_request_payload := 0, ec_request_toggle := False, ec_hardreset_toggle := False\<rparr>"

definition ecp5_capture_er1 :: "jtag_in \<Rightarrow> ecp5_client \<Rightarrow> ecp5_client" where
  "ecp5_capture_er1 i n = n\<lparr>ec_active_er1 := True, ec_active_er2 := False,
     ec_dmi_shift_reg := (if ji_request_pending i then bv_put_slice 2 0 DMI_OP_BUSY 0
                          else ji_response_payload i)\<rparr>"

definition ecp5_capture_er2 :: "jtag_in \<Rightarrow> ecp5_client \<Rightarrow> ecp5_client" where
  "ecp5_capture_er2 i n = n\<lparr>ec_active_er1 := False, ec_active_er2 := True,
     ec_dtmcs_shift_reg :=
       bv_put_slice 15 12 (1 :: 3 word)
         ((if ji_request_pending i then bv_put_slice 12 10 DMI_OP_BUSY else id)
           (bv_put_slice 9 4 (7 :: 5 word) (bv_put_slice 3 0 (1 :: 3 word) 0)))\<rparr>"

definition ecp5_shift :: "jtagg_bundle \<Rightarrow> ecp5_client \<Rightarrow> ecp5_client \<Rightarrow> ecp5_client" where
  "ecp5_shift g c n =
     (if ec_active_er1 c \<or> jg_jce1 g
      then n\<lparr>ec_dmi_shift_reg := scan_shift (jg_jtdi g) (ec_dmi_shift_reg c)\<rparr>
      else if ec_active_er2 c \<or> jg_jce2 g
      then n\<lparr>ec_dtmcs_shift_reg := scan_shift (jg_jtdi g) (ec_dtmcs_shift_reg c)\<rparr>
      else n)"

definition ecp5_update :: "ecp5_client \<Rightarrow> ecp5_client \<Rightarrow> ecp5_client" where
  "ecp5_update c n =
     (if ec_active_er1 c
      then n\<lparr>ec_request_payload := ec_dmi_shift_reg c,
             ec_request_toggle := (\<not> ec_request_toggle c)\<rparr>
      else if ec_active_er2 c \<and> bit (ec_dtmcs_shift_reg c) 17
      then n\<lparr>ec_hardreset_toggle := (\<not> ec_hardreset_toggle c)\<rparr>
      else n)"

definition ecp5_client_next ::
  "jtag_in \<Rightarrow> jtagg_bundle \<Rightarrow> ecp5_client \<Rightarrow> ecp5_client" where
  "ecp5_client_next i g c =
     (if ji_reset i \<or> \<not> jg_jrstn g then ecp5_client_reset c
      else
        (let n = c\<lparr>ec_jshift_d := jg_jshift g\<rparr>
         in if jg_jce1 g \<and> \<not> jg_jshift g then ecp5_capture_er1 i n
            else if jg_jce2 g \<and> \<not> jg_jshift g then ecp5_capture_er2 i n
            else if jg_jshift g \<or> ec_jshift_d c then ecp5_shift g c n
            else if jg_jupdate g then ecp5_update c n
            else if jg_jrt1 g then n\<lparr>ec_active_er1 := True, ec_active_er2 := False\<rparr>
            else if jg_jrt2 g then n\<lparr>ec_active_er1 := False, ec_active_er2 := True\<rparr>
            else n))"

text \<open>A full period of the test clock. On the falling edge the port samples the client's old
  output, and the client shifts after it.\<close>

definition ecp5_cycle :: "xword \<Rightarrow> jtag_in \<Rightarrow> ecp5_state \<Rightarrow> ecp5_state" where
  "ecp5_cycle idcode i s =
     (let t = ecp5_posedge idcode i (e5_tap s); c = e5_client s in
      \<lparr>e5_tap = ecp5_tdo_select i c t,
       e5_client = ecp5_client_next i (jtagg_drive (ji_trstn_i i) t) c\<rparr>)"

lemmas ecp5_client_defs = ecp5_client_next_def ecp5_capture_er1_def ecp5_capture_er2_def
  ecp5_shift_def ecp5_update_def
lemmas ecp5_cycle_defs = ecp5_cycle_def ecp5_posedge_def ecp5_actions_def ecp5_ir_actions_def
  ecp5_dr_actions_def ecp5_tdo_select_def jtagg_drive_def ecp5_client_defs tap_step_def
  ecp5_jtdo1_def ecp5_jtdo2_def Let_def

subsection \<open>Scanning\<close>

text \<open>A scan path whose output bit is registered once more than its shift register: the host
  sees at every clock the bit the register had before its last shift.\<close>

locale delayed_scan_path =
  fixes step :: "bool \<Rightarrow> bool \<Rightarrow> 's \<Rightarrow> 's" and tdo :: "'s \<Rightarrow> bool"
    and shifting :: "'s \<Rightarrow> bool" and reg :: "'s \<Rightarrow> 'a::len word" and frame :: "'s \<Rightarrow> 'f"
  assumes stay: "shifting s \<Longrightarrow> shifting (step False tdi s)"
    and shift: "shifting s \<Longrightarrow> reg (step tms tdi s) = scan_shift tdi (reg s)"
    and show_bit: "shifting s \<Longrightarrow> tdo (step False tdi s) = bit (reg s) 0"
    and frame_step: "shifting s \<Longrightarrow> frame (step tms tdi s) = frame s"

text \<open>Looked at directly, without the output register, it is a scan path.\<close>

sublocale delayed_scan_path \<subseteq> direct: scan_path step "\<lambda>s. bit (reg s) 0" shifting reg frame
  by unfold_locales (auto simp: stay shift frame_step)

context delayed_scan_path begin

lemma delayed_bits:
  assumes "shifting s" "xs \<noteq> []" "\<forall>x \<in> set (butlast xs). \<not> fst x"
  shows "host_clock tdo step xs s =
     (tdo s # butlast (fst (host_clock (\<lambda>s. bit (reg s) 0) step xs s)),
      snd (host_clock (\<lambda>s. bit (reg s) 0) step xs s))"
  using assms
proof (induction xs arbitrary: s)
  case (Cons x xs)
  obtain tms tdi where x: "x = (tms, tdi)" by fastforce
  show ?case
  proof (cases "xs = []")
    case False
    with Cons.prems x have tms: "\<not> tms" by simp
    have ne: "fst (host_clock (\<lambda>s. bit (reg s) 0) step xs (step False tdi s)) \<noteq> []"
      using False host_clock_length[of _ step xs "step False tdi s"]
      by (metis length_0_conv)
    show ?thesis
      using Cons.IH[OF stay[OF Cons.prems(1)] False, of tdi] Cons.prems x tms False ne
        show_bit[OF Cons.prems(1), of tdi]
      by (auto simp: Let_def split: prod.splits)
  qed (simp add: x)
qed simp

text \<open>A word scanned through it: the junk bit shifted in before the first sample leaves again,
  and the host reads the word the register held before that.\<close>

lemma delayed_scan_word:
  fixes w c :: "'a word"
  assumes s: "shifting s" "reg s = scan_shift junk c" "tdo s = bit c 0"
  shows "\<exists>t. host_clock tdo step (scan_word_in w) s = (word_bits c, t) \<and> reg t = w \<and>
     frame t = frame s \<and> (\<exists>u. t = step True (last (word_bits w)) u \<and> shifting u)"
proof -
  obtain t where t: "host_clock (\<lambda>s. bit (reg s) 0) step (scan_word_in w) s = (word_bits (reg s), t)"
    "reg t = w" "frame t = frame s" "\<exists>u. t = step True (last (word_bits w)) u \<and> shifting u"
    using direct.scan_word[OF s(1) refl, of w] unfolding scan_word_in_def by blast
  have "bit c 0 # butlast (word_bits (reg s)) = word_bits c"
  proof (rule nth_equalityI)
    fix n assume "n < length (bit c 0 # butlast (word_bits (reg s)))"
    then show "(bit c 0 # butlast (word_bits (reg s))) ! n = word_bits c ! n"
      by (cases n) (auto simp: s(2) word_bits_def nth_butlast bit_scan_shift)
  qed simp
  moreover have "scan_word_in w \<noteq> []" by (simp add: scan_word_in_def)
  moreover have "\<forall>x \<in> set (butlast (scan_word_in w)). \<not> fst x" by (auto simp: scan_word_in_def)
  ultimately show ?thesis
    using delayed_bits[OF s(1), of "scan_word_in w"] t by (simp add: s(3))
qed

end

subsection \<open>The scan paths of the port and of the client\<close>

definition ecp5_step ::
  "xword \<Rightarrow> bool \<Rightarrow> dmi_word \<Rightarrow> bool \<Rightarrow> bool \<Rightarrow> ecp5_state \<Rightarrow> ecp5_state" where
  "ecp5_step idcode pending resp tms tdi =
     ecp5_cycle idcode \<lparr>ji_reset = False, ji_trstn_i = True, ji_tms_i = tms, ji_tdi_i = tdi,
       ji_request_pending = pending, ji_response_payload = resp\<rparr>"

definition ecp5_tdo :: "ecp5_state \<Rightarrow> bool" where
  "ecp5_tdo s = et_tdo_o (e5_tap s)"

definition er1_shifting :: "ecp5_state \<Rightarrow> bool" where
  "er1_shifting s \<longleftrightarrow> et_tap_state (e5_tap s) = shift_dr \<and>
     et_instruction (e5_tap s) = ECP5_JTAGG_IR_ER1 \<and>
     ec_active_er1 (e5_client s) \<and> ec_jshift_d (e5_client s)"

definition er2_shifting :: "ecp5_state \<Rightarrow> bool" where
  "er2_shifting s \<longleftrightarrow> et_tap_state (e5_tap s) = shift_dr \<and>
     et_instruction (e5_tap s) = ECP5_JTAGG_IR_ER2 \<and>
     ec_active_er2 (e5_client s) \<and> \<not> ec_active_er1 (e5_client s) \<and> ec_jshift_d (e5_client s)"

text \<open>What a scan leaves alone: the instruction and the requests to the crossing.\<close>

definition ecp5_requests :: "ecp5_state \<Rightarrow> dmi_word \<times> bool \<times> bool" where
  "ecp5_requests s = (ec_request_payload (e5_client s), ec_request_toggle (e5_client s),
     ec_hardreset_toggle (e5_client s))"

definition ecp5_frame :: "ecp5_state \<Rightarrow> ecp5_ir \<times> dmi_word \<times> bool \<times> bool" where
  "ecp5_frame s = (et_instruction (e5_tap s), ecp5_requests s)"

text \<open>What an instruction scan leaves alone on top: the client's memory of the selected
  register, and the DMI register.\<close>

definition er1_selection :: "ecp5_state \<Rightarrow> bool \<times> dmi_word" where
  "er1_selection s = (ec_active_er1 (e5_client s), ec_dmi_shift_reg (e5_client s))"

lemmas ecp5_step_defs = ecp5_step_def ecp5_cycle_defs ecp5_tdo_def ecp5_frame_def
  er1_selection_def
  ecp5_requests_def er1_shifting_def er2_shifting_def

interpretation er1_path: delayed_scan_path "ecp5_step idcode pending resp" ecp5_tdo
  er1_shifting "\<lambda>s. ec_dmi_shift_reg (e5_client s)" ecp5_frame for idcode pending resp
  by unfold_locales (simp_all add: ecp5_step_defs)

interpretation er2_path: delayed_scan_path "ecp5_step idcode pending resp" ecp5_tdo
  er2_shifting "\<lambda>s. ec_dtmcs_shift_reg (e5_client s)" ecp5_frame for idcode pending resp
  by unfold_locales (simp_all add: ecp5_step_defs)

text \<open>The port's own registers shift on the rising edge and are shown on the falling edge of the
  same period: scan paths without the extra delay.\<close>

interpretation ecp5_ir_path: scan_path "ecp5_step idcode pending resp" ecp5_tdo
  "\<lambda>s. et_tap_state (e5_tap s) = shift_ir \<and> \<not> ec_jshift_d (e5_client s)"
  "\<lambda>s. et_ir_shift (e5_tap s)" "\<lambda>s. (ecp5_frame s, er1_selection s)"
  for idcode pending resp
  by unfold_locales (simp_all add: ecp5_step_defs)

interpretation ecp5_idcode_path: scan_path "ecp5_step idcode pending resp" ecp5_tdo
  "\<lambda>s. et_tap_state (e5_tap s) = shift_dr \<and> et_instruction (e5_tap s) = ECP5_JTAG_INSTR_IDCODE"
  "\<lambda>s. et_idcode_shift (e5_tap s)" ecp5_frame for idcode pending resp
  by unfold_locales (simp_all add: ecp5_step_defs)

text \<open>The ways into the shift state and out of it.\<close>

definition ecp5_idle :: "ecp5_ir \<Rightarrow> ecp5_state \<Rightarrow> bool" where
  "ecp5_idle ins s \<longleftrightarrow> et_tap_state (e5_tap s) = run_test_idle \<and>
     et_instruction (e5_tap s) = ins \<and> \<not> ec_jshift_d (e5_client s)"

lemma busy_word: "bv_put_slice 2 0 DMI_OP_BUSY (0 :: dmi_word) = dmi_pack 0 0 DMI_OP_BUSY"
  by (rule bv_eqI) (auto simp: dmi_pack_def bv_simps)

lemma dr_enter_er1:
  assumes "ecp5_idle ECP5_JTAGG_IR_ER1 s"
  shows "\<exists>os t. host_clock ecp5_tdo (ecp5_step idcode pending resp) dr_enter s = (os, t) \<and>
     er1_shifting t \<and>
     (let c = (if pending then dmi_pack 0 0 DMI_OP_BUSY else resp) in
        ec_dmi_shift_reg (e5_client t) = scan_shift False c \<and> ecp5_tdo t = bit c 0) \<and>
     ecp5_frame t = ecp5_frame s"
  using assms by (simp add: dr_enter_def ecp5_step_defs ecp5_idle_def busy_word)

lemma scan_leave_er1:
  assumes "er1_shifting u" "t = ecp5_step idcode pending resp True b u"
  shows "\<exists>os v. host_clock ecp5_tdo (ecp5_step idcode pending resp) scan_leave t = (os, v) \<and>
     ecp5_idle ECP5_JTAGG_IR_ER1 v \<and>
     ecp5_requests v = (ec_dmi_shift_reg (e5_client t), \<not> ec_request_toggle (e5_client t),
       ec_hardreset_toggle (e5_client t))"
  using assms by (simp add: scan_leave_def ecp5_step_defs ecp5_idle_def)

lemma dr_enter_er2:
  assumes "ecp5_idle ECP5_JTAGG_IR_ER2 s"
  shows "\<exists>os t. host_clock ecp5_tdo (ecp5_step idcode pending resp) dr_enter s = (os, t) \<and>
     er2_shifting t \<and> ec_dtmcs_shift_reg (e5_client t) = scan_shift False (dtmcs_value pending) \<and>
     ecp5_tdo t = bit (dtmcs_value pending) 0 \<and> ecp5_frame t = ecp5_frame s"
  using assms by (simp add: dr_enter_def ecp5_step_defs ecp5_idle_def dtmcs_value_def)

lemma scan_leave_er2:
  assumes "er2_shifting u" "t = ecp5_step idcode pending resp True b u"
  shows "\<exists>os v. host_clock ecp5_tdo (ecp5_step idcode pending resp) scan_leave t = (os, v) \<and>
     ecp5_idle ECP5_JTAGG_IR_ER2 v \<and>
     ecp5_requests v = (ec_request_payload (e5_client t), ec_request_toggle (e5_client t),
       ec_hardreset_toggle (e5_client t) \<noteq> bit (ec_dtmcs_shift_reg (e5_client t)) 17)"
  using assms by (auto simp: scan_leave_def ecp5_step_defs ecp5_idle_def)

lemma ir_enter_ecp5:
  assumes "ecp5_idle ins s"
  shows "\<exists>os t. host_clock ecp5_tdo (ecp5_step idcode pending resp) ir_enter s = (os, t) \<and>
     (et_tap_state (e5_tap t) = shift_ir \<and> \<not> ec_jshift_d (e5_client t)) \<and>
     ecp5_tdo t = bit (et_ir_shift (e5_tap t)) 0 \<and> et_ir_shift (e5_tap t) = 1 \<and>
     (ecp5_frame t, er1_selection t) = (ecp5_frame s, er1_selection s)"
  using assms by (simp add: ir_enter_def ecp5_step_defs ecp5_idle_def)

lemma scan_leave_ir_ecp5:
  assumes "et_tap_state (e5_tap u) = shift_ir \<and> \<not> ec_jshift_d (e5_client u)"
    "t = ecp5_step idcode pending resp True b u"
  shows "\<exists>os v. host_clock ecp5_tdo (ecp5_step idcode pending resp) scan_leave t = (os, v) \<and>
     ecp5_idle (et_ir_shift (e5_tap t)) v \<and> ecp5_requests v = ecp5_requests t \<and>
     (et_ir_shift (e5_tap t) \<noteq> ECP5_JTAGG_IR_ER1 \<and> et_ir_shift (e5_tap t) \<noteq> ECP5_JTAGG_IR_ER2 \<longrightarrow>
        er1_selection v = er1_selection t)"
  using assms by (auto simp: scan_leave_def ecp5_step_defs ecp5_idle_def)

text \<open>The three scans of a host, each from idle to idle.\<close>

definition scan_ir8 :: "ecp5_ir \<Rightarrow> (bool \<times> bool) list" where
  "scan_ir8 w = ir_enter @ scan_word_in w @ scan_leave"

lemma ecp5_dmi_exchange:
  assumes s: "ecp5_idle ECP5_JTAGG_IR_ER1 s"
  shows "\<exists>os t. host_clock ecp5_tdo (ecp5_step idcode pending resp) (scan_dr w) s = (os, t) \<and>
     scanned 3 41 os = word_bits (if pending then dmi_pack 0 0 DMI_OP_BUSY else resp) \<and>
     ecp5_requests t = (w, \<not> ec_request_toggle (e5_client s), ec_hardreset_toggle (e5_client s)) \<and>
     ecp5_idle ECP5_JTAGG_IR_ER1 t"
proof -
  let ?h = "host_clock ecp5_tdo (ecp5_step idcode pending resp)"
  let ?c = "if pending then dmi_pack 0 0 DMI_OP_BUSY else resp"
  obtain os1 s1 where p1: "?h dr_enter s = (os1, s1)" "er1_shifting s1"
    "ec_dmi_shift_reg (e5_client s1) = scan_shift False ?c" "ecp5_tdo s1 = bit ?c 0"
    "ecp5_frame s1 = ecp5_frame s"
    using dr_enter_er1[OF s] unfolding Let_def by blast
  obtain s2 u where p2: "?h (scan_word_in w) s1 = (word_bits ?c, s2)"
    "ec_dmi_shift_reg (e5_client s2) = w" "ecp5_frame s2 = ecp5_frame s1"
    "s2 = ecp5_step idcode pending resp True (last (word_bits w)) u" "er1_shifting u"
    using er1_path.delayed_scan_word[OF p1(2-4), of idcode pending resp w] by blast
  obtain os3 s3 where p3: "?h scan_leave s2 = (os3, s3)" "ecp5_idle ECP5_JTAGG_IR_ER1 s3"
    "ecp5_requests s3 = (ec_dmi_shift_reg (e5_client s2), \<not> ec_request_toggle (e5_client s2),
       ec_hardreset_toggle (e5_client s2))"
    using scan_leave_er1[OF p2(5,4)] by blast
  note ph = scan_phases[OF p1(1) p2(1) p3(1)]
  have "scanned 3 41 (os1 @ word_bits ?c @ os3) = word_bits ?c"
    using ph(2)[of 3] by (simp add: dr_enter_def)
  then show ?thesis
    using ph(1) p1(5) p2(2,3) p3(2,3) by (auto simp: scan_dr_def ecp5_frame_def ecp5_requests_def)
qed

lemma dtmcs_value_word: "dtmcs_value pending = (if pending then 0x1c71 else 0x1071)"
  by (cases pending; simp; code_simp)

lemma ecp5_dtmcs_exchange:
  assumes s: "ecp5_idle ECP5_JTAGG_IR_ER2 s"
  shows "\<exists>os t. host_clock ecp5_tdo (ecp5_step idcode pending resp) (scan_dr w) s = (os, t) \<and>
     scanned 3 32 os = word_bits (dtmcs_value pending) \<and>
     ecp5_requests t = (ec_request_payload (e5_client s), ec_request_toggle (e5_client s),
       ec_hardreset_toggle (e5_client s) \<noteq> bit (w :: xword) 17) \<and>
     ecp5_idle ECP5_JTAGG_IR_ER2 t"
proof -
  let ?h = "host_clock ecp5_tdo (ecp5_step idcode pending resp)"
  obtain os1 s1 where p1: "?h dr_enter s = (os1, s1)" "er2_shifting s1"
    "ec_dtmcs_shift_reg (e5_client s1) = scan_shift False (dtmcs_value pending)"
    "ecp5_tdo s1 = bit (dtmcs_value pending) 0" "ecp5_frame s1 = ecp5_frame s"
    using dr_enter_er2[OF s] by blast
  obtain s2 u where p2: "?h (scan_word_in w) s1 = (word_bits (dtmcs_value pending), s2)"
    "ec_dtmcs_shift_reg (e5_client s2) = w" "ecp5_frame s2 = ecp5_frame s1"
    "s2 = ecp5_step idcode pending resp True (last (word_bits w)) u" "er2_shifting u"
    using er2_path.delayed_scan_word[OF p1(2-4), of idcode pending resp w] by blast
  obtain os3 s3 where p3: "?h scan_leave s2 = (os3, s3)" "ecp5_idle ECP5_JTAGG_IR_ER2 s3"
    "ecp5_requests s3 = (ec_request_payload (e5_client s2), ec_request_toggle (e5_client s2),
       ec_hardreset_toggle (e5_client s2) \<noteq> bit (ec_dtmcs_shift_reg (e5_client s2)) 17)"
    using scan_leave_er2[OF p2(5,4)] by blast
  note ph = scan_phases[OF p1(1) p2(1) p3(1)]
  have "scanned 3 32 (os1 @ word_bits (dtmcs_value pending) @ os3) =
      word_bits (dtmcs_value pending)"
    using ph(2)[of 3] by (simp add: dr_enter_def)
  then show ?thesis
    using ph(1) p1(5) p2(2,3) p3(2,3) by (auto simp: scan_dr_def ecp5_frame_def ecp5_requests_def)
qed

lemma ecp5_ir_exchange:
  assumes s: "ecp5_idle ins s"
  shows "\<exists>os t. host_clock ecp5_tdo (ecp5_step idcode pending resp) (scan_ir8 w) s = (os, t) \<and>
     ecp5_requests t = ecp5_requests s \<and> ecp5_idle w t \<and>
     (w \<noteq> ECP5_JTAGG_IR_ER1 \<and> w \<noteq> ECP5_JTAGG_IR_ER2 \<longrightarrow> er1_selection t = er1_selection s)"
proof -
  let ?h = "host_clock ecp5_tdo (ecp5_step idcode pending resp)"
  obtain os1 s1 where p1: "?h ir_enter s = (os1, s1)"
    "et_tap_state (e5_tap s1) = shift_ir \<and> \<not> ec_jshift_d (e5_client s1)"
    "ecp5_tdo s1 = bit (et_ir_shift (e5_tap s1)) 0"
    "(ecp5_frame s1, er1_selection s1) = (ecp5_frame s, er1_selection s)"
    using ir_enter_ecp5[OF s] by blast
  obtain s2 u where p2: "?h (scan_word_in w) s1 = (word_bits (et_ir_shift (e5_tap s1)), s2)"
    "et_ir_shift (e5_tap s2) = w"
    "(ecp5_frame s2, er1_selection s2) = (ecp5_frame s1, er1_selection s1)"
    "s2 = ecp5_step idcode pending resp True (last (word_bits w)) u"
    "et_tap_state (e5_tap u) = shift_ir \<and> \<not> ec_jshift_d (e5_client u)"
    using ecp5_ir_path.scan_word[OF p1(2,3), of idcode pending resp w]
    unfolding scan_word_in_def by blast
  obtain os3 s3 where p3: "?h scan_leave s2 = (os3, s3)"
    "ecp5_idle (et_ir_shift (e5_tap s2)) s3" "ecp5_requests s3 = ecp5_requests s2"
    "et_ir_shift (e5_tap s2) \<noteq> ECP5_JTAGG_IR_ER1 \<and> et_ir_shift (e5_tap s2) \<noteq> ECP5_JTAGG_IR_ER2 \<longrightarrow>
       er1_selection s3 = er1_selection s2"
    using scan_leave_ir_ecp5[OF p2(5,4)] by blast
  show ?thesis
    using scan_phases(1)[OF p1(1) p2(1) p3(1)] p1(4) p2(2,3) p3(2-4)
    by (auto simp: scan_ir8_def ecp5_frame_def)
qed

subsection \<open>The two transports, side by side\<close>

text \<open>What a host does between idle and idle: select the DMI or the DTMCS register, scan the
  selected one, or idle for a clock.\<close>

datatype host_op = Select_Dmi | Select_Dtmcs | Dmi_Scan dmi_word | Dtmcs_Scan xword | Host_Idle

text \<open>The TMS and TDI sequences of an operation; the transports differ in the instructions.\<close>

fun native_clocks :: "host_op \<Rightarrow> (bool \<times> bool) list" where
  "native_clocks Select_Dmi = scan_ir JTAG_INSTR_DMI"
| "native_clocks Select_Dtmcs = scan_ir JTAG_INSTR_DTMCS"
| "native_clocks (Dmi_Scan w) = scan_dr w"
| "native_clocks (Dtmcs_Scan w) = scan_dr w"
| "native_clocks Host_Idle = [(False, False)]"

fun ecp5_clocks :: "host_op \<Rightarrow> (bool \<times> bool) list" where
  "ecp5_clocks Select_Dmi = scan_ir8 ECP5_JTAGG_IR_ER1"
| "ecp5_clocks Select_Dtmcs = scan_ir8 ECP5_JTAGG_IR_ER2"
| "ecp5_clocks (Dmi_Scan w) = scan_dr w"
| "ecp5_clocks (Dtmcs_Scan w) = scan_dr w"
| "ecp5_clocks Host_Idle = [(False, False)]"

text \<open>The bits the host keeps of an operation.\<close>

fun host_reads :: "host_op \<Rightarrow> bool list \<Rightarrow> bool list" where
  "host_reads (Dmi_Scan w) os = scanned 3 41 os"
| "host_reads (Dtmcs_Scan w) os = scanned 3 32 os"
| "host_reads op os = []"

text \<open>A session. Each operation comes with what the crossing shows the transport meanwhile
  (request pending, response); the observation after each is what the host read and the request
  registers the crossing sees.\<close>

fun host_session ::
  "('s \<Rightarrow> bool) \<Rightarrow> (bool \<Rightarrow> dmi_word \<Rightarrow> bool \<Rightarrow> bool \<Rightarrow> 's \<Rightarrow> 's) \<Rightarrow> (host_op \<Rightarrow> (bool \<times> bool) list) \<Rightarrow>
   ('s \<Rightarrow> dmi_word \<times> bool \<times> bool) \<Rightarrow> (host_op \<times> bool \<times> dmi_word) list \<Rightarrow> 's \<Rightarrow>
   (bool list \<times> dmi_word \<times> bool \<times> bool) list" where
  "host_session tdo step clocks req [] s = []"
| "host_session tdo step clocks req ((op, p, r) # ops) s =
     (let (os, t) = host_clock tdo (step p r) (clocks op) s
      in (host_reads op os, req t) # host_session tdo step clocks req ops t)"

text \<open>A host scans only the register it has selected, the DMI register or the DTMCS register;
  before the first selection it scans none.\<close>

fun host_proper :: "bool option \<Rightarrow> host_op list \<Rightarrow> bool" where
  "host_proper sel [] = True"
| "host_proper sel (Select_Dmi # ops) = host_proper (Some True) ops"
| "host_proper sel (Select_Dtmcs # ops) = host_proper (Some False) ops"
| "host_proper sel (Dmi_Scan w # ops) = (sel = Some True \<and> host_proper sel ops)"
| "host_proper sel (Dtmcs_Scan w # ops) = (sel = Some False \<and> host_proper sel ops)"
| "host_proper sel (Host_Idle # ops) = host_proper sel ops"

definition jtag_requests :: "jtag_state \<Rightarrow> dmi_word \<times> bool \<times> bool" where
  "jtag_requests s = (jt_request_payload s, jt_request_toggle s, jt_hardreset_toggle s)"

definition transports_match :: "bool option \<Rightarrow> jtag_state \<Rightarrow> ecp5_state \<Rightarrow> bool" where
  "transports_match sel s e \<longleftrightarrow> jt_tap s = run_test_idle \<and> ecp5_requests e = jtag_requests s \<and>
     (\<exists>ins. ecp5_idle ins e) \<and>
     (\<forall>dmi. sel = Some dmi \<longrightarrow>
        jt_instruction s = (if dmi then JTAG_INSTR_DMI else JTAG_INSTR_DTMCS) \<and>
        ecp5_idle (if dmi then ECP5_JTAGG_IR_ER1 else ECP5_JTAGG_IR_ER2) e)"

fun host_selects :: "bool option \<Rightarrow> host_op \<Rightarrow> bool option" where
  "host_selects sel Select_Dmi = Some True"
| "host_selects sel Select_Dtmcs = Some False"
| "host_selects sel op = sel"

lemma host_proper_Cons:
  "host_proper sel (op # ops) \<longleftrightarrow> host_proper sel [op] \<and> host_proper (host_selects sel op) ops"
  by (cases op) auto

lemma ecp5_idle_clock:
  "ecp5_idle ins e \<Longrightarrow> ecp5_idle ins (ecp5_step idcode pending resp False False e) \<and>
     ecp5_requests (ecp5_step idcode pending resp False False e) = ecp5_requests e"
  by (simp add: ecp5_step_defs ecp5_idle_def)

lemma transports_match_clock:
  "transports_match sel s e \<Longrightarrow>
   transports_match sel (jtag_step p r False False s) (ecp5_step idcode p r False False e)"
  unfolding transports_match_def
  using ecp5_idle_clock[of _ e idcode p r]
  by (auto simp: jtag_requests_def jtag_step_defs)

text \<open>One operation: the same bits, the same requests, and the match again.\<close>

lemma transports_match_op:
  assumes "transports_match sel s e" "host_proper sel [op]"
    and "host_clock jt_tdo_o (jtag_step p r) (native_clocks op) s = (os, s')"
    and "host_clock ecp5_tdo (ecp5_step idcode p r) (ecp5_clocks op) e = (os', e')"
  shows "host_reads op os' = host_reads op os \<and> transports_match (host_selects sel op) s' e'"
proof (cases op)
  case Select_Dmi
  then show ?thesis
    using assms jtag_ir_scan[of s p r JTAG_INSTR_DMI]
      ecp5_ir_exchange[of _ e idcode p r ECP5_JTAGG_IR_ER1]
    by (auto simp: transports_match_def jtag_requests_def)
next
  case Select_Dtmcs
  then show ?thesis
    using assms jtag_ir_scan[of s p r JTAG_INSTR_DTMCS]
      ecp5_ir_exchange[of _ e idcode p r ECP5_JTAGG_IR_ER2]
    by (auto simp: transports_match_def jtag_requests_def)
next
  case (Dmi_Scan w)
  then show ?thesis
    using assms jtag_dmi_exchange[of s p r w] ecp5_dmi_exchange[of e idcode p r w]
    by (auto simp: transports_match_def jtag_requests_def ecp5_requests_def)
next
  case (Dtmcs_Scan w)
  then show ?thesis
    using assms jtag_dtmcs_scan[of s p r w] ecp5_dtmcs_exchange[of e idcode p r w]
    by (auto simp: transports_match_def jtag_requests_def ecp5_requests_def dtmcs_value_word)
next
  case Host_Idle
  then show ?thesis
    using assms transports_match_clock[of sel s e p r idcode] by simp
qed

lemma transports_match_session:
  assumes "transports_match sel s e" "host_proper sel (map fst ops)"
  shows "host_session ecp5_tdo (ecp5_step idcode) ecp5_clocks ecp5_requests ops e =
     host_session jt_tdo_o jtag_step native_clocks jtag_requests ops s"
  using assms
proof (induction ops arbitrary: sel s e)
  case (Cons x ops)
  obtain op p r where x: "x = (op, p, r)" by (cases x) auto
  obtain os s' where s': "host_clock jt_tdo_o (jtag_step p r) (native_clocks op) s = (os, s')"
    by fastforce
  obtain os' e' where e':
    "host_clock ecp5_tdo (ecp5_step idcode p r) (ecp5_clocks op) e = (os', e')" by fastforce
  have ok: "host_proper sel [op]" "host_proper (host_selects sel op) (map fst ops)"
    using Cons.prems(2) host_proper_Cons[of sel op "map fst ops"] x by auto
  note m = transports_match_op[OF Cons.prems(1) ok(1) s' e']
  then have "ecp5_requests e' = jtag_requests s'" by (simp add: transports_match_def)
  then show ?case
    using Cons.IH[OF conjunct2[OF m] ok(2)] m x s' e' by simp
qed simp

text \<open>The first clock with \<open>TMS\<close> low takes both from reset to idle.\<close>

lemma transports_match_reset:
  "transports_match None (jtag_step p r False False jtag_init) (ecp5_step idcode p r False False ecp5_init)"
  by (simp add: transports_match_def ecp5_idle_def ecp5_requests_def jtag_requests_def jtag_init_def
      ecp5_init_def jtag_step_defs ecp5_step_defs)

text \<open>
  C20: The ECP5 transport is the native transport. From reset, for every session that selects
  registers, the DMI or the DTMCS register, scans the selected one and idles in between, the host reads
  the same bits from both transports, and after every operation both present the same request,
  request toggle and hard-reset toggle to the crossing. What the crossing answers is arbitrary, the same
  for both, and fixed during an operation. Selections of other registers are excluded: after the
  scan of another instruction the transports differ.
\<close>

theorem ecp5_transport_equivalent:
  assumes "host_proper None (map fst ops)"
  shows "host_session ecp5_tdo (ecp5_step idcode) ecp5_clocks ecp5_requests ((Host_Idle, p, r) # ops) ecp5_init =
     host_session jt_tdo_o jtag_step native_clocks jtag_requests ((Host_Idle, p, r) # ops) jtag_init"
proof -
  note m = transports_match_reset[of p r idcode]
  then have "ecp5_requests (ecp5_step idcode p r False False ecp5_init) =
      jtag_requests (jtag_step p r False False jtag_init)"
    by (simp add: transports_match_def)
  then show ?thesis
    using transports_match_session[OF m assms, of idcode] by simp
qed

lemma ecp5_transport_equivalent_witness:
  "let ops = [(Host_Idle, False, 0), (Select_Dmi, False, 0),
     (Dmi_Scan (dmi_pack 0x10 1 DMI_OP_WRITE), False, 0), (Host_Idle, True, 0),
     (Dmi_Scan 0, False, dmi_pack 0x10 0 DMI_OP_SUCCESS), (Select_Dtmcs, False, 0),
     (Dtmcs_Scan 0x20000, False, 0)]
   in host_session ecp5_tdo (ecp5_step ECP5_JTAG_IDCODE_DEFAULT) ecp5_clocks ecp5_requests ops ecp5_init =
      host_session jt_tdo_o jtag_step native_clocks jtag_requests ops jtag_init"
  unfolding Let_def by (rule ecp5_transport_equivalent) simp

subsection \<open>A register left selected\<close>

text \<open>The client only learns of a selection from the captures and the idle states of its own two
  registers. With another instruction it keeps the last one, and the shift and update strobes,
  which the port drives for every instruction, still act on it.\<close>

definition stale_shifting :: "ecp5_state \<Rightarrow> bool" where
  "stale_shifting s \<longleftrightarrow> et_tap_state (e5_tap s) = shift_dr \<and>
     et_instruction (e5_tap s) = ECP5_JTAG_INSTR_IDCODE \<and>
     ec_active_er1 (e5_client s) \<and> ec_jshift_d (e5_client s)"

interpretation stale_path: scan_path "ecp5_step idcode pending resp"
  "\<lambda>s. bit (ec_dmi_shift_reg (e5_client s)) 0" stale_shifting
  "\<lambda>s. ec_dmi_shift_reg (e5_client s)" ecp5_frame for idcode pending resp
  by unfold_locales (simp_all add: stale_shifting_def ecp5_step_defs)

interpretation stale_idcode_path: scan_path "ecp5_step idcode pending resp" ecp5_tdo
  stale_shifting "\<lambda>s. et_idcode_shift (e5_tap s)" ecp5_frame for idcode pending resp
  by unfold_locales (simp_all add: stale_shifting_def ecp5_step_defs)

lemma host_clock_state: "snd (host_clock tdo step xs s) = snd (host_clock tdo' step xs s)"
  by (induction tdo step xs s rule: host_clock.induct) (auto simp: Let_def split: prod.splits)

lemma dr_enter_stale:
  assumes "ecp5_idle ECP5_JTAG_INSTR_IDCODE s" "ec_active_er1 (e5_client s)"
  shows "\<exists>os t. host_clock ecp5_tdo (ecp5_step idcode pending resp) dr_enter s = (os, t) \<and>
     stale_shifting t \<and> et_idcode_shift (e5_tap t) = idcode \<and>
     ecp5_tdo t = bit (et_idcode_shift (e5_tap t)) 0 \<and>
     ec_dmi_shift_reg (e5_client t) = scan_shift False (ec_dmi_shift_reg (e5_client s)) \<and>
     ecp5_frame t = ecp5_frame s"
  using assms by (simp add: dr_enter_def ecp5_step_defs ecp5_idle_def stale_shifting_def)

lemma scan_leave_stale:
  assumes "stale_shifting u" "t = ecp5_step idcode pending resp True b u"
  shows "\<exists>os v. host_clock ecp5_tdo (ecp5_step idcode pending resp) scan_leave t = (os, v) \<and>
     ecp5_requests v = (ec_dmi_shift_reg (e5_client t), \<not> ec_request_toggle (e5_client t),
       ec_hardreset_toggle (e5_client t))"
  using assms by (simp add: scan_leave_def ecp5_step_defs stale_shifting_def)

lemma stale_shift_word:
  assumes "stale_shifting s"
  shows "ec_dmi_shift_reg (e5_client (snd (host_clock ecp5_tdo (ecp5_step idcode pending resp)
       (scan_word_in (w :: xword)) s))) = scan_run (word_bits w) (ec_dmi_shift_reg (e5_client s))"
proof -
  let ?st = "ecp5_step idcode pending resp" and ?bs = "butlast (word_bits w)"
  let ?reg = "\<lambda>s. ec_dmi_shift_reg (e5_client s)"
  obtain u where u: "host_clock (\<lambda>s. bit (?reg s) 0) ?st (map (Pair False) ?bs) s =
      (scan_out ?bs (?reg s), u)" "stale_shifting u" "?reg u = scan_run ?bs (?reg s)"
    using stale_path.scan_bits[OF assms refl, of idcode pending resp ?bs] by blast
  have "word_bits w \<noteq> []" by (metis length_word_bits len_gt_0 length_greater_0_conv)
  then have "scan_run (word_bits w) (?reg s) = scan_run (?bs @ [last (word_bits w)]) (?reg s)"
    by simp
  also have "\<dots> = scan_shift (last (word_bits w)) (?reg u)"
    by (simp only: u(3) clocked_run_append clocked_run.simps)
  also have "\<dots> = ?reg (?st True (last (word_bits w)) u)"
    by (rule stale_path.shift[OF u(2), symmetric])
  also have "?st True (last (word_bits w)) u =
      snd (host_clock (\<lambda>s. bit (?reg s) 0) ?st (scan_word_in w) s)"
    using u(1) by (simp add: scan_word_in_def host_clock_append)
  also have "\<dots> = snd (host_clock ecp5_tdo ?st (scan_word_in w) s)" by (rule host_clock_state)
  finally show ?thesis by simp
qed

text \<open>
  C35: A register left selected takes the scans of another. After the DMI register has been
  selected and used, selecting the identification register and reading it gives the host the
  right identification code, but the client has shifted the same bits into the DMI register, and
  the update hands the crossing a request the host never made: its operation is what the previous
  DMI word had in its bits 33 and 34, its address the top bits of the word the host shifted.
\<close>

theorem ecp5_stale_select:
  assumes s: "ecp5_idle ECP5_JTAGG_IR_ER1 s" "ec_active_er1 (e5_client s)"
  shows "\<exists>os t os' u. host_clock ecp5_tdo (ecp5_step idcode pending resp)
       (scan_ir8 ECP5_JTAG_INSTR_IDCODE) s = (os, t) \<and>
     host_clock ecp5_tdo (ecp5_step idcode pending resp) (scan_dr (w :: xword)) t = (os', u) \<and>
     scanned 3 32 os' = word_bits idcode \<and>
     ec_request_toggle (e5_client u) = (\<not> ec_request_toggle (e5_client s)) \<and>
     dmi_op_of (ec_request_payload (e5_client u)) =
       bv_slice 35 33 (ec_dmi_shift_reg (e5_client s)) \<and>
     dmi_adr_of (ec_request_payload (e5_client u)) = bv_slice 32 25 w"
proof -
  let ?h = "host_clock ecp5_tdo (ecp5_step idcode pending resp)"
  obtain os t where t: "?h (scan_ir8 ECP5_JTAG_INSTR_IDCODE) s = (os, t)"
    "ecp5_requests t = ecp5_requests s" "ecp5_idle ECP5_JTAG_INSTR_IDCODE t"
    "er1_selection t = er1_selection s"
    using ecp5_ir_exchange[OF s(1), of idcode pending resp ECP5_JTAG_INSTR_IDCODE] by auto
  have sel: "ec_active_er1 (e5_client t)"
    "ec_dmi_shift_reg (e5_client t) = ec_dmi_shift_reg (e5_client s)"
    using t(4) s(2) by (simp_all add: er1_selection_def)
  obtain os1 s1 where p1: "?h dr_enter t = (os1, s1)" "stale_shifting s1"
    "et_idcode_shift (e5_tap s1) = idcode" "ecp5_tdo s1 = bit (et_idcode_shift (e5_tap s1)) 0"
    "ec_dmi_shift_reg (e5_client s1) = scan_shift False (ec_dmi_shift_reg (e5_client t))"
    "ecp5_frame s1 = ecp5_frame t"
    using dr_enter_stale[OF t(3) sel(1), of idcode pending resp] by blast
  obtain s2 v where p2: "?h (scan_word_in w) s1 = (word_bits idcode, s2)"
    "ecp5_frame s2 = ecp5_frame s1" "stale_shifting v"
    "s2 = ecp5_step idcode pending resp True (last (word_bits w)) v"
    using stale_idcode_path.scan_word[OF p1(2,4), of idcode pending resp w] p1(3)
    unfolding scan_word_in_def by auto
  obtain os3 u where p3: "?h scan_leave s2 = (os3, u)"
    "ecp5_requests u = (ec_dmi_shift_reg (e5_client s2), \<not> ec_request_toggle (e5_client s2),
       ec_hardreset_toggle (e5_client s2))"
    using scan_leave_stale[OF p2(3,4)] by blast
  note ph = scan_phases[OF p1(1) p2(1) p3(1)]
  have payload: "ec_request_payload (e5_client u) =
      scan_run (word_bits w) (scan_shift False (ec_dmi_shift_reg (e5_client s)))"
    using stale_shift_word[OF p1(2), of idcode pending resp w] p1(5) p2(1) p3(2)
    by (simp add: ecp5_requests_def sel)
  have "dmi_op_of (ec_request_payload (e5_client u)) =
      bv_slice 35 33 (ec_dmi_shift_reg (e5_client s))"
    "dmi_adr_of (ec_request_payload (e5_client u)) = bv_slice 32 25 w"
    by (rule bv_eqI; auto simp: payload dmi_op_of_def dmi_adr_of_def bv_simps bit_scan_run
        word_bits_def)+
  moreover have "scanned 3 32 (os1 @ word_bits idcode @ os3) = word_bits idcode"
    using ph(2)[of 3] by (simp add: dr_enter_def)
  ultimately show ?thesis
    using t(1,2) ph(1) p1(6) p2(2) p3(2)
    by (auto simp: scan_dr_def ecp5_frame_def ecp5_requests_def)
qed

lemma ecp5_stale_select_witness:
  "let v = dmi_pack 0x17 0x321008 DMI_OP_WRITE;
       s = ecp5_init\<lparr>e5_tap := (e5_tap ecp5_init)\<lparr>et_tap_state := run_test_idle,
             et_instruction := ECP5_JTAGG_IR_ER1\<rparr>,
           e5_client := (e5_client ecp5_init)\<lparr>ec_dmi_shift_reg := v, ec_active_er1 := True\<rparr>\<rparr>;
       h = host_clock ecp5_tdo (ecp5_step ECP5_JTAG_IDCODE_DEFAULT False 0);
       t = snd (h (scan_ir8 ECP5_JTAG_INSTR_IDCODE) s);
       u = snd (h (scan_dr (0x2e000000 :: xword)) t)
   in dmi_op_of (ec_request_payload (e5_client u)) = DMI_OP_WRITE \<and>
      dmi_adr_of (ec_request_payload (e5_client u)) = 0x17"
proof -
  define v where "v = dmi_pack 0x17 0x321008 DMI_OP_WRITE"
  define s where "s = ecp5_init\<lparr>e5_tap := (e5_tap ecp5_init)\<lparr>et_tap_state := run_test_idle,
        et_instruction := ECP5_JTAGG_IR_ER1\<rparr>,
      e5_client := (e5_client ecp5_init)\<lparr>ec_dmi_shift_reg := v, ec_active_er1 := True\<rparr>\<rparr>"
  have "ecp5_idle ECP5_JTAGG_IR_ER1 s" "ec_active_er1 (e5_client s)"
    "ec_dmi_shift_reg (e5_client s) = v"
    by (simp_all add: ecp5_idle_def ecp5_init_def s_def)
  note this(3) ecp5_stale_select[OF this(1,2), of ECP5_JTAG_IDCODE_DEFAULT False 0 "0x2e000000"]
  moreover have "bv_slice 35 33 v = DMI_OP_WRITE" unfolding v_def by code_simp
  moreover have "bv_slice 32 25 (0x2e000000 :: xword) = (0x17 :: 7 word)" by code_simp
  ultimately show ?thesis unfolding v_def[symmetric] s_def[symmetric] Let_def by auto
qed

end
