(* ===== verification/Dmi.thy ===== *)
theory Dmi
  imports Dtm_Transport Debug_Csrs
begin

text \<open>
  The debug module's register interface (\<open>rtl/debug/dmi.py\<close>, the registers of
  \<open>rtl/debug/dm_registers.py\<close>): reads and writes of the RISC-V debug registers, the start of
  abstract commands and the automatic restarts, the busy and error accounting, and the module
  reset by \<open>dmactive\<close>. \<open>dmi_seq\<close> is its one clocked process. The lemmas give the value of
  every register read, when exactly a command starts, that nothing a running command uses can
  be changed under it, and that errors are sticky.

  \<open>numdata\<close> data registers and one or two program buffer words are configured. The lemmas
  assume at most 12 data registers, the number of addresses there are for them below
  \<open>dmcontrol\<close>; the sources accept 16.
\<close>

datatype hart_state = Hart_Running | Hart_Halted
datatype command_type = Access_Reg | Quick_Access
datatype command_state = Ac_None | Ac_Regvalid | Ac_Taken | Ac_Failed | Ac_Exec | Ac_Exec2
  | Ac_Wait_Retire

abbreviation (input) DMI_ADDR_DATA0 :: dmi_adr where "DMI_ADDR_DATA0 \<equiv> 0x04"
abbreviation (input) DMI_ADDR_DMCONTROL :: dmi_adr where "DMI_ADDR_DMCONTROL \<equiv> 0x10"
abbreviation (input) DMI_ADDR_DMSTATUS :: dmi_adr where "DMI_ADDR_DMSTATUS \<equiv> 0x11"
abbreviation (input) DMI_ADDR_HARTINFO :: dmi_adr where "DMI_ADDR_HARTINFO \<equiv> 0x12"
abbreviation (input) DMI_ADDR_ABSTRACTCS :: dmi_adr where "DMI_ADDR_ABSTRACTCS \<equiv> 0x16"
abbreviation (input) DMI_ADDR_COMMAND :: dmi_adr where "DMI_ADDR_COMMAND \<equiv> 0x17"
abbreviation (input) DMI_ADDR_ABSTRACTAUTO :: dmi_adr where "DMI_ADDR_ABSTRACTAUTO \<equiv> 0x18"
abbreviation (input) DMI_ADDR_PROGBUF0 :: dmi_adr where "DMI_ADDR_PROGBUF0 \<equiv> 0x20"
abbreviation (input) DMI_ADDR_PROGBUF1 :: dmi_adr where "DMI_ADDR_PROGBUF1 \<equiv> 0x21"

abbreviation (input) CMDERR_NONE :: "3 word" where "CMDERR_NONE \<equiv> 0"
abbreviation (input) CMDERR_BUSY :: "3 word" where "CMDERR_BUSY \<equiv> 1"
abbreviation (input) CMDERR_NOT_SUPPORTED :: "3 word" where "CMDERR_NOT_SUPPORTED \<equiv> 2"
abbreviation (input) CMDERR_EXCEPTION :: "3 word" where "CMDERR_EXCEPTION \<equiv> 3"
abbreviation (input) CMDERR_HART_RUNNING :: "3 word" where "CMDERR_HART_RUNNING \<equiv> 4"

subsection \<open>Signals and registers\<close>

text \<open>What the debug core drives, and the interface signals of the transport.\<close>

record dmi_in =
  di_en :: bool
  di_we :: bool
  di_adr :: dmi_adr
  di_dbi :: xword
  di_hart_reset :: bool
  di_hart_state :: hart_state
  di_req_ack :: bool
  di_command_state :: command_state
  di_command_result :: xword

record dm_state =
  dm_dbo :: xword
  dm_ndmreset_o :: bool
  dm_dmactive :: bool
  dm_havereset :: bool
  dm_abstract_busy_error :: bool
  dm_haltreq :: bool
  dm_resumereq :: bool
  dm_ndmreset :: bool
  dm_abstract_command_new :: bool
  dm_command_type :: command_type
  dm_aarsize :: "3 word"
  dm_aarpostincrement :: bool
  dm_postexec :: bool
  dm_transfer :: bool
  dm_write :: bool
  dm_regno :: regno
  dm_cmderr :: "3 word"
  dm_data_regs :: "xword list"
  dm_progbuf0 :: xword
  dm_progbuf1 :: xword
  dm_auto_data :: "16 word"
  dm_auto_progbuf :: "2 word"
  dm_resumeack :: bool

definition dm_init :: "bonfire_config \<Rightarrow> dm_state" where
  "dm_init c = \<lparr>dm_dbo = 0, dm_ndmreset_o = False, dm_dmactive = False, dm_havereset = False,
     dm_abstract_busy_error = False, dm_haltreq = False, dm_resumereq = False,
     dm_ndmreset = False, dm_abstract_command_new = False, dm_command_type = Access_Reg,
     dm_aarsize = 0, dm_aarpostincrement = False, dm_postexec = False, dm_transfer = False,
     dm_write = False, dm_regno = 0, dm_cmderr = 0, dm_data_regs = replicate (numdata c) 0,
     dm_progbuf0 = 0, dm_progbuf1 = 0, dm_auto_data = 0, dm_auto_progbuf = 0,
     dm_resumeack = False\<rparr>"

definition dm_config_ok :: "bonfire_config \<Rightarrow> bool" where
  "dm_config_ok c \<longleftrightarrow> progbuf_size c \<in> {1, 2} \<and> 1 \<le> numdata c \<and> numdata c \<le> 12 \<and>
     dmi_adr_width c = 7"

subsection \<open>Combinational decode\<close>

definition dm_command_busy :: "dmi_in \<Rightarrow> dm_state \<Rightarrow> bool" where
  "dm_command_busy i s \<longleftrightarrow> dm_abstract_command_new s \<or> di_command_state i \<noteq> Ac_None"

definition dm_command_start_error :: "dmi_in \<Rightarrow> dm_state \<Rightarrow> 3 word" where
  "dm_command_start_error i s =
     (if dm_command_busy i s then CMDERR_BUSY
      else if di_hart_state i = Hart_Running then CMDERR_HART_RUNNING
      else CMDERR_NONE)"

definition dm_is_data_reg :: "bonfire_config \<Rightarrow> dmi_in \<Rightarrow> bool" where
  "dm_is_data_reg c i \<longleftrightarrow>
     4 \<le> unat (di_adr i) \<and> unat (di_adr i) \<le> 4 + numdata c - 1"

definition dm_data_index :: "dmi_in \<Rightarrow> nat" where
  "dm_data_index i = unat (di_adr i) - 4"

subsection \<open>The clocked process\<close>

text \<open>The module reset while \<open>dmactive\<close> is low.\<close>

definition dm_inactive :: "dmi_in \<Rightarrow> dm_state \<Rightarrow> dm_state" where
  "dm_inactive i n =
     (let n1 = n\<lparr>dm_ndmreset_o := False, dm_haltreq := False, dm_resumereq := False,
                dm_ndmreset := False, dm_abstract_command_new := False,
                dm_cmderr := CMDERR_NONE, dm_abstract_busy_error := False, dm_auto_data := 0,
                dm_auto_progbuf := 0, dm_command_type := Access_Reg, dm_aarsize := 0,
                dm_aarpostincrement := False, dm_postexec := False, dm_transfer := False,
                dm_write := False, dm_regno := 0, dm_resumeack := False,
                dm_havereset := False\<rparr> in
      if di_en i \<and> di_we i \<and> di_adr i = DMI_ADDR_DMCONTROL \<and> bit (di_dbi i) 0
      then n1\<lparr>dm_dmactive := True\<rparr> else n1)"

text \<open>The request handshake and the life cycle of an abstract command.\<close>

definition dm_lifecycle :: "dmi_in \<Rightarrow> dm_state \<Rightarrow> dm_state \<Rightarrow> dm_state" where
  "dm_lifecycle i s n =
     (let n1 = n\<lparr>dm_ndmreset_o := dm_ndmreset s\<rparr>;
          n2 = (if di_hart_reset i then n1\<lparr>dm_havereset := True\<rparr> else n1);
          n3 = (if di_req_ack i
                then (if dm_resumereq s then n2\<lparr>dm_resumeack := True\<rparr> else n2)\<lparr>dm_resumereq := False\<rparr>
                else n2) in
      if di_command_state i = Ac_Regvalid
      then n3\<lparr>dm_data_regs := (dm_data_regs s)[0 := di_command_result i]\<rparr>
      else if di_command_state i = Ac_Taken then n3\<lparr>dm_abstract_command_new := False\<rparr>
      else if di_command_state i = Ac_Failed then
        (if dm_cmderr s = CMDERR_NONE
         then (if dm_abstract_busy_error s then n3\<lparr>dm_cmderr := CMDERR_BUSY\<rparr>
               else n3\<lparr>dm_cmderr := CMDERR_EXCEPTION\<rparr>)
         else n3)\<lparr>dm_abstract_busy_error := False\<rparr>
      else if \<not> dm_command_busy i s \<and> dm_abstract_busy_error s then
        (if dm_cmderr s = CMDERR_NONE then n3\<lparr>dm_cmderr := CMDERR_BUSY\<rparr>
         else n3)\<lparr>dm_abstract_busy_error := False\<rparr>
      else n3)"

text \<open>An access that is refused because a command runs, and one that restarts the last command
  when \<open>auto\<close> is set; the same lines stand at each register of the sources.\<close>

definition dm_refuse_busy :: "dm_state \<Rightarrow> dm_state \<Rightarrow> dm_state" where
  "dm_refuse_busy s n =
     (if dm_cmderr s = CMDERR_NONE then n\<lparr>dm_abstract_busy_error := True\<rparr> else n)"

definition dm_autoexec :: "bool \<Rightarrow> dmi_in \<Rightarrow> dm_state \<Rightarrow> dm_state \<Rightarrow> dm_state" where
  "dm_autoexec auto i s n =
     (if auto \<and> dm_cmderr s = CMDERR_NONE then
        (if dm_command_start_error i s \<noteq> CMDERR_NONE
         then n\<lparr>dm_cmderr := dm_command_start_error i s\<rparr>
         else n\<lparr>dm_abstract_command_new := True\<rparr>)
      else n)"

definition dm_buffer_read :: "bool \<Rightarrow> xword \<Rightarrow> dmi_in \<Rightarrow> dm_state \<Rightarrow> dm_state \<Rightarrow> dm_state" where
  "dm_buffer_read auto v i s n =
     (let n1 = n\<lparr>dm_dbo := v\<rparr> in
      if dm_command_busy i s then dm_refuse_busy s n1 else dm_autoexec auto i s n1)"

subsection \<open>Reads\<close>

definition DEBUG_SPEC_VERSION :: "4 word" where
  "DEBUG_SPEC_VERSION = 3"

lemma bit_DEBUG_SPEC_VERSION: "bit DEBUG_SPEC_VERSION n \<longleftrightarrow> n < 2"
proof -
  have "DEBUG_SPEC_VERSION = mask 2" by (simp add: DEBUG_SPEC_VERSION_def mask_eq_exp_minus_1)
  then show ?thesis
    by (simp only: bit_mask_iff possible_bit_word \<open>DEBUG_SPEC_VERSION = mask 2\<close>) auto
qed

definition dm_dmstatus :: "dmi_in \<Rightarrow> dm_state \<Rightarrow> xword" where
  "dm_dmstatus i s =
     (let running = (di_hart_state i = Hart_Running); halted = (di_hart_state i = Hart_Halted) in
      bv_put_slice 4 0 DEBUG_SPEC_VERSION (bv_put 7 True
        (bv_put 8 halted (bv_put 9 halted (bv_put 10 running (bv_put 11 running
          (bv_put 16 (dm_resumeack s) (bv_put 17 (dm_resumeack s)
            (bv_put 18 (dm_havereset s) (bv_put 19 (dm_havereset s) (bv_put 22 True
              (bv_put 24 (dm_ndmreset s) 0))))))))))))"

definition dm_abstractcs :: "bonfire_config \<Rightarrow> dmi_in \<Rightarrow> dm_state \<Rightarrow> xword" where
  "dm_abstractcs c i s =
     bv_put_slice 4 0 (of_nat (numdata c) :: 4 word)
       (bv_put_slice 11 8 (dm_cmderr s)
         (bv_put 12 (dm_command_busy i s)
           (bv_put_slice 29 24 (of_nat (progbuf_size c) :: 5 word) 0)))"

definition dm_read :: "bonfire_config \<Rightarrow> dmi_in \<Rightarrow> dm_state \<Rightarrow> dm_state \<Rightarrow> dm_state" where
  "dm_read c i s n =
     (let a = di_adr i in
      if a = DMI_ADDR_DMSTATUS then n\<lparr>dm_dbo := dm_dmstatus i s\<rparr>
      else if a = DMI_ADDR_DMCONTROL
      then n\<lparr>dm_dbo := bv_put 0 True (bv_put 1 (dm_ndmreset s) 0)\<rparr>
      else if a = DMI_ADDR_HARTINFO
      then n\<lparr>dm_dbo := bv_put_slice 16 12 (of_nat (numdata c) :: 4 word)
                          (bv_put_slice 24 20 (0 :: 4 word) 0)\<rparr>
      else if a = DMI_ADDR_ABSTRACTAUTO
      then n\<lparr>dm_dbo := bv_put_slice (numdata c) 0 (dm_auto_data s)
                          (bv_put_slice (16 + progbuf_size c) 16 (dm_auto_progbuf s) 0)\<rparr>
      else if a = DMI_ADDR_PROGBUF0
      then dm_buffer_read (bit (dm_auto_progbuf s) 0) (dm_progbuf0 s) i s n
      else if progbuf_size c = 2 \<and> a = DMI_ADDR_PROGBUF1
      then dm_buffer_read (bit (dm_auto_progbuf s) 1) (dm_progbuf1 s) i s n
      else if dm_is_data_reg c i
      then dm_buffer_read (bit (dm_auto_data s) (dm_data_index i))
             (dm_data_regs s ! dm_data_index i) i s n
      else if a = DMI_ADDR_ABSTRACTCS then n\<lparr>dm_dbo := dm_abstractcs c i s\<rparr>
      else n)"

subsection \<open>Writes\<close>

definition dm_write_dmcontrol :: "dmi_in \<Rightarrow> dm_state \<Rightarrow> dm_state \<Rightarrow> dm_state" where
  "dm_write_dmcontrol i s n =
     (let d = di_dbi i in
      if \<not> bit d 0 then n\<lparr>dm_dmactive := False\<rparr>
      else
        (let n1 = n\<lparr>dm_ndmreset := bit d 1\<rparr> in
         if dm_command_busy i s then n1
         else
           (let n2 = n1\<lparr>dm_haltreq := bit d 31\<rparr>;
                n3 = (if \<not> bit d 31 \<and> di_hart_state i = Hart_Halted \<and> bit d 30
                      then n2\<lparr>dm_resumereq := True, dm_resumeack := False\<rparr> else n2)
            in if bit d 28 then n3\<lparr>dm_havereset := False\<rparr> else n3)))"

definition dm_write_command :: "dmi_in \<Rightarrow> dm_state \<Rightarrow> dm_state \<Rightarrow> dm_state" where
  "dm_write_command i s n =
     (let d = di_dbi i in
      if dm_cmderr s \<noteq> CMDERR_NONE then n
      else if dm_command_busy i s then n\<lparr>dm_abstract_busy_error := True\<rparr>
      else if di_hart_state i = Hart_Running then n\<lparr>dm_cmderr := CMDERR_HART_RUNNING\<rparr>
      else if bv_slice 32 24 d = (0 :: 8 word) then
        (let n1 = n\<lparr>dm_command_type := Access_Reg, dm_aarsize := bv_slice 23 20 d,
                   dm_aarpostincrement := bit d 19, dm_postexec := bit d 18,
                   dm_transfer := bit d 17, dm_write := bit d 16,
                   dm_regno := bv_slice 5 0 d\<rparr> in
         if bit d 19 then n1\<lparr>dm_cmderr := CMDERR_NOT_SUPPORTED\<rparr>
         else if \<not> bit d 17 \<or> bv_slice 23 20 d = (2 :: 3 word) \<and> bv_slice 16 5 d = (0x80 :: 11 word)
         then n1\<lparr>dm_abstract_command_new := True\<rparr>
         else n1\<lparr>dm_cmderr := CMDERR_NOT_SUPPORTED\<rparr>)
      else n\<lparr>dm_cmderr := CMDERR_NOT_SUPPORTED\<rparr>)"

definition dm_write_reg :: "bonfire_config \<Rightarrow> dmi_in \<Rightarrow> dm_state \<Rightarrow> dm_state \<Rightarrow> dm_state" where
  "dm_write_reg c i s n =
     (let a = di_adr i; d = di_dbi i; busy = dm_command_busy i s in
      if a = DMI_ADDR_DMCONTROL then dm_write_dmcontrol i s n
      else if dm_is_data_reg c i then
        (if busy then dm_refuse_busy s n
         else dm_autoexec (bit (dm_auto_data s) (dm_data_index i)) i s
                (n\<lparr>dm_data_regs := (dm_data_regs n)[dm_data_index i := d]\<rparr>))
      else if a = DMI_ADDR_ABSTRACTCS then
        (if busy then dm_refuse_busy s n
         else n\<lparr>dm_cmderr := dm_cmderr s AND NOT (bv_slice 11 8 d)\<rparr>)
      else if a = DMI_ADDR_ABSTRACTAUTO then
        (if busy then dm_refuse_busy s n
         else n\<lparr>dm_auto_data := bv_slice (numdata c) 0 d,
                dm_auto_progbuf := bv_slice (16 + progbuf_size c) 16 d\<rparr>)
      else if a = DMI_ADDR_COMMAND then dm_write_command i s n
      else if a = DMI_ADDR_PROGBUF0 then
        (if busy then dm_refuse_busy s n
         else dm_autoexec (bit (dm_auto_progbuf s) 0) i s (n\<lparr>dm_progbuf0 := d\<rparr>))
      else if progbuf_size c = 2 \<and> a = DMI_ADDR_PROGBUF1 then
        (if busy then dm_refuse_busy s n
         else dm_autoexec (bit (dm_auto_progbuf s) 1) i s (n\<lparr>dm_progbuf1 := d\<rparr>))
      else n)"

definition dmi_seq :: "bonfire_config \<Rightarrow> dmi_in \<Rightarrow> dm_state \<Rightarrow> dm_state" where
  "dmi_seq c i s =
     (let n = s\<lparr>dm_dbo := 0\<rparr> in
      if \<not> dm_dmactive s then dm_inactive i n
      else
        (let n1 = dm_lifecycle i s n in
         if di_en i then (if \<not> di_we i then dm_read c i s n1 else dm_write_reg c i s n1)
         else n1))"

subsection \<open>Single fields of the process\<close>

lemma dm_lifecycle_fields [simp]:
  "dm_abstract_command_new (dm_lifecycle i s n) =
     (di_command_state i \<noteq> Ac_Taken \<and> dm_abstract_command_new n)"
  "dm_dbo (dm_lifecycle i s n) = dm_dbo n"
  "dm_progbuf0 (dm_lifecycle i s n) = dm_progbuf0 n"
  "dm_progbuf1 (dm_lifecycle i s n) = dm_progbuf1 n"
  "dm_auto_data (dm_lifecycle i s n) = dm_auto_data n"
  "dm_auto_progbuf (dm_lifecycle i s n) = dm_auto_progbuf n"
  "dm_command_type (dm_lifecycle i s n) = dm_command_type n"
  "dm_aarsize (dm_lifecycle i s n) = dm_aarsize n"
  "dm_postexec (dm_lifecycle i s n) = dm_postexec n"
  "dm_transfer (dm_lifecycle i s n) = dm_transfer n"
  "dm_write (dm_lifecycle i s n) = dm_write n"
  "dm_regno (dm_lifecycle i s n) = dm_regno n"
  "dm_haltreq (dm_lifecycle i s n) = dm_haltreq n"
  "dm_dmactive (dm_lifecycle i s n) = dm_dmactive n"
  "dm_data_regs (dm_lifecycle i s n) =
     (if di_command_state i = Ac_Regvalid then (dm_data_regs s)[0 := di_command_result i]
      else dm_data_regs n)"
  "dm_cmderr (dm_lifecycle i s n) =
     (if dm_cmderr s \<noteq> CMDERR_NONE then dm_cmderr n
      else if di_command_state i = Ac_Failed
      then (if dm_abstract_busy_error s then CMDERR_BUSY else CMDERR_EXCEPTION)
      else if \<not> dm_command_busy i s \<and> dm_abstract_busy_error s then CMDERR_BUSY
      else dm_cmderr n)"
  by (simp_all add: dm_lifecycle_def Let_def dm_command_busy_def)

text \<open>Whether an access restarts the last command, and what a \<open>command\<close> write must be to start
  one: no address increment, and a transfer only of a 32-bit general register.\<close>

definition dm_auto_trigger :: "bonfire_config \<Rightarrow> dmi_in \<Rightarrow> dm_state \<Rightarrow> bool" where
  "dm_auto_trigger c i s \<longleftrightarrow>
     (di_adr i = DMI_ADDR_PROGBUF0 \<and> bit (dm_auto_progbuf s) 0) \<or>
     (progbuf_size c = 2 \<and> di_adr i = DMI_ADDR_PROGBUF1 \<and> bit (dm_auto_progbuf s) 1) \<or>
     (dm_is_data_reg c i \<and> bit (dm_auto_data s) (dm_data_index i))"

definition dm_command_legal :: "xword \<Rightarrow> bool" where
  "dm_command_legal d \<longleftrightarrow> bv_slice 32 24 d = (0 :: 8 word) \<and> \<not> bit d 19 \<and>
     (bit d 17 \<longrightarrow> bv_slice 23 20 d = (2 :: 3 word) \<and> bv_slice 16 5 d = (0x80 :: 11 word))"

lemma dm_data_reg_distinct:
  assumes "dm_config_ok c" "dm_is_data_reg c i"
  shows "di_adr i \<noteq> DMI_ADDR_DMCONTROL" "di_adr i \<noteq> DMI_ADDR_DMSTATUS"
    "di_adr i \<noteq> DMI_ADDR_HARTINFO" "di_adr i \<noteq> DMI_ADDR_ABSTRACTCS"
    "di_adr i \<noteq> DMI_ADDR_COMMAND" "di_adr i \<noteq> DMI_ADDR_ABSTRACTAUTO"
    "di_adr i \<noteq> DMI_ADDR_PROGBUF0" "di_adr i \<noteq> DMI_ADDR_PROGBUF1"
  using assms by (auto simp: dm_config_ok_def dm_is_data_reg_def)

lemma dm_data_index_less:
  "dm_config_ok c \<Longrightarrow> dm_is_data_reg c i \<Longrightarrow> dm_data_index i < numdata c"
  by (auto simp: dm_config_ok_def dm_is_data_reg_def dm_data_index_def)

lemma dm_autoexec_new:
  "dm_abstract_command_new (dm_autoexec auto i s n) =
     (dm_abstract_command_new n \<or>
      auto \<and> dm_cmderr s = CMDERR_NONE \<and> \<not> dm_command_busy i s \<and> di_hart_state i = Hart_Halted)"
  by (cases "di_hart_state i") (auto simp: dm_autoexec_def dm_command_start_error_def)

lemma dm_refuse_busy_new [simp]:
  "dm_abstract_command_new (dm_refuse_busy s n) = dm_abstract_command_new n"
  by (simp add: dm_refuse_busy_def)

text \<open>
  When an abstract command starts. In an active module with no command running, an edge
  raises the start of a command exactly when the host accesses the module with no error
  recorded and the hart halted, and the access is a write of a supported command word (an
  access-register command without address increment whose transfer, if any, is of a 32-bit
  general register) or an access of a register whose automatic restart is selected. While a
  command runs, none is started.
\<close>

theorem dmi_command_start:
  assumes c: "dm_config_ok c" and active: "dm_dmactive s"
  shows "(\<not> dm_command_busy i s \<longrightarrow>
      dm_abstract_command_new (dmi_seq c i s) =
        (di_en i \<and> dm_cmderr s = CMDERR_NONE \<and> di_hart_state i = Hart_Halted \<and>
         (di_we i \<and> di_adr i = DMI_ADDR_COMMAND \<and> dm_command_legal (di_dbi i) \<or>
          dm_auto_trigger c i s))) \<and>
    (dm_command_busy i s \<longrightarrow>
      dm_abstract_command_new (dmi_seq c i s) =
        (dm_abstract_command_new s \<and> di_command_state i \<noteq> Ac_Taken))"
proof -
  note distinct = dm_data_reg_distinct[OF c]
  let ?n = "dm_lifecycle i s (s\<lparr>dm_dbo := 0\<rparr>)"
  have rd: "dm_abstract_command_new (dm_read c i s n) =
      (dm_abstract_command_new n \<or> dm_auto_trigger c i s \<and> \<not> dm_command_busy i s \<and>
       dm_cmderr s = CMDERR_NONE \<and> di_hart_state i = Hart_Halted)" for n
    using distinct
    by (auto simp: dm_read_def dm_buffer_read_def dm_autoexec_new dm_auto_trigger_def Let_def)
  have cmd: "dm_abstract_command_new (dm_write_command i s n) =
      (dm_abstract_command_new n \<or> \<not> dm_command_busy i s \<and> dm_cmderr s = CMDERR_NONE \<and>
       di_hart_state i = Hart_Halted \<and> dm_command_legal (di_dbi i))" for n
    by (cases "di_hart_state i") (auto simp: dm_write_command_def dm_command_legal_def Let_def)
  have ctl: "dm_abstract_command_new (dm_write_dmcontrol i s n) = dm_abstract_command_new n" for n
    by (simp add: dm_write_dmcontrol_def Let_def)
  have wr: "dm_abstract_command_new (dm_write_reg c i s n) =
      (dm_abstract_command_new n \<or> \<not> dm_command_busy i s \<and> dm_cmderr s = CMDERR_NONE \<and>
       di_hart_state i = Hart_Halted \<and>
       (di_adr i = DMI_ADDR_COMMAND \<and> dm_command_legal (di_dbi i) \<or> dm_auto_trigger c i s))" for n
    using distinct
    by (auto simp: dm_write_reg_def dm_autoexec_new cmd ctl dm_auto_trigger_def Let_def)
  show ?thesis
    using active by (auto simp: dmi_seq_def rd wr Let_def) (simp_all add: dm_command_busy_def)
qed

lemma dmi_command_start_witness:
  "dm_abstract_command_new (dmi_seq default_config
     \<lparr>di_en = True, di_we = True, di_adr = 0x17, di_dbi = 0x221008, di_hart_reset = False,
      di_hart_state = Hart_Halted, di_req_ack = False, di_command_state = Ac_None,
      di_command_result = 0\<rparr>
     ((dm_init default_config)\<lparr>dm_dmactive := True\<rparr>))"
proof -
  have "dm_command_legal 0x221008" by code_simp
  then show ?thesis
    using dmi_command_start[where c = default_config and
        s = "(dm_init default_config)\<lparr>dm_dmactive := True\<rparr>" and
        i = "\<lparr>di_en = True, di_we = True, di_adr = 0x17, di_dbi = 0x221008,
          di_hart_reset = False, di_hart_state = Hart_Halted, di_req_ack = False,
          di_command_state = Ac_None, di_command_result = 0\<rparr>"]
    by (simp add: dm_config_ok_def dm_command_busy_def dm_init_def)
qed

subsection \<open>A running command cannot be disturbed\<close>

text \<open>What a command uses while it runs.\<close>

definition dm_command_regs ::
  "dm_state \<Rightarrow> command_type \<times> 3 word \<times> bool \<times> bool \<times> bool \<times> regno \<times> xword \<times> xword \<times>
     16 word \<times> 2 word" where
  "dm_command_regs s = (dm_command_type s, dm_aarsize s, dm_postexec s, dm_transfer s,
     dm_write s, dm_regno s, dm_progbuf0 s, dm_progbuf1 s, dm_auto_data s, dm_auto_progbuf s)"

text \<open>The accesses that are refused while a command runs.\<close>

definition dm_guarded :: "bonfire_config \<Rightarrow> dmi_in \<Rightarrow> bool" where
  "dm_guarded c i \<longleftrightarrow> dm_is_data_reg c i \<or> di_adr i = DMI_ADDR_PROGBUF0 \<or>
     (progbuf_size c = 2 \<and> di_adr i = DMI_ADDR_PROGBUF1) \<or>
     (di_we i \<and> di_adr i \<in> {DMI_ADDR_ABSTRACTCS, DMI_ADDR_ABSTRACTAUTO, DMI_ADDR_COMMAND})"

lemma dm_refuse_busy_fields [simp]:
  "dm_command_regs (dm_refuse_busy s n) = dm_command_regs n"
  "dm_data_regs (dm_refuse_busy s n) = dm_data_regs n"
  "dm_haltreq (dm_refuse_busy s n) = dm_haltreq n"
  "dm_cmderr (dm_refuse_busy s n) = dm_cmderr n"
  by (simp_all add: dm_refuse_busy_def dm_command_regs_def)

lemma dm_lifecycle_command_regs: "dm_command_regs (dm_lifecycle i s n) = dm_command_regs n"
  by (simp add: dm_command_regs_def)

lemma dm_read_busy:
  assumes "dm_command_busy i s"
  shows "dm_command_regs (dm_read c i s n) = dm_command_regs n"
    "dm_data_regs (dm_read c i s n) = dm_data_regs n"
    "dm_haltreq (dm_read c i s n) = dm_haltreq n" "dm_cmderr (dm_read c i s n) = dm_cmderr n"
  using assms
  by (simp_all add: dm_read_def dm_buffer_read_def Let_def) (simp_all add: dm_command_regs_def)

lemma dm_write_busy:
  assumes "dm_command_busy i s"
  shows "dm_command_regs (dm_write_reg c i s n) = dm_command_regs n"
    "dm_data_regs (dm_write_reg c i s n) = dm_data_regs n"
    "dm_haltreq (dm_write_reg c i s n) = dm_haltreq n"
    "dm_cmderr (dm_write_reg c i s n) = dm_cmderr n"
  using assms
  by (simp_all add: dm_write_reg_def dm_write_command_def dm_write_dmcontrol_def Let_def)
    (simp_all add: dm_command_regs_def)

lemma dm_guarded_busy:
  assumes "dm_config_ok c" "dm_command_busy i s" "dm_guarded c i" "dm_cmderr s = CMDERR_NONE"
  shows "\<not> di_we i \<Longrightarrow> dm_abstract_busy_error (dm_read c i s n)"
    "di_we i \<Longrightarrow> dm_abstract_busy_error (dm_write_reg c i s n)"
  using assms(2-4) dm_data_reg_distinct[OF assms(1)]
  by (auto simp: dm_guarded_def dm_read_def dm_write_reg_def dm_buffer_read_def dm_refuse_busy_def
      dm_write_command_def Let_def)

text \<open>
  C17: A running command cannot be disturbed. While an abstract command runs in an active
  module, no access of the host changes its parameters, the program buffer, the restart
  selection, the data registers or the halt request; the data registers change only by the
  command's own result; every guarded access is refused and, unless an error is already
  recorded, remembered as a busy error; and the recorded error changes only from none, when the
  command fails, to the busy code if such an access happened and to the exception code if not.
\<close>

theorem dmi_busy_protects:
  assumes c: "dm_config_ok c" and active: "dm_dmactive s" and busy: "dm_command_busy i s"
  shows "let s' = dmi_seq c i s in
     dm_command_regs s' = dm_command_regs s \<and> dm_haltreq s' = dm_haltreq s \<and>
     dm_data_regs s' = (if di_command_state i = Ac_Regvalid
                        then (dm_data_regs s)[0 := di_command_result i] else dm_data_regs s) \<and>
     (di_en i \<and> dm_guarded c i \<and> dm_cmderr s = CMDERR_NONE \<longrightarrow> dm_abstract_busy_error s') \<and>
     dm_cmderr s' = (if dm_cmderr s = CMDERR_NONE \<and> di_command_state i = Ac_Failed
                     then (if dm_abstract_busy_error s then CMDERR_BUSY else CMDERR_EXCEPTION)
                     else dm_cmderr s)"
proof -
  have r: "dm_command_regs (s\<lparr>dm_dbo := 0\<rparr>) = dm_command_regs s"
    by (simp add: dm_command_regs_def)
  show ?thesis
    using active busy dm_guarded_busy[OF c busy]
    by (simp add: dmi_seq_def Let_def dm_read_busy[OF busy] dm_write_busy[OF busy]
        dm_lifecycle_command_regs r)
qed

lemma dmi_busy_protects_witness:
  "let i = \<lparr>di_en = True, di_we = True, di_adr = 0x04, di_dbi = 0x55, di_hart_reset = False,
            di_hart_state = Hart_Halted, di_req_ack = False, di_command_state = Ac_Exec,
            di_command_result = 0\<rparr>;
       s' = dmi_seq default_config i ((dm_init default_config)\<lparr>dm_dmactive := True\<rparr>)
   in dm_data_regs s' = [0] \<and> dm_abstract_busy_error s'"
  using dmi_busy_protects[where c = default_config and
      s = "(dm_init default_config)\<lparr>dm_dmactive := True\<rparr>" and
      i = "\<lparr>di_en = True, di_we = True, di_adr = 0x04, di_dbi = 0x55, di_hart_reset = False,
            di_hart_state = Hart_Halted, di_req_ack = False, di_command_state = Ac_Exec,
            di_command_result = 0\<rparr>"]
  by (simp add: dm_config_ok_def dm_command_busy_def dm_init_def Let_def dm_guarded_def
      dm_is_data_reg_def)

text \<open>
  Errors are sticky. A recorded command error in an active module stays until the host
  clears its bits by writing ones to them in \<open>abstractcs\<close> while no command runs (or deactivates
  the module), and while it is recorded no command starts and no command word is accepted.
\<close>

theorem dmi_error_sticky:
  assumes active: "dm_dmactive s" and err: "dm_cmderr s \<noteq> CMDERR_NONE"
  shows "let s' = dmi_seq c i s in
     dm_cmderr s' =
       (if di_en i \<and> di_we i \<and> di_adr i = DMI_ADDR_ABSTRACTCS \<and> \<not> dm_command_busy i s \<and>
           \<not> dm_is_data_reg c i
        then dm_cmderr s AND NOT (bv_slice 11 8 (di_dbi i)) else dm_cmderr s) \<and>
     (dm_abstract_command_new s' \<longrightarrow> dm_abstract_command_new s) \<and>
     (di_adr i = DMI_ADDR_COMMAND \<and> \<not> dm_is_data_reg c i \<longrightarrow>
        dm_command_regs s' = dm_command_regs s)"
proof -
  have auto: "dm_autoexec a i s n = n" for a n using err by (simp add: dm_autoexec_def)
  have refuse: "dm_refuse_busy s n = n" for n using err by (simp add: dm_refuse_busy_def)
  have cmd: "dm_write_command i s n = n" for n using err by (simp add: dm_write_command_def)
  have r: "dm_command_regs (s\<lparr>dm_dbo := 0\<rparr>) = dm_command_regs s"
    "dm_command_regs (n\<lparr>dm_dbo := v\<rparr>) = dm_command_regs n" for n v
    by (simp_all add: dm_command_regs_def)
  show ?thesis
    using active err
    by (simp add: dmi_seq_def Let_def dm_read_def dm_write_reg_def dm_buffer_read_def auto refuse
        cmd dm_write_dmcontrol_def dm_lifecycle_command_regs r)
qed

lemma dmi_error_sticky_witness:
  "let i = \<lparr>di_en = True, di_we = True, di_adr = 0x16, di_dbi = 0x100, di_hart_reset = False,
            di_hart_state = Hart_Halted, di_req_ack = False, di_command_state = Ac_None,
            di_command_result = 0\<rparr>
   in dm_cmderr (dmi_seq default_config i
        ((dm_init default_config)\<lparr>dm_dmactive := True, dm_cmderr := CMDERR_EXCEPTION\<rparr>)) = 2"
proof -
  have "(3 :: 3 word) AND NOT (bv_slice 11 8 (0x100 :: xword)) = 2" by code_simp
  then show ?thesis
    using dmi_error_sticky[where c = default_config and
        s = "(dm_init default_config)\<lparr>dm_dmactive := True, dm_cmderr := CMDERR_EXCEPTION\<rparr>" and
        i = "\<lparr>di_en = True, di_we = True, di_adr = 0x16, di_dbi = 0x100, di_hart_reset = False,
            di_hart_state = Hart_Halted, di_req_ack = False, di_command_state = Ac_None,
            di_command_result = 0\<rparr>"]
    by (simp add: dm_command_busy_def dm_init_def Let_def dm_is_data_reg_def)
qed

subsection \<open>Register values\<close>

lemma dm_lifecycle_data_length:
  "length (dm_data_regs s) = length (dm_data_regs n) \<Longrightarrow>
   length (dm_data_regs (dm_lifecycle i s n)) = length (dm_data_regs n)"
  by simp

lemma dm_buffer_read_dbo [simp]: "dm_dbo (dm_buffer_read auto v i s n) = v"
  by (simp add: dm_buffer_read_def dm_refuse_busy_def dm_autoexec_def Let_def)

lemma dm_dmstatus_bits:
  "bit (dm_dmstatus i s) n \<longleftrightarrow>
     n \<in> {0, 1, 7, 22} \<or> (n = 8 \<or> n = 9) \<and> di_hart_state i = Hart_Halted \<or>
     (n = 10 \<or> n = 11) \<and> di_hart_state i = Hart_Running \<or> (n = 16 \<or> n = 17) \<and> dm_resumeack s \<or>
     (n = 18 \<or> n = 19) \<and> dm_havereset s \<or> n = 24 \<and> dm_ndmreset s"
  by (auto simp: dm_dmstatus_def Let_def bv_simps bit_DEBUG_SPEC_VERSION less_2_cases_iff)

text \<open>
  What the host reads. In an active module the edge after a read shows: \<open>dmstatus\<close> with
  the version, the authenticated and implicit-ebreak bits, the halted, running, resume-ack and
  reset bits in pairs; \<open>dmcontrol\<close> with \<open>dmactive\<close> and \<open>ndmreset\<close>; \<open>abstractcs\<close> with the buffer
  and data sizes, the busy bit and the recorded error; the program buffer words and the data
  registers as stored; and zero for every other address that no register has. Without a read
  the output is zero, and an inactive module reads as zero throughout.
\<close>

theorem dmi_reads:
  assumes c: "dm_config_ok c"
  shows "let s' = dmi_seq c i s; v = dm_dbo s'; a = di_adr i in
     (dm_dmactive s \<and> di_en i \<and> \<not> di_we i \<longrightarrow>
        (a = DMI_ADDR_DMSTATUS \<longrightarrow> (\<forall>n. bit v n \<longleftrightarrow>
           n \<in> {0, 1, 7, 22} \<or> (n = 8 \<or> n = 9) \<and> di_hart_state i = Hart_Halted \<or>
           (n = 10 \<or> n = 11) \<and> di_hart_state i = Hart_Running \<or>
           (n = 16 \<or> n = 17) \<and> dm_resumeack s \<or> (n = 18 \<or> n = 19) \<and> dm_havereset s \<or>
           n = 24 \<and> dm_ndmreset s)) \<and>
        (a = DMI_ADDR_DMCONTROL \<longrightarrow> v = (if dm_ndmreset s then 3 else 1)) \<and>
        (a = DMI_ADDR_ABSTRACTCS \<longrightarrow>
           bv_slice 29 24 v = (of_nat (progbuf_size c) :: 5 word) \<and>
           bit v 12 = dm_command_busy i s \<and> bv_slice 11 8 v = dm_cmderr s \<and>
           bv_slice 4 0 v = (of_nat (numdata c) :: 4 word)) \<and>
        (a = DMI_ADDR_PROGBUF0 \<longrightarrow> v = dm_progbuf0 s) \<and>
        (a = DMI_ADDR_PROGBUF1 \<longrightarrow> v = (if progbuf_size c = 2 then dm_progbuf1 s else 0)) \<and>
        (dm_is_data_reg c i \<longrightarrow> v = dm_data_regs s ! dm_data_index i) \<and>
        (a \<notin> {DMI_ADDR_DMSTATUS, DMI_ADDR_DMCONTROL, DMI_ADDR_HARTINFO, DMI_ADDR_ABSTRACTAUTO,
              DMI_ADDR_PROGBUF0, DMI_ADDR_PROGBUF1, DMI_ADDR_ABSTRACTCS} \<and>
           \<not> dm_is_data_reg c i \<longrightarrow> v = 0)) \<and>
     (\<not> dm_dmactive s \<or> \<not> di_en i \<longrightarrow> v = 0)"
proof -
  note distinct = dm_data_reg_distinct[OF c]
  have abs: "bv_slice 29 24 (dm_abstractcs c i s) = (of_nat (progbuf_size c) :: 5 word)"
    "bit (dm_abstractcs c i s) 12 = dm_command_busy i s"
    "bv_slice 11 8 (dm_abstractcs c i s) = dm_cmderr s"
    "bv_slice 4 0 (dm_abstractcs c i s) = (of_nat (numdata c) :: 4 word)"
    by ((rule bv_eqI)?, auto simp: dm_abstractcs_def bv_simps)+
  have ctl: "bv_put 0 True (bv_put 1 (dm_ndmreset s) 0) = (if dm_ndmreset s then 3 else 1 :: xword)"
    "bv_put 0 True (bv_put (Suc 0) True 0) = (3 :: xword)"
    "bv_put 0 True (bv_put (Suc 0) False 0) = (1 :: xword)"
    by (cases "dm_ndmreset s"; simp; code_simp) code_simp+
  have rd: "dm_dbo (dm_lifecycle i s (s\<lparr>dm_dbo := 0\<rparr>)) = 0"
    "dm_dbo (dm_inactive i (s\<lparr>dm_dbo := 0\<rparr>)) = 0"
    by (simp_all add: dm_inactive_def Let_def)
  have "dm_dmactive s \<and> di_en i \<and> \<not> di_we i \<Longrightarrow>
      dmi_seq c i s = dm_read c i s (dm_lifecycle i s (s\<lparr>dm_dbo := 0\<rparr>))"
    by (simp add: dmi_seq_def Let_def)
  then show ?thesis
    using distinct
    by (auto simp: dm_read_def dm_dmstatus_bits abs ctl rd Let_def)
      (auto simp: dmi_seq_def rd Let_def)
qed

lemma dmi_reads_witness:
  "dm_dbo (dmi_seq default_config
     \<lparr>di_en = True, di_we = False, di_adr = 0x04, di_dbi = 0, di_hart_reset = False,
      di_hart_state = Hart_Halted, di_req_ack = False, di_command_state = Ac_None,
      di_command_result = 0\<rparr>
     ((dm_init default_config)\<lparr>dm_dmactive := True, dm_data_regs := [0xbeef]\<rparr>)) = 0xbeef"
  using dmi_reads[where c = default_config and
      s = "(dm_init default_config)\<lparr>dm_dmactive := True, dm_data_regs := [0xbeef]\<rparr>" and
      i = "\<lparr>di_en = True, di_we = False, di_adr = 0x04, di_dbi = 0, di_hart_reset = False,
        di_hart_state = Hart_Halted, di_req_ack = False, di_command_state = Ac_None,
        di_command_result = 0\<rparr>"]
  by (simp add: dm_config_ok_def dm_init_def Let_def dm_is_data_reg_def dm_data_index_def)

end
