(* ===== verification/Debug_Core.thy ===== *)
theory Debug_Core
  imports Pipeline Dmi
begin

text \<open>
  The hart's side of the debug support: the abstract-command controller
  (\<open>rtl/debug/abstract_command.py\<close>), the halt, resume and single-step controller
  (\<open>rtl/debug/hart_debug.py\<close>) and the pipeline adapter that chooses between the fetch unit and
  the program buffer (\<open>rtl/debug/pipeline_adapter.py\<close>), each as combinational outputs and one
  clocked process, and the core with all of them wired around a backend and the register
  interface (\<open>debug_core_step\<close>).
\<close>

subsection \<open>Abstract commands\<close>

record progbuf_issue =
  pi_valid :: bool
  pi_word :: xword
  pi_last :: bool

record progbuf_completion =
  pc_accepted :: bool
  pc_complete :: bool
  pc_terminated :: bool
  pc_exception :: bool

record ac_state =
  ac_command_state :: command_state
  ac_result :: xword
  ac_issued_last :: bool

definition ac_init :: ac_state where
  "ac_init = \<lparr>ac_command_state = Ac_None, ac_result = 0, ac_issued_last = False\<rparr>"

definition ac_command_request :: "dm_state \<Rightarrow> ac_state \<Rightarrow> bool" where
  "ac_command_request d s \<longleftrightarrow> dm_abstract_command_new d \<and> ac_command_state s = Ac_None \<and>
     dm_command_type d = Access_Reg"

definition ac_register_transfer :: "dm_state \<Rightarrow> ac_state \<Rightarrow> register_transfer" where
  "ac_register_transfer d s =
     \<lparr>rt_valid = (ac_command_request d s \<and> dm_transfer d), rt_write = dm_write d,
      rt_regno = dm_regno d, rt_write_data = dm_data_regs d ! 0\<rparr>"

definition ac_progbuf_issue :: "bonfire_config \<Rightarrow> dm_state \<Rightarrow> ac_state \<Rightarrow> progbuf_issue" where
  "ac_progbuf_issue c d s =
     (if ac_command_state s = Ac_Exec2
      then \<lparr>pi_valid = True, pi_word = dm_progbuf1 d, pi_last = True\<rparr>
      else \<lparr>pi_valid = (ac_command_state s = Ac_Exec), pi_word = dm_progbuf0 d,
            pi_last = (progbuf_size c = 1)\<rparr>)"

definition ac_state_machine ::
  "bonfire_config \<Rightarrow> dm_state \<Rightarrow> hart_state \<Rightarrow> xword \<Rightarrow> progbuf_completion \<Rightarrow> ac_state \<Rightarrow> ac_state" where
  "ac_state_machine c d hart read_data p s =
     (if \<not> dm_dmactive d then s\<lparr>ac_command_state := Ac_None, ac_issued_last := False\<rparr>
      else if hart = Hart_Halted then
        (case ac_command_state s of
           Ac_None \<Rightarrow> (if ac_command_request d s then s\<lparr>ac_command_state := Ac_Taken\<rparr> else s)
         | Ac_Taken \<Rightarrow>
             (if dm_transfer d \<and> dm_write d then
                s\<lparr>ac_command_state := (if dm_postexec d then Ac_Exec else Ac_None)\<rparr>
              else if dm_transfer d then
                s\<lparr>ac_result := read_data, ac_command_state := Ac_Regvalid\<rparr>
              else if dm_postexec d then s\<lparr>ac_command_state := Ac_Exec\<rparr>
              else s\<lparr>ac_command_state := Ac_None\<rparr>)
         | Ac_Regvalid \<Rightarrow> s\<lparr>ac_command_state := (if dm_postexec d then Ac_Exec else Ac_None)\<rparr>
         | Ac_Wait_Retire \<Rightarrow>
             (if pc_exception p then s\<lparr>ac_command_state := Ac_Failed\<rparr>
              else if pc_complete p then
                s\<lparr>ac_command_state := (if ac_issued_last s then Ac_None else Ac_Exec2)\<rparr>
              else s)
         | Ac_Failed \<Rightarrow> s\<lparr>ac_command_state := Ac_None\<rparr>
         | _ \<Rightarrow>
             (if pc_terminated p then s\<lparr>ac_command_state := Ac_None\<rparr>
              else if pc_accepted p then
                s\<lparr>ac_issued_last := pi_last (ac_progbuf_issue c d s),
                  ac_command_state := Ac_Wait_Retire\<rparr>
              else s))
      else s)"

subsection \<open>Halting, resuming and stepping\<close>

datatype hart_debug_state = Hd_Running | Hd_Halt_Pending | Hd_Halted | Hd_Step_Issue | Hd_Step_Wait

record pipeline_events =
  ev_instruction_accepted :: bool
  ev_instruction_complete :: bool
  ev_pipeline_empty :: bool
  ev_next_pc :: xword
  ev_ebreak :: bool
  ev_ebreak_pc :: xword
  ev_progbuf_exception :: bool

record hd_state =
  hd_state_reg :: hart_debug_state
  hd_redirect_valid :: bool
  hd_redirect_pc :: xword
  hd_req_ack :: bool
  hd_csr_update :: debug_csr_update

definition hd_init :: hd_state where
  "hd_init = \<lparr>hd_state_reg = Hd_Running, hd_redirect_valid = False, hd_redirect_pc = 0,
     hd_req_ack = False, hd_csr_update = no_debug_update\<rparr>"

definition hd_hart_state :: "hd_state \<Rightarrow> hart_state" where
  "hd_hart_state s = (if hd_state_reg s = Hd_Halted then Hart_Halted else Hart_Running)"

definition hd_allow_fetch :: "dm_state \<Rightarrow> hd_state \<Rightarrow> bool" where
  "hd_allow_fetch d s \<longleftrightarrow>
     (hd_state_reg s = Hd_Running \<and> \<not> dm_haltreq d) \<or> hd_state_reg s = Hd_Step_Issue"

definition hd_flush :: "bool \<Rightarrow> bool \<Rightarrow> hd_state \<Rightarrow> bool" where
  "hd_flush ebreak progbuf_exception s \<longleftrightarrow> ebreak \<or> progbuf_exception \<or> hd_redirect_valid s"

text \<open>Entering debug mode: the write of \<open>dpc\<close> and the cause.\<close>

definition hd_enter :: "xword \<Rightarrow> 3 word \<Rightarrow> hd_state \<Rightarrow> hd_state" where
  "hd_enter pc cause n = n\<lparr>
     hd_csr_update := \<lparr>du_dpc = bv_slice 32 2 pc, du_cause = cause, du_we_dpc = True,
                       du_we_cause = True\<rparr>,
     hd_state_reg := Hd_Halted\<rparr>"

definition hd_state_machine :: "dm_state \<Rightarrow> debug_csrs \<Rightarrow> pipeline_events \<Rightarrow> hd_state \<Rightarrow> hd_state" where
  "hd_state_machine d csrs e s =
     (let n = s\<lparr>hd_req_ack := False, hd_redirect_valid := False,
               hd_csr_update := (hd_csr_update s)\<lparr>du_we_dpc := False, du_we_cause := False\<rparr>\<rparr> in
      if \<not> dm_dmactive d \<and> hd_state_reg s = Hd_Halt_Pending then n\<lparr>hd_state_reg := Hd_Running\<rparr>
      else if ev_ebreak e \<and> hd_state_reg s \<noteq> Hd_Halted then hd_enter (ev_ebreak_pc e) 1 n
      else
        (case hd_state_reg s of
           Hd_Running \<Rightarrow> (if dm_haltreq d then n\<lparr>hd_state_reg := Hd_Halt_Pending\<rparr> else n)
         | Hd_Halt_Pending \<Rightarrow>
             (if ev_pipeline_empty e
              then (hd_enter (ev_next_pc e) 3 n)\<lparr>hd_req_ack := True\<rparr> else n)
         | Hd_Halted \<Rightarrow>
             (if dm_resumereq d
              then n\<lparr>hd_req_ack := True, hd_redirect_valid := True,
                     hd_redirect_pc := push_bit 2 (ucast (dc_dpc csrs)),
                     hd_state_reg := (if dc_step csrs then Hd_Step_Issue else Hd_Running)\<rparr>
              else n)
         | Hd_Step_Issue \<Rightarrow>
             (if ev_instruction_accepted e then n\<lparr>hd_state_reg := Hd_Step_Wait\<rparr> else n)
         | Hd_Step_Wait \<Rightarrow>
             (if ev_instruction_complete e then hd_enter (ev_next_pc e) 4 n else n)))"

subsection \<open>The pipeline adapter\<close>

abbreviation (input) PROGBUF_EBREAK :: xword where "PROGBUF_EBREAK \<equiv> 0x00100073"

record adapter_in =
  ad_fetch :: fetch_bundle
  ad_decode_busy :: bool
  ad_issue :: progbuf_issue
  ad_allow_fetch :: bool
  ad_redirect_valid :: bool
  ad_redirect_pc :: xword
  ad_pipeline_empty :: bool
  ad_exec_redirect_valid :: bool
  ad_exec_redirect_pc :: xword
  ad_ebreak :: bool
  ad_ebreak_pc :: xword
  ad_progbuf_exception :: bool

record adapter_state =
  ads_active :: bool
  ads_active_progbuf :: bool
  ads_next_pc :: xword

definition adapter_init :: "bonfire_config \<Rightarrow> adapter_state" where
  "adapter_init c = \<lparr>ads_active = False, ads_active_progbuf = False,
     ads_next_pc = reset_address c\<rparr>"

definition adapter_terminator :: "progbuf_issue \<Rightarrow> bool" where
  "adapter_terminator p \<longleftrightarrow> pi_valid p \<and> pi_word p = PROGBUF_EBREAK"

definition adapter_progbuf_source :: "progbuf_issue \<Rightarrow> bool" where
  "adapter_progbuf_source p \<longleftrightarrow> pi_valid p \<and> \<not> adapter_terminator p"

text \<open>The decode stage's input; \<open>sv\<close> is the source-valid line.\<close>

definition adapter_source_valid ::
  "fetch_bundle \<Rightarrow> bool \<Rightarrow> bool \<Rightarrow> progbuf_issue \<Rightarrow> bool" where
  "adapter_source_valid f allow redirect p =
     (if pi_valid p then \<not> adapter_terminator p
      else fb_en_i f \<and> allow \<and> \<not> fb_redirect_pending_i f \<and> \<not> redirect)"

definition adapter_decode_in ::
  "fetch_bundle \<Rightarrow> bool \<Rightarrow> bool \<Rightarrow> progbuf_issue \<Rightarrow> fetch_bundle" where
  "adapter_decode_in f allow redirect p = f\<lparr>
     fb_en_i := adapter_source_valid f allow redirect p,
     fb_word_i := (if pi_valid p then pi_word p else fb_word_i f)\<rparr>"

definition adapter_accepted :: "adapter_in \<Rightarrow> bool" where
  "adapter_accepted i \<longleftrightarrow>
     adapter_source_valid (ad_fetch i) (ad_allow_fetch i) (ad_redirect_valid i) (ad_issue i) \<and>
     \<not> ad_decode_busy i"

definition adapter_fetch_stall :: "adapter_in \<Rightarrow> bool" where
  "adapter_fetch_stall i \<longleftrightarrow> ad_decode_busy i \<or> \<not> ad_allow_fetch i \<or> ad_redirect_valid i \<or>
     pi_valid (ad_issue i)"

definition adapter_next_pc :: "adapter_in \<Rightarrow> adapter_state \<Rightarrow> xword" where
  "adapter_next_pc i s =
     (if ads_active s \<and> \<not> ads_active_progbuf s \<and> ad_exec_redirect_valid i
      then ad_exec_redirect_pc i else ads_next_pc s)"

definition adapter_complete :: "adapter_in \<Rightarrow> adapter_state \<Rightarrow> bool" where
  "adapter_complete i s \<longleftrightarrow> ads_active s \<and> ad_pipeline_empty i"

definition adapter_exception :: "adapter_in \<Rightarrow> adapter_state \<Rightarrow> bool" where
  "adapter_exception i s \<longleftrightarrow> ads_active s \<and> ads_active_progbuf s \<and> ad_progbuf_exception i"

definition adapter_events :: "adapter_in \<Rightarrow> adapter_state \<Rightarrow> pipeline_events" where
  "adapter_events i s =
     \<lparr>ev_instruction_accepted = (adapter_accepted i \<and> \<not> adapter_progbuf_source (ad_issue i)),
      ev_instruction_complete = (adapter_complete i s \<and> \<not> ads_active_progbuf s),
      ev_pipeline_empty = ad_pipeline_empty i, ev_next_pc = adapter_next_pc i s,
      ev_ebreak = ad_ebreak i, ev_ebreak_pc = ad_ebreak_pc i,
      ev_progbuf_exception = adapter_exception i s\<rparr>"

definition adapter_completion :: "adapter_in \<Rightarrow> adapter_state \<Rightarrow> progbuf_completion" where
  "adapter_completion i s =
     \<lparr>pc_accepted = (adapter_accepted i \<and> adapter_progbuf_source (ad_issue i)),
      pc_complete = (adapter_complete i s \<and> ads_active_progbuf s \<and> \<not> ad_progbuf_exception i),
      pc_terminated = adapter_terminator (ad_issue i),
      pc_exception = adapter_exception i s\<rparr>"

definition adapter_boundary :: "adapter_in \<Rightarrow> adapter_state \<Rightarrow> adapter_state" where
  "adapter_boundary i s =
     (let src = adapter_progbuf_source (ad_issue i); acc = adapter_accepted i;
          n1 = (if acc then s\<lparr>ads_active := True, ads_active_progbuf := src\<rparr> else s);
          n2 = (if ad_redirect_valid i then n1\<lparr>ads_next_pc := ad_redirect_pc i\<rparr>
                else if acc \<and> \<not> src then n1\<lparr>ads_next_pc := fb_next_ip_i (ad_fetch i)\<rparr>
                else if ads_active s \<and> \<not> ads_active_progbuf s \<and> ad_exec_redirect_valid i
                then n1\<lparr>ads_next_pc := ad_exec_redirect_pc i\<rparr> else n1)
      in if ads_active s \<and>
            (ad_pipeline_empty i \<or> (ads_active_progbuf s \<and> ad_progbuf_exception i))
         then n2\<lparr>ads_active := False, ads_active_progbuf := False\<rparr> else n2)"

subsection \<open>The core with debug module\<close>

text \<open>
  The wiring of the backends and of \<open>BonfireCoreTop\<close> with the debug module enabled. No
  combinational signal the execute stage produces depends on its flush input, so the events are
  computed from the backend inputs without the flush (\<open>dk_backend_in0\<close>), and the flush is
  added for the clock edge.
\<close>

record debug_core =
  dk_fetch :: fetch_state
  dk_backend :: backend_state
  dk_dm :: dm_state
  dk_ac :: ac_state
  dk_hd :: hd_state
  dk_adapter :: adapter_state

record dmi_request =
  dr_en :: bool
  dr_we :: bool
  dr_adr :: dmi_adr
  dr_dbi :: xword

definition dmi_quiet :: dmi_request where
  "dmi_quiet = \<lparr>dr_en = False, dr_we = False, dr_adr = 0, dr_dbi = 0\<rparr>"

definition debug_core_init :: "bonfire_config \<Rightarrow> debug_core" where
  "debug_core_init c = \<lparr>dk_fetch = fetch_init c, dk_backend = backend_init c,
     dk_dm = dm_init c, dk_ac = ac_init, dk_hd = hd_init, dk_adapter = adapter_init c\<rparr>"

definition dk_issue :: "bonfire_config \<Rightarrow> debug_core \<Rightarrow> progbuf_issue" where
  "dk_issue c s = ac_progbuf_issue c (dk_dm s) (dk_ac s)"

definition dk_backend_in0 :: "bonfire_config \<Rightarrow> dbus_rsp \<Rightarrow> debug_core \<Rightarrow> backend_in" where
  "dk_backend_in0 c dbus s =
     \<lparr>bk_fetch = adapter_decode_in (fetch_out (dk_fetch s)) (hd_allow_fetch (dk_dm s) (dk_hd s))
                   (hd_redirect_valid (dk_hd s)) (dk_issue c s),
      bk_bus_i = dbus, bk_transfer = ac_register_transfer (dk_dm s) (dk_ac s),
      bk_debug_flush = False, bk_progbuf_active = ads_active_progbuf (dk_adapter s),
      bk_debug_update = hd_csr_update (dk_hd s),
      bk_redirect_valid = hd_redirect_valid (dk_hd s), bk_redirect_pc = hd_redirect_pc (dk_hd s)\<rparr>"

definition dk_adapter_in :: "bonfire_config \<Rightarrow> dbus_rsp \<Rightarrow> debug_core \<Rightarrow> adapter_in" where
  "dk_adapter_in c dbus s =
     (let i = dk_backend_in0 c dbus s; b = dk_backend s; e = backend_exec_in c i b; x = bk_exec b in
      \<lparr>ad_fetch = fetch_out (dk_fetch s), ad_decode_busy = backend_busy_o c i b,
       ad_issue = dk_issue c s, ad_allow_fetch = hd_allow_fetch (dk_dm s) (dk_hd s),
       ad_redirect_valid = hd_redirect_valid (dk_hd s),
       ad_redirect_pc = hd_redirect_pc (dk_hd s),
       ad_pipeline_empty = backend_pipeline_empty c i b,
       ad_exec_redirect_valid = exec_jump_o c e x, ad_exec_redirect_pc = exec_jump_dest_o c e x,
       ad_ebreak = exec_debug_ebreak_o c e x, ad_ebreak_pc = exec_debug_ebreak_pc_o e,
       ad_progbuf_exception = exec_progbuf_exception c e x\<rparr>)"

definition dk_events :: "bonfire_config \<Rightarrow> dbus_rsp \<Rightarrow> debug_core \<Rightarrow> pipeline_events" where
  "dk_events c dbus s = adapter_events (dk_adapter_in c dbus s) (dk_adapter s)"

definition dk_backend_in :: "bonfire_config \<Rightarrow> dbus_rsp \<Rightarrow> debug_core \<Rightarrow> backend_in" where
  "dk_backend_in c dbus s = (dk_backend_in0 c dbus s)\<lparr>bk_debug_flush :=
     hd_flush (ev_ebreak (dk_events c dbus s)) (ev_progbuf_exception (dk_events c dbus s)) (dk_hd s)\<rparr>"

definition dk_fetch_in ::
  "bonfire_config \<Rightarrow> dbus_rsp \<Rightarrow> dbus_rsp \<Rightarrow> debug_core \<Rightarrow> fetch_in" where
  "dk_fetch_in c ibus dbus s =
     (let i = dk_backend_in c dbus s; b = dk_backend s in
      \<lparr>fe_stall_i = adapter_fetch_stall (dk_adapter_in c dbus s),
       fe_jump_i = backend_jump_o c i b, fe_jump_dest_i = backend_jump_dest_o c i b,
       fe_ibus_stall_i = db_stall_i ibus, fe_ibus_ack_i = db_ack_i ibus,
       fe_ibus_db_rd = db_rd ibus\<rparr>)"

definition dk_dmi_in :: "bool \<Rightarrow> dmi_request \<Rightarrow> debug_core \<Rightarrow> dmi_in" where
  "dk_dmi_in reset r s =
     \<lparr>di_en = dr_en r, di_we = dr_we r, di_adr = dr_adr r, di_dbi = dr_dbi r,
      di_hart_reset = reset, di_hart_state = hd_hart_state (dk_hd s),
      di_req_ack = hd_req_ack (dk_hd s), di_command_state = ac_command_state (dk_ac s),
      di_command_result = ac_result (dk_ac s)\<rparr>"

definition debug_core_step ::
  "bonfire_config \<Rightarrow> bool \<Rightarrow> dmi_request \<Rightarrow> dbus_rsp \<Rightarrow> dbus_rsp \<Rightarrow> debug_core \<Rightarrow> debug_core option" where
  "debug_core_step c reset r ibus dbus s =
     (let i = dk_backend_in c dbus s; b = dk_backend s; a = dk_adapter_in c dbus s in
      map_option (\<lambda>f.
        \<lparr>dk_fetch = f, dk_backend = backend_step c reset i b,
         dk_dm = dmi_seq c (dk_dmi_in reset r s) (dk_dm s),
         dk_ac = ac_state_machine c (dk_dm s) (hd_hart_state (dk_hd s))
                   (decode_read_data (backend_dec_in c i b))
                   (adapter_completion a (dk_adapter s)) (dk_ac s),
         dk_hd = hd_state_machine (dk_dm s) (cs_debug (ex_csr (bk_exec b)))
                   (dk_events c dbus s) (dk_hd s),
         dk_adapter = adapter_boundary a (dk_adapter s)\<rparr>)
        (fetch_step c reset (dk_fetch_in c ibus dbus s) (dk_fetch s)))"

end
