(* ===== verification/Device_Port.thy ===== *)
theory Device_Port
  imports Bonfire_Prelude
begin

text \<open>
  The contract of a device that is used by complete accesses (a register access over the debug
  module, a memory cycle, a bus transaction): from a state in which it is ready, an access
  returns, its result and its effect are those of an abstract machine on the state the user
  sees, and the device is ready again. Sessions of any length then refine the abstract machine.
\<close>

fun session :: "('a \<Rightarrow> 's \<Rightarrow> ('r \<times> 's) option) \<Rightarrow> 'a list \<Rightarrow> 's \<Rightarrow> ('r list \<times> 's) option" where
  "session run [] s = Some ([], s)"
| "session run (a # as) s =
     (case run a s of
        None \<Rightarrow> None
      | Some (r, s') \<Rightarrow> map_option (\<lambda>(rs, s''). (r # rs, s'')) (session run as s'))"

fun spec_session :: "('a \<Rightarrow> 'm \<Rightarrow> 'r \<times> 'm) \<Rightarrow> 'a list \<Rightarrow> 'm \<Rightarrow> 'r list \<times> 'm" where
  "spec_session spec [] m = ([], m)"
| "spec_session spec (a # as) m =
     (let (r, m') = spec a m; (rs, m'') = spec_session spec as m' in (r # rs, m''))"

locale device_port =
  fixes run :: "'a \<Rightarrow> 's \<Rightarrow> ('r \<times> 's) option"
    and ready :: "'s \<Rightarrow> bool"
    and valid :: "'a \<Rightarrow> bool"
    and view :: "'s \<Rightarrow> 'm"
    and spec :: "'a \<Rightarrow> 'm \<Rightarrow> 'r \<times> 'm"
  assumes access: "ready s \<Longrightarrow> valid a \<Longrightarrow>
    \<exists>r s'. run a s = Some (r, s') \<and> ready s' \<and> spec a (view s) = (r, view s')"
begin

lemma session_refines:
  "ready s \<Longrightarrow> list_all valid as \<Longrightarrow> \<exists>rs s'. session run as s = Some (rs, s') \<and> ready s' \<and>
     spec_session spec as (view s) = (rs, view s')"
proof (induction "as" arbitrary: s)
  case (Cons a "as")
  obtain r s1 where a: "run a s = Some (r, s1)" "ready s1" "spec a (view s) = (r, view s1)"
    using access[of s a] Cons.prems by auto
  obtain rs s2 where "session run as s1 = Some (rs, s2)" "ready s2"
    "spec_session spec as (view s1) = (rs, view s2)"
    using Cons.IH[OF a(2)] Cons.prems by auto
  with a show ?case by simp
qed simp

text \<open>Two ready states that show the same give the same results for ever.\<close>

lemma session_view:
  assumes "ready s" "ready t" "list_all valid as" "view s = view t"
  shows "map_option fst (session run as s) = map_option fst (session run as t)"
  using session_refines[OF assms(1,3)] session_refines[OF assms(2,3)] assms(4) by auto

end

end
