(* ===== verification/Debug_Access.thy ===== *)
theory Debug_Access
  imports Debug_Core Device_Port
begin

text \<open>
  Access to the general registers through the debug module. While the hart is halted and the
  pipeline empty, a host session of register reads and writes, each an abstract command issued
  over the debug module interface, is carried out by the command controller, the decode stage,
  the execute stage and the register file of the running core. The session is proved against
  the abstract register file; the core is ready for the next access after each one, so sessions
  of any length compose.
\<close>

subsection \<open>An idle backend\<close>

text \<open>Nothing in the decode stage or under way in a unit (a store that was acknowledged early may
  leave its completion flag for one more cycle); with \<open>backend_drained\<close> the last result may still
  stand in the writeback registers.\<close>

definition exec_idle :: "bonfire_config \<Rightarrow> exec_state \<Rightarrow> bool" where
  "exec_idle c x \<longleftrightarrow> exec_inv c x \<and> ls_outstanding (ex_ls x) = 0 \<and>
     (ls_valid_reg (ex_ls x) \<longrightarrow> mem_write_early_term c \<and> lp_store (ls_pipe (ex_ls x) ! 0)) \<and>
     \<not> al_busy_o (ex_alu x) \<and> \<not> ex_jump_busy x"

definition backend_drained :: "bonfire_config \<Rightarrow> backend_state \<Rightarrow> bool" where
  "backend_drained c b \<longleftrightarrow> \<not> de_valid_o (bk_dec b) \<and> exec_idle c (bk_exec b)"

definition backend_idle :: "bonfire_config \<Rightarrow> backend_state \<Rightarrow> bool" where
  "backend_idle c b \<longleftrightarrow> backend_drained c b \<and> (exec_wb_stage c \<longrightarrow> \<not> wb_valid (bk_wb b))"

definition debug_config_ok :: "bonfire_config \<Rightarrow> bool" where
  "debug_config_ok c \<longleftrightarrow> dm_config_ok c \<and> core_config_ok c \<and> exec_config_ok c \<and> enableDebugModule c \<and>
     registered_read_stage c \<and> shifter_mode c \<in> {Shift_Comb, Shift_Pipelined}"

lemma debug_config_facts:
  assumes "debug_config_ok c"
  shows "loadstore_outstanding c = 1" "registered_read_stage c" "shifter_mode c \<noteq> Shift_Behavioral"
    "dm_config_ok c" "core_config_ok c" "enableDebugModule c"
  using assms by (auto simp: debug_config_ok_def exec_config_ok_def)

text \<open>The debug controllers' notion of an empty pipeline is this one.\<close>

lemma backend_empty_idle:
  assumes c: "debug_config_ok c" and inv: "backend_inv c b" and e: "backend_pipeline_empty c i b"
  shows "backend_idle c b"
proof -
  note cf = debug_config_facts[OF c]
  have x: "exec_inv c (bk_exec b)"
    using inv exec_reachable_inv cf by (simp add: backend_inv_def)
  have busy: "\<not> exec_busy c (backend_exec_in c i b) (bk_exec b)"
    and valid: "\<not> exec_ls_valid c (backend_exec_in c i b) (bk_exec b)"
    using e by (simp_all add: backend_pipeline_empty_def exec_valid_o_def)
  have "ls_valid_reg (ex_ls (bk_exec b)) \<longrightarrow>
      mem_write_early_term c \<and> lp_store (ls_pipe (ex_ls (bk_exec b)) ! 0)"
    using valid cf
    by (auto simp: exec_ls_valid_def ls_valid_o_def write_pipe_index_def split: if_splits)
  moreover have "ls_outstanding (ex_ls (bk_exec b)) = 0"
    using busy x cf
    by (auto simp: exec_busy_def ls_busy_o_def ls_busy_def ls_capacity_busy_def exec_inv_def
        split: if_splits)
  ultimately show ?thesis
    using e busy x
    by (simp add: backend_idle_def backend_drained_def exec_idle_def backend_pipeline_empty_def
        exec_busy_def)
qed

lemma exec_idle_quiet:
  assumes c: "debug_config_ok c" and x: "exec_idle c x" and nt: "\<not> exec_taken c e x"
  shows "\<not> exec_reg_we_o c e x" "\<not> exec_valid_o c e x" "exec_idle c (exec_step c False e x)"
proof -
  note cf = debug_config_facts[OF c]
  have inv: "exec_inv c x" using x by (simp add: exec_idle_def)
  have csr: "\<not> exec_csr_valid c e x"
    using nt by (simp add: exec_csr_valid_def csr_valid_o_def csr_taken_def exec_csr_in_def)
  have jump: "\<not> ej_jump_we (exec_jump_comb c e x)"
    using nt by (simp add: exec_jump_comb_def no_jump_def Let_def)
  have alu: "\<not> al_valid_o (exec_alu_out c e x)"
    using exec_alu_valid_cases[OF cf(3), of e x] nt x
    by (auto simp: exec_idle_def exec_inv_def split: if_splits)
  have ls: "\<not> ls_we_o c (ex_ls x)" "\<not> exec_ls_valid c e x"
    using x cf
    by (auto simp: exec_idle_def ls_we_o_def exec_ls_valid_def ls_valid_o_def ls_valid_comb_def
        ls_confirm_def write_pipe_index_def)
  show "\<not> exec_reg_we_o c e x" "\<not> exec_valid_o c e x"
    using csr jump alu ls by (simp_all add: exec_reg_we_o_def exec_valid_o_def)
  have p: "length (ls_pipe (ex_ls x)) = 1" "ls_outstanding (ex_ls x) \<le> 1"
    "ls_valid_reg (ex_ls x) \<longrightarrow> ls_outstanding (ex_ls x) = 0"
    using inv by (simp_all add: exec_inv_def)
  note step = exec_ls_inv_step(5)[OF cf(1,2) p exec_ls_not_taken[OF nt], folded exec_step_fields(2)]
  have "exec_inv c (exec_step c False e x)"
    using exec_inv_step[OF cf(1,2) inv] nt by (simp add: exec_legal_def)
  moreover have "\<not> al_busy_o (ex_alu (exec_step c False e x))"
    using nt by (simp add: exec_step_fields exec_alu_inv_step exec_alu_in_def)
  moreover have "\<not> ex_jump_busy (exec_step c False e x)"
    using nt by (simp add: exec_step_def exec_units_step_def exec_seq_def exec_pending_seq_def Let_def)
  moreover have "ls_outstanding (ex_ls (exec_step c False e x)) = 0 \<and>
      \<not> ls_valid_reg (ex_ls (exec_step c False e x))"
    using step x exec_inv_step[OF cf(1,2) inv, of e] nt
    by (auto simp: exec_idle_def exec_inv_def exec_legal_def)
  ultimately show "exec_idle c (exec_step c False e x)"
    by (simp add: exec_idle_def)
qed

lemma drained_retire:
  assumes "debug_config_ok c" "backend_drained c b"
  shows "backend_retire c (backend_exec_in c i b) (bk_exec b) = None"
    "\<not> exec_valid_o c (backend_exec_in c i b) (bk_exec b)"
    "\<not> exec_taken c (backend_exec_in c i b) (bk_exec b)"
    "exec_idle c (exec_step c False (backend_exec_in c i b) (bk_exec b))"
proof -
  have nt: "\<not> exec_taken c (backend_exec_in c i b) (bk_exec b)"
    using assms by (simp add: backend_drained_def exec_taken_def)
  note q = exec_idle_quiet[OF assms(1) _ nt]
  show "backend_retire c (backend_exec_in c i b) (bk_exec b) = None"
    "\<not> exec_valid_o c (backend_exec_in c i b) (bk_exec b)"
    "\<not> exec_taken c (backend_exec_in c i b) (bk_exec b)"
    "exec_idle c (exec_step c False (backend_exec_in c i b) (bk_exec b))"
    using q nt assms(2) by (simp_all add: backend_drained_def backend_retire_def)
qed

text \<open>An edge without a fetched word and without a debug write changes no register, and drains
  the writeback registers.\<close>

lemma backend_drained_step:
  assumes c: "debug_config_ok c" and d: "backend_drained c b"
    and en: "\<not> fb_en_i (bk_fetch i)" and w: "\<not> (rt_valid (bk_transfer i) \<and> rt_write (bk_transfer i))"
  shows "backend_idle c (backend_step c False i b)"
    "backend_regs c (backend_step c False i b) = backend_regs c b"
proof -
  note q = drained_retire[OF c d, of i]
  have "\<not> de_valid_o (bk_dec (backend_step c False i b))"
    unfolding backend_step_stages
    using d en w
    by (auto simp: decode_step_def decode_op_def decode_downstream_busy_def backend_drained_def
        backend_dec_in_def backend_dec_data_def)
  moreover have "exec_wb_stage c \<longrightarrow> \<not> wb_valid (bk_wb (backend_step c False i b))"
    using q by (simp add: backend_step_def writeback_seq_def)
  ultimately show "backend_idle c (backend_step c False i b)"
    using q by (simp add: backend_idle_def backend_drained_def backend_step_stages)
  show "backend_regs c (backend_step c False i b) = backend_regs c b"
    using q by (simp add: backend_regs_step)
qed

text \<open>A debug register write enters the decode stage in one edge and retires in the next.\<close>

lemma backend_transfer_step:
  assumes c: "debug_config_ok c" and d: "backend_idle c b"
    and t: "rt_valid (bk_transfer i)" "rt_write (bk_transfer i)"
  shows "bk_dec (backend_step c False i b) = decode_transfer (bk_transfer i) (bk_dec b)"
    "exec_idle c (bk_exec (backend_step c False i b))"
    "exec_wb_stage c \<longrightarrow> \<not> wb_valid (bk_wb (backend_step c False i b))"
    "backend_regs c (backend_step c False i b) = backend_regs c b"
proof -
  have dr: "backend_drained c b" using d by (simp add: backend_idle_def)
  note q = drained_retire[OF c dr, of i]
  show "bk_dec (backend_step c False i b) = decode_transfer (bk_transfer i) (bk_dec b)"
    using t by (simp add: backend_step_stages decode_step_def decode_op_def)
  show "exec_idle c (bk_exec (backend_step c False i b))"
    using q by (simp add: backend_step_stages)
  show "exec_wb_stage c \<longrightarrow> \<not> wb_valid (bk_wb (backend_step c False i b))"
    using q by (simp add: backend_step_def writeback_seq_def)
  show "backend_regs c (backend_step c False i b) = backend_regs c b"
    using q by (simp add: backend_regs_step)
qed

lemma alu_comb_or:
  assumes "al_funct3_i x = RV32_F3_OR" "al_en_i x" "al_op1_i x = v" "al_op2_i x = 0"
    and "m = Shift_Pipelined \<longrightarrow> \<not> sh_ready (al_shifter s)"
  shows "al_valid_o (alu_comb m x s)" "al_res_o (alu_comb m x s) = v"
proof -
  have "alu_comb m x s = alu_comb m (alu_request Op_Or v 0) s"
    using assms by (intro alu_comb_request) simp_all
  then show "al_valid_o (alu_comb m x s)" "al_res_o (alu_comb m x s) = v"
    using alu_comb_nonshift[of Op_Or m s v 0] assms(5) by (auto simp: is_shift_op_def)
qed

lemma backend_transfer_retire:
  assumes c: "debug_config_ok c" and x: "exec_idle c (bk_exec b)"
    and d: "bk_dec b = decode_transfer t d0" and wb: "exec_wb_stage c \<longrightarrow> \<not> wb_valid (bk_wb b)"
    and en: "\<not> fb_en_i (bk_fetch i)"
    and w: "\<not> (rt_valid (bk_transfer i) \<and> rt_write (bk_transfer i))"
  shows "backend_drained c (backend_step c False i b)"
    "backend_regs c (backend_step c False i b) =
       write_reg (Some (rt_regno t, rt_write_data t)) (backend_regs c b)"
proof -
  note cf = debug_config_facts[OF c]
  let ?e = "backend_exec_in c i b" and ?x = "bk_exec b"
  have inv: "exec_inv c ?x" using x by (simp add: exec_idle_def)
  have haz: "\<not> ex_hazard_i ?e"
    using wb by (auto simp: backend_exec_in_def four_stage_hazard_def Let_def)
  have nb: "\<not> exec_busy c ?e ?x"
    using x haz cf by (auto simp: exec_busy_def exec_idle_def csr_busy_o_def ls_busy_o_def
        ls_busy_def ls_capacity_busy_def write_pipe_index_def)
  have taken: "exec_taken c ?e ?x" using nb d by (simp add: exec_taken_def decode_transfer_def)
  have dec: "de_alu_cmd (bk_dec b)" "\<not> de_load_cmd (bk_dec b)" "\<not> de_store_cmd (bk_dec b)"
    "\<not> de_csr_cmd (bk_dec b)" "\<not> de_jump_cmd (bk_dec b)" "\<not> de_jumpr_cmd (bk_dec b)"
    "\<not> de_branch_cmd (bk_dec b)" "\<not> de_sys_cmd (bk_dec b)" "\<not> de_fence_cmd (bk_dec b)" "de_rd_adr_o (bk_dec b) = rt_regno t"
    "de_funct3_o (bk_dec b) = RV32_F3_OR"
    unfolding d by (simp_all add: decode_transfer_def)
  have uses: "\<not> decode_uses_rs1_o (bk_dec b)" "\<not> decode_uses_rs2_o (bk_dec b)"
    "de_rs1_immediate (bk_dec b)" "de_rs2_immediate (bk_dec b)"
    "de_rs1_imm_value (bk_dec b) = rt_write_data t" "de_rs2_imm_value (bk_dec b) = 0"
    unfolding d by (simp_all add: decode_transfer_def decode_uses_rs1_o_def decode_uses_rs2_o_def)
  have ops: "exec_op1 c ?e = rt_write_data t" "exec_op2 c ?e = 0"
    using exec_op_immediate[OF cf(5)] uses by simp_all
  have ready: "shifter_mode c = Shift_Pipelined \<longrightarrow> \<not> sh_ready (al_shifter (ex_alu ?x))"
    using x by (auto simp: exec_idle_def exec_inv_def)
  note alu = alu_comb_or[where x = "exec_alu_in c ?e ?x" and m = "shifter_mode c" and s = "ex_alu ?x",
      OF _ _ _ _ ready, folded exec_alu_out_def]
  have av: "al_valid_o (exec_alu_out c ?e ?x)" "al_res_o (exec_alu_out c ?e ?x) = rt_write_data t"
    using alu[where v = "rt_write_data t"] ops dec taken by (simp_all add: exec_alu_in_def)
  have jump: "exec_jump_comb c ?e ?x = no_jump"
    using dec by (simp add: exec_jump_comb_def Let_def)
  have we: "\<not> ls_we_o c (ex_ls ?x)"
    using x cf by (auto simp: exec_idle_def ls_we_o_def write_pipe_index_def)
  have lp: "\<not> ex_load_pending ?x"
    using x by (simp add: exec_idle_def exec_inv_def)
  have "backend_retire c ?e ?x = Some (rt_regno t, rt_write_data t)"
    using av jump we lp dec taken
    by (simp add: backend_retire_def exec_reg_we_o_def exec_valid_o_def exec_rd_adr_o_def
        exec_source_value_def exec_wb_source_def exec_result_o_def no_jump_def)
  then show "backend_regs c (backend_step c False i b) =
       write_reg (Some (rt_regno t, rt_write_data t)) (backend_regs c b)"
    by (simp add: backend_regs_step)
  have legal: "exec_legal c ?e ?x"
    using dec by (auto simp: exec_legal_def decode_class_def intro!: exI[of _ Class_Alu])
  note inv' = exec_inv_step[OF cf(1,2) inv legal]
  have p: "length (ls_pipe (ex_ls ?x)) = 1" "ls_outstanding (ex_ls ?x) \<le> 1"
    "ls_valid_reg (ex_ls ?x) \<longrightarrow> ls_outstanding (ex_ls ?x) = 0"
    using inv by (simp_all add: exec_inv_def)
  have nls: "\<not> ls_taken c (exec_ls_in c ?e ?x) (ex_bus_i ?e) (ex_ls ?x)"
    using exec_ls_taken[OF taken] dec by simp
  have ls: "ls_outstanding (ex_ls (exec_step c False ?e ?x)) = 0"
    "\<not> ls_valid_reg (ex_ls (exec_step c False ?e ?x))"
    using exec_ls_inv_step(5)[OF cf(1,2) p nls] exec_ls_inv_step(2)[OF cf(1,2) p] x
    unfolding exec_step_fields(2) exec_idle_def by (auto simp: le_Suc_eq)
  have "\<not> al_busy_o (ex_alu (exec_step c False ?e ?x))"
    using dec by (simp add: exec_step_fields exec_alu_inv_step exec_alu_in_def is_shift_funct3_def)
  moreover have "\<not> ex_jump_busy (exec_step c False ?e ?x)"
    using exec_step_jump_regs[OF taken] jump by (simp add: no_jump_def)
  ultimately have "exec_idle c (bk_exec (backend_step c False i b))"
    using inv' ls by (simp add: exec_idle_def backend_step_stages)
  moreover have "\<not> de_valid_o (bk_dec (backend_step c False i b))"
    unfolding backend_step_stages
    using en w nb
    by (auto simp: decode_step_def decode_op_def decode_downstream_busy_def
        backend_dec_in_def backend_dec_data_def)
  ultimately show "backend_drained c (backend_step c False i b)"
    by (simp add: backend_drained_def)
qed

subsection \<open>A halted core\<close>

text \<open>\<open>bus t\<close> is what the instruction bus and the data bus answer at edge \<open>t\<close>; it is arbitrary.\<close>

type_synonym dk_bus = "nat \<Rightarrow> dbus_rsp \<times> dbus_rsp"

fun dk_run :: "bonfire_config \<Rightarrow> dk_bus \<Rightarrow> dmi_request list \<Rightarrow> nat \<times> debug_core \<Rightarrow> (nat \<times> debug_core) option"
where
  "dk_run c bus [] ts = Some ts"
| "dk_run c bus (r # rs) (t, s) =
     (case debug_core_step c False r (fst (bus t)) (snd (bus t)) s of
        None \<Rightarrow> None | Some s' \<Rightarrow> dk_run c bus rs (Suc t, s'))"

lemma dk_run_append:
  "dk_run c bus (rs @ qs) ts =
     (case dk_run c bus rs ts of None \<Rightarrow> None | Some ts' \<Rightarrow> dk_run c bus qs ts')"
  by (induction rs arbitrary: ts) (auto split: option.splits)

definition dk_parked :: "debug_core \<Rightarrow> bool" where
  "dk_parked s \<longleftrightarrow> hd_state_reg (dk_hd s) = Hd_Halted \<and> \<not> hd_redirect_valid (dk_hd s) \<and>
     \<not> dm_resumereq (dk_dm s)"

text \<open>A halted core fetches nothing, so its edge cannot fail; the hart stays halted.\<close>

definition dk_halted_next :: "bonfire_config \<Rightarrow> dmi_request \<Rightarrow> dbus_rsp \<Rightarrow> fetch_state \<Rightarrow> debug_core \<Rightarrow> debug_core" where
  "dk_halted_next c r dbus f s =
     (let i = dk_backend_in c dbus s; b = dk_backend s; a = dk_adapter_in c dbus s in
      \<lparr>dk_fetch = f, dk_backend = backend_step c False i b,
       dk_dm = dmi_seq c (dk_dmi_in False r s) (dk_dm s),
       dk_ac = ac_state_machine c (dk_dm s) Hart_Halted (decode_read_data (backend_dec_in c i b))
                 (adapter_completion a (dk_adapter s)) (dk_ac s),
       dk_hd = hd_state_machine (dk_dm s) (cs_debug (ex_csr (bk_exec b))) (dk_events c dbus s) (dk_hd s),
       dk_adapter = adapter_boundary a (dk_adapter s)\<rparr>)"

lemma dk_parked_step:
  assumes "dk_parked s"
  shows "\<exists>f. debug_core_step c False r ibus dbus s = Some (dk_halted_next c r dbus f s)"
proof -
  have "\<not> hd_allow_fetch (dk_dm s) (dk_hd s)"
    using assms by (simp add: dk_parked_def hd_allow_fetch_def)
  then have "fe_stall_i (dk_fetch_in c ibus dbus s)"
    by (simp add: dk_fetch_in_def adapter_fetch_stall_def dk_adapter_in_def Let_def)
  then have "\<not> fetch_raises (dk_fetch_in c ibus dbus s) (dk_fetch s)"
    by (simp add: fetch_raises_def fetch_advance_def)
  then show ?thesis
    using assms
    by (auto simp: debug_core_step_def fetch_step_def dk_halted_next_def dk_parked_def
        hd_hart_state_def Let_def)
qed

lemma dk_parked_hd:
  assumes "dk_parked s"
  shows "hd_state_reg (dk_hd (dk_halted_next c r dbus f s)) = Hd_Halted"
    "\<not> hd_redirect_valid (dk_hd (dk_halted_next c r dbus f s))"
  using assms by (simp_all add: dk_halted_next_def hd_state_machine_def dk_parked_def Let_def)

lemma dk_backend_in_fields [simp]:
  "bk_transfer (dk_backend_in c dbus s) = ac_register_transfer (dk_dm s) (dk_ac s)"
  "bk_fetch (dk_backend_in c dbus s) =
     adapter_decode_in (fetch_out (dk_fetch s)) (hd_allow_fetch (dk_dm s) (dk_hd s))
                   (hd_redirect_valid (dk_hd s)) (dk_issue c s)"
  by (simp_all add: dk_backend_in_def dk_backend_in0_def)

lemma dk_parked_no_word:
  assumes "dk_parked s" "ac_command_state (dk_ac s) \<notin> {Ac_Exec, Ac_Exec2}"
  shows "\<not> fb_en_i (bk_fetch (dk_backend_in c dbus s))"
  using assms
  by (simp add: adapter_decode_in_def adapter_source_valid_def dk_issue_def ac_progbuf_issue_def
      dk_parked_def hd_allow_fetch_def)

subsection \<open>The register interface between accesses\<close>

definition dm_calm :: "bonfire_config \<Rightarrow> dm_state \<Rightarrow> bool" where
  "dm_calm c d \<longleftrightarrow> dm_dmactive d \<and> dm_cmderr d = CMDERR_NONE \<and> \<not> dm_abstract_busy_error d \<and>
     \<not> dm_resumereq d \<and> \<not> bit (dm_auto_data d) 0 \<and> length (dm_data_regs d) = numdata c"

text \<open>The parameters of the current command: transfer of one register, nothing executed.\<close>

definition dm_transfers :: "bool \<Rightarrow> regno \<Rightarrow> dm_state \<Rightarrow> bool" where
  "dm_transfers wr n d \<longleftrightarrow> dm_command_type d = Access_Reg \<and> dm_transfer d \<and> \<not> dm_postexec d \<and>
     dm_write d = wr \<and> dm_regno d = n"

lemma dk_dmi_in_fields [simp]:
  "di_en (dk_dmi_in x r s) = dr_en r" "di_we (dk_dmi_in x r s) = dr_we r"
  "di_adr (dk_dmi_in x r s) = dr_adr r" "di_dbi (dk_dmi_in x r s) = dr_dbi r"
  "di_hart_reset (dk_dmi_in x r s) = x" "di_hart_state (dk_dmi_in x r s) = hd_hart_state (dk_hd s)"
  "di_command_state (dk_dmi_in x r s) = ac_command_state (dk_ac s)"
  "di_command_result (dk_dmi_in x r s) = ac_result (dk_ac s)"
  by (simp_all add: dk_dmi_in_def)

text \<open>No access, or one that only looks: a read of \<open>abstractcs\<close> or \<open>dmstatus\<close>, as a host does while
  it waits.\<close>

definition dm_harmless :: "dmi_in \<Rightarrow> bool" where
  "dm_harmless i \<longleftrightarrow> (di_en i \<longrightarrow> \<not> di_we i \<and> di_adr i \<in> {DMI_ADDR_ABSTRACTCS, DMI_ADDR_DMSTATUS})"

lemma dm_quiet_edge:
  assumes c: "dm_config_ok c" and d: "dm_calm c d"
    and i: "dm_harmless i" "di_command_state i \<noteq> Ac_Failed"
  shows "dm_calm c (dmi_seq c i d)"
    "dm_abstract_command_new (dmi_seq c i d) =
       (dm_abstract_command_new d \<and> di_command_state i \<noteq> Ac_Taken)"
    "dm_data_regs (dmi_seq c i d) =
       (if di_command_state i = Ac_Regvalid then (dm_data_regs d)[0 := di_command_result i]
        else dm_data_regs d)"
    "dm_transfers wr n (dmi_seq c i d) = dm_transfers wr n d"
    "di_en i \<Longrightarrow> di_adr i = DMI_ADDR_ABSTRACTCS \<Longrightarrow> dm_dbo (dmi_seq c i d) = dm_abstractcs c i d"
    "dm_command_regs (dmi_seq c i d) = dm_command_regs d"
proof -
  let ?n = "dm_lifecycle i d (d\<lparr>dm_dbo := 0\<rparr>)"
  have data: "\<not> dm_is_data_reg c i" if "di_adr i = DMI_ADDR_ABSTRACTCS"
    using dm_data_reg_distinct(4)[OF c, of i] that by blast
  obtain v where seq: "dmi_seq c i d = ?n\<lparr>dm_dbo := v\<rparr>"
    "di_en i \<Longrightarrow> di_adr i = DMI_ADDR_ABSTRACTCS \<Longrightarrow> v = dm_abstractcs c i d"
  proof (cases "di_en i")
    case True
    then have "\<not> di_we i" "di_adr i = DMI_ADDR_ABSTRACTCS \<or> di_adr i = DMI_ADDR_DMSTATUS"
      using i by (auto simp: dm_harmless_def)
    then have "dmi_seq c i d = ?n\<lparr>dm_dbo := if di_adr i = DMI_ADDR_ABSTRACTCS
        then dm_abstractcs c i d else dm_dmstatus i d\<rparr>"
      using d True data by (auto simp: dmi_seq_def dm_calm_def dm_read_def Let_def)
    then show ?thesis using that by simp
  next
    case False
    have "?n\<lparr>dm_dbo := dm_dbo ?n\<rparr> = ?n" by simp
    moreover have "dmi_seq c i d = ?n" using d False by (simp add: dmi_seq_def dm_calm_def Let_def)
    ultimately show ?thesis using that False by metis
  qed
  have life: "dm_calm c ?n" "dm_transfers wr n ?n = dm_transfers wr n d"
    "dm_data_regs ?n = (if di_command_state i = Ac_Regvalid
       then (dm_data_regs d)[0 := di_command_result i] else dm_data_regs d)"
    using d i(2) by (auto simp: dm_calm_def dm_lifecycle_def dm_transfers_def Let_def)
  show "dm_calm c (dmi_seq c i d)" "dm_transfers wr n (dmi_seq c i d) = dm_transfers wr n d"
    unfolding seq(1) using life(1,2) by (simp_all add: dm_calm_def dm_transfers_def)
  show "dm_abstract_command_new (dmi_seq c i d) =
       (dm_abstract_command_new d \<and> di_command_state i \<noteq> Ac_Taken)"
    unfolding seq(1) by auto
  show "dm_data_regs (dmi_seq c i d) =
       (if di_command_state i = Ac_Regvalid then (dm_data_regs d)[0 := di_command_result i]
        else dm_data_regs d)"
    unfolding seq(1) using life(3) by simp
  show "di_en i \<Longrightarrow> di_adr i = DMI_ADDR_ABSTRACTCS \<Longrightarrow> dm_dbo (dmi_seq c i d) = dm_abstractcs c i d"
    unfolding seq(1) using seq(2) by simp
  show "dm_command_regs (dmi_seq c i d) = dm_command_regs d"
    unfolding seq(1) by (simp add: dm_command_regs_def)
qed

lemma dm_idle_lifecycle:
  assumes "dm_calm c d" "\<not> dm_command_busy i d"
  shows "dm_calm c (dm_lifecycle i d (d\<lparr>dm_dbo := 0\<rparr>))"
    "dm_data_regs (dm_lifecycle i d (d\<lparr>dm_dbo := 0\<rparr>)) = dm_data_regs d"
    "\<not> dm_abstract_command_new (dm_lifecycle i d (d\<lparr>dm_dbo := 0\<rparr>))"
  using assms by (auto simp: dm_calm_def dm_lifecycle_def dm_command_busy_def Let_def)

definition dmi_write :: "dmi_adr \<Rightarrow> xword \<Rightarrow> dmi_request" where
  "dmi_write a v = \<lparr>dr_en = True, dr_we = True, dr_adr = a, dr_dbi = v\<rparr>"

definition dmi_read :: "dmi_adr \<Rightarrow> dmi_request" where
  "dmi_read a = \<lparr>dr_en = True, dr_we = False, dr_adr = a, dr_dbi = 0\<rparr>"

definition dmi_harmless :: "dmi_request \<Rightarrow> bool" where
  "dmi_harmless r \<longleftrightarrow>
     (dr_en r \<longrightarrow> \<not> dr_we r \<and> dr_adr r \<in> {DMI_ADDR_ABSTRACTCS, DMI_ADDR_DMSTATUS})"

lemma dmi_harmless_in: "dmi_harmless r \<Longrightarrow> dm_harmless (dk_dmi_in x r s)"
  by (simp add: dmi_harmless_def dm_harmless_def)

lemma dmi_harmless_simps [simp]:
  "dmi_harmless dmi_quiet" "dmi_harmless (dmi_read DMI_ADDR_ABSTRACTCS)"
  by (simp_all add: dmi_harmless_def dmi_quiet_def dmi_read_def)

text \<open>The access-register command for general register \<open>n\<close>: 32 bits, transfer, register number
  \<open>0x1000 + n\<close>.\<close>

definition access_register :: "bool \<Rightarrow> regno \<Rightarrow> xword" where
  "access_register wr n =
     bv_put_slice 5 0 n (bv_put 12 True (bv_put 16 wr (bv_put 17 True (bv_put 21 True 0))))"

lemma access_register_fields [simp]:
  "bv_slice 32 24 (access_register wr n) = (0 :: 8 word)"
  "bit (access_register wr n) 19 = False" "bit (access_register wr n) 18 = False"
  "bit (access_register wr n) 17 = True" "bit (access_register wr n) 16 = wr"
  "bv_slice 23 20 (access_register wr n) = (2 :: 3 word)"
  "bv_slice 16 5 (access_register wr n) = (0x80 :: 11 word)"
  "bv_slice 5 0 (access_register wr n) = n"
proof -
  have c: "(2 :: 3 word) = bv_put 1 True 0" "(0x80 :: 11 word) = bv_put 7 True 0"
    by (simp_all add: bv_put_def set_bit_eq_or)
  show "bv_slice 32 24 (access_register wr n) = (0 :: 8 word)"
    "bv_slice 23 20 (access_register wr n) = (2 :: 3 word)"
    "bv_slice 16 5 (access_register wr n) = (0x80 :: 11 word)"
    "bv_slice 5 0 (access_register wr n) = n"
    unfolding c access_register_def by (rule bv_eqI; auto simp: bv_simps)+
  show "bit (access_register wr n) 19 = False" "bit (access_register wr n) 18 = False"
    "bit (access_register wr n) 17 = True" "bit (access_register wr n) 16 = wr"
    by (simp_all add: access_register_def bv_simps)
qed

text \<open>What the three accesses of a session do to the module when no command runs.\<close>

lemma dm_command_edge:
  assumes d: "dm_calm c d" "\<not> dm_command_busy i d" "di_hart_state i = Hart_Halted"
    and i: "di_en i" "di_we i" "di_adr i = DMI_ADDR_COMMAND" "di_dbi i = access_register wr n"
    and c: "dm_config_ok c"
  shows "dm_calm c (dmi_seq c i d)" "dm_abstract_command_new (dmi_seq c i d)"
    "dm_data_regs (dmi_seq c i d) = dm_data_regs d" "dm_transfers wr n (dmi_seq c i d)"
proof -
  let ?n = "dm_lifecycle i d (d\<lparr>dm_dbo := 0\<rparr>)"
  have "\<not> dm_is_data_reg c i" using dm_data_reg_distinct(5)[OF c, of i] i by blast
  then have seq: "dmi_seq c i d = ?n\<lparr>dm_command_type := Access_Reg, dm_aarsize := 2,
      dm_aarpostincrement := False, dm_postexec := False, dm_transfer := True, dm_write := wr,
      dm_regno := n, dm_abstract_command_new := True\<rparr>"
    using d i by (simp add: dmi_seq_def dm_calm_def dm_write_reg_def dm_write_command_def Let_def)
  note life = dm_idle_lifecycle[OF d(1,2)]
  show "dm_calm c (dmi_seq c i d)" "dm_abstract_command_new (dmi_seq c i d)"
    "dm_data_regs (dmi_seq c i d) = dm_data_regs d" "dm_transfers wr n (dmi_seq c i d)"
    unfolding seq using life by (simp_all add: dm_calm_def dm_transfers_def)
qed

lemma dm_data0_edge:
  assumes d: "dm_calm c d" "\<not> dm_command_busy i d"
    and i: "di_en i" "di_adr i = DMI_ADDR_DATA0" and c: "dm_config_ok c"
  shows "dm_calm c (dmi_seq c i d)" "\<not> dm_abstract_command_new (dmi_seq c i d)"
    "dm_data_regs (dmi_seq c i d) =
       (if di_we i then (dm_data_regs d)[0 := di_dbi i] else dm_data_regs d)"
    "\<not> di_we i \<Longrightarrow> dm_dbo (dmi_seq c i d) = dm_data_regs d ! 0"
proof -
  let ?n = "dm_lifecycle i d (d\<lparr>dm_dbo := 0\<rparr>)"
  have r: "dm_is_data_reg c i" "dm_data_index i = 0"
    using i c by (auto simp: dm_is_data_reg_def dm_data_index_def dm_config_ok_def)
  have seq: "dmi_seq c i d =
      (if di_we i then ?n\<lparr>dm_data_regs := (dm_data_regs ?n)[0 := di_dbi i]\<rparr>
       else ?n\<lparr>dm_dbo := dm_data_regs d ! 0\<rparr>)"
    using d i r by (simp add: dmi_seq_def dm_calm_def dm_write_reg_def dm_read_def
        dm_buffer_read_def dm_autoexec_def Let_def)
  note life = dm_idle_lifecycle[OF d]
  show "dm_calm c (dmi_seq c i d)" "\<not> dm_abstract_command_new (dmi_seq c i d)"
    "dm_data_regs (dmi_seq c i d) =
       (if di_we i then (dm_data_regs d)[0 := di_dbi i] else dm_data_regs d)"
    "\<not> di_we i \<Longrightarrow> dm_dbo (dmi_seq c i d) = dm_data_regs d ! 0"
    unfolding seq using life by (simp_all add: dm_calm_def)
qed

subsection \<open>One access of the core\<close>

definition dk_ready :: "bonfire_config \<Rightarrow> debug_core \<Rightarrow> bool" where
  "dk_ready c s \<longleftrightarrow> dk_parked s \<and> dm_calm c (dk_dm s) \<and> \<not> dm_abstract_command_new (dk_dm s) \<and>
     ac_command_state (dk_ac s) = Ac_None \<and> backend_idle c (dk_backend s)"

abbreviation (input) dk_regs :: "bonfire_config \<Rightarrow> debug_core \<Rightarrow> regno \<Rightarrow> xword" where
  "dk_regs c s \<equiv> backend_regs c (dk_backend s)"

abbreviation (input) dk_data0 :: "debug_core \<Rightarrow> xword" where
  "dk_data0 s \<equiv> dm_data_regs (dk_dm s) ! 0"

lemma dk_halted_next_fields:
  "dk_dm (dk_halted_next c r dbus f s) = dmi_seq c (dk_dmi_in False r s) (dk_dm s)"
  "dk_backend (dk_halted_next c r dbus f s) =
     backend_step c False (dk_backend_in c dbus s) (dk_backend s)"
  "dk_ac (dk_halted_next c r dbus f s) =
     ac_state_machine c (dk_dm s) Hart_Halted
       (decode_read_data (backend_dec_in c (dk_backend_in c dbus s) (dk_backend s)))
       (adapter_completion (dk_adapter_in c dbus s) (dk_adapter s)) (dk_ac s)"
  by (simp_all add: dk_halted_next_def Let_def)

subsection \<open>What the accesses leave alone\<close>

text \<open>The program buffer and the restart selection only change when they are written.\<close>

lemma dmi_seq_progbufs:
  assumes "dm_dmactive d"
  shows "\<not> (di_en i \<and> di_we i \<and> di_adr i \<in> {DMI_ADDR_PROGBUF0, DMI_ADDR_PROGBUF1}) \<Longrightarrow>
      dm_progbuf0 (dmi_seq c i d) = dm_progbuf0 d \<and> dm_progbuf1 (dmi_seq c i d) = dm_progbuf1 d"
    "\<not> (di_en i \<and> di_we i \<and> di_adr i = DMI_ADDR_ABSTRACTAUTO) \<Longrightarrow>
      dm_auto_progbuf (dmi_seq c i d) = dm_auto_progbuf d"
  using assms
  by (auto simp: dmi_seq_def dm_read_def dm_write_reg_def dm_buffer_read_def dm_autoexec_def
      dm_refuse_busy_def dm_write_dmcontrol_def dm_write_command_def Let_def)

lemma exec_trap_quiet:
  "\<not> (exec_taken c e x \<and> de_sys_cmd (ex_dec e)) \<Longrightarrow> trap_quiet (exec_trap_update c e x)"
  by (auto simp: exec_trap_update_def trap_quiet_def exec_jump_comb_def exec_branch_def
      no_jump_def Let_def)

lemma case_option_False: "\<not> (case x of None \<Rightarrow> False | Some v \<Rightarrow> False)"
  by (cases x) simp_all

lemma csr_selected_no_write: "\<not> csr_taken i \<Longrightarrow> \<not> sel_csr_we (csr_selected c i x)"
  by (simp add: csr_selected_def Let_def if_distrib[where f = sel_csr_we]
      option.case_distrib[where h = sel_csr_we] case_option_False cong: option.case_cong)

text \<open>Without a CSR or system instruction the CSRs keep their values, the cycle counter apart.\<close>

lemma exec_csrs_kept:
  assumes nc: "exec_taken c e x \<longrightarrow> \<not> de_csr_cmd (ex_dec e) \<and> \<not> de_sys_cmd (ex_dec e)"
    and q: "debug_quiet (ex_debug_update_i e)"
  shows "cs_trap (ex_csr (exec_step c False e x)) = cs_trap (ex_csr x)"
    "cs_debug (ex_csr (exec_step c False e x)) = cs_debug (ex_csr x)"
proof -
  have "\<not> sel_csr_we (csr_selected c (exec_csr_in c e x) (ex_csr x))"
    using nc by (intro csr_selected_no_write) (auto simp: exec_csr_in_def csr_taken_def)
  moreover have "trap_quiet (exec_trap_update c e x)" using nc by (intro exec_trap_quiet) auto
  ultimately show "cs_trap (ex_csr (exec_step c False e x)) = cs_trap (ex_csr x)"
    "cs_debug (ex_csr (exec_step c False e x)) = cs_debug (ex_csr x)"
    using q by (simp_all add: exec_step_fields csr_step_def trap_csr_step_def debug_csr_step_def
        trap_csr_update_def trap_quiet_def debug_quiet_def Let_def)
qed

text \<open>The error outputs of the load/store unit are registers that keep the outcome of the last
  access.\<close>

definition ls_flags_clear :: "ls_state \<Rightarrow> bool" where
  "ls_flags_clear l \<longleftrightarrow> \<not> ls_bus_error_o l \<and> \<not> ls_invalid_op_o l \<and> \<not> ls_misalign_load_o l \<and>
     \<not> ls_misalign_store_o l"

lemma ls_flags_kept:
  "ls_outstanding l = 0 \<Longrightarrow> ls_flags_clear (ls_step c False i b l) = ls_flags_clear l"
  by (simp add: ls_flags_clear_def ls_step_def ls_out_regs_def ls_calc_outstanding_def
      ls_drive_bus_def Let_def)

text \<open>The parts of a halted core that accesses of the general registers do not touch.\<close>

definition dk_settled :: "bonfire_config \<Rightarrow> debug_core \<Rightarrow> bool" where
  "dk_settled c s \<longleftrightarrow> backend_inv c (dk_backend s) \<and> \<not> ads_active (dk_adapter s) \<and>
     debug_quiet (hd_csr_update (dk_hd s)) \<and> dm_auto_progbuf (dk_dm s) = 0 \<and>
     ls_flags_clear (ex_ls (bk_exec (dk_backend s)))"

definition dk_csrs :: "debug_core \<Rightarrow> trap_csrs \<times> debug_csrs" where
  "dk_csrs s = (cs_trap (ex_csr (bk_exec (dk_backend s))), cs_debug (ex_csr (bk_exec (dk_backend s))))"

definition dk_progbufs :: "debug_core \<Rightarrow> xword \<times> xword" where
  "dk_progbufs s = (dm_progbuf0 (dk_dm s), dm_progbuf1 (dk_dm s))"

definition dk_frame :: "bonfire_config \<Rightarrow> debug_core \<Rightarrow> debug_core \<Rightarrow> bool" where
  "dk_frame c s s' \<longleftrightarrow> (dk_settled c s \<longrightarrow> dk_settled c s' \<and> dk_csrs s' = dk_csrs s)"

definition dk_kept :: "bonfire_config \<Rightarrow> debug_core \<Rightarrow> debug_core \<Rightarrow> bool" where
  "dk_kept c s s' \<longleftrightarrow> dk_frame c s s' \<and> dk_progbufs s' = dk_progbufs s"

lemma dk_frame_trans: "dk_frame c s s' \<Longrightarrow> dk_frame c s' s'' \<Longrightarrow> dk_frame c s s''"
  by (auto simp: dk_frame_def)

lemma dk_kept_refl [simp]: "dk_kept c s s"
  by (simp add: dk_kept_def dk_frame_def)

lemma dk_kept_trans: "dk_kept c s s' \<Longrightarrow> dk_kept c s' s'' \<Longrightarrow> dk_kept c s s''"
  by (auto simp: dk_kept_def intro: dk_frame_trans)

lemma dk_frame_edge:
  assumes p: "dk_parked s" "dm_dmactive (dk_dm s)" "ac_command_state (dk_ac s) \<notin> {Ac_Exec, Ac_Exec2}"
    and dec: "de_valid_o (bk_dec (dk_backend s)) \<longrightarrow> \<not> de_csr_cmd (bk_dec (dk_backend s)) \<and>
      \<not> de_sys_cmd (bk_dec (dk_backend s)) \<and> \<not> de_load_cmd (bk_dec (dk_backend s)) \<and>
      \<not> rt_valid (ac_register_transfer (dk_dm s) (dk_ac s))"
    and o: "ls_outstanding (ex_ls (bk_exec (dk_backend s))) = 0"
    and r: "dr_en r \<and> dr_we r \<longrightarrow> dr_adr r \<noteq> DMI_ADDR_ABSTRACTAUTO"
  shows "dk_frame c s (dk_halted_next c r dbus f s)"
    "\<not> (dr_en r \<and> dr_we r \<and> dr_adr r \<in> {DMI_ADDR_PROGBUF0, DMI_ADDR_PROGBUF1}) \<Longrightarrow>
       dk_kept c s (dk_halted_next c r dbus f s)"
proof -
  let ?s = "dk_halted_next c r dbus f s" and ?i = "dk_backend_in c dbus s" and ?b = "dk_backend s"
  let ?e = "backend_exec_in c ?i ?b"
  have en: "\<not> fb_en_i (bk_fetch ?i)" using dk_parked_no_word[OF p(1,3)] .
  have du: "ex_debug_update_i ?e = hd_csr_update (dk_hd s)"
    by (simp add: backend_exec_in_def dk_backend_in_def dk_backend_in0_def Let_def)
  show frame: "dk_frame c s ?s"
    unfolding dk_frame_def
  proof (intro impI conjI)
    assume s: "dk_settled c s"
    have env: "backend_env_ok c ?i ?b"
      using en dec by (auto simp: backend_env_ok_def exec_taken_def)
    have inv: "backend_inv c (dk_backend ?s)"
      using backend_inv_step[OF _ env] s by (simp add: dk_settled_def dk_halted_next_fields)
    have "\<not> adapter_accepted (dk_adapter_in c dbus s)"
      using p by (simp add: adapter_accepted_def adapter_source_valid_def dk_adapter_in_def
          dk_issue_def ac_progbuf_issue_def hd_allow_fetch_def dk_parked_def Let_def)
    then have ad: "\<not> ads_active (dk_adapter ?s)"
      using s by (simp add: dk_halted_next_def adapter_boundary_def dk_settled_def Let_def)
    have "debug_quiet (hd_csr_update (dk_hd ?s))"
      using p(1,2) by (simp add: dk_halted_next_def hd_state_machine_def dk_parked_def
          debug_quiet_def Let_def)
    moreover have "dm_auto_progbuf (dk_dm ?s) = dm_auto_progbuf (dk_dm s)"
      using dmi_seq_progbufs(2)[OF p(2), of "dk_dmi_in False r s" c] r
      by (simp add: dk_halted_next_fields)
    moreover have "ls_flags_clear (ex_ls (bk_exec (dk_backend ?s)))"
      using s ls_flags_kept[OF o]
      by (simp add: dk_settled_def dk_halted_next_fields backend_step_stages exec_step_fields)
    ultimately show "dk_settled c ?s"
      using inv ad s by (simp add: dk_settled_def)
    have "cs_trap (ex_csr (exec_step c False ?e (bk_exec ?b))) = cs_trap (ex_csr (bk_exec ?b))"
      "cs_debug (ex_csr (exec_step c False ?e (bk_exec ?b))) = cs_debug (ex_csr (bk_exec ?b))"
      using exec_csrs_kept[of c ?e "bk_exec ?b"] dec du s
      by (auto simp: exec_taken_def dk_settled_def)
    then show "dk_csrs ?s = dk_csrs s"
      by (simp add: dk_csrs_def dk_halted_next_fields backend_step_stages)
  qed
  assume "\<not> (dr_en r \<and> dr_we r \<and> dr_adr r \<in> {DMI_ADDR_PROGBUF0, DMI_ADDR_PROGBUF1})"
  then show "dk_kept c s ?s"
    using frame dmi_seq_progbufs(1)[OF p(2), of "dk_dmi_in False r s" c]
    by (simp add: dk_kept_def dk_progbufs_def dk_halted_next_fields)
qed

lemma dk_parked_halted: "dk_parked s \<Longrightarrow> hd_hart_state (dk_hd s) = Hart_Halted"
  by (simp add: dk_parked_def hd_hart_state_def)

lemma dk_parked_next:
  "dk_parked s \<Longrightarrow> dm_calm c (dk_dm (dk_halted_next c r dbus f s)) \<Longrightarrow>
     dk_parked (dk_halted_next c r dbus f s)"
  using dk_parked_hd[of s c r dbus f] by (simp add: dk_parked_def dm_calm_def)

lemma dm_not_busy: "dk_ready c s \<Longrightarrow> \<not> dm_command_busy (dk_dmi_in x r s) (dk_dm s)"
  by (simp add: dk_ready_def dm_command_busy_def)

text \<open>An edge that starts no command.\<close>

lemma dk_ready_edge:
  assumes c: "debug_config_ok c" and s: "dk_ready c s"
    and d: "dm_calm c (dmi_seq c (dk_dmi_in False r s) (dk_dm s))"
      "\<not> dm_abstract_command_new (dmi_seq c (dk_dmi_in False r s) (dk_dm s))"
  shows "dk_ready c (dk_halted_next c r dbus f s)"
    "dk_regs c (dk_halted_next c r dbus f s) = dk_regs c s"
proof -
  have parked: "dk_parked s" and ac: "ac_command_state (dk_ac s) = Ac_None"
    and new: "\<not> dm_abstract_command_new (dk_dm s)" and idle: "backend_idle c (dk_backend s)"
    using s by (simp_all add: dk_ready_def)
  have dr: "backend_drained c (dk_backend s)" using idle by (simp add: backend_idle_def)
  have w: "\<not> (rt_valid (bk_transfer (dk_backend_in c dbus s)) \<and>
      rt_write (bk_transfer (dk_backend_in c dbus s)))"
    using new by (simp add: ac_register_transfer_def ac_command_request_def)
  have en: "\<not> fb_en_i (bk_fetch (dk_backend_in c dbus s))"
    using dk_parked_no_word[OF parked] ac by simp
  note b = backend_drained_step[OF c dr en w]
  have "ac_command_state (dk_ac (dk_halted_next c r dbus f s)) = Ac_None"
    using ac new by (simp add: dk_halted_next_fields ac_state_machine_def ac_command_request_def)
  then show "dk_ready c (dk_halted_next c r dbus f s)"
    using d b dk_parked_next[OF parked, of c r dbus f]
    by (simp add: dk_ready_def dk_halted_next_fields)
  show "dk_regs c (dk_halted_next c r dbus f s) = dk_regs c s"
    using b by (simp add: dk_halted_next_fields)
qed

lemma dk_ready_quiet:
  assumes c: "debug_config_ok c" and s: "dk_ready c s" and r: "dmi_harmless r"
  shows "dk_ready c (dk_halted_next c r dbus f s)"
    "dk_regs c (dk_halted_next c r dbus f s) = dk_regs c s"
    "dk_data0 (dk_halted_next c r dbus f s) = dk_data0 s"
proof -
  have d: "dm_calm c (dk_dm s)" "\<not> dm_abstract_command_new (dk_dm s)"
    "di_command_state (dk_dmi_in False r s) = Ac_None" "dm_harmless (dk_dmi_in False r s)"
    using s dmi_harmless_in[OF r] by (simp_all add: dk_ready_def)
  note q = dm_quiet_edge[OF debug_config_facts(4)[OF c] d(1,4)]
  show "dk_ready c (dk_halted_next c r dbus f s)"
    "dk_regs c (dk_halted_next c r dbus f s) = dk_regs c s"
    "dk_data0 (dk_halted_next c r dbus f s) = dk_data0 s"
    using dk_ready_edge[OF c s] q d by (simp_all add: dk_halted_next_fields)
qed

lemma dk_ready_data0:
  assumes c: "debug_config_ok c" and s: "dk_ready c s" and r: "dr_en r" "dr_adr r = DMI_ADDR_DATA0"
  shows "dk_ready c (dk_halted_next c r dbus f s)"
    "dk_regs c (dk_halted_next c r dbus f s) = dk_regs c s"
    "dr_we r \<Longrightarrow> dk_data0 (dk_halted_next c r dbus f s) = dr_dbi r"
    "\<not> dr_we r \<Longrightarrow> dm_dbo (dk_dm (dk_halted_next c r dbus f s)) = dk_data0 s"
proof -
  have dc: "dm_config_ok c" using debug_config_facts[OF c] by simp
  have d: "dm_calm c (dk_dm s)" using s by (simp add: dk_ready_def)
  have len: "0 < length (dm_data_regs (dk_dm s))"
    using d dc by (auto simp: dm_calm_def dm_config_ok_def)
  have i: "di_en (dk_dmi_in False r s)" "di_adr (dk_dmi_in False r s) = DMI_ADDR_DATA0"
    using r by simp_all
  note q = dm_data0_edge[OF d dm_not_busy[OF s] i dc]
  show "dk_ready c (dk_halted_next c r dbus f s)"
    "dk_regs c (dk_halted_next c r dbus f s) = dk_regs c s"
    using dk_ready_edge[OF c s q(1,2)] by simp_all
  show "dr_we r \<Longrightarrow> dk_data0 (dk_halted_next c r dbus f s) = dr_dbi r"
    "\<not> dr_we r \<Longrightarrow> dm_dbo (dk_dm (dk_halted_next c r dbus f s)) = dk_data0 s"
    using q len by (simp_all add: dk_halted_next_fields)
qed

definition dmi_keeps :: "dmi_request \<Rightarrow> bool" where
  "dmi_keeps r \<longleftrightarrow> \<not> (dr_en r \<and> dr_we r \<and>
     dr_adr r \<in> {DMI_ADDR_PROGBUF0, DMI_ADDR_PROGBUF1, DMI_ADDR_ABSTRACTAUTO})"

lemma dmi_keeps_simps [simp]:
  "dmi_harmless r \<Longrightarrow> dmi_keeps r" "dmi_keeps (dmi_read a)"
  "dmi_keeps (dmi_write DMI_ADDR_DATA0 v)" "dmi_keeps (dmi_write DMI_ADDR_COMMAND v)"
  by (auto simp: dmi_keeps_def dmi_harmless_def dmi_read_def dmi_write_def)

lemma dk_ready_frame:
  assumes s: "dk_ready c s"
  shows "dr_en r \<and> dr_we r \<longrightarrow> dr_adr r \<noteq> DMI_ADDR_ABSTRACTAUTO \<Longrightarrow>
      dk_frame c s (dk_halted_next c r dbus f s)"
    "dmi_keeps r \<Longrightarrow> dk_kept c s (dk_halted_next c r dbus f s)"
proof -
  have p: "dk_parked s" "dm_dmactive (dk_dm s)"
    "ac_command_state (dk_ac s) \<notin> {Ac_Exec, Ac_Exec2}"
    and d: "\<not> de_valid_o (bk_dec (dk_backend s))" "ls_outstanding (ex_ls (bk_exec (dk_backend s))) = 0"
    using s by (simp_all add: dk_ready_def dm_calm_def backend_idle_def backend_drained_def exec_idle_def)
  show "dr_en r \<and> dr_we r \<longrightarrow> dr_adr r \<noteq> DMI_ADDR_ABSTRACTAUTO \<Longrightarrow>
      dk_frame c s (dk_halted_next c r dbus f s)"
    "dmi_keeps r \<Longrightarrow> dk_kept c s (dk_halted_next c r dbus f s)"
    using dk_frame_edge[OF p, of r c dbus f] d by (auto simp: dmi_keeps_def)
qed

text \<open>The four edges of a command, from the access that starts it to the core being ready
  again. \<open>dk_busy\<close> is what the phases in between share.\<close>

definition dk_busy :: "bonfire_config \<Rightarrow> bool \<Rightarrow> regno \<Rightarrow> bool \<Rightarrow> command_state \<Rightarrow> debug_core \<Rightarrow> bool" where
  "dk_busy c wr n new st s \<longleftrightarrow> dk_parked s \<and> dm_calm c (dk_dm s) \<and> dm_transfers wr n (dk_dm s) \<and>
     dm_abstract_command_new (dk_dm s) = new \<and> ac_command_state (dk_ac s) = st"

lemma dk_busy_edge:
  assumes c: "dm_config_ok c" and s: "dk_busy c wr n new st s" and r: "dmi_harmless r" and st: "st \<noteq> Ac_Failed"
    and ac: "ac_command_state (dk_ac (dk_halted_next c r dbus f s)) = st'"
  shows "dk_busy c wr n (new \<and> st \<noteq> Ac_Taken) st' (dk_halted_next c r dbus f s)"
    "st \<noteq> Ac_Regvalid \<Longrightarrow> dk_data0 (dk_halted_next c r dbus f s) = dk_data0 s"
    "st = Ac_Regvalid \<Longrightarrow>
       dk_data0 (dk_halted_next c r dbus f s) = ac_result (dk_ac s)"
proof -
  have d: "dm_calm c (dk_dm s)" and i: "dm_harmless (dk_dmi_in False r s)"
    "di_command_state (dk_dmi_in False r s) \<noteq> Ac_Failed"
    using s dmi_harmless_in[OF r] st by (simp_all add: dk_busy_def)
  note q = dm_quiet_edge[OF c d i]
  show "dk_busy c wr n (new \<and> st \<noteq> Ac_Taken) st' (dk_halted_next c r dbus f s)"
    using s q ac dk_parked_next[of s c r dbus f] by (simp add: dk_busy_def dk_halted_next_fields)
  show "st \<noteq> Ac_Regvalid \<Longrightarrow> dk_data0 (dk_halted_next c r dbus f s) = dk_data0 s"
    "st = Ac_Regvalid \<Longrightarrow>
       dk_data0 (dk_halted_next c r dbus f s) = ac_result (dk_ac s)"
    using q(3) d s c by (auto simp: dk_halted_next_fields dk_busy_def dm_calm_def dm_config_ok_def)
qed

lemma dk_busy_kept:
  assumes s: "dk_busy c wr n new st s" "st \<notin> {Ac_Exec, Ac_Exec2}" and r: "dmi_harmless r"
    and d: "\<not> de_valid_o (bk_dec (dk_backend s)) \<or>
      st = Ac_Taken \<and> (\<exists>t d0. bk_dec (dk_backend s) = decode_transfer t d0)"
    and x: "exec_idle c (bk_exec (dk_backend s))"
  shows "dk_kept c s (dk_halted_next c r dbus f s)"
proof -
  have p: "dk_parked s" "dm_dmactive (dk_dm s)"
    "ac_command_state (dk_ac s) \<notin> {Ac_Exec, Ac_Exec2}"
    using s by (simp_all add: dk_busy_def dm_calm_def)
  have "st = Ac_Taken \<Longrightarrow> \<not> rt_valid (ac_register_transfer (dk_dm s) (dk_ac s))"
    using s by (simp add: dk_busy_def ac_register_transfer_def ac_command_request_def)
  then show ?thesis
    using d r x
    by (intro dk_frame_edge(2)[OF p]) (auto simp: decode_transfer_def dmi_harmless_def exec_idle_def)
qed

lemma dk_command_start:
  assumes c: "debug_config_ok c" and s: "dk_ready c s"
    and r: "r = dmi_write DMI_ADDR_COMMAND (access_register wr n)"
  shows "dk_busy c wr n True Ac_None (dk_halted_next c r dbus f s)"
    "backend_idle c (dk_backend (dk_halted_next c r dbus f s))"
    "dk_regs c (dk_halted_next c r dbus f s) = dk_regs c s"
    "dk_data0 (dk_halted_next c r dbus f s) = dk_data0 s"
proof -
  have parked: "dk_parked s" and ac: "ac_command_state (dk_ac s) = Ac_None" and
    d: "dm_calm c (dk_dm s)" and new: "\<not> dm_abstract_command_new (dk_dm s)" and
    idle: "backend_idle c (dk_backend s)"
    using s by (simp_all add: dk_ready_def)
  have dr: "backend_drained c (dk_backend s)" using idle by (simp add: backend_idle_def)
  have en: "\<not> fb_en_i (bk_fetch (dk_backend_in c dbus s))"
    using dk_parked_no_word[OF parked] ac by simp
  have w: "\<not> (rt_valid (bk_transfer (dk_backend_in c dbus s)) \<and>
      rt_write (bk_transfer (dk_backend_in c dbus s)))"
    using new by (simp add: ac_register_transfer_def ac_command_request_def)
  note b = backend_drained_step[OF c dr en w]
  have i: "di_hart_state (dk_dmi_in False r s) = Hart_Halted" "di_en (dk_dmi_in False r s)"
    "di_we (dk_dmi_in False r s)" "di_adr (dk_dmi_in False r s) = DMI_ADDR_COMMAND"
    "di_dbi (dk_dmi_in False r s) = access_register wr n"
    using dk_parked_halted[OF parked] r by (simp_all add: dmi_write_def)
  note q = dm_command_edge[OF d dm_not_busy[OF s] i debug_config_facts(4)[OF c]]
  have "ac_command_state (dk_ac (dk_halted_next c r dbus f s)) = Ac_None"
    using ac new by (simp add: dk_halted_next_fields ac_state_machine_def ac_command_request_def)
  then show "dk_busy c wr n True Ac_None (dk_halted_next c r dbus f s)"
    using q dk_parked_next[OF parked, of c r dbus f]
    by (simp add: dk_busy_def dk_halted_next_fields)
  show "backend_idle c (dk_backend (dk_halted_next c r dbus f s))"
    "dk_regs c (dk_halted_next c r dbus f s) = dk_regs c s"
    "dk_data0 (dk_halted_next c r dbus f s) = dk_data0 s"
    using b q by (simp_all add: dk_halted_next_fields)
qed

lemma idle_regfile:
  "backend_idle c b \<Longrightarrow> regfile_arch (bk_rf b) = backend_regs c b"
  by (auto simp: backend_idle_def backend_regs_def wb_write_def)

lemma dk_command_request:
  assumes c: "debug_config_ok c" and s: "dk_busy c wr n True Ac_None s"
    and idle: "backend_idle c (dk_backend s)" and r: "dmi_harmless r"
  shows "dk_busy c wr n True Ac_Taken (dk_halted_next c r dbus f s)"
    "dk_regs c (dk_halted_next c r dbus f s) = dk_regs c s"
    "dk_data0 (dk_halted_next c r dbus f s) = dk_data0 s"
    "\<not> wr \<Longrightarrow> backend_idle c (dk_backend (dk_halted_next c r dbus f s)) \<and>
       regfile_rd_a (bk_rf (dk_backend (dk_halted_next c r dbus f s))) = dk_regs c s n"
    "wr \<Longrightarrow> let b = dk_backend (dk_halted_next c r dbus f s) in
       bk_dec b = decode_transfer \<lparr>rt_valid = True, rt_write = True, rt_regno = n,
                    rt_write_data = dk_data0 s\<rparr> (bk_dec (dk_backend s)) \<and>
       exec_idle c (bk_exec b) \<and> (exec_wb_stage c \<longrightarrow> \<not> wb_valid (bk_wb b))"
proof -
  let ?s = "dk_halted_next c r dbus f s" and ?i = "dk_backend_in c dbus s"
  have parked: "dk_parked s" and ac: "ac_command_state (dk_ac s) = Ac_None"
    using s by (simp_all add: dk_busy_def)
  have req: "ac_command_request (dk_dm s) (dk_ac s)"
    using s by (simp add: dk_busy_def ac_command_request_def dm_transfers_def)
  have t: "bk_transfer ?i = \<lparr>rt_valid = True, rt_write = wr, rt_regno = n, rt_write_data = dk_data0 s\<rparr>"
    using s req by (simp add: ac_register_transfer_def dk_busy_def dm_transfers_def)
  have en: "\<not> fb_en_i (bk_fetch ?i)" using dk_parked_no_word[OF parked] ac by simp
  have dr: "backend_drained c (dk_backend s)" using idle by (simp add: backend_idle_def)
  have "ac_command_state (dk_ac ?s) = Ac_Taken"
    using ac req s by (simp add: dk_halted_next_fields ac_state_machine_def dk_busy_def dm_calm_def)
  note e = dk_busy_edge[OF debug_config_facts(4)[OF c] s r _ this]
  show "dk_busy c wr n True Ac_Taken ?s" "dk_data0 ?s = dk_data0 s"
    using e by simp_all
  have q: "wr \<or> \<not> wr" by simp
  have read: "\<not> wr \<Longrightarrow> backend_idle c (dk_backend ?s) \<and> dk_regs c ?s = dk_regs c s"
    using backend_drained_step[OF c dr en] t by (simp add: dk_halted_next_fields)
  have wrt: "wr \<Longrightarrow> bk_dec (dk_backend ?s) = decode_transfer (bk_transfer ?i) (bk_dec (dk_backend s)) \<and>
      exec_idle c (bk_exec (dk_backend ?s)) \<and>
      (exec_wb_stage c \<longrightarrow> \<not> wb_valid (bk_wb (dk_backend ?s))) \<and> dk_regs c ?s = dk_regs c s"
    using backend_transfer_step[OF c idle, of ?i] t by (simp add: dk_halted_next_fields)
  show regs: "dk_regs c ?s = dk_regs c s" using read wrt by blast
  show "\<not> wr \<Longrightarrow> backend_idle c (dk_backend ?s) \<and>
       regfile_rd_a (bk_rf (dk_backend ?s)) = dk_regs c s n"
  proof -
    assume nw: "\<not> wr"
    have "regfile_rd_a (bk_rf (dk_backend ?s)) = regfile_arch (bk_rf (dk_backend ?s)) n"
      using t by (simp add: dk_halted_next_fields backend_step_def regfile_rd_step)
        (simp add: backend_rf_in_def decode_rs1_adr_o_def t Let_def)
    then show ?thesis using read[OF nw] idle_regfile[of c "dk_backend ?s"] by simp
  qed
  show "wr \<Longrightarrow> let b = dk_backend ?s in
       bk_dec b = decode_transfer \<lparr>rt_valid = True, rt_write = True, rt_regno = n,
                    rt_write_data = dk_data0 s\<rparr> (bk_dec (dk_backend s)) \<and>
       exec_idle c (bk_exec b) \<and> (exec_wb_stage c \<longrightarrow> \<not> wb_valid (bk_wb b))"
    using wrt t by (simp add: Let_def)
qed

lemma dk_command_taken:
  assumes c: "debug_config_ok c" and s: "dk_busy c wr n True Ac_Taken s" and r: "dmi_harmless r"
  shows "wr \<Longrightarrow> bk_dec (dk_backend s) = decode_transfer t d0 \<Longrightarrow> exec_idle c (bk_exec (dk_backend s)) \<Longrightarrow>
      (exec_wb_stage c \<longrightarrow> \<not> wb_valid (bk_wb (dk_backend s))) \<Longrightarrow>
      dk_busy c wr n False Ac_None (dk_halted_next c r dbus f s) \<and>
      backend_drained c (dk_backend (dk_halted_next c r dbus f s)) \<and>
      dk_regs c (dk_halted_next c r dbus f s) =
        write_reg (Some (rt_regno t, rt_write_data t)) (dk_regs c s)"
    and "\<not> wr \<Longrightarrow> backend_idle c (dk_backend s) \<Longrightarrow>
      dk_busy c wr n False Ac_Regvalid (dk_halted_next c r dbus f s) \<and>
      backend_idle c (dk_backend (dk_halted_next c r dbus f s)) \<and>
      dk_regs c (dk_halted_next c r dbus f s) = dk_regs c s \<and>
      ac_result (dk_ac (dk_halted_next c r dbus f s)) = regfile_rd_a (bk_rf (dk_backend s))"
proof -
  let ?s = "dk_halted_next c r dbus f s" and ?i = "dk_backend_in c dbus s"
  have parked: "dk_parked s" and ac: "ac_command_state (dk_ac s) = Ac_Taken"
    and tr: "dm_transfers wr n (dk_dm s)" and act: "dm_dmactive (dk_dm s)"
    using s by (simp_all add: dk_busy_def dm_calm_def)
  have en: "\<not> fb_en_i (bk_fetch ?i)" using dk_parked_no_word[OF parked] ac by simp
  have w: "\<not> (rt_valid (bk_transfer ?i) \<and> rt_write (bk_transfer ?i))"
    using ac by (simp add: ac_register_transfer_def ac_command_request_def)
  have st: "ac_command_state (dk_ac ?s) = (if wr then Ac_None else Ac_Regvalid)"
    using ac tr act by (simp add: dk_halted_next_fields ac_state_machine_def dm_transfers_def)
  have busy: "dk_busy c wr n False (if wr then Ac_None else Ac_Regvalid) ?s"
    using dk_busy_edge(1)[OF debug_config_facts(4)[OF c] s r _ st] by simp
  show "wr \<Longrightarrow> bk_dec (dk_backend s) = decode_transfer t d0 \<Longrightarrow> exec_idle c (bk_exec (dk_backend s)) \<Longrightarrow>
      (exec_wb_stage c \<longrightarrow> \<not> wb_valid (bk_wb (dk_backend s))) \<Longrightarrow>
      dk_busy c wr n False Ac_None ?s \<and> backend_drained c (dk_backend ?s) \<and>
      dk_regs c ?s = write_reg (Some (rt_regno t, rt_write_data t)) (dk_regs c s)"
    using backend_transfer_retire[OF c _ _ _ en w] busy by (simp add: dk_halted_next_fields)
  have res: "\<not> wr \<Longrightarrow> ac_result (dk_ac ?s) = regfile_rd_a (bk_rf (dk_backend s))"
    using ac tr act by (simp add: dk_halted_next_fields ac_state_machine_def dm_transfers_def
        decode_read_data_def backend_dec_in_def backend_dec_data_def)
  show "\<not> wr \<Longrightarrow> backend_idle c (dk_backend s) \<Longrightarrow>
      dk_busy c wr n False Ac_Regvalid ?s \<and> backend_idle c (dk_backend ?s) \<and>
      dk_regs c ?s = dk_regs c s \<and> ac_result (dk_ac ?s) = regfile_rd_a (bk_rf (dk_backend s))"
    using backend_drained_step[OF c _ en w] busy res
    by (simp add: dk_halted_next_fields backend_idle_def)
qed

lemma dk_command_end:
  assumes c: "debug_config_ok c" and s: "dk_busy c wr n False st s" "st \<in> {Ac_None, Ac_Regvalid}"
    and d: "backend_drained c (dk_backend s)" and r: "dmi_harmless r"
  shows "dk_ready c (dk_halted_next c r dbus f s)"
    "dk_regs c (dk_halted_next c r dbus f s) = dk_regs c s"
    "dk_data0 (dk_halted_next c r dbus f s) =
       (if st = Ac_Regvalid then ac_result (dk_ac s) else dk_data0 s)"
proof -
  let ?s = "dk_halted_next c r dbus f s" and ?i = "dk_backend_in c dbus s"
  have parked: "dk_parked s" and ac: "ac_command_state (dk_ac s) = st"
    and tr: "dm_transfers wr n (dk_dm s)" and act: "dm_dmactive (dk_dm s)"
    and new: "\<not> dm_abstract_command_new (dk_dm s)"
    using s by (simp_all add: dk_busy_def dm_calm_def)
  have en: "\<not> fb_en_i (bk_fetch ?i)" using dk_parked_no_word[OF parked] ac s(2) by auto
  have w: "\<not> (rt_valid (bk_transfer ?i) \<and> rt_write (bk_transfer ?i))"
    using new by (simp add: ac_register_transfer_def ac_command_request_def)
  note b = backend_drained_step[OF c d en w]
  have st: "ac_command_state (dk_ac ?s) = Ac_None"
    using ac tr act s(2) new
    by (auto simp: dk_halted_next_fields ac_state_machine_def dm_transfers_def ac_command_request_def)
  note e = dk_busy_edge[OF debug_config_facts(4)[OF c] s(1) r _ st]
  show "dk_ready c ?s"
    using e(1) s(2) b by (auto simp: dk_ready_def dk_busy_def dk_halted_next_fields)
  show "dk_regs c ?s = dk_regs c s" using b by (simp add: dk_halted_next_fields)
  show "dk_data0 ?s = (if st = Ac_Regvalid then ac_result (dk_ac s) else dk_data0 s)"
    using e(2,3) s(2) by auto
qed

subsection \<open>Sessions\<close>

text \<open>The requests of an access: a write puts the value into \<open>data0\<close> and starts the command; a
  read starts the command and fetches the result from \<open>data0\<close>. Three cycles without access, or
  any larger number, are left for the command.\<close>

datatype reg_access = Reg_Read regno | Reg_Write regno xword

fun access_requests :: "reg_access \<times> nat \<Rightarrow> dmi_request list" where
  "access_requests (Reg_Read n, k) =
     dmi_write DMI_ADDR_COMMAND (access_register False n) #
       replicate (3 + k) dmi_quiet @ [dmi_read DMI_ADDR_DATA0]"
| "access_requests (Reg_Write n v, k) =
     dmi_write DMI_ADDR_DATA0 v # dmi_write DMI_ADDR_COMMAND (access_register True n) #
       replicate (3 + k) dmi_quiet"

text \<open>What the host gets: the last word of the interface for a read, nothing for a write.\<close>

definition access_result :: "reg_access \<times> nat \<Rightarrow> debug_core \<Rightarrow> xword option" where
  "access_result a s = (case fst a of Reg_Read _ \<Rightarrow> Some (dm_dbo (dk_dm s)) | Reg_Write _ _ \<Rightarrow> None)"

definition dk_access ::
  "bonfire_config \<Rightarrow> dk_bus \<Rightarrow> reg_access \<times> nat \<Rightarrow> nat \<times> debug_core \<Rightarrow>
     (xword option \<times> nat \<times> debug_core) option" where
  "dk_access c bus a ts =
     map_option (\<lambda>ts'. (access_result a (snd ts'), ts')) (dk_run c bus (access_requests a) ts)"

fun access_spec :: "reg_access \<times> nat \<Rightarrow> (regno \<Rightarrow> xword) \<Rightarrow> xword option \<times> (regno \<Rightarrow> xword)" where
  "access_spec (Reg_Read n, k) R = (Some (R n), R)"
| "access_spec (Reg_Write n v, k) R = (None, write_reg (Some (n, v)) R)"

lemma dk_run_parked:
  assumes "dk_parked s"
  shows "\<exists>f. dk_run c bus (r # rs) (t, s) =
     dk_run c bus rs (Suc t, dk_halted_next c r (snd (bus t)) f s)"
proof -
  obtain f where "debug_core_step c False r (fst (bus t)) (snd (bus t)) s =
      Some (dk_halted_next c r (snd (bus t)) f s)"
    using dk_parked_step[OF assms] by blast
  then show ?thesis by auto
qed

lemma dk_ready_parked: "dk_ready c s \<Longrightarrow> dk_parked s"
  and dk_busy_parked: "dk_busy c wr n new st s \<Longrightarrow> dk_parked s"
  by (simp_all add: dk_ready_def dk_busy_def)

lemma dk_run_quiet:
  assumes c: "debug_config_ok c"
  shows "dk_ready c s \<Longrightarrow> \<exists>t' s'. dk_run c bus (replicate k dmi_quiet) (t, s) = Some (t', s') \<and>
     dk_ready c s' \<and> dk_regs c s' = dk_regs c s \<and> dk_data0 s' = dk_data0 s \<and> dk_kept c s s'"
proof (induction k arbitrary: t s)
  case (Suc k)
  obtain f where run: "dk_run c bus (dmi_quiet # replicate k dmi_quiet) (t, s) =
      dk_run c bus (replicate k dmi_quiet) (Suc t, dk_halted_next c dmi_quiet (snd (bus t)) f s)"
    using dk_run_parked[OF dk_ready_parked[OF Suc.prems]] by blast
  note q = dk_ready_quiet[OF c Suc.prems dmi_harmless_simps(1), of "snd (bus t)" f]
  have "dk_kept c s (dk_halted_next c dmi_quiet (snd (bus t)) f s)"
    by (rule dk_ready_frame(2)[OF Suc.prems]) simp
  then show ?case
    using Suc.IH[OF q(1), of "Suc t"] q run by (auto intro: dk_kept_trans)
qed simp

text \<open>What a read of \<open>abstractcs\<close> shows while no command has failed.\<close>

lemma dm_abstractcs_bits:
  "bit (dm_abstractcs c i d) 12 = dm_command_busy i d"
  "bv_slice 11 8 (dm_abstractcs c i d) = dm_cmderr d"
  by (simp add: dm_abstractcs_def bv_simps, rule bv_eqI, simp add: dm_abstractcs_def bv_simps)

definition dk_cmderr_clear :: "debug_core \<Rightarrow> bool" where
  "dk_cmderr_clear s \<longleftrightarrow> bv_slice 11 8 (dm_dbo (dk_dm s)) = (0 :: 3 word)"

lemma dk_poll_edge:
  assumes c: "debug_config_ok c" and d: "dm_calm c (dk_dm s)" "ac_command_state (dk_ac s) \<noteq> Ac_Failed"
  shows "dk_cmderr_clear (dk_halted_next c (dmi_read DMI_ADDR_ABSTRACTCS) dbus f s)"
    "bit (dm_dbo (dk_dm (dk_halted_next c (dmi_read DMI_ADDR_ABSTRACTCS) dbus f s))) 12 =
       dm_command_busy (dk_dmi_in False (dmi_read DMI_ADDR_ABSTRACTCS) s) (dk_dm s)"
proof -
  let ?i = "dk_dmi_in False (dmi_read DMI_ADDR_ABSTRACTCS) s"
  have i: "dm_harmless ?i" "di_command_state ?i \<noteq> Ac_Failed" "di_en ?i"
    "di_adr ?i = DMI_ADDR_ABSTRACTCS"
    using d(2) dmi_harmless_in[OF dmi_harmless_simps(2)] by (simp_all add: dmi_read_def)
  note q = dm_quiet_edge(5)[OF debug_config_facts(4)[OF c] d(1) i]
  show "dk_cmderr_clear (dk_halted_next c (dmi_read DMI_ADDR_ABSTRACTCS) dbus f s)"
    "bit (dm_dbo (dk_dm (dk_halted_next c (dmi_read DMI_ADDR_ABSTRACTCS) dbus f s))) 12 =
       dm_command_busy ?i (dk_dm s)"
    using d(1) by (simp_all add: dk_halted_next_fields q dm_abstractcs_bits dk_cmderr_clear_def dm_calm_def)
qed

text \<open>A command from start to end, with what it leaves in the registers and in \<open>data0\<close>; meanwhile
  the host waits or looks at \<open>abstractcs\<close>.\<close>

lemma dk_command_edges:
  assumes c: "debug_config_ok c" and s: "dk_ready c s"
    and q: "dmi_harmless q1" "dmi_harmless q2" "dmi_harmless q3"
  shows "\<exists>t' s'. dk_run c bus [dmi_write DMI_ADDR_COMMAND (access_register wr n), q1, q2, q3] (t, s) =
       Some (t', s') \<and> dk_ready c s' \<and>
     dk_regs c s' = (if wr then write_reg (Some (n, dk_data0 s)) (dk_regs c s) else dk_regs c s) \<and>
     (\<not> wr \<longrightarrow> dk_data0 s' = dk_regs c s n) \<and>
     (q3 = dmi_read DMI_ADDR_ABSTRACTCS \<longrightarrow> dk_cmderr_clear s') \<and> dk_kept c s s'"
proof -
  let ?r = "dmi_write DMI_ADDR_COMMAND (access_register wr n)"
  obtain f1 where r1: "dk_run c bus [?r, q1, q2, q3] (t, s) =
      dk_run c bus [q1, q2, q3] (Suc t, dk_halted_next c ?r (snd (bus t)) f1 s)"
    using dk_run_parked[OF dk_ready_parked[OF s]] by blast
  define s1 where "s1 = dk_halted_next c ?r (snd (bus t)) f1 s"
  note p1 = dk_command_start[OF c s refl, of wr n "snd (bus t)" f1, folded s1_def]
  obtain f2 where r2: "dk_run c bus [q1, q2, q3] (Suc t, s1) = dk_run c bus [q2, q3]
      (Suc (Suc t), dk_halted_next c q1 (snd (bus (Suc t))) f2 s1)"
    using dk_run_parked[OF dk_busy_parked[OF p1(1)]] by blast
  define s2 where "s2 = dk_halted_next c q1 (snd (bus (Suc t))) f2 s1"
  note p2 = dk_command_request[OF c p1(1,2) q(1), of "snd (bus (Suc t))" f2, folded s2_def]
  obtain f3 where r3: "dk_run c bus [q2, q3] (Suc (Suc t), s2) = dk_run c bus [q3]
        (Suc (Suc (Suc t)), dk_halted_next c q2 (snd (bus (Suc (Suc t)))) f3 s2)"
    using dk_run_parked[OF dk_busy_parked[OF p2(1)]] by blast
  define s3 where "s3 = dk_halted_next c q2 (snd (bus (Suc (Suc t)))) f3 s2"
  note p3 = dk_command_taken[OF c p2(1) q(2),
      where dbus = "snd (bus (Suc (Suc t)))" and f = f3, folded s3_def]
  define st where "st = (if wr then Ac_None else Ac_Regvalid)"
  have p3': "dk_busy c wr n False st s3 \<and> backend_drained c (dk_backend s3) \<and>
      dk_regs c s3 = (if wr then write_reg (Some (n, dk_data0 s)) (dk_regs c s) else dk_regs c s) \<and>
      (\<not> wr \<longrightarrow> ac_result (dk_ac s3) = dk_regs c s n)"
  proof (cases wr)
    case True
    then show ?thesis
      using p3(1)[OF True] p2(5)[OF True] p2(2) p1(3,4) by (simp add: st_def Let_def)
  next
    case False
    then show ?thesis
      using p3(2)[OF False] p2(4)[OF False] p2(2) p1(3,4) by (simp add: st_def backend_idle_def)
  qed
  have st: "st \<in> {Ac_None, Ac_Regvalid}" by (simp add: st_def)
  have park3: "dk_parked s3" using p3' dk_busy_parked by blast
  obtain f4 where r4: "dk_run c bus [q3] (Suc (Suc (Suc t)), s3) = dk_run c bus []
      (Suc (Suc (Suc (Suc t))), dk_halted_next c q3 (snd (bus (Suc (Suc (Suc t))))) f4 s3)"
    using dk_run_parked[OF park3] by blast
  define s4 where "s4 = dk_halted_next c q3 (snd (bus (Suc (Suc (Suc t))))) f4 s3"
  note p4 = dk_command_end[OF c _ st _ q(3),
      where s = s3 and wr = wr and n = n and dbus = "snd (bus (Suc (Suc (Suc t))))" and f = f4,
      folded s4_def]
  have "dm_calm c (dk_dm s3)" "ac_command_state (dk_ac s3) \<noteq> Ac_Failed"
    using p3' by (auto simp: dk_busy_def st_def)
  from dk_poll_edge(1)[OF c this, of "snd (bus (Suc (Suc (Suc t))))" f4]
  have "q3 = dmi_read DMI_ADDR_ABSTRACTCS \<longrightarrow> dk_cmderr_clear s4" by (auto simp: s4_def)
  moreover have "dk_run c bus [?r, q1, q2, q3] (t, s) = Some (Suc (Suc (Suc (Suc t))), s4)"
    using r1 r2 r3 r4 unfolding s1_def s2_def s3_def s4_def by (simp del: dk_run.simps(2))
  moreover have "dk_kept c s s4"
  proof -
    have "dk_kept c s s1" unfolding s1_def by (rule dk_ready_frame(2)[OF s]) simp
    moreover have "dk_kept c s1 s2"
      unfolding s2_def using p1(2) q(1)
      by (intro dk_busy_kept[OF p1(1)]) (simp_all add: backend_idle_def backend_drained_def)
    moreover have "dk_kept c s2 s3"
      unfolding s3_def using p2(4,5) q(2)
      by (intro dk_busy_kept[OF p2(1)])
        (auto simp: backend_idle_def backend_drained_def Let_def)
    moreover have "dk_kept c s3 s4"
      unfolding s4_def using p3' st q(3)
      by (intro dk_busy_kept[of c wr n False st]) (auto simp: backend_drained_def)
    ultimately show ?thesis by (blast intro: dk_kept_trans)
  qed
  ultimately show ?thesis using p4 p3' by (simp add: st_def)
qed

lemma dk_run_command:
  assumes c: "debug_config_ok c" and s: "dk_ready c s"
  shows "\<exists>t' s'. dk_run c bus (dmi_write DMI_ADDR_COMMAND (access_register wr n) #
       replicate (3 + k) dmi_quiet) (t, s) = Some (t', s') \<and> dk_ready c s' \<and>
     dk_regs c s' = (if wr then write_reg (Some (n, dk_data0 s)) (dk_regs c s) else dk_regs c s) \<and>
     (\<not> wr \<longrightarrow> dk_data0 s' = dk_regs c s n)"
proof -
  let ?r = "dmi_write DMI_ADDR_COMMAND (access_register wr n)"
  obtain t1 s1 where r1: "dk_run c bus [?r, dmi_quiet, dmi_quiet, dmi_quiet] (t, s) = Some (t1, s1)"
    "dk_ready c s1"
    "dk_regs c s1 = (if wr then write_reg (Some (n, dk_data0 s)) (dk_regs c s) else dk_regs c s)"
    "\<not> wr \<longrightarrow> dk_data0 s1 = dk_regs c s n"
    using dk_command_edges[OF c s dmi_harmless_simps(1) dmi_harmless_simps(1)
        dmi_harmless_simps(1), of bus wr n t] by blast
  obtain t2 s2 where r2: "dk_run c bus (replicate k dmi_quiet) (t1, s1) = Some (t2, s2)"
    "dk_ready c s2" "dk_regs c s2 = dk_regs c s1" "dk_data0 s2 = dk_data0 s1"
    using dk_run_quiet[OF c r1(2)] by blast
  have "?r # replicate (3 + k) dmi_quiet =
      [?r, dmi_quiet, dmi_quiet, dmi_quiet] @ replicate k dmi_quiet"
    by (simp add: numeral_3_eq_3)
  then show ?thesis using r1 r2 by (simp only: dk_run_append) simp
qed

lemma dk_access_contract:
  assumes c: "debug_config_ok c" and s: "dk_ready c (snd ts)"
  shows "\<exists>r ts'. dk_access c bus a ts = Some (r, ts') \<and> dk_ready c (snd ts') \<and>
     access_spec a (dk_regs c (snd ts)) = (r, dk_regs c (snd ts'))"
proof -
  obtain t s0 where ts: "ts = (t, s0)" by (cases ts)
  have s0: "dk_ready c s0" using s ts by simp
  obtain x k where a: "a = (x, k)" by (cases a)
  show ?thesis
  proof (cases x)
    case (Reg_Read n)
    obtain t1 s1 where r1: "dk_run c bus (dmi_write DMI_ADDR_COMMAND (access_register False n) #
        replicate (3 + k) dmi_quiet) (t, s0) = Some (t1, s1)" and p1: "dk_ready c s1"
      "dk_regs c s1 = dk_regs c s0" "dk_data0 s1 = dk_regs c s0 n"
      using dk_run_command[OF c s0, of bus False n k t] by auto
    obtain f where r2: "dk_run c bus [dmi_read DMI_ADDR_DATA0] (t1, s1) =
        Some (Suc t1, dk_halted_next c (dmi_read DMI_ADDR_DATA0) (snd (bus t1)) f s1)"
      using dk_run_parked[OF dk_ready_parked[OF p1(1)], of c bus "dmi_read DMI_ADDR_DATA0" "[]" t1]
      by auto
    have rd: "dr_en (dmi_read DMI_ADDR_DATA0)" "dr_adr (dmi_read DMI_ADDR_DATA0) = DMI_ADDR_DATA0"
      "\<not> dr_we (dmi_read DMI_ADDR_DATA0)"
      by (simp_all add: dmi_read_def)
    note p2 = dk_ready_data0[OF c p1(1) rd(1,2), of "snd (bus t1)" f]
    have "dk_run c bus (access_requests a) ts =
        Some (Suc t1, dk_halted_next c (dmi_read DMI_ADDR_DATA0) (snd (bus t1)) f s1)"
      using r1 r2 dk_run_append[of c bus "dmi_write DMI_ADDR_COMMAND (access_register False n) #
        replicate (3 + k) dmi_quiet" "[dmi_read DMI_ADDR_DATA0]" ts]
      by (simp add: a Reg_Read ts)
    then show ?thesis
      using p2 p1 rd(3) by (simp add: dk_access_def access_result_def a Reg_Read ts)
  next
    case (Reg_Write n v)
    let ?w = "dmi_write DMI_ADDR_DATA0 v"
    let ?cmd = "dmi_write DMI_ADDR_COMMAND (access_register True n) # replicate (3 + k) dmi_quiet"
    obtain f where r1: "dk_run c bus (?w # ?cmd) (t, s0) =
        dk_run c bus ?cmd (Suc t, dk_halted_next c ?w (snd (bus t)) f s0)"
      using dk_run_parked[OF dk_ready_parked[OF s0]] by blast
    define s1 where "s1 = dk_halted_next c ?w (snd (bus t)) f s0"
    have wr: "dr_en ?w" "dr_adr ?w = DMI_ADDR_DATA0" "dr_we ?w" "dr_dbi ?w = v"
      by (simp_all add: dmi_write_def)
    note p1 = dk_ready_data0[OF c s0 wr(1,2), of "snd (bus t)" f, folded s1_def]
    obtain t2 s2 where r2: "dk_run c bus ?cmd (Suc t, s1) = Some (t2, s2)" "dk_ready c s2"
      "dk_regs c s2 = write_reg (Some (n, dk_data0 s1)) (dk_regs c s1)"
      using dk_run_command[OF c p1(1), of bus True n k "Suc t"] by auto
    have "dk_run c bus (access_requests a) ts = Some (t2, s2)"
      using r1 r2(1) unfolding a Reg_Write ts access_requests.simps s1_def by simp
    then show ?thesis
      using r2 p1(2,3) wr by (simp add: dk_access_def access_result_def a Reg_Write) (simp add: ts)
  qed
qed

interpretation dk_port: device_port "dk_access c bus" "\<lambda>ts :: nat \<times> debug_core. debug_config_ok c \<and> dk_ready c (snd ts)"
  "\<lambda>_. True" "\<lambda>ts. dk_regs c (snd ts)" access_spec for c bus
proof unfold_locales
  fix a and ts :: "nat \<times> debug_core" assume "debug_config_ok c \<and> dk_ready c (snd ts)"
  then show "\<exists>r s'. dk_access c bus a ts = Some (r, s') \<and> (debug_config_ok c \<and> dk_ready c (snd s')) \<and>
      access_spec a (dk_regs c (snd ts)) = (r, dk_regs c (snd s'))"
    using dk_access_contract[of c ts bus a] by blast
qed

text \<open>
  The debugger sees and changes exactly the registers of the program. In a halted core with
  an empty pipeline, on either pipeline and whatever the buses answer, every session of register
  reads and writes over the debug module interface (each a DMI access of \<open>data0\<close> and an
  access-register command with at least three idle cycles) completes: every read returns the
  architectural register, every write is a write of the architectural register (a write of
  register 0 has no effect), nothing else changes in the register file, and the core is ready
  for the next session.
\<close>

theorem debug_session_refines:
  assumes "debug_config_ok c" "dk_ready c s"
  shows "\<exists>t' s'. session (dk_access c bus) as (t, s) =
       Some (fst (spec_session access_spec as (backend_regs c (dk_backend s))), t', s') \<and>
     dk_ready c s' \<and>
     backend_regs c (dk_backend s') = snd (spec_session access_spec as (backend_regs c (dk_backend s)))"
  using dk_port.session_refines[of c "(t, s)" "as" bus] assms by (auto simp: list_all_iff)

text \<open>A core that was halted before its first instruction.\<close>

definition debug_config :: bonfire_config where
  "debug_config = default_config\<lparr>enableDebugModule := True\<rparr>"

definition halted_core :: debug_core where
  "halted_core = (debug_core_init debug_config)\<lparr>
     dk_hd := hd_init\<lparr>hd_state_reg := Hd_Halted\<rparr>,
     dk_dm := (dm_init debug_config)\<lparr>dm_dmactive := True\<rparr>\<rparr>"

lemma debug_config_example: "debug_config_ok debug_config"
  by (simp add: debug_config_ok_def debug_config_def dm_config_ok_def exec_config_ok_def
      core_config_ok_def)

lemma halted_core_ready: "dk_ready debug_config halted_core"
proof -
  have "exec_inv debug_config (exec_init debug_config)"
    using debug_config_facts(1)[OF debug_config_example] by (rule exec_inv_init)
  then have "backend_idle debug_config (backend_init debug_config)"
    by (simp add: backend_idle_def backend_drained_def exec_idle_def backend_init_def
        decode_init_def wb_init_def exec_init_def ls_init_def alu_init_def)
  then show ?thesis
    by (simp add: dk_ready_def dk_parked_def halted_core_def debug_core_init_def hd_init_def
        dm_init_def dm_calm_def ac_init_def)
qed

lemma debug_session_refines_witness:
  "map_option fst (session (dk_access debug_config
       (\<lambda>t. (\<lparr>db_stall_i = False, db_ack_i = False, db_error_i = False, db_rd = 0\<rparr>,
             \<lparr>db_stall_i = False, db_ack_i = False, db_error_i = False, db_rd = 0\<rparr>)))
     [(Reg_Write 5 0x1234, 0), (Reg_Read 5, 2), (Reg_Write 0 7, 0), (Reg_Read 0, 0)]
     (0, halted_core)) = Some [None, Some 0x1234, None, Some 0]"
proof -
  let ?bus = "\<lambda>t :: nat. (\<lparr>db_stall_i = False, db_ack_i = False, db_error_i = False, db_rd = 0 :: xword\<rparr>,
             \<lparr>db_stall_i = False, db_ack_i = False, db_error_i = False, db_rd = 0 :: xword\<rparr>)"
  let ?as = "[(Reg_Write 5 0x1234, 0), (Reg_Read 5, 2), (Reg_Write 0 7, 0), (Reg_Read 0, 0)]"
  have "fst (spec_session access_spec ?as (backend_regs debug_config (dk_backend halted_core))) =
      [None, Some 0x1234, None, Some 0]"
    by (simp add: write_reg_Some Let_def)
  then show ?thesis
    using debug_session_refines[OF debug_config_example halted_core_ready, of ?bus ?as 0] by auto
qed

end
