(* ===== verification/Debug_Control.thy ===== *)
theory Debug_Control
  imports Debug_Access
begin

text \<open>
  Halting and single-stepping the running core (\<open>rtl/debug/hart_debug.py\<close> with
  \<open>rtl/debug/pipeline_adapter.py\<close> and the debug CSRs): what a halt request does to the
  instruction in flight and which program counter it leaves in \<open>dpc\<close>, that the halted core is
  ready for the debugger's accesses, and that a single step executes one instruction.
\<close>

subsection \<open>An edge with the fetch unit held\<close>

definition dk_next :: "bonfire_config \<Rightarrow> dmi_request \<Rightarrow> dbus_rsp \<Rightarrow> fetch_state \<Rightarrow> debug_core \<Rightarrow> debug_core" where
  "dk_next c r dbus f s =
     (let i = dk_backend_in c dbus s; b = dk_backend s; a = dk_adapter_in c dbus s in
      \<lparr>dk_fetch = f, dk_backend = backend_step c False i b,
       dk_dm = dmi_seq c (dk_dmi_in False r s) (dk_dm s),
       dk_ac = ac_state_machine c (dk_dm s) (hd_hart_state (dk_hd s))
                 (decode_read_data (backend_dec_in c i b))
                 (adapter_completion a (dk_adapter s)) (dk_ac s),
       dk_hd = hd_state_machine (dk_dm s) (cs_debug (ex_csr (bk_exec b))) (dk_events c dbus s) (dk_hd s),
       dk_adapter = adapter_boundary a (dk_adapter s)\<rparr>)"

lemma dk_next_fields [simp]:
  "dk_backend (dk_next c r dbus f s) = backend_step c False (dk_backend_in c dbus s) (dk_backend s)"
  "dk_dm (dk_next c r dbus f s) = dmi_seq c (dk_dmi_in False r s) (dk_dm s)"
  "dk_hd (dk_next c r dbus f s) = hd_state_machine (dk_dm s)
     (cs_debug (ex_csr (bk_exec (dk_backend s)))) (dk_events c dbus s) (dk_hd s)"
  "dk_adapter (dk_next c r dbus f s) = adapter_boundary (dk_adapter_in c dbus s) (dk_adapter s)"
  "dk_ac (dk_next c r dbus f s) = ac_state_machine c (dk_dm s) (hd_hart_state (dk_hd s))
     (decode_read_data (backend_dec_in c (dk_backend_in c dbus s) (dk_backend s)))
     (adapter_completion (dk_adapter_in c dbus s) (dk_adapter s)) (dk_ac s)"
  by (simp_all add: dk_next_def Let_def)

lemma debug_core_step_next:
  "debug_core_step c False r ibus dbus s = Some s' \<Longrightarrow> \<exists>f. s' = dk_next c r dbus f s"
  by (auto simp: debug_core_step_def dk_next_def Let_def)

lemma dk_held_step:
  assumes "\<not> hd_allow_fetch (dk_dm s) (dk_hd s)"
  shows "\<exists>f. debug_core_step c False r ibus dbus s = Some (dk_next c r dbus f s)"
proof -
  have "fe_stall_i (dk_fetch_in c ibus dbus s)"
    using assms by (simp add: dk_fetch_in_def adapter_fetch_stall_def dk_adapter_in_def Let_def)
  then have "\<not> fetch_raises (dk_fetch_in c ibus dbus s) (dk_fetch s)"
    by (simp add: fetch_raises_def fetch_advance_def)
  then show ?thesis by (auto simp: debug_core_step_def fetch_step_def dk_next_def Let_def)
qed

text \<open>The flush input of the backend reaches the decode stage only.\<close>

lemma dk_exec_in_flush:
  "backend_exec_in c (i\<lparr>bk_debug_flush := x\<rparr>) b = (backend_exec_in c i b)\<lparr>ex_debug_flush_i := x\<rparr>"
  by (simp add: backend_exec_in_def backend_dec_data_def Let_def)

lemma exec_flush_operands [simp]:
  "exec_op1 c (e\<lparr>ex_debug_flush_i := x\<rparr>) = exec_op1 c e"
  "exec_op2 c (e\<lparr>ex_debug_flush_i := x\<rparr>) = exec_op2 c e"
  "exec_busy c (e\<lparr>ex_debug_flush_i := x\<rparr>) y = exec_busy c e y"
  by (simp_all add: exec_op1_def exec_op2_def exec_forward1_def exec_forward2_def exec_busy_def)

lemma exec_flush_taken [simp]:
  "exec_taken c (e\<lparr>ex_debug_flush_i := x\<rparr>) y = exec_taken c e y"
  by (simp add: exec_taken_def)

lemma exec_flush_units [simp]:
  "exec_alu_in c (e\<lparr>ex_debug_flush_i := x\<rparr>) y = exec_alu_in c e y"
  "exec_csr_in c (e\<lparr>ex_debug_flush_i := x\<rparr>) y = exec_csr_in c e y"
  "exec_ls_in c (e\<lparr>ex_debug_flush_i := x\<rparr>) y = exec_ls_in c e y"
  by (simp_all add: exec_alu_in_def exec_csr_in_def exec_ls_in_def)

lemma exec_flush_outputs [simp]:
  "exec_alu_out c (e\<lparr>ex_debug_flush_i := x\<rparr>) y = exec_alu_out c e y"
  "exec_ls_valid c (e\<lparr>ex_debug_flush_i := x\<rparr>) y = exec_ls_valid c e y"
  "exec_csr_valid c (e\<lparr>ex_debug_flush_i := x\<rparr>) y = exec_csr_valid c e y"
  by (simp_all add: exec_alu_out_def exec_ls_valid_def exec_csr_valid_def)

lemma exec_flush_jump [simp]:
  "exec_jump_comb c (e\<lparr>ex_debug_flush_i := x\<rparr>) y = exec_jump_comb c e y"
  by (simp add: exec_jump_comb_def Let_def)

lemma exec_flush_stage [simp]:
  "exec_jump_o c (e\<lparr>ex_debug_flush_i := x\<rparr>) y = exec_jump_o c e y"
  "exec_jump_dest_o c (e\<lparr>ex_debug_flush_i := x\<rparr>) y = exec_jump_dest_o c e y"
  "exec_valid_o c (e\<lparr>ex_debug_flush_i := x\<rparr>) y = exec_valid_o c e y"
  by (simp_all add: exec_jump_o_def exec_jump_dest_o_def exec_valid_o_def)

text \<open>What the adapter sees of the backend, in terms of the inputs of the clock edge.\<close>

lemma dk_adapter_in_fields:
  "ad_pipeline_empty (dk_adapter_in c dbus s) =
     backend_pipeline_empty c (dk_backend_in c dbus s) (dk_backend s)"
  "ad_exec_redirect_valid (dk_adapter_in c dbus s) =
     exec_jump_o c (backend_exec_in c (dk_backend_in c dbus s) (dk_backend s)) (bk_exec (dk_backend s))"
  "ad_exec_redirect_pc (dk_adapter_in c dbus s) =
     exec_jump_dest_o c (backend_exec_in c (dk_backend_in c dbus s) (dk_backend s)) (bk_exec (dk_backend s))"
  "ad_ebreak (dk_adapter_in c dbus s) =
     ej_debug_ebreak (exec_jump_comb c (backend_exec_in c (dk_backend_in c dbus s) (dk_backend s))
       (bk_exec (dk_backend s)))"
  "ad_redirect_valid (dk_adapter_in c dbus s) = hd_redirect_valid (dk_hd s)"
  "ad_issue (dk_adapter_in c dbus s) = dk_issue c s"
  "ad_allow_fetch (dk_adapter_in c dbus s) = hd_allow_fetch (dk_dm s) (dk_hd s)"
  "ad_fetch (dk_adapter_in c dbus s) = fetch_out (dk_fetch s)"
  by (simp_all add: dk_adapter_in_def dk_backend_in_def dk_exec_in_flush
      backend_pipeline_empty_def exec_debug_ebreak_o_def Let_def)

subsection \<open>Halting\<close>

text \<open>No abstract command is under way and none has failed.\<close>

definition dk_no_command :: "bonfire_config \<Rightarrow> debug_core \<Rightarrow> bool" where
  "dk_no_command c s \<longleftrightarrow> dm_calm c (dk_dm s) \<and> \<not> dm_abstract_command_new (dk_dm s) \<and>
     ac_command_state (dk_ac s) = Ac_None"

lemma dk_no_command_edge:
  assumes "debug_config_ok c" "dk_no_command c s" "dmi_harmless r"
  shows "dk_no_command c (dk_next c r dbus f s)"
  using assms dm_quiet_edge(1,2)[of c "dk_dm s" "dk_dmi_in False r s"] dmi_harmless_in[of r False s]
    debug_config_facts(4)[of c]
  by (simp add: dk_no_command_def ac_state_machine_def ac_command_request_def)

lemma dk_no_command_in:
  assumes "dk_no_command c s"
  shows "\<not> pi_valid (dk_issue c s)" "\<not> rt_valid (bk_transfer (dk_backend_in c dbus s))"
  using assms
  by (simp_all add: dk_no_command_def dk_issue_def ac_progbuf_issue_def ac_register_transfer_def
      ac_command_request_def)

lemma dk_held_no_word:
  assumes "dk_no_command c s" "\<not> hd_allow_fetch (dk_dm s) (dk_hd s)"
  shows "\<not> fb_en_i (bk_fetch (dk_backend_in c dbus s))"
    "\<not> adapter_accepted (dk_adapter_in c dbus s)"
  using assms dk_no_command_in(1)[OF assms(1)]
  by (simp_all add: adapter_decode_in_def adapter_source_valid_def adapter_accepted_def
      dk_adapter_in_fields)

text \<open>
  The core on its way into debug mode: nothing is fetched and nothing executes any more, and
  \<open>npc\<close> is the program counter the adapter reports, from its own register or from the redirect
  the execute stage still presents.
\<close>

definition dk_halting :: "bonfire_config \<Rightarrow> hart_debug_state \<Rightarrow> xword \<Rightarrow> debug_core \<Rightarrow> bool" where
  "dk_halting c st npc s \<longleftrightarrow> hd_state_reg (dk_hd s) = st \<and> st \<in> {Hd_Halt_Pending, Hd_Step_Wait} \<and>
     \<not> hd_redirect_valid (dk_hd s) \<and>
     dk_no_command c s \<and> backend_inv c (dk_backend s) \<and> \<not> de_valid_o (bk_dec (dk_backend s)) \<and>
     \<not> ads_active_progbuf (dk_adapter s) \<and> (st = Hd_Step_Wait \<longrightarrow> ads_active (dk_adapter s)) \<and>
     (if ads_active (dk_adapter s) \<and> ex_jump_r (bk_exec (dk_backend s))
      then ex_jump_dest_r (bk_exec (dk_backend s)) else ads_next_pc (dk_adapter s)) = npc"

definition halt_cause :: "hart_debug_state \<Rightarrow> 3 word" where
  "halt_cause st = (if st = Hd_Halt_Pending then 3 else 4)"

lemma not_taken_outputs:
  assumes "\<not> exec_taken c e x"
  shows "\<not> ej_debug_ebreak (exec_jump_comb c e x)" "exec_jump_o c e x = ex_jump_r x"
    "exec_jump_dest_o c e x = ex_jump_dest_r x"
    "ex_jump_r (exec_step c False e x) = ex_jump_r x"
    "ex_jump_dest_r (exec_step c False e x) = ex_jump_dest_r x"
  using assms
  by (simp_all add: exec_jump_comb_def no_jump_def exec_jump_o_def exec_jump_dest_o_def
      exec_step_def exec_units_step_def exec_seq_def exec_pending_seq_def Let_def)

text \<open>Entering debug mode, and after it: the halted core, first with the update of the debug CSRs
  pending, from the next edge on with the CSRs updated.\<close>

definition dk_entered :: "bonfire_config \<Rightarrow> hart_debug_state \<Rightarrow> xword \<Rightarrow> debug_core \<Rightarrow> bool" where
  "dk_entered c st npc s \<longleftrightarrow> dk_ready c s \<and> hd_csr_update (dk_hd s) =
     \<lparr>du_dpc = bv_slice 32 2 npc, du_cause = halt_cause st, du_we_dpc = True, du_we_cause = True\<rparr>"

definition dk_debug_csrs :: "debug_core \<Rightarrow> debug_csrs" where
  "dk_debug_csrs s = cs_debug (ex_csr (bk_exec (dk_backend s)))"

definition dk_recorded :: "bonfire_config \<Rightarrow> hart_debug_state \<Rightarrow> xword \<Rightarrow> debug_core \<Rightarrow> bool" where
  "dk_recorded c st npc s \<longleftrightarrow> dk_ready c s \<and>
     \<not> du_we_dpc (hd_csr_update (dk_hd s)) \<and> \<not> du_we_cause (hd_csr_update (dk_hd s)) \<and>
     dc_dpc (dk_debug_csrs s) = bv_slice 32 2 npc \<and> dc_cause (dk_debug_csrs s) = halt_cause st"

lemma dk_halting_cases:
  assumes c: "debug_config_ok c" and s: "dk_halting c st npc s" and r: "dmi_harmless r"
  shows "if backend_pipeline_empty c (dk_backend_in c dbus s) (dk_backend s)
    then dk_entered c st npc (dk_next c r dbus f s) else dk_halting c st npc (dk_next c r dbus f s)"
proof -
  let ?i = "dk_backend_in c dbus s" and ?b = "dk_backend s" and ?s = "dk_next c r dbus f s"
  let ?e = "backend_exec_in c ?i ?b"
  have st: "hd_state_reg (dk_hd s) = st" "st \<in> {Hd_Halt_Pending, Hd_Step_Wait}"
      "\<not> hd_redirect_valid (dk_hd s)" "st = Hd_Step_Wait \<longrightarrow> ads_active (dk_adapter s)"
    and nc: "dk_no_command c s" and inv: "backend_inv c ?b" and nd: "\<not> de_valid_o (bk_dec ?b)"
    and ad: "\<not> ads_active_progbuf (dk_adapter s)"
    and jr: "(if ads_active (dk_adapter s) \<and> ex_jump_r (bk_exec ?b) then ex_jump_dest_r (bk_exec ?b)
      else ads_next_pc (dk_adapter s)) = npc"
    using s by (simp_all add: dk_halting_def)
  have na: "\<not> hd_allow_fetch (dk_dm s) (dk_hd s)" using st by (auto simp: hd_allow_fetch_def)
  note word = dk_held_no_word[OF nc na]
  note cmd = dk_no_command_in[OF nc]
  have nt: "\<not> exec_taken c ?e (bk_exec ?b)" using nd by (simp add: exec_taken_def)
  note out = not_taken_outputs[OF nt]
  have act: "dm_dmactive (dk_dm s)" using nc by (simp add: dk_no_command_def dm_calm_def)
  have ev: "\<not> ev_ebreak (dk_events c dbus s)" "ev_next_pc (dk_events c dbus s) = npc"
    "ev_pipeline_empty (dk_events c dbus s) = backend_pipeline_empty c ?i ?b"
    "ev_instruction_complete (dk_events c dbus s) =
       (ads_active (dk_adapter s) \<and> backend_pipeline_empty c ?i ?b)"
    using out ad jr by (auto simp: dk_events_def adapter_events_def dk_adapter_in_fields
        adapter_next_pc_def adapter_complete_def split: if_splits)
  have w: "\<not> (rt_valid (bk_transfer ?i) \<and> rt_write (bk_transfer ?i))" using cmd by simp
  note nc' = dk_no_command_edge[OF c nc r, of dbus f]
  show ?thesis
  proof (cases "backend_pipeline_empty c ?i ?b")
    case True
    have "backend_drained c ?b"
      using backend_empty_idle[OF c inv True] by (simp add: backend_idle_def)
    note b = backend_drained_step[OF c this word(1) w]
    have "hd_state_reg (dk_hd ?s) = Hd_Halted" "\<not> hd_redirect_valid (dk_hd ?s)"
      "hd_csr_update (dk_hd ?s) = \<lparr>du_dpc = bv_slice 32 2 npc, du_cause = halt_cause st,
         du_we_dpc = True, du_we_cause = True\<rparr>"
      using ev True st act
      by (auto simp: hd_state_machine_def hd_enter_def halt_cause_def Let_def)
    then show ?thesis using b nc' True
      by (simp add: dk_entered_def dk_ready_def dk_parked_def dk_no_command_def dm_calm_def)
  next
    case False
    have env: "backend_env_ok c ?i ?b" using cmd nt by (simp add: backend_env_ok_def Let_def)
    have inv': "backend_inv c (backend_step c False ?i ?b)" by (rule backend_inv_step[OF inv env])
    have nd': "\<not> de_valid_o (bk_dec (backend_step c False ?i ?b))"
      unfolding backend_step_stages
      using nd word w
      by (auto simp: decode_step_def decode_op_def decode_downstream_busy_def
          backend_dec_in_def backend_dec_data_def)
    have hd': "hd_state_reg (dk_hd ?s) = st" "\<not> hd_redirect_valid (dk_hd ?s)"
      using ev False st act by (auto simp: hd_state_machine_def Let_def)
    have ad': "\<not> ads_active_progbuf (dk_adapter ?s)"
      "ads_active (dk_adapter ?s) = ads_active (dk_adapter s)"
      "ads_next_pc (dk_adapter ?s) = npc"
      using word ad st jr out False
      by (auto simp: adapter_boundary_def dk_adapter_in_fields Let_def split: if_splits)
    have "dk_halting c st npc ?s"
      using inv' nd' hd' ad' jr out nc' st
      by (auto simp: dk_halting_def backend_step_stages split: if_splits)
    then show ?thesis using False by simp
  qed
qed

lemma dk_halting_edge:
  assumes "debug_config_ok c" "dk_halting c st npc s" "dmi_harmless r"
  shows "dk_entered c st npc (dk_next c r dbus f s) \<or> dk_halting c st npc (dk_next c r dbus f s)"
  using dk_halting_cases[OF assms, of dbus f] by (simp split: if_splits)

lemma dk_halting_held: "dk_halting c st npc s \<Longrightarrow> \<not> hd_allow_fetch (dk_dm s) (dk_hd s)"
  by (auto simp: dk_halting_def hd_allow_fetch_def)

lemma dk_ready_held: "dk_ready c s \<Longrightarrow> \<not> hd_allow_fetch (dk_dm s) (dk_hd s)"
  by (auto simp: dk_ready_def dk_parked_def hd_allow_fetch_def)

lemma dk_halted_next_eq: "dk_parked s \<Longrightarrow> dk_next c r dbus f s = dk_halted_next c r dbus f s"
  by (simp add: dk_next_def dk_halted_next_def dk_parked_halted)

text \<open>The debug CSRs at an edge at which no instruction executes.\<close>

lemma idle_debug_csrs:
  assumes c: "debug_config_ok c" and d: "backend_drained c (dk_backend s)"
  shows "dk_debug_csrs (dk_next c r dbus f s) =
    (let u = hd_csr_update (dk_hd s); n = dk_debug_csrs s;
         n1 = (if du_we_cause u then n\<lparr>dc_cause := du_cause u\<rparr> else n)
     in if du_we_dpc u then n1\<lparr>dc_dpc := du_dpc u\<rparr> else n1)"
proof -
  let ?i = "dk_backend_in c dbus s" and ?b = "dk_backend s"
  let ?e = "backend_exec_in c ?i ?b"
  have nt: "\<not> exec_taken c ?e (bk_exec ?b)" using drained_retire(3)[OF c d] .
  have we: "\<not> sel_csr_we (csr_selected c (exec_csr_in c ?e (bk_exec ?b)) (ex_csr (bk_exec ?b)))"
    using nt by (intro csr_selected_no_write) (simp add: exec_csr_in_def csr_taken_def)
  have du: "ex_debug_update_i ?e = hd_csr_update (dk_hd s)"
    by (simp add: backend_exec_in_def dk_backend_in_def dk_backend_in0_def Let_def)
  show ?thesis
    using we du debug_config_facts(6)[OF c]
    by (simp add: dk_debug_csrs_def backend_step_stages exec_step_fields csr_step_def
        debug_csr_step_def Let_def)
qed

lemma dk_ready_drained: "dk_ready c s \<Longrightarrow> backend_drained c (dk_backend s)"
  by (simp add: dk_ready_def backend_idle_def)

lemma dk_entered_edge:
  assumes c: "debug_config_ok c" and s: "dk_entered c st npc s \<or> dk_recorded c st npc s" and r: "dmi_harmless r"
  shows "dk_recorded c st npc (dk_next c r dbus f s)"
proof -
  have rd: "dk_ready c s" using s by (auto simp: dk_entered_def dk_recorded_def)
  have p: "dk_parked s" using dk_ready_parked[OF rd] .
  have "dk_ready c (dk_next c r dbus f s)"
    using dk_ready_quiet(1)[OF c rd r] dk_halted_next_eq[OF p] by simp
  moreover have "\<not> du_we_dpc (hd_csr_update (dk_hd (dk_next c r dbus f s)))"
    "\<not> du_we_cause (hd_csr_update (dk_hd (dk_next c r dbus f s)))"
    using p by (simp_all add: dk_parked_def hd_state_machine_def Let_def)
  ultimately show ?thesis
    using s idle_debug_csrs[OF c dk_ready_drained[OF rd], of r dbus f]
    by (auto simp: dk_recorded_def dk_entered_def Let_def)
qed

lemma dk_run_held:
  assumes "\<not> hd_allow_fetch (dk_dm s) (dk_hd s)"
  shows "\<exists>f. dk_run c bus (r # rs) (t, s) =
     dk_run c bus rs (Suc t, dk_next c r (snd (bus t)) f s)"
proof -
  obtain f where "debug_core_step c False r (fst (bus t)) (snd (bus t)) s =
      Some (dk_next c r (snd (bus t)) f s)"
    using dk_held_step[OF assms] by blast
  then show ?thesis by auto
qed

definition dk_stopping :: "bonfire_config \<Rightarrow> hart_debug_state \<Rightarrow> xword \<Rightarrow> debug_core \<Rightarrow> bool" where
  "dk_stopping c st npc s \<longleftrightarrow> dk_halting c st npc s \<or> dk_entered c st npc s \<or> dk_recorded c st npc s"

lemma dk_stopping_held: "dk_stopping c st npc s \<Longrightarrow> \<not> hd_allow_fetch (dk_dm s) (dk_hd s)"
  by (auto simp: dk_stopping_def dk_entered_def dk_recorded_def dest: dk_halting_held dk_ready_held)

lemma dk_stopping_edge:
  assumes c: "debug_config_ok c" and s: "dk_stopping c st npc s" and r: "dmi_harmless r"
  shows "dk_stopping c st npc (dk_next c r dbus f s)"
  using s dk_halting_edge[OF c _ r, of st npc s dbus f] dk_entered_edge[OF c _ r, of st npc s dbus f]
  unfolding dk_stopping_def by blast

lemma dk_stopping_run:
  assumes c: "debug_config_ok c"
  shows "dk_stopping c st npc s \<Longrightarrow>
     \<exists>t' s'. dk_run c bus (replicate k dmi_quiet) (t, s) = Some (t', s') \<and> dk_stopping c st npc s'"
proof (induction k arbitrary: t s)
  case (Suc k)
  obtain f where r: "dk_run c bus (dmi_quiet # replicate k dmi_quiet) (t, s) =
      dk_run c bus (replicate k dmi_quiet) (Suc t, dk_next c dmi_quiet (snd (bus t)) f s)"
    using dk_run_held[OF dk_stopping_held[OF Suc.prems]] by blast
  show ?case
    using Suc.IH[OF dk_stopping_edge[OF c Suc.prems dmi_harmless_simps(1), of "snd (bus t)" f]] r by simp
qed simp

text \<open>Without a load or store under way the pipeline drains in two edges.\<close>

lemma exec_settles:
  assumes c: "debug_config_ok c" and x: "exec_inv c x" "ls_outstanding (ex_ls x) = 0"
    and nt: "\<not> exec_taken c e x"
  shows "exec_idle c (exec_step c False e x)"
proof -
  note cf = debug_config_facts[OF c]
  have p: "length (ls_pipe (ex_ls x)) = 1" "ls_outstanding (ex_ls x) \<le> 1"
    "ls_valid_reg (ex_ls x) \<longrightarrow> ls_outstanding (ex_ls x) = 0"
    using x by (simp_all add: exec_inv_def)
  note ls = exec_ls_inv_step[OF cf(1,2) p, of "exec_ls_in c e x" "ex_bus_i e", folded exec_step_fields(2)]
  have "exec_inv c (exec_step c False e x)"
    using exec_inv_step[OF cf(1,2) x(1)] nt by (simp add: exec_legal_def)
  moreover have "\<not> al_busy_o (ex_alu (exec_step c False e x))"
    using nt by (simp add: exec_step_fields exec_alu_inv_step exec_alu_in_def)
  moreover have "\<not> ex_jump_busy (exec_step c False e x)"
    using nt by (simp add: exec_step_def exec_units_step_def exec_seq_def exec_pending_seq_def Let_def)
  moreover have "ls_outstanding (ex_ls (exec_step c False e x)) = 0 \<and>
      \<not> ls_valid_reg (ex_ls (exec_step c False e x))"
    using ls(2,5) exec_ls_not_taken[OF nt] x(2) by (auto simp: le_Suc_eq)
  ultimately show ?thesis by (simp add: exec_idle_def)
qed

lemma backend_idle_empty:
  assumes c: "debug_config_ok c" and b: "backend_idle c b"
  shows "backend_pipeline_empty c i b"
proof -
  note cf = debug_config_facts[OF c]
  have dr: "backend_drained c b" using b by (simp add: backend_idle_def)
  have "\<not> exec_busy c (backend_exec_in c i b) (bk_exec b)"
    using b cf
    by (auto simp: exec_busy_def backend_idle_def backend_drained_def exec_idle_def csr_busy_o_def
        ls_busy_o_def ls_busy_def ls_capacity_busy_def write_pipe_index_def backend_exec_in_def
        four_stage_hazard_def Let_def)
  then show ?thesis
    using b drained_retire(2)[OF c dr, of i]
    by (simp add: backend_pipeline_empty_def backend_idle_def backend_drained_def)
qed

lemma dk_halting_settles:
  assumes c: "debug_config_ok c" and s: "dk_halting c st npc s" and r: "dmi_harmless r"
    and o: "ls_outstanding (ex_ls (bk_exec (dk_backend s))) = 0"
  shows "dk_entered c st npc (dk_next c r dbus f s) \<or>
    dk_halting c st npc (dk_next c r dbus f s) \<and> backend_drained c (dk_backend (dk_next c r dbus f s)) \<and>
    (backend_drained c (dk_backend s) \<longrightarrow> backend_idle c (dk_backend (dk_next c r dbus f s)))"
    "backend_idle c (dk_backend s) \<Longrightarrow> dk_entered c st npc (dk_next c r dbus f s)"
proof -
  let ?i = "dk_backend_in c dbus s" and ?b = "dk_backend s" and ?s = "dk_next c r dbus f s"
  have nc: "dk_no_command c s" and inv: "backend_inv c ?b" and nd: "\<not> de_valid_o (bk_dec ?b)"
    using s by (simp_all add: dk_halting_def)
  note word = dk_held_no_word[OF nc dk_halting_held[OF s]]
  have w: "\<not> (rt_valid (bk_transfer ?i) \<and> rt_write (bk_transfer ?i))"
    using dk_no_command_in[OF nc] by simp
  have nt: "\<not> exec_taken c (backend_exec_in c ?i ?b) (bk_exec ?b)" using nd by (simp add: exec_taken_def)
  have x: "exec_inv c (bk_exec ?b)"
    using inv exec_reachable_inv debug_config_facts[OF c] by (simp add: backend_inv_def)
  have "exec_idle c (bk_exec (dk_backend ?s))"
    using exec_settles[OF c x o nt] by (simp add: backend_step_stages)
  moreover have "\<not> de_valid_o (bk_dec (dk_backend ?s))"
    unfolding dk_next_fields backend_step_stages
    using nd word w
    by (auto simp: decode_step_def decode_op_def decode_downstream_busy_def
        backend_dec_in_def backend_dec_data_def)
  ultimately have d: "backend_drained c (dk_backend ?s)" by (simp add: backend_drained_def)
  have d2: "backend_drained c ?b \<longrightarrow> backend_idle c (dk_backend ?s)"
    using backend_drained_step(1)[OF c _ word(1) w] by simp
  show "dk_entered c st npc ?s \<or>
      dk_halting c st npc ?s \<and> backend_drained c (dk_backend ?s) \<and>
      (backend_drained c ?b \<longrightarrow> backend_idle c (dk_backend ?s))"
    using dk_halting_edge[OF c s r, of dbus f] d d2 by blast
  show "backend_idle c ?b \<Longrightarrow> dk_entered c st npc ?s"
  proof -
    assume i: "backend_idle c ?b"
    then have "backend_pipeline_empty c ?i ?b" by (rule backend_idle_empty[OF c])
    then show ?thesis using dk_halting_cases[OF c s r, of dbus f] by simp
  qed
qed

definition dk_done :: "bonfire_config \<Rightarrow> hart_debug_state \<Rightarrow> xword \<Rightarrow> debug_core \<Rightarrow> bool" where
  "dk_done c st npc s \<longleftrightarrow> dk_entered c st npc s \<or> dk_recorded c st npc s"

lemma dk_done_facts:
  assumes "dk_done c st npc s"
  shows "\<not> hd_allow_fetch (dk_dm s) (dk_hd s)" "dk_stopping c st npc s"
    "hd_state_reg (dk_hd s) = Hd_Halted"
  using assms dk_ready_held[of c s]
  by (auto simp: dk_done_def dk_entered_def dk_recorded_def dk_stopping_def dk_ready_def dk_parked_def)

lemma dk_done_run:
  assumes c: "debug_config_ok c"
  shows "dk_done c st npc s \<Longrightarrow>
     \<exists>t' s'. dk_run c bus (replicate k dmi_quiet) (t, s) = Some (t', s') \<and> dk_done c st npc s'"
proof (induction k arbitrary: t s)
  case (Suc k)
  obtain f where r: "dk_run c bus (dmi_quiet # replicate k dmi_quiet) (t, s) =
      dk_run c bus (replicate k dmi_quiet) (Suc t, dk_next c dmi_quiet (snd (bus t)) f s)"
    using dk_run_held[OF dk_done_facts(1)[OF Suc.prems]] by blast
  have "dk_done c st npc (dk_next c dmi_quiet (snd (bus t)) f s)"
    using dk_entered_edge[OF c Suc.prems[unfolded dk_done_def] dmi_harmless_simps(1)] by (simp add: dk_done_def)
  from Suc.IH[OF this, of "Suc t"] r show ?case by simp
qed simp

text \<open>Three edges after the instruction in flight has executed the core is halted, unless the
  instruction is a load or store; \<open>j\<close> counts how far the pipeline has drained.\<close>

definition dk_draining :: "bonfire_config \<Rightarrow> hart_debug_state \<Rightarrow> xword \<Rightarrow> nat \<Rightarrow> debug_core \<Rightarrow> bool" where
  "dk_draining c st npc j s \<longleftrightarrow> dk_done c st npc s \<or> dk_halting c st npc s \<and>
     (j = 2 \<and> ls_outstanding (ex_ls (bk_exec (dk_backend s))) = 0 \<or>
      j = 1 \<and> backend_drained c (dk_backend s) \<or> j = 0 \<and> backend_idle c (dk_backend s))"

lemma dk_draining_outstanding:
  "dk_draining c st npc j s \<Longrightarrow> \<not> dk_done c st npc s \<Longrightarrow>
     ls_outstanding (ex_ls (bk_exec (dk_backend s))) = 0"
  by (auto simp: dk_draining_def backend_idle_def backend_drained_def exec_idle_def)

lemma dk_draining_run:
  assumes c: "debug_config_ok c"
  shows "dk_draining c st npc j s \<Longrightarrow> j < k \<Longrightarrow>
     \<exists>t' s'. dk_run c bus (replicate k dmi_quiet) (t, s) = Some (t', s') \<and> dk_done c st npc s'"
proof (induction k arbitrary: t s j)
  case (Suc k)
  show ?case
  proof (cases "dk_done c st npc s")
    case True
    then show ?thesis using dk_done_run[OF c True, of bus "Suc k" t] by simp
  next
    case False
    then have h: "dk_halting c st npc s" using Suc.prems by (simp add: dk_draining_def)
    note o = dk_draining_outstanding[OF Suc.prems(1) False]
    obtain f where r: "dk_run c bus (dmi_quiet # replicate k dmi_quiet) (t, s) =
        dk_run c bus (replicate k dmi_quiet) (Suc t, dk_next c dmi_quiet (snd (bus t)) f s)"
      using dk_run_held[OF dk_halting_held[OF h]] by blast
    define s' where "s' = dk_next c dmi_quiet (snd (bus t)) f s"
    note e = dk_halting_settles[OF c h dmi_harmless_simps(1) o, of "snd (bus t)" f, folded s'_def]
    consider "dk_done c st npc s'" | i where "dk_draining c st npc i s'" "i < k"
    proof (cases "j = 0")
      case True
      then have "backend_idle c (dk_backend s)" using Suc.prems(1) False by (simp add: dk_draining_def)
      then show ?thesis using e(2) that(1) by (simp add: dk_done_def)
    next
      case nz: False
      have "dk_draining c st npc (j - 1) s'"
        using e(1) Suc.prems(1) False nz by (auto simp: dk_draining_def dk_done_def)
      then show ?thesis using that(2)[of "j - 1"] Suc.prems(2) nz by simp
    qed
    then show ?thesis
    proof cases
      case 1
      from dk_done_run[OF c this, of bus k "Suc t"] r show ?thesis by (simp add: s'_def)
    next
      case (2 i)
      from Suc.IH[OF 2, of "Suc t"] r show ?thesis by (simp add: s'_def)
    qed
  qed
qed simp

text \<open>The instruction in flight: accepted in \<open>s\<close>, executing in \<open>s1\<close>, while the controller has
  stopped the fetch. \<open>dk_boundary_pc\<close> is the program counter that will be recorded.\<close>

definition dk_exec_jump :: "bonfire_config \<Rightarrow> dbus_rsp \<Rightarrow> debug_core \<Rightarrow> exec_jump" where
  "dk_exec_jump c dbus s =
     exec_jump_comb c (backend_exec_in c (dk_backend_in c dbus s) (dk_backend s)) (bk_exec (dk_backend s))"

definition dk_tracked :: "bonfire_config \<Rightarrow> dbus_rsp \<Rightarrow> debug_core \<Rightarrow> bool" where
  "dk_tracked c dbus s \<longleftrightarrow> \<not> (ads_active (dk_adapter s) \<and>
     backend_pipeline_empty c (dk_backend_in c dbus s) (dk_backend s))"

definition dk_executes :: "bonfire_config \<Rightarrow> dbus_rsp \<Rightarrow> debug_core \<Rightarrow> bool" where
  "dk_executes c dbus s \<longleftrightarrow> dk_no_command c s \<and> backend_inv c (dk_backend s) \<and>
     backend_env_ok c (dk_backend_in c dbus s) (dk_backend s) \<and>
     exec_taken c (backend_exec_in c (dk_backend_in c dbus s) (dk_backend s)) (bk_exec (dk_backend s)) \<and>
     \<not> ej_debug_ebreak (dk_exec_jump c dbus s)"

lemma dk_accept_edge:
  assumes step: "debug_core_step c False r ibus dbus s = Some s1"
    and acc: "ev_instruction_accepted (dk_events c dbus s)" and np: "\<not> ads_active_progbuf (dk_adapter s)"
  shows "ads_active (dk_adapter s1) = dk_tracked c dbus s" "\<not> ads_active_progbuf (dk_adapter s1)"
    "ads_next_pc (dk_adapter s1) = fe_ip0 (dk_fetch s) + 4" "\<not> hd_redirect_valid (dk_hd s1)"
proof -
  obtain f where s1: "s1 = dk_next c r dbus f s" using debug_core_step_next[OF step] by blast
  have a: "adapter_accepted (dk_adapter_in c dbus s)"
    "\<not> adapter_progbuf_source (ad_issue (dk_adapter_in c dbus s))"
    using acc by (simp_all add: dk_events_def adapter_events_def)
  then have npi: "\<not> pi_valid (dk_issue c s)"
    by (auto simp: adapter_accepted_def adapter_source_valid_def adapter_progbuf_source_def
        dk_adapter_in_fields)
  then have al: "hd_allow_fetch (dk_dm s) (dk_hd s)" "\<not> hd_redirect_valid (dk_hd s)"
    using a(1) by (auto simp: adapter_accepted_def adapter_source_valid_def dk_adapter_in_fields)
  show "ads_active (dk_adapter s1) = dk_tracked c dbus s" "\<not> ads_active_progbuf (dk_adapter s1)"
    "ads_next_pc (dk_adapter s1) = fe_ip0 (dk_fetch s) + 4"
    using a al np by (auto simp: s1 adapter_boundary_def dk_tracked_def dk_adapter_in_fields
        fetch_out_def Let_def)
  show "\<not> hd_redirect_valid (dk_hd s1)"
    using al(1) by (auto simp: s1 hd_state_machine_def hd_allow_fetch_def hd_enter_def Let_def)
qed

lemma dk_execute_edge:
  assumes c: "debug_config_ok c" and x: "dk_executes c dbus s"
    and st: "hd_state_reg (dk_hd s) = Hd_Running \<and> dm_haltreq (dk_dm s) \<and> st = Hd_Halt_Pending \<or>
      hd_state_reg (dk_hd s) = Hd_Step_Wait \<and> ads_active (dk_adapter s) \<and> st = Hd_Step_Wait"
    and rd: "\<not> hd_redirect_valid (dk_hd s)" and np: "\<not> ads_active_progbuf (dk_adapter s)"
    and r: "dmi_harmless r"
  shows "dk_halting c st (if ads_active (dk_adapter s) \<and> ej_jump (dk_exec_jump c dbus s)
      then ej_jump_dest (dk_exec_jump c dbus s) else ads_next_pc (dk_adapter s)) (dk_next c r dbus f s)"
    "\<not> de_load_cmd (bk_dec (dk_backend s)) \<Longrightarrow> \<not> de_store_cmd (bk_dec (dk_backend s)) \<Longrightarrow>
       ls_outstanding (ex_ls (bk_exec (dk_backend (dk_next c r dbus f s)))) = 0"
proof -
  let ?i = "dk_backend_in c dbus s" and ?b = "dk_backend s" and ?s = "dk_next c r dbus f s"
  let ?e = "backend_exec_in c ?i ?b"
  have nc: "dk_no_command c s" and inv: "backend_inv c ?b" and env: "backend_env_ok c ?i ?b"
    and taken: "exec_taken c ?e (bk_exec ?b)" and eb: "\<not> ej_debug_ebreak (dk_exec_jump c dbus s)"
    using x by (simp_all add: dk_executes_def)
  have na: "\<not> hd_allow_fetch (dk_dm s) (dk_hd s)" using st by (auto simp: hd_allow_fetch_def)
  note word = dk_held_no_word[OF nc na]
  have w: "\<not> (rt_valid (bk_transfer ?i) \<and> rt_write (bk_transfer ?i))"
    using dk_no_command_in[OF nc] by simp
  have act: "dm_dmactive (dk_dm s)" using nc by (simp add: dk_no_command_def dm_calm_def)
  have nb: "\<not> exec_busy c ?e (bk_exec ?b)" "de_valid_o (bk_dec ?b)"
    using taken by (simp_all add: exec_taken_def)
  have ne: "\<not> backend_pipeline_empty c ?i ?b" using nb by (simp add: backend_pipeline_empty_def)
  have ev: "\<not> ev_ebreak (dk_events c dbus s)" "\<not> ev_instruction_complete (dk_events c dbus s)"
    using eb ne by (simp_all add: dk_events_def adapter_events_def dk_adapter_in_fields
        adapter_complete_def dk_exec_jump_def)
  have nd': "\<not> de_valid_o (bk_dec (dk_backend ?s))"
    unfolding dk_next_fields backend_step_stages
    using nb word w
    by (auto simp: decode_step_def decode_op_def decode_downstream_busy_def
        backend_dec_in_def backend_dec_data_def)
  have inv': "backend_inv c (dk_backend ?s)" using backend_inv_step[OF inv env] by simp
  have hd': "hd_state_reg (dk_hd ?s) = st" "\<not> hd_redirect_valid (dk_hd ?s)"
    using ev st act by (auto simp: hd_state_machine_def Let_def)
  note jr = exec_step_jump_regs[OF taken, folded dk_exec_jump_def]
  have jo: "exec_jump_o c ?e (bk_exec ?b) = (jump_bypass c \<and> ej_jump (dk_exec_jump c dbus s))"
    "jump_bypass c \<Longrightarrow> exec_jump_dest_o c ?e (bk_exec ?b) = ej_jump_dest (dk_exec_jump c dbus s)"
    using taken by (simp_all add: exec_jump_o_def exec_jump_dest_o_def dk_exec_jump_def)
  have ad': "\<not> ads_active_progbuf (dk_adapter ?s)" "ads_active (dk_adapter ?s) = ads_active (dk_adapter s)"
    "ads_next_pc (dk_adapter ?s) = (if ads_active (dk_adapter s) \<and> jump_bypass c \<and>
        ej_jump (dk_exec_jump c dbus s) then ej_jump_dest (dk_exec_jump c dbus s)
      else ads_next_pc (dk_adapter s))"
    using word np rd ne jo by (auto simp: adapter_boundary_def dk_adapter_in_fields Let_def)
  show "dk_halting c st (if ads_active (dk_adapter s) \<and> ej_jump (dk_exec_jump c dbus s)
      then ej_jump_dest (dk_exec_jump c dbus s) else ads_next_pc (dk_adapter s)) ?s"
    using nd' inv' hd' ad' jr st dk_no_command_edge[OF c nc r, of dbus f]
    by (auto simp: dk_halting_def backend_step_stages)
  note cf = debug_config_facts[OF c]
  have xi: "exec_inv c (bk_exec ?b)"
    using inv exec_reachable_inv cf by (simp add: backend_inv_def)
  have p: "length (ls_pipe (ex_ls (bk_exec ?b))) = 1" "ls_outstanding (ex_ls (bk_exec ?b)) \<le> 1"
    "ls_valid_reg (ex_ls (bk_exec ?b)) \<longrightarrow> ls_outstanding (ex_ls (bk_exec ?b)) = 0"
    using xi by (simp_all add: exec_inv_def)
  show "\<not> de_load_cmd (bk_dec ?b) \<Longrightarrow> \<not> de_store_cmd (bk_dec ?b) \<Longrightarrow>
       ls_outstanding (ex_ls (bk_exec (dk_backend ?s))) = 0"
    using exec_ls_inv_step(2,5)[OF cf(1,2) p, of "exec_ls_in c ?e (bk_exec ?b)" "ex_bus_i ?e"]
      exec_ls_taken[OF taken] exec_taken_idle(5)[OF cf(1,2) xi taken]
    by (auto simp: backend_step_stages exec_step_fields le_Suc_eq)
qed

lemma dk_stopping_no_accept:
  assumes "dk_stopping c st npc s"
  shows "\<not> ev_instruction_accepted (dk_events c dbus s)"
proof -
  have "dk_no_command c s"
    using assms by (auto simp: dk_stopping_def dk_halting_def dk_entered_def dk_recorded_def
        dk_ready_def dk_no_command_def)
  from dk_held_no_word(2)[OF this dk_stopping_held[OF assms], of dbus] show ?thesis
    by (simp add: dk_events_def adapter_events_def)
qed

lemma dk_stop_run:
  assumes c: "debug_config_ok c" and x: "dk_executes c (snd (bus t)) s"
    and st: "hd_state_reg (dk_hd s) = Hd_Running \<and> dm_haltreq (dk_dm s) \<and> st = Hd_Halt_Pending \<or>
      hd_state_reg (dk_hd s) = Hd_Step_Wait \<and> ads_active (dk_adapter s) \<and> st = Hd_Step_Wait"
    and rd: "\<not> hd_redirect_valid (dk_hd s)" and np: "\<not> ads_active_progbuf (dk_adapter s)"
    and npc: "npc = (if ads_active (dk_adapter s) \<and> ej_jump (dk_exec_jump c (snd (bus t)) s)
      then ej_jump_dest (dk_exec_jump c (snd (bus t)) s) else ads_next_pc (dk_adapter s))"
  shows "\<exists>t' s'. dk_run c bus (replicate (Suc k) dmi_quiet) (t, s) = Some (t', s') \<and>
     \<not> ev_instruction_accepted (dk_events c (snd (bus t')) s') \<and>
     (hd_state_reg (dk_hd s') = Hd_Halted \<longrightarrow>
        (\<exists>s''. dk_run c bus [dmi_quiet] (t', s') = Some (Suc t', s'') \<and> dk_recorded c st npc s'')) \<and>
     (\<not> de_load_cmd (bk_dec (dk_backend s)) \<and> \<not> de_store_cmd (bk_dec (dk_backend s)) \<and> 3 \<le> k \<longrightarrow>
        hd_state_reg (dk_hd s') = Hd_Halted)"
proof -
  have na: "\<not> hd_allow_fetch (dk_dm s) (dk_hd s)" using st by (auto simp: hd_allow_fetch_def)
  obtain f where r: "dk_run c bus (dmi_quiet # replicate k dmi_quiet) (t, s) =
      dk_run c bus (replicate k dmi_quiet) (Suc t, dk_next c dmi_quiet (snd (bus t)) f s)"
    using dk_run_held[OF na] by blast
  define s2 where "s2 = dk_next c dmi_quiet (snd (bus t)) f s"
  note e = dk_execute_edge[OF c x st rd np dmi_harmless_simps(1), of f, folded npc s2_def]
  have "dk_stopping c st npc s2" using e(1) by (simp add: dk_stopping_def)
  from dk_stopping_run[OF c this, of bus k "Suc t"] obtain t' s' where
    r': "dk_run c bus (replicate k dmi_quiet) (Suc t, s2) = Some (t', s')" and
    stop: "dk_stopping c st npc s'" by blast
  have rec: "\<exists>s''. dk_run c bus [dmi_quiet] (t', s') = Some (Suc t', s'') \<and> dk_recorded c st npc s''"
    if "hd_state_reg (dk_hd s') = Hd_Halted"
  proof -
    have "dk_entered c st npc s' \<or> dk_recorded c st npc s'"
      using stop that by (auto simp: dk_stopping_def dk_halting_def)
    from dk_entered_edge[OF c this dmi_harmless_simps(1)]
    show ?thesis using dk_run_held[OF dk_stopping_held[OF stop], of c bus dmi_quiet "[]" t'] by auto
  qed
  have halt: "hd_state_reg (dk_hd s') = Hd_Halted"
    if "\<not> de_load_cmd (bk_dec (dk_backend s))" "\<not> de_store_cmd (bk_dec (dk_backend s))" "3 \<le> k"
  proof -
    have "dk_draining c st npc 2 s2" using e(1) e(2)[OF that(1,2)] by (simp add: dk_draining_def)
    from dk_draining_run[OF c this, of k bus "Suc t"] that(3) r' show ?thesis
      by (auto dest: dk_done_facts(3))
  qed
  show ?thesis
    using r r' rec halt dk_stopping_no_accept[OF stop] unfolding s2_def by auto
qed

subsection \<open>What halting and stepping promise\<close>

text \<open>
  C14: A halt request stops the hart after the instruction in flight and records where it
  stopped. Let an instruction be accepted at one edge and execute, not as an enabled EBREAK, at
  the next, when the request is seen. Whatever the buses answer: no further instruction is
  accepted; when the hart reports being halted, one edge later the cause is 3, the core is
  ready for the debugger's accesses, and \<open>dpc\<close> holds the jump target if the instruction jumped
  and the next address if not, provided the adapter tracked the instruction; if it did not, the
  next address in either case. The adapter loses an instruction exactly when it was accepted in
  the very cycle in which its predecessor left the pipeline empty. If the instruction is not a
  load or store, the hart is halted four edges after it executes at the latest.
\<close>

theorem debug_halt:
  assumes c: "debug_config_ok c"
    and acc: "debug_core_step c False r ibus dbus s = Some s1"
      "ev_instruction_accepted (dk_events c dbus s)" "\<not> ads_active_progbuf (dk_adapter s)"
    and req: "hd_state_reg (dk_hd s1) = Hd_Running" "dm_haltreq (dk_dm s1)"
    and x: "dk_executes c (snd (bus t)) s1"
  shows "let j = dk_exec_jump c (snd (bus t)) s1;
      npc = (if dk_tracked c dbus s \<and> ej_jump j then ej_jump_dest j else fe_ip0 (dk_fetch s) + 4)
    in \<exists>t' s'. dk_run c bus (replicate (Suc k) dmi_quiet) (t, s1) = Some (t', s') \<and>
     \<not> ev_instruction_accepted (dk_events c (snd (bus t')) s') \<and>
     (hd_state_reg (dk_hd s') = Hd_Halted \<longrightarrow>
        (\<exists>s''. dk_run c bus [dmi_quiet] (t', s') = Some (Suc t', s'') \<and> dk_ready c s'' \<and>
           dc_cause (dk_debug_csrs s'') = 3 \<and> dc_dpc (dk_debug_csrs s'') = bv_slice 32 2 npc)) \<and>
     (\<not> de_load_cmd (bk_dec (dk_backend s1)) \<and> \<not> de_store_cmd (bk_dec (dk_backend s1)) \<and> 3 \<le> k \<longrightarrow>
        hd_state_reg (dk_hd s') = Hd_Halted)"
  using dk_stop_run[where st = Hd_Halt_Pending and k = k and bus = bus and t = t, OF c x _ _ _ refl] req
    dk_accept_edge[OF acc]
  by (auto simp: dk_recorded_def halt_cause_def Let_def)

text \<open>A core whose fetch unit presents \<open>JAL x1, 0x140\<close> at address \<open>0x100\<close>, the hart in state
  \<open>st\<close>, the adapter's \<open>active\<close> flag as given, and an edge with the request \<open>r\<close>.\<close>

definition jal_core :: "hart_debug_state \<Rightarrow> bool \<Rightarrow> debug_core" where
  "jal_core st act = (debug_core_init debug_config)\<lparr>
     dk_fetch := (fetch_init debug_config)\<lparr>fe_run := True, fe_valid := True,
                   fe_word0 := rv_encode (Jal 1 0x20), fe_ip0 := 0x100\<rparr>,
     dk_dm := (dm_init debug_config)\<lparr>dm_dmactive := True\<rparr>,
     dk_hd := hd_init\<lparr>hd_state_reg := st\<rparr>,
     dk_adapter := (adapter_init debug_config)\<lparr>ads_active := act\<rparr>\<rparr>"

definition quiet_bus :: "nat \<Rightarrow> dbus_rsp \<times> dbus_rsp" where
  "quiet_bus t = (let q = \<lparr>db_stall_i = False, db_ack_i = False, db_error_i = False, db_rd = 0\<rparr> in (q, q))"

definition halt_request :: dmi_request where
  "halt_request = dmi_write DMI_ADDR_DMCONTROL 0x80000001"

abbreviation (input) jal_core1 :: "hart_debug_state \<Rightarrow> bool \<Rightarrow> dmi_request \<Rightarrow> debug_core option" where
  "jal_core1 st act r \<equiv> debug_core_step debug_config False r (fst (quiet_bus 0)) (snd (quiet_bus 0))
     (jal_core st act)"

lemma jal_core_backend: "dk_backend (jal_core st act) = backend_init debug_config"
  by (simp add: jal_core_def debug_core_init_def)

lemma jal_core_inv:
  assumes step: "jal_core1 st act r = Some s1"
  shows "backend_inv debug_config (dk_backend s1)"
proof -
  obtain f where s1: "s1 = dk_next debug_config r (snd (quiet_bus 0)) f (jal_core st act)"
    using debug_core_step_next[OF step] by blast
  have "backend_env_ok debug_config (dk_backend_in debug_config (snd (quiet_bus 0)) (jal_core st act))
      (backend_init debug_config)"
    by (simp add: backend_env_ok_def exec_taken_def Let_def)
      (simp add: backend_init_def decode_init_def jal_core_def debug_core_init_def
        ac_register_transfer_def ac_command_request_def dm_init_def)
  then show ?thesis using backend_inv_step[OF backend_inv_init] by (simp add: s1 jal_core_backend)
qed

text \<open>What the instruction does at the edge after it was accepted.\<close>

definition jal_executes :: "hart_debug_state \<Rightarrow> debug_core \<Rightarrow> bool" where
  "jal_executes st s1 \<longleftrightarrow> hd_state_reg (dk_hd s1) = st \<and> dk_no_command debug_config s1 \<and>
     backend_env_ok debug_config (dk_backend_in debug_config (snd (quiet_bus 1)) s1) (dk_backend s1) \<and>
     exec_taken debug_config
       (backend_exec_in debug_config (dk_backend_in debug_config (snd (quiet_bus 1)) s1) (dk_backend s1))
       (bk_exec (dk_backend s1)) \<and>
     \<not> de_load_cmd (bk_dec (dk_backend s1)) \<and> \<not> de_store_cmd (bk_dec (dk_backend s1)) \<and>
     (let j = dk_exec_jump debug_config (snd (quiet_bus 1)) s1 in
        \<not> ej_debug_ebreak j \<and> ej_jump j \<and> ej_jump_dest j = 0x140)"

lemma jal_core_executes_step:
  "case jal_core1 Hd_Step_Issue False dmi_quiet of None \<Rightarrow> False | Some s1 \<Rightarrow> jal_executes Hd_Step_Wait s1"
  by code_simp

lemma jal_core_executes_halt:
  "case jal_core1 Hd_Running False halt_request of None \<Rightarrow> False
     | Some s1 \<Rightarrow> jal_executes Hd_Running s1 \<and> dm_haltreq (dk_dm s1)"
  by code_simp

lemma jal_core_executes_lost:
  "case jal_core1 Hd_Running True halt_request of None \<Rightarrow> False
     | Some s1 \<Rightarrow> jal_executes Hd_Running s1 \<and> dm_haltreq (dk_dm s1)"
  by code_simp

lemma jal_core_accepts:
  "ev_instruction_accepted (dk_events debug_config (snd (quiet_bus 0)) (jal_core Hd_Running act))"
  "ev_instruction_accepted (dk_events debug_config (snd (quiet_bus 0)) (jal_core Hd_Step_Issue False))"
  "\<not> ev_ebreak (dk_events debug_config (snd (quiet_bus 0)) (jal_core Hd_Step_Issue False))"
  "dk_tracked debug_config (snd (quiet_bus 0)) (jal_core st False)"
  "\<not> ads_active_progbuf (dk_adapter (jal_core st act))"
  "\<not> dk_tracked debug_config (snd (quiet_bus 0)) (jal_core Hd_Running True)"
proof -
  show "ev_instruction_accepted (dk_events debug_config (snd (quiet_bus 0)) (jal_core Hd_Running act))"
    by (cases act; code_simp)
  show "ev_instruction_accepted (dk_events debug_config (snd (quiet_bus 0)) (jal_core Hd_Step_Issue False))"
    "\<not> ev_ebreak (dk_events debug_config (snd (quiet_bus 0)) (jal_core Hd_Step_Issue False))"
    "\<not> dk_tracked debug_config (snd (quiet_bus 0)) (jal_core Hd_Running True)"
    by code_simp+
  show "dk_tracked debug_config (snd (quiet_bus 0)) (jal_core st False)"
    "\<not> ads_active_progbuf (dk_adapter (jal_core st act))"
    by (simp_all add: jal_core_def adapter_init_def dk_tracked_def)
qed

lemma jal_core_in_flight:
  assumes "jal_core1 st0 act r = Some s1" "jal_executes st s1"
  shows "dk_executes debug_config (snd (quiet_bus 1)) s1"
  using assms jal_core_inv[OF assms(1)] by (simp add: dk_executes_def jal_executes_def Let_def)

lemma debug_halt_witness:
  "case jal_core1 Hd_Running False halt_request of None \<Rightarrow> False | Some s1 \<Rightarrow>
     \<exists>t' s'. dk_run debug_config quiet_bus (replicate 5 dmi_quiet) (1, s1) = Some (t', s') \<and>
       dc_cause (dk_debug_csrs s') = 3 \<and> dc_dpc (dk_debug_csrs s') = 0x50"
proof -
  obtain s1 where step: "jal_core1 Hd_Running False halt_request = Some s1"
    and x: "jal_executes Hd_Running s1" and req: "dm_haltreq (dk_dm s1)"
    using jal_core_executes_halt by (auto split: option.splits)
  have ip: "fe_ip0 (dk_fetch (jal_core Hd_Running False)) = 0x100" by (simp add: jal_core_def)
  have st: "hd_state_reg (dk_hd s1) = Hd_Running"
    and nm: "\<not> de_load_cmd (bk_dec (dk_backend s1))" "\<not> de_store_cmd (bk_dec (dk_backend s1))"
    and j: "ej_jump (dk_exec_jump debug_config (snd (quiet_bus 1)) s1)"
      "ej_jump_dest (dk_exec_jump debug_config (snd (quiet_bus 1)) s1) = 0x140"
    using x by (simp_all add: jal_executes_def Let_def)
  from debug_halt[where bus = quiet_bus and t = 1, OF debug_config_example step jal_core_accepts(1) jal_core_accepts(5) st req
      jal_core_in_flight[OF step x], where k = 3]
  obtain t' s' s'' where r: "dk_run debug_config quiet_bus (replicate (Suc 3) dmi_quiet) (1, s1) = Some (t', s')"
    "dk_run debug_config quiet_bus [dmi_quiet] (t', s') = Some (Suc t', s'')"
    and d: "dc_cause (dk_debug_csrs s'') = 3" "dc_dpc (dk_debug_csrs s'') = bv_slice 32 2 (0x140 :: xword)"
    using nm j jal_core_accepts(4)[of Hd_Running] by (auto simp: Let_def)
  have "replicate 5 dmi_quiet = replicate (Suc 3) dmi_quiet @ [dmi_quiet]"
    by (simp add: numeral_eq_Suc)
  then have "dk_run debug_config quiet_bus (replicate 5 dmi_quiet) (1, s1) = Some (Suc t', s'')"
    using r by (simp only: dk_run_append) simp
  moreover have "bv_slice 32 2 (0x140 :: xword) = (0x50 :: ip_word)" by code_simp
  ultimately show ?thesis using step d by simp
qed

text \<open>
  C15: A single step executes one instruction. When the stepping hart has accepted an instruction
  that the adapter tracks and that executes at the next edge, no other is accepted until the
  hart is halted again; then the cause is 4, \<open>dpc\<close> is the jump target or the next address, and
  the core is ready for the debugger's accesses. If it is not a load or store, that is four
  edges after it executes at the latest.
\<close>

theorem debug_step:
  assumes c: "debug_config_ok c"
    and acc: "debug_core_step c False r ibus dbus s = Some s1"
      "ev_instruction_accepted (dk_events c dbus s)" "\<not> ads_active_progbuf (dk_adapter s)"
      "dk_tracked c dbus s" "hd_state_reg (dk_hd s) = Hd_Step_Issue"
    and x: "dk_executes c (snd (bus t)) s1" and ne: "\<not> ev_ebreak (dk_events c dbus s)"
  shows "let j = dk_exec_jump c (snd (bus t)) s1;
      npc = (if ej_jump j then ej_jump_dest j else fe_ip0 (dk_fetch s) + 4)
    in \<exists>t' s'. dk_run c bus (replicate (Suc k) dmi_quiet) (t, s1) = Some (t', s') \<and>
     \<not> ev_instruction_accepted (dk_events c (snd (bus t')) s') \<and>
     (hd_state_reg (dk_hd s') = Hd_Halted \<longrightarrow>
        (\<exists>s''. dk_run c bus [dmi_quiet] (t', s') = Some (Suc t', s'') \<and> dk_ready c s'' \<and>
           dc_cause (dk_debug_csrs s'') = 4 \<and> dc_dpc (dk_debug_csrs s'') = bv_slice 32 2 npc)) \<and>
     (\<not> de_load_cmd (bk_dec (dk_backend s1)) \<and> \<not> de_store_cmd (bk_dec (dk_backend s1)) \<and> 3 \<le> k \<longrightarrow>
        hd_state_reg (dk_hd s') = Hd_Halted)"
proof -
  obtain f where s1: "s1 = dk_next c r dbus f s" using debug_core_step_next[OF acc(1)] by blast
  have "hd_state_reg (dk_hd s1) = Hd_Step_Wait"
    using acc(2,5) ne by (simp add: s1 hd_state_machine_def Let_def)
  then show ?thesis
    using dk_stop_run[where st = Hd_Step_Wait and k = k and bus = bus and t = t, OF c x _ _ _ refl]
      acc(4) dk_accept_edge[OF acc(1-3)]
    by (auto simp: dk_recorded_def halt_cause_def Let_def)
qed

lemma jal_run_split:
  assumes "dk_run c bus (replicate (Suc 3) dmi_quiet) ts = Some (t', s')"
    "dk_run c bus [dmi_quiet] (t', s') = Some ts''"
  shows "dk_run c bus (replicate 5 dmi_quiet) ts = Some ts''"
proof -
  have "replicate 5 dmi_quiet = replicate (Suc 3) dmi_quiet @ [dmi_quiet]"
    by (simp add: numeral_eq_Suc)
  then show ?thesis using assms by (simp only: dk_run_append) simp
qed

lemma debug_step_witness:
  "case jal_core1 Hd_Step_Issue False dmi_quiet of None \<Rightarrow> False | Some s1 \<Rightarrow>
     \<exists>t' s'. dk_run debug_config quiet_bus (replicate 5 dmi_quiet) (1, s1) = Some (t', s') \<and>
       dc_cause (dk_debug_csrs s') = 4 \<and> dc_dpc (dk_debug_csrs s') = 0x50"
proof -
  obtain s1 where step: "jal_core1 Hd_Step_Issue False dmi_quiet = Some s1"
    and x: "jal_executes Hd_Step_Wait s1"
    using jal_core_executes_step by (auto split: option.splits)
  have nm: "\<not> de_load_cmd (bk_dec (dk_backend s1))" "\<not> de_store_cmd (bk_dec (dk_backend s1))"
    and j: "ej_jump (dk_exec_jump debug_config (snd (quiet_bus 1)) s1)"
      "ej_jump_dest (dk_exec_jump debug_config (snd (quiet_bus 1)) s1) = 0x140"
    using x by (simp_all add: jal_executes_def Let_def)
  have tr: "dk_tracked debug_config (snd (quiet_bus 0)) (jal_core Hd_Step_Issue False)"
    "hd_state_reg (dk_hd (jal_core Hd_Step_Issue False)) = Hd_Step_Issue"
    using jal_core_accepts(4)[of Hd_Step_Issue] by (simp_all add: jal_core_def)
  from debug_step[where bus = quiet_bus and t = 1, OF debug_config_example step jal_core_accepts(2) jal_core_accepts(5) tr
      jal_core_in_flight[OF step x] jal_core_accepts(3), where k = 3]
  obtain t' s' s'' where r: "dk_run debug_config quiet_bus (replicate (Suc 3) dmi_quiet) (1, s1) = Some (t', s')"
    "dk_run debug_config quiet_bus [dmi_quiet] (t', s') = Some (Suc t', s'')"
    and d: "dc_cause (dk_debug_csrs s'') = 4" "dc_dpc (dk_debug_csrs s'') = bv_slice 32 2 (0x140 :: xword)"
    using nm j by (auto simp: Let_def)
  have "bv_slice 32 2 (0x140 :: xword) = (0x50 :: ip_word)" by code_simp
  then show ?thesis using step d jal_run_split[OF r] by simp
qed

text \<open>
  The lost boundary, on one instance of a core that does not track the instruction it accepts. A core in which \<open>JAL\<close> at \<open>0x100\<close> is accepted in the cycle in which its
  predecessor leaves the pipeline empty, and a halt is requested: the jump to \<open>0x140\<close> executes,
  but the debugger finds \<open>0x104\<close> in \<open>dpc\<close>, so that the program resumes behind the jump.
\<close>

lemma debug_halt_loses_jump:
  "case jal_core1 Hd_Running True halt_request of None \<Rightarrow> False | Some s1 \<Rightarrow>
     ej_jump (dk_exec_jump debug_config (snd (quiet_bus 1)) s1) \<and>
     ej_jump_dest (dk_exec_jump debug_config (snd (quiet_bus 1)) s1) = 0x140 \<and>
     (\<exists>t' s'. dk_run debug_config quiet_bus (replicate 5 dmi_quiet) (1, s1) = Some (t', s') \<and>
        dk_ready debug_config s' \<and> dc_dpc (dk_debug_csrs s') = 0x41)"
proof -
  obtain s1 where step: "jal_core1 Hd_Running True halt_request = Some s1"
    and x: "jal_executes Hd_Running s1" and req: "dm_haltreq (dk_dm s1)"
    using jal_core_executes_lost by (auto split: option.splits)
  have st: "hd_state_reg (dk_hd s1) = Hd_Running"
    and nm: "\<not> de_load_cmd (bk_dec (dk_backend s1))" "\<not> de_store_cmd (bk_dec (dk_backend s1))"
    and j: "ej_jump (dk_exec_jump debug_config (snd (quiet_bus 1)) s1)"
      "ej_jump_dest (dk_exec_jump debug_config (snd (quiet_bus 1)) s1) = 0x140"
    using x by (simp_all add: jal_executes_def Let_def)
  note acc = dk_accept_edge[OF step jal_core_accepts(1) jal_core_accepts(5)]
  have act: "\<not> ads_active (dk_adapter s1)" "ads_next_pc (dk_adapter s1) = 0x104"
    using acc jal_core_accepts(6) by (simp_all add: jal_core_def)
  from dk_stop_run[where st = Hd_Halt_Pending and k = 3 and bus = quiet_bus and t = 1,
      OF debug_config_example jal_core_in_flight[OF step x] _ acc(4) acc(2) refl] st req nm act
  obtain t' s' s'' where r: "dk_run debug_config quiet_bus (replicate (Suc 3) dmi_quiet) (1, s1) = Some (t', s')"
    "dk_run debug_config quiet_bus [dmi_quiet] (t', s') = Some (Suc t', s'')"
    and d: "dk_recorded debug_config Hd_Halt_Pending 0x104 s''"
    by auto
  have "bv_slice 32 2 (0x104 :: xword) = (0x41 :: ip_word)" by code_simp
  then show ?thesis
    using step d j jal_run_split[OF r] by (simp add: dk_recorded_def)
qed

end
