(* ===== verification/Debug_Api.thy ===== *)
theory Debug_Api
  imports Debug_Access
begin

text \<open>
  The host's debug API (\<open>tb/debug/debug_api.py\<close>): halting and resuming, register and memory
  accesses by abstract commands and the program buffer, over a transport that offers reads and
  writes of debug module registers; and the direct transport of \<open>tb/debug/dmi_api.py\<close>, two clock
  edges per access, on the core with its debug module. A method is a function of the API
  object: \<open>None\<close> when it never returns, an error for a failed assertion. What a transport must
  keep is the locale \<open>debug_transport\<close>: an access is the access of the debug module interface
  between any number of idle core edges. Inside it a command is followed by its countdown of edges,
  and on the halted core every general register access of the API returns, with its polling, and
  is the access of the architectural register; the direct transport is its first interpretation.
\<close>

datatype api_error = Command_Failed | Still_Halted | Simulation_Stopped | Dmi_Failed | Attach_Failed

record 's api_object =
  ap_dev :: 's
  ap_halted :: bool
  ap_result :: xword
  ap_cmderr :: "3 word"

type_synonym 's api = "'s api_object \<Rightarrow> (api_error + 's api_object) option"

text \<open>The methods the subclasses provide.\<close>

record 's dmi_transport =
  tp_read :: "7 word \<Rightarrow> 's \<Rightarrow> (api_error + xword \<times> 's) option"
  tp_write :: "7 word \<Rightarrow> xword \<Rightarrow> 's \<Rightarrow> (api_error + 's) option"
  tp_clock :: "'s \<Rightarrow> (api_error + 's) option"

definition and_then :: "(api_error + 'a) option \<Rightarrow> ('a \<Rightarrow> (api_error + 'b) option) \<Rightarrow> (api_error + 'b) option"
where
  "and_then m f = (case m of None \<Rightarrow> None | Some (Inl e) \<Rightarrow> Some (Inl e) | Some (Inr x) \<Rightarrow> f x)"

lemma and_then_simps [simp]:
  "and_then None f = None" "and_then (Some (Inl e)) f = Some (Inl e)"
  "and_then (Some (Inr x)) f = f x"
  by (simp_all add: and_then_def)

definition api_dmi_read :: "'s dmi_transport \<Rightarrow> 7 word \<Rightarrow> 's api" where
  "api_dmi_read p a o' =
     and_then (tp_read p a (ap_dev o')) (\<lambda>(v, d). Some (Inr (o'\<lparr>ap_dev := d, ap_result := v\<rparr>)))"

definition api_dmi_write :: "'s dmi_transport \<Rightarrow> 7 word \<Rightarrow> xword \<Rightarrow> 's api" where
  "api_dmi_write p a v o' =
     and_then (tp_write p a v (ap_dev o')) (\<lambda>d. Some (Inr (o'\<lparr>ap_dev := d\<rparr>)))"

definition api_yield_clock :: "'s dmi_transport \<Rightarrow> 's api" where
  "api_yield_clock p o' =
     and_then (tp_clock p (ap_dev o')) (\<lambda>d. Some (Inr (o'\<lparr>ap_dev := d\<rparr>)))"

subsection \<open>Instructions for the program buffer\<close>

definition EBREAK_INSN :: xword where "EBREAK_INSN = 0x00100073"

definition encode_csrr :: "regno \<Rightarrow> 12 word \<Rightarrow> xword" where
  "encode_csrr rd csr_adr =
     push_bit 20 (ucast csr_adr) OR push_bit 12 2 OR push_bit 7 (ucast rd) OR 0x73"

definition encode_csrw :: "12 word \<Rightarrow> regno \<Rightarrow> xword" where
  "encode_csrw csr_adr rs1 =
     push_bit 20 (ucast csr_adr) OR push_bit 15 (ucast rs1) OR push_bit 12 1 OR 0x73"

subsection \<open>Halting and resuming\<close>

definition api_check_halted :: "'s dmi_transport \<Rightarrow> 's api" where
  "api_check_halted p o' =
     and_then (api_dmi_read p 0x11 o') (\<lambda>o1. Some (Inr (o1\<lparr>ap_halted := bit (ap_result o1) 8\<rparr>)))"

partial_function (option) api_wait_resume_ack ::
  "'s dmi_transport \<Rightarrow> 's api_object \<Rightarrow> (api_error + 's api_object) option" where
  "api_wait_resume_ack p o' =
     (case api_dmi_read p 0x11 o' of
        None \<Rightarrow> None
      | Some (Inl e) \<Rightarrow> Some (Inl e)
      | Some (Inr o1) \<Rightarrow> (if bit (ap_result o1) 16 then Some (Inr o1) else api_wait_resume_ack p o1))"

partial_function (option) api_wait_halted ::
  "'s dmi_transport \<Rightarrow> 's api_object \<Rightarrow> (api_error + 's api_object) option" where
  "api_wait_halted p o' =
     (if ap_halted o' then Some (Inr o')
      else (case api_check_halted p o' of
              None \<Rightarrow> None
            | Some (Inl e) \<Rightarrow> Some (Inl e)
            | Some (Inr o1) \<Rightarrow> api_wait_halted p o1))"

definition api_halt :: "'s dmi_transport \<Rightarrow> 's api" where
  "api_halt p o' =
     and_then (api_dmi_write p 0x10 1 o') (\<lambda>o1.
     and_then (api_check_halted p o1) (\<lambda>o2.
       if \<not> ap_halted o2
       then and_then (api_dmi_write p 0x10 (bv_put 0 True 0x80000000) o2) (api_wait_halted p)
       else Some (Inr o2)))"

definition api_request_resume :: "'s dmi_transport \<Rightarrow> 's api" where
  "api_request_resume p o' =
     and_then (api_check_halted p o') (\<lambda>o1.
       if ap_halted o1
       then and_then (api_dmi_write p 0x10 (bv_put 0 True (bv_put 30 True 0)) o1)
              (api_wait_resume_ack p)
       else Some (Inr o1))"

definition api_resume :: "'s dmi_transport \<Rightarrow> 's api" where
  "api_resume p o' =
     and_then (api_request_resume p o') (\<lambda>o1.
     and_then (api_check_halted p o1) (\<lambda>o2.
       if ap_halted o2 then Some (Inl Still_Halted) else Some (Inr o2)))"

definition api_ResetCore :: "'s dmi_transport \<Rightarrow> 's api" where
  "api_ResetCore p o' =
     and_then (api_dmi_write p 0x10 (bv_put 0 True (bv_put 1 True 0)) o')
       (api_dmi_write p 0x10 (bv_put 0 True 0))"

subsection \<open>Abstract commands\<close>

definition api_writeProgbuf0 :: "bonfire_config \<Rightarrow> 's dmi_transport \<Rightarrow> xword \<Rightarrow> 's api" where
  "api_writeProgbuf0 c p instruction o' =
     and_then (api_dmi_write p 0x20 instruction o') (\<lambda>o1.
       if progbuf_size c = 2 then api_dmi_write p 0x21 EBREAK_INSN o1 else Some (Inr o1))"

text \<open>The command word both methods build; only \<open>writeReg\<close> sets bit 16.\<close>

definition api_command :: "15 word \<Rightarrow> bool \<Rightarrow> bool \<Rightarrow> xword" where
  "api_command regno transfer postexec =
     bv_put 18 postexec (bv_put 17 transfer (bv_put_slice 15 0 regno (bv_put_slice 23 20 (2 :: 3 word) 0)))"

text \<open>\<open>yield self.dmi_read(0x16)\<close> and the loop \<open>while self.result[12]\<close> around the same read.\<close>

partial_function (option) api_wait_command ::
  "'s dmi_transport \<Rightarrow> 's api_object \<Rightarrow> (api_error + 's api_object) option" where
  "api_wait_command p o' =
     (case api_dmi_read p 0x16 o' of
        None \<Rightarrow> None
      | Some (Inl e) \<Rightarrow> Some (Inl e)
      | Some (Inr o1) \<Rightarrow> (if bit (ap_result o1) 12 then api_wait_command p o1 else Some (Inr o1)))"

text \<open>Starting a command, waiting for its end and checking it.\<close>

definition api_run_command :: "'s dmi_transport \<Rightarrow> xword \<Rightarrow> bool \<Rightarrow> 's api" where
  "api_run_command p c assert_cmderr o' =
     and_then (api_dmi_write p 0x17 c o') (\<lambda>o1.
     and_then (api_yield_clock p o1) (\<lambda>o2.
     and_then (api_wait_command p o2) (\<lambda>o3.
       let o4 = o3\<lparr>ap_cmderr := bv_slice 11 8 (ap_result o3)\<rparr> in
       if assert_cmderr \<and> ap_cmderr o4 \<noteq> 0 then Some (Inl Command_Failed) else Some (Inr o4))))"

definition api_readReg :: "'s dmi_transport \<Rightarrow> 15 word \<Rightarrow> bool \<Rightarrow> bool \<Rightarrow> bool \<Rightarrow> 's api" where
  "api_readReg p regno postexec transfer assert_cmderr o' =
     and_then (api_run_command p (api_command regno transfer postexec) assert_cmderr o') (\<lambda>o1.
       if ap_cmderr o1 = 0 then api_dmi_read p 0x4 o1 else Some (Inr o1))"

definition api_writeReg ::
  "'s dmi_transport \<Rightarrow> 15 word \<Rightarrow> xword \<Rightarrow> bool \<Rightarrow> bool \<Rightarrow> bool \<Rightarrow> 's api" where
  "api_writeReg p regno value postexec transfer assert_cmderr o' =
     and_then (api_dmi_write p 0x4 value o')
       (api_run_command p (bv_put 16 True (api_command regno transfer postexec)) assert_cmderr)"

definition api_readGPR :: "'s dmi_transport \<Rightarrow> regno \<Rightarrow> bool \<Rightarrow> bool \<Rightarrow> 's api" where
  "api_readGPR p regno postexec transfer = api_readReg p (ucast regno + 0x1000) postexec transfer True"

definition api_writeGPR :: "'s dmi_transport \<Rightarrow> regno \<Rightarrow> xword \<Rightarrow> bool \<Rightarrow> bool \<Rightarrow> 's api" where
  "api_writeGPR p regno value postexec transfer =
     api_writeReg p (ucast regno + 0x1000) value postexec transfer True"

subsection \<open>CSRs and memory through the program buffer\<close>

definition api_readCSR :: "bonfire_config \<Rightarrow> 's dmi_transport \<Rightarrow> 12 word \<Rightarrow> regno \<Rightarrow> 's api" where
  "api_readCSR c p csr_adr scratch o' =
     and_then (api_readGPR p scratch False True o') (\<lambda>o1. let scratch_save = ap_result o1 in
     and_then (api_writeProgbuf0 c p (encode_csrr scratch csr_adr) o1) (\<lambda>o2.
     and_then (api_readReg p 0 True False True o2) (\<lambda>o3.
     and_then (api_readGPR p scratch False True o3) (\<lambda>o4. let csr_value = ap_result o4 in
     and_then (api_writeGPR p scratch scratch_save False True o4) (\<lambda>o5.
       Some (Inr (o5\<lparr>ap_result := csr_value\<rparr>)))))))"

definition api_writeCSR :: "bonfire_config \<Rightarrow> 's dmi_transport \<Rightarrow> 12 word \<Rightarrow> xword \<Rightarrow> regno \<Rightarrow> 's api" where
  "api_writeCSR c p csr_adr value scratch o' =
     and_then (api_readGPR p scratch False True o') (\<lambda>o1. let scratch_save = ap_result o1 in
     and_then (api_writeGPR p scratch value False True o1) (\<lambda>o2.
     and_then (api_writeProgbuf0 c p (encode_csrw csr_adr scratch) o2) (\<lambda>o3.
     and_then (api_readReg p 0 True False True o3)
       (api_writeGPR p scratch scratch_save False True))))"

definition api_readMemory :: "bonfire_config \<Rightarrow> 's dmi_transport \<Rightarrow> xword \<Rightarrow> bool \<Rightarrow> 's api" where
  "api_readMemory c p memadr readbyte o' =
     and_then (api_writeProgbuf0 c p (if readbyte then 0x00044403 else 0x00042403) o') (\<lambda>o1.
     and_then (api_writeGPR p 8 memadr True True o1)
       (api_readGPR p 8 False True))"

definition api_writeMemory :: "bonfire_config \<Rightarrow> 's dmi_transport \<Rightarrow> xword \<Rightarrow> xword \<Rightarrow> bool \<Rightarrow> 's api" where
  "api_writeMemory c p memadr memvalue writeByte o' =
     and_then (api_writeProgbuf0 c p (if writeByte then 0x00940023 else 0x00942023) o') (\<lambda>o1.
     and_then (api_writeGPR p 8 memadr False True o1)
       (api_writeGPR p 9 memvalue True True))"

subsection \<open>The direct transport\<close>

text \<open>Every access waits for an edge, presents the request over the next one and, for a read,
  takes the data after it.\<close>

definition dk_stopped :: "(nat \<times> debug_core) option \<Rightarrow> (api_error + nat \<times> debug_core) option" where
  "dk_stopped m = (case m of None \<Rightarrow> Some (Inl Simulation_Stopped) | Some ts \<Rightarrow> Some (Inr ts))"

definition dmi_transport_read ::
  "bonfire_config \<Rightarrow> dk_bus \<Rightarrow> 7 word \<Rightarrow> nat \<times> debug_core \<Rightarrow> (api_error + xword \<times> nat \<times> debug_core) option" where
  "dmi_transport_read c bus a ts =
     and_then (dk_stopped (dk_run c bus [dmi_quiet, dmi_read a] ts))
       (\<lambda>ts'. Some (Inr (dm_dbo (dk_dm (snd ts')), ts')))"

definition dmi_transport_write ::
  "bonfire_config \<Rightarrow> dk_bus \<Rightarrow> 7 word \<Rightarrow> xword \<Rightarrow> nat \<times> debug_core \<Rightarrow> (api_error + nat \<times> debug_core) option" where
  "dmi_transport_write c bus a v ts = dk_stopped (dk_run c bus [dmi_quiet, dmi_write a v] ts)"

definition dmi_transport_clock ::
  "bonfire_config \<Rightarrow> dk_bus \<Rightarrow> nat \<times> debug_core \<Rightarrow> (api_error + nat \<times> debug_core) option" where
  "dmi_transport_clock c bus ts = dk_stopped (dk_run c bus [dmi_quiet] ts)"

definition dmi_api :: "bonfire_config \<Rightarrow> dk_bus \<Rightarrow> (nat \<times> debug_core) dmi_transport" where
  "dmi_api c bus = \<lparr>tp_read = dmi_transport_read c bus, tp_write = dmi_transport_write c bus,
     tp_clock = dmi_transport_clock c bus\<rparr>"

subsection \<open>The words the API writes\<close>

text \<open>The program buffer gets the instructions the comments and names promise.\<close>

lemma api_instructions:
  "encode_csrr rd csr_adr = rv_encode (Csr Csr_RS rd 0 csr_adr)"
  "encode_csrw csr_adr rs1 = rv_encode (Csr Csr_RW 0 rs1 csr_adr)"
  "EBREAK_INSN = rv_encode Ebreak"
  "0x00042403 = rv_encode (Load Lw 8 8 0)" "0x00044403 = rv_encode (Load Lbu 8 8 0)"
  "0x00942023 = rv_encode (Store Sw 8 9 0)" "0x00940023 = rv_encode (Store Sb 8 9 0)"
proof -
  have k: "(0x73 :: xword) = bv_put_slice 7 2 (0x1c :: 5 word) (bv_put_slice 2 0 (3 :: 2 word) 0)"
    "(push_bit 12 2 :: xword) = bv_put 13 True 0" "(push_bit 12 1 :: xword) = bv_put 12 True 0"
    "bv_cat (bv_bool False) (2 :: 2 word) = bv_put 1 True (0 :: 3 word)"
    "bv_cat (bv_bool False) (1 :: 2 word) = bv_put 0 True (0 :: 3 word)"
    by code_simp+
  show "encode_csrr rd csr_adr = rv_encode (Csr Csr_RS rd 0 csr_adr)"
    unfolding encode_csrr_def rv_encode.simps csr_funct2.simps k(1,2,4) rv_i_word_def rv_word_def
    by (rule bv_eqI) (auto simp: bv_simps bit_or_iff bit_push_bit_iff bit_ucast_iff
        dest: bit_imp_le_length)
  show "encode_csrw csr_adr rs1 = rv_encode (Csr Csr_RW 0 rs1 csr_adr)"
    unfolding encode_csrw_def rv_encode.simps csr_funct2.simps k(1,3,5) rv_i_word_def rv_word_def
    by (rule bv_eqI) (auto simp: bv_simps bit_or_iff bit_push_bit_iff bit_ucast_iff
        dest: bit_imp_le_length)
  show "EBREAK_INSN = rv_encode Ebreak" "0x00042403 = rv_encode (Load Lw 8 8 0)"
    "0x00044403 = rv_encode (Load Lbu 8 8 0)" "0x00942023 = rv_encode (Store Sw 8 9 0)"
    "0x00940023 = rv_encode (Store Sb 8 9 0)"
    by code_simp+
qed

lemma api_gpr_number: "(ucast (n :: regno) + 0x1000 :: 15 word) = bv_put 12 True (ucast n)"
proof -
  have k: "(0x1000 :: 15 word) = bv_put 12 True 0" by code_simp
  have "(ucast n :: 15 word) AND 0x1000 = 0"
    unfolding k by (rule bv_eqI) (auto simp: bv_simps bit_and_iff bit_ucast_iff dest: bit_imp_le_length)
  then have "ucast n + 0x1000 = ucast n OR (0x1000 :: 15 word)" by (rule disjunctive_add_eq_or)
  also have "\<dots> = bv_put 12 True (ucast n)" by (simp add: bv_put_def set_bit_eq_or)
  finally show ?thesis .
qed

lemma api_command_access:
  "api_command (ucast n + 0x1000) True False = access_register False n"
  "bv_put 16 True (api_command (ucast n + 0x1000) True False) = access_register True n"
  "bv_put 16 True (access_register False n) = access_register True n"
proof -
  have k: "(2 :: 3 word) = bv_put 1 True 0" by (simp add: bv_put_def set_bit_eq_or)
  show "api_command (ucast n + 0x1000) True False = access_register False n"
    "bv_put 16 True (api_command (ucast n + 0x1000) True False) = access_register True n"
    unfolding api_command_def access_register_def api_gpr_number k
    by (rule bv_eqI; auto simp: bv_simps bit_ucast_iff dest: bit_imp_le_length)+
  show "bv_put 16 True (access_register False n) = access_register True n"
    unfolding access_register_def by (rule bv_eqI) (auto simp: bv_simps)
qed

subsection \<open>A command on its way\<close>

lemma dk_run_split:
  "dk_run c bus (rs @ qs) ts = Some ts' \<longleftrightarrow>
     (\<exists>u. dk_run c bus rs ts = Some u \<and> dk_run c bus qs u = Some ts')"
  by (auto simp: dk_run_append split: option.splits)

lemma dk_run_around:
  assumes "dk_run c bus xs ts = Some u" "dk_run c bus [r] u = Some v" "dk_run c bus ys v = Some w"
  shows "dk_run c bus (xs @ r # ys) ts = Some w"
proof -
  have "dk_run c bus ([r] @ ys) u = Some w" using assms(2,3) dk_run_split by blast
  then have "dk_run c bus (xs @ [r] @ ys) ts = Some w" using assms(1) dk_run_split by blast
  then show ?thesis by simp
qed

text \<open>A register command started on the ready core \<open>s0\<close>, at most \<open>k\<close> harmless edges before its
  end: requested, taken by the controller, its result on the way, done.\<close>

definition dk_outcome :: "bonfire_config \<Rightarrow> bool \<Rightarrow> regno \<Rightarrow> debug_core \<Rightarrow> debug_core \<Rightarrow> bool" where
  "dk_outcome c wr n s0 s \<longleftrightarrow>
     dk_regs c s = (if wr then write_reg (Some (n, dk_data0 s0)) (dk_regs c s0) else dk_regs c s0)"

fun dk_pending ::
  "bonfire_config \<Rightarrow> bool \<Rightarrow> regno \<Rightarrow> debug_core \<Rightarrow> nat \<Rightarrow> debug_core \<Rightarrow> bool" where
  "dk_pending c wr n s0 0 s \<longleftrightarrow> dk_ready c s \<and> dk_outcome c wr n s0 s \<and>
     (\<not> wr \<longrightarrow> dk_data0 s = dk_regs c s0 n) \<and> dk_kept c s0 s"
| "dk_pending c wr n s0 (Suc 0) s \<longleftrightarrow>
     dk_busy c wr n False (if wr then Ac_None else Ac_Regvalid) s \<and>
     backend_drained c (dk_backend s) \<and> dk_outcome c wr n s0 s \<and>
     (\<not> wr \<longrightarrow> ac_result (dk_ac s) = dk_regs c s0 n) \<and> dk_kept c s0 s"
| "dk_pending c wr n s0 (Suc (Suc 0)) s \<longleftrightarrow> dk_busy c wr n True Ac_Taken s \<and>
     dk_regs c s = dk_regs c s0 \<and> exec_idle c (bk_exec (dk_backend s)) \<and>
     (if wr then (\<exists>d0. bk_dec (dk_backend s) = decode_transfer \<lparr>rt_valid = True, rt_write = True,
                    rt_regno = n, rt_write_data = dk_data0 s0\<rparr> d0) \<and>
                 (exec_wb_stage c \<longrightarrow> \<not> wb_valid (bk_wb (dk_backend s)))
      else backend_idle c (dk_backend s) \<and> regfile_rd_a (bk_rf (dk_backend s)) = dk_regs c s0 n) \<and>
     dk_kept c s0 s"
| "dk_pending c wr n s0 (Suc (Suc (Suc k))) s \<longleftrightarrow> dk_busy c wr n True Ac_None s \<and>
     backend_idle c (dk_backend s) \<and> dk_regs c s = dk_regs c s0 \<and> dk_data0 s = dk_data0 s0 \<and>
     dk_kept c s0 s"

lemma dk_pending_parked: "dk_pending c wr n s0 k s \<Longrightarrow> dk_parked s"
  by (cases "(c, wr, n, s0, k, s)" rule: dk_pending.cases)
    (auto intro: dk_ready_parked dk_busy_parked)

lemma dk_pending_calm:
  "dk_pending c wr n s0 k s \<Longrightarrow> dm_calm c (dk_dm s) \<and> ac_command_state (dk_ac s) \<noteq> Ac_Failed"
  by (cases "(c, wr, n, s0, k, s)" rule: dk_pending.cases)
    (auto simp: dk_ready_def dk_busy_def split: if_splits)

lemma dk_pending_start:
  assumes "debug_config_ok c" "dk_ready c s"
  shows "dk_pending c wr n s 3
     (dk_halted_next c (dmi_write DMI_ADDR_COMMAND (access_register wr n)) dbus f s)"
  using dk_command_start[OF assms refl, where wr = wr and n = n and dbus = dbus and f = f]
    dk_ready_frame(2)[OF assms(2)]
  by (simp add: numeral_3_eq_3)

lemma dk_pending_step:
  assumes c: "debug_config_ok c" and r: "dmi_harmless r" and k: "k \<le> 3"
    and s: "dk_pending c wr n s0 k s"
  shows "dk_pending c wr n s0 (k - 1) (dk_halted_next c r dbus f s)"
proof -
  let ?s = "dk_halted_next c r dbus f s"
  have kept: "dk_kept c s0 s \<Longrightarrow> dk_kept c s ?s \<Longrightarrow> dk_kept c s0 ?s" by (rule dk_kept_trans)
  consider "k = 0" | "k = 1" | "k = 2" | "k = 3" using k by linarith
  then show ?thesis
  proof cases
    case 1
    then have rd: "dk_ready c s" using s by simp
    show ?thesis
      using 1 s dk_ready_quiet[OF c rd r, of dbus f] kept dk_ready_frame(2)[OF rd, of r dbus f] r
      by (simp add: dk_outcome_def)
  next
    case 2
    then have b: "dk_busy c wr n False (if wr then Ac_None else Ac_Regvalid) s"
      "backend_drained c (dk_backend s)" using s by simp_all
    have "dk_kept c s ?s"
      using b r by (intro dk_busy_kept[OF b(1)]) (auto simp: backend_drained_def)
    then show ?thesis
      using 2 s dk_command_end[OF c b(1) _ b(2) r, of dbus f] kept
      by (auto simp: dk_outcome_def split: if_splits)
  next
    case 3
    then have b: "dk_busy c wr n True Ac_Taken s" using s by (simp add: numeral_2_eq_2)
    have "dk_kept c s ?s"
      using 3 s r by (intro dk_busy_kept[OF b])
        (auto simp: numeral_2_eq_2 backend_idle_def backend_drained_def split: if_splits)
    then show ?thesis
      using 3 s dk_command_taken[OF c b r, where dbus = dbus and f = f] kept
      by (cases wr) (auto simp: numeral_2_eq_2 dk_outcome_def backend_idle_def)
  next
    case 4
    then have b: "dk_busy c wr n True Ac_None s" "backend_idle c (dk_backend s)"
      using s by (simp_all add: numeral_3_eq_3)
    have "dk_kept c s ?s"
      using b r by (intro dk_busy_kept[OF b(1)]) (simp_all add: backend_idle_def backend_drained_def)
    then show ?thesis
      using 4 s dk_command_request[OF c b r, of dbus f] kept
      by (cases wr) (auto simp: numeral_3_eq_3 numeral_2_eq_2 backend_idle_def backend_drained_def Let_def)
  qed
qed

lemma dk_pending_run:
  assumes c: "debug_config_ok c" and k: "k \<le> 3"
  shows "\<lbrakk>list_all dmi_harmless rs; dk_pending c wr n s0 k s\<rbrakk> \<Longrightarrow>
     \<exists>t' s'. dk_run c bus rs (t, s) = Some (t', s') \<and> dk_pending c wr n s0 (k - length rs) s'"
  using k
proof (induction rs arbitrary: k t s)
  case (Cons r rs)
  obtain f where r: "dk_run c bus (r # rs) (t, s) =
      dk_run c bus rs (Suc t, dk_halted_next c r (snd (bus t)) f s)"
    using dk_run_parked[OF dk_pending_parked[OF Cons.prems(2)]] by blast
  have "dk_pending c wr n s0 (k - 1) (dk_halted_next c r (snd (bus t)) f s)"
    using dk_pending_step[OF c _ Cons.prems(3,2)] Cons.prems(1) by simp
  from Cons.IH[OF _ this, of "Suc t"] Cons.prems show ?case unfolding r by simp
qed simp

text \<open>The edge that polls a command: its error field is clear, and it shows the command busy only
  before the end, free only when this edge is the last one.\<close>

lemma dk_pending_poll:
  assumes c: "debug_config_ok c" and k: "k \<le> 3" and s: "dk_pending c wr n s0 k s"
  shows "\<exists>u s'. dk_run c bus [dmi_read DMI_ADDR_ABSTRACTCS] (t, s) = Some (u, s') \<and>
     dk_pending c wr n s0 (k - 1) s' \<and> dk_cmderr_clear s' \<and>
     (if bit (dm_dbo (dk_dm s')) 12 then 0 < k else k \<le> 1)"
proof -
  let ?r = "dmi_read DMI_ADDR_ABSTRACTCS"
  obtain f where r: "dk_run c bus [?r] (t, s) =
      Some (Suc t, dk_halted_next c ?r (snd (bus t)) f s)"
    using dk_run_parked[OF dk_pending_parked[OF s], of c bus ?r "[]" t] by auto
  note q = dk_pending_calm[OF s]
  have "(if dm_command_busy (dk_dmi_in False ?r s) (dk_dm s) then 0 < k else k \<le> 1)"
    using s k by (cases "(c, wr, n, s0, k, s)" rule: dk_pending.cases)
      (auto simp: dm_command_busy_def dk_ready_def dk_busy_def)
  then show ?thesis
    using r dk_poll_edge[OF c, of s "snd (bus t)" f] q
      dk_pending_step[OF c dmi_harmless_simps(2) k s, of "snd (bus t)" f] by auto
qed

subsection \<open>The contract of a transport\<close>

text \<open>
  What the API needs of a transport: in a state that is \<open>ok\<close>, an access is the access of the debug
  module interface between some number of core edges without an access, whenever the core makes
  those edges; a read returns what the module shows after its edge.
\<close>

abbreviation (input) dmi_idle :: "nat \<Rightarrow> dmi_request list" where
  "dmi_idle n \<equiv> replicate n dmi_quiet"

locale debug_transport =
  fixes c :: bonfire_config and bus :: dk_bus and p :: "'s dmi_transport"
    and core :: "'s \<Rightarrow> nat \<times> debug_core" and ok :: "'s \<Rightarrow> bool"
  assumes read_law: "ok d \<Longrightarrow> \<exists>m n. \<forall>u v.
      dk_run c bus (dmi_idle m @ [dmi_read a]) (core d) = Some u \<longrightarrow> dk_run c bus (dmi_idle n) u = Some v \<longrightarrow>
      (\<exists>d'. tp_read p a d = Some (Inr (dm_dbo (dk_dm (snd u)), d')) \<and> ok d' \<and> core d' = v)"
    and write_law: "ok d \<Longrightarrow> \<exists>m n. \<forall>u.
      dk_run c bus (dmi_idle m @ dmi_write a w # dmi_idle n) (core d) = Some u \<longrightarrow>
      (\<exists>d'. tp_write p a w d = Some (Inr d') \<and> ok d' \<and> core d' = u)"
    and clock_law: "ok d \<Longrightarrow> \<exists>m. \<forall>u. dk_run c bus (dmi_idle m) (core d) = Some u \<longrightarrow>
      (\<exists>d'. tp_clock p d = Some (Inr d') \<and> ok d' \<and> core d' = u)"
begin

lemma idle_run:
  assumes "debug_config_ok c" "dk_ready c (snd ts)"
  shows "\<exists>u. dk_run c bus (dmi_idle n) ts = Some u \<and> dk_ready c (snd u) \<and>
     dk_regs c (snd u) = dk_regs c (snd ts) \<and> dk_data0 (snd u) = dk_data0 (snd ts) \<and>
     dk_kept c (snd ts) (snd u)"
  using dk_run_quiet[OF assms, of bus n "fst ts"] by fastforce

lemma edge_run:
  assumes "dk_ready c (snd ts)"
  shows "\<exists>t f. dk_run c bus [r] ts = Some (t, dk_halted_next c r (snd (bus (fst ts))) f (snd ts))"
  using dk_run_parked[OF dk_ready_parked[OF assms], of c bus r "[]" "fst ts"] by auto

text \<open>Reading and writing \<open>data0\<close> of a ready core.\<close>

lemma data0_read:
  assumes c: "debug_config_ok c" and d: "ok d" and s: "dk_ready c (snd (core d))"
  shows "\<exists>d'. tp_read p 0x4 d = Some (Inr (dk_data0 (snd (core d)), d')) \<and> ok d' \<and>
     dk_ready c (snd (core d')) \<and> dk_regs c (snd (core d')) = dk_regs c (snd (core d)) \<and>
     dk_kept c (snd (core d)) (snd (core d'))"
proof -
  let ?r = "dmi_read DMI_ADDR_DATA0"
  obtain m n where law: "\<And>u v. dk_run c bus (dmi_idle m @ [?r]) (core d) = Some u \<Longrightarrow>
      dk_run c bus (dmi_idle n) u = Some v \<Longrightarrow>
      \<exists>d'. tp_read p 0x4 d = Some (Inr (dm_dbo (dk_dm (snd u)), d')) \<and> ok d' \<and> core d' = v"
    using read_law[OF d] by metis
  obtain u1 where u1: "dk_run c bus (dmi_idle m) (core d) = Some u1" "dk_ready c (snd u1)"
    "dk_regs c (snd u1) = dk_regs c (snd (core d))" "dk_data0 (snd u1) = dk_data0 (snd (core d))"
    "dk_kept c (snd (core d)) (snd u1)"
    using idle_run[OF c s] by blast
  obtain t f where r: "dk_run c bus [?r] u1 =
      Some (t, dk_halted_next c ?r (snd (bus (fst u1))) f (snd u1))"
    using edge_run[OF u1(2)] by blast
  define s2 where "s2 = dk_halted_next c ?r (snd (bus (fst u1))) f (snd u1)"
  have rd: "dr_en ?r" "dr_adr ?r = DMI_ADDR_DATA0" "\<not> dr_we ?r" by (simp_all add: dmi_read_def)
  note q = dk_ready_data0[OF c u1(2) rd(1,2), of "snd (bus (fst u1))" f, folded s2_def]
  have k: "dk_kept c (snd u1) s2" unfolding s2_def by (rule dk_ready_frame(2)[OF u1(2)]) simp
  have rs2: "dk_ready c (snd (t, s2))" using q(1) by simp
  obtain u3 where u3: "dk_run c bus (dmi_idle n) (t, s2) = Some u3" "dk_ready c (snd u3)"
    "dk_regs c (snd u3) = dk_regs c s2" "dk_kept c s2 (snd u3)"
    using idle_run[OF c rs2, of n] by auto
  have "dk_run c bus (dmi_idle m @ [?r]) (core d) = Some (t, s2)"
    using u1(1) r unfolding s2_def dk_run_split by blast
  from law[OF this u3(1)] obtain d' where
    "tp_read p 0x4 d = Some (Inr (dm_dbo (dk_dm s2), d'))" "ok d'" "core d' = u3" by auto
  then show ?thesis
    using u1(3,4) q(2,4) rd(3) u3(2,3) dk_kept_trans[OF dk_kept_trans[OF u1(5) k] u3(4)]
    by (intro exI[of _ d']) simp
qed

lemma data0_write:
  assumes c: "debug_config_ok c" and d: "ok d" and s: "dk_ready c (snd (core d))"
  shows "\<exists>d'. tp_write p 0x4 w d = Some (Inr d') \<and> ok d' \<and> dk_ready c (snd (core d')) \<and>
     dk_regs c (snd (core d')) = dk_regs c (snd (core d)) \<and> dk_data0 (snd (core d')) = w \<and>
     dk_kept c (snd (core d)) (snd (core d'))"
proof -
  let ?r = "dmi_write DMI_ADDR_DATA0 w"
  obtain m n where law: "\<And>u. dk_run c bus (dmi_idle m @ ?r # dmi_idle n) (core d) = Some u \<Longrightarrow>
      \<exists>d'. tp_write p 0x4 w d = Some (Inr d') \<and> ok d' \<and> core d' = u"
    using write_law[OF d] by metis
  obtain u1 where u1: "dk_run c bus (dmi_idle m) (core d) = Some u1" "dk_ready c (snd u1)"
    "dk_regs c (snd u1) = dk_regs c (snd (core d))" "dk_kept c (snd (core d)) (snd u1)"
    using idle_run[OF c s] by blast
  obtain t f where r: "dk_run c bus [?r] u1 =
      Some (t, dk_halted_next c ?r (snd (bus (fst u1))) f (snd u1))"
    using edge_run[OF u1(2)] by blast
  define s2 where "s2 = dk_halted_next c ?r (snd (bus (fst u1))) f (snd u1)"
  have wr: "dr_en ?r" "dr_adr ?r = DMI_ADDR_DATA0" "dr_we ?r" "dr_dbi ?r = w"
    by (simp_all add: dmi_write_def)
  note q = dk_ready_data0[OF c u1(2) wr(1,2), of "snd (bus (fst u1))" f, folded s2_def]
  have k: "dk_kept c (snd u1) s2" unfolding s2_def by (rule dk_ready_frame(2)[OF u1(2)]) simp
  have rs2: "dk_ready c (snd (t, s2))" using q(1) by simp
  obtain u3 where u3: "dk_run c bus (dmi_idle n) (t, s2) = Some u3" "dk_ready c (snd u3)"
    "dk_regs c (snd u3) = dk_regs c s2" "dk_data0 (snd u3) = dk_data0 s2" "dk_kept c s2 (snd u3)"
    using idle_run[OF c rs2, of n] by auto
  have "dk_run c bus (dmi_idle m @ ?r # dmi_idle n) (core d) = Some u3"
    using dk_run_around[OF u1(1) r[folded s2_def] u3(1)] .
  from law[OF this] obtain d' where
    "tp_write p 0x4 w d = Some (Inr d')" "ok d'" "core d' = u3" by blast
  then show ?thesis
    using u1(3) q(2,3) wr(3,4) u3(2-4) dk_kept_trans[OF dk_kept_trans[OF u1(4) k] u3(5)]
    by (intro exI[of _ d']) simp
qed

text \<open>Polling a command: it takes at most its countdown of reads.\<close>

lemma poll_command:
  assumes c: "debug_config_ok c" and d: "ok d" and k: "k \<le> 3"
    and s: "dk_pending c wr n s0 k (snd (core d))"
  shows "\<exists>v d' k'. tp_read p 0x16 d = Some (Inr (v, d')) \<and> ok d' \<and> k' \<le> 3 \<and>
     dk_pending c wr n s0 k' (snd (core d')) \<and> bv_slice 11 8 v = (0 :: 3 word) \<and>
     (if bit v 12 then k' < k else k' = 0)"
proof -
  let ?r = "dmi_read DMI_ADDR_ABSTRACTCS"
  obtain m l where law: "\<And>u v. dk_run c bus (dmi_idle m @ [?r]) (core d) = Some u \<Longrightarrow>
      dk_run c bus (dmi_idle l) u = Some v \<Longrightarrow>
      \<exists>d'. tp_read p 0x16 d = Some (Inr (dm_dbo (dk_dm (snd u)), d')) \<and> ok d' \<and> core d' = v"
    using read_law[OF d] by metis
  have h: "list_all dmi_harmless (dmi_idle i)" for i by (induction i) simp_all
  obtain t1 s1 where q1: "dk_run c bus (dmi_idle m) (core d) = Some (t1, s1)"
    "dk_pending c wr n s0 (k - m) s1"
    using dk_pending_run[OF c k h[of m] s, of bus "fst (core d)"] by auto
  have km: "k - m \<le> 3" using k by simp
  obtain t2 s2 where q2: "dk_run c bus [?r] (t1, s1) = Some (t2, s2)"
    "dk_pending c wr n s0 (k - m - 1) s2" "dk_cmderr_clear s2"
    "if bit (dm_dbo (dk_dm s2)) 12 then 0 < k - m else k - m \<le> 1"
    using dk_pending_poll[OF c km q1(2), of bus t1] by blast
  have km': "k - m - 1 \<le> 3" using k by simp
  obtain t3 s3 where q3: "dk_run c bus (dmi_idle l) (t2, s2) = Some (t3, s3)"
    "dk_pending c wr n s0 (k - m - 1 - l) s3"
    using dk_pending_run[OF c km' h[of l] q2(2), of bus t2] by auto
  have "dk_run c bus (dmi_idle m @ [?r]) (core d) = Some (t2, s2)"
    using q1(1) q2(1) unfolding dk_run_split by blast
  from law[OF this q3(1)] obtain d' where
    "tp_read p 0x16 d = Some (Inr (dm_dbo (dk_dm s2), d'))" "ok d'" "core d' = (t3, s3)" by auto
  then show ?thesis
    using q2(3,4) q3(2) k
    by (intro exI[of _ "dm_dbo (dk_dm s2)"] exI[of _ d'] exI[of _ "k - m - 1 - l"])
      (auto simp: dk_cmderr_clear_def split: if_splits)
qed

lemma wait_command:
  assumes c: "debug_config_ok c"
  shows "\<lbrakk>ok (ap_dev o'); k \<le> 3; dk_pending c wr n s0 k (snd (core (ap_dev o')))\<rbrakk> \<Longrightarrow>
     \<exists>v d'. api_wait_command p o' = Some (Inr (o'\<lparr>ap_dev := d', ap_result := v\<rparr>)) \<and>
       bv_slice 11 8 v = (0 :: 3 word) \<and> ok d' \<and> dk_pending c wr n s0 0 (snd (core d'))"
proof (induction k arbitrary: o' rule: less_induct)
  case (less k)
  obtain v d' k' where r: "tp_read p 0x16 (ap_dev o') = Some (Inr (v, d'))" "ok d'" "k' \<le> 3"
    "dk_pending c wr n s0 k' (snd (core d'))" "bv_slice 11 8 v = (0 :: 3 word)"
    "if bit v 12 then k' < k else k' = 0"
    using poll_command[OF c less.prems] by blast
  let ?o = "o'\<lparr>ap_dev := d', ap_result := v\<rparr>"
  have step: "api_wait_command p o' =
      (if bit v 12 then api_wait_command p ?o else Some (Inr ?o))"
    using r(1) by (subst api_wait_command.simps) (simp add: api_dmi_read_def)
  show ?case
  proof (cases "bit v 12")
    case True
    have "k' < k" using r(6) True by simp
    from less.IH[OF this, of ?o] r(2-4) show ?thesis unfolding step using True by auto
  next
    case False
    then show ?thesis unfolding step using r by (intro exI[of _ v] exI[of _ d']) simp
  qed
qed

text \<open>A command of the API, from its start to the end of the polling.\<close>

lemma run_command:
  assumes c: "debug_config_ok c" and d: "ok (ap_dev o')" and s: "dk_ready c (snd (core (ap_dev o')))"
  shows "\<exists>v d'. api_run_command p (access_register wr n) chk o' =
       Some (Inr (o'\<lparr>ap_dev := d', ap_result := v, ap_cmderr := 0\<rparr>)) \<and> ok d' \<and>
     dk_ready c (snd (core d')) \<and> dk_outcome c wr n (snd (core (ap_dev o'))) (snd (core d')) \<and>
     (\<not> wr \<longrightarrow> dk_data0 (snd (core d')) = dk_regs c (snd (core (ap_dev o'))) n) \<and>
     dk_kept c (snd (core (ap_dev o'))) (snd (core d'))"
proof -
  let ?w = "dmi_write DMI_ADDR_COMMAND (access_register wr n)" and ?s = "snd (core (ap_dev o'))"
  obtain m l where law: "\<And>u. dk_run c bus (dmi_idle m @ ?w # dmi_idle l) (core (ap_dev o')) = Some u \<Longrightarrow>
      \<exists>d'. tp_write p 0x17 (access_register wr n) (ap_dev o') = Some (Inr d') \<and> ok d' \<and> core d' = u"
    using write_law[OF d] by metis
  have h: "list_all dmi_harmless (dmi_idle i)" for i by (induction i) simp_all
  obtain u0 where u0: "dk_run c bus (dmi_idle m) (core (ap_dev o')) = Some u0" "dk_ready c (snd u0)"
    "dk_regs c (snd u0) = dk_regs c ?s" "dk_data0 (snd u0) = dk_data0 ?s" "dk_kept c ?s (snd u0)"
    using idle_run[OF c s] by blast
  obtain t1 f where e: "dk_run c bus [?w] u0 =
      Some (t1, dk_halted_next c ?w (snd (bus (fst u0))) f (snd u0))"
    using edge_run[OF u0(2)] by blast
  obtain t2 s2 where q2: "dk_run c bus (dmi_idle l)
      (t1, dk_halted_next c ?w (snd (bus (fst u0))) f (snd u0)) = Some (t2, s2)"
    "dk_pending c wr n (snd u0) (3 - l) s2"
    using dk_pending_run[OF c order_refl h[of l] dk_pending_start[OF c u0(2), of wr n
        "snd (bus (fst u0))" f], of bus t1] by auto
  have "dk_run c bus (dmi_idle m @ ?w # dmi_idle l) (core (ap_dev o')) = Some (t2, s2)"
    by (rule dk_run_around[OF u0(1) e q2(1)])
  from law[OF this] obtain d1 where d1:
    "tp_write p 0x17 (access_register wr n) (ap_dev o') = Some (Inr d1)" "ok d1" "core d1 = (t2, s2)"
    by blast
  obtain j where law2: "\<And>u. dk_run c bus (dmi_idle j) (core d1) = Some u \<Longrightarrow>
      \<exists>d'. tp_clock p d1 = Some (Inr d') \<and> ok d' \<and> core d' = u"
    using clock_law[OF d1(2)] by blast
  have k3: "3 - l \<le> (3 :: nat)" by simp
  obtain t3 s3 where q3: "dk_run c bus (dmi_idle j) (t2, s2) = Some (t3, s3)"
    "dk_pending c wr n (snd u0) (3 - l - j) s3"
    using dk_pending_run[OF c k3 h[of j] q2(2), of bus t2] by auto
  obtain d2 where d2: "tp_clock p d1 = Some (Inr d2)" "ok d2" "core d2 = (t3, s3)"
    using law2 q3(1) d1(3) by metis
  obtain v d3 where w: "api_wait_command p (o'\<lparr>ap_dev := d2\<rparr>) =
      Some (Inr (o'\<lparr>ap_dev := d3, ap_result := v\<rparr>))" "bv_slice 11 8 v = (0 :: 3 word)" "ok d3"
    "dk_pending c wr n (snd u0) 0 (snd (core d3))"
    using wait_command[OF c, of "o'\<lparr>ap_dev := d2\<rparr>" "3 - l - j" wr n "snd u0"] d2(2,3) q3(2) by auto
  have "api_run_command p (access_register wr n) chk o' =
      Some (Inr (o'\<lparr>ap_dev := d3, ap_result := v, ap_cmderr := 0\<rparr>))"
    using d1(1) d2(1) w(1,2)
    by (simp add: api_run_command_def api_dmi_write_def api_yield_clock_def Let_def)
  then show ?thesis
    using w(3,4) u0(3-5) dk_kept_trans[OF u0(5)]
    by (intro exI[of _ v] exI[of _ d3]) (auto simp: dk_outcome_def)
qed

lemma readGPR:
  assumes c: "debug_config_ok c" and d: "ok (ap_dev o')" and s: "dk_ready c (snd (core (ap_dev o')))"
  shows "\<exists>d'. api_readGPR p n False True o' = Some (Inr (o'\<lparr>ap_dev := d',
       ap_result := dk_regs c (snd (core (ap_dev o'))) n, ap_cmderr := 0\<rparr>)) \<and> ok d' \<and>
     dk_ready c (snd (core d')) \<and>
     dk_regs c (snd (core d')) = dk_regs c (snd (core (ap_dev o'))) \<and>
     dk_kept c (snd (core (ap_dev o'))) (snd (core d'))"
proof -
  let ?R = "dk_regs c (snd (core (ap_dev o')))"
  obtain v d1 where e: "api_run_command p (access_register False n) True o' =
      Some (Inr (o'\<lparr>ap_dev := d1, ap_result := v, ap_cmderr := 0\<rparr>))" "ok d1"
    "dk_ready c (snd (core d1))" "dk_regs c (snd (core d1)) = ?R"
    "dk_data0 (snd (core d1)) = ?R n" "dk_kept c (snd (core (ap_dev o'))) (snd (core d1))"
    using run_command[OF c d s, of False n True] by (auto simp: dk_outcome_def)
  obtain d2 where f: "tp_read p 0x4 d1 = Some (Inr (?R n, d2))" "ok d2"
    "dk_ready c (snd (core d2))" "dk_regs c (snd (core d2)) = ?R"
    "dk_kept c (snd (core d1)) (snd (core d2))"
    using data0_read[OF c e(2,3)] unfolding e(4,5) by blast
  have "api_readGPR p n False True o' =
      Some (Inr (o'\<lparr>ap_dev := d2, ap_result := ?R n, ap_cmderr := 0\<rparr>))"
    using e(1) f(1) by (simp add: api_readGPR_def api_readReg_def api_command_access api_dmi_read_def)
  then show ?thesis using f(2-4) dk_kept_trans[OF e(6) f(5)] by blast
qed

lemma writeGPR:
  assumes c: "debug_config_ok c" and d: "ok (ap_dev o')" and s: "dk_ready c (snd (core (ap_dev o')))"
  shows "\<exists>x d'. api_writeGPR p n w False True o' =
       Some (Inr (o'\<lparr>ap_dev := d', ap_result := x, ap_cmderr := 0\<rparr>)) \<and> ok d' \<and>
     dk_ready c (snd (core d')) \<and>
     dk_regs c (snd (core d')) = write_reg (Some (n, w)) (dk_regs c (snd (core (ap_dev o')))) \<and>
     dk_kept c (snd (core (ap_dev o'))) (snd (core d'))"
proof -
  obtain d1 where e: "tp_write p 0x4 w (ap_dev o') = Some (Inr d1)" "ok d1"
    "dk_ready c (snd (core d1))" "dk_regs c (snd (core d1)) = dk_regs c (snd (core (ap_dev o')))"
    "dk_data0 (snd (core d1)) = w" "dk_kept c (snd (core (ap_dev o'))) (snd (core d1))"
    using data0_write[OF c d s] by blast
  have d': "ok (ap_dev (o'\<lparr>ap_dev := d1\<rparr>))" "dk_ready c (snd (core (ap_dev (o'\<lparr>ap_dev := d1\<rparr>))))"
    using e by simp_all
  obtain v d2 where f: "api_run_command p (access_register True n) True (o'\<lparr>ap_dev := d1\<rparr>) =
      Some (Inr (o'\<lparr>ap_dev := d2, ap_result := v, ap_cmderr := 0\<rparr>))" "ok d2"
    "dk_ready c (snd (core d2))" "dk_outcome c True n (snd (core d1)) (snd (core d2))"
    "dk_kept c (snd (core d1)) (snd (core d2))"
    using run_command[OF c d', of True n True] by auto
  have "api_writeGPR p n w False True o' =
      Some (Inr (o'\<lparr>ap_dev := d2, ap_result := v, ap_cmderr := 0\<rparr>))"
    using e(1) f(1)
    by (simp add: api_writeGPR_def api_writeReg_def api_command_access api_dmi_write_def)
  then show ?thesis
    using f(2-4) e(4,5) dk_kept_trans[OF e(6) f(5)] by (auto simp: dk_outcome_def)
qed

end

subsection \<open>Sessions of register accesses\<close>

text \<open>The accesses of a session as calls of the API, with what they return to the caller.\<close>

fun api_access ::
  "'s dmi_transport \<Rightarrow> reg_access \<Rightarrow> 's api_object \<Rightarrow> (xword option \<times> 's api_object) option" where
  "api_access p (Reg_Read n) o' =
     (case api_readGPR p n False True o' of
        Some (Inr o1) \<Rightarrow> Some (Some (ap_result o1), o1) | _ \<Rightarrow> None)"
| "api_access p (Reg_Write n v) o' =
     (case api_writeGPR p n v False True o' of Some (Inr o1) \<Rightarrow> Some (None, o1) | _ \<Rightarrow> None)"

fun register_spec :: "reg_access \<Rightarrow> (regno \<Rightarrow> xword) \<Rightarrow> xword option \<times> (regno \<Rightarrow> xword)" where
  "register_spec (Reg_Read n) R = (Some (R n), R)"
| "register_spec (Reg_Write n v) R = (None, write_reg (Some (n, v)) R)"

text \<open>Over every transport that keeps the contract the API is a port to the register file.\<close>

context debug_transport
begin

lemma access_contract:
  assumes "debug_config_ok c" "ok (ap_dev o')" "dk_ready c (snd (core (ap_dev o')))"
  shows "\<exists>r o1. api_access p a o' = Some (r, o1) \<and>
     (ok (ap_dev o1) \<and> dk_ready c (snd (core (ap_dev o1)))) \<and>
     register_spec a (dk_regs c (snd (core (ap_dev o')))) = (r, dk_regs c (snd (core (ap_dev o1))))"
proof (cases a)
  case (Reg_Read n)
  then show ?thesis using readGPR[OF assms, of n] by auto
next
  case (Reg_Write n v)
  then show ?thesis using writeGPR[OF assms, of n v] by auto
qed

end

sublocale debug_transport \<subseteq> api: device_port "api_access p"
  "\<lambda>o'. debug_config_ok c \<and> ok (ap_dev o') \<and> dk_ready c (snd (core (ap_dev o')))" "\<lambda>_. True"
  "\<lambda>o'. dk_regs c (snd (core (ap_dev o')))" register_spec
  by unfold_locales (use access_contract in blast)

subsection \<open>The direct transport keeps the contract\<close>

lemma dmi_api_fields [simp]:
  "tp_read (dmi_api c bus) = dmi_transport_read c bus"
  "tp_write (dmi_api c bus) = dmi_transport_write c bus"
  "tp_clock (dmi_api c bus) = dmi_transport_clock c bus"
  by (simp_all add: dmi_api_def)

interpretation direct: debug_transport c bus "dmi_api c bus" "\<lambda>ts. ts" "\<lambda>_. True" for c bus
proof unfold_locales
  fix a w and ts :: "nat \<times> debug_core"
  have one: "dmi_idle (Suc 0) = [dmi_quiet]" by simp
  show "\<exists>m n. \<forall>u v. dk_run c bus (dmi_idle m @ [dmi_read a]) ts = Some u \<longrightarrow>
      dk_run c bus (dmi_idle n) u = Some v \<longrightarrow>
      (\<exists>d'. tp_read (dmi_api c bus) a ts = Some (Inr (dm_dbo (dk_dm (snd u)), d')) \<and> True \<and> d' = v)"
    by (intro exI[of _ "Suc 0"] exI[of _ 0])
      (auto simp: dmi_transport_read_def dk_stopped_def simp del: dk_run.simps(2))
  show "\<exists>m n. \<forall>u. dk_run c bus (dmi_idle m @ dmi_write a w # dmi_idle n) ts = Some u \<longrightarrow>
      (\<exists>d'. tp_write (dmi_api c bus) a w ts = Some (Inr d') \<and> True \<and> d' = u)"
    by (intro exI[of _ "Suc 0"] exI[of _ 0])
      (auto simp: dmi_transport_write_def dk_stopped_def simp del: dk_run.simps(2))
  show "\<exists>m. \<forall>u. dk_run c bus (dmi_idle m) ts = Some u \<longrightarrow>
      (\<exists>d'. tp_clock (dmi_api c bus) ts = Some (Inr d') \<and> True \<and> d' = u)"
    by (intro exI[of _ "Suc 0"])
      (auto simp: dmi_transport_clock_def dk_stopped_def simp del: dk_run.simps(2))
qed

text \<open>
  C19: The host's register accesses return. On a halted core with an empty pipeline, on either
  pipeline and whatever the buses answer, every session of \<open>readGPR\<close> and \<open>writeGPR\<close> calls of the
  debug API over the direct transport comes back: every polling loop ends, no assertion fails,
  every read returns the architectural register, every write is a write of it, and the core is
  ready for the next call.
\<close>

theorem api_session_returns:
  assumes "debug_config_ok c" "dk_ready c (snd (ap_dev o'))"
  shows "\<exists>o1. session (api_access (dmi_api c bus)) as o' =
       Some (fst (spec_session register_spec as (backend_regs c (dk_backend (snd (ap_dev o'))))), o1) \<and>
     dk_ready c (snd (ap_dev o1)) \<and>
     backend_regs c (dk_backend (snd (ap_dev o1))) =
       snd (spec_session register_spec as (backend_regs c (dk_backend (snd (ap_dev o')))))"
  using direct.api.session_refines[of c o' "as" bus] assms by (auto simp: list_all_iff)

lemma api_session_returns_witness:
  "map_option fst (session (api_access (dmi_api debug_config
       (\<lambda>t. (\<lparr>db_stall_i = False, db_ack_i = False, db_error_i = False, db_rd = 0\<rparr>,
             \<lparr>db_stall_i = False, db_ack_i = False, db_error_i = False, db_rd = 0\<rparr>))))
     [Reg_Write 10 0xcafe, Reg_Read 10, Reg_Write 0 1, Reg_Read 0]
     \<lparr>ap_dev = (0, halted_core), ap_halted = True, ap_result = 0, ap_cmderr = 0\<rparr>) =
   Some [None, Some 0xcafe, None, Some 0]"
proof -
  let ?bus = "\<lambda>t :: nat. (\<lparr>db_stall_i = False, db_ack_i = False, db_error_i = False, db_rd = 0 :: xword\<rparr>,
             \<lparr>db_stall_i = False, db_ack_i = False, db_error_i = False, db_rd = 0 :: xword\<rparr>)"
  let ?o = "\<lparr>ap_dev = (0, halted_core), ap_halted = True, ap_result = 0, ap_cmderr = 0\<rparr>"
  let ?as = "[Reg_Write 10 0xcafe, Reg_Read 10, Reg_Write 0 1, Reg_Read 0]"
  have "fst (spec_session register_spec ?as (backend_regs debug_config (dk_backend halted_core))) =
      [None, Some 0xcafe, None, Some 0]"
    by (simp add: write_reg_Some Let_def)
  then show ?thesis
    using api_session_returns[OF debug_config_example, of ?o ?bus ?as] halted_core_ready by auto
qed

end
