(* ===== verification/Jtag_Api.thy ===== *)
theory Jtag_Api
  imports Debug_Api Jtag_Dtm
begin

text \<open>
  The debug API over JTAG (\<open>tb/debug/jtag_api.py\<close>): the host drives TMS and TDI, samples TDO, and
  builds instruction scans, data scans and DMI accesses from TCK periods. The other end is the
  whole debug hardware: the JTAG transport module, the clock-domain crossing and the core with its
  debug module, stepped by the edges of two unrelated clocks. The lemmas follow a request from
  the scan that sends it to the access the debug module sees and back, and show that this
  transport keeps the contract \<open>debug_transport\<close>; so the register accesses of the API over the
  four JTAG pins are those of the architectural registers.
\<close>

subsection \<open>The hardware behind the pins\<close>

text \<open>\<open>jd_ticks\<close> counts the TCK periods; it selects the entry of the schedule.\<close>

record jtag_debug =
  jd_jtag :: jtag_state
  jd_cdc :: cdc_state
  jd_core :: "nat \<times> debug_core"
  jd_ticks :: nat

definition cdc_dmi_request :: "cdc_state \<Rightarrow> dmi_request" where
  "cdc_dmi_request s = \<lparr>dr_en = dtm_en s, dr_we = dtm_we s, dr_adr = dtm_adr s, dr_dbi = dtm_dbi s\<rparr>"

text \<open>An edge of the core clock: the crossing and the core step together, each on the outputs the
  other had before the edge. An edge of TCK: the transport module and the response synchronizer.\<close>

definition jd_core_edge :: "bonfire_config \<Rightarrow> dk_bus \<Rightarrow> jtag_debug \<Rightarrow> jtag_debug option" where
  "jd_core_edge c bus d =
     (case dk_run c bus [cdc_dmi_request (jd_cdc d)] (jd_core d) of
        None \<Rightarrow> None
      | Some ts \<Rightarrow> Some (d\<lparr>jd_cdc := core_clock_domain False (jtag_cdc_in (jd_jtag d))
                                     (dm_dbo (dk_dm (snd (jd_core d)))) (jd_cdc d),
                           jd_core := ts\<rparr>))"

fun jd_core_edges :: "bonfire_config \<Rightarrow> dk_bus \<Rightarrow> nat \<Rightarrow> jtag_debug \<Rightarrow> jtag_debug option" where
  "jd_core_edges c bus 0 d = Some d"
| "jd_core_edges c bus (Suc n) d =
     (case jd_core_edge c bus d of None \<Rightarrow> None | Some d' \<Rightarrow> jd_core_edges c bus n d')"

definition jd_scan_edge :: "bool \<Rightarrow> bool \<Rightarrow> jtag_debug \<Rightarrow> jtag_debug" where
  "jd_scan_edge tms tdi d = d\<lparr>
     jd_jtag := jtag_step (cdc_pending_o (jtag_cdc_in (jd_jtag d)) (jd_cdc d))
                  (cdc_response_payload (jd_cdc d)) tms tdi (jd_jtag d),
     jd_cdc := response_synchronizer False True (jd_cdc d), jd_ticks := Suc (jd_ticks d)\<rparr>"

subsection \<open>The host\<close>

text \<open>
  The relation of the two clocks: the core edges in each TCK period, and the periods in which TCK
  runs on while the host waits for a core edge with both lines low. The host itself waits for
  three core edges after every falling edge, so no period has fewer.
\<close>

record jtag_schedule =
  js_core_edges :: "nat \<Rightarrow> nat"
  js_idle_periods :: "nat \<Rightarrow> nat"

definition jtag_schedule_ok :: "jtag_schedule \<Rightarrow> bool" where
  "jtag_schedule_ok T \<longleftrightarrow> (\<forall>k. 3 \<le> js_core_edges T k)"

text \<open>A cycle returns the sample of TDO (\<open>last_tdo\<close>), a scan the word shifted out (\<open>last_scan\<close>).\<close>

type_synonym 'a jtag_call = "jtag_debug \<Rightarrow> (api_error + 'a \<times> jtag_debug) option"

definition jtag_api_cycle ::
  "bonfire_config \<Rightarrow> dk_bus \<Rightarrow> jtag_schedule \<Rightarrow> bool \<Rightarrow> bool \<Rightarrow> bool jtag_call" where
  "jtag_api_cycle c bus T tms tdi d =
     (case jd_core_edges c bus (js_core_edges T (jd_ticks d)) (jd_scan_edge tms tdi d) of
        None \<Rightarrow> Some (Inl Simulation_Stopped)
      | Some d' \<Rightarrow> Some (Inr (jt_tdo_o (jd_jtag d), d')))"

fun jtag_api_cycles ::
  "bonfire_config \<Rightarrow> dk_bus \<Rightarrow> jtag_schedule \<Rightarrow> (bool \<times> bool) list \<Rightarrow> bool list jtag_call" where
  "jtag_api_cycles c bus T [] d = Some (Inr ([], d))"
| "jtag_api_cycles c bus T ((tms, tdi) # xs) d =
     and_then (jtag_api_cycle c bus T tms tdi d) (\<lambda>(b, d1).
     and_then (jtag_api_cycles c bus T xs d1) (\<lambda>(bs, d2). Some (Inr (b # bs, d2))))"

definition jtag_api_reset_tap :: "bonfire_config \<Rightarrow> dk_bus \<Rightarrow> jtag_schedule \<Rightarrow> bool list jtag_call" where
  "jtag_api_reset_tap c bus T = jtag_api_cycles c bus T (replicate 6 (True, False) @ [(False, False)])"

definition jtag_api_set_ir :: "bonfire_config \<Rightarrow> dk_bus \<Rightarrow> jtag_schedule \<Rightarrow> 5 word \<Rightarrow> bool list jtag_call" where
  "jtag_api_set_ir c bus T instruction = jtag_api_cycles c bus T (scan_ir instruction)"

primrec bits_word :: "bool list \<Rightarrow> 'a::len word" where
  "bits_word [] = 0"
| "bits_word (b # bs) = bv_put 0 b (push_bit 1 (bits_word bs))"

definition jtag_api_scan_dr ::
  "bonfire_config \<Rightarrow> dk_bus \<Rightarrow> jtag_schedule \<Rightarrow> 'a::len word \<Rightarrow> 'a word jtag_call" where
  "jtag_api_scan_dr c bus T v d =
     and_then (jtag_api_cycles c bus T (scan_dr v) d) (\<lambda>(os, d').
       Some (Inr (bits_word (scanned 3 LENGTH('a) os), d')))"

definition jtag_api_idle :: "bonfire_config \<Rightarrow> dk_bus \<Rightarrow> jtag_schedule \<Rightarrow> nat \<Rightarrow> bool list jtag_call" where
  "jtag_api_idle c bus T n = jtag_api_cycles c bus T (replicate n (False, False))"

definition jtag_api_read_idcode :: "bonfire_config \<Rightarrow> dk_bus \<Rightarrow> jtag_schedule \<Rightarrow> xword jtag_call" where
  "jtag_api_read_idcode c bus T d =
     and_then (jtag_api_set_ir c bus T JTAG_INSTR_IDCODE d) (\<lambda>(_, d1).
     and_then (jtag_api_scan_dr c bus T (0 :: xword) d1) (\<lambda>(v, d2).
       if v = JTAG_IDCODE then Some (Inr (v, d2)) else Some (Inl Attach_Failed)))"

definition jtag_api_read_dtmcs :: "bonfire_config \<Rightarrow> dk_bus \<Rightarrow> jtag_schedule \<Rightarrow> xword jtag_call" where
  "jtag_api_read_dtmcs c bus T d =
     and_then (jtag_api_set_ir c bus T JTAG_INSTR_DTMCS d) (\<lambda>(_, d1).
     and_then (jtag_api_scan_dr c bus T (0 :: xword) d1) (\<lambda>(v, d2).
       if bv_slice 3 0 v = (1 :: 3 word) \<and> bv_slice 9 4 v = (7 :: 5 word) \<and>
          bv_slice 12 10 v = (0 :: 2 word) \<and> bv_slice 15 12 v = (1 :: 3 word)
       then Some (Inr (v, d2)) else Some (Inl Attach_Failed)))"

definition jtag_api_dmi_read ::
  "bonfire_config \<Rightarrow> dk_bus \<Rightarrow> jtag_schedule \<Rightarrow> 7 word \<Rightarrow> xword jtag_call" where
  "jtag_api_dmi_read c bus T adr d =
     and_then (jtag_api_set_ir c bus T JTAG_INSTR_DMI d) (\<lambda>(_, d1).
     and_then (jtag_api_scan_dr c bus T (push_bit 34 (ucast adr) OR ucast DMI_OP_READ :: dmi_word) d1) (\<lambda>(_, d2).
     and_then (jtag_api_idle c bus T 2 d2) (\<lambda>(_, d3).
     and_then (jtag_api_scan_dr c bus T (0 :: dmi_word) d3) (\<lambda>(response, d4).
       if bv_slice 2 0 response = (0 :: 2 word) then Some (Inr (bv_slice 34 2 response, d4))
       else Some (Inl Dmi_Failed)))))"

definition jtag_api_dmi_write ::
  "bonfire_config \<Rightarrow> dk_bus \<Rightarrow> jtag_schedule \<Rightarrow> 7 word \<Rightarrow> xword \<Rightarrow> jtag_debug \<Rightarrow>
     (api_error + jtag_debug) option" where
  "jtag_api_dmi_write c bus T adr data d =
     and_then (jtag_api_set_ir c bus T JTAG_INSTR_DMI d) (\<lambda>(_, d1).
     and_then (jtag_api_scan_dr c bus T
       (push_bit 34 (ucast adr) OR push_bit 2 (ucast data) OR ucast DMI_OP_WRITE :: dmi_word) d1) (\<lambda>(response, d2).
       if bv_slice 2 0 response = (0 :: 2 word)
       then and_then (jtag_api_idle c bus T 2 d2) (\<lambda>(_, d3). Some (Inr d3))
       else Some (Inl Dmi_Failed)))"

definition jtag_api_yield_clock ::
  "bonfire_config \<Rightarrow> dk_bus \<Rightarrow> jtag_schedule \<Rightarrow> jtag_debug \<Rightarrow> (api_error + jtag_debug) option" where
  "jtag_api_yield_clock c bus T d =
     (case jd_core_edge c bus d of
        None \<Rightarrow> Some (Inl Simulation_Stopped)
      | Some d1 \<Rightarrow> and_then (jtag_api_idle c bus T (js_idle_periods T (jd_ticks d)) d1)
                     (\<lambda>(_, d2). Some (Inr d2)))"

definition jtag_api :: "bonfire_config \<Rightarrow> dk_bus \<Rightarrow> jtag_schedule \<Rightarrow> jtag_debug dmi_transport" where
  "jtag_api c bus T = \<lparr>tp_read = jtag_api_dmi_read c bus T, tp_write = jtag_api_dmi_write c bus T,
     tp_clock = jtag_api_yield_clock c bus T\<rparr>"

lemma jtag_api_fields [simp]:
  "tp_read (jtag_api c bus T) = jtag_api_dmi_read c bus T"
  "tp_write (jtag_api c bus T) = jtag_api_dmi_write c bus T"
  "tp_clock (jtag_api c bus T) = jtag_api_yield_clock c bus T"
  by (simp_all add: jtag_api_def)

subsection \<open>Words of the host\<close>

lemma bit_bits_word [bv_simps]:
  "bit (bits_word bs :: 'a::len word) n \<longleftrightarrow> n < LENGTH('a) \<and> n < length bs \<and> bs ! n"
proof (induction bs arbitrary: n)
  case (Cons b bs)
  have "bit (bits_word (b # bs) :: 'a word) n \<longleftrightarrow>
      n < LENGTH('a) \<and> (if n = 0 then b else bit (bits_word bs :: 'a word) (n - 1))"
    unfolding bits_word.simps bit_bv_put bit_push_bit_iff by auto
  then show ?case unfolding Cons.IH by (cases n) auto
qed simp

lemma bits_word_bits [simp]: "bits_word (word_bits w) = w"
  by (rule bv_eqI) (simp add: bit_bits_word, simp add: word_bits_def)

lemma jtag_request_words:
  "push_bit 34 (ucast (a :: 7 word)) OR ucast DMI_OP_READ = dmi_pack a 0 DMI_OP_READ"
  "push_bit 34 (ucast a) OR push_bit 2 (ucast (v :: xword)) OR ucast DMI_OP_WRITE =
     dmi_pack a v DMI_OP_WRITE"
proof -
  have k: "(2 :: dmi_op) = bv_put 1 True 0" "(1 :: dmi_op) = bv_put 0 True 0" by code_simp+
  show "push_bit 34 (ucast a) OR ucast DMI_OP_READ = dmi_pack a 0 DMI_OP_READ"
    "push_bit 34 (ucast a) OR push_bit 2 (ucast v) OR ucast DMI_OP_WRITE = dmi_pack a v DMI_OP_WRITE"
    unfolding k
    by (rule bv_eqI; auto simp: dmi_pack_def bv_simps bit_or_iff bit_push_bit_iff bit_ucast_iff
        dest: bit_imp_le_length)+
qed

lemma jtag_api_cycles_append:
  "jtag_api_cycles c bus T (xs @ ys) d =
     and_then (jtag_api_cycles c bus T xs d) (\<lambda>(os, d1).
     and_then (jtag_api_cycles c bus T ys d1) (\<lambda>(ps, d2). Some (Inr (os @ ps, d2))))"
proof (induction xs arbitrary: d)
  case Nil
  show ?case by (auto simp: and_then_def split: option.splits sum.splits)
next
  case (Cons x xs)
  then show ?case
    by (cases x) (auto simp: and_then_def split: option.splits sum.splits prod.splits)
qed

lemma jtag_api_cycles_join:
  assumes "jtag_api_cycles c bus T xs d = Some (Inr (os, d1))"
    "jtag_api_cycles c bus T ys d1 = Some (Inr (ps, d2))"
  shows "jtag_api_cycles c bus T (xs @ ys) d = Some (Inr (os @ ps, d2))"
  using assms by (simp add: jtag_api_cycles_append)

subsection \<open>A request between the two clocks\<close>

text \<open>The crossing is in phase \<open>ph\<close> of the request \<open>p\<close>, whose read data is that of \<open>rd\<close>.\<close>

definition jd_view :: "jtag_debug \<Rightarrow> (bool \<times> dmi_adr \<times> xword) list \<Rightarrow> cdc_system" where
  "jd_view d l = \<lparr>sys_cdc = jd_cdc d, sys_dbo = dm_dbo (dk_dm (snd (jd_core d))), sys_log = l\<rparr>"

definition jd_link ::
  "dmi_word \<Rightarrow> bool \<Rightarrow> bool \<Rightarrow> (dmi_adr \<Rightarrow> xword) \<Rightarrow> cdc_phase \<Rightarrow> jtag_debug \<Rightarrow> bool" where
  "jd_link p r h rd ph d \<longleftrightarrow> jtag_cdc_in (jd_jtag d) = cdc_request p r h \<and>
     (\<exists>l. cdc_in_phase r h p rd ph (jd_view d l))"

definition jd_far :: "bool \<Rightarrow> jtag_debug \<Rightarrow> nat" where
  "jd_far r d = cdc_return_distance r (jd_view d [])"

lemma jd_far_le: "jd_far r d \<le> 2"
  by (simp add: jd_far_def cdc_return_distance_def)

definition dmi_request_of :: "dmi_word \<Rightarrow> dmi_request" where
  "dmi_request_of p = \<lparr>dr_en = True, dr_we = (dmi_op_of p = DMI_OP_WRITE), dr_adr = dmi_adr_of p,
     dr_dbi = dmi_data_of p\<rparr>"

definition link_request :: "dmi_word \<Rightarrow> cdc_phase \<Rightarrow> dmi_request" where
  "link_request p ph = (if ph = Ph_Access then dmi_request_of p else dmi_quiet)"

text \<open>The core's edges during a number of phases; \<open>rd\<close> is what the access shows.\<close>

fun link_run ::
  "bonfire_config \<Rightarrow> dk_bus \<Rightarrow> dmi_word \<Rightarrow> (dmi_adr \<Rightarrow> xword) \<Rightarrow> cdc_phase \<Rightarrow> nat \<Rightarrow>
     nat \<times> debug_core \<Rightarrow> nat \<times> debug_core \<Rightarrow> bool" where
  "link_run c bus p rd ph 0 ts v \<longleftrightarrow> ts = v"
| "link_run c bus p rd ph (Suc n) ts v \<longleftrightarrow>
     (\<exists>u. dk_run c bus [link_request p ph] ts = Some u \<and>
          (ph = Ph_Access \<and> dmi_op_of p = DMI_OP_READ \<longrightarrow> rd (dmi_adr_of p) = dm_dbo (dk_dm (snd u))) \<and>
          link_run c bus p rd (cdc_phase_next p ph) n u v)"

lemma link_run_add:
  "link_run c bus p rd ph (m + n) ts v \<longleftrightarrow>
     (\<exists>u. link_run c bus p rd ph m ts u \<and> link_run c bus p rd ((cdc_phase_next p ^^ m) ph) n u v)"
  by (induction m arbitrary: ph ts) (auto simp: funpow_swap1)

lemma funpow_later: "(f ^^ (m + n)) x = (f ^^ n) ((f ^^ m) x)"
  by (simp only: add.commute[of m n] funpow_add comp_apply)

lemma cdc_next_done: "(cdc_phase_next p ^^ n) Ph_Done = Ph_Done"
  by (induction n) simp_all

lemma link_run_done:
  "link_run c bus p rd Ph_Done n ts v \<longleftrightarrow> dk_run c bus (dmi_idle n) ts = Some v"
proof (induction n arbitrary: ts)
  case (Suc n)
  have "dk_run c bus (dmi_idle (Suc n)) ts = Some v \<longleftrightarrow>
      (\<exists>u. dk_run c bus [dmi_quiet] ts = Some u \<and> dk_run c bus (dmi_idle n) u = Some v)"
    using dk_run_split[of c bus "[dmi_quiet]" "dmi_idle n" ts v] by simp
  then show ?case
    unfolding link_run.simps cdc_phase_next.simps Suc.IH by (simp add: link_request_def)
qed auto

text \<open>A request is three edges away from its access, and done after the fifth.\<close>

lemma link_run_request:
  assumes op': "dmi_op_of p = DMI_OP_READ \<or> dmi_op_of p = DMI_OP_WRITE"
    and r: "dk_run c bus (dmi_idle 3) ts = Some u" "dk_run c bus [dmi_request_of p] u = Some w"
      "dk_run c bus (dmi_idle n) w = Some v"
    and rd: "dmi_op_of p = DMI_OP_READ \<Longrightarrow> rd (dmi_adr_of p) = dm_dbo (dk_dm (snd w))"
  shows "link_run c bus p rd Ph_Meta (4 + n) ts v"
proof -
  have q: "dk_run c bus (dmi_quiet # rs) x = Some y \<longleftrightarrow>
      (\<exists>z. dk_run c bus [dmi_quiet] x = Some z \<and> dk_run c bus rs z = Some y)" for rs x y
    using dk_run_split[of c bus "[dmi_quiet]" rs x y] by simp
  obtain a b where ab: "dk_run c bus [dmi_quiet] ts = Some a" "dk_run c bus [dmi_quiet] a = Some b"
    "dk_run c bus [dmi_quiet] b = Some u"
    using r(1) by (auto simp add: numeral_3_eq_3 q[of "[dmi_quiet, dmi_quiet]"] q[of "[dmi_quiet]"]
        simp del: dk_run.simps(2))
  have tail: "link_run c bus p rd Ph_Capture n w v" if "dmi_op_of p = DMI_OP_READ"
  proof (cases n)
    case (Suc m)
    have "dk_run c bus (dmi_quiet # dmi_idle m) w = Some v" using r(3) Suc by simp
    then obtain z where "dk_run c bus [dmi_quiet] w = Some z" "dk_run c bus (dmi_idle m) z = Some v"
      using q by blast
    then show ?thesis using link_run_done Suc by (auto simp: link_request_def)
  qed (use r(3) in simp)
  have last: "link_run c bus p rd (cdc_phase_next p Ph_Access) n w v"
    using tail r(3) link_run_done[of c bus p rd n w v] op' by auto
  have "link_run c bus p rd Ph_Access (Suc n) u v"
    unfolding link_run.simps using r(2) rd last by (intro exI[of _ w]) (simp add: link_request_def)
  then have "link_run c bus p rd Ph_Detect (Suc (Suc n)) b v"
    unfolding link_run.simps(2)[of _ _ _ _ Ph_Detect] using ab(3) op'
    by (intro exI[of _ u]) (simp add: link_request_def)
  then have "link_run c bus p rd Ph_Sync (Suc (Suc (Suc n))) a v"
    unfolding link_run.simps(2)[of _ _ _ _ Ph_Sync] using ab(2)
    by (intro exI[of _ b]) (simp add: link_request_def)
  then have "link_run c bus p rd Ph_Meta (Suc (Suc (Suc (Suc n)))) ts v"
    unfolding link_run.simps(2)[of _ _ _ _ Ph_Meta] using ab(1)
    by (intro exI[of _ a]) (simp add: link_request_def)
  then show ?thesis by (simp add: eval_nat_numeral)
qed

text \<open>Without an access the other lines of the interface do not matter.\<close>

lemma dmi_seq_idle:
  "\<not> di_en i \<Longrightarrow> dmi_seq c (i\<lparr>di_we := x, di_adr := y, di_dbi := z\<rparr>) s = dmi_seq c i s"
proof -
  let ?i = "i\<lparr>di_we := x, di_adr := y, di_dbi := z\<rparr>"
  assume en: "\<not> di_en i"
  have "dm_lifecycle ?i s n = dm_lifecycle i s n" "dm_inactive ?i n = dm_inactive i n" for n
    using en by (simp_all add: dm_lifecycle_def dm_inactive_def dm_command_busy_def Let_def)
  then show ?thesis using en by (simp add: dmi_seq_def Let_def)
qed

lemma dk_run_idle:
  assumes "\<not> dr_en r"
  shows "dk_run c bus [r] ts = dk_run c bus [dmi_quiet] ts"
proof -
  have "dmi_seq c (dk_dmi_in False r s) d = dmi_seq c (dk_dmi_in False dmi_quiet s) d" for s d
    using dmi_seq_idle[where i = "dk_dmi_in False dmi_quiet s" and c = c and x = "dr_we r" and
        y = "dr_adr r" and z = "dr_dbi r" and s = d] assms
    by (simp add: dk_dmi_in_def dmi_quiet_def)
  then have "debug_core_step c False r ib db s = debug_core_step c False dmi_quiet ib db s" for ib db s
    by (simp add: debug_core_step_def Let_def)
  then show ?thesis by (cases ts) simp
qed

lemma jd_link_request:
  assumes "jd_link p r h rd ph d"
  shows "dk_run c bus [cdc_dmi_request (jd_cdc d)] ts = dk_run c bus [link_request p ph] ts"
proof (cases "ph = Ph_Access")
  case True
  then have "cdc_dmi_request (jd_cdc d) = dmi_request_of p"
    using assms by (auto simp: jd_link_def cdc_in_phase_def jd_view_def cdc_dmi_request_def
        dmi_request_of_def Let_def)
  then show ?thesis using True by (simp add: link_request_def)
next
  case False
  then have "\<not> dr_en (cdc_dmi_request (jd_cdc d))"
    using assms by (auto simp: jd_link_def cdc_in_phase_def jd_view_def cdc_dmi_request_def Let_def)
  then show ?thesis using False dk_run_idle by (simp add: link_request_def)
qed

lemma cdc_phase_dbo:
  "cdc_in_phase r h p rd ph y \<Longrightarrow> (ph = Ph_Capture \<Longrightarrow> b = rd (dmi_adr_of p)) \<Longrightarrow>
   cdc_in_phase r h p rd ph (y\<lparr>sys_dbo := b\<rparr>)"
  by (simp add: cdc_in_phase_def Let_def)

lemma jd_core_edge_link:
  assumes l: "jd_link p r h rd ph d"
    and run: "dk_run c bus [link_request p ph] (jd_core d) = Some v"
    and rd: "ph = Ph_Access \<and> dmi_op_of p = DMI_OP_READ \<longrightarrow> rd (dmi_adr_of p) = dm_dbo (dk_dm (snd v))"
  shows "\<exists>d'. jd_core_edge c bus d = Some d' \<and> jd_core d' = v \<and> jd_jtag d' = jd_jtag d \<and>
     jd_ticks d' = jd_ticks d \<and> jd_link p r h rd (cdc_phase_next p ph) d' \<and> jd_far q d' = jd_far q d"
proof -
  obtain l where ph: "cdc_in_phase r h p rd ph (jd_view d l)"
    and i: "jtag_cdc_in (jd_jtag d) = cdc_request p r h"
    using l by (auto simp: jd_link_def)
  let ?s = "core_clock_domain False (cdc_request p r h) (dm_dbo (dk_dm (snd (jd_core d)))) (jd_cdc d)"
  let ?d = "d\<lparr>jd_cdc := ?s, jd_core := v\<rparr>"
  define y where "y = cdc_system_step (cdc_request p r h) rd Core_Edge (jd_view d l)"
  have y: "jd_view ?d (sys_log y) = y\<lparr>sys_dbo := dm_dbo (dk_dm (snd v))\<rparr>"
    by (simp add: y_def jd_view_def)
  have "cdc_phase_next p ph = Ph_Capture \<Longrightarrow> ph = Ph_Access \<and> dmi_op_of p = DMI_OP_READ"
    by (cases ph) (auto split: if_splits)
  then have "cdc_in_phase r h p rd (cdc_phase_next p ph) (jd_view ?d (sys_log y))"
    unfolding y using cdc_core_edge_phase[OF ph] rd by (intro cdc_phase_dbo) (auto simp: y_def)
  then have "jd_link p r h rd (cdc_phase_next p ph) ?d" using i by (auto simp: jd_link_def)
  moreover have "jd_far q ?d = jd_far q d"
    by (simp add: jd_far_def jd_view_def cdc_return_distance_def core_clock_domain_defs)
  moreover have "jd_core_edge c bus d = Some ?d"
    using run i jd_link_request[OF assms(1)] by (simp add: jd_core_edge_def)
  ultimately show ?thesis by (intro exI[of _ ?d]) simp
qed

lemma jd_core_edges_link:
  "\<lbrakk>jd_link p r h rd ph d; link_run c bus p rd ph n (jd_core d) v\<rbrakk> \<Longrightarrow>
   \<exists>d'. jd_core_edges c bus n d = Some d' \<and> jd_core d' = v \<and> jd_jtag d' = jd_jtag d \<and>
     jd_ticks d' = jd_ticks d \<and> jd_link p r h rd ((cdc_phase_next p ^^ n) ph) d' \<and>
     jd_far q d' = jd_far q d"
proof (induction n arbitrary: ph d)
  case (Suc n)
  obtain u where u: "dk_run c bus [link_request p ph] (jd_core d) = Some u"
    "ph = Ph_Access \<and> dmi_op_of p = DMI_OP_READ \<longrightarrow> rd (dmi_adr_of p) = dm_dbo (dk_dm (snd u))"
    "link_run c bus p rd (cdc_phase_next p ph) n u v"
    using Suc.prems(2) by auto
  obtain d1 where d1: "jd_core_edge c bus d = Some d1" "jd_core d1 = u" "jd_jtag d1 = jd_jtag d"
    "jd_ticks d1 = jd_ticks d" "jd_link p r h rd (cdc_phase_next p ph) d1" "jd_far q d1 = jd_far q d"
    using jd_core_edge_link[OF Suc.prems(1) u(1,2)] by blast
  from Suc.IH[OF d1(5)] u(3) d1(2) obtain d2 where
    "jd_core_edges c bus n d1 = Some d2" "jd_core d2 = v" "jd_jtag d2 = jd_jtag d1"
    "jd_ticks d2 = jd_ticks d1" "jd_link p r h rd ((cdc_phase_next p ^^ n) (cdc_phase_next p ph)) d2"
    "jd_far q d2 = jd_far q d1"
    by blast
  with d1 show ?case by (auto simp: funpow_swap1)
qed simp

subsection \<open>TCK periods\<close>

lemma jtag_step_indifferent:
  "jt_tap s \<noteq> capture_dr \<Longrightarrow> jtag_step q w tms tdi s = jtag_step False R tms tdi s"
  by (simp add: jtag_step_def jtag_cycle_def jtag_posedge_def tdo_select_def tap_actions_def
      tap_ir_actions_def tap_dr_actions_def tap_shift_dr_def tap_update_dr_def Let_def)

lemma jtag_step_still:
  "jt_tap s \<noteq> update_dr \<Longrightarrow> jtag_cdc_in (jtag_step q w tms tdi s) = jtag_cdc_in s"
  by (simp add: jtag_step_defs jtag_cdc_in_def)

lemma jtag_step_tap: "jt_tap (jtag_step q w tms tdi s) = tap_transition tms (jt_tap s)"
  by (simp add: jtag_step_def jtag_cycle_def jtag_posedge_def tdo_select_def tap_step_def)

lemma jd_scan_edge_link:
  assumes "jd_link p r h rd ph d" "jtag_cdc_in (jd_jtag (jd_scan_edge tms tdi d)) = jtag_cdc_in (jd_jtag d)"
  shows "jd_link p r h rd ph (jd_scan_edge tms tdi d)"
    "ph = Ph_Done \<Longrightarrow> jd_far r (jd_scan_edge tms tdi d) \<le> jd_far r d - 1"
proof -
  obtain l where ph: "cdc_in_phase r h p rd ph (jd_view d l)" using assms(1) by (auto simp: jd_link_def)
  have v: "jd_view (jd_scan_edge tms tdi d) m = cdc_system_step (cdc_request p r h) rd Scan_Edge (jd_view d m)" for m
    by (simp add: jd_view_def jd_scan_edge_def)
  show "jd_link p r h rd ph (jd_scan_edge tms tdi d)"
    using assms cdc_scan_edge_phase[OF ph] unfolding jd_link_def v by auto
  have far: "jd_far r x = cdc_return_distance r (jd_view x l)" for x
    by (simp add: jd_far_def cdc_return_distance_def jd_view_def)
  show "ph = Ph_Done \<Longrightarrow> jd_far r (jd_scan_edge tms tdi d) \<le> jd_far r d - 1"
    using cdc_done_step(2)[of r h p rd "jd_view d l" Scan_Edge] ph unfolding far v by simp
qed

lemma jd_settled:
  assumes "jd_link p r h rd Ph_Done d" "jd_far r d = 0"
  shows "\<not> cdc_pending_o (jtag_cdc_in (jd_jtag d)) (jd_cdc d)"
    "cdc_response_payload (jd_cdc d) = dmi_response rd p"
  using assms
  by (auto simp: jd_link_def cdc_in_phase_def jd_far_def cdc_return_distance_def jd_view_def
      cdc_pending_o_def cdc_request_def Let_def split: if_splits)

lemma jtag_period:
  assumes l: "jd_link p r h rd ph d"
    and step: "jt_tap (jd_jtag d) \<noteq> capture_dr \<or>
      ph = Ph_Done \<and> jd_far r d = 0 \<and> R = dmi_response rd p"
    and still: "jtag_cdc_in (jtag_step False R tms tdi (jd_jtag d)) = jtag_cdc_in (jd_jtag d)"
    and run: "link_run c bus p rd ph (js_core_edges T (jd_ticks d)) (jd_core d) v"
  shows "\<exists>d'. jtag_api_cycle c bus T tms tdi d = Some (Inr (jt_tdo_o (jd_jtag d), d')) \<and>
     jd_jtag d' = jtag_step False R tms tdi (jd_jtag d) \<and> jd_core d' = v \<and>
     jd_ticks d' = Suc (jd_ticks d) \<and>
     jd_link p r h rd ((cdc_phase_next p ^^ js_core_edges T (jd_ticks d)) ph) d' \<and>
     (ph = Ph_Done \<longrightarrow> jd_far r d' \<le> jd_far r d - 1)"
proof -
  let ?d = "jd_scan_edge tms tdi d"
  have j: "jd_jtag ?d = jtag_step False R tms tdi (jd_jtag d)"
    using step jd_settled[of p r h rd d] l jtag_step_indifferent[of "jd_jtag d"]
    by (auto simp: jd_scan_edge_def)
  have f: "jd_core ?d = jd_core d" "jd_ticks ?d = Suc (jd_ticks d)"
    by (simp_all add: jd_scan_edge_def)
  have s: "jtag_cdc_in (jd_jtag ?d) = jtag_cdc_in (jd_jtag d)" using still j by simp
  note e = jd_scan_edge_link[OF l s]
  have run': "link_run c bus p rd ph (js_core_edges T (jd_ticks d)) (jd_core ?d) v"
    using run f by simp
  obtain d' where "jd_core_edges c bus (js_core_edges T (jd_ticks d)) ?d = Some d'" "jd_core d' = v"
    "jd_jtag d' = jd_jtag ?d" "jd_ticks d' = jd_ticks ?d"
    "jd_link p r h rd ((cdc_phase_next p ^^ js_core_edges T (jd_ticks d)) ph) d'"
    "jd_far r d' = jd_far r ?d"
    using jd_core_edges_link[OF e(1) run'] by blast
  then show ?thesis using e(2) j f by (auto simp: jtag_api_cycle_def)
qed

text \<open>The core edges in a number of periods.\<close>

fun edges_in :: "jtag_schedule \<Rightarrow> nat \<Rightarrow> nat \<Rightarrow> nat" where
  "edges_in T k 0 = 0"
| "edges_in T k (Suc n) = js_core_edges T k + edges_in T (Suc k) n"

lemma edges_in_add: "edges_in T k (m + n) = edges_in T k m + edges_in T (k + m) n"
  by (induction m arbitrary: k) simp_all

lemma edges_in_ge: "jtag_schedule_ok T \<Longrightarrow> 3 * n \<le> edges_in T k n"
  by (induction n arbitrary: k) (auto simp: jtag_schedule_ok_def add_mono)

text \<open>A stretch of cycles that starts no request: the transport module goes its way as if the
  response were \<open>R\<close>, when it does not look at the response, or the response has arrived and is
  \<open>R\<close>; meanwhile the request moves on.\<close>

fun jtag_follows :: "bool \<Rightarrow> dmi_word \<Rightarrow> (bool \<times> bool) list \<Rightarrow> jtag_state \<Rightarrow> bool" where
  "jtag_follows b R [] s \<longleftrightarrow> True"
| "jtag_follows b R ((tms, tdi) # xs) s \<longleftrightarrow> (b \<or> jt_tap s \<noteq> capture_dr) \<and>
     jtag_cdc_in (jtag_step False R tms tdi s) = jtag_cdc_in s \<and>
     jtag_follows b R xs (jtag_step False R tms tdi s)"

abbreviation (input) jtag_out :: "dmi_word \<Rightarrow> (bool \<times> bool) list \<Rightarrow> jtag_state \<Rightarrow> bool list" where
  "jtag_out R xs s \<equiv> fst (host_clock jt_tdo_o (jtag_step False R) xs s)"

abbreviation (input) jtag_end :: "dmi_word \<Rightarrow> (bool \<times> bool) list \<Rightarrow> jtag_state \<Rightarrow> jtag_state" where
  "jtag_end R xs s \<equiv> snd (host_clock jt_tdo_o (jtag_step False R) xs s)"

lemma jtag_segment:
  "\<lbrakk>jd_link p r h rd ph d; jtag_follows b R xs (jd_jtag d);
    b \<longrightarrow> ph = Ph_Done \<and> jd_far r d = 0 \<and> R = dmi_response rd p;
    link_run c bus p rd ph (edges_in T (jd_ticks d) (length xs)) (jd_core d) v\<rbrakk> \<Longrightarrow>
   \<exists>d'. jtag_api_cycles c bus T xs d = Some (Inr (jtag_out R xs (jd_jtag d), d')) \<and>
     jd_jtag d' = jtag_end R xs (jd_jtag d) \<and> jd_core d' = v \<and>
     jd_ticks d' = jd_ticks d + length xs \<and>
     jd_link p r h rd ((cdc_phase_next p ^^ edges_in T (jd_ticks d) (length xs)) ph) d' \<and>
     (ph = Ph_Done \<longrightarrow> jd_far r d' \<le> jd_far r d - length xs)"
proof (induction xs arbitrary: ph d)
  case (Cons x xs)
  obtain tms tdi where x: "x = (tms, tdi)" by (cases x)
  let ?n = "js_core_edges T (jd_ticks d)"
  obtain u where u: "link_run c bus p rd ph ?n (jd_core d) u"
    "link_run c bus p rd ((cdc_phase_next p ^^ ?n) ph) (edges_in T (Suc (jd_ticks d)) (length xs)) u v"
    using Cons.prems(4) by (auto simp: link_run_add)
  have f: "jt_tap (jd_jtag d) \<noteq> capture_dr \<or> ph = Ph_Done \<and> jd_far r d = 0 \<and> R = dmi_response rd p"
    "jtag_cdc_in (jtag_step False R tms tdi (jd_jtag d)) = jtag_cdc_in (jd_jtag d)"
    "jtag_follows b R xs (jtag_step False R tms tdi (jd_jtag d))"
    using Cons.prems(2,3) x by auto
  obtain d1 where d1: "jtag_api_cycle c bus T tms tdi d = Some (Inr (jt_tdo_o (jd_jtag d), d1))"
    "jd_jtag d1 = jtag_step False R tms tdi (jd_jtag d)" "jd_core d1 = u"
    "jd_ticks d1 = Suc (jd_ticks d)" "jd_link p r h rd ((cdc_phase_next p ^^ ?n) ph) d1"
    "ph = Ph_Done \<longrightarrow> jd_far r d1 \<le> jd_far r d - 1"
    using jtag_period[OF Cons.prems(1) f(1,2) u(1)] by blast
  have b: "b \<longrightarrow> (cdc_phase_next p ^^ ?n) ph = Ph_Done \<and> jd_far r d1 = 0 \<and> R = dmi_response rd p"
    using Cons.prems(3) d1(6) by (auto simp: cdc_next_done)
  from Cons.IH[OF d1(5) _ b] f(3) u(2) d1(2-4) obtain d2 where
    "jtag_api_cycles c bus T xs d1 = Some (Inr (jtag_out R xs (jd_jtag d1), d2))"
    "jd_jtag d2 = jtag_end R xs (jd_jtag d1)" "jd_core d2 = v"
    "jd_ticks d2 = jd_ticks d1 + length xs"
    "jd_link p r h rd ((cdc_phase_next p ^^ edges_in T (jd_ticks d1) (length xs))
       ((cdc_phase_next p ^^ ?n) ph)) d2"
    "(cdc_phase_next p ^^ ?n) ph = Ph_Done \<longrightarrow> jd_far r d2 \<le> jd_far r d1 - length xs"
    by auto
  with d1 show ?case
    by (auto simp: x Let_def split_beta funpow_later cdc_next_done)
qed simp

lemma jtag_end_append:
  "jtag_end R (xs @ ys) s = jtag_end R ys (jtag_end R xs s)"
  "jtag_out R (xs @ ys) s = jtag_out R xs s @ jtag_out R ys (jtag_end R xs s)"
  by (simp_all add: host_clock_append split_beta)

lemma jtag_follows_append:
  "jtag_follows b R (xs @ ys) s \<longleftrightarrow> jtag_follows b R xs s \<and> jtag_follows b R ys (jtag_end R xs s)"
  by (induction b R xs s rule: jtag_follows.induct) (auto simp: Let_def split_beta)

text \<open>Which stretches do: those whose path in the controller avoids the update state, and, as long
  as the response is under way, the capture state.\<close>

fun tap_avoids :: "bool \<Rightarrow> (bool \<times> bool) list \<Rightarrow> tap_state \<Rightarrow> bool" where
  "tap_avoids b [] s \<longleftrightarrow> True"
| "tap_avoids b (x # xs) s \<longleftrightarrow> (b \<or> s \<noteq> capture_dr) \<and> s \<noteq> update_dr \<and>
     tap_avoids b xs (tap_transition (fst x) s)"

lemma tap_avoids_append:
  "tap_avoids b (xs @ ys) s \<longleftrightarrow> tap_avoids b xs s \<and> tap_avoids b ys (tap_run (map fst xs) s)"
  by (induction xs arbitrary: s) auto

lemma tap_avoids_follows: "tap_avoids b xs (jt_tap s) \<Longrightarrow> jtag_follows b R xs s"
proof (induction xs arbitrary: s)
  case (Cons x xs)
  then show ?case by (cases x) (simp add: jtag_step_tap jtag_step_still)
qed simp

lemma tap_avoids_shift:
  "tap_avoids b (map (Pair False) bs) shift_dr" "tap_avoids b (map (Pair False) bs) shift_ir"
  "tap_run (map fst (map (Pair False) bs)) shift_dr = shift_dr"
  "tap_run (map fst (map (Pair False) bs)) shift_ir = shift_ir"
  by (induction bs) simp_all

lemma tap_avoids_scans:
  "tap_avoids False (scan_ir w) run_test_idle"
  "tap_avoids b (scan_word_in (v :: 'a::len word) @ [(True, False)]) shift_dr"
  "tap_avoids False (replicate n (False, False)) run_test_idle"
proof -
  show "tap_avoids False (scan_ir w) run_test_idle"
    by (simp add: scan_ir_def ir_enter_def scan_leave_def scan_word_in_def tap_avoids_append
        tap_avoids_shift del: map_map)
  show "tap_avoids b (scan_word_in v @ [(True, False)]) shift_dr"
    by (simp add: scan_word_in_def tap_avoids_append tap_avoids_shift del: map_map)
  show "tap_avoids False (replicate n (False, False)) run_test_idle"
    by (induction n) simp_all
qed

subsection \<open>Scans of the host\<close>

lemma jtag_end_tap: "jt_tap (jtag_end R xs s) = tap_run (map fst xs) (jt_tap s)"
  by (induction xs arbitrary: s) (auto simp: jtag_step_tap Let_def split_beta)

lemma host_clock_pair:
  "host_clock jt_tdo_o (jtag_step False R) xs s = (jtag_out R xs s, jtag_end R xs s)"
  by simp

definition jtag_idle_in :: "5 word \<Rightarrow> jtag_debug \<Rightarrow> bool" where
  "jtag_idle_in i d \<longleftrightarrow> jt_tap (jd_jtag d) = run_test_idle \<and> jt_instruction (jd_jtag d) = i"

text \<open>Idle periods move the request on.\<close>

lemma jtag_end_idle:
  assumes "jt_tap s = run_test_idle"
  shows "jt_tap (jtag_end R (replicate n (False, False)) s) = run_test_idle \<and>
     jt_instruction (jtag_end R (replicate n (False, False)) s) = jt_instruction s"
  using assms
proof (induction n arbitrary: s)
  case (Suc n)
  have "jt_tap (jtag_step False R False False s) = run_test_idle"
    "jt_instruction (jtag_step False R False False s) = jt_instruction s"
    using Suc.prems by (simp_all add: jtag_step_defs)
  with Suc.IH show ?case by (simp add: Let_def split_beta)
qed simp

lemma jtag_idle_link:
  assumes l: "jd_link p r h rd ph d" and i: "jtag_idle_in ins d"
    and run: "link_run c bus p rd ph (edges_in T (jd_ticks d) n) (jd_core d) v"
  shows "\<exists>os d'. jtag_api_idle c bus T n d = Some (Inr (os, d')) \<and> jtag_idle_in ins d' \<and>
     jd_core d' = v \<and> jd_ticks d' = jd_ticks d + n \<and>
     jd_link p r h rd ((cdc_phase_next p ^^ edges_in T (jd_ticks d) n) ph) d'"
proof -
  have f: "jtag_follows False 0 (replicate n (False, False)) (jd_jtag d)"
    using tap_avoids_scans(3) i by (intro tap_avoids_follows) (simp add: jtag_idle_in_def)
  have run': "link_run c bus p rd ph (edges_in T (jd_ticks d) (length (replicate n (False, False))))
      (jd_core d) v"
    using run by simp
  show ?thesis
    using jtag_segment[OF l f _ run'] jtag_end_idle[of "jd_jtag d" 0 n] i
    by (auto simp: jtag_api_idle_def jtag_idle_in_def)
qed

text \<open>An instruction scan while no request is under way.\<close>

lemma length_scan_ir: "length (scan_ir w) = 11"
  by (simp add: scan_ir_def ir_enter_def scan_leave_def length_word_bits_butlast)

lemma jtag_set_ir_link:
  assumes l: "jd_link p r h rd Ph_Done d" and i: "jt_tap (jd_jtag d) = run_test_idle"
    and run: "dk_run c bus (dmi_idle (edges_in T (jd_ticks d) 11)) (jd_core d) = Some v"
  shows "\<exists>os d'. jtag_api_set_ir c bus T w d = Some (Inr (os, d')) \<and> jtag_idle_in w d' \<and>
     jd_core d' = v \<and> jd_ticks d' = jd_ticks d + 11 \<and> jd_link p r h rd Ph_Done d'"
proof -
  have f: "jtag_follows False 0 (scan_ir w) (jd_jtag d)"
    using tap_avoids_scans(1) i by (intro tap_avoids_follows) simp
  obtain os t where t: "host_clock jt_tdo_o (jtag_step False 0) (scan_ir w) (jd_jtag d) = (os, t)"
    "jt_instruction t = w" "jt_tap t = run_test_idle"
    using jtag_ir_scan[OF i, of False 0 w] by blast
  have run': "link_run c bus p rd Ph_Done (edges_in T (jd_ticks d) (length (scan_ir w))) (jd_core d) v"
    using run by (simp add: link_run_done length_scan_ir)
  show ?thesis
    using jtag_segment[OF l f _ run'] t
    by (auto simp: jtag_api_set_ir_def jtag_idle_in_def length_scan_ir cdc_next_done)
qed

text \<open>A data scan up to its update: the response of the last request has arrived by the time the
  scan captures it.\<close>

definition scan_dr_body :: "'a::len word \<Rightarrow> (bool \<times> bool) list" where
  "scan_dr_body w = [(True, False), (False, False)] @ ((False, False) # scan_word_in w @ [(True, False)])"

lemma scan_dr_body: "scan_dr w = scan_dr_body w @ [(False, False)]"
  by (simp add: scan_dr_def scan_dr_body_def dr_enter_def scan_leave_def)

lemma length_scan_dr_body: "length (scan_dr_body (w :: 'a::len word)) = LENGTH('a) + 4"
  by (simp add: scan_dr_body_def length_word_bits_butlast)

lemma tap_run_scan_word: "tap_run (map fst (scan_word_in w)) shift_dr = exit1_dr"
  using tap_avoids_shift(3) by (simp add: scan_word_in_def del: map_map)

lemma jtag_dr_body:
  fixes w :: "'a::len word"
  assumes l: "jd_link p r h rd Ph_Done d" and i: "jt_tap (jd_jtag d) = run_test_idle"
    and R: "R = dmi_response rd p"
    and run: "dk_run c bus (dmi_idle (edges_in T (jd_ticks d) (LENGTH('a) + 4))) (jd_core d) = Some v"
  shows "\<exists>d'. jtag_api_cycles c bus T (scan_dr_body w) d =
       Some (Inr (jtag_out R (scan_dr_body w) (jd_jtag d), d')) \<and>
     jd_jtag d' = jtag_end R (scan_dr_body w) (jd_jtag d) \<and> jd_core d' = v \<and>
     jd_ticks d' = jd_ticks d + (LENGTH('a) + 4) \<and> jd_link p r h rd Ph_Done d' \<and> jd_far r d' = 0 \<and>
     jt_tap (jd_jtag d') = update_dr"
proof -
  let ?xs = "[(True, False), (False, False)]" and ?ys = "(False, False) # scan_word_in w @ [(True, False)]"
  have len: "LENGTH('a) + 4 = 2 + length ?ys" by (simp add: length_word_bits_butlast)
  have "dk_run c bus (dmi_idle (edges_in T (jd_ticks d) 2 + edges_in T (jd_ticks d + 2) (length ?ys)))
      (jd_core d) = Some v"
    using run unfolding len edges_in_add .
  then obtain u where u0: "link_run c bus p rd Ph_Done (edges_in T (jd_ticks d) 2) (jd_core d) u"
    "link_run c bus p rd Ph_Done (edges_in T (jd_ticks d + 2) (length ?ys)) u v"
    unfolding link_run_done[symmetric, of c bus _ _ _ p rd] link_run_add cdc_next_done by blast
  have u: "link_run c bus p rd Ph_Done (edges_in T (jd_ticks d) (length ?xs)) (jd_core d) u"
    "link_run c bus p rd Ph_Done (edges_in T (jd_ticks d + 2) (length ?ys)) u v"
    using u0(1) by (simp add: numeral_2_eq_2 del: edges_in.simps) (rule u0(2))
  have f1: "jtag_follows False R ?xs (jd_jtag d)"
    using i by (intro tap_avoids_follows) simp
  obtain d1 where d1: "jtag_api_cycles c bus T ?xs d = Some (Inr (jtag_out R ?xs (jd_jtag d), d1))"
    "jd_jtag d1 = jtag_end R ?xs (jd_jtag d)" "jd_core d1 = u" "jd_ticks d1 = jd_ticks d + 2"
    "jd_link p r h rd Ph_Done d1" "jd_far r d1 \<le> jd_far r d - 2"
    using jtag_segment[OF l f1 _ u(1)] by (auto simp: cdc_next_done)
  have far: "jd_far r d1 = 0" using d1(6) jd_far_le[of r d] by simp
  have tap1: "jt_tap (jd_jtag d1) = capture_dr"
    unfolding d1(2) jtag_end_tap by (simp add: i)
  have f2: "jtag_follows True R ?ys (jd_jtag d1)"
    using tap1 tap_avoids_scans(2)[of True w] by (intro tap_avoids_follows) simp
  have u': "link_run c bus p rd Ph_Done (edges_in T (jd_ticks d1) (length ?ys)) (jd_core d1) v"
    using u(2) d1(3,4) by simp
  obtain d2 where d2: "jtag_api_cycles c bus T ?ys d1 = Some (Inr (jtag_out R ?ys (jd_jtag d1), d2))"
    "jd_jtag d2 = jtag_end R ?ys (jd_jtag d1)" "jd_core d2 = v"
    "jd_ticks d2 = jd_ticks d1 + length ?ys" "jd_link p r h rd Ph_Done d2"
    "jd_far r d2 \<le> jd_far r d1 - length ?ys"
    using jtag_segment[OF d1(5) f2 _ u'] far R by (auto simp: cdc_next_done)
  have tap2: "jt_tap (jd_jtag d2) = update_dr"
    unfolding d2(2) jtag_end_tap tap1 by (simp add: tap_run_scan_word)
  have e: "jd_jtag d2 = jtag_end R (scan_dr_body w) (jd_jtag d)"
    "jtag_out R (scan_dr_body w) (jd_jtag d) = jtag_out R ?xs (jd_jtag d) @ jtag_out R ?ys (jd_jtag d1)"
    unfolding d2(2) d1(2) scan_dr_body_def by (simp_all only: jtag_end_append)
  have "jtag_api_cycles c bus T (scan_dr_body w) d =
      Some (Inr (jtag_out R (scan_dr_body w) (jd_jtag d), d2))"
    unfolding e(2) using jtag_api_cycles_join[OF d1(1) d2(1)] by (simp only: scan_dr_body_def)
  moreover have "jd_ticks d2 = jd_ticks d + (LENGTH('a) + 4)"
    using d2(4) d1(4) by (simp add: length_word_bits_butlast)
  ultimately show ?thesis using e(1) d2(3,5,6) far tap2 by (intro exI[of _ d2]) simp
qed

text \<open>The update: a period that starts a request.\<close>

lemma jtag_period_request:
  assumes l: "jd_link p r h rd Ph_Done d" and far: "jd_far r d = 0"
    and tap: "jt_tap (jd_jtag d) \<noteq> capture_dr"
    and new: "jtag_cdc_in (jtag_step False R tms tdi (jd_jtag d)) = cdc_request w (\<not> r) h"
    and run: "link_run c bus w rd' Ph_Meta (js_core_edges T (jd_ticks d)) (jd_core d) v"
  shows "\<exists>d'. jtag_api_cycle c bus T tms tdi d = Some (Inr (jt_tdo_o (jd_jtag d), d')) \<and>
     jd_jtag d' = jtag_step False R tms tdi (jd_jtag d) \<and> jd_core d' = v \<and>
     jd_ticks d' = Suc (jd_ticks d) \<and>
     jd_link w (\<not> r) h rd' ((cdc_phase_next w ^^ js_core_edges T (jd_ticks d)) Ph_Meta) d'"
proof -
  let ?d = "jd_scan_edge tms tdi d"
  have j: "jd_jtag ?d = jtag_step False R tms tdi (jd_jtag d)"
    using jtag_step_indifferent[OF tap] by (simp add: jd_scan_edge_def)
  have f: "jd_core ?d = jd_core d" "jd_ticks ?d = Suc (jd_ticks d)"
    by (simp_all add: jd_scan_edge_def)
  have "cdc_in_phase (\<not> r) h w rd' Ph_Meta (jd_view ?d [])"
    using l far
    by (auto simp: jd_link_def jd_view_def jd_far_def jd_scan_edge_def cdc_return_distance_def
        cdc_in_phase_def cdc_started_def response_synchronizer_def Let_def split: if_splits)
  then have e: "jd_link w (\<not> r) h rd' Ph_Meta ?d" using new j by (auto simp: jd_link_def)
  have run': "link_run c bus w rd' Ph_Meta (js_core_edges T (jd_ticks d)) (jd_core ?d) v"
    using run f by simp
  obtain d' where "jd_core_edges c bus (js_core_edges T (jd_ticks d)) ?d = Some d'" "jd_core d' = v"
    "jd_jtag d' = jd_jtag ?d" "jd_ticks d' = jd_ticks ?d"
    "jd_link w (\<not> r) h rd' ((cdc_phase_next w ^^ js_core_edges T (jd_ticks d)) Ph_Meta) d'"
    using jd_core_edges_link[OF e run'] by blast
  then show ?thesis using j f by (auto simp: jtag_api_cycle_def)
qed

text \<open>A DMI scan: it returns the response of the last request and starts the next.\<close>

lemma jtag_dmi_scan_link:
  assumes l: "jd_link p r h rd Ph_Done d" and i: "jtag_idle_in JTAG_INSTR_DMI d"
    and idle: "dk_run c bus (dmi_idle (edges_in T (jd_ticks d) 45)) (jd_core d) = Some u"
    and req: "link_run c bus w rd' Ph_Meta (js_core_edges T (jd_ticks d + 45)) u v"
  shows "\<exists>d'. jtag_api_scan_dr c bus T w d = Some (Inr (dmi_response rd p, d')) \<and>
     jtag_idle_in JTAG_INSTR_DMI d' \<and> jd_core d' = v \<and> jd_ticks d' = jd_ticks d + 46 \<and>
     jd_link w (\<not> r) h rd' ((cdc_phase_next w ^^ js_core_edges T (jd_ticks d + 45)) Ph_Meta) d'"
proof -
  let ?R = "dmi_response rd p" and ?s = "jd_jtag d"
  have s: "jt_tap ?s = run_test_idle" "jt_instruction ?s = JTAG_INSTR_DMI"
    using i by (simp_all add: jtag_idle_in_def)
  have in0: "jtag_cdc_in ?s = cdc_request p r h" using l by (simp add: jd_link_def)
  obtain os t where t: "host_clock jt_tdo_o (jtag_step False ?R) (scan_dr w) ?s = (os, t)"
    "scanned 3 41 os = word_bits ?R" "jt_request_payload t = w"
    "jt_request_toggle t = (\<not> jt_request_toggle ?s)"
    "jt_hardreset_toggle t = jt_hardreset_toggle ?s" "jt_tap t = run_test_idle"
    "jt_instruction t = JTAG_INSTR_DMI"
    using jtag_dmi_exchange[OF s, of False ?R w] by auto
  have idle': "dk_run c bus (dmi_idle (edges_in T (jd_ticks d) (LENGTH(41) + 4))) (jd_core d) = Some u"
    using idle by simp
  obtain d1 where d1: "jtag_api_cycles c bus T (scan_dr_body w) d =
      Some (Inr (jtag_out ?R (scan_dr_body w) ?s, d1))" "jd_jtag d1 = jtag_end ?R (scan_dr_body w) ?s"
    "jd_core d1 = u" "jd_ticks d1 = jd_ticks d + 45" "jd_link p r h rd Ph_Done d1"
    "jd_far r d1 = 0" "jt_tap (jd_jtag d1) = update_dr"
    using jtag_dr_body[OF l s(1) refl idle', where w = w] by auto
  have end1: "jtag_step False ?R False False (jd_jtag d1) = t"
    "os = jtag_out ?R (scan_dr_body w) ?s @ [jt_tdo_o (jd_jtag d1)]"
    using t(1) unfolding scan_dr_body d1(2) host_clock_append by (auto simp: Let_def split_beta)
  have new: "jtag_cdc_in (jtag_step False ?R False False (jd_jtag d1)) = cdc_request w (\<not> r) h"
    using t(3-5) in0 unfolding end1 by (simp add: jtag_cdc_in_def cdc_request_def)
  have req': "link_run c bus w rd' Ph_Meta (js_core_edges T (jd_ticks d1)) (jd_core d1) v"
    using req d1(3,4) by simp
  obtain d2 where d2: "jtag_api_cycle c bus T False False d1 = Some (Inr (jt_tdo_o (jd_jtag d1), d2))"
    "jd_jtag d2 = t" "jd_core d2 = v" "jd_ticks d2 = Suc (jd_ticks d1)"
    "jd_link w (\<not> r) h rd' ((cdc_phase_next w ^^ js_core_edges T (jd_ticks d1)) Ph_Meta) d2"
    using jtag_period_request[OF d1(5,6) _ new req'] d1(7) end1(1) by auto
  have "jtag_api_cycles c bus T (scan_dr w) d = Some (Inr (os, d2))"
    unfolding scan_dr_body jtag_api_cycles_append d1(1) by (simp add: d2(1) end1(2))
  then have "jtag_api_scan_dr c bus T w d = Some (Inr (?R, d2))"
    using t(2) by (simp add: jtag_api_scan_dr_def)
  then show ?thesis using d2 d1(4) t(6,7) by (intro exI[of _ d2]) (simp add: jtag_idle_in_def)
qed

subsection \<open>DMI accesses of the host\<close>

lemma dk_run_idle_add:
  "dk_run c bus (dmi_idle (m + n)) ts = Some v \<longleftrightarrow>
     (\<exists>u. dk_run c bus (dmi_idle m) ts = Some u \<and> dk_run c bus (dmi_idle n) u = Some v)"
  unfolding replicate_add dk_run_split ..

text \<open>From the instruction scan to the end of the idle periods: the request's access falls into
  the period of the update or the idle periods after it.\<close>

lemma jtag_request_link:
  assumes T: "jtag_schedule_ok T" and l: "jd_link p r h rd Ph_Done d"
    and i: "jt_tap (jd_jtag d) = run_test_idle"
    and op': "dmi_op_of w = DMI_OP_READ \<or> dmi_op_of w = DMI_OP_WRITE"
    and run: "dk_run c bus (dmi_idle (edges_in T (jd_ticks d) 56 + 3)) (jd_core d) = Some x"
      "dk_run c bus [dmi_request_of w] x = Some y"
      "dk_run c bus (dmi_idle (edges_in T (jd_ticks d + 56) 3 - 4)) y = Some z"
    and rd': "dmi_op_of w = DMI_OP_READ \<Longrightarrow> rd' (dmi_adr_of w) = dm_dbo (dk_dm (snd y))"
  shows "\<exists>os os' d1 d2 d3. jtag_api_set_ir c bus T JTAG_INSTR_DMI d = Some (Inr (os, d1)) \<and>
     jtag_api_scan_dr c bus T w d1 = Some (Inr (dmi_response rd p, d2)) \<and>
     jtag_api_idle c bus T 2 d2 = Some (Inr (os', d3)) \<and> jtag_idle_in JTAG_INSTR_DMI d3 \<and>
     jd_core d3 = z \<and> jd_ticks d3 = jd_ticks d + 59 \<and> jd_link w (\<not> r) h rd' Ph_Done d3"
proof -
  let ?k = "jd_ticks d" and ?E = "edges_in T (jd_ticks d + 56) 3"
  have E: "edges_in T ?k 56 = edges_in T ?k 11 + edges_in T (?k + 11) 45"
    using edges_in_add[of T ?k 11 45] by simp
  have "Suc 2 = (3 :: nat)" "Suc (?k + 56) = ?k + 57" by simp_all
  then have E': "?E = js_core_edges T (?k + 56) + edges_in T (?k + 57) 2"
    using edges_in.simps(2)[of T "?k + 56" 2] by metis
  have ge: "9 \<le> ?E" using edges_in_ge[OF T, of 3 "?k + 56"] by simp
  obtain a b where ab: "dk_run c bus (dmi_idle (edges_in T ?k 11)) (jd_core d) = Some a"
    "dk_run c bus (dmi_idle (edges_in T (?k + 11) 45)) a = Some b"
    "dk_run c bus (dmi_idle 3) b = Some x"
    using run(1) unfolding E dk_run_idle_add by blast
  have "link_run c bus w rd' Ph_Meta (4 + (?E - 4)) b z"
    by (rule link_run_request[where rd = rd', OF op' ab(3) run(2,3) rd'])
  then have "link_run c bus w rd' Ph_Meta (js_core_edges T (?k + 56) + edges_in T (?k + 57) 2) b z"
    using ge E' by simp
  then obtain e where e: "link_run c bus w rd' Ph_Meta (js_core_edges T (?k + 56)) b e"
    "link_run c bus w rd' ((cdc_phase_next w ^^ js_core_edges T (?k + 56)) Ph_Meta)
       (edges_in T (?k + 57) 2) e z"
    unfolding link_run_add by blast
  obtain os d1 where d1: "jtag_api_set_ir c bus T JTAG_INSTR_DMI d = Some (Inr (os, d1))"
    "jtag_idle_in JTAG_INSTR_DMI d1" "jd_core d1 = a" "jd_ticks d1 = ?k + 11"
    "jd_link p r h rd Ph_Done d1"
    using jtag_set_ir_link[OF l i ab(1)] by blast
  have k2: "?k + 11 + 45 = ?k + 56" by simp
  obtain d2 where d2: "jtag_api_scan_dr c bus T w d1 = Some (Inr (dmi_response rd p, d2))"
    "jtag_idle_in JTAG_INSTR_DMI d2" "jd_core d2 = e" "jd_ticks d2 = ?k + 57"
    "jd_link w (\<not> r) h rd' ((cdc_phase_next w ^^ js_core_edges T (?k + 56)) Ph_Meta) d2"
    using jtag_dmi_scan_link[OF d1(5,2), of c bus T b w rd' e] ab(2) e(1) d1(3,4) k2 by auto
  have e2: "link_run c bus w rd' ((cdc_phase_next w ^^ js_core_edges T (?k + 56)) Ph_Meta)
      (edges_in T (jd_ticks d2) 2) (jd_core d2) z"
    using e(2) d2(3,4) by simp
  obtain os' d3 where d3: "jtag_api_idle c bus T 2 d2 = Some (Inr (os', d3))"
    "jtag_idle_in JTAG_INSTR_DMI d3" "jd_core d3 = z" "jd_ticks d3 = jd_ticks d2 + 2"
    "jd_link w (\<not> r) h rd' ((cdc_phase_next w ^^ edges_in T (jd_ticks d2) 2)
       ((cdc_phase_next w ^^ js_core_edges T (?k + 56)) Ph_Meta)) d3"
    using jtag_idle_link[OF d2(5,2) e2] by blast
  have "(cdc_phase_next w ^^ edges_in T (jd_ticks d2) 2)
      ((cdc_phase_next w ^^ js_core_edges T (?k + 56)) Ph_Meta) = (cdc_phase_next w ^^ ?E) Ph_Meta"
    unfolding E' d2(4) by (simp add: funpow_later)
  also have "\<dots> = Ph_Done" using ge by (intro cdc_phase_done) simp
  finally have "jd_link w (\<not> r) h rd' Ph_Done d3" using d3(5) by simp
  then show ?thesis using d1(1) d2(1) d3(1-4) d2(4) by auto
qed

text \<open>A word without an operation starts no access; it is done after three edges.\<close>

lemma link_run_nop:
  "dmi_op_of p = DMI_OP_NOP \<Longrightarrow> ph \<in> {Ph_Meta, Ph_Sync, Ph_Detect, Ph_Done} \<Longrightarrow>
   link_run c bus p rd ph n ts v \<longleftrightarrow> dk_run c bus (dmi_idle n) ts = Some v"
proof (induction n arbitrary: ph ts)
  case (Suc n)
  have q: "dk_run c bus (dmi_idle (1 + n)) ts = Some v \<longleftrightarrow>
      (\<exists>u. dk_run c bus (dmi_idle 1) ts = Some u \<and> dk_run c bus (dmi_idle n) u = Some v)"
    by (rule dk_run_idle_add)
  have "cdc_phase_next p ph \<in> {Ph_Meta, Ph_Sync, Ph_Detect, Ph_Done}" using Suc.prems by auto
  from Suc.IH[OF Suc.prems(1) this] have
    "link_run c bus p rd ph (Suc n) ts v \<longleftrightarrow>
       (\<exists>u. dk_run c bus [dmi_quiet] ts = Some u \<and> dk_run c bus (dmi_idle n) u = Some v)"
    using Suc.prems unfolding link_run.simps by (auto simp: link_request_def)
  then show ?case using q by simp
qed auto

lemma cdc_phase_nop:
  assumes "dmi_op_of p = DMI_OP_NOP" "3 \<le> n"
  shows "(cdc_phase_next p ^^ n) Ph_Meta = Ph_Done"
proof -
  obtain k where n: "n = k + 3" using assms(2) by (metis add.commute le_Suc_ex)
  have "(cdc_phase_next p ^^ 3) Ph_Meta = Ph_Done" using assms(1) by (simp add: eval_nat_numeral)
  then show ?thesis by (simp add: n funpow_add cdc_next_done del: funpow.simps)
qed

lemma dmi_request_of_pack [simp]:
  "dmi_request_of (dmi_pack a 0 DMI_OP_READ) = dmi_read a"
  "dmi_request_of (dmi_pack a v DMI_OP_WRITE) = dmi_write a v"
  by (simp_all add: dmi_request_of_def dmi_read_def dmi_write_def)

definition jtag_api_ok :: "jtag_schedule \<Rightarrow> jtag_debug \<Rightarrow> bool" where
  "jtag_api_ok T d \<longleftrightarrow> jtag_schedule_ok T \<and> jt_tap (jd_jtag d) = run_test_idle \<and>
     (\<exists>p r h rd. jd_link p r h rd Ph_Done d)"

lemma jtag_write_law:
  assumes ok: "jtag_api_ok T d"
    and run: "dk_run c bus (dmi_idle (edges_in T (jd_ticks d) 56 + 3) @ dmi_write a w #
      dmi_idle (edges_in T (jd_ticks d + 56) 3 - 4)) (jd_core d) = Some z"
  shows "\<exists>d'. jtag_api_dmi_write c bus T a w d = Some (Inr d') \<and> jtag_api_ok T d' \<and> jd_core d' = z"
proof -
  obtain p r h rd where T: "jtag_schedule_ok T" and i: "jt_tap (jd_jtag d) = run_test_idle"
    and l: "jd_link p r h rd Ph_Done d"
    using ok by (auto simp: jtag_api_ok_def)
  let ?w = "dmi_pack a w DMI_OP_WRITE"
  have "dk_run c bus (dmi_idle (edges_in T (jd_ticks d) 56 + 3) @ [dmi_write a w] @
      dmi_idle (edges_in T (jd_ticks d + 56) 3 - 4)) (jd_core d) = Some z"
    using run by simp
  then obtain x y where xy: "dk_run c bus (dmi_idle (edges_in T (jd_ticks d) 56 + 3)) (jd_core d) = Some x"
    "dk_run c bus [dmi_write a w] x = Some y"
    "dk_run c bus (dmi_idle (edges_in T (jd_ticks d + 56) 3 - 4)) y = Some z"
    unfolding dk_run_split by blast
  have y: "dk_run c bus [dmi_request_of ?w] x = Some y" using xy(2) by simp
  have op': "dmi_op_of ?w = DMI_OP_READ \<or> dmi_op_of ?w = DMI_OP_WRITE"
    "dmi_op_of ?w = DMI_OP_READ \<Longrightarrow> rd (dmi_adr_of ?w) = dm_dbo (dk_dm (snd y))"
    by simp_all
  obtain os os' d1 d2 d3 where s: "jtag_api_set_ir c bus T JTAG_INSTR_DMI d = Some (Inr (os, d1))"
    "jtag_api_scan_dr c bus T ?w d1 = Some (Inr (dmi_response rd p, d2))"
    "jtag_api_idle c bus T 2 d2 = Some (Inr (os', d3))" "jtag_idle_in JTAG_INSTR_DMI d3"
    "jd_core d3 = z" "jd_link ?w (\<not> r) h rd Ph_Done d3"
    using jtag_request_link[where rd' = rd, OF T l i op'(1) xy(1) y xy(3) op'(2)] by blast
  have "bv_slice 2 0 (dmi_response rd p) = (0 :: 2 word)"
    by (simp add: dmi_slices dmi_response_def)
  then have "jtag_api_dmi_write c bus T a w d = Some (Inr d3)"
    using s(1-3) unfolding jtag_api_dmi_write_def jtag_request_words by simp
  then show ?thesis using s(4-6) T by (auto simp: jtag_api_ok_def jtag_idle_in_def)
qed

lemma jtag_read_law:
  assumes ok: "jtag_api_ok T d"
    and run: "dk_run c bus (dmi_idle (edges_in T (jd_ticks d) 56 + 3) @ [dmi_read a]) (jd_core d) = Some y"
      "dk_run c bus (dmi_idle (edges_in T (jd_ticks d + 56) 3 - 4 +
         (edges_in T (jd_ticks d + 59) 45 + js_core_edges T (jd_ticks d + 104)))) y = Some v"
  shows "\<exists>d'. jtag_api_dmi_read c bus T a d = Some (Inr (dm_dbo (dk_dm (snd y)), d')) \<and>
     jtag_api_ok T d' \<and> jd_core d' = v"
proof -
  obtain p r h rd where T: "jtag_schedule_ok T" and i: "jt_tap (jd_jtag d) = run_test_idle"
    and l: "jd_link p r h rd Ph_Done d"
    using ok by (auto simp: jtag_api_ok_def)
  let ?w = "dmi_pack a 0 DMI_OP_READ" and ?rd = "\<lambda>_ :: dmi_adr. dm_dbo (dk_dm (snd y))"
  obtain x where xy: "dk_run c bus (dmi_idle (edges_in T (jd_ticks d) 56 + 3)) (jd_core d) = Some x"
    "dk_run c bus [dmi_read a] x = Some y"
    using run(1) unfolding dk_run_split by blast
  obtain z u where zu: "dk_run c bus (dmi_idle (edges_in T (jd_ticks d + 56) 3 - 4)) y = Some z"
    "dk_run c bus (dmi_idle (edges_in T (jd_ticks d + 59) 45)) z = Some u"
    "dk_run c bus (dmi_idle (js_core_edges T (jd_ticks d + 104))) u = Some v"
    using run(2) unfolding dk_run_idle_add by blast
  have y: "dk_run c bus [dmi_request_of ?w] x = Some y" using xy(2) by simp
  have op': "dmi_op_of ?w = DMI_OP_READ \<or> dmi_op_of ?w = DMI_OP_WRITE"
    "dmi_op_of ?w = DMI_OP_READ \<Longrightarrow> ?rd (dmi_adr_of ?w) = dm_dbo (dk_dm (snd y))"
    by simp_all
  obtain os os' d1 d2 d3 where s: "jtag_api_set_ir c bus T JTAG_INSTR_DMI d = Some (Inr (os, d1))"
    "jtag_api_scan_dr c bus T ?w d1 = Some (Inr (dmi_response rd p, d2))"
    "jtag_api_idle c bus T 2 d2 = Some (Inr (os', d3))" "jtag_idle_in JTAG_INSTR_DMI d3"
    "jd_core d3 = z" "jd_ticks d3 = jd_ticks d + 59" "jd_link ?w (\<not> r) h ?rd Ph_Done d3"
    using jtag_request_link[where rd' = ?rd, OF T l i op'(1) xy(1) y zu(1) op'(2)] by blast
  have nop: "dmi_op_of 0 = DMI_OP_NOP" by code_simp
  have k: "jd_ticks d + 59 + 45 = jd_ticks d + 104" by simp
  have "link_run c bus 0 ?rd Ph_Meta (js_core_edges T (jd_ticks d + 104)) u v"
    using zu(3) link_run_nop[OF nop] by simp
  then obtain d4 where d4: "jtag_api_scan_dr c bus T (0 :: dmi_word) d3 =
      Some (Inr (dmi_response ?rd ?w, d4))" "jtag_idle_in JTAG_INSTR_DMI d4" "jd_core d4 = v"
    "jd_link 0 r h ?rd ((cdc_phase_next 0 ^^ js_core_edges T (jd_ticks d + 104)) Ph_Meta) d4"
    using jtag_dmi_scan_link[OF s(7,4), of c bus T u 0 ?rd v] zu(2) s(5,6) k by auto
  have "3 \<le> js_core_edges T (jd_ticks d + 104)" using T by (simp add: jtag_schedule_ok_def)
  then have "jd_link 0 r h ?rd Ph_Done d4" using d4(4) cdc_phase_nop[OF nop] by simp
  moreover have "bv_slice 2 0 (dmi_response ?rd ?w) = (0 :: 2 word)"
    "bv_slice 34 2 (dmi_response ?rd ?w) = dm_dbo (dk_dm (snd y))"
    by (simp_all add: dmi_slices dmi_response_def)
  then have "jtag_api_dmi_read c bus T a d = Some (Inr (dm_dbo (dk_dm (snd y)), d4))"
    using s(1-3) d4(1) unfolding jtag_api_dmi_read_def jtag_request_words by simp
  ultimately show ?thesis using d4(2,3) T by (auto simp: jtag_api_ok_def jtag_idle_in_def)
qed

lemma jtag_clock_law:
  assumes ok: "jtag_api_ok T d"
    and run: "dk_run c bus (dmi_idle (1 + edges_in T (jd_ticks d) (js_idle_periods T (jd_ticks d))))
      (jd_core d) = Some v"
  shows "\<exists>d'. jtag_api_yield_clock c bus T d = Some (Inr d') \<and> jtag_api_ok T d' \<and> jd_core d' = v"
proof -
  obtain p r h rd where T: "jtag_schedule_ok T" and i: "jt_tap (jd_jtag d) = run_test_idle"
    and l: "jd_link p r h rd Ph_Done d"
    using ok by (auto simp: jtag_api_ok_def)
  obtain u where u: "dk_run c bus (dmi_idle 1) (jd_core d) = Some u"
    "dk_run c bus (dmi_idle (edges_in T (jd_ticks d) (js_idle_periods T (jd_ticks d)))) u = Some v"
    using run unfolding dk_run_idle_add by blast
  have q: "dk_run c bus [link_request p Ph_Done] (jd_core d) = Some u"
    using u(1) by (simp add: link_request_def)
  obtain d1 where d1: "jd_core_edge c bus d = Some d1" "jd_core d1 = u" "jd_jtag d1 = jd_jtag d"
    "jd_ticks d1 = jd_ticks d" "jd_link p r h rd Ph_Done d1"
    using jd_core_edge_link[OF l q] by auto
  have i1: "jtag_idle_in (jt_instruction (jd_jtag d)) d1" using i d1(3) by (simp add: jtag_idle_in_def)
  have r1: "link_run c bus p rd Ph_Done (edges_in T (jd_ticks d1) (js_idle_periods T (jd_ticks d)))
      (jd_core d1) v"
    using u(2) d1(2,4) by (simp add: link_run_done)
  obtain os d2 where "jtag_api_idle c bus T (js_idle_periods T (jd_ticks d)) d1 = Some (Inr (os, d2))"
    "jtag_idle_in (jt_instruction (jd_jtag d)) d2" "jd_core d2 = v" "jd_link p r h rd Ph_Done d2"
    using jtag_idle_link[OF d1(5) i1 r1] by (auto simp: cdc_next_done)
  then show ?thesis
    using d1(1) T by (auto simp: jtag_api_yield_clock_def jtag_api_ok_def jtag_idle_in_def)
qed

interpretation jtag: debug_transport c bus "jtag_api c bus T" jd_core "jtag_api_ok T" for c bus T
proof unfold_locales
  fix d a w assume ok: "jtag_api_ok T d"
  show "\<exists>m n. \<forall>u v. dk_run c bus (dmi_idle m @ [dmi_read a]) (jd_core d) = Some u \<longrightarrow>
      dk_run c bus (dmi_idle n) u = Some v \<longrightarrow>
      (\<exists>d'. tp_read (jtag_api c bus T) a d = Some (Inr (dm_dbo (dk_dm (snd u)), d')) \<and>
        jtag_api_ok T d' \<and> jd_core d' = v)"
    using jtag_read_law[OF ok, of c bus a] unfolding jtag_api_fields by blast
  show "\<exists>m n. \<forall>u. dk_run c bus (dmi_idle m @ dmi_write a w # dmi_idle n) (jd_core d) = Some u \<longrightarrow>
      (\<exists>d'. tp_write (jtag_api c bus T) a w d = Some (Inr d') \<and> jtag_api_ok T d' \<and> jd_core d' = u)"
    using jtag_write_law[OF ok, of c bus a w] unfolding jtag_api_fields by blast
  show "\<exists>m. \<forall>u. dk_run c bus (dmi_idle m) (jd_core d) = Some u \<longrightarrow>
      (\<exists>d'. tp_clock (jtag_api c bus T) d = Some (Inr d') \<and> jtag_api_ok T d' \<and> jd_core d' = u)"
    using jtag_clock_law[OF ok, of c bus] unfolding jtag_api_fields by blast
qed

subsection \<open>Attaching\<close>

text \<open>A data scan that starts no request.\<close>

lemma jtag_dr_link:
  fixes w :: "'a::len word"
  assumes l: "jd_link p r h rd Ph_Done d" and i: "jt_tap (jd_jtag d) = run_test_idle"
    and t: "host_clock jt_tdo_o (jtag_step False (dmi_response rd p)) (scan_dr w) (jd_jtag d) = (os, t)"
      "jtag_cdc_in t = jtag_cdc_in (jd_jtag d)"
    and run: "dk_run c bus (dmi_idle (edges_in T (jd_ticks d) (LENGTH('a) + 5))) (jd_core d) = Some v"
  shows "\<exists>d'. jtag_api_scan_dr c bus T w d = Some (Inr (bits_word (scanned 3 LENGTH('a) os), d')) \<and>
     jd_jtag d' = t \<and> jd_core d' = v \<and> jd_ticks d' = jd_ticks d + (LENGTH('a) + 5) \<and>
     jd_link p r h rd Ph_Done d'"
proof -
  let ?R = "dmi_response rd p" and ?n = "LENGTH('a) + 4"
  have n: "LENGTH('a) + 5 = ?n + 1" by simp
  have "edges_in T (jd_ticks d) (LENGTH('a) + 5) = edges_in T (jd_ticks d) ?n + js_core_edges T (jd_ticks d + ?n)"
    unfolding n edges_in_add by simp
  then obtain u where u: "dk_run c bus (dmi_idle (edges_in T (jd_ticks d) ?n)) (jd_core d) = Some u"
    "dk_run c bus (dmi_idle (js_core_edges T (jd_ticks d + ?n))) u = Some v"
    using run dk_run_idle_add by metis
  obtain d1 where d1: "jtag_api_cycles c bus T (scan_dr_body w) d =
      Some (Inr (jtag_out ?R (scan_dr_body w) (jd_jtag d), d1))"
    "jd_jtag d1 = jtag_end ?R (scan_dr_body w) (jd_jtag d)" "jd_core d1 = u"
    "jd_ticks d1 = jd_ticks d + ?n" "jd_link p r h rd Ph_Done d1" "jd_far r d1 = 0"
    "jt_tap (jd_jtag d1) = update_dr"
    using jtag_dr_body[OF l i refl u(1), where w = w] by auto
  have end1: "jtag_step False ?R False False (jd_jtag d1) = t"
    "os = jtag_out ?R (scan_dr_body w) (jd_jtag d) @ [jt_tdo_o (jd_jtag d1)]"
    using t(1) unfolding scan_dr_body d1(2) host_clock_append by (auto simp: Let_def split_beta)
  have still: "jtag_cdc_in (jtag_step False ?R False False (jd_jtag d1)) = jtag_cdc_in (jd_jtag d1)"
    using t(2) l d1(5) unfolding end1 by (simp add: jd_link_def)
  have run1: "link_run c bus p rd Ph_Done (js_core_edges T (jd_ticks d1)) (jd_core d1) v"
    using u(2) d1(3,4) by (simp add: link_run_done)
  have cap: "jt_tap (jd_jtag d1) \<noteq> capture_dr \<or> Ph_Done = Ph_Done \<and> jd_far r d1 = 0 \<and> ?R = dmi_response rd p"
    using d1(7) by simp
  obtain d2 where d2: "jtag_api_cycle c bus T False False d1 = Some (Inr (jt_tdo_o (jd_jtag d1), d2))"
    "jd_jtag d2 = t" "jd_core d2 = v" "jd_ticks d2 = Suc (jd_ticks d1)" "jd_link p r h rd Ph_Done d2"
    using jtag_period[OF d1(5) cap still run1] end1(1) by (auto simp: cdc_next_done)
  have "jtag_api_cycles c bus T (scan_dr w) d = Some (Inr (os, d2))"
    unfolding scan_dr_body jtag_api_cycles_append d1(1) by (simp add: d2(1) end1(2))
  then show ?thesis using d2(2-5) d1(4) by (simp add: jtag_api_scan_dr_def)
qed

lemma scan_leave_idcode:
  assumes "jtag_shifting JTAG_INSTR_IDCODE u" "t = jtag_step pending resp True b u"
  shows "\<exists>os v. host_clock jt_tdo_o (jtag_step pending resp) scan_leave t = (os, v) \<and>
     jtag_frame v = jtag_frame t \<and> jt_tap v = run_test_idle"
  using assms by (simp add: scan_leave_def jtag_step_defs)

lemma jtag_idcode_scan:
  assumes s: "jt_tap s = run_test_idle" "jt_instruction s = JTAG_INSTR_IDCODE"
  shows "\<exists>os t. host_clock jt_tdo_o (jtag_step pending resp) (scan_dr (w :: xword)) s = (os, t) \<and>
     scanned 3 32 os = word_bits (JTAG_IDCODE :: xword) \<and> jtag_frame t = jtag_frame s \<and>
     jt_tap t = run_test_idle"
proof -
  obtain os1 s1 where p1: "host_clock jt_tdo_o (jtag_step pending resp) dr_enter s = (os1, s1)"
    "jtag_shifting JTAG_INSTR_IDCODE s1" "jt_tdo_o s1 = bit (jt_idcode_shift s1) 0"
    "jt_idcode_shift s1 = JTAG_IDCODE" "jtag_frame s1 = jtag_frame s"
    using dr_enter_idcode[OF s] by blast
  obtain s2 u where p2: "host_clock jt_tdo_o (jtag_step pending resp) (scan_word_in w) s1 =
      (word_bits (jt_idcode_shift s1), s2)" "jtag_frame s2 = jtag_frame s1"
    "s2 = jtag_step pending resp True (last (word_bits w)) u" "jtag_shifting JTAG_INSTR_IDCODE u"
    using idcode_path.scan_word[OF p1(2,3), of pending resp w] unfolding scan_word_in_def by blast
  obtain os3 s3 where p3: "host_clock jt_tdo_o (jtag_step pending resp) scan_leave s2 = (os3, s3)"
    "jtag_frame s3 = jtag_frame s2" "jt_tap s3 = run_test_idle"
    using scan_leave_idcode[OF p2(4,3)] by blast
  note ph = scan_phases[OF p1(1) p2(1) p3(1)]
  have "length (word_bits (jt_idcode_shift s1)) = 32" by simp
  then have "scanned 3 32 (os1 @ word_bits (jt_idcode_shift s1) @ os3) = word_bits (jt_idcode_shift s1)"
    using ph(2)[of 3] by (simp add: dr_enter_def)
  then show ?thesis
    using ph(1) p1(4,5) p2(2) p3(2,3) by (auto simp: scan_dr_def)
qed

lemma jtag_frame_cdc_in: "jtag_frame t = jtag_frame s \<Longrightarrow> jtag_cdc_in t = jtag_cdc_in s"
  by (simp add: jtag_frame_def jtag_cdc_in_def)

lemma jtag_read_idcode_link:
  assumes l: "jd_link p r h rd Ph_Done d" and i: "jt_tap (jd_jtag d) = run_test_idle"
    and run: "dk_run c bus (dmi_idle (edges_in T (jd_ticks d) 48)) (jd_core d) = Some v"
  shows "\<exists>d'. jtag_api_read_idcode c bus T d = Some (Inr (JTAG_IDCODE, d')) \<and>
     jt_tap (jd_jtag d') = run_test_idle \<and> jd_core d' = v \<and> jd_ticks d' = jd_ticks d + 48 \<and>
     jd_link p r h rd Ph_Done d'"
proof -
  obtain u where u: "dk_run c bus (dmi_idle (edges_in T (jd_ticks d) 11)) (jd_core d) = Some u"
    "dk_run c bus (dmi_idle (edges_in T (jd_ticks d + 11) 37)) u = Some v"
    using run edges_in_add[of T "jd_ticks d" 11 37] dk_run_idle_add by auto
  obtain os d1 where d1: "jtag_api_set_ir c bus T JTAG_INSTR_IDCODE d = Some (Inr (os, d1))"
    "jtag_idle_in JTAG_INSTR_IDCODE d1" "jd_core d1 = u" "jd_ticks d1 = jd_ticks d + 11"
    "jd_link p r h rd Ph_Done d1"
    using jtag_set_ir_link[OF l i u(1)] by blast
  have s: "jt_tap (jd_jtag d1) = run_test_idle" "jt_instruction (jd_jtag d1) = JTAG_INSTR_IDCODE"
    using d1(2) by (simp_all add: jtag_idle_in_def)
  obtain os' t where t: "host_clock jt_tdo_o (jtag_step False (dmi_response rd p)) (scan_dr (0 :: xword))
      (jd_jtag d1) = (os', t)" "scanned 3 32 os' = word_bits (JTAG_IDCODE :: xword)"
    "jtag_cdc_in t = jtag_cdc_in (jd_jtag d1)" "jt_tap t = run_test_idle"
    using jtag_idcode_scan[OF s] jtag_frame_cdc_in by blast
  have r: "dk_run c bus (dmi_idle (edges_in T (jd_ticks d1) (LENGTH(32) + 5))) (jd_core d1) = Some v"
    using u(2) d1(3,4) by simp
  show ?thesis
    using jtag_dr_link[OF d1(5) s(1) t(1,3) r] t(2,4) d1(1,4)
    by (auto simp: jtag_api_read_idcode_def)
qed

lemma jtag_read_dtmcs_link:
  assumes l: "jd_link p r h rd Ph_Done d" and i: "jt_tap (jd_jtag d) = run_test_idle"
    and run: "dk_run c bus (dmi_idle (edges_in T (jd_ticks d) 48)) (jd_core d) = Some v"
  shows "\<exists>d'. jtag_api_read_dtmcs c bus T d = Some (Inr (0x1071, d')) \<and>
     jt_tap (jd_jtag d') = run_test_idle \<and> jd_core d' = v \<and> jd_ticks d' = jd_ticks d + 48 \<and>
     jd_link p r h rd Ph_Done d'"
proof -
  obtain u where u: "dk_run c bus (dmi_idle (edges_in T (jd_ticks d) 11)) (jd_core d) = Some u"
    "dk_run c bus (dmi_idle (edges_in T (jd_ticks d + 11) 37)) u = Some v"
    using run edges_in_add[of T "jd_ticks d" 11 37] dk_run_idle_add by auto
  obtain os d1 where d1: "jtag_api_set_ir c bus T JTAG_INSTR_DTMCS d = Some (Inr (os, d1))"
    "jtag_idle_in JTAG_INSTR_DTMCS d1" "jd_core d1 = u" "jd_ticks d1 = jd_ticks d + 11"
    "jd_link p r h rd Ph_Done d1"
    using jtag_set_ir_link[OF l i u(1)] by blast
  have s: "jt_tap (jd_jtag d1) = run_test_idle" "jt_instruction (jd_jtag d1) = JTAG_INSTR_DTMCS"
    using d1(2) by (simp_all add: jtag_idle_in_def)
  obtain os' t where t: "host_clock jt_tdo_o (jtag_step False (dmi_response rd p)) (scan_dr (0 :: xword))
      (jd_jtag d1) = (os', t)" "scanned 3 32 os' = word_bits (0x1071 :: xword)"
    "jtag_cdc_in t = jtag_cdc_in (jd_jtag d1)" "jt_tap t = run_test_idle"
    using jtag_dtmcs_scan[OF s, of False "dmi_response rd p" 0]
    by (auto simp: jtag_cdc_in_def)
  have r: "dk_run c bus (dmi_idle (edges_in T (jd_ticks d1) (LENGTH(32) + 5))) (jd_core d1) = Some v"
    using u(2) d1(3,4) by simp
  have k: "bv_slice 3 0 (0x1071 :: xword) = (1 :: 3 word)" "bv_slice 9 4 (0x1071 :: xword) = (7 :: 5 word)"
    "bv_slice 12 10 (0x1071 :: xword) = (0 :: 2 word)" "bv_slice 15 12 (0x1071 :: xword) = (1 :: 3 word)"
    by code_simp+
  show ?thesis
    using jtag_dr_link[OF d1(5) s(1) t(1,3) r] t(2,4) d1(1,4) k
    by (auto simp: jtag_api_read_dtmcs_def)
qed

text \<open>The opening of a session after reset: the port is reset, identifies itself and states its
  version; then the transport is ready.\<close>

definition jtag_api_attach ::
  "bonfire_config \<Rightarrow> dk_bus \<Rightarrow> jtag_schedule \<Rightarrow> (xword \<times> xword) jtag_call" where
  "jtag_api_attach c bus T d =
     and_then (jtag_api_reset_tap c bus T d) (\<lambda>(_, d1).
     and_then (jtag_api_read_idcode c bus T d1) (\<lambda>(v, d2).
     and_then (jtag_api_read_dtmcs c bus T d2) (\<lambda>(w, d3). Some (Inr ((v, w), d3)))))"

lemma jd_link_reset:
  assumes "jd_jtag d = jtag_init" "jd_cdc d = cdc_init"
  shows "jd_link 0 False False (\<lambda>_. 0) Ph_Done d"
proof -
  have "dmi_response (\<lambda>_. 0) 0 = 0" "dmi_accesses 0 = []" by code_simp+
  then have "cdc_in_phase False False 0 (\<lambda>_. 0) Ph_Done (jd_view d [])"
    using assms by (simp add: cdc_in_phase_def cdc_started_def jd_view_def cdc_init_def)
  then show ?thesis using assms by (auto simp: jd_link_def jtag_cdc_in_def cdc_request_def jtag_init_def)
qed

lemma jtag_attach_link:
  assumes T: "jtag_schedule_ok T" and d: "jd_jtag d = jtag_init" "jd_cdc d = cdc_init"
    and run: "dk_run c bus (dmi_idle (edges_in T (jd_ticks d) 7 + (edges_in T (jd_ticks d + 7) 48 +
      edges_in T (jd_ticks d + 55) 48))) (jd_core d) = Some v"
  shows "\<exists>d'. jtag_api_attach c bus T d = Some (Inr ((JTAG_IDCODE, 0x1071), d')) \<and>
     jtag_api_ok T d' \<and> jd_core d' = v"
proof -
  let ?xs = "replicate 6 (True, False) @ [(False, False)]"
  obtain a b where ab: "dk_run c bus (dmi_idle (edges_in T (jd_ticks d) 7)) (jd_core d) = Some a"
    "dk_run c bus (dmi_idle (edges_in T (jd_ticks d + 7) 48)) a = Some b"
    "dk_run c bus (dmi_idle (edges_in T (jd_ticks d + 55) 48)) b = Some v"
    using run unfolding dk_run_idle_add by blast
  note l = jd_link_reset[OF d]
  have x: "?xs = [(True, False), (True, False), (True, False), (True, False), (True, False),
      (True, False), (False, False)]" by (simp add: eval_nat_numeral)
  have tap0: "jt_tap (jd_jtag d) = test_logic_reset" using d by (simp add: jtag_init_def)
  have f: "jtag_follows False 0 ?xs (jd_jtag d)"
    unfolding x by (rule tap_avoids_follows) (simp add: tap0)
  have r: "link_run c bus 0 (\<lambda>_. 0) Ph_Done (edges_in T (jd_ticks d) (length ?xs)) (jd_core d) a"
    using ab(1) by (simp add: link_run_done)
  obtain os d1 where d1: "jtag_api_reset_tap c bus T d = Some (Inr (os, d1))"
    "jd_jtag d1 = jtag_end 0 ?xs (jd_jtag d)" "jd_core d1 = a" "jd_ticks d1 = jd_ticks d + 7"
    "jd_link 0 False False (\<lambda>_. 0) Ph_Done d1"
    using jtag_segment[OF l f _ r] by (auto simp: jtag_api_reset_tap_def cdc_next_done)
  have i1: "jt_tap (jd_jtag d1) = run_test_idle"
    unfolding d1(2) jtag_end_tap x by (simp add: tap0)
  have r1: "dk_run c bus (dmi_idle (edges_in T (jd_ticks d1) 48)) (jd_core d1) = Some b"
    using ab(2) d1(3,4) by simp
  obtain d2 where d2: "jtag_api_read_idcode c bus T d1 = Some (Inr (JTAG_IDCODE, d2))"
    "jt_tap (jd_jtag d2) = run_test_idle" "jd_core d2 = b" "jd_ticks d2 = jd_ticks d1 + 48"
    "jd_link 0 False False (\<lambda>_. 0) Ph_Done d2"
    using jtag_read_idcode_link[OF d1(5) i1 r1] by blast
  have k: "jd_ticks d2 = jd_ticks d + 55" using d2(4) d1(4) by simp
  have r2: "dk_run c bus (dmi_idle (edges_in T (jd_ticks d2) 48)) (jd_core d2) = Some v"
    using ab(3) d2(3) k by simp
  obtain d3 where "jtag_api_read_dtmcs c bus T d2 = Some (Inr (0x1071, d3))"
    "jt_tap (jd_jtag d3) = run_test_idle" "jd_core d3 = v" "jd_link 0 False False (\<lambda>_. 0) Ph_Done d3"
    using jtag_read_dtmcs_link[OF d2(5,2) r2] by blast
  then show ?thesis using d1(1) d2(1) T by (auto simp: jtag_api_attach_def jtag_api_ok_def)
qed

text \<open>A host that attaches to the freshly reset debug hardware of a halted core and then reads and
  writes registers.\<close>

definition jtag_session ::
  "bonfire_config \<Rightarrow> dk_bus \<Rightarrow> jtag_schedule \<Rightarrow> reg_access list \<Rightarrow> jtag_debug \<Rightarrow>
     (xword option list \<times> jtag_debug api_object) option" where
  "jtag_session c bus T as d =
     (case jtag_api_attach c bus T d of
        Some (Inr (_, d')) \<Rightarrow> session (api_access (jtag_api c bus T)) as
          \<lparr>ap_dev = d', ap_halted = True, ap_result = 0, ap_cmderr = 0\<rparr>
      | _ \<Rightarrow> None)"

text \<open>
  C9: The debugger works over the four JTAG pins. After reset, with the core halted and its
  pipeline empty, whatever the buses answer and whatever the ratio of the two clocks as long as
  every TCK period has the three core edges the host waits for: the host attaches (the identity
  and version checks pass), and every session of \<open>readGPR\<close> and \<open>writeGPR\<close> calls comes back. Every
  access goes through instruction and data scans, the TAP controller, the clock-domain crossing,
  the debug module and its command controller, and the pipeline; every polling loop ends, no
  assertion fails, every read returns the architectural register, every write is a write of it,
  and hardware and core are ready for the next call.
\<close>

theorem jtag_session_returns:
  assumes c: "debug_config_ok c" and T: "jtag_schedule_ok T"
    and d: "jd_jtag d = jtag_init" "jd_cdc d = cdc_init"
    and s: "dk_ready c (snd (jd_core d))"
  shows "\<exists>o1. jtag_session c bus T as d =
       Some (fst (spec_session register_spec as (backend_regs c (dk_backend (snd (jd_core d))))), o1) \<and>
     jtag_api_ok T (ap_dev o1) \<and> dk_ready c (snd (jd_core (ap_dev o1))) \<and>
     backend_regs c (dk_backend (snd (jd_core (ap_dev o1)))) =
       snd (spec_session register_spec as (backend_regs c (dk_backend (snd (jd_core d)))))"
proof -
  let ?n = "edges_in T (jd_ticks d) 7 + (edges_in T (jd_ticks d + 7) 48 + edges_in T (jd_ticks d + 55) 48)"
  obtain u where u: "dk_run c bus (dmi_idle ?n) (jd_core d) = Some u" "dk_ready c (snd u)"
    "dk_regs c (snd u) = dk_regs c (snd (jd_core d))"
    using jtag.idle_run[OF c s] by blast
  obtain d' where d': "jtag_api_attach c bus T d = Some (Inr ((JTAG_IDCODE, 0x1071), d'))"
    "jtag_api_ok T d'" "jd_core d' = u"
    using jtag_attach_link[OF T d u(1)] by blast
  let ?o = "\<lparr>ap_dev = d', ap_halted = True, ap_result = 0 :: xword, ap_cmderr = 0 :: 3 word\<rparr>"
  show ?thesis
    using jtag.api.session_refines[of c T ?o "as" bus] c u(2,3) d'
    by (auto simp: jtag_session_def list_all_iff)
qed

lemma jtag_session_returns_witness:
  "map_option fst (jtag_session debug_config
       (\<lambda>t. (\<lparr>db_stall_i = False, db_ack_i = False, db_error_i = False, db_rd = 0\<rparr>,
             \<lparr>db_stall_i = False, db_ack_i = False, db_error_i = False, db_rd = 0\<rparr>))
       \<lparr>js_core_edges = \<lambda>k. 7 + k mod 2, js_idle_periods = \<lambda>k. k mod 2\<rparr>
       [Reg_Write 10 0xcafe, Reg_Read 10, Reg_Write 0 1, Reg_Read 0]
       \<lparr>jd_jtag = jtag_init, jd_cdc = cdc_init, jd_core = (0, halted_core), jd_ticks = 0\<rparr>) =
   Some [None, Some 0xcafe, None, Some 0]"
proof -
  let ?bus = "\<lambda>t :: nat. (\<lparr>db_stall_i = False, db_ack_i = False, db_error_i = False, db_rd = 0 :: xword\<rparr>,
             \<lparr>db_stall_i = False, db_ack_i = False, db_error_i = False, db_rd = 0 :: xword\<rparr>)"
  let ?T = "\<lparr>js_core_edges = \<lambda>k. 7 + k mod 2, js_idle_periods = \<lambda>k. k mod 2\<rparr>"
  let ?d = "\<lparr>jd_jtag = jtag_init, jd_cdc = cdc_init, jd_core = (0, halted_core), jd_ticks = 0\<rparr>"
  let ?as = "[Reg_Write 10 0xcafe, Reg_Read 10, Reg_Write 0 1, Reg_Read 0]"
  have "fst (spec_session register_spec ?as (backend_regs debug_config (dk_backend halted_core))) =
      [None, Some 0xcafe, None, Some 0]"
    by (simp add: write_reg_Some Let_def)
  then show ?thesis
    using jtag_session_returns[OF debug_config_example, of ?T ?d ?bus ?as] halted_core_ready
    by (auto simp: jtag_schedule_ok_def)
qed

end
