(* ===== verification/Interconnect.thy ===== *)
theory Interconnect
  imports Bus
begin

text \<open>
  The data bus interconnect (\<open>rtl/uncore/dbus_interconnect.py\<close>): the address masks with the
  elaboration-time checks of the address map, and the one-master multiplexer with its combinational
  and its registered slots. The checks are proved against address matching, the multiplexer
  against a direct connection of the master to the slave its address selects.
\<close>

unbundle bit_operations_syntax

subsection \<open>Address masks\<close>

text \<open>The numbers are Python integers; \<open>xlen\<close> is the width of the address bus.\<close>

record adr_mask =
  am_upper :: nat
  am_lower :: nat
  am_value :: int

definition base_address :: "adr_mask \<Rightarrow> int" where
  "base_address m = push_bit (am_lower m) (am_value m)"

definition address_mask :: "nat \<Rightarrow> adr_mask \<Rightarrow> int" where
  "address_mask xlen m = push_bit (am_lower m) (mask (am_upper m - am_lower m)) AND mask xlen"

definition mapped_range :: "nat \<Rightarrow> adr_mask \<Rightarrow> int \<times> int" where
  "mapped_range xlen m =
     (base_address m, base_address m OR (mask xlen XOR address_mask xlen m))"

definition validate_adrmask :: "nat \<Rightarrow> adr_mask \<Rightarrow> bool" where
  "validate_adrmask xlen m \<longleftrightarrow> am_lower m < am_upper m \<and> am_upper m \<le> xlen \<and>
     0 \<le> am_value m \<and> am_value m < 2 ^ (am_upper m - am_lower m)"

definition adrmasks_overlap :: "nat \<Rightarrow> adr_mask \<Rightarrow> adr_mask \<Rightarrow> bool" where
  "adrmasks_overlap xlen a b =
     (let common_lower = min (am_lower a) (am_lower b);
          common_upper = max (am_upper a) (am_upper b);
          width = common_upper - common_lower;
          a_value = drop_bit common_lower (base_address a) AND mask width;
          b_value = drop_bit common_lower (base_address b) AND mask width;
          a_mask = drop_bit common_lower (address_mask xlen a);
          b_mask = drop_bit common_lower (address_mask xlen b)
      in a_value AND b_mask = b_value AND a_mask)"

text \<open>\<open>_validate_and_log_mapping\<close>: whether the assertions hold. A slot is present or not, with or
  without a mask, registered or not.\<close>

record ic_slot =
  sl_slave :: bool
  sl_mask :: "adr_mask option"
  sl_registered :: bool

definition slot_ok :: "nat \<Rightarrow> ic_slot \<Rightarrow> bool" where
  "slot_ok xlen s =
     (if sl_slave s then (case sl_mask s of None \<Rightarrow> False | Some m \<Rightarrow> validate_adrmask xlen m)
      else sl_mask s = None \<and> \<not> sl_registered s)"

definition active_slots :: "ic_slot list \<Rightarrow> (adr_mask \<times> bool) list" where
  "active_slots slots = map (\<lambda>s. (the (sl_mask s), sl_registered s)) (filter sl_slave slots)"

fun pairwise_disjoint :: "nat \<Rightarrow> adr_mask list \<Rightarrow> bool" where
  "pairwise_disjoint xlen [] = True"
| "pairwise_disjoint xlen (a # as) =
     (list_all (\<lambda>b. \<not> adrmasks_overlap xlen a b) as \<and> pairwise_disjoint xlen as)"

definition validate_mapping :: "nat \<Rightarrow> ic_slot list \<Rightarrow> bool" where
  "validate_mapping xlen slots \<longleftrightarrow> list_all (slot_ok xlen) slots \<and>
     pairwise_disjoint xlen (map fst (active_slots slots))"

text \<open>The hardware's comparison: \<open>adr[upper:lower] == mask\<close>.\<close>

definition am_matches :: "adr_mask \<Rightarrow> xword \<Rightarrow> bool" where
  "am_matches m adr \<longleftrightarrow>
     uint (take_bit (am_upper m - am_lower m) (drop_bit (am_lower m) adr)) = am_value m"

lemma bit_int_small: "0 \<le> v \<Longrightarrow> v < 2 ^ w \<Longrightarrow> bit (v :: int) n \<Longrightarrow> n < w"
  by (metis bit_take_bit_iff take_bit_int_eq_self)

lemma bit_base_address:
  assumes "validate_adrmask xlen m"
  shows "bit (base_address m) n \<longleftrightarrow> am_lower m \<le> n \<and> n < am_upper m \<and> bit (am_value m) (n - am_lower m)"
  using assms bit_int_small[of "am_value m" "am_upper m - am_lower m" "n - am_lower m"]
  by (auto simp: base_address_def validate_adrmask_def bit_simps)

lemma bit_address_mask:
  assumes "validate_adrmask xlen m"
  shows "bit (address_mask xlen m) n \<longleftrightarrow> am_lower m \<le> n \<and> n < am_upper m"
  using assms by (auto simp: address_mask_def validate_adrmask_def bit_simps)

lemma am_matches_bits:
  assumes "validate_adrmask 32 m"
  shows "am_matches m adr \<longleftrightarrow>
    (\<forall>n. am_lower m \<le> n \<longrightarrow> n < am_upper m \<longrightarrow> (bit adr n \<longleftrightarrow> bit (base_address m) n))"
proof -
  have "am_matches m adr \<longleftrightarrow> (\<forall>k. bit (uint (take_bit (am_upper m - am_lower m) (drop_bit (am_lower m) adr))) k
      \<longleftrightarrow> bit (am_value m) k)"
    unfolding am_matches_def bit_eq_iff by simp
  also have "\<dots> \<longleftrightarrow> (\<forall>k < am_upper m - am_lower m. bit adr (am_lower m + k) \<longleftrightarrow> bit (am_value m) k)"
    using assms bit_int_small[of "am_value m" "am_upper m - am_lower m"]
    by (auto simp: validate_adrmask_def bit_simps bit_uint_iff dest: bit_imp_le_length)
  also have "\<dots> \<longleftrightarrow>
      (\<forall>n. am_lower m \<le> n \<longrightarrow> n < am_upper m \<longrightarrow> (bit adr n \<longleftrightarrow> bit (base_address m) n))"
    (is "?L \<longleftrightarrow> ?R")
  proof
    assume l: ?L
    show ?R
    proof (intro allI impI)
      fix n assume n: "am_lower m \<le> n" "n < am_upper m"
      then have "n - am_lower m < am_upper m - am_lower m" "am_lower m + (n - am_lower m) = n" by simp_all
      with l n show "bit adr n \<longleftrightarrow> bit (base_address m) n"
        using bit_base_address[OF assms, of n] by metis
    qed
  next
    assume r: ?R
    show ?L
    proof (intro allI impI)
      fix k assume k: "k < am_upper m - am_lower m"
      then have "am_lower m + k < am_upper m" by simp
      with r show "bit adr (am_lower m + k) \<longleftrightarrow> bit (am_value m) k"
        using bit_base_address[OF assms, of "am_lower m + k"] by simp
    qed
  qed
  finally show ?thesis .
qed

lemma adrmasks_overlap_bits:
  assumes a: "validate_adrmask xlen a" and b: "validate_adrmask xlen b"
  shows "adrmasks_overlap xlen a b \<longleftrightarrow>
    (\<forall>n. am_lower a \<le> n \<and> n < am_upper a \<and> am_lower b \<le> n \<and> n < am_upper b \<longrightarrow>
       (bit (base_address a) n \<longleftrightarrow> bit (base_address b) n))"
proof -
  let ?l = "min (am_lower a) (am_lower b)" and ?u = "max (am_upper a) (am_upper b)"
  have "adrmasks_overlap xlen a b \<longleftrightarrow> (\<forall>k.
      (bit (base_address a) (?l + k) \<and> k < ?u - ?l \<and> bit (address_mask xlen b) (?l + k)) =
      (bit (base_address b) (?l + k) \<and> k < ?u - ?l \<and> bit (address_mask xlen a) (?l + k)))"
    unfolding adrmasks_overlap_def Let_def bit_eq_iff by (auto simp: bit_simps)
  also have "\<dots> \<longleftrightarrow> (\<forall>n. am_lower a \<le> n \<and> n < am_upper a \<and> am_lower b \<le> n \<and> n < am_upper b \<longrightarrow>
       (bit (base_address a) n \<longleftrightarrow> bit (base_address b) n))" (is "?L \<longleftrightarrow> ?R")
  proof
    assume l: ?L
    show ?R
    proof (intro allI impI)
      fix n assume n: "am_lower a \<le> n \<and> n < am_upper a \<and> am_lower b \<le> n \<and> n < am_upper b"
      then have "?l + (n - ?l) = n" "n - ?l < ?u - ?l" by (auto simp: less_max_iff_disj)
      with l[rule_format, of "n - ?l"] n show "bit (base_address a) n \<longleftrightarrow> bit (base_address b) n"
        by (simp add: bit_address_mask[OF a] bit_address_mask[OF b])
    qed
  next
    assume ?R
    then show ?L
      by (auto simp: bit_base_address[OF a] bit_base_address[OF b] bit_address_mask[OF a]
          bit_address_mask[OF b])
  qed
  finally show ?thesis .
qed

lemma adrmasks_overlap_lemma:
  assumes a: "validate_adrmask 32 a" and b: "validate_adrmask 32 b"
  shows "adrmasks_overlap 32 a b \<longleftrightarrow> (\<exists>adr. am_matches a adr \<and> am_matches b adr)"
proof
  assume o: "adrmasks_overlap 32 a b"
  let ?adr = "word_of_int (base_address a OR base_address b) :: xword"
  have bits: "bit ?adr n \<longleftrightarrow> n < 32 \<and> (bit (base_address a) n \<or> bit (base_address b) n)" for n
    by (simp add: bit_simps)
  have "am_matches a ?adr \<and> am_matches b ?adr"
    using o[unfolded adrmasks_overlap_bits[OF a b]] a b
    unfolding am_matches_bits[OF a] am_matches_bits[OF b] bits
    by (auto simp: bit_base_address[OF a] bit_base_address[OF b] validate_adrmask_def)
  then show "\<exists>adr. am_matches a adr \<and> am_matches b adr" by blast
next
  assume "\<exists>adr. am_matches a adr \<and> am_matches b adr"
  then show "adrmasks_overlap 32 a b"
    unfolding adrmasks_overlap_bits[OF a b] am_matches_bits[OF a] am_matches_bits[OF b] by blast
qed

text \<open>
  The elaboration-time overlap check of the address map is exact. For two masks within the
  32-bit address space, \<open>_adrmasks_overlap\<close> says that they overlap if and only if there is an
  address that the hardware would decode for both; so a map that passes the check never selects
  two slaves, and no map without a conflict is refused.
\<close>

theorem adrmasks_overlap_iff:
  assumes "validate_adrmask 32 a" "validate_adrmask 32 b"
  shows "adrmasks_overlap 32 a b \<longleftrightarrow> (\<exists>adr. am_matches a adr \<and> am_matches b adr)"
  using assms by (rule adrmasks_overlap_lemma)

theorem adrmasks_overlap_iff_witness:
  "\<exists>adr. am_matches \<lparr>am_upper = 32, am_lower = 28, am_value = 0x8\<rparr> adr \<and>
     am_matches \<lparr>am_upper = 32, am_lower = 16, am_value = 0x8001\<rparr> adr"
proof -
  let ?a = "\<lparr>am_upper = 32, am_lower = 28, am_value = 0x8\<rparr>"
  let ?b = "\<lparr>am_upper = 32, am_lower = 16, am_value = 0x8001\<rparr>"
  have "validate_adrmask 32 ?a" "validate_adrmask 32 ?b" "adrmasks_overlap 32 ?a ?b"
    by code_simp+
  then show ?thesis using adrmasks_overlap_iff[of ?a ?b] by blast
qed

subsection \<open>The multiplexer\<close>

text \<open>
  One entry of the configuration per present slave: its mask and whether it is registered. The
  bit vectors indexed by the slave number are lists of booleans. A registered slot has its own
  request and response registers; the registers of a combinational slot do not exist and keep
  their initial values here.
\<close>

type_synonym ic_config = "(adr_mask \<times> bool) list"

datatype rs_phase = Rs_Idle | Rs_Request | Rs_Wait_Response | Rs_Response

record slot_regs =
  rs_state :: rs_phase
  rs_adr_r :: xword
  rs_db_wr_r :: xword
  rs_we_r :: "4 word"
  rs_ack_r :: bool
  rs_error_r :: bool
  rs_db_rd_r :: xword

definition slot_reset :: slot_regs where
  "slot_reset = \<lparr>rs_state = Rs_Idle, rs_adr_r = 0, rs_db_wr_r = 0, rs_we_r = 0,
     rs_ack_r = False, rs_error_r = False, rs_db_rd_r = 0\<rparr>"

record ic_state =
  ic_busy :: bool
  ic_s_en_r :: "bool list"
  ic_slots :: "slot_regs list"

definition ic_reset :: "ic_config \<Rightarrow> ic_state" where
  "ic_reset cfg = \<lparr>ic_busy = False, ic_s_en_r = replicate (length cfg) False,
     ic_slots = replicate (length cfg) slot_reset\<rparr>"

definition ic_s_en :: "ic_config \<Rightarrow> dbus_req \<Rightarrow> bool list" where
  "ic_s_en cfg m = map (\<lambda>(a, _). am_matches a (db_adr_o m) \<and> db_en_o m) cfg"

definition ic_mux_sel :: "ic_config \<Rightarrow> ic_state \<Rightarrow> dbus_req \<Rightarrow> bool list" where
  "ic_mux_sel cfg st m = (if ic_busy st then ic_s_en_r st else ic_s_en cfg m)"

definition ic_selection_stall :: "ic_config \<Rightarrow> ic_state \<Rightarrow> dbus_req \<Rightarrow> bool" where
  "ic_selection_stall cfg st m \<longleftrightarrow>
     ic_busy st \<and> db_en_o m \<and> ic_s_en cfg m \<noteq> ic_s_en_r st"

text \<open>The request at slave port \<open>i\<close>.\<close>

definition ic_slave_req :: "ic_config \<Rightarrow> ic_state \<Rightarrow> dbus_req \<Rightarrow> nat \<Rightarrow> dbus_req" where
  "ic_slave_req cfg st m i =
     (if snd (cfg ! i) then
        (let r = ic_slots st ! i in
         \<lparr>db_en_o = (rs_state r = Rs_Request), db_adr_o = rs_adr_r r, db_we_o = rs_we_r r,
           db_wr = rs_db_wr_r r\<rparr>)
      else \<lparr>db_en_o = (ic_s_en cfg m ! i \<and> \<not> ic_selection_stall cfg st m),
             db_adr_o = db_adr_o m, db_we_o = db_we_o m, db_wr = db_wr m\<rparr>)"

text \<open>The response of slot \<open>i\<close> at the multiplexer, \<open>r\<close> being the slave's own.\<close>

definition ic_slot_rsp :: "ic_config \<Rightarrow> ic_state \<Rightarrow> nat \<Rightarrow> dbus_rsp \<Rightarrow> dbus_rsp" where
  "ic_slot_rsp cfg st i r =
     (if snd (cfg ! i) then
        (let s = ic_slots st ! i in
         \<lparr>db_stall_i = (rs_state s \<noteq> Rs_Idle),
           db_ack_i = (rs_state s = Rs_Response \<and> rs_ack_r s),
           db_error_i = (rs_state s = Rs_Response \<and> rs_error_r s),
           db_rd = rs_db_rd_r s\<rparr>)
      else r)"

text \<open>\<open>master_inputs\<close>: the loop over the slots; a later selected slot overwrites the ack, the
  error and the data of an earlier one, the stalls accumulate.\<close>

fun ic_collect :: "bool list \<Rightarrow> dbus_rsp list \<Rightarrow> bool \<times> dbus_rsp \<Rightarrow> bool \<times> dbus_rsp" where
  "ic_collect (s # ss) (r # rs) (selected, acc) =
     ic_collect ss rs
       (if s then (True, \<lparr>db_stall_i = (db_stall_i acc \<or> db_stall_i r), db_ack_i = db_ack_i r,
                          db_error_i = db_error_i r, db_rd = db_rd r\<rparr>)
        else (selected, acc))"
| "ic_collect _ _ acc = acc"

definition ic_master_rsp :: "ic_config \<Rightarrow> ic_state \<Rightarrow> dbus_req \<Rightarrow> dbus_rsp list \<Rightarrow> dbus_rsp" where
  "ic_master_rsp cfg st m rs =
     (let (selected, r) = ic_collect (ic_mux_sel cfg st m)
            (map (\<lambda>i. ic_slot_rsp cfg st i (rs ! i)) [0..<length cfg])
            (False, \<lparr>db_stall_i = ic_selection_stall cfg st m, db_ack_i = False,
                     db_error_i = False, db_rd = 0\<rparr>)
      in if selected then r else r\<lparr>db_error_i := db_en_o m\<rparr>)"

text \<open>\<open>registered_seq\<close> of slot \<open>i\<close>; \<open>capture\<close> is the condition under which it captures a request.\<close>

definition slot_next :: "bool \<Rightarrow> dbus_req \<Rightarrow> dbus_rsp \<Rightarrow> slot_regs \<Rightarrow> slot_regs" where
  "slot_next capture m r s =
     (case rs_state s of
        Rs_Idle \<Rightarrow>
          (let s = s\<lparr>rs_ack_r := False, rs_error_r := False\<rparr>
           in if capture then s\<lparr>rs_adr_r := db_adr_o m, rs_db_wr_r := db_wr m, rs_we_r := db_we_o m,
                            rs_state := Rs_Request\<rparr>
              else s)
      | Rs_Request \<Rightarrow>
          (if db_ack_i r \<or> db_error_i r then
             s\<lparr>rs_ack_r := db_ack_i r, rs_error_r := db_error_i r, rs_db_rd_r := db_rd r,
               rs_state := Rs_Response\<rparr>
           else if \<not> db_stall_i r then s\<lparr>rs_state := Rs_Wait_Response\<rparr>
           else s)
      | Rs_Wait_Response \<Rightarrow>
          (if db_ack_i r \<or> db_error_i r then
             s\<lparr>rs_ack_r := db_ack_i r, rs_error_r := db_error_i r, rs_db_rd_r := db_rd r,
               rs_state := Rs_Response\<rparr>
           else s)
      | Rs_Response \<Rightarrow> s\<lparr>rs_state := Rs_Idle\<rparr>)"

definition ic_next :: "ic_config \<Rightarrow> bool \<Rightarrow> dbus_req \<Rightarrow> dbus_rsp list \<Rightarrow> ic_state \<Rightarrow> ic_state" where
  "ic_next cfg reset m rs st =
     (if reset then ic_reset cfg
      else
        (let ack = db_ack_i (ic_master_rsp cfg st m rs); sen = ic_s_en cfg m in
         \<lparr>ic_busy = (if ic_busy st then \<not> ack else list_ex id sen \<and> \<not> ack),
           ic_s_en_r = (if ic_busy st then ic_s_en_r st else sen),
           ic_slots = map (\<lambda>i. if snd (cfg ! i)
              then slot_next (sen ! i \<and> \<not> ic_selection_stall cfg st m) m (rs ! i) (ic_slots st ! i)
              else ic_slots st ! i) [0..<length cfg]\<rparr>))"

text \<open>One cycle: what the master and the slaves see (of a port that is not enabled, nothing),
  and a trace of cycles.\<close>

definition port_view :: "dbus_req \<Rightarrow> dbus_req option" where
  "port_view r = (if db_en_o r then Some r else None)"

definition ic_ports :: "ic_config \<Rightarrow> ic_state \<Rightarrow> dbus_req \<Rightarrow> dbus_req option list" where
  "ic_ports cfg st m = map (\<lambda>i. port_view (ic_slave_req cfg st m i)) [0..<length cfg]"

type_synonym ic_input = "dbus_req \<times> dbus_rsp list"
type_synonym ic_output = "dbus_rsp \<times> dbus_req option list"

fun ic_trace :: "ic_config \<Rightarrow> ic_input list \<Rightarrow> ic_state \<Rightarrow> ic_output list \<times> ic_state" where
  "ic_trace cfg [] st = ([], st)"
| "ic_trace cfg ((m, rs) # cs) st =
     (let (os, st') = ic_trace cfg cs (ic_next cfg False m rs st)
      in ((ic_master_rsp cfg st m rs, ic_ports cfg st m) # os, st'))"

subsection \<open>Decoding\<close>

definition one_hot :: "nat \<Rightarrow> nat \<Rightarrow> bool list" where
  "one_hot n i = map (\<lambda>j. j = i) [0..<n]"

definition at_port :: "nat \<Rightarrow> nat \<Rightarrow> dbus_req option \<Rightarrow> dbus_req option list" where
  "at_port n i x = map (\<lambda>j. if j = i then x else None) [0..<n]"

lemma one_hot_simps [simp]:
  "length (one_hot n i) = n" "j < n \<Longrightarrow> one_hot n i ! j \<longleftrightarrow> j = i"
  by (simp_all add: one_hot_def)

lemma at_port_simps [simp]:
  "length (at_port n i x) = n" "j < n \<Longrightarrow> at_port n i x ! j = (if j = i then x else None)"
  by (simp_all add: at_port_def)

lemma ic_s_en_simps [simp]:
  "length (ic_s_en cfg m) = length cfg"
  "j < length cfg \<Longrightarrow> ic_s_en cfg m ! j \<longleftrightarrow> am_matches (fst (cfg ! j)) (db_adr_o m) \<and> db_en_o m"
  by (simp_all add: ic_s_en_def split_beta)

text \<open>A configuration whose address map passed the elaboration-time checks: the master's address
  selects at most one slot.\<close>

definition ic_config_ok :: "ic_config \<Rightarrow> bool" where
  "ic_config_ok cfg \<longleftrightarrow> (\<forall>i j adr. i < length cfg \<longrightarrow> j < length cfg \<longrightarrow>
     am_matches (fst (cfg ! i)) adr \<longrightarrow> am_matches (fst (cfg ! j)) adr \<longrightarrow> i = j)"

lemma pairwise_disjoint_nth:
  "pairwise_disjoint xlen as \<Longrightarrow> i < j \<Longrightarrow> j < length as \<Longrightarrow> \<not> adrmasks_overlap xlen (as ! i) (as ! j)"
proof (induction "as" arbitrary: i j)
  case (Cons a "as")
  then show ?case by (cases i; cases j) (auto simp: list_all_length)
qed simp

lemma validate_active_slots:
  "list_all (slot_ok xlen) slots \<Longrightarrow> list_all (\<lambda>c. validate_adrmask xlen (fst c)) (active_slots slots)"
  by (induction slots) (auto simp: active_slots_def slot_ok_def split: option.splits)

lemma validate_mapping_lemma:
  assumes "validate_mapping 32 slots"
  shows "ic_config_ok (active_slots slots)"
proof -
  let ?cfg = "active_slots slots"
  have v: "validate_adrmask 32 (fst (?cfg ! k))" if "k < length ?cfg" for k
    using assms validate_active_slots[of 32 slots] that
    by (auto simp: validate_mapping_def list_all_length)
  have lt: False if "i < j" "j < length ?cfg" "am_matches (fst (?cfg ! i)) adr"
    "am_matches (fst (?cfg ! j)) adr" for i j adr
    using pairwise_disjoint_nth[of 32 "map fst ?cfg" i j] assms that v[of i] v[of j]
      adrmasks_overlap_lemma[of "fst (?cfg ! i)" "fst (?cfg ! j)"]
    by (auto simp: validate_mapping_def)
  show ?thesis
    unfolding ic_config_ok_def by (metis lt linorder_neqE_nat)
qed

lemma ic_s_en_selected:
  assumes "ic_config_ok cfg" "i < length cfg" "am_matches (fst (cfg ! i)) (db_adr_o m)" "db_en_o m"
  shows "ic_s_en cfg m = one_hot (length cfg) i"
  using assms by (intro nth_equalityI) (auto simp: ic_config_ok_def)

lemma ic_s_en_none:
  assumes "\<And>i. i < length cfg \<Longrightarrow> db_en_o m \<Longrightarrow> \<not> am_matches (fst (cfg ! i)) (db_adr_o m)"
  shows "ic_s_en cfg m = replicate (length cfg) False"
  using assms by (intro nth_equalityI) auto

lemma ic_s_en_cases:
  assumes "ic_config_ok cfg"
  obtains (none) "ic_s_en cfg m = replicate (length cfg) False"
  | (one) i where "i < length cfg" "db_en_o m" "am_matches (fst (cfg ! i)) (db_adr_o m)"
      "ic_s_en cfg m = one_hot (length cfg) i"
  using ic_s_en_none[of cfg m] ic_s_en_selected[OF assms, of _ m] by blast

lemma one_hot_not_none [simp]: "i < n \<Longrightarrow> one_hot n i \<noteq> replicate n False"
  by (metis nth_replicate one_hot_simps(2))

lemma one_hot_inj: "i < n \<Longrightarrow> one_hot n i = one_hot n j \<longleftrightarrow> i = j"
  by (metis one_hot_simps(2))

lemma list_ex_one_hot [simp]: "i < n \<Longrightarrow> list_ex id (one_hot n i)"
  by (auto simp: list_ex_iff one_hot_def)

lemma list_ex_none [simp]: "\<not> list_ex id (replicate n False)"
  by (auto simp: list_ex_iff)

lemma ic_collect_none:
  "ic_collect (replicate n False) rs acc = acc"
  by (induction n arbitrary: rs) (case_tac rs; case_tac acc; simp)+

lemma one_hot_0: "one_hot (Suc n) 0 = True # replicate n False"
  by (rule nth_equalityI) (auto simp: nth_Cons')

lemma one_hot_Suc: "one_hot (Suc n) (Suc i) = False # one_hot n i"
  by (rule nth_equalityI) (auto simp: nth_Cons' gr0_conv_Suc)

lemma ic_collect_one:
  "i < n \<Longrightarrow> length rs = n \<Longrightarrow> ic_collect (one_hot n i) rs (sel, acc) =
     (True, (rs ! i)\<lparr>db_stall_i := db_stall_i acc \<or> db_stall_i (rs ! i)\<rparr>)"
proof (induction n arbitrary: i rs)
  case (Suc n)
  then show ?case
    by (cases rs; cases i) (simp_all add: one_hot_0 one_hot_Suc ic_collect_none)
qed simp

subsection \<open>The state invariant\<close>

text \<open>A busy interconnect remembers exactly one slot, and a registered slot works only while the
  interconnect is busy for it.\<close>

definition ic_inv :: "ic_config \<Rightarrow> ic_state \<Rightarrow> bool" where
  "ic_inv cfg st \<longleftrightarrow> length (ic_slots st) = length cfg \<and>
     (ic_busy st \<longrightarrow> (\<exists>i < length cfg. ic_s_en_r st = one_hot (length cfg) i)) \<and>
     (\<forall>j < length cfg. snd (cfg ! j) \<longrightarrow> rs_state (ic_slots st ! j) \<noteq> Rs_Idle \<longrightarrow>
        ic_busy st \<and> ic_s_en_r st = one_hot (length cfg) j)"

lemma ic_inv_reset: "ic_inv cfg (ic_reset cfg)"
  by (simp add: ic_inv_def ic_reset_def slot_reset_def)

text \<open>What the multiplexer passes on when one slot, or none, is selected.\<close>

lemma ic_master_rsp_one:
  assumes "ic_mux_sel cfg st m = one_hot (length cfg) i" "i < length cfg"
  shows "ic_master_rsp cfg st m rs = (ic_slot_rsp cfg st i (rs ! i))
    \<lparr>db_stall_i := ic_selection_stall cfg st m \<or> db_stall_i (ic_slot_rsp cfg st i (rs ! i))\<rparr>"
  using assms by (simp add: ic_master_rsp_def ic_collect_one)

lemma ic_master_rsp_none:
  assumes "ic_mux_sel cfg st m = replicate (length cfg) False"
  shows "ic_master_rsp cfg st m rs = \<lparr>db_stall_i = ic_selection_stall cfg st m, db_ack_i = False,
    db_error_i = db_en_o m, db_rd = 0\<rparr>"
  using assms by (simp add: ic_master_rsp_def ic_collect_none)

lemma slot_next_idle:
  assumes "rs_state (slot_next c m r s) \<noteq> Rs_Idle"
  shows "c \<or> rs_state s \<noteq> Rs_Idle"
  using assms by (auto simp: slot_next_def Let_def)

lemma slot_next_response:
  "rs_state s = Rs_Response \<Longrightarrow> rs_state (slot_next c m r s) = Rs_Idle"
  by (simp add: slot_next_def)

lemma ic_inv_next:
  assumes ok: "ic_config_ok cfg" and inv: "ic_inv cfg st"
  shows "ic_inv cfg (ic_next cfg reset m rs st)"
proof (cases reset)
  case False
  let ?n = "length cfg" and ?sen = "ic_s_en cfg m" and ?st' = "ic_next cfg reset m rs st"
  let ?ack = "db_ack_i (ic_master_rsp cfg st m rs)"
  have st': "ic_busy ?st' = (if ic_busy st then \<not> ?ack else list_ex id ?sen \<and> \<not> ?ack)"
    "ic_s_en_r ?st' = (if ic_busy st then ic_s_en_r st else ?sen)"
    "length (ic_slots ?st') = ?n"
    using False by (simp_all add: ic_next_def Let_def)
  have slot: "ic_slots ?st' ! j =
      slot_next (?sen ! j \<and> \<not> ic_selection_stall cfg st m) m (rs ! j) (ic_slots st ! j)"
    if "j < ?n" "snd (cfg ! j)" for j
    using False that by (simp add: ic_next_def Let_def)
  have sel: "ic_busy ?st' \<Longrightarrow> \<exists>i < ?n. ic_s_en_r ?st' = one_hot ?n i"
    using inv by (cases rule: ic_s_en_cases[OF ok, of m]) (auto simp: st' ic_inv_def split: if_splits)
  have work: "ic_busy ?st' \<and> ic_s_en_r ?st' = one_hot ?n j"
    if j: "j < ?n" "snd (cfg ! j)" and w: "rs_state (ic_slots ?st' ! j) \<noteq> Rs_Idle" for j
  proof -
    have nr: "rs_state (ic_slots st ! j) \<noteq> Rs_Response"
      using w slot[OF j] slot_next_response by auto
    have own: "ic_mux_sel cfg st m = one_hot ?n j \<and> (ic_busy st \<longrightarrow> ic_s_en_r st = one_hot ?n j)"
    proof (cases "rs_state (ic_slots st ! j) = Rs_Idle")
      case True
      then have c: "?sen ! j" "\<not> ic_selection_stall cfg st m"
        using w slot[OF j] slot_next_idle by auto
      moreover have "db_en_o m" using c j by simp
      ultimately have "?sen = one_hot ?n j"
        using j ic_s_en_selected[OF ok j(1), of m] by simp
      with c j \<open>db_en_o m\<close> show ?thesis by (auto simp: ic_mux_sel_def ic_selection_stall_def)
    next
      case False
      with inv j show ?thesis by (simp add: ic_inv_def ic_mux_sel_def)
    qed
    then have "\<not> ?ack" using j nr by (simp add: ic_master_rsp_one ic_slot_rsp_def Let_def)
    with own j show ?thesis by (auto simp: st' ic_mux_sel_def split: if_splits)
  qed
  show ?thesis unfolding ic_inv_def using st'(3) sel work by blast
qed (simp add: ic_next_def ic_inv_reset)

lemma ic_inv_trace:
  "ic_config_ok cfg \<Longrightarrow> ic_inv cfg st \<Longrightarrow> ic_inv cfg (snd (ic_trace cfg cs st))"
  by (induction cs arbitrary: st) (auto simp: split_beta ic_inv_next)

text \<open>An enabled port is the selected one.\<close>

lemma ic_slave_enabled:
  assumes ok: "ic_config_ok cfg" and inv: "ic_inv cfg st" and j: "j < length cfg"
    and en: "db_en_o (ic_slave_req cfg st m j)"
  shows "ic_mux_sel cfg st m = one_hot (length cfg) j"
proof (cases "snd (cfg ! j)")
  case True
  with en inv j show ?thesis by (auto simp: ic_slave_req_def Let_def ic_inv_def ic_mux_sel_def)
next
  case False
  with en j have c: "ic_s_en cfg m ! j" "\<not> ic_selection_stall cfg st m" "db_en_o m"
    by (simp_all add: ic_slave_req_def)
  then have "ic_s_en cfg m = one_hot (length cfg) j"
    using j ic_s_en_selected[OF ok j] by simp
  with c j show ?thesis by (auto simp: ic_mux_sel_def ic_selection_stall_def)
qed

text \<open>
  C31: The interconnect addresses at most one slave. Whatever the master does and the slaves
  answer, from reset, over any number of cycles, a configuration whose address map passed the
  checks of \<open>_validate_and_log_mapping\<close> enables at most one slave port in a cycle, combinational
  or registered, and that port is the slot whose response the master sees.
\<close>

theorem ic_exclusive:
  assumes "validate_mapping 32 slots" "cfg = active_slots slots"
    and "st = snd (ic_trace cfg cs (ic_reset cfg))"
    and "i < length cfg" "j < length cfg"
    and "db_en_o (ic_slave_req cfg st m i)" "db_en_o (ic_slave_req cfg st m j)"
  shows "i = j \<and> (\<exists>stall. ic_master_rsp cfg st m rs =
    (ic_slot_rsp cfg st i (rs ! i))\<lparr>db_stall_i := stall\<rparr>)"
proof -
  have ok: "ic_config_ok cfg" using assms(1,2) validate_mapping_lemma by simp
  have inv: "ic_inv cfg st" unfolding assms(3) by (rule ic_inv_trace[OF ok ic_inv_reset])
  have "ic_mux_sel cfg st m = one_hot (length cfg) i" "ic_mux_sel cfg st m = one_hot (length cfg) j"
    using ic_slave_enabled[OF ok inv] assms(4-7) by blast+
  then show ?thesis
    using assms(4) one_hot_inj ic_master_rsp_one by metis
qed

subsection \<open>Transactions\<close>

lemma ic_ports_selected:
  assumes ok: "ic_config_ok cfg" and inv: "ic_inv cfg st" and i: "i < length cfg"
    and sel: "ic_mux_sel cfg st m = one_hot (length cfg) i"
  shows "ic_ports cfg st m = at_port (length cfg) i (port_view (ic_slave_req cfg st m i))"
proof (rule nth_equalityI)
  fix j assume "j < length (ic_ports cfg st m)"
  then have j: "j < length cfg" by (simp add: ic_ports_def)
  show "ic_ports cfg st m ! j = at_port (length cfg) i (port_view (ic_slave_req cfg st m i)) ! j"
  proof (cases "j = i")
    case False
    then have "\<not> db_en_o (ic_slave_req cfg st m j)"
      using ic_slave_enabled[OF ok inv j] sel one_hot_inj[OF i] by metis
    with False j show ?thesis by (simp add: ic_ports_def port_view_def)
  qed (use j in \<open>simp add: ic_ports_def\<close>)
qed (simp add: ic_ports_def)

text \<open>The interconnect is in a transaction with slot \<open>i\<close>.\<close>

definition ic_owned :: "ic_config \<Rightarrow> nat \<Rightarrow> ic_state \<Rightarrow> bool" where
  "ic_owned cfg i st \<longleftrightarrow> ic_inv cfg st \<and> ic_busy st \<and> ic_s_en_r st = one_hot (length cfg) i"

lemma ic_owned_sel: "ic_owned cfg i st \<Longrightarrow> ic_mux_sel cfg st m = one_hot (length cfg) i"
  by (simp add: ic_owned_def ic_mux_sel_def)

lemma ic_owned_stall:
  assumes ok: "ic_config_ok cfg" and o: "ic_owned cfg i st" and i: "i < length cfg"
  shows "ic_selection_stall cfg st m \<longleftrightarrow>
    db_en_o m \<and> \<not> am_matches (fst (cfg ! i)) (db_adr_o m)"
proof (cases "am_matches (fst (cfg ! i)) (db_adr_o m)")
  case True
  with o i show ?thesis
    using ic_s_en_selected[OF ok i True] by (auto simp: ic_owned_def ic_selection_stall_def)
next
  case False
  then have "ic_s_en cfg m \<noteq> one_hot (length cfg) i"
    using i by (metis ic_s_en_simps(2) one_hot_simps(2))
  with o False show ?thesis by (simp add: ic_owned_def ic_selection_stall_def)
qed

text \<open>A wire from the master to slave \<open>i\<close> that passes the requests to its addresses and holds
  back the others.\<close>

definition ic_direct :: "ic_config \<Rightarrow> nat \<Rightarrow> ic_input \<Rightarrow> ic_output" where
  "ic_direct cfg i mr =
     (let m = fst mr; r = snd mr ! i; here = am_matches (fst (cfg ! i)) (db_adr_o m) in
      (r\<lparr>db_stall_i := (db_en_o m \<and> \<not> here) \<or> db_stall_i r\<rparr>,
       at_port (length cfg) i (if db_en_o m \<and> here then Some m else None)))"

lemma ic_direct_step:
  assumes ok: "ic_config_ok cfg" and i: "i < length cfg" "\<not> snd (cfg ! i)"
    and st: "ic_owned cfg i st \<or> ic_inv cfg st \<and> \<not> ic_busy st \<and> db_en_o m \<and>
      am_matches (fst (cfg ! i)) (db_adr_o m)"
  shows "(ic_master_rsp cfg st m rs, ic_ports cfg st m) = ic_direct cfg i (m, rs)" (is ?out)
    and "\<not> db_ack_i (rs ! i) \<Longrightarrow> ic_owned cfg i (ic_next cfg False m rs st)"
    and "db_ack_i (rs ! i) \<Longrightarrow> \<not> ic_busy (ic_next cfg False m rs st)"
proof -
  have inv: "ic_inv cfg st" using st by (auto simp: ic_owned_def)
  have sel: "ic_mux_sel cfg st m = one_hot (length cfg) i"
    using st ic_s_en_selected[OF ok i(1)] by (auto simp: ic_owned_def ic_mux_sel_def)
  have stall: "ic_selection_stall cfg st m \<longleftrightarrow> db_en_o m \<and> \<not> am_matches (fst (cfg ! i)) (db_adr_o m)"
    using st ic_owned_stall[OF ok _ i(1)] by (auto simp: ic_selection_stall_def)
  have rsp: "ic_master_rsp cfg st m rs = (rs ! i)\<lparr>db_stall_i :=
      ic_selection_stall cfg st m \<or> db_stall_i (rs ! i)\<rparr>"
    using i by (simp add: ic_master_rsp_one[OF sel i(1)] ic_slot_rsp_def)
  have "port_view (ic_slave_req cfg st m i) =
      (if db_en_o m \<and> am_matches (fst (cfg ! i)) (db_adr_o m) then Some m else None)"
    using i stall by (auto simp: ic_slave_req_def port_view_def)
  with rsp stall show ?out
    by (simp add: ic_direct_def Let_def ic_ports_selected[OF ok inv i(1) sel])
  have nx: "ic_busy (ic_next cfg False m rs st) =
      (if ic_busy st then \<not> db_ack_i (rs ! i) else list_ex id (ic_s_en cfg m) \<and> \<not> db_ack_i (rs ! i))"
    "ic_s_en_r (ic_next cfg False m rs st) = (if ic_busy st then ic_s_en_r st else ic_s_en cfg m)"
    by (simp_all add: ic_next_def Let_def rsp)
  show "\<not> db_ack_i (rs ! i) \<Longrightarrow> ic_owned cfg i (ic_next cfg False m rs st)"
    using st i sel ic_inv_next[OF ok inv] unfolding ic_owned_def nx
    by (auto simp: ic_mux_sel_def split: if_splits)
  show "db_ack_i (rs ! i) \<Longrightarrow> \<not> ic_busy (ic_next cfg False m rs st)"
    unfolding nx by simp
qed

lemma ic_direct_trace:
  assumes ok: "ic_config_ok cfg" and i: "i < length cfg" "\<not> snd (cfg ! i)"
  shows "ic_owned cfg i st \<or> ic_inv cfg st \<and> \<not> ic_busy st \<and> db_en_o (fst c) \<and>
      am_matches (fst (cfg ! i)) (db_adr_o (fst c)) \<Longrightarrow>
    \<forall>d \<in> set (butlast (c # cs)). \<not> db_ack_i (snd d ! i) \<Longrightarrow> db_ack_i (snd (last (c # cs)) ! i) \<Longrightarrow>
    \<exists>st'. ic_trace cfg (c # cs) st = (map (ic_direct cfg i) (c # cs), st') \<and> \<not> ic_busy st'"
proof (induction cs arbitrary: c st)
  case Nil
  obtain m rs where c: "c = (m, rs)" by (cases c)
  from Nil show ?case
    using ic_direct_step[OF ok i, of st m rs] by (auto simp: c)
next
  case (Cons c' cs)
  obtain m rs where c: "c = (m, rs)" by (cases c)
  have "\<not> db_ack_i (rs ! i)" using Cons.prems(2) by (simp add: c)
  with Cons.prems(1) have o: "ic_owned cfg i (ic_next cfg False m rs st)"
    and out: "(ic_master_rsp cfg st m rs, ic_ports cfg st m) = ic_direct cfg i (m, rs)"
    using ic_direct_step[OF ok i, of st m rs] by (simp_all add: c)
  obtain st' where "ic_trace cfg (c' # cs) (ic_next cfg False m rs st) =
      (map (ic_direct cfg i) (c' # cs), st')" "\<not> ic_busy st'"
    using Cons.IH[of "ic_next cfg False m rs st" c'] Cons.prems(2,3) o by auto
  then show ?case using out by (simp add: c)
qed

text \<open>
  To the master, a combinational slot of the interconnect is a wire to the slave. From a
  state that is not busy, a request to an address of slot \<open>i\<close> starts a transaction; in every cycle
  up to the first acknowledge of slave \<open>i\<close>, whatever the master and the other slaves do in between,
  the master sees the response of slave \<open>i\<close> and nothing of the others, slave \<open>i\<close> sees the
  master's requests to its own addresses, no other slave sees a request, and a request to
  another slave is stalled. After the acknowledge the interconnect is free again.
\<close>

theorem ic_transaction:
  assumes "validate_mapping 32 slots" "cfg = active_slots slots"
    and "st = snd (ic_trace cfg before (ic_reset cfg))" "\<not> ic_busy st"
    and "i < length cfg" "\<not> snd (cfg ! i)"
    and "db_en_o q" "am_matches (fst (cfg ! i)) (db_adr_o q)"
    and "\<forall>d \<in> set (butlast ((q, rs) # cs)). \<not> db_ack_i (snd d ! i)"
    and "db_ack_i (snd (last ((q, rs) # cs)) ! i)"
  shows "\<exists>st'. ic_trace cfg ((q, rs) # cs) st = (map (ic_direct cfg i) ((q, rs) # cs), st') \<and>
    \<not> ic_busy st'"
proof -
  have ok: "ic_config_ok cfg" using assms(1,2) validate_mapping_lemma by simp
  have "ic_inv cfg st" unfolding assms(3) by (rule ic_inv_trace[OF ok ic_inv_reset])
  with assms(4-) show ?thesis
    by (intro ic_direct_trace[OF ok]) simp_all
qed

subsection \<open>A registered slot\<close>

text \<open>The slot is in a phase of its transaction for the captured request \<open>q\<close>, with the slave's
  answer \<open>a\<close> in the response phase.\<close>

definition slot_in :: "ic_config \<Rightarrow> nat \<Rightarrow> ic_state \<Rightarrow> rs_phase \<Rightarrow> dbus_req \<Rightarrow> dbus_rsp \<Rightarrow> bool" where
  "slot_in cfg i st ph q a \<longleftrightarrow> ic_owned cfg i st \<and>
     (let s = ic_slots st ! i in rs_state s = ph \<and>
       (ph = Rs_Request \<longrightarrow> rs_adr_r s = db_adr_o q \<and> rs_we_r s = db_we_o q \<and> rs_db_wr_r s = db_wr q) \<and>
       (ph = Rs_Response \<longrightarrow> rs_ack_r s = db_ack_i a \<and> rs_error_r s = db_error_i a \<and>
          rs_db_rd_r s = db_rd a))"

text \<open>What the master sees of a cycle, the data apart, and the slave ports.\<close>

definition out_view :: "ic_output \<Rightarrow> bool \<times> bool \<times> bool \<times> dbus_req option list" where
  "out_view o' = (db_stall_i (fst o'), db_ack_i (fst o'), db_error_i (fst o'), snd o')"

lemma out_view_pair [simp]:
  "out_view (r, ps) = (db_stall_i r, db_ack_i r, db_error_i r, ps)"
  by (simp add: out_view_def)

definition answered :: "dbus_rsp \<Rightarrow> bool" where
  "answered r \<longleftrightarrow> db_ack_i r \<or> db_error_i r"

lemma slot_owned_next:
  fixes m rs
  assumes ok: "ic_config_ok cfg" and i: "i < length cfg" "snd (cfg ! i)"
    and o: "ic_owned cfg i st" and ph: "rs_state (ic_slots st ! i) \<noteq> Rs_Idle"
  defines "st' \<equiv> ic_next cfg False m rs st"
  shows "ic_inv cfg st'"
    and "ic_busy st' \<longleftrightarrow> \<not> (rs_state (ic_slots st ! i) = Rs_Response \<and> rs_ack_r (ic_slots st ! i))"
    and "ic_s_en_r st' = ic_s_en_r st"
    and "\<exists>c. ic_slots st' ! i = slot_next c m (rs ! i) (ic_slots st ! i)"
    and "ic_slot_rsp cfg st i r = \<lparr>db_stall_i = True,
        db_ack_i = (rs_state (ic_slots st ! i) = Rs_Response \<and> rs_ack_r (ic_slots st ! i)),
        db_error_i = (rs_state (ic_slots st ! i) = Rs_Response \<and> rs_error_r (ic_slots st ! i)),
        db_rd = rs_db_rd_r (ic_slots st ! i)\<rparr>"
    and "ic_ports cfg st m = at_port (length cfg) i (port_view (ic_slave_req cfg st m i))"
proof -
  show "ic_inv cfg st'" unfolding st'_def using ok o ic_inv_next by (simp add: ic_owned_def)
  show rsp: "ic_slot_rsp cfg st i r = \<lparr>db_stall_i = True,
        db_ack_i = (rs_state (ic_slots st ! i) = Rs_Response \<and> rs_ack_r (ic_slots st ! i)),
        db_error_i = (rs_state (ic_slots st ! i) = Rs_Response \<and> rs_error_r (ic_slots st ! i)),
        db_rd = rs_db_rd_r (ic_slots st ! i)\<rparr>" for r
    using i ph by (simp add: ic_slot_rsp_def Let_def)
  show "ic_busy st' \<longleftrightarrow> \<not> (rs_state (ic_slots st ! i) = Rs_Response \<and> rs_ack_r (ic_slots st ! i))"
    "ic_s_en_r st' = ic_s_en_r st"
    "\<exists>c. ic_slots st' ! i = slot_next c m (rs ! i) (ic_slots st ! i)"
    using o i ic_master_rsp_one[OF ic_owned_sel[OF o] i(1)]
    by (auto simp: st'_def ic_next_def Let_def ic_owned_def rsp)
  show "ic_ports cfg st m = at_port (length cfg) i (port_view (ic_slave_req cfg st m i))"
    using ic_ports_selected[OF ok _ i(1) ic_owned_sel[OF o]] o by (simp add: ic_owned_def)
qed

lemma slot_in_view:
  assumes ok: "ic_config_ok cfg" and i: "i < length cfg" "snd (cfg ! i)"
    and at: "slot_in cfg i st ph q a" and ph: "ph \<noteq> Rs_Idle"
  shows "ic_master_rsp cfg st m rs = \<lparr>db_stall_i = True, db_ack_i = (ph = Rs_Response \<and> db_ack_i a),
      db_error_i = (ph = Rs_Response \<and> db_error_i a), db_rd = rs_db_rd_r (ic_slots st ! i)\<rparr>"
    and "ic_ports cfg st m =
      at_port (length cfg) i (if ph = Rs_Request then Some (q\<lparr>db_en_o := True\<rparr>) else None)"
proof -
  have o: "ic_owned cfg i st" and s: "rs_state (ic_slots st ! i) = ph"
    using at by (simp_all add: slot_in_def Let_def)
  show "ic_master_rsp cfg st m rs = \<lparr>db_stall_i = True, db_ack_i = (ph = Rs_Response \<and> db_ack_i a),
      db_error_i = (ph = Rs_Response \<and> db_error_i a), db_rd = rs_db_rd_r (ic_slots st ! i)\<rparr>"
    using at ph by (auto simp: ic_master_rsp_one[OF ic_owned_sel[OF o] i(1)] slot_in_def Let_def
        slot_owned_next(5)[OF ok i o])
  have "port_view (ic_slave_req cfg st m i) =
      (if ph = Rs_Request then Some (q\<lparr>db_en_o := True\<rparr>) else None)"
    using at i by (cases q) (auto simp: port_view_def ic_slave_req_def slot_in_def Let_def)
  then show "ic_ports cfg st m =
      at_port (length cfg) i (if ph = Rs_Request then Some (q\<lparr>db_en_o := True\<rparr>) else None)"
    using slot_owned_next(6)[OF ok i o] ph s by simp
qed

lemma slot_in_next:
  assumes ok: "ic_config_ok cfg" and i: "i < length cfg" "snd (cfg ! i)"
    and at: "slot_in cfg i st ph q a" and ph: "ph = Rs_Request \<or> ph = Rs_Wait_Response"
  shows "answered (rs ! i) \<Longrightarrow> slot_in cfg i (ic_next cfg False m rs st) Rs_Response q (rs ! i)"
    and "\<not> answered (rs ! i) \<Longrightarrow> ph = Rs_Request \<and> db_stall_i (rs ! i) \<Longrightarrow>
      slot_in cfg i (ic_next cfg False m rs st) Rs_Request q a"
    and "\<not> answered (rs ! i) \<Longrightarrow> ph = Rs_Wait_Response \<or> \<not> db_stall_i (rs ! i) \<Longrightarrow>
      slot_in cfg i (ic_next cfg False m rs st) Rs_Wait_Response q a"
proof -
  have o: "ic_owned cfg i st" and s: "rs_state (ic_slots st ! i) = ph"
    using at by (simp_all add: slot_in_def Let_def)
  then have n: "rs_state (ic_slots st ! i) \<noteq> Rs_Idle" "rs_state (ic_slots st ! i) \<noteq> Rs_Response"
    using ph by auto
  note nx = slot_owned_next(1-4)[OF ok i o n(1), of m rs]
  have o': "ic_owned cfg i (ic_next cfg False m rs st)"
    using nx(1-3) n o by (simp add: ic_owned_def)
  obtain c where c: "ic_slots (ic_next cfg False m rs st) ! i = slot_next c m (rs ! i) (ic_slots st ! i)"
    using nx(4) by blast
  note defs = slot_in_def Let_def o' c slot_next_def answered_def
  show "answered (rs ! i) \<Longrightarrow> slot_in cfg i (ic_next cfg False m rs st) Rs_Response q (rs ! i)"
    using s ph by (auto simp: defs)
  show "\<not> answered (rs ! i) \<Longrightarrow> ph = Rs_Request \<and> db_stall_i (rs ! i) \<Longrightarrow>
      slot_in cfg i (ic_next cfg False m rs st) Rs_Request q a"
    using s at by (auto simp: defs)
  show "\<not> answered (rs ! i) \<Longrightarrow> ph = Rs_Wait_Response \<or> \<not> db_stall_i (rs ! i) \<Longrightarrow>
      slot_in cfg i (ic_next cfg False m rs st) Rs_Wait_Response q a"
    using s ph by (auto simp: defs)
qed

text \<open>The waiting cycles: the request is shown while the slave stalls and in the cycle in which it
  does not, then the slot waits for the answer, and passes it on.\<close>

definition waiting :: "ic_config \<Rightarrow> nat \<Rightarrow> dbus_req option \<Rightarrow> bool \<times> bool \<times> bool \<times> dbus_req option list" where
  "waiting cfg i x = (True, False, False, at_port (length cfg) i x)"

lemma slot_wait_trace:
  assumes ok: "ic_config_ok cfg" and i: "i < length cfg" "snd (cfg ! i)"
  shows "slot_in cfg i st Rs_Wait_Response q a \<Longrightarrow> \<forall>d \<in> set cs. \<not> answered (snd d ! i) \<Longrightarrow>
    answered (snd d ! i) \<Longrightarrow>
    \<exists>os st'. ic_trace cfg (cs @ [d]) st = (os, st') \<and> slot_in cfg i st' Rs_Response q (snd d ! i) \<and>
      map out_view os = replicate (Suc (length cs)) (waiting cfg i None)"
proof (induction cs arbitrary: st)
  case Nil
  then show ?case
    using slot_in_view(1)[OF ok i Nil.prems(1), of "fst d" "snd d"]
      slot_in_view(2)[OF ok i Nil.prems(1), of "fst d"]
      slot_in_next(1)[OF ok i Nil.prems(1), of "snd d" "fst d"]
    by (cases d) (simp add: waiting_def)
next
  case (Cons c cs)
  obtain m rs where c: "c = (m, rs)" by (cases c)
  have n: "slot_in cfg i (ic_next cfg False m rs st) Rs_Wait_Response q a"
    using slot_in_next(3)[OF ok i Cons.prems(1), of rs m] Cons.prems(2) by (simp add: c)
  obtain os st' where "ic_trace cfg (cs @ [d]) (ic_next cfg False m rs st) = (os, st')"
    "slot_in cfg i st' Rs_Response q (snd d ! i)"
    "map out_view os = replicate (Suc (length cs)) (waiting cfg i None)"
    using Cons.IH[OF n] Cons.prems(2,3) by auto
  then show ?case
    using slot_in_view(1)[OF ok i Cons.prems(1), of m rs] slot_in_view(2)[OF ok i Cons.prems(1), of m]
    by (simp add: c waiting_def)
qed

lemma slot_request_trace:
  assumes ok: "ic_config_ok cfg" and i: "i < length cfg" "snd (cfg ! i)"
  shows "slot_in cfg i st Rs_Request q a \<Longrightarrow> \<forall>d \<in> set cs. \<not> answered (snd d ! i) \<Longrightarrow>
    answered (snd d ! i) \<Longrightarrow> k = length (takeWhile (\<lambda>c. db_stall_i (snd c ! i)) cs) \<Longrightarrow>
    \<exists>os st'. ic_trace cfg (cs @ [d]) st = (os, st') \<and> slot_in cfg i st' Rs_Response q (snd d ! i) \<and>
      map out_view os = replicate (Suc k) (waiting cfg i (Some (q\<lparr>db_en_o := True\<rparr>))) @
        replicate (length cs - k) (waiting cfg i None)"
proof (induction cs arbitrary: st k)
  case Nil
  then show ?case
    using slot_in_view(1)[OF ok i Nil.prems(1), of "fst d" "snd d"]
      slot_in_view(2)[OF ok i Nil.prems(1), of "fst d"]
      slot_in_next(1)[OF ok i Nil.prems(1), of "snd d" "fst d"]
    by (cases d) (simp add: waiting_def)
next
  case (Cons c cs)
  obtain m rs where c: "c = (m, rs)" by (cases c)
  have na: "\<not> answered (rs ! i)" using Cons.prems(2) by (simp add: c)
  note out = slot_in_view(1)[OF ok i Cons.prems(1), of m rs, simplified]
    slot_in_view(2)[OF ok i Cons.prems(1), of m, simplified]
  show ?case
  proof (cases "db_stall_i (rs ! i)")
    case True
    then have n: "slot_in cfg i (ic_next cfg False m rs st) Rs_Request q a"
      using slot_in_next(2)[OF ok i Cons.prems(1), of rs m] na by simp
    from True obtain k' where k': "k = Suc k'" "k' = length (takeWhile (\<lambda>c. db_stall_i (snd c ! i)) cs)"
      using Cons.prems(4) by (simp add: c)
    obtain os st' where "ic_trace cfg (cs @ [d]) (ic_next cfg False m rs st) = (os, st')"
      "slot_in cfg i st' Rs_Response q (snd d ! i)"
      "map out_view os = replicate (Suc k') (waiting cfg i (Some (q\<lparr>db_en_o := True\<rparr>))) @
        replicate (length cs - k') (waiting cfg i None)"
      using Cons.IH[OF n _ _ k'(2)] Cons.prems(2,3) by auto
    with out k' show ?thesis by (simp add: c waiting_def)
  next
    case False
    then have n: "slot_in cfg i (ic_next cfg False m rs st) Rs_Wait_Response q a"
      using slot_in_next(3)[OF ok i Cons.prems(1), of rs m] na by simp
    obtain os st' where "ic_trace cfg (cs @ [d]) (ic_next cfg False m rs st) = (os, st')"
      "slot_in cfg i st' Rs_Response q (snd d ! i)"
      "map out_view os = replicate (Suc (length cs)) (waiting cfg i None)"
      using slot_wait_trace[OF ok i n, of cs d] Cons.prems(2,3) by auto
    with out False show ?thesis using Cons.prems(4) by (simp add: c waiting_def)
  qed
qed

lemma slot_capture:
  assumes ok: "ic_config_ok cfg" and i: "i < length cfg" "snd (cfg ! i)"
    and inv: "ic_inv cfg st" "\<not> ic_busy st"
    and q: "db_en_o q" "am_matches (fst (cfg ! i)) (db_adr_o q)"
  shows "slot_in cfg i (ic_next cfg False q rs st) Rs_Request q a"
    and "out_view (ic_master_rsp cfg st q rs, ic_ports cfg st q) =
      (False, False, False, at_port (length cfg) i None)"
proof -
  have idle: "rs_state (ic_slots st ! i) = Rs_Idle" using inv i by (auto simp: ic_inv_def)
  have sen: "ic_s_en cfg q = one_hot (length cfg) i" using ic_s_en_selected[OF ok i(1) q(2,1)] .
  then have sel: "ic_mux_sel cfg st q = one_hot (length cfg) i" using inv by (simp add: ic_mux_sel_def)
  have ns: "\<not> ic_selection_stall cfg st q" using inv by (simp add: ic_selection_stall_def)
  have rsp: "ic_master_rsp cfg st q rs = \<lparr>db_stall_i = False, db_ack_i = False, db_error_i = False,
      db_rd = rs_db_rd_r (ic_slots st ! i)\<rparr>"
    using i idle ns by (simp add: ic_master_rsp_one[OF sel i(1)] ic_slot_rsp_def Let_def)
  have "ic_busy (ic_next cfg False q rs st)" "ic_s_en_r (ic_next cfg False q rs st) = one_hot (length cfg) i"
    using inv i by (simp_all add: ic_next_def Let_def rsp sen)
  then have o: "ic_owned cfg i (ic_next cfg False q rs st)"
    using ic_inv_next[OF ok inv(1)] by (simp add: ic_owned_def)
  have "ic_slots (ic_next cfg False q rs st) ! i = slot_next True q (rs ! i) (ic_slots st ! i)"
    using i ns sen by (simp add: ic_next_def Let_def)
  with o idle show "slot_in cfg i (ic_next cfg False q rs st) Rs_Request q a"
    by (simp add: slot_in_def slot_next_def Let_def)
  show "out_view (ic_master_rsp cfg st q rs, ic_ports cfg st q) =
      (False, False, False, at_port (length cfg) i None)"
    using i idle ic_ports_selected[OF ok inv(1) i(1) sel]
    by (simp add: rsp port_view_def ic_slave_req_def Let_def)
qed

text \<open>
  C18: A registered slot transports exactly one request and one answer. For every validated address
  map and every state reached from reset that is not busy, the request \<open>q\<close> to the registered slot
  \<open>i\<close> is captured in one cycle without a stall; the slave then sees \<open>q\<close>, whatever the master and
  the other slaves drive meanwhile, in every cycle in which it stalls and in the first in which it
  does not, and after that no request, until it answers, and no other slave sees a request in any
  of these cycles; the master is stalled and sees neither acknowledge nor error until the cycle
  after the slave's answer, in which it sees exactly that answer with its data. The interconnect
  is free again exactly if the answer was an acknowledge, not if it was an error alone.
\<close>

theorem ic_registered_transaction:
  assumes "validate_mapping 32 slots" "cfg = active_slots slots"
    and "st = snd (ic_trace cfg before (ic_reset cfg))" "\<not> ic_busy st"
    and "i < length cfg" "snd (cfg ! i)"
    and "db_en_o q" "am_matches (fst (cfg ! i)) (db_adr_o q)"
    and "\<forall>c \<in> set cs. \<not> answered (snd c ! i)" "answered (snd d ! i)"
    and "k = length (takeWhile (\<lambda>c. db_stall_i (snd c ! i)) cs)"
  shows "\<exists>os r st'. ic_trace cfg ((q, rs) # cs @ [d, f]) st = (os, st') \<and>
    map out_view os = (False, False, False, at_port (length cfg) i None) #
      replicate (k + 1) (True, False, False, at_port (length cfg) i (Some q)) @
      replicate (length cs - k) (True, False, False, at_port (length cfg) i None) @
      [(True, db_ack_i (snd d ! i), db_error_i (snd d ! i), at_port (length cfg) i None)] \<and>
    db_rd (fst (last os)) = db_rd (snd d ! i) \<and> ic_busy st' = (\<not> db_ack_i (snd d ! i))"
proof -
  have ok: "ic_config_ok cfg" using assms(1,2) validate_mapping_lemma by simp
  have inv: "ic_inv cfg st" unfolding assms(3) by (rule ic_inv_trace[OF ok ic_inv_reset])
  have q: "q\<lparr>db_en_o := True\<rparr> = q" using assms(7) by (cases q) simp
  note cap = slot_capture[OF ok assms(5,6) inv assms(4,7,8), of rs]
  let ?st1 = "ic_next cfg False q rs st"
  obtain os st2 where run: "ic_trace cfg (cs @ [d]) ?st1 = (os, st2)"
    and st2: "slot_in cfg i st2 Rs_Response q (snd d ! i)"
    and os: "map out_view os = replicate (Suc k) (waiting cfg i (Some q)) @
        replicate (length cs - k) (waiting cfg i None)"
    using slot_request_trace[OF ok assms(5,6) cap(1) assms(9-11)] unfolding q by blast
  obtain m fr where f: "f = (m, fr)" by (cases f)
  have o2: "ic_owned cfg i st2" "rs_state (ic_slots st2 ! i) = Rs_Response"
    "rs_ack_r (ic_slots st2 ! i) = db_ack_i (snd d ! i)" "rs_db_rd_r (ic_slots st2 ! i) = db_rd (snd d ! i)"
    using st2 by (simp_all add: slot_in_def Let_def)
  have app: "ic_trace cfg (xs @ ys) s = (fst (ic_trace cfg xs s) @ fst (ic_trace cfg ys (snd (ic_trace cfg xs s))),
      snd (ic_trace cfg ys (snd (ic_trace cfg xs s))))" for xs ys s
    by (induction xs arbitrary: s) (auto simp: split_beta)
  let ?st3 = "ic_next cfg False m fr st2" and ?out = "(ic_master_rsp cfg st2 m fr, ic_ports cfg st2 m)"
  have "ic_trace cfg ((q, rs) # (cs @ [d]) @ [f]) st =
      ((ic_master_rsp cfg st q rs, ic_ports cfg st q) # os @ [?out], ?st3)"
    by (simp add: app[of "cs @ [d]"] run f del: append_assoc)
  moreover have "out_view ?out =
      (True, db_ack_i (snd d ! i), db_error_i (snd d ! i), at_port (length cfg) i None)"
    "db_rd (fst ?out) = db_rd (snd d ! i)"
    using slot_in_view[OF ok assms(5,6) st2] o2 by simp_all
  moreover have "ic_busy ?st3 = (\<not> db_ack_i (snd d ! i))"
    using slot_owned_next(2)[OF ok assms(5,6) o2(1), of m fr] o2 by simp
  ultimately show ?thesis using cap(2) os by (simp add: waiting_def)
qed

text \<open>
  Overlapping requests to one slave lose an answer. A combinational slot accepts a second
  request in the cycle in which its slave acknowledges the first; the interconnect then forgets
  the slave, and if the master presents no request in the following cycle it sees neither
  acknowledge nor data of the second request, whatever the slaves answer.
\<close>

theorem ic_overlap_loses_ack:
  assumes "validate_mapping 32 slots" "cfg = active_slots slots"
    and "st = snd (ic_trace cfg before (ic_reset cfg))" "\<not> ic_busy st"
    and "i < length cfg" "\<not> snd (cfg ! i)"
    and "db_en_o q" "am_matches (fst (cfg ! i)) (db_adr_o q)" "\<not> db_ack_i (rs0 ! i)"
    and "db_en_o q'" "am_matches (fst (cfg ! i)) (db_adr_o q')"
    and "db_ack_i (rs1 ! i)" "\<not> db_stall_i (rs1 ! i)"
    and "\<not> db_en_o m"
  shows "\<exists>o0 o1 ps st'. ic_trace cfg [(q, rs0), (q', rs1), (m, rs2)] st =
    ([o0, o1, (\<lparr>db_stall_i = False, db_ack_i = False, db_error_i = False, db_rd = 0\<rparr>, ps)], st') \<and>
    \<not> db_stall_i (fst o1) \<and> db_ack_i (fst o1) \<and> snd o1 = at_port (length cfg) i (Some q')"
proof -
  have ok: "ic_config_ok cfg" using assms(1,2) validate_mapping_lemma by simp
  have inv: "ic_inv cfg st" unfolding assms(3) by (rule ic_inv_trace[OF ok ic_inv_reset])
  let ?st1 = "ic_next cfg False q rs0 st"
  let ?st2 = "ic_next cfg False q' rs1 ?st1"
  have o1: "ic_owned cfg i ?st1"
    using ic_direct_step(2)[OF ok assms(5,6), of st q rs0] inv assms by blast
  have d1: "(ic_master_rsp cfg ?st1 q' rs1, ic_ports cfg ?st1 q') = ic_direct cfg i (q', rs1)"
    and b2: "\<not> ic_busy ?st2"
    using ic_direct_step(1,3)[OF ok assms(5,6), of ?st1 q' rs1] o1 assms(12) by blast+
  have "ic_mux_sel cfg ?st2 m = replicate (length cfg) False"
    using b2 ic_s_en_none[of cfg m] assms(14) by (simp add: ic_mux_sel_def)
  then have "ic_master_rsp cfg ?st2 m rs2 =
      \<lparr>db_stall_i = False, db_ack_i = False, db_error_i = False, db_rd = 0\<rparr>"
    using b2 assms(14) ic_master_rsp_none[of cfg ?st2 m rs2] by (simp add: ic_selection_stall_def)
  with d1 assms(10-13) show ?thesis
    by (intro exI[of _ "(ic_master_rsp cfg st q rs0, ic_ports cfg st q)"]
        exI[of _ "ic_direct cfg i (q', rs1)"] exI)
      (simp add: ic_direct_def Let_def)
qed

subsection \<open>The address maps of the SoC\<close>

text \<open>
  The core's interconnect (\<open>bonfireCoreExtendedInterface\<close> with the masks of
  \<open>BonfireCoreSoC\<close>): block RAM, Wishbone (optionally registered), native peripherals; and the
  peripheral interconnect: LEDs, UART.
\<close>

definition ic_slot_at :: "nat \<Rightarrow> nat \<Rightarrow> int \<Rightarrow> bool \<Rightarrow> ic_slot" where
  "ic_slot_at u l v reg = \<lparr>sl_slave = True,
     sl_mask = Some \<lparr>am_upper = u, am_lower = l, am_value = v\<rparr>, sl_registered = reg\<rparr>"

definition ic_no_slot :: ic_slot where
  "ic_no_slot = \<lparr>sl_slave = False, sl_mask = None, sl_registered = False\<rparr>"

definition soc_core_slots :: "bool \<Rightarrow> ic_slot list" where
  "soc_core_slots register_wb = [ic_slot_at 32 28 0xc False, ic_slot_at 32 28 0x4 register_wb,
     ic_slot_at 32 28 0x8 False] @ replicate 5 ic_no_slot"

definition soc_native_slots :: "ic_slot list" where
  "soc_native_slots = [ic_slot_at 32 16 0x8000 False, ic_slot_at 32 16 0x8001 False] @
     replicate 6 ic_no_slot"

lemma soc_native_valid: "validate_mapping 32 soc_native_slots"
  by code_simp

definition soc_core_cfg :: "bool \<Rightarrow> ic_config" where
  "soc_core_cfg register_wb = active_slots (soc_core_slots register_wb)"

definition soc_native_cfg :: ic_config where
  "soc_native_cfg = active_slots soc_native_slots"

lemma soc_core_valid: "validate_mapping 32 (soc_core_slots register_wb)"
proof (cases register_wb)
  case True
  then show ?thesis by (simp only:) code_simp
next
  case False
  then show ?thesis by (simp only:) code_simp
qed

lemma soc_core_config: "soc_core_cfg register_wb =
   [(\<lparr>am_upper = 32, am_lower = 28, am_value = 0xc\<rparr>, False),
    (\<lparr>am_upper = 32, am_lower = 28, am_value = 0x4\<rparr>, register_wb),
    (\<lparr>am_upper = 32, am_lower = 28, am_value = 0x8\<rparr>, False)]"
  by (simp add: soc_core_cfg_def soc_core_slots_def active_slots_def ic_slot_at_def ic_no_slot_def)

lemma soc_native_config: "soc_native_cfg =
   [(\<lparr>am_upper = 32, am_lower = 16, am_value = 0x8000\<rparr>, False),
    (\<lparr>am_upper = 32, am_lower = 16, am_value = 0x8001\<rparr>, False)]"
  by (simp add: soc_native_cfg_def soc_native_slots_def active_slots_def ic_slot_at_def ic_no_slot_def)

lemma soc_core_cfg_simps [simp]:
  "length (soc_core_cfg w) = 3"
  "soc_core_cfg w ! 0 = (\<lparr>am_upper = 32, am_lower = 28, am_value = 0xc\<rparr>, False)"
  "soc_core_cfg w ! Suc 0 = (\<lparr>am_upper = 32, am_lower = 28, am_value = 0x4\<rparr>, w)"
  "soc_core_cfg w ! 2 = (\<lparr>am_upper = 32, am_lower = 28, am_value = 0x8\<rparr>, False)"
  by (simp_all add: soc_core_config)

lemma ic_reset_busy [simp]: "\<not> ic_busy (ic_reset cfg)"
  by (simp add: ic_reset_def)

subsection \<open>Concrete instances\<close>

definition bus_read :: "xword \<Rightarrow> dbus_req" where
  "bus_read a = \<lparr>db_en_o = True, db_adr_o = a, db_we_o = 0, db_wr = 0\<rparr>"

definition bus_answer :: "bool \<Rightarrow> bool \<Rightarrow> xword \<Rightarrow> dbus_rsp" where
  "bus_answer stall ack d = \<lparr>db_stall_i = stall, db_ack_i = ack, db_error_i = False, db_rd = d\<rparr>"

lemma bus_read_simps [simp]:
  "db_en_o (bus_read a)" "db_adr_o (bus_read a) = a" "db_we_o (bus_read a) = 0" "db_wr (bus_read a) = 0"
  by (simp_all add: bus_read_def)

lemma bus_answer_simps [simp]:
  "db_stall_i (bus_answer s a d) = s" "db_ack_i (bus_answer s a d) = a"
  "db_error_i (bus_answer s a d) = False" "db_rd (bus_answer s a d) = d"
  by (simp_all add: bus_answer_def)

lemma am_matches_bram: "am_matches \<lparr>am_upper = 32, am_lower = 28, am_value = 0xc\<rparr> 0xC0000010"
  by code_simp

lemma am_matches_wb: "am_matches \<lparr>am_upper = 32, am_lower = 28, am_value = 4\<rparr> 0x40000020"
  by code_simp

theorem ic_exclusive_witness:
  "\<exists>stall. ic_master_rsp (soc_core_cfg False) (ic_reset (soc_core_cfg False))
     (bus_read 0xC0000010) [bus_answer False True 7, bus_answer False False 0, bus_answer False False 0] =
   (ic_slot_rsp (soc_core_cfg False) (ic_reset (soc_core_cfg False)) 0
     (bus_answer False True 7))\<lparr>db_stall_i := stall\<rparr>"
  using ic_exclusive[of "soc_core_slots False" _ _ "[]" 0 0 "bus_read 0xC0000010" "[bus_answer False True 7, bus_answer False False 0, bus_answer False False 0]", OF soc_core_valid soc_core_cfg_def refl]
    am_matches_bram
  by (simp add: ic_slave_req_def ic_selection_stall_def)

theorem ic_transaction_witness:
  "\<exists>st'. ic_trace (soc_core_cfg False)
      [(bus_read 0xC0000010, [bus_answer False False 0]), (dbus_idle, [bus_answer False True 7])]
      (ic_reset (soc_core_cfg False)) =
    (map (ic_direct (soc_core_cfg False) 0)
      [(bus_read 0xC0000010, [bus_answer False False 0]), (dbus_idle, [bus_answer False True 7])], st') \<and>
    \<not> ic_busy st'"
  using ic_transaction[of "soc_core_slots False" _ _ "[]" 0 "bus_read 0xC0000010" "[bus_answer False False 0]"
      "[(dbus_idle, [bus_answer False True 7])]", OF soc_core_valid soc_core_cfg_def refl]
    am_matches_bram
  by simp

theorem ic_registered_transaction_witness:
  "\<exists>os r st'. ic_trace (soc_core_cfg True)
      [(bus_read 0x40000020, []), (dbus_idle, replicate 2 (bus_answer True False 0)),
       (dbus_idle, replicate 2 (bus_answer False False 0)), (dbus_idle, replicate 2 (bus_answer False True 9)),
       (dbus_idle, [])] (ic_reset (soc_core_cfg True)) = (os, st') \<and>
    map out_view os = [(False, False, False, at_port 3 1 None),
      (True, False, False, at_port 3 1 (Some (bus_read 0x40000020))),
      (True, False, False, at_port 3 1 (Some (bus_read 0x40000020))),
      (True, False, False, at_port 3 1 None), (True, True, False, at_port 3 1 None)] \<and>
    db_rd (fst (last os)) = 9 \<and> \<not> ic_busy st'"
  using ic_registered_transaction[of "soc_core_slots True" _ _ "[]" 1 "bus_read 0x40000020"
      "[(dbus_idle, replicate 2 (bus_answer True False 0)), (dbus_idle, replicate 2 (bus_answer False False 0))]"
      "(dbus_idle, replicate 2 (bus_answer False True 9))" 1 "[]" "(dbus_idle, [])",
      OF soc_core_valid soc_core_cfg_def refl]
    am_matches_wb
  by (simp add: answered_def numeral_2_eq_2)

theorem ic_overlap_loses_ack_witness:
  "\<exists>o0 o1 ps st'. ic_trace (soc_core_cfg False)
      [(bus_read 0xC0000010, [bus_answer False False 0]), (bus_read 0xC0000010, [bus_answer False True 7]),
       (dbus_idle, [bus_answer False True 8])] (ic_reset (soc_core_cfg False)) =
    ([o0, o1, (\<lparr>db_stall_i = False, db_ack_i = False, db_error_i = False, db_rd = 0\<rparr>, ps)], st') \<and>
    \<not> db_stall_i (fst o1) \<and> db_ack_i (fst o1) \<and> snd o1 = at_port 3 0 (Some (bus_read 0xC0000010))"
  using ic_overlap_loses_ack[of "soc_core_slots False" _ _ "[]" 0 "bus_read 0xC0000010" "[bus_answer False False 0]"
      "bus_read 0xC0000010" "[bus_answer False True 7]" dbus_idle "[bus_answer False True 8]",
      OF soc_core_valid soc_core_cfg_def refl]
    am_matches_bram
  by (simp add: dbus_idle_def)

end
