(* ===== verification/Ram.thy ===== *)
theory Ram
  imports Bus
begin

text \<open>
  The block RAM (\<open>rtl/uncore/ram_dp.py\<close>): the RAM ports, the dual-ported RAM as one array of
  words and as four arrays of bytes, and the adapter that makes a RAM port a slave of the data
  bus. Port A is the read-only instruction port, port B the data port, as the SoC
  instantiates them. Addresses are indices of the array.
\<close>

subsection \<open>Ports\<close>

record ram_port =
  rp_en :: bool
  rp_adrbus :: nat
  rp_wren :: "4 word"
  rp_dbin :: xword

text \<open>\<open>create_ram\<close>: the words of the image, zero up to the size.\<close>

definition create_ram :: "int list \<Rightarrow> nat \<Rightarrow> xword list" where
  "create_ram lines ramsize =
     map word_of_int lines @ replicate (ramsize - length lines) 0"

text \<open>\<open>port_instance\<close>, for a read-only port and for a port of 32 bits or of one byte lane: the new
  array and the new output register. A write shows the old word at the output.\<close>

definition port_read :: "bool \<Rightarrow> nat \<Rightarrow> 'w list \<Rightarrow> 'w \<Rightarrow> 'w" where
  "port_read en adr ram dbout = (if en then ram ! adr else dbout)"

definition port_write32 :: "ram_port \<Rightarrow> xword list \<Rightarrow> xword list" where
  "port_write32 p ram =
     (if rp_en p then ram[rp_adrbus p := merge_lanes (rp_wren p) (rp_dbin p) (ram ! rp_adrbus p)]
      else ram)"

definition port_write8 :: "bool \<Rightarrow> nat \<Rightarrow> bool \<Rightarrow> 8 word \<Rightarrow> 8 word list \<Rightarrow> 8 word list" where
  "port_write8 en adr wren dbin ram = (if en \<and> wren then ram[adr := dbin] else ram)"

subsection \<open>The dual-ported RAM\<close>

record dp_ram =
  dp_ram :: "xword list"
  dp_out_a :: xword
  dp_out_b :: xword

definition dp_ram_next :: "bool \<Rightarrow> nat \<Rightarrow> ram_port \<Rightarrow> dp_ram \<Rightarrow> dp_ram" where
  "dp_ram_next en_a adr_a b s =
     \<lparr>dp_ram = port_write32 b (dp_ram s),
       dp_out_a = port_read en_a adr_a (dp_ram s) (dp_out_a s),
       dp_out_b = port_read (rp_en b) (rp_adrbus b) (dp_ram s) (dp_out_b s)\<rparr>"

text \<open>The laned variant: byte \<open>i\<close> of every word in array \<open>i\<close>.\<close>

record laned_ram =
  lr_ram :: "8 word list list"
  lr_out_a :: "8 word list"
  lr_out_b :: "8 word list"

definition lane_of :: "nat \<Rightarrow> xword \<Rightarrow> 8 word" where
  "lane_of i w = bv_slice (i * 8 + 8) (i * 8) w"

definition laned_create_ram :: "int list \<Rightarrow> nat \<Rightarrow> 8 word list list" where
  "laned_create_ram lines ramsize =
     map (\<lambda>i. map (\<lambda>v. lane_of i (word_of_int v)) lines @ replicate (ramsize - length lines) 0) [0..<4]"

definition laned_ram_next :: "bool \<Rightarrow> nat \<Rightarrow> ram_port \<Rightarrow> laned_ram \<Rightarrow> laned_ram" where
  "laned_ram_next en_a adr_a b s =
     \<lparr>lr_ram = map (\<lambda>i. port_write8 (rp_en b) (rp_adrbus b) (bit (rp_wren b) i) (lane_of i (rp_dbin b))
          (lr_ram s ! i)) [0..<4],
       lr_out_a = map (\<lambda>i. port_read en_a adr_a (lr_ram s ! i) (lr_out_a s ! i)) [0..<4],
       lr_out_b = map (\<lambda>i. port_read (rp_en b) (rp_adrbus b) (lr_ram s ! i) (lr_out_b s ! i)) [0..<4]\<rparr>"

definition map_dbout :: "8 word list \<Rightarrow> xword" where
  "map_dbout out = bv_cat (bv_cat (out ! 3) (out ! 2) :: 16 word) (bv_cat (out ! 1) (out ! 0) :: 16 word)"

text \<open>The laned RAM in the state of a word RAM.\<close>

definition laned_of :: "dp_ram \<Rightarrow> laned_ram" where
  "laned_of s = \<lparr>lr_ram = map (\<lambda>i. map (lane_of i) (dp_ram s)) [0..<4],
     lr_out_a = map (\<lambda>i. lane_of i (dp_out_a s)) [0..<4],
     lr_out_b = map (\<lambda>i. lane_of i (dp_out_b s)) [0..<4]\<rparr>"

lemma bit_lane_of: "bit (lane_of i w) n \<longleftrightarrow> n < 8 \<and> bit w (i * 8 + n)"
  by (auto simp: lane_of_def bv_simps)

lemma lane_of_0 [simp]: "lane_of i 0 = 0"
  by (rule bv_eqI) (simp add: bit_lane_of)

lemma lane_of_merge:
  assumes "i < 4"
  shows "lane_of i (merge_lanes we v old) = (if bit we i then lane_of i v else lane_of i old)"
proof (rule bv_eqI)
  fix n assume "n < LENGTH(8)"
  then have "(i * 8 + n) div 8 = i" "i * 8 + n < 32" using assms by simp_all
  then show "bit (lane_of i (merge_lanes we v old)) n \<longleftrightarrow>
      bit (if bit we i then lane_of i v else lane_of i old) n"
    by (simp add: bit_lane_of bv_simps)
qed

lemma upt_4: "[0..<4] = [0, 1, 2, 3 :: nat]"
  by (simp add: upt_rec)

lemma map_dbout_lanes: "map_dbout (map (\<lambda>i. lane_of i w) [0..<4]) = w"
  unfolding upt_4
  by (rule xword_eqI) (auto simp: map_dbout_def bv_simps bit_lane_of not_less)

lemma laned_create: "laned_create_ram lines n = map (\<lambda>i. map (lane_of i) (create_ram lines n)) [0..<4]"
  by (simp add: laned_create_ram_def create_ram_def)

lemma lane_write:
  assumes "i < 4" "rp_adrbus b < length ram"
  shows "port_write8 (rp_en b) (rp_adrbus b) (bit (rp_wren b) i) (lane_of i (rp_dbin b))
      (map (lane_of i) ram) = map (lane_of i) (port_write32 b ram)"
proof -
  have "map (lane_of i) ram = (map (lane_of i) ram)[rp_adrbus b := lane_of i (ram ! rp_adrbus b)]"
    using assms(2) by (simp flip: map_update)
  with assms(1) show ?thesis
    by (simp add: port_write8_def port_write32_def map_update lane_of_merge)
qed

lemma laned_step:
  assumes "adr_a < length (dp_ram s)" "rp_adrbus b < length (dp_ram s)"
  shows "laned_ram_next en_a adr_a b (laned_of s) = laned_of (dp_ram_next en_a adr_a b s)"
  using assms
  by (auto simp: laned_ram_next_def laned_of_def dp_ram_next_def lane_write port_read_def intro!: map_cong)

lemma length_port_write32 [simp]: "length (port_write32 b ram) = length ram"
  by (simp add: port_write32_def)

text \<open>The inputs of one clock edge, and the two RAMs after \<open>create_ram\<close>.\<close>

type_synonym ram_input = "bool \<times> nat \<times> ram_port"

definition ram_init :: "int list \<Rightarrow> nat \<Rightarrow> dp_ram" where
  "ram_init lines n = \<lparr>dp_ram = create_ram lines n, dp_out_a = 0, dp_out_b = 0\<rparr>"

definition laned_init :: "int list \<Rightarrow> nat \<Rightarrow> laned_ram" where
  "laned_init lines n =
     \<lparr>lr_ram = laned_create_ram lines n, lr_out_a = replicate 4 0, lr_out_b = replicate 4 0\<rparr>"

lemma laned_run:
  "\<forall>(en, a, b) \<in> set ins. a < length (dp_ram s) \<and> rp_adrbus b < length (dp_ram s) \<Longrightarrow>
   clocked_run (\<lambda>(en, a, b). laned_ram_next en a b) ins (laned_of s) =
   laned_of (clocked_run (\<lambda>(en, a, b). dp_ram_next en a b) ins s)"
proof (induction ins arbitrary: s)
  case (Cons i ins)
  obtain en a b where i: "i = (en, a, b)" by (cases i)
  have "length (dp_ram (dp_ram_next en a b s)) = length (dp_ram s)" by (simp add: dp_ram_next_def)
  with Cons i show ?case by (auto simp: laned_step)
qed simp

text \<open>
  C40: The laned RAM is the word RAM. After the same memory image and any sequence of accesses
  within the array, with any byte enables on the data port, the four byte arrays hold the lanes of
  the words of the one-array variant, and both ports of the two variants show the same data.
\<close>

theorem laned_ram_equivalent:
  assumes "\<forall>(en, a, b) \<in> set ins. a < max (length lines) n \<and> rp_adrbus b < max (length lines) n"
    and "s = clocked_run (\<lambda>(en, a, b). dp_ram_next en a b) ins (ram_init lines n)"
    and "l = clocked_run (\<lambda>(en, a, b). laned_ram_next en a b) ins (laned_init lines n)"
  shows "l = laned_of s \<and> map_dbout (lr_out_a l) = dp_out_a s \<and> map_dbout (lr_out_b l) = dp_out_b s"
proof -
  have i: "laned_init lines n = laned_of (ram_init lines n)"
    by (simp add: laned_init_def laned_of_def ram_init_def laned_create map_replicate_const)
  have "length (dp_ram (ram_init lines n)) = max (length lines) n"
    by (auto simp: ram_init_def create_ram_def)
  with assms i have "l = laned_of s" by (simp add: laned_run)
  then show ?thesis by (simp add: laned_of_def map_dbout_lanes)
qed

theorem laned_ram_equivalent_witness:
  "map_dbout (lr_out_b (clocked_run (\<lambda>(en, a, b). laned_ram_next en a b)
     [(True, 0, \<lparr>rp_en = True, rp_adrbus = 1, rp_wren = 6, rp_dbin = 0x1200ff00\<rparr>),
      (False, 0, \<lparr>rp_en = True, rp_adrbus = 1, rp_wren = 0, rp_dbin = 0\<rparr>)]
     (laned_init [0, 0x11223344] 4))) = 0x1100ff44"
  using laned_ram_equivalent[of "[(True, 0, \<lparr>rp_en = True, rp_adrbus = 1, rp_wren = 6, rp_dbin = 0x1200ff00\<rparr>),
      (False, 0, \<lparr>rp_en = True, rp_adrbus = 1, rp_wren = 0, rp_dbin = 0\<rparr>)]" "[0, 0x11223344]" 4,
      OF _ refl refl, THEN conjunct2, THEN conjunct2]
  by (simp add: ram_init_def dp_ram_next_def create_ram_def port_read_def port_write32_def
      merge_lanes_def lane_mask_def)

subsection \<open>The RAM port as a bus slave\<close>

text \<open>
  \<open>dbusToRamPort\<close>: the port signals, the response, and the acknowledge register of reads. A write
  is acknowledged in its own cycle, a read in the next one, with the data at the RAM output.
\<close>

definition ram_port_of :: "nat \<Rightarrow> dbus_req \<Rightarrow> ram_port" where
  "ram_port_of aw q = \<lparr>rp_en = db_en_o q,
     rp_adrbus = unat (take_bit aw (drop_bit 2 (db_adr_o q))),
     rp_wren = db_we_o q, rp_dbin = db_wr q\<rparr>"

definition ram_we :: "dbus_req \<Rightarrow> bool" where
  "ram_we q \<longleftrightarrow> db_we_o q \<noteq> 0"

definition ram_dbus_rsp :: "bool \<Rightarrow> dbus_req \<Rightarrow> xword \<Rightarrow> dbus_rsp" where
  "ram_dbus_rsp ack_rd q dbout = \<lparr>db_stall_i = False,
     db_ack_i = (ack_rd \<or> ram_we q \<and> db_en_o q), db_error_i = False, db_rd = dbout\<rparr>"

definition ram_ack_next :: "dbus_req \<Rightarrow> bool" where
  "ram_ack_next q \<longleftrightarrow> db_en_o q \<and> \<not> ram_we q"

text \<open>The read-only variant, for the instruction bus: the acknowledge is itself a register.\<close>

definition ibus_ack_next :: "bool \<Rightarrow> bool" where
  "ibus_ack_next en \<longleftrightarrow> en"

text \<open>The data port of the RAM on a data bus.\<close>

record bram_slave =
  br_ram :: "xword list"
  br_dbout :: xword
  br_ack_rd :: bool

definition bram_rsp :: "bram_slave \<Rightarrow> dbus_req \<Rightarrow> dbus_rsp" where
  "bram_rsp s q = ram_dbus_rsp (br_ack_rd s) q (br_dbout s)"

definition bram_next :: "nat \<Rightarrow> dbus_req \<Rightarrow> bram_slave \<Rightarrow> bram_slave" where
  "bram_next aw q s =
     (let p = ram_port_of aw q in
      \<lparr>br_ram = port_write32 p (br_ram s),
        br_dbout = port_read (rp_en p) (rp_adrbus p) (br_ram s) (br_dbout s),
        br_ack_rd = ram_ack_next q\<rparr>)"

lemma ram_adr_bound: "rp_adrbus (ram_port_of aw q) < 2 ^ aw"
proof -
  have "unat (take_bit aw (drop_bit 2 (db_adr_o q))) = take_bit aw (unat (drop_bit 2 (db_adr_o q)))"
    by (simp add: unsigned_take_bit_eq)
  then show ?thesis by (simp add: ram_port_of_def)
qed

end
