(* ===== verification/Peripherals.thy ===== *)
theory Peripherals
  imports Bus
begin

text \<open>
  The small bus slaves of the SoC: the LED register and the Wishbone dummy of
  \<open>rtl/soc/bonfire_core_soc.py\<close>, and the adapter from the data bus to a Wishbone master of
  \<open>rtl/bonfire_interfaces.py\<close>.
\<close>

unbundle bit_operations_syntax

subsection \<open>LED register\<close>

text \<open>\<open>led_out\<close> for \<open>n\<close> LEDs (1 to 8): the register holds the low \<open>n\<close> bits of the last word
  written with byte lane 0 enabled.\<close>

definition led_next :: "nat \<Rightarrow> bool \<Rightarrow> dbus_req \<Rightarrow> 8 word \<Rightarrow> 8 word" where
  "led_next n reset q led_reg =
     (if reset then 0
      else if db_en_o q then
        (if bit (db_we_o q) 0 then bv_slice n 0 (db_wr q) else led_reg)
      else led_reg)"

definition led_rsp :: "nat \<Rightarrow> 8 word \<Rightarrow> dbus_req \<Rightarrow> dbus_rsp" where
  "led_rsp n led_reg q = \<lparr>db_stall_i = False, db_ack_i = db_en_o q, db_error_i = False,
     db_rd = (if db_en_o q then bv_slice n 0 led_reg else 0)\<rparr>"

definition led_pins :: "nat \<Rightarrow> bool \<Rightarrow> 8 word \<Rightarrow> 8 word" where
  "led_pins n active_low led_reg = (if active_low then take_bit n (NOT led_reg) else led_reg)"

subsection \<open>Wishbone master\<close>

text \<open>The signals of a Wishbone master with a 32-bit data bus and byte granularity.\<close>

record wb_out =
  wbm_cyc_o :: bool
  wbm_stb_o :: bool
  wbm_we_o :: bool
  wbm_sel_o :: "4 word"
  wbm_adr_o :: xword
  wbm_db_o :: xword

record wb_in =
  wbm_ack_i :: bool
  wbm_err_i :: bool
  wbm_stall_i :: bool
  wbm_db_i :: xword

text \<open>The configuration of the bundle.\<close>

record wb_config =
  wbc_adrHigh :: nat
  wbc_adrLow :: nat
  wbc_pipelined :: bool
  wbc_errorSupported :: bool

definition wb_config_default :: wb_config where
  "wb_config_default = \<lparr>wbc_adrHigh = 32, wbc_adrLow = 2, wbc_pipelined = False,
     wbc_errorSupported = False\<rparr>"

text \<open>\<open>DbusToWishbone\<close>; the state is the register \<open>cyc_r\<close>.\<close>

definition dbw_cyc_o :: "bool \<Rightarrow> dbus_req \<Rightarrow> bool" where
  "dbw_cyc_o cyc_r q \<longleftrightarrow> cyc_r \<or> db_en_o q"

definition dbw_out :: "wb_config \<Rightarrow> bool \<Rightarrow> dbus_req \<Rightarrow> wb_out" where
  "dbw_out c cyc_r q =
     \<lparr>wbm_cyc_o = dbw_cyc_o cyc_r q,
       wbm_stb_o = (if wbc_pipelined c then db_en_o q else dbw_cyc_o cyc_r q),
       wbm_we_o = (db_we_o q \<noteq> 0 \<and> dbw_cyc_o cyc_r q),
       wbm_sel_o = (if db_we_o q \<noteq> 0 then db_we_o q else 0xf),
       wbm_adr_o = bv_slice (wbc_adrHigh c) (wbc_adrLow c) (db_adr_o q),
       wbm_db_o = db_wr q\<rparr>"

definition dbw_rsp :: "wb_config \<Rightarrow> bool \<Rightarrow> dbus_req \<Rightarrow> wb_in \<Rightarrow> dbus_rsp" where
  "dbw_rsp c cyc_r q w =
     \<lparr>db_stall_i = (if wbc_pipelined c then wbm_stall_i w
                    else if dbw_cyc_o cyc_r q then \<not> wbm_ack_i w else False),
       db_ack_i = wbm_ack_i w,
       db_error_i = (wbc_errorSupported c \<and> wbm_err_i w),
       db_rd = wbm_db_i w\<rparr>"

definition dbw_next :: "bool \<Rightarrow> dbus_req \<Rightarrow> wb_in \<Rightarrow> bool \<Rightarrow> bool" where
  "dbw_next reset q w cyc_r = (if reset then False else if wbm_ack_i w then False else db_en_o q)"

subsection \<open>Wishbone dummy\<close>

definition wishbone_dummy :: "wb_out \<Rightarrow> wb_in" where
  "wishbone_dummy o' =
     (if wbm_cyc_o o' \<and> wbm_stb_o o' then
        \<lparr>wbm_ack_i = True, wbm_err_i = False, wbm_stall_i = False, wbm_db_i = 0x44554D59\<rparr>
      else \<lparr>wbm_ack_i = False, wbm_err_i = False, wbm_stall_i = False, wbm_db_i = 0\<rparr>)"

subsection \<open>A standard Wishbone cycle\<close>

text \<open>
  A run of the adapter against the answers of a Wishbone slave: what the slave sees and what the
  master sees, cycle by cycle.
\<close>

fun dbw_trace :: "wb_config \<Rightarrow> (dbus_req \<times> wb_in) list \<Rightarrow> bool \<Rightarrow> (wb_out \<times> dbus_rsp) list \<times> bool" where
  "dbw_trace c [] cyc_r = ([], cyc_r)"
| "dbw_trace c ((q, w) # xs) cyc_r =
     (let (os, cyc_r') = dbw_trace c xs (dbw_next False q w cyc_r)
      in ((dbw_out c cyc_r q, dbw_rsp c cyc_r q w) # os, cyc_r'))"

definition dbw_cycle_out :: "wb_config \<Rightarrow> dbus_req \<Rightarrow> wb_out" where
  "dbw_cycle_out c q = \<lparr>wbm_cyc_o = True, wbm_stb_o = True, wbm_we_o = (db_we_o q \<noteq> 0),
     wbm_sel_o = (if db_we_o q \<noteq> 0 then db_we_o q else 0xf),
     wbm_adr_o = bv_slice (wbc_adrHigh c) (wbc_adrLow c) (db_adr_o q), wbm_db_o = db_wr q\<rparr>"

lemma dbw_standard_trace:
  assumes "\<not> wbc_pipelined c" "db_en_o q" "\<forall>w \<in> set ws. \<not> wbm_ack_i w" "wbm_ack_i a"
  shows "dbw_trace c (map (\<lambda>w. (q, w)) (ws @ [a])) cyc_r =
    (map (\<lambda>w. (dbw_cycle_out c q, \<lparr>db_stall_i = True, db_ack_i = False,
        db_error_i = (wbc_errorSupported c \<and> wbm_err_i w), db_rd = wbm_db_i w\<rparr>)) ws @
     [(dbw_cycle_out c q, \<lparr>db_stall_i = False, db_ack_i = True,
        db_error_i = (wbc_errorSupported c \<and> wbm_err_i a), db_rd = wbm_db_i a\<rparr>)], False)"
  using assms
  by (induction ws arbitrary: cyc_r)
    (simp_all add: dbw_out_def dbw_rsp_def dbw_next_def dbw_cyc_o_def dbw_cycle_out_def)

end
