(* ===== verification/Uart.thy ===== *)
theory Uart
  imports Bus
begin

text \<open>
  The UART of the SoC (\<open>rtl/uncore/uart/uart.py\<close>): the bus registers, the 8N1 transmitter with its
  one-byte buffer, the receiver with start-bit qualification and majority sampling, and their
  composition. The frames on the line are stated as functions of time, in clock cycles.
\<close>

subsection \<open>State\<close>

record uart_regs =
  ur_tx_divider :: "16 word"
  ur_rx_start_qual_ticks :: "16 word"
  ur_rx_start_sample_ticks :: "16 word"
  ur_ext_mode_en :: bool
  ur_enabled_q :: bool
  ur_fifo_threshold :: "14 word"
  ur_rx_int_en :: bool
  ur_tx_int_en :: bool
  ur_fifo_int_en :: bool

record uart_tx =
  ut_tx_busy :: bool
  ut_tx_buffer_valid :: bool
  ut_tx_line :: bool
  ut_tx_buffer :: "8 word"
  ut_tx_shift :: "8 word"
  ut_tx_bit_index :: "4 word"
  ut_tx_div_count :: "16 word"

record uart_rx =
  ux_rx_busy :: bool
  ux_start_candidate :: bool
  ux_stop_bit :: bool
  ux_rx_shift :: "8 word"
  ux_rx_bit_index :: "4 word"
  ux_rx_div_count :: "16 word"
  ux_start_ticks :: "16 word"
  ux_rx_sample_phase :: "2 word"
  ux_rx_sample_ones :: "3 word"
  ux_rx_sync_1 :: bool
  ux_rx_sync_2 :: bool
  ux_rx_prev :: bool
  ux_rx_data :: "8 word"
  ux_rx_ready :: bool
  ux_rx_framing_error :: bool

text \<open>The receiver's thresholds for a divider: 13/16 and 11/16 of it by shifts and additions.\<close>

definition qual_ticks :: "16 word \<Rightarrow> 16 word" where
  "qual_ticks d = drop_bit 1 d + drop_bit 2 d + drop_bit 4 d"

definition sample_ticks :: "16 word \<Rightarrow> 16 word" where
  "sample_ticks d = drop_bit 1 d + drop_bit 3 d + drop_bit 4 d"

definition uart_regs_reset :: uart_regs where
  "uart_regs_reset = \<lparr>ur_tx_divider = 0xFFFF, ur_rx_start_qual_ticks = qual_ticks 0xFFFF,
     ur_rx_start_sample_ticks = sample_ticks 0xFFFF, ur_ext_mode_en = False, ur_enabled_q = False,
     ur_fifo_threshold = 0, ur_rx_int_en = False, ur_tx_int_en = False, ur_fifo_int_en = False\<rparr>"

definition uart_tx_reset :: uart_tx where
  "uart_tx_reset = \<lparr>ut_tx_busy = False, ut_tx_buffer_valid = False, ut_tx_line = True,
     ut_tx_buffer = 0, ut_tx_shift = 0, ut_tx_bit_index = 0, ut_tx_div_count = 0\<rparr>"

definition uart_rx_reset :: uart_rx where
  "uart_rx_reset = \<lparr>ux_rx_busy = False, ux_start_candidate = False, ux_stop_bit = False,
     ux_rx_shift = 0, ux_rx_bit_index = 0, ux_rx_div_count = 0, ux_start_ticks = 0,
     ux_rx_sample_phase = 0, ux_rx_sample_ones = 0, ux_rx_sync_1 = True, ux_rx_sync_2 = True,
     ux_rx_prev = True, ux_rx_data = 0, ux_rx_ready = False, ux_rx_framing_error = False\<rparr>"

subsection \<open>Registers\<close>

text \<open>\<open>adr_o[4:2]\<close>, the register number.\<close>

definition uart_reg :: "dbus_req \<Rightarrow> 2 word" where
  "uart_reg q = bv_slice 4 2 (db_adr_o q)"

definition uart_tx_ready :: "uart_tx \<Rightarrow> bool" where
  "uart_tx_ready t \<longleftrightarrow> \<not> ut_tx_buffer_valid t"

definition uart_rx_pending :: "uart_regs \<Rightarrow> uart_rx \<Rightarrow> bool" where
  "uart_rx_pending r x \<longleftrightarrow> ur_rx_int_en r \<and> ux_rx_ready x"

definition uart_tx_pending :: "uart_regs \<Rightarrow> uart_tx \<Rightarrow> bool" where
  "uart_tx_pending r t \<longleftrightarrow> ur_tx_int_en r \<and> uart_tx_ready t"

definition uart_irq :: "uart_regs \<Rightarrow> uart_tx \<Rightarrow> uart_rx \<Rightarrow> bool" where
  "uart_irq r t x \<longleftrightarrow> uart_rx_pending r x \<or> uart_tx_pending r t"

definition uart_write_cycle :: "dbus_req \<Rightarrow> bool" where
  "uart_write_cycle q \<longleftrightarrow> db_en_o q \<and> db_we_o q \<noteq> 0"

definition uart_rx_reg_read :: "dbus_req \<Rightarrow> bool" where
  "uart_rx_reg_read q \<longleftrightarrow> db_en_o q \<and> db_we_o q = 0 \<and> uart_reg q = 0"

definition uart_tx_reg_write :: "dbus_req \<Rightarrow> uart_tx \<Rightarrow> bool" where
  "uart_tx_reg_write q t \<longleftrightarrow> uart_write_cycle q \<and> uart_reg q = 0 \<and> \<not> ut_tx_buffer_valid t"

definition uart_tx_reg_write_data :: "dbus_req \<Rightarrow> 8 word" where
  "uart_tx_reg_write_data q = bv_slice 8 0 (db_wr q)"

text \<open>\<open>read_mux\<close>; \<open>fb\<close> is \<open>fifo_bits\<close>, 1 to 14.\<close>

definition uart_read_data :: "nat \<Rightarrow> dbus_req \<Rightarrow> uart_regs \<Rightarrow> uart_tx \<Rightarrow> uart_rx \<Rightarrow> xword" where
  "uart_read_data fb q r t x =
     (if uart_reg q = 0 then
        (let d = bv_put_slice 8 0 (ux_rx_data x) 0
         in if ur_ext_mode_en r then bv_put 31 (ux_rx_framing_error x) d else d)
      else if uart_reg q = 1 then
        (let d = bv_put 2 (ut_tx_busy t) (bv_put 1 (uart_tx_ready t) (bv_put 0 (ux_rx_ready x) 0))
         in if ur_ext_mode_en r then bv_put_slice 20 16 (of_nat fb :: 4 word) (bv_put 3 False d) else d)
      else if uart_reg q = 2 then
        bv_put_slice (18 + fb) 18 (ur_fifo_threshold r)
          (bv_put 17 (ur_ext_mode_en r) (bv_put 16 (ur_enabled_q r)
             (bv_put_slice 16 0 (ur_tx_divider r) 0)))
      else
        (let d = bv_put 3 (ur_fifo_int_en r) (bv_put 1 (ur_tx_int_en r) (bv_put 0 (ur_rx_int_en r) 0))
         in if ur_ext_mode_en r
            then bv_put 19 False (bv_put 17 (uart_tx_pending r t) (bv_put 16 (uart_rx_pending r x) d))
            else d))"

definition uart_rsp :: "nat \<Rightarrow> dbus_req \<Rightarrow> uart_regs \<Rightarrow> uart_tx \<Rightarrow> uart_rx \<Rightarrow> dbus_rsp" where
  "uart_rsp fb q r t x = \<lparr>db_stall_i = False, db_ack_i = db_en_o q, db_error_i = False,
     db_rd = uart_read_data fb q r t x\<rparr>"

definition uart_regs_next :: "nat \<Rightarrow> bool \<Rightarrow> dbus_req \<Rightarrow> uart_regs \<Rightarrow> uart_regs" where
  "uart_regs_next fb reset q r =
     (if reset then uart_regs_reset
      else if uart_write_cycle q then
        (if uart_reg q = 2 then
           (let d = bv_slice 16 0 (db_wr q) in
            r\<lparr>ur_tx_divider := d, ur_rx_start_qual_ticks := qual_ticks d,
              ur_rx_start_sample_ticks := sample_ticks d,
              ur_enabled_q := bit (db_wr q) 16, ur_ext_mode_en := bit (db_wr q) 17,
              ur_fifo_threshold := bv_slice (18 + fb) 18 (db_wr q)\<rparr>)
         else if uart_reg q = 3 then
           r\<lparr>ur_rx_int_en := bit (db_wr q) 0, ur_tx_int_en := bit (db_wr q) 1,
             ur_fifo_int_en := bit (db_wr q) 3\<rparr>
         else r)
      else r)"

subsection \<open>Transmitter\<close>

text \<open>\<open>tx_fsm\<close>: the frame in progress, then the hand-over of a written byte to the buffer.\<close>

definition uart_tx_next :: "bool \<Rightarrow> 16 word \<Rightarrow> bool \<Rightarrow> 8 word \<Rightarrow> uart_tx \<Rightarrow> uart_tx" where
  "uart_tx_next reset divider wr wdata t =
     (if reset then uart_tx_reset
      else if ut_tx_busy t then
        (let t1 =
           (if ut_tx_div_count t = 0 then
              (let t0 = t\<lparr>ut_tx_div_count := divider\<rparr> in
               if ut_tx_bit_index t < 8 then
                 t0\<lparr>ut_tx_line := bit (ut_tx_shift t) (unat (ut_tx_bit_index t)),
                    ut_tx_bit_index := ut_tx_bit_index t + 1\<rparr>
               else if ut_tx_bit_index t = 8 then t0\<lparr>ut_tx_line := True, ut_tx_bit_index := 9\<rparr>
               else if ut_tx_buffer_valid t then
                 t0\<lparr>ut_tx_shift := ut_tx_buffer t, ut_tx_buffer_valid := False,
                    ut_tx_line := False, ut_tx_bit_index := 0\<rparr>
               else if wr then
                 t0\<lparr>ut_tx_shift := wdata, ut_tx_line := False, ut_tx_bit_index := 0\<rparr>
               else t0\<lparr>ut_tx_busy := False, ut_tx_line := True, ut_tx_bit_index := 0\<rparr>)
            else t\<lparr>ut_tx_div_count := ut_tx_div_count t - 1\<rparr>)
         in if wr \<and> \<not> (ut_tx_div_count t = 0 \<and> ut_tx_bit_index t = 9 \<and> \<not> ut_tx_buffer_valid t)
            then t1\<lparr>ut_tx_buffer := wdata, ut_tx_buffer_valid := True\<rparr>
            else t1)
      else if wr then
        t\<lparr>ut_tx_busy := True, ut_tx_shift := wdata, ut_tx_line := False, ut_tx_bit_index := 0,
          ut_tx_div_count := divider\<rparr>
      else t)"

subsection \<open>Receiver\<close>

definition uart_majority :: "3 word \<Rightarrow> bool \<Rightarrow> bool" where
  "uart_majority ones sample \<longleftrightarrow> ones = 2 \<or> ones = 1 \<and> sample"

definition uart_rx_next ::
  "bool \<Rightarrow> uart_regs \<Rightarrow> bool \<Rightarrow> bool \<Rightarrow> uart_rx \<Rightarrow> uart_rx" where
  "uart_rx_next reset r rd rx x =
     (if reset then uart_rx_reset
      else
        (let x0 = x\<lparr>ux_rx_sync_1 := rx, ux_rx_sync_2 := ux_rx_sync_1 x, ux_rx_prev := ux_rx_sync_2 x\<rparr>;
             x1 = (if rd then x0\<lparr>ux_rx_ready := False, ux_rx_framing_error := False\<rparr> else x0);
             level = ux_rx_sync_2 x;
             ones = (if level then ux_rx_sample_ones x + 1 else ux_rx_sample_ones x);
             major = uart_majority (ux_rx_sample_ones x) level
         in if ux_start_candidate x then
              (if level then x1\<lparr>ux_start_candidate := False, ux_start_ticks := 0\<rparr>
               else if ux_start_ticks x = ur_rx_start_qual_ticks r then
                 x1\<lparr>ux_start_candidate := False, ux_start_ticks := 0, ux_rx_busy := True,
                    ux_stop_bit := False, ux_rx_bit_index := 0, ux_rx_sample_phase := 0,
                    ux_rx_sample_ones := 0, ux_rx_div_count := ur_rx_start_sample_ticks r\<rparr>
               else x1\<lparr>ux_start_ticks := ux_start_ticks x + 1\<rparr>)
            else if ux_rx_busy x then
              (if ux_rx_div_count x = 0 then
                 (if ux_rx_sample_phase x = 2 then
                    (let x2 =
                       (if ux_stop_bit x then
                          x1\<lparr>ux_rx_data := ux_rx_shift x, ux_rx_ready := True,
                             ux_rx_framing_error := \<not> major, ux_rx_busy := False,
                             ux_stop_bit := False, ux_rx_bit_index := 0\<rparr>
                        else
                          (let x3 = x1\<lparr>ux_rx_shift :=
                               bv_put (unat (ux_rx_bit_index x)) major (ux_rx_shift x)\<rparr>
                           in if ux_rx_bit_index x = 7 then x3\<lparr>ux_stop_bit := True\<rparr>
                              else x3\<lparr>ux_rx_bit_index := ux_rx_bit_index x + 1\<rparr>))
                     in x2\<lparr>ux_rx_sample_phase := 0, ux_rx_sample_ones := 0,
                           ux_rx_div_count := ur_tx_divider r - 2\<rparr>)
                  else x1\<lparr>ux_rx_sample_ones := ones,
                          ux_rx_sample_phase := ux_rx_sample_phase x + 1, ux_rx_div_count := 0\<rparr>)
               else x1\<lparr>ux_rx_div_count := ux_rx_div_count x - 1\<rparr>)
            else if ux_rx_prev x \<and> \<not> level then x1\<lparr>ux_start_candidate := True, ux_start_ticks := 0\<rparr>
            else x1))"

subsection \<open>The UART\<close>

record uart =
  u_regs :: uart_regs
  u_tx :: uart_tx
  u_rx :: uart_rx

definition uart_reset :: uart where
  "uart_reset = \<lparr>u_regs = uart_regs_reset, u_tx = uart_tx_reset, u_rx = uart_rx_reset\<rparr>"

definition uart_next :: "nat \<Rightarrow> bool \<Rightarrow> dbus_req \<Rightarrow> bool \<Rightarrow> uart \<Rightarrow> uart" where
  "uart_next fb reset q rx u =
     \<lparr>u_regs = uart_regs_next fb reset q (u_regs u),
       u_tx = uart_tx_next reset (ur_tx_divider (u_regs u)) (uart_tx_reg_write q (u_tx u))
         (uart_tx_reg_write_data q) (u_tx u),
       u_rx = uart_rx_next reset (u_regs u) (uart_rx_reg_read q) rx (u_rx u)\<rparr>"

subsection \<open>Frames\<close>

text \<open>The bit period of a divider, and the level of the line \<open>t\<close> clocks after the start of the
  frame of a byte: start bit, eight data bits with the least significant first, stop bit.\<close>

definition bit_time :: "16 word \<Rightarrow> nat" where
  "bit_time d = unat d + 1"

definition frame_level :: "nat \<Rightarrow> 8 word \<Rightarrow> nat \<Rightarrow> bool" where
  "frame_level p b t =
     (let k = t div p in if k = 0 then False else if k \<le> 8 then bit b (k - 1) else True)"

text \<open>The transmitter over time, with the write pulses \<open>w\<close>.\<close>

primrec uart_tx_at :: "16 word \<Rightarrow> (nat \<Rightarrow> bool \<times> 8 word) \<Rightarrow> uart_tx \<Rightarrow> nat \<Rightarrow> uart_tx" where
  "uart_tx_at d w t0 0 = t0"
| "uart_tx_at d w t0 (Suc n) = uart_tx_next False d (fst (w n)) (snd (w n)) (uart_tx_at d w t0 n)"

text \<open>The last clock of a frame, and the byte that the transmitter starts to send at a clock edge.\<close>

definition tx_frame_end :: "uart_tx \<Rightarrow> bool" where
  "tx_frame_end t \<longleftrightarrow> ut_tx_busy t \<and> ut_tx_bit_index t = 9 \<and> ut_tx_div_count t = 0"

definition tx_starts :: "uart_tx \<Rightarrow> bool \<Rightarrow> 8 word \<Rightarrow> 8 word option" where
  "tx_starts t wr wdata =
     (if \<not> ut_tx_busy t then (if wr then Some wdata else None)
      else if tx_frame_end t then
        (if ut_tx_buffer_valid t then Some (ut_tx_buffer t) else if wr then Some wdata else None)
      else None)"

lemma unat_16_bound: "unat (d :: 16 word) \<le> 65535"
proof -
  have "unat d < 2 ^ LENGTH(16)" by (rule unsigned_less)
  then show ?thesis by simp
qed

lemma unat_of_nat_small: "n < 2 ^ LENGTH('a) \<Longrightarrow> unat (of_nat n :: 'a::len word) = n"
  by (simp add: unsigned_of_nat take_bit_nat_eq_self)

lemma tx_start_step:
  assumes "tx_starts t wr wdata = Some b"
  shows "let t' = uart_tx_next False d wr wdata t in
    ut_tx_busy t' \<and> ut_tx_shift t' = b \<and> ut_tx_bit_index t' = 0 \<and> ut_tx_div_count t' = d \<and> \<not> ut_tx_line t'"
  using assms
  by (auto simp: tx_starts_def tx_frame_end_def uart_tx_next_def Let_def split: if_splits)

text \<open>In the middle of a bit, whatever is written, the frame goes on.\<close>

lemma tx_count_step:
  assumes "ut_tx_busy t" "ut_tx_div_count t \<noteq> 0"
  shows "let t' = uart_tx_next False d wr wdata t in
    ut_tx_busy t' \<and> ut_tx_shift t' = ut_tx_shift t \<and> ut_tx_bit_index t' = ut_tx_bit_index t \<and>
    ut_tx_div_count t' = ut_tx_div_count t - 1 \<and> ut_tx_line t' = ut_tx_line t"
  using assms by (simp add: uart_tx_next_def Let_def)

lemma tx_bit_step:
  assumes "ut_tx_busy t" "ut_tx_div_count t = 0" "ut_tx_bit_index t = of_nat k" "k \<le> 8"
  shows "let t' = uart_tx_next False d wr wdata t in
    ut_tx_busy t' \<and> ut_tx_shift t' = ut_tx_shift t \<and> ut_tx_bit_index t' = of_nat (k + 1) \<and>
    ut_tx_div_count t' = d \<and> ut_tx_line t' = (if k < 8 then bit (ut_tx_shift t) k else True)"
proof -
  have k: "unat (of_nat k :: 4 word) = k" using assms(4) by (simp add: unat_of_nat_small)
  have "ut_tx_bit_index t < 8 \<longleftrightarrow> k < 8" "ut_tx_bit_index t = 8 \<longleftrightarrow> k = 8" "ut_tx_bit_index t \<noteq> 9"
    using assms(3,4) k by (auto simp: word_less_nat_alt word_unat_eq_iff)
  with assms k show ?thesis by (simp add: uart_tx_next_def Let_def add.commute)
qed

lemma tx_frame_state:
  assumes st: "tx_starts t0 (fst (w 0)) (snd (w 0)) = Some b" and p: "p = bit_time d"
  shows "n < 10 * p \<Longrightarrow> let t = uart_tx_at d w t0 (Suc n) in
    ut_tx_busy t \<and> ut_tx_shift t = b \<and> ut_tx_bit_index t = of_nat (n div p) \<and>
    ut_tx_div_count t = of_nat (unat d - n mod p) \<and> ut_tx_line t = frame_level p b n"
proof (induction n)
  case 0
  show ?case using tx_start_step[OF st, of d] by (simp add: Let_def frame_level_def)
next
  case (Suc n)
  let ?t = "uart_tx_at d w t0 (Suc n)"
  have p0: "0 < p" by (simp add: p bit_time_def)
  have IH: "ut_tx_busy ?t" "ut_tx_shift ?t = b" "ut_tx_bit_index ?t = of_nat (n div p)"
    "ut_tx_div_count ?t = of_nat (unat d - n mod p)" "ut_tx_line ?t = frame_level p b n"
    using Suc by (simp_all add: Let_def)
  have m: "n mod p \<le> unat d" using mod_less_divisor[OF p0, of n] by (simp add: p bit_time_def)
  have "unat (of_nat (unat d - n mod p) :: 16 word) = unat d - n mod p"
    by (rule unat_of_nat_small) (use unat_16_bound[of d] in simp)
  then have z: "ut_tx_div_count ?t = 0 \<longleftrightarrow> n mod p = unat d"
    using m unfolding IH(4) word_unat_eq_iff by auto
  show ?case
  proof (cases "n mod p = unat d")
    case True
    then have d: "Suc n div p = Suc (n div p)" "Suc n mod p = 0"
      using p0 by (simp_all add: div_Suc mod_Suc p bit_time_def)
    have "Suc n div p < 10" using Suc.prems p0 by (simp add: less_mult_imp_div_less)
    then have k: "n div p \<le> 8" using d by simp
    have "let t' = uart_tx_at d w t0 (Suc (Suc n)) in
      ut_tx_busy t' \<and> ut_tx_shift t' = ut_tx_shift ?t \<and> ut_tx_bit_index t' = of_nat (n div p + 1) \<and>
      ut_tx_div_count t' = d \<and> ut_tx_line t' = (if n div p < 8 then bit (ut_tx_shift ?t) (n div p) else True)"
      using tx_bit_step[OF IH(1) _ IH(3) k, of d] z True
      by (simp only: uart_tx_at.simps(2)[of d w t0 "Suc n"])
    then show ?thesis using d k IH(2) by (auto simp: Let_def frame_level_def)
  next
    case False
    then have d: "Suc n div p = n div p" "Suc n mod p = Suc (n mod p)"
      using p0 m by (simp_all add: div_Suc mod_Suc p bit_time_def)
    have "let t' = uart_tx_at d w t0 (Suc (Suc n)) in
      ut_tx_busy t' \<and> ut_tx_shift t' = ut_tx_shift ?t \<and> ut_tx_bit_index t' = ut_tx_bit_index ?t \<and>
      ut_tx_div_count t' = ut_tx_div_count ?t - 1 \<and> ut_tx_line t' = ut_tx_line ?t"
      using tx_count_step[OF IH(1), of d] z False
      by (simp only: uart_tx_at.simps(2)[of d w t0 "Suc n"] simp_thms)
    moreover have "(of_nat (unat d - n mod p) :: 16 word) - 1 = of_nat (unat d - Suc (n mod p))"
      using m False by (simp add: of_nat_diff)
    ultimately show ?thesis using d IH(2-) by (simp add: Let_def frame_level_def)
  qed
qed

lemma tx_frame_line:
  assumes "tx_starts t0 (fst (w 0)) (snd (w 0)) = Some b" "n < 10 * bit_time d"
  shows "ut_tx_line (uart_tx_at d w t0 (Suc n)) = frame_level (bit_time d) b n"
  using tx_frame_state[of t0 w b "bit_time d" d n] assms by (simp add: Let_def)

text \<open>
  The transmitter sends an 8N1 frame. When it starts a byte - written to the idle
  transmitter, or at the end of a frame taken from the buffer or from a write in that clock - the
  line carries for ten bit times of \<open>divider + 1\<close> clocks the start bit, the eight data bits with the
  least significant first and the stop bit, whatever is written meanwhile; then the transmitter
  is at the end of a frame, from where the next byte follows without a gap.
\<close>

theorem uart_tx_frame:
  assumes "tx_starts t0 (fst (w 0)) (snd (w 0)) = Some b" "n < 10 * bit_time d"
  shows "ut_tx_line (uart_tx_at d w t0 (Suc n)) = frame_level (bit_time d) b n \<and>
    tx_frame_end (uart_tx_at d w t0 (10 * bit_time d))"
proof -
  let ?p = "bit_time d"
  have "(9 * ?p + unat d) mod ?p = unat d"
    by (subst mod_mult_self3) (simp add: bit_time_def)
  moreover have "(9 * ?p + unat d) div ?p = 9"
    by (rule div_nat_eqI) (simp_all add: bit_time_def)
  ultimately have e: "Suc (9 * ?p + unat d) = 10 * ?p" "9 * ?p + unat d < 10 * ?p"
    "(9 * ?p + unat d) div ?p = 9" "(9 * ?p + unat d) mod ?p = unat d"
    by (simp_all add: bit_time_def)
  show ?thesis
    using tx_frame_state[of t0 w b ?p d n] tx_frame_state[of t0 w b ?p d "9 * ?p + unat d"] assms e(2)
    unfolding e by (simp add: Let_def tx_frame_end_def)
qed

theorem uart_tx_frame_witness:
  "tx_frame_end (uart_tx_at 3 (\<lambda>n. (n = 0, 0xA5)) uart_tx_reset 40)"
  using uart_tx_frame[of uart_tx_reset "\<lambda>n. (n = 0, 0xA5)" "0xA5" 0 3]
  by (simp add: tx_starts_def uart_tx_reset_def bit_time_def)

subsection \<open>Reception\<close>

text \<open>The receiver over time, with the line \<open>l\<close> and the reads \<open>rd\<close> of the receive register.\<close>

primrec uart_rx_at :: "uart_regs \<Rightarrow> (nat \<Rightarrow> bool) \<Rightarrow> (nat \<Rightarrow> bool) \<Rightarrow> uart_rx \<Rightarrow> nat \<Rightarrow> uart_rx" where
  "uart_rx_at r rd l x0 0 = x0"
| "uart_rx_at r rd l x0 (Suc n) = uart_rx_next False r (rd n) (l n) (uart_rx_at r rd l x0 n)"

definition rx_quiet :: "uart_rx \<Rightarrow> bool" where
  "rx_quiet x \<longleftrightarrow> \<not> ux_rx_busy x \<and> \<not> ux_start_candidate x"

definition rx_idle :: "uart_rx \<Rightarrow> bool" where
  "rx_idle x \<longleftrightarrow> rx_quiet x \<and> ux_rx_sync_1 x \<and> ux_rx_sync_2 x \<and> ux_rx_prev x"

lemma rx_next_sync [simp]:
  "ux_rx_sync_1 (uart_rx_next False r rd l x) = l"
  "ux_rx_sync_2 (uart_rx_next False r rd l x) = ux_rx_sync_1 x"
  "ux_rx_prev (uart_rx_next False r rd l x) = ux_rx_sync_2 x"
  by (simp_all add: uart_rx_next_def Let_def)

text \<open>The receiver's state apart from the synchroniser and the read flags, step by step.\<close>

lemma rx_quiet_step:
  assumes "rx_quiet x"
  shows "let x' = uart_rx_next False r rd l x in \<not> ux_rx_busy x' \<and>
    (ux_start_candidate x' \<longleftrightarrow> ux_rx_prev x \<and> \<not> ux_rx_sync_2 x) \<and>
    (ux_start_candidate x' \<longrightarrow> ux_start_ticks x' = 0)"
  using assms by (simp add: uart_rx_next_def Let_def rx_quiet_def)

lemma rx_candidate_step:
  assumes "ux_start_candidate x" "\<not> ux_rx_busy x" "\<not> ux_rx_sync_2 x"
  shows "let x' = uart_rx_next False r rd l x in
    if ux_start_ticks x = ur_rx_start_qual_ticks r then
      \<not> ux_start_candidate x' \<and> ux_rx_busy x' \<and> \<not> ux_stop_bit x' \<and> ux_rx_bit_index x' = 0 \<and>
      ux_rx_sample_phase x' = 0 \<and> ux_rx_sample_ones x' = 0 \<and>
      ux_rx_div_count x' = ur_rx_start_sample_ticks r
    else ux_start_candidate x' \<and> \<not> ux_rx_busy x' \<and> ux_start_ticks x' = ux_start_ticks x + 1"
  using assms by (simp add: uart_rx_next_def Let_def)

text \<open>Receiving bit \<open>k\<close> (8 is the stop bit): the first \<open>k\<close> bits of \<open>b\<close> are in the shift register.\<close>

definition rx_receiving :: "nat \<Rightarrow> 8 word \<Rightarrow> uart_rx \<Rightarrow> bool" where
  "rx_receiving k b x \<longleftrightarrow> ux_rx_busy x \<and> \<not> ux_start_candidate x \<and> k \<le> 8 \<and>
     (ux_stop_bit x \<longleftrightarrow> k = 8) \<and> ux_rx_bit_index x = of_nat (min k 7) \<and>
     (\<forall>i < k. bit (ux_rx_shift x) i \<longleftrightarrow> bit b i)"

lemma rx_count_step:
  assumes "rx_receiving k b x" "ux_rx_div_count x \<noteq> 0"
  shows "let x' = uart_rx_next False r rd l x in rx_receiving k b x' \<and>
    ux_rx_sample_phase x' = ux_rx_sample_phase x \<and> ux_rx_sample_ones x' = ux_rx_sample_ones x \<and>
    ux_rx_div_count x' = ux_rx_div_count x - 1"
  using assms by (simp add: uart_rx_next_def Let_def rx_receiving_def)

lemma rx_sample_step:
  assumes "rx_receiving k b x" "ux_rx_div_count x = 0" "ux_rx_sample_phase x \<noteq> 2"
  shows "let x' = uart_rx_next False r rd l x in rx_receiving k b x' \<and>
    ux_rx_sample_phase x' = ux_rx_sample_phase x + 1 \<and>
    ux_rx_sample_ones x' = (if ux_rx_sync_2 x then ux_rx_sample_ones x + 1 else ux_rx_sample_ones x) \<and>
    ux_rx_div_count x' = 0"
  using assms by (simp add: uart_rx_next_def Let_def rx_receiving_def)

lemma rx_bit_step:
  assumes "rx_receiving k b x" "k < 8" "ux_rx_div_count x = 0" "ux_rx_sample_phase x = 2"
    and "uart_majority (ux_rx_sample_ones x) (ux_rx_sync_2 x) = bit b k"
  shows "let x' = uart_rx_next False r rd l x in rx_receiving (Suc k) b x' \<and>
    ux_rx_sample_phase x' = 0 \<and> ux_rx_sample_ones x' = 0 \<and> ux_rx_div_count x' = ur_tx_divider r - 2"
proof -
  have k: "unat (of_nat k :: 4 word) = k" using assms(2) by (simp add: unat_of_nat_small)
  then have k7: "(of_nat k :: 4 word) = 7 \<longleftrightarrow> k = 7" by (auto simp: word_unat_eq_iff)
  have shift: "\<forall>i < Suc k. bit (bv_put k (bit b k) (ux_rx_shift x)) i \<longleftrightarrow> bit b i"
    using assms(1,2) by (auto simp: rx_receiving_def bv_simps less_Suc_eq)
  show ?thesis
    using assms k k7 shift
    by (cases "k = 7") (simp_all add: uart_rx_next_def Let_def rx_receiving_def add.commute)
qed

lemma rx_stop_step:
  assumes "rx_receiving 8 b x" "ux_rx_div_count x = 0" "ux_rx_sample_phase x = 2"
  shows "let x' = uart_rx_next False r rd l x in rx_quiet x' \<and> ux_rx_data x' = b \<and> ux_rx_ready x' \<and>
    (ux_rx_framing_error x' \<longleftrightarrow> \<not> uart_majority (ux_rx_sample_ones x) (ux_rx_sync_2 x))"
proof -
  have "ux_rx_shift x = b" using assms(1) by (intro bv_eqI) (simp add: rx_receiving_def)
  with assms show ?thesis by (simp add: uart_rx_next_def Let_def rx_receiving_def rx_quiet_def)
qed

lemma rx_sync_at:
  "ux_rx_sync_2 (uart_rx_at r rd l x0 (n + 2)) = l n"
  "ux_rx_prev (uart_rx_at r rd l x0 (n + 3)) = l n"
  by (simp_all add: numeral_2_eq_2 numeral_3_eq_3)

lemma rx_at_add:
  "uart_rx_at r rd l x0 (m + n) =
     uart_rx_at r (\<lambda>i. rd (m + i)) (\<lambda>i. l (m + i)) (uart_rx_at r rd l x0 m) n"
  by (induction n) simp_all

lemma rx_countdown:
  assumes "m \<le> 65535"
  shows "rx_receiving k b (uart_rx_at r rd l x0 n) \<Longrightarrow>
    ux_rx_div_count (uart_rx_at r rd l x0 n) = of_nat m \<Longrightarrow>
    let x = uart_rx_at r rd l x0 n; x' = uart_rx_at r rd l x0 (n + m) in
    rx_receiving k b x' \<and> ux_rx_div_count x' = 0 \<and>
    ux_rx_sample_phase x' = ux_rx_sample_phase x \<and> ux_rx_sample_ones x' = ux_rx_sample_ones x"
  using assms
proof (induction m arbitrary: n)
  case (Suc m)
  have "unat (of_nat (Suc m) :: 16 word) = Suc m"
    by (rule unat_of_nat_small) (use Suc.prems(3) in simp)
  then have nz: "ux_rx_div_count (uart_rx_at r rd l x0 n) \<noteq> 0"
    using Suc.prems(2) by (metis nat.distinct(1) unsigned_0)
  have st: "let x = uart_rx_at r rd l x0 n; x' = uart_rx_at r rd l x0 (Suc n) in rx_receiving k b x' \<and>
    ux_rx_sample_phase x' = ux_rx_sample_phase x \<and> ux_rx_sample_ones x' = ux_rx_sample_ones x \<and>
    ux_rx_div_count x' = ux_rx_div_count x - 1"
    using rx_count_step[OF Suc.prems(1) nz, of r "rd n" "l n"] by (simp add: Let_def)
  then show ?case
    using Suc.IH[of "Suc n"] Suc.prems(2,3) by (simp add: Let_def)
qed simp

declare uart_rx_at.simps(2) [simp del]

definition maj3 :: "bool \<Rightarrow> bool \<Rightarrow> bool \<Rightarrow> bool" where
  "maj3 u v w \<longleftrightarrow> u \<and> v \<or> u \<and> w \<or> v \<and> w"

text \<open>At the first sample of bit \<open>k\<close>.\<close>

definition rx_at_bit :: "nat \<Rightarrow> 8 word \<Rightarrow> uart_rx \<Rightarrow> bool" where
  "rx_at_bit k b x \<longleftrightarrow> rx_receiving k b x \<and> ux_rx_div_count x = 0 \<and> ux_rx_sample_phase x = 0 \<and>
     ux_rx_sample_ones x = 0"

lemma rx_two_samples:
  assumes "rx_at_bit k b (uart_rx_at r rd l x0 (u + 2))"
  defines "x \<equiv> uart_rx_at r rd l x0 (u + 4)"
  shows "rx_receiving k b x \<and> ux_rx_div_count x = 0 \<and> ux_rx_sample_phase x = 2 \<and>
    uart_majority (ux_rx_sample_ones x) (ux_rx_sync_2 x) = maj3 (l u) (l (u + 1)) (l (u + 2))"
proof -
  let ?x = "\<lambda>i. uart_rx_at r rd l x0 (u + i)"
  have s: "ux_rx_sync_2 (?x 2) = l u" "ux_rx_sync_2 (?x 3) = l (u + 1)" "ux_rx_sync_2 (?x 4) = l (u + 2)"
    using rx_sync_at(1)[of r rd l x0 u] rx_sync_at(1)[of r rd l x0 "u + 1"]
      rx_sync_at(1)[of r rd l x0 "u + 2"] by (simp_all add: numeral_eq_Suc)
  have n: "?x 3 = uart_rx_next False r (rd (u + 2)) (l (u + 2)) (?x 2)"
    "?x 4 = uart_rx_next False r (rd (u + 3)) (l (u + 3)) (?x 3)"
    by (simp_all add: numeral_eq_Suc uart_rx_at.simps(2))
  have x3: "rx_receiving k b (?x 3) \<and> ux_rx_sample_phase (?x 3) = 1 \<and>
      ux_rx_sample_ones (?x 3) = (if l u then 1 else 0) \<and> ux_rx_div_count (?x 3) = 0"
    using rx_sample_step[of k b "?x 2" r "rd (u + 2)" "l (u + 2)"] assms(1) s
    by (simp add: rx_at_bit_def n(1) Let_def)
  then have "rx_receiving k b (?x 4) \<and> ux_rx_sample_phase (?x 4) = 2 \<and>
      ux_rx_sample_ones (?x 4) = (if l (u + 1) then (if l u then 2 else 1) else (if l u then 1 else 0)) \<and>
      ux_rx_div_count (?x 4) = 0"
    using rx_sample_step[of k b "?x 3" r "rd (u + 3)" "l (u + 3)"] s
    by (simp add: n(2) Let_def)
  then show ?thesis using s by (auto simp: x_def uart_majority_def maj3_def)
qed

lemma rx_one_bit:
  assumes at: "rx_at_bit k b (uart_rx_at r rd l x0 (u + 2))" and k: "k < 8"
    and d: "2 \<le> unat (ur_tx_divider r)" and "maj3 (l u) (l (u + 1)) (l (u + 2)) = bit b k"
  shows "rx_at_bit (Suc k) b (uart_rx_at r rd l x0 (u + bit_time (ur_tx_divider r) + 2))"
proof -
  let ?x = "uart_rx_at r rd l x0" and ?D = "unat (ur_tx_divider r)"
  have "?x (u + 5) = uart_rx_next False r (rd (u + 4)) (l (u + 4)) (?x (u + 4))"
    by (simp add: numeral_eq_Suc uart_rx_at.simps(2))
  then have x5: "rx_receiving (Suc k) b (?x (u + 5))" "ux_rx_sample_phase (?x (u + 5)) = 0"
    "ux_rx_sample_ones (?x (u + 5)) = 0" "ux_rx_div_count (?x (u + 5)) = ur_tx_divider r - 2"
    using rx_bit_step[of k b "?x (u + 4)" r "rd (u + 4)" "l (u + 4)"] rx_two_samples[OF at] k assms(4)
    by (simp_all add: Let_def)
  have "ur_tx_divider r - 2 = of_nat (?D - 2)" using d by (simp add: of_nat_diff)
  moreover have "?D - 2 \<le> 65535" using unat_16_bound[of "ur_tx_divider r"] by simp
  moreover have e: "u + 5 + (?D - 2) = u + bit_time (ur_tx_divider r) + 2"
    using d by (simp add: bit_time_def)
  ultimately show ?thesis
    using rx_countdown[of "?D - 2" "Suc k" b r rd l x0 "u + 5", unfolded e] x5
    by (simp add: Let_def rx_at_bit_def)
qed

subsection \<open>Sampling points\<close>

text \<open>The registers hold the thresholds of their divider (so they do after every write). The start
  bit is qualified for \<open>qual\<close> clocks; the first sample of data bit 0 is taken \<open>first_sample\<close> clocks
  after the falling edge, that of bit \<open>k\<close> (8: the stop bit) \<open>k\<close> bit times later.\<close>

definition rx_timing :: "uart_regs \<Rightarrow> bool" where
  "rx_timing r \<longleftrightarrow> ur_rx_start_qual_ticks r = qual_ticks (ur_tx_divider r) \<and>
     ur_rx_start_sample_ticks r = sample_ticks (ur_tx_divider r)"

definition first_sample :: "16 word \<Rightarrow> nat" where
  "first_sample d = unat (qual_ticks d) + unat (sample_ticks d) + 2"

lemma unat_ticks:
  "unat (qual_ticks d) = unat d div 2 + unat d div 4 + unat d div 16"
  "unat (sample_ticks d) = unat d div 2 + unat d div 8 + unat d div 16"
proof -
  have b: "unat d \<le> 65535" by (rule unat_16_bound)
  have p: "unat (drop_bit k d) = unat d div 2 ^ k" for k
    unfolding unsigned_drop_bit_eq using b by (simp add: drop_bit_eq_div take_bit_nat_eq_self)
  have s: "unat (x + y + z) = unat x + unat y + unat z" if "unat x + unat y + unat z \<le> 65535"
    for x y z :: "16 word"
    using that by (simp add: unat_plus_if')
  show "unat (qual_ticks d) = unat d div 2 + unat d div 4 + unat d div 16"
    unfolding qual_ticks_def using b by (subst s) (simp_all add: p)
  show "unat (sample_ticks d) = unat d div 2 + unat d div 8 + unat d div 16"
    unfolding sample_ticks_def using b by (subst s) (simp_all add: p)
qed

lemma rx_timing_regs: "rx_timing uart_regs_reset" "rx_timing r \<Longrightarrow> rx_timing (uart_regs_next fb reset q r)"
  by (simp_all add: rx_timing_def uart_regs_reset_def uart_regs_next_def Let_def)

text \<open>From the falling edge to the first sample.\<close>

lemma rx_qualify:
  assumes idle: "rx_idle x0" and low: "\<forall>u \<le> unat (ur_rx_start_qual_ticks r) + 1. \<not> l u"
  shows "j \<le> unat (ur_rx_start_qual_ticks r) \<Longrightarrow> let x = uart_rx_at r rd l x0 (j + 3) in
    ux_start_candidate x \<and> \<not> ux_rx_busy x \<and> ux_start_ticks x = of_nat j"
proof (induction j)
  case 0
  let ?x = "uart_rx_at r rd l x0"
  have x1: "rx_quiet (?x 1)" "ux_rx_prev (?x 1)" "ux_rx_sync_2 (?x 1)"
    using idle rx_quiet_step[of x0 r "rd 0" "l 0"]
    by (simp_all add: rx_idle_def uart_rx_at.simps(2) rx_quiet_def Let_def)
  have x2: "rx_quiet (?x 2)" "ux_rx_prev (?x 2)" "\<not> ux_rx_sync_2 (?x 2)"
    using x1 rx_quiet_step[of "?x 1" r "rd 1" "l 1"] low
    by (simp_all add: numeral_2_eq_2 uart_rx_at.simps(2) rx_quiet_def Let_def)
  show ?case
    using rx_quiet_step[OF x2(1), of r "rd 2" "l 2"] x2
    by (simp add: numeral_3_eq_3 numeral_2_eq_2 uart_rx_at.simps(2) Let_def)
next
  case (Suc j)
  let ?x = "uart_rx_at r rd l x0 (j + 3)"
  have x: "ux_start_candidate ?x" "\<not> ux_rx_busy ?x" "ux_start_ticks ?x = of_nat j"
    using Suc by (simp_all add: Let_def)
  have "\<not> ux_rx_sync_2 ?x" using rx_sync_at(1)[of r rd l x0 "j + 1"] low Suc.prems by (simp add: numeral_3_eq_3)
  moreover have "ux_start_ticks ?x \<noteq> ur_rx_start_qual_ticks r"
  proof -
    have "unat (of_nat j :: 16 word) = j"
      by (rule unat_of_nat_small) (use Suc.prems unat_16_bound[of "ur_rx_start_qual_ticks r"] in simp)
    with x(3) Suc.prems show ?thesis by auto
  qed
  moreover have "uart_rx_at r rd l x0 (Suc j + 3) = uart_rx_next False r (rd (j + 3)) (l (j + 3)) ?x"
    by (simp add: uart_rx_at.simps(2)[symmetric])
  ultimately show ?case
    using rx_candidate_step[OF x(1,2), of r "rd (j + 3)" "l (j + 3)"] x(3)
    by (simp only: Let_def) (simp add: add.commute)
qed

lemma rx_first_bit:
  assumes idle: "rx_idle x0" and low: "\<forall>u \<le> unat (ur_rx_start_qual_ticks r) + 1. \<not> l u"
    and t: "rx_timing r"
  shows "rx_at_bit 0 b (uart_rx_at r rd l x0 (first_sample (ur_tx_divider r) + 2))"
proof -
  let ?q = "unat (ur_rx_start_qual_ticks r)" and ?s = "unat (ur_rx_start_sample_ticks r)"
  let ?x = "uart_rx_at r rd l x0"
  have x: "ux_start_candidate (?x (?q + 3))" "\<not> ux_rx_busy (?x (?q + 3))"
    "ux_start_ticks (?x (?q + 3)) = ur_rx_start_qual_ticks r"
    using rx_qualify[OF idle low, of ?q rd] by (simp_all add: Let_def)
  have "\<not> ux_rx_sync_2 (?x (?q + 3))"
    using rx_sync_at(1)[of r rd l x0 "?q + 1"] low by (simp add: numeral_3_eq_3)
  then have y: "rx_receiving 0 b (?x (?q + 4))" "ux_rx_sample_phase (?x (?q + 4)) = 0"
    "ux_rx_sample_ones (?x (?q + 4)) = 0" "ux_rx_div_count (?x (?q + 4)) = of_nat ?s"
    using rx_candidate_step[OF x(1,2), of r "rd (?q + 3)" "l (?q + 3)"] x(3)
      uart_rx_at.simps(2)[of r rd l x0 "?q + 3"]
    by (simp_all add: Let_def rx_receiving_def numeral_eq_Suc)
  have e: "?q + 4 + ?s = first_sample (ur_tx_divider r) + 2"
    using t by (simp add: first_sample_def rx_timing_def)
  show ?thesis
    using rx_countdown[of ?s 0 b r rd l x0 "?q + 4", unfolded e] y unat_16_bound[of "ur_rx_start_sample_ticks r"]
    by (simp add: Let_def rx_at_bit_def)
qed

definition sampled :: "(nat \<Rightarrow> bool) \<Rightarrow> nat \<Rightarrow> bool" where
  "sampled l u = maj3 (l u) (l (u + 1)) (l (u + 2))"

lemma rx_receives:
  assumes idle: "rx_idle x0" and low: "\<forall>u \<le> unat (ur_rx_start_qual_ticks r) + 1. \<not> l u"
    and t: "rx_timing r" and d: "2 \<le> unat (ur_tx_divider r)"
    and bits: "\<forall>k < 8. sampled l (first_sample (ur_tx_divider r) + k * bit_time (ur_tx_divider r)) = bit b k"
  shows "let x = uart_rx_at r rd l x0
      (first_sample (ur_tx_divider r) + 8 * bit_time (ur_tx_divider r) + 5) in
    rx_quiet x \<and> ux_rx_data x = b \<and> ux_rx_ready x \<and>
    ux_rx_framing_error x = (\<not> sampled l (first_sample (ur_tx_divider r) + 8 * bit_time (ur_tx_divider r)))"
proof -
  let ?T = "first_sample (ur_tx_divider r)" and ?p = "bit_time (ur_tx_divider r)"
  have at: "k \<le> 8 \<Longrightarrow> rx_at_bit k b (uart_rx_at r rd l x0 (?T + k * ?p + 2))" for k
  proof (induction k)
    case 0
    show ?case using rx_first_bit[OF idle low t, of b rd] by simp
  next
    case (Suc k)
    have "?T + Suc k * ?p + 2 = (?T + k * ?p) + ?p + 2" by simp
    with Suc bits rx_one_bit[of k b r rd l x0 "?T + k * ?p"] d show ?case
      by (simp only: sampled_def)
  qed
  let ?u = "?T + 8 * ?p"
  have "rx_at_bit 8 b (uart_rx_at r rd l x0 (?u + 2))" using at[of 8] by simp
  from rx_two_samples[OF this] have "let x = uart_rx_at r rd l x0 (?u + 4) in
      rx_receiving 8 b x \<and> ux_rx_div_count x = 0 \<and> ux_rx_sample_phase x = 2 \<and>
      uart_majority (ux_rx_sample_ones x) (ux_rx_sync_2 x) = sampled l ?u"
    by (simp add: Let_def sampled_def)
  then show ?thesis
    using rx_stop_step[of b "uart_rx_at r rd l x0 (?u + 4)" r "rd (?u + 4)" "l (?u + 4)"]
      uart_rx_at.simps(2)[of r rd l x0 "?u + 4"]
    by (simp add: Let_def numeral_eq_Suc)
qed

text \<open>A sender whose bit time is \<open>p\<close> against a receiver with divider \<open>d\<close>: every sample lies within its
  bit, and the start bit outlasts the qualification.\<close>

definition baud_ok :: "16 word \<Rightarrow> nat \<Rightarrow> bool" where
  "baud_ok d p \<longleftrightarrow> 2 \<le> unat d \<and> unat (qual_ticks d) + 1 < p \<and>
     p \<le> first_sample d \<and> first_sample d + 2 < 2 * p \<and>
     9 * p \<le> first_sample d + 8 * bit_time d \<and> first_sample d + 8 * bit_time d + 2 < 10 * p"

lemma baud_ok_window:
  assumes "baud_ok d p" "k \<le> 8"
  shows "(k + 1) * p \<le> first_sample d + k * bit_time d"
    and "first_sample d + k * bit_time d + 2 < (k + 2) * p"
proof -
  let ?T = "int (first_sample d)" and ?B = "int (bit_time d)" and ?p = "int p" and ?k = "int k"
  have c: "?p \<le> ?T" "?T + 2 < 2 * ?p" "9 * ?p \<le> ?T + 8 * ?B" "?T + 8 * ?B + 2 < 10 * ?p"
    using assms(1) by (simp_all add: baud_ok_def)
  have k: "0 \<le> ?k" "?k \<le> 8" using assms(2) by simp_all
  have "0 \<le> (8 - ?k) * (?T - ?p) + ?k * (?T + 8 * ?B - 9 * ?p)"
    using c k by (intro add_nonneg_nonneg mult_nonneg_nonneg) simp_all
  then have "(?k + 1) * ?p \<le> ?T + ?k * ?B" by (simp add: algebra_simps)
  then show "(k + 1) * p \<le> first_sample d + k * bit_time d"
    by (simp flip: of_nat_mult of_nat_add of_nat_Suc add: algebra_simps)
  have "0 \<le> (8 - ?k) * (2 * ?p - ?T - 3) + ?k * (10 * ?p - ?T - 8 * ?B - 3)"
    using c k by (intro add_nonneg_nonneg mult_nonneg_nonneg) simp_all
  then have "?T + ?k * ?B + 2 < (?k + 2) * ?p" by (simp add: algebra_simps)
  then show "first_sample d + k * bit_time d + 2 < (k + 2) * p"
    by (simp flip: of_nat_mult of_nat_add of_nat_Suc add: algebra_simps)
qed

lemma frame_window:
  assumes "(k + 1) * p \<le> u" "u + 2 < (k + 2) * p" "k \<le> 8"
  shows "sampled (frame_level p b) u = (if k < 8 then bit b k else True)"
proof -
  have "v div p = k + 1" if "u \<le> v" "v \<le> u + 2" for v
    using assms that by (intro div_nat_eqI) (simp_all add: mult.commute)
  then have "frame_level p b v = (if k < 8 then bit b k else True)" if "u \<le> v" "v \<le> u + 2" for v
    using that assms(3) by (auto simp: frame_level_def)
  then show ?thesis by (simp add: sampled_def maj3_def)
qed

lemma rx_frame_lemma:
  assumes "rx_idle x0" "rx_timing r" "baud_ok (ur_tx_divider r) p"
    and "\<forall>t < 10 * p. l t = frame_level p b t"
    and "n = first_sample (ur_tx_divider r) + 8 * bit_time (ur_tx_divider r) + 5"
  shows "let x = uart_rx_at r rd l x0 n in
    rx_quiet x \<and> ux_rx_data x = b \<and> ux_rx_ready x \<and> \<not> ux_rx_framing_error x"
proof -
  let ?T = "first_sample (ur_tx_divider r)" and ?B = "bit_time (ur_tx_divider r)"
  have p: "unat (ur_rx_start_qual_ticks r) + 1 < p" "2 \<le> unat (ur_tx_divider r)"
    using assms(2,3) by (simp_all add: baud_ok_def rx_timing_def)
  then have low: "\<forall>u \<le> unat (ur_rx_start_qual_ticks r) + 1. \<not> l u"
    using assms(4) by (simp add: frame_level_def)
  have "sampled l (?T + k * ?B) = (if k < 8 then bit b k else True)" if k: "k \<le> 8" for k
  proof -
    note w = baud_ok_window[OF assms(3) k]
    have "(k + 2) * p \<le> 10 * p" using k by (intro mult_le_mono1) simp
    with w(2) have "?T + k * ?B + 2 < 10 * p" by (rule less_le_trans)
    then have "sampled l (?T + k * ?B) = sampled (frame_level p b) (?T + k * ?B)"
      using assms(4) by (simp add: sampled_def)
    then show ?thesis using frame_window[OF w k] by simp
  qed
  then show ?thesis
    using rx_receives[OF assms(1) low assms(2) p(2), of b rd] unfolding assms(5) by (simp add: Let_def)
qed

text \<open>
  C30: The receiver decodes every frame within its baud-rate tolerance. A receiver that sees an
  idle line and whose thresholds are those of its divider \<open>d\<close> (every register write keeps them so)
  receives from the frame of a byte \<open>b\<close>, sent with bit time \<open>p\<close>, exactly \<open>b\<close> without a framing
  error, for every \<open>p\<close> for which the samples lie within their bits, with any reads of the receive
  register meanwhile, and is quiet again before the frame has ended.
\<close>

theorem uart_rx_frame:
  assumes "rx_idle x0" "rx_timing r" "baud_ok (ur_tx_divider r) p"
    and "\<forall>t < 10 * p. l t = frame_level p b t"
    and "n = first_sample (ur_tx_divider r) + 8 * bit_time (ur_tx_divider r) + 5"
  shows "let x = uart_rx_at r rd l x0 n in
    rx_quiet x \<and> ux_rx_data x = b \<and> ux_rx_ready x \<and> \<not> ux_rx_framing_error x"
  using rx_frame_lemma[OF assms] .

text \<open>A slightly fast sender: 101 clocks a bit against a receiver programmed for 104.\<close>

theorem uart_rx_frame_witness:
  "let x = uart_rx_at (uart_regs_reset\<lparr>ur_tx_divider := 103, ur_rx_start_qual_ticks := qual_ticks 103,
        ur_rx_start_sample_ticks := sample_ticks 103\<rparr>) (\<lambda>_. False) (frame_level 101 0x5A) uart_rx_reset 990 in
    rx_quiet x \<and> ux_rx_data x = 0x5A \<and> ux_rx_ready x \<and> \<not> ux_rx_framing_error x"
  using uart_rx_frame[of uart_rx_reset "uart_regs_reset\<lparr>ur_tx_divider := 103, ur_rx_start_qual_ticks := qual_ticks 103,
        ur_rx_start_sample_ticks := sample_ticks 103\<rparr>" 101 "frame_level 101 0x5A" "0x5A" 990 "\<lambda>_. False"]
  by (simp add: rx_idle_def rx_quiet_def uart_rx_reset_def rx_timing_def baud_ok_def bit_time_def
      first_sample_def unat_ticks)

text \<open>The shift-and-add thresholds against the bit time, on natural numbers.\<close>

lemma ticks_window:
  fixes n a b c e :: nat
  assumes "2 * a \<le> n" "n \<le> 2 * a + 1" "4 * b \<le> n" "n \<le> 4 * b + 3"
    "8 * c \<le> n" "n \<le> 8 * c + 7" "16 * e \<le> n" "n \<le> 16 * e + 15" "8 \<le> n"
  shows "a + b + e < n" "n + 1 \<le> a + b + e + (a + c + e) + 2"
    "a + b + e + (a + c + e) + 2 < 2 * n"
  using assms by linarith+

lemma baud_ok_same:
  assumes d: "3 \<le> unat d"
  shows "baud_ok d (bit_time d)"
proof (cases "unat d < 8")
  case True
  with d have "unat d \<in> {3, 4, 5, 6, 7}" by auto
  then show ?thesis
    unfolding baud_ok_def first_sample_def bit_time_def unat_ticks by auto
next
  case False
  define n where "n = unat d"
  have "2 * (n div 2) \<le> n" "n \<le> 2 * (n div 2) + 1" "4 * (n div 4) \<le> n" "n \<le> 4 * (n div 4) + 3"
    "8 * (n div 8) \<le> n" "n \<le> 8 * (n div 8) + 7" "16 * (n div 16) \<le> n" "n \<le> 16 * (n div 16) + 15"
    by presburger+
  moreover have n8: "8 \<le> n" using False by (simp add: n_def)
  ultimately have w: "n div 2 + n div 4 + n div 16 < n"
    "n + 1 \<le> n div 2 + n div 4 + n div 16 + (n div 2 + n div 8 + n div 16) + 2"
    "n div 2 + n div 4 + n div 16 + (n div 2 + n div 8 + n div 16) + 2 < 2 * n"
    by (rule ticks_window; assumption)+
  define q where "q = n div 2 + n div 4 + n div 16"
  define s where "s = n div 2 + n div 8 + n div 16"
  show ?thesis
    using w n8 unfolding baud_ok_def first_sample_def bit_time_def unat_ticks n_def[symmetric]
      q_def[symmetric] s_def[symmetric]
    by (simp add: algebra_simps)
qed

subsection \<open>Loopback\<close>

text \<open>The UART with its receive pin on its transmit pin (\<open>uartLoopback\<close> of the SoC), driven by bus
  requests; an access that does not change the control and interrupt registers.\<close>

primrec uart_loop_at :: "nat \<Rightarrow> (nat \<Rightarrow> dbus_req) \<Rightarrow> uart \<Rightarrow> nat \<Rightarrow> uart" where
  "uart_loop_at fb q u0 0 = u0"
| "uart_loop_at fb q u0 (Suc n) =
     (let u = uart_loop_at fb q u0 n in uart_next fb False (q n) (ut_tx_line (u_tx u)) u)"

definition uart_data_access :: "dbus_req \<Rightarrow> bool" where
  "uart_data_access q \<longleftrightarrow> uart_write_cycle q \<longrightarrow> uart_reg q = 0 \<or> uart_reg q = 1"

definition uart_idle :: "uart \<Rightarrow> bool" where
  "uart_idle u \<longleftrightarrow> \<not> ut_tx_busy (u_tx u) \<and> \<not> ut_tx_buffer_valid (u_tx u) \<and> ut_tx_line (u_tx u) \<and>
     rx_idle (u_rx u) \<and> rx_timing (u_regs u)"

lemma loop_components:
  assumes "\<forall>i. uart_data_access (q i)"
  shows "u_regs (uart_loop_at fb q u0 n) = u_regs u0 \<and>
    u_tx (uart_loop_at fb q u0 n) = uart_tx_at (ur_tx_divider (u_regs u0))
      (\<lambda>i. (uart_tx_reg_write (q i) (u_tx (uart_loop_at fb q u0 i)), uart_tx_reg_write_data (q i))) (u_tx u0) n \<and>
    u_rx (uart_loop_at fb q u0 n) = uart_rx_at (u_regs u0) (\<lambda>i. uart_rx_reg_read (q i))
      (\<lambda>i. ut_tx_line (u_tx (uart_loop_at fb q u0 i))) (u_rx u0) n"
proof (induction n)
  case (Suc n)
  have "uart_regs_next fb False (q n) r = r" for r
    using assms by (auto simp: uart_regs_next_def uart_data_access_def)
  with Suc show ?case by (simp add: uart_next_def Let_def uart_rx_at.simps(2))
qed simp

text \<open>
  C29: A byte written to the UART comes back. On an idle UART with its pins connected and any
  divider of at least 3, a write of the transmit register in one cycle is followed, after the
  time of nine and a half bits, by a receive register that holds this byte, ready and without a
  framing error, whatever data, status and receive registers are accessed meanwhile; a read of the
  receive register then returns the byte.
\<close>

theorem uart_loopback_roundtrip:
  assumes "uart_idle u0" "3 \<le> unat (ur_tx_divider (u_regs u0))" "\<forall>i. uart_data_access (q i)"
    and "uart_write_cycle (q 0)" "uart_reg (q 0) = 0"
    and "n = first_sample (ur_tx_divider (u_regs u0)) + 8 * bit_time (ur_tx_divider (u_regs u0)) + 6"
    and "uart_rx_reg_read rq"
  shows "let u = uart_loop_at fb q u0 n; b = bv_slice 8 0 (db_wr (q 0)) in
    ux_rx_data (u_rx u) = b \<and> ux_rx_ready (u_rx u) \<and> \<not> ux_rx_framing_error (u_rx u) \<and>
    bv_slice 8 0 (db_rd (uart_rsp fb rq (u_regs u) (u_tx u) (u_rx u))) = b"
proof -
  let ?r = "u_regs u0" and ?d = "ur_tx_divider (u_regs u0)" and ?b = "bv_slice 8 0 (db_wr (q 0)) :: 8 word"
  let ?u = "uart_loop_at fb q u0" and ?p = "bit_time (ur_tx_divider (u_regs u0))"
  let ?w = "\<lambda>i. (uart_tx_reg_write (q i) (u_tx (?u i)), uart_tx_reg_write_data (q i))"
  let ?l = "\<lambda>i. ut_tx_line (u_tx (?u i))" and ?rd = "\<lambda>i. uart_rx_reg_read (q i)"
  have ctx: "u_tx (?u i) = uart_tx_at ?d ?w (u_tx u0) i"
    and crx: "u_rx (?u i) = uart_rx_at ?r ?rd ?l (u_rx u0) i" for i
    using loop_components[OF assms(3), of fb u0 i] by blast+
  have start: "tx_starts (u_tx u0) (fst (?w 0)) (snd (?w 0)) = Some ?b"
    using assms(1,4,5)
    by (simp add: tx_starts_def uart_idle_def uart_tx_reg_write_def uart_tx_reg_write_data_def)
  have line: "?l (Suc t) = frame_level ?p ?b t" if "t < 10 * ?p" for t
    unfolding ctx[of "Suc t"] using tx_frame_line[of "u_tx u0" ?w ?b t ?d] start that by blast
  have idle0: "rx_idle (u_rx u0)" "rx_timing ?r" "?l 0" using assms(1) by (simp_all add: uart_idle_def)
  have idle1: "rx_idle (uart_rx_at ?r ?rd ?l (u_rx u0) 1)"
    using idle0 rx_quiet_step[of "u_rx u0" ?r "?rd 0" "?l 0"]
    by (simp add: rx_idle_def rx_quiet_def uart_rx_at.simps(2) Let_def)
  let ?m = "first_sample ?d + 8 * ?p + 5"
  have "let x = uart_rx_at ?r (\<lambda>i. ?rd (1 + i)) (\<lambda>i. ?l (1 + i)) (uart_rx_at ?r ?rd ?l (u_rx u0) 1) ?m in
      rx_quiet x \<and> ux_rx_data x = ?b \<and> ux_rx_ready x \<and> \<not> ux_rx_framing_error x"
    using rx_frame_lemma[of "uart_rx_at ?r ?rd ?l (u_rx u0) 1" ?r ?p "\<lambda>i. ?l (1 + i)" ?b ?m
        "\<lambda>i. ?rd (1 + i)"] idle1 idle0(2) baud_ok_same[OF assms(2)] line by simp
  moreover have "u_rx (?u n) = uart_rx_at ?r ?rd ?l (u_rx u0) (1 + ?m)"
  proof -
    have "n = 1 + ?m" using assms(6) by simp
    then show ?thesis by (simp only: crx)
  qed
  moreover have "uart_rx_at ?r ?rd ?l (u_rx u0) (1 + ?m) =
      uart_rx_at ?r (\<lambda>i. ?rd (1 + i)) (\<lambda>i. ?l (1 + i)) (uart_rx_at ?r ?rd ?l (u_rx u0) 1) ?m"
    by (rule rx_at_add)
  ultimately have res: "ux_rx_data (u_rx (?u n)) = ?b" "ux_rx_ready (u_rx (?u n))"
    "\<not> ux_rx_framing_error (u_rx (?u n))"
    by (simp_all only: Let_def simp_thms)
  have "bv_slice 8 0 (uart_read_data fb rq r t x) = ux_rx_data x" for r t x
    using assms(7) by (intro bv_eqI) (auto simp: uart_read_data_def uart_rx_reg_read_def bv_simps Let_def)
  with res show ?thesis by (simp add: Let_def uart_rsp_def)
qed

theorem uart_loopback_roundtrip_witness:
  "let u = uart_loop_at 5 (\<lambda>i. if i = 0 then \<lparr>db_en_o = True, db_adr_o = 0, db_we_o = 1, db_wr = 0x41\<rparr> else dbus_idle)
      (uart_reset\<lparr>u_regs := uart_regs_reset\<lparr>ur_tx_divider := 3, ur_rx_start_qual_ticks := qual_ticks 3,
        ur_rx_start_sample_ticks := sample_ticks 3\<rparr>\<rparr>) 42 in
    ux_rx_data (u_rx u) = 0x41 \<and> ux_rx_ready (u_rx u)"
proof -
  have "uart_reg dbus_idle = 0" "uart_reg \<lparr>db_en_o = True, db_adr_o = 0, db_we_o = 1, db_wr = 0x41\<rparr> = 0"
    "uart_reg \<lparr>db_en_o = True, db_adr_o = 0, db_we_o = 0, db_wr = 0\<rparr> = 0"
    "bv_slice 8 0 (0x41 :: xword) = (0x41 :: 8 word)"
    by (simp_all add: uart_reg_def dbus_idle_def bv_slice_def)
  then show ?thesis
    using uart_loopback_roundtrip[of "uart_reset\<lparr>u_regs := uart_regs_reset\<lparr>ur_tx_divider := 3,
          ur_rx_start_qual_ticks := qual_ticks 3, ur_rx_start_sample_ticks := sample_ticks 3\<rparr>\<rparr>"
        "\<lambda>i. if i = 0 then \<lparr>db_en_o = True, db_adr_o = 0, db_we_o = 1, db_wr = 0x41\<rparr> else dbus_idle" 42
        "\<lparr>db_en_o = True, db_adr_o = 0, db_we_o = 0, db_wr = 0\<rparr>" 5]
    by (simp add: uart_idle_def uart_reset_def uart_tx_reset_def uart_rx_reset_def rx_idle_def rx_quiet_def
        rx_timing_def uart_data_access_def uart_write_cycle_def uart_rx_reg_read_def first_sample_def
        unat_ticks bit_time_def Let_def)
qed

end
