(* ===== verification/Soc.thy ===== *)
theory Soc
  imports Interconnect Ram Peripherals Uart Device_Port
begin

text \<open>
  The data side of the SoC (\<open>rtl/soc/bonfire_core_soc.py\<close>, \<open>rtl/uncore/bonfire_core_ex.py\<close>): the
  core's interconnect with the block RAM, the Wishbone adapter with the dummy slave behind it, and
  the peripheral interconnect with the LED register and the UART.
\<close>

subsection \<open>Composition\<close>

record soc_params =
  sp_bramAdrWidth :: nat
  sp_numLeds :: nat
  sp_registerWishboneDbus :: bool
  sp_fifo_bits :: nat

record soc_bus =
  sb_core :: ic_state
  sb_bram :: bram_slave
  sb_cyc_r :: bool
  sb_native :: ic_state
  sb_led :: "8 word"
  sb_uart :: uart

definition soc_bus_reset :: "soc_params \<Rightarrow> xword list \<Rightarrow> soc_bus" where
  "soc_bus_reset p ram = \<lparr>sb_core = ic_reset (soc_core_cfg (sp_registerWishboneDbus p)),
     sb_bram = \<lparr>br_ram = ram, br_dbout = 0, br_ack_rd = False\<rparr>, sb_cyc_r = False,
     sb_native = ic_reset soc_native_cfg, sb_led = 0, sb_uart = uart_reset\<rparr>"

text \<open>The request at slot \<open>i\<close> of the core's interconnect (0: RAM, 1: Wishbone, 2: peripherals) and of
  the peripheral interconnect (0: LEDs, 1: UART).\<close>

definition soc_slot_req :: "soc_params \<Rightarrow> soc_bus \<Rightarrow> dbus_req \<Rightarrow> nat \<Rightarrow> dbus_req" where
  "soc_slot_req p s m i = ic_slave_req (soc_core_cfg (sp_registerWishboneDbus p)) (sb_core s) m i"

definition soc_native_req :: "soc_params \<Rightarrow> soc_bus \<Rightarrow> dbus_req \<Rightarrow> nat \<Rightarrow> dbus_req" where
  "soc_native_req p s m i = ic_slave_req soc_native_cfg (sb_native s) (soc_slot_req p s m 2) i"

definition soc_wb_in :: "soc_params \<Rightarrow> soc_bus \<Rightarrow> dbus_req \<Rightarrow> wb_in" where
  "soc_wb_in p s m = wishbone_dummy (dbw_out wb_config_default (sb_cyc_r s) (soc_slot_req p s m 1))"

definition soc_native_rsps :: "soc_params \<Rightarrow> soc_bus \<Rightarrow> dbus_req \<Rightarrow> dbus_rsp list" where
  "soc_native_rsps p s m =
     [led_rsp (sp_numLeds p) (sb_led s) (soc_native_req p s m 0),
      uart_rsp (sp_fifo_bits p) (soc_native_req p s m 1)
        (u_regs (sb_uart s)) (u_tx (sb_uart s)) (u_rx (sb_uart s))]"

definition soc_rsps :: "soc_params \<Rightarrow> soc_bus \<Rightarrow> dbus_req \<Rightarrow> dbus_rsp list" where
  "soc_rsps p s m =
     [bram_rsp (sb_bram s) (soc_slot_req p s m 0),
      dbw_rsp wb_config_default (sb_cyc_r s) (soc_slot_req p s m 1) (soc_wb_in p s m),
      ic_master_rsp soc_native_cfg (sb_native s) (soc_slot_req p s m 2) (soc_native_rsps p s m)]"

definition soc_rsp :: "soc_params \<Rightarrow> soc_bus \<Rightarrow> dbus_req \<Rightarrow> dbus_rsp" where
  "soc_rsp p s m = ic_master_rsp (soc_core_cfg (sp_registerWishboneDbus p)) (sb_core s) m (soc_rsps p s m)"

definition soc_next :: "soc_params \<Rightarrow> dbus_req \<Rightarrow> bool \<Rightarrow> soc_bus \<Rightarrow> soc_bus" where
  "soc_next p m rx s =
     \<lparr>sb_core = ic_next (soc_core_cfg (sp_registerWishboneDbus p)) False m (soc_rsps p s m) (sb_core s),
       sb_bram = bram_next (sp_bramAdrWidth p) (soc_slot_req p s m 0) (sb_bram s),
       sb_cyc_r = dbw_next False (soc_slot_req p s m 1) (soc_wb_in p s m) (sb_cyc_r s),
       sb_native = ic_next soc_native_cfg False (soc_slot_req p s m 2) (soc_native_rsps p s m) (sb_native s),
       sb_led = led_next (sp_numLeds p) False (soc_native_req p s m 0) (sb_led s),
       sb_uart = uart_next (sp_fifo_bits p) False (soc_native_req p s m 1) rx (sb_uart s)\<rparr>"

text \<open>\<open>reset_logic\<close>: the reset pin and the PLL lock through two registers.\<close>

record reset_regs =
  rl_res1 :: bool
  rl_res2 :: bool
  rl_reset :: bool

definition reset_logic_next :: "bool \<Rightarrow> bool \<Rightarrow> reset_regs \<Rightarrow> reset_regs" where
  "reset_logic_next resetn i_locked r =
     \<lparr>rl_res1 = (\<not> resetn \<or> \<not> i_locked), rl_res2 = rl_res1 r, rl_reset = rl_res2 r\<rparr>"

definition core_reset :: "bool \<Rightarrow> bool \<Rightarrow> bool" where
  "core_reset sys_reset ndmreset \<longleftrightarrow> sys_reset \<or> ndmreset"

subsection \<open>Accesses\<close>

text \<open>
  A bus master that, like the load/store unit, holds its request while it is stalled and then
  waits without a request for the acknowledge or the error. \<open>rx\<close> is the level of the UART pin.
\<close>

fun soc_wait :: "soc_params \<Rightarrow> nat \<Rightarrow> dbus_req \<Rightarrow> (nat \<Rightarrow> bool) \<Rightarrow> soc_bus \<Rightarrow> (dbus_rsp \<times> soc_bus) option" where
  "soc_wait p 0 q rx s = None"
| "soc_wait p (Suc n) q rx s =
     (let q' = q\<lparr>db_en_o := False\<rparr>; r = soc_rsp p s q'; s' = soc_next p q' (rx 0) s in
      if db_ack_i r \<or> db_error_i r then Some (r, s') else soc_wait p n q (\<lambda>i. rx (Suc i)) s')"

fun soc_access :: "soc_params \<Rightarrow> nat \<Rightarrow> dbus_req \<Rightarrow> (nat \<Rightarrow> bool) \<Rightarrow> soc_bus \<Rightarrow> (dbus_rsp \<times> soc_bus) option" where
  "soc_access p 0 q rx s = None"
| "soc_access p (Suc n) q rx s =
     (let r = soc_rsp p s q; s' = soc_next p q (rx 0) s in
      if db_ack_i r \<or> db_error_i r then Some (r, s')
      else if db_stall_i r then soc_access p n q (\<lambda>i. rx (Suc i)) s'
      else soc_wait p n q (\<lambda>i. rx (Suc i)) s')"

text \<open>The abstract machine: the RAM and the LEDs; the Wishbone dummy answers its signature. The
  result is whether the access failed, and the data of a read.\<close>

record soc_view =
  sv_ram :: "xword list"
  sv_led :: "8 word"

definition soc_view :: "soc_bus \<Rightarrow> soc_view" where
  "soc_view s = \<lparr>sv_ram = br_ram (sb_bram s), sv_led = sb_led s\<rparr>"

datatype soc_device = Dev_Ram | Dev_Wishbone | Dev_Led | Dev_None

text \<open>The address map: the top four bits, for the peripherals the top sixteen.\<close>

definition soc_device :: "xword \<Rightarrow> soc_device" where
  "soc_device a =
     (if drop_bit 28 a = 0xc then Dev_Ram else if drop_bit 28 a = 4 then Dev_Wishbone
      else if drop_bit 16 a = 0x8000 then Dev_Led else Dev_None)"

definition soc_spec :: "soc_params \<Rightarrow> dbus_req \<Rightarrow> soc_view \<Rightarrow> xword option \<times> soc_view" where
  "soc_spec p q v =
     (case soc_device (db_adr_o q) of
        Dev_Ram \<Rightarrow>
          (let a = unat (take_bit (sp_bramAdrWidth p) (drop_bit 2 (db_adr_o q))) in
           if db_we_o q = 0 then (Some (sv_ram v ! a), v)
           else (None, v\<lparr>sv_ram := (sv_ram v)[a := merge_lanes (db_we_o q) (db_wr q) (sv_ram v ! a)]\<rparr>))
      | Dev_Wishbone \<Rightarrow> (if db_we_o q = 0 then Some 0x44554D59 else None, v)
      | Dev_Led \<Rightarrow>
          (if db_we_o q = 0 then (Some (bv_slice (sp_numLeds p) 0 (sv_led v)), v)
           else (None, if bit (db_we_o q) 0 then v\<lparr>sv_led := bv_slice (sp_numLeds p) 0 (db_wr q)\<rparr> else v))
      | Dev_None \<Rightarrow> (None, v))"

definition soc_run :: "soc_params \<Rightarrow> dbus_req \<times> (nat \<Rightarrow> bool) \<Rightarrow> soc_bus \<Rightarrow> (xword option \<times> soc_bus) option" where
  "soc_run p a s =
     map_option (\<lambda>(r, s'). (if db_ack_i r \<and> db_we_o (fst a) = 0 then Some (db_rd r) else None, s'))
       (soc_access p 4 ((fst a)\<lparr>db_en_o := True\<rparr>) (snd a) s)"

subsection \<open>Decoding\<close>

lemma am_matches_top:
  assumes "am_lower m = l" "am_upper m = 32" "l < 32" "am_value m = uint v"
  shows "am_matches m a \<longleftrightarrow> drop_bit l a = (v :: xword)"
proof -
  have "take_bit (32 - l) (drop_bit l a) = drop_bit l a"
    using assms(3) by (intro xword_eqI) (auto simp: bit_simps dest: bit_imp_le_length)
  with assms show ?thesis by (simp add: am_matches_def word_uint_eq_iff)
qed

lemma soc_matches [simp]:
  "am_matches \<lparr>am_upper = 32, am_lower = 28, am_value = 0xc\<rparr> a \<longleftrightarrow> drop_bit 28 a = 0xc"
  "am_matches \<lparr>am_upper = 32, am_lower = 28, am_value = 4\<rparr> a \<longleftrightarrow> drop_bit 28 a = 4"
  "am_matches \<lparr>am_upper = 32, am_lower = 28, am_value = 8\<rparr> a \<longleftrightarrow> drop_bit 28 a = 8"
  "am_matches \<lparr>am_upper = 32, am_lower = 16, am_value = 0x8000\<rparr> a \<longleftrightarrow> drop_bit 16 a = 0x8000"
  "am_matches \<lparr>am_upper = 32, am_lower = 16, am_value = 0x8001\<rparr> a \<longleftrightarrow> drop_bit 16 a = 0x8001"
  by (simp_all add: am_matches_top)

lemma soc_core_ok: "ic_config_ok (soc_core_cfg w)"
  unfolding soc_core_cfg_def by (rule validate_mapping_lemma[OF soc_core_valid])

lemma soc_native_ok: "ic_config_ok soc_native_cfg"
  unfolding soc_native_cfg_def by (rule validate_mapping_lemma[OF soc_native_valid])

lemma soc_native_cfg_simps [simp]:
  "length soc_native_cfg = 2"
  "soc_native_cfg ! 0 = (\<lparr>am_upper = 32, am_lower = 16, am_value = 0x8000\<rparr>, False)"
  "soc_native_cfg ! Suc 0 = (\<lparr>am_upper = 32, am_lower = 16, am_value = 0x8001\<rparr>, False)"
  by (simp_all add: soc_native_config)

lemma native_region:
  assumes "drop_bit 16 a = (0x8000 :: xword) \<or> drop_bit 16 a = 0x8001"
  shows "drop_bit 28 a = (8 :: xword)"
proof -
  have "drop_bit 28 a = drop_bit 12 (drop_bit 16 a)" by simp
  also have "\<dots> = 8" using assms by (elim disjE) (simp_all del: drop_bit_drop_bit)
  finally show ?thesis .
qed

subsection \<open>Requests to one slot\<close>

text \<open>A request with the interconnect free reaches its combinational slot as it is and no other.\<close>

lemma ic_free_request:
  assumes ok: "ic_config_ok cfg" and inv: "ic_inv cfg st" "\<not> ic_busy st" and i: "i < length cfg"
    and m: "db_en_o m" "am_matches (fst (cfg ! i)) (db_adr_o m)"
  shows "\<not> snd (cfg ! i) \<Longrightarrow> ic_slave_req cfg st m i = m"
    and "j < length cfg \<Longrightarrow> j \<noteq> i \<Longrightarrow> \<not> db_en_o (ic_slave_req cfg st m j)"
proof -
  have sen: "ic_s_en cfg m = one_hot (length cfg) i" using ic_s_en_selected[OF ok i m(2,1)] .
  show "\<not> snd (cfg ! i) \<Longrightarrow> ic_slave_req cfg st m i = m"
    using inv i m by (cases m) (simp add: ic_slave_req_def ic_selection_stall_def)
  show "j < length cfg \<Longrightarrow> j \<noteq> i \<Longrightarrow> \<not> db_en_o (ic_slave_req cfg st m j)"
    using ic_slave_enabled[OF ok inv(1)] inv sen one_hot_inj[OF i] by (metis ic_mux_sel_def)
qed

text \<open>No request, or one that is not decoded, or one held back, enables no combinational slot.\<close>

lemma ic_no_request:
  assumes "\<not> db_en_o m \<or> ic_selection_stall cfg st m" "\<not> snd (cfg ! j)" "j < length cfg"
  shows "\<not> db_en_o (ic_slave_req cfg st m j)"
  using assms by (auto simp: ic_slave_req_def)

lemma ic_free_idle:
  assumes inv: "ic_inv cfg st" "\<not> ic_busy st" and m: "\<not> db_en_o m"
  shows "j < length cfg \<Longrightarrow> \<not> db_en_o (ic_slave_req cfg st m j)"
    and "\<not> ic_busy (ic_next cfg False m rs st)"
    and "ic_master_rsp cfg st m rs = \<lparr>db_stall_i = False, db_ack_i = False, db_error_i = False, db_rd = 0\<rparr>"
proof -
  have sen: "ic_s_en cfg m = replicate (length cfg) False"
    by (rule ic_s_en_none) (use m in auto)
  show "\<not> ic_busy (ic_next cfg False m rs st)"
    using inv by (simp add: ic_next_def Let_def sen)
  show "j < length cfg \<Longrightarrow> \<not> db_en_o (ic_slave_req cfg st m j)"
    using inv m by (auto simp: ic_slave_req_def Let_def ic_inv_def)
  show "ic_master_rsp cfg st m rs = \<lparr>db_stall_i = False, db_ack_i = False, db_error_i = False, db_rd = 0\<rparr>"
    using inv m sen by (simp add: ic_master_rsp_none ic_mux_sel_def ic_selection_stall_def)
qed

lemma ic_unmatched:
  assumes inv: "ic_inv cfg st" "\<not> ic_busy st"
    and m: "db_en_o m" "\<And>i. i < length cfg \<Longrightarrow> \<not> am_matches (fst (cfg ! i)) (db_adr_o m)"
  shows "\<not> ic_busy (ic_next cfg False m rs st)"
    and "ic_master_rsp cfg st m rs = \<lparr>db_stall_i = False, db_ack_i = False, db_error_i = True, db_rd = 0\<rparr>"
proof -
  have sen: "ic_s_en cfg m = replicate (length cfg) False"
    by (rule ic_s_en_none) (use m in auto)
  show "\<not> ic_busy (ic_next cfg False m rs st)"
    using inv by (simp add: ic_next_def Let_def sen)
  show "ic_master_rsp cfg st m rs = \<lparr>db_stall_i = False, db_ack_i = False, db_error_i = True, db_rd = 0\<rparr>"
    using inv m sen by (simp add: ic_master_rsp_none ic_mux_sel_def ic_selection_stall_def)
qed

subsection \<open>Quiet parts\<close>

text \<open>Between accesses both interconnects are free, no read is pending in the RAM and no Wishbone
  cycle is open.\<close>

definition soc_ready :: "soc_params \<Rightarrow> soc_bus \<Rightarrow> bool" where
  "soc_ready p s \<longleftrightarrow>
     ic_inv (soc_core_cfg (sp_registerWishboneDbus p)) (sb_core s) \<and> \<not> ic_busy (sb_core s) \<and>
     ic_inv soc_native_cfg (sb_native s) \<and> \<not> ic_busy (sb_native s) \<and>
     \<not> br_ack_rd (sb_bram s) \<and> \<not> sb_cyc_r s \<and>
     length (br_ram (sb_bram s)) = 2 ^ sp_bramAdrWidth p"

lemma bram_quiet:
  "\<not> db_en_o q \<Longrightarrow> br_ram (bram_next aw q b) = br_ram b \<and> br_dbout (bram_next aw q b) = br_dbout b \<and>
     \<not> br_ack_rd (bram_next aw q b)"
  by (simp add: bram_next_def Let_def port_write32_def port_read_def ram_port_of_def ram_ack_next_def)

lemma wb_quiet:
  "\<not> db_en_o q \<Longrightarrow> \<not> dbw_next False q (wishbone_dummy (dbw_out wb_config_default False q)) False"
  by (simp add: dbw_next_def)

lemma wb_immediate:
  "db_en_o q \<Longrightarrow> dbw_rsp wb_config_default False q (wishbone_dummy (dbw_out wb_config_default False q)) =
     \<lparr>db_stall_i = False, db_ack_i = True, db_error_i = False, db_rd = 0x44554D59\<rparr> \<and>
   \<not> dbw_next False q (wishbone_dummy (dbw_out wb_config_default False q)) False"
  by (simp add: dbw_next_def dbw_rsp_def wishbone_dummy_def dbw_out_def dbw_cyc_o_def wb_config_default_def)

lemma led_quiet: "\<not> db_en_o q \<Longrightarrow> led_next n False q led = led"
  by (simp add: led_next_def)

text \<open>An edge with no request to a part leaves it quiet.\<close>

lemma soc_next_quiet:
  assumes r: "ic_inv (soc_core_cfg (sp_registerWishboneDbus p)) (sb_core s)"
    "ic_inv soc_native_cfg (sb_native s)" "\<not> ic_busy (sb_native s)" "\<not> sb_cyc_r s"
    "length (br_ram (sb_bram s)) = 2 ^ sp_bramAdrWidth p"
  shows "length (br_ram (sb_bram (soc_next p m rx s))) = 2 ^ sp_bramAdrWidth p"
    and "ic_inv (soc_core_cfg (sp_registerWishboneDbus p)) (sb_core (soc_next p m rx s))"
    and "ic_inv soc_native_cfg (sb_native (soc_next p m rx s))"
    and "\<not> db_en_o (soc_slot_req p s m 0) \<Longrightarrow> br_ram (sb_bram (soc_next p m rx s)) = br_ram (sb_bram s) \<and>
      br_dbout (sb_bram (soc_next p m rx s)) = br_dbout (sb_bram s) \<and> \<not> br_ack_rd (sb_bram (soc_next p m rx s))"
    and "\<not> sb_cyc_r (soc_next p m rx s)"
    and "\<not> db_en_o (soc_slot_req p s m 2) \<Longrightarrow> \<not> ic_busy (sb_native (soc_next p m rx s)) \<and>
      sb_led (soc_next p m rx s) = sb_led s"
proof -
  show "length (br_ram (sb_bram (soc_next p m rx s))) = 2 ^ sp_bramAdrWidth p"
    using r by (simp add: soc_next_def bram_next_def Let_def)
  show "ic_inv (soc_core_cfg (sp_registerWishboneDbus p)) (sb_core (soc_next p m rx s))"
    "ic_inv soc_native_cfg (sb_native (soc_next p m rx s))"
    using r ic_inv_next[OF soc_core_ok] ic_inv_next[OF soc_native_ok] by (simp_all add: soc_next_def)
  show "\<not> db_en_o (soc_slot_req p s m 0) \<Longrightarrow> br_ram (sb_bram (soc_next p m rx s)) = br_ram (sb_bram s) \<and>
      br_dbout (sb_bram (soc_next p m rx s)) = br_dbout (sb_bram s) \<and> \<not> br_ack_rd (sb_bram (soc_next p m rx s))"
    by (simp add: soc_next_def bram_quiet)
  show "\<not> sb_cyc_r (soc_next p m rx s)"
    using r wb_quiet wb_immediate by (cases "db_en_o (soc_slot_req p s m 1)") (simp_all add: soc_next_def soc_wb_in_def)
  assume ne: "\<not> db_en_o (soc_slot_req p s m 2)"
  have "\<not> db_en_o (soc_native_req p s m 0)"
    using ic_free_idle(1)[OF r(2,3) ne, of 0] by (simp add: soc_native_req_def)
  then show "\<not> ic_busy (sb_native (soc_next p m rx s)) \<and> sb_led (soc_next p m rx s) = sb_led s"
    using ic_free_idle(2)[OF r(2,3) ne] by (simp add: soc_next_def led_quiet)
qed

lemma soc_ready_reset:
  "length ram = 2 ^ sp_bramAdrWidth p \<Longrightarrow> soc_ready p (soc_bus_reset p ram)"
  by (simp add: soc_ready_def soc_bus_reset_def ic_inv_reset)

subsection \<open>One access to each device\<close>

text \<open>One edge with a request to combinational slot \<open>i\<close> of the core's interconnect, which is free or
  already owned by it.\<close>

lemma soc_core_step:
  fixes p s
  defines "w \<equiv> sp_registerWishboneDbus p"
  assumes "i < 3" "\<not> snd (soc_core_cfg w ! i)"
    and st: "ic_owned (soc_core_cfg w) i (sb_core s) \<or> ic_inv (soc_core_cfg w) (sb_core s) \<and>
      \<not> ic_busy (sb_core s) \<and> db_en_o m \<and> am_matches (fst (soc_core_cfg w ! i)) (db_adr_o m)"
  shows "soc_rsp p s m = fst (ic_direct (soc_core_cfg w) i (m, soc_rsps p s m))"
    and "\<not> db_ack_i (soc_rsps p s m ! i) \<Longrightarrow> ic_owned (soc_core_cfg w) i (sb_core (soc_next p m rx s))"
    and "db_ack_i (soc_rsps p s m ! i) \<Longrightarrow> \<not> ic_busy (sb_core (soc_next p m rx s))"
proof -
  note d = ic_direct_step[OF soc_core_ok _ assms(3) st, of "soc_rsps p s m"]
  show "soc_rsp p s m = fst (ic_direct (soc_core_cfg w) i (m, soc_rsps p s m))"
    using arg_cong[where f = fst, OF d(1)] assms(2) by (simp add: soc_rsp_def w_def)
  show "\<not> db_ack_i (soc_rsps p s m ! i) \<Longrightarrow> ic_owned (soc_core_cfg w) i (sb_core (soc_next p m rx s))"
    "db_ack_i (soc_rsps p s m ! i) \<Longrightarrow> \<not> ic_busy (sb_core (soc_next p m rx s))"
    using d(2,3) assms(2) by (simp_all add: soc_next_def w_def)
qed

lemma soc_ram_access:
  assumes r: "soc_ready p s" and q: "db_en_o q" "drop_bit 28 (db_adr_o q) = 0xc"
  defines "a \<equiv> unat (take_bit (sp_bramAdrWidth p) (drop_bit 2 (db_adr_o q)))"
  shows "\<exists>rsp s'. soc_access p 4 q rx s = Some (rsp, s') \<and> soc_ready p s' \<and> db_ack_i rsp \<and>
    (db_we_o q = 0 \<longrightarrow> db_rd rsp = br_ram (sb_bram s) ! a \<and> soc_view s' = soc_view s) \<and>
    (db_we_o q \<noteq> 0 \<longrightarrow> soc_view s' = (soc_view s)
      \<lparr>sv_ram := (br_ram (sb_bram s))[a := merge_lanes (db_we_o q) (db_wr q) (br_ram (sb_bram s) ! a)]\<rparr>)"
proof -
  let ?w = "sp_registerWishboneDbus p" and ?s1 = "soc_next p q (rx 0) s"
  have rs: "ic_inv (soc_core_cfg ?w) (sb_core s)" "\<not> ic_busy (sb_core s)" "ic_inv soc_native_cfg (sb_native s)"
    "\<not> ic_busy (sb_native s)" "\<not> br_ack_rd (sb_bram s)" "\<not> sb_cyc_r s"
    "length (br_ram (sb_bram s)) = 2 ^ sp_bramAdrWidth p"
    using r by (simp_all add: soc_ready_def)
  have req: "soc_slot_req p s q 0 = q" "\<not> db_en_o (soc_slot_req p s q 2)"
    using ic_free_request[OF soc_core_ok rs(1,2), of 0 q] q by (simp_all add: soc_slot_req_def)
  have r0: "soc_rsps p s q ! 0 = bram_rsp (sb_bram s) q" by (simp add: soc_rsps_def req)
  note n1 = soc_next_quiet[OF rs(1,3,4,6,7), of q "rx 0"]
  have st: "ic_owned (soc_core_cfg ?w) 0 (sb_core s) \<or> ic_inv (soc_core_cfg ?w) (sb_core s) \<and>
      \<not> ic_busy (sb_core s) \<and> db_en_o q \<and> am_matches (fst (soc_core_cfg ?w ! 0)) (db_adr_o q)"
    using rs q by simp
  have step: "soc_rsp p s q = fst (ic_direct (soc_core_cfg ?w) 0 (q, soc_rsps p s q))"
    "\<not> db_ack_i (soc_rsps p s q ! 0) \<Longrightarrow> ic_owned (soc_core_cfg ?w) 0 (sb_core ?s1)"
    "db_ack_i (soc_rsps p s q ! 0) \<Longrightarrow> \<not> ic_busy (sb_core ?s1)"
    by (rule soc_core_step[OF _ _ st]; simp)+
  have rsp: "soc_rsp p s q = bram_rsp (sb_bram s) q"
    using q by (simp add: step(1) ic_direct_def Let_def r0 bram_rsp_def ram_dbus_rsp_def)
  have b1: "sb_bram ?s1 = bram_next (sp_bramAdrWidth p) q (sb_bram s)" by (simp add: soc_next_def req)
  have l1: "sb_led ?s1 = sb_led s" using n1(6)[OF req(2)] by simp
  show ?thesis
  proof (cases "db_we_o q = 0")
    case False
    then have ack: "db_ack_i (soc_rsp p s q)" using q by (simp add: rsp bram_rsp_def ram_dbus_rsp_def ram_we_def)
    then have run: "soc_access p 4 q rx s = Some (soc_rsp p s q, ?s1)" by (simp add: numeral_eq_Suc Let_def)
    have "soc_ready p ?s1"
      using n1(1-3,5) n1(6)[OF req(2)] step(3) ack rsp r0 False
      by (simp add: soc_ready_def b1 bram_next_def Let_def ram_ack_next_def ram_we_def)
    moreover have "soc_view ?s1 = (soc_view s)
      \<lparr>sv_ram := (br_ram (sb_bram s))[a := merge_lanes (db_we_o q) (db_wr q) (br_ram (sb_bram s) ! a)]\<rparr>"
      using q by (simp add: soc_view_def l1 b1 bram_next_def Let_def port_write32_def ram_port_of_def a_def)
    ultimately show ?thesis using run ack False by blast
  next
    case True
    then have b1': "br_ram (sb_bram ?s1) = br_ram (sb_bram s)" "br_dbout (sb_bram ?s1) = br_ram (sb_bram s) ! a"
      "br_ack_rd (sb_bram ?s1)"
      using q by (simp_all add: b1 bram_next_def Let_def port_write32_def port_read_def ram_port_of_def a_def
          ram_ack_next_def ram_we_def)
    have na: "\<not> db_ack_i (bram_rsp (sb_bram s) q)" "\<not> db_error_i (bram_rsp (sb_bram s) q)"
      "\<not> db_stall_i (bram_rsp (sb_bram s) q)"
      using rs(5) True by (simp_all add: bram_rsp_def ram_dbus_rsp_def ram_we_def)
    let ?q = "q\<lparr>db_en_o := False\<rparr>" and ?s2 = "soc_next p (q\<lparr>db_en_o := False\<rparr>) (rx 1) ?s1"
    have o1: "ic_owned (soc_core_cfg ?w) 0 (sb_core ?s1)" using step(2) r0 na by simp
    have req1: "\<not> db_en_o (soc_slot_req p ?s1 ?q 0)" "\<not> db_en_o (soc_slot_req p ?s1 ?q 2)"
      unfolding soc_slot_req_def by (rule ic_no_request; simp)+
    have r1: "soc_rsps p ?s1 ?q ! 0 = bram_rsp (sb_bram ?s1) (soc_slot_req p ?s1 ?q 0)"
      by (simp add: soc_rsps_def)
    have step1: "soc_rsp p ?s1 ?q = fst (ic_direct (soc_core_cfg ?w) 0 (?q, soc_rsps p ?s1 ?q))"
      "db_ack_i (soc_rsps p ?s1 ?q ! 0) \<Longrightarrow> \<not> ic_busy (sb_core ?s2)"
      by (rule soc_core_step(1,3)[OF _ _ disjI1[OF o1]]; simp)+
    have rsp1: "db_ack_i (soc_rsp p ?s1 ?q)" "db_rd (soc_rsp p ?s1 ?q) = br_ram (sb_bram s) ! a"
      "db_ack_i (soc_rsps p ?s1 ?q ! 0)"
      using b1' by (simp_all add: step1(1) ic_direct_def Let_def r1 bram_rsp_def ram_dbus_rsp_def)
    have n1n: "\<not> ic_busy (sb_native ?s1)" using n1(6)[OF req(2)] by simp
    note n2 = soc_next_quiet[OF n1(2,3) n1n n1(5,1), of ?q "rx 1"]
    have "soc_access p 4 q rx s = Some (soc_rsp p ?s1 ?q, ?s2)"
      using na rsp1(1) by (simp add: numeral_eq_Suc Let_def rsp)
    moreover have "soc_ready p ?s2"
      using n2(1-3,5) n2(4)[OF req1(1)] n2(6)[OF req1(2)] step1(2)[OF rsp1(3)] by (simp add: soc_ready_def)
    moreover have "soc_view ?s2 = soc_view s"
      using n2(4)[OF req1(1)] n2(6)[OF req1(2)] l1 b1' by (simp add: soc_view_def)
    ultimately show ?thesis using True rsp1 by blast
  qed
qed

lemma soc_led_access:
  assumes r: "soc_ready p s" and q: "db_en_o q" "drop_bit 16 (db_adr_o q) = 0x8000"
  shows "\<exists>rsp s'. soc_access p 4 q rx s = Some (rsp, s') \<and> soc_ready p s' \<and> db_ack_i rsp \<and>
    db_rd rsp = bv_slice (sp_numLeds p) 0 (sb_led s) \<and>
    soc_view s' = (soc_view s)\<lparr>sv_led := led_next (sp_numLeds p) False q (sb_led s)\<rparr>"
proof -
  let ?w = "sp_registerWishboneDbus p" and ?s1 = "soc_next p q (rx 0) s"
  have rs: "ic_inv (soc_core_cfg ?w) (sb_core s)" "\<not> ic_busy (sb_core s)" "ic_inv soc_native_cfg (sb_native s)"
    "\<not> ic_busy (sb_native s)" "\<not> br_ack_rd (sb_bram s)" "\<not> sb_cyc_r s"
    "length (br_ram (sb_bram s)) = 2 ^ sp_bramAdrWidth p"
    using r by (simp_all add: soc_ready_def)
  have q8: "drop_bit 28 (db_adr_o q) = 8" using native_region q by blast
  have req: "soc_slot_req p s q 2 = q" "\<not> db_en_o (soc_slot_req p s q 0)"
    using ic_free_request[OF soc_core_ok rs(1,2), of 2 q] q q8 by (simp_all add: soc_slot_req_def)
  have nreq: "soc_native_req p s q 0 = q"
    using ic_free_request(1)[OF soc_native_ok rs(3,4), of 0 q] q by (simp add: soc_native_req_def req)
  note n1 = soc_next_quiet[OF rs(1,3,4,6,7), of q "rx 0"]
  have nst: "ic_owned soc_native_cfg 0 (sb_native s) \<or> ic_inv soc_native_cfg (sb_native s) \<and>
      \<not> ic_busy (sb_native s) \<and> db_en_o q \<and> am_matches (fst (soc_native_cfg ! 0)) (db_adr_o q)"
    using rs q by simp
  note nat = ic_direct_step[OF soc_native_ok _ _ nst, of "soc_native_rsps p s q", simplified]
  have nr0: "soc_native_rsps p s q ! 0 = led_rsp (sp_numLeds p) (sb_led s) q"
    by (simp add: soc_native_rsps_def nreq)
  have r2: "soc_rsps p s q ! 2 = led_rsp (sp_numLeds p) (sb_led s) q"
    using arg_cong[where f = fst, OF nat(1)] q
    by (simp add: soc_rsps_def req ic_direct_def Let_def nr0 led_rsp_def)
  have st: "ic_owned (soc_core_cfg ?w) 2 (sb_core s) \<or> ic_inv (soc_core_cfg ?w) (sb_core s) \<and>
      \<not> ic_busy (sb_core s) \<and> db_en_o q \<and> am_matches (fst (soc_core_cfg ?w ! 2)) (db_adr_o q)"
    using rs q q8 by simp
  have step: "soc_rsp p s q = fst (ic_direct (soc_core_cfg ?w) 2 (q, soc_rsps p s q))"
    "db_ack_i (soc_rsps p s q ! 2) \<Longrightarrow> \<not> ic_busy (sb_core ?s1)"
    by (rule soc_core_step[OF _ _ st]; simp)+
  have rsp: "soc_rsp p s q = led_rsp (sp_numLeds p) (sb_led s) q"
    using q q8 by (simp add: step(1) ic_direct_def Let_def r2 led_rsp_def)
  have ack: "db_ack_i (soc_rsp p s q)" using q by (simp add: rsp led_rsp_def)
  have "soc_access p 4 q rx s = Some (soc_rsp p s q, ?s1)" using ack by (simp add: numeral_eq_Suc Let_def)
  moreover have "\<not> ic_busy (sb_native ?s1)"
    using nat(3) q by (simp add: soc_next_def req nr0 led_rsp_def)
  then have "soc_ready p ?s1"
    using n1(1-3,5) n1(4)[OF req(2)] step(2) ack rsp r2 by (simp add: soc_ready_def)
  moreover have "soc_view ?s1 = (soc_view s)\<lparr>sv_led := led_next (sp_numLeds p) False q (sb_led s)\<rparr>"
    using n1(4)[OF req(2)] by (simp add: soc_view_def) (simp add: soc_next_def nreq)
  moreover have "db_rd (soc_rsp p s q) = bv_slice (sp_numLeds p) 0 (sb_led s)"
    using q by (simp add: rsp led_rsp_def)
  ultimately show ?thesis using ack by blast
qed

text \<open>The Wishbone dummy behind a combinational slot, and behind a registered one.\<close>

lemma soc_wb_access_comb:
  assumes r: "soc_ready p s" and q: "db_en_o q" "drop_bit 28 (db_adr_o q) = 4"
    and w: "\<not> sp_registerWishboneDbus p"
  shows "\<exists>rsp s'. soc_access p 4 q rx s = Some (rsp, s') \<and> soc_ready p s' \<and> db_ack_i rsp \<and>
    db_rd rsp = 0x44554D59 \<and> soc_view s' = soc_view s"
proof -
  let ?w = "sp_registerWishboneDbus p" and ?s1 = "soc_next p q (rx 0) s"
  have rs: "ic_inv (soc_core_cfg ?w) (sb_core s)" "\<not> ic_busy (sb_core s)" "ic_inv soc_native_cfg (sb_native s)"
    "\<not> ic_busy (sb_native s)" "\<not> br_ack_rd (sb_bram s)" "\<not> sb_cyc_r s"
    "length (br_ram (sb_bram s)) = 2 ^ sp_bramAdrWidth p"
    using r by (simp_all add: soc_ready_def)
  have req: "soc_slot_req p s q 1 = q" "\<not> db_en_o (soc_slot_req p s q 0)" "\<not> db_en_o (soc_slot_req p s q 2)"
    using ic_free_request[OF soc_core_ok rs(1,2), of 1 q] q w by (simp_all add: soc_slot_req_def)
  note n1 = soc_next_quiet[OF rs(1,3,4,6,7), of q "rx 0"]
  have r1: "soc_rsps p s q ! 1 = \<lparr>db_stall_i = False, db_ack_i = True, db_error_i = False, db_rd = 0x44554D59\<rparr>"
    using wb_immediate[OF q(1)] rs(6) req(1) by (simp add: soc_rsps_def soc_wb_in_def)
  have st: "ic_owned (soc_core_cfg ?w) 1 (sb_core s) \<or> ic_inv (soc_core_cfg ?w) (sb_core s) \<and>
      \<not> ic_busy (sb_core s) \<and> db_en_o q \<and> am_matches (fst (soc_core_cfg ?w ! 1)) (db_adr_o q)"
    using rs q by simp
  have step: "soc_rsp p s q = fst (ic_direct (soc_core_cfg ?w) 1 (q, soc_rsps p s q))"
    "db_ack_i (soc_rsps p s q ! 1) \<Longrightarrow> \<not> ic_busy (sb_core ?s1)"
    by (rule soc_core_step[OF _ _ st]; simp add: w)+
  have rsp: "db_ack_i (soc_rsp p s q)" "db_rd (soc_rsp p s q) = 0x44554D59"
    using r1 by (simp_all add: step(1) ic_direct_def Let_def)
  have "soc_access p 4 q rx s = Some (soc_rsp p s q, ?s1)" using rsp by (simp add: numeral_eq_Suc Let_def)
  moreover have "soc_ready p ?s1"
    using n1(1-3,5) n1(4)[OF req(2)] n1(6)[OF req(3)] step(2) r1 by (simp add: soc_ready_def)
  moreover have "soc_view ?s1 = soc_view s"
    using n1(4)[OF req(2)] n1(6)[OF req(3)] by (simp add: soc_view_def)
  ultimately show ?thesis using rsp by blast
qed

text \<open>An edge while slot 1 owns the interconnect, registered: nothing else is touched.\<close>

lemma soc_wb_registered_edge:
  assumes o: "ic_owned (soc_core_cfg True) 1 (sb_core s)" and ph: "rs_state (ic_slots (sb_core s) ! 1) \<noteq> Rs_Idle"
    and w: "sp_registerWishboneDbus p"
  shows "\<not> db_en_o (soc_slot_req p s m 0)" "\<not> db_en_o (soc_slot_req p s m 2)"
proof -
  have "ic_mux_sel (soc_core_cfg True) (sb_core s) m = one_hot 3 1"
    using ic_owned_sel[OF o] by simp
  moreover have "ic_inv (soc_core_cfg True) (sb_core s)" using o by (simp add: ic_owned_def)
  ultimately show "\<not> db_en_o (soc_slot_req p s m 0)" "\<not> db_en_o (soc_slot_req p s m 2)"
    using ic_slave_enabled[OF soc_core_ok, of True "sb_core s" 0 m]
      ic_slave_enabled[OF soc_core_ok, of True "sb_core s" 2 m] w
    by (auto simp: soc_slot_req_def one_hot_inj)
qed

text \<open>The parts behind the other slots rest, with the view unchanged.\<close>

definition soc_rest :: "soc_params \<Rightarrow> soc_view \<Rightarrow> soc_bus \<Rightarrow> bool" where
  "soc_rest p v s \<longleftrightarrow> ic_inv soc_native_cfg (sb_native s) \<and> \<not> ic_busy (sb_native s) \<and>
     \<not> br_ack_rd (sb_bram s) \<and> \<not> sb_cyc_r s \<and> length (br_ram (sb_bram s)) = 2 ^ sp_bramAdrWidth p \<and>
     soc_view s = v"

lemma soc_rest_next:
  assumes "ic_inv (soc_core_cfg (sp_registerWishboneDbus p)) (sb_core s)" "soc_rest p v s"
    and "\<not> db_en_o (soc_slot_req p s m 0)" "\<not> db_en_o (soc_slot_req p s m 2)"
  shows "soc_rest p v (soc_next p m rx s)"
proof -
  have s: "ic_inv soc_native_cfg (sb_native s)" "\<not> ic_busy (sb_native s)" "\<not> sb_cyc_r s"
    "length (br_ram (sb_bram s)) = 2 ^ sp_bramAdrWidth p" "soc_view s = v"
    using assms(2) by (simp_all add: soc_rest_def)
  note n = soc_next_quiet[OF assms(1) s(1-4), of m rx]
  show ?thesis
    using n(1,3,5) n(4)[OF assms(3)] n(6)[OF assms(4)] s(5) by (auto simp: soc_rest_def soc_view_def)
qed

lemma soc_wb_access_registered:
  assumes r: "soc_ready p s" and q: "db_en_o q" "drop_bit 28 (db_adr_o q) = 4"
    and w: "sp_registerWishboneDbus p"
  shows "\<exists>rsp s'. soc_access p 4 q rx s = Some (rsp, s') \<and> soc_ready p s' \<and> db_ack_i rsp \<and>
    db_rd rsp = 0x44554D59 \<and> soc_view s' = soc_view s"
proof -
  let ?c = "soc_core_cfg True" and ?q = "q\<lparr>db_en_o := False\<rparr>"
  let ?s1 = "soc_next p q (rx 0) s"
  let ?s2 = "soc_next p ?q (rx 1) ?s1"
  let ?s3 = "soc_next p ?q (rx 2) ?s2"
  have rs: "ic_inv ?c (sb_core s)" "\<not> ic_busy (sb_core s)" and rest: "soc_rest p (soc_view s) s"
    using r w by (simp_all add: soc_ready_def soc_rest_def)
  have ns: "soc_rsp p t m = ic_master_rsp ?c (sb_core t) m (soc_rsps p t m)"
    "sb_core (soc_next p m x t) = ic_next ?c False m (soc_rsps p t m) (sb_core t)" for t m x
    using w by (simp_all add: soc_rsp_def soc_next_def)
  have en0: "\<not> db_en_o (soc_slot_req p s q 0)" "\<not> db_en_o (soc_slot_req p s q 2)"
    using ic_free_request(2)[OF soc_core_ok rs, of 1 q] q w by (simp_all add: soc_slot_req_def)
  have cap: "slot_in ?c 1 (sb_core ?s1) Rs_Request q a"
    "out_view (soc_rsp p s q, ic_ports ?c (sb_core s) q) = (False, False, False, at_port 3 1 None)" for a
    using slot_capture(1)[OF soc_core_ok _ _ rs, of 1 q "soc_rsps p s q" a]
      slot_capture(2)[OF soc_core_ok _ _ rs, of 1 q "soc_rsps p s q"] q unfolding ns by simp_all
  have rest1: "soc_rest p (soc_view s) ?s1"
    by (rule soc_rest_next[OF _ rest en0]) (use rs w in simp)
  have o1: "ic_owned ?c 1 (sb_core ?s1)" "rs_state (ic_slots (sb_core ?s1) ! 1) = Rs_Request"
    using cap(1) by (simp_all add: slot_in_def Let_def)
  have en1: "\<not> db_en_o (soc_slot_req p ?s1 ?q 0)" "\<not> db_en_o (soc_slot_req p ?s1 ?q 2)"
    using soc_wb_registered_edge[OF o1(1) _ w, of ?q] o1(2) by simp_all
  have "soc_slot_req p ?s1 ?q 1 = q"
    using cap(1) q w by (cases q) (simp add: soc_slot_req_def ic_slave_req_def slot_in_def Let_def)
  then have a1: "soc_rsps p ?s1 ?q ! 1 = \<lparr>db_stall_i = False, db_ack_i = True, db_error_i = False, db_rd = 0x44554D59\<rparr>"
    using wb_immediate[OF q(1)] rest1 by (simp add: soc_rsps_def soc_wb_in_def soc_rest_def)
  have v1: "\<not> db_ack_i (soc_rsp p ?s1 ?q)" "\<not> db_error_i (soc_rsp p ?s1 ?q)"
    using slot_in_view(1)[OF soc_core_ok _ _ cap(1), of ?q "soc_rsps p ?s1 ?q"] by (simp_all add: ns(1))
  have at2: "slot_in ?c 1 (sb_core ?s2) Rs_Response q (soc_rsps p ?s1 ?q ! 1)"
    unfolding ns(2)[of ?q "rx 1" ?s1]
    using slot_in_next(1)[OF soc_core_ok _ _ cap(1), of "soc_rsps p ?s1 ?q" ?q] a1 by (simp add: answered_def)
  have rest2: "soc_rest p (soc_view s) ?s2"
    by (rule soc_rest_next[OF _ rest1 en1]) (use o1 w in \<open>simp add: ic_owned_def\<close>)
  have o2: "ic_owned ?c 1 (sb_core ?s2)" "rs_state (ic_slots (sb_core ?s2) ! 1) = Rs_Response"
    "rs_ack_r (ic_slots (sb_core ?s2) ! 1)" "rs_db_rd_r (ic_slots (sb_core ?s2) ! 1) = 0x44554D59"
    using at2 a1 by (simp_all add: slot_in_def Let_def)
  have en2: "\<not> db_en_o (soc_slot_req p ?s2 ?q 0)" "\<not> db_en_o (soc_slot_req p ?s2 ?q 2)"
    using soc_wb_registered_edge[OF o2(1) _ w, of ?q] o2(2) by simp_all
  have v2: "db_ack_i (soc_rsp p ?s2 ?q)" "db_rd (soc_rsp p ?s2 ?q) = 0x44554D59"
    using slot_in_view(1)[OF soc_core_ok _ _ at2, of ?q "soc_rsps p ?s2 ?q"] a1 o2(4) by (simp_all add: ns(1))
  have rest3: "soc_rest p (soc_view s) ?s3"
    by (rule soc_rest_next[OF _ rest2 en2]) (use o2 w in \<open>simp add: ic_owned_def\<close>)
  have b3: "ic_inv ?c (sb_core ?s3)" "\<not> ic_busy (sb_core ?s3)"
    unfolding ns(2)[of ?q "rx 2" ?s2]
    using slot_owned_next(1,2)[OF soc_core_ok _ _ o2(1), of ?q "soc_rsps p ?s2 ?q"] o2(2,3) by simp_all
  have "soc_access p 4 q rx s = Some (soc_rsp p ?s2 ?q, ?s3)"
    using cap(2) v1 v2 by (simp add: numeral_eq_Suc Let_def)
  moreover have "soc_ready p ?s3" "soc_view ?s3 = soc_view s"
    using rest3 b3 w by (simp_all add: soc_ready_def soc_rest_def)
  ultimately show ?thesis using v2 by blast
qed

subsection \<open>Sessions\<close>

definition soc_mapped :: "dbus_req \<times> (nat \<Rightarrow> bool) \<Rightarrow> bool" where
  "soc_mapped a \<longleftrightarrow> soc_device (db_adr_o (fst a)) \<noteq> Dev_None"

lemma led_next_spec:
  "db_en_o q \<Longrightarrow> led_next n False q led = (if bit (db_we_o q) 0 then bv_slice n 0 (db_wr q) else led)"
  by (simp add: led_next_def)

lemma soc_run_contract:
  assumes r: "soc_ready p s" and a: "soc_mapped a"
  shows "\<exists>res s'. soc_run p a s = Some (res, s') \<and> soc_ready p s' \<and>
    soc_spec p (fst a) (soc_view s) = (res, soc_view s')"
proof -
  obtain q rx where qa: "a = (q, rx)" by (cases a)
  let ?q = "q\<lparr>db_en_o := True\<rparr>"
  note acc = soc_ram_access[OF r, of ?q rx] soc_wb_access_comb[OF r, of ?q rx]
    soc_wb_access_registered[OF r, of ?q rx] soc_led_access[OF r, of ?q rx]
  consider "drop_bit 28 (db_adr_o q) = 0xc" | "drop_bit 28 (db_adr_o q) = 4"
    | "drop_bit 16 (db_adr_o q) = 0x8000" "drop_bit 28 (db_adr_o q) = 8"
    using a native_region by (auto simp: qa soc_mapped_def soc_device_def split: if_splits)
  then show ?thesis
  proof cases
    case 1
    then obtain rsp s' where "soc_access p 4 ?q rx s = Some (rsp, s')" "soc_ready p s'" "db_ack_i rsp"
      "db_we_o q = 0 \<Longrightarrow> db_rd rsp = br_ram (sb_bram s) !
          unat (take_bit (sp_bramAdrWidth p) (drop_bit 2 (db_adr_o q))) \<and> soc_view s' = soc_view s"
      "db_we_o q \<noteq> 0 \<Longrightarrow> soc_view s' = (soc_view s)\<lparr>sv_ram := (br_ram (sb_bram s))
          [unat (take_bit (sp_bramAdrWidth p) (drop_bit 2 (db_adr_o q))) :=
             merge_lanes (db_we_o q) (db_wr q) (br_ram (sb_bram s) !
               unat (take_bit (sp_bramAdrWidth p) (drop_bit 2 (db_adr_o q))))]\<rparr>"
      using acc(1) by auto
    with 1 show ?thesis
      by (cases "db_we_o q = 0")
        (auto simp: qa soc_run_def soc_spec_def soc_device_def Let_def soc_view_def)
  next
    case 2
    then obtain rsp s' where "soc_access p 4 ?q rx s = Some (rsp, s')" "soc_ready p s'" "db_ack_i rsp"
      "db_rd rsp = 0x44554D59" "soc_view s' = soc_view s"
      using acc(2,3) by (cases "sp_registerWishboneDbus p") auto
    with 2 show ?thesis by (simp add: qa soc_run_def soc_spec_def soc_device_def)
  next
    case 3
    then obtain rsp s' where "soc_access p 4 ?q rx s = Some (rsp, s')" "soc_ready p s'" "db_ack_i rsp"
      "db_rd rsp = bv_slice (sp_numLeds p) 0 (sb_led s)"
      "soc_view s' = (soc_view s)\<lparr>sv_led := led_next (sp_numLeds p) False ?q (sb_led s)\<rparr>"
      using acc(4) by auto
    with 3 show ?thesis
      by (cases "db_we_o q = 0")
        (auto simp: qa soc_run_def soc_spec_def soc_device_def led_next_spec soc_view_def)
  qed
qed

interpretation soc_port: device_port "soc_run p" "soc_ready p" soc_mapped soc_view "\<lambda>a. soc_spec p (fst a)" for p
  by unfold_locales (rule soc_run_contract)

text \<open>
  C22: To its bus master the SoC is a memory. From reset, with any RAM image and any parameters (with
  the registered Wishbone slot or without), every session of reads and writes to mapped
  RAM, Wishbone and LED addresses, with any byte enables and whatever the UART pin does, returns
  after at most four cycles per access the results of an abstract machine with a byte-writable
  RAM and an LED register: reads return the last written bytes, writes change nothing else.
\<close>

theorem soc_session_refines:
  assumes "length ram = 2 ^ sp_bramAdrWidth p" "list_all soc_mapped as"
  shows "\<exists>s'. session (soc_run p) as (soc_bus_reset p ram) =
      Some (fst (spec_session (\<lambda>a. soc_spec p (fst a)) as \<lparr>sv_ram = ram, sv_led = 0\<rparr>), s') \<and>
    soc_view s' = snd (spec_session (\<lambda>a. soc_spec p (fst a)) as \<lparr>sv_ram = ram, sv_led = 0\<rparr>)"
proof -
  have "soc_view (soc_bus_reset p ram) = \<lparr>sv_ram = ram, sv_led = 0\<rparr>"
    by (simp add: soc_view_def soc_bus_reset_def)
  then show ?thesis
    using soc_port.session_refines[OF soc_ready_reset[OF assms(1)] assms(2)] by auto
qed

theorem soc_session_refines_witness:
  "map_option fst (session (soc_run \<lparr>sp_bramAdrWidth = 2, sp_numLeds = 4, sp_registerWishboneDbus = True,
        sp_fifo_bits = 5\<rparr>)
     [(\<lparr>db_en_o = True, db_adr_o = 0xC0000004, db_we_o = 3, db_wr = 0x1234\<rparr>, \<lambda>_. True),
      (\<lparr>db_en_o = True, db_adr_o = 0xC0000004, db_we_o = 0, db_wr = 0\<rparr>, \<lambda>_. True),
      (\<lparr>db_en_o = True, db_adr_o = 0x40000000, db_we_o = 0, db_wr = 0\<rparr>, \<lambda>_. False)]
     (soc_bus_reset \<lparr>sp_bramAdrWidth = 2, sp_numLeds = 4, sp_registerWishboneDbus = True,
        sp_fifo_bits = 5\<rparr> [1, 0xaabbccdd, 3, 4])) = Some [None, Some 0xaabb1234, Some 0x44554D59]"
  using soc_session_refines[of "[1, 0xaabbccdd, 3, 4]" "\<lparr>sp_bramAdrWidth = 2, sp_numLeds = 4,
        sp_registerWishboneDbus = True, sp_fifo_bits = 5\<rparr>"
      "[(\<lparr>db_en_o = True, db_adr_o = 0xC0000004, db_we_o = 3, db_wr = 0x1234\<rparr>, \<lambda>_. True),
        (\<lparr>db_en_o = True, db_adr_o = 0xC0000004, db_we_o = 0, db_wr = 0\<rparr>, \<lambda>_. True),
        (\<lparr>db_en_o = True, db_adr_o = 0x40000000, db_we_o = 0, db_wr = 0\<rparr>, \<lambda>_. False)]"]
  by (auto simp: soc_mapped_def soc_device_def soc_spec_def Let_def merge_lanes_def lane_mask_def
      take_bit_eq_mask mask_eq_exp_minus_1)

subsection \<open>An access to an unmapped peripheral address\<close>

fun soc_trace :: "soc_params \<Rightarrow> (dbus_req \<times> bool) list \<Rightarrow> soc_bus \<Rightarrow> dbus_rsp list \<times> soc_bus" where
  "soc_trace p [] s = ([], s)"
| "soc_trace p ((m, rx) # ms) s =
     (let (rs, s') = soc_trace p ms (soc_next p m rx s) in (soc_rsp p s m # rs, s'))"

lemma soc_stuck_step:
  assumes o: "ic_owned (soc_core_cfg (sp_registerWishboneDbus p)) 2 (sb_core s)" and rest: "soc_rest p v s"
    and m: "db_en_o m \<Longrightarrow> drop_bit 28 (db_adr_o m) \<noteq> 8"
  shows "soc_rsp p s m = \<lparr>db_stall_i = db_en_o m, db_ack_i = False, db_error_i = False, db_rd = 0\<rparr>"
    and "ic_owned (soc_core_cfg (sp_registerWishboneDbus p)) 2 (sb_core (soc_next p m rx s))"
    and "soc_rest p v (soc_next p m rx s)"
proof -
  let ?w = "sp_registerWishboneDbus p"
  have sel: "ic_mux_sel (soc_core_cfg ?w) (sb_core s) m = one_hot 3 2" using ic_owned_sel[OF o] by simp
  have inv: "ic_inv (soc_core_cfg ?w) (sb_core s)" using o by (simp add: ic_owned_def)
  have stall: "ic_selection_stall (soc_core_cfg ?w) (sb_core s) m \<longleftrightarrow> db_en_o m"
    using ic_owned_stall[OF soc_core_ok o, of m] m by auto
  have en: "\<not> db_en_o (soc_slot_req p s m 0)" "\<not> db_en_o (soc_slot_req p s m 2)"
    unfolding soc_slot_req_def by (rule ic_no_request; simp add: stall)+
  have nat: "ic_inv soc_native_cfg (sb_native s)" "\<not> ic_busy (sb_native s)"
    using rest by (simp_all add: soc_rest_def)
  have r2: "soc_rsps p s m ! 2 = \<lparr>db_stall_i = False, db_ack_i = False, db_error_i = False, db_rd = 0\<rparr>"
    using ic_free_idle(3)[OF nat en(2)] by (simp add: soc_rsps_def)
  have step: "soc_rsp p s m = fst (ic_direct (soc_core_cfg ?w) 2 (m, soc_rsps p s m))"
    "\<not> db_ack_i (soc_rsps p s m ! 2) \<Longrightarrow> ic_owned (soc_core_cfg ?w) 2 (sb_core (soc_next p m rx s))"
    by (rule soc_core_step[OF _ _ disjI1[OF o]]; simp)+
  show "soc_rsp p s m = \<lparr>db_stall_i = db_en_o m, db_ack_i = False, db_error_i = False, db_rd = 0\<rparr>"
    using m by (auto simp: step(1) ic_direct_def Let_def r2)
  show "ic_owned (soc_core_cfg ?w) 2 (sb_core (soc_next p m rx s))" using step(2) r2 by simp
  show "soc_rest p v (soc_next p m rx s)" using soc_rest_next[OF inv rest en] .
qed

lemma soc_stuck_trace:
  assumes "ic_owned (soc_core_cfg (sp_registerWishboneDbus p)) 2 (sb_core s)" "soc_rest p v s"
    and "\<forall>(m, rx) \<in> set ms. db_en_o m \<longrightarrow> drop_bit 28 (db_adr_o m) \<noteq> 8"
  shows "fst (soc_trace p ms s) =
      map (\<lambda>(m, _). \<lparr>db_stall_i = db_en_o m, db_ack_i = False, db_error_i = False, db_rd = 0\<rparr>) ms \<and>
    soc_view (snd (soc_trace p ms s)) = v"
  using assms
proof (induction ms arbitrary: s)
  case Nil
  then show ?case by (simp add: soc_rest_def)
next
  case (Cons c ms)
  obtain m rx where c: "c = (m, rx)" by (cases c)
  note st = soc_stuck_step[OF Cons.prems(1,2), of m]
  have "db_en_o m \<Longrightarrow> drop_bit 28 (db_adr_o m) \<noteq> 8" using Cons.prems(3) by (simp add: c)
  then show ?case
    using Cons.IH[OF st(2)[of rx] st(3)[of rx]] st(1) Cons.prems(3) by (auto simp: c split_beta)
qed

text \<open>
  C32: An access to an unmapped peripheral address hangs the bus. In any state between accesses a
  request to the peripheral region whose upper sixteen bits are neither the LED's nor the UART's
  is answered with an error in its first cycle; but the core's interconnect waits for an
  acknowledge that never comes: from then on every request to another region (the RAM, the
  Wishbone bus), for any number of cycles, is stalled without an answer and reaches no memory.
\<close>

theorem soc_unmapped_io_hangs:
  assumes "soc_ready p s" "db_en_o q" "drop_bit 28 (db_adr_o q) = 8"
    and "drop_bit 16 (db_adr_o q) \<noteq> 0x8000" "drop_bit 16 (db_adr_o q) \<noteq> 0x8001"
    and "\<forall>(m, rx) \<in> set ms. db_en_o m \<longrightarrow> drop_bit 28 (db_adr_o m) \<noteq> 8"
  shows "\<exists>rsp s'. soc_access p 1 q rx s = Some (rsp, s') \<and> db_error_i rsp \<and> \<not> db_ack_i rsp \<and>
    fst (soc_trace p ms s') =
      map (\<lambda>(m, _). \<lparr>db_stall_i = db_en_o m, db_ack_i = False, db_error_i = False, db_rd = 0\<rparr>) ms \<and>
    soc_view (snd (soc_trace p ms s')) = soc_view s"
proof -
  let ?w = "sp_registerWishboneDbus p" and ?s1 = "soc_next p q (rx 0) s"
  have rs: "ic_inv (soc_core_cfg ?w) (sb_core s)" "\<not> ic_busy (sb_core s)" "ic_inv soc_native_cfg (sb_native s)"
    "\<not> ic_busy (sb_native s)" "\<not> sb_cyc_r s" "length (br_ram (sb_bram s)) = 2 ^ sp_bramAdrWidth p"
    using assms(1) by (simp_all add: soc_ready_def)
  have req: "soc_slot_req p s q 2 = q" "\<not> db_en_o (soc_slot_req p s q 0)"
    using ic_free_request[OF soc_core_ok rs(1,2), of 2 q] assms(2,3) by (simp_all add: soc_slot_req_def)
  have um: "\<not> am_matches (fst (soc_native_cfg ! i)) (db_adr_o q)" if "i < length soc_native_cfg" for i
    using that assms(4,5) by (auto simp: less_Suc_eq numeral_2_eq_2)
  note nat = ic_unmatched[OF rs(3,4) assms(2) um]
  have r2: "soc_rsps p s q ! 2 = \<lparr>db_stall_i = False, db_ack_i = False, db_error_i = True, db_rd = 0\<rparr>"
    using nat(2) by (simp add: soc_rsps_def req)
  have st: "ic_owned (soc_core_cfg ?w) 2 (sb_core s) \<or> ic_inv (soc_core_cfg ?w) (sb_core s) \<and>
      \<not> ic_busy (sb_core s) \<and> db_en_o q \<and> am_matches (fst (soc_core_cfg ?w ! 2)) (db_adr_o q)"
    using rs assms(2,3) by simp
  have step: "soc_rsp p s q = fst (ic_direct (soc_core_cfg ?w) 2 (q, soc_rsps p s q))"
    "\<not> db_ack_i (soc_rsps p s q ! 2) \<Longrightarrow> ic_owned (soc_core_cfg ?w) 2 (sb_core ?s1)"
    by (rule soc_core_step[OF _ _ st]; simp)+
  have rsp: "soc_rsp p s q = \<lparr>db_stall_i = False, db_ack_i = False, db_error_i = True, db_rd = 0\<rparr>"
    using assms(2,3) by (simp add: step(1) ic_direct_def Let_def r2)
  have o1: "ic_owned (soc_core_cfg ?w) 2 (sb_core ?s1)" using step(2) r2 by simp
  note n1 = soc_next_quiet[OF rs(1,3-6), of q "rx 0"]
  have "sb_native ?s1 = ic_next soc_native_cfg False q (soc_native_rsps p s q) (sb_native s)"
    by (simp add: soc_next_def req)
  moreover have "\<not> db_en_o (soc_native_req p s q 0)"
    using um[of 0] by (simp add: soc_native_req_def ic_slave_req_def req)
  then have "sb_led ?s1 = sb_led s" by (simp add: soc_next_def led_quiet)
  ultimately have rest: "soc_rest p (soc_view s) ?s1"
    using nat(1) n1(1,3,5) n1(4)[OF req(2)] by (simp add: soc_rest_def soc_view_def)
  have "soc_access p 1 q rx s = Some (soc_rsp p s q, ?s1)" by (simp add: Let_def rsp)
  then show ?thesis using soc_stuck_trace[OF o1 rest assms(6)] rsp by simp
qed

theorem soc_unmapped_io_hangs_witness:
  "\<exists>rsp s'. soc_access \<lparr>sp_bramAdrWidth = 1, sp_numLeds = 4, sp_registerWishboneDbus = False, sp_fifo_bits = 5\<rparr> 1
      (bus_read 0x80020000) (\<lambda>_. True) (soc_bus_reset \<lparr>sp_bramAdrWidth = 1, sp_numLeds = 4,
        sp_registerWishboneDbus = False, sp_fifo_bits = 5\<rparr> [1, 2]) = Some (rsp, s') \<and> db_error_i rsp \<and>
    fst (soc_trace \<lparr>sp_bramAdrWidth = 1, sp_numLeds = 4, sp_registerWishboneDbus = False, sp_fifo_bits = 5\<rparr>
      (replicate 1000 (bus_read 0xC0000000, True)) s') = replicate 1000 (bus_answer True False 0)"
  using soc_unmapped_io_hangs[of "\<lparr>sp_bramAdrWidth = 1, sp_numLeds = 4, sp_registerWishboneDbus = False,
        sp_fifo_bits = 5\<rparr>" "soc_bus_reset \<lparr>sp_bramAdrWidth = 1, sp_numLeds = 4,
        sp_registerWishboneDbus = False, sp_fifo_bits = 5\<rparr> [1, 2]" "bus_read 0x80020000"
      "replicate 1000 (bus_read 0xC0000000, True)" "\<lambda>_. True"]
    soc_ready_reset[of "[1, 2]" "\<lparr>sp_bramAdrWidth = 1, sp_numLeds = 4, sp_registerWishboneDbus = False,
        sp_fifo_bits = 5\<rparr>"]
  by (auto simp: bus_answer_def map_replicate)

end
