(* ===== verification/Cache.thy ===== *)
theory Cache
  imports Bus
begin

text \<open>
  The write-back cache (\<open>rtl/cache\<close>): its configuration, the tag RAM and the hit logic of the one
  way, the cache RAM, the slave-side bus interface and the refill and write-back engine on a
  Wishbone burst master. Addresses and indices are natural numbers within their widths; a word
  of the memory bus is the list of its 32-bit words, the lowest first.
\<close>

subsection \<open>Configuration\<close>

text \<open>\<open>int_log2\<close> of \<open>rtl/util.py\<close>, with its assertion.\<close>

fun int_log2 :: "nat \<Rightarrow> nat option" where
  "int_log2 v =
     (if v = 0 then None else if v = 1 then Some 0
      else if even v then map_option Suc (int_log2 (v div 2)) else None)"

declare int_log2.simps [simp del]

record cache_config =
  cc_mux_size :: nat
  cc_word_select_bits :: nat
  cc_cl_bits :: nat
  cc_cl_bits_slave :: nat
  cc_cache_size_m_words :: nat
  cc_line_select_adr_bits :: nat
  cc_tag_ram_size :: nat
  cc_tag_ram_bits :: nat
  cc_address_bits :: nat
  cc_tag_value_adr_bit_low :: nat

text \<open>\<open>CacheConfig\<close> with one way, the only number \<open>cache_instance\<close> accepts; \<open>None\<close> where an
  assertion fails or a width would be negative.\<close>

definition make_cache_config :: "nat \<Rightarrow> nat \<Rightarrow> nat \<Rightarrow> nat \<Rightarrow> cache_config option" where
  "make_cache_config master_data_width line_size cache_size_m_words address_bits =
     (if master_data_width \<notin> {32, 64, 128, 256} then None
      else
        (let mux_size = master_data_width div 32 in
         case (int_log2 mux_size, int_log2 line_size, int_log2 cache_size_m_words) of
           (Some word_select_bits, Some cl_bits, Some set_adr_bits) \<Rightarrow>
             (if cl_bits \<le> set_adr_bits \<and> set_adr_bits + word_select_bits \<le> address_bits then
                (let line_select = set_adr_bits - cl_bits;
                     tag_bits = address_bits - line_select - cl_bits - word_select_bits in
                 Some \<lparr>cc_mux_size = mux_size, cc_word_select_bits = word_select_bits,
                   cc_cl_bits = cl_bits, cc_cl_bits_slave = cl_bits + word_select_bits,
                   cc_cache_size_m_words = cache_size_m_words, cc_line_select_adr_bits = line_select,
                   cc_tag_ram_size = 2 ^ line_select, cc_tag_ram_bits = tag_bits,
                   cc_address_bits = address_bits,
                   cc_tag_value_adr_bit_low = address_bits - tag_bits\<rparr>)
              else None)
         | _ \<Rightarrow> None))"

definition create_address :: "cache_config \<Rightarrow> nat \<Rightarrow> nat \<Rightarrow> nat \<Rightarrow> nat" where
  "create_address c value_part line_part word_select_part =
     value_part * 2 ^ cc_tag_value_adr_bit_low c + line_part * 2 ^ cc_cl_bits_slave c + word_select_part"

text \<open>\<open>AddressBundle\<close>: tag value, tag index and word index of an address.\<close>

definition adr_tag_value :: "cache_config \<Rightarrow> nat \<Rightarrow> nat" where
  "adr_tag_value c a = take_bit (cc_tag_ram_bits c) (drop_bit (cc_tag_value_adr_bit_low c) a)"

definition adr_tag_index :: "cache_config \<Rightarrow> nat \<Rightarrow> nat" where
  "adr_tag_index c a =
     take_bit (cc_tag_value_adr_bit_low c - cc_cl_bits_slave c) (drop_bit (cc_cl_bits_slave c) a)"

definition adr_word_index :: "cache_config \<Rightarrow> nat \<Rightarrow> nat" where
  "adr_word_index c a = take_bit (cc_cl_bits_slave c) a"

text \<open>The word of the line on the memory bus, and the 32-bit word within it.\<close>

definition adr_line_word :: "cache_config \<Rightarrow> nat \<Rightarrow> nat" where
  "adr_line_word c a = take_bit (cc_cl_bits c) (drop_bit (cc_word_select_bits c) (adr_word_index c a))"

definition adr_lane :: "cache_config \<Rightarrow> nat \<Rightarrow> nat" where
  "adr_lane c a = take_bit (cc_word_select_bits c) a"

subsection \<open>Tags\<close>

record tag_data =
  td_valid :: bool
  td_dirty :: bool
  td_address :: nat

definition to_bit_vector :: "cache_config \<Rightarrow> tag_data \<Rightarrow> nat" where
  "to_bit_vector c t = td_address t + (if td_dirty t then 2 ^ cc_tag_ram_bits c else 0) +
     (if td_valid t then 2 ^ (cc_tag_ram_bits c + 1) else 0)"

definition from_bit_vector :: "cache_config \<Rightarrow> nat \<Rightarrow> tag_data" where
  "from_bit_vector c v = \<lparr>td_valid = bit v (cc_tag_ram_bits c + 1), td_dirty = bit v (cc_tag_ram_bits c),
     td_address = take_bit (cc_tag_ram_bits c) v\<rparr>"

subsection \<open>State\<close>

datatype wbm_state = Wb_Idle | Wb_Burst_Read | Wb_Burst_Write | Wb_Finish | Wb_Retire

record cache =
  ca_slave_adr_reg :: nat
  ca_en_r :: bool
  ca_slave_we_r :: "4 word"
  ca_slave_write_r :: xword
  ca_slave_ack :: bool
  ca_tag_ram :: "nat list"
  ca_tagdata_out :: nat
  ca_buffer_index :: nat
  ca_ram :: "xword list list"
  ca_slave_db_rd :: "xword list"
  ca_master_db_rd :: "xword list"
  ca_db_mux_reg :: nat
  ca_wbm_state :: wbm_state
  ca_wbm_enable :: bool
  ca_cache_offset_counter :: nat
  ca_master_offset_counter :: nat
  ca_wbm_sel_o :: bool
  ca_wbm_we_o :: bool
  ca_wbm_cti_o :: "3 word"

definition cache_init :: "cache_config \<Rightarrow> cache" where
  "cache_init c = \<lparr>ca_slave_adr_reg = 0, ca_en_r = False, ca_slave_we_r = 0, ca_slave_write_r = 0,
     ca_slave_ack = False, ca_tag_ram = replicate (cc_tag_ram_size c) 0, ca_tagdata_out = 0,
     ca_buffer_index = 0, ca_ram = replicate (cc_cache_size_m_words c) (replicate (cc_mux_size c) 0),
     ca_slave_db_rd = replicate (cc_mux_size c) 0, ca_master_db_rd = replicate (cc_mux_size c) 0,
     ca_db_mux_reg = 0, ca_wbm_state = Wb_Idle, ca_wbm_enable = False,
     ca_cache_offset_counter = 0, ca_master_offset_counter = 0, ca_wbm_sel_o = False,
     ca_wbm_we_o = False, ca_wbm_cti_o = 0\<rparr>"

subsection \<open>Slave side\<close>

text \<open>\<open>proc_input_comb\<close>: the request the cache works on, the bus's or the registered one.\<close>

record cache_req =
  cq_en :: bool
  cq_adr :: nat
  cq_we :: "4 word"
  cq_write :: xword

definition bus_input :: "cache_config \<Rightarrow> dbus_req \<Rightarrow> cache \<Rightarrow> cache_req" where
  "bus_input c q s =
     (if ca_en_r s then
        \<lparr>cq_en = True, cq_adr = ca_slave_adr_reg s, cq_we = ca_slave_we_r s, cq_write = ca_slave_write_r s\<rparr>
      else
        \<lparr>cq_en = db_en_o q, cq_adr = unat (take_bit (cc_address_bits c) (drop_bit 2 (db_adr_o q))),
          cq_we = db_we_o q, cq_write = db_wr q\<rparr>)"

subsection \<open>Hit and miss\<close>

definition tag_buffer :: "cache_config \<Rightarrow> cache \<Rightarrow> tag_data" where
  "tag_buffer c s = from_bit_vector c (ca_tagdata_out s)"

definition tag_match :: "cache_config \<Rightarrow> cache_req \<Rightarrow> cache \<Rightarrow> bool" where
  "tag_match c r s \<longleftrightarrow> td_valid (tag_buffer c s) \<and> td_address (tag_buffer c s) = adr_tag_value c (cq_adr r)"

definition index_match :: "cache_config \<Rightarrow> cache_req \<Rightarrow> cache \<Rightarrow> bool" where
  "index_match c r s \<longleftrightarrow> ca_buffer_index s = adr_tag_index c (cq_adr r)"

definition cache_hit :: "cache_config \<Rightarrow> cache_req \<Rightarrow> cache \<Rightarrow> bool" where
  "cache_hit c r s \<longleftrightarrow> index_match c r s \<and> tag_match c r s \<and> cq_en r"

definition cache_miss :: "cache_config \<Rightarrow> cache_req \<Rightarrow> cache \<Rightarrow> bool" where
  "cache_miss c r s \<longleftrightarrow> cq_en r \<and> index_match c r s \<and> \<not> tag_match c r s"

definition dirty_miss :: "cache_config \<Rightarrow> cache_req \<Rightarrow> cache \<Rightarrow> bool" where
  "dirty_miss c r s \<longleftrightarrow> cache_miss c r s \<and> td_dirty (tag_buffer c s)"

text \<open>\<open>proc_slave_write_enable\<close> and the tag signals of \<open>cache_control_comb\<close>.\<close>

definition slave_cache_we :: "cache_config \<Rightarrow> cache_req \<Rightarrow> cache \<Rightarrow> bool" where
  "slave_cache_we c r s \<longleftrightarrow> cq_en r \<and> cq_we r \<noteq> 0 \<and> cache_hit c r s"

definition tag_we :: "cache_config \<Rightarrow> bool \<Rightarrow> cache_req \<Rightarrow> cache \<Rightarrow> bool" where
  "tag_we c ack r s \<longleftrightarrow> ack \<and> ca_wbm_state s = Wb_Finish \<or> slave_cache_we c r s"

definition tag_in :: "cache_config \<Rightarrow> cache_req \<Rightarrow> cache \<Rightarrow> tag_data" where
  "tag_in c r s = \<lparr>td_valid = (\<not> dirty_miss c r s), td_dirty = slave_cache_we c r s,
     td_address = adr_tag_value c (cq_adr r)\<rparr>"

subsection \<open>Outputs\<close>

text \<open>The Wishbone master; \<open>sel_o\<close> stands for all byte lanes at once, as the engine drives them.\<close>

record cache_wb =
  cw_cyc_stb :: bool
  cw_we :: bool
  cw_sel :: bool
  cw_cti :: "3 word"
  cw_adr :: nat
  cw_db :: "xword list"

text \<open>\<open>concat\<close> of a tag value, a tag index and an offset.\<close>

definition line_adr :: "cache_config \<Rightarrow> nat \<Rightarrow> nat \<Rightarrow> nat" where
  "line_adr c index off = index * 2 ^ cc_cl_bits c + off"

definition master_adr :: "cache_config \<Rightarrow> nat \<Rightarrow> nat \<Rightarrow> nat \<Rightarrow> nat" where
  "master_adr c tag index off = line_adr c (tag * 2 ^ cc_line_select_adr_bits c + index) off"

definition cache_wb_out :: "cache_config \<Rightarrow> cache_req \<Rightarrow> cache \<Rightarrow> cache_wb" where
  "cache_wb_out c r s =
     \<lparr>cw_cyc_stb = ca_wbm_enable s, cw_we = ca_wbm_we_o s, cw_sel = ca_wbm_sel_o s,
       cw_cti = ca_wbm_cti_o s,
       cw_adr = (if dirty_miss c r s
         then master_adr c (td_address (tag_buffer c s)) (ca_buffer_index s) (ca_master_offset_counter s)
         else master_adr c (adr_tag_value c (cq_adr r)) (adr_tag_index c (cq_adr r))
                (ca_master_offset_counter s)),
       cw_db = ca_master_db_rd s\<rparr>"

definition cache_rsp :: "dbus_req \<Rightarrow> cache \<Rightarrow> dbus_rsp" where
  "cache_rsp q s = \<lparr>db_stall_i = (ca_en_r s \<and> db_en_o q), db_ack_i = ca_slave_ack s,
     db_error_i = False, db_rd = ca_slave_db_rd s ! ca_db_mux_reg s\<rparr>"

subsection \<open>The clock edge\<close>

text \<open>\<open>cache_ram_instance\<close>: the byte-enabled write of the slave side within the lane of the word,
  then the write of the master side (the two never meet).\<close>

definition cache_ram_next ::
  "cache_config \<Rightarrow> bool \<Rightarrow> xword list \<Rightarrow> cache_req \<Rightarrow> cache \<Rightarrow> xword list list" where
  "cache_ram_next c ack db_i r s =
     (let sa = line_adr c (adr_tag_index c (cq_adr r)) (adr_line_word c (cq_adr r));
          lane = adr_lane c (cq_adr r);
          ram1 = (if cache_hit c r s \<and> cq_en r
            then (ca_ram s)[sa := (ca_ram s ! sa)[lane := merge_lanes (cq_we r) (cq_write r) (ca_ram s ! sa ! lane)]]
            else ca_ram s)
      in if ack \<and> ca_wbm_enable s \<and> \<not> dirty_miss c r s
         then ram1[line_adr c (adr_tag_index c (cq_adr r)) (ca_master_offset_counter s) := db_i]
         else ram1)"

text \<open>\<open>master_rw\<close>: the refill and write-back engine.\<close>

definition master_rw :: "cache_config \<Rightarrow> bool \<Rightarrow> cache_req \<Rightarrow> cache \<Rightarrow> cache \<Rightarrow> cache" where
  "master_rw c ack r s n =
     (case ca_wbm_state s of
        Wb_Idle \<Rightarrow>
          (if cache_miss c r s \<and> \<not> cache_hit c r s then
             (let n1 = n\<lparr>ca_wbm_enable := True, ca_wbm_sel_o := True, ca_wbm_cti_o := 2\<rparr>
              in if dirty_miss c r s then
                   n1\<lparr>ca_cache_offset_counter := take_bit (cc_cl_bits c) (ca_master_offset_counter s + 1),
                      ca_wbm_we_o := True, ca_wbm_state := Wb_Burst_Write\<rparr>
                 else n1\<lparr>ca_wbm_we_o := False, ca_wbm_state := Wb_Burst_Read\<rparr>)
           else n)
      | Wb_Finish \<Rightarrow>
          (if ack then
             n\<lparr>ca_wbm_enable := False, ca_wbm_we_o := False, ca_master_offset_counter := 0,
               ca_cache_offset_counter := 0, ca_wbm_state := Wb_Retire\<rparr>
           else n)
      | Wb_Retire \<Rightarrow> n\<lparr>ca_wbm_state := Wb_Idle\<rparr>
      | _ \<Rightarrow>
          (if ack then
             (let k = ca_master_offset_counter s + 1;
                  n1 = (if k = 2 ^ cc_cl_bits c - 1
                        then n\<lparr>ca_wbm_cti_o := 7, ca_wbm_state := Wb_Finish\<rparr> else n)
              in n1\<lparr>ca_master_offset_counter := take_bit (cc_cl_bits c) k,
                    ca_cache_offset_counter := take_bit (cc_cl_bits c) (k + 1)\<rparr>)
           else n))"

text \<open>\<open>cache_dbslave_connect\<close>: the registered request and the acknowledge.\<close>

definition slave_regs_next :: "dbus_req \<Rightarrow> bool \<Rightarrow> nat \<Rightarrow> cache \<Rightarrow> cache \<Rightarrow> cache" where
  "slave_regs_next q hit adr s n =
     (let take = db_en_o q \<and> \<not> (ca_en_r s \<or> hit); done' = hit \<and> (db_en_o q \<or> ca_en_r s)
      in n\<lparr>ca_slave_adr_reg := (if take then adr else ca_slave_adr_reg s),
           ca_slave_we_r := (if take then db_we_o q else ca_slave_we_r s),
           ca_slave_write_r := (if take then db_wr q else ca_slave_write_r s),
           ca_en_r := (if done' then False else if take then True else ca_en_r s),
           ca_slave_ack := done'\<rparr>)"

text \<open>\<open>tag_ram_instance\<close>, writing first.\<close>

definition tag_ram_next :: "bool \<Rightarrow> nat \<Rightarrow> nat \<Rightarrow> cache \<Rightarrow> cache \<Rightarrow> cache" where
  "tag_ram_next we adr tagdata_in s n =
     n\<lparr>ca_tag_ram := (if we then (ca_tag_ram s)[adr := tagdata_in] else ca_tag_ram s),
       ca_tagdata_out := (if we then tagdata_in else ca_tag_ram s ! adr)\<rparr>"

text \<open>\<open>cache_instance\<close>: the way, the cache RAM with its multiplexer, the bus interface and the
  engine at one clock edge.\<close>

definition cache_next :: "cache_config \<Rightarrow> dbus_req \<Rightarrow> bool \<Rightarrow> xword list \<Rightarrow> cache \<Rightarrow> cache" where
  "cache_next c q ack db_i s =
     (let r = bus_input c q s; hit = cache_hit c r s; idx = adr_tag_index c (cq_adr r);
          master_ram_adr = (if dirty_miss c r s then line_adr c (ca_buffer_index s) (ca_cache_offset_counter s)
                            else line_adr c idx (ca_master_offset_counter s));
          master_en = (ack \<and> ca_wbm_enable s \<or> dirty_miss c r s \<and> ca_wbm_state s = Wb_Idle);
          n1 = slave_regs_next q hit (cq_adr r) s s;
          n2 = tag_ram_next (tag_we c ack r s) idx (to_bit_vector c (tag_in c r s)) s n1
      in master_rw c ack r s
        (n2\<lparr>ca_buffer_index := idx,
           ca_ram := cache_ram_next c ack db_i r s,
           ca_slave_db_rd := ca_ram s ! line_adr c idx (adr_line_word c (cq_adr r)),
           ca_master_db_rd := (if master_en then ca_ram s ! master_ram_adr else ca_master_db_rd s),
           ca_db_mux_reg := (if hit \<and> cq_en r then adr_lane c (cq_adr r) else ca_db_mux_reg s)\<rparr>))"

text \<open>A synchronous reset: the RAMs, the request registers and the output register of the tag RAM
  are not reset; that of the tag RAM is assigned again behind its reset.\<close>

definition cache_reset :: "cache_config \<Rightarrow> dbus_req \<Rightarrow> bool \<Rightarrow> xword list \<Rightarrow> cache \<Rightarrow> cache" where
  "cache_reset c q ack db_i s = (cache_next c q ack db_i s)
     \<lparr>ca_en_r := False, ca_slave_ack := False, ca_buffer_index := 0, ca_wbm_state := Wb_Idle,
      ca_wbm_enable := False, ca_cache_offset_counter := 0, ca_master_offset_counter := 0,
      ca_wbm_sel_o := False, ca_wbm_we_o := False, ca_wbm_cti_o := 0\<rparr>"

end
