(* ===== verification/Cache_Memory.thy ===== *)
theory Cache_Memory
  imports Cache Device_Port
begin

text \<open>
  The cache in front of a memory on its Wishbone bus, proved against a flat memory: whatever the
  wait states of the memory, every session of reads and byte-enabled writes returns what the flat
  memory would, through hits, refills and write-backs.
\<close>

subsection \<open>Configurations\<close>

definition cache_config_ok :: "cache_config \<Rightarrow> bool" where
  "cache_config_ok c \<longleftrightarrow> cc_mux_size c = 2 ^ cc_word_select_bits c \<and>
     cc_cl_bits_slave c = cc_cl_bits c + cc_word_select_bits c \<and>
     cc_tag_value_adr_bit_low c = cc_line_select_adr_bits c + cc_cl_bits c + cc_word_select_bits c \<and>
     cc_tag_ram_size c = 2 ^ cc_line_select_adr_bits c \<and>
     cc_cache_size_m_words c = 2 ^ (cc_line_select_adr_bits c + cc_cl_bits c) \<and>
     cc_address_bits c = cc_tag_ram_bits c + cc_tag_value_adr_bit_low c"

lemma int_log2_Some: "int_log2 v = Some k \<Longrightarrow> v = 2 ^ k"
proof (induction v arbitrary: k rule: int_log2.induct)
  case (1 v)
  show ?case
  proof (cases "v = 0 \<or> v = 1")
    case True
    with "1.prems" show ?thesis by (auto simp: int_log2.simps[of v] split: if_splits)
  next
    case False
    with "1.prems" obtain j where "even v" "int_log2 (v div 2) = Some j" "k = Suc j"
      by (auto simp: int_log2.simps[of v] split: if_splits)
    with "1.IH" False show ?thesis by (auto elim!: evenE)
  qed
qed

lemma make_cache_config_ok:
  assumes "make_cache_config mw ls cs ab = Some c"
  shows "cache_config_ok c \<and> ls = 2 ^ cc_cl_bits c"
  using assms
  by (auto simp: make_cache_config_def Let_def cache_config_ok_def dest!: int_log2_Some simp flip: power_add
      split: if_splits option.splits)

subsection \<open>Addresses\<close>

lemma adr_tag_index_bound: "cache_config_ok c \<Longrightarrow> adr_tag_index c a < 2 ^ cc_line_select_adr_bits c"
  by (simp add: adr_tag_index_def cache_config_ok_def)

lemma adr_line_word_bound: "adr_line_word c a < 2 ^ cc_cl_bits c"
  by (simp add: adr_line_word_def)

lemma adr_lane_bound: "cache_config_ok c \<Longrightarrow> adr_lane c a < cc_mux_size c"
  by (simp add: adr_lane_def cache_config_ok_def)

lemma split_concat:
  fixes i j m n k :: nat
  assumes "m < k" "n < k"
  shows "i * k + m = j * k + n \<longleftrightarrow> i = j \<and> m = n"
proof
  assume e: "i * k + m = j * k + n"
  have "(i * k + m) div k = i" "(j * k + n) div k = j" using assms by simp_all
  with e show "i = j \<and> m = n" by simp
qed simp

lemma line_adr_inj:
  "m < 2 ^ cc_cl_bits c \<Longrightarrow> n < 2 ^ cc_cl_bits c \<Longrightarrow> line_adr c i m = line_adr c j n \<longleftrightarrow> i = j \<and> m = n"
  by (simp add: line_adr_def split_concat)

lemma master_adr_inj:
  "m < 2 ^ cc_cl_bits c \<Longrightarrow> n < 2 ^ cc_cl_bits c \<Longrightarrow> i < 2 ^ cc_line_select_adr_bits c \<Longrightarrow>
   j < 2 ^ cc_line_select_adr_bits c \<Longrightarrow>
   master_adr c t i m = master_adr c u j n \<longleftrightarrow> t = u \<and> i = j \<and> m = n"
  by (auto simp: master_adr_def line_adr_inj split_concat)

lemma line_adr_bound:
  assumes "i < 2 ^ cc_line_select_adr_bits c" "m < 2 ^ cc_cl_bits c"
  shows "line_adr c i m < 2 ^ (cc_line_select_adr_bits c + cc_cl_bits c)"
proof -
  have "Suc i * 2 ^ cc_cl_bits c \<le> 2 ^ cc_line_select_adr_bits c * 2 ^ cc_cl_bits c"
    using assms(1) by (intro mult_le_mono1) simp
  with assms(2) show ?thesis by (simp add: line_adr_def power_add)
qed

text \<open>An address is the concatenation of its parts.\<close>

lemma take_drop_split: "(a :: nat) mod 2 ^ (m + n) = (a div 2 ^ n mod 2 ^ m) * 2 ^ n + a mod 2 ^ n"
  by (simp add: power_add mult.commute[of "2 ^ m"] mod_mult2_eq)

lemma address_parts:
  assumes ok: "cache_config_ok c" and a: "a < 2 ^ cc_address_bits c"
  shows "a = master_adr c (adr_tag_value c a) (adr_tag_index c a) (adr_line_word c a) * cc_mux_size c +
    adr_lane c a"
proof -
  let ?w = "cc_word_select_bits c" and ?k = "cc_cl_bits c" and ?s = "cc_line_select_adr_bits c"
    and ?t = "cc_tag_ram_bits c"
  have cfg: "cc_mux_size c = 2 ^ ?w" "cc_cl_bits_slave c = ?k + ?w"
    "cc_tag_value_adr_bit_low c = ?s + (?k + ?w)" "cc_address_bits c = ?t + (?s + (?k + ?w))"
    using ok by (simp_all add: cache_config_ok_def)
  have p: "adr_tag_value c a = a div 2 ^ (?s + (?k + ?w)) mod 2 ^ ?t"
    "adr_tag_index c a = a div 2 ^ (?k + ?w) mod 2 ^ ?s"
    "adr_line_word c a = a div 2 ^ ?w mod 2 ^ ?k" "adr_lane c a = a mod 2 ^ ?w"
    by (simp_all add: adr_tag_value_def adr_tag_index_def adr_line_word_def adr_word_index_def
        adr_lane_def cfg take_bit_eq_mod drop_bit_eq_div)
      (simp add: power_add mult.commute[of "2 ^ ?k"] mod_mult2_eq div_mult2_eq)
  have "a = a mod 2 ^ (?t + (?s + (?k + ?w)))" using a by (simp add: cfg)
  also have "\<dots> = (a div 2 ^ (?s + (?k + ?w)) mod 2 ^ ?t) * 2 ^ (?s + (?k + ?w)) + a mod 2 ^ (?s + (?k + ?w))"
    by (rule take_drop_split)
  also have "a mod 2 ^ (?s + (?k + ?w)) = (a div 2 ^ (?k + ?w) mod 2 ^ ?s) * 2 ^ (?k + ?w) + a mod 2 ^ (?k + ?w)"
    by (rule take_drop_split)
  also have "a mod 2 ^ (?k + ?w) = (a div 2 ^ ?w mod 2 ^ ?k) * 2 ^ ?w + a mod 2 ^ ?w"
    by (rule take_drop_split)
  finally show ?thesis
    unfolding master_adr_def line_adr_def p cfg by (simp add: power_add algebra_simps)
qed

lemma address_parts_inj:
  assumes "cache_config_ok c" "a < 2 ^ cc_address_bits c" "b < 2 ^ cc_address_bits c"
    and "adr_tag_value c a = adr_tag_value c b" "adr_tag_index c a = adr_tag_index c b"
    "adr_line_word c a = adr_line_word c b" "adr_lane c a = adr_lane c b"
  shows "a = b"
  using address_parts[OF assms(1,2)] address_parts[OF assms(1,3)] assms(4-7) by simp

text \<open>The tag's bit vector.\<close>

lemma from_to_bit_vector:
  assumes "td_address t < 2 ^ cc_tag_ram_bits c"
  shows "from_bit_vector c (to_bit_vector c t) = t"
proof -
  let ?n = "cc_tag_ram_bits c"
  define h where "h = (if td_dirty t then 1 else 0) + (if td_valid t then 2 else 0 :: nat)"
  have v: "to_bit_vector c t = td_address t + h * 2 ^ ?n" by (simp add: to_bit_vector_def h_def)
  have "take_bit ?n (to_bit_vector c t) = td_address t"
    using assms by (simp add: v take_bit_eq_mod)
  moreover have "drop_bit ?n (to_bit_vector c t) = h"
    using assms by (simp add: v drop_bit_eq_div)
  then have "bit (to_bit_vector c t) (?n + j) = bit h j" for j
    by (metis bit_drop_bit_eq comp_apply)
  from this[of 0] this[of 1] have "bit (to_bit_vector c t) ?n = td_dirty t" "bit (to_bit_vector c t) (?n + 1) = td_valid t"
    by (auto simp: h_def bit_0 bit_1_iff simp flip: bit_Suc simp add: bit_iff_odd)
  ultimately show ?thesis by (simp add: from_bit_vector_def)
qed

subsection \<open>The memory behind the cache\<close>

text \<open>
  A Wishbone slave with any number of wait states: it is ready or not in a cycle, acknowledges an
  open cycle when it is ready, shows the addressed word, and stores the written word with the
  acknowledge.
\<close>

record cache_sys =
  cy_cache :: cache
  cy_mem :: "nat \<Rightarrow> xword list"

definition cy_req :: "cache_config \<Rightarrow> dbus_req \<Rightarrow> cache_sys \<Rightarrow> cache_req" where
  "cy_req c q y = bus_input c q (cy_cache y)"

definition cy_wb :: "cache_config \<Rightarrow> dbus_req \<Rightarrow> cache_sys \<Rightarrow> cache_wb" where
  "cy_wb c q y = cache_wb_out c (cy_req c q y) (cy_cache y)"

definition cy_next :: "cache_config \<Rightarrow> dbus_req \<Rightarrow> bool \<Rightarrow> cache_sys \<Rightarrow> cache_sys" where
  "cy_next c q ready y =
     (let o' = cy_wb c q y; ack = (cw_cyc_stb o' \<and> ready) in
      \<lparr>cy_cache = cache_next c q ack (cy_mem y (cw_adr o')) (cy_cache y),
        cy_mem = (if ack \<and> cw_we o' then (cy_mem y)(cw_adr o' := cw_db o') else cy_mem y)\<rparr>)"

text \<open>An access: the request in the first cycle, then idle until the acknowledge.\<close>

fun cache_access :: "cache_config \<Rightarrow> nat \<Rightarrow> dbus_req \<Rightarrow> (nat \<Rightarrow> bool) \<Rightarrow> cache_sys \<Rightarrow> (dbus_rsp \<times> cache_sys) option" where
  "cache_access c 0 q ready y = None"
| "cache_access c (Suc n) q ready y =
     (let rsp = cache_rsp q (cy_cache y); y' = cy_next c q (ready 0) y in
      if db_ack_i rsp then Some (rsp, y')
      else cache_access c n (q\<lparr>db_en_o := False\<rparr>) (\<lambda>i. ready (Suc i)) y')"

subsection \<open>What the cache and the memory hold together\<close>

definition entry :: "cache_config \<Rightarrow> cache \<Rightarrow> nat \<Rightarrow> tag_data" where
  "entry c s i = from_bit_vector c (ca_tag_ram s ! i)"

text \<open>The word of the memory bus with a tag, an index and an offset: the cache's if it holds the line.\<close>

definition lookup :: "cache_config \<Rightarrow> cache_sys \<Rightarrow> nat \<Rightarrow> nat \<Rightarrow> nat \<Rightarrow> xword list" where
  "lookup c y t i m =
     (if td_valid (entry c (cy_cache y) i) \<and> td_address (entry c (cy_cache y) i) = t
      then ca_ram (cy_cache y) ! line_adr c i m else cy_mem y (master_adr c t i m))"

text \<open>A line that is not dirty is the memory's; a dirty line is valid.\<close>

definition line_ok :: "cache_config \<Rightarrow> cache_sys \<Rightarrow> nat \<Rightarrow> bool" where
  "line_ok c y i \<longleftrightarrow>
     (let e = entry c (cy_cache y) i in
      (td_dirty e \<longrightarrow> td_valid e) \<and>
      (td_valid e \<and> \<not> td_dirty e \<longrightarrow> (\<forall>m < 2 ^ cc_cl_bits c.
         ca_ram (cy_cache y) ! line_adr c i m = cy_mem y (master_adr c (td_address e) i m))))"

definition cy_shape :: "cache_config \<Rightarrow> cache_sys \<Rightarrow> bool" where
  "cy_shape c y \<longleftrightarrow> length (ca_tag_ram (cy_cache y)) = cc_tag_ram_size c \<and>
     length (ca_ram (cy_cache y)) = cc_cache_size_m_words c \<and>
     (\<forall>w \<in> set (ca_ram (cy_cache y)). length w = cc_mux_size c) \<and>
     (\<forall>a. length (cy_mem y a) = cc_mux_size c) \<and> length (ca_master_db_rd (cy_cache y)) = cc_mux_size c \<and>
     ca_buffer_index (cy_cache y) < cc_tag_ram_size c \<and>
     ca_cache_offset_counter (cy_cache y) < 2 ^ cc_cl_bits c \<and>
     ca_master_offset_counter (cy_cache y) < 2 ^ cc_cl_bits c \<and>
     ca_tagdata_out (cy_cache y) = ca_tag_ram (cy_cache y) ! ca_buffer_index (cy_cache y)"

text \<open>Every other line than \<open>i\<close> is as in the view \<open>v\<close>.\<close>

definition others :: "cache_config \<Rightarrow> nat \<Rightarrow> (nat \<Rightarrow> nat \<Rightarrow> nat \<Rightarrow> xword list) \<Rightarrow> cache_sys \<Rightarrow> bool" where
  "others c i v y \<longleftrightarrow> (\<forall>j < 2 ^ cc_line_select_adr_bits c. j \<noteq> i \<longrightarrow>
     line_ok c y j \<and> (\<forall>t. \<forall>m < 2 ^ cc_cl_bits c. lookup c y t j m = v t j m))"

lemma line_unchanged:
  assumes "entry c (cy_cache y') i = entry c (cy_cache y) i"
    and "\<And>m. m < 2 ^ cc_cl_bits c \<Longrightarrow> ca_ram (cy_cache y') ! line_adr c i m = ca_ram (cy_cache y) ! line_adr c i m"
    and "\<And>t m. m < 2 ^ cc_cl_bits c \<Longrightarrow> cy_mem y' (master_adr c t i m) = cy_mem y (master_adr c t i m)"
  shows "line_ok c y' i = line_ok c y i"
    and "m < 2 ^ cc_cl_bits c \<Longrightarrow> lookup c y' t i m = lookup c y t i m"
  using assms by (simp_all add: line_ok_def lookup_def Let_def)

text \<open>The requests under way: in the first cycle on the bus, then in the registers.\<close>

definition asks :: "cache_config \<Rightarrow> dbus_req \<Rightarrow> cache_req \<Rightarrow> cache_sys \<Rightarrow> bool" where
  "asks c q r y \<longleftrightarrow> cy_req c q y = r \<and> cq_en r"

subsection \<open>One cycle\<close>

text \<open>All registers at a clock edge.\<close>

lemma cache_next_unfold:
  "cache_next c q ack db_i s =
     (let r = bus_input c q s; hit = cache_hit c r s; take = db_en_o q \<and> \<not> (ca_en_r s \<or> hit);
          idx = adr_tag_index c (cq_adr r); tagdata_in = to_bit_vector c (tag_in c r s);
          master_ram_adr = (if dirty_miss c r s then line_adr c (ca_buffer_index s) (ca_cache_offset_counter s)
                            else line_adr c idx (ca_master_offset_counter s));
          master_en = (ack \<and> ca_wbm_enable s \<or> dirty_miss c r s \<and> ca_wbm_state s = Wb_Idle)
      in master_rw c ack r s
        (s\<lparr>ca_slave_adr_reg := (if take then cq_adr r else ca_slave_adr_reg s),
           ca_slave_we_r := (if take then db_we_o q else ca_slave_we_r s),
           ca_slave_write_r := (if take then db_wr q else ca_slave_write_r s),
           ca_en_r := (if hit \<and> (db_en_o q \<or> ca_en_r s) then False else if take then True else ca_en_r s),
           ca_slave_ack := (hit \<and> (db_en_o q \<or> ca_en_r s)),
           ca_tag_ram := (if tag_we c ack r s then (ca_tag_ram s)[idx := tagdata_in] else ca_tag_ram s),
           ca_tagdata_out := (if tag_we c ack r s then tagdata_in else ca_tag_ram s ! idx),
           ca_buffer_index := idx,
           ca_ram := cache_ram_next c ack db_i r s,
           ca_slave_db_rd := ca_ram s ! line_adr c idx (adr_line_word c (cq_adr r)),
           ca_master_db_rd := (if master_en then ca_ram s ! master_ram_adr else ca_master_db_rd s),
           ca_db_mux_reg := (if hit \<and> cq_en r then adr_lane c (cq_adr r) else ca_db_mux_reg s)\<rparr>))"
  unfolding cache_next_def slave_regs_next_def tag_ram_next_def Let_def ..

lemma master_rw_keeps [simp]:
  "ca_slave_adr_reg (master_rw c ack r s n) = ca_slave_adr_reg n"
  "ca_en_r (master_rw c ack r s n) = ca_en_r n" "ca_slave_we_r (master_rw c ack r s n) = ca_slave_we_r n"
  "ca_slave_write_r (master_rw c ack r s n) = ca_slave_write_r n"
  "ca_slave_ack (master_rw c ack r s n) = ca_slave_ack n" "ca_tag_ram (master_rw c ack r s n) = ca_tag_ram n"
  "ca_tagdata_out (master_rw c ack r s n) = ca_tagdata_out n"
  "ca_buffer_index (master_rw c ack r s n) = ca_buffer_index n" "ca_ram (master_rw c ack r s n) = ca_ram n"
  "ca_slave_db_rd (master_rw c ack r s n) = ca_slave_db_rd n"
  "ca_master_db_rd (master_rw c ack r s n) = ca_master_db_rd n"
  "ca_db_mux_reg (master_rw c ack r s n) = ca_db_mux_reg n"
  by (simp_all add: master_rw_def Let_def split: wbm_state.split)

lemma master_rw_offsets:
  assumes "ca_cache_offset_counter n < 2 ^ cc_cl_bits c" "ca_master_offset_counter n < 2 ^ cc_cl_bits c"
  shows "ca_cache_offset_counter (master_rw c ack r s n) < 2 ^ cc_cl_bits c"
    and "ca_master_offset_counter (master_rw c ack r s n) < 2 ^ cc_cl_bits c"
  using assms by (simp_all add: master_rw_def Let_def split: wbm_state.split)

text \<open>The acknowledge of the memory.\<close>

definition cy_ack :: "cache_config \<Rightarrow> dbus_req \<Rightarrow> bool \<Rightarrow> cache_sys \<Rightarrow> bool" where
  "cy_ack c q ready y \<longleftrightarrow> ca_wbm_enable (cy_cache y) \<and> ready"

lemma cy_next_cache: "cy_cache (cy_next c q ready y) =
    cache_next c q (cy_ack c q ready y) (cy_mem y (cw_adr (cy_wb c q y))) (cy_cache y)"
  by (simp add: cy_next_def Let_def cy_ack_def cy_wb_def cache_wb_out_def)

lemma cy_next_mem: "cy_mem (cy_next c q ready y) =
    (if cy_ack c q ready y \<and> ca_wbm_we_o (cy_cache y)
     then (cy_mem y)(cw_adr (cy_wb c q y) := ca_master_db_rd (cy_cache y)) else cy_mem y)"
  by (simp add: cy_next_def Let_def cy_ack_def cy_wb_def cache_wb_out_def)

lemma cache_ram_next_shape:
  assumes "\<forall>w \<in> set (ca_ram s). length w = n" "length d = n"
  shows "length (cache_ram_next c ack d r s) = length (ca_ram s) \<and>
    (\<forall>w \<in> set (cache_ram_next c ack d r s). length w = n)"
proof -
  have u: "\<forall>w \<in> set (xs[i := w']). length w = n" if "\<forall>w \<in> set xs. length w = n" "i < length xs \<longrightarrow> length w' = n"
    for xs :: "xword list list" and i w'
  proof (cases "i < length xs")
    case True
    with that show ?thesis using set_update_subset_insert[of xs i w'] by auto
  qed (use that in \<open>simp add: list_update_beyond not_less\<close>)
  let ?sa = "line_adr c (adr_tag_index c (cq_adr r)) (adr_line_word c (cq_adr r))"
  let ?x = "(ca_ram s ! ?sa)[adr_lane c (cq_adr r) :=
      merge_lanes (cq_we r) (cq_write r) (ca_ram s ! ?sa ! adr_lane c (cq_adr r))]"
  have "?sa < length (ca_ram s) \<longrightarrow> length ?x = n" using assms(1) by simp
  then have 1: "\<forall>w \<in> set ((ca_ram s)[?sa := ?x]). length w = n" by (rule u[OF assms(1)])
  have 2: "\<forall>w \<in> set (xs[i := d]). length w = n" if "\<forall>w \<in> set xs. length w = n" for xs i
    using u[OF that] assms(2) by blast
  define ram1 where "ram1 = (if cache_hit c r s \<and> cq_en r then (ca_ram s)[?sa := ?x] else ca_ram s)"
  have r: "length ram1 = length (ca_ram s)" "\<forall>w \<in> set ram1. length w = n"
    using 1 assms(1) by (simp_all add: ram1_def)
  have "cache_ram_next c ack d r s = (if ack \<and> ca_wbm_enable s \<and> \<not> dirty_miss c r s
      then ram1[line_adr c (adr_tag_index c (cq_adr r)) (ca_master_offset_counter s) := d] else ram1)"
    by (simp add: cache_ram_next_def Let_def ram1_def)
  then show ?thesis using r 2[OF r(2)] by simp
qed

lemma cy_shape_next:
  assumes ok: "cache_config_ok c" and sh: "cy_shape c y"
  shows "cy_shape c (cy_next c q ready y)"
proof -
  let ?s = "cy_cache y" and ?r = "bus_input c q (cy_cache y)"
  let ?ix = "adr_tag_index c (cq_adr (bus_input c q (cy_cache y)))"
  let ?d = "cy_mem y (cw_adr (cy_wb c q y))" and ?ack = "cy_ack c q ready y"
  have c: "cc_tag_ram_size c = 2 ^ cc_line_select_adr_bits c"
    "cc_cache_size_m_words c = 2 ^ (cc_line_select_adr_bits c + cc_cl_bits c)"
    using ok by (simp_all add: cache_config_ok_def)
  have ix: "?ix < 2 ^ cc_line_select_adr_bits c" by (rule adr_tag_index_bound[OF ok])
  have s: "length (ca_tag_ram ?s) = cc_tag_ram_size c" "length (ca_ram ?s) = cc_cache_size_m_words c"
    "\<forall>w \<in> set (ca_ram ?s). length w = cc_mux_size c" "\<And>a. length (cy_mem y a) = cc_mux_size c"
    "length (ca_master_db_rd ?s) = cc_mux_size c" "ca_buffer_index ?s < cc_tag_ram_size c"
    "ca_cache_offset_counter ?s < 2 ^ cc_cl_bits c" "ca_master_offset_counter ?s < 2 ^ cc_cl_bits c"
    using sh by (simp_all add: cy_shape_def)
  have rd: "length (ca_ram ?s ! line_adr c i m) = cc_mux_size c"
    if "i < 2 ^ cc_line_select_adr_bits c" "m < 2 ^ cc_cl_bits c" for i m
    using s(2,3) line_adr_bound[OF that] c by simp
  have md: "length (ca_master_db_rd (cache_next c q ?ack ?d ?s)) = cc_mux_size c"
    using s rd[OF ix s(8)] rd[of "ca_buffer_index ?s", OF _ s(7)] c by (simp add: cache_next_unfold Let_def)
  have tag: "length (ca_tag_ram (cache_next c q ?ack ?d ?s)) = cc_tag_ram_size c"
    "ca_buffer_index (cache_next c q ?ack ?d ?s) = ?ix"
    "ca_tagdata_out (cache_next c q ?ack ?d ?s) = ca_tag_ram (cache_next c q ?ack ?d ?s) ! ?ix"
    using s(1) ix c by (simp_all add: cache_next_unfold Let_def)
  have ram: "ca_ram (cache_next c q ?ack ?d ?s) = cache_ram_next c ?ack ?d ?r ?s"
    by (simp add: cache_next_unfold Let_def)
  have off: "ca_cache_offset_counter (cache_next c q ?ack ?d ?s) < 2 ^ cc_cl_bits c"
    "ca_master_offset_counter (cache_next c q ?ack ?d ?s) < 2 ^ cc_cl_bits c"
    unfolding cache_next_unfold Let_def by (rule master_rw_offsets; simp add: s)+
  show ?thesis
    unfolding cy_shape_def cy_next_cache cy_next_mem ram tag(2)
    using tag md off ix c s cache_ram_next_shape[OF s(3) s(4)] by simp
qed

subsection \<open>A request stays until it hits\<close>

lemma request_held:
  assumes "asks c q r y" "\<not> cache_hit c r (cy_cache y)"
  shows "asks c q' r (cy_next c q ready y)" "\<not> ca_slave_ack (cy_cache (cy_next c q ready y))"
  using assms by (auto simp: asks_def cy_req_def bus_input_def cy_next_cache cache_next_unfold Let_def
      split: if_splits)

lemma asks_bus: "asks c q r y \<Longrightarrow> bus_input c q (cy_cache y) = r \<and> cq_en r"
  by (simp add: asks_def cy_req_def)

lemma next_tag_ram: "asks c q r y \<Longrightarrow> ca_tag_ram (cy_cache (cy_next c q ready y)) =
    (if tag_we c (cy_ack c q ready y) r (cy_cache y)
     then (ca_tag_ram (cy_cache y))[adr_tag_index c (cq_adr r) := to_bit_vector c (tag_in c r (cy_cache y))]
     else ca_tag_ram (cy_cache y))"
  by (drule asks_bus) (simp add: cy_next_cache cache_next_unfold Let_def)

lemma next_ram: "asks c q r y \<Longrightarrow> ca_ram (cy_cache (cy_next c q ready y)) =
    cache_ram_next c (cy_ack c q ready y) (cy_mem y (cw_adr (cy_wb c q y))) r (cy_cache y)"
  by (drule asks_bus) (simp add: cy_next_cache cache_next_unfold Let_def)

lemma next_buffer: "asks c q r y \<Longrightarrow> ca_buffer_index (cy_cache (cy_next c q ready y)) = adr_tag_index c (cq_adr r)"
  by (drule asks_bus) (simp add: cy_next_cache cache_next_unfold Let_def)

lemma wb_adr:
  assumes "asks c q r y"
  shows "cw_adr (cy_wb c q y) = master_adr c
    (if dirty_miss c r (cy_cache y) then td_address (tag_buffer c (cy_cache y)) else adr_tag_value c (cq_adr r))
    (adr_tag_index c (cq_adr r)) (ca_master_offset_counter (cy_cache y))"
  using assms asks_bus[OF assms]
  by (auto simp: cy_wb_def cy_req_def cache_wb_out_def dirty_miss_def cache_miss_def index_match_def)

text \<open>Only the line of the request changes.\<close>

lemma others_next:
  assumes ok: "cache_config_ok c" and sh: "cy_shape c y" and r: "asks c q r y"
    and ix: "ix = adr_tag_index c (cq_adr r)" and o: "others c ix v y"
  shows "others c ix v (cy_next c q ready y)"
proof -
  let ?y = "cy_next c q ready y"
  have mo: "ca_master_offset_counter (cy_cache y) < 2 ^ cc_cl_bits c" using sh by (simp add: cy_shape_def)
  have ixb: "ix < 2 ^ cc_line_select_adr_bits c" unfolding ix by (rule adr_tag_index_bound[OF ok])
  have e: "entry c (cy_cache ?y) j = entry c (cy_cache y) j" if "j \<noteq> ix" for j
    using that by (simp add: entry_def next_tag_ram[OF r] ix)
  have m: "ca_ram (cy_cache ?y) ! line_adr c j m = ca_ram (cy_cache y) ! line_adr c j m"
    if "j \<noteq> ix" "m < 2 ^ cc_cl_bits c" for j m
    using that line_adr_inj[OF that(2) mo, of j ix]
      line_adr_inj[OF that(2) adr_line_word_bound, of j ix "cq_adr r"]
    by (auto simp: next_ram[OF r] cache_ram_next_def Let_def nth_list_update_neq simp flip: ix)
  have w: "cy_mem ?y (master_adr c t j m) = cy_mem y (master_adr c t j m)"
    if "j \<noteq> ix" "j < 2 ^ cc_line_select_adr_bits c" "m < 2 ^ cc_cl_bits c" for t j m
    using that master_adr_inj[OF that(3) mo that(2) ixb, of t]
    by (simp add: cy_next_mem wb_adr[OF r] flip: ix)
  note u = line_unchanged[of c ?y _ y, OF e m w]
  show ?thesis
    using o by (simp add: others_def u)
qed

subsection \<open>The phases of an access\<close>

text \<open>
  \<open>Look\<close>: the tag of another line is in the buffer; \<open>Hit\<close>; \<open>Miss\<close> of a clean line, with the engine
  in its retire state or not; \<open>Dirty\<close>: a miss of a dirty line; \<open>Wr j\<close> and \<open>Rd j\<close>: word \<open>j\<close> of the
  line is on the memory bus for the write-back or the refill; \<open>Done\<close>: the acknowledge.
\<close>

datatype cphase = Look | Hit | Miss bool | Dirty | Wr nat | Rd nat | Done

inductive phase_step :: "nat \<Rightarrow> bool \<Rightarrow> cphase \<Rightarrow> cphase \<Rightarrow> bool" for n where
  "p \<in> {Hit, Miss False, Dirty} \<Longrightarrow> phase_step n b Look p"
| "phase_step n b Hit Done"
| "phase_step n b (Miss True) (Miss False)"
| "phase_step n b (Miss False) (Rd 0)"
| "phase_step n b Dirty (Wr 0)"
| "phase_step n False (Wr j) (Wr j)"
| "Suc j < n \<Longrightarrow> phase_step n True (Wr j) (Wr (Suc j))"
| "Suc j = n \<Longrightarrow> phase_step n True (Wr j) (Miss True)"
| "phase_step n False (Rd j) (Rd j)"
| "Suc j < n \<Longrightarrow> phase_step n True (Rd j) (Rd (Suc j))"
| "Suc j = n \<Longrightarrow> phase_step n True (Rd j) Hit"

inductive_cases phase_stepE:
  "phase_step n b Look p" "phase_step n b Hit p" "phase_step n b (Miss x) p" "phase_step n b Dirty p"
  "phase_step n b (Wr j) p" "phase_step n b (Rd j) p" "phase_step n b Done p"

text \<open>The steps an access may still take from a phase, with a memory that keeps it waiting for at
  most \<open>k\<close> cycles at a time.\<close>

fun phase_cost :: "nat \<Rightarrow> nat \<Rightarrow> cphase \<Rightarrow> nat" where
  "phase_cost n k Done = 1"
| "phase_cost n k Hit = 2"
| "phase_cost n k (Rd j) = (n - j) * Suc k + 2"
| "phase_cost n k (Miss b) = n * Suc k + 3 + (if b then 1 else 0)"
| "phase_cost n k (Wr j) = (n - j) * Suc k + n * Suc k + 4"
| "phase_cost n k Dirty = 2 * n * Suc k + 5"
| "phase_cost n k Look = 2 * n * Suc k + 6"

text \<open>The line of the request as in the view.\<close>

definition line_holds :: "cache_config \<Rightarrow> nat \<Rightarrow> (nat \<Rightarrow> nat \<Rightarrow> nat \<Rightarrow> xword list) \<Rightarrow> cache_sys \<Rightarrow> bool" where
  "line_holds c i v y \<longleftrightarrow> line_ok c y i \<and> (\<forall>t. \<forall>m < 2 ^ cc_cl_bits c. lookup c y t i m = v t i m)"

definition mem_holds :: "cache_config \<Rightarrow> nat \<Rightarrow> nat set \<Rightarrow> (nat \<Rightarrow> nat \<Rightarrow> nat \<Rightarrow> xword list) \<Rightarrow> cache_sys \<Rightarrow> bool" where
  "mem_holds c i ts v y \<longleftrightarrow> (\<forall>t \<in> ts. \<forall>m < 2 ^ cc_cl_bits c. cy_mem y (master_adr c t i m) = v t i m)"

definition quiet :: "wbm_state \<Rightarrow> cache \<Rightarrow> bool" where
  "quiet st s \<longleftrightarrow> ca_wbm_state s = st \<and> \<not> ca_wbm_enable s \<and> ca_cache_offset_counter s = 0 \<and>
     ca_master_offset_counter s = 0"

definition bursting :: "cache_config \<Rightarrow> wbm_state \<Rightarrow> bool \<Rightarrow> nat \<Rightarrow> cache \<Rightarrow> bool" where
  "bursting c st we j s \<longleftrightarrow> j < 2 ^ cc_cl_bits c \<and>
     ca_wbm_state s = (if Suc j = 2 ^ cc_cl_bits c then Wb_Finish else st) \<and> ca_wbm_enable s \<and>
     ca_wbm_we_o s = we \<and> ca_master_offset_counter s = j \<and>
     (we \<longrightarrow> ca_cache_offset_counter s = Suc j mod 2 ^ cc_cl_bits c)"

fun phase_ok :: "cache_config \<Rightarrow> cache_req \<Rightarrow> (nat \<Rightarrow> nat \<Rightarrow> nat \<Rightarrow> xword list) \<Rightarrow> cphase \<Rightarrow> cache_sys \<Rightarrow> bool" where
  "phase_ok c r v Look y \<longleftrightarrow> quiet Wb_Idle (cy_cache y) \<and> \<not> index_match c r (cy_cache y) \<and>
     line_holds c (adr_tag_index c (cq_adr r)) v y"
| "phase_ok c r v Hit y \<longleftrightarrow> (quiet Wb_Idle (cy_cache y) \<or> quiet Wb_Retire (cy_cache y)) \<and>
     cache_hit c r (cy_cache y) \<and> line_holds c (adr_tag_index c (cq_adr r)) v y"
| "phase_ok c r v (Miss b) y \<longleftrightarrow> quiet (if b then Wb_Retire else Wb_Idle) (cy_cache y) \<and>
     cache_miss c r (cy_cache y) \<and> \<not> dirty_miss c r (cy_cache y) \<and>
     line_holds c (adr_tag_index c (cq_adr r)) v y"
| "phase_ok c r v Dirty y \<longleftrightarrow> quiet Wb_Idle (cy_cache y) \<and> dirty_miss c r (cy_cache y) \<and>
     line_holds c (adr_tag_index c (cq_adr r)) v y"
| "phase_ok c r v (Rd j) y \<longleftrightarrow> bursting c Wb_Burst_Read False j (cy_cache y) \<and>
     cache_miss c r (cy_cache y) \<and> \<not> dirty_miss c r (cy_cache y) \<and>
     mem_holds c (adr_tag_index c (cq_adr r)) UNIV v y \<and>
     (\<forall>m < j. ca_ram (cy_cache y) ! line_adr c (adr_tag_index c (cq_adr r)) m =
        v (adr_tag_value c (cq_adr r)) (adr_tag_index c (cq_adr r)) m)"
| "phase_ok c r v (Wr j) y \<longleftrightarrow> bursting c Wb_Burst_Write True j (cy_cache y) \<and>
     dirty_miss c r (cy_cache y) \<and>
     (let i = adr_tag_index c (cq_adr r); t = td_address (tag_buffer c (cy_cache y)) in
      mem_holds c i (- {t}) v y \<and> ca_master_db_rd (cy_cache y) = v t i j \<and>
      (\<forall>m < 2 ^ cc_cl_bits c. ca_ram (cy_cache y) ! line_adr c i m = v t i m) \<and>
      (\<forall>m < j. cy_mem y (master_adr c t i m) = v t i m))"
| "phase_ok c r v Done y \<longleftrightarrow> False"

subsection \<open>The step of a phase\<close>

lemma master_rw_engine:
  assumes "ca_wbm_state n = ca_wbm_state s" "ca_wbm_enable n = ca_wbm_enable s" "ca_wbm_we_o n = ca_wbm_we_o s"
    "ca_cache_offset_counter n = ca_cache_offset_counter s" "ca_master_offset_counter n = ca_master_offset_counter s"
  shows "ca_wbm_state (master_rw c ack r s n) = ca_wbm_state (master_rw c ack r s s) \<and>
    ca_wbm_enable (master_rw c ack r s n) = ca_wbm_enable (master_rw c ack r s s) \<and>
    ca_wbm_we_o (master_rw c ack r s n) = ca_wbm_we_o (master_rw c ack r s s) \<and>
    ca_cache_offset_counter (master_rw c ack r s n) = ca_cache_offset_counter (master_rw c ack r s s) \<and>
    ca_master_offset_counter (master_rw c ack r s n) = ca_master_offset_counter (master_rw c ack r s s)"
  using assms unfolding master_rw_def Let_def
  by (cases "ca_wbm_state s"; cases ack; cases "dirty_miss c r s"; simp only: wbm_state.case if_True if_False; simp)

lemma engine_next_all:
  assumes "asks c q r y"
  shows "ca_wbm_state (cy_cache (cy_next c q ready y)) =
      ca_wbm_state (master_rw c (cy_ack c q ready y) r (cy_cache y) (cy_cache y)) \<and>
    ca_wbm_enable (cy_cache (cy_next c q ready y)) =
      ca_wbm_enable (master_rw c (cy_ack c q ready y) r (cy_cache y) (cy_cache y)) \<and>
    ca_wbm_we_o (cy_cache (cy_next c q ready y)) =
      ca_wbm_we_o (master_rw c (cy_ack c q ready y) r (cy_cache y) (cy_cache y)) \<and>
    ca_cache_offset_counter (cy_cache (cy_next c q ready y)) =
      ca_cache_offset_counter (master_rw c (cy_ack c q ready y) r (cy_cache y) (cy_cache y)) \<and>
    ca_master_offset_counter (cy_cache (cy_next c q ready y)) =
      ca_master_offset_counter (master_rw c (cy_ack c q ready y) r (cy_cache y) (cy_cache y))"
  unfolding cy_next_cache cache_next_unfold Let_def asks_bus[OF assms, THEN conjunct1]
  by (rule master_rw_engine; simp)

lemmas engine_next = engine_next_all[THEN conjunct1] engine_next_all[THEN conjunct2, THEN conjunct1]
  engine_next_all[THEN conjunct2, THEN conjunct2, THEN conjunct1]
  engine_next_all[THEN conjunct2, THEN conjunct2, THEN conjunct2, THEN conjunct1]
  engine_next_all[THEN conjunct2, THEN conjunct2, THEN conjunct2, THEN conjunct2]

lemma next_master_db_rd:
  assumes "asks c q r y" "dirty_miss c r (cy_cache y)"
  shows "ca_master_db_rd (cy_cache (cy_next c q ready y)) =
    (if cy_ack c q ready y \<or> ca_wbm_state (cy_cache y) = Wb_Idle
     then ca_ram (cy_cache y) ! line_adr c (adr_tag_index c (cq_adr r)) (ca_cache_offset_counter (cy_cache y))
     else ca_master_db_rd (cy_cache y))"
  using asks_bus[OF assms(1)] assms(2)
  by (auto simp: cy_next_cache cache_next_unfold Let_def dirty_miss_def cache_miss_def index_match_def cy_ack_def)

lemma adr_tag_value_bound: "adr_tag_value c a < 2 ^ cc_tag_ram_bits c"
  by (simp add: adr_tag_value_def)

lemma next_entry:
  assumes ok: "cache_config_ok c" and sh: "cy_shape c y" and r: "asks c q r y"
  shows "entry c (cy_cache (cy_next c q ready y)) (adr_tag_index c (cq_adr r)) =
    (if tag_we c (cy_ack c q ready y) r (cy_cache y) then tag_in c r (cy_cache y)
     else entry c (cy_cache y) (adr_tag_index c (cq_adr r)))"
proof -
  have "adr_tag_index c (cq_adr r) < length (ca_tag_ram (cy_cache y))"
    using sh ok adr_tag_index_bound[OF ok, of "cq_adr r"] by (simp add: cy_shape_def cache_config_ok_def)
  moreover have "td_address (tag_in c r (cy_cache y)) < 2 ^ cc_tag_ram_bits c"
    by (simp add: tag_in_def adr_tag_value_bound)
  ultimately show ?thesis
    by (simp add: entry_def next_tag_ram[OF r] from_to_bit_vector)
qed

lemma tag_buffer_entry:
  assumes "cy_shape c y"
  shows "tag_buffer c (cy_cache y) = entry c (cy_cache y) (ca_buffer_index (cy_cache y))"
  using assms by (simp add: cy_shape_def tag_buffer_def entry_def)

lemma next_tag_buffer:
  assumes "cache_config_ok c" "cy_shape c y" "asks c q r y"
  shows "tag_buffer c (cy_cache (cy_next c q ready y)) =
    (if tag_we c (cy_ack c q ready y) r (cy_cache y) then tag_in c r (cy_cache y)
     else entry c (cy_cache y) (adr_tag_index c (cq_adr r)))"
  using tag_buffer_entry[OF cy_shape_next[OF assms(1,2)], of q ready] next_entry[OF assms, of ready]
  by (simp add: next_buffer[OF assms(3)])

text \<open>Without a hit and without an acknowledge nothing is written.\<close>

lemma silent_next:
  assumes r: "asks c q r y" and "\<not> cache_hit c r (cy_cache y)" "\<not> cy_ack c q ready y"
  shows "ca_ram (cy_cache (cy_next c q ready y)) = ca_ram (cy_cache y)"
    and "ca_tag_ram (cy_cache (cy_next c q ready y)) = ca_tag_ram (cy_cache y)"
    and "cy_mem (cy_next c q ready y) = cy_mem y"
    and "line_holds c i v (cy_next c q ready y) = line_holds c i v y"
    and "\<not> tag_we c (cy_ack c q ready y) r (cy_cache y)"
proof -
  show a: "ca_ram (cy_cache (cy_next c q ready y)) = ca_ram (cy_cache y)"
    using assms by (simp add: next_ram[OF r] cache_ram_next_def Let_def)
  show b: "ca_tag_ram (cy_cache (cy_next c q ready y)) = ca_tag_ram (cy_cache y)"
    using assms by (simp add: next_tag_ram[OF r] tag_we_def slave_cache_we_def)
  show m: "cy_mem (cy_next c q ready y) = cy_mem y"
    using assms by (simp add: cy_next_mem)
  show "line_holds c i v (cy_next c q ready y) = line_holds c i v y"
    by (simp add: line_holds_def line_ok_def lookup_def entry_def a b m)
  show "\<not> tag_we c (cy_ack c q ready y) r (cy_cache y)"
    using assms by (simp add: tag_we_def slave_cache_we_def)
qed

lemma quiet_silent: "quiet st (cy_cache y) \<Longrightarrow> \<not> cy_ack c q ready y"
  by (simp add: quiet_def cy_ack_def)

lemma miss_no_hit: "cache_miss c r s \<Longrightarrow> \<not> cache_hit c r s" "dirty_miss c r s \<Longrightarrow> \<not> cache_hit c r s"
  "dirty_miss c r s \<Longrightarrow> cache_miss c r s"
  by (auto simp: cache_miss_def dirty_miss_def cache_hit_def)

text \<open>The tag decides between a hit, a miss and the miss of a dirty line.\<close>

lemma look_next:
  assumes ok: "cache_config_ok c" and sh: "cy_shape c y" and r: "asks c q r y" and p: "phase_ok c r v Look y"
  shows "\<exists>p. phase_step n ready Look p \<and> phase_ok c r v p (cy_next c q ready y)"
proof -
  let ?y = "cy_next c q ready y"
  have nh: "\<not> cache_hit c r (cy_cache y)" "\<not> cache_miss c r (cy_cache y)"
    using p by (simp_all add: cache_hit_def cache_miss_def)
  have na: "\<not> cy_ack c q ready y" using p quiet_silent[of Wb_Idle y] by simp
  have qn: "quiet Wb_Idle (cy_cache ?y)"
    using p nh by (simp add: quiet_def engine_next[OF r] master_rw_def)
  have ix: "index_match c r (cy_cache ?y)" by (simp add: index_match_def next_buffer[OF r])
  have h: "line_holds c (adr_tag_index c (cq_adr r)) v ?y" using p by (simp add: silent_next(4)[OF r nh(1) na])
  have en: "cq_en r" using r by (simp add: asks_def)
  consider "cache_hit c r (cy_cache ?y)" | "cache_miss c r (cy_cache ?y)" "\<not> dirty_miss c r (cy_cache ?y)"
    | "dirty_miss c r (cy_cache ?y)"
    using ix en by (auto simp: cache_hit_def cache_miss_def dirty_miss_def)
  then show ?thesis
  proof cases
    case 1
    then show ?thesis using qn h by (intro exI[of _ Hit]) (simp add: phase_step.intros(1))
  next
    case 2
    then show ?thesis using qn h by (intro exI[of _ "Miss False"]) (simp add: phase_step.intros(1))
  next
    case 3
    then show ?thesis using qn h by (intro exI[of _ Dirty]) (simp add: phase_step.intros(1))
  qed
qed

text \<open>What stays when neither a hit nor an acknowledge comes, on the line in the buffer.\<close>

lemma silent_match:
  assumes ok: "cache_config_ok c" and sh: "cy_shape c y" and r: "asks c q r y"
    and m: "cache_miss c r (cy_cache y)" and na: "\<not> cy_ack c q ready y"
  shows "tag_buffer c (cy_cache (cy_next c q ready y)) = tag_buffer c (cy_cache y)"
    and "cache_miss c r (cy_cache (cy_next c q ready y))"
    and "dirty_miss c r (cy_cache (cy_next c q ready y)) = dirty_miss c r (cy_cache y)"
proof -
  have bi: "ca_buffer_index (cy_cache y) = adr_tag_index c (cq_adr r)"
    using m by (simp add: cache_miss_def index_match_def)
  show t: "tag_buffer c (cy_cache (cy_next c q ready y)) = tag_buffer c (cy_cache y)"
    using silent_next(5)[OF r miss_no_hit(1)[OF m] na] tag_buffer_entry[OF sh]
    by (simp add: next_tag_buffer[OF ok sh r] bi)
  show m': "cache_miss c r (cy_cache (cy_next c q ready y))"
    using m by (simp add: cache_miss_def index_match_def next_buffer[OF r] tag_match_def t)
  show "dirty_miss c r (cy_cache (cy_next c q ready y)) = dirty_miss c r (cy_cache y)"
    using m m' by (simp add: dirty_miss_def t)
qed

lemma quiet_start: "quiet st s \<Longrightarrow> ca_wbm_state s = st \<and> ca_master_offset_counter s = 0 \<and> ca_cache_offset_counter s = 0"
  by (simp add: quiet_def)

text \<open>A clean line is the memory's; a dirty one hides the memory at its own tag only.\<close>

lemma clean_mem:
  assumes "line_holds c i v y" "\<not> td_dirty (entry c (cy_cache y) i)"
  shows "mem_holds c i UNIV v y"
  using assms unfolding line_holds_def line_ok_def lookup_def mem_holds_def Let_def by metis

lemma dirty_ram:
  assumes "line_holds c i v y" "td_dirty (entry c (cy_cache y) i)"
  shows "mem_holds c i (- {td_address (entry c (cy_cache y) i)}) v y"
    and "m < 2 ^ cc_cl_bits c \<Longrightarrow> ca_ram (cy_cache y) ! line_adr c i m = v (td_address (entry c (cy_cache y) i)) i m"
  using assms unfolding line_holds_def line_ok_def lookup_def mem_holds_def Let_def
  by (metis ComplD singletonI, metis)

lemma miss_entry:
  assumes "cy_shape c y" "cache_miss c r (cy_cache y)"
  shows "tag_buffer c (cy_cache y) = entry c (cy_cache y) (adr_tag_index c (cq_adr r))"
    and "dirty_miss c r (cy_cache y) = td_dirty (entry c (cy_cache y) (adr_tag_index c (cq_adr r)))"
  using assms tag_buffer_entry[OF assms(1)] by (simp_all add: cache_miss_def index_match_def dirty_miss_def)

lemma miss_next:
  assumes ok: "cache_config_ok c" and cl: "0 < cc_cl_bits c" and sh: "cy_shape c y" and r: "asks c q r y"
    and p: "phase_ok c r v (Miss b) y"
  shows "\<exists>p. phase_step (2 ^ cc_cl_bits c) ready (Miss b) p \<and> phase_ok c r v p (cy_next c q ready y)"
proof -
  let ?y = "cy_next c q ready y"
  have m: "cache_miss c r (cy_cache y)" "\<not> dirty_miss c r (cy_cache y)"
    and h: "line_holds c (adr_tag_index c (cq_adr r)) v y" and qu: "quiet (if b then Wb_Retire else Wb_Idle) (cy_cache y)"
    using p by simp_all
  note nh = miss_no_hit(1)[OF m(1)]
  have na: "\<not> cy_ack c q ready y" using quiet_silent[OF qu] .
  have m': "cache_miss c r (cy_cache ?y)" "\<not> dirty_miss c r (cy_cache ?y)"
    using silent_match(2,3)[OF ok sh r m(1) na] m(2) by simp_all
  show ?thesis
  proof (cases b)
    case True
    have "quiet Wb_Idle (cy_cache ?y)"
      using qu True by (simp add: quiet_def engine_next[OF r] master_rw_def)
    moreover have "line_holds c (adr_tag_index c (cq_adr r)) v ?y" using h by (simp add: silent_next(4)[OF r nh na])
    ultimately show ?thesis using m' True by (intro exI[of _ "Miss False"]) (simp add: phase_step.intros)
  next
    case False
    have one: "Suc 0 < 2 ^ cc_cl_bits c" using cl one_less_power[of "2 :: nat"] by simp
    have "bursting c Wb_Burst_Read False 0 (cy_cache ?y)"
      using qu False one m nh by (simp add: quiet_def bursting_def engine_next[OF r] master_rw_def Let_def)
    moreover have "mem_holds c (adr_tag_index c (cq_adr r)) UNIV v ?y"
      using clean_mem[OF h] m(2) miss_entry(2)[OF sh m(1)] by (simp add: mem_holds_def silent_next(3)[OF r nh na])
    ultimately show ?thesis using m' False by (intro exI[of _ "Rd 0"]) (simp add: phase_step.intros)
  qed
qed

lemma dirty_next:
  assumes ok: "cache_config_ok c" and cl: "0 < cc_cl_bits c" and sh: "cy_shape c y" and r: "asks c q r y"
    and p: "phase_ok c r v Dirty y"
  shows "phase_ok c r v (Wr 0) (cy_next c q ready y)"
proof -
  let ?y = "cy_next c q ready y" and ?i = "adr_tag_index c (cq_adr r)"
  let ?t = "td_address (entry c (cy_cache y) ?i)"
  have d: "dirty_miss c r (cy_cache y)" and h: "line_holds c ?i v y" and qu: "quiet Wb_Idle (cy_cache y)"
    using p by simp_all
  note m = miss_no_hit(3)[OF d]
  note nh = miss_no_hit(1)[OF m]
  have na: "\<not> cy_ack c q ready y" using quiet_silent[OF qu] .
  have one: "Suc 0 < 2 ^ cc_cl_bits c" using cl one_less_power[of "2 :: nat"] by simp
  have tb: "tag_buffer c (cy_cache ?y) = entry c (cy_cache y) ?i"
    using silent_match(1)[OF ok sh r m na] miss_entry(1)[OF sh m] by simp
  have "td_dirty (entry c (cy_cache y) ?i)" using miss_entry(2)[OF sh m] d by simp
  note dr = dirty_ram[OF h this]
  have "dirty_miss c r (cy_cache ?y)" using silent_match(3)[OF ok sh r m na] d by simp
  moreover have "bursting c Wb_Burst_Write True 0 (cy_cache ?y)"
    using qu one d m nh by (simp add: quiet_def bursting_def engine_next[OF r] master_rw_def Let_def take_bit_eq_mod)
  moreover have "mem_holds c ?i (- {?t}) v ?y" using dr(1) by (simp add: mem_holds_def silent_next(3)[OF r nh na])
  moreover have "ca_master_db_rd (cy_cache ?y) = v ?t ?i 0"
    using quiet_start[OF qu] dr(2)[of 0] by (simp add: next_master_db_rd[OF r d])
  ultimately show ?thesis using dr(2) by (simp add: tb silent_next(1)[OF r nh na])
qed

subsection \<open>Bursts\<close>

lemma bursting_ack: "bursting c st w j (cy_cache y) \<Longrightarrow> cy_ack c q ready y = ready"
  by (simp add: bursting_def cy_ack_def)

lemma bursting_wait:
  assumes "asks c q r y" "bursting c st w j (cy_cache y)" "st \<in> {Wb_Burst_Read, Wb_Burst_Write}"
  shows "bursting c st w j (cy_cache (cy_next c q False y))"
proof -
  have "master_rw c False r (cy_cache y) (cy_cache y) = cy_cache y"
    using assms(2,3) by (auto simp: master_rw_def bursting_def)
  then show ?thesis using assms(2) by (simp add: bursting_def engine_next[OF assms(1)] cy_ack_def)
qed

lemma bursting_more:
  assumes "asks c q r y" "bursting c st w j (cy_cache y)" "st \<in> {Wb_Burst_Read, Wb_Burst_Write}"
    and "Suc j < 2 ^ cc_cl_bits c"
  shows "bursting c st w (Suc j) (cy_cache (cy_next c q True y))"
proof -
  let ?s = "cy_cache y"
  have s: "ca_wbm_state ?s = st" "ca_wbm_enable ?s" "ca_master_offset_counter ?s = j" "ca_wbm_we_o ?s = w"
    using assms(2,4) by (simp_all add: bursting_def)
  have e: "Suc j = 2 ^ cc_cl_bits c - Suc 0 \<longleftrightarrow> Suc (Suc j) = 2 ^ cc_cl_bits c" using assms(4) by linarith
  have m: "master_rw c True r ?s ?s =
      (if Suc (Suc j) = 2 ^ cc_cl_bits c then ?s\<lparr>ca_wbm_cti_o := 7, ca_wbm_state := Wb_Finish\<rparr> else ?s)
        \<lparr>ca_master_offset_counter := Suc j, ca_cache_offset_counter := Suc (Suc j) mod 2 ^ cc_cl_bits c\<rparr>"
    using assms(3,4) by (auto simp: master_rw_def Let_def s e take_bit_eq_mod)
  have a: "cy_ack c q True y" by (simp add: cy_ack_def s)
  show ?thesis using assms(4) s by (simp add: bursting_def engine_next[OF assms(1)] a m)
qed

lemma bursting_last:
  assumes "asks c q r y" "bursting c st w j (cy_cache y)" "Suc j = 2 ^ cc_cl_bits c"
  shows "quiet Wb_Retire (cy_cache (cy_next c q True y))"
proof -
  have "ca_wbm_state (cy_cache y) = Wb_Finish" "ca_wbm_enable (cy_cache y)"
    using assms(2,3) by (simp_all add: bursting_def)
  then show ?thesis by (simp add: quiet_def engine_next[OF assms(1)] cy_ack_def master_rw_def)
qed

lemma bursting_tag_we:
  assumes "bursting c st w j s" "cache_miss c r s" "st \<in> {Wb_Burst_Read, Wb_Burst_Write}"
  shows "tag_we c True r s \<longleftrightarrow> Suc j = 2 ^ cc_cl_bits c" and "slave_cache_we c r s = False"
  using assms by (auto simp: bursting_def tag_we_def slave_cache_we_def miss_no_hit)

lemma read_next:
  assumes ok: "cache_config_ok c" and sh: "cy_shape c y" and r: "asks c q r y" and p: "phase_ok c r v (Rd j) y"
  shows "\<exists>p. phase_step (2 ^ cc_cl_bits c) ready (Rd j) p \<and> phase_ok c r v p (cy_next c q ready y)"
proof -
  let ?y = "cy_next c q ready y" and ?i = "adr_tag_index c (cq_adr r)" and ?t = "adr_tag_value c (cq_adr r)"
  have b: "bursting c Wb_Burst_Read False j (cy_cache y)" and m: "cache_miss c r (cy_cache y)"
    and nd: "\<not> dirty_miss c r (cy_cache y)" and mh: "mem_holds c ?i UNIV v y"
    and ld: "\<And>m. m < j \<Longrightarrow> ca_ram (cy_cache y) ! line_adr c ?i m = v ?t ?i m"
    using p by simp_all
  note nh = miss_no_hit(1)[OF m]
  show ?thesis
  proof (cases ready)
    case False
    then have na: "\<not> cy_ack c q ready y" using bursting_ack[OF b] by simp
    have "bursting c Wb_Burst_Read False j (cy_cache ?y)" using bursting_wait[OF r b] False by simp
    moreover have "mem_holds c ?i UNIV v ?y" using mh by (simp add: mem_holds_def silent_next(3)[OF r nh na])
    ultimately have "phase_ok c r v (Rd j) ?y"
      using silent_match(2,3)[OF ok sh r m na] nd ld by (simp add: silent_next(1)[OF r nh na])
    then show ?thesis using False by (auto intro: phase_step.intros)
  next
    case True
    have j: "j < 2 ^ cc_cl_bits c" and mo: "ca_master_offset_counter (cy_cache y) = j"
      and e: "ca_wbm_enable (cy_cache y)" "\<not> ca_wbm_we_o (cy_cache y)"
      using b by (simp_all add: bursting_def)
    have ack: "cy_ack c q ready y" using bursting_ack[OF b] True by simp
    have mem: "cy_mem ?y = cy_mem y" using e by (simp add: cy_next_mem)
    have ib: "?i < 2 ^ cc_line_select_adr_bits c" by (rule adr_tag_index_bound[OF ok])
    have "line_adr c ?i j < length (ca_ram (cy_cache y))"
      using line_adr_bound[OF ib j] sh ok by (simp add: cy_shape_def cache_config_ok_def)
    then have ram: "ca_ram (cy_cache ?y) ! line_adr c ?i m = v ?t ?i m" if "m \<le> j" for m
      using that j mh nh nd ack e(1) ld[of m] line_adr_inj[of j c m ?i ?i]
      by (auto simp: next_ram[OF r] cache_ram_next_def Let_def wb_adr[OF r] mo mem_holds_def nth_list_update)
    have mh': "mem_holds c ?i UNIV v ?y" using mh by (simp add: mem_holds_def mem)
    have im: "index_match c r (cy_cache ?y)" by (simp add: index_match_def next_buffer[OF r])
    have en: "cq_en r" using r by (simp add: asks_def)
    show ?thesis
    proof (cases "Suc j = 2 ^ cc_cl_bits c")
      case False
      with j have sj: "Suc j < 2 ^ cc_cl_bits c" by simp
      have tb: "tag_buffer c (cy_cache ?y) = tag_buffer c (cy_cache y)"
        using bursting_tag_we[OF b m] False ack miss_entry(1)[OF sh m] by (simp add: next_tag_buffer[OF ok sh r])
      have "cache_miss c r (cy_cache ?y)" "\<not> dirty_miss c r (cy_cache ?y)"
        using m nd im by (auto simp: cache_miss_def dirty_miss_def tag_match_def tb)
      then have "phase_ok c r v (Rd (Suc j)) ?y"
        using bursting_more[OF r b _ sj] True mh' ram by simp
      then show ?thesis using True sj by (auto intro: phase_step.intros)
    next
      case last: True
      have tg: "tag_in c r (cy_cache y) = \<lparr>td_valid = True, td_dirty = False, td_address = ?t\<rparr>"
        using nd bursting_tag_we(2)[OF b m] by (simp add: tag_in_def)
      have "tag_we c (cy_ack c q ready y) r (cy_cache y)" using bursting_tag_we(1)[OF b m] last ack by simp
      then have tb: "tag_buffer c (cy_cache ?y) = tag_in c r (cy_cache y)"
        "entry c (cy_cache ?y) ?i = tag_in c r (cy_cache y)"
        by (simp_all add: next_tag_buffer[OF ok sh r] next_entry[OF ok sh r])
      have "cache_hit c r (cy_cache ?y)" using im en by (simp add: cache_hit_def tag_match_def tb tg)
      moreover have "line_holds c ?i v ?y"
        using ram mh' last by (simp add: line_holds_def line_ok_def lookup_def tb tg mem_holds_def)
      ultimately have "phase_ok c r v Hit ?y" using bursting_last[OF r b last] True by simp
      then show ?thesis using True last by (auto intro: phase_step.intros)
    qed
  qed
qed

lemma write_next:
  assumes ok: "cache_config_ok c" and sh: "cy_shape c y" and r: "asks c q r y" and p: "phase_ok c r v (Wr j) y"
  shows "\<exists>p. phase_step (2 ^ cc_cl_bits c) ready (Wr j) p \<and> phase_ok c r v p (cy_next c q ready y)"
proof -
  let ?y = "cy_next c q ready y" and ?i = "adr_tag_index c (cq_adr r)"
  let ?t = "td_address (tag_buffer c (cy_cache y))"
  have b: "bursting c Wb_Burst_Write True j (cy_cache y)" and d: "dirty_miss c r (cy_cache y)"
    and mh: "mem_holds c ?i (- {?t}) v y" and rd: "ca_master_db_rd (cy_cache y) = v ?t ?i j"
    and ld: "\<And>m. m < 2 ^ cc_cl_bits c \<Longrightarrow> ca_ram (cy_cache y) ! line_adr c ?i m = v ?t ?i m"
    and wr: "\<And>m. m < j \<Longrightarrow> cy_mem y (master_adr c ?t ?i m) = v ?t ?i m"
    using p by (simp_all add: Let_def)
  note m = miss_no_hit(3)[OF d]
  note nh = miss_no_hit(1)[OF m]
  show ?thesis
  proof (cases ready)
    case False
    then have na: "\<not> cy_ack c q ready y" using bursting_ack[OF b] by simp
    have "bursting c Wb_Burst_Write True j (cy_cache ?y)" using bursting_wait[OF r b] False by simp
    moreover have "mem_holds c ?i (- {?t}) v ?y" using mh by (simp add: mem_holds_def silent_next(3)[OF r nh na])
    moreover have "ca_master_db_rd (cy_cache ?y) = v ?t ?i j"
      using rd na b by (simp add: next_master_db_rd[OF r d] bursting_def)
    ultimately have "phase_ok c r v (Wr j) ?y"
      using silent_match(3)[OF ok sh r m na] d wr ld
      by (simp add: silent_match(1)[OF ok sh r m na] silent_next(1,3)[OF r nh na] Let_def)
    then show ?thesis using False by (auto intro: phase_step.intros)
  next
    case True
    have j: "j < 2 ^ cc_cl_bits c" and mo: "ca_master_offset_counter (cy_cache y) = j"
      and co: "ca_cache_offset_counter (cy_cache y) = Suc j mod 2 ^ cc_cl_bits c"
      and e: "ca_wbm_enable (cy_cache y)" "ca_wbm_we_o (cy_cache y)"
      using b by (simp_all add: bursting_def)
    have ack: "cy_ack c q ready y" using bursting_ack[OF b] True by simp
    have ib: "?i < 2 ^ cc_line_select_adr_bits c" by (rule adr_tag_index_bound[OF ok])
    have memw: "cy_mem ?y = (cy_mem y)(master_adr c ?t ?i j := v ?t ?i j)"
      using ack e d by (simp add: cy_next_mem wb_adr[OF r] mo rd)
    have mem: "cy_mem ?y (master_adr c t ?i m) = (if t = ?t \<and> m = j then v ?t ?i j else cy_mem y (master_adr c t ?i m))"
      if "m < 2 ^ cc_cl_bits c" for t m
      using master_adr_inj[OF that j ib ib, of t ?t] by (simp add: memw)
    have wr': "cy_mem ?y (master_adr c ?t ?i m) = v ?t ?i m" if "m \<le> j" for m
      using that j wr[of m] by (auto simp: mem)
    have mh': "mem_holds c ?i (- {?t}) v ?y" using mh by (simp add: mem_holds_def mem)
    have ram: "ca_ram (cy_cache ?y) = ca_ram (cy_cache y)"
      using nh d by (simp add: next_ram[OF r] cache_ram_next_def Let_def)
    have im: "index_match c r (cy_cache ?y)" by (simp add: index_match_def next_buffer[OF r])
    have en: "cq_en r" using r by (simp add: asks_def)
    show ?thesis
    proof (cases "Suc j = 2 ^ cc_cl_bits c")
      case False
      with j have sj: "Suc j < 2 ^ cc_cl_bits c" by simp
      have tb: "tag_buffer c (cy_cache ?y) = tag_buffer c (cy_cache y)"
        using bursting_tag_we[OF b m] False ack miss_entry(1)[OF sh m] by (simp add: next_tag_buffer[OF ok sh r])
      have d': "dirty_miss c r (cy_cache ?y)"
        using d im by (simp add: cache_miss_def dirty_miss_def tag_match_def tb)
      have "ca_master_db_rd (cy_cache ?y) = v ?t ?i (Suc j)"
        using sj ack ld[OF sj] by (simp add: next_master_db_rd[OF r d] co)
      moreover have "bursting c Wb_Burst_Write True (Suc j) (cy_cache ?y)"
        using bursting_more[OF r b _ sj] True by simp
      ultimately have "phase_ok c r v (Wr (Suc j)) ?y"
        using d' mh' wr' ld by (simp add: tb ram Let_def)
      then show ?thesis using True sj by (auto intro: phase_step.intros)
    next
      case last: True
      have tg: "tag_in c r (cy_cache y) = \<lparr>td_valid = False, td_dirty = False, td_address = adr_tag_value c (cq_adr r)\<rparr>"
        using d bursting_tag_we(2)[OF b m] by (simp add: tag_in_def)
      have "tag_we c (cy_ack c q ready y) r (cy_cache y)" using bursting_tag_we(1)[OF b m] last ack by simp
      then have tb: "tag_buffer c (cy_cache ?y) = tag_in c r (cy_cache y)"
        "entry c (cy_cache ?y) ?i = tag_in c r (cy_cache y)"
        by (simp_all add: next_tag_buffer[OF ok sh r] next_entry[OF ok sh r])
      have "cache_miss c r (cy_cache ?y)" "\<not> dirty_miss c r (cy_cache ?y)"
        using im en by (simp_all add: cache_miss_def dirty_miss_def tag_match_def tb tg)
      moreover have "cy_mem ?y (master_adr c t ?i m) = v t ?i m" if "m < 2 ^ cc_cl_bits c" for t m
        using that mh' wr'[of m] last by (cases "t = ?t") (auto simp: mem_holds_def)
      then have "line_holds c ?i v ?y"
        by (simp add: line_holds_def line_ok_def lookup_def tb tg)
      moreover have "quiet Wb_Retire (cy_cache ?y)" using bursting_last[OF r b last] True by simp
      ultimately have "phase_ok c r v (Miss True) ?y" by simp
      then show ?thesis using True last by (auto intro: phase_step.intros)
    qed
  qed
qed

subsection \<open>The hit\<close>

text \<open>The view after a request: the enabled bytes of its word are written.\<close>

definition view_write :: "cache_config \<Rightarrow> cache_req \<Rightarrow> (nat \<Rightarrow> nat \<Rightarrow> nat \<Rightarrow> xword list) \<Rightarrow>
    nat \<Rightarrow> nat \<Rightarrow> nat \<Rightarrow> xword list" where
  "view_write c r v t i m =
     (if t = adr_tag_value c (cq_adr r) \<and> i = adr_tag_index c (cq_adr r) \<and> m = adr_line_word c (cq_adr r)
      then (v t i m)[adr_lane c (cq_adr r) := merge_lanes (cq_we r) (cq_write r) (v t i m ! adr_lane c (cq_adr r))]
      else v t i m)"

definition answered :: "cache_config \<Rightarrow> cache_req \<Rightarrow> (nat \<Rightarrow> nat \<Rightarrow> nat \<Rightarrow> xword list) \<Rightarrow> cache_sys \<Rightarrow> bool" where
  "answered c r v y \<longleftrightarrow> quiet Wb_Idle (cy_cache y) \<and> ca_slave_ack (cy_cache y) \<and> \<not> ca_en_r (cy_cache y) \<and>
     ca_slave_db_rd (cy_cache y) ! ca_db_mux_reg (cy_cache y) =
       v (adr_tag_value c (cq_adr r)) (adr_tag_index c (cq_adr r)) (adr_line_word c (cq_adr r)) ! adr_lane c (cq_adr r) \<and>
     line_holds c (adr_tag_index c (cq_adr r)) (view_write c r v) y"

lemma hit_next:
  assumes ok: "cache_config_ok c" and sh: "cy_shape c y" and r: "asks c q r y" and p: "phase_ok c r v Hit y"
  shows "answered c r v (cy_next c q ready y)"
proof -
  let ?y = "cy_next c q ready y" and ?i = "adr_tag_index c (cq_adr r)" and ?t = "adr_tag_value c (cq_adr r)"
  let ?m = "adr_line_word c (cq_adr r)" and ?l = "adr_lane c (cq_adr r)"
  have h: "cache_hit c r (cy_cache y)" and lh: "line_holds c ?i v y"
    and qu: "quiet Wb_Idle (cy_cache y) \<or> quiet Wb_Retire (cy_cache y)" using p by simp_all
  note rb = asks_bus[OF r]
  have en: "cq_en r" using rb by simp
  have na: "\<not> cy_ack c q ready y" using qu quiet_silent[of _ y] by blast
  have nm: "\<not> cache_miss c r (cy_cache y)" "\<not> dirty_miss c r (cy_cache y)"
    using h by (simp_all add: cache_hit_def cache_miss_def dirty_miss_def)
  have "tag_buffer c (cy_cache y) = entry c (cy_cache y) ?i"
    using h tag_buffer_entry[OF sh] by (simp add: cache_hit_def index_match_def)
  then have e: "td_valid (entry c (cy_cache y) ?i)" "td_address (entry c (cy_cache y) ?i) = ?t"
    using h by (simp_all add: cache_hit_def tag_match_def)
  have vm: "ca_ram (cy_cache y) ! line_adr c ?i m = v ?t ?i m" if "m < 2 ^ cc_cl_bits c" for m
    using lh that e unfolding line_holds_def lookup_def by metis
  have mm: "?m < 2 ^ cc_cl_bits c" by (rule adr_line_word_bound)
  have sl: "slave_cache_we c r (cy_cache y) \<longleftrightarrow> cq_we r \<noteq> 0" using h en by (simp add: slave_cache_we_def)
  then have tw: "tag_we c (cy_ack c q ready y) r (cy_cache y) \<longleftrightarrow> cq_we r \<noteq> 0" using na by (simp add: tag_we_def)
  have e': "entry c (cy_cache ?y) ?i = (if cq_we r \<noteq> 0
      then \<lparr>td_valid = True, td_dirty = True, td_address = ?t\<rparr> else entry c (cy_cache y) ?i)"
    using nm sl by (simp add: next_entry[OF ok sh r] tw tag_in_def)
  have mem: "cy_mem ?y = cy_mem y" using na by (simp add: cy_next_mem)
  have "line_adr c ?i ?m < length (ca_ram (cy_cache y))"
    using line_adr_bound[OF adr_tag_index_bound[OF ok] mm] sh ok by (simp add: cy_shape_def cache_config_ok_def)
  then have ram: "ca_ram (cy_cache ?y) ! line_adr c ?i m = view_write c r v ?t ?i m" if "m < 2 ^ cc_cl_bits c" for m
    using h en na vm[OF that] vm[OF mm] line_adr_inj[OF mm that, of ?i ?i]
    by (auto simp: next_ram[OF r] cache_ram_next_def Let_def view_write_def nth_list_update)
  have idle: "quiet Wb_Idle (cy_cache ?y)"
    using qu nm by (auto simp: quiet_def engine_next[OF r] master_rw_def)
  have out: "ca_slave_ack (cy_cache ?y)" "\<not> ca_en_r (cy_cache ?y)"
    "ca_slave_db_rd (cy_cache ?y) = ca_ram (cy_cache y) ! line_adr c ?i ?m" "ca_db_mux_reg (cy_cache ?y) = ?l"
    using rb h by (auto simp: cy_next_cache cache_next_unfold Let_def bus_input_def split: if_splits)
  have nw: "cq_we r = 0 \<Longrightarrow> view_write c r v = v" by (intro ext) (simp add: view_write_def)
  have "line_holds c ?i (view_write c r v) ?y"
  proof (cases "cq_we r = 0")
    case True
    have "ca_ram (cy_cache ?y) ! line_adr c ?i m = ca_ram (cy_cache y) ! line_adr c ?i m" if "m < 2 ^ cc_cl_bits c" for m
      using ram[OF that] vm[OF that] by (simp add: nw[OF True])
    moreover have "entry c (cy_cache ?y) ?i = entry c (cy_cache y) ?i" using True by (simp add: e')
    ultimately have u: "line_ok c ?y ?i = line_ok c y ?i"
      "\<And>t m. m < 2 ^ cc_cl_bits c \<Longrightarrow> lookup c ?y t ?i m = lookup c y t ?i m"
      using line_unchanged[of c ?y ?i y] mem by auto
    show ?thesis using lh by (simp add: line_holds_def nw[OF True] u)
  next
    case False
    have "cy_mem y (master_adr c t ?i m) = view_write c r v t ?i m" if "m < 2 ^ cc_cl_bits c" "t \<noteq> ?t" for t m
      using lh that e unfolding line_holds_def lookup_def view_write_def by metis
    then show ?thesis
      using False ram by (auto simp: line_holds_def line_ok_def lookup_def e' mem)
  qed
  then show ?thesis using idle out vm[OF mm] by (simp add: answered_def)
qed

end
