(* ===== verification/Cache_Session.thy ===== *)
theory Cache_Session
  imports Cache_Memory
begin

text \<open>
  Complete accesses to the cache: from a quiet cache every request is acknowledged after a bounded
  number of cycles, through the phases of \<open>Cache_Memory\<close>, and the cache with its memory behaves as
  the flat memory it hides.
\<close>

subsection \<open>The waiting of the memory\<close>

definition waits_at_most :: "nat \<Rightarrow> (nat \<Rightarrow> bool) \<Rightarrow> bool" where
  "waits_at_most k ready \<longleftrightarrow> (\<forall>t. \<exists>j \<le> k. ready (t + j))"

lemma waits_at_most_shift: "waits_at_most k ready \<Longrightarrow> waits_at_most k (\<lambda>i. ready (Suc i))"
  unfolding waits_at_most_def by (metis add_Suc)

lemma waits_at_most_later:
  assumes "waits_at_most k ready" obtains d where "d \<le> k" "ready (Suc d)"
  using assms unfolding waits_at_most_def by (metis add_Suc add_0)

text \<open>The cycles that are left, when the memory is ready in \<open>d\<close> cycles.\<close>

fun phase_due :: "nat \<Rightarrow> nat \<Rightarrow> nat \<Rightarrow> cphase \<Rightarrow> nat" where
  "phase_due n k d (Rd j) = (n - Suc j) * Suc k + Suc d + 2"
| "phase_due n k d (Wr j) = (n - Suc j) * Suc k + Suc d + (n * Suc k + 4)"
| "phase_due n k d p = phase_cost n k p"

lemma burst_more: "Suc j < n \<Longrightarrow> (n - Suc j) * m = (n - Suc (Suc j)) * m + (m :: nat)"
  by (metis Suc_diff_Suc add.commute mult_Suc)

lemma burst_first: "0 < n \<Longrightarrow> d \<le> k \<Longrightarrow> (n - Suc 0) * Suc k + Suc d \<le> n * Suc k"
  by (cases n) simp_all

lemma phase_due_step:
  assumes st: "phase_step n (ready 0) p p'" and n: "0 < n" and w: "waits_at_most k ready"
    and d: "ready d" "d \<le> k"
  obtains d' where "d' \<le> k" "ready (Suc d')" "phase_due n k d' p' < phase_due n k d p"
proof -
  obtain d2 where d2: "d2 \<le> k" "ready (Suc d2)" using waits_at_most_later[OF w] .
  show thesis
  proof (cases "p' = p \<and> \<not> ready 0")
    case True
    with d have "0 < d" by (cases d) auto
    then have "d - 1 \<le> k" "ready (Suc (d - 1))" using d by simp_all
    moreover have "phase_due n k (d - 1) p' < phase_due n k d p"
      using True st \<open>0 < d\<close> by (cases p) (auto elim: phase_stepE)
    ultimately show thesis by (rule that)
  next
    case False
    have "phase_due n k d2 p' < phase_due n k d p"
      using st False
    proof (cases rule: phase_step.cases)
      case 1
      then show ?thesis using n by auto
    next
      case (7 j)
      then have "Suc j < n" by simp
      from burst_more[OF this, of "Suc k"] 7 d2(1) show ?thesis by simp
    next
      case (10 j)
      then have "Suc j < n" by simp
      from burst_more[OF this, of "Suc k"] 10 d2(1) show ?thesis by simp
    qed (use burst_first[OF n d2(1)] in \<open>auto simp: mult.commute[of k]\<close>)
    with d2 show thesis by (rule that)
  qed
qed

subsection \<open>A cycle without a request\<close>

lemma idle_next:
  assumes "\<not> db_en_o q" "\<not> ca_en_r (cy_cache y)" "quiet Wb_Idle (cy_cache y)"
  shows "ca_ram (cy_cache (cy_next c q ready y)) = ca_ram (cy_cache y)"
    and "ca_tag_ram (cy_cache (cy_next c q ready y)) = ca_tag_ram (cy_cache y)"
    and "cy_mem (cy_next c q ready y) = cy_mem y"
    and "quiet Wb_Idle (cy_cache (cy_next c q ready y))"
    and "\<not> ca_en_r (cy_cache (cy_next c q ready y))" "\<not> ca_slave_ack (cy_cache (cy_next c q ready y))"
proof -
  let ?r = "bus_input c q (cy_cache y)"
  have en: "\<not> cq_en ?r" using assms(1,2) by (simp add: bus_input_def)
  then have nh: "\<not> cache_hit c ?r (cy_cache y)" "\<not> cache_miss c ?r (cy_cache y)"
    by (simp_all add: cache_hit_def cache_miss_def)
  have na: "\<not> cy_ack c q ready y" using assms(3) by (rule quiet_silent)
  have rw: "master_rw c False ?r (cy_cache y) n = n" for n
    using assms(3) nh by (simp add: master_rw_def quiet_def)
  have tw: "\<not> tag_we c False ?r (cy_cache y)" using nh by (simp add: tag_we_def slave_cache_we_def)
  show "ca_ram (cy_cache (cy_next c q ready y)) = ca_ram (cy_cache y)"
    "ca_tag_ram (cy_cache (cy_next c q ready y)) = ca_tag_ram (cy_cache y)"
    "cy_mem (cy_next c q ready y) = cy_mem y"
    "quiet Wb_Idle (cy_cache (cy_next c q ready y))"
    "\<not> ca_en_r (cy_cache (cy_next c q ready y))" "\<not> ca_slave_ack (cy_cache (cy_next c q ready y))"
    using assms nh tw na
    by (simp_all add: cy_next_cache cy_next_mem cache_next_unfold cache_ram_next_def rw Let_def quiet_def)
qed

subsection \<open>An access\<close>

definition cy_ready :: "cache_config \<Rightarrow> cache_sys \<Rightarrow> bool" where
  "cy_ready c y \<longleftrightarrow> cy_shape c y \<and> (\<forall>i < 2 ^ cc_line_select_adr_bits c. line_ok c y i) \<and>
     quiet Wb_Idle (cy_cache y) \<and> \<not> ca_en_r (cy_cache y) \<and> \<not> ca_slave_ack (cy_cache y)"

definition shows_view :: "cache_config \<Rightarrow> (nat \<Rightarrow> nat \<Rightarrow> nat \<Rightarrow> xword list) \<Rightarrow> cache_sys \<Rightarrow> bool" where
  "shows_view c v y \<longleftrightarrow> (\<forall>i < 2 ^ cc_line_select_adr_bits c. \<forall>t. \<forall>m < 2 ^ cc_cl_bits c. lookup c y t i m = v t i m)"

lemma phase_next:
  assumes "cache_config_ok c" "0 < cc_cl_bits c" "cy_shape c y" "asks c q r y" "phase_ok c r v p y" "p \<noteq> Hit"
  shows "\<exists>p'. phase_step (2 ^ cc_cl_bits c) ready p p' \<and> phase_ok c r v p' (cy_next c q ready y)"
proof (cases p)
  case Look
  then show ?thesis using look_next[OF assms(1,3,4)] assms(5) by simp
next
  case Miss
  then show ?thesis using miss_next[OF assms(1-4)] assms(5) by blast
next
  case Dirty
  then show ?thesis using dirty_next[OF assms(1-4)] assms(5) by (blast intro: phase_step.intros)
next
  case Rd
  then show ?thesis using read_next[OF assms(1,3,4)] assms(5) by blast
next
  case Wr
  then show ?thesis using write_next[OF assms(1,3,4)] assms(5) by blast
qed (use assms in auto)

lemma phase_no_hit:
  assumes "phase_ok c r v p y" "p \<noteq> Hit"
  shows "\<not> cache_hit c r (cy_cache y)"
  using assms by (cases p) (auto simp: cache_hit_def cache_miss_def dirty_miss_def)

lemma answered_ready:
  assumes ok: "cache_config_ok c" and a: "answered c r v y" and sh: "cy_shape c y" and q: "\<not> db_en_o q"
    and o: "others c (adr_tag_index c (cq_adr r)) v y"
  shows "cy_ready c (cy_next c q ready y)" and "shows_view c (view_write c r v) (cy_next c q ready y)"
proof -
  let ?y = "cy_next c q ready y" and ?i = "adr_tag_index c (cq_adr r)"
  have qa: "quiet Wb_Idle (cy_cache y)" "\<not> ca_en_r (cy_cache y)" and lh: "line_holds c ?i (view_write c r v) y"
    using a by (simp_all add: answered_def)
  note n = idle_next[OF q qa(2,1), of c ready]
  have lk: "line_ok c ?y i = line_ok c y i" "lookup c ?y t i m = lookup c y t i m" for i t m
    by (simp_all add: line_ok_def lookup_def entry_def n)
  have l: "line_ok c y i \<and> (\<forall>t. \<forall>m < 2 ^ cc_cl_bits c. lookup c y t i m = view_write c r v t i m)"
    if "i < 2 ^ cc_line_select_adr_bits c" for i
    using that lh o by (cases "i = ?i") (simp_all add: line_holds_def others_def view_write_def)
  show "cy_ready c ?y" using l n cy_shape_next[OF ok sh] by (simp add: cy_ready_def lk)
  show "shows_view c (view_write c r v) ?y" using l by (simp add: shows_view_def lk)
qed

lemma access_answers:
  assumes ok: "cache_config_ok c" and cl: "0 < cc_cl_bits c"
  shows "cy_shape c y \<Longrightarrow> asks c q r y \<Longrightarrow> others c (adr_tag_index c (cq_adr r)) v y \<Longrightarrow>
    phase_ok c r v p y \<Longrightarrow> \<not> ca_slave_ack (cy_cache y) \<Longrightarrow> waits_at_most k ready \<Longrightarrow> ready d \<Longrightarrow> d \<le> k \<Longrightarrow>
    phase_due (2 ^ cc_cl_bits c) k d p \<le> n \<Longrightarrow>
    \<exists>rsp y'. cache_access c n q ready y = Some (rsp, y') \<and> cy_ready c y' \<and> shows_view c (view_write c r v) y' \<and>
      db_rd rsp = v (adr_tag_value c (cq_adr r)) (adr_tag_index c (cq_adr r)) (adr_line_word c (cq_adr r)) !
        adr_lane c (cq_adr r)"
proof (induction n arbitrary: y q ready p d)
  case 0
  then show ?case by (cases p) simp_all
next
  case (Suc n)
  let ?y = "cy_next c q (ready 0) y" and ?q = "q\<lparr>db_en_o := False\<rparr>" and ?ready = "\<lambda>i. ready (Suc i)"
  have run: "cache_access c (Suc n) q ready y = cache_access c n ?q ?ready ?y"
    using Suc.prems(5) by (simp add: cache_rsp_def Let_def)
  have sh: "cy_shape c ?y" by (rule cy_shape_next[OF ok Suc.prems(1)])
  have o: "others c (adr_tag_index c (cq_adr r)) v ?y"
    by (rule others_next[OF ok Suc.prems(1,2) refl Suc.prems(3)])
  show ?case
  proof (cases "p = Hit")
    case True
    then have a: "answered c r v ?y" using hit_next[OF ok Suc.prems(1,2)] Suc.prems(4) by blast
    from True Suc.prems(9) obtain n' where n: "n = Suc n'" by (cases n) auto
    have "cache_access c n ?q ?ready ?y = Some (cache_rsp ?q (cy_cache ?y), cy_next c ?q (ready 1) ?y)"
      using a by (simp add: n cache_rsp_def answered_def Let_def)
    then show ?thesis
      using answered_ready[OF ok a sh _ o] a unfolding run by (simp add: cache_rsp_def answered_def)
  next
    case False
    obtain p' where p': "phase_step (2 ^ cc_cl_bits c) (ready 0) p p'" "phase_ok c r v p' ?y"
      using phase_next[OF ok cl Suc.prems(1,2,4) False] by blast
    obtain d' where d': "d' \<le> k" "ready (Suc d')"
      "phase_due (2 ^ cc_cl_bits c) k d' p' < phase_due (2 ^ cc_cl_bits c) k d p"
      using phase_due_step[OF p'(1) _ Suc.prems(6-8)] by auto
    note held = request_held[OF Suc.prems(2) phase_no_hit[OF Suc.prems(4) False]]
    show ?thesis
      unfolding run
      by (rule Suc.IH[OF sh held(1) o p'(2) held(2) waits_at_most_shift[OF Suc.prems(6)] d'(2,1)])
        (use d'(3) Suc.prems(9) in simp)
  qed
qed

text \<open>The bound for every access.\<close>

definition access_bound :: "cache_config \<Rightarrow> nat \<Rightarrow> nat" where
  "access_bound c k = 2 * 2 ^ cc_cl_bits c * Suc k + 6"

lemma cache_access_returns:
  assumes ok: "cache_config_ok c" and cl: "0 < cc_cl_bits c" and y: "cy_ready c y" and q: "db_en_o q"
    and w: "waits_at_most k ready" and r: "r = bus_input c q (cy_cache y)"
  shows "\<exists>rsp y'. cache_access c (access_bound c k) q ready y = Some (rsp, y') \<and> cy_ready c y' \<and>
    shows_view c (view_write c r (lookup c y)) y' \<and>
    db_rd rsp = lookup c y (adr_tag_value c (cq_adr r)) (adr_tag_index c (cq_adr r))
      (adr_line_word c (cq_adr r)) ! adr_lane c (cq_adr r)"
proof -
  let ?i = "adr_tag_index c (cq_adr r)"
  have s: "cy_shape c y" "quiet Wb_Idle (cy_cache y)" "\<not> ca_slave_ack (cy_cache y)" "\<not> ca_en_r (cy_cache y)"
    and l: "\<And>i. i < 2 ^ cc_line_select_adr_bits c \<Longrightarrow> line_ok c y i"
    using y by (simp_all add: cy_ready_def)
  have a: "asks c q r y" using q s(4) by (simp add: asks_def cy_req_def r bus_input_def)
  have lh: "line_holds c ?i (lookup c y) y"
    using l[OF adr_tag_index_bound[OF ok]] by (simp add: line_holds_def)
  have o: "others c ?i (lookup c y) y" using l by (simp add: others_def)
  have "\<exists>p. p \<in> {Look, Hit, Miss False, Dirty} \<and> phase_ok c r (lookup c y) p y"
  proof -
    have en: "cq_en r" using a by (simp add: asks_def)
    consider "\<not> index_match c r (cy_cache y)" | "cache_hit c r (cy_cache y)"
      | "cache_miss c r (cy_cache y)" "\<not> dirty_miss c r (cy_cache y)" | "dirty_miss c r (cy_cache y)"
      using en unfolding cache_hit_def cache_miss_def dirty_miss_def by blast
    then show ?thesis
    proof cases
      case 1 with s(2) lh show ?thesis by (intro exI[of _ Look]) simp
    next
      case 2 with s(2) lh show ?thesis by (intro exI[of _ Hit]) simp
    next
      case 3 with s(2) lh show ?thesis by (intro exI[of _ "Miss False"]) simp
    next
      case 4 with s(2) lh show ?thesis by (intro exI[of _ Dirty]) simp
    qed
  qed
  then obtain p where p: "p \<in> {Look, Hit, Miss False, Dirty}" "phase_ok c r (lookup c y) p y" by blast
  obtain d where d: "ready d" "d \<le> k" using w by (metis waits_at_most_def add_0)
  have "phase_due (2 ^ cc_cl_bits c) k d p \<le> access_bound c k"
    using p(1) by (auto simp: access_bound_def)
  then show ?thesis by (rule access_answers[OF ok cl s(1) a o p(2) s(3) w d])
qed

subsection \<open>The flat memory\<close>

definition word_adr :: "cache_config \<Rightarrow> dbus_req \<Rightarrow> nat" where
  "word_adr c q = unat (take_bit (cc_address_bits c) (drop_bit 2 (db_adr_o q)))"

definition flat_view :: "cache_config \<Rightarrow> cache_sys \<Rightarrow> nat \<Rightarrow> xword" where
  "flat_view c y a = (if a < 2 ^ cc_address_bits c
     then lookup c y (adr_tag_value c a) (adr_tag_index c a) (adr_line_word c a) ! adr_lane c a else 0)"

definition flat_memory :: "cache_config \<Rightarrow> (nat \<Rightarrow> xword list) \<Rightarrow> nat \<Rightarrow> xword" where
  "flat_memory c mem a = (if a < 2 ^ cc_address_bits c then mem (a div cc_mux_size c) ! (a mod cc_mux_size c) else 0)"

text \<open>An access to the flat memory: the old word is the answer, the enabled bytes are written.\<close>

definition flat_spec :: "cache_config \<Rightarrow> dbus_req \<times> (nat \<Rightarrow> bool) \<Rightarrow> (nat \<Rightarrow> xword) \<Rightarrow> xword \<times> (nat \<Rightarrow> xword)" where
  "flat_spec c a f = (let q = fst a; w = word_adr c q in
     (f w, f(w := merge_lanes (db_we_o q) (db_wr q) (f w))))"

definition cache_run :: "cache_config \<Rightarrow> nat \<Rightarrow> dbus_req \<times> (nat \<Rightarrow> bool) \<Rightarrow> cache_sys \<Rightarrow> (xword \<times> cache_sys) option" where
  "cache_run c k a y = map_option (\<lambda>(rsp, y'). (db_rd rsp, y')) (cache_access c (access_bound c k) (fst a) (snd a) y)"

definition cache_valid :: "nat \<Rightarrow> dbus_req \<times> (nat \<Rightarrow> bool) \<Rightarrow> bool" where
  "cache_valid k a \<longleftrightarrow> db_en_o (fst a) \<and> waits_at_most k (snd a)"

definition cache_ready :: "cache_config \<Rightarrow> cache_sys \<Rightarrow> bool" where
  "cache_ready c y \<longleftrightarrow> cache_config_ok c \<and> 0 < cc_cl_bits c \<and> cy_ready c y"

lemma word_adr_bound: "word_adr c q < 2 ^ cc_address_bits c"
  by (simp add: word_adr_def unsigned_take_bit_eq)

lemma lookup_length:
  assumes "cache_config_ok c" "cy_shape c y" "i < 2 ^ cc_line_select_adr_bits c" "m < 2 ^ cc_cl_bits c"
  shows "length (lookup c y t i m) = cc_mux_size c"
  using assms line_adr_bound[OF assms(3,4)] by (simp add: lookup_def cy_shape_def cache_config_ok_def)

lemma flat_view_write:
  assumes ok: "cache_config_ok c" and sh: "cy_shape c y" and r: "cq_adr r < 2 ^ cc_address_bits c"
    and v: "shows_view c (view_write c r (lookup c y)) y'"
  shows "flat_view c y' = (flat_view c y)(cq_adr r := merge_lanes (cq_we r) (cq_write r) (flat_view c y (cq_adr r)))"
proof
  fix a
  let ?lk = "\<lambda>y a. lookup c y (adr_tag_value c a) (adr_tag_index c a) (adr_line_word c a)"
  have v': "?lk y' a = view_write c r (lookup c y) (adr_tag_value c a) (adr_tag_index c a) (adr_line_word c a)"
    using v adr_tag_index_bound[OF ok] adr_line_word_bound by (simp add: shows_view_def)
  show "flat_view c y' a = ((flat_view c y)(cq_adr r := merge_lanes (cq_we r) (cq_write r) (flat_view c y (cq_adr r)))) a"
  proof (cases "a < 2 ^ cc_address_bits c")
    case False
    with r show ?thesis by (auto simp: flat_view_def)
  next
    case True
    have len: "adr_lane c (cq_adr r) < length (?lk y a)"
      using adr_lane_bound[OF ok] lookup_length[OF ok sh adr_tag_index_bound[OF ok] adr_line_word_bound] by simp
    have inj: "adr_lane c a \<noteq> adr_lane c (cq_adr r)" if "a \<noteq> cq_adr r"
      "adr_tag_value c a = adr_tag_value c (cq_adr r)" "adr_tag_index c a = adr_tag_index c (cq_adr r)"
      "adr_line_word c a = adr_line_word c (cq_adr r)"
      using address_parts_inj[OF ok True r] that by blast
    show ?thesis
    proof (cases "a = cq_adr r")
      case eq: True
      let ?l = "?lk y (cq_adr r)" and ?n = "adr_lane c (cq_adr r)"
      have "?lk y' (cq_adr r) = ?l[?n := merge_lanes (cq_we r) (cq_write r) (?l ! ?n)]"
        using v'[unfolded eq] by (simp only: view_write_def simp_thms if_True)
      then have "?lk y' (cq_adr r) ! ?n = merge_lanes (cq_we r) (cq_write r) (?l ! ?n)"
        using len[unfolded eq] by (simp only: nth_list_update_eq)
      then show ?thesis using r unfolding eq flat_view_def by (simp only: fun_upd_same if_True)
    next
      case False
      have "?lk y' a ! adr_lane c a = ?lk y a ! adr_lane c a"
      proof (cases "adr_tag_value c a = adr_tag_value c (cq_adr r) \<and>
          adr_tag_index c a = adr_tag_index c (cq_adr r) \<and> adr_line_word c a = adr_line_word c (cq_adr r)")
        case same: True
        with inj[OF False] have "adr_lane c (cq_adr r) \<noteq> adr_lane c a" by metis
        then show ?thesis unfolding v' view_write_def if_P[OF same] by (rule nth_list_update_neq)
      next
        case other: False
        show ?thesis unfolding v' view_write_def if_not_P[OF other] ..
      qed
      then show ?thesis using False by (simp only: flat_view_def fun_upd_other not_False_eq_True)
    qed
  qed
qed

lemma cache_run_contract:
  assumes "cache_ready c y" "cache_valid k a"
  shows "\<exists>r y'. cache_run c k a y = Some (r, y') \<and> cache_ready c y' \<and> flat_spec c a (flat_view c y) = (r, flat_view c y')"
proof -
  let ?q = "fst a" and ?r = "bus_input c (fst a) (cy_cache y)"
  have ok: "cache_config_ok c" "0 < cc_cl_bits c" "cy_ready c y" and q: "db_en_o ?q" "waits_at_most k (snd a)"
    using assms by (simp_all add: cache_ready_def cache_valid_def)
  have r: "?r = \<lparr>cq_en = True, cq_adr = word_adr c ?q, cq_we = db_we_o ?q, cq_write = db_wr ?q\<rparr>"
    using ok(3) q by (simp add: cy_ready_def bus_input_def word_adr_def)
  obtain rsp y' where y': "cache_access c (access_bound c k) ?q (snd a) y = Some (rsp, y')" "cy_ready c y'"
    "shows_view c (view_write c ?r (lookup c y)) y'"
    "db_rd rsp = lookup c y (adr_tag_value c (cq_adr ?r)) (adr_tag_index c (cq_adr ?r))
      (adr_line_word c (cq_adr ?r)) ! adr_lane c (cq_adr ?r)"
    using cache_access_returns[OF ok q refl] by blast
  have b: "cq_adr ?r < 2 ^ cc_address_bits c" using word_adr_bound by (simp add: r)
  have "cy_shape c y" using ok(3) by (simp add: cy_ready_def)
  from flat_view_write[OF ok(1) this b y'(3)] show ?thesis
    using y' ok b by (simp add: cache_run_def cache_ready_def flat_spec_def Let_def r flat_view_def word_adr_bound)
qed

interpretation cache_port: device_port "cache_run c k" "cache_ready c" "cache_valid k" "flat_view c" "flat_spec c" for c k
  by unfold_locales (rule cache_run_contract)

subsection \<open>From reset\<close>

definition cache_sys_init :: "cache_config \<Rightarrow> (nat \<Rightarrow> xword list) \<Rightarrow> cache_sys" where
  "cache_sys_init c mem = \<lparr>cy_cache = cache_init c, cy_mem = mem\<rparr>"

lemma entry_init: "i < cc_tag_ram_size c \<Longrightarrow> entry c (cache_init c) i = \<lparr>td_valid = False, td_dirty = False, td_address = 0\<rparr>"
  by (simp add: entry_def cache_init_def from_bit_vector_def)

lemma cache_ready_init:
  assumes "cache_config_ok c" "0 < cc_cl_bits c" "\<And>a. length (mem a) = cc_mux_size c"
  shows "cache_ready c (cache_sys_init c mem)"
  using assms
  by (simp add: cache_ready_def cy_ready_def cy_shape_def cache_sys_init_def line_ok_def entry_init quiet_def
      cache_config_ok_def) (simp add: cache_init_def cache_config_ok_def)

lemma flat_view_init:
  assumes ok: "cache_config_ok c"
  shows "flat_view c (cache_sys_init c mem) = flat_memory c mem"
proof
  fix a
  show "flat_view c (cache_sys_init c mem) a = flat_memory c mem a"
  proof (cases "a < 2 ^ cc_address_bits c")
    case True
    let ?m = "master_adr c (adr_tag_value c a) (adr_tag_index c a) (adr_line_word c a)"
    have a: "a = ?m * cc_mux_size c + adr_lane c a" by (rule address_parts[OF ok True])
    have "a div cc_mux_size c = ?m" "a mod cc_mux_size c = adr_lane c a"
      using adr_lane_bound[OF ok, of a] by (subst a; simp)+
    moreover have "adr_tag_index c a < cc_tag_ram_size c"
      using adr_tag_index_bound[OF ok, of a] ok by (simp add: cache_config_ok_def)
    ultimately show ?thesis
      using True by (simp add: flat_view_def flat_memory_def lookup_def cache_sys_init_def entry_init)
  qed (simp add: flat_view_def flat_memory_def)
qed

text \<open>
  C21: The write-back cache is transparent. For every configuration \<open>CacheConfig\<close> accepts with more
  than one word per line, every memory behind it and every bound on the memory's wait states,
  each session of reads and byte-enabled writes from reset returns, and returns what the flat
  memory would: each access answers with the word last written at its address, through hits, misses, refills and
  write-backs of dirty lines, and cache and memory together hold the flat memory at the end.
\<close>

theorem cache_session_refines:
  assumes "make_cache_config mw ls cs ab = Some c" "1 < ls" "\<And>a. length (mem a) = cc_mux_size c"
    and "list_all (cache_valid k) as"
  shows "\<exists>y. session (cache_run c k) as (cache_sys_init c mem) =
      Some (fst (spec_session (flat_spec c) as (flat_memory c mem)), y) \<and>
    flat_view c y = snd (spec_session (flat_spec c) as (flat_memory c mem))"
proof -
  have c: "cache_config_ok c" "ls = 2 ^ cc_cl_bits c" using make_cache_config_ok[OF assms(1)] by simp_all
  have "0 < cc_cl_bits c" using c(2) assms(2) by (cases "cc_cl_bits c") simp_all
  then have "cache_ready c (cache_sys_init c mem)" using assms(3) by (rule cache_ready_init[OF c(1)])
  from cache_port.session_refines[OF this assms(4)]
  show ?thesis by (auto simp: flat_view_init[OF c(1)])
qed

lemma waits_even: "waits_at_most 1 even"
  unfolding waits_at_most_def by (metis One_nat_def even_Suc add.right_neutral add_Suc_right le0 le_refl)

theorem cache_session_refines_witness:
  "map_option fst (session (cache_run (the (make_cache_config 64 2 4 6)) 1)
     [(\<lparr>db_en_o = True, db_adr_o = 0x14, db_we_o = 3, db_wr = 0xaaaabbbb\<rparr>, even),
      (\<lparr>db_en_o = True, db_adr_o = 0x34, db_we_o = 15, db_wr = 7\<rparr>, \<lambda>_. True),
      (\<lparr>db_en_o = True, db_adr_o = 0x14, db_we_o = 0, db_wr = 0\<rparr>, even)]
     (cache_sys_init (the (make_cache_config 64 2 4 6)) (\<lambda>a. [0x11112222, of_nat a]))) = Some [2, 6, 0xbbbb]"
proof -
  let ?c = "the (make_cache_config 64 2 4 6)"
  have l: "int_log2 2 = Some 1" "int_log2 4 = Some 2" by (simp_all add: int_log2.simps)
  have c: "make_cache_config 64 2 4 6 = Some ?c" "cc_mux_size ?c = 2" "cc_address_bits ?c = 6"
    by (simp_all add: make_cache_config_def Let_def l)
  let ?as = "[(\<lparr>db_en_o = True, db_adr_o = 0x14, db_we_o = 3, db_wr = 0xaaaabbbb\<rparr>, even),
    (\<lparr>db_en_o = True, db_adr_o = 0x34, db_we_o = 15, db_wr = 7\<rparr>, \<lambda>_. True),
    (\<lparr>db_en_o = True, db_adr_o = 0x14, db_we_o = 0, db_wr = 0\<rparr>, even)]"
  let ?mem = "\<lambda>a. [0x11112222, of_nat a] :: xword list"
  have "waits_at_most 1 (\<lambda>_. True)" by (auto simp: waits_at_most_def)
  then have v: "list_all (cache_valid 1) ?as" using waits_even by (simp add: cache_valid_def)
  have "fst (spec_session (flat_spec ?c) ?as (flat_memory ?c ?mem)) = [2, 6, 0xbbbb]"
    by (simp add: c(2,3) flat_spec_def flat_memory_def word_adr_def Let_def merge_lanes_def lane_mask_def
        take_bit_eq_mask mask_eq_exp_minus_1)
  with cache_session_refines[OF c(1) _ _ v, of ?mem] show ?thesis by (auto simp: c(2))
qed

subsection \<open>A reset of one cycle\<close>

lemma cache_reset_idle:
  assumes "\<not> db_en_o q" "\<not> ca_en_r s" "quiet Wb_Idle s"
  shows "ca_en_r (cache_reset c q False db s) = False" "ca_slave_ack (cache_reset c q False db s) = False"
    "ca_buffer_index (cache_reset c q False db s) = 0" "quiet Wb_Idle (cache_reset c q False db s)"
    "ca_tagdata_out (cache_reset c q False db s) = ca_tag_ram s ! adr_tag_index c (cq_adr (bus_input c q s))"
    "ca_ram (cache_reset c q False db s) = ca_ram s" "ca_tag_ram (cache_reset c q False db s) = ca_tag_ram s"
proof -
  let ?r = "bus_input c q s"
  have en: "\<not> cq_en ?r" using assms(1,2) by (simp add: bus_input_def)
  then have nh: "\<not> cache_hit c ?r s" "\<not> cache_miss c ?r s" by (simp_all add: cache_hit_def cache_miss_def)
  have tw: "\<not> tag_we c False ?r s" using nh by (simp add: tag_we_def slave_cache_we_def)
  show "ca_en_r (cache_reset c q False db s) = False" "ca_slave_ack (cache_reset c q False db s) = False"
    "ca_buffer_index (cache_reset c q False db s) = 0" "quiet Wb_Idle (cache_reset c q False db s)"
    "ca_tagdata_out (cache_reset c q False db s) = ca_tag_ram s ! adr_tag_index c (cq_adr (bus_input c q s))"
    "ca_ram (cache_reset c q False db s) = ca_ram s" "ca_tag_ram (cache_reset c q False db s) = ca_tag_ram s"
    using nh tw by (simp_all add: cache_reset_def cache_next_unfold cache_ram_next_def quiet_def Let_def)
qed

text \<open>A read that hits is answered from the cache RAM after one cycle.\<close>

lemma cache_read_hit:
  assumes q: "db_en_o q" "db_we_o q = 0" and y: "\<not> ca_en_r (cy_cache y)" "\<not> ca_slave_ack (cy_cache y)"
    and h: "cache_hit c (bus_input c q (cy_cache y)) (cy_cache y)"
  shows "map_option (\<lambda>x. db_rd (fst x)) (cache_access c (Suc (Suc n)) q ready y) =
    Some (ca_ram (cy_cache y) ! line_adr c (adr_tag_index c (word_adr c q)) (adr_line_word c (word_adr c q)) !
      adr_lane c (word_adr c q))"
proof -
  let ?y = "cy_next c q (ready 0) y"
  have a: "cq_adr (bus_input c q (cy_cache y)) = word_adr c q" "cq_en (bus_input c q (cy_cache y))"
    using y(1) q(1) by (simp_all add: bus_input_def word_adr_def)
  have "ca_slave_ack (cy_cache ?y)" "ca_db_mux_reg (cy_cache ?y) = adr_lane c (word_adr c q)"
    "ca_slave_db_rd (cy_cache ?y) =
       ca_ram (cy_cache y) ! line_adr c (adr_tag_index c (word_adr c q)) (adr_line_word c (word_adr c q))"
    using h a q(1) by (simp_all add: cy_next_cache cache_next_unfold Let_def)
  then show ?thesis using y(2) by (simp add: cache_rsp_def Let_def)
qed

text \<open>
  C34: A reset of one cycle can break the cache. \<open>buffer_index\<close> is reset, but the output register of the
  tag RAM loads the tag of the address on the bus behind its own reset. In every configuration and
  every state between accesses, when a reset of one cycle comes while the bus, idle, still carries
  an address whose line the cache holds, every read of line 0 with the same tag that follows hits,
  although the cache does not hold that line: it is answered after one cycle with whatever is at line 0
  of the cache RAM, while the word at the address is the memory's, before the reset and after it.
\<close>

theorem cache_reset_false_hit:
  assumes "cache_ready c y" "\<not> db_en_o q"
    and held: "td_valid (entry c (cy_cache y) (adr_tag_index c (word_adr c q)))"
      "td_address (entry c (cy_cache y) (adr_tag_index c (word_adr c q))) = adr_tag_value c (word_adr c q)"
    and read: "db_en_o p" "db_we_o p = 0" "adr_tag_index c (word_adr c p) = 0"
      "adr_tag_value c (word_adr c p) = adr_tag_value c (word_adr c q)"
    and absent: "\<not> (td_valid (entry c (cy_cache y) 0) \<and>
      td_address (entry c (cy_cache y) 0) = adr_tag_value c (word_adr c p))"
  shows "let y' = y\<lparr>cy_cache := cache_reset c q False [] (cy_cache y)\<rparr>; a = word_adr c p;
      memory_word = cy_mem y (master_adr c (adr_tag_value c a) 0 (adr_line_word c a)) ! adr_lane c a
    in map_option (\<lambda>x. db_rd (fst x)) (cache_access c (Suc (Suc n)) p ready y') =
         Some (ca_ram (cy_cache y) ! line_adr c 0 (adr_line_word c a) ! adr_lane c a) \<and>
       flat_view c y a = memory_word \<and> flat_view c y' a = memory_word"
proof -
  let ?s = "cache_reset c q False [] (cy_cache y)"
  have "\<not> ca_en_r (cy_cache y)" "quiet Wb_Idle (cy_cache y)"
    using assms(1) by (simp_all add: cache_ready_def cy_ready_def)
  note r = cache_reset_idle[OF assms(2) this, of c "[]"]
  have "cq_adr (bus_input c q (cy_cache y)) = word_adr c q"
    using \<open>\<not> ca_en_r (cy_cache y)\<close> by (simp add: bus_input_def word_adr_def)
  then have t: "tag_buffer c ?s = entry c (cy_cache y) (adr_tag_index c (word_adr c q))"
    by (simp add: tag_buffer_def entry_def r(5))
  have "cq_adr (bus_input c p ?s) = word_adr c p" "cq_en (bus_input c p ?s)"
    using r(1) read(1) by (simp_all add: bus_input_def word_adr_def)
  then have h: "cache_hit c (bus_input c p ?s) ?s"
    using held read(3,4) t r(3) by (simp add: cache_hit_def index_match_def tag_match_def)
  have "map_option (\<lambda>x. db_rd (fst x)) (cache_access c (Suc (Suc n)) p ready (y\<lparr>cy_cache := ?s\<rparr>)) =
      Some (ca_ram (cy_cache y) ! line_adr c 0 (adr_line_word c (word_adr c p)) ! adr_lane c (word_adr c p))"
    using cache_read_hit[OF read(1,2), of "y\<lparr>cy_cache := ?s\<rparr>" c n ready] r(1,2) h by (simp add: r(6) read(3))
  then show ?thesis
    using absent by (auto simp: Let_def flat_view_def word_adr_bound lookup_def entry_def r(6,7) read(3))
qed

text \<open>The smallest case, after a session from reset: line 1 has been read and its address is still on
  the bus, line 0 never was; the read of line 0 is answered with 0, the memory's word is 1.\<close>

theorem cache_reset_false_hit_witness:
  "let c = the (make_cache_config 32 2 4 4); rd = (\<lambda>en a. \<lparr>db_en_o = en, db_adr_o = a, db_we_o = 0, db_wr = 0\<rparr>)
   in \<exists>r y. session (cache_run c 0) [(rd True 8, \<lambda>_. True)] (cache_sys_init c (\<lambda>a. [of_nat a + 1])) = Some (r, y) \<and>
     map_option (\<lambda>x. db_rd (fst x)) (cache_access c (Suc (Suc 18)) (rd True 0) (\<lambda>_. True)
       (y\<lparr>cy_cache := cache_reset c (rd False 8) False [] (cy_cache y)\<rparr>)) = Some 0 \<and>
     flat_view c y 0 = 1"
proof -
  define c where "c = the (make_cache_config 32 2 4 4)"
  define rd where "rd = (\<lambda>en a. \<lparr>db_en_o = en, db_adr_o = a, db_we_o = 0, db_wr = 0\<rparr>)"
  define y0 where "y0 = cache_sys_init c (\<lambda>a. [of_nat a + 1])"
  have "int_log2 1 = Some 0" "int_log2 2 = Some 1" "int_log2 4 = Some 2" by (simp_all add: int_log2.simps)
  then have c: "make_cache_config 32 2 4 4 = Some c" "cc_cl_bits c = 1" "cc_mux_size c = 1"
    by (simp_all add: c_def make_cache_config_def Let_def)
  have ready: "cache_ready c y0"
    unfolding y0_def using make_cache_config_ok[OF c(1)] c(2,3) by (intro cache_ready_init) simp_all
  have valid: "list_all (cache_valid 0) [(rd True 8, \<lambda>_. True)]"
    by (simp add: cache_valid_def rd_def waits_at_most_def)
  obtain r y where y: "session (cache_run c 0) [(rd True 8, \<lambda>_. True)] y0 = Some (r, y)" "cache_ready c y"
    using cache_port.session_refines[OF ready valid] by blast
  have "map_option (\<lambda>(r, y). (td_valid (entry c (cy_cache y) 1), td_address (entry c (cy_cache y) 1),
      td_valid (entry c (cy_cache y) 0), ca_ram (cy_cache y) ! 0, cy_mem y 0))
      (session (cache_run c 0) [(rd True 8, \<lambda>_. True)] y0) = Some (True, 0, False, [0], [1])"
    unfolding c_def rd_def y0_def by code_simp
  then have e: "td_valid (entry c (cy_cache y) 1)" "td_address (entry c (cy_cache y) 1) = 0"
    "\<not> td_valid (entry c (cy_cache y) 0)" "ca_ram (cy_cache y) ! 0 = [0]" "cy_mem y 0 = [1]"
    using y(1) by simp_all
  have adr: "word_adr c (rd en 8) = 2" "word_adr c (rd en 0) = 0" "adr_tag_index c 2 = 1" "adr_tag_value c 2 = 0"
    "adr_tag_index c 0 = 0" "adr_tag_value c 0 = 0" "adr_line_word c 0 = 0" "adr_lane c 0 = 0"
    "line_adr c 0 0 = 0" "master_adr c 0 0 0 = 0" for en
    unfolding c_def rd_def by (code_simp)+
  have rd: "\<not> db_en_o (rd False 8)" "db_en_o (rd True 0)" "db_we_o (rd True 0) = 0" by (simp_all add: rd_def)
  have "map_option (\<lambda>x. db_rd (fst x)) (cache_access c (Suc (Suc 18)) (rd True 0) (\<lambda>_. True)
       (y\<lparr>cy_cache := cache_reset c (rd False 8) False [] (cy_cache y)\<rparr>)) = Some 0 \<and> flat_view c y 0 = 1"
    using cache_reset_false_hit[OF y(2) rd(1) _ _ rd(2,3), of 18 "\<lambda>_. True"] e by (simp add: adr Let_def)
  then show ?thesis
    unfolding Let_def c_def[symmetric] rd_def[symmetric] y0_def[symmetric] using y(1) by blast
qed

end
