(* ===== verification/Python_Values.thy ===== *)
theory Python_Values
  imports Bonfire_Prelude "HOL-Library.Char_ord"
begin

text \<open>
  What the Python programs of the repository use of their language: results that may be an
  exception, strings (lists of characters, Latin-1), the numbers they parse and print, and the
  values of a configuration dictionary with their truth, equality, \<open>int()\<close> and \<open>str()\<close>.
\<close>

definition bindr :: "'e + 'a \<Rightarrow> ('a \<Rightarrow> 'e + 'b) \<Rightarrow> 'e + 'b" where
  "bindr m f = (case m of Inl e \<Rightarrow> Inl e | Inr x \<Rightarrow> f x)"

lemma bindr_simps [simp]: "bindr (Inl e) f = Inl e" "bindr (Inr x) f = f x"
  by (simp_all add: bindr_def)

subsection \<open>Python's strings and numbers\<close>

abbreviation ord :: "char \<Rightarrow> nat" where "ord \<equiv> of_char"

definition byte_space :: "char \<Rightarrow> bool" where
  "byte_space c \<longleftrightarrow> ord c \<in> {9, 10, 11, 12, 13, 32}"

definition text_space :: "char \<Rightarrow> bool" where
  "text_space c \<longleftrightarrow> byte_space c \<or> ord c \<in> {28, 29, 30, 31, 133, 160}"

definition strip :: "(char \<Rightarrow> bool) \<Rightarrow> string \<Rightarrow> string" where
  "strip sp s = rev (dropWhile sp (rev (dropWhile sp s)))"

definition hex_val :: "char \<Rightarrow> nat option" where
  "hex_val c = (if 48 \<le> ord c \<and> ord c \<le> 57 then Some (ord c - 48)
     else if 65 \<le> ord c \<and> ord c \<le> 70 then Some (ord c - 55)
     else if 97 \<le> ord c \<and> ord c \<le> 102 then Some (ord c - 87) else None)"

text \<open>\<open>int(s, 16)\<close>: digits with single underscores between them, an optional prefix and sign,
  spaces around.\<close>

fun hex_tail :: "nat \<Rightarrow> string \<Rightarrow> nat option" where
  "hex_tail a [] = Some a"
| "hex_tail a (c # cs) =
     (if c = CHR ''_'' then
        (case cs of [] \<Rightarrow> None
         | d # ds \<Rightarrow> (case hex_val d of None \<Rightarrow> None | Some v \<Rightarrow> hex_tail (16 * a + v) ds))
      else (case hex_val c of None \<Rightarrow> None | Some v \<Rightarrow> hex_tail (16 * a + v) cs))"

definition hex_nat :: "string \<Rightarrow> nat option" where
  "hex_nat s = (case s of [] \<Rightarrow> None
     | c # cs \<Rightarrow> (case hex_val c of None \<Rightarrow> None | Some v \<Rightarrow> hex_tail v cs))"

definition hex_prefixed :: "string \<Rightarrow> nat option" where
  "hex_prefixed s =
     (if take 2 s \<in> {''0x'', ''0X''} then
        hex_nat (if take 1 (drop 2 s) = ''_'' then drop 3 s else drop 2 s)
      else hex_nat s)"

definition py_int :: "(char \<Rightarrow> bool) \<Rightarrow> string \<Rightarrow> int option" where
  "py_int sp s =
     (let t = strip sp s in
      case t of
        [] \<Rightarrow> None
      | c # cs \<Rightarrow> (if c = CHR ''-'' then map_option (\<lambda>n. - int n) (hex_prefixed cs)
                 else if c = CHR ''+'' then map_option int (hex_prefixed cs)
                 else map_option int (hex_prefixed t)))"

text \<open>\<open>bytes.fromhex\<close>: pairs of digits, spaces between them.\<close>

fun from_hex :: "string \<Rightarrow> string option" where
  "from_hex [] = Some []"
| "from_hex (c # cs) =
     (if byte_space c then from_hex cs
      else (case cs of [] \<Rightarrow> None
        | d # ds \<Rightarrow> (case (hex_val c, hex_val d) of
            (Some h, Some l) \<Rightarrow> map_option (\<lambda>r. char_of (16 * h + l) # r) (from_hex ds)
          | _ \<Rightarrow> None)))"

text \<open>\<open>{:02X}\<close>, \<open>%.2x\<close> and \<open>bytes.hex().upper()\<close>.\<close>

definition upper_digits :: string where "upper_digits = ''0123456789ABCDEF''"

definition lower_digits :: string where "lower_digits = ''0123456789abcdef''"

fun hex_digits :: "string \<Rightarrow> nat \<Rightarrow> string" where
  "hex_digits ds n = (if n < 16 then [ds ! n] else hex_digits ds (n div 16) @ [ds ! (n mod 16)])"

declare hex_digits.simps [simp del]

definition hex2 :: "string \<Rightarrow> nat \<Rightarrow> string" where
  "hex2 ds n = (if n < 16 then ''0'' @ hex_digits ds n else hex_digits ds n)"

definition hex_bytes :: "string \<Rightarrow> string" where
  "hex_bytes bs = concat (map (\<lambda>b. hex2 upper_digits (ord b)) bs)"

text \<open>\<open>str.split\<close> at one character.\<close>

fun split_at :: "char \<Rightarrow> string \<Rightarrow> string list" where
  "split_at c [] = [[]]"
| "split_at c (x # xs) =
     (if x = c then [] # split_at c xs
      else (case split_at c xs of [] \<Rightarrow> [[x]] | p # ps \<Rightarrow> (x # p) # ps))"

definition starts_with :: "string \<Rightarrow> string \<Rightarrow> bool" where
  "starts_with p s \<longleftrightarrow> take (length p) s = p"

definition lower :: "string \<Rightarrow> string" where
  "lower s = map (\<lambda>c. if 65 \<le> ord c \<and> ord c \<le> 90 then char_of (ord c + 32) else c) s"

subsection \<open>Hexadecimal numbers are read back\<close>

lemma lower_digits_all:
  "list_all (\<lambda>l. hex_val (lower_digits ! l) = Some l \<and> \<not> byte_space (lower_digits ! l) \<and>
     lower_digits ! l \<notin> {CHR ''-'', CHR ''+'', CHR ''x'', CHR ''X'', CHR ''_''}) [0..<16]"
  by code_simp

lemma lower_digit:
  assumes "l < 16"
  shows "hex_val (lower_digits ! l) = Some l" "\<not> byte_space (lower_digits ! l)"
    "lower_digits ! l \<notin> {CHR ''-'', CHR ''+'', CHR ''x'', CHR ''X'', CHR ''_''}"
  using lower_digits_all assms by (auto simp: list_all_iff simp del: upt_conv_Cons)

abbreviation hex_num :: "nat \<Rightarrow> string" where "hex_num \<equiv> hex_digits lower_digits"

lemma hex_tail_app: "hex_tail a (s @ [c]) = (case hex_tail a s of None \<Rightarrow> None
    | Some v \<Rightarrow> (case hex_val c of None \<Rightarrow> None | Some d \<Rightarrow> Some (16 * v + d)))"
  if "CHR ''_'' \<notin> set s" "c \<noteq> CHR ''_''"
  using that by (induction s arbitrary: a) (auto split: option.split)

lemma hex_num_chars: "c \<in> set (hex_num n) \<Longrightarrow> \<exists>l < 16. c = lower_digits ! l"
proof (induction n arbitrary: c rule: less_induct)
  case (less n)
  show ?case
  proof (cases "n < 16")
    case True
    then show ?thesis using less.prems by (auto simp: hex_digits.simps)
  next
    case False
    then have "c \<in> set (hex_num (n div 16)) \<or> c = lower_digits ! (n mod 16)"
      using less.prems by (subst (asm) hex_digits.simps) auto
    moreover have "n mod 16 < 16" "n div 16 < n" using False by simp_all
    ultimately show ?thesis using less.IH[of "n div 16" c] by blast
  qed
qed

lemma hex_num_not: "c \<in> {CHR ''-'', CHR ''+'', CHR ''x'', CHR ''X'', CHR ''_'', CHR '','', CHR '':'', CHR ''=''} \<Longrightarrow>
    c \<notin> set (hex_num n)"
proof
  assume c: "c \<in> {CHR ''-'', CHR ''+'', CHR ''x'', CHR ''X'', CHR ''_'', CHR '','', CHR '':'', CHR ''=''}"
    and "c \<in> set (hex_num n)"
  then obtain l where "l < 16" "c = lower_digits ! l" using hex_num_chars by blast
  moreover have "list_all (\<lambda>l. lower_digits ! l \<notin> {CHR ''-'', CHR ''+'', CHR ''x'', CHR ''X'', CHR ''_'', CHR '','',
      CHR '':'', CHR ''=''}) [0..<16]" by code_simp
  ultimately show False using c by (auto simp: list_all_iff simp del: upt_conv_Cons)
qed

lemma hex_num_space: "c \<in> set (hex_num n) \<Longrightarrow> \<not> text_space c"
proof -
  assume "c \<in> set (hex_num n)"
  then obtain l where "l < 16" "c = lower_digits ! l" using hex_num_chars by blast
  moreover have "list_all (\<lambda>l. \<not> text_space (lower_digits ! l)) [0..<16]" by code_simp
  ultimately show ?thesis by (auto simp: list_all_iff simp del: upt_conv_Cons)
qed

lemma hex_num_nonempty: "hex_num n \<noteq> []"
  by (subst hex_digits.simps) simp

lemma hex_nat_num: "hex_nat (hex_num n) = Some n"
proof (induction n rule: less_induct)
  case (less n)
  show ?case
  proof (cases "n < 16")
    case True
    then show ?thesis using lower_digit[OF True] by (subst hex_digits.simps) (simp add: hex_nat_def)
  next
    case False
    obtain c cs where c: "hex_num (n div 16) = c # cs" using hex_num_nonempty by (cases "hex_num (n div 16)") auto
    have u: "CHR ''_'' \<notin> set cs" using hex_num_not[of "CHR ''_''" "n div 16"] by (simp add: c)
    have l: "hex_val (lower_digits ! (n mod 16)) = Some (n mod 16)" "lower_digits ! (n mod 16) \<noteq> CHR ''_''"
      using lower_digit[of "n mod 16"] by auto
    have "hex_num n = c # cs @ [lower_digits ! (n mod 16)]" using False c by (subst hex_digits.simps) simp
    then show ?thesis
      using less.IH[of "n div 16"] False l
      by (auto simp: hex_nat_def c hex_tail_app[OF u] split: option.splits)
  qed
qed

lemma strip_none: "\<forall>c \<in> set s. \<not> sp c \<Longrightarrow> strip sp s = s"
proof -
  assume s: "\<forall>c \<in> set s. \<not> sp c"
  then have "dropWhile sp s = s" "dropWhile sp (rev s) = rev s" by (cases s, auto) (cases "rev s", auto dest: arg_cong[of _ _ set])
  then show ?thesis by (simp add: strip_def)
qed

lemma split_none: "c \<notin> set s \<Longrightarrow> split_at c s = [s]"
  by (induction s) auto

lemma split_one: "c \<notin> set s \<Longrightarrow> split_at c (s @ c # t) = s # split_at c t"
  by (induction s) auto

subsection \<open>Decimal numbers\<close>

definition dec_val :: "char \<Rightarrow> nat option" where
  "dec_val c = (if 48 \<le> ord c \<and> ord c \<le> 57 then Some (ord c - 48) else None)"

fun dec_tail :: "nat \<Rightarrow> string \<Rightarrow> nat option" where
  "dec_tail a [] = Some a"
| "dec_tail a (c # cs) =
     (if c = CHR ''_'' then
        (case cs of [] \<Rightarrow> None
         | d # ds \<Rightarrow> (case dec_val d of None \<Rightarrow> None | Some v \<Rightarrow> dec_tail (10 * a + v) ds))
      else (case dec_val c of None \<Rightarrow> None | Some v \<Rightarrow> dec_tail (10 * a + v) cs))"

definition dec_nat :: "string \<Rightarrow> nat option" where
  "dec_nat s = (case s of [] \<Rightarrow> None
     | c # cs \<Rightarrow> (case dec_val c of None \<Rightarrow> None | Some v \<Rightarrow> dec_tail v cs))"

text \<open>\<open>int(s)\<close> of a string, in base ten.\<close>

definition py_int10 :: "string \<Rightarrow> int option" where
  "py_int10 s =
     (case strip text_space s of
        [] \<Rightarrow> None
      | c # cs \<Rightarrow> (if c = CHR ''-'' then map_option (\<lambda>n. - int n) (dec_nat cs)
                 else if c = CHR ''+'' then map_option int (dec_nat cs)
                 else map_option int (dec_nat (c # cs))))"

fun dec_digits :: "nat \<Rightarrow> string" where
  "dec_digits n =
     (if n < 10 then [char_of (48 + n)] else dec_digits (n div 10) @ [char_of (48 + n mod 10)])"

declare dec_digits.simps [simp del]

definition dec_string :: "int \<Rightarrow> string" where
  "dec_string i = (if i < 0 then CHR ''-'' # dec_digits (nat (- i)) else dec_digits (nat i))"

lemma dec_tail_app: "dec_tail a (s @ [c]) = (case dec_tail a s of None \<Rightarrow> None
    | Some v \<Rightarrow> (case dec_val c of None \<Rightarrow> None | Some d \<Rightarrow> Some (10 * v + d)))"
  if "CHR ''_'' \<notin> set s" "c \<noteq> CHR ''_''"
  using that by (induction s arbitrary: a) (auto split: option.split)

lemma dec_digit: "n < 10 \<Longrightarrow> dec_val (char_of (48 + n)) = Some n" "n < 10 \<Longrightarrow> of_char (char_of (48 + n) :: char) = 48 + n"
  by (simp_all add: dec_val_def)

lemma dec_digits_chars: "c \<in> set (dec_digits n) \<Longrightarrow> 48 \<le> ord c \<and> ord c \<le> 57"
proof (induction n arbitrary: c rule: less_induct)
  case (less n)
  show ?case
  proof (cases "n < 10")
    case True
    then show ?thesis using less.prems dec_digit(2)[of n] by (simp add: dec_digits.simps)
  next
    case False
    then have "c \<in> set (dec_digits (n div 10)) \<or> c = char_of (48 + n mod 10)"
      using less.prems by (subst (asm) dec_digits.simps) auto
    then show ?thesis using less.IH[of "n div 10" c] dec_digit(2)[of "n mod 10"] False by auto
  qed
qed

lemma dec_digits_nonempty: "dec_digits n \<noteq> []"
  by (subst dec_digits.simps) simp

lemma dec_nat_digits: "dec_nat (dec_digits n) = Some n"
proof (induction n rule: less_induct)
  case (less n)
  show ?case
  proof (cases "n < 10")
    case True
    then show ?thesis using dec_digit(1)[OF True] by (subst dec_digits.simps) (simp add: dec_nat_def)
  next
    case False
    obtain c cs where c: "dec_digits (n div 10) = c # cs"
      using dec_digits_nonempty by (cases "dec_digits (n div 10)") auto
    have u: "CHR ''_'' \<notin> set cs" using dec_digits_chars[of "CHR ''_''" "n div 10"] by (auto simp: c)
    have l: "dec_val (char_of (48 + n mod 10)) = Some (n mod 10)" "char_of (48 + n mod 10) \<noteq> CHR ''_''"
      using dec_digit[of "n mod 10"] by (auto dest: arg_cong[of _ _ "of_char :: char \<Rightarrow> nat"])
    have "dec_digits n = c # cs @ [char_of (48 + n mod 10)]" using False c by (subst dec_digits.simps) simp
    then show ?thesis
      using less.IH[of "n div 10"] False l
      by (auto simp: dec_nat_def c dec_tail_app[OF u] split: option.splits)
  qed
qed

lemma dec_digits_inj: "dec_digits m = dec_digits n \<longleftrightarrow> m = n"
  using arg_cong[of "dec_digits m" "dec_digits n" dec_nat] unfolding dec_nat_digits option.inject by blast

lemma dec_string_chars: "c \<in> set (dec_string i) \<Longrightarrow> ord c = 45 \<or> 48 \<le> ord c \<and> ord c \<le> 57"
  using dec_digits_chars by (auto simp: dec_string_def split: if_splits)

lemma dec_string_inj: "dec_string i = dec_string j \<longleftrightarrow> i = j"
proof -
  have n: "dec_digits m \<noteq> CHR ''-'' # s" for m s
    using dec_digits_chars[of "CHR ''-''" m] by (cases "dec_digits m") auto
  then have "CHR ''-'' # s \<noteq> dec_digits m" for m s by metis
  with n show ?thesis by (auto simp: dec_string_def dec_digits_inj eq_nat_nat_iff)
qed

text \<open>\<open>int(str(i))\<close> is \<open>i\<close>.\<close>

lemma py_int10_dec_string: "py_int10 (dec_string i) = Some i"
proof -
  have "strip text_space (dec_string i) = dec_string i"
    by (rule strip_none) (use dec_string_chars in \<open>fastforce simp: text_space_def byte_space_def\<close>)
  moreover obtain c cs where c: "dec_digits (nat i) = c # cs"
    using dec_digits_nonempty by (cases "dec_digits (nat i)") auto
  moreover have "c \<noteq> CHR ''-''" "c \<noteq> CHR ''+''" using dec_digits_chars[of c "nat i"] c by auto
  ultimately show ?thesis
    using dec_nat_digits[of "nat i"] dec_nat_digits[of "nat (- i)"]
    by (auto simp: py_int10_def dec_string_def)
qed

subsection \<open>Values of a configuration dictionary\<close>

datatype py_value = PNone | PBool bool | PInt int | PStr string | PList "py_value list"

fun py_truth :: "py_value \<Rightarrow> bool" where
  "py_truth PNone \<longleftrightarrow> False"
| "py_truth (PBool b) \<longleftrightarrow> b"
| "py_truth (PInt n) \<longleftrightarrow> n \<noteq> 0"
| "py_truth (PStr s) \<longleftrightarrow> s \<noteq> []"
| "py_truth (PList xs) \<longleftrightarrow> xs \<noteq> []"

text \<open>\<open>==\<close>: a Boolean equals the number 0 or 1.\<close>

primrec py_norm :: "py_value \<Rightarrow> py_value" where
  "py_norm PNone = PNone"
| "py_norm (PBool b) = PInt (of_bool b)"
| "py_norm (PInt n) = PInt n"
| "py_norm (PStr s) = PStr s"
| "py_norm (PList xs) = PList (map py_norm xs)"

definition py_eq :: "py_value \<Rightarrow> py_value \<Rightarrow> bool" where
  "py_eq a b \<longleftrightarrow> py_norm a = py_norm b"

lemma py_eq_refl [simp]: "py_eq a a"
  by (simp add: py_eq_def)

lemma py_eq_str [simp]: "py_eq (PStr s) b \<longleftrightarrow> b = PStr s" "py_eq b (PStr s) \<longleftrightarrow> b = PStr s"
  by (cases b; auto simp: py_eq_def)+

text \<open>\<open>str(v)\<close>; inside a list, a string is printed with quotes and escapes.\<close>

definition repr_char :: "char \<Rightarrow> char \<Rightarrow> string" where
  "repr_char q c =
     (if c = q \<or> ord c = 92 then [char_of (92 :: nat), c]
      else if ord c = 9 then [char_of (92 :: nat), CHR ''t'']
      else if ord c = 10 then [char_of (92 :: nat), CHR ''n'']
      else if ord c = 13 then [char_of (92 :: nat), CHR ''r'']
      else if ord c < 32 \<or> 127 \<le> ord c \<and> ord c \<le> 160 \<or> ord c = 173
      then char_of (92 :: nat) # ''x'' @ hex2 lower_digits (ord c)
      else [c])"

definition repr_string :: "string \<Rightarrow> string" where
  "repr_string s =
     (let sq = char_of (39 :: nat); dq = char_of (34 :: nat);
          q = (if sq \<in> set s \<and> dq \<notin> set s then dq else sq)
      in q # concat (map (repr_char q) s) @ [q])"

fun comma_join :: "string list \<Rightarrow> string" where
  "comma_join [] = []"
| "comma_join [x] = x"
| "comma_join (x # y # xs) = x @ '', '' @ comma_join (y # xs)"

primrec py_repr :: "py_value \<Rightarrow> string" where
  "py_repr PNone = ''None''"
| "py_repr (PBool b) = (if b then ''True'' else ''False'')"
| "py_repr (PInt n) = dec_string n"
| "py_repr (PStr s) = repr_string s"
| "py_repr (PList xs) = ''['' @ comma_join (map py_repr xs) @ '']''"

definition py_str :: "py_value \<Rightarrow> string" where
  "py_str v = (case v of PStr s \<Rightarrow> s | _ \<Rightarrow> py_repr v)"

end
