(* ===== verification/Gdb_Rsp.thy ===== *)
theory Gdb_Rsp
  imports Python_Values "HOL-Library.AList"
begin

text \<open>
  The GDB server (\<open>gdbserver/gdb_rsp.py\<close>): the packets of the remote serial protocol and the
  handler of every command. Bytes and the Latin-1 strings made of them are lists of characters.
  The object \<open>debugAPI\<close> the handler is constructed with is the parameter \<open>dbg_api\<close>: its operations
  on a target of any type. An exception the handler does not catch is a value of \<open>rsp_error\<close>; log
  messages are left out.
\<close>

datatype rsp_error = Value_Error | Index_Error | Bad_Checksum | Api_Error | Still_Running

subsection \<open>Packets\<close>

text \<open>\<open>decode('ascii', errors='replace')\<close> followed by \<open>encode('ascii', errors='replace')\<close>.\<close>

definition ascii_replace :: "string \<Rightarrow> string" where
  "ascii_replace s = map (\<lambda>c. if ord c < 128 then c else CHR ''?'') s"

definition checksum :: "string \<Rightarrow> nat" where
  "checksum data = sum_list (map ord data) mod 256"

definition hex_encode_text :: "string \<Rightarrow> string" where
  "hex_encode_text t = hex_bytes (ascii_replace t)"

datatype rx = Rx_Good string | Rx_Break | Rx_EOF

text \<open>\<open>receive\<close>: first the start of the packet, then its payload with the escapes removed; the
  checksum counts the raw bytes.\<close>

fun finding_eop :: "nat \<Rightarrow> bool \<Rightarrow> string \<Rightarrow> string \<Rightarrow> rsp_error + rx" where
  "finding_eop csum escaped packet [] = Inr Rx_EOF"
| "finding_eop csum escaped packet (c # cs) =
     (let csum1 = (csum + ord c) mod 256 in
      if escaped then finding_eop csum1 False (packet @ [char_of (xor (ord c) 32)]) cs
      else if c = CHR ''}'' then finding_eop csum1 True packet cs
      else if c = CHR ''#'' then
        (case py_int byte_space (take 2 cs) of
           None \<Rightarrow> Inl Value_Error
         | Some v \<Rightarrow> (if int csum \<noteq> v then Inl Bad_Checksum else Inr (Rx_Good packet)))
      else finding_eop csum1 False (packet @ [c]) cs)"

declare finding_eop.simps(2) [simp del]

fun finding_sop :: "string \<Rightarrow> rsp_error + rx" where
  "finding_sop [] = Inr Rx_EOF"
| "finding_sop (c # cs) =
     (if ord c = 3 then Inr Rx_Break
      else if c = CHR ''$'' then finding_eop 0 False [] cs
      else finding_sop cs)"

definition receive :: "string \<Rightarrow> rsp_error + rx" where
  "receive bs = finding_sop bs"

definition frame :: "string \<Rightarrow> string" where
  "frame msg = ''$'' @ msg @ ''#'' @ hex2 lower_digits (checksum msg)"

subsection \<open>The debugger's operations and the handler's state\<close>

record 't dbg_api =
  api_halt :: "'t \<Rightarrow> rsp_error + 't"
  api_request_resume :: "'t \<Rightarrow> rsp_error + 't"
  api_reset_core :: "'t \<Rightarrow> rsp_error + 't"
  api_yield_clock :: "'t \<Rightarrow> rsp_error + 't"
  api_check_halted :: "'t \<Rightarrow> rsp_error + (bool \<times> 't)"
  api_read_gpr :: "nat \<Rightarrow> 't \<Rightarrow> rsp_error + (xword \<times> 't)"
  api_write_reg :: "int \<Rightarrow> int \<Rightarrow> 't \<Rightarrow> rsp_error + 't"
  api_read_csr :: "nat \<Rightarrow> 't \<Rightarrow> rsp_error + (xword \<times> 't)"
  api_write_csr :: "nat \<Rightarrow> int \<Rightarrow> 't \<Rightarrow> rsp_error + 't"
  api_read_byte :: "int \<Rightarrow> 't \<Rightarrow> rsp_error + (xword \<times> 't)"
  api_write_byte :: "int \<Rightarrow> nat \<Rightarrow> 't \<Rightarrow> rsp_error + 't"

record 't rsp =
  rp_target :: 't
  rp_out :: string
  rp_breakpoints :: "(int \<times> string) list"
  rp_resume :: "int option"
  rp_memory_size :: "int option"
  rp_ready :: bool

definition on_target :: "('t \<Rightarrow> rsp_error + 't) \<Rightarrow> 't rsp \<Rightarrow> rsp_error + 't rsp" where
  "on_target f s = bindr (f (rp_target s)) (\<lambda>t. Inr (s\<lparr>rp_target := t\<rparr>))"

definition ask_target :: "('t \<Rightarrow> rsp_error + ('a \<times> 't)) \<Rightarrow> 't rsp \<Rightarrow> rsp_error + ('a \<times> 't rsp)" where
  "ask_target f s = bindr (f (rp_target s)) (\<lambda>(x, t). Inr (x, s\<lparr>rp_target := t\<rparr>))"

fun read_all :: "('a \<Rightarrow> 't \<Rightarrow> rsp_error + ('b \<times> 't)) \<Rightarrow> 'a list \<Rightarrow> 't \<Rightarrow> rsp_error + ('b list \<times> 't)" where
  "read_all f [] t = Inr ([], t)"
| "read_all f (a # as) t = bindr (f a t) (\<lambda>(x, t1). bindr (read_all f as t1) (\<lambda>(xs, t2). Inr (x # xs, t2)))"

fun write_all :: "('a \<Rightarrow> 't \<Rightarrow> rsp_error + 't) \<Rightarrow> 'a list \<Rightarrow> 't \<Rightarrow> rsp_error + 't" where
  "write_all f [] t = Inr t"
| "write_all f (a # as) t = bindr (f a t) (write_all f as)"

definition send_raw :: "string \<Rightarrow> 't rsp \<Rightarrow> 't rsp" where
  "send_raw r s = s\<lparr>rp_out := rp_out s @ r\<rparr>"

definition send :: "string \<Rightarrow> 't rsp \<Rightarrow> 't rsp" where
  "send msg s = send_raw (frame msg) s"

definition memory_range_valid :: "'t rsp \<Rightarrow> int \<Rightarrow> int \<Rightarrow> bool" where
  "memory_range_valid s addr sz \<longleftrightarrow> 0 \<le> addr \<and> 0 \<le> sz \<and>
     (case rp_memory_size s of None \<Rightarrow> True | Some m \<Rightarrow> addr + sz \<le> m)"

definition write_memory_bytes :: "'t dbg_api \<Rightarrow> int \<Rightarrow> string \<Rightarrow> 't \<Rightarrow> rsp_error + 't" where
  "write_memory_bytes api addr data =
     write_all (\<lambda>(i, b). api_write_byte api (addr + int i) (ord b)) (enumerate 0 data)"

definition consume_resume_addr :: "int option \<Rightarrow> 't rsp \<Rightarrow> int option \<times> 't rsp" where
  "consume_resume_addr explicit s =
     (case explicit of Some a \<Rightarrow> (Some a, s\<lparr>rp_resume := None\<rparr>) | None \<Rightarrow> (rp_resume s, s\<lparr>rp_resume := None\<rparr>))"

definition csr_dcsr :: nat where "csr_dcsr = 0x7b0"

definition csr_dpc :: nat where "csr_dpc = 0x7b1"

definition update_dcsr :: "'t dbg_api \<Rightarrow> bool option \<Rightarrow> bool option \<Rightarrow> 't \<Rightarrow> rsp_error + 't" where
  "update_dcsr api ebreakm step t =
     bindr (api_read_csr api csr_dcsr t) (\<lambda>(value, t1).
       let v1 = (case ebreakm of None \<Rightarrow> value
                 | Some b \<Rightarrow> if b then or value (push_bit 15 1) else and value (not (push_bit 15 1)));
           v2 = (case step of None \<Rightarrow> v1
                 | Some b \<Rightarrow> if b then or v1 (push_bit 2 1) else and v1 (not (push_bit 2 1)))
       in api_write_csr api csr_dcsr (uint v2) t1)"

text \<open>The polling loops of \<open>handle_s\<close> and \<open>handle_c\<close>, for at most \<open>n\<close> turns.\<close>

fun wait_halted :: "'t dbg_api \<Rightarrow> nat \<Rightarrow> 't \<Rightarrow> rsp_error + 't" where
  "wait_halted api 0 t = Inl Still_Running"
| "wait_halted api (Suc n) t =
     bindr (api_yield_clock api t) (\<lambda>t1. bindr (api_check_halted api t1) (\<lambda>(halted, t2).
       if halted then Inr t2 else wait_halted api n t2))"

subsection \<open>Commands\<close>

text \<open>\<open>int(s, 16)\<close> of a field of a packet; a \<open>ValueError\<close> the handler does not catch.\<close>

definition int16 :: "string \<Rightarrow> rsp_error + int" where
  "int16 s = (case py_int text_space s of None \<Rightarrow> Inl Value_Error | Some v \<Rightarrow> Inr v)"

text \<open>Unpacking a split into two names.\<close>

definition unpack2 :: "string list \<Rightarrow> rsp_error + (string \<times> string)" where
  "unpack2 xs = (case xs of [a, b] \<Rightarrow> Inr (a, b) | _ \<Rightarrow> Inl Value_Error)"

definition le_bytes :: "xword \<Rightarrow> string" where
  "le_bytes w = map (\<lambda>i. char_of (unat (take_bit 8 (drop_bit (8 * i) w)))) [0..<4]"

fun from_le_bytes :: "string \<Rightarrow> int" where
  "from_le_bytes [] = 0"
| "from_le_bytes (b # bs) = int (ord b) + 256 * from_le_bytes bs"

definition handle_q :: "'t dbg_api \<Rightarrow> string \<Rightarrow> 't rsp \<Rightarrow> rsp_error + 't rsp" where
  "handle_q api subcmd s =
     (if starts_with ''Supported'' subcmd then
        Inr (send (''PacketSize='' @ hex_digits lower_digits 4096 @ '';swbreak+'') s)
      else if starts_with ''Attached'' subcmd then
        bindr (on_target (api_halt api) s) (\<lambda>s1. Inr (send ''0'' s1))
      else if starts_with ''C'' subcmd then Inr (send ''QC0'' s)
      else if starts_with ''Rcmd,'' subcmd then
        (case from_hex (drop 5 subcmd) of
           None \<Rightarrow> Inr (send ''E01'' s)
         | Some bs \<Rightarrow>
             (let cmd_text = lower (strip text_space (ascii_replace bs)) in
              if cmd_text = ''halt'' then
                bindr (on_target (api_halt api) s) (\<lambda>s1. Inr (send ''OK'' s1))
              else if cmd_text = ''resume'' then
                bindr (on_target (api_request_resume api) s)
                  (\<lambda>s1. Inr (send (hex_encode_text (''Core resumed'' @ [char_of (10 :: nat)])) s1))
              else if cmd_text = ''reset'' then
                bindr (on_target (api_reset_core api) s) (\<lambda>s1.
                  bindr (on_target (api_halt api) s1) (\<lambda>s2. Inr (send ''OK'' (s2\<lparr>rp_resume := Some 0\<rparr>))))
              else Inr (send (hex_encode_text (''Unknown monitor command: '' @ cmd_text @ [char_of (10 :: nat)])) s)))
      else Inr (send '''' s))"

definition handle_g :: "'t dbg_api \<Rightarrow> string \<Rightarrow> 't rsp \<Rightarrow> rsp_error + 't rsp" where
  "handle_g api subcmd s =
     (if subcmd = '''' then
        bindr (ask_target (read_all (api_read_gpr api) [1..<32]) s) (\<lambda>(rs, s1).
          bindr (ask_target (api_read_csr api csr_dpc) s1) (\<lambda>(pc, s2).
            Inr (send (concat (map (\<lambda>r. hex_bytes (le_bytes r)) (0 # rs @ [pc]))) s2)))
      else Inr s)"

definition handle_m :: "'t dbg_api \<Rightarrow> string \<Rightarrow> 't rsp \<Rightarrow> rsp_error + 't rsp" where
  "handle_m api subcmd s =
     bindr (unpack2 (split_at (CHR '','') subcmd)) (\<lambda>(a, b).
       bindr (int16 a) (\<lambda>addr. bindr (int16 b) (\<lambda>sz.
         if \<not> memory_range_valid s addr sz then Inr (send ''E01'' s)
         else bindr (ask_target (read_all (api_read_byte api) [addr..addr + sz - 1]) s) (\<lambda>(bs, s1).
           Inr (send (concat (map (\<lambda>b. hex2 upper_digits (unat b)) bs)) s1)))))"

definition handle_M :: "'t dbg_api \<Rightarrow> string \<Rightarrow> 't rsp \<Rightarrow> rsp_error + 't rsp" where
  "handle_M api subcmd s =
     bindr (unpack2 (split_at (CHR '','') subcmd)) (\<lambda>(a, tail).
       bindr (unpack2 (split_at (CHR '':'') tail)) (\<lambda>(b, hexstring).
         bindr (int16 a) (\<lambda>addr. bindr (int16 b) (\<lambda>sz.
           if \<not> memory_range_valid s addr sz then Inr (send ''E01'' s)
           else if sz * 2 \<noteq> int (length hexstring) then Inr (send ''E01'' s)
           else (case from_hex hexstring of
                   None \<Rightarrow> Inr (send ''E01'' s)
                 | Some data \<Rightarrow> bindr (on_target (write_memory_bytes api addr data) s) (\<lambda>s1. Inr (send ''OK'' s1)))))))"

definition handle_P :: "'t dbg_api \<Rightarrow> string \<Rightarrow> 't rsp \<Rightarrow> rsp_error + 't rsp" where
  "handle_P api subcmd s =
     bindr (unpack2 (split_at (CHR ''='') subcmd)) (\<lambda>(a, b).
       bindr (int16 a) (\<lambda>regnum. bindr (int16 b) (\<lambda>value.
         if 0 \<le> regnum \<and> regnum < 32 then
           bindr (on_target (api_write_reg api (regnum + 0x1000) value) s) (\<lambda>s1. Inr (send ''OK'' s1))
         else if regnum = 32 then
           bindr (on_target (api_write_csr api csr_dpc value) (s\<lparr>rp_resume := None\<rparr>)) (\<lambda>s1. Inr (send ''OK'' s1))
         else Inr (send ''E01'' s))))"

text \<open>The address argument of \<open>s\<close> and \<open>c\<close>.\<close>

definition resume_arg :: "string \<Rightarrow> rsp_error + int option" where
  "resume_arg subcmd = (if subcmd = '''' then Inr None else bindr (int16 subcmd) (\<lambda>a. Inr (Some a)))"

definition set_resume_pc :: "'t dbg_api \<Rightarrow> string \<Rightarrow> 't rsp \<Rightarrow> rsp_error + 't rsp" where
  "set_resume_pc api subcmd s =
     bindr (resume_arg subcmd) (\<lambda>explicit.
       (case consume_resume_addr explicit s of
          (None, s1) \<Rightarrow> Inr s1
        | (Some a, s1) \<Rightarrow> on_target (api_write_csr api csr_dpc a) s1))"

definition handle_s :: "nat \<Rightarrow> 't dbg_api \<Rightarrow> string \<Rightarrow> 't rsp \<Rightarrow> rsp_error + 't rsp" where
  "handle_s n api subcmd s =
     bindr (set_resume_pc api subcmd s) (\<lambda>s1.
       bindr (on_target (update_dcsr api (Some (rp_breakpoints s1 \<noteq> [])) (Some True)) s1) (\<lambda>s2.
         bindr (on_target (api_request_resume api) s2) (\<lambda>s3.
           bindr (on_target (wait_halted api n) s3) (\<lambda>s4.
             bindr (on_target (update_dcsr api None (Some False)) s4) (\<lambda>s5.
               Inr (send (''T'' @ hex2 lower_digits 5) s5))))))"

definition handle_c :: "nat \<Rightarrow> 't dbg_api \<Rightarrow> string \<Rightarrow> 't rsp \<Rightarrow> rsp_error + 't rsp" where
  "handle_c n api subcmd s =
     bindr (set_resume_pc api subcmd s) (\<lambda>s1.
       bindr (if rp_breakpoints s1 \<noteq> [] then on_target (update_dcsr api (Some True) None) s1 else Inr s1) (\<lambda>s2.
         bindr (on_target (api_request_resume api) s2) (\<lambda>s3.
           if rp_breakpoints s3 \<noteq> [] then
             bindr (on_target (wait_halted api n) s3) (\<lambda>s4. Inr (send (''T'' @ hex2 lower_digits 5) s4))
           else Inr s3)))"

definition handle_G :: "'t dbg_api \<Rightarrow> string \<Rightarrow> 't rsp \<Rightarrow> rsp_error + 't rsp" where
  "handle_G api subcmd s =
     (if length subcmd < 33 * 8 then Inr (send ''E01'' s)
      else
        (case those (map (\<lambda>i. from_hex (take 8 (drop (i * 8) subcmd))) [0..<33]) of
           None \<Rightarrow> Inr (send ''E01'' s)
         | Some raws \<Rightarrow>
             (let values = map from_le_bytes raws in
              bindr (on_target (write_all (\<lambda>i. api_write_reg api (int i + 0x1000) (values ! i)) [1..<32]) s) (\<lambda>s1.
                bindr (on_target (api_write_csr api csr_dpc (values ! 32)) (s1\<lparr>rp_resume := None\<rparr>)) (\<lambda>s2.
                  Inr (send ''OK'' s2))))))"

definition handle_X :: "'t dbg_api \<Rightarrow> string \<Rightarrow> 't rsp \<Rightarrow> rsp_error + 't rsp" where
  "handle_X api subcmd s =
     (if CHR '':'' \<notin> set subcmd then Inr (send ''E01'' s)
      else
        (let addr_size = takeWhile (\<lambda>c. c \<noteq> CHR '':'') subcmd;
             binary_data = drop (length addr_size + 1) subcmd in
         bindr (unpack2 (split_at (CHR '','') addr_size)) (\<lambda>(a, b).
           bindr (int16 a) (\<lambda>addr. bindr (int16 b) (\<lambda>sz.
             if sz = 0 then Inr (send ''OK'' s)
             else if \<not> memory_range_valid s addr sz then Inr (send ''E01'' s)
             else
               (let data = take (nat sz) binary_data in
                if int (length data) \<noteq> sz then Inr (send ''E01'' s)
                else bindr (on_target (write_memory_bytes api addr data) s) (\<lambda>s1. Inr (send ''OK'' s1))))))))"

text \<open>The fields of \<open>Z\<close> and \<open>z\<close>; here the \<open>ValueError\<close> is caught.\<close>

definition bp_fields :: "string \<Rightarrow> (string \<times> int \<times> int) option" where
  "bp_fields subcmd =
     (case split_at (CHR '','') subcmd of
        [kind, a, b] \<Rightarrow>
          (case (py_int text_space a, py_int text_space b) of
             (Some addr, Some sz) \<Rightarrow> Some (kind, addr, sz)
           | _ \<Rightarrow> None)
      | _ \<Rightarrow> None)"

definition ebreak_bytes :: string where
  "ebreak_bytes = le_bytes 0x00100073"

definition handle_Z :: "'t dbg_api \<Rightarrow> string \<Rightarrow> 't rsp \<Rightarrow> rsp_error + 't rsp" where
  "handle_Z api subcmd s =
     (case bp_fields subcmd of
        None \<Rightarrow> Inr (send ''E01'' s)
      | Some (kind, addr, sz) \<Rightarrow>
          (if kind \<noteq> ''0'' then Inr (send '''' s)
           else if \<not> memory_range_valid s addr sz then Inr (send ''E01'' s)
           else if addr \<notin> fst ` set (rp_breakpoints s) then
             bindr (ask_target (read_all (api_read_byte api) [addr..addr + sz - 1]) s) (\<lambda>(bs, s1).
               (let original = map (\<lambda>b. char_of (unat (take_bit 8 b))) bs;
                    s2 = s1\<lparr>rp_breakpoints := AList.update addr original (rp_breakpoints s1)\<rparr> in
                bindr (on_target (write_memory_bytes api addr (take (nat sz) ebreak_bytes)) s2) (\<lambda>s3.
                  Inr (send ''OK'' s3))))
           else Inr (send ''OK'' s)))"

definition handle_z :: "'t dbg_api \<Rightarrow> string \<Rightarrow> 't rsp \<Rightarrow> rsp_error + 't rsp" where
  "handle_z api subcmd s =
     (case bp_fields subcmd of
        None \<Rightarrow> Inr (send ''E01'' s)
      | Some (kind, addr, sz) \<Rightarrow>
          (if kind \<noteq> ''0'' then Inr (send '''' s)
           else if \<not> memory_range_valid s addr sz then Inr (send ''E01'' s)
           else
             (let s1 = s\<lparr>rp_breakpoints := AList.delete addr (rp_breakpoints s)\<rparr> in
              bindr (case map_of (rp_breakpoints s) addr of
                       None \<Rightarrow> Inr s1
                     | Some original \<Rightarrow> on_target (write_memory_bytes api addr original) s1) (\<lambda>s2.
                bindr (if rp_breakpoints s2 = [] then on_target (update_dcsr api (Some False) None) s2 else Inr s2)
                  (\<lambda>s3. Inr (send ''OK'' s3))))))"

definition handle_v :: "nat \<Rightarrow> 't dbg_api \<Rightarrow> string \<Rightarrow> 't rsp \<Rightarrow> rsp_error + 't rsp" where
  "handle_v n api subcmd s =
     (if subcmd = ''Cont?'' then Inr (send ''vCont;c;s'' s)
      else if starts_with ''Cont;'' subcmd then
        (let action = hd (split_at (CHR '':'') (hd (split_at (CHR '';'') (drop 5 subcmd)))) in
         if action = ''c'' then handle_c n api '''' s
         else if action = ''s'' then handle_s n api '''' s
         else Inr (send '''' s))
      else Inr (send '''' s))"

definition dispatch :: "nat \<Rightarrow> 't dbg_api \<Rightarrow> char \<Rightarrow> string \<Rightarrow> 't rsp \<Rightarrow> rsp_error + 't rsp" where
  "dispatch n api cmd subcmd s =
     (if cmd = CHR ''q'' then handle_q api subcmd s
      else if cmd = CHR ''H'' then Inr (send ''OK'' s)
      else if cmd = CHR ''?'' then Inr (send (''S'' @ hex2 lower_digits 5) s)
      else if cmd = CHR ''g'' then handle_g api subcmd s
      else if cmd = CHR ''G'' then handle_G api subcmd s
      else if cmd = CHR ''m'' then handle_m api subcmd s
      else if cmd = CHR ''s'' then handle_s n api subcmd s
      else if cmd = CHR ''c'' then handle_c n api subcmd s
      else if cmd = CHR ''M'' then handle_M api subcmd s
      else if cmd = CHR ''X'' then handle_X api subcmd s
      else if cmd = CHR ''P'' then handle_P api subcmd s
      else if cmd = CHR ''Z'' then handle_Z api subcmd s
      else if cmd = CHR ''z'' then handle_z api subcmd s
      else if cmd = CHR ''D'' then Inr (send ''OK'' s)
      else if cmd = CHR ''v'' then handle_v n api subcmd s
      else Inr (send '''' s))"

definition run_cmd :: "nat \<Rightarrow> 't dbg_api \<Rightarrow> string \<Rightarrow> 't rsp \<Rightarrow> rsp_error + 't rsp" where
  "run_cmd n api packet_bytes s =
     bindr (receive packet_bytes) (\<lambda>result.
       bindr (case result of
                Rx_Good pkt \<Rightarrow>
                  (case pkt of
                     [] \<Rightarrow> Inl Index_Error
                   | cmd # subcmd \<Rightarrow> dispatch n api cmd subcmd (send_raw ''+'' s))
              | Rx_Break \<Rightarrow>
                  bindr (on_target (api_halt api) s) (\<lambda>s1. Inr (send (''T'' @ hex2 lower_digits 5) s1))
              | Rx_EOF \<Rightarrow> Inr s)
         (\<lambda>s1. Inr (s1\<lparr>rp_ready := True\<rparr>)))"

end
