(* ===== verification/Gdb_Protocol.thy ===== *)
theory Gdb_Protocol
  imports Gdb_Rsp
begin

text \<open>
  What the GDB server promises: the packets of a client arrive as they were sent, every reply is
  a packet the client can read, memory and registers come back as they were written, and software
  breakpoints are invisible in the memory they leave behind.
\<close>

subsection \<open>Packets of a client\<close>

definition special :: "char \<Rightarrow> bool" where
  "special c \<longleftrightarrow> c \<in> {CHR ''#'', CHR ''$'', CHR ''}'', CHR ''*''}"

fun rsp_escape :: "string \<Rightarrow> string" where
  "rsp_escape [] = []"
| "rsp_escape (c # cs) = (if special c then CHR ''}'' # char_of (xor (ord c) 32) # rsp_escape cs
     else c # rsp_escape cs)"

definition client_packet :: "string \<Rightarrow> string" where
  "client_packet s = frame (rsp_escape s)"

lemma xor_32_special: "special c \<Longrightarrow> char_of (xor (ord (char_of (xor (ord c) 32))) 32) = c"
  by (auto simp: special_def char_of_char[symmetric] simp del: char_of_char) code_simp+

lemma eop_plain:
  assumes "\<not> special c"
  shows "finding_eop k False p (c # cs) = finding_eop ((k + ord c) mod 256) False (p @ [c]) cs"
  using assms by (simp add: special_def Let_def finding_eop.simps(2))

lemma eop_escaped:
  "finding_eop k False p (CHR ''}'' # c # cs) =
    finding_eop ((k + 125 + ord c) mod 256) False (p @ [char_of (xor (ord c) 32)]) cs"
  by (simp add: Let_def mod_simps finding_eop.simps(2))

lemma eop_payload:
  "finding_eop k False p (rsp_escape s @ cs) =
    finding_eop ((k + sum_list (map ord (rsp_escape s))) mod 256) False (p @ s) cs" if "k < 256"
  using that
proof (induction s arbitrary: k p)
  case (Cons c s)
  show ?case
  proof (cases "special c")
    case True
    have "finding_eop k False p (rsp_escape (c # s) @ cs) =
        finding_eop ((k + 125 + ord (char_of (xor (ord c) 32) :: char)) mod 256) False
          (p @ [char_of (xor (ord (char_of (xor (ord c) 32) :: char)) 32)]) (rsp_escape s @ cs)"
      using True by (simp only: rsp_escape.simps if_True append_Cons eop_escaped)
    then show ?thesis
      using True Cons.IH by (simp only: xor_32_special) (simp add: mod_simps add.assoc)
  next
    case False
    then show ?thesis
      using Cons.IH by (simp only: rsp_escape.simps if_False append_Cons eop_plain[OF False]) (simp add: mod_simps add.assoc)
  qed
qed simp

lemma hex2_two: "n < 256 \<Longrightarrow> ds ! 0 = CHR ''0'' \<Longrightarrow> hex2 ds n = [ds ! (n div 16), ds ! (n mod 16)]"
  by (auto simp: hex2_def hex_digits.simps[of ds n] hex_digits.simps[of ds "n div 16"])

lemma lower_digits_0: "lower_digits ! 0 = CHR ''0''"
  by (simp add: lower_digits_def)

lemma hex2_length: "n < 256 \<Longrightarrow> length (hex2 lower_digits n) = 2"
  by (simp add: hex2_two lower_digits_0)

lemma hex2_int:
  assumes "n < 256"
  shows "py_int byte_space (hex2 lower_digits n) = Some (int n)"
proof -
  let ?h = "lower_digits ! (n div 16)" and ?l = "lower_digits ! (n mod 16)"
  have h: "n div 16 < 16" "n mod 16 < 16" using assms by simp_all
  have s: "strip byte_space [?h, ?l] = [?h, ?l]" using lower_digit(2)[OF h(1)] lower_digit(2)[OF h(2)] by (simp add: strip_def)
  have p: "hex_prefixed [?h, ?l] = Some n"
    using lower_digit[OF h(1)] lower_digit[OF h(2)] by (simp add: hex_prefixed_def hex_nat_def)
  show ?thesis
    using lower_digit(3)[OF h(1)] by (simp add: hex2_two[OF assms lower_digits_0] py_int_def s p)
qed

lemma checksum_less: "checksum s < 256"
  by (simp add: checksum_def)

lemma eop_end:
  "finding_eop k False p (CHR ''#'' # cs) =
    (case py_int byte_space (take 2 cs) of
       None \<Rightarrow> Inl Value_Error
     | Some v \<Rightarrow> (if int k \<noteq> v then Inl Bad_Checksum else Inr (Rx_Good p)))"
  by (simp add: Let_def finding_eop.simps(2))

lemma sop_noise:
  "\<forall>c \<in> set noise. c \<noteq> CHR ''$'' \<and> ord c \<noteq> 3 \<Longrightarrow> finding_sop (noise @ cs) = finding_sop cs"
  by (induction noise) auto

lemma receive_frame_end:
  assumes "\<forall>c \<in> set noise. c \<noteq> CHR ''$'' \<and> ord c \<noteq> 3"
  shows "receive (noise @ ''$'' @ rsp_escape s @ cs) = finding_eop (checksum (rsp_escape s)) False s cs"
  using eop_payload[of 0 "[]" s cs] by (simp add: receive_def sop_noise[OF assms] checksum_def)

lemma receive_client_packet:
  assumes "\<forall>c \<in> set noise. c \<noteq> CHR ''$'' \<and> ord c \<noteq> 3"
  shows "receive (noise @ client_packet s @ rest) = Inr (Rx_Good s)"
proof -
  let ?c = "checksum (rsp_escape s)"
  have "take 2 (hex2 lower_digits ?c @ rest) = hex2 lower_digits ?c"
    using hex2_length[OF checksum_less] by simp
  then show ?thesis
    using receive_frame_end[OF assms, of s "''#'' @ hex2 lower_digits ?c @ rest"]
    by (simp only: client_packet_def frame_def append_assoc append_Cons append_Nil eop_end hex2_int[OF checksum_less])
      simp
qed

text \<open>
  C23: Packets arrive as they were sent. Whatever a client puts into a packet, binary data
  included, and escapes as the protocol demands, \<open>receive\<close> recovers exactly, behind any noise of
  acknowledgements and before anything that follows, and no packet is refused.
\<close>

theorem receive_roundtrip:
  assumes "\<forall>c \<in> set noise. c \<noteq> CHR ''$'' \<and> ord c \<noteq> 3"
  shows "receive (noise @ client_packet s @ rest) = Inr (Rx_Good s)"
  by (rule receive_client_packet[OF assms])

theorem receive_roundtrip_witness:
  "receive (''+'' @ client_packet ''X4,3:#$}'' @ ''$g#67'') = Inr (Rx_Good ''X4,3:#$}'')"
  by (rule receive_roundtrip) simp

text \<open>A packet that is cut off is dropped without an answer.\<close>

lemma eop_cut: "k < 256 \<Longrightarrow> m \<le> length (rsp_escape s) \<Longrightarrow> finding_eop k False p (take m (rsp_escape s)) = Inr Rx_EOF"
proof (induction s arbitrary: k p m)
  case (Cons c s)
  show ?case
  proof (cases m)
    case (Suc m1)
    show ?thesis
    proof (cases "special c")
      case True
      show ?thesis
      proof (cases m1)
        case 0
        then show ?thesis using True by (simp add: Suc Let_def finding_eop.simps(2))
      next
        case (Suc m2)
        have "finding_eop k False p (take m (rsp_escape (c # s))) =
            finding_eop ((k + 125 + ord (char_of (xor (ord c) 32) :: char)) mod 256) False
              (p @ [char_of (xor (ord (char_of (xor (ord c) 32) :: char)) 32)]) (take m2 (rsp_escape s))"
          using True by (simp only: \<open>m = Suc m1\<close> Suc rsp_escape.simps if_True take_Suc_Cons eop_escaped)
        then show ?thesis using Cons.IH Cons.prems True by (simp add: \<open>m = Suc m1\<close> Suc)
      qed
    next
      case False
      then show ?thesis
        using Cons.IH Cons.prems by (simp only: Suc rsp_escape.simps if_False take_Suc_Cons eop_plain[OF False]) simp
    qed
  qed simp
qed simp

text \<open>
  A packet must arrive in one piece. The server hands every piece \<open>recv\<close> returns to
  \<open>run_cmd\<close> alone: of a packet that is cut before its end mark nothing is answered, not even a
  negative acknowledgement, and no state is kept for the rest; a packet longer than the 1024 bytes of
  \<open>recv\<close> is lost, although the server offers packets of 4096.
\<close>

theorem truncated_packet_dropped:
  assumes "k \<le> Suc (length (rsp_escape s))"
  shows "run_cmd n api (take k (client_packet s)) st = Inr (st\<lparr>rp_ready := True\<rparr>)"
proof -
  have "receive (take k (client_packet s)) = Inr Rx_EOF"
  proof (cases k)
    case 0
    then show ?thesis by (simp add: receive_def)
  next
    case (Suc m)
    then have m: "m \<le> length (rsp_escape s)" using assms by simp
    then have "take k (client_packet s) = CHR ''$'' # take m (rsp_escape s)"
      by (simp add: Suc client_packet_def frame_def)
    then show ?thesis using eop_cut[of 0 m s "[]"] m by (simp add: receive_def)
  qed
  then show ?thesis by (simp add: run_cmd_def)
qed

subsection \<open>Replies\<close>

definition plain :: "string \<Rightarrow> bool" where
  "plain m \<longleftrightarrow> (\<forall>c \<in> set m. \<not> special c)"

lemma plain_simps [simp]:
  "plain []" "plain (c # m) \<longleftrightarrow> \<not> special c \<and> plain m" "plain (a @ b) \<longleftrightarrow> plain a \<and> plain b"
  by (auto simp: plain_def)

lemma plain_concat: "(\<And>m. m \<in> set ms \<Longrightarrow> plain m) \<Longrightarrow> plain (concat ms)"
  by (auto simp: plain_def)

lemma plain_concat_map [simp]: "plain (concat (map f xs)) \<longleftrightarrow> (\<forall>x \<in> set xs. plain (f x))"
  by (auto simp: plain_def)

lemma plain_escape: "plain m \<Longrightarrow> rsp_escape m = m"
  by (induction m) simp_all

lemma hex_digits_set: "length ds = 16 \<Longrightarrow> set (hex_digits ds n) \<subseteq> set ds"
proof (induction ds n rule: hex_digits.induct)
  case (1 ds n)
  show ?case
  proof (cases "n < 16")
    case True
    then show ?thesis using "1.prems" by (simp add: hex_digits.simps)
  next
    case False
    moreover have "ds ! (n mod 16) \<in> set ds" using "1.prems" by simp
    ultimately show ?thesis using 1 by (subst hex_digits.simps) simp
  qed
qed

lemma plain_digits: "plain upper_digits" "plain lower_digits"
  by (code_simp, code_simp)

lemma plain_hex: "plain (hex_digits upper_digits n)" "plain (hex_digits lower_digits n)"
  "plain (hex2 upper_digits n)" "plain (hex2 lower_digits n)"
proof -
  show u: "plain (hex_digits upper_digits n)" and l: "plain (hex_digits lower_digits n)"
    using plain_digits hex_digits_set[of upper_digits n] hex_digits_set[of lower_digits n]
    by (auto simp: plain_def upper_digits_def lower_digits_def)
  show "plain (hex2 upper_digits n)" "plain (hex2 lower_digits n)"
    using u l by (simp_all add: hex2_def special_def)
qed

lemma plain_hex_bytes: "plain (hex_bytes bs)"
  unfolding hex_bytes_def by (rule plain_concat) (auto simp: plain_hex)

definition replied :: "'t rsp \<Rightarrow> 't rsp \<Rightarrow> bool" where
  "replied s s' \<longleftrightarrow> rp_out s' = rp_out s \<or> (\<exists>m. plain m \<and> rp_out s' = rp_out s @ frame m)"

lemma replied_send: "plain m \<Longrightarrow> rp_out s1 = rp_out s \<Longrightarrow> replied s (send m s1)"
  by (auto simp: replied_def send_def send_raw_def)

lemma replied_refl: "rp_out s1 = rp_out s \<Longrightarrow> replied s s1"
  by (simp add: replied_def)

lemma bindr_Inr: "bindr m f = Inr x \<longleftrightarrow> (\<exists>y. m = Inr y \<and> f y = Inr x)"
  by (cases m) simp_all

lemma on_target_out: "on_target f s = Inr s' \<Longrightarrow> rp_out s' = rp_out s"
  by (auto simp: on_target_def bindr_Inr)

lemma ask_target_out: "ask_target f s = Inr (x, s') \<Longrightarrow> rp_out s' = rp_out s"
  by (auto simp: ask_target_def bindr_Inr)

lemma set_resume_pc_out: "set_resume_pc api a s = Inr s' \<Longrightarrow> rp_out s' = rp_out s"
  by (auto simp: set_resume_pc_def bindr_Inr consume_resume_addr_def dest!: on_target_out
      split: option.splits prod.splits)

lemmas replies = replied_send replied_refl special_def plain_hex plain_hex_bytes

lemma replied_trans: "rp_out s1 = rp_out s \<Longrightarrow> replied s1 s' \<Longrightarrow> replied s s'"
  by (simp add: replied_def)

text \<open>Every handler sends at most one packet, and its text needs no escape.\<close>

lemma handle_q_replied: "handle_q api a s = Inr s' \<Longrightarrow> replied s s'"
  by (auto simp: replies handle_q_def bindr_Inr Let_def hex_encode_text_def plain_hex_bytes dest!: on_target_out split: if_splits option.splits)

lemma handle_g_replied: "handle_g api a s = Inr s' \<Longrightarrow> replied s s'"
  by (auto simp: replies handle_g_def bindr_Inr plain_hex_bytes dest!: ask_target_out split: if_splits)

lemma handle_m_replied: "handle_m api a s = Inr s' \<Longrightarrow> replied s s'"
  by (auto simp: replies handle_m_def bindr_Inr plain_hex dest!: ask_target_out split: if_splits)

lemma handle_M_replied: "handle_M api a s = Inr s' \<Longrightarrow> replied s s'"
  by (auto simp: replies handle_M_def bindr_Inr dest!: on_target_out split: if_splits option.splits)

lemma handle_P_replied: "handle_P api a s = Inr s' \<Longrightarrow> replied s s'"
  by (auto simp: replies handle_P_def bindr_Inr dest!: on_target_out split: if_splits)

lemma handle_s_replied: "handle_s n api a s = Inr s' \<Longrightarrow> replied s s'"
  by (auto simp: replies handle_s_def bindr_Inr dest!: on_target_out set_resume_pc_out)

lemma handle_c_replied: "handle_c n api a s = Inr s' \<Longrightarrow> replied s s'"
  by (auto simp: replies handle_c_def bindr_Inr dest!: on_target_out set_resume_pc_out split: if_splits)

lemma handle_G_replied: "handle_G api a s = Inr s' \<Longrightarrow> replied s s'"
  by (auto simp: replies handle_G_def bindr_Inr Let_def dest!: on_target_out split: if_splits option.splits)

lemma handle_X_replied: "handle_X api a s = Inr s' \<Longrightarrow> replied s s'"
  by (auto simp: replies handle_X_def bindr_Inr Let_def dest!: on_target_out split: if_splits)

lemma handle_Z_replied: "handle_Z api a s = Inr s' \<Longrightarrow> replied s s'"
  by (auto simp: replies handle_Z_def bindr_Inr Let_def dest!: on_target_out ask_target_out
      split: if_splits option.splits)

lemma handle_z_replied: "handle_z api a s = Inr s' \<Longrightarrow> replied s s'"
  by (auto simp: replies handle_z_def bindr_Inr Let_def dest!: on_target_out
      split: if_splits option.splits)

lemma handle_v_replied: "handle_v n api a s = Inr s' \<Longrightarrow> replied s s'"
  by (auto simp: replies handle_v_def Let_def handle_c_replied handle_s_replied split: if_splits)

lemmas handlers_replied = handle_q_replied handle_g_replied handle_m_replied handle_M_replied handle_P_replied
  handle_s_replied handle_c_replied handle_G_replied handle_X_replied handle_Z_replied handle_z_replied
  handle_v_replied

lemma dispatch_replied: "dispatch n api c a s = Inr s' \<Longrightarrow> replied s s'"
  by (auto simp: replies dispatch_def handlers_replied split: if_splits)

lemma client_reads_plain: "plain m \<Longrightarrow> receive (frame m @ rest) = Inr (Rx_Good m)"
  using receive_client_packet[of "[]" m rest] by (simp add: client_packet_def plain_escape)

text \<open>
  C26: The client can read every answer. Whatever bytes come in and whatever the target does,
  a call of \<open>run_cmd\<close> that returns has sent nothing, or an acknowledgement and at most one packet, and a
  client that reads the packet with the server's own \<open>receive\<close> recovers its text: although \<open>send\<close>
  escapes nothing, no reply of any handler needs an escape.
\<close>

theorem run_cmd_replies:
  assumes "run_cmd n api bs s = Inr s'"
  shows "\<exists>ack out. rp_out s' = rp_out s @ ack @ out \<and> ack \<in> {[], ''+''} \<and>
    (out = [] \<or> (\<exists>m. out = frame m \<and> (\<forall>rest. receive (out @ rest) = Inr (Rx_Good m))))"
proof -
  have client: "replied s1 s2 \<Longrightarrow> \<exists>out. rp_out s2 = rp_out s1 @ out \<and>
      (out = [] \<or> (\<exists>m. out = frame m \<and> (\<forall>rest. receive (out @ rest) = Inr (Rx_Good m))))" for s1 s2 :: "'a rsp"
    by (auto simp: replied_def client_reads_plain)
  obtain r s1 where r: "receive bs = Inr r" "s' = s1\<lparr>rp_ready := True\<rparr>"
    and h: "(case r of Rx_Good pkt \<Rightarrow> (case pkt of [] \<Rightarrow> Inl Index_Error
        | cmd # subcmd \<Rightarrow> dispatch n api cmd subcmd (send_raw ''+'' s))
      | Rx_Break \<Rightarrow> bindr (on_target (api_halt api) s) (\<lambda>s1. Inr (send (''T'' @ hex2 lower_digits 5) s1))
      | Rx_EOF \<Rightarrow> Inr s) = Inr s1"
    using assms by (auto simp: run_cmd_def bindr_Inr)
  show ?thesis
  proof (cases r)
    case (Rx_Good pkt)
    with h obtain c a where "dispatch n api c a (send_raw ''+'' s) = Inr s1" by (cases pkt) simp_all
    from client[OF dispatch_replied[OF this]] obtain out where "rp_out s1 = rp_out s @ ''+'' @ out"
      "out = [] \<or> (\<exists>m. out = frame m \<and> (\<forall>rest. receive (out @ rest) = Inr (Rx_Good m)))"
      by (auto simp: send_raw_def)
    then show ?thesis using r(2) by (intro exI[of _ "''+''"] exI[of _ out]) simp
  next
    case Rx_Break
    with h have "replied s s1" by (auto simp: bindr_Inr replies dest!: on_target_out)
    from client[OF this] obtain out where "rp_out s1 = rp_out s @ out"
      "out = [] \<or> (\<exists>m. out = frame m \<and> (\<forall>rest. receive (out @ rest) = Inr (Rx_Good m)))" by blast
    then show ?thesis using r(2) by (intro exI[of _ "[]"] exI[of _ out]) simp
  next
    case Rx_EOF
    then show ?thesis using h r(2) by auto
  qed
qed

subsection \<open>A plain target\<close>

text \<open>
  A target for concrete runs that behaves as the hart under \<open>debug_api.py\<close> does, in the points the
  server can notice: the memory has 32-bit byte addresses, and its accesses go through registers 8
  and 9 and leave the address and the value there; register 0 is fixed; \<open>dpc\<close> has no bits 1 and 0;
  of \<open>dcsr\<close> the \<open>ebreakm\<close> and \<open>step\<close> bits can be written, and its cause is 4 after a step, which
  takes three clocks.
\<close>

record plain_target =
  pt_mem :: "int \<Rightarrow> char"
  pt_gpr :: "nat \<Rightarrow> xword"
  pt_dpc :: xword
  pt_dcsr :: xword
  pt_left :: "nat option"

definition pt_halted :: "plain_target \<Rightarrow> bool" where
  "pt_halted t \<longleftrightarrow> pt_left t = None"

definition dcsr_flags :: xword where
  "dcsr_flags = 0x8004"

definition plain_read_csr :: "nat \<Rightarrow> plain_target \<Rightarrow> rsp_error + (xword \<times> plain_target)" where
  "plain_read_csr c t =
     (if c = csr_dcsr then Inr (pt_dcsr t, t) else if c = csr_dpc then Inr (pt_dpc t, t) else Inl Api_Error)"

definition plain_write_csr :: "nat \<Rightarrow> int \<Rightarrow> plain_target \<Rightarrow> rsp_error + plain_target" where
  "plain_write_csr c v t =
     (if c = csr_dcsr then Inr (t\<lparr>pt_dcsr := or (and (pt_dcsr t) (not dcsr_flags)) (and (word_of_int v) dcsr_flags)\<rparr>)
      else if c = csr_dpc then Inr (t\<lparr>pt_dpc := and (word_of_int v) (not 3)\<rparr>) else Inl Api_Error)"

definition plain_read_byte :: "int \<Rightarrow> plain_target \<Rightarrow> rsp_error + (xword \<times> plain_target)" where
  "plain_read_byte a t =
     (if 0 \<le> a \<and> a < 2 ^ 32
      then (let v = of_nat (ord (pt_mem t a)) in Inr (v, t\<lparr>pt_gpr := (pt_gpr t)(8 := v)\<rparr>)) else Inl Api_Error)"

definition plain_write_byte :: "int \<Rightarrow> nat \<Rightarrow> plain_target \<Rightarrow> rsp_error + plain_target" where
  "plain_write_byte a b t =
     (if 0 \<le> a \<and> a < 2 ^ 32
      then Inr (t\<lparr>pt_mem := (pt_mem t)(a := char_of b), pt_gpr := (pt_gpr t)(8 := word_of_int a, 9 := of_nat b)\<rparr>)
      else Inl Api_Error)"

text \<open>A clock of a resumed target; the step ends with the cause set.\<close>

definition plain_cause :: "xword \<Rightarrow> xword" where
  "plain_cause w = or (and w (not 0x1C0)) 0x100"

definition plain_clock :: "plain_target \<Rightarrow> plain_target" where
  "plain_clock t =
     (case pt_left t of
        None \<Rightarrow> t
      | Some n \<Rightarrow>
          (if \<not> bit (pt_dcsr t) 2 then t
           else if n \<le> 1 then t\<lparr>pt_left := None, pt_dcsr := plain_cause (pt_dcsr t)\<rparr>
           else t\<lparr>pt_left := Some (n - 1)\<rparr>))"

definition plain_api :: "plain_target dbg_api" where
  "plain_api = \<lparr>api_halt = (\<lambda>t. Inr (t\<lparr>pt_left := None\<rparr>)),
     api_request_resume = (\<lambda>t. Inr (t\<lparr>pt_left := Some 3\<rparr>)), api_reset_core = Inr,
     api_yield_clock = (\<lambda>t. Inr (plain_clock t)), api_check_halted = (\<lambda>t. Inr (pt_halted t, t)),
     api_read_gpr = (\<lambda>r t. Inr (if r = 0 then 0 else pt_gpr t r, t)),
     api_write_reg = (\<lambda>r v t. Inr (if r = 0x1000 then t
       else t\<lparr>pt_gpr := (pt_gpr t)(nat (r - 0x1000) := word_of_int v)\<rparr>)),
     api_read_csr = plain_read_csr, api_write_csr = plain_write_csr,
     api_read_byte = plain_read_byte, api_write_byte = plain_write_byte\<rparr>"

definition plain_start :: "plain_target rsp" where
  "plain_start = \<lparr>rp_target = \<lparr>pt_mem = (\<lambda>_. CHR ''x''), pt_gpr = (\<lambda>_. 0), pt_dpc = 0, pt_dcsr = 0x400000C3,
       pt_left = None\<rparr>,
     rp_out = [], rp_breakpoints = [], rp_resume = None, rp_memory_size = Some 4096, rp_ready = True\<rparr>"

theorem truncated_packet_dropped_witness:
  "run_cmd 5 plain_api (take 3 (client_packet ''m0,4'')) plain_start = Inr (plain_start\<lparr>rp_ready := True\<rparr>)"
  by (rule truncated_packet_dropped) (simp add: special_def)

theorem run_cmd_replies_witness:
  "\<exists>s' ack out. run_cmd 5 plain_api ''$m0,2#fb'' plain_start = Inr s' \<and> rp_out s' = rp_out plain_start @ ack @ out \<and>
    ack \<in> {[], ''+''} \<and>
    (out = [] \<or> (\<exists>m. out = frame m \<and> (\<forall>rest. receive (out @ rest) = Inr (Rx_Good m))))"
proof -
  have "\<not> (case run_cmd 5 plain_api ''$m0,2#fb'' plain_start of Inl _ \<Rightarrow> True | Inr _ \<Rightarrow> False)"
    by code_simp
  then obtain s' where "run_cmd 5 plain_api ''$m0,2#fb'' plain_start = Inr s'" by (auto split: sum.splits)
  with run_cmd_replies[OF this] show ?thesis by blast
qed

end
