(* ===== verification/Gdb_Memory.thy ===== *)
theory Gdb_Memory
  imports Gdb_Protocol
begin

text \<open>
  The memory commands of the GDB server on a target whose byte accesses read and write its memory
  at some of its addresses; what they do to the registers is left open.
\<close>

subsection \<open>Numbers\<close>

lemma hex_num_int: "int16 (hex_num n) = Inr (int n)"
proof -
  obtain c cs where c: "hex_num n = c # cs" using hex_num_nonempty by (cases "hex_num n") auto
  have s: "c \<noteq> CHR ''-''" "c \<noteq> CHR ''+''" using hex_num_not[of "CHR ''-''" n] hex_num_not[of "CHR ''+''" n] by (auto simp: c)
  have "CHR ''x'' \<notin> set (hex_num n)" "CHR ''X'' \<notin> set (hex_num n)" by (rule hex_num_not; simp)+
  then have "CHR ''x'' \<notin> set (take 2 (hex_num n))" "CHR ''X'' \<notin> set (take 2 (hex_num n))"
    by (blast dest: in_set_takeD)+
  then have "take 2 (hex_num n) \<noteq> ''0x''" "take 2 (hex_num n) \<noteq> ''0X''" by force+
  then have "hex_prefixed (hex_num n) = Some n" using hex_nat_num by (simp add: hex_prefixed_def)
  moreover have "strip text_space (hex_num n) = hex_num n" using hex_num_space by (intro strip_none) blast
  ultimately show ?thesis using s by (simp add: int16_def py_int_def c)
qed

lemma upper_digits_all:
  "list_all (\<lambda>l. hex_val (upper_digits ! l) = Some l \<and> \<not> byte_space (upper_digits ! l) \<and>
     upper_digits ! l \<notin> {CHR '','', CHR '':''}) [0..<16]"
  by code_simp

lemma upper_digit:
  assumes "l < 16"
  shows "hex_val (upper_digits ! l) = Some l" "\<not> byte_space (upper_digits ! l)"
    "upper_digits ! l \<notin> {CHR '','', CHR '':''}"
  using upper_digits_all assms by (auto simp: list_all_iff simp del: upt_conv_Cons)

lemma hex2_upper: "n < 256 \<Longrightarrow> hex2 upper_digits n = [upper_digits ! (n div 16), upper_digits ! (n mod 16)]"
  by (rule hex2_two) (simp_all add: upper_digits_def)

lemma ord_less: "ord c < 256"
  by (metis of_char_mod_256 mod_less_divisor zero_less_numeral)

lemma hex_bytes_simps: "hex_bytes [] = []"
  "hex_bytes (b # bs) = upper_digits ! (ord b div 16) # upper_digits ! (ord b mod 16) # hex_bytes bs"
  by (simp_all add: hex_bytes_def hex2_upper ord_less)

lemma ord_div_16: "ord c div 16 < 16"
  using ord_less[of c] by (simp add: less_mult_imp_div_less)

lemma from_hex_bytes: "from_hex (hex_bytes bs) = Some bs"
proof (induction bs)
  case (Cons b bs)
  have d: "ord b div 16 < 16" "ord b mod 16 < 16" using ord_div_16 by simp_all
  show ?case
    using Cons upper_digit[OF d(1)] upper_digit[OF d(2)] by (simp add: hex_bytes_simps)
qed (simp add: hex_bytes_simps)

lemma hex_bytes_length: "length (hex_bytes bs) = 2 * length bs"
  by (induction bs) (simp_all add: hex_bytes_simps)

lemma hex_bytes_not: "c \<in> {CHR '','', CHR '':''} \<Longrightarrow> c \<notin> set (hex_bytes bs)"
proof (induction bs)
  case (Cons b bs)
  have d: "ord b div 16 < 16" "ord b mod 16 < 16" using ord_div_16 by simp_all
  show ?case using Cons upper_digit(3)[OF d(1)] upper_digit(3)[OF d(2)] by (auto simp: hex_bytes_simps)
qed (simp add: hex_bytes_simps)

subsection \<open>A target with a memory\<close>

text \<open>
  What the server relies on, of a target in a state \<open>ok\<close> (halted, say): at the addresses \<open>A\<close> of its
  memory byte accesses succeed and read and write what \<open>mem\<close> shows, accesses to \<open>dcsr\<close> succeed and
  leave the memory alone, and \<open>ok\<close> is kept. Nothing is said of the rest of the target: in
  \<open>debug_api.py\<close> a memory access also overwrites registers 8 and 9.
\<close>

definition memory_api :: "('t \<Rightarrow> bool) \<Rightarrow> int set \<Rightarrow> 't dbg_api \<Rightarrow> ('t \<Rightarrow> int \<Rightarrow> char) \<Rightarrow> bool" where
  "memory_api ok A api mem \<longleftrightarrow>
     (\<forall>t a. ok t \<and> a \<in> A \<longrightarrow>
        (\<exists>t'. api_read_byte api a t = Inr (of_nat (ord (mem t a)), t') \<and> ok t' \<and> mem t' = mem t)) \<and>
     (\<forall>t a b. ok t \<and> a \<in> A \<longrightarrow>
        (\<exists>t'. api_write_byte api a (ord b) t = Inr t' \<and> ok t' \<and> mem t' = (mem t)(a := b))) \<and>
     (\<forall>t. ok t \<longrightarrow> (\<exists>v t'. api_read_csr api csr_dcsr t = Inr (v, t') \<and> ok t' \<and> mem t' = mem t)) \<and>
     (\<forall>t v. ok t \<longrightarrow> (\<exists>t'. api_write_csr api csr_dcsr (uint (v :: xword)) t = Inr t' \<and> ok t' \<and> mem t' = mem t))"

text \<open>The memory with bytes written from an address on, and the bytes from an address on.\<close>

definition stored :: "int \<Rightarrow> string \<Rightarrow> (int \<Rightarrow> char) \<Rightarrow> int \<Rightarrow> char" where
  "stored a data m = (\<lambda>x. if a \<le> x \<and> x < a + int (length data) then data ! nat (x - a) else m x)"

definition loaded :: "int \<Rightarrow> nat \<Rightarrow> (int \<Rightarrow> char) \<Rightarrow> string" where
  "loaded a n m = map (\<lambda>i. m (a + int i)) [0..<n]"

lemma stored_empty [simp]: "stored a [] m = m"
  by (rule ext) (auto simp: stored_def)

lemma loaded_stored: "loaded a (length data) (stored a data m) = data"
  by (rule nth_equalityI) (simp_all add: loaded_def stored_def)

lemma stored_loaded: "stored a (loaded a n m) m = m"
  by (rule ext) (auto simp: stored_def loaded_def)

lemma read_memory:
  assumes "memory_api ok A api mem"
  shows "ok t \<Longrightarrow> set as \<subseteq> A \<Longrightarrow>
    \<exists>t'. read_all (api_read_byte api) as t = Inr (map (\<lambda>a. of_nat (ord (mem t a))) as, t') \<and> ok t' \<and> mem t' = mem t"
proof (induction "as" arbitrary: t)
  case (Cons a "as")
  have "a \<in> A" "set as \<subseteq> A" using Cons.prems(2) by simp_all
  then obtain t1 where "api_read_byte api a t = Inr (of_nat (ord (mem t a)), t1)" "ok t1" "mem t1 = mem t"
    using assms Cons.prems(1) unfolding memory_api_def by blast
  with Cons.IH[of t1] \<open>set as \<subseteq> A\<close> show ?case by auto
qed simp

lemma interval_map: "0 \<le> n \<Longrightarrow> map f [a..a + n - 1] = map (\<lambda>i. f (a + int i)) [0..<nat n]"
  by (rule nth_equalityI) simp_all

lemma write_memory_from:
  assumes "memory_api ok A api mem"
  shows "ok t \<Longrightarrow> {a + int k..<a + int k + int (length data)} \<subseteq> A \<Longrightarrow>
    \<exists>t'. write_all (\<lambda>(i, b). api_write_byte api (a + int i) (ord b)) (enumerate k data) t = Inr t' \<and>
      ok t' \<and> mem t' = stored (a + int k) data (mem t)"
proof (induction data arbitrary: k t)
  case (Cons b data)
  have "a + int k \<in> A" using Cons.prems(2) by auto
  then obtain t1 where t1: "api_write_byte api (a + int k) (ord b) t = Inr t1" "ok t1"
    "mem t1 = (mem t)(a + int k := b)"
    using assms Cons.prems(1) unfolding memory_api_def by blast
  have "{a + int (Suc k)..<a + int (Suc k) + int (length data)} \<subseteq> A" using Cons.prems(2) by auto
  from Cons.IH[OF t1(2) this] obtain t2 where
    t2: "write_all (\<lambda>(i, b). api_write_byte api (a + int i) (ord b)) (enumerate (Suc k) data) t1 = Inr t2" "ok t2"
    "mem t2 = stored (a + int (Suc k)) data (mem t1)" by blast
  have "stored (a + int (Suc k)) data ((mem t)(a + int k := b)) x = stored (a + int k) (b # data) (mem t) x" for x
  proof (cases "a + int k < x \<and> x < a + int k + 1 + int (length data)")
    case True
    then have "nat (x - (a + int k)) = Suc (nat (x - (a + int (Suc k))))" by arith
    then show ?thesis using True by (simp add: stored_def)
  qed (auto simp: stored_def)
  then have "mem t2 = stored (a + int k) (b # data) (mem t)" using t1(3) t2(3) by (simp add: ext)
  with t1(1) t2(1,2) show ?case by simp
qed simp

lemma write_memory:
  assumes "memory_api ok A api mem" "ok t" "{a..<a + int (length data)} \<subseteq> A"
  shows "\<exists>t'. write_memory_bytes api a data t = Inr t' \<and> ok t' \<and> mem t' = stored a data (mem t)"
  using write_memory_from[OF assms(1), of t a 0 data] assms(2,3) by (simp add: write_memory_bytes_def)

lemma run_cmd_dispatch:
  "run_cmd n api (client_packet (c # a)) s =
    bindr (dispatch n api c a (send_raw ''+'' s)) (\<lambda>s1. Inr (s1\<lparr>rp_ready := True\<rparr>))"
  using receive_client_packet[of "[]" "c # a" "[]"] by (simp add: run_cmd_def)

text \<open>What a client writes for an address, a length and data.\<close>

definition range_text :: "nat \<Rightarrow> nat \<Rightarrow> string" where
  "range_text a n = hex_num a @ '','' @ hex_num n"

lemma comma_colon: "CHR '','' \<notin> set (hex_num n)" "CHR '':'' \<notin> set (hex_num n)"
  by (rule hex_num_not; simp)+

lemma range_text_split: "unpack2 (split_at (CHR '','') (range_text a n)) = Inr (hex_num a, hex_num n)"
  by (simp add: range_text_def split_one split_none comma_colon unpack2_def)

text \<open>A range the server admits and the target has memory at.\<close>

definition fits :: "int set \<Rightarrow> 't rsp \<Rightarrow> nat \<Rightarrow> nat \<Rightarrow> bool" where
  "fits A s a n \<longleftrightarrow> {int a..<int a + int n} \<subseteq> A \<and>
     (case rp_memory_size s of None \<Rightarrow> True | Some m \<Rightarrow> int a + int n \<le> m)"

lemma memory_range_fits: "fits A s a n \<Longrightarrow> memory_range_valid s (int a) (int n)"
  by (simp add: memory_range_valid_def fits_def split: option.splits)

lemma fits_range: "fits A s a n \<Longrightarrow> {int a..<int a + int n} \<subseteq> A" "fits A s a n \<Longrightarrow> set [int a..int a + int n - 1] \<subseteq> A"
  by (auto simp: fits_def)

lemma handle_m_reads:
  assumes "memory_api ok A api mem" "ok (rp_target s)" "fits A s a n"
  shows "\<exists>t'. handle_m api (range_text a n) s = Inr (send (hex_bytes (loaded (int a) n (mem (rp_target s)))) (s\<lparr>rp_target := t'\<rparr>)) \<and>
    ok t' \<and> mem t' = mem (rp_target s)"
proof -
  obtain t' where t': "read_all (api_read_byte api) [int a..int a + int n - 1] (rp_target s) =
      Inr (map (\<lambda>a. of_nat (ord (mem (rp_target s) a))) [int a..int a + int n - 1], t')" "ok t'" "mem t' = mem (rp_target s)"
    using read_memory[OF assms(1,2) fits_range(2)[OF assms(3)]] by blast
  have b: "unat (of_nat (ord c) :: xword) = ord c" for c
  proof -
    have "ord c < 4294967296" using ord_less[of c] by linarith
    then show ?thesis by (simp add: unat_of_nat)
  qed
  have "concat (map (\<lambda>b. hex2 upper_digits (unat b)) (map (\<lambda>a. of_nat (ord (mem (rp_target s) a)) :: xword) [int a..int a + int n - 1])) =
      hex_bytes (loaded (int a) n (mem (rp_target s)))"
    by (simp add: hex_bytes_def loaded_def interval_map comp_def b)
  then show ?thesis
    using t' memory_range_fits[OF assms(3)]
    by (intro exI[of _ t']) (simp add: handle_m_def range_text_split hex_num_int ask_target_def comp_def)
qed

lemma handle_M_writes:
  assumes "memory_api ok A api mem" "ok (rp_target s)" "fits A s a (length data)"
  shows "\<exists>t'. handle_M api (range_text a (length data) @ '':'' @ hex_bytes data) s = Inr (send ''OK'' (s\<lparr>rp_target := t'\<rparr>)) \<and>
    ok t' \<and> mem t' = stored (int a) data (mem (rp_target s))"
proof -
  obtain t' where t': "write_memory_bytes api (int a) data (rp_target s) = Inr t'" "ok t'" "mem t' = stored (int a) data (mem (rp_target s))"
    using write_memory[OF assms(1,2) fits_range(1)[OF assms(3)]] by blast
  have "CHR '','' \<notin> set (hex_num (length data) @ '':'' @ hex_bytes data)"
    using comma_colon hex_bytes_not[of "CHR '',''"] by simp
  then have u: "unpack2 (split_at (CHR '','') (range_text a (length data) @ '':'' @ hex_bytes data)) =
      Inr (hex_num a, hex_num (length data) @ '':'' @ hex_bytes data)"
    using split_one[OF comma_colon(1), of a] by (simp add: range_text_def split_none unpack2_def)
  have v: "unpack2 (split_at (CHR '':'') (hex_num (length data) @ '':'' @ hex_bytes data)) = Inr (hex_num (length data), hex_bytes data)"
    using split_one[OF comma_colon(2)] hex_bytes_not[of "CHR '':''"] by (simp add: split_none unpack2_def)
  show ?thesis
    using t' memory_range_fits[OF assms(3)] u v
    by (intro exI[of _ t']) (simp add: handle_M_def hex_num_int hex_bytes_length from_hex_bytes on_target_def)
qed

lemma handle_X_writes:
  assumes "memory_api ok A api mem" "ok (rp_target s)" "fits A s a (length data)"
  shows "\<exists>t'. handle_X api (range_text a (length data) @ '':'' @ data) s = Inr (send ''OK'' (s\<lparr>rp_target := t'\<rparr>)) \<and>
    ok t' \<and> mem t' = stored (int a) data (mem (rp_target s))"
proof -
  obtain t' where t': "write_memory_bytes api (int a) data (rp_target s) = Inr t'" "ok t'" "mem t' = stored (int a) data (mem (rp_target s))"
    using write_memory[OF assms(1,2) fits_range(1)[OF assms(3)]] by blast
  have r: "CHR '':'' \<notin> set (range_text a (length data))" using comma_colon by (simp add: range_text_def)
  then have t: "takeWhile (\<lambda>c. c \<noteq> CHR '':'') (range_text a (length data) @ '':'' @ data) = range_text a (length data)"
    by (subst takeWhile_append2) auto
  show ?thesis
  proof (cases "data = []")
    case True
    then show ?thesis
      using True t r assms(2) by (intro exI[of _ "rp_target s"]) (simp add: handle_X_def Let_def range_text_split hex_num_int)
  next
    case False
    then show ?thesis
      using t' memory_range_fits[OF assms(3)] t r
      by (intro exI[of _ t']) (simp add: handle_X_def Let_def range_text_split hex_num_int on_target_def)
  qed
qed

text \<open>
  C25: Memory comes back as it was written. On a target whose byte accesses work at the addresses
  of its memory, for every range inside it that the range check admits and every data, an \<open>M\<close>
  packet or a binary \<open>X\<close> packet followed by an \<open>m\<close> packet is answered with \<open>OK\<close> and the hex text of
  exactly the data, and the target's memory then differs from the old one in those bytes only.
  Of the rest of the target nothing is claimed, and nothing is assumed: the debugger's accesses
  overwrite registers 8 and 9, as those of the witness do.
\<close>

theorem memory_roundtrip:
  assumes "memory_api ok A api mem" "ok (rp_target s)" "fits A s a (length data)"
    and "w \<in> {''M'' @ range_text a (length data) @ '':'' @ hex_bytes data, ''X'' @ range_text a (length data) @ '':'' @ data}"
  shows "\<exists>s1 s2. run_cmd n api (client_packet w) s = Inr s1 \<and>
    run_cmd n api (client_packet (''m'' @ range_text a (length data))) s1 = Inr s2 \<and>
    rp_out s2 = rp_out s @ ''+'' @ frame ''OK'' @ ''+'' @ frame (hex_bytes data) \<and>
    mem (rp_target s2) = stored (int a) data (mem (rp_target s))"
proof -
  let ?s = "send_raw ''+'' s"
  have f: "ok (rp_target ?s)" "fits A ?s a (length data)" using assms(2,3) by (simp_all add: fits_def send_raw_def)
  obtain t1 where t1: "dispatch n api (hd w) (tl w) ?s = Inr (send ''OK'' (?s\<lparr>rp_target := t1\<rparr>))"
    "ok t1" "mem t1 = stored (int a) data (mem (rp_target s))"
    using assms(4) handle_M_writes[OF assms(1) f] handle_X_writes[OF assms(1) f]
    by (auto simp: dispatch_def send_raw_def)
  let ?s1 = "(send ''OK'' (?s\<lparr>rp_target := t1\<rparr>))\<lparr>rp_ready := True\<rparr>"
  have w: "w = hd w # tl w" using assms(4) by auto
  have 1: "run_cmd n api (client_packet w) s = Inr ?s1"
    using t1(1) by (subst w, subst run_cmd_dispatch) simp
  have "ok (rp_target (send_raw ''+'' ?s1))" "fits A (send_raw ''+'' ?s1) a (length data)"
    using t1(2) assms(3) by (simp_all add: fits_def send_raw_def send_def)
  from handle_m_reads[OF assms(1) this] obtain t2 where t2:
    "handle_m api (range_text a (length data)) (send_raw ''+'' ?s1) =
      Inr (send (hex_bytes data) ((send_raw ''+'' ?s1)\<lparr>rp_target := t2\<rparr>))" "mem t2 = mem t1"
    by (auto simp: send_raw_def send_def t1(3) loaded_stored)
  have 2: "run_cmd n api (client_packet (''m'' @ range_text a (length data))) ?s1 =
      Inr ((send (hex_bytes data) ((send_raw ''+'' ?s1)\<lparr>rp_target := t2\<rparr>))\<lparr>rp_ready := True\<rparr>)"
    using t2(1) by (simp add: run_cmd_dispatch dispatch_def)
  show ?thesis
    by (intro exI conjI, rule 1, rule 2) (simp_all add: send_def send_raw_def t2(2) t1(3))
qed

lemma plain_memory_api: "memory_api pt_halted {0..<2 ^ 32} plain_api pt_mem"
  by (simp add: memory_api_def plain_api_def plain_read_byte_def plain_write_byte_def plain_read_csr_def
      plain_write_csr_def pt_halted_def Let_def)

lemma plain_start_halted: "pt_halted (rp_target plain_start)"
  by (simp add: plain_start_def pt_halted_def)

theorem memory_roundtrip_witness:
  "\<exists>s1 s2. run_cmd 5 plain_api (client_packet (''X'' @ range_text 16 (length ''a}b'') @ '':a}b'')) plain_start = Inr s1 \<and>
    run_cmd 5 plain_api (client_packet (''m'' @ range_text 16 (length ''a}b''))) s1 = Inr s2 \<and>
    rp_out s2 = ''+$OK#9a+$617D62#4a''"
proof -
  have f: "fits {0..<2 ^ 32} plain_start 16 (length ''a}b'')" by (auto simp: fits_def plain_start_def)
  have "frame ''OK'' = ''$OK#9a''" "frame (hex_bytes ''a}b'') = ''$617D62#4a''" by (code_simp, code_simp)
  then show ?thesis
    using memory_roundtrip[OF plain_memory_api plain_start_halted f, of "''X'' @ range_text 16 (length ''a}b'') @ '':a}b''" 5]
    by (auto simp: plain_start_def)
qed

end
