(* ===== verification/Gdb_Registers.thy ===== *)
theory Gdb_Registers
  imports Gdb_Memory
begin

text \<open>
  The register commands of the GDB server: what \<open>G\<close> writes, \<open>g\<close> reads; \<open>P\<close> takes its value in the other
  byte order.
\<close>

subsection \<open>Words and their bytes\<close>

lemma byte_nat: "unat (take_bit 8 (drop_bit k w)) = unat w div 2 ^ k mod 256" for w :: xword
proof -
  have "take_bit 32 (unat w) = unat w"
    using unsigned_less[where 'a = nat, of w] by (simp add: take_bit_nat_eq_self)
  then have "unat (take_bit 8 (drop_bit k w)) = take_bit 8 (drop_bit k (unat w))"
    by (simp add: unsigned_take_bit_eq unsigned_drop_bit_eq)
  then show ?thesis by (simp add: take_bit_eq_mod drop_bit_eq_div)
qed

lemma le_bytes_explicit: "le_bytes w = [char_of (unat w mod 256), char_of (unat w div 256 mod 256),
    char_of (unat w div 65536 mod 256), char_of (unat w div 16777216 mod 256)]"
  by (simp add: le_bytes_def byte_nat upt_rec)

lemma length_le_bytes [simp]: "length (le_bytes w) = 4"
  by (simp add: le_bytes_def)

fun le_nat :: "string \<Rightarrow> nat" where
  "le_nat [] = 0"
| "le_nat (b # bs) = ord b + 256 * le_nat bs"

lemma from_le_bytes_nat: "from_le_bytes bs = int (le_nat bs)"
  by (induction bs) simp_all

lemma ord_char_of_mod: "ord (char_of (n mod 256) :: char) = n mod 256"
  by simp

lemma div_256_step: "b < 256 \<Longrightarrow> (b + 256 * x) div 256 = (x :: nat)" "b < 256 \<Longrightarrow> (b + 256 * x) mod 256 = (b :: nat)"
  by simp_all

lemma le_nat_le_bytes: "le_nat (le_bytes w) = unat w"
proof -
  have "unat w < 256 * (256 * (256 * 256))" using unsigned_less[where 'a = nat, of w] by simp
  then have t: "unat w div 256 div 256 div 256 < 256" by (simp add: less_mult_imp_div_less)
  have d: "unat w div 65536 = unat w div 256 div 256" "unat w div 16777216 = unat w div 256 div 256 div 256"
    by (simp_all add: div_mult2_eq[symmetric])
  have s: "n = n mod 256 + 256 * (n div 256)" for n :: nat by simp
  have "unat w = unat w mod 256 + 256 * (unat w div 256 mod 256 + 256 * (unat w div 256 div 256 mod 256 +
      256 * (unat w div 256 div 256 div 256)))"
    using s[of "unat w"] s[of "unat w div 256"] s[of "unat w div 256 div 256"] by presburger
  then show ?thesis
    unfolding le_bytes_explicit le_nat.simps ord_char_of_mod d using t by simp
qed

lemma le_nat_bound: "le_nat bs < 256 ^ length bs"
proof (induction bs)
  case (Cons b bs)
  have "ord b + 256 * le_nat bs < 256 + 256 * le_nat bs" using ord_less[of b] by simp
  also have "\<dots> \<le> 256 * 256 ^ length bs" using Cons by (simp add: Suc_leI flip: mult_Suc_right)
  finally show ?case by simp
qed simp

lemma char_le_nat: "char_of (le_nat (b # bs)) = b"
  by (metis char_of_char char_of_mod_256 div_256_step(2) le_nat.simps(2) ord_less)

lemma le_bytes_le_nat:
  assumes "length bs = 4"
  shows "le_bytes (word_of_int (from_le_bytes bs)) = bs"
proof -
  obtain a b c d where bs: "bs = [a, b, c, d]"
    using assms by (auto simp: length_Suc_conv numeral_eq_Suc)
  have "le_nat bs < 4294967296" using le_nat_bound[of bs] by (simp add: assms)
  then have u: "unat (word_of_int (from_le_bytes bs) :: xword) = le_nat bs"
    by (simp add: from_le_bytes_nat unat_of_nat)
  have d1: "le_nat bs div 256 = le_nat [b, c, d]" and d2: "le_nat [b, c, d] div 256 = le_nat [c, d]"
    and d3: "le_nat [c, d] div 256 = le_nat [d]"
    unfolding bs le_nat.simps(2) by (simp_all only: div_256_step[OF ord_less])
  have "le_nat bs div 65536 = le_nat [c, d]" "le_nat bs div 16777216 = le_nat [d]"
    using div_mult2_eq[of "le_nat bs" 256 256] div_mult2_eq[of "le_nat bs" 65536 256] d1 d2 d3 by simp_all
  then show ?thesis
    unfolding le_bytes_explicit u by (simp only: d1 char_of_mod_256) (simp only: bs char_le_nat)
qed

lemma word_from_le_bytes: "word_of_int (from_le_bytes (le_bytes w)) = (w :: xword)"
  by (simp add: from_le_bytes_nat le_nat_le_bytes)

lemma from_le_bytes_word: "length bs = 4 \<Longrightarrow> from_le_bytes bs = uint (word_of_int (from_le_bytes bs) :: xword)"
  by (metis from_le_bytes_nat le_bytes_le_nat le_nat_le_bytes uint_nat)

lemma from_le_bytes_le_bytes: "from_le_bytes (le_bytes w) = uint w"
  by (simp add: from_le_bytes_nat le_nat_le_bytes)

subsection \<open>A target with registers\<close>

text \<open>
  What the server relies on, of a target in a state \<open>ok\<close>: registers 1 to 31 can be read and written,
  \<open>dpc\<close> can be read, and a write of it stores the value without its low two bits, for the register has
  none (\<open>debug_csrs.py\<close>). Of register 0 nothing is assumed.
\<close>

definition register_api ::
  "('t \<Rightarrow> bool) \<Rightarrow> 't dbg_api \<Rightarrow> ('t \<Rightarrow> nat \<Rightarrow> xword) \<Rightarrow> ('t \<Rightarrow> xword) \<Rightarrow> bool" where
  "register_api ok api gpr pc \<longleftrightarrow>
     (\<forall>t r. ok t \<and> r \<in> {1..<32} \<longrightarrow>
        (\<exists>t'. api_read_gpr api r t = Inr (gpr t r, t') \<and> ok t' \<and> gpr t' = gpr t \<and> pc t' = pc t)) \<and>
     (\<forall>t r v. ok t \<and> r \<in> {1..<32} \<longrightarrow>
        (\<exists>t'. api_write_reg api (int r + 0x1000) (uint v) t = Inr t' \<and> ok t' \<and>
           gpr t' = (gpr t)(r := v) \<and> pc t' = pc t)) \<and>
     (\<forall>t. ok t \<longrightarrow>
        (\<exists>t'. api_read_csr api csr_dpc t = Inr (pc t, t') \<and> ok t' \<and> gpr t' = gpr t \<and> pc t' = pc t)) \<and>
     (\<forall>t v. ok t \<longrightarrow>
        (\<exists>t'. api_write_csr api csr_dpc (uint v) t = Inr t' \<and> ok t' \<and> gpr t' = gpr t \<and> pc t' = and v (not 3)))"

lemma read_registers:
  assumes "register_api ok api gpr pc"
  shows "ok t \<Longrightarrow> set rs \<subseteq> {1..<32} \<Longrightarrow>
    \<exists>t'. read_all (api_read_gpr api) rs t = Inr (map (gpr t) rs, t') \<and> ok t' \<and> gpr t' = gpr t \<and> pc t' = pc t"
proof (induction rs arbitrary: t)
  case (Cons r rs)
  have r: "r \<in> {1..<32}" "set rs \<subseteq> {1..<32}" using Cons.prems(2) by simp_all
  obtain t1 where "api_read_gpr api r t = Inr (gpr t r, t1)" "ok t1" "gpr t1 = gpr t" "pc t1 = pc t"
    using assms Cons.prems(1) r(1) unfolding register_api_def by blast
  with Cons.IH[of t1] r(2) show ?case by auto
qed simp

lemma write_registers:
  assumes "register_api ok api gpr pc"
  shows "ok t \<Longrightarrow> set rs \<subseteq> {1..<32} \<Longrightarrow>
    \<exists>t'. write_all (\<lambda>i. api_write_reg api (int i + 0x1000) (uint (f i))) rs t = Inr t' \<and> ok t' \<and> pc t' = pc t \<and>
      gpr t' = (\<lambda>r. if r \<in> set rs then f r else gpr t r)"
proof (induction rs arbitrary: t)
  case (Cons r rs)
  have r: "r \<in> {1..<32}" "set rs \<subseteq> {1..<32}" using Cons.prems(2) by simp_all
  obtain t1 where t1: "api_write_reg api (int r + 0x1000) (uint (f r)) t = Inr t1" "ok t1"
    "gpr t1 = (gpr t)(r := f r)" "pc t1 = pc t"
    using assms Cons.prems(1) r(1) unfolding register_api_def by blast
  obtain t2 where "write_all (\<lambda>i. api_write_reg api (int i + 0x1000) (uint (f i))) rs t1 = Inr t2" "ok t2"
    "pc t2 = pc t1" "gpr t2 = (\<lambda>r. if r \<in> set rs then f r else gpr t1 r)" using Cons.IH[OF t1(2) r(2)] by blast
  with t1 show ?case by (intro exI[of _ t2]) (auto simp: fun_eq_iff)
qed simp

lemma write_all_cong: "(\<And>a t. a \<in> set as \<Longrightarrow> f a t = g a t) \<Longrightarrow> write_all f as t = write_all g as t"
  by (induction "as" arbitrary: t) (simp_all add: bindr_def split: sum.split)

text \<open>The text of registers, as \<open>g\<close> sends it.\<close>

definition reg_text :: "xword list \<Rightarrow> string" where
  "reg_text ws = concat (map (\<lambda>w. hex_bytes (le_bytes w)) ws)"

lemma reg_text_Cons: "reg_text (w # ws) = hex_bytes (le_bytes w) @ reg_text ws"
  by (simp add: reg_text_def)

lemma reg_text_field: "i < length ws \<Longrightarrow> take 8 (drop (i * 8) (reg_text ws)) = hex_bytes (le_bytes (ws ! i))"
proof (induction ws arbitrary: i)
  case (Cons w ws)
  have l: "length (hex_bytes (le_bytes w)) = 8" by (simp add: hex_bytes_length)
  show ?case
  proof (cases i)
    case 0
    then show ?thesis by (simp add: reg_text_Cons l)
  next
    case (Suc j)
    then have "take 8 (drop (i * 8) (reg_text (w # ws))) = take 8 (drop (j * 8) (reg_text ws))"
      by (simp add: reg_text_Cons l)
    then show ?thesis using Cons.IH[of j] Cons.prems Suc by simp
  qed
qed simp

lemma reg_text_length: "length (reg_text ws) = 8 * length ws"
  by (induction ws) (simp_all add: reg_text_Cons hex_bytes_length reg_text_def[of "[]"])

lemma those_Some: "those (map (\<lambda>x. Some (f x)) xs) = Some (map f xs)"
  by (induction xs) simp_all

lemma handle_G_writes:
  assumes api: "register_api ok api gpr pc" and ok: "ok (rp_target s)" and l: "length ws = 33"
  shows "\<exists>t. handle_G api (reg_text ws) s = Inr (send ''OK'' (s\<lparr>rp_resume := None, rp_target := t\<rparr>)) \<and>
    ok t \<and> pc t = and (ws ! 32) (not 3) \<and> gpr t = (\<lambda>r. if r \<in> {1..<32} then ws ! r else gpr (rp_target s) r)"
proof -
  let ?vs = "map from_le_bytes (map (\<lambda>i. le_bytes (ws ! i)) [0..<33])"
  have "map (\<lambda>i. from_hex (take 8 (drop (i * 8) (reg_text ws)))) [0..<33] = map (\<lambda>i. Some (le_bytes (ws ! i))) [0..<33]"
    by (rule map_cong) (simp_all add: reg_text_field l from_hex_bytes)
  then have f: "those (map (\<lambda>i. from_hex (take 8 (drop (i * 8) (reg_text ws)))) [0..<33]) =
      Some (map (\<lambda>i. le_bytes (ws ! i)) [0..<33])" by (simp only: those_Some)
  have v: "?vs ! i = uint (ws ! i)" if "i < 33" for i
    using that by (simp add: from_le_bytes_le_bytes del: upt_conv_Cons)
  have rs: "set [1..<32] \<subseteq> {1..<32 :: nat}" by (simp del: upt_conv_Cons)
  obtain t1 where w1: "write_all (\<lambda>i. api_write_reg api (int i + 0x1000) (uint (ws ! i))) [1..<32] (rp_target s) = Inr t1"
    and t1: "ok t1" "gpr t1 = (\<lambda>r. if r \<in> set [1..<32] then ws ! r else gpr (rp_target s) r)"
    using write_registers[OF api ok rs, of "\<lambda>i. ws ! i"] by blast
  have "write_all (\<lambda>i. api_write_reg api (int i + 0x1000) (?vs ! i)) [1..<32] (rp_target s) = Inr t1"
    unfolding w1[symmetric] by (rule write_all_cong) (simp add: from_le_bytes_le_bytes del: upt_conv_Cons)
  moreover obtain t2 where t2: "api_write_csr api csr_dpc (uint (ws ! 32)) t1 = Inr t2" "ok t2" "gpr t2 = gpr t1"
    "pc t2 = and (ws ! 32) (not 3)"
    using api t1(1) unfolding register_api_def by blast
  moreover have "?vs ! 32 = uint (ws ! 32)" by (rule v) simp
  ultimately have "handle_G api (reg_text ws) s = Inr (send ''OK'' (s\<lparr>rp_resume := None, rp_target := t2\<rparr>))"
    by (simp add: handle_G_def reg_text_length l f Let_def on_target_def del: upt_conv_Cons map_map)
  moreover have "gpr t2 = (\<lambda>r. if r \<in> {1..<32} then ws ! r else gpr (rp_target s) r)"
    using t1(2) t2(3) by (auto simp: fun_eq_iff simp del: upt_conv_Cons)
  ultimately show ?thesis using t2(2,4) by blast
qed

lemma handle_g_reads:
  assumes api: "register_api ok api gpr pc" and ok: "ok (rp_target s)"
  shows "\<exists>t. handle_g api '''' s = Inr (send (reg_text (0 # map (gpr (rp_target s)) [1..<32] @ [pc (rp_target s)])) (s\<lparr>rp_target := t\<rparr>)) \<and>
    gpr t = gpr (rp_target s) \<and> pc t = pc (rp_target s)"
proof -
  have rs: "set [1..<32] \<subseteq> {1..<32 :: nat}" by (simp del: upt_conv_Cons)
  obtain t1 where t1: "read_all (api_read_gpr api) [1..<32] (rp_target s) = Inr (map (gpr (rp_target s)) [1..<32], t1)"
    "ok t1" "gpr t1 = gpr (rp_target s)" "pc t1 = pc (rp_target s)" using read_registers[OF api ok rs] by blast
  obtain t2 where t2: "api_read_csr api csr_dpc t1 = Inr (pc t1, t2)" "gpr t2 = gpr t1" "pc t2 = pc t1"
    using api t1(2) unfolding register_api_def by blast
  show ?thesis
    using t1 t2 by (intro exI[of _ t2]) (simp add: handle_g_def ask_target_def reg_text_def del: upt_conv_Cons)
qed

text \<open>
  C28: Registers come back as they were written. On a target whose registers 1 to 31 can be read and
  written and whose \<open>dpc\<close> keeps all but the low two bits of a value, a \<open>G\<close> packet with the text of any
  33 words is answered with \<open>OK\<close>, and the following \<open>g\<close> packet with the text of the same words, except
  that register 0 reads as zero and the low two bits of the last word, the \<open>dpc\<close>, are clear: both
  packets use the byte order of the target.
\<close>

theorem registers_roundtrip:
  assumes "register_api ok api gpr pc" "ok (rp_target s)" "length rs = 31"
  shows "\<exists>s1 s2. run_cmd n api (client_packet (''G'' @ reg_text (r0 # rs @ [p]))) s = Inr s1 \<and>
    run_cmd n api (client_packet ''g'') s1 = Inr s2 \<and>
    rp_out s2 = rp_out s @ ''+'' @ frame ''OK'' @ ''+'' @ frame (reg_text (0 # rs @ [and p (not 3)]))"
proof -
  let ?ws = "r0 # rs @ [p]"
  have "ok (rp_target (send_raw ''+'' s))" using assms(2) by (simp add: send_raw_def)
  then obtain t where t: "handle_G api (reg_text ?ws) (send_raw ''+'' s) =
      Inr (send ''OK'' ((send_raw ''+'' s)\<lparr>rp_resume := None, rp_target := t\<rparr>))" "ok t"
    "pc t = and p (not 3)" "gpr t = (\<lambda>r. if r \<in> {1..<32} then ?ws ! r else gpr (rp_target (send_raw ''+'' s)) r)"
    using handle_G_writes[OF assms(1), of _ ?ws] assms(3) by (auto simp: nth_append)
  let ?s1 = "(send ''OK'' ((send_raw ''+'' s)\<lparr>rp_resume := None, rp_target := t\<rparr>))\<lparr>rp_ready := True\<rparr>"
  have 1: "run_cmd n api (client_packet (''G'' @ reg_text ?ws)) s = Inr ?s1"
    using t(1) by (simp add: run_cmd_dispatch dispatch_def)
  have g: "map (gpr t) [1..<32] = rs"
    using assms(3) by (intro nth_equalityI) (simp_all add: t(4) nth_append del: upt_conv_Cons)
  have tg: "rp_target (send_raw ''+'' ?s1) = t" by (simp add: send_raw_def send_def)
  have "ok (rp_target (send_raw ''+'' ?s1))" using t(2) by (simp add: tg)
  then obtain t2 where t2: "handle_g api '''' (send_raw ''+'' ?s1) =
      Inr (send (reg_text (0 # rs @ [and p (not 3)])) ((send_raw ''+'' ?s1)\<lparr>rp_target := t2\<rparr>))"
    using handle_g_reads[OF assms(1), of "send_raw ''+'' ?s1"] unfolding tg g t(3) by blast
  have 2: "run_cmd n api (client_packet ''g'') ?s1 =
      Inr ((send (reg_text (0 # rs @ [and p (not 3)])) ((send_raw ''+'' ?s1)\<lparr>rp_target := t2\<rparr>))\<lparr>rp_ready := True\<rparr>)"
    using t2 by (simp add: run_cmd_dispatch dispatch_def)
  show ?thesis by (intro exI conjI, rule 1, rule 2) (simp add: send_def send_raw_def)
qed

lemma plain_register_api: "register_api pt_halted plain_api pt_gpr pt_dpc"
  by (simp add: register_api_def plain_api_def plain_read_csr_def plain_write_csr_def pt_halted_def
      csr_dcsr_def csr_dpc_def nat_add_distrib)

theorem registers_roundtrip_witness:
  "\<exists>s1 s2. run_cmd 5 plain_api (client_packet (''G'' @ reg_text (7 # replicate 31 0x12345678 @ [0x103]))) plain_start = Inr s1 \<and>
    run_cmd 5 plain_api (client_packet ''g'') s1 = Inr s2 \<and>
    rp_out s2 = ''+'' @ frame ''OK'' @ ''+'' @ frame (reg_text (0 # replicate 31 0x12345678 @ [0x100]))"
  using registers_roundtrip[OF plain_register_api plain_start_halted, of "replicate 31 0x12345678" 5 7 "0x103"]
  by (simp add: plain_start_def del: replicate.simps)

subsection \<open>The byte order of P\<close>

lemma hex_bytes_chars: "c \<in> set (hex_bytes bs) \<Longrightarrow> \<exists>l < 16. c = upper_digits ! l"
proof (induction bs)
  case (Cons b bs)
  have d: "ord b div 16 < 16" "ord b mod 16 < 16" using ord_div_16 by simp_all
  have "c = upper_digits ! (ord b div 16) \<or> c = upper_digits ! (ord b mod 16) \<or> c \<in> set (hex_bytes bs)"
    using Cons.prems by (simp add: hex_bytes_simps)
  then show ?case using Cons.IH d by blast
qed (simp add: hex_bytes_simps)

lemma upper_digits_text:
  "list_all (\<lambda>l. \<not> text_space (upper_digits ! l) \<and>
     upper_digits ! l \<notin> {CHR ''-'', CHR ''+'', CHR ''x'', CHR ''X'', CHR ''_'', CHR ''=''}) [0..<16]"
  by code_simp

lemma hex_bytes_text:
  assumes "c \<in> set (hex_bytes bs)"
  shows "\<not> text_space c" "c \<notin> {CHR ''-'', CHR ''+'', CHR ''x'', CHR ''X'', CHR ''_'', CHR ''=''}"
  using hex_bytes_chars[OF assms] upper_digits_text by (auto simp: list_all_iff simp del: upt_conv_Cons)

lemma hex_tail_bytes: "hex_tail a (hex_bytes bs) = Some (foldl (\<lambda>a b. 256 * a + ord b) a bs)"
proof (induction bs arbitrary: a)
  case (Cons b bs)
  have d: "ord b div 16 < 16" "ord b mod 16 < 16" using ord_div_16 by simp_all
  have u: "upper_digits ! (ord b div 16) \<noteq> CHR ''_''" "upper_digits ! (ord b mod 16) \<noteq> CHR ''_''"
    using upper_digits_text d by (auto simp: list_all_iff simp del: upt_conv_Cons)
  have "16 * (16 * a + ord b div 16) + ord b mod 16 = 256 * a + ord b" by simp
  then show ?case
    using Cons.IH upper_digit(1)[OF d(1)] upper_digit(1)[OF d(2)] u by (simp add: hex_bytes_simps add.commute)
qed (simp add: hex_bytes_simps)

lemma foldl_be_nat: "foldl (\<lambda>a b. 256 * a + ord b) 0 bs = le_nat (rev bs)"
  by (induction bs rule: rev_induct) simp_all

lemma hex_bytes_int:
  assumes "bs \<noteq> []"
  shows "int16 (hex_bytes bs) = Inr (from_le_bytes (rev bs))"
proof -
  obtain c cs where c: "hex_bytes bs = c # cs" using assms by (cases bs) (simp_all add: hex_bytes_simps)
  then have s: "c \<noteq> CHR ''-''" "c \<noteq> CHR ''+''" "c \<noteq> CHR ''_''" using hex_bytes_text(2)[of c bs] by auto
  have "CHR ''x'' \<notin> set (hex_bytes bs)" "CHR ''X'' \<notin> set (hex_bytes bs)" using hex_bytes_text(2) by blast+
  then have "CHR ''x'' \<notin> set (take 2 (hex_bytes bs))" "CHR ''X'' \<notin> set (take 2 (hex_bytes bs))"
    by (blast dest: in_set_takeD)+
  then have p: "take 2 (hex_bytes bs) \<noteq> ''0x''" "take 2 (hex_bytes bs) \<noteq> ''0X''" by force+
  have "hex_nat (hex_bytes bs) = hex_tail 0 (hex_bytes bs)"
    using s(3) by (simp add: hex_nat_def c split: option.split)
  then have "hex_prefixed (hex_bytes bs) = Some (le_nat (rev bs))"
    using p by (simp add: hex_prefixed_def hex_tail_bytes foldl_be_nat)
  moreover have "strip text_space (hex_bytes bs) = hex_bytes bs" using hex_bytes_text(1) by (intro strip_none) blast
  ultimately show ?thesis using s by (simp add: int16_def py_int_def c from_le_bytes_nat)
qed

text \<open>
  \<open>P\<close> takes its value in the wrong byte order. A client sends the value of a register in the byte order of the
  target, as in \<open>G\<close>; \<open>handle_P\<close> reads the digits as one number. After a \<open>P\<close> packet with the value \<open>v\<close> for a
  register other than 0 the register holds the bytes of \<open>v\<close> in reverse.
\<close>

theorem P_reverses_bytes:
  assumes "register_api ok api gpr pc" "ok (rp_target s)" "r \<in> {1..<32}"
  shows "\<exists>s'. run_cmd n api (client_packet (''P'' @ hex_num r @ ''='' @ hex_bytes (le_bytes v))) s = Inr s' \<and>
    rp_out s' = rp_out s @ ''+'' @ frame ''OK'' \<and> le_bytes (gpr (rp_target s') r) = rev (le_bytes v)"
proof -
  have "CHR ''='' \<notin> set (hex_num r)" by (rule hex_num_not) simp
  moreover have "CHR ''='' \<notin> set (hex_bytes (le_bytes v))" using hex_bytes_text(2) by blast
  ultimately have u: "unpack2 (split_at (CHR ''='') (hex_num r @ ''='' @ hex_bytes (le_bytes v))) = Inr (hex_num r, hex_bytes (le_bytes v))"
    by (simp add: split_one split_none unpack2_def)
  have "le_bytes v \<noteq> []" by (simp add: le_bytes_def)
  note i = hex_bytes_int[OF this]
  let ?w = "word_of_int (from_le_bytes (rev (le_bytes v))) :: xword"
  have w: "from_le_bytes (rev (le_bytes v)) = uint ?w" by (rule from_le_bytes_word) simp
  obtain t where t: "api_write_reg api (int r + 0x1000) (uint ?w) (rp_target s) = Inr t"
    "gpr t = (gpr (rp_target s))(r := ?w)"
    using assms unfolding register_api_def by blast
  have "handle_P api (hex_num r @ ''='' @ hex_bytes (le_bytes v)) (send_raw ''+'' s) =
      Inr (send ''OK'' ((send_raw ''+'' s)\<lparr>rp_target := t\<rparr>))"
    using assms(3) t(1)[folded w] u by (simp add: handle_P_def hex_num_int i on_target_def send_raw_def)
  then have "run_cmd n api (client_packet (''P'' @ hex_num r @ ''='' @ hex_bytes (le_bytes v))) s =
      Inr ((send ''OK'' ((send_raw ''+'' s)\<lparr>rp_target := t\<rparr>))\<lparr>rp_ready := True\<rparr>)"
    by (simp add: run_cmd_dispatch dispatch_def)
  moreover have "le_bytes (gpr t r) = rev (le_bytes v)" by (simp add: t(2) le_bytes_le_nat)
  ultimately show ?thesis by (simp add: send_def send_raw_def)
qed

theorem P_reverses_bytes_witness:
  "\<exists>s'. run_cmd 5 plain_api (client_packet (''P'' @ hex_num 10 @ ''='' @ hex_bytes (le_bytes 1))) plain_start = Inr s' \<and>
    le_bytes (pt_gpr (rp_target s') 10) = rev (le_bytes 1)"
  using P_reverses_bytes[OF plain_register_api plain_start_halted, of 10 5 1] by auto

end
