(* ===== verification/Gdb_Breakpoints.thy ===== *)
theory Gdb_Breakpoints
  imports Gdb_Memory
begin

text \<open>
  The software breakpoints of the GDB server: \<open>Z0\<close> keeps the bytes it replaces, \<open>z0\<close> puts them back.
  As long as no two of them overlap they are invisible in the memory behind them; overlapping
  ones are not.
\<close>

definition covers :: "int \<times> string \<Rightarrow> int \<Rightarrow> bool" where
  "covers b x \<longleftrightarrow> fst b \<le> x \<and> x < fst b + int (length (snd b))"

text \<open>The memory as it is without the breakpoints.\<close>

definition user_memory :: "(int \<times> string) list \<Rightarrow> (int \<Rightarrow> char) \<Rightarrow> int \<Rightarrow> char" where
  "user_memory bps m x = (case find (\<lambda>b. covers b x) bps of None \<Rightarrow> m x | Some b \<Rightarrow> snd b ! nat (x - fst b))"

definition away :: "int \<Rightarrow> nat \<Rightarrow> int \<Rightarrow> nat \<Rightarrow> bool" where
  "away a n b k \<longleftrightarrow> a + int n \<le> b \<or> b + int k \<le> a"

fun bps_ok :: "(int \<times> string) list \<Rightarrow> bool" where
  "bps_ok [] \<longleftrightarrow> True"
| "bps_ok ((a, ob) # bs) \<longleftrightarrow> a \<notin> fst ` set bs \<and> (\<forall>(b, p) \<in> set bs. away a (length ob) b (length p)) \<and> bps_ok bs"

lemma away_covers: "away a (length ob) b (length p) \<Longrightarrow> covers (a, ob) x \<Longrightarrow> \<not> covers (b, p) x"
  by (auto simp: away_def covers_def)

lemma user_memory_free: "(\<And>b. b \<in> set bps \<Longrightarrow> \<not> covers b x) \<Longrightarrow> user_memory bps m x = m x"
  by (simp add: user_memory_def find_None_iff split: option.split) (metis find_Some_iff nth_mem option.distinct(1))

lemma user_memory_covered:
  "bps_ok bps \<Longrightarrow> (a, ob) \<in> set bps \<Longrightarrow> covers (a, ob) x \<Longrightarrow> user_memory bps m x = ob ! nat (x - a)"
proof (induction bps rule: bps_ok.induct)
  case (2 b p bs)
  show ?case
  proof (cases "(a, ob) = (b, p)")
    case True
    then show ?thesis using "2.prems"(3) by (simp add: user_memory_def)
  next
    case False
    then have i: "(a, ob) \<in> set bs" using "2.prems"(2) by auto
    then have "away b (length p) a (length ob)" using "2.prems"(1) by auto
    then have "\<not> covers (b, p) x" using away_covers "2.prems"(3) by blast
    then have "user_memory ((b, p) # bs) m x = user_memory bs m x" by (simp add: user_memory_def)
    then show ?thesis using 2 i by simp
  qed
qed simp

lemma bps_ok_append:
  "bps_ok (bps @ [(a, ob)]) \<longleftrightarrow> bps_ok bps \<and> a \<notin> fst ` set bps \<and> (\<forall>(b, p) \<in> set bps. away b (length p) a (length ob))"
  by (induction bps rule: bps_ok.induct) auto

lemma bps_ok_filter: "bps_ok bps \<Longrightarrow> bps_ok (filter P bps)"
  by (induction bps rule: bps_ok.induct) auto

lemma update_new: "a \<notin> fst ` set bps \<Longrightarrow> AList.update a ob bps = bps @ [(a, ob)]"
  by (induction bps) auto

lemma bps_ok_key: "bps_ok bps \<Longrightarrow> (a, ob) \<in> set bps \<Longrightarrow> map_of bps a = Some ob"
  by (induction bps rule: bps_ok.induct) (auto simp: rev_image_eqI)

lemma user_memory_insert:
  assumes ok: "bps_ok bps" and new: "\<And>b p. (b, p) \<in> set bps \<Longrightarrow> away b (length p) a n" "a \<notin> fst ` set bps"
    and m': "\<And>x. \<not> (a \<le> x \<and> x < a + int n) \<Longrightarrow> m' x = m x"
  shows "user_memory (bps @ [(a, loaded a n m)]) m' = user_memory bps m"
proof
  fix x
  have ok': "bps_ok (bps @ [(a, loaded a n m)])"
    using ok new by (auto simp: bps_ok_append loaded_def)
  show "user_memory (bps @ [(a, loaded a n m)]) m' x = user_memory bps m x"
  proof (cases "a \<le> x \<and> x < a + int n")
    case True
    then have c: "covers (a, loaded a n m) x" by (simp add: covers_def loaded_def)
    have "\<not> covers b x" if "b \<in> set bps" for b
    proof (cases b)
      case (Pair b' p)
      then show ?thesis using new(1)[of b' p] that True by (auto simp: covers_def away_def)
    qed
    then have "user_memory bps m x = m x" by (rule user_memory_free)
    moreover have "user_memory (bps @ [(a, loaded a n m)]) m' x = loaded a n m ! nat (x - a)"
      using user_memory_covered[OF ok' _ c] by simp
    moreover have "loaded a n m ! nat (x - a) = m x" using True by (auto simp: loaded_def)
    ultimately show ?thesis by simp
  next
    case False
    then have "\<not> covers (a, loaded a n m) x" by (simp add: covers_def loaded_def)
    then have "find (\<lambda>b. covers b x) (bps @ [(a, loaded a n m)]) = find (\<lambda>b. covers b x) bps"
      by (induction bps) simp_all
    then show ?thesis using m'[OF False] by (simp add: user_memory_def split: option.split)
  qed
qed

lemma user_memory_remove:
  assumes ok: "bps_ok bps" and b: "map_of bps a = Some ob"
  shows "user_memory (AList.delete a bps) (stored a ob m) = user_memory bps m"
proof
  fix x
  have i: "(a, ob) \<in> set bps" using b by (rule map_of_SomeD)
  have ok': "bps_ok (AList.delete a bps)" using ok by (simp add: AList.delete_eq bps_ok_filter)
  show "user_memory (AList.delete a bps) (stored a ob m) x = user_memory bps m x"
  proof (cases "\<exists>b \<in> set (AList.delete a bps). covers b x")
    case True
    then obtain b p where p: "(b, p) \<in> set (AList.delete a bps)" "covers (b, p) x" by auto
    then have "(b, p) \<in> set bps" by (auto simp: AList.delete_eq)
    then show ?thesis using user_memory_covered[OF ok' p] user_memory_covered[OF ok _ p(2)] by simp
  next
    case False
    then have f: "user_memory (AList.delete a bps) (stored a ob m) x = stored a ob m x"
      by (intro user_memory_free) blast
    show ?thesis
    proof (cases "covers (a, ob) x")
      case True
      then show ?thesis using f user_memory_covered[OF ok i True] by (simp add: stored_def covers_def)
    next
      case nc: False
      have "\<not> covers b x" if "b \<in> set bps" for b
      proof (cases "fst b = a")
        case True
        then have "b = (a, ob)" using bps_ok_key[OF ok, of "fst b" "snd b"] that b by (cases b) simp
        then show ?thesis using nc by simp
      next
        case other: False
        then have "b \<in> set (AList.delete a bps)" using that by (auto simp: AList.delete_eq)
        then show ?thesis using False by blast
      qed
      then have "user_memory bps m x = m x" by (rule user_memory_free)
      then show ?thesis using f nc by (auto simp: stored_def covers_def)
    qed
  qed
qed

subsection \<open>The commands\<close>

datatype bp_cmd = Insert nat nat | Remove nat nat

fun bp_text :: "bp_cmd \<Rightarrow> string" where
  "bp_text (Insert a n) = ''Z0,'' @ range_text a n"
| "bp_text (Remove a n) = ''z0,'' @ range_text a n"

lemma bp_fields_text: "bp_fields (''0,'' @ range_text a n) = Some (''0'', int a, int n)"
proof -
  have "split_at (CHR '','') (''0,'' @ range_text a n) = [''0'', hex_num a, hex_num n]"
    using split_one[of "CHR '',''" "''0''"] by (simp add: range_text_def split_one split_none comma_colon)
  moreover have "py_int text_space (hex_num k) = Some (int k)" for k
    using hex_num_int[of k] by (simp add: int16_def split: option.splits)
  ultimately show ?thesis by (simp add: bp_fields_def)
qed

lemmas bp_fields_norm = bp_fields_text bp_fields_text[simplified]

text \<open>The target is in order, the breakpoints lie in its memory, and behind them is the memory \<open>m\<close>.\<close>

definition bp_range :: "int \<times> string \<Rightarrow> int set" where
  "bp_range b = {fst b..<fst b + int (length (snd b))}"

definition bp_state ::
  "('t \<Rightarrow> bool) \<Rightarrow> int set \<Rightarrow> ('t \<Rightarrow> int \<Rightarrow> char) \<Rightarrow> (int \<Rightarrow> char) \<Rightarrow> 't rsp \<Rightarrow> bool" where
  "bp_state ok A mem m s \<longleftrightarrow> ok (rp_target s) \<and> (\<forall>b \<in> set (rp_breakpoints s). bp_range b \<subseteq> A) \<and>
     bps_ok (rp_breakpoints s) \<and> user_memory (rp_breakpoints s) (mem (rp_target s)) = m"

definition same_frame :: "'t rsp \<Rightarrow> 't rsp \<Rightarrow> bool" where
  "same_frame s s' \<longleftrightarrow> rp_memory_size s' = rp_memory_size s"

lemma update_dcsr_memory:
  assumes "memory_api ok A api mem" "ok t"
  shows "\<exists>t'. update_dcsr api e b t = Inr t' \<and> ok t' \<and> mem t' = mem t"
proof -
  obtain v t1 where 1: "api_read_csr api csr_dcsr t = Inr (v, t1)" "ok t1" "mem t1 = mem t"
    using assms unfolding memory_api_def by blast
  define w where "w = (let v1 = (case e of None \<Rightarrow> v
                 | Some b \<Rightarrow> if b then or v (push_bit 15 1) else and v (not (push_bit 15 1)))
       in (case b of None \<Rightarrow> v1 | Some b \<Rightarrow> if b then or v1 (push_bit 2 1) else and v1 (not (push_bit 2 1))))"
  obtain t2 where "api_write_csr api csr_dcsr (uint w) t1 = Inr t2" "ok t2" "mem t2 = mem t1"
    using assms(1) 1(2) unfolding memory_api_def by blast
  then show ?thesis using 1 by (intro exI[of _ t2]) (simp add: update_dcsr_def Let_def w_def)
qed

text \<open>A fresh breakpoint and the removal of one, whatever the others are.\<close>

lemma handle_Z_fresh:
  assumes api: "memory_api ok A api mem" and t: "ok (rp_target s)" and f: "fits A s a n"
    and new: "int a \<notin> fst ` set (rp_breakpoints s)"
  shows "\<exists>t. handle_Z api (''0,'' @ range_text a n) s = Inr (send ''OK''
      (s\<lparr>rp_breakpoints := rp_breakpoints s @ [(int a, loaded (int a) n (mem (rp_target s)))], rp_target := t\<rparr>)) \<and>
    ok t \<and> mem t = stored (int a) (take n ebreak_bytes) (mem (rp_target s))"
proof -
  let ?bps = "rp_breakpoints s" and ?m = "mem (rp_target s)"
  obtain t1 where t1: "read_all (api_read_byte api) [int a..int a + int n - 1] (rp_target s) =
      Inr (map (\<lambda>a. of_nat (ord (?m a))) [int a..int a + int n - 1], t1)" "ok t1" "mem t1 = ?m"
    using read_memory[OF api t fits_range(2)[OF f]] by blast
  have b: "char_of (unat (take_bit 8 (of_nat (ord c) :: xword))) = c" for c
  proof -
    have "ord c < 4294967296" using ord_less[of c] by linarith
    moreover have "take_bit 8 (ord c) = ord c" using ord_less[of c] by (simp add: take_bit_nat_eq_self)
    ultimately show ?thesis by (simp add: unsigned_take_bit_eq unat_of_nat)
  qed
  have original: "map (\<lambda>b. char_of (unat (take_bit 8 b))) (map (\<lambda>a. of_nat (ord (?m a)) :: xword) [int a..int a + int n - 1]) =
      loaded (int a) n ?m"
    by (simp add: comp_def b loaded_def interval_map)
  have "{int a..<int a + int (length (take n ebreak_bytes))} \<subseteq> {int a..<int a + int n}" by auto
  then have "{int a..<int a + int (length (take n ebreak_bytes))} \<subseteq> A" using fits_range(1)[OF f] by blast
  from write_memory[OF api t1(2) this] obtain t2 where
    t2: "write_memory_bytes api (int a) (take n ebreak_bytes) t1 = Inr t2" "ok t2"
    "mem t2 = stored (int a) (take n ebreak_bytes) ?m"
    using t1(3) by auto
  then show ?thesis
    using new memory_range_fits[OF f] t1(1) original
    by (intro exI[of _ t2])
      (simp add: handle_Z_def bp_fields_norm ask_target_def on_target_def update_new Let_def)
qed

lemma handle_z_effect:
  assumes api: "memory_api ok A api mem" and t: "ok (rp_target s)" and f: "fits A s a n"
    and r: "\<forall>b \<in> set (rp_breakpoints s). bp_range b \<subseteq> A"
  shows "\<exists>t. handle_z api (''0,'' @ range_text a n) s =
      Inr (send ''OK'' (s\<lparr>rp_breakpoints := AList.delete (int a) (rp_breakpoints s), rp_target := t\<rparr>)) \<and>
    ok t \<and> mem t = (case map_of (rp_breakpoints s) (int a) of None \<Rightarrow> mem (rp_target s)
      | Some ob \<Rightarrow> stored (int a) ob (mem (rp_target s)))"
proof -
  let ?bps = "rp_breakpoints s" and ?del = "AList.delete (int a) (rp_breakpoints s)"
  have "\<exists>t. (case map_of ?bps (int a) of None \<Rightarrow> Inr (s\<lparr>rp_breakpoints := ?del\<rparr>)
      | Some original \<Rightarrow> on_target (write_memory_bytes api (int a) original) (s\<lparr>rp_breakpoints := ?del\<rparr>)) =
      Inr (s\<lparr>rp_breakpoints := ?del, rp_target := t\<rparr>) \<and> ok t \<and>
      mem t = (case map_of ?bps (int a) of None \<Rightarrow> mem (rp_target s) | Some ob \<Rightarrow> stored (int a) ob (mem (rp_target s)))"
  proof (cases "map_of ?bps (int a)")
    case None
    then show ?thesis using t by (intro exI[of _ "rp_target s"]) simp
  next
    case (Some ob)
    have "{int a..<int a + int (length ob)} \<subseteq> A" using bspec[OF r map_of_SomeD[OF Some]] by (simp add: bp_range_def)
    then obtain t where "write_memory_bytes api (int a) ob (rp_target s) = Inr t" "ok t"
      "mem t = stored (int a) ob (mem (rp_target s))"
      using write_memory[OF api t] by blast
    then show ?thesis using Some by (intro exI[of _ t]) (simp add: on_target_def)
  qed
  then obtain t where t: "(case map_of ?bps (int a) of None \<Rightarrow> Inr (s\<lparr>rp_breakpoints := ?del\<rparr>)
      | Some original \<Rightarrow> on_target (write_memory_bytes api (int a) original) (s\<lparr>rp_breakpoints := ?del\<rparr>)) =
      Inr (s\<lparr>rp_breakpoints := ?del, rp_target := t\<rparr>)" "ok t"
    "mem t = (case map_of ?bps (int a) of None \<Rightarrow> mem (rp_target s) | Some ob \<Rightarrow> stored (int a) ob (mem (rp_target s)))"
    by blast
  obtain t' where t': "update_dcsr api (Some False) None t = Inr t'" "ok t'" "mem t' = mem t"
    using update_dcsr_memory[OF api t(2)] by blast
  show ?thesis
  proof (cases "?del = []")
    case True
    then have "handle_z api (''0,'' @ range_text a n) s = Inr (send ''OK'' (s\<lparr>rp_breakpoints := ?del, rp_target := t'\<rparr>))"
      using memory_range_fits[OF f] t(1)[unfolded True] t'(1) by (simp add: handle_z_def bp_fields_norm on_target_def Let_def)
    then show ?thesis using t(3) t'(2,3) by (intro exI[of _ t']) simp
  next
    case False
    then have "handle_z api (''0,'' @ range_text a n) s = Inr (send ''OK'' (s\<lparr>rp_breakpoints := ?del, rp_target := t\<rparr>))"
      using memory_range_fits[OF f] t(1) by (simp add: handle_z_def bp_fields_norm on_target_def Let_def)
    then show ?thesis using t(2,3) by (intro exI[of _ t]) simp
  qed
qed

lemma send_fields [simp]: "rp_breakpoints (send m s) = rp_breakpoints s" "rp_target (send m s) = rp_target s"
  "rp_memory_size (send m s) = rp_memory_size s"
  "rp_breakpoints (send_raw m s) = rp_breakpoints s" "rp_target (send_raw m s) = rp_target s"
  "rp_memory_size (send_raw m s) = rp_memory_size s"
  by (simp_all add: send_def send_raw_def)

lemma handle_Z_inserts:
  assumes api: "memory_api ok A api mem" and s: "bp_state ok A mem m s" "fits A s a n"
    and new: "\<And>b p. int a \<notin> fst ` set (rp_breakpoints s) \<Longrightarrow> (b, p) \<in> set (rp_breakpoints s) \<Longrightarrow>
      away b (length p) (int a) n"
  shows "\<exists>s'. handle_Z api (''0,'' @ range_text a n) s = Inr s' \<and> bp_state ok A mem m s' \<and> same_frame s s' \<and>
    map (\<lambda>(b, p). (b, length p)) (rp_breakpoints s') = (if int a \<in> fst ` set (rp_breakpoints s)
      then map (\<lambda>(b, p). (b, length p)) (rp_breakpoints s) else map (\<lambda>(b, p). (b, length p)) (rp_breakpoints s) @ [(int a, n)])"
proof (cases "int a \<in> fst ` set (rp_breakpoints s)")
  case True
  then show ?thesis
    using s by (intro exI[of _ "send ''OK'' s"])
      (simp add: handle_Z_def bp_fields_norm memory_range_fits[OF s(2)] bp_state_def same_frame_def)
next
  case False
  let ?bps = "rp_breakpoints s" and ?m = "mem (rp_target s)"
  obtain t where t: "handle_Z api (''0,'' @ range_text a n) s = Inr (send ''OK''
      (s\<lparr>rp_breakpoints := ?bps @ [(int a, loaded (int a) n ?m)], rp_target := t\<rparr>))" "ok t"
    "mem t = stored (int a) (take n ebreak_bytes) ?m"
    using handle_Z_fresh[OF api _ s(2) False] s(1) unfolding bp_state_def by blast
  have "user_memory (?bps @ [(int a, loaded (int a) n ?m)]) (mem t) = user_memory ?bps ?m"
  proof (rule user_memory_insert)
    show "mem t x = ?m x" if "\<not> (int a \<le> x \<and> x < int a + int n)" for x
      using that by (auto simp: t(3) stored_def)
  qed (use s(1) new False in \<open>auto simp: bp_state_def\<close>)
  moreover have "bps_ok (?bps @ [(int a, loaded (int a) n ?m)])"
    using s(1) False new by (auto simp: bps_ok_append bp_state_def loaded_def)
  moreover have "bp_range (int a, loaded (int a) n ?m) \<subseteq> A"
    using fits_range(1)[OF s(2)] by (simp add: bp_range_def loaded_def)
  ultimately show ?thesis
    using t(1,2) s(1) False by (simp add: bp_state_def same_frame_def loaded_def)
qed

lemma handle_z_removes:
  assumes api: "memory_api ok A api mem" and s: "bp_state ok A mem m s" "fits A s a n"
  shows "\<exists>s'. handle_z api (''0,'' @ range_text a n) s = Inr s' \<and> bp_state ok A mem m s' \<and> same_frame s s' \<and>
    rp_breakpoints s' = AList.delete (int a) (rp_breakpoints s)"
proof -
  let ?bps = "rp_breakpoints s" and ?del = "AList.delete (int a) (rp_breakpoints s)"
  obtain t where t: "handle_z api (''0,'' @ range_text a n) s = Inr (send ''OK'' (s\<lparr>rp_breakpoints := ?del, rp_target := t\<rparr>))" "ok t"
    "mem t = (case map_of ?bps (int a) of None \<Rightarrow> mem (rp_target s) | Some ob \<Rightarrow> stored (int a) ob (mem (rp_target s)))"
    using handle_z_effect[OF api _ s(2)] s(1) unfolding bp_state_def by blast
  have ok: "bps_ok ?bps" "user_memory ?bps (mem (rp_target s)) = m" using s(1) by (simp_all add: bp_state_def)
  have "user_memory ?del (mem t) = m"
  proof (cases "map_of ?bps (int a)")
    case None
    then have "?del = ?bps" by (simp add: AList.delete_id map_of_eq_None_iff)
    then show ?thesis using None t(3) ok(2) by simp
  next
    case (Some ob)
    then show ?thesis using t(3) ok(2) user_memory_remove[OF ok(1) Some] by simp
  qed
  moreover have "bps_ok ?del" using ok(1) by (simp add: AList.delete_eq bps_ok_filter)
  moreover have "\<forall>b \<in> set ?del. bp_range b \<subseteq> A" using s(1) by (auto simp: bp_state_def AList.delete_eq)
  ultimately show ?thesis using t(1,2) by (simp add: bp_state_def same_frame_def)
qed

subsection \<open>Sessions\<close>

fun gdb_session :: "nat \<Rightarrow> 't dbg_api \<Rightarrow> string list \<Rightarrow> 't rsp \<Rightarrow> rsp_error + 't rsp" where
  "gdb_session n api [] s = Inr s"
| "gdb_session n api (p # ps) s = bindr (run_cmd n api (client_packet p) s) (gdb_session n api ps)"

text \<open>The breakpoints a client has set, and the commands it may give: a new breakpoint does not
  overlap another.\<close>

fun bp_next :: "bp_cmd \<Rightarrow> (int \<times> nat) list \<Rightarrow> (int \<times> nat) list" where
  "bp_next (Insert a n) set' = (if int a \<in> fst ` set set' then set' else set' @ [(int a, n)])"
| "bp_next (Remove a n) set' = filter (\<lambda>b. fst b \<noteq> int a) set'"

fun bp_may :: "bp_cmd \<Rightarrow> (int \<times> nat) list \<Rightarrow> bool" where
  "bp_may (Insert a n) set' \<longleftrightarrow> int a \<in> fst ` set set' \<or> (\<forall>(b, k) \<in> set set'. away b k (int a) n)"
| "bp_may (Remove a n) set' \<longleftrightarrow> True"

fun bp_allowed :: "bp_cmd list \<Rightarrow> (int \<times> nat) list \<Rightarrow> bool" where
  "bp_allowed [] set' \<longleftrightarrow> True"
| "bp_allowed (c # cs) set' \<longleftrightarrow> bp_may c set' \<and> bp_allowed cs (bp_next c set')"

fun bp_fits :: "int set \<Rightarrow> 't rsp \<Rightarrow> bp_cmd \<Rightarrow> bool" where
  "bp_fits A s (Insert a n) \<longleftrightarrow> fits A s a n"
| "bp_fits A s (Remove a n) \<longleftrightarrow> fits A s a n"

abbreviation bp_set :: "'t rsp \<Rightarrow> (int \<times> nat) list" where
  "bp_set s \<equiv> map (\<lambda>(b, p). (b, length p)) (rp_breakpoints s)"

lemma bp_set_keys: "fst ` set (bp_set s) = fst ` set (rp_breakpoints s)"
  by force

lemma bp_step:
  assumes api: "memory_api ok A api mem" and s: "bp_state ok A mem m s" "bp_fits A s c" "bp_may c (bp_set s)"
  shows "\<exists>s'. run_cmd n api (client_packet (bp_text c)) s = Inr s' \<and> bp_state ok A mem m s' \<and> same_frame s s' \<and>
    bp_set s' = bp_next c (bp_set s)"
proof -
  let ?s = "send_raw ''+'' s"
  have p: "bp_state ok A mem m ?s" "rp_breakpoints ?s = rp_breakpoints s" "same_frame s ?s"
    using s(1) by (simp_all add: bp_state_def send_raw_def same_frame_def)
  show ?thesis
  proof (cases c)
    case (Insert a k)
    have f: "fits A ?s a k" using s(2) Insert by (simp add: fits_def send_raw_def)
    have new: "away b (length q) (int a) k" if "int a \<notin> fst ` set (rp_breakpoints ?s)" "(b, q) \<in> set (rp_breakpoints ?s)" for b q
      using s(3) that Insert bp_set_keys[of s] by (force simp: p(2))
    obtain s' where s': "handle_Z api (''0,'' @ range_text a k) ?s = Inr s'" "bp_state ok A mem m s'" "same_frame ?s s'"
      "bp_set s' = (if int a \<in> fst ` set (rp_breakpoints ?s) then bp_set ?s else bp_set ?s @ [(int a, k)])"
      using handle_Z_inserts[OF api p(1) f new] by blast
    have "run_cmd n api (client_packet (bp_text c)) s = Inr (s'\<lparr>rp_ready := True\<rparr>)"
      using s'(1) by (simp add: Insert run_cmd_dispatch dispatch_def)
    then show ?thesis
      using s'(2-4) bp_set_keys[of s] by (simp add: Insert bp_state_def same_frame_def p(2) send_raw_def)
  next
    case (Remove a k)
    have f: "fits A ?s a k" using s(2) Remove by (simp add: fits_def send_raw_def)
    obtain s' where s': "handle_z api (''0,'' @ range_text a k) ?s = Inr s'" "bp_state ok A mem m s'" "same_frame ?s s'"
      "rp_breakpoints s' = AList.delete (int a) (rp_breakpoints ?s)"
      using handle_z_removes[OF api p(1) f] by blast
    have "run_cmd n api (client_packet (bp_text c)) s = Inr (s'\<lparr>rp_ready := True\<rparr>)"
      using s'(1) by (simp add: Remove run_cmd_dispatch dispatch_def)
    moreover have "map (\<lambda>(b, p). (b, length p)) (AList.delete (int a) bps) =
        filter (\<lambda>b. fst b \<noteq> int a) (map (\<lambda>(b, p). (b, length p)) bps)" for bps :: "(int \<times> string) list"
      by (induction bps) auto
    ultimately show ?thesis
      using s'(2-4) by (simp add: Remove bp_state_def same_frame_def p(2) send_raw_def)
  qed
qed

lemma bp_session:
  assumes api: "memory_api ok A api mem"
  shows "bp_state ok A mem m s \<Longrightarrow> list_all (bp_fits A s) cs \<Longrightarrow> bp_allowed cs (bp_set s) \<Longrightarrow>
    \<exists>s'. gdb_session n api (map bp_text cs) s = Inr s' \<and> bp_state ok A mem m s' \<and>
      bp_set s' = fold bp_next cs (bp_set s)"
proof (induction cs arbitrary: s)
  case (Cons c cs)
  obtain s1 where s1: "run_cmd n api (client_packet (bp_text c)) s = Inr s1" "bp_state ok A mem m s1" "same_frame s s1"
    "bp_set s1 = bp_next c (bp_set s)"
    using bp_step[OF api Cons.prems(1)] Cons.prems(2,3) by auto
  have "bp_fits A s1 c' = bp_fits A s c'" for c' using s1(3) by (cases c') (simp_all add: fits_def same_frame_def)
  then have "list_all (bp_fits A s1) cs" using Cons.prems(2) by (simp add: list_all_iff)
  from Cons.IH[OF s1(2) this] Cons.prems(3) s1(1,4) show ?case by auto
qed simp

text \<open>
  C24: Breakpoints leave no trace. On a target whose byte accesses work at the addresses of its memory
  and whose \<open>dcsr\<close> can be read and written, after every session of \<open>Z0\<close> and
  \<open>z0\<close> packets inside that memory in which no breakpoint overlaps another, of any lengths and in any order of
  removal, the memory with the kept bytes in place of the breakpoints is the memory of the
  start; the server holds exactly the breakpoints the client believes to be set, and once the last is
  removed the target's memory itself is as it was.
\<close>

theorem breakpoints_transparent:
  assumes "memory_api ok A api mem" "ok (rp_target s)" "rp_breakpoints s = []" "list_all (bp_fits A s) cs"
    "bp_allowed cs []"
  shows "\<exists>s'. gdb_session n api (map bp_text cs) s = Inr s' \<and>
    user_memory (rp_breakpoints s') (mem (rp_target s')) = mem (rp_target s) \<and>
    map (\<lambda>(b, p). (b, length p)) (rp_breakpoints s') = fold bp_next cs [] \<and>
    (fold bp_next cs [] = [] \<longrightarrow> mem (rp_target s') = mem (rp_target s))"
proof -
  have "bp_state ok A mem (mem (rp_target s)) s" using assms(2,3) by (simp add: bp_state_def user_memory_def fun_eq_iff)
  from bp_session[OF assms(1) this assms(4), of n] assms(3,5) obtain s' where
    s': "gdb_session n api (map bp_text cs) s = Inr s'" "bp_state ok A mem (mem (rp_target s)) s'"
      "bp_set s' = fold bp_next cs []" by auto
  have "rp_breakpoints s' = [] \<Longrightarrow> mem (rp_target s') = mem (rp_target s)"
    using s'(2) by (simp add: bp_state_def user_memory_def fun_eq_iff)
  moreover have "fold bp_next cs [] = [] \<Longrightarrow> rp_breakpoints s' = []" using s'(3) by simp
  ultimately show ?thesis using s' by (intro exI[of _ s']) (simp add: bp_state_def)
qed

theorem breakpoints_transparent_witness:
  "\<exists>s'. gdb_session 5 plain_api (map bp_text [Insert 0 4, Insert 4 2, Insert 4 2, Remove 0 4, Remove 4 2]) plain_start = Inr s' \<and>
    pt_mem (rp_target s') = pt_mem (rp_target plain_start)"
proof -
  have "rp_breakpoints plain_start = []"
    "list_all (bp_fits {0..<2 ^ 32} plain_start) [Insert 0 4, Insert 4 2, Insert 4 2, Remove 0 4, Remove 4 2]"
    "bp_allowed [Insert 0 4, Insert 4 2, Insert 4 2, Remove 0 4, Remove 4 2] []"
    by (auto simp: plain_start_def fits_def away_def)
  from breakpoints_transparent[OF plain_memory_api plain_start_halted this, of 5] show ?thesis by auto
qed

lemma bp_run_fresh:
  assumes "memory_api ok A api mem" "ok (rp_target s)" "fits A s a n" "int a \<notin> fst ` set (rp_breakpoints s)"
  shows "\<exists>s'. run_cmd k api (client_packet (bp_text (Insert a n))) s = Inr s' \<and>
    rp_breakpoints s' = rp_breakpoints s @ [(int a, loaded (int a) n (mem (rp_target s)))] \<and>
    ok (rp_target s') \<and> mem (rp_target s') = stored (int a) (take n ebreak_bytes) (mem (rp_target s)) \<and>
    rp_memory_size s' = rp_memory_size s"
  using handle_Z_fresh[OF assms(1), of "send_raw ''+'' s" a n] assms(2-4)
  by (auto simp: run_cmd_dispatch dispatch_def fits_def)

lemma bp_run_remove:
  assumes "memory_api ok A api mem" "ok (rp_target s)" "fits A s a n"
    "\<forall>b \<in> set (rp_breakpoints s). bp_range b \<subseteq> A"
  shows "\<exists>s'. run_cmd k api (client_packet (bp_text (Remove a n))) s = Inr s' \<and>
    rp_breakpoints s' = AList.delete (int a) (rp_breakpoints s) \<and>
    ok (rp_target s') \<and> mem (rp_target s') = (case map_of (rp_breakpoints s) (int a) of None \<Rightarrow> mem (rp_target s)
      | Some ob \<Rightarrow> stored (int a) ob (mem (rp_target s))) \<and> rp_memory_size s' = rp_memory_size s"
  using handle_z_effect[OF assms(1), of "send_raw ''+'' s" a n] assms(2-4)
  by (auto simp: run_cmd_dispatch dispatch_def fits_def cong: option.case_cong)

text \<open>
  C33: Overlapping breakpoints corrupt the memory. Two breakpoints of four bytes, the second two bytes
  behind the first, removed in the order they were set: every packet is answered, no breakpoint is
  left, but the second put back two bytes of the \<open>ebreak\<close> of the first, which stay in the memory.
\<close>

theorem overlapping_breakpoints_corrupt:
  assumes "memory_api ok A api mem" "ok (rp_target s)" "rp_breakpoints s = []" "fits A s a 6"
  shows "\<exists>s'. gdb_session n api (map bp_text [Insert a 4, Insert (a + 2) 4, Remove a 4, Remove (a + 2) 4]) s = Inr s' \<and>
    rp_breakpoints s' = [] \<and>
    mem (rp_target s') = (mem (rp_target s))(int a + 2 := char_of (0x10 :: nat), int a + 3 := char_of (0 :: nat))"
proof -
  let ?m = "mem (rp_target s)"
  let ?o1 = "loaded (int a) 4 ?m" and ?m1 = "stored (int a) ebreak_bytes ?m"
  let ?o2 = "loaded (int a + 2) 4 ?m1" and ?m2 = "stored (int a + 2) ebreak_bytes ?m1"
  have len: "length ebreak_bytes = 4" by (simp add: ebreak_bytes_def le_bytes_def)
  have e: "ebreak_bytes ! 2 = char_of (0x10 :: nat)" "ebreak_bytes ! 3 = char_of (0 :: nat)" by (code_simp, code_simp)
  have f: "fits A s' a 4" "fits A s' (a + 2) 4" if "rp_memory_size s' = rp_memory_size s" for s' :: "'a rsp"
    using assms(4) that by (auto simp: fits_def split: option.splits)
  have r: "bp_range (int a, ?o1) \<subseteq> A" "bp_range (int a + 2, ?o2) \<subseteq> A"
    using assms(4) by (auto simp: fits_def bp_range_def loaded_def)
  obtain s1 where s1: "run_cmd n api (client_packet (bp_text (Insert a 4))) s = Inr s1"
    "rp_breakpoints s1 = [(int a, ?o1)]" "ok (rp_target s1)" "mem (rp_target s1) = ?m1"
    "rp_memory_size s1 = rp_memory_size s"
    using bp_run_fresh[OF assms(1,2) f(1), of n] assms(3) len by auto
  obtain s2 where s2: "run_cmd n api (client_packet (bp_text (Insert (a + 2) 4))) s1 = Inr s2"
    "rp_breakpoints s2 = [(int a, ?o1), (int a + 2, ?o2)]" "ok (rp_target s2)" "mem (rp_target s2) = ?m2"
    "rp_memory_size s2 = rp_memory_size s"
    using bp_run_fresh[OF assms(1) s1(3) f(2)[OF s1(5)], of n] s1(2-5) len by (auto simp: add.commute)
  obtain s3 where s3: "run_cmd n api (client_packet (bp_text (Remove a 4))) s2 = Inr s3"
    "rp_breakpoints s3 = [(int a + 2, ?o2)]" "ok (rp_target s3)" "mem (rp_target s3) = stored (int a) ?o1 ?m2"
    "rp_memory_size s3 = rp_memory_size s"
    using bp_run_remove[OF assms(1) s2(3) f(1)[OF s2(5)], of n] s2(2-5) r by auto
  obtain s4 where s4: "run_cmd n api (client_packet (bp_text (Remove (a + 2) 4))) s3 = Inr s4"
    "rp_breakpoints s4 = []" "mem (rp_target s4) = stored (int a + 2) ?o2 (stored (int a) ?o1 ?m2)"
    using bp_run_remove[OF assms(1) s3(3) f(2)[OF s3(5)], of n] s3(2-5) r by (auto simp: add.commute)
  have "stored (int a + 2) ?o2 (stored (int a) ?o1 ?m2) = ?m(int a + 2 := char_of (0x10 :: nat), int a + 3 := char_of (0 :: nat))"
  proof
    fix x
    consider "x = int a + 2" | "x = int a + 3" | "x \<noteq> int a + 2" "x \<noteq> int a + 3" by blast
    then show "stored (int a + 2) ?o2 (stored (int a) ?o1 ?m2) x = (?m(int a + 2 := char_of (0x10 :: nat), int a + 3 := char_of (0 :: nat))) x"
    proof cases
      case 3
      then show ?thesis by (auto simp: stored_def loaded_def len)
    qed (simp_all add: stored_def loaded_def len e)
  qed
  then show ?thesis using s1(1) s2(1) s3(1) s4 by auto
qed

theorem overlapping_breakpoints_corrupt_witness:
  "\<exists>s'. gdb_session 5 plain_api (map bp_text [Insert 0 4, Insert (0 + 2) 4, Remove 0 4, Remove (0 + 2) 4])
      plain_start = Inr s' \<and> pt_mem (rp_target s') 2 \<noteq> pt_mem (rp_target plain_start) 2"
proof -
  have "char_of (16 :: nat) \<noteq> CHR ''x''" by code_simp
  moreover have "fits {0..<2 ^ 32} plain_start 0 6" "rp_breakpoints plain_start = []"
    by (auto simp: fits_def plain_start_def)
  ultimately show ?thesis
    using overlapping_breakpoints_corrupt[OF plain_memory_api plain_start_halted, of 0 5]
    by (auto simp: plain_start_def)
qed

end
