(* ===== verification/Gdb_Run.thy ===== *)
theory Gdb_Run
  imports Gdb_Memory
begin

text \<open>
  Running the target: the single step of the GDB server returns when the target stops, and leaves
  the debug CSR as it should be.
\<close>

text \<open>
  What a step relies on, as the hart's debug unit behaves (\<open>hart_debug.py\<close>, \<open>debug_csrs.py\<close>): on a
  halted target in a state \<open>ok\<close>, \<open>dcsr\<close> can be read, and a write stores the step and \<open>ebreakm\<close> bits,
  so a value that differs from the old one in these only is stored as it is. Resumed with the step
  bit set, the target is in a state \<open>stepping\<close>; it stops after at most \<open>k\<close> clocks, of which \<open>left\<close>
  are to come. While it runs the cause field of \<open>dcsr\<close>, bits 8 to 6, may change, and when it is seen
  halted the cause is 4.
\<close>

definition same_but :: "nat set \<Rightarrow> xword \<Rightarrow> xword \<Rightarrow> bool" where
  "same_but B v w \<longleftrightarrow> (\<forall>i. i \<notin> B \<longrightarrow> bit v i = bit w i)"

definition dcsr_cause :: "xword \<Rightarrow> xword" where
  "dcsr_cause v = take_bit 3 (drop_bit 6 v)"

definition step_api ::
  "('t \<Rightarrow> bool) \<Rightarrow> ('t \<Rightarrow> bool) \<Rightarrow> 't dbg_api \<Rightarrow> ('t \<Rightarrow> xword) \<Rightarrow> ('t \<Rightarrow> nat) \<Rightarrow> nat \<Rightarrow> bool" where
  "step_api ok stepping api dcsr left k \<longleftrightarrow>
     (\<forall>t. ok t \<longrightarrow> (\<exists>t'. api_read_csr api csr_dcsr t = Inr (dcsr t, t') \<and> ok t' \<and> dcsr t' = dcsr t)) \<and>
     (\<forall>t v. ok t \<and> same_but {2, 15} v (dcsr t) \<longrightarrow>
        (\<exists>t'. api_write_csr api csr_dcsr (uint v) t = Inr t' \<and> ok t' \<and> dcsr t' = v)) \<and>
     (\<forall>t. ok t \<and> bit (dcsr t) 2 \<longrightarrow>
        (\<exists>t'. api_request_resume api t = Inr t' \<and> stepping t' \<and> left t' \<le> k \<and> same_but {6, 7, 8} (dcsr t') (dcsr t))) \<and>
     (\<forall>t. stepping t \<longrightarrow>
        (\<exists>t'. api_yield_clock api t = Inr t' \<and> stepping t' \<and> left t' = left t - 1 \<and> same_but {6, 7, 8} (dcsr t') (dcsr t))) \<and>
     (\<forall>t. stepping t \<longrightarrow>
        (\<exists>t'. api_check_halted api t = Inr (left t = 0, t') \<and> same_but {6, 7, 8} (dcsr t') (dcsr t) \<and>
           (if left t = 0 then ok t' \<and> dcsr_cause (dcsr t') = 4 else stepping t' \<and> left t' = left t)))"

lemma same_but_trans: "same_but B u v \<Longrightarrow> same_but B v w \<Longrightarrow> same_but B u w"
  by (simp add: same_but_def)

lemma wait_halted_returns:
  assumes "step_api ok stepping api dcsr left k"
  shows "stepping t \<Longrightarrow> left t < n \<Longrightarrow> \<exists>t'. wait_halted api n t = Inr t' \<and> ok t' \<and>
    same_but {6, 7, 8} (dcsr t') (dcsr t) \<and> dcsr_cause (dcsr t') = 4"
proof (induction n arbitrary: t)
  case (Suc n)
  obtain t1 where t1: "api_yield_clock api t = Inr t1" "stepping t1" "left t1 = left t - 1"
    "same_but {6, 7, 8} (dcsr t1) (dcsr t)"
    using assms Suc.prems(1) unfolding step_api_def by blast
  obtain t2 where t2: "api_check_halted api t1 = Inr (left t1 = 0, t2)" "same_but {6, 7, 8} (dcsr t2) (dcsr t1)"
    "if left t1 = 0 then ok t2 \<and> dcsr_cause (dcsr t2) = 4 else stepping t2 \<and> left t2 = left t1"
    using assms t1(2) unfolding step_api_def by blast
  have b: "same_but {6, 7, 8} (dcsr t2) (dcsr t)" using t2(2) t1(4) by (rule same_but_trans)
  show ?case
  proof (cases "left t1 = 0")
    case True
    then show ?thesis using t1(1) t2(1,3) b by simp
  next
    case False
    then have t2': "stepping t2" "left t2 < n" using t1(3) t2(3) Suc.prems(2) by simp_all
    from Suc.IH[OF t2'] obtain t' where "wait_halted api n t2 = Inr t'" "ok t'"
      "same_but {6, 7, 8} (dcsr t') (dcsr t2)" "dcsr_cause (dcsr t') = 4" by blast
    then show ?thesis using t1(1) t2(1) False same_but_trans[OF _ b] by auto
  qed
qed simp

definition set_flag :: "nat \<Rightarrow> bool option \<Rightarrow> xword \<Rightarrow> xword" where
  "set_flag i f v = (case f of None \<Rightarrow> v | Some True \<Rightarrow> or v (push_bit i 1) | Some False \<Rightarrow> and v (not (push_bit i 1)))"

lemma bit_set_flag: "bit (set_flag i f v) j \<longleftrightarrow> (if j = i \<and> i < 32 then (case f of None \<Rightarrow> bit v i | Some b \<Rightarrow> b) else bit v j)"
  by (auto simp: set_flag_def bit_simps split: option.split bool.split dest: bit_imp_le_length)

lemma update_dcsr_value:
  assumes "step_api ok stepping api dcsr left k" "ok t"
  shows "\<exists>t'. update_dcsr api e b t = Inr t' \<and> ok t' \<and> dcsr t' = set_flag 2 b (set_flag 15 e (dcsr t))"
proof -
  let ?v = "set_flag 2 b (set_flag 15 e (dcsr t))"
  obtain t1 where t1: "api_read_csr api csr_dcsr t = Inr (dcsr t, t1)" "ok t1" "dcsr t1 = dcsr t"
    using assms unfolding step_api_def by blast
  have "same_but {2, 15} ?v (dcsr t1)" by (simp add: same_but_def bit_set_flag t1(3))
  then obtain t2 where "api_write_csr api csr_dcsr (uint ?v) t1 = Inr t2" "ok t2" "dcsr t2 = ?v"
    using assms(1) t1(2) unfolding step_api_def by blast
  then show ?thesis
    using t1 by (intro exI[of _ t2]) (auto simp: update_dcsr_def set_flag_def Let_def split: option.split bool.split)
qed

lemma dcsr_cause_4: "dcsr_cause v = 4 \<Longrightarrow> bit v i = (i = 8)" if "i \<in> {6, 7, 8}"
proof -
  assume "dcsr_cause v = 4"
  then have "bit (dcsr_cause v) (i - 6) = bit (4 :: xword) (i - 6)" by simp
  moreover have "bit (dcsr_cause v) (i - 6) = bit v i"
    using that by (auto simp: dcsr_cause_def bit_take_bit_iff bit_drop_bit_eq)
  ultimately show ?thesis using that by (auto simp: bit_numeral_simps)
qed

text \<open>
  C27: A single step returns. On a halted target that, resumed with the step bit set, stops within \<open>k\<close>
  clocks, the \<open>s\<close> packet is answered with the stop reply after at most \<open>k + 1\<close> turns of the polling
  loop. Of \<open>dcsr\<close> the step bit is then clear again, the \<open>ebreakm\<close> bit says whether there are
  breakpoints, the cause field is 4, as the hart's debug unit sets it, and every bit outside these is
  as it was.
\<close>

theorem single_step_returns:
  assumes "step_api ok stepping api dcsr left k" "ok (rp_target s)" "rp_resume s = None" "k < n"
  shows "\<exists>s'. run_cmd n api (client_packet ''s'') s = Inr s' \<and> rp_out s' = rp_out s @ ''+$T05#b9'' \<and>
    (\<forall>i. bit (dcsr (rp_target s')) i = (if i = 2 then False else if i = 15 then rp_breakpoints s \<noteq> []
       else if i \<in> {6, 7, 8} then i = 8 else bit (dcsr (rp_target s)) i))"
proof -
  let ?b = "rp_breakpoints s \<noteq> []"
  obtain t1 where t1: "update_dcsr api (Some ?b) (Some True) (rp_target s) = Inr t1" "ok t1"
    "dcsr t1 = set_flag 2 (Some True) (set_flag 15 (Some ?b) (dcsr (rp_target s)))"
    using update_dcsr_value[OF assms(1,2)] by blast
  have "bit (dcsr t1) 2" by (simp add: t1(3) bit_set_flag)
  then obtain t2 where t2: "api_request_resume api t1 = Inr t2" "stepping t2" "left t2 \<le> k"
    "same_but {6, 7, 8} (dcsr t2) (dcsr t1)"
    using assms(1) t1(2) unfolding step_api_def by blast
  obtain t3 where t3: "wait_halted api n t2 = Inr t3" "ok t3" "same_but {6, 7, 8} (dcsr t3) (dcsr t2)"
    "dcsr_cause (dcsr t3) = 4"
    using wait_halted_returns[OF assms(1) t2(2), of n] t2(3) assms(4) by auto
  obtain t4 where t4: "update_dcsr api None (Some False) t3 = Inr t4"
    "dcsr t4 = set_flag 2 (Some False) (set_flag 15 None (dcsr t3))"
    using update_dcsr_value[OF assms(1) t3(2)] by blast
  have f: "frame (CHR ''T'' # hex2 lower_digits 5) = ''$T05#b9''" by code_simp
  have "run_cmd n api (client_packet ''s'') s =
      Inr ((send (''T'' @ hex2 lower_digits 5) ((send_raw ''+'' s)\<lparr>rp_resume := None, rp_target := t4\<rparr>))\<lparr>rp_ready := True\<rparr>)"
    using t1(1) t2(1) t3(1) t4(1) assms(3)
    by (simp add: run_cmd_dispatch dispatch_def handle_s_def set_resume_pc_def resume_arg_def consume_resume_addr_def
        on_target_def send_raw_def)
  moreover have "bit (dcsr t4) i = (if i = 2 then False else if i = 15 then ?b
      else if i \<in> {6, 7, 8} then i = 8 else bit (dcsr (rp_target s)) i)" for i
  proof (cases "i \<in> {6, 7, 8}")
    case True
    then show ?thesis using dcsr_cause_4[OF True t3(4)] by (auto simp: t4(2) bit_set_flag)
  next
    case False
    then have "bit (dcsr t3) i = bit (dcsr t1) i"
      using same_but_trans[OF t3(3) t2(4)] by (simp add: same_but_def)
    then show ?thesis using False by (auto simp: t4(2) t1(3) bit_set_flag)
  qed
  ultimately show ?thesis by (simp add: send_def send_raw_def f)
qed

definition plain_stepping :: "plain_target \<Rightarrow> bool" where
  "plain_stepping t \<longleftrightarrow> bit (pt_dcsr t) 2 \<and> (pt_left t = None \<longrightarrow> dcsr_cause (pt_dcsr t) = 4)"

definition plain_left :: "plain_target \<Rightarrow> nat" where
  "plain_left t = (case pt_left t of None \<Rightarrow> 0 | Some n \<Rightarrow> max n 1)"

lemma word_bits:
  assumes "list_all (\<lambda>i. bit w i = (i \<in> B)) [0..<32]" "B \<subseteq> {..<32}"
  shows "bit (w :: xword) i = (i \<in> B)"
proof (cases "i < 32")
  case True
  then show ?thesis using assms(1) by (simp add: list_all_iff del: upt_conv_Cons)
next
  case False
  then show ?thesis using assms(2) bit_imp_le_length[of w i] by auto
qed

lemma dcsr_flags_bits: "bit dcsr_flags i = (i \<in> {2, 15})"
  by (rule word_bits) (code_simp, simp)

lemma plain_write_keeps: "same_but {2, 15} v w \<Longrightarrow> or (and w (not dcsr_flags)) (and v dcsr_flags) = v"
  by (rule bit_word_eqI) (auto simp: same_but_def bit_simps dcsr_flags_bits)

lemma cause_bits: "bit (0x1C0 :: xword) i = (i \<in> {6, 7, 8})" "bit (0x100 :: xword) i = (i \<in> {8})"
  "bit (4 :: xword) i = (i \<in> {2})"
  by ((rule word_bits; code_simp | simp)+)

lemma set_field_bit: "bit (or (and w (not m)) v :: xword) i = (bit w i \<and> \<not> bit m i \<or> bit v i)"
  by (auto simp: bit_simps dest: bit_imp_le_length)

lemma plain_cause_bit: "bit (plain_cause w) i = (if i \<in> {6, 7, 8} then i = 8 else bit w i)"
  unfolding plain_cause_def set_field_bit cause_bits by auto

lemma plain_cause_4: "dcsr_cause (plain_cause w) = 4"
proof (rule bit_word_eqI)
  fix i
  show "bit (dcsr_cause (plain_cause w)) i = bit (4 :: xword) i"
    unfolding cause_bits by (auto simp: dcsr_cause_def bit_take_bit_iff bit_drop_bit_eq plain_cause_bit)
qed

lemma plain_step_api: "step_api pt_halted plain_stepping plain_api pt_dcsr plain_left 3"
proof -
  have clock: "plain_stepping t \<Longrightarrow> plain_stepping (plain_clock t) \<and> plain_left (plain_clock t) = plain_left t - 1 \<and>
      same_but {6, 7, 8} (pt_dcsr (plain_clock t)) (pt_dcsr t)" for t
    by (cases "pt_left t")
      (auto simp: plain_stepping_def plain_clock_def plain_left_def same_but_def plain_cause_bit plain_cause_4)
  have halted: "pt_halted t = (plain_left t = 0)" for t
    by (simp add: pt_halted_def plain_left_def split: option.split)
  show ?thesis
    unfolding step_api_def
  proof (intro conjI allI impI)
    fix t v assume "pt_halted t \<and> same_but {2, 15} v (pt_dcsr t)"
    then show "\<exists>t'. api_write_csr plain_api csr_dcsr (uint v) t = Inr t' \<and> pt_halted t' \<and> pt_dcsr t' = v"
      by (simp add: plain_api_def plain_write_csr_def plain_write_keeps pt_halted_def)
  next
    fix t assume "plain_stepping t"
    then show "\<exists>t'. api_yield_clock plain_api t = Inr t' \<and> plain_stepping t' \<and> plain_left t' = plain_left t - 1 \<and>
        same_but {6, 7, 8} (pt_dcsr t') (pt_dcsr t)"
      using clock by (simp add: plain_api_def)
  next
    fix t assume "plain_stepping t"
    then show "\<exists>t'. api_check_halted plain_api t = Inr (plain_left t = 0, t') \<and>
        same_but {6, 7, 8} (pt_dcsr t') (pt_dcsr t) \<and>
        (if plain_left t = 0 then pt_halted t' \<and> dcsr_cause (pt_dcsr t') = 4
         else plain_stepping t' \<and> plain_left t' = plain_left t)"
      by (auto simp: plain_api_def halted same_but_def plain_stepping_def plain_left_def split: option.splits)
  qed (simp_all add: plain_api_def plain_read_csr_def pt_halted_def plain_stepping_def plain_left_def same_but_def)
qed

theorem single_step_returns_witness:
  "\<exists>s'. run_cmd 4 plain_api (client_packet ''s'') plain_start = Inr s' \<and> rp_out s' = ''+$T05#b9'' \<and>
    dcsr_cause (pt_dcsr (rp_target plain_start)) = 3 \<and>
    bit (pt_dcsr (rp_target s')) 8 \<and> \<not> bit (pt_dcsr (rp_target s')) 7 \<and> \<not> bit (pt_dcsr (rp_target s')) 6 \<and>
    \<not> bit (pt_dcsr (rp_target s')) 2 \<and> bit (pt_dcsr (rp_target s')) 30"
proof -
  have "rp_resume plain_start = None" "(3 :: nat) < 4" by (simp_all add: plain_start_def)
  from single_step_returns[OF plain_step_api plain_start_halted this] obtain s' where
    s': "run_cmd 4 plain_api (client_packet ''s'') plain_start = Inr s'" "rp_out s' = rp_out plain_start @ ''+$T05#b9''"
    "\<And>i. bit (pt_dcsr (rp_target s')) i = (if i = 2 then False else if i = 15 then rp_breakpoints plain_start \<noteq> []
       else if i \<in> {6, 7, 8} then i = 8 else bit (pt_dcsr (rp_target plain_start)) i)" by blast
  have "dcsr_cause (pt_dcsr (rp_target plain_start)) = 3" "bit (pt_dcsr (rp_target plain_start)) 30"
    by (simp_all add: dcsr_cause_def plain_start_def bit_numeral_simps take_bit_eq_mask mask_eq_exp_minus_1)
  then show ?thesis
    using s'(1,2) by (intro exI[of _ s']) (simp add: s'(3) plain_start_def)
qed

end
