(* ===== verification/Disassembler.thy ===== *)
theory Disassembler
  imports Decode Python_Values
begin

text \<open>
  The disassembler the debug tools print instructions with (\<open>tb/disassemble.py\<close>): the fields of an
  instruction word as Python integers and its text. The reference is the text of an RV32I
  instruction of \<open>Isa_Spec\<close>; the disassembler prints it for every encoded instruction, and different
  instructions have different texts.
\<close>

subsection \<open>Fields\<close>

definition abi_regnames :: "string list" where
  "abi_regnames =
     [''zero'', ''ra'', ''sp'', ''gp'', ''tp'', ''t0'', ''t1'', ''t2'', ''s0'', ''s1'', ''a0'', ''a1'', ''a2'', ''a3'',
      ''a4'', ''a5'', ''a6'', ''a7'', ''s2'', ''s3'', ''s4'', ''s5'', ''s6'', ''s7'', ''s8'', ''s9'', ''s10'', ''s11'',
      ''t3'', ''t4'', ''t5'', ''t6'']"

text \<open>Every caller passes a number of five bits.\<close>

definition abi_name :: "int \<Rightarrow> string" where
  "abi_name x = abi_regnames ! nat x"

definition sign_extend :: "int \<Rightarrow> nat \<Rightarrow> int" where
  "sign_extend value width =
     (let sign = push_bit (width - 1) 1 in (value AND (sign - 1)) - (value AND sign))"

definition opcode_name :: "int \<Rightarrow> string" where
  "opcode_name opcode =
     (case map_of
       [(uint RV32_LUI, ''RV32_LUI''), (uint RV32_AUIPC, ''RV32_AUIPC''), (uint RV32_JAL, ''RV32_JAL''),
        (uint RV32_JALR, ''RV32_JALR''), (uint RV32_BRANCH, ''RV32_BRANCH''), (uint RV32_LOAD, ''RV32_LOAD''),
        (uint RV32_STORE, ''RV32_STORE''), (uint RV32_IMM, ''RV32_IMM''), (uint RV32_OP, ''RV32_OP''),
        (uint RV32_FENCE, ''RV32_FENCE''), (uint RV32_SYSTEM, ''RV32_SYSTEM'')] opcode of
      None \<Rightarrow> ''UNKNOWN'' | Some n \<Rightarrow> n)"

record instr_fields =
  if_word :: int
  if_opcode7 :: int
  if_opcode :: int
  if_opcode_name :: string
  if_rd :: int
  if_funct3 :: int
  if_rs1 :: int
  if_rs2 :: int
  if_funct7 :: int
  if_funct12 :: int
  if_imm_i :: int
  if_imm_s :: int
  if_imm_b :: int
  if_imm_u :: int
  if_imm_j :: int
  if_shamt :: int

text \<open>\<open>(word >> lo) & (2 ** k - 1)\<close>.\<close>

definition fld :: "int \<Rightarrow> nat \<Rightarrow> nat \<Rightarrow> int" where
  "fld word lo k = drop_bit lo word AND mask k"

definition decode_instruction_fields :: "int \<Rightarrow> instr_fields" where
  "decode_instruction_fields w =
     (let word = w AND mask 32; opcode = fld word 2 5 in
      \<lparr>if_word = word, if_opcode7 = word AND mask 7, if_opcode = opcode,
       if_opcode_name = opcode_name opcode, if_rd = fld word 7 5, if_funct3 = fld word 12 3,
       if_rs1 = fld word 15 5, if_rs2 = fld word 20 5, if_funct7 = fld word 25 7,
       if_funct12 = fld word 20 12,
       if_imm_i = sign_extend (fld word 20 12) 12,
       if_imm_s = sign_extend (push_bit 5 (fld word 25 7) OR fld word 7 5) 12,
       if_imm_b = sign_extend (push_bit 12 (fld word 31 1) OR push_bit 11 (fld word 7 1) OR
         push_bit 5 (fld word 25 6) OR push_bit 1 (fld word 8 4)) 13,
       if_imm_u = word AND 0xFFFFF000,
       if_imm_j = sign_extend (push_bit 20 (fld word 31 1) OR push_bit 12 (fld word 12 8) OR
         push_bit 11 (fld word 20 1) OR push_bit 1 (fld word 21 10)) 21,
       if_shamt = fld word 20 5\<rparr>)"

subsection \<open>Text\<close>

abbreviation hex_int :: "int \<Rightarrow> string" where "hex_int i \<equiv> hex_num (nat i)"

definition hex_padded :: "nat \<Rightarrow> int \<Rightarrow> string" where  \<comment> \<open>\<open>{:0kx}\<close>\<close>
  "hex_padded k i = (let s = hex_int i in replicate (k - length s) (CHR ''0'') @ s)"

abbreviation three :: "string \<Rightarrow> string \<Rightarrow> string \<Rightarrow> string \<Rightarrow> string" where
  "three m a b c \<equiv> m @ '' '' @ a @ '','' @ b @ '','' @ c"

abbreviation based :: "string \<Rightarrow> string \<Rightarrow> string \<Rightarrow> string \<Rightarrow> string" where
  "based m a offset base \<equiv> m @ '' '' @ a @ '','' @ offset @ ''('' @ base @ '')''"

definition branch_names :: "(int \<times> string) list" where
  "branch_names = [(uint RV32_F3_BEQ, ''beq''), (uint RV32_F3_BNE, ''bne''), (uint RV32_F3_BLT, ''blt''),
     (uint RV32_F3_BGE, ''bge''), (uint RV32_F3_BLTU, ''bltu''), (uint RV32_F3_BGEU, ''bgeu'')]"

definition load_names :: "(int \<times> string) list" where
  "load_names = [(uint RV32_F3_LB, ''lb''), (uint RV32_F3_LH, ''lh''), (uint RV32_F3_LW, ''lw''),
     (uint RV32_F3_LBU, ''lbu''), (uint RV32_F3_LHU, ''lhu'')]"

definition store_names :: "(int \<times> string) list" where
  "store_names = [(uint RV32_F3_SB, ''sb''), (uint RV32_F3_SH, ''sh''), (uint RV32_F3_SW, ''sw'')]"

definition muldiv_names :: "(int \<times> string) list" where
  "muldiv_names = [(0, ''mul''), (1, ''mulh''), (2, ''mulhsu''), (3, ''mulhu''), (4, ''div''), (5, ''divu''),
     (6, ''rem''), (7, ''remu'')]"

definition csr_names :: "(int \<times> string) list" where
  "csr_names = [(uint RV32_F3_CSRRW, ''csrrw''), (uint RV32_F3_CSRRS, ''csrrs''), (uint RV32_F3_CSRRC, ''csrrc''),
     (uint RV32_F3_CSRRWI, ''csrrwi''), (uint RV32_F3_CSRRSI, ''csrrsi''), (uint RV32_F3_CSRRCI, ''csrrci'')]"

text \<open>The branches for one opcode each; \<open>None\<close> falls through to the \<open>.word\<close> at the end.\<close>

definition imm_text :: "instr_fields \<Rightarrow> string option" where
  "imm_text f =
     (let funct3 = if_funct3 f; rd = abi_name (if_rd f); rs1 = abi_name (if_rs1 f);
          imm = dec_string (if_imm_i f); shamt = dec_string (if_shamt f) in
      if funct3 = uint RV32_F3_ADD_SUB then Some (three ''addi'' rd rs1 imm)
      else if funct3 = uint RV32_F3_SLT then Some (three ''slti'' rd rs1 imm)
      else if funct3 = uint RV32_F3_SLTU then Some (three ''sltiu'' rd rs1 imm)
      else if funct3 = uint RV32_F3_XOR then Some (three ''xori'' rd rs1 imm)
      else if funct3 = uint RV32_F3_OR then Some (three ''ori'' rd rs1 imm)
      else if funct3 = uint RV32_F3_AND then Some (three ''andi'' rd rs1 imm)
      else if funct3 = uint RV32_F3_SLL then Some (three ''slli'' rd rs1 shamt)
      else if funct3 = uint RV32_F3_SRL_SRA then
        (if fld (if_funct7 f) 5 1 \<noteq> 0 then Some (three ''srai'' rd rs1 shamt) else Some (three ''srli'' rd rs1 shamt))
      else None)"

definition op_text :: "instr_fields \<Rightarrow> string option" where
  "op_text f =
     (let funct3 = if_funct3 f; rd = abi_name (if_rd f); rs1 = abi_name (if_rs1 f); rs2 = abi_name (if_rs2 f);
          muldiv = (if if_funct7 f = uint RV32_F7_MUL_DIV then map_of muldiv_names funct3 else None) in
      case muldiv of Some m \<Rightarrow> Some (three m rd rs1 rs2)
      | None \<Rightarrow>
       (if funct3 = uint RV32_F3_ADD_SUB then
         (if fld (if_funct7 f) 5 1 \<noteq> 0 then Some (three ''sub'' rd rs1 rs2) else Some (three ''add'' rd rs1 rs2))
       else if funct3 = uint RV32_F3_SLL then Some (three ''sll'' rd rs1 rs2)
       else if funct3 = uint RV32_F3_SLT then Some (three ''slt'' rd rs1 rs2)
       else if funct3 = uint RV32_F3_SLTU then Some (three ''sltu'' rd rs1 rs2)
       else if funct3 = uint RV32_F3_XOR then Some (three ''xor'' rd rs1 rs2)
       else if funct3 = uint RV32_F3_SRL_SRA then
         (if fld (if_funct7 f) 5 1 \<noteq> 0 then Some (three ''sra'' rd rs1 rs2) else Some (three ''srl'' rd rs1 rs2))
       else if funct3 = uint RV32_F3_OR then Some (three ''or'' rd rs1 rs2)
       else if funct3 = uint RV32_F3_AND then Some (three ''and'' rd rs1 rs2)
       else None))"

definition system_text :: "instr_fields \<Rightarrow> string option" where
  "system_text f =
     (let funct3 = if_funct3 f; funct12 = if_funct12 f in
      if funct3 = uint RV32_F3_PRIV \<and> funct12 = uint RV32_F12_ECALL then Some ''ecall''
      else if funct3 = uint RV32_F3_PRIV \<and> funct12 = uint RV32_F12_EBREAK then Some ''ebreak''
      else if funct3 = uint RV32_F3_PRIV \<and> funct12 = uint RV32_F12_ERET then Some ''eret''
      else map_option (\<lambda>m. three m (abi_name (if_rd f)) (''0x'' @ hex_padded 3 funct12)
          (if funct3 \<in> {uint RV32_F3_CSRRW, uint RV32_F3_CSRRS, uint RV32_F3_CSRRC}
           then abi_name (if_rs1 f) else dec_string (if_rs1 f)))
        (map_of csr_names funct3))"

definition opcode_text :: "instr_fields \<Rightarrow> string option" where
  "opcode_text f =
     (let opcode = if_opcode f; funct3 = if_funct3 f;
          rd = abi_name (if_rd f); rs1 = abi_name (if_rs1 f); rs2 = abi_name (if_rs2 f) in
      if opcode = uint RV32_LUI then Some (''lui '' @ rd @ '',0x'' @ hex_int (drop_bit 12 (if_imm_u f)))
      else if opcode = uint RV32_AUIPC then Some (''auipc '' @ rd @ '',0x'' @ hex_int (drop_bit 12 (if_imm_u f)))
      else if opcode = uint RV32_JAL then Some (''jal '' @ rd @ '','' @ dec_string (if_imm_j f))
      else if opcode = uint RV32_JALR then Some (based ''jalr'' rd (dec_string (if_imm_i f)) rs1)
      else if opcode = uint RV32_BRANCH then
        map_option (\<lambda>m. three m rs1 rs2 (dec_string (if_imm_b f))) (map_of branch_names funct3)
      else if opcode = uint RV32_LOAD then
        map_option (\<lambda>m. based m rd (dec_string (if_imm_i f)) rs1) (map_of load_names funct3)
      else if opcode = uint RV32_STORE then
        map_option (\<lambda>m. based m rs2 (dec_string (if_imm_s f)) rs1) (map_of store_names funct3)
      else if opcode = uint RV32_IMM then imm_text f
      else if opcode = uint RV32_OP then op_text f
      else if opcode = uint RV32_FENCE then
        (if funct3 = uint RV32_F3_FENCE then Some ''fence''
         else if funct3 = uint RV32_F3_FENCE_I then Some ''fence.i'' else None)
      else if opcode = uint RV32_SYSTEM then system_text f
      else None)"

definition disassemble_from_fields :: "instr_fields \<Rightarrow> string" where
  "disassemble_from_fields f =
     (case opcode_text f of Some t \<Rightarrow> t | None \<Rightarrow> ''.word 0x'' @ hex_padded 8 (if_word f))"

definition disassemble :: "int \<Rightarrow> string \<times> instr_fields" where
  "disassemble word =
     (let fields = decode_instruction_fields word in (disassemble_from_fields fields, fields))"

subsection \<open>The fields are slices of the word\<close>

lemma fld_uint:
  "fld (uint w) lo LENGTH('n) = uint (bv_slice (lo + LENGTH('n)) lo (w :: xword) :: 'n::len word)"
  by (rule bit_eqI) (auto simp: fld_def bit_simps bv_simps ac_simps)

lemma field_slices:
  fixes w :: xword
  shows "fld (uint w) 2 5 = uint (bv_slice 7 2 w :: 5 word)" "fld (uint w) 7 5 = uint (bv_slice 12 7 w :: 5 word)"
    "fld (uint w) 12 3 = uint (bv_slice 15 12 w :: 3 word)" "fld (uint w) 15 5 = uint (bv_slice 20 15 w :: 5 word)"
    "fld (uint w) 20 5 = uint (bv_slice 25 20 w :: 5 word)" "fld (uint w) 25 7 = uint (bv_slice 32 25 w :: 7 word)"
    "fld (uint w) 20 12 = uint (bv_slice 32 20 w :: 12 word)"
  using fld_uint[where 'n = 5, of w 2] fld_uint[where 'n = 5, of w 7] fld_uint[where 'n = 3, of w 12]
    fld_uint[where 'n = 5, of w 15] fld_uint[where 'n = 5, of w 20] fld_uint[where 'n = 7, of w 25]
    fld_uint[where 'n = 12, of w 20] by simp_all

lemma sign_extend_sint: "sign_extend (uint (v :: 'a::len word)) LENGTH('a) = sint v"
proof -
  obtain n where n: "LENGTH('a) = Suc n" using not0_implies_Suc[OF len_not_eq_0] by blast
  have m: "push_bit n 1 - 1 = (mask n :: int)" by (simp add: mask_eq_exp_minus_1)
  have b: "uint v AND push_bit n 1 = 2 ^ n * of_bool (bit v n)"
    by (rule bit_eqI) (auto simp: bit_simps n)
  have "sint v = signed_take_bit n (uint v)" by (simp add: sint_uint n)
  also have "\<dots> = take_bit n (uint v) - 2 ^ n * of_bool (bit v n)"
    by (simp add: signed_take_bit_eq_take_bit_minus bit_uint_iff take_bit_Suc_from_most n)
  finally show ?thesis
    unfolding sign_extend_def Let_def n diff_Suc_1 m b take_bit_eq_mask by (rule sym)
qed

lemma bit_push_fld:
  "bit (push_bit m (fld (uint (w :: xword)) lo k)) n \<longleftrightarrow> m \<le> n \<and> n - m < k \<and> bit w (lo + (n - m))"
  by (auto simp: fld_def bit_simps)

lemma imm_s_word:
  fixes w :: xword
  shows "push_bit 5 (fld (uint w) 25 7) OR fld (uint w) 7 5 = uint (get_S_immediate w)"
  unfolding field_slices get_S_immediate_def
  by (rule bit_eqI) (auto simp: bit_simps bv_simps)

lemma imm_b_word:
  fixes w :: xword
  shows "push_bit 12 (fld (uint w) 31 1) OR push_bit 11 (fld (uint w) 7 1) OR
    push_bit 5 (fld (uint w) 25 6) OR push_bit 1 (fld (uint w) 8 4) = uint (get_SB_immediate w)"
proof (rule bit_eqI)
  fix n
  show "bit (push_bit 12 (fld (uint w) 31 1) OR push_bit 11 (fld (uint w) 7 1) OR
    push_bit 5 (fld (uint w) 25 6) OR push_bit 1 (fld (uint w) 8 4)) n = bit (uint (get_SB_immediate w)) n"
  proof (cases "n < 13")
    case True
    from less_13_cases[OF this] show ?thesis
      by (elim disjE; simp only: bit_or_iff bit_push_fld bit_uint_iff;
          simp add: get_SB_immediate_def bv_simps; simp add: numeral_2_eq_2)
  qed (simp only: bit_or_iff bit_push_fld bit_uint_iff, auto)
qed

lemma imm_j_word:
  fixes w :: xword
  shows "push_bit 20 (fld (uint w) 31 1) OR push_bit 12 (fld (uint w) 12 8) OR
    push_bit 11 (fld (uint w) 20 1) OR push_bit 1 (fld (uint w) 21 10) = uint (get_UJ_immediate w)"
proof (rule bit_eqI)
  fix n
  show "bit (push_bit 20 (fld (uint w) 31 1) OR push_bit 12 (fld (uint w) 12 8) OR
    push_bit 11 (fld (uint w) 20 1) OR push_bit 1 (fld (uint w) 21 10)) n = bit (uint (get_UJ_immediate w)) n"
  proof (cases "n < 21")
    case True
    from less_21_cases[OF this] show ?thesis
      by (elim disjE less_13_cases[elim_format]; simp only: bit_or_iff bit_push_fld bit_uint_iff;
          simp add: get_UJ_immediate_def bv_simps; simp add: numeral_2_eq_2)
  qed (simp only: bit_or_iff bit_push_fld bit_uint_iff, auto)
qed

lemma imm_u_word:
  fixes w :: xword
  shows "drop_bit 12 (uint w AND 0xFFFFF000) = uint (bv_slice 32 12 w :: 20 word)"
proof -
  have d: "drop_bit m (x AND push_bit m (mask k)) = drop_bit m x AND mask k" for m k and x :: int
    by (rule bit_eqI) (auto simp: bit_simps)
  have m: "(0xFFFFF000 :: int) = push_bit 12 (mask 20)" by (simp add: mask_eq_exp_minus_1 push_bit_eq_mult)
  show ?thesis
    using fld_uint[where 'n = 20, of w 12] unfolding m d by (simp add: fld_def)
qed

lemmas sign_extend_words =
  sign_extend_sint[where 'a = 12, simplified] sign_extend_sint[where 'a = 13, simplified]
  sign_extend_sint[where 'a = 21, simplified]

lemma decode_fields_uint:
  fixes w :: xword
  defines "f \<equiv> decode_instruction_fields (uint w)"
  shows "if_opcode f = uint (bv_slice 7 2 w :: 5 word)" "if_rd f = uint (bv_slice 12 7 w :: 5 word)"
    "if_funct3 f = uint (bv_slice 15 12 w :: 3 word)" "if_rs1 f = uint (bv_slice 20 15 w :: 5 word)"
    "if_rs2 f = uint (bv_slice 25 20 w :: 5 word)" "if_funct7 f = uint (bv_slice 32 25 w :: 7 word)"
    "if_funct12 f = uint (bv_slice 32 20 w :: 12 word)" "if_shamt f = uint (bv_slice 25 20 w :: 5 word)"
    "if_imm_i f = sint (get_I_immediate w)" "if_imm_s f = sint (get_S_immediate w)"
    "if_imm_b f = sint (get_SB_immediate w)" "if_imm_j f = sint (get_UJ_immediate w)"
    "drop_bit 12 (if_imm_u f) = uint (bv_slice 32 12 w :: 20 word)"
proof -
  have w: "uint w AND mask 32 = uint w" 
    using bintr_uint[of 32 w] by (simp add: take_bit_eq_mask)
  show "if_opcode f = uint (bv_slice 7 2 w :: 5 word)" "if_rd f = uint (bv_slice 12 7 w :: 5 word)"
    "if_funct3 f = uint (bv_slice 15 12 w :: 3 word)" "if_rs1 f = uint (bv_slice 20 15 w :: 5 word)"
    "if_rs2 f = uint (bv_slice 25 20 w :: 5 word)" "if_funct7 f = uint (bv_slice 32 25 w :: 7 word)"
    "if_funct12 f = uint (bv_slice 32 20 w :: 12 word)" "if_shamt f = uint (bv_slice 25 20 w :: 5 word)"
    "if_imm_i f = sint (get_I_immediate w)" "if_imm_s f = sint (get_S_immediate w)"
    "if_imm_b f = sint (get_SB_immediate w)" "if_imm_j f = sint (get_UJ_immediate w)"
    "drop_bit 12 (if_imm_u f) = uint (bv_slice 32 12 w :: 20 word)"
    unfolding f_def decode_instruction_fields_def Let_def w instr_fields.simps imm_s_word imm_b_word imm_j_word
      imm_u_word get_I_immediate_def
    unfolding field_slices sign_extend_words
    by (rule refl)+
qed

subsection \<open>The text of an instruction\<close>

definition reg_text :: "regno \<Rightarrow> string" where "reg_text r = abi_name (uint r)"

fun branch_mnemonic :: "branch_op \<Rightarrow> string" where
  "branch_mnemonic Beq = ''beq''" | "branch_mnemonic Bne = ''bne''" | "branch_mnemonic Blt = ''blt''"
| "branch_mnemonic Bge = ''bge''" | "branch_mnemonic Bltu = ''bltu''" | "branch_mnemonic Bgeu = ''bgeu''"

fun load_mnemonic :: "load_op \<Rightarrow> string" where
  "load_mnemonic Lb = ''lb''" | "load_mnemonic Lh = ''lh''" | "load_mnemonic Lw = ''lw''"
| "load_mnemonic Lbu = ''lbu''" | "load_mnemonic Lhu = ''lhu''"

fun store_mnemonic :: "store_op \<Rightarrow> string" where
  "store_mnemonic Sb = ''sb''" | "store_mnemonic Sh = ''sh''" | "store_mnemonic Sw = ''sw''"

fun imm_mnemonic :: "imm_op \<Rightarrow> string" where
  "imm_mnemonic Addi = ''addi''" | "imm_mnemonic Slti = ''slti''" | "imm_mnemonic Sltiu = ''sltiu''"
| "imm_mnemonic Xori = ''xori''" | "imm_mnemonic Ori = ''ori''" | "imm_mnemonic Andi = ''andi''"

fun shift_mnemonic :: "shift_op \<Rightarrow> string" where
  "shift_mnemonic Slli = ''slli''" | "shift_mnemonic Srli = ''srli''" | "shift_mnemonic Srai = ''srai''"

fun alu_mnemonic :: "alu_op \<Rightarrow> string" where
  "alu_mnemonic Op_Add = ''add''" | "alu_mnemonic Op_Sub = ''sub''" | "alu_mnemonic Op_Sll = ''sll''"
| "alu_mnemonic Op_Slt = ''slt''" | "alu_mnemonic Op_Sltu = ''sltu''" | "alu_mnemonic Op_Xor = ''xor''"
| "alu_mnemonic Op_Srl = ''srl''" | "alu_mnemonic Op_Sra = ''sra''" | "alu_mnemonic Op_Or = ''or''"
| "alu_mnemonic Op_And = ''and''"

fun csr_mnemonic :: "csr_op \<Rightarrow> string" where
  "csr_mnemonic Csr_RW = ''csrrw''" | "csr_mnemonic Csr_RS = ''csrrs''" | "csr_mnemonic Csr_RC = ''csrrc''"

fun mnemonic :: "rv_instr \<Rightarrow> string" where
  "mnemonic (Lui rd imm) = ''lui''"
| "mnemonic (Auipc rd imm) = ''auipc''"
| "mnemonic (Jal rd ofs) = ''jal''"
| "mnemonic (Jalr rd rs1 imm) = ''jalr''"
| "mnemonic (Branch op rs1 rs2 ofs) = branch_mnemonic op"
| "mnemonic (Load op rd rs1 imm) = load_mnemonic op"
| "mnemonic (Store op rs1 rs2 imm) = store_mnemonic op"
| "mnemonic (OpImm op rd rs1 imm) = imm_mnemonic op"
| "mnemonic (ShiftImm op rd rs1 shamt) = shift_mnemonic op"
| "mnemonic (OpReg op rd rs1 rs2) = alu_mnemonic op"
| "mnemonic Fence = ''fence''"
| "mnemonic (Csr op rd rs1 csr) = csr_mnemonic op"
| "mnemonic (CsrImm op rd zimm csr) = csr_mnemonic op @ ''i''"
| "mnemonic Ecall = ''ecall''"
| "mnemonic Ebreak = ''ebreak''"
| "mnemonic Mret = ''eret''"

fun asm_text :: "rv_instr \<Rightarrow> string" where
  "asm_text (Lui rd imm) = mnemonic (Lui rd imm) @ '' '' @ reg_text rd @ '',0x'' @ hex_int (uint imm)"
| "asm_text (Auipc rd imm) = mnemonic (Auipc rd imm) @ '' '' @ reg_text rd @ '',0x'' @ hex_int (uint imm)"
| "asm_text (Jal rd ofs) = mnemonic (Jal rd ofs) @ '' '' @ reg_text rd @ '','' @ dec_string (2 * sint ofs)"
| "asm_text (Jalr rd rs1 imm) =
     based (mnemonic (Jalr rd rs1 imm)) (reg_text rd) (dec_string (sint imm)) (reg_text rs1)"
| "asm_text (Branch op rs1 rs2 ofs) =
     three (mnemonic (Branch op rs1 rs2 ofs)) (reg_text rs1) (reg_text rs2) (dec_string (2 * sint ofs))"
| "asm_text (Load op rd rs1 imm) =
     based (mnemonic (Load op rd rs1 imm)) (reg_text rd) (dec_string (sint imm)) (reg_text rs1)"
| "asm_text (Store op rs1 rs2 imm) =
     based (mnemonic (Store op rs1 rs2 imm)) (reg_text rs2) (dec_string (sint imm)) (reg_text rs1)"
| "asm_text (OpImm op rd rs1 imm) =
     three (mnemonic (OpImm op rd rs1 imm)) (reg_text rd) (reg_text rs1) (dec_string (sint imm))"
| "asm_text (ShiftImm op rd rs1 shamt) =
     three (mnemonic (ShiftImm op rd rs1 shamt)) (reg_text rd) (reg_text rs1) (dec_string (uint shamt))"
| "asm_text (OpReg op rd rs1 rs2) =
     three (mnemonic (OpReg op rd rs1 rs2)) (reg_text rd) (reg_text rs1) (reg_text rs2)"
| "asm_text (Csr op rd rs1 csr) =
     three (mnemonic (Csr op rd rs1 csr)) (reg_text rd) (''0x'' @ hex_padded 3 (uint csr)) (reg_text rs1)"
| "asm_text (CsrImm op rd zimm csr) =
     three (mnemonic (CsrImm op rd zimm csr)) (reg_text rd) (''0x'' @ hex_padded 3 (uint csr)) (dec_string (uint zimm))"
| "asm_text i = mnemonic i"

subsection \<open>Every encoded instruction is printed as its text\<close>

lemma sint_SB_encode: "sint (get_SB_immediate (rv_b_word ofs rs2 rs1 f3)) = 2 * sint ofs"
proof (rule bit_eqI)
  fix n
  have "bit (2 * sint ofs) n \<longleftrightarrow> 0 < n \<and> bit ofs (min (n - 1) 11)"
    by (cases n) (auto simp: bit_double_iff bit_sint_iff min_def not_less dest: bit_imp_le_length)
  moreover have "bit (sint (get_SB_immediate (rv_b_word ofs rs2 rs1 f3))) n \<longleftrightarrow>
      bit (get_SB_immediate (rv_b_word ofs rs2 rs1 f3)) (min n 12)"
    by (auto simp: bit_sint_iff min_def not_less dest: bit_imp_le_length)
  moreover have "min n 12 < 13" "min (min n 12 - 1) 11 = min n 12 - 1" "n < 13 \<or> min n 12 = 12"
    "min (n - 1) 11 = min n 12 - 1" "0 < min n 12 \<longleftrightarrow> 0 < n" by auto
  ultimately show "bit (sint (get_SB_immediate (rv_b_word ofs rs2 rs1 f3))) n \<longleftrightarrow> bit (2 * sint ofs) n"
    using bit_get_SB_immediate[of "min n 12"] by simp
qed

lemma sint_UJ_encode: "sint (get_UJ_immediate (rv_j_word ofs rd)) = 2 * sint ofs"
proof (rule bit_eqI)
  fix n
  have "bit (2 * sint ofs) n \<longleftrightarrow> 0 < n \<and> bit ofs (min (n - 1) 19)"
    by (cases n) (auto simp: bit_double_iff bit_sint_iff min_def not_less dest: bit_imp_le_length)
  moreover have "bit (sint (get_UJ_immediate (rv_j_word ofs rd))) n \<longleftrightarrow>
      bit (get_UJ_immediate (rv_j_word ofs rd)) (min n 20)"
    by (auto simp: bit_sint_iff min_def not_less dest: bit_imp_le_length)
  moreover have "min n 20 < 21" "min (min n 20 - 1) 19 = min n 20 - 1" "n < 21 \<or> min n 20 = 20"
    "min (n - 1) 19 = min n 20 - 1" "0 < min n 20 \<longleftrightarrow> 0 < n" by auto
  ultimately show "bit (sint (get_UJ_immediate (rv_j_word ofs rd))) n \<longleftrightarrow> bit (2 * sint ofs) n"
    using bit_get_UJ_immediate[of "min n 20"] by simp
qed

lemma rv_u_word_imm [simp]: "bv_slice 32 12 (rv_u_word imm rd opc) = imm"
  by (rule bv_eqI) (auto simp: rv_u_word_def bv_simps rv_word_bits)

lemma csr_funct3_values:
  "bv_cat (bv_bool False) (1 :: 2 word) = (1 :: 3 word)" "bv_cat (bv_bool False) (2 :: 2 word) = (2 :: 3 word)"
  "bv_cat (bv_bool False) (3 :: 2 word) = (3 :: 3 word)" "bv_cat (bv_bool True) (1 :: 2 word) = (5 :: 3 word)"
  "bv_cat (bv_bool True) (2 :: 2 word) = (6 :: 3 word)" "bv_cat (bv_bool True) (3 :: 2 word) = (7 :: 3 word)"
  by code_simp+

lemma funct7_bit: "fld (uint (op_funct7 op)) 5 1 \<noteq> 0 \<longleftrightarrow> op = Op_Sub \<or> op = Op_Sra"
  "uint (op_funct7 op) \<noteq> uint RV32_F7_MUL_DIV"
  by (cases op; simp add: op_funct7_def fld_def)+

lemmas text_defs = disassemble_def disassemble_from_fields_def opcode_text_def imm_text_def op_text_def
  system_text_def branch_names_def load_names_def store_names_def csr_names_def reg_text_def Let_def

lemma disassemble_encode: "fst (disassemble (uint (rv_encode i))) = asm_text i"
proof (cases i)
  case (Branch op rs1 rs2 ofs)
  then show ?thesis by (cases op) (simp_all add: text_defs decode_fields_uint sint_SB_encode)
next
  case (Jal rd ofs)
  then show ?thesis by (simp add: text_defs decode_fields_uint sint_UJ_encode)
next
  case (Load op rd rs1 imm)
  then show ?thesis by (cases op) (simp_all add: text_defs decode_fields_uint)
next
  case (Store op rs1 rs2 imm)
  then show ?thesis by (cases op) (simp_all add: text_defs decode_fields_uint)
next
  case (OpImm op rd rs1 imm)
  then show ?thesis by (cases op) (simp_all add: text_defs decode_fields_uint)
next
  case (ShiftImm op rd rs1 shamt)
  then show ?thesis using funct7_bit[of "shift_alu_op op"]
    by (cases op) (simp_all add: text_defs decode_fields_uint)
next
  case (OpReg op rd rs1 rs2)
  then show ?thesis using funct7_bit[of op]
    by (cases op) (simp_all add: text_defs decode_fields_uint)
next
  case (Csr op rd rs1 csr)
  then show ?thesis by (cases op) (simp_all add: text_defs decode_fields_uint csr_funct3_values)
next
  case (CsrImm op rd zimm csr)
  then show ?thesis by (cases op) (simp_all add: text_defs decode_fields_uint csr_funct3_values)
qed (simp_all add: text_defs decode_fields_uint)

subsection \<open>Different instructions have different texts\<close>

definition separator :: "char \<Rightarrow> bool" where
  "separator c \<longleftrightarrow> ord c \<in> {32, 44, 40, 41}"  \<comment> \<open>space, comma, parentheses\<close>

fun tokens :: "string \<Rightarrow> string list" where
  "tokens [] = [[]]"
| "tokens (c # cs) =
     (if separator c then [] # tokens cs
      else (case tokens cs of [] \<Rightarrow> [[c]] | t # ts \<Rightarrow> (c # t) # ts))"

definition clean :: "string \<Rightarrow> bool" where
  "clean s \<longleftrightarrow> (\<forall>c \<in> set s. \<not> separator c)"

lemma clean_simps [simp]: "clean []" "clean (c # s) \<longleftrightarrow> \<not> separator c \<and> clean s" "clean (s @ t) \<longleftrightarrow> clean s \<and> clean t"
  by (auto simp: clean_def)

lemma tokens_clean: "clean s \<Longrightarrow> tokens s = [s]"
  by (induction s) auto

lemma tokens_step: "clean s \<Longrightarrow> separator c \<Longrightarrow> tokens (s @ c # t) = s # tokens t"
  by (induction s) auto

lemma separators [simp]: "\<not> separator (CHR ''0'')" "\<not> separator (CHR ''x'')" "separator (CHR '' '')" "separator (CHR '','')" "separator (CHR ''('')" "separator (CHR '')'')"
  by (simp_all add: separator_def)

lemma abi_regnames_clean: "list_all clean abi_regnames \<and> distinct abi_regnames \<and> length abi_regnames = 32"
  by code_simp

lemma regno_less: "nat (uint (r :: regno)) < 32"
  using unsigned_less[where ?'a = nat, of r] by simp

lemma clean_reg [simp]: "clean (reg_text r)"
  using abi_regnames_clean nth_mem[of "nat (uint r)" abi_regnames] regno_less[of r]
  by (simp add: reg_text_def abi_name_def list_all_iff)

lemma reg_text_inj [simp]: "reg_text a = reg_text b \<longleftrightarrow> a = b"
  using abi_regnames_clean nth_eq_iff_index_eq[of abi_regnames "nat (uint a)" "nat (uint b)"] regno_less[of a] regno_less[of b]
  by (auto simp: reg_text_def abi_name_def word_unat_eq_iff)

lemma clean_dec [simp]: "clean (dec_string i)"
  unfolding clean_def separator_def using dec_string_chars by fastforce

lemma clean_hex [simp]: "clean (hex_num n)"
proof -
  have "list_all (\<lambda>l. \<not> separator (lower_digits ! l)) [0..<16]" by code_simp
  then show ?thesis using hex_num_chars by (fastforce simp: clean_def list_all_iff simp del: upt_conv_Cons)
qed

lemma hex_num_inj [simp]: "hex_num m = hex_num n \<longleftrightarrow> m = n"
  using arg_cong[of "hex_num m" "hex_num n" hex_nat] unfolding hex_nat_num option.inject by blast

lemma clean_hex_padded [simp]: "clean (hex_padded k i)"
  using clean_hex by (auto simp: hex_padded_def Let_def clean_def separator_def)

lemma hex_nat_zero: "s \<noteq> [] \<Longrightarrow> hd s \<noteq> CHR ''_'' \<Longrightarrow> hex_nat (CHR ''0'' # s) = hex_nat s"
  by (cases s) (simp_all add: hex_nat_def hex_val_def)

lemma hex_nat_zeros: "s \<noteq> [] \<Longrightarrow> hd s \<noteq> CHR ''_'' \<Longrightarrow> hex_nat (replicate n (CHR ''0'') @ s) = hex_nat s"
proof (induction n)
  case (Suc n)
  then show ?case using hex_nat_zero[of "replicate n (CHR ''0'') @ s"] by (cases n) simp_all
qed simp

lemma hex_padded_inj: "hex_padded k i = hex_padded k j \<longleftrightarrow> nat i = nat j"
proof -
  have "hex_nat (hex_padded k i) = Some (nat i)" for i
  proof -
    have "hd (hex_int i) \<noteq> CHR ''_''"
      using hex_num_not[of "CHR ''_''" "nat i"] hex_num_nonempty[of "nat i"] by (cases "hex_int i") auto
    then show ?thesis
      using hex_nat_zeros[OF hex_num_nonempty] hex_nat_num by (simp add: hex_padded_def Let_def)
  qed
  then show ?thesis unfolding hex_padded_def by (metis hex_padded_def option.inject)
qed

fun operands :: "rv_instr \<Rightarrow> string list" where
  "operands (Lui rd imm) = [reg_text rd, ''0x'' @ hex_int (uint imm)]"
| "operands (Auipc rd imm) = [reg_text rd, ''0x'' @ hex_int (uint imm)]"
| "operands (Jal rd ofs) = [reg_text rd, dec_string (2 * sint ofs)]"
| "operands (Jalr rd rs1 imm) = [reg_text rd, dec_string (sint imm), reg_text rs1, []]"
| "operands (Branch op rs1 rs2 ofs) = [reg_text rs1, reg_text rs2, dec_string (2 * sint ofs)]"
| "operands (Load op rd rs1 imm) = [reg_text rd, dec_string (sint imm), reg_text rs1, []]"
| "operands (Store op rs1 rs2 imm) = [reg_text rs2, dec_string (sint imm), reg_text rs1, []]"
| "operands (OpImm op rd rs1 imm) = [reg_text rd, reg_text rs1, dec_string (sint imm)]"
| "operands (ShiftImm op rd rs1 shamt) = [reg_text rd, reg_text rs1, dec_string (uint shamt)]"
| "operands (OpReg op rd rs1 rs2) = [reg_text rd, reg_text rs1, reg_text rs2]"
| "operands (Csr op rd rs1 csr) = [reg_text rd, ''0x'' @ hex_padded 3 (uint csr), reg_text rs1]"
| "operands (CsrImm op rd zimm csr) = [reg_text rd, ''0x'' @ hex_padded 3 (uint csr), dec_string (uint zimm)]"
| "operands i = []"

definition mnemonic_table :: "(string \<times> rv_instr) list" where
  "mnemonic_table =
     [(''lui'', Lui 0 0), (''auipc'', Auipc 0 0), (''jal'', Jal 0 0), (''jalr'', Jalr 0 0 0)] @
     map (\<lambda>op. (branch_mnemonic op, Branch op 0 0 0)) [Beq, Bne, Blt, Bge, Bltu, Bgeu] @
     map (\<lambda>op. (load_mnemonic op, Load op 0 0 0)) [Lb, Lh, Lw, Lbu, Lhu] @
     map (\<lambda>op. (store_mnemonic op, Store op 0 0 0)) [Sb, Sh, Sw] @
     map (\<lambda>op. (imm_mnemonic op, OpImm op 0 0 0)) [Addi, Slti, Sltiu, Xori, Ori, Andi] @
     map (\<lambda>op. (shift_mnemonic op, ShiftImm op 0 0 0)) [Slli, Srli, Srai] @
     map (\<lambda>op. (alu_mnemonic op, OpReg op 0 0 0))
       [Op_Add, Op_Sub, Op_Sll, Op_Slt, Op_Sltu, Op_Xor, Op_Srl, Op_Sra, Op_Or, Op_And] @
     map (\<lambda>op. (csr_mnemonic op, Csr op 0 0 0)) [Csr_RW, Csr_RS, Csr_RC] @
     map (\<lambda>op. (csr_mnemonic op @ ''i'', CsrImm op 0 0 0)) [Csr_RW, Csr_RS, Csr_RC] @
     [(''fence'', Fence), (''ecall'', Ecall), (''ebreak'', Ebreak), (''eret'', Mret)]"

fun skeleton :: "rv_instr \<Rightarrow> rv_instr" where
  "skeleton (Lui rd imm) = Lui 0 0"
| "skeleton (Auipc rd imm) = Auipc 0 0"
| "skeleton (Jal rd ofs) = Jal 0 0"
| "skeleton (Jalr rd rs1 imm) = Jalr 0 0 0"
| "skeleton (Branch op rs1 rs2 ofs) = Branch op 0 0 0"
| "skeleton (Load op rd rs1 imm) = Load op 0 0 0"
| "skeleton (Store op rs1 rs2 imm) = Store op 0 0 0"
| "skeleton (OpImm op rd rs1 imm) = OpImm op 0 0 0"
| "skeleton (ShiftImm op rd rs1 shamt) = ShiftImm op 0 0 0"
| "skeleton (OpReg op rd rs1 rs2) = OpReg op 0 0 0"
| "skeleton (Csr op rd rs1 csr) = Csr op 0 0 0"
| "skeleton (CsrImm op rd zimm csr) = CsrImm op 0 0 0"
| "skeleton i = i"

lemma mnemonic_lookup: "map_of mnemonic_table (mnemonic i) = Some (skeleton i)"
proof (cases i)
  case (Branch op a b c) then show ?thesis by (cases op) (simp_all add: mnemonic_table_def)
next
  case (Load op a b c) then show ?thesis by (cases op) (simp_all add: mnemonic_table_def)
next
  case (Store op a b c) then show ?thesis by (cases op) (simp_all add: mnemonic_table_def)
next
  case (OpImm op a b c) then show ?thesis by (cases op) (simp_all add: mnemonic_table_def)
next
  case (ShiftImm op a b c) then show ?thesis by (cases op) (simp_all add: mnemonic_table_def)
next
  case (OpReg op a b c) then show ?thesis by (cases op) (simp_all add: mnemonic_table_def)
next
  case (Csr op a b c) then show ?thesis by (cases op) (simp_all add: mnemonic_table_def)
next
  case (CsrImm op a b c) then show ?thesis by (cases op) (simp_all add: mnemonic_table_def)
qed (simp_all add: mnemonic_table_def)

lemma clean_table: "list_all (\<lambda>(m, i). clean m) mnemonic_table"
  by code_simp

lemma clean_mnemonic [simp]: "clean (mnemonic i)"
  using map_of_SomeD[OF mnemonic_lookup] clean_table by (fastforce simp: list_all_iff)

lemma tokens_text: "tokens (asm_text i) = mnemonic i # operands i"
  using clean_mnemonic[of i]
  by (cases i) (simp_all add: tokens_step tokens_clean del: mnemonic.simps)

lemma skeleton_operands_inj: "skeleton i = skeleton j \<Longrightarrow> operands i = operands j \<Longrightarrow> i = j"
  by (cases i; cases j) (auto simp: dec_string_inj hex_padded_inj
      dest: word_unat_eq_iff[THEN iffD2] word_uint_eq_iff[THEN iffD2] signed_word_eqI)

text \<open>C36: The disassembler prints every RV32I instruction from its encoding as its assembler text, offsets and
  immediates as signed decimals, and no two instructions have the same text: a listing of the
  debugger identifies the instructions in memory.\<close>

theorem disassembly_unambiguous:
  "fst (disassemble (uint (rv_encode i))) = asm_text i \<and>
   (fst (disassemble (uint (rv_encode i))) = fst (disassemble (uint (rv_encode j))) \<longleftrightarrow> i = j)"
proof -
  have "i = j" if "asm_text i = asm_text j"
  proof -
    have t: "mnemonic i # operands i = mnemonic j # operands j"
      using that tokens_text[of i] tokens_text[of j] by simp
    then have "Some (skeleton i) = Some (skeleton j)"
      using mnemonic_lookup[of i] mnemonic_lookup[of j] by simp
    then show ?thesis using skeleton_operands_inj t by simp
  qed
  then show ?thesis unfolding disassemble_encode by blast
qed

text \<open>A word that is no instruction at all: the decoder rejects it, the disassembler does not look at the two
  low bits of the opcode.\<close>

lemma zero_word_printed: "fst (disassemble 0) = ''lb zero,0(zero)''"
  by code_simp

end
