(* ===== verification/Soc_Generator.thy ===== *)
theory Soc_Generator
  imports Python_Values "HOL-Library.AList" "HOL-Library.List_Lexorder"
begin

text \<open>
  The configuration builder of the SoC generator
  (\<open>fusesoc-cores/generators/soc_generator_config.py\<close>): the checked translation of the parameters of
  a FuseSoC core file into a \<open>SoCGenerationConfig\<close>. A dictionary is an association list in insertion
  order; the keys of the parameters are strings, their values Booleans, integers, strings, lists
  and \<open>None\<close>. Every exception the builder raises is a value of \<open>gen_error\<close>. The file system is a
  parameter: what \<open>Path(files_root, hexfile).resolve()\<close> and \<open>is_file()\<close> answer. Log messages are
  left out.
\<close>

type_synonym dict = "(string \<times> py_value) list"

datatype gen_error =
    Unknown_Parameters "string list"
  | Invalid_Generation_Kind py_value
  | Entity_Names_Differ
  | Jtagg_Names_Equal
  | Basic_Names_Differ
  | Invalid_Transport py_value
  | Jtagg_Exposes_Wishbone
  | Hexfile_Not_Found string
  | Hexfile_Count nat
  | Bad_Number string      \<comment> \<open>\<open>ValueError\<close> of \<open>int(s)\<close>\<close>
  | Type_Error
  | Key_Error string
  | Bad_Pipeline_Length
  | Bad_Writeback_Bypass
  | Missing_Keys "string list"  \<comment> \<open>the renderer's \<open>sys.exit(1)\<close>\<close>
  | System_Exit               \<comment> \<open>\<open>sys.exit(1)\<close> of \<open>create_instance\<close>\<close>
  | Elaboration_Error         \<comment> \<open>an exception while a design is elaborated; which is not kept\<close>
  | Myhdl_Error string        \<comment> \<open>an exception of MyHDL\<close>
  | Missing_File string

subsection \<open>Generation kinds, names and the configuration\<close>

definition BASIC_SOC_TOP :: string where "BASIC_SOC_TOP = ''basic_soc_top''"
definition BASIC_SOC_TESTBENCH :: string where "BASIC_SOC_TESTBENCH = ''basic_soc_testbench''"
definition EXTENDED_SOC_TOP :: string where "EXTENDED_SOC_TOP = ''extended_soc_top''"

lemmas kind_defs = BASIC_SOC_TOP_def BASIC_SOC_TESTBENCH_def EXTENDED_SOC_TOP_def

definition generation_kinds :: "string list" where
  "generation_kinds = [BASIC_SOC_TOP, BASIC_SOC_TESTBENCH, EXTENDED_SOC_TOP]"

lemma kinds_distinct [simp]:
  "BASIC_SOC_TOP \<noteq> BASIC_SOC_TESTBENCH" "BASIC_SOC_TOP \<noteq> EXTENDED_SOC_TOP"
  "BASIC_SOC_TESTBENCH \<noteq> BASIC_SOC_TOP" "BASIC_SOC_TESTBENCH \<noteq> EXTENDED_SOC_TOP"
  "EXTENDED_SOC_TOP \<noteq> BASIC_SOC_TOP" "EXTENDED_SOC_TOP \<noteq> BASIC_SOC_TESTBENCH"
  by (simp_all add: kind_defs)

record generated_names =
  gn_top :: py_value
  gn_myhdl :: py_value

definition extended_testbench_file :: "generated_names \<Rightarrow> string" where
  "extended_testbench_file n = ''tb_'' @ py_str (gn_top n) @ ''.vhd''"

record generation_config =
  gc_hdl :: py_value
  gc_kind :: string
  gc_names :: generated_names
  gc_soc_config :: dict
  gc_hexfile :: string
  gc_warnings :: py_value
  gc_quiet :: int

definition is_extended :: "generation_config \<Rightarrow> bool" where
  "is_extended c \<longleftrightarrow> gc_kind c = EXTENDED_SOC_TOP"

definition is_testbench :: "generation_config \<Rightarrow> bool" where
  "is_testbench c \<longleftrightarrow> gc_kind c = BASIC_SOC_TESTBENCH"

text \<open>\<open>d[k]\<close>, \<open>d.get(k, default)\<close>.\<close>

definition dict_at :: "dict \<Rightarrow> string \<Rightarrow> gen_error + py_value" where
  "dict_at d k = (case map_of d k of None \<Rightarrow> Inl (Key_Error k) | Some v \<Rightarrow> Inr v)"

definition param :: "dict \<Rightarrow> string \<Rightarrow> py_value \<Rightarrow> py_value" where
  "param d k v = (case map_of d k of None \<Rightarrow> v | Some x \<Rightarrow> x)"

definition uses_ecp5_jtagg_wrapper :: "generation_config \<Rightarrow> gen_error + bool" where
  "uses_ecp5_jtagg_wrapper c =
     (if is_testbench c then Inr False
      else bindr (dict_at (gc_soc_config c) ''enableJtagDebug'') (\<lambda>e.
        if \<not> py_truth e then Inr False
        else bindr (dict_at (gc_soc_config c) ''debugJtagTransport'') (\<lambda>t.
          Inr (py_eq t (PStr ''ecp5_jtagg'')))))"

subsection \<open>Parameters\<close>

definition upper1 :: "char \<Rightarrow> char" where  \<comment> \<open>\<open>upper()\<close> of an ASCII character\<close>
  "upper1 c = (if 97 \<le> ord c \<and> ord c \<le> 122 then char_of (ord c - 32) else c)"

definition capitalize :: "string \<Rightarrow> string" where
  "capitalize s = (case s of [] \<Rightarrow> [] | c # cs \<Rightarrow> upper1 c # cs)"

definition snake_to_lower_camel :: "string \<Rightarrow> string" where
  "snake_to_lower_camel name =
     (let parts = split_at (CHR ''_'') name in hd parts @ concat (map capitalize (tl parts)))"

definition control_parameters :: "string list" where
  "control_parameters =
     [''language'', ''generation_kind'', ''gentb'', ''extended_soc'', ''conversion_warnings'',
      ''hexfile'', ''jump_bypass'', ''pipeline_length'', ''writeback_bypass'', ''top_entity_name'',
      ''myhdl_entity_name'', ''entity_name'', ''diagnostics_quiet'']"

definition soc_parameter_defaults :: dict where
  "soc_parameter_defaults =
     [(''bram_adr_width'', PInt 11), (''laned_memory'', PBool True), (''num_leds'', PInt 4),
      (''led_active_low'', PBool True), (''expose_wishbone_master'', PBool False),
      (''num_gpio'', PInt 8), (''enable_uart1'', PBool False), (''enable_spi'', PBool False),
      (''num_spi'', PInt 1), (''enable_gpio'', PBool True),
      (''register_wishbone_dbus'', PBool False), (''debug'', PBool False),
      (''enable_jtag_debug'', PBool False), (''debug_jtag_transport'', PStr ''native''),
      (''inst_uart_only'', PBool False), (''uart_fifo_depth'', PInt 6)]"

definition allowed_parameters :: "string list" where
  "allowed_parameters = control_parameters @ map fst soc_parameter_defaults"

subsection \<open>The steps of the builder\<close>

definition validate_parameters :: "dict \<Rightarrow> gen_error + unit" where
  "validate_parameters ps =
     (let unknown = sort (remdups (filter (\<lambda>k. k \<notin> set allowed_parameters) (map fst ps)))
      in if unknown \<noteq> [] then Inl (Unknown_Parameters unknown) else Inr ())"

text \<open>A list is not hashable: asking whether a set contains it is a \<open>TypeError\<close>.\<close>

definition select_generation_kind :: "dict \<Rightarrow> gen_error + string" where
  "select_generation_kind ps =
     (let kind = param ps ''generation_kind'' PNone in
      if py_truth kind then
        (case kind of
           PStr s \<Rightarrow> (if s \<in> set generation_kinds then Inr s else Inl (Invalid_Generation_Kind kind))
         | PList _ \<Rightarrow> Inl Type_Error
         | _ \<Rightarrow> Inl (Invalid_Generation_Kind kind))
      else
        (let gentb = param ps ''gentb'' (PBool False);
             extended_soc = param ps ''extended_soc'' (PBool False) in
         if py_truth gentb \<and> \<not> py_truth extended_soc then Inr BASIC_SOC_TESTBENCH
         else if py_truth extended_soc then Inr EXTENDED_SOC_TOP
         else Inr BASIC_SOC_TOP))"

definition has_key :: "dict \<Rightarrow> string \<Rightarrow> bool" where
  "has_key d k \<longleftrightarrow> map_of d k \<noteq> None"

definition select_top_entity :: "dict \<Rightarrow> string \<Rightarrow> gen_error + py_value" where
  "select_top_entity ps kind =
     (let default_top =
            PStr (if kind = BASIC_SOC_TESTBENCH then ''tb_bonfire_core_soc'' else ''bonfire_core_soc_top'');
          top = param ps ''top_entity_name'' PNone in
      if top = PNone then Inr (param ps ''entity_name'' default_top)
      else if has_key ps ''entity_name'' \<and> \<not> py_eq (param ps ''entity_name'' PNone) top
      then Inl Entity_Names_Differ
      else Inr top)"

definition build_generated_names :: "dict \<Rightarrow> string \<Rightarrow> gen_error + generated_names" where
  "build_generated_names ps kind =
     bindr (select_top_entity ps kind) (\<lambda>top.
       if kind = EXTENDED_SOC_TOP then
         Inr \<lparr>gn_top = top, gn_myhdl = param ps ''myhdl_entity_name'' (PStr ''bonfire_core_myhdl_top'')\<rparr>
       else if kind = BASIC_SOC_TOP \<and> py_truth (param ps ''enable_jtag_debug'' (PBool False)) \<and>
         py_eq (param ps ''debug_jtag_transport'' (PStr ''native'')) (PStr ''ecp5_jtagg'') then
         (let myhdl = param ps ''myhdl_entity_name'' (PStr ''bonfire_core_soc_myhdl_top'') in
          if py_eq myhdl top then Inl Jtagg_Names_Equal
          else Inr \<lparr>gn_top = top, gn_myhdl = myhdl\<rparr>)
       else
         (let myhdl = param ps ''myhdl_entity_name'' top in
          if \<not> py_eq myhdl top then Inl Basic_Names_Differ
          else Inr \<lparr>gn_top = top, gn_myhdl = myhdl\<rparr>))"

definition lower_camel_config :: "dict \<Rightarrow> dict" where
  "lower_camel_config ps = map (\<lambda>(k, v). (snake_to_lower_camel k, v)) ps"

definition lower_camel_defaults :: "dict \<Rightarrow> dict \<Rightarrow> dict" where
  "lower_camel_defaults ps ds = map (\<lambda>(k, v). (snake_to_lower_camel k, param ps k v)) ds"

definition valid_transport :: "py_value \<Rightarrow> bool" where
  "valid_transport t \<longleftrightarrow> (\<exists>x \<in> set [''native'', ''ecp5_jtagg'']. py_eq t (PStr x))"

definition build_soc_config :: "dict \<Rightarrow> generated_names \<Rightarrow> string \<Rightarrow> gen_error + dict" where
  "build_soc_config ps names kind =
     (let config = lower_camel_defaults ps soc_parameter_defaults in
      bindr (dict_at config ''exposeWishboneMaster'') (\<lambda>given.
        let expose = (if kind = EXTENDED_SOC_TOP then PBool True else given);
            config1 = AList.update ''exposeWishboneMaster'' expose config in
        bindr (dict_at config1 ''debugJtagTransport'') (\<lambda>transport.
          if \<not> valid_transport transport then Inl (Invalid_Transport transport)
          else bindr (dict_at config1 ''enableJtagDebug'') (\<lambda>jtag.
            if kind = BASIC_SOC_TOP \<and> py_truth jtag \<and> py_eq transport (PStr ''ecp5_jtagg'') \<and> py_truth expose
            then Inl Jtagg_Exposes_Wishbone
            else Inr (AList.updates (map snake_to_lower_camel [''top_entity_name'', ''myhdl_entity_name''])
                   [gn_top names, gn_myhdl names] config1)))))"

definition resolve_single_hexfile :: "py_value \<Rightarrow> gen_error + py_value" where
  "resolve_single_hexfile v =
     (case v of
        PList es \<Rightarrow>
          (let selected = filter (\<lambda>e. e \<noteq> PNone \<and> e \<noteq> PStr []) es in
           if length selected \<noteq> 1 then Inl (Hexfile_Count (length selected)) else Inr (hd selected))
      | _ \<Rightarrow> Inr v)"

definition resolve_hexfile :: "(string \<Rightarrow> string \<Rightarrow> string) \<Rightarrow> (string \<Rightarrow> bool) \<Rightarrow> dict \<Rightarrow> string \<Rightarrow> gen_error + string" where
  "resolve_hexfile resolve is_file ps root =
     bindr (resolve_single_hexfile (param ps ''hexfile'' (PStr []))) (\<lambda>hexfile.
       if \<not> py_truth hexfile then Inr []
       else (case hexfile of
           PStr s \<Rightarrow> (let path = resolve root s in
                     if is_file path then Inr path else Inl (Hexfile_Not_Found path))
         | _ \<Rightarrow> Inl Type_Error))"

text \<open>\<open>int(v)\<close>.\<close>

definition py_int_of :: "py_value \<Rightarrow> gen_error + int" where
  "py_int_of v = (case v of
     PInt n \<Rightarrow> Inr n
   | PBool b \<Rightarrow> Inr (of_bool b)
   | PStr s \<Rightarrow> (case py_int10 s of None \<Rightarrow> Inl (Bad_Number s) | Some n \<Rightarrow> Inr n)
   | _ \<Rightarrow> Inl Type_Error)"

definition build :: "(string \<Rightarrow> string \<Rightarrow> string) \<Rightarrow> (string \<Rightarrow> bool) \<Rightarrow> dict \<Rightarrow> string \<Rightarrow> gen_error + generation_config" where
  "build resolve is_file ps root =
     bindr (validate_parameters ps) (\<lambda>_.
     bindr (select_generation_kind ps) (\<lambda>kind.
     bindr (build_generated_names ps kind) (\<lambda>names.
     bindr (build_soc_config ps names kind) (\<lambda>soc_config.
     bindr (resolve_hexfile resolve is_file ps root) (\<lambda>hexfile.
     bindr (py_int_of (param ps ''diagnostics_quiet'' (PInt 0))) (\<lambda>quiet.
       Inr \<lparr>gc_hdl = param ps ''language'' (PStr ''VHDL''), gc_kind = kind, gc_names = names,
             gc_soc_config = soc_config, gc_hexfile = hexfile,
             gc_warnings = param ps ''conversion_warnings'' (PStr ''default''), gc_quiet = quiet\<rparr>))))))"

subsection \<open>The configuration, key by key\<close>

definition soc_config_keys :: "string list" where
  "soc_config_keys =
     [''bramAdrWidth'', ''lanedMemory'', ''numLeds'', ''ledActiveLow'', ''exposeWishboneMaster'',
      ''numGpio'', ''enableUart1'', ''enableSpi'', ''numSpi'', ''enableGpio'', ''registerWishboneDbus'',
      ''debug'', ''enableJtagDebug'', ''debugJtagTransport'', ''instUartOnly'', ''uartFifoDepth'',
      ''topEntityName'', ''myhdlEntityName'']"

lemma camel_defaults: "map (snake_to_lower_camel \<circ> fst) soc_parameter_defaults = take 16 soc_config_keys"
  by code_simp

lemma camel_names: "map snake_to_lower_camel [''top_entity_name'', ''myhdl_entity_name''] = drop 16 soc_config_keys"
  by code_simp

text \<open>The value the finished configuration holds for each key.\<close>

definition soc_config_of :: "dict \<Rightarrow> generated_names \<Rightarrow> string \<Rightarrow> dict" where
  "soc_config_of ps names kind =
     zip soc_config_keys
       (list_update (map (\<lambda>(k, v). param ps k v) soc_parameter_defaults) 4
          (if kind = EXTENDED_SOC_TOP then PBool True
           else param ps ''expose_wishbone_master'' (PBool False)) @ [gn_top names, gn_myhdl names])"

lemma lower_camel_zip:
  "lower_camel_defaults ps soc_parameter_defaults =
     zip (take 16 soc_config_keys) (map (\<lambda>(k, v). param ps k v) soc_parameter_defaults)"
  unfolding camel_defaults[symmetric] lower_camel_defaults_def
  by (simp add: soc_parameter_defaults_def)

lemma soc_config_updates:
  "AList.updates (drop 16 soc_config_keys) [gn_top names, gn_myhdl names]
     (AList.update ''exposeWishboneMaster''
        (if kind = EXTENDED_SOC_TOP then PBool True else param ps ''expose_wishbone_master'' (PBool False))
        (lower_camel_defaults ps soc_parameter_defaults)) = soc_config_of ps names kind"
  unfolding lower_camel_zip
  by (simp add: soc_config_keys_def soc_parameter_defaults_def soc_config_of_def)

lemma lower_camel_lookup:
  "dict_at (lower_camel_defaults ps soc_parameter_defaults) ''exposeWishboneMaster'' =
     Inr (param ps ''expose_wishbone_master'' (PBool False))"
  "dict_at (AList.update ''exposeWishboneMaster'' e (lower_camel_defaults ps soc_parameter_defaults))
     ''debugJtagTransport'' = Inr (param ps ''debug_jtag_transport'' (PStr ''native''))"
  "dict_at (AList.update ''exposeWishboneMaster'' e (lower_camel_defaults ps soc_parameter_defaults))
     ''enableJtagDebug'' = Inr (param ps ''enable_jtag_debug'' (PBool False))"
  unfolding lower_camel_zip
  by (simp_all add: dict_at_def soc_config_keys_def soc_parameter_defaults_def)

abbreviation jtagg_requested :: "dict \<Rightarrow> bool" where
  "jtagg_requested ps \<equiv> py_truth (param ps ''enable_jtag_debug'' (PBool False)) \<and>
     py_eq (param ps ''debug_jtag_transport'' (PStr ''native'')) (PStr ''ecp5_jtagg'')"

lemma build_soc_config_eq:
  "build_soc_config ps names kind =
     (let transport = param ps ''debug_jtag_transport'' (PStr ''native'') in
      if \<not> valid_transport transport then Inl (Invalid_Transport transport)
      else if kind = BASIC_SOC_TOP \<and> jtagg_requested ps \<and>
          py_truth (param ps ''expose_wishbone_master'' (PBool False)) then Inl Jtagg_Exposes_Wishbone
      else Inr (soc_config_of ps names kind))"
  unfolding build_soc_config_def Let_def camel_names lower_camel_lookup bindr_simps soc_config_updates
  by auto

lemma soc_config_keys: "map fst (soc_config_of ps names kind) = soc_config_keys"
  by (simp add: soc_config_of_def soc_config_keys_def soc_parameter_defaults_def)

lemma soc_config_lookup:
  "map_of (soc_config_of ps names kind) ''exposeWishboneMaster'' =
     Some (if kind = EXTENDED_SOC_TOP then PBool True else param ps ''expose_wishbone_master'' (PBool False))"
  "map_of (soc_config_of ps names kind) ''enableJtagDebug'' = Some (param ps ''enable_jtag_debug'' (PBool False))"
  "map_of (soc_config_of ps names kind) ''debugJtagTransport'' =
     Some (param ps ''debug_jtag_transport'' (PStr ''native''))"
  "map_of (soc_config_of ps names kind) ''numLeds'' = Some (param ps ''num_leds'' (PInt 4))"
  "map_of (soc_config_of ps names kind) ''topEntityName'' = Some (gn_top names)"
  "map_of (soc_config_of ps names kind) ''myhdlEntityName'' = Some (gn_myhdl names)"
  by (simp_all add: soc_config_of_def soc_config_keys_def soc_parameter_defaults_def)

subsection \<open>What a successful build has established\<close>

text \<open>The names agree with the kind: only a wrapper of its own entity has a second name.\<close>

definition names_ok :: "dict \<Rightarrow> string \<Rightarrow> generated_names \<Rightarrow> bool" where
  "names_ok ps kind n \<longleftrightarrow>
     (if kind = EXTENDED_SOC_TOP then True
      else if kind = BASIC_SOC_TOP \<and> jtagg_requested ps then \<not> py_eq (gn_myhdl n) (gn_top n)
      else py_eq (gn_myhdl n) (gn_top n))"

lemma build_names_ok:
  "build_generated_names ps kind = Inr n \<Longrightarrow> names_ok ps kind n"
  by (cases "select_top_entity ps kind")
     (auto simp: build_generated_names_def names_ok_def Let_def split: if_splits)

lemma select_kind_ok: "select_generation_kind ps = Inr kind \<Longrightarrow> kind \<in> set generation_kinds"
  by (auto simp: select_generation_kind_def Let_def generation_kinds_def split: if_splits py_value.splits)

lemma resolve_hexfile_ok:
  "resolve_hexfile resolve is_file ps root = Inr f \<Longrightarrow> f = [] \<or> is_file f"
  by (cases "resolve_single_hexfile (param ps ''hexfile'' (PStr []))")
     (auto simp: resolve_hexfile_def Let_def split: if_splits py_value.splits)

lemma bindr_eq_Inr: "bindr m f = Inr y \<longleftrightarrow> (\<exists>x. m = Inr x \<and> f x = Inr y)"
  by (cases m) auto

lemma build_Inr:
  assumes "build resolve is_file ps root = Inr c"
  shows "validate_parameters ps = Inr ()" "select_generation_kind ps = Inr (gc_kind c)"
    "build_generated_names ps (gc_kind c) = Inr (gc_names c)"
    "build_soc_config ps (gc_names c) (gc_kind c) = Inr (gc_soc_config c)"
    "resolve_hexfile resolve is_file ps root = Inr (gc_hexfile c)"
    "py_int_of (param ps ''diagnostics_quiet'' (PInt 0)) = Inr (gc_quiet c)"
  using assms by (auto simp: build_def bindr_eq_Inr)

lemma build_soc_config_Inr:
  assumes "build_soc_config ps names kind = Inr d"
  shows "d = soc_config_of ps names kind"
    "valid_transport (param ps ''debug_jtag_transport'' (PStr ''native''))"
    "kind = BASIC_SOC_TOP \<and> jtagg_requested ps \<Longrightarrow> \<not> py_truth (param ps ''expose_wishbone_master'' (PBool False))"
  using assms by (auto simp: build_soc_config_eq Let_def split: if_splits)

lemma uses_wrapper_of_build:
  assumes "build resolve is_file ps root = Inr c"
  shows "uses_ecp5_jtagg_wrapper c = Inr (gc_kind c \<noteq> BASIC_SOC_TESTBENCH \<and> jtagg_requested ps)"
  using build_soc_config_Inr(1)[OF build_Inr(4)[OF assms]]
  by (auto simp: uses_ecp5_jtagg_wrapper_def is_testbench_def dict_at_def soc_config_lookup)

text \<open>
  A well-formed configuration: the kind is one of the three, the SoC configuration has exactly its
  keys and records the names, the transport is one the SoC accepts, an extended SoC exposes the
  Wishbone master, and a basic one with the ECP5 wrapper neither exposes it nor shares a name.
\<close>

definition wf_generation_config :: "generation_config \<Rightarrow> bool" where
  "wf_generation_config c \<longleftrightarrow>
     gc_kind c \<in> set generation_kinds \<and>
     map fst (gc_soc_config c) = soc_config_keys \<and>
     map_of (gc_soc_config c) ''topEntityName'' = Some (gn_top (gc_names c)) \<and>
     map_of (gc_soc_config c) ''myhdlEntityName'' = Some (gn_myhdl (gc_names c)) \<and>
     (\<exists>t. map_of (gc_soc_config c) ''debugJtagTransport'' = Some t \<and> valid_transport t) \<and>
     (if is_extended c then map_of (gc_soc_config c) ''exposeWishboneMaster'' = Some (PBool True)
      else if is_testbench c then py_eq (gn_myhdl (gc_names c)) (gn_top (gc_names c))
      else (uses_ecp5_jtagg_wrapper c = Inr False \<and> py_eq (gn_myhdl (gc_names c)) (gn_top (gc_names c)) \<or>
            uses_ecp5_jtagg_wrapper c = Inr True \<and> \<not> py_eq (gn_myhdl (gc_names c)) (gn_top (gc_names c)) \<and>
            (\<exists>e. map_of (gc_soc_config c) ''exposeWishboneMaster'' = Some e \<and> \<not> py_truth e)))"

text \<open>C37: Every configuration the builder returns is well-formed, whatever the parameters of the core
  file: the kind, the keys, the recorded names and the transport are as they should be, an extended
  SoC exposes the Wishbone master, the two names of a testbench and of a basic SoC are equal, as
  documented, except with the ECP5 JTAGG wrapper, for which the code requires them to differ (the
  document does not make this exception) and the Wishbone master to be hidden. Its hexfile is empty
  or an existing file, and every SoC parameter has the given value or its default.\<close>

theorem built_config_well_formed:
  assumes "build resolve is_file ps root = Inr c"
  shows "wf_generation_config c \<and> (gc_hexfile c = [] \<or> is_file (gc_hexfile c)) \<and>
    (\<forall>(k, d) \<in> set soc_parameter_defaults. k = ''expose_wishbone_master'' \<or>
       map_of (gc_soc_config c) (snake_to_lower_camel k) = Some (param ps k d))"
proof -
  note b = build_Inr[OF assms]
  note s = build_soc_config_Inr[OF b(4)]
  note n = build_names_ok[OF b(3)]
  note k = select_kind_ok[OF b(2)]
  have "wf_generation_config c"
    unfolding wf_generation_config_def uses_wrapper_of_build[OF assms] s(1) soc_config_keys soc_config_lookup
    using k n s(2,3)
    by (auto simp: names_ok_def generation_kinds_def is_extended_def is_testbench_def
        split: if_splits)
  moreover have "\<forall>(k, d) \<in> set soc_parameter_defaults. k = ''expose_wishbone_master'' \<or>
       map_of (soc_config_of ps (gc_names c) (gc_kind c)) (snake_to_lower_camel k) = Some (param ps k d)"
    using camel_defaults by (simp add: soc_parameter_defaults_def soc_config_of_def soc_config_keys_def)
  ultimately show ?thesis using resolve_hexfile_ok[OF b(5)] by (simp add: s(1))
qed

text \<open>A basic SoC with the native transport and a list of hexfiles.\<close>

definition example_parameters :: dict where
  "example_parameters =
     [(''language'', PStr ''vhdl''), (''enable_jtag_debug'', PBool True), (''num_leds'', PInt 8),
      (''top_entity_name'', PStr ''soc''), (''myhdl_entity_name'', PStr ''soc''),
      (''hexfile'', PList [PStr '''', PStr ''led.hex''])]"

lemma example_build:
  "\<exists>c. build (\<lambda>root f. root @ ''/'' @ f) (\<lambda>p. p = ''fw/led.hex'') example_parameters ''fw'' = Inr c \<and>
     gc_kind c = BASIC_SOC_TOP \<and> gn_top (gc_names c) = PStr ''soc''"
proof -
  have "(case build (\<lambda>root f. root @ ''/'' @ f) (\<lambda>p. p = ''fw/led.hex'') example_parameters ''fw'' of
      Inl _ \<Rightarrow> False | Inr c \<Rightarrow> gc_kind c = BASIC_SOC_TOP \<and> gn_top (gc_names c) = PStr ''soc'')"
    by code_simp
  then show ?thesis by (auto split: sum.splits)
qed

theorem built_config_well_formed_witness:
  "\<exists>c. build (\<lambda>root f. root @ ''/'' @ f) (\<lambda>p. p = ''fw/led.hex'') example_parameters ''fw'' = Inr c \<and>
     wf_generation_config c \<and> gc_kind c = BASIC_SOC_TOP \<and> gn_top (gc_names c) = PStr ''soc''"
  using example_build built_config_well_formed
    [of "\<lambda>root f. root @ ''/'' @ f" "\<lambda>p. p = ''fw/led.hex''" example_parameters "''fw''"] by blast

end
