(* ===== verification/Soc_Generation.thy ===== *)
theory Soc_Generation
  imports Soc_Generator
begin

text \<open>
  The SoC generator around the configuration builder: \<open>SoCGenerator.generate\<close>
  (\<open>soc_generator.py\<close>), the renderer of the VHDL templates (\<open>vhdl_template_renderer.py\<close>), the writer
  of the generated core file (\<open>generated_core_writer.py\<close>) and the command line of \<open>gen_soc.py\<close>.
  A run is the list of its actions on the output directory, in order, and its result: the run stops
  at the first error, with the actions done so far. MyHDL and the elaboration of the design are
  parameters (\<open>toolchain\<close>): the width of a vector, whether the blocks of the design can be
  instantiated, what a conversion writes and whether it fails. The checks the generator's own
  sources make on the way (\<open>bonfire_core_soc_generator.py\<close>, the number of LEDs and the debug ports
  in \<open>bonfire_core_soc.py\<close>) are modelled.
\<close>

subsection \<open>Runs\<close>

record core_options =
  co_jump_bypass :: py_value
  co_pipeline_length :: int
  co_writeback_bypass :: bool
  co_debug_module :: bool

text \<open>The \<open>BonfireCoreSoC\<close> object that is converted.\<close>

record soc_design =
  sd_options :: core_options
  sd_hexfile :: string
  sd_soc_config :: dict

datatype template = Soc_Top_Template | Tb_Soc_Template | Basic_Jtagg_Template
  | Custom_Template "string list"  \<comment> \<open>a file given by its fields\<close>

datatype gen_action =
    Make_Directory
  | Remove "string list"
  | Convert soc_design bool py_value string py_value "string list"
      \<comment> \<open>the SoC, testbench or instance, language, entity, warnings, the files written\<close>
  | Patch_Stop string
  | Copy_Bridge string
  | Render template string dict
  | Write_Core string string

type_synonym 'a run = "gen_action list \<times> (gen_error + 'a)"

definition ok :: "'a \<Rightarrow> 'a run" where "ok x = ([], Inr x)"
definition act :: "gen_action \<Rightarrow> unit run" where "act a = ([a], Inr ())"
definition lift_run :: "gen_error + 'a \<Rightarrow> 'a run" where "lift_run m = ([], m)"
definition require :: "bool \<Rightarrow> gen_error \<Rightarrow> unit run" where
  "require b e = ([], if b then Inr () else Inl e)"

definition bind_run :: "'a run \<Rightarrow> ('a \<Rightarrow> 'b run) \<Rightarrow> 'b run" where
  "bind_run m f = (case m of
     (as, Inl e) \<Rightarrow> (as, Inl e)
   | (as, Inr x) \<Rightarrow> (case f x of (bs, r) \<Rightarrow> (as @ bs, r)))"

lemmas run_defs = ok_def act_def lift_run_def require_def

lemma bind_run_simps:
  "bind_run (as, Inl e) f = (as, Inl e)"
  "bind_run (as, Inr x) f = (as @ fst (f x), snd (f x))"
  by (auto simp: bind_run_def split: prod.splits)

subsection \<open>The renderer\<close>

definition lines_text :: "string list \<Rightarrow> string" where
  "lines_text ls = concat (map (\<lambda>l. l @ [char_of (10 :: nat)]) (butlast ls)) @ last ls"

definition jtagg_component_ports :: string where
  "jtagg_component_ports = lines_text
    ['';'',
     ''        jtagg_i_jtck    : in  std_logic;'',
     ''        jtagg_i_jtdi    : in  std_logic;'',
     ''        jtagg_i_jshift  : in  std_logic;'',
     ''        jtagg_i_jupdate : in  std_logic;'',
     ''        jtagg_i_jrstn   : in  std_logic;'',
     ''        jtagg_i_jce1    : in  std_logic;'',
     ''        jtagg_i_jce2    : in  std_logic;'',
     ''        jtagg_i_jrt1    : in  std_logic;'',
     ''        jtagg_i_jrt2    : in  std_logic;'',
     ''        jtagg_o_jtdo1   : out std_logic;'',
     ''        jtagg_o_jtdo2   : out std_logic'']"

definition jtagg_signals :: string where
  "jtagg_signals = lines_text
    ['''',
     ''signal jtck    : std_logic;'',
     ''signal jtdi    : std_logic;'',
     ''signal jshift  : std_logic;'',
     ''signal jupdate : std_logic;'',
     ''signal jrstn   : std_logic;'',
     ''signal jce1    : std_logic;'',
     ''signal jce2    : std_logic;'',
     ''signal jrt1    : std_logic;'',
     ''signal jrt2    : std_logic;'',
     ''signal jtdo1   : std_logic;'',
     ''signal jtdo2   : std_logic;'',
     '''']"

definition jtagg_bridge :: string where
  "jtagg_bridge = lines_text
    ['''',
     ''jtagg_bridge_inst: entity work.ecp5_jtagg_bridge'',
     ''    port map ('',
     ''        jtck    => jtck,'',
     ''        jtdi    => jtdi,'',
     ''        jshift  => jshift,'',
     ''        jupdate => jupdate,'',
     ''        jrstn   => jrstn,'',
     ''        jce1    => jce1,'',
     ''        jce2    => jce2,'',
     ''        jrt1    => jrt1,'',
     ''        jrt2    => jrt2,'',
     ''        jtdo1   => jtdo1,'',
     ''        jtdo2   => jtdo2'',
     ''    );'',
     '''']"

definition jtagg_port_map :: string where
  "jtagg_port_map = lines_text
    ['''',
     ''        jtagg_i_jtck    => jtck,'',
     ''        jtagg_i_jtdi    => jtdi,'',
     ''        jtagg_i_jshift  => jshift,'',
     ''        jtagg_i_jupdate => jupdate,'',
     ''        jtagg_i_jrstn   => jrstn,'',
     ''        jtagg_i_jce1    => jce1,'',
     ''        jtagg_i_jce2    => jce2,'',
     ''        jtagg_i_jrt1    => jrt1,'',
     ''        jtagg_i_jrt2    => jrt2,'',
     ''        jtagg_o_jtdo1   => jtdo1,'',
     ''        jtagg_o_jtdo2   => jtdo2,'']"

definition jtagg_template_config :: "dict \<Rightarrow> gen_error + dict" where
  "jtagg_template_config d =
     bindr (dict_at d ''enableJtagDebug'') (\<lambda>e.
     bindr (if py_truth e then bindr (dict_at d ''debugJtagTransport'') (\<lambda>t. Inr (py_eq t (PStr ''ecp5_jtagg'')))
            else Inr False) (\<lambda>enabled.
       Inr (if \<not> enabled
            then [(''jtaggComponentPorts'', PStr ''''), (''jtaggSignals'', PStr ''''),
                  (''jtaggBridge'', PStr ''''), (''jtaggPortMap'', PStr '''')]
            else [(''jtaggComponentPorts'', PStr jtagg_component_ports), (''jtaggSignals'', PStr jtagg_signals),
                  (''jtaggBridge'', PStr jtagg_bridge), (''jtaggPortMap'', PStr jtagg_port_map)])))"

definition bool_vhdl :: "py_value \<Rightarrow> py_value" where
  "bool_vhdl v = PStr (if py_truth v then ''true'' else ''false'')"

fun bools_to_vhdl :: "string list \<Rightarrow> dict \<Rightarrow> gen_error + dict" where
  "bools_to_vhdl [] d = Inr d"
| "bools_to_vhdl (k # ks) d =
     bindr (dict_at d k) (\<lambda>v. bools_to_vhdl ks (AList.update k (bool_vhdl v) d))"

definition vhdl_booleans :: "string list" where
  "vhdl_booleans = [''enableUart1'', ''enableSpi'', ''enableGpio'', ''debug'', ''instUartOnly'']"

text \<open>The time stamp is the parameter \<open>now\<close>.\<close>

definition prepare_template_config :: "string \<Rightarrow> dict \<Rightarrow> gen_error + dict" where
  "prepare_template_config now soc_config =
     (let config = AList.update ''generated'' (PStr now) soc_config in
      bindr (dict_at config ''numLeds'') (\<lambda>v.
      bindr (py_int_of v) (\<lambda>leds.
      let config1 = AList.update ''numLeds_minus_one'' (PInt (leds - 1)) config in
      bindr (jtagg_template_config config1) (\<lambda>j.
        bools_to_vhdl vhdl_booleans (AList.updates (map fst j) (map snd j) config1)))))"

text \<open>The fields of the templates of the repository.\<close>

definition soc_top_fields :: "string list" where
  "soc_top_fields =
     [''generated'', ''topEntityName'', ''numSpi'', ''numGpio'', ''enableUart1'', ''enableSpi'',
      ''numLeds'', ''enableGpio'', ''debug'', ''uartFifoDepth'', ''instUartOnly'', ''topEntityName'',
      ''topEntityName'', ''myhdlEntityName'', ''jtaggComponentPorts'', ''myhdlEntityName'',
      ''jtaggSignals'', ''jtaggBridge'', ''myhdlEntityName'', ''jtaggPortMap'']"

definition tb_soc_fields :: "string list" where
  "tb_soc_fields =
     [''generated'', ''numSpi'', ''numGpio'', ''enableUart1'', ''enableSpi'', ''numLeds'',
      ''enableGpio'', ''debug'', ''uartFifoDepth'', ''instUartOnly'', ''topEntityName'', ''numSpi'',
      ''numGpio'', ''enableUart1'', ''enableSpi'', ''numLeds'', ''enableGpio'', ''debug'',
      ''uartFifoDepth'', ''instUartOnly'', ''topEntityName'']"

definition basic_jtagg_fields :: "string list" where
  "basic_jtagg_fields =
     [''generated'', ''topEntityName'', ''numLeds_minus_one'', ''topEntityName'', ''topEntityName'',
      ''myhdlEntityName'', ''numLeds_minus_one'', ''myhdlEntityName'']"

definition template_fields :: "template \<Rightarrow> string list" where
  "template_fields t = (case t of
     Soc_Top_Template \<Rightarrow> soc_top_fields
   | Tb_Soc_Template \<Rightarrow> tb_soc_fields
   | Basic_Jtagg_Template \<Rightarrow> basic_jtagg_fields
   | Custom_Template fs \<Rightarrow> fs)"

definition render_template :: "string \<Rightarrow> template \<Rightarrow> string \<Rightarrow> dict \<Rightarrow> unit run" where
  "render_template now t output soc_config =
     bind_run (lift_run (prepare_template_config now soc_config)) (\<lambda>d.
       let missing = filter (\<lambda>k. \<not> has_key d k) (template_fields t) in
       bind_run (require (missing = []) (Missing_Keys missing)) (\<lambda>_. act (Render t output d)))"

definition entity_file :: "py_value \<Rightarrow> string" where
  "entity_file v = py_str v @ ''.vhd''"

definition render_extended_wrapper :: "string \<Rightarrow> template option \<Rightarrow> generated_names \<Rightarrow> dict \<Rightarrow> string run" where
  "render_extended_wrapper now wrapper_template names soc_config =
     (let output = entity_file (gn_top names) in
      bind_run (render_template now (case wrapper_template of None \<Rightarrow> Soc_Top_Template | Some t \<Rightarrow> t) output soc_config)
        (\<lambda>_. ok output))"

definition render_basic_jtagg_wrapper :: "string \<Rightarrow> generated_names \<Rightarrow> dict \<Rightarrow> string run" where
  "render_basic_jtagg_wrapper now names soc_config =
     (let output = entity_file (gn_top names) in
      bind_run (render_template now Basic_Jtagg_Template output soc_config) (\<lambda>_. ok output))"

definition render_extended_testbench :: "string \<Rightarrow> generated_names \<Rightarrow> dict \<Rightarrow> string run" where
  "render_extended_testbench now names soc_config =
     (let output = extended_testbench_file names in
      bind_run (render_template now Tb_Soc_Template output soc_config) (\<lambda>_. ok output))"

definition copy_ecp5_jtagg_bridge :: "string run" where
  "copy_ecp5_jtagg_bridge =
     bind_run (act (Copy_Bridge ''ecp5_jtagg_bridge.vhd'')) (\<lambda>_. ok ''ecp5_jtagg_bridge.vhd'')"

subsection \<open>The generated core file\<close>

fun commas :: "string list \<Rightarrow> string" where
  "commas [] = []"
| "commas [x] = x"
| "commas (x # y # xs) = x @ '','' @ commas (y # xs)"

definition testbench_section :: "string list \<Rightarrow> string" where
  "testbench_section files =
     (if files = [] then ''''
      else lines_text
        ['''', ''    tb:'', ''        file_type: vhdlSource-2008'', ''        files: [ '' @ commas files @ '' ]'', ''''])"

definition core_text :: "py_value \<Rightarrow> string list \<Rightarrow> string list \<Rightarrow> string" where
  "core_text vlnv files testbench_files = lines_text
     [''CAPI=2:'', ''name: '' @ py_str vlnv, '''', ''filesets:'', ''    rtl:'',
      ''        file_type: vhdlSource-2008'', ''        files: [ '' @ commas files @ '' ]'', '''',
      ''    '' @ testbench_section testbench_files, '''', ''targets:'', ''    default:'',
      ''        filesets:'', ''        - rtl'',
      ''        - '' @ [char_of (34 :: nat)] @ ''simulation_target ? (tb)'' @ [char_of (34 :: nat)],
      '''', '''', '''']"

definition write_core_file :: "py_value \<Rightarrow> py_value \<Rightarrow> string list \<Rightarrow> string list \<Rightarrow> unit run" where
  "write_core_file vlnv top_name files testbench_files =
     act (Write_Core (py_str top_name @ ''.core'') (core_text vlnv files testbench_files))"

subsection \<open>The generator\<close>

definition cleanup_names :: "generation_config \<Rightarrow> bool \<Rightarrow> string list" where
  "cleanup_names c wrapper =
     [''pck_myhdl_011.vhd'', entity_file (gn_myhdl (gc_names c)), py_str (gn_myhdl (gc_names c)) @ ''.v'',
      py_str (gn_top (gc_names c)) @ ''.core''] @
     (if is_extended c then [entity_file (gn_top (gc_names c)), extended_testbench_file (gc_names c)] else []) @
     (if wrapper then [entity_file (gn_top (gc_names c)), ''ecp5_jtagg_bridge.vhd''] else [])"

text \<open>The options of the core, from the parameters.\<close>

definition core_options_of :: "dict \<Rightarrow> dict \<Rightarrow> gen_error + core_options" where
  "core_options_of ps soc_config =
     bindr (py_int_of (param ps ''pipeline_length'' (PInt 4))) (\<lambda>len.
       let wb = py_truth (param ps ''writeback_bypass'' (PBool False)) in
       if len \<notin> {3, 4} then Inl Bad_Pipeline_Length
       else if wb \<and> len \<noteq> 4 then Inl Bad_Writeback_Bypass
       else Inr \<lparr>co_jump_bypass = param ps ''jump_bypass'' (PBool False), co_pipeline_length = len,
                 co_writeback_bypass = wb,
                 co_debug_module = py_truth (param soc_config ''enableJtagDebug'' (PBool False))\<rparr>)"

definition soc_design_of :: "core_options \<Rightarrow> generation_config \<Rightarrow> soc_design" where
  "soc_design_of conf c =
     \<lparr>sd_options = conf, sd_hexfile = gc_hexfile c, sd_soc_config = gc_soc_config c\<rparr>"

text \<open>
  What is not in the sources: the width of \<open>modbv(0)[v:]\<close>, whether the blocks of a design, as an
  instance or in its testbench, can be instantiated, apart from the checks below, and what
  \<open>inst.convert\<close> writes, with its exception if it raises one.
\<close>

record toolchain =
  tc_vector :: "py_value \<Rightarrow> gen_error + nat"
  tc_elaborates :: "soc_design \<Rightarrow> bool \<Rightarrow> bool"
  tc_convert :: "soc_design \<Rightarrow> bool \<Rightarrow> py_value \<Rightarrow> string \<Rightarrow> py_value \<Rightarrow> string list \<times> gen_error option"

text \<open>The assertions on the number of LEDs and on the ports of the debug transport: the testbench
  only has those of the native one.\<close>

definition soc_assertions :: "soc_design \<Rightarrow> bool \<Rightarrow> nat \<Rightarrow> bool" where
  "soc_assertions d testbench num_leds \<longleftrightarrow> num_leds > 0 \<and> num_leds \<le> 8 \<and>
     (py_truth (param (sd_soc_config d) ''enableJtagDebug'' (PBool False)) \<longrightarrow>
        py_eq (param (sd_soc_config d) ''debugJtagTransport'' (PStr ''native'')) (PStr ''native'') \<or> \<not> testbench)"

text \<open>\<open>create_instance\<close> of both generators. The LED vector is made before the \<open>try\<close> of the first.\<close>

definition create_instance :: "toolchain \<Rightarrow> soc_design \<Rightarrow> bool \<Rightarrow> gen_error + unit" where
  "create_instance T d testbench =
     bindr (tc_vector T (param (sd_soc_config d) ''numLeds'' (PInt 4))) (\<lambda>num_leds.
       if soc_assertions d testbench num_leds \<and> tc_elaborates T d testbench then Inr ()
       else Inl (if testbench then Elaboration_Error else System_Exit))"

text \<open>\<open>_patch_vhdl_stop_simulation\<close>, which reads the converted file.\<close>

definition patch_stop :: "string list \<Rightarrow> py_value \<Rightarrow> string \<Rightarrow> unit run" where
  "patch_stop written hdl name =
     (case hdl of
        PStr h \<Rightarrow>
          (if map upper1 h = ''VHDL'' then
             bind_run (require (name @ ''.vhd'' \<in> set written) (Missing_File (name @ ''.vhd'')))
               (\<lambda>_. act (Patch_Stop (name @ ''.vhd'')))
           else ok ())
      | _ \<Rightarrow> lift_run (Inl Type_Error))"

definition convert_myhdl :: "toolchain \<Rightarrow> core_options \<Rightarrow> generation_config \<Rightarrow> unit run" where
  "convert_myhdl T conf c =
     (let d = soc_design_of conf c; name = py_str (gn_myhdl (gc_names c)) in
      bind_run (lift_run (create_instance T d (is_testbench c))) (\<lambda>_.
        case tc_convert T d (is_testbench c) (gc_hdl c) name (gc_warnings c) of
          (written, failure) \<Rightarrow>
            bind_run (act (Convert d (is_testbench c) (gc_hdl c) name (gc_warnings c) written)) (\<lambda>_.
            bind_run (lift_run (case failure of None \<Rightarrow> Inr () | Some e \<Rightarrow> Inl e)) (\<lambda>_.
              if is_testbench c then patch_stop written (gc_hdl c) name else ok ()))))"

definition extended_templates ::
  "string \<Rightarrow> template option \<Rightarrow> bool \<Rightarrow> generation_config \<Rightarrow> (string list \<times> string list) run" where
  "extended_templates now wrapper_template include_testbench c =
     bind_run (render_extended_wrapper now wrapper_template (gc_names c) (gc_soc_config c)) (\<lambda>w.
     bind_run (if include_testbench
       then bind_run (render_extended_testbench now (gc_names c) (gc_soc_config c)) (\<lambda>t. ok [t]) else ok []) (\<lambda>ts.
       ok ([w], ts)))"

definition bridge_if :: "bool \<Rightarrow> string list run" where
  "bridge_if b = (if b then bind_run copy_ecp5_jtagg_bridge (\<lambda>f. ok [f]) else ok [])"

text \<open>The files beside the converted entity, for the RTL and for the simulation.\<close>

definition extra_files ::
  "string \<Rightarrow> template option \<Rightarrow> bool \<Rightarrow> generation_config \<Rightarrow> bool \<Rightarrow> (string list \<times> string list) run" where
  "extra_files now wrapper_template include_testbench c wrapper =
     (if is_extended c then
        bind_run (bridge_if wrapper) (\<lambda>bs.
        bind_run (extended_templates now wrapper_template include_testbench c) (\<lambda>(fs, ts). ok (bs @ fs, ts)))
      else if wrapper then
        bind_run copy_ecp5_jtagg_bridge (\<lambda>b.
        bind_run (render_basic_jtagg_wrapper now (gc_names c) (gc_soc_config c)) (\<lambda>w. ok ([b, w], [])))
      else ok ([], []))"

definition after_cleanup ::
  "toolchain \<Rightarrow> string \<Rightarrow> dict \<Rightarrow> py_value \<Rightarrow> bool \<Rightarrow> template option \<Rightarrow> bool \<Rightarrow> generation_config \<Rightarrow> bool \<Rightarrow>
     (string list \<times> string list) run" where
  "after_cleanup T now ps vlnv write_core wrapper_template include_testbench c wrapper =
     bind_run (lift_run (core_options_of ps (gc_soc_config c))) (\<lambda>conf.
     bind_run (convert_myhdl T conf c) (\<lambda>_.
     bind_run (extra_files now wrapper_template include_testbench c wrapper) (\<lambda>(fs, ts).
     let files = [''pck_myhdl_011.vhd'', entity_file (gn_myhdl (gc_names c))] @ fs in
     bind_run (if write_core then write_core_file vlnv (gn_top (gc_names c)) files ts else ok ()) (\<lambda>_.
       ok (files, ts)))))"

definition generate ::
  "toolchain \<Rightarrow> (string \<Rightarrow> string \<Rightarrow> string) \<Rightarrow> (string \<Rightarrow> bool) \<Rightarrow> string \<Rightarrow> dict \<Rightarrow> string \<Rightarrow> py_value \<Rightarrow> bool \<Rightarrow>
     template option \<Rightarrow> bool \<Rightarrow> (string list \<times> string list) run" where
  "generate T resolve is_file now ps root vlnv write_core wrapper_template include_testbench =
     bind_run (act Make_Directory) (\<lambda>_.
     bind_run (lift_run (build resolve is_file ps root)) (\<lambda>c.
     bind_run (lift_run (uses_ecp5_jtagg_wrapper c)) (\<lambda>wrapper.
     bind_run (act (Remove (cleanup_names c wrapper))) (\<lambda>_.
       after_cleanup T now ps vlnv write_core wrapper_template include_testbench c wrapper))))"

subsection \<open>The command line\<close>

definition str_to_bool :: "string \<Rightarrow> bool" where
  "str_to_bool v \<longleftrightarrow> lower v \<notin> {''0'', ''false'', ''no'', ''off''}"

record cli_args =
  ca_name :: string
  ca_hdl :: string
  ca_gentb :: bool
  ca_laned_memory :: bool
  ca_bram_adr_width :: int
  ca_num_leds :: int
  ca_hexfile :: string
  ca_expose :: bool
  ca_extended :: bool
  ca_quiet :: int

definition cli_parameters :: "cli_args \<Rightarrow> dict" where
  "cli_parameters a =
     [(''language'', PStr (ca_hdl a)), (''laned_memory'', PBool (ca_laned_memory a)),
      (''bram_adr_width'', PInt (ca_bram_adr_width a)), (''num_leds'', PInt (ca_num_leds a)),
      (''enable_uart1'', PBool True), (''enable_spi'', PBool True),
      (''conversion_warnings'', PStr ''ignore''), (''diagnostics_quiet'', PInt (ca_quiet a))] @
     (if ca_hexfile a \<noteq> [] then [(''hexfile'', PStr (ca_hexfile a))] else []) @
     (if ca_gentb a then [(''gentb'', PBool True)] else []) @
     (if ca_extended a then [(''expose_wishbone_master'', PBool True), (''extended_soc'', PBool True)]
      else if ca_expose a then [(''expose_wishbone_master'', PBool True)] else []) @
     (if ca_extended a then
        [(''top_entity_name'', PStr ''bonfire_core_soc_top''),
         (''myhdl_entity_name'', PStr (if ca_name a \<noteq> [] then ca_name a else ''bonfire_core_myhdl_top''))]
      else if ca_name a \<noteq> [] then [(''top_entity_name'', PStr (ca_name a))]
      else if ca_gentb a then [(''top_entity_name'', PStr ''bonfire_core_soc_tb'')]
      else [(''top_entity_name'', PStr ''bonfire_core_soc_top'')])"

definition cli_run :: "toolchain \<Rightarrow> (string \<Rightarrow> string \<Rightarrow> string) \<Rightarrow> (string \<Rightarrow> bool) \<Rightarrow> string \<Rightarrow> string \<Rightarrow> string \<Rightarrow> template \<Rightarrow>
    cli_args \<Rightarrow> (string list \<times> string list) run" where
  "cli_run T resolve is_file now repo cwd wrapper a =
     generate T resolve is_file now (cli_parameters a) (if ca_hexfile a \<noteq> [] then repo else cwd)
       PNone False (Some wrapper) False"

subsection \<open>Rendering never misses a key\<close>

lemma has_key_iff: "has_key d k \<longleftrightarrow> k \<in> fst ` set d"
  by (auto simp: has_key_def map_of_eq_None_iff)

lemma dict_at_has_key: "has_key d k \<Longrightarrow> \<exists>v. dict_at d k = Inr v"
  by (auto simp: dict_at_def has_key_def)

lemma has_key_update [simp]: "has_key (AList.update k v d) k' \<longleftrightarrow> k' = k \<or> has_key d k'"
  by (auto simp: has_key_def update_conv')

lemma has_key_updates [simp]:
  "length ks = length vs \<Longrightarrow> has_key (AList.updates ks vs d) k' \<longleftrightarrow> k' \<in> set ks \<or> has_key d k'"
  by (induction ks vs arbitrary: d rule: list_induct2) auto

lemma bools_to_vhdl_total:
  "\<forall>k \<in> set ks. has_key d k \<Longrightarrow> \<exists>d'. bools_to_vhdl ks d = Inr d' \<and> (\<forall>k. has_key d' k = has_key d k)"
proof (induction ks arbitrary: d)
  case (Cons k ks)
  obtain v where "dict_at d k = Inr v" using Cons.prems dict_at_has_key by fastforce
  moreover obtain d' where "bools_to_vhdl ks (AList.update k (bool_vhdl v) d) = Inr d'"
    "\<forall>k'. has_key d' k' = has_key (AList.update k (bool_vhdl v) d) k'"
    using Cons.IH[of "AList.update k (bool_vhdl v) d"] Cons.prems by auto
  ultimately show ?case using Cons.prems by auto
qed auto

definition jtagg_keys :: "string list" where
  "jtagg_keys = [''jtaggComponentPorts'', ''jtaggSignals'', ''jtaggBridge'', ''jtaggPortMap'']"

lemma jtagg_template_config_total:
  assumes "has_key d ''enableJtagDebug''" "has_key d ''debugJtagTransport''"
  shows "\<exists>j. jtagg_template_config d = Inr j \<and> map fst j = jtagg_keys"
  using dict_at_has_key[OF assms(1)] dict_at_has_key[OF assms(2)]
  by (auto simp: jtagg_template_config_def jtagg_keys_def)

lemma prepare_total:
  assumes k: "set soc_config_keys \<subseteq> fst ` set d" and n: "dict_at d ''numLeds'' = Inr v"
  shows "py_int_of v = Inl e \<Longrightarrow> prepare_template_config now d = Inl e"
    "py_int_of v = Inr leds \<Longrightarrow> \<exists>d'. prepare_template_config now d = Inr d' \<and>
      (\<forall>k. has_key d' k \<longleftrightarrow> k \<in> {''generated'', ''numLeds_minus_one''} \<union> set jtagg_keys \<or> has_key d k)"
proof -
  have at: "dict_at (AList.update ''generated'' (PStr now) d) ''numLeds'' = Inr v"
    using n by (simp add: dict_at_def update_conv')
  then show "py_int_of v = Inl e \<Longrightarrow> prepare_template_config now d = Inl e"
    by (simp add: prepare_template_config_def Let_def)
  assume v: "py_int_of v = Inr leds"
  let ?c = "AList.update ''numLeds_minus_one'' (PInt (leds - 1)) (AList.update ''generated'' (PStr now) d)"
  have hk: "has_key d x" if "x \<in> set soc_config_keys" for x using k that by (auto simp: has_key_iff)
  obtain j where j: "jtagg_template_config ?c = Inr j" "map fst j = jtagg_keys"
    using jtagg_template_config_total[of ?c] hk by (auto simp: soc_config_keys_def)
  let ?e = "AList.updates (map fst j) (map snd j) ?c"
  have hj: "has_key ?e x \<longleftrightarrow> x \<in> set jtagg_keys \<or> has_key ?c x" for x
  proof -
    have "has_key ?e x \<longleftrightarrow> x \<in> set (map fst j) \<or> has_key ?c x" by (rule has_key_updates) simp
    then show ?thesis by (simp only: j(2))
  qed
  have "\<forall>x \<in> set vhdl_booleans. has_key ?e x"
    unfolding hj using hk by (auto simp: vhdl_booleans_def soc_config_keys_def)
  then obtain d' where d': "bools_to_vhdl vhdl_booleans ?e = Inr d'" "\<And>x. has_key d' x = has_key ?e x"
    using bools_to_vhdl_total by blast
  have "prepare_template_config now d = Inr d'"
    using at v j(1) d'(1) by (simp add: prepare_template_config_def Let_def)
  then show "\<exists>d'. prepare_template_config now d = Inr d' \<and>
      (\<forall>k. has_key d' k \<longleftrightarrow> k \<in> {''generated'', ''numLeds_minus_one''} \<union> set jtagg_keys \<or> has_key d k)"
    using d'(2) hj by auto
qed

lemma fields_known:
  "set soc_top_fields \<union> set tb_soc_fields \<union> set basic_jtagg_fields \<subseteq>
     {''generated'', ''numLeds_minus_one''} \<union> set jtagg_keys \<union> set soc_config_keys"
  by code_simp

text \<open>The result of rendering a template of the repository with a configuration of the builder.\<close>

abbreviation repository_template :: "template \<Rightarrow> bool" where
  "repository_template t \<equiv> t \<in> {Soc_Top_Template, Tb_Soc_Template, Basic_Jtagg_Template}"

lemma render_repository_template:
  assumes t: "repository_template t" and k: "map fst d = soc_config_keys"
    and n: "map_of d ''numLeds'' = Some v"
  shows "py_int_of v = Inl e \<Longrightarrow> render_template now t f d = ([], Inl e)"
    "py_int_of v = Inr leds \<Longrightarrow> \<exists>r. render_template now t f d = ([Render t f r], Inr ())"
proof -
  have k': "set soc_config_keys \<subseteq> fst ` set d" using k by (metis list.set_map order_refl)
  have n': "dict_at d ''numLeds'' = Inr v" using n by (simp add: dict_at_def)
  note p = prepare_total[OF k' n', where now = now]
  show "py_int_of v = Inl e \<Longrightarrow> render_template now t f d = ([], Inl e)"
    using p(1) by (simp add: render_template_def lift_run_def bind_run_simps)
  assume "py_int_of v = Inr leds"
  from p(2)[OF this] obtain r where r: "prepare_template_config now d = Inr r"
    "\<And>x. has_key r x \<longleftrightarrow> x \<in> {''generated'', ''numLeds_minus_one''} \<union> set jtagg_keys \<or> has_key d x" by blast
  have "filter (\<lambda>x. \<not> has_key r x) (template_fields t) = []"
    using t fields_known k' unfolding filter_empty_conv r(2)
    by (auto simp: template_fields_def has_key_iff split: template.splits)
  then show "\<exists>r. render_template now t f d = ([Render t f r], Inr ())"
    by (simp add: render_template_def r(1) run_defs bind_run_simps)
qed

subsection \<open>Runs that return\<close>

lemma bind_run_Inr:
  "bind_run m f = (as, Inr y) \<longleftrightarrow>
     (\<exists>bs x cs. m = (bs, Inr x) \<and> f x = (cs, Inr y) \<and> as = bs @ cs)"
  by (cases m; cases "snd m") (auto simp: bind_run_def split: prod.splits)

fun outputs :: "gen_action \<Rightarrow> string list" where
  "outputs (Convert conf tb hdl entity warnings written) = written"
| "outputs (Copy_Bridge f) = [f]"
| "outputs (Render t f d) = [f]"
| "outputs _ = []"

text \<open>The files beside the converted entity, for a configuration.\<close>

definition rtl_files :: "generation_config \<Rightarrow> bool \<Rightarrow> string list" where
  "rtl_files c wrapper =
     (if wrapper then [''ecp5_jtagg_bridge.vhd''] else []) @
     (if is_extended c \<or> wrapper then [entity_file (gn_top (gc_names c))] else [])"

definition sim_files :: "generation_config \<Rightarrow> bool \<Rightarrow> string list" where
  "sim_files c include_testbench =
     (if is_extended c \<and> include_testbench then [extended_testbench_file (gc_names c)] else [])"

lemma render_template_Inr:
  "render_template now t f d = (as, Inr u) \<Longrightarrow> \<exists>r. as = [Render t f r]"
  by (auto simp: render_template_def bind_run_Inr run_defs Let_def split: if_splits)

lemma extra_files_Inr:
  assumes "extra_files now wt tb c wrapper = (as, Inr (fs, ts))"
  shows "fs = rtl_files c wrapper" "ts = sim_files c tb" "concat (map outputs as) = fs @ ts"
  using assms
  by (auto simp: extra_files_def extended_templates_def bridge_if_def copy_ecp5_jtagg_bridge_def
      render_extended_wrapper_def render_extended_testbench_def render_basic_jtagg_wrapper_def
      bind_run_Inr rtl_files_def sim_files_def run_defs Let_def
      dest!: render_template_Inr split: if_splits)

lemma convert_myhdl_Inr:
  assumes "convert_myhdl T conf c = (as, Inr u)"
  obtains written rest where "as = Convert (soc_design_of conf c) (is_testbench c) (gc_hdl c)
      (py_str (gn_myhdl (gc_names c))) (gc_warnings c) written # rest"
    "tc_convert T (soc_design_of conf c) (is_testbench c) (gc_hdl c) (py_str (gn_myhdl (gc_names c)))
       (gc_warnings c) = (written, None)"
    "create_instance T (soc_design_of conf c) (is_testbench c) = Inr ()" "concat (map outputs rest) = []"
  using assms
  by (auto simp: convert_myhdl_def bind_run_Inr run_defs patch_stop_def Let_def
      split: prod.splits option.splits if_splits py_value.splits)

lemma generate_Inr:
  assumes "generate T resolve is_file now ps root vlnv wc wt tb = (as, Inr (files, ts))"
  obtains c wrapper conf cs bs fs where
    "build resolve is_file ps root = Inr c" "uses_ecp5_jtagg_wrapper c = Inr wrapper"
    "core_options_of ps (gc_soc_config c) = Inr conf" "convert_myhdl T conf c = (cs, Inr ())"
    "extra_files now wt tb c wrapper = (bs, Inr (fs, ts))"
    "files = [''pck_myhdl_011.vhd'', entity_file (gn_myhdl (gc_names c))] @ fs"
    "as = [Make_Directory, Remove (cleanup_names c wrapper)] @ cs @ bs @
       (if wc then [Write_Core (py_str (gn_top (gc_names c)) @ ''.core'') (core_text vlnv files ts)] else [])"
  using assms
  by (auto simp: generate_def after_cleanup_def write_core_file_def bind_run_Inr run_defs
      Let_def split: if_splits)

text \<open>MyHDL's documented behaviour: a conversion to VHDL writes the package and the entity, one to
  Verilog no VHDL file. The name of the language is not case-sensitive.\<close>

definition to_language :: "string \<Rightarrow> py_value \<Rightarrow> bool" where
  "to_language l h \<longleftrightarrow> (case h of PStr s \<Rightarrow> lower s = l | _ \<Rightarrow> False)"

definition myhdl_writes :: "toolchain \<Rightarrow> bool" where
  "myhdl_writes T \<longleftrightarrow> (\<forall>d tb h e w written. tc_convert T d tb h e w = (written, None) \<longrightarrow>
     (to_language ''vhdl'' h \<longrightarrow> set written = {''pck_myhdl_011.vhd'', e @ ''.vhd''}) \<and>
     (to_language ''verilog'' h \<longrightarrow> set written \<inter> {''pck_myhdl_011.vhd'', e @ ''.vhd''} = {}))"

text \<open>C39: A run that returns has first removed every file it lists, with the old core file, and
  ends with a core file that lists the package and the converted entity as VHDL files, and the files
  the generator itself has written, the bridge, the wrapper and the testbench, exactly and in the
  order of writing. If the language is VHDL these are all the files of the run and no other. If it
  is Verilog, the conversion has written neither the package nor the entity's VHDL file, yet both are
  listed.\<close>

theorem generated_core_lists_outputs:
  assumes "myhdl_writes T"
    and "generate T resolve is_file now ps root vlnv True wt tb = (as, Inr (files, ts))"
  shows "\<exists>c converted extra removed core rest. build resolve is_file ps root = Inr c \<and>
     concat (map outputs as) = converted @ extra \<and>
     files @ ts = [''pck_myhdl_011.vhd'', entity_file (gn_myhdl (gc_names c))] @ extra \<and>
     as = [Make_Directory, Remove removed] @ rest @ [Write_Core core (core_text vlnv files ts)] \<and>
     set (files @ ts) \<subseteq> set removed \<and> core \<in> set removed \<and>
     (to_language ''vhdl'' (param ps ''language'' (PStr ''VHDL'')) \<longrightarrow>
        set (concat (map outputs as)) = set (files @ ts)) \<and>
     (to_language ''verilog'' (param ps ''language'' (PStr ''VHDL'')) \<longrightarrow>
        set converted \<inter> {''pck_myhdl_011.vhd'', entity_file (gn_myhdl (gc_names c))} = {})"
  using assms(2)
proof (rule generate_Inr)
  fix c wrapper conf cs bs fs
  assume b: "build resolve is_file ps root = Inr c"
    and v: "convert_myhdl T conf c = (cs, Inr ())"
    and e: "extra_files now wt tb c wrapper = (bs, Inr (fs, ts))"
    and f: "files = [''pck_myhdl_011.vhd'', entity_file (gn_myhdl (gc_names c))] @ fs"
    and as: "as = [Make_Directory, Remove (cleanup_names c wrapper)] @ cs @ bs @
       (if True then [Write_Core (py_str (gn_top (gc_names c)) @ ''.core'') (core_text vlnv files ts)] else [])"
  obtain written rest where w: "concat (map outputs cs) = written"
    "tc_convert T (soc_design_of conf c) (is_testbench c) (gc_hdl c) (py_str (gn_myhdl (gc_names c)))
       (gc_warnings c) = (written, None)"
    using convert_myhdl_Inr[OF v] by (metis concat.simps(2) list.simps(9) outputs.simps(1) append_Nil2)
  have h: "gc_hdl c = param ps ''language'' (PStr ''VHDL'')" using b by (auto simp: build_def bindr_eq_Inr)
  have n: "set (files @ ts) \<subseteq> set (cleanup_names c wrapper)"
    "py_str (gn_top (gc_names c)) @ ''.core'' \<in> set (cleanup_names c wrapper)"
    by (auto simp: f extra_files_Inr(1,2)[OF e] rtl_files_def sim_files_def cleanup_names_def)
  have o': "concat (map outputs as) = written @ fs @ ts" using w(1) extra_files_Inr(3)[OF e] by (simp add: as)
  have l: "to_language ''vhdl'' (gc_hdl c) \<Longrightarrow> set written = {''pck_myhdl_011.vhd'', entity_file (gn_myhdl (gc_names c))}"
    "to_language ''verilog'' (gc_hdl c) \<Longrightarrow> set written \<inter> {''pck_myhdl_011.vhd'', entity_file (gn_myhdl (gc_names c))} = {}"
    using assms(1) w(2) unfolding myhdl_writes_def entity_file_def by blast+
  show ?thesis
    using b o' n l as by (intro exI[of _ c] exI[of _ written] exI[of _ "fs @ ts"] exI[of _ "cleanup_names c wrapper"]
      exI[of _ "py_str (gn_top (gc_names c)) @ ''.core''"] exI[of _ "cs @ bs"]) (simp add: f h[symmetric])
qed

subsection \<open>The result of every run\<close>

lemma snd_bind_run: "snd (bind_run m f) = (case snd m of Inl e \<Rightarrow> Inl e | Inr x \<Rightarrow> snd (f x))"
  by (cases m; cases "snd m") (simp_all add: bind_run_simps)

abbreviation repository_wrapper :: "template option \<Rightarrow> bool" where
  "repository_wrapper wt \<equiv> wt \<in> {None, Some Soc_Top_Template}"

lemma extra_files_result:
  assumes k: "map fst (gc_soc_config c) = soc_config_keys" and n: "map_of (gc_soc_config c) ''numLeds'' = Some v"
    and wt: "repository_wrapper wt"
  shows "snd (extra_files now wt tb c wrapper) =
    (if is_extended c \<or> wrapper
     then bindr (py_int_of v) (\<lambda>_. Inr (rtl_files c wrapper, sim_files c tb)) else Inr ([], []))"
proof -
  note r = render_repository_template[OF _ k n, where now = now]
  have t: "repository_template (case wt of None \<Rightarrow> Soc_Top_Template | Some t \<Rightarrow> t)" using wt by auto
  have e: "snd (render_template now t f (gc_soc_config c)) = bindr (py_int_of v) (\<lambda>_. Inr ())"
    if rt: "repository_template t" for t f
  proof (cases "py_int_of v")
    case (Inr leds)
    then obtain d where "render_template now t f (gc_soc_config c) = ([Render t f d], Inr ())"
      using r(2)[OF rt] by blast
    then show ?thesis by (simp add: Inr)
  qed (simp add: r(1)[OF rt])
  show ?thesis
    by (cases "py_int_of v")
       (auto simp: extra_files_def extended_templates_def bridge_if_def copy_ecp5_jtagg_bridge_def
          render_extended_wrapper_def render_extended_testbench_def render_basic_jtagg_wrapper_def
          snd_bind_run run_defs Let_def rtl_files_def sim_files_def e[OF t] e)
qed

definition needs_template :: "dict \<Rightarrow> string \<Rightarrow> bool" where
  "needs_template ps kind \<longleftrightarrow> kind = EXTENDED_SOC_TOP \<or> kind = BASIC_SOC_TOP \<and> jtagg_requested ps"

text \<open>The width of a vector made by slicing \<open>modbv(0)\<close> down from \<open>n\<close>, as MyHDL documents it.\<close>

definition myhdl_vectors :: "toolchain \<Rightarrow> bool" where
  "myhdl_vectors T \<longleftrightarrow> (\<forall>n. if 0 < n then tc_vector T (PInt n) = Inr (nat n) else isl (tc_vector T (PInt n)))"

text \<open>C38: The result of a run with the templates of the repository, for all parameters: the first error
  among those of the builder, of the core options, of the instantiation and conversion of the
  design and, when a template is rendered, of the number of LEDs, in this order, and otherwise the
  file lists; no template field and no key is ever missing. In particular no run returns whose number
  of LEDs is an integer outside 1 to 8, and none that generates a testbench with the ECP5 debug
  transport, although the builder accepts both.\<close>

theorem generate_result:
  assumes "myhdl_vectors T"
  shows "snd (generate T resolve is_file now ps root vlnv wc None tb) =
     bindr (build resolve is_file ps root) (\<lambda>c.
     bindr (core_options_of ps (gc_soc_config c)) (\<lambda>conf.
     bindr (snd (convert_myhdl T conf c)) (\<lambda>_.
     bindr (if needs_template ps (gc_kind c) then py_int_of (param ps ''num_leds'' (PInt 4)) else Inr 0) (\<lambda>_.
       let wrapper = gc_kind c \<noteq> BASIC_SOC_TESTBENCH \<and> jtagg_requested ps in
       Inr ([''pck_myhdl_011.vhd'', entity_file (gn_myhdl (gc_names c))] @ rtl_files c wrapper,
            sim_files c tb))))) \<and>
     (\<forall>n. param ps ''num_leds'' (PInt 4) = PInt n \<and> n \<notin> {1..8} \<longrightarrow>
        isl (snd (generate T resolve is_file now ps root vlnv wc None tb))) \<and>
     (select_generation_kind ps = Inr BASIC_SOC_TESTBENCH \<and> jtagg_requested ps \<longrightarrow>
        isl (snd (generate T resolve is_file now ps root vlnv wc None tb)))"
proof (cases "build resolve is_file ps root")
  case (Inl e)
  then show ?thesis by (simp add: generate_def snd_bind_run run_defs)
next
  case (Inr c)
  define w where "w \<longleftrightarrow> gc_kind c \<noteq> BASIC_SOC_TESTBENCH \<and> jtagg_requested ps"
  note b = build_Inr[OF Inr]
  note s = build_soc_config_Inr(1)[OF b(4)]
  have k: "gc_kind c \<in> {BASIC_SOC_TOP, BASIC_SOC_TESTBENCH, EXTENDED_SOC_TOP}"
    using select_kind_ok[OF b(2)] by (simp add: generation_kinds_def)
  have n: "needs_template ps (gc_kind c) \<longleftrightarrow> is_extended c \<or> w"
    using k by (auto simp: needs_template_def is_extended_def w_def)
  have e: "snd (extra_files now None tb c w) =
      (if needs_template ps (gc_kind c)
       then bindr (py_int_of (param ps ''num_leds'' (PInt 4))) (\<lambda>_. Inr (rtl_files c w, sim_files c tb))
       else Inr ([], []))"
    unfolding n by (rule extra_files_result) (simp_all add: s soc_config_keys soc_config_lookup)
  have f: "rtl_files c w = []" "sim_files c tb = []" if "\<not> needs_template ps (gc_kind c)"
    using that unfolding n by (auto simp: rtl_files_def sim_files_def)
  have g: "snd (generate T resolve is_file now ps root vlnv wc None tb) =
     bindr (core_options_of ps (gc_soc_config c)) (\<lambda>conf.
     bindr (snd (convert_myhdl T conf c)) (\<lambda>_.
     bindr (if needs_template ps (gc_kind c) then py_int_of (param ps ''num_leds'' (PInt 4)) else Inr 0) (\<lambda>_.
       Inr ([''pck_myhdl_011.vhd'', entity_file (gn_myhdl (gc_names c))] @ rtl_files c w, sim_files c tb))))"
    by (cases "py_int_of (param ps ''num_leds'' (PInt 4))")
       (auto simp: generate_def after_cleanup_def write_core_file_def snd_bind_run run_defs
        Inr uses_wrapper_of_build[OF Inr, folded w_def] e f Let_def split: sum.splits)
  have bad: "isl (snd (generate T resolve is_file now ps root vlnv wc None tb))"
    if i: "\<And>conf. isl (create_instance T (soc_design_of conf c) (is_testbench c))"
  proof -
    have "isl (snd (convert_myhdl T conf c))" for conf
      using i[of conf] by (auto simp: convert_myhdl_def snd_bind_run run_defs Let_def isl_def)
    moreover have "isl m \<Longrightarrow> isl (bindr m f)" for m :: "gen_error + unit" and f :: "unit \<Rightarrow> gen_error + string list \<times> string list"
      by (cases m) simp_all
    ultimately show ?thesis unfolding g by (cases "core_options_of ps (gc_soc_config c)") simp_all
  qed
  have leds: "isl (create_instance T (soc_design_of conf c) tb')"
    if "param ps ''num_leds'' (PInt 4) = PInt m" "m \<notin> {1..8}" for m conf tb'
  proof -
    have v: "if 0 < m then tc_vector T (PInt m) = Inr (nat m) else isl (tc_vector T (PInt m))"
      using assms unfolding myhdl_vectors_def by blast
    have "param (sd_soc_config (soc_design_of conf c)) ''numLeds'' (PInt 4) = PInt m"
      by (simp add: soc_design_of_def s param_def[of "soc_config_of _ _ _"] soc_config_lookup that(1))
    then show ?thesis
      using v that(2) by (cases "tc_vector T (PInt m)") (auto simp: create_instance_def soc_assertions_def split: if_splits)
  qed
  have jtagg: "isl (create_instance T (soc_design_of conf c) True)" if "jtagg_requested ps" for conf
  proof -
    have "\<not> py_eq (param ps ''debug_jtag_transport'' (PStr ''native'')) (PStr ''native'')"
      using that by (cases "param ps ''debug_jtag_transport'' (PStr ''native'')") auto
    then show ?thesis
      using that by (cases "tc_vector T (param (gc_soc_config c) ''numLeds'' (PInt 4))")
        (auto simp: create_instance_def soc_design_of_def soc_assertions_def s param_def[of "soc_config_of _ _ _"]
          soc_config_lookup)
  qed
  show ?thesis
    using g bad leds jtagg b(2) by (auto simp: Inr w_def Let_def is_testbench_def)
qed

subsection \<open>Conversions\<close>

lemma fst_bind_run:
  "fst (bind_run m f) = fst m @ (case snd m of Inl _ \<Rightarrow> [] | Inr x \<Rightarrow> fst (f x))"
  by (cases m; cases "snd m") (simp_all add: bind_run_simps)

lemmas run_results = fst_bind_run snd_bind_run run_defs

definition conversions :: "gen_action list \<Rightarrow> gen_action list" where
  "conversions as = filter (\<lambda>a. case a of Convert _ _ _ _ _ _ \<Rightarrow> True | _ \<Rightarrow> False) as"

lemma conversions_simps [simp]:
  "conversions [] = []"
  "conversions (as @ bs) = conversions as @ conversions bs"
  "conversions (Convert o' t h e w f # as) = Convert o' t h e w f # conversions as"
  "conversions (Patch_Stop pf # as) = conversions as"
  "conversions (Render tm rf d # as) = conversions as" "conversions (Copy_Bridge bf # as) = conversions as"
  "conversions (Remove fs # as) = conversions as" "conversions (Make_Directory # as) = conversions as"
  "conversions (Write_Core cf x # as) = conversions as"
  by (simp_all add: conversions_def)

lemma conversions_render: "conversions (fst (render_template now tm f d)) = []"
  by (auto simp: render_template_def run_results Let_def split: sum.splits)

lemma conversions_extra: "conversions (fst (extra_files now wt tb c wrapper)) = []"
  by (auto simp: extra_files_def extended_templates_def bridge_if_def copy_ecp5_jtagg_bridge_def
      render_extended_wrapper_def render_extended_testbench_def render_basic_jtagg_wrapper_def
      run_results conversions_render Let_def split: sum.splits prod.splits)

lemma conversions_convert:
  "conversions (fst (convert_myhdl T conf c)) =
     (let d = soc_design_of conf c; tb = is_testbench c; e = py_str (gn_myhdl (gc_names c)) in
      case create_instance T d tb of
        Inl _ \<Rightarrow> []
      | Inr _ \<Rightarrow> [Convert d tb (gc_hdl c) e (gc_warnings c) (fst (tc_convert T d tb (gc_hdl c) e (gc_warnings c)))])"
  by (auto simp: convert_myhdl_def patch_stop_def run_results Let_def
      split: sum.splits prod.splits option.splits py_value.splits)

lemma core_options_ok:
  "core_options_of ps d = Inr conf \<Longrightarrow>
     co_pipeline_length conf \<in> {3, 4} \<and> (co_writeback_bypass conf \<longrightarrow> co_pipeline_length conf = 4) \<and>
     co_debug_module conf = py_truth (param d ''enableJtagDebug'' (PBool False))"
  by (auto simp: core_options_of_def bindr_eq_Inr Let_def split: if_splits)

text \<open>A run converts at most once, and only parameters that the builder has accepted and that give a valid
  core: the pipeline has three or four stages, four when the write-back bypass is on, the core has
  a debug module exactly if the SoC has the JTAG debug transport, and the converted entity is the
  testbench exactly for a testbench kind.\<close>

lemma conversion_only_valid:
  assumes "Convert d t h e w f \<in> set (fst (generate T resolve is_file now ps root vlnv wc wt tb))"
  shows "conversions (fst (generate T resolve is_file now ps root vlnv wc wt tb)) = [Convert d t h e w f] \<and>
     co_pipeline_length (sd_options d) \<in> {3, 4} \<and>
     (co_writeback_bypass (sd_options d) \<longrightarrow> co_pipeline_length (sd_options d) = 4) \<and>
     co_debug_module (sd_options d) = py_truth (param ps ''enable_jtag_debug'' (PBool False)) \<and>
     (t \<longleftrightarrow> select_generation_kind ps = Inr BASIC_SOC_TESTBENCH)"
proof -
  let ?as = "fst (generate T resolve is_file now ps root vlnv wc wt tb)"
  have m: "Convert d t h e w f \<in> set (conversions ?as)" using assms by (simp add: conversions_def)
  obtain c where c: "build resolve is_file ps root = Inr c"
    using m by (cases "build resolve is_file ps root") (simp_all add: generate_def run_results)
  have eq: "conversions ?as =
     (case core_options_of ps (gc_soc_config c) of
        Inl _ \<Rightarrow> [] | Inr conf \<Rightarrow> conversions (fst (convert_myhdl T conf c)))"
    by (auto simp: generate_def after_cleanup_def write_core_file_def run_results c uses_wrapper_of_build[OF c]
        conversions_extra Let_def split: sum.splits prod.splits)
  then obtain conf where o': "core_options_of ps (gc_soc_config c) = Inr conf"
    and v: "conversions ?as = conversions (fst (convert_myhdl T conf c))"
    using m by (auto split: sum.splits)
  have "conversions ?as = [Convert d t h e w f]" "sd_options d = conf" "t = is_testbench c"
    using m unfolding v conversions_convert by (auto simp: Let_def soc_design_of_def split: sum.splits)
  moreover have "param (gc_soc_config c) ''enableJtagDebug'' (PBool False) = param ps ''enable_jtag_debug'' (PBool False)"
    using build_soc_config_Inr(1)[OF build_Inr(4)[OF c]] by (simp add: param_def[of "soc_config_of _ _ _"] soc_config_lookup)
  ultimately show ?thesis
    using core_options_ok[OF o'] build_Inr(2)[OF c] by (simp add: is_testbench_def)
qed

subsection \<open>The command line\<close>

lemma cli_known: "validate_parameters (cli_parameters a) = Inr ()"
  by (auto simp: validate_parameters_def cli_parameters_def allowed_parameters_def control_parameters_def
      soc_parameter_defaults_def filter_empty_conv)

lemma cli_param:
  "param (cli_parameters a) ''generation_kind'' v = v"
  "param (cli_parameters a) ''gentb'' (PBool False) = PBool (ca_gentb a)"
  "param (cli_parameters a) ''extended_soc'' (PBool False) = PBool (ca_extended a)"
  "param (cli_parameters a) ''entity_name'' v = v"
  "param (cli_parameters a) ''enable_jtag_debug'' v = v"
  "param (cli_parameters a) ''debug_jtag_transport'' v = v"
  "param (cli_parameters a) ''hexfile'' (PStr []) = PStr (ca_hexfile a)"
  "param (cli_parameters a) ''diagnostics_quiet'' v = PInt (ca_quiet a)"
  "param (cli_parameters a) ''top_entity_name'' v = PStr (if ca_extended a then ''bonfire_core_soc_top''
     else if ca_name a \<noteq> [] then ca_name a else if ca_gentb a then ''bonfire_core_soc_tb'' else ''bonfire_core_soc_top'')"
  "\<not> ca_extended a \<Longrightarrow> param (cli_parameters a) ''myhdl_entity_name'' v = v"
  "has_key (cli_parameters a) ''entity_name'' = False"
  by (simp_all add: param_def cli_parameters_def has_key_def map_add_def)

text \<open>The command line only builds parameters the builder accepts: whatever the options, the run is of the
  kind asked for (an extended SoC before a testbench), and the one thing that can fail is a
  hexfile that does not exist.\<close>

lemma cli_parameters_accepted:
  "case build resolve is_file (cli_parameters a) root of
     Inl e \<Rightarrow> ca_hexfile a \<noteq> [] \<and> \<not> is_file (resolve root (ca_hexfile a)) \<and>
       e = Hexfile_Not_Found (resolve root (ca_hexfile a))
   | Inr c \<Rightarrow> gc_kind c = (if ca_extended a then EXTENDED_SOC_TOP
       else if ca_gentb a then BASIC_SOC_TESTBENCH else BASIC_SOC_TOP)"
  by (auto simp: build_def cli_known select_generation_kind_def build_generated_names_def select_top_entity_def
      build_soc_config_eq valid_transport_def resolve_hexfile_def resolve_single_hexfile_def py_int_of_def
      cli_param Let_def)

text \<open>An extended SoC whose two names are equal is not rejected: the wrapper then overwrites the converted
  entity, and the file is listed twice.\<close>

definition example_tools :: toolchain where
  "example_tools = \<lparr>
     tc_vector = (\<lambda>v. bindr (py_int_of v) (\<lambda>n. if n \<le> 0 then Inl (Myhdl_Error ''range'') else Inr (nat n))),
     tc_elaborates = (\<lambda>_ _. True),
     tc_convert = (\<lambda>d tb h e w. if to_language ''vhdl'' h then ([''pck_myhdl_011.vhd'', e @ ''.vhd''], None)
       else if to_language ''verilog'' h then ([e @ ''.v''], None) else ([], Some (Myhdl_Error ''hdl'')))\<rparr>"

definition clash_args :: cli_args where
  "clash_args = \<lparr>ca_name = ''bonfire_core_soc_top'', ca_hdl = ''VHDL'', ca_gentb = False, ca_laned_memory = True,
     ca_bram_adr_width = 11, ca_num_leds = 4, ca_hexfile = '''', ca_expose = False, ca_extended = True, ca_quiet = 0\<rparr>"

lemma extended_name_clash:
  "snd (cli_run example_tools (\<lambda>r f. f) (\<lambda>_. False) ''now'' ''repo'' ''cwd'' Soc_Top_Template clash_args) =
     Inr ([''pck_myhdl_011.vhd'', ''bonfire_core_soc_top.vhd'', ''bonfire_core_soc_top.vhd''], [])"
  by code_simp

lemma example_tools_ok: "myhdl_writes example_tools" "myhdl_vectors example_tools"
proof -
  have "a @ ''.v'' \<noteq> b @ ''.vhd''" for a b :: string
  proof
    assume "a @ ''.v'' = b @ ''.vhd''"
    then have "last (a @ ''.v'') = last (b @ ''.vhd'')" by simp
    then show False by simp
  qed
  from this[of _ "''pck_myhdl_011''"] this have "a @ ''.v'' \<noteq> ''pck_myhdl_011.vhd''" "a @ ''.v'' \<noteq> a @ ''.vhd''" for a
    by simp_all
  then show "myhdl_writes example_tools"
    by (auto simp: myhdl_writes_def example_tools_def to_language_def split: if_splits py_value.splits)
  show "myhdl_vectors example_tools"
    by (simp add: myhdl_vectors_def example_tools_def py_int_of_def)
qed

definition example_run :: "string \<Rightarrow> (string list \<times> string list) run" where
  "example_run hdl = generate example_tools (\<lambda>root f. f) (\<lambda>p. False) ''now''
     [(''extended_soc'', PBool True), (''language'', PStr hdl)] ''fw'' (PStr ''::soc:0'') True None True"

lemma example_run_returns:
  "hdl \<in> {''VHDL'', ''Verilog''} \<Longrightarrow>
   snd (example_run hdl) = Inr ([''pck_myhdl_011.vhd'', ''bonfire_core_myhdl_top.vhd'', ''bonfire_core_soc_top.vhd''],
     [''tb_bonfire_core_soc_top.vhd''])"
  by (elim insertE emptyE; hypsubst; code_simp)

text \<open>The same run in both languages: the lists are the same, the files are not.\<close>

theorem generated_core_lists_outputs_witness:
  "let files = [''pck_myhdl_011.vhd'', ''bonfire_core_myhdl_top.vhd'', ''bonfire_core_soc_top.vhd''];
       testbench = [''tb_bonfire_core_soc_top.vhd'']
   in set (concat (map outputs (fst (example_run ''VHDL'')))) = set (files @ testbench) \<and>
     (\<exists>removed rest core. fst (example_run ''Verilog'') =
        [Make_Directory, Remove removed] @ rest @ [Write_Core core (core_text (PStr ''::soc:0'') files testbench)])"
proof -
  define fs where "fs = [''pck_myhdl_011.vhd'', ''bonfire_core_myhdl_top.vhd'', ''bonfire_core_soc_top.vhd'']"
  define ts where "ts = [''tb_bonfire_core_soc_top.vhd'']"
  define ps where "ps = (\<lambda>hdl. [(''extended_soc'', PBool True), (''language'', PStr hdl)])"
  define V L where "V = ''VHDL''" and "L = ''Verilog''"
  have r: "generate example_tools (\<lambda>root f. f) (\<lambda>p. False) ''now'' (ps hdl) ''fw'' (PStr ''::soc:0'') True None True =
      (fst (example_run hdl), Inr (fs, ts))" if "hdl \<in> {V, L}" for hdl
    unfolding fs_def ts_def example_run_returns[OF that[unfolded V_def L_def], symmetric] ps_def
    by (simp add: example_run_def)
  have l: "to_language ''vhdl'' (param (ps V) ''language'' (PStr ''VHDL''))" unfolding ps_def V_def by code_simp
  have "V \<in> {V, L}" "L \<in> {V, L}" by simp_all
  note g = this[THEN r, THEN generated_core_lists_outputs[OF example_tools_ok(1)]]
  have "to_language ''vhdl'' (param (ps V) ''language'' (PStr ''VHDL'')) \<longrightarrow>
      set (concat (map outputs (fst (example_run V)))) = set (fs @ ts)"
    using g(1) by (elim exE conjE)
  moreover have "\<exists>removed rest core. fst (example_run L) =
      [Make_Directory, Remove removed] @ rest @ [Write_Core core (core_text (PStr ''::soc:0'') fs ts)]"
    using g(2) by (elim exE conjE) (intro exI)
  ultimately show ?thesis
    using l unfolding Let_def fs_def[symmetric] ts_def[symmetric] V_def[symmetric] L_def[symmetric] by blast
qed

text \<open>Nine LEDs.\<close>

theorem generate_result_witness:
  "isl (snd (generate example_tools (\<lambda>root f. f) (\<lambda>p. False) ''now'' [(''num_leds'', PInt 9)] ''fw''
     (PStr ''::soc:0'') True None True))"
proof -
  define ps where "ps = [(''num_leds'', PInt 9)]"
  have p: "param ps ''num_leds'' (PInt 4) = PInt 9" by (simp add: ps_def param_def)
  have "\<forall>n. param ps ''num_leds'' (PInt 4) = PInt n \<and> n \<notin> {1..8} \<longrightarrow>
      isl (snd (generate example_tools (\<lambda>root f. f) (\<lambda>p. False) ''now'' ps ''fw'' (PStr ''::soc:0'') True None True))"
    by (rule conjunct1[OF conjunct2[OF generate_result[OF example_tools_ok(2)]]])
  from spec[OF this, of 9] show ?thesis by (simp add: p ps_def[symmetric])
qed

end
