(* ===== verification/Spec2Isabelle.thy ===== *)
theory Spec2Isabelle
  imports Divider Core_Simulation Ecp5_Jtagg Debug_Control Jtag_Api Soc Cache_Session Gdb_Registers Gdb_Breakpoints Gdb_Run Disassembler
    Soc_Generation
begin

text \<open>
  \<^bold>\<open>Bonfire Core\<close>, a configurable RV32I processor in MyHDL (\<open>src/rtl\<close>), with its debug module
  and its JTAG transport. The development models the registers and the logic of the parts as
  HOL functions and proves what the parts, and the parts together, promise.

  \<^bold>\<open>How hardware is modelled.\<close> A MyHDL block becomes a record of its registers and one function
  per clocked process; an \<open>@always_comb\<close> process is a function of the current signals. Every
  function of a clock edge reads the old state only, as signal assignments in MyHDL do. An
  \<open>@always_seq\<close> process resets every register it drives; a plain \<open>@always\<close> process resets what
  its body names. \<open>modbv\<close> values are words and wrap; the one \<open>intbv\<close> that can leave its range,
  the instruction pointer of the fetch unit, makes \<open>fetch_step\<close> return \<open>None\<close> there. Field names
  carry a prefix for their record and otherwise the names of the sources.

  \<^bold>\<open>Theories\<close>
  \<^item> \<open>Bonfire_Prelude\<close>: bit slices and concatenation of \<open>modbv\<close> and runs of a clocked process.
  \<^item> \<open>Config\<close>: \<open>rtl/config.py\<close> and the opcode constants of \<open>rtl/instructions.py\<close>.
  \<^item> \<open>Barrel_Shifter\<close>, \<open>Alu\<close>, \<open>Divider\<close>: the arithmetic units against the RV32I and RV32M
    operations.
  \<^item> \<open>Isa_Spec\<close>: instructions, their encoding and meaning; \<open>Decode\<close>: \<open>rtl/decode.py\<close> recovers
    them.
  \<^item> \<open>Bus\<close>, \<open>Loadstore\<close>: the bus bundle and \<open>rtl/loadstore.py\<close>, transactions with any number of
    wait states.
  \<^item> \<open>Trap\<close>, \<open>Debug_Csrs\<close>, \<open>Csr\<close>: the CSR unit with its trap and debug registers.
  \<^item> \<open>Execute\<close>: \<open>rtl/execute.py\<close>; \<open>Regfile\<close>: \<open>rtl/regfile.py\<close>; \<open>Fetch\<close>: \<open>rtl/fetch.py\<close> on any
    instruction bus with one request at a time, stalls and answer times chosen by the bus, with safety
    (the words in order) and progress (words keep coming); the one hang is proved as well.
  \<^item> \<open>Pipeline\<close>: \<open>rtl/simple_pipeline.py\<close>, \<open>rtl/pipelined_backend.py\<close> and
    \<open>rtl/bonfire_core_top.py\<close>: the backend refines the instruction set.
  \<^item> \<open>Core_Program\<close>: the core with an instruction and a data memory, and the instruction set
    machine; what a taken instruction does to registers, memory and program counter.
    \<open>Core_Simulation\<close>: every clock edge of the whole core, fetch unit included, is a step of the
    machine or none, and the steps keep coming.
  \<^item> \<open>Tap_Fsm\<close>, \<open>Dtm_Transport\<close>, \<open>Jtag_Dtm\<close>: the JTAG transport from the TAP controller to the
    debug module interface in the core's clock domain. \<open>Ecp5_Jtagg\<close>: the second transport, on the
    hard TAP of the ECP5 (\<open>rtl/debug/ecp5_jtagg_client.py\<close>, \<open>rtl/debug/ecp5_jtagg_tap.py\<close>),
    which from reset no host can tell from the first as long as it selects the two debug registers
    only and scans what it has selected; after another selection they differ.
  \<^item> \<open>Dmi\<close>: the registers of the debug module; \<open>Debug_Core\<close>: abstract commands, halting,
    stepping, the pipeline adapter and the core with debug module.
  \<^item> \<open>Device_Port\<close>: the contract of a device used by complete accesses, as a locale; sessions of
    accesses refine an abstract machine. \<open>Debug_Access\<close> interprets it on the register accesses of
    the debugger, \<open>Soc\<close> on the accesses of the SoC's bus master, \<open>Cache_Session\<close> on those of the
    cache's.
  \<^item> \<open>Debug_Access\<close>, \<open>Debug_Control\<close>: what the debugger sees and changes, halting and single
    steps.
  \<^item> \<open>Debug_Api\<close>: the host's side, \<open>tb/debug/debug_api.py\<close>. What it needs of a transport is the
    locale \<open>debug_transport\<close>; inside it the register accesses and their polling loops are proved
    against the core. It is interpreted on the direct transport of \<open>tb/debug/dmi_api.py\<close> and, in
    \<open>Jtag_Api\<close>, on \<open>tb/debug/jtag_api.py\<close>: instruction and data scans through the TAP controller,
    the clock-domain crossing and the debug module of the running core.
  \<^item> \<open>Interconnect\<close>: \<open>rtl/uncore/dbus_interconnect.py\<close>, the checks of the address map and the
    multiplexer with combinational and registered slots.
  \<^item> \<open>Ram\<close>: \<open>rtl/uncore/ram_dp.py\<close>, the word and the laned RAM; \<open>Peripherals\<close>: the LED register,
    the Wishbone dummy and the Wishbone adapter; \<open>Uart\<close>: \<open>rtl/uncore/uart/uart.py\<close>, frames on the
    line as functions of time.
  \<^item> \<open>Soc\<close>: the data side of \<open>rtl/soc/bonfire_core_soc.py\<close>, the two interconnects with their slaves.
  \<^item> \<open>Cache\<close>: the write-back cache of \<open>rtl/cache\<close> for every configuration; \<open>Cache_Memory\<close>: the phases
    of an access, from the tag lookup through write-back and refill to the hit, as a step relation;
    \<open>Cache_Session\<close>: cache and memory together are a flat memory, and how a reset of one cycle
    breaks this.
  \<^item> \<open>Gdb_Rsp\<close>: \<open>gdbserver/gdb_rsp.py\<close>, the packets and the command handlers of the GDB server over
    the debugger's operations as a parameter; \<open>Gdb_Protocol\<close>: requests and replies on the line;
    \<open>Gdb_Memory\<close>, \<open>Gdb_Registers\<close>, \<open>Gdb_Breakpoints\<close>, \<open>Gdb_Run\<close>: what the commands do to a target
    whose operations work as those of this core do: memory at some addresses only, accesses to it
    may overwrite registers, \<open>x0\<close> fixed, \<open>dpc\<close> without its low two bits, the cause in \<open>dcsr\<close> set
    by the hart. The witnesses run on such a target, \<open>plain_api\<close>.
  \<^item> \<open>Python_Values\<close>: the strings, numbers and dictionary values of the Python programs.
    \<open>Disassembler\<close>: \<open>tb/disassemble.py\<close> prints what \<open>Isa_Spec\<close> encodes, without ambiguity.
  \<^item> \<open>Soc_Generator\<close>, \<open>Soc_Generation\<close>: the SoC generator of \<open>fusesoc-cores/generators\<close>; the first
    checks and completes the parameters, the second is a run of the generator as the list of its
    actions. The file system and the time are parameters; so is what MyHDL does, as a \<open>toolchain\<close>
    that may fail, while the assertions of \<open>rtl/soc/bonfire_core_soc.py\<close> on the way, and the exits
    of \<open>rtl/soc/bonfire_core_soc_generator.py\<close>, are part of the model.

  \<^bold>\<open>Bounds.\<close> \<open>xlen\<close> is 32 and a debug module address has 7 bits, the values every configuration
  of the sources uses. Runs are over explicit lists of inputs, one per clock edge, so no fuel is
  needed there. A cache access takes the fuel \<open>access_bound\<close>, two bursts with the longest wait of
  the memory for each word and six cycles more; the polling loop of a single step takes
  a number of turns, and one more than the clocks until the target stops are enough. The polling loops of the debug API
  have no bound; that they return is a theorem. A TCK period of \<open>Jtag_Api\<close> has any number of core
  edges from three on, the number the host waits for after every falling edge.

  \<^bold>\<open>Not modelled.\<close> Log output, the conversion to VHDL, which MyHDL does, and the text of the
  rendered templates, test benches, and the socket and simulator glue of the host tools.
\<close>

end
